(* ===== verification/Prelude.thy ===== *)
theory Prelude
  imports Main "HOL-Library.Word"
begin

unbundle bit_operations_syntax

text \<open>
  What the component theories share: names for Go's machine integers, the state-and-error
  combinators in which every Go function that returns an \<open>error\<close> is written, and generic
  lemmas on words, masks and byte lists.
\<close>

section \<open>Go's integers\<close>

text \<open>
  \<open>uint8\<close> to \<open>uint64\<close> are words of that width. A Go \<open>int\<close> or \<open>int64\<close> that takes part in
  wrap-around or bitwise arithmetic is a \<open>64 word\<close> read with \<open>sint\<close>; an \<open>int\<close> that only
  counts (lengths, widths, register indices) is a \<open>nat\<close>.
\<close>

type_synonym u8 = "8 word"
type_synonym u16 = "16 word"
type_synonym u32 = "32 word"
type_synonym u64 = "64 word"

section \<open>Functions that return an error: state and result\<close>

text \<open>
  A Go method \<open>func (s *S) f(...) (T, error)\<close> is a function from the state to a result,
  \<open>Inl\<close> the error or \<open>Inr\<close> the value, and the state it leaves: Go keeps the writes made
  before an error is returned, so the state is returned on both branches.
\<close>

type_synonym ('s, 'e, 'a) sem = "'s \<Rightarrow> ('e + 'a) \<times> 's"

definition ret :: "'a \<Rightarrow> ('s, 'e, 'a) sem" where
  "ret a = (\<lambda>s. (Inr a, s))"

definition fail :: "'e \<Rightarrow> ('s, 'e, 'a) sem" where
  "fail x = (\<lambda>s. (Inl x, s))"

text \<open>\<open>bindE m f\<close> is \<open>v, err := m(); if err != nil { return err }; f(v)\<close>.\<close>

definition bindE :: "('s, 'e, 'a) sem \<Rightarrow> ('a \<Rightarrow> ('s, 'e, 'b) sem) \<Rightarrow> ('s, 'e, 'b) sem" where
  "bindE m f = (\<lambda>s. case m s of (Inl x, s') \<Rightarrow> (Inl x, s') | (Inr a, s') \<Rightarrow> f a s')"

definition getS :: "('s \<Rightarrow> 'a) \<Rightarrow> ('s, 'e, 'a) sem" where
  "getS f = (\<lambda>s. (Inr (f s), s))"

definition modS :: "('s \<Rightarrow> 's) \<Rightarrow> ('s, 'e, unit) sem" where
  "modS f = (\<lambda>s. (Inr (), f s))"

named_theorems sem_simps \<open>evaluation of the state-and-error combinators\<close>

lemma ret_apply [simp, sem_simps]: "ret a s = (Inr a, s)"
  by (simp add: ret_def)

lemma fail_apply [simp, sem_simps]: "fail x s = (Inl x, s)"
  by (simp add: fail_def)

lemma getS_apply [simp, sem_simps]: "getS f s = (Inr (f s), s)"
  by (simp add: getS_def)

lemma modS_apply [simp, sem_simps]: "modS f s = (Inr (), f s)"
  by (simp add: modS_def)

lemma bindE_Inr [simp, sem_simps]: "m s = (Inr a, s') \<Longrightarrow> bindE m f s = f a s'"
  by (simp add: bindE_def)

lemma bindE_Inl [simp, sem_simps]: "m s = (Inl x, s') \<Longrightarrow> bindE m f s = (Inl x, s')"
  by (simp add: bindE_def)

lemma bindE_ret [simp]: "bindE (ret a) f = f a"
  by (rule ext) simp

lemma bindE_fail [simp]: "bindE (fail x) f = fail x"
  by (rule ext) simp

lemma bindE_getS [simp]: "bindE (getS g) f s = f (g s) s"
  by simp

lemma bindE_modS [simp]: "bindE (modS g) f s = f () (g s)"
  by simp

lemma bindE_assoc: "bindE (bindE m f) g = bindE m (\<lambda>a. bindE (f a) g)"
  by (rule ext) (auto simp: bindE_def split: prod.splits sum.splits)

lemma bindE_cases:
  assumes "bindE m f s = (r, s')"
  obtains (err) x where "m s = (Inl x, s')" "r = Inl x"
  | (ok) a s1 where "m s = (Inr a, s1)" "f a s1 = (r, s')"
  using assms by (auto simp: bindE_def split: prod.splits sum.splits)

section \<open>Words\<close>

named_theorems word_facts \<open>facts on masks and truncation shared by the components\<close>

lemma or_and_disjoint: "m AND k = 0 \<Longrightarrow> (x OR m) AND k = x AND k" for x :: "'a::len word"
  by (simp add: bit.conj_disj_distrib2)

lemma andn_and_disjoint: "m AND k = 0 \<Longrightarrow> (x AND NOT m) AND k = x AND k" for x :: "'a::len word"
proof -
  assume mk: "m AND k = 0"
  have "NOT m AND k = k"
  proof (rule bit_word_eqI)
    fix n assume "n < LENGTH('a)"
    have "\<not> bit (m AND k) n" by (simp add: mk)
    with \<open>n < LENGTH('a)\<close> show "bit (NOT m AND k) n = bit k n"
      by (auto simp: bit_and_iff bit_not_iff)
  qed
  then show ?thesis by (simp add: and.assoc)
qed

lemma or_and_self: "(x OR m) AND m = m" for x :: "'a::len word"
  by (rule bit_word_eqI) (auto simp: bit_and_iff bit_or_iff)

lemma andn_and_self: "(x AND NOT m) AND m = 0" for x :: "'a::len word"
  by (rule bit_word_eqI) (auto simp: bit_and_iff bit_not_iff)

lemma bit_push_bit_one: "bit (push_bit n 1 :: 'a::len word) k \<longleftrightarrow> k = n \<and> n < LENGTH('a)"
  by (auto simp del: push_bit_of_1 simp: bit_push_bit_iff bit_1_iff)

lemma and_push_bit_1_iff: "x AND push_bit n 1 \<noteq> 0 \<longleftrightarrow> bit x n" for x :: "'a::len word"
proof -
  have "x AND push_bit n 1 = 0" if "\<not> bit x n"
    by (rule bit_word_eqI) (use that in \<open>auto simp del: push_bit_of_1 simp: bit_and_iff bit_push_bit_one\<close>)
  moreover have "bit (x AND push_bit n 1) n" if "bit x n"
    using that bit_imp_le_length [OF that]
    by (simp del: push_bit_of_1 add: bit_and_iff bit_push_bit_one)
  ultimately show ?thesis by (metis bit_0_eq bot_apply bot_bool_def)
qed

lemma unat_take_bit_mod: "unat (take_bit n x) = unat x mod 2 ^ n" for x :: "'a::len word"
  by (simp only: unsigned_take_bit_eq) (simp add: take_bit_eq_mod)

lemma uint_take_bit_mod: "uint (take_bit n x) = uint x mod 2 ^ n" for x :: "'a::len word"
  by (simp only: unsigned_take_bit_eq) (simp add: take_bit_eq_mod)

lemma andn_add_and: "(a AND NOT m) + (a AND m) = a" for a :: "'a::len word"
  by (subst disjunctive_add_eq_or)
     (auto intro!: bit_word_eqI simp: bit_and_iff bit_or_iff bit_not_iff)

lemma diff_andn: "a - (a AND NOT m) = a AND m" for a :: "'a::len word"
  by (metis andn_add_and add_diff_cancel_left')

lemma unat_u64_less: "unat x < 18446744073709551616" for x :: u64
  using unsigned_less [of x, where ?'a = nat] by simp

lemma unat_of_nat_small: "n < 2 ^ LENGTH('a) \<Longrightarrow> unat (of_nat n :: 'a::len word) = n"
  by (simp add: unat_of_nat take_bit_eq_mod)

lemma map_cong_upt: "(\<And>i. lo \<le> i \<Longrightarrow> i < hi \<Longrightarrow> f i = g i) \<Longrightarrow> map f [lo..<hi] = map g [lo..<hi]"
  by simp

end
