(* ===== verification/Guest_Memory.thy ===== *)
theory Guest_Memory
  imports Prelude
begin

unbundle bit_operations_syntax

text \<open>
  The guest address space of \<open>internal/cpu/memory.go\<close>: the page table with its one-entry lookup
  cache, mapping, unmapping, protection, the page-chunked \<open>copy\<close> behind every access, and the
  code-dirty flag. Pages are cells of an explicit store, because the Go code holds pointers to
  them both in the page table and in the lookup cache; \<open>mem_at\<close> is the flat byte map the
  operations implement, and \<open>mem_wf\<close> the invariant that keeps the cache and the table apart.
\<close>

section \<open>Constants and errors of package cpu\<close>

abbreviation pageSize :: nat where "pageSize \<equiv> 4096"

abbreviation pageMask :: u64 where "pageMask \<equiv> 0xFFF"

definition ProtNone :: u64 where "ProtNone = 0"
definition ProtRead :: u64 where "ProtRead = 1"
definition ProtWrite :: u64 where "ProtWrite = 2"
definition ProtExec :: u64 where "ProtExec = 4"
definition ProtAll :: u64 where "ProtAll = ProtRead OR ProtWrite OR ProtExec"

lemmas prot_defs = ProtNone_def ProtRead_def ProtWrite_def ProtExec_def ProtAll_def

datatype memType = MemReadUnmapped | MemWriteUnmapped | MemFetchUnmapped

text \<open>
  The errors the package returns. \<open>FaultError\<close> is the one the run loop hands to the unmapped-memory
  hook; the others stand for the \<open>fmt.Errorf\<close> values, by their message. \<open>GoPanic\<close> is a Go
  run-time panic (an integer division by zero), \<open>NoReturn\<close> a loop that does not end.
\<close>

datatype cpu_error =
    FaultError memType u64 nat
  | BadMapArgs u64 u64
  | AlreadyMapped u64
  | BadOperandKind
  | BadAluIndex nat
  | DivisionByZero
  | DivOverflow
  | IdivUnsupported
  | UnsupportedGroup nat nat
  | UnsupportedOpcode u8 u64
  | UnsupportedTwoByte u8
  | UnsupportedX87 u8 nat
  | UnsupportedSSE nat u8
  | UnsupportedVEX nat u8
  | LeaNotMemory
  | UnknownRegister nat
  | NoHook nat
  | GoPanic
  | NoReturn

section \<open>Pages and the page table\<close>

record page =
  pg_data :: "nat \<Rightarrow> u8"
  pg_perm :: u64

text \<open>
  \<open>m_store\<close> is the part of the Go heap that holds this Memory's pages and \<open>m_next\<close> the next cell
  an allocation takes; \<open>m_pages\<close> is the Go map from page addresses to page pointers. The pointer 0
  is nil.
\<close>

record memory =
  m_store :: "nat \<Rightarrow> page"
  m_next :: nat
  m_pages :: "u64 \<rightharpoonup> nat"
  m_cachedAddr :: u64
  m_cachedPage :: nat
  m_cachedOK :: bool
  m_codeDirty :: bool

definition newMemory :: memory where
  "newMemory = \<lparr>m_store = (\<lambda>_. \<lparr>pg_data = (\<lambda>_. 0), pg_perm = 0\<rparr>), m_next = 1, m_pages = Map.empty,
     m_cachedAddr = 0, m_cachedPage = 0, m_cachedOK = False, m_codeDirty = False\<rparr>"

definition pageAddr :: "u64 \<Rightarrow> u64" where
  "pageAddr addr = addr AND NOT pageMask"

definition lookupPage :: "u64 \<Rightarrow> memory \<Rightarrow> nat option \<times> memory" where
  "lookupPage pa m =
     (if m_cachedOK m \<and> m_cachedAddr m = pa then (Some (m_cachedPage m), m)
      else let p = m_pages m pa
           in (p, m\<lparr>m_cachedAddr := pa, m_cachedPage := (case p of None \<Rightarrow> 0 | Some q \<Rightarrow> q),
                    m_cachedOK := p \<noteq> None\<rparr>))"

definition invalidateCache :: "memory \<Rightarrow> memory" where
  "invalidateCache m = m\<lparr>m_cachedOK := False\<rparr>"

definition invalidateCode :: "memory \<Rightarrow> memory" where
  "invalidateCode m = m\<lparr>m_codeDirty := True\<rparr>"

definition consumeCodeDirty :: "memory \<Rightarrow> bool \<times> memory" where
  "consumeCodeDirty m = (m_codeDirty m, m\<lparr>m_codeDirty := False\<rparr>)"

section \<open>Mapping, unmapping, protection, cloning\<close>

text \<open>
  The addresses a loop \<open>for a := lo; a < hi; a += pageSize\<close> visits. The loops of this file run it
  with page-aligned bounds only, where \<open>a + pageSize\<close> cannot wrap past \<open>hi\<close>
  (\<open>page_loop_step\<close>); the wrap test makes the recursion total.
\<close>

function page_loop :: "u64 \<Rightarrow> u64 \<Rightarrow> u64 list" where
  "page_loop a hi = (if a < hi then a # (if a < a + 4096 then page_loop (a + 4096) hi else []) else [])"
  by pat_completeness auto
termination
  by (relation "measure (\<lambda>(a, hi). 2 ^ 64 - unat a)")
     (auto simp: word_less_nat_alt intro: diff_less_mono2 unat_u64_less)

declare page_loop.simps [simp del]

definition alloc_page :: "u64 \<Rightarrow> u64 \<Rightarrow> memory \<Rightarrow> memory" where
  "alloc_page perms a m = m\<lparr>
     m_store := (m_store m)(m_next m := \<lparr>pg_data = (\<lambda>_. 0), pg_perm = perms\<rparr>),
     m_next := Suc (m_next m),
     m_pages := (m_pages m)(a \<mapsto> m_next m)\<rparr>"

definition MemMap :: "u64 \<Rightarrow> u64 \<Rightarrow> u64 \<Rightarrow> (memory, cpu_error, unit) sem" where
  "MemMap addr sz perms = (\<lambda>m.
     if addr AND pageMask \<noteq> 0 \<or> sz = 0 \<or> sz AND pageMask \<noteq> 0
     then (Inl (BadMapArgs addr sz), m)
     else let as = page_loop addr (addr + sz) in
       case find (\<lambda>a. m_pages m a \<noteq> None) as of
         Some a \<Rightarrow> (Inl (AlreadyMapped a), m)
       | None \<Rightarrow> (Inr (), invalidateCode (invalidateCache (fold (alloc_page perms) as m))))"

definition unmap_page :: "u64 \<Rightarrow> memory \<Rightarrow> memory" where
  "unmap_page a m = m\<lparr>m_pages := (m_pages m)(a := None)\<rparr>"

definition MemUnmap :: "u64 \<Rightarrow> u64 \<Rightarrow> (memory, cpu_error, unit) sem" where
  "MemUnmap addr sz = (\<lambda>m.
     let base = pageAddr addr; end' = pageAddr (addr + sz - 1) + 4096;
         m1 = fold unmap_page (page_loop base end') m
     in (Inr (), invalidateCode (invalidateCache m1)))"

definition protect_page :: "u64 \<Rightarrow> u64 \<Rightarrow> memory \<Rightarrow> memory" where
  "protect_page perms a m = (case m_pages m a of
       None \<Rightarrow> m
     | Some p \<Rightarrow> m\<lparr>m_store := (m_store m)(p := (m_store m p)\<lparr>pg_perm := perms\<rparr>)\<rparr>)"

definition MemProtect :: "u64 \<Rightarrow> u64 \<Rightarrow> u64 \<Rightarrow> (memory, cpu_error, unit) sem" where
  "MemProtect addr sz perms = (\<lambda>m.
     let base = pageAddr addr; end' = pageAddr (addr + sz - 1) + 4096;
         m1 = fold (protect_page perms) (page_loop base end') m
     in (Inr (), invalidateCode (invalidateCache m1)))"

text \<open>
  \<open>Clone\<close> allocates a page for every page of the original and copies its 4096 bytes. The copy has
  a store of its own, so its cells are those of the original by value, under the same numbers.
\<close>

definition mem_Clone :: "memory \<Rightarrow> memory" where
  "mem_Clone m = newMemory\<lparr>m_store := m_store m, m_next := m_next m, m_pages := m_pages m\<rparr>"

section \<open>Copying between guest memory and a buffer\<close>

definition faultKind :: "bool \<Rightarrow> u64 \<Rightarrow> memType" where
  "faultKind wr req = (if req = ProtExec then MemFetchUnmapped
     else if wr then MemWriteUnmapped else MemReadUnmapped)"

definition page_bytes :: "page \<Rightarrow> nat \<Rightarrow> nat \<Rightarrow> u8 list" where
  "page_bytes p lo n = map (pg_data p) [lo..<lo + n]"

definition write_page :: "page \<Rightarrow> nat \<Rightarrow> u8 list \<Rightarrow> page" where
  "write_page p lo bs = p\<lparr>pg_data := (\<lambda>i. if lo \<le> i \<and> i < lo + length bs then bs ! (i - lo) else pg_data p i)\<rparr>"

lemma pageAddr_offset: "a - pageAddr a = a AND pageMask"
  unfolding pageAddr_def by (rule diff_andn)

lemma unat_page_offset: "unat (a AND pageMask) = unat a mod 4096" for a :: u64
proof -
  have "a AND pageMask = take_bit 12 a"
    by (simp add: take_bit_eq_mask mask_eq_exp_minus_1)
  then show ?thesis by (simp add: unat_take_bit_mod)
qed

lemma page_offset_less: "unat (a AND pageMask) < 4096" for a :: u64
  by (simp add: unat_page_offset)

text \<open>
  \<open>copy\<close>: one iteration handles the part of the buffer that falls into one page. \<open>wr\<close> selects the
  direction; \<open>req\<close>, if non-zero, is the permission every touched page must have. The result is
  the error, if any, the buffer and the memory.
\<close>

function copy_loop :: "bool \<Rightarrow> u64 \<Rightarrow> u64 \<Rightarrow> nat \<Rightarrow> u8 list \<Rightarrow> memory \<Rightarrow> cpu_error option \<times> u8 list \<times> memory" where
  "copy_loop wr req addr off buf m =
    (if off < length buf then
       let a = addr + of_nat off; pa = pageAddr a; (po, m1) = lookupPage pa m in
       case po of
         None \<Rightarrow> (Some (FaultError (faultKind wr req) a (length buf - off)), buf, m1)
       | Some p \<Rightarrow>
           let pg = m_store m1 p in
           if req \<noteq> 0 \<and> pg_perm pg AND req = 0
           then (Some (FaultError (faultKind wr req) a (length buf - off)), buf, m1)
           else
             let pOff = unat (a - pa); n = min (length buf - off) (pageSize - pOff) in
             if wr then
               let src = take n (drop off buf);
                   m2 = (if pg_perm pg AND ProtExec \<noteq> 0 \<and> page_bytes pg pOff n \<noteq> src
                         then m1\<lparr>m_codeDirty := True\<rparr> else m1);
                   m3 = m2\<lparr>m_store := (m_store m2)(p := write_page pg pOff src)\<rparr>
               in copy_loop wr req addr (off + n) buf m3
             else copy_loop wr req addr (off + n) (take off buf @ page_bytes pg pOff n @ drop (off + n) buf) m1
     else (None, buf, m))"
  by pat_completeness auto
termination
proof (relation "measure (\<lambda>(wr, req, addr, off, buf, m). length buf - off)", goal_cases)
  case 1
  show ?case by simp
next
  case (2 wr req addr off buf m x xa xb xc xd x2 xe xf n)
  have "unat (x - pageAddr x) < 4096" by (simp add: pageAddr_offset page_offset_less)
  with 2 show ?case by simp
next
  case (3 wr req addr off buf m x xa xb xc xd x2 xe xf n)
  have "unat (x - pageAddr x) < 4096" by (simp add: pageAddr_offset page_offset_less)
  with 3 show ?case by (simp add: page_bytes_def)
qed

declare copy_loop.simps [simp del]

definition mem_copy :: "u64 \<Rightarrow> u8 list \<Rightarrow> bool \<Rightarrow> u64 \<Rightarrow> memory \<Rightarrow> cpu_error option \<times> u8 list \<times> memory" where
  "mem_copy addr buf wr req m = copy_loop wr req addr 0 buf m"

definition readChecked :: "u64 \<Rightarrow> nat \<Rightarrow> u64 \<Rightarrow> (memory, cpu_error, u8 list) sem" where
  "readChecked addr sz perm = (\<lambda>m.
     case mem_copy addr (replicate sz 0) False perm m of
       (Some e, _, m') \<Rightarrow> (Inl e, m')
     | (None, buf, m') \<Rightarrow> (Inr buf, m'))"

definition writeChecked :: "u64 \<Rightarrow> u8 list \<Rightarrow> u64 \<Rightarrow> (memory, cpu_error, unit) sem" where
  "writeChecked addr data perm = (\<lambda>m.
     case mem_copy addr data True perm m of
       (Some e, _, m') \<Rightarrow> (Inl e, m')
     | (None, _, m') \<Rightarrow> (Inr (), m'))"

definition MemWrite :: "u64 \<Rightarrow> u8 list \<Rightarrow> (memory, cpu_error, unit) sem" where
  "MemWrite addr data = (\<lambda>m. if length data = 0 then (Inr (), m) else writeChecked addr data 0 m)"

definition MemRead :: "u64 \<Rightarrow> nat \<Rightarrow> (memory, cpu_error, u8 list) sem" where
  "MemRead addr sz = (\<lambda>m. if sz = 0 then (Inr [], m) else readChecked addr sz 0 m)"

text \<open>The non-allocating read of the fetch path: one lookup when the read stays inside a page.\<close>

definition readCheckedInto :: "u64 \<Rightarrow> nat \<Rightarrow> u64 \<Rightarrow> (memory, cpu_error, u8 list) sem" where
  "readCheckedInto addr n perm = (\<lambda>m.
     if n = 0 then (Inr [], m)
     else let pa = pageAddr addr; off = addr - pa in
       if unat off + n \<le> pageSize then
         (case lookupPage pa m of
            (None, m1) \<Rightarrow>
              (Inl (FaultError (if perm = ProtExec then MemFetchUnmapped else MemReadUnmapped) addr n), m1)
          | (Some p, m1) \<Rightarrow>
              (let pg = m_store m1 p in
               if perm \<noteq> 0 \<and> pg_perm pg AND perm = 0
               then (Inl (FaultError (if perm = ProtExec then MemFetchUnmapped else MemReadUnmapped) addr n), m1)
               else (Inr (page_bytes pg (unat off) n), m1)))
       else readChecked addr n perm m)"

end
