(* ===== verification/Memory_Laws.thy ===== *)
theory Memory_Laws
  imports Guest_Memory
begin

unbundle bit_operations_syntax

text \<open>
  The laws of guest memory: the page geometry, the invariant \<open>mem_wf\<close> (cache coherence, page
  alignment and injectivity of the page table), the flat byte map \<open>mem_at\<close> that the paged memory
  implements, and what each operation does to it. The interface \<open>byte_store\<close> collects what the
  rest of the engine relies on; it is interpreted on the checked accesses and on the host API.
\<close>

section \<open>Page geometry\<close>

lemma unat_pageAddr: "unat (pageAddr a) = unat a - unat a mod 4096"
proof -
  have "pageAddr a = a - (a AND pageMask)"
    by (metis pageAddr_offset diff_diff_eq2 add_diff_cancel_left')
  moreover have "a AND pageMask \<le> a" by (rule word_and_le2)
  ultimately show ?thesis by (simp add: unat_sub unat_page_offset)
qed

lemma unat_add_in_page:
  assumes "unat (a AND pageMask) + i < 4096"
  shows "unat (a + of_nat i) = unat a + i"
proof -
  have "unat a mod 4096 + i < 4096" using assms by (simp add: unat_page_offset)
  moreover have "unat a < 4096 * 4503599627370496" using unat_u64_less [of a] by simp
  then have "unat a div 4096 < 4503599627370496" by linarith
  moreover have "unat a = 4096 * (unat a div 4096) + unat a mod 4096" by simp
  ultimately have "unat a + i < 18446744073709551616" by linarith
  then show ?thesis by (simp add: unat_word_ariths unat_of_nat take_bit_eq_mod)
qed

lemma page_step:
  assumes "unat (a AND pageMask) + i < 4096"
  shows "pageAddr (a + of_nat i) = pageAddr a"
    and "unat ((a + of_nat i) AND pageMask) = unat (a AND pageMask) + i"
proof -
  have lt: "unat a mod 4096 + i < 4096" using assms by (simp add: unat_page_offset)
  have m: "(unat a + i) mod 4096 = unat a mod 4096 + i"
    using lt by (metis mod_add_left_eq mod_less)
  show "unat ((a + of_nat i) AND pageMask) = unat (a AND pageMask) + i"
    by (simp add: unat_page_offset unat_add_in_page [OF assms] m)
  show "pageAddr (a + of_nat i) = pageAddr a"
    by (rule word_unat_eq_iff [THEN iffD2])
       (simp add: unat_pageAddr unat_add_in_page [OF assms] m)
qed

lemma pageAddr_eq_imp:
  assumes "pageAddr a = pageAddr b" and "a AND pageMask = b AND pageMask"
  shows "a = b"
  using assms by (metis andn_add_and pageAddr_def)

lemma pageAddr_idem [simp]: "pageAddr (pageAddr a) = pageAddr a"
  by (simp add: pageAddr_def)

section \<open>The flat view and the invariant\<close>

text \<open>What the guest address \<open>a\<close> holds: its page's permission bits and its byte.\<close>

definition mem_at :: "memory \<Rightarrow> u64 \<Rightarrow> (u64 \<times> u8) option" where
  "mem_at m a = (case m_pages m (pageAddr a) of
       None \<Rightarrow> None
     | Some p \<Rightarrow> Some (pg_perm (m_store m p), pg_data (m_store m p) (unat (a AND pageMask))))"

definition mem_byte :: "memory \<Rightarrow> u64 \<Rightarrow> u8" where
  "mem_byte m a = (case mem_at m a of None \<Rightarrow> 0 | Some (_, b) \<Rightarrow> b)"

definition accessible :: "memory \<Rightarrow> u64 \<Rightarrow> u64 \<Rightarrow> bool" where
  "accessible m req a = (case mem_at m a of None \<Rightarrow> False | Some (p, _) \<Rightarrow> req = 0 \<or> p AND req \<noteq> 0)"

definition mem_wf :: "memory \<Rightarrow> bool" where
  "mem_wf m \<longleftrightarrow>
     (\<forall>pa p. m_pages m pa = Some p \<longrightarrow> pageAddr pa = pa \<and> 0 < p \<and> p < m_next m) \<and>
     (\<forall>pa qa p. m_pages m pa = Some p \<longrightarrow> m_pages m qa = Some p \<longrightarrow> pa = qa) \<and>
     (m_cachedOK m \<longrightarrow> m_pages m (m_cachedAddr m) = Some (m_cachedPage m)) \<and> 0 < m_next m"

definition same_core :: "memory \<Rightarrow> memory \<Rightarrow> bool" where
  "same_core m m' \<longleftrightarrow> m_store m' = m_store m \<and> m_next m' = m_next m \<and> m_pages m' = m_pages m \<and>
     m_codeDirty m' = m_codeDirty m"

lemma same_core_refl [simp]: "same_core m m"
  by (simp add: same_core_def)

lemma same_core_trans: "same_core a b \<Longrightarrow> same_core b c \<Longrightarrow> same_core a c"
  by (simp add: same_core_def)

lemma same_core_mem_at: "same_core m m' \<Longrightarrow> mem_at m' = mem_at m"
  by (rule ext) (simp add: same_core_def mem_at_def split: option.split)

lemma same_core_accessible: "same_core m m' \<Longrightarrow> accessible m' = accessible m"
  by (intro ext) (simp add: accessible_def same_core_mem_at)

lemma same_core_mem_byte: "same_core m m' \<Longrightarrow> mem_byte m' = mem_byte m"
  by (rule ext) (simp add: mem_byte_def same_core_mem_at)

lemma mem_wf_newMemory: "mem_wf newMemory"
  by (simp add: mem_wf_def newMemory_def)

text \<open>With the invariant, the cached lookup is the page-table lookup and changes only the cache.\<close>

lemma lookupPage_wf:
  assumes "mem_wf m" and "lookupPage pa m = (po, m1)"
  shows "po = m_pages m pa" and "mem_wf m1" and "same_core m m1"
  using assms by (auto simp: lookupPage_def mem_wf_def same_core_def Let_def split: if_splits option.splits)

section \<open>One page-sized chunk\<close>

lemma chunk_mem_at:
  assumes "m_pages m (pageAddr a) = Some p" and "unat (a AND pageMask) + i < 4096"
  shows "mem_at m (a + of_nat i) = Some (pg_perm (m_store m p), pg_data (m_store m p) (unat (a AND pageMask) + i))"
  using assms by (simp add: mem_at_def page_step)

lemma chunk_bytes:
  assumes "m_pages m (pageAddr a) = Some p" and "unat (a AND pageMask) + n \<le> 4096"
  shows "page_bytes (m_store m p) (unat (a AND pageMask)) n = map (\<lambda>i. mem_byte m (a + of_nat i)) [0..<n]"
proof (rule nth_equalityI)
  show "length (page_bytes (m_store m p) (unat (a AND pageMask)) n) =
        length (map (\<lambda>i. mem_byte m (a + of_nat i)) [0..<n])"
    by (simp add: page_bytes_def)
next
  fix i assume "i < length (page_bytes (m_store m p) (unat (a AND pageMask)) n)"
  then have i: "i < n" by (simp add: page_bytes_def)
  then have "mem_at m (a + of_nat i) = Some (pg_perm (m_store m p), pg_data (m_store m p) (unat (a AND pageMask) + i))"
    using assms by (intro chunk_mem_at) auto
  with i show "page_bytes (m_store m p) (unat (a AND pageMask)) n ! i =
               map (\<lambda>i. mem_byte m (a + of_nat i)) [0..<n] ! i"
    by (simp add: page_bytes_def mem_byte_def)
qed

lemma chunk_accessible:
  assumes "m_pages m (pageAddr a) = Some p" and "unat (a AND pageMask) + i < 4096"
  shows "accessible m req (a + of_nat i) \<longleftrightarrow> req = 0 \<or> pg_perm (m_store m p) AND req \<noteq> 0"
  using chunk_mem_at [OF assms] by (simp add: accessible_def)

section \<open>The first address that faults\<close>

definition fault_index :: "memory \<Rightarrow> u64 \<Rightarrow> u64 \<Rightarrow> nat \<Rightarrow> nat \<Rightarrow> nat option" where
  "fault_index m req addr lo hi = find (\<lambda>i. \<not> accessible m req (addr + of_nat i)) [lo..<hi]"

lemma fault_index_None: "fault_index m req addr lo hi = None \<longleftrightarrow>
    (\<forall>i. lo \<le> i \<and> i < hi \<longrightarrow> accessible m req (addr + of_nat i))"
  by (auto simp: fault_index_def find_None_iff)

lemma fault_index_here:
  "lo < hi \<Longrightarrow> \<not> accessible m req (addr + of_nat lo) \<Longrightarrow> fault_index m req addr lo hi = Some lo"
  by (simp add: fault_index_def upt_conv_Cons)

lemma fault_index_skip:
  assumes "\<And>i. lo \<le> i \<Longrightarrow> i < lo + n \<Longrightarrow> accessible m req (addr + of_nat i)" and "lo + n \<le> hi"
  shows "fault_index m req addr lo hi = fault_index m req addr (lo + n) hi"
  using assms
proof (induction n)
  case 0
  then show ?case by simp
next
  case (Suc n)
  then have "fault_index m req addr lo hi = fault_index m req addr (lo + n) hi" by simp
  moreover have "[lo + n..<hi] = (lo + n) # [lo + Suc n..<hi]"
    using Suc.prems(2) by (simp add: upt_conv_Cons)
  ultimately show ?case using Suc.prems(1) [of "lo + n"] by (simp add: fault_index_def)
qed

lemma fault_index_SomeD:
  assumes "fault_index m req addr lo hi = Some k"
  shows "lo \<le> k" "k < hi" "\<not> accessible m req (addr + of_nat k)"
    "\<And>i. lo \<le> i \<Longrightarrow> i < k \<Longrightarrow> accessible m req (addr + of_nat i)"
proof -
  from assms obtain j where j: "j < length [lo..<hi]" "\<not> accessible m req (addr + of_nat ([lo..<hi] ! j))"
      "[lo..<hi] ! j = k" "\<forall>i<j. accessible m req (addr + of_nat ([lo..<hi] ! i))"
    unfolding fault_index_def find_Some_iff by auto
  then have k: "k = lo + j" by simp
  show "lo \<le> k" "k < hi" "\<not> accessible m req (addr + of_nat k)" using j k by auto
  show "accessible m req (addr + of_nat i)" if "lo \<le> i" "i < k" for i
    using j(4) [rule_format, of "i - lo"] that k j(1) by simp
qed

lemma fault_index_cong:
  "accessible m = accessible m' \<Longrightarrow> fault_index m req addr lo hi = fault_index m' req addr lo hi"
  by (simp add: fault_index_def)

section \<open>Reading through the copy loop\<close>

lemma lookup_none_inaccessible:
  "m_pages m (pageAddr a) = None \<Longrightarrow> \<not> accessible m req a"
  by (simp add: accessible_def mem_at_def)

lemma chunk_length:
  fixes a :: u64
  assumes "off < length buf"
  defines "n \<equiv> min (length buf - off) (4096 - unat (a AND pageMask))"
  shows "0 < n" "off + n \<le> length buf" "unat (a AND pageMask) + n \<le> 4096"
  using assms page_offset_less [of a] by auto

lemma chunk_all_accessible:
  assumes "m_pages m (pageAddr (addr + of_nat off)) = Some p"
    and "req = 0 \<or> pg_perm (m_store m p) AND req \<noteq> 0"
    and "unat ((addr + of_nat off) AND pageMask) + n \<le> 4096" "off \<le> i" "i < off + n"
  shows "accessible m req (addr + of_nat i)"
proof -
  have "addr + of_nat off + of_nat (i - off) = addr + of_nat i" using assms(4) by simp
  then show ?thesis
    using chunk_accessible [OF assms(1), of "i - off" req] assms by simp
qed

lemma unat_index_shift:
  fixes x :: u64
  assumes "off + n \<le> 18446744073709551616"
  shows "unat (x - (addr + of_nat off)) < n \<longleftrightarrow> off \<le> unat (x - addr) \<and> unat (x - addr) < off + n"
    and "unat (x - (addr + of_nat off)) < n \<Longrightarrow> unat (x - addr) = off + unat (x - (addr + of_nat off))"
proof -
  let ?d = "x - (addr + of_nat off)"
  have eq: "x - addr = ?d + of_nat off" by simp
  have fwd: "unat (x - addr) = off + unat ?d" if "unat ?d < n"
  proof -
    have "off < 18446744073709551616" using assms that by simp
    then have "unat (of_nat off :: u64) = off" by (simp add: unat_of_nat_small)
    then show ?thesis unfolding eq using assms that by (subst unat_plus_if') (auto simp: )
  qed
  then show "unat ?d < n \<Longrightarrow> unat (x - addr) = off + unat ?d" .
  have bwd: "unat ?d < n" if "off \<le> unat (x - addr)" "unat (x - addr) < off + n"
  proof -
    have o: "unat (of_nat off :: u64) = off"
      using that(1) unat_u64_less [of "x - addr"] by (intro unat_of_nat_small) simp
    have "unat ((x - addr) - of_nat off) = unat (x - addr) - off"
      using that(1) o by (subst unat_sub) (simp_all add: word_le_nat_alt)
    then show ?thesis using that by (simp add: diff_diff_eq)
  qed
  show "unat ?d < n \<longleftrightarrow> off \<le> unat (x - addr) \<and> unat (x - addr) < off + n"
    using fwd bwd by auto
qed

section \<open>Writing through the copy loop\<close>

text \<open>The flat map with the bytes \<open>bs ! lo .. bs ! (hi - 1)\<close> stored at \<open>addr + lo ..\<close>.\<close>

definition upd_at :: "u64 \<Rightarrow> u8 list \<Rightarrow> nat \<Rightarrow> nat \<Rightarrow> (u64 \<Rightarrow> (u64 \<times> u8) option) \<Rightarrow> u64 \<Rightarrow> (u64 \<times> u8) option" where
  "upd_at addr bs lo hi f = (\<lambda>x. let i = unat (x - addr) in
     if lo \<le> i \<and> i < hi then map_option (\<lambda>(p, _). (p, bs ! i)) (f x) else f x)"

text \<open>Some byte stored to an executable address differs from the byte that was there.\<close>

definition changes_code :: "memory \<Rightarrow> u64 \<Rightarrow> u8 list \<Rightarrow> nat \<Rightarrow> nat \<Rightarrow> bool" where
  "changes_code m addr bs lo hi \<longleftrightarrow>
     (\<exists>i. lo \<le> i \<and> i < hi \<and> accessible m ProtExec (addr + of_nat i) \<and> mem_byte m (addr + of_nat i) \<noteq> bs ! i)"

definition write_end :: "nat option \<Rightarrow> nat \<Rightarrow> nat" where
  "write_end fi len = (case fi of None \<Rightarrow> len | Some k \<Rightarrow> k)"

lemma upd_at_empty [simp]: "upd_at addr bs lo lo f = f"
  by (rule ext) (auto simp: upd_at_def Let_def)

lemma upd_at_append:
  "lo \<le> mid \<Longrightarrow> mid \<le> hi \<Longrightarrow> upd_at addr bs mid hi (upd_at addr bs lo mid f) = upd_at addr bs lo hi f"
  by (rule ext) (auto simp: upd_at_def Let_def)

lemma same_page_index:
  assumes "pageAddr x = pageAddr a" and "unat (a AND pageMask) + n \<le> 4096"
  shows "unat (x - a) < n \<longleftrightarrow> unat (a AND pageMask) \<le> unat (x AND pageMask) \<and>
           unat (x AND pageMask) < unat (a AND pageMask) + n"
    and "unat (x - a) < n \<Longrightarrow> unat (x AND pageMask) = unat (a AND pageMask) + unat (x - a)"
proof -
  have fwd: "unat (x AND pageMask) = unat (a AND pageMask) + unat (x - a)" if "unat (x - a) < n"
    using page_step(2) [of a "unat (x - a)"] that assms(2) by simp
  then show "unat (x - a) < n \<Longrightarrow> unat (x AND pageMask) = unat (a AND pageMask) + unat (x - a)" .
  have bwd: "unat (x - a) < n"
    if "unat (a AND pageMask) \<le> unat (x AND pageMask)" "unat (x AND pageMask) < unat (a AND pageMask) + n"
  proof -
    define j where "j = unat (x AND pageMask) - unat (a AND pageMask)"
    have j: "unat (a AND pageMask) + j < 4096" "j < n" using that assms(2) by (auto simp: j_def)
    have "unat (a AND pageMask) + j = unat (x AND pageMask)"
      unfolding j_def using that(1) by (rule le_add_diff_inverse)
    then have "unat ((a + of_nat j) AND pageMask) = unat (x AND pageMask)"
      using page_step(2) [OF j(1)] by (simp only:)
    then have "(a + of_nat j) AND pageMask = x AND pageMask"
      by (simp only: word_unat_eq_iff)
    moreover have "pageAddr (a + of_nat j) = pageAddr x"
      using page_step(1) [OF j(1)] assms(1) by (simp only:)
    ultimately have "a + of_nat j = x" by (rule pageAddr_eq_imp [rotated])
    then have "x - a = of_nat j" by auto
    then show ?thesis using j by (simp add: unat_of_nat_small)
  qed
  show "unat (x - a) < n \<longleftrightarrow> unat (a AND pageMask) \<le> unat (x AND pageMask) \<and>
           unat (x AND pageMask) < unat (a AND pageMask) + n"
    using fwd bwd by auto
qed

lemma chunk_write_mem_at:
  assumes wf: "mem_wf m" and p: "m_pages m (pageAddr a) = Some p"
    and n: "unat (a AND pageMask) + length src \<le> 4096"
  shows "mem_at (m\<lparr>m_store := (m_store m)(p := write_page (m_store m p) (unat (a AND pageMask)) src)\<rparr>) x
    = (if unat (x - a) < length src then map_option (\<lambda>(q, _). (q, src ! unat (x - a))) (mem_at m x) else mem_at m x)"
    (is "mem_at ?m' x = _")
proof (cases "pageAddr x = pageAddr a")
  case True
  note idx = same_page_index [OF True n]
  show ?thesis
  proof (cases "unat (x - a) < length src")
    case in_range: True
    then have "unat (x AND pageMask) = unat (a AND pageMask) + unat (x - a)" by (rule idx(2))
    with in_range True p show ?thesis by (simp add: mem_at_def write_page_def)
  next
    case False
    with idx(1) True p show ?thesis by (auto simp: mem_at_def write_page_def)
  qed
next
  case False
  have "m_pages m (pageAddr x) \<noteq> Some p" using wf p False by (auto simp: mem_wf_def)
  moreover have "\<not> unat (x - a) < length src"
  proof
    assume "unat (x - a) < length src"
    then have "pageAddr (a + of_nat (unat (x - a))) = pageAddr a"
      using n by (intro page_step) simp
    then show False using False by simp
  qed
  ultimately show ?thesis by (auto simp: mem_at_def split: option.splits)
qed

lemma chunk_write_upd_at:
  assumes wf: "mem_wf m" and p: "m_pages m (pageAddr (addr + of_nat off)) = Some p"
    and n: "unat ((addr + of_nat off) AND pageMask) + n \<le> 4096" "off + n \<le> length buf"
    and len: "length buf \<le> 18446744073709551616"
  shows "mem_at (m\<lparr>m_store := (m_store m)(p := write_page (m_store m p) (unat ((addr + of_nat off) AND pageMask))
           (take n (drop off buf)))\<rparr>) = upd_at addr buf off (off + n) (mem_at m)"
proof (rule ext)
  fix x
  let ?src = "take n (drop off buf)"
  have src: "length ?src = n" using n(2) by simp
  have w: "mem_at (m\<lparr>m_store := (m_store m)(p := write_page (m_store m p) (unat ((addr + of_nat off) AND pageMask)) ?src)\<rparr>) x
    = (if unat (x - (addr + of_nat off)) < n
       then map_option (\<lambda>(q, _). (q, ?src ! unat (x - (addr + of_nat off)))) (mem_at m x) else mem_at m x)"
    using chunk_write_mem_at [OF wf p, of ?src x] n(1) by (simp only: src)
  have "off + n \<le> 18446744073709551616" using n(2) len by simp
  note sh = unat_index_shift [OF this, of x addr]
  show "mem_at (m\<lparr>m_store := (m_store m)(p := write_page (m_store m p) (unat ((addr + of_nat off) AND pageMask))
           (take n (drop off buf)))\<rparr>) x = upd_at addr buf off (off + n) (mem_at m) x"
  proof (cases "unat (x - (addr + of_nat off)) < n")
    case True
    then have "?src ! unat (x - (addr + of_nat off)) = buf ! unat (x - addr)"
      using sh(2) n(2) by simp
    with True show ?thesis using sh(1) unfolding w by (simp only: upd_at_def Let_def if_True)
  next
    case False
    then show ?thesis using sh(1) unfolding w by (simp only: upd_at_def Let_def if_False)
  qed
qed

lemma upd_at_accessible:
  assumes "mem_at m' = upd_at addr buf lo hi (mem_at m)"
  shows "accessible m' = accessible m"
  by (intro ext) (auto simp: accessible_def assms upd_at_def Let_def split: option.splits)

lemma mem_wf_data:
  "mem_wf m \<Longrightarrow> m_pages m' = m_pages m \<Longrightarrow> m_next m' = m_next m \<Longrightarrow> m_cachedOK m' = m_cachedOK m \<Longrightarrow>
   m_cachedAddr m' = m_cachedAddr m \<Longrightarrow> m_cachedPage m' = m_cachedPage m \<Longrightarrow> mem_wf m'"
  by (simp add: mem_wf_def)

lemma mem_at_dirty [simp]: "mem_at (m\<lparr>m_codeDirty := b\<rparr>) = mem_at m"
  by (rule ext) (simp add: mem_at_def split: option.split)

lemma ProtExec_nonzero [simp]: "ProtExec \<noteq> 0" by (simp add: ProtExec_def)

lemma accessible_exec_chunk:
  assumes "m_pages m (pageAddr (addr + of_nat off)) = Some p"
    and "unat ((addr + of_nat off) AND pageMask) + n \<le> 4096" "off \<le> i" "i < off + n"
  shows "accessible m ProtExec (addr + of_nat i) \<longleftrightarrow> pg_perm (m_store m p) AND ProtExec \<noteq> 0"
proof -
  have "addr + of_nat off + of_nat (i - off) = addr + of_nat i" using assms(3) by simp
  then show ?thesis
    using chunk_accessible [OF assms(1), of "i - off" ProtExec] assms by simp
qed

lemma chunk_changes_code:
  assumes p: "m_pages m (pageAddr (addr + of_nat off)) = Some p"
    and n: "unat ((addr + of_nat off) AND pageMask) + n \<le> 4096" "off + n \<le> length buf"
  shows "(pg_perm (m_store m p) AND ProtExec \<noteq> 0 \<and>
          page_bytes (m_store m p) (unat ((addr + of_nat off) AND pageMask)) n \<noteq> take n (drop off buf))
    \<longleftrightarrow> changes_code m addr buf off (off + n)"
proof -
  have "page_bytes (m_store m p) (unat ((addr + of_nat off) AND pageMask)) n
      = map (\<lambda>i. mem_byte m (addr + of_nat off + of_nat i)) [0..<n]"
    using p n(1) by (rule chunk_bytes)
  also have "\<dots> = map (\<lambda>i. mem_byte m (addr + of_nat i)) [off..<off + n]"
    by (rule nth_equalityI) (auto simp: add.assoc)
  finally have bytes: "page_bytes (m_store m p) (unat ((addr + of_nat off) AND pageMask)) n
      = map (\<lambda>i. mem_byte m (addr + of_nat i)) [off..<off + n]" .
  have "map (\<lambda>i. mem_byte m (addr + of_nat i)) [off..<off + n] \<noteq> take n (drop off buf)
     \<longleftrightarrow> (\<exists>i. off \<le> i \<and> i < off + n \<and> mem_byte m (addr + of_nat i) \<noteq> buf ! i)" (is "?L \<longleftrightarrow> ?R")
  proof
    assume ?L
    then obtain j where "j < n" "mem_byte m (addr + of_nat (off + j)) \<noteq> buf ! (off + j)"
      using n(2) by (auto simp: list_eq_iff_nth_eq)
    then show ?R by (intro exI [of _ "off + j"]) simp
  next
    assume ?R
    then obtain i where "off \<le> i" "i < off + n" "mem_byte m (addr + of_nat i) \<noteq> buf ! i" by blast
    then show ?L using n(2)
      by (auto simp: list_eq_iff_nth_eq intro!: exI [of _ "i - off"])
  qed
  then show ?thesis
    using accessible_exec_chunk [OF p n(1)] bytes by (auto simp: changes_code_def)
qed

lemma ex_interval_split:
  fixes lo mid hi :: nat
  assumes "lo \<le> mid" "mid \<le> hi"
  shows "(\<exists>i. lo \<le> i \<and> i < mid \<and> P i) \<or> (\<exists>i. mid \<le> i \<and> i < hi \<and> P i) \<longleftrightarrow> (\<exists>i. lo \<le> i \<and> i < hi \<and> P i)"
  using assms by (meson le_trans less_le_trans not_le)

lemma changes_code_split:
  assumes "mem_at m' = upd_at addr buf lo mid (mem_at m)" "lo \<le> mid" "mid \<le> hi" "hi \<le> 18446744073709551616"
  shows "changes_code m addr buf lo mid \<or> changes_code m' addr buf mid hi \<longleftrightarrow> changes_code m addr buf lo hi"
proof -
  have acc: "accessible m' = accessible m" using assms(1) by (rule upd_at_accessible)
  have byte: "mem_byte m' (addr + of_nat i) = mem_byte m (addr + of_nat i)" if "mid \<le> i" "i < hi" for i
  proof -
    have "unat (of_nat i :: u64) = i" using that assms(4) by (intro unat_of_nat_small) simp
    then show ?thesis using that by (simp add: mem_byte_def assms(1) upd_at_def Let_def)
  qed
  have "(\<exists>i. mid \<le> i \<and> i < hi \<and> accessible m ProtExec (addr + of_nat i) \<and> mem_byte m' (addr + of_nat i) \<noteq> buf ! i)
    \<longleftrightarrow> (\<exists>i. mid \<le> i \<and> i < hi \<and> accessible m ProtExec (addr + of_nat i) \<and> mem_byte m (addr + of_nat i) \<noteq> buf ! i)"
    using byte by auto
  then show ?thesis
    unfolding changes_code_def acc by (simp only: ex_interval_split [OF assms(2,3)])
qed

section \<open>The copy loop as a whole\<close>

text \<open>The fault the loop returns when the buffer index \<open>k\<close> is the first that cannot be accessed.\<close>

definition copy_fault :: "bool \<Rightarrow> u64 \<Rightarrow> u64 \<Rightarrow> nat \<Rightarrow> nat \<Rightarrow> cpu_error" where
  "copy_fault wr req addr len k = FaultError (faultKind wr req) (addr + of_nat k) (len - k)"

lemma copy_loop_fault:
  assumes "mem_wf m" and "off < length buf" and "\<not> accessible m req (addr + of_nat off)"
  shows "\<exists>m1. copy_loop wr req addr off buf m = (Some (copy_fault wr req addr (length buf) off), buf, m1)
           \<and> mem_wf m1 \<and> same_core m m1"
proof -
  define a where "a = addr + of_nat off"
  obtain po m1 where lk: "lookupPage (pageAddr a) m = (po, m1)" by (cases "lookupPage (pageAddr a) m")
  note lw = lookupPage_wf [OF assms(1) lk]
  have "po = Some p \<Longrightarrow> req \<noteq> 0 \<and> pg_perm (m_store m1 p) AND req = 0" for p
    using assms(3) lw by (auto simp: accessible_def mem_at_def same_core_def a_def)
  then have "copy_loop wr req addr off buf m = (Some (copy_fault wr req addr (length buf) off), buf, m1)"
    using assms(2) lk
    by (subst copy_loop.simps) (auto simp: Let_def a_def copy_fault_def split: option.splits)
  with lw show ?thesis by blast
qed

lemma mem_at_store_dirty [simp]: "mem_at (m\<lparr>m_codeDirty := b, m_store := s\<rparr>) = mem_at (m\<lparr>m_store := s\<rparr>)"
  by (rule ext) (simp add: mem_at_def split: option.split)

text \<open>What one iteration knows about the page it works on.\<close>

lemma copy_chunk:
  assumes "mem_wf m" and "off < length buf" and "accessible m req (addr + of_nat off)"
  defines "a \<equiv> addr + of_nat off"
  defines "n \<equiv> min (length buf - off) (4096 - unat (a AND pageMask))"
  obtains p m1 where "lookupPage (pageAddr a) m = (Some p, m1)" "mem_wf m1" "same_core m m1"
    "m_pages m1 (pageAddr a) = Some p" "req = 0 \<or> pg_perm (m_store m1 p) AND req \<noteq> 0"
    "0 < n" "off + n \<le> length buf" "unat (a AND pageMask) + n \<le> 4096"
    "\<And>i. off \<le> i \<Longrightarrow> i < off + n \<Longrightarrow> accessible m req (addr + of_nat i)"
proof -
  obtain po m1 where lk: "lookupPage (pageAddr a) m = (po, m1)" by (cases "lookupPage (pageAddr a) m")
  note lw = lookupPage_wf [OF assms(1) lk]
  obtain p where p: "po = Some p" "req = 0 \<or> pg_perm (m_store m1 p) AND req \<noteq> 0"
    using assms(3) lw by (auto simp: accessible_def mem_at_def same_core_def a_def split: option.splits)
  have pg: "m_pages m1 (pageAddr (addr + of_nat off)) = Some p"
    using lw p by (simp add: same_core_def a_def)
  note n = chunk_length [OF assms(2), of a, folded n_def]
  have acc: "accessible m req (addr + of_nat i)" if "off \<le> i" "i < off + n" for i
    using chunk_all_accessible [OF pg p(2) n(3) [unfolded a_def] that] same_core_accessible [OF lw(3)] by simp
  show ?thesis
    by (rule that [of p m1]) (use lk lw(2,3) p pg n acc in \<open>simp_all add: a_def\<close>)
qed

lemma copy_loop_read_step:
  assumes "mem_wf m" and "off < length buf" and "accessible m req (addr + of_nat off)"
  obtains n buf2 m1 where "copy_loop False req addr off buf m = copy_loop False req addr (off + n) buf2 m1"
    "mem_wf m1" "same_core m m1" "0 < n" "off + n \<le> length buf" "length buf2 = length buf"
    "take (off + n) buf2 = take off buf @ map (\<lambda>i. mem_byte m (addr + of_nat i)) [off..<off + n]"
    "\<And>i. off \<le> i \<Longrightarrow> i < off + n \<Longrightarrow> accessible m req (addr + of_nat i)"
proof -
  define a where "a = addr + of_nat off"
  define n where "n = min (length buf - off) (4096 - unat (a AND pageMask))"
  obtain p m1 where c: "lookupPage (pageAddr a) m = (Some p, m1)" "mem_wf m1" "same_core m m1"
    "m_pages m1 (pageAddr a) = Some p" "req = 0 \<or> pg_perm (m_store m1 p) AND req \<noteq> 0"
    "0 < n" "off + n \<le> length buf" "unat (a AND pageMask) + n \<le> 4096"
    "\<And>i. off \<le> i \<Longrightarrow> i < off + n \<Longrightarrow> accessible m req (addr + of_nat i)"
    using copy_chunk [OF assms] unfolding a_def n_def by blast
  define buf2 where "buf2 = take off buf @ page_bytes (m_store m1 p) (unat (a AND pageMask)) n @ drop (off + n) buf"
  have step: "copy_loop False req addr off buf m = copy_loop False req addr (off + n) buf2 m1"
    using assms(2) c(1,5)
    by (subst copy_loop.simps) (auto simp: Let_def a_def [symmetric] pageAddr_offset n_def buf2_def)
  have "page_bytes (m_store m1 p) (unat (a AND pageMask)) n = map (\<lambda>i. mem_byte m1 (a + of_nat i)) [0..<n]"
    using c(4,8) by (rule chunk_bytes)
  also have "\<dots> = map (\<lambda>i. mem_byte m (addr + of_nat i)) [off..<off + n]"
    by (rule nth_equalityI) (auto simp: a_def add.assoc same_core_mem_byte [OF c(3)])
  finally have bytes: "take (off + n) buf2 = take off buf @ map (\<lambda>i. mem_byte m (addr + of_nat i)) [off..<off + n]"
    using c(7) assms(2) by (simp add: buf2_def page_bytes_def)
  have "length buf2 = length buf" using c(7) by (simp add: buf2_def page_bytes_def)
  with that step bytes c show ?thesis by blast
qed

lemma copy_loop_read:
  assumes "mem_wf m"
  shows "\<exists>buf' m'. copy_loop False req addr off buf m =
      (map_option (copy_fault False req addr (length buf)) (fault_index m req addr off (length buf)), buf', m')
      \<and> mem_wf m' \<and> same_core m m'
      \<and> (fault_index m req addr off (length buf) = None \<longrightarrow>
           buf' = take off buf @ map (\<lambda>i. mem_byte m (addr + of_nat i)) [off..<length buf])"
  using assms
proof (induction "length buf - off" arbitrary: off buf m rule: less_induct)
  case less
  consider "\<not> off < length buf" | "off < length buf" "\<not> accessible m req (addr + of_nat off)"
    | "off < length buf" "accessible m req (addr + of_nat off)" by blast
  then show ?case
  proof cases
    case 1
    then show ?thesis using less.prems by (subst copy_loop.simps) (auto simp: fault_index_def)
  next
    case 2
    then show ?thesis using copy_loop_fault [OF less.prems 2, of False] by (auto simp: fault_index_here)
  next
    case 3
    from less.prems 3 obtain n buf2 m1 where s: "copy_loop False req addr off buf m = copy_loop False req addr (off + n) buf2 m1"
      "mem_wf m1" "same_core m m1" "0 < n" "off + n \<le> length buf" "length buf2 = length buf"
      "take (off + n) buf2 = take off buf @ map (\<lambda>i. mem_byte m (addr + of_nat i)) [off..<off + n]"
      "\<And>i. off \<le> i \<Longrightarrow> i < off + n \<Longrightarrow> accessible m req (addr + of_nat i)"
      by (rule copy_loop_read_step) blast
    have fi: "fault_index m1 req addr (off + n) (length buf) = fault_index m req addr off (length buf)"
      using fault_index_skip [OF s(8) s(5)] fault_index_cong [OF same_core_accessible [OF s(3)]] by simp
    have split: "[off..<length buf] = [off..<off + n] @ [off + n..<length buf]"
      using s(5) by (metis le_add1 upt_add_eq_append le_add_diff_inverse)
    have "length buf2 - (off + n) < length buf - off" using s(4-6) by simp
    from less.hyps [OF this s(2)] show ?thesis
      unfolding s(1,6) fi same_core_mem_byte [OF s(3)] s(7) split
      using same_core_trans [OF s(3)] by auto
  qed
qed

lemma copy_loop_write_step:
  assumes "mem_wf m" and "off < length buf" and "accessible m req (addr + of_nat off)"
    and len: "length buf \<le> 18446744073709551616"
  obtains n m3 where "copy_loop True req addr off buf m = copy_loop True req addr (off + n) buf m3"
    "mem_wf m3" "0 < n" "off + n \<le> length buf" "mem_at m3 = upd_at addr buf off (off + n) (mem_at m)"
    "m_codeDirty m3 = (m_codeDirty m \<or> changes_code m addr buf off (off + n))"
    "\<And>i. off \<le> i \<Longrightarrow> i < off + n \<Longrightarrow> accessible m req (addr + of_nat i)"
proof -
  define a where "a = addr + of_nat off"
  define n where "n = min (length buf - off) (4096 - unat (a AND pageMask))"
  obtain p m1 where c: "lookupPage (pageAddr a) m = (Some p, m1)" "mem_wf m1" "same_core m m1"
    "m_pages m1 (pageAddr a) = Some p" "req = 0 \<or> pg_perm (m_store m1 p) AND req \<noteq> 0"
    "0 < n" "off + n \<le> length buf" "unat (a AND pageMask) + n \<le> 4096"
    "\<And>i. off \<le> i \<Longrightarrow> i < off + n \<Longrightarrow> accessible m req (addr + of_nat i)"
    using copy_chunk [OF assms(1-3)] unfolding a_def n_def by blast
  define pg where "pg = m_store m1 p"
  define src where "src = take n (drop off buf)"
  define d where "d = (pg_perm pg AND ProtExec \<noteq> 0 \<and> page_bytes pg (unat (a AND pageMask)) n \<noteq> src)"
  define m3 where "m3 = m1\<lparr>m_codeDirty := m_codeDirty m1 \<or> d,
     m_store := (m_store m1)(p := write_page pg (unat (a AND pageMask)) src)\<rparr>"
  have "m1\<lparr>m_codeDirty := m_codeDirty m1\<rparr> = m1" by simp
  then have step: "copy_loop True req addr off buf m = copy_loop True req addr (off + n) buf m3"
    using assms(2) c(1,5)
    by (subst copy_loop.simps)
       (auto simp: Let_def a_def [symmetric] pageAddr_offset n_def pg_def src_def d_def m3_def)
  have at3: "mem_at m3 = upd_at addr buf off (off + n) (mem_at m)"
    using chunk_write_upd_at [OF c(2) c(4,8) [unfolded a_def] c(7) len]
    by (simp add: m3_def pg_def src_def a_def same_core_mem_at [OF c(3)])
  have "d \<longleftrightarrow> changes_code m1 addr buf off (off + n)"
    using chunk_changes_code [OF c(4,8) [unfolded a_def] c(7)] by (simp add: d_def pg_def src_def a_def)
  then have dirty3: "m_codeDirty m3 = (m_codeDirty m \<or> changes_code m addr buf off (off + n))"
    using c(3) same_core_accessible [OF c(3)] same_core_mem_byte [OF c(3)]
    by (simp add: m3_def same_core_def changes_code_def)
  have wf3: "mem_wf m3" by (rule mem_wf_data [OF c(2)]) (simp_all add: m3_def)
  from that step wf3 c at3 dirty3 show ?thesis by blast
qed

lemma changes_code_empty: "\<not> changes_code m addr buf lo lo"
  by (auto simp: changes_code_def)

lemma copy_loop_write:
  assumes "mem_wf m" and len: "length buf \<le> 18446744073709551616" and "off \<le> length buf"
  shows "\<exists>m'. copy_loop True req addr off buf m =
      (map_option (copy_fault True req addr (length buf)) (fault_index m req addr off (length buf)), buf, m')
      \<and> mem_wf m'
      \<and> mem_at m' = upd_at addr buf off (write_end (fault_index m req addr off (length buf)) (length buf)) (mem_at m)
      \<and> m_codeDirty m' = (m_codeDirty m \<or>
          changes_code m addr buf off (write_end (fault_index m req addr off (length buf)) (length buf)))"
  using assms(1,3)
proof (induction "length buf - off" arbitrary: off m rule: less_induct)
  case less
  consider "off = length buf" | "off < length buf" "\<not> accessible m req (addr + of_nat off)"
    | "off < length buf" "accessible m req (addr + of_nat off)" using less.prems by linarith
  then show ?case
  proof cases
    case 1
    then show ?thesis using less.prems
      by (subst copy_loop.simps) (auto simp: fault_index_def write_end_def changes_code_def)
  next
    case 2
    obtain m1 where m1: "copy_loop True req addr off buf m =
        (Some (copy_fault True req addr (length buf) off), buf, m1)" "mem_wf m1" "same_core m m1"
      using copy_loop_fault [OF less.prems(1) 2, of True] by blast
    have we: "write_end (fault_index m req addr off (length buf)) (length buf) = off"
      using 2 by (simp add: fault_index_here write_end_def)
    show ?thesis
      unfolding we
      using m1 fault_index_here [OF 2] same_core_mem_at [OF m1(3)] changes_code_empty
      by (intro exI [of _ m1]) (simp add: same_core_def)
  next
    case 3
    from less.prems(1) 3 len obtain n m3 where s:
      "copy_loop True req addr off buf m = copy_loop True req addr (off + n) buf m3"
      "mem_wf m3" "0 < n" "off + n \<le> length buf" "mem_at m3 = upd_at addr buf off (off + n) (mem_at m)"
      "m_codeDirty m3 = (m_codeDirty m \<or> changes_code m addr buf off (off + n))"
      "\<And>i. off \<le> i \<Longrightarrow> i < off + n \<Longrightarrow> accessible m req (addr + of_nat i)"
      by (rule copy_loop_write_step) blast
    have fi: "fault_index m req addr off (length buf) = fault_index m3 req addr (off + n) (length buf)"
      using fault_index_skip [OF s(7) s(4)] fault_index_cong [OF upd_at_accessible [OF s(5)]] by simp
    define hi where "hi = write_end (fault_index m req addr off (length buf)) (length buf)"
    have hi: "off + n \<le> hi" "hi \<le> length buf"
      unfolding hi_def write_end_def fi using fault_index_SomeD [of m3 req addr "off + n" "length buf"] s(4)
      by (auto split: option.splits intro: less_imp_le)
    have at: "upd_at addr buf (off + n) hi (mem_at m3) = upd_at addr buf off hi (mem_at m)"
      using hi by (simp add: s(5) upd_at_append)
    have dirty: "m_codeDirty m3 \<or> changes_code m3 addr buf (off + n) hi \<longleftrightarrow>
        m_codeDirty m \<or> changes_code m addr buf off hi"
      using changes_code_split [OF s(5) _ hi(1)] hi(2) len by (auto simp: s(6))
    have "length buf - (off + n) < length buf - off" using s(3) 3 by simp
    from less.hyps [OF this s(2) s(4)] show ?thesis
      unfolding s(1) fi [symmetric] hi_def [symmetric] at dirty .
  qed
qed

section \<open>Checked reads and writes\<close>

definition mem_bytes :: "memory \<Rightarrow> u64 \<Rightarrow> nat \<Rightarrow> u8 list" where
  "mem_bytes m addr n = map (\<lambda>i. mem_byte m (addr + of_nat i)) [0..<n]"

lemma length_mem_bytes [simp]: "length (mem_bytes m addr n) = n"
  by (simp add: mem_bytes_def)

lemma same_core_mem_bytes: "same_core m m' \<Longrightarrow> mem_bytes m' = mem_bytes m"
  by (intro ext) (simp add: mem_bytes_def same_core_mem_byte)

lemma readChecked_spec:
  assumes "mem_wf m"
  shows "\<exists>m'. readChecked addr sz perm m =
      ((case fault_index m perm addr 0 sz of
          None \<Rightarrow> Inr (mem_bytes m addr sz) | Some k \<Rightarrow> Inl (copy_fault False perm addr sz k)), m')
      \<and> mem_wf m' \<and> same_core m m'"
  using copy_loop_read [OF assms, of perm addr 0 "replicate sz 0"]
  by (auto simp: readChecked_def mem_copy_def mem_bytes_def split: option.splits)

lemma writeChecked_spec:
  assumes "mem_wf m" and "length bs \<le> 18446744073709551616"
  shows "\<exists>m'. writeChecked addr bs perm m =
      ((case fault_index m perm addr 0 (length bs) of
          None \<Rightarrow> Inr () | Some k \<Rightarrow> Inl (copy_fault True perm addr (length bs) k)), m')
      \<and> mem_wf m'
      \<and> mem_at m' = upd_at addr bs 0 (write_end (fault_index m perm addr 0 (length bs)) (length bs)) (mem_at m)
      \<and> m_codeDirty m' = (m_codeDirty m \<or>
          changes_code m addr bs 0 (write_end (fault_index m perm addr 0 (length bs)) (length bs)))"
  using copy_loop_write [OF assms, of 0 perm addr]
  by (auto simp: writeChecked_def mem_copy_def write_end_def split: option.splits)

text \<open>The fetch path's single-page shortcut does exactly what the general copy does.\<close>

lemma copy_loop_one_page:
  assumes "unat (addr AND pageMask) + n \<le> 4096" and "0 < n"
  shows "copy_loop False perm addr 0 (replicate n 0) m =
    (let (po, m1) = lookupPage (pageAddr addr) m in
     case po of
       None \<Rightarrow> (Some (FaultError (faultKind False perm) addr n), replicate n 0, m1)
     | Some p \<Rightarrow> if perm \<noteq> 0 \<and> pg_perm (m_store m1 p) AND perm = 0
         then (Some (FaultError (faultKind False perm) addr n), replicate n 0, m1)
         else (None, page_bytes (m_store m1 p) (unat (addr AND pageMask)) n, m1))"
proof -
  have n: "min n (4096 - unat (addr AND pageMask)) = n" using assms by simp
  have stop: "copy_loop False q addr n bs m1 = (None, bs, m1)" if "length bs = n" for q bs m1
    using that by (subst copy_loop.simps) simp
  show ?thesis
    using assms(2) n
    by (subst copy_loop.simps)
       (auto simp: Let_def pageAddr_offset stop page_bytes_def split: prod.splits option.splits)
qed


lemma readCheckedInto_eq: "readCheckedInto addr n perm m = readChecked addr n perm m"
proof (cases "0 < n \<and> unat (addr AND pageMask) + n \<le> 4096")
  case True
  then show ?thesis
    using copy_loop_one_page [of addr n perm m]
    by (auto simp: readCheckedInto_def readChecked_def mem_copy_def pageAddr_offset Let_def faultKind_def
        split: prod.splits option.splits)
next
  case False
  have "copy_loop False perm addr 0 [] m = (None, [], m)" by (subst copy_loop.simps) simp
  with False show ?thesis
    by (auto simp: readCheckedInto_def readChecked_def mem_copy_def pageAddr_offset Let_def)
qed

section \<open>The interface of a byte store\<close>

text \<open>
  What the clients of guest memory rely on: reads and writes of byte runs, an abstract byte map, an
  invariant every operation keeps, and which permissions admit a read or a write. A failed write
  has stored a prefix of its data.
\<close>

locale byte_store =
  fixes rd :: "u64 \<Rightarrow> nat \<Rightarrow> ('m, 'e, u8 list) sem"
    and wr :: "u64 \<Rightarrow> u8 list \<Rightarrow> ('m, 'e, unit) sem"
    and view :: "'m \<Rightarrow> u64 \<Rightarrow> (u64 \<times> u8) option"
    and inv :: "'m \<Rightarrow> bool"
    and can_rd :: "u64 \<Rightarrow> bool"
    and can_wr :: "u64 \<Rightarrow> bool"
  assumes rd_ok: "inv m \<Longrightarrow> (\<And>i. i < n \<Longrightarrow> \<exists>p. view m (a + of_nat i) = Some (p, f i) \<and> can_rd p) \<Longrightarrow>
      \<exists>m'. rd a n m = (Inr (map f [0..<n]), m') \<and> inv m' \<and> view m' = view m"
    and rd_fault: "inv m \<Longrightarrow> i < n \<Longrightarrow> (\<And>p b. view m (a + of_nat i) = Some (p, b) \<Longrightarrow> \<not> can_rd p) \<Longrightarrow>
      \<exists>e m'. rd a n m = (Inl e, m') \<and> inv m' \<and> view m' = view m"
    and rd_local: "inv m \<Longrightarrow> inv m' \<Longrightarrow> (\<And>i. i < n \<Longrightarrow> view m (a + of_nat i) = view m' (a + of_nat i)) \<Longrightarrow>
      fst (rd a n m) = fst (rd a n m')"
    and wr_ok: "inv m \<Longrightarrow> length bs \<le> 18446744073709551616 \<Longrightarrow>
      (\<And>i. i < length bs \<Longrightarrow> \<exists>p b. view m (a + of_nat i) = Some (p, b) \<and> can_wr p) \<Longrightarrow>
      \<exists>m'. wr a bs m = (Inr (), m') \<and> inv m' \<and> view m' = upd_at a bs 0 (length bs) (view m)"
    and wr_fault: "inv m \<Longrightarrow> length bs \<le> 18446744073709551616 \<Longrightarrow> i < length bs \<Longrightarrow>
      (\<And>p b. view m (a + of_nat i) = Some (p, b) \<Longrightarrow> \<not> can_wr p) \<Longrightarrow>
      \<exists>e m' k. k \<le> i \<and> wr a bs m = (Inl e, m') \<and> inv m' \<and> view m' = upd_at a bs 0 k (view m)"
begin

lemma rd_result:
  assumes "inv m" "rd a n m = (r, m')"
  shows "inv m'" "view m' = view m"
proof -
  have "inv m' \<and> view m' = view m"
  proof (cases "\<forall>i<n. \<exists>p b. view m (a + of_nat i) = Some (p, b) \<and> can_rd p")
    case True
    then have "\<exists>p. view m (a + of_nat i) = Some (p, snd (the (view m (a + of_nat i)))) \<and> can_rd p" if "i < n" for i
      using that by fastforce
    then show ?thesis using rd_ok [OF assms(1), of n a "\<lambda>i. snd (the (view m (a + of_nat i)))"] assms(2) by auto
  next
    case False
    then obtain i where "i < n" "\<And>p b. view m (a + of_nat i) = Some (p, b) \<Longrightarrow> \<not> can_rd p" by blast
    then show ?thesis using rd_fault [OF assms(1), of i n a] assms(2) by auto
  qed
  then show "inv m'" "view m' = view m" by simp_all
qed

lemma wr_Inr_iff:
  assumes "inv m" "length bs \<le> 18446744073709551616" "wr a bs m = (r, m')"
  shows "r = Inr () \<longleftrightarrow> (\<forall>i<length bs. \<exists>p b. view m (a + of_nat i) = Some (p, b) \<and> can_wr p)"
proof
  assume "r = Inr ()"
  show "\<forall>i<length bs. \<exists>p b. view m (a + of_nat i) = Some (p, b) \<and> can_wr p"
  proof (rule ccontr)
    assume "\<not> ?thesis"
    then obtain i where "i < length bs" "\<And>p b. view m (a + of_nat i) = Some (p, b) \<Longrightarrow> \<not> can_wr p" by blast
    then show False using wr_fault [OF assms(1,2), of i a] assms(3) \<open>r = Inr ()\<close> by auto
  qed
next
  assume "\<forall>i<length bs. \<exists>p b. view m (a + of_nat i) = Some (p, b) \<and> can_wr p"
  then show "r = Inr ()" using wr_ok [OF assms(1,2), of a] assms(3) by auto
qed

lemma wr_view:
  assumes "inv m" "length bs \<le> 18446744073709551616" "wr a bs m = (Inr (), m')"
  shows "inv m'" "view m' = upd_at a bs 0 (length bs) (view m)"
  using wr_ok [OF assms(1,2), of a] wr_Inr_iff [OF assms] assms(3) by auto

text \<open>A successful write followed by a read of the same run returns what was written.\<close>

lemma wr_rd:
  assumes "inv m" "length bs \<le> 18446744073709551616" "wr a bs m = (Inr (), m')"
    and "\<And>i. i < length bs \<Longrightarrow> \<exists>p b. view m (a + of_nat i) = Some (p, b) \<and> can_rd p"
  shows "\<exists>m''. rd a (length bs) m' = (Inr bs, m'') \<and> inv m'' \<and> view m'' = view m'"
proof -
  note v = wr_view [OF assms(1-3)]
  have "\<exists>p. view m' (a + of_nat i) = Some (p, bs ! i) \<and> can_rd p" if "i < length bs" for i
  proof -
    have "unat (of_nat i :: u64) = i" using that assms(2) by (intro unat_of_nat_small) simp
    then show ?thesis using assms(4) [OF that] that by (auto simp: v(2) upd_at_def)
  qed
  from rd_ok [OF v(1), of "length bs" a "\<lambda>i. bs ! i", OF this] show ?thesis by (simp add: map_nth)
qed

text \<open>A write does not change what a read outside the written run returns.\<close>

lemma wr_frame:
  assumes "inv m" "length bs \<le> 18446744073709551616" "wr a bs m = (Inr (), m')"
    and "\<And>i. i < n \<Longrightarrow> length bs \<le> unat (b + of_nat i - a)"
  shows "fst (rd b n m') = fst (rd b n m)"
proof -
  note v = wr_view [OF assms(1-3)]
  show ?thesis
    by (rule rd_local [OF v(1) assms(1)]) (use assms(4) in \<open>force simp: v(2) upd_at_def Let_def\<close>)
qed

text \<open>Writes to disjoint runs commute on the byte map.\<close>

lemma wr_commute:
  assumes "inv m" "length bs \<le> 18446744073709551616" "length cs \<le> 18446744073709551616"
    and "wr a bs m = (Inr (), m1)" "wr b cs m1 = (Inr (), m12)"
    and "wr b cs m = (Inr (), m2)" "wr a bs m2 = (Inr (), m21)"
    and "\<And>x. \<not> (unat (x - a) < length bs \<and> unat (x - b) < length cs)"
  shows "view m12 = view m21"
proof -
  note v1 = wr_view [OF assms(1,2,4)] and v2 = wr_view [OF assms(1,3,6)]
  show ?thesis
    using wr_view(2) [OF v1(1) assms(3,5)] wr_view(2) [OF v2(1) assms(2,7)] assms(8)
    by (auto simp: v1(2) v2(2) upd_at_def Let_def fun_eq_iff)
qed

end

section \<open>The two instances: checked accesses and the host API\<close>

lemma fault_index_byte_map:
  assumes "\<And>i. i < n \<Longrightarrow> mem_at m (a + of_nat i) = mem_at m' (a + of_nat i)"
  shows "fault_index m req a 0 n = fault_index m' req a 0 n" "mem_bytes m a n = mem_bytes m' a n"
  using assms by (auto simp: fault_index_def accessible_def mem_bytes_def mem_byte_def intro!: find_cong)

lemma readChecked_fst:
  assumes "mem_wf m"
  shows "fst (readChecked a n perm m) = (case fault_index m perm a 0 n of
      None \<Rightarrow> Inr (mem_bytes m a n) | Some k \<Rightarrow> Inl (copy_fault False perm a n k))"
  using readChecked_spec [OF assms, of a n perm] by (elim exE conjE) simp

lemma readChecked_local:
  assumes "mem_wf m" "mem_wf m'" "\<And>i. i < n \<Longrightarrow> mem_at m (a + of_nat i) = mem_at m' (a + of_nat i)"
  shows "fst (readChecked a n perm m) = fst (readChecked a n perm m')"
  using fault_index_byte_map [of n m a m', OF assms(3)]
  by (simp add: readChecked_fst [OF assms(1)] readChecked_fst [OF assms(2)] split: option.split)

lemma readChecked_ok:
  assumes "mem_wf m" "\<And>i. i < n \<Longrightarrow> \<exists>p. mem_at m (a + of_nat i) = Some (p, f i) \<and> (req = 0 \<or> p AND req \<noteq> 0)"
  shows "\<exists>m'. readChecked a n req m = (Inr (map f [0..<n]), m') \<and> mem_wf m' \<and> same_core m m'"
proof -
  have "fault_index m req a 0 n = None"
    unfolding fault_index_None using assms(2) by (fastforce simp: accessible_def)
  moreover have "mem_bytes m a n = map f [0..<n]"
    using assms(2) by (fastforce simp: mem_bytes_def mem_byte_def)
  ultimately show ?thesis using readChecked_spec [OF assms(1), of a n req] by simp
qed

lemma readChecked_fault:
  assumes "mem_wf m" "i < n" "\<not> accessible m req (a + of_nat i)"
  shows "\<exists>e m'. readChecked a n req m = (Inl e, m') \<and> mem_wf m' \<and> same_core m m'"
proof -
  have "fault_index m req a 0 n \<noteq> None" unfolding fault_index_None using assms(2,3) by blast
  then show ?thesis using readChecked_spec [OF assms(1), of a n req] by auto
qed

lemma writeChecked_ok:
  assumes "mem_wf m" "length bs \<le> 18446744073709551616" "\<And>i. i < length bs \<Longrightarrow> accessible m req (a + of_nat i)"
  shows "\<exists>m'. writeChecked a bs req m = (Inr (), m') \<and> mem_wf m' \<and> mem_at m' = upd_at a bs 0 (length bs) (mem_at m)"
proof -
  have "fault_index m req a 0 (length bs) = None" unfolding fault_index_None using assms(3) by blast
  then show ?thesis using writeChecked_spec [OF assms(1,2), of a req] by (auto simp: write_end_def)
qed

lemma writeChecked_fault:
  assumes "mem_wf m" "length bs \<le> 18446744073709551616" "i < length bs" "\<not> accessible m req (a + of_nat i)"
  shows "\<exists>e m' k. k \<le> i \<and> writeChecked a bs req m = (Inl e, m') \<and> mem_wf m' \<and> mem_at m' = upd_at a bs 0 k (mem_at m)"
proof -
  obtain k where k: "fault_index m req a 0 (length bs) = Some k"
    using assms(3,4) fault_index_None [of m req a 0 "length bs"] by fastforce
  then have "k \<le> i" using fault_index_SomeD(4) [OF k, of i] assms(4) by (meson le0 not_le)
  with k show ?thesis using writeChecked_spec [OF assms(1,2), of a req] by (auto simp: write_end_def)
qed

lemma prots_nonzero [simp]: "ProtRead \<noteq> 0" "ProtWrite \<noteq> 0"
  by (simp_all add: prot_defs)

interpretation checked: byte_store "\<lambda>a n. readChecked a n ProtRead" "\<lambda>a bs. writeChecked a bs ProtWrite"
  mem_at mem_wf "\<lambda>p. p AND ProtRead \<noteq> 0" "\<lambda>p. p AND ProtWrite \<noteq> 0"
proof (unfold_locales, goal_cases)
  case (1 m n a f)
  then show ?case using readChecked_ok [of m n a f ProtRead] by (fastforce dest: same_core_mem_at)
next
  case (2 m i n a)
  then show ?case using readChecked_fault [of m i n ProtRead a]
    by (fastforce simp: accessible_def dest: same_core_mem_at split: option.splits)
next
  case (3 m m' n a)
  then show ?case by (rule readChecked_local)
next
  case (4 m bs a)
  then show ?case by (intro writeChecked_ok) (fastforce simp: accessible_def)+
next
  case (5 m bs i a)
  then show ?case by (intro writeChecked_fault) (auto simp: accessible_def split: option.splits)
qed


text \<open>The host API is the checked access with no permission required.\<close>

lemma MemRead_eq: "MemRead a n m = readChecked a n 0 m"
proof -
  have "copy_loop False 0 a 0 [] m = (None, [], m)" by (subst copy_loop.simps) simp
  then show ?thesis by (simp add: MemRead_def readChecked_def mem_copy_def)
qed

lemma MemWrite_eq: "MemWrite a bs m = writeChecked a bs 0 m"
proof -
  have "copy_loop True 0 a 0 [] m = (None, [], m)" by (subst copy_loop.simps) simp
  then show ?thesis by (simp add: MemWrite_def writeChecked_def mem_copy_def)
qed

interpretation host: byte_store MemRead MemWrite mem_at mem_wf "\<lambda>_. True" "\<lambda>_. True"
proof (unfold_locales, goal_cases)
  case (1 m n a f)
  then show ?case using readChecked_ok [of m n a f 0] by (fastforce simp: MemRead_eq dest: same_core_mem_at)
next
  case (2 m i n a)
  then show ?case using readChecked_fault [of m i n 0 a]
    by (fastforce simp: MemRead_eq accessible_def dest: same_core_mem_at split: option.splits)
next
  case (3 m m' n a)
  then show ?case unfolding MemRead_eq by (rule readChecked_local)
next
  case (4 m bs a)
  then show ?case unfolding MemWrite_eq by (intro writeChecked_ok) (fastforce simp: accessible_def)+
next
  case (5 m bs i a)
  then show ?case unfolding MemWrite_eq
    by (intro writeChecked_fault) (auto simp: accessible_def split: option.splits)
qed

section \<open>Page loops\<close>

lemma aligned_iff: "a AND pageMask = 0 \<longleftrightarrow> 4096 dvd unat a" for a :: u64
  by (metis unat_page_offset unat_eq_zero dvd_eq_mod_eq_0)

lemma aligned_gap: "4096 dvd p \<Longrightarrow> 4096 dvd q \<Longrightarrow> p < q \<Longrightarrow> p + 4096 \<le> q" for p q :: nat
  by (elim dvdE) simp

lemma aligned_cover:
  fixes p q h :: nat
  assumes "4096 dvd p" "p < h"
  shows "4096 dvd q \<and> p \<le> q \<and> q < h \<longleftrightarrow> q = p \<or> 4096 dvd q \<and> p + 4096 \<le> q \<and> q < h"
  using assms aligned_gap [of p q] by (cases "p = q") auto

lemma pageAddr_fix_iff: "pageAddr a = a \<longleftrightarrow> 4096 dvd unat a"
  using pageAddr_offset [of a] aligned_iff [of a] by (metis eq_iff_diff_eq_0)

lemma aligned_add: "a AND pageMask = 0 \<Longrightarrow> b AND pageMask = 0 \<Longrightarrow> (a + b) AND pageMask = 0" for a b :: u64
  unfolding aligned_iff by (simp add: unat_word_ariths dvd_mod)

lemma aligned_pageAddr: "pageAddr a AND pageMask = 0"
  unfolding aligned_iff unat_pageAddr by (rule dvd_minus_mod)

lemma page_loop_step:
  assumes "a < hi" "a AND pageMask = 0" "hi AND pageMask = 0"
  shows "a < a + 4096" "unat (a + 4096) = unat a + 4096" "unat a + 4096 \<le> unat hi"
proof -
  have le: "unat a + 4096 \<le> unat hi"
    using assms aligned_gap unfolding aligned_iff word_less_nat_alt by blast
  then have "unat a + 4096 < 18446744073709551616" using unat_u64_less [of hi] by linarith
  then show u: "unat (a + 4096) = unat a + 4096" by (simp add: unat_word_ariths)
  then show "a < a + 4096" by (simp add: word_less_nat_alt)
  show "unat a + 4096 \<le> unat hi" by (rule le)
qed

lemma page_loop_set:
  assumes "a AND pageMask = 0" "hi AND pageMask = 0"
  shows "set (page_loop a hi) = {x. pageAddr x = x \<and> a \<le> x \<and> x < hi} \<and> distinct (page_loop a hi)"
  using assms
proof (induction a hi rule: page_loop.induct)
  case (1 a hi)
  show ?case
  proof (cases "a < hi")
    case False
    then show ?thesis by (subst (1 2) page_loop.simps) auto
  next
    case True
    note s = page_loop_step [OF True "1.prems"]
    have "(a + 4096) AND pageMask = 0"
      using "1.prems"(1) unfolding aligned_iff s(2) by simp
    then have IH: "set (page_loop (a + 4096) hi) = {x. pageAddr x = x \<and> a + 4096 \<le> x \<and> x < hi}"
        "distinct (page_loop (a + 4096) hi)"
      using "1.IH" True s(1) "1.prems"(2) by simp_all
    have cover: "pageAddr x = x \<and> a \<le> x \<and> x < hi \<longleftrightarrow> x = a \<or> pageAddr x = x \<and> a + 4096 \<le> x \<and> x < hi" for x
      using aligned_cover [of "unat a" "unat hi" "unat x"] "1.prems"(1) True word_unat_eq_iff [of x a]
      unfolding pageAddr_fix_iff aligned_iff word_le_nat_alt word_less_nat_alt s(2) by blast
    have "page_loop a hi = a # page_loop (a + 4096) hi"
      using True s(1) by (subst page_loop.simps) simp
    moreover have "a \<notin> set (page_loop (a + 4096) hi)" using IH(1) s(2) by (auto simp: word_le_nat_alt)
    ultimately show ?thesis using IH cover by auto
  qed
qed

section \<open>Mapping, unmapping and protecting\<close>

definition cache_ok :: "memory \<Rightarrow> bool" where
  "cache_ok m \<longleftrightarrow> (m_cachedOK m \<longrightarrow> m_pages m (m_cachedAddr m) = Some (m_cachedPage m))"

definition table_wf :: "memory \<Rightarrow> bool" where
  "table_wf m \<longleftrightarrow>
     (\<forall>pa p. m_pages m pa = Some p \<longrightarrow> pageAddr pa = pa \<and> 0 < p \<and> p < m_next m) \<and>
     (\<forall>pa qa p. m_pages m pa = Some p \<longrightarrow> m_pages m qa = Some p \<longrightarrow> pa = qa) \<and> 0 < m_next m"

lemma mem_wf_iff: "mem_wf m \<longleftrightarrow> table_wf m \<and> cache_ok m"
  by (auto simp: mem_wf_def table_wf_def cache_ok_def)

lemma invalidate_wf: "table_wf m \<Longrightarrow> mem_wf (invalidateCode (invalidateCache m))"
  by (simp add: mem_wf_iff table_wf_def cache_ok_def invalidateCode_def invalidateCache_def)

lemma invalidate_mem_at [simp]: "mem_at (invalidateCode (invalidateCache m)) = mem_at m"
  by (rule ext) (simp add: mem_at_def invalidateCode_def invalidateCache_def split: option.split)

lemma invalidate_dirty [simp]: "m_codeDirty (invalidateCode m)"
  by (simp add: invalidateCode_def)

lemma fold_alloc:
  assumes "table_wf m" "distinct as" "\<forall>a\<in>set as. pageAddr a = a \<and> m_pages m a = None"
  shows "table_wf (fold (alloc_page perms) as m) \<and>
    (\<forall>x. mem_at (fold (alloc_page perms) as m) x = (if pageAddr x \<in> set as then Some (perms, 0) else mem_at m x))"
  using assms
proof (induction as arbitrary: m)
  case Nil
  then show ?case by simp
next
  case (Cons a as)
  have fresh: "m_pages m pa \<noteq> Some (m_next m)" for pa using Cons.prems(1) by (auto simp: table_wf_def)
  have wf: "table_wf (alloc_page perms a m)"
    using Cons.prems fresh by (auto simp: table_wf_def alloc_page_def less_Suc_eq)
  have at: "mem_at (alloc_page perms a m) x = (if pageAddr x = a then Some (perms, 0) else mem_at m x)" for x
    using fresh by (auto simp: mem_at_def alloc_page_def split: option.split)
  have "\<forall>b\<in>set as. pageAddr b = b \<and> m_pages (alloc_page perms a m) b = None"
    using Cons.prems(2,3) by (auto simp: alloc_page_def)
  with Cons.IH [OF wf] Cons.prems(2) show ?case by (simp add: at)
qed

lemma fold_unmap:
  "table_wf m \<Longrightarrow> table_wf (fold unmap_page as m) \<and>
    (\<forall>x. mem_at (fold unmap_page as m) x =
         (if pageAddr x \<in> set as then None else mem_at m x))"
proof (induction as arbitrary: m)
  case Nil
  then show ?case by simp
next
  case (Cons a as)
  have wf: "table_wf (unmap_page a m)" using Cons.prems by (auto simp: table_wf_def unmap_page_def)
  have at: "mem_at (unmap_page a m) x = (if pageAddr x = a then None else mem_at m x)" for x
    by (auto simp: mem_at_def unmap_page_def split: option.split)
  show ?case using Cons.IH [OF wf] by (auto simp: at)
qed

lemma fold_protect:
  "table_wf m \<Longrightarrow> table_wf (fold (protect_page perms) as m) \<and>
    (\<forall>x. mem_at (fold (protect_page perms) as m) x =
         (if pageAddr x \<in> set as then map_option (\<lambda>(_, b). (perms, b)) (mem_at m x) else mem_at m x))"
proof (induction as arbitrary: m)
  case Nil
  then show ?case by simp
next
  case (Cons a as)
  have wf: "table_wf (protect_page perms a m)"
    using Cons.prems by (auto simp: table_wf_def protect_page_def split: option.split)
  have at: "mem_at (protect_page perms a m) x =
      (if pageAddr x = a then map_option (\<lambda>(_, b). (perms, b)) (mem_at m x) else mem_at m x)" for x
    using Cons.prems by (auto simp: mem_at_def protect_page_def table_wf_def split: option.split)
  show ?case using Cons.IH [OF wf] by (auto simp: at option.map_comp comp_def case_prod_beta' split: option.split)
qed

lemma page_floor_le: "4096 dvd p \<Longrightarrow> p \<le> q - q mod 4096 \<longleftrightarrow> p \<le> q" for p q :: nat
  by (elim dvdE) (simp add: minus_mod_eq_mult_div less_eq_div_iff_mult_less_eq mult.commute)

lemma page_floor_less: "4096 dvd p \<Longrightarrow> q - q mod 4096 < p \<longleftrightarrow> q < p" for p q :: nat
  using page_floor_le [of p q] by linarith

text \<open>The page loop from \<open>base\<close> to \<open>hi\<close> touches the pages of the addresses in between.\<close>

lemma page_loop_covers:
  assumes "base AND pageMask = 0" "hi AND pageMask = 0"
  shows "pageAddr x \<in> set (page_loop base hi) \<longleftrightarrow> base \<le> x \<and> x < hi"
  using page_floor_le [of "unat base" "unat x"] page_floor_less [of "unat hi" "unat x"] assms
  unfolding aligned_iff
  by (simp add: page_loop_set assms word_le_nat_alt word_less_nat_alt unat_pageAddr)

lemma range_iff_index:
  fixes addr sz x :: u64
  assumes "unat addr + unat sz < 18446744073709551616"
  shows "addr \<le> x \<and> x < addr + sz \<longleftrightarrow> unat (x - addr) < unat sz"
proof -
  have "unat (addr + sz) = unat addr + unat sz" using assms by (simp add: unat_word_ariths)
  then show ?thesis
    using unat_index_shift(1) [of "unat addr" "unat sz" x 0] assms
    by (simp add: word_le_nat_alt word_less_nat_alt)
qed

lemma MemMap_fresh:
  assumes "mem_wf m" "addr AND pageMask = 0" "sz AND pageMask = 0" "sz \<noteq> 0"
    and "unat addr + unat sz < 18446744073709551616"
    and "\<And>x. unat (x - addr) < unat sz \<Longrightarrow> mem_at m x = None"
  shows "\<exists>m'. MemMap addr sz perms m = (Inr (), m') \<and> mem_wf m' \<and>
    (\<forall>x. mem_at m' x = (if unat (x - addr) < unat sz then Some (perms, 0) else mem_at m x))"
proof -
  define as where "as = page_loop addr (addr + sz)"
  note al = aligned_add [OF assms(2,3)]
  have cov: "pageAddr x \<in> set as \<longleftrightarrow> unat (x - addr) < unat sz" for x
    unfolding as_def page_loop_covers [OF assms(2) al] by (rule range_iff_index [OF assms(5)])
  have free: "\<forall>a\<in>set as. pageAddr a = a \<and> m_pages m a = None"
  proof
    fix a assume a: "a \<in> set as"
    then have "pageAddr a = a" unfolding as_def page_loop_set [OF assms(2) al, THEN conjunct1] by simp
    moreover have "mem_at m a = None"
      by (rule assms(6)) (use cov [of a] a calculation in simp)
    ultimately show "pageAddr a = a \<and> m_pages m a = None" by (simp add: mem_at_def split: option.splits)
  qed
  then have "find (\<lambda>a. m_pages m a \<noteq> None) as = None" by (simp add: find_None_iff)
  moreover have "table_wf m" using assms(1) by (simp add: mem_wf_iff)
  moreover have "distinct as" unfolding as_def using page_loop_set [OF assms(2) al] by blast
  ultimately show ?thesis
    using fold_alloc [of m as perms] free assms(2-4) cov
    by (simp add: MemMap_def as_def [symmetric] Let_def invalidate_wf)
qed

lemma MemMap_taken:
  assumes "addr AND pageMask = 0" "sz AND pageMask = 0" "sz \<noteq> 0"
    and "unat addr + unat sz < 18446744073709551616"
    and "unat (x - addr) < unat sz" "mem_at m x \<noteq> None"
  shows "\<exists>a. MemMap addr sz perms m = (Inl (AlreadyMapped a), m)"
proof -
  note al = aligned_add [OF assms(1,2)]
  have "pageAddr x \<in> set (page_loop addr (addr + sz))"
    using assms(5) range_iff_index [OF assms(4)] page_loop_covers [OF assms(1) al] by blast
  moreover have "m_pages m (pageAddr x) \<noteq> None" using assms(6) by (simp add: mem_at_def split: option.splits)
  ultimately have "find (\<lambda>a. m_pages m a \<noteq> None) (page_loop addr (addr + sz)) \<noteq> None"
    unfolding find_None_iff by blast
  then show ?thesis using assms(1-3) by (auto simp: MemMap_def Let_def)
qed

lemma unmap_bounds:
  assumes "sz \<noteq> 0" "unat addr + unat sz \<le> 18446744073709547520"
  shows "unat (pageAddr (addr + sz - 1) + 4096) = unat (pageAddr (addr + sz - 1)) + 4096"
    "(pageAddr (addr + sz - 1) + 4096) AND pageMask = 0"
proof -
  have "0 < unat sz" using assms(1) by (simp add: unat_gt_0)
  then have "unat (addr + sz - 1) = unat addr + unat sz - 1"
    using assms by (simp add: unat_sub word_le_nat_alt unat_word_ariths)
  then have "unat (pageAddr (addr + sz - 1)) < 18446744073709547520"
    using assms(2) \<open>0 < unat sz\<close> page_floor_less [of 18446744073709547520 "unat (addr + sz - 1)"]
    by (simp add: unat_pageAddr)
  then show u: "unat (pageAddr (addr + sz - 1) + 4096) = unat (pageAddr (addr + sz - 1)) + 4096"
    by (simp add: unat_word_ariths)
  show "(pageAddr (addr + sz - 1) + 4096) AND pageMask = 0"
    using aligned_pageAddr [of "addr + sz - 1"] unfolding aligned_iff u by simp
qed

text \<open>The pages that \<open>MemUnmap\<close> and \<open>MemProtect\<close> touch: those meeting \<open>[addr, addr + sz)\<close>.\<close>

definition in_pages :: "u64 \<Rightarrow> u64 \<Rightarrow> u64 \<Rightarrow> bool" where
  "in_pages addr sz x \<longleftrightarrow> pageAddr addr \<le> x \<and> x < pageAddr (addr + sz - 1) + 4096"

lemma MemUnmap_spec:
  assumes "mem_wf m" "sz \<noteq> 0" "unat addr + unat sz \<le> 18446744073709547520"
  shows "\<exists>m'. MemUnmap addr sz m = (Inr (), m') \<and> mem_wf m' \<and>
    (\<forall>x. mem_at m' x = (if in_pages addr sz x then None else mem_at m x))"
proof -
  have "table_wf m" using assms(1) by (simp add: mem_wf_iff)
  note f = fold_unmap [OF this, of "page_loop (pageAddr addr) (pageAddr (addr + sz - 1) + 4096)"]
  then show ?thesis
    using page_loop_covers [OF aligned_pageAddr unmap_bounds(2) [OF assms(2,3)], of _ addr]
    by (simp add: MemUnmap_def Let_def invalidate_wf in_pages_def)
qed

lemma MemProtect_spec:
  assumes "mem_wf m" "sz \<noteq> 0" "unat addr + unat sz \<le> 18446744073709547520"
  shows "\<exists>m'. MemProtect addr sz perms m = (Inr (), m') \<and> mem_wf m' \<and>
    (\<forall>x. mem_at m' x = (if in_pages addr sz x then map_option (\<lambda>(_, b). (perms, b)) (mem_at m x) else mem_at m x))"
proof -
  have "table_wf m" using assms(1) by (simp add: mem_wf_iff)
  note f = fold_protect [OF this, of perms "page_loop (pageAddr addr) (pageAddr (addr + sz - 1) + 4096)"]
  then show ?thesis
    using page_loop_covers [OF aligned_pageAddr unmap_bounds(2) [OF assms(2,3)], of _ addr]
    by (simp add: MemProtect_def Let_def invalidate_wf in_pages_def)
qed

lemma mem_Clone_spec:
  assumes "mem_wf m"
  shows "mem_wf (mem_Clone m)" "mem_at (mem_Clone m) = mem_at m" "\<not> m_codeDirty (mem_Clone m)"
proof -
  show "mem_wf (mem_Clone m)"
    using assms by (auto simp: mem_wf_def mem_Clone_def newMemory_def)
  show "mem_at (mem_Clone m) = mem_at m"
    by (rule ext) (simp add: mem_at_def mem_Clone_def newMemory_def split: option.split)
  show "\<not> m_codeDirty (mem_Clone m)" by (simp add: mem_Clone_def newMemory_def)
qed

text \<open>
  Mapping the last page of the address space: \<open>addr + size\<close> wraps to 0, the loops run no
  iteration, and the call succeeds with nothing mapped.
\<close>

lemma MemMap_wraps:
  assumes "mem_wf m" "addr AND pageMask = 0" "sz AND pageMask = 0" "sz \<noteq> 0" "addr + sz = 0"
  shows "\<exists>m'. MemMap addr sz perms m = (Inr (), m') \<and> mem_at m' = mem_at m"
  using assms by (subst MemMap_def) (auto simp: page_loop.simps [of addr 0])


section \<open>Every operation keeps the invariant\<close>

text \<open>The calls a client of the memory can make, and what they leave.\<close>

datatype mem_op =
    OpMap u64 u64 u64
  | OpUnmap u64 u64
  | OpProtect u64 u64 u64
  | OpWrite u64 "u8 list"
  | OpRead u64 nat
  | OpFetch u64 nat
  | OpReadChecked u64 nat u64
  | OpWriteChecked u64 "u8 list" u64
  | OpConsumeDirty
  | OpClone

fun run_op :: "mem_op \<Rightarrow> memory \<Rightarrow> memory" where
  "run_op (OpMap a sz perms) m = snd (MemMap a sz perms m)"
| "run_op (OpUnmap a sz) m = snd (MemUnmap a sz m)"
| "run_op (OpProtect a sz perms) m = snd (MemProtect a sz perms m)"
| "run_op (OpWrite a bs) m = snd (MemWrite a bs m)"
| "run_op (OpRead a n) m = snd (MemRead a n m)"
| "run_op (OpFetch a n) m = snd (readCheckedInto a n ProtExec m)"
| "run_op (OpReadChecked a n perm) m = snd (readChecked a n perm m)"
| "run_op (OpWriteChecked a bs perm) m = snd (writeChecked a bs perm m)"
| "run_op OpConsumeDirty m = snd (consumeCodeDirty m)"
| "run_op OpClone m = mem_Clone m"

text \<open>A buffer is shorter than the address space, as every Go slice is.\<close>

fun op_fits :: "mem_op \<Rightarrow> bool" where
  "op_fits (OpWrite a bs) \<longleftrightarrow> length bs \<le> 18446744073709551616"
| "op_fits (OpWriteChecked a bs perm) \<longleftrightarrow> length bs \<le> 18446744073709551616"
| "op_fits _ \<longleftrightarrow> True"

lemma MemMap_wf: "mem_wf m \<Longrightarrow> mem_wf (snd (MemMap a sz perms m))"
proof -
  assume wf: "mem_wf m"
  show ?thesis
  proof (cases "a AND pageMask \<noteq> 0 \<or> sz = 0 \<or> sz AND pageMask \<noteq> 0 \<or>
      find (\<lambda>a. m_pages m a \<noteq> None) (page_loop a (a + sz)) \<noteq> None")
    case True
    then show ?thesis using wf by (auto simp: MemMap_def Let_def split: option.split)
  next
    case False
    then have al: "a AND pageMask = 0" "(a + sz) AND pageMask = 0" by (auto intro: aligned_add)
    have "table_wf m" using wf by (simp add: mem_wf_iff)
    moreover have "\<forall>b\<in>set (page_loop a (a + sz)). pageAddr b = b \<and> m_pages m b = None"
      using False page_loop_set [OF al] by (auto simp: find_None_iff)
    ultimately have "table_wf (fold (alloc_page perms) (page_loop a (a + sz)) m)"
      using fold_alloc page_loop_set [OF al] by blast
    then show ?thesis using False by (simp add: MemMap_def Let_def invalidate_wf)
  qed
qed

lemma run_op_wf:
  assumes "mem_wf m" "op_fits oper"
  shows "mem_wf (run_op oper m)"
proof (cases oper)
  case (OpMap a sz perms)
  then show ?thesis using MemMap_wf [OF assms(1)] by simp
next
  case (OpUnmap a sz)
  have "table_wf (fold unmap_page as m)" for as using assms(1) fold_unmap mem_wf_iff by blast
  with OpUnmap show ?thesis by (simp add: MemUnmap_def Let_def invalidate_wf)
next
  case (OpProtect a sz perms)
  have "table_wf (fold (protect_page perms) as m)" for as using assms(1) fold_protect mem_wf_iff by blast
  with OpProtect show ?thesis by (simp add: MemProtect_def Let_def invalidate_wf)
next
  case (OpWrite a bs)
  then show ?thesis using writeChecked_spec [OF assms(1), of bs a 0] assms(2) by (auto simp: MemWrite_eq)
next
  case (OpRead a n)
  then show ?thesis using readChecked_spec [OF assms(1), of a n 0] by (auto simp: MemRead_eq)
next
  case (OpFetch a n)
  then show ?thesis using readChecked_spec [OF assms(1), of a n ProtExec] by (auto simp: readCheckedInto_eq)
next
  case (OpReadChecked a n perm)
  then show ?thesis using readChecked_spec [OF assms(1), of a n perm] by auto
next
  case (OpWriteChecked a bs perm)
  then show ?thesis using writeChecked_spec [OF assms(1), of bs a perm] assms(2) by auto
next
  case OpConsumeDirty
  then show ?thesis using assms(1) by (simp add: consumeCodeDirty_def mem_wf_def)
next
  case OpClone
  then show ?thesis using mem_Clone_spec(1) [OF assms(1)] by simp
qed

lemma run_ops_wf: "mem_wf m \<Longrightarrow> list_all op_fits ops \<Longrightarrow> mem_wf (fold run_op ops m)"
  by (induction ops arbitrary: m) (auto intro: run_op_wf)

section \<open>Properties of guest memory\<close>

text \<open>A concrete memory for the witnesses: two readable and writable pages at 0x1000.\<close>

definition demo_mem :: memory where
  "demo_mem = snd (MemMap 0x1000 0x2000 (ProtRead OR ProtWrite) newMemory)"

lemma demo_mem_wf: "mem_wf demo_mem"
  unfolding demo_mem_def by (rule MemMap_wf [OF mem_wf_newMemory])

lemma newMemory_at: "mem_at newMemory x = None"
  by (simp add: mem_at_def newMemory_def)

lemma demo_mem_map:
  "fst (MemMap 0x1000 0x2000 (ProtRead OR ProtWrite) newMemory) = Inr () \<and>
   mem_at demo_mem x = (if unat (x - 0x1000) < 8192 then Some (ProtRead OR ProtWrite, 0) else None)"
  using MemMap_fresh [OF mem_wf_newMemory, of "0x1000" "0x2000" "ProtRead OR ProtWrite"]
  by (auto simp: demo_mem_def newMemory_at)

lemma demo_mem_accessible:
  assumes "n < 8192"
  shows "accessible demo_mem ProtRead (0x1000 + of_nat n)" "accessible demo_mem ProtWrite (0x1000 + of_nat n)"
proof -
  have "unat (of_nat n :: u64) = n" using assms by (intro unat_of_nat_small) simp
  then show "accessible demo_mem ProtRead (0x1000 + of_nat n)" "accessible demo_mem ProtWrite (0x1000 + of_nat n)"
    using assms demo_mem_map by (simp_all add: accessible_def prot_defs)
qed

text \<open>
  A data write that succeeds, read back over the same range, returns exactly the bytes
  written, whatever pages the range crosses.
\<close>

theorem mem_write_read_roundtrip:
  assumes "mem_wf m" "length bs \<le> 18446744073709551616"
    and "writeChecked a bs ProtWrite m = (Inr (), m')"
    and "\<And>i. i < length bs \<Longrightarrow> accessible m ProtRead (a + of_nat i)"
  shows "\<exists>m''. readChecked a (length bs) ProtRead m' = (Inr bs, m'') \<and> mem_at m'' = mem_at m'"
  using checked.wr_rd [OF assms(1-3)] assms(4) by (fastforce simp: accessible_def split: option.splits)

theorem mem_write_read_roundtrip_witness:
  "\<exists>m' m''. writeChecked 0x1FFE [1, 2, 3, 4] ProtWrite demo_mem = (Inr (), m') \<and>
     readChecked 0x1FFE 4 ProtRead m' = (Inr [1, 2, 3, 4], m'')"
proof -
  have acc: "accessible demo_mem req (0x1FFE + of_nat i)" if "i < 4" "req = ProtRead \<or> req = ProtWrite" for i req
  proof -
    have "(0x1FFE :: u64) + of_nat i = 0x1000 + of_nat (4094 + i)" by simp
    then show ?thesis using demo_mem_accessible [of "4094 + i"] that by auto
  qed
  then obtain m' where m': "writeChecked 0x1FFE [1, 2, 3, 4] ProtWrite demo_mem = (Inr (), m')"
    using writeChecked_ok [OF demo_mem_wf, of "[1, 2, 3, 4]" ProtWrite "0x1FFE"] by auto
  have len: "length [1, 2, 3, 4 :: u8] = 4" by simp
  from m' show ?thesis
    using mem_write_read_roundtrip [OF demo_mem_wf _ m', unfolded len] acc by auto
qed

text \<open>
  C10. A data write of any length returns an error exactly when some byte of the range is unmapped
  or not writable; the error names the first such address and the bytes left, every byte before it
  has been stored, and no other byte and no protection changes.
\<close>

theorem mem_write_exact:
  assumes "mem_wf m" "length bs \<le> 18446744073709551616" "writeChecked a bs perm m = (r, m')"
  shows "case fault_index m perm a 0 (length bs) of
      None \<Rightarrow> r = Inr () \<and> mem_at m' = upd_at a bs 0 (length bs) (mem_at m)
    | Some k \<Rightarrow> r = Inl (FaultError (faultKind True perm) (a + of_nat k) (length bs - k)) \<and>
        mem_at m' = upd_at a bs 0 k (mem_at m)"
  using writeChecked_spec [OF assms(1,2), of a perm] assms(3)
  by (auto simp: write_end_def copy_fault_def split: option.split)

text \<open>The run crosses from the mapped page at 0x2000 into the unmapped one at 0x3000.\<close>

lemma demo_fault_index: "fault_index demo_mem ProtWrite 0x2FFE 0 4 = Some 2"
  using demo_mem_map by (simp add: fault_index_def accessible_def prot_defs upt_rec)

theorem mem_write_exact_witness:
  "\<exists>m'. writeChecked 0x2FFE [1, 2, 3, 4] ProtWrite demo_mem = (Inl (FaultError MemWriteUnmapped 0x3000 2), m') \<and>
     mem_at m' 0x2FFF = Some (ProtRead OR ProtWrite, 2) \<and> mem_at m' 0x3000 = None"
proof -
  have len: "length [1, 2, 3, 4 :: u8] = 4" by simp
  obtain r m' where w: "writeChecked 0x2FFE [1, 2, 3, 4] ProtWrite demo_mem = (r, m')" by fastforce
  have "r = Inl (FaultError (faultKind True ProtWrite) (0x2FFE + of_nat 2) 2) \<and>
      mem_at m' = upd_at 0x2FFE [1, 2, 3, 4] 0 2 (mem_at demo_mem)"
    using mem_write_exact [OF demo_mem_wf _ w, unfolded len demo_fault_index] by simp
  then show ?thesis
    using w demo_mem_map by (simp add: faultKind_def upd_at_def prot_defs)
qed

text \<open>
  A read returns the bytes of the flat map, or the fault of the first address that may not be
  read, and changes neither the map nor the code-dirty flag.
\<close>

theorem mem_read_exact:
  assumes "mem_wf m" "readChecked a n perm m = (r, m')"
  shows "r = (case fault_index m perm a 0 n of
        None \<Rightarrow> Inr (map (\<lambda>i. mem_byte m (a + of_nat i)) [0..<n])
      | Some k \<Rightarrow> Inl (FaultError (faultKind False perm) (a + of_nat k) (n - k)))
    \<and> mem_at m' = mem_at m \<and> m_codeDirty m' = m_codeDirty m"
proof -
  obtain m1 where "readChecked a n perm m = ((case fault_index m perm a 0 n of
      None \<Rightarrow> Inr (mem_bytes m a n) | Some k \<Rightarrow> Inl (copy_fault False perm a n k)), m1)" "same_core m m1"
    using readChecked_spec [OF assms(1), of a n perm] by blast
  then show ?thesis
    using assms(2) same_core_mem_at [of m m1]
    by (auto simp: copy_fault_def mem_bytes_def same_core_def split: option.split)
qed

theorem mem_read_exact_witness:
  "fst (readChecked 0x1FFF 2 ProtRead demo_mem) = Inr [0, 0]"
proof -
  obtain r m' where rd: "readChecked 0x1FFF 2 ProtRead demo_mem = (r, m')" by fastforce
  have "fault_index demo_mem ProtRead 0x1FFF 0 2 = None"
    using demo_mem_map by (simp add: fault_index_def accessible_def prot_defs upt_rec)
  then show ?thesis
    using mem_read_exact [OF demo_mem_wf rd] rd demo_mem_map by (simp add: mem_byte_def upt_rec)
qed

text \<open>
  The instruction-fetch fast path \<open>readCheckedInto\<close> and the general page-by-page copy return
  the same bytes, the same fault and leave the same memory, for every address, length and
  permission.
\<close>

theorem fetch_fast_path_equiv: "readCheckedInto addr n perm m = readChecked addr n perm m"
  by (rule readCheckedInto_eq)

text \<open>
  C15. Code changes are never missed: if a write leaves the code-dirty flag clear, every byte of
  every executable page is what it was before the write, even when the write faulted half-way.
\<close>

theorem code_dirty_sound:
  assumes "mem_wf m" "length bs \<le> 18446744073709551616"
    and "writeChecked a bs perm m = (r, m')" "\<not> m_codeDirty m'" "accessible m ProtExec x"
  shows "mem_at m' x = mem_at m x"
proof -
  define hi where "hi = write_end (fault_index m perm a 0 (length bs)) (length bs)"
  have m': "mem_at m' = upd_at a bs 0 hi (mem_at m)" "\<not> changes_code m a bs 0 hi"
    using writeChecked_spec [OF assms(1,2), of a perm] assms(3,4) by (auto simp: hi_def)
  have "bs ! unat (x - a) = mem_byte m x" if "unat (x - a) < hi"
    using m'(2) assms(5) that by (auto simp: changes_code_def dest!: spec [of _ "unat (x - a)"])
  then show ?thesis
    by (auto simp: m'(1) upd_at_def Let_def mem_byte_def split: option.splits)
qed

theorem code_dirty_sound_witness:
  "\<exists>m0 m'. mem_wf m0 \<and> accessible m0 ProtExec 0x1000 \<and>
     writeChecked 0x1000 [0] ProtWrite m0 = (Inr (), m') \<and> mem_at m' 0x1000 = mem_at m0 0x1000"
proof -
  define m0 where "m0 = snd (consumeCodeDirty (snd (MemMap 0x1000 0x1000 ProtAll newMemory)))"
  have wf: "mem_wf m0" unfolding m0_def
    using run_op_wf [OF MemMap_wf [OF mem_wf_newMemory], of OpConsumeDirty] by simp
  have at: "mem_at m0 x = (if unat (x - 0x1000) < 4096 then Some (ProtAll, 0) else None)" for x
    using MemMap_fresh [OF mem_wf_newMemory, of "0x1000" "0x1000" ProtAll]
    by (auto simp: m0_def consumeCodeDirty_def newMemory_at)
  have clean: "\<not> m_codeDirty m0" by (simp add: m0_def consumeCodeDirty_def)
  have fi: "fault_index m0 ProtWrite 0x1000 0 1 = None"
    by (simp add: fault_index_def accessible_def at prot_defs)
  obtain m' where w: "writeChecked 0x1000 [0] ProtWrite m0 = (Inr (), m')" and
      d: "m_codeDirty m' = (m_codeDirty m0 \<or> changes_code m0 0x1000 [0] 0 1)"
    using writeChecked_spec [OF wf, of "[0]" "0x1000" ProtWrite] fi by (auto simp: write_end_def)
  have nd: "\<not> m_codeDirty m'" unfolding d using clean by (simp add: changes_code_def mem_byte_def at)
  have ex: "accessible m0 ProtExec 0x1000" by (simp add: accessible_def at prot_defs)
  have "mem_at m' 0x1000 = mem_at m0 0x1000"
    using code_dirty_sound [OF wf _ w nd ex] by simp
  with wf ex w show ?thesis by blast
qed


text \<open>
  Mapping is atomic. For a non-empty page-aligned range that does not wrap, \<open>MemMap\<close> either
  finds a mapped page and leaves the memory untouched, or maps every page of the range, zero-filled
  and with the given protection, and nothing else.
\<close>

theorem MemMap_atomic:
  assumes "mem_wf m" "addr AND pageMask = 0" "sz AND pageMask = 0" "sz \<noteq> 0"
    and "unat addr + unat sz < 18446744073709551616" "MemMap addr sz perms m = (r, m')"
  shows "if \<exists>x. unat (x - addr) < unat sz \<and> mem_at m x \<noteq> None
    then m' = m \<and> (\<exists>a. r = Inl (AlreadyMapped a))
    else r = Inr () \<and> (\<forall>x. mem_at m' x = (if unat (x - addr) < unat sz then Some (perms, 0) else mem_at m x))"
proof (cases "\<exists>x. unat (x - addr) < unat sz \<and> mem_at m x \<noteq> None")
  case True
  then obtain x where "unat (x - addr) < unat sz" "mem_at m x \<noteq> None" by blast
  from MemMap_taken [OF assms(2-5) this, of perms] True assms(6) show ?thesis by auto
next
  case False
  then have "\<And>x. unat (x - addr) < unat sz \<Longrightarrow> mem_at m x = None" by blast
  from MemMap_fresh [OF assms(1-5) this, of perms] False assms(6) show ?thesis by auto
qed

theorem MemMap_atomic_witness:
  "\<exists>a. MemMap 0x2000 0x2000 ProtRead demo_mem = (Inl (AlreadyMapped a), demo_mem)"
proof -
  obtain r m' where mm: "MemMap 0x2000 0x2000 ProtRead demo_mem = (r, m')" by fastforce
  have "\<exists>x. unat (x - 0x2000) < unat (0x2000 :: u64) \<and> mem_at demo_mem x \<noteq> None"
    using demo_mem_map by (intro exI [of _ "0x2000"]) simp
  then show ?thesis using MemMap_atomic [OF demo_mem_wf _ _ _ _ mm] mm by simp
qed

text \<open>
  \<open>MemUnmap\<close> removes exactly the pages that meet the range and \<open>MemProtect\<close> changes exactly
  their protection, keeping their bytes; pages of the range that are not mapped are skipped.
\<close>

theorem unmap_protect_exact:
  assumes "mem_wf m" "sz \<noteq> 0" "unat addr + unat sz \<le> 18446744073709547520"
  shows "mem_at (snd (MemUnmap addr sz m)) x = (if in_pages addr sz x then None else mem_at m x) \<and>
    mem_at (snd (MemProtect addr sz perms m)) x =
      (if in_pages addr sz x then map_option (\<lambda>(_, b). (perms, b)) (mem_at m x) else mem_at m x)"
  using MemUnmap_spec [OF assms] MemProtect_spec [OF assms, of perms] by auto

theorem unmap_protect_exact_witness:
  "mem_at (snd (MemUnmap 0x1800 1 demo_mem)) 0x1000 = None \<and>
   mem_at (snd (MemUnmap 0x1800 1 demo_mem)) 0x2000 = Some (ProtRead OR ProtWrite, 0) \<and>
   mem_at (snd (MemProtect 0x1800 1 ProtRead demo_mem)) 0x1FFF = Some (ProtRead, 0)"
  using unmap_protect_exact [OF demo_mem_wf, of 1 "0x1800"] demo_mem_map
  by (simp add: in_pages_def pageAddr_def)

text \<open>
  The one-entry page cache is never stale: after any sequence of maps, unmaps, protection
  changes, reads, writes, fetches and clones, a lookup returns what the page table holds.
\<close>

theorem page_cache_coherent:
  assumes "list_all op_fits ops"
  shows "fst (lookupPage pa (fold run_op ops newMemory)) = m_pages (fold run_op ops newMemory) pa"
  using lookupPage_wf(1) [OF run_ops_wf [OF mem_wf_newMemory assms]] by (metis prod.collapse)

theorem page_cache_coherent_witness:
  "fst (lookupPage 0x1000 (fold run_op [OpMap 0x1000 0x1000 3, OpWrite 0x1004 [7], OpUnmap 0x1000 0x1000] newMemory))
     = None"
  using page_cache_coherent [of "[OpMap 0x1000 0x1000 3, OpWrite 0x1004 [7], OpUnmap 0x1000 0x1000]" "0x1000"]
  by (simp add: MemUnmap_def Let_def page_loop.simps [of "0x1000"] page_loop.simps [of "0x2000"] pageAddr_def unmap_page_def
      invalidateCode_def invalidateCache_def)

end
