(* ===== verification/Registers.thy ===== *)
theory Registers
  imports Guest_Memory
begin

unbundle bit_operations_syntax

text \<open>
  The register file of \<open>internal/cpu/registers.go\<close> and the register access of \<open>cpu.go\<close>: sub-register
  reads and writes at 8, 16, 32 and 64 bits, the legacy high-byte encoding, the vector registers
  with the zero-upper rule, and \<open>RegRead\<close>/\<open>RegWrite\<close>. The Go arrays of length 16 are functions on
  their indices; the decoder produces indices below 16 only.
\<close>

section \<open>The register file\<close>

record ext80 =
  significand :: u64
  signExponent :: u16

record registers =
  r_gpr :: "nat \<Rightarrow> u64"
  r_rip :: u64
  r_rflags :: u64
  r_fsbase :: u64
  r_gsbase :: u64
  r_xmm :: "nat \<Rightarrow> u64 \<times> u64"
  r_ymmHi :: "nat \<Rightarrow> u64 \<times> u64"
  r_mxcsr :: u32
  r_x87 :: "nat \<Rightarrow> ext80"
  r_x87Top :: u8
  r_x87Control :: u16

text \<open>Register numbers: 0 to 15 are the encodings of the general-purpose registers.\<close>

abbreviation (input) RegRAX :: nat where "RegRAX \<equiv> 0"
abbreviation (input) RegRCX :: nat where "RegRCX \<equiv> 1"
abbreviation (input) RegRDX :: nat where "RegRDX \<equiv> 2"
abbreviation (input) RegRBX :: nat where "RegRBX \<equiv> 3"
abbreviation (input) RegRSP :: nat where "RegRSP \<equiv> 4"
abbreviation (input) RegRBP :: nat where "RegRBP \<equiv> 5"
abbreviation (input) RegRSI :: nat where "RegRSI \<equiv> 6"
abbreviation (input) RegRDI :: nat where "RegRDI \<equiv> 7"
abbreviation (input) RegR15 :: nat where "RegR15 \<equiv> 15"
abbreviation (input) RegRIP :: nat where "RegRIP \<equiv> 16"
abbreviation (input) RegEFLAGS :: nat where "RegEFLAGS \<equiv> 17"
abbreviation (input) RegFSBASE :: nat where "RegFSBASE \<equiv> 18"
abbreviation (input) RegGSBASE :: nat where "RegGSBASE \<equiv> 19"
abbreviation (input) RegXMM0 :: nat where "RegXMM0 \<equiv> 100"
abbreviation (input) RegXMM15 :: nat where "RegXMM15 \<equiv> 115"
abbreviation (input) RegYMM0 :: nat where "RegYMM0 \<equiv> 116"
abbreviation (input) RegYMM15 :: nat where "RegYMM15 \<equiv> 131"
abbreviation (input) RegMXCSR :: nat where "RegMXCSR \<equiv> 132"

definition zero_ext80 :: ext80 where
  "zero_ext80 = \<lparr>significand = 0, signExponent = 0\<rparr>"

text \<open>The registers of \<open>NewEngine\<close>: all zero but the x87 control word.\<close>

definition newRegisters :: registers where
  "newRegisters = \<lparr>r_gpr = (\<lambda>_. 0), r_rip = 0, r_rflags = 0, r_fsbase = 0, r_gsbase = 0,
     r_xmm = (\<lambda>_. (0, 0)), r_ymmHi = (\<lambda>_. (0, 0)), r_mxcsr = 0,
     r_x87 = (\<lambda>_. zero_ext80), r_x87Top = 0, r_x87Control = 0x037f\<rparr>"

definition set_gpr :: "nat \<Rightarrow> u64 \<Rightarrow> registers \<Rightarrow> registers" where
  "set_gpr i v r = r\<lparr>r_gpr := (r_gpr r)(i := v)\<rparr>"

section \<open>Sub-register access\<close>

definition read8 :: "nat \<Rightarrow> bool \<Rightarrow> registers \<Rightarrow> u8" where
  "read8 idx rex r =
     (if \<not> rex \<and> idx \<ge> 4 \<and> idx \<le> 7 then ucast (drop_bit 8 (r_gpr r (idx - 4)))
      else ucast (r_gpr r idx))"

definition write8 :: "nat \<Rightarrow> bool \<Rightarrow> u8 \<Rightarrow> registers \<Rightarrow> registers" where
  "write8 idx rex v r =
     (if \<not> rex \<and> idx \<ge> 4 \<and> idx \<le> 7
      then let reg = idx - 4 in set_gpr reg ((r_gpr r reg AND NOT 0xFF00) OR push_bit 8 (ucast v)) r
      else set_gpr idx ((r_gpr r idx AND NOT 0xFF) OR ucast v) r)"

definition read16 :: "nat \<Rightarrow> registers \<Rightarrow> u16" where
  "read16 idx r = ucast (r_gpr r idx)"

definition write16 :: "nat \<Rightarrow> u16 \<Rightarrow> registers \<Rightarrow> registers" where
  "write16 idx v r = set_gpr idx ((r_gpr r idx AND NOT 0xFFFF) OR ucast v) r"

definition read32 :: "nat \<Rightarrow> registers \<Rightarrow> u32" where
  "read32 idx r = ucast (r_gpr r idx)"

definition write32 :: "nat \<Rightarrow> u32 \<Rightarrow> registers \<Rightarrow> registers" where
  "write32 idx v r = set_gpr idx (ucast v) r"

definition read64 :: "nat \<Rightarrow> registers \<Rightarrow> u64" where
  "read64 idx r = r_gpr r idx"

definition write64 :: "nat \<Rightarrow> u64 \<Rightarrow> registers \<Rightarrow> registers" where
  "write64 idx v r = set_gpr idx v r"

definition readWidth :: "nat \<Rightarrow> nat \<Rightarrow> bool \<Rightarrow> registers \<Rightarrow> u64" where
  "readWidth idx width rex r =
     (if width = 1 then ucast (read8 idx rex r)
      else if width = 2 then ucast (read16 idx r)
      else if width = 4 then ucast (read32 idx r)
      else read64 idx r)"

definition writeWidth :: "nat \<Rightarrow> nat \<Rightarrow> bool \<Rightarrow> u64 \<Rightarrow> registers \<Rightarrow> registers" where
  "writeWidth idx width rex val r =
     (if width = 1 then write8 idx rex (ucast val) r
      else if width = 2 then write16 idx (ucast val) r
      else if width = 4 then write32 idx (ucast val) r
      else write64 idx val r)"

section \<open>Vector registers\<close>

definition readXMM :: "nat \<Rightarrow> registers \<Rightarrow> u64 \<times> u64" where
  "readXMM i r = r_xmm r i"

definition writeXMM :: "nat \<Rightarrow> u64 \<Rightarrow> u64 \<Rightarrow> registers \<Rightarrow> registers" where
  "writeXMM i lo hi r = r\<lparr>r_xmm := (r_xmm r)(i := (lo, hi))\<rparr>"

definition writeXMMVex :: "nat \<Rightarrow> u64 \<Rightarrow> u64 \<Rightarrow> registers \<Rightarrow> registers" where
  "writeXMMVex i lo hi r = r\<lparr>r_xmm := (r_xmm r)(i := (lo, hi)), r_ymmHi := (r_ymmHi r)(i := (0, 0))\<rparr>"

definition readYMM :: "nat \<Rightarrow> registers \<Rightarrow> u64 \<times> u64 \<times> u64 \<times> u64" where
  "readYMM i r = (fst (r_xmm r i), snd (r_xmm r i), fst (r_ymmHi r i), snd (r_ymmHi r i))"

definition writeYMM :: "nat \<Rightarrow> u64 \<Rightarrow> u64 \<Rightarrow> u64 \<Rightarrow> u64 \<Rightarrow> registers \<Rightarrow> registers" where
  "writeYMM i lo0 lo1 hi0 hi1 r =
     r\<lparr>r_xmm := (r_xmm r)(i := (lo0, lo1)), r_ymmHi := (r_ymmHi r)(i := (hi0, hi1))\<rparr>"

section \<open>Access by register number\<close>

definition RegRead :: "nat \<Rightarrow> registers \<Rightarrow> cpu_error + u64" where
  "RegRead reg r =
     (if reg = RegRIP then Inr (r_rip r)
      else if reg = RegEFLAGS then Inr (r_rflags r)
      else if reg = RegFSBASE then Inr (r_fsbase r)
      else if reg = RegGSBASE then Inr (r_gsbase r)
      else if reg = RegMXCSR then Inr (ucast (r_mxcsr r))
      else if reg \<ge> RegRAX \<and> reg \<le> RegR15 then Inr (r_gpr r reg)
      else if reg \<ge> RegXMM0 \<and> reg \<le> RegXMM15 then Inr (fst (readXMM (reg - RegXMM0) r))
      else if reg \<ge> RegYMM0 \<and> reg \<le> RegYMM15 then Inr (fst (readXMM (reg - RegYMM0) r))
      else Inl (UnknownRegister reg))"

definition RegWrite :: "nat \<Rightarrow> u64 \<Rightarrow> (registers, cpu_error, unit) sem" where
  "RegWrite reg val = (\<lambda>r.
     if reg = RegRIP then (Inr (), r\<lparr>r_rip := val\<rparr>)
     else if reg = RegEFLAGS then (Inr (), r\<lparr>r_rflags := val\<rparr>)
     else if reg = RegFSBASE then (Inr (), r\<lparr>r_fsbase := val\<rparr>)
     else if reg = RegGSBASE then (Inr (), r\<lparr>r_gsbase := val\<rparr>)
     else if reg = RegMXCSR then (Inr (), r\<lparr>r_mxcsr := ucast val\<rparr>)
     else if reg \<ge> RegRAX \<and> reg \<le> RegR15 then (Inr (), set_gpr reg val r)
     else (Inl (UnknownRegister reg), r))"

definition RegReadXMM :: "nat \<Rightarrow> registers \<Rightarrow> cpu_error + u64 \<times> u64" where
  "RegReadXMM n r = (if n > 15 then Inl (UnknownRegister n) else Inr (readXMM n r))"

definition RegWriteXMM :: "nat \<Rightarrow> u64 \<Rightarrow> u64 \<Rightarrow> (registers, cpu_error, unit) sem" where
  "RegWriteXMM n lo hi = (\<lambda>r. if n > 15 then (Inl (UnknownRegister n), r) else (Inr (), writeXMM n lo hi r))"

definition RegReadYMM :: "nat \<Rightarrow> registers \<Rightarrow> cpu_error + u64 \<times> u64 \<times> u64 \<times> u64" where
  "RegReadYMM n r = (if n > 15 then Inl (UnknownRegister n) else Inr (readYMM n r))"

definition RegWriteYMM :: "nat \<Rightarrow> u64 \<Rightarrow> u64 \<Rightarrow> u64 \<Rightarrow> u64 \<Rightarrow> (registers, cpu_error, unit) sem" where
  "RegWriteYMM n lo0 lo1 hi0 hi1 = (\<lambda>r.
     if n > 15 then (Inl (UnknownRegister n), r) else (Inr (), writeYMM n lo0 lo1 hi0 hi1 r))"

section \<open>Laws of sub-register access\<close>

definition op_width :: "nat \<Rightarrow> bool" where
  "op_width w \<longleftrightarrow> w = 1 \<or> w = 2 \<or> w = 4 \<or> w = 8"

lemma op_width_cases:
  assumes "op_width w" obtains "w = 1" | "w = 2" | "w = 4" | "w = 8"
  using assms by (auto simp: op_width_def)

lemma op_width_simps [simp]: "op_width 1" "op_width (Suc 0)" "op_width 2" "op_width 4" "op_width 8"
  by (simp_all add: op_width_def)

text \<open>The register a sub-register access touches, and the bit it starts at.\<close>

definition high_byte :: "nat \<Rightarrow> nat \<Rightarrow> bool \<Rightarrow> bool" where
  "high_byte idx w rex \<longleftrightarrow> w = 1 \<and> \<not> rex \<and> 4 \<le> idx \<and> idx \<le> 7"

definition phys_reg :: "nat \<Rightarrow> nat \<Rightarrow> bool \<Rightarrow> nat" where
  "phys_reg idx w rex = (if high_byte idx w rex then idx - 4 else idx)"

definition phys_lo :: "nat \<Rightarrow> nat \<Rightarrow> bool \<Rightarrow> nat" where
  "phys_lo idx w rex = (if high_byte idx w rex then 8 else 0)"

text \<open>The masks 0xFF, 0xFF00 and 0xFFFF, as the simplifier leaves them: on integers.\<close>

lemma bit_byte_masks [bit_simps]:
  "bit (0xFF :: int) n \<longleftrightarrow> n < 8" "bit (0xFF00 :: int) n \<longleftrightarrow> 8 \<le> n \<and> n < 16" "bit (0xFFFF :: int) n \<longleftrightarrow> n < 16"
proof -
  have "(0xFF :: int) = mask 8" "(0xFFFF :: int) = mask 16" "(0xFF00 :: int) = push_bit 8 (mask 8)"
    by (simp_all add: mask_eq_exp_minus_1)
  then show "bit (0xFF :: int) n \<longleftrightarrow> n < 8" "bit (0xFF00 :: int) n \<longleftrightarrow> 8 \<le> n \<and> n < 16" "bit (0xFFFF :: int) n \<longleftrightarrow> n < 16"
    by (auto simp only: bit_mask_iff bit_push_bit_iff) auto
qed

lemma bit_u64_imp: "bit x n \<Longrightarrow> n < 64" for x :: u64
  by (auto dest: bit_imp_le_length)

lemma readWidth_bits:
  assumes "op_width w"
  shows "bit (readWidth idx w rex r) n \<longleftrightarrow>
    n < 8 * w \<and> bit (r_gpr r (phys_reg idx w rex)) (n + phys_lo idx w rex)"
  using assms
  by (elim op_width_cases)
     (auto simp: readWidth_def read8_def read16_def read32_def read64_def phys_reg_def phys_lo_def high_byte_def
        bit_simps add.commute dest: bit_u64_imp)

lemma writeWidth_bits:
  assumes "op_width w"
  shows "bit (r_gpr (writeWidth idx w rex v r) j) n \<longleftrightarrow>
    (if j = phys_reg idx w rex then
       (if phys_lo idx w rex \<le> n \<and> n < phys_lo idx w rex + 8 * w then bit v (n - phys_lo idx w rex)
        else w \<noteq> 4 \<and> bit (r_gpr r j) n)
     else bit (r_gpr r j) n)"
  using assms
  by (elim op_width_cases)
     (auto simp: writeWidth_def write8_def write16_def write32_def write64_def set_gpr_def phys_reg_def
        phys_lo_def high_byte_def Let_def bit_simps dest: bit_u64_imp)

lemma read_write_width:
  assumes "op_width w"
  shows "readWidth idx w rex (writeWidth idx w rex v r) = take_bit (8 * w) v"
  by (rule bit_word_eqI)
     (auto simp: readWidth_bits [OF assms] writeWidth_bits [OF assms] bit_take_bit_iff)

lemma readWidth_bound:
  assumes "op_width w"
  shows "take_bit (8 * w) (readWidth idx w rex r) = readWidth idx w rex r"
  by (rule bit_word_eqI) (auto simp: readWidth_bits [OF assms] bit_take_bit_iff)

lemma writeWidth_other:
  assumes "op_width w" "j \<noteq> phys_reg idx w rex"
  shows "r_gpr (writeWidth idx w rex v r) j = r_gpr r j"
  by (rule bit_word_eqI) (use assms in \<open>simp add: writeWidth_bits\<close>)

lemma set_gpr_frame [simp]:
  "r_rip (set_gpr i v r) = r_rip r" "r_rflags (set_gpr i v r) = r_rflags r"
  "r_fsbase (set_gpr i v r) = r_fsbase r" "r_gsbase (set_gpr i v r) = r_gsbase r"
  "r_xmm (set_gpr i v r) = r_xmm r" "r_ymmHi (set_gpr i v r) = r_ymmHi r"
  "r_gpr (set_gpr i v r) = (r_gpr r)(i := v)"
  by (simp_all add: set_gpr_def)

lemma writeWidth_frame [simp]:
  "r_rip (writeWidth i w x v r) = r_rip r" "r_rflags (writeWidth i w x v r) = r_rflags r"
  "r_fsbase (writeWidth i w x v r) = r_fsbase r" "r_gsbase (writeWidth i w x v r) = r_gsbase r"
  by (simp_all add: writeWidth_def write8_def write16_def write32_def write64_def Let_def)

section \<open>Properties of the register file\<close>

text \<open>
  A sub-register write changes exactly the bits of its operand: reading back gives the value
  truncated to the width; the 8- and 16-bit forms keep the rest of the register (the high-byte forms
  touch bits 8 to 15 of AX, CX, DX, BX), the 32-bit form clears the upper half, and no other
  register changes.
\<close>

theorem sub_register_write:
  assumes "op_width w"
  shows "readWidth idx w rex (writeWidth idx w rex v r) = take_bit (8 * w) v \<and>
    (\<forall>j. j \<noteq> phys_reg idx w rex \<longrightarrow> r_gpr (writeWidth idx w rex v r) j = r_gpr r j) \<and>
    (\<forall>n. n < phys_lo idx w rex \<or> phys_lo idx w rex + 8 * w \<le> n \<longrightarrow>
       bit (r_gpr (writeWidth idx w rex v r) (phys_reg idx w rex)) n =
         (w \<noteq> 4 \<and> bit (r_gpr r (phys_reg idx w rex)) n))"
  using read_write_width [OF assms] writeWidth_other [OF assms] writeWidth_bits [OF assms] by auto

theorem sub_register_write_witness:
  "readWidth 4 1 False (writeWidth 4 1 False 0x1AB newRegisters) = 0xAB \<and>
   r_gpr (writeWidth 4 1 False 0x1AB newRegisters) 4 = 0"
  using sub_register_write [of 1 4 False "0x1AB" newRegisters]
  by (simp add: phys_reg_def high_byte_def newRegisters_def)

text \<open>
  The VEX zero-upper rule: a 128-bit VEX write clears the upper half of its YMM register, an SSE
  write keeps it, and either leaves every other vector register alone; a 256-bit write is read back
  whole.
\<close>

theorem vector_upper_half:
  "readYMM i (writeXMMVex i lo hi r) = (lo, hi, 0, 0) \<and>
   readYMM i (writeXMM i lo hi r) = (lo, hi, fst (r_ymmHi r i), snd (r_ymmHi r i)) \<and>
   readYMM i (writeYMM i a b c d r) = (a, b, c, d) \<and>
   (j \<noteq> i \<longrightarrow> readYMM j (writeXMMVex i lo hi r) = readYMM j r \<and>
     readYMM j (writeXMM i lo hi r) = readYMM j r \<and> readYMM j (writeYMM i a b c d r) = readYMM j r)"
  by (simp add: readYMM_def writeXMMVex_def writeXMM_def writeYMM_def)

theorem vector_upper_half_witness:
  "readYMM 3 (writeXMMVex 2 1 2 newRegisters) = (0, 0, 0, 0) \<and> readYMM 2 (writeXMMVex 2 1 2 newRegisters) = (1, 2, 0, 0)"
  using vector_upper_half [of 2 1 2 newRegisters 0 0 0 0 3] by (simp add: newRegisters_def readYMM_def)

text \<open>\<open>RegWrite\<close> then \<open>RegRead\<close> of the same register number gives the value back.\<close>

lemma RegRead_RegWrite:
  assumes "RegWrite reg val r = (Inr (), r')"
  shows "RegRead reg r' = Inr (if reg = RegMXCSR then take_bit 32 val else val)"
  using assms
  by (auto simp: RegWrite_def RegRead_def split: if_splits intro!: bit_word_eqI simp: bit_simps)

end
