(* ===== verification/Flags.thy ===== *)
theory Flags
  imports Registers
begin

unbundle bit_operations_syntax

text \<open>
  The flag computations of \<open>internal/cpu/flags.go\<close>: operand masks, single-flag updates, the
  width-generic ADD/ADC and SUB/SBB/CMP cores, the 32-bit fast paths, INC/DEC, the logic and shift
  rules, and the condition codes of \<open>evalCC\<close>. \<open>width\<close> is the operand width in bytes.
\<close>

section \<open>Masks and single flags\<close>

definition flagCF :: u64 where "flagCF = 0x1"
definition flagPF :: u64 where "flagPF = 0x4"
definition flagAF :: u64 where "flagAF = 0x10"
definition flagZF :: u64 where "flagZF = 0x40"
definition flagSF :: u64 where "flagSF = 0x80"
definition flagDF :: u64 where "flagDF = 0x400"
definition flagOF :: u64 where "flagOF = 0x800"

lemmas flag_defs = flagCF_def flagPF_def flagAF_def flagZF_def flagSF_def flagDF_def flagOF_def

definition maskWidth :: "nat \<Rightarrow> u64" where
  "maskWidth width = (if width \<ge> 8 then NOT 0 else push_bit (width * 8) 1 - 1)"

definition signBit :: "nat \<Rightarrow> u64" where
  "signBit width = push_bit (width * 8 - 1) 1"

text \<open>\<open>bits.OnesCount8\<close> of the standard library counts the one bits of a byte.\<close>

definition OnesCount8 :: "u8 \<Rightarrow> nat" where
  "OnesCount8 b = length (filter (bit b) [0..<8])"

definition parity8 :: "u8 \<Rightarrow> bool" where
  "parity8 b \<longleftrightarrow> OnesCount8 b mod 2 = 0"

definition setFlag :: "u64 \<Rightarrow> bool \<Rightarrow> registers \<Rightarrow> registers" where
  "setFlag m on r = (if on then r\<lparr>r_rflags := r_rflags r OR m\<rparr> else r\<lparr>r_rflags := r_rflags r AND NOT m\<rparr>)"

definition flag :: "u64 \<Rightarrow> registers \<Rightarrow> bool" where
  "flag m r \<longleftrightarrow> r_rflags r AND m \<noteq> 0"

definition setResultFlags :: "u64 \<Rightarrow> nat \<Rightarrow> registers \<Rightarrow> registers" where
  "setResultFlags result width r =
     (let v = result AND maskWidth width in
      setFlag flagPF (parity8 (ucast v))
        (setFlag flagSF (v AND signBit width \<noteq> 0) (setFlag flagZF (v = 0) r)))"

section \<open>Addition and subtraction\<close>

text \<open>\<open>bits.Add64\<close> and \<open>bits.Sub64\<close>: the sum or difference modulo \<open>2^64\<close> and the carry or borrow.\<close>

definition Add64 :: "u64 \<Rightarrow> u64 \<Rightarrow> u64 \<Rightarrow> u64 \<times> u64" where
  "Add64 x y c = (x + y + c, if 18446744073709551616 \<le> unat x + unat y + unat c then 1 else 0)"

definition Sub64 :: "u64 \<Rightarrow> u64 \<Rightarrow> u64 \<Rightarrow> u64 \<times> u64" where
  "Sub64 x y b = (x - y - b, if unat x < unat y + unat b then 1 else 0)"

definition addWithFlagsCarry :: "u64 \<Rightarrow> u64 \<Rightarrow> nat \<Rightarrow> u64 \<Rightarrow> registers \<Rightarrow> u64 \<times> registers" where
  "addWithFlagsCarry a b width cin r =
     (let m = maskWidth width; a = a AND m; b = b AND m;
          (result, cf) =
            (if width \<ge> 8 then
               let (sum1, c1) = Add64 a b 0; (sum2, c2) = Add64 sum1 cin 0
               in (sum2, c1 OR c2 \<noteq> 0)
             else let s = a + b + cin in (s AND m, s > m));
          sa = (a AND signBit width \<noteq> 0); sb = (b AND signBit width \<noteq> 0);
          sr = (result AND signBit width \<noteq> 0);
          of' = (sa = sb \<and> sr \<noteq> sa);
          af = ((a XOR b XOR result) AND 0x10 \<noteq> 0)
      in (result,
          setResultFlags result width
            (setFlag flagAF af (setFlag flagOF of' (setFlag flagCF cf r)))))"

definition addWithFlags :: "u64 \<Rightarrow> u64 \<Rightarrow> nat \<Rightarrow> registers \<Rightarrow> u64 \<times> registers" where
  "addWithFlags a b width r = addWithFlagsCarry a b width 0 r"

definition subWithFlagsBorrow :: "u64 \<Rightarrow> u64 \<Rightarrow> nat \<Rightarrow> u64 \<Rightarrow> registers \<Rightarrow> u64 \<times> registers" where
  "subWithFlagsBorrow a b width bin r =
     (let m = maskWidth width; a = a AND m; b = b AND m;
          (result, cf) =
            (if width \<ge> 8 then
               let (diff1, b1) = Sub64 a b 0; (diff2, b2) = Sub64 diff1 bin 0
               in (diff2, b1 OR b2 \<noteq> 0)
             else let d = a - b - bin in (d AND m, a < b + bin));
          sa = (a AND signBit width \<noteq> 0); sb = (b AND signBit width \<noteq> 0);
          sr = (result AND signBit width \<noteq> 0);
          of' = (sa \<noteq> sb \<and> sr \<noteq> sa);
          af = ((a XOR b XOR result) AND 0x10 \<noteq> 0)
      in (result,
          setResultFlags result width
            (setFlag flagAF af (setFlag flagOF of' (setFlag flagCF cf r)))))"

definition subWithFlags :: "u64 \<Rightarrow> u64 \<Rightarrow> nat \<Rightarrow> registers \<Rightarrow> u64 \<times> registers" where
  "subWithFlags a b width r = subWithFlagsBorrow a b width 0 r"

definition logicFlags :: "u64 \<Rightarrow> nat \<Rightarrow> registers \<Rightarrow> registers" where
  "logicFlags result width r =
     setResultFlags result width (setFlag flagAF False (setFlag flagOF False (setFlag flagCF False r)))"

section \<open>The 32-bit fast paths, INC and DEC\<close>

definition add32Flags :: "u32 \<Rightarrow> u32 \<Rightarrow> registers \<Rightarrow> u32 \<times> registers" where
  "add32Flags a b r =
     (let s = (ucast a + ucast b :: u64); result = (ucast s :: u32);
          r1 = setFlag flagCF (drop_bit 32 s \<noteq> 0) r;
          r2 = setFlag flagOF ((NOT (a XOR b) AND (a XOR result) AND 0x80000000) \<noteq> 0) r1;
          r3 = setFlag flagAF ((a XOR b XOR result) AND 0x10 \<noteq> 0) r2;
          r4 = setFlag flagZF (result = 0) r3;
          r5 = setFlag flagSF (result AND 0x80000000 \<noteq> 0) r4;
          r6 = setFlag flagPF (parity8 (ucast result)) r5
      in (result, r6))"

definition inc32Flags :: "u32 \<Rightarrow> registers \<Rightarrow> u32 \<times> registers" where
  "inc32Flags a r =
     (let result = a + 1;
          r1 = setFlag flagOF (a = 0x7fffffff) r;
          r2 = setFlag flagAF ((a XOR 1 XOR result) AND 0x10 \<noteq> 0) r1;
          r3 = setFlag flagZF (result = 0) r2;
          r4 = setFlag flagSF (result AND 0x80000000 \<noteq> 0) r3;
          r5 = setFlag flagPF (parity8 (ucast result)) r4
      in (result, r5))"

definition dec32Flags :: "u32 \<Rightarrow> registers \<Rightarrow> u32 \<times> registers" where
  "dec32Flags a r =
     (let result = a - 1;
          r1 = setFlag flagOF (a = 0x80000000) r;
          r2 = setFlag flagAF ((a XOR 1 XOR result) AND 0x10 \<noteq> 0) r1;
          r3 = setFlag flagZF (result = 0) r2;
          r4 = setFlag flagSF (result AND 0x80000000 \<noteq> 0) r3;
          r5 = setFlag flagPF (parity8 (ucast result)) r4
      in (result, r5))"

definition incFlags :: "u64 \<Rightarrow> nat \<Rightarrow> registers \<Rightarrow> u64 \<times> registers" where
  "incFlags a width r =
     (let savedCF = flag flagCF r; (result, r1) = addWithFlags a 1 width r
      in (result, setFlag flagCF savedCF r1))"

definition decFlags :: "u64 \<Rightarrow> nat \<Rightarrow> registers \<Rightarrow> u64 \<times> registers" where
  "decFlags a width r =
     (let savedCF = flag flagCF r; (result, r1) = subWithFlags a 1 width r
      in (result, setFlag flagCF savedCF r1))"

section \<open>Shifts and condition codes\<close>

datatype shiftOp = Shl | Shr | Sar | Rol | Ror

definition shiftFlags :: "shiftOp \<Rightarrow> u64 \<Rightarrow> u64 \<Rightarrow> nat \<Rightarrow> nat \<Rightarrow> bool \<Rightarrow> registers \<Rightarrow> registers" where
  "shiftFlags sop before result width count cf r =
     (let r1 = setFlag flagCF cf r in
      case sop of
        Shl \<Rightarrow> setResultFlags result width
          (if count = 1 then setFlag flagOF ((result AND signBit width \<noteq> 0) \<noteq> cf) r1 else r1)
      | Shr \<Rightarrow> setResultFlags result width
          (if count = 1 then setFlag flagOF (before AND signBit width \<noteq> 0) r1 else r1)
      | Sar \<Rightarrow> setResultFlags result width
          (if count = 1 then setFlag flagOF False r1 else r1)
      | Rol \<Rightarrow> (if count = 1 then setFlag flagOF ((result AND signBit width \<noteq> 0) \<noteq> cf) r1 else r1)
      | Ror \<Rightarrow> (if count = 1 then setFlag flagOF ((result AND signBit width \<noteq> 0) \<noteq> cf) r1 else r1))"

definition evalCC :: "nat \<Rightarrow> registers \<Rightarrow> bool" where
  "evalCC cc r =
     (let cf = flag flagCF r; zf = flag flagZF r; sf = flag flagSF r; of' = flag flagOF r;
          pf = flag flagPF r; c = cc mod 16 in
      if c = 0x0 then of'
      else if c = 0x1 then \<not> of'
      else if c = 0x2 then cf
      else if c = 0x3 then \<not> cf
      else if c = 0x4 then zf
      else if c = 0x5 then \<not> zf
      else if c = 0x6 then cf \<or> zf
      else if c = 0x7 then \<not> cf \<and> \<not> zf
      else if c = 0x8 then sf
      else if c = 0x9 then \<not> sf
      else if c = 0xA then pf
      else if c = 0xB then \<not> pf
      else if c = 0xC then sf \<noteq> of'
      else if c = 0xD then sf = of'
      else if c = 0xE then zf \<or> sf \<noteq> of'
      else if c = 0xF then \<not> zf \<and> sf = of'
      else False)"

section \<open>Laws of single flags and masks\<close>

lemma flag_masks_disjoint:
  "flagCF AND flagPF = 0" "flagCF AND flagAF = 0" "flagCF AND flagZF = 0" "flagCF AND flagSF = 0"
  "flagCF AND flagDF = 0" "flagCF AND flagOF = 0" "flagPF AND flagCF = 0" "flagPF AND flagAF = 0"
  "flagPF AND flagZF = 0" "flagPF AND flagSF = 0" "flagPF AND flagDF = 0" "flagPF AND flagOF = 0"
  "flagAF AND flagCF = 0" "flagAF AND flagPF = 0" "flagAF AND flagZF = 0" "flagAF AND flagSF = 0"
  "flagAF AND flagDF = 0" "flagAF AND flagOF = 0" "flagZF AND flagCF = 0" "flagZF AND flagPF = 0"
  "flagZF AND flagAF = 0" "flagZF AND flagSF = 0" "flagZF AND flagDF = 0" "flagZF AND flagOF = 0"
  "flagSF AND flagCF = 0" "flagSF AND flagPF = 0" "flagSF AND flagAF = 0" "flagSF AND flagZF = 0"
  "flagSF AND flagDF = 0" "flagSF AND flagOF = 0" "flagDF AND flagCF = 0" "flagDF AND flagPF = 0"
  "flagDF AND flagAF = 0" "flagDF AND flagZF = 0" "flagDF AND flagSF = 0" "flagDF AND flagOF = 0"
  "flagOF AND flagCF = 0" "flagOF AND flagPF = 0" "flagOF AND flagAF = 0" "flagOF AND flagZF = 0"
  "flagOF AND flagSF = 0" "flagOF AND flagDF = 0"
  by (simp_all add: flag_defs)

lemma flag_masks_nonzero:
  "flagCF \<noteq> 0" "flagPF \<noteq> 0" "flagAF \<noteq> 0" "flagZF \<noteq> 0" "flagSF \<noteq> 0"
  "flagDF \<noteq> 0" "flagOF \<noteq> 0"
  by (simp_all add: flag_defs)

lemma flag_setFlag_same: "m \<noteq> 0 \<Longrightarrow> flag m (setFlag m on r) = on"
  by (simp add: flag_def setFlag_def or_and_self andn_and_self)

lemma flag_setFlag_other: "m AND k = 0 \<Longrightarrow> flag k (setFlag m on r) = flag k r"
  by (simp add: flag_def setFlag_def or_and_disjoint andn_and_disjoint)

lemmas flag_set_simps [simp] = flag_setFlag_same flag_setFlag_other flag_masks_disjoint flag_masks_nonzero

lemma setFlag_frame [simp]:
  "r_gpr (setFlag m on r) = r_gpr r" "r_rip (setFlag m on r) = r_rip r" "r_xmm (setFlag m on r) = r_xmm r"
  "r_ymmHi (setFlag m on r) = r_ymmHi r" "r_fsbase (setFlag m on r) = r_fsbase r" "r_gsbase (setFlag m on r) = r_gsbase r"
  by (simp_all add: setFlag_def)

lemma setResultFlags_frame [simp]:
  "r_gpr (setResultFlags v w r) = r_gpr r" "r_rip (setResultFlags v w r) = r_rip r"
  by (simp_all add: setResultFlags_def Let_def)

text \<open>Two states that agree on everything but the flags register, and the effect of equal updates.\<close>

lemma setFlag_twice [simp]: "setFlag m a (setFlag m b r) = setFlag m a r"
  by (auto simp: setFlag_def intro!: registers.equality bit_word_eqI simp: bit_simps)

lemma setFlag_commute: "m AND k = 0 \<Longrightarrow> setFlag m a (setFlag k b r) = setFlag k b (setFlag m a r)"
proof -
  assume "m AND k = 0"
  then have d: "\<not> (bit m n \<and> bit k n)" for n by (metis bit_and_iff bit_0_eq bot_apply bot_bool_def)
  have "r_rflags (setFlag m a (setFlag k b r)) = r_rflags (setFlag k b (setFlag m a r))"
    by (rule bit_word_eqI) (use d in \<open>auto simp: setFlag_def bit_simps\<close>)
  then show ?thesis
    by (auto simp: setFlag_def intro!: registers.equality split: if_splits)
qed

lemma setFlag_id: "m = push_bit n 1 \<Longrightarrow> flag m r = on \<Longrightarrow> setFlag m on r = r"
  by (auto simp del: push_bit_of_1 simp: setFlag_def flag_def and_push_bit_1_iff bit_simps bit_push_bit_one
      intro!: registers.equality bit_word_eqI)

lemma maskWidth_mask: "op_width w \<Longrightarrow> maskWidth w = mask (8 * w)"
  by (elim op_width_cases) (simp_all add: maskWidth_def mask_eq_exp_minus_1)

lemma and_maskWidth: "op_width w \<Longrightarrow> x AND maskWidth w = take_bit (8 * w) x"
  by (simp add: maskWidth_mask take_bit_eq_mask)

lemma take_bit_64 [simp]: "take_bit 64 x = x" for x :: u64
  by (rule bit_word_eqI) (simp add: bit_take_bit_iff)

lemma and_signBit: "op_width w \<Longrightarrow> x AND signBit w \<noteq> 0 \<longleftrightarrow> bit x (8 * w - 1)"
  unfolding signBit_def and_push_bit_1_iff by (simp add: mult.commute)

lemma bit_top_iff: "0 < n \<Longrightarrow> bit (take_bit n x) (n - 1) \<longleftrightarrow> 2 ^ (n - 1) \<le> unat (take_bit n x)" for x :: "'a::len word"
proof -
  assume n: "0 < n"
  define u where "u = unat (take_bit n x)"
  have u: "u < 2 ^ n" by (simp add: u_def unat_take_bit_mod)
  have "bit (take_bit n x) (n - 1) = bit u (n - 1)" by (simp add: u_def bit_unsigned_iff del: unsigned_take_bit_eq)
  also have "\<dots> = odd (u div 2 ^ (n - 1))" by (simp add: bit_iff_odd)
  also have "\<dots> = (2 ^ (n - 1) \<le> u)"
  proof (cases "2 ^ (n - 1) \<le> u")
    case True
    moreover have "u < 2 * 2 ^ (n - 1)" using u n by (cases n) auto
    ultimately have "u div 2 ^ (n - 1) = 1" by (simp add: div_nat_eqI)
    with True show ?thesis by simp
  qed (simp add: div_less)
  finally show ?thesis by (simp add: u_def)
qed

section \<open>Operand values\<close>

text \<open>The unsigned and the signed value of the low \<open>w\<close> bytes of a word.\<close>

definition uval :: "nat \<Rightarrow> u64 \<Rightarrow> int" where
  "uval w x = uint x mod 2 ^ (8 * w)"

definition sval :: "nat \<Rightarrow> u64 \<Rightarrow> int" where
  "sval w x = (if uval w x < 2 ^ (8 * w - 1) then uval w x else uval w x - 2 ^ (8 * w))"

lemma uval_range: "0 \<le> uval w x" "uval w x < 2 ^ (8 * w)"
  by (simp_all add: uval_def)

lemma uint_take_bit_uval: "uint (take_bit (8 * w) x) = uval w x"
  by (simp only: uint_take_bit_mod uval_def)

lemma unat_take_bit_uval: "int (unat (take_bit (8 * w) x)) = uval w x"
  by (metis uint_take_bit_uval uint_nat)

lemma uval_take_bit [simp]: "uval w (take_bit (8 * w) x) = uval w x"
  by (simp only: uval_def uint_take_bit_mod mod_mod_trivial)

lemma sval_take_bit [simp]: "sval w (take_bit (8 * w) x) = sval w x"
  by (simp add: sval_def)

lemma uval_8: "uval 8 x = uint x"
proof -
  have "uint x < 2 ^ 64" using uint_lt2p [of x] by simp
  then show ?thesis by (simp add: uval_def)
qed

lemma bit_uval:
  assumes "n < 8 * w" "n < 64"
  shows "bit x n \<longleftrightarrow> odd (uval w x div 2 ^ n)"
proof -
  have "bit x n = bit (take_bit (8 * w) x) n" using assms by (simp add: bit_take_bit_iff)
  also have "\<dots> = bit (uint (take_bit (8 * w) x)) n"
    using assms by (simp add: bit_uint_iff del: unsigned_take_bit_eq)
  finally show ?thesis by (simp only: uint_take_bit_uval bit_iff_odd)
qed

lemma pow_top: "0 < w \<Longrightarrow> (2 :: int) ^ (8 * w) = 2 * 2 ^ (8 * w - 1)"
  by (simp add: power_minus_mult mult.commute flip: power_Suc)

lemma bit_top_sval:
  assumes "op_width w"
  shows "bit x (8 * w - 1) \<longleftrightarrow> sval w x < 0"
proof -
  have w: "0 < w" "8 * w - 1 < 64" using assms by (auto simp: op_width_def)
  let ?M = "2 ^ (8 * w - 1) :: int"
  have "uval w x < 2 * ?M" using uval_range(2) [of w x] pow_top [OF w(1)] by simp
  then have "uval w x div ?M = (if uval w x < ?M then 0 else 1)"
    using uval_range(1) [of w x] by (auto simp: div_pos_pos_trivial intro!: int_div_pos_eq [where r = "uval w x - ?M"])
  moreover have "bit x (8 * w - 1) \<longleftrightarrow> odd (uval w x div ?M)" using w by (intro bit_uval) auto
  ultimately show ?thesis using uval_range [of w x] by (auto simp: sval_def)
qed

lemma sval_range:
  assumes "op_width w"
  shows "- (2 ^ (8 * w - 1)) \<le> sval w x" "sval w x < 2 ^ (8 * w - 1)"
proof -
  have w: "0 < w" using assms by (auto simp: op_width_def)
  show "- (2 ^ (8 * w - 1)) \<le> sval w x" "sval w x < 2 ^ (8 * w - 1)"
    using uval_range [of w x] pow_top [OF w] by (auto simp: sval_def)
qed

definition carry_in :: "u64 \<Rightarrow> bool" where
  "carry_in c \<longleftrightarrow> c = 0 \<or> c = 1"

definition s_fits :: "nat \<Rightarrow> int \<Rightarrow> bool" where
  "s_fits w v \<longleftrightarrow> - (2 ^ (8 * w - 1)) \<le> v \<and> v < 2 ^ (8 * w - 1)"

text \<open>The sum and difference of two operands with a carry, by integer arithmetic.\<close>

lemma signed_sum_overflow:
  fixes A B c M :: int
  assumes "0 \<le> A" "A < 2 * M" "0 \<le> B" "B < 2 * M" "c = 0 \<or> c = 1" "0 < M"
  defines "R \<equiv> (A + B + c) mod (2 * M)"
  shows "((M \<le> A) = (M \<le> B) \<and> (M \<le> R) \<noteq> (M \<le> A)) \<longleftrightarrow>
    \<not> (- M \<le> (if A < M then A else A - 2 * M) + (if B < M then B else B - 2 * M) + c \<and>
       (if A < M then A else A - 2 * M) + (if B < M then B else B - 2 * M) + c < M)"
proof -
  have "R = (if A + B + c < 2 * M then A + B + c else A + B + c - 2 * M)"
  proof (cases "A + B + c < 2 * M")
    case True then show ?thesis using assms(1-6) by (auto simp: R_def intro!: mod_pos_pos_trivial)
  next
    case False
    have "(A + B + c) mod (2 * M) = (A + B + c - 2 * M) mod (2 * M)" by (metis minus_mod_self2)
    also have "\<dots> = A + B + c - 2 * M" by (rule mod_pos_pos_trivial) (use False assms(1-6) in auto)
    finally show ?thesis using False by (simp add: R_def)
  qed
  then show ?thesis using assms by (cases "A < M"; cases "B < M") auto
qed

lemma signed_diff_overflow:
  fixes A B c M :: int
  assumes "0 \<le> A" "A < 2 * M" "0 \<le> B" "B < 2 * M" "c = 0 \<or> c = 1" "0 < M"
  defines "R \<equiv> (A - B - c) mod (2 * M)"
  shows "((M \<le> A) \<noteq> (M \<le> B) \<and> (M \<le> R) \<noteq> (M \<le> A)) \<longleftrightarrow>
    \<not> (- M \<le> (if A < M then A else A - 2 * M) - (if B < M then B else B - 2 * M) - c \<and>
       (if A < M then A else A - 2 * M) - (if B < M then B else B - 2 * M) - c < M)"
proof -
  have "R = (if 0 \<le> A - B - c then A - B - c else A - B - c + 2 * M)"
  proof (cases "0 \<le> A - B - c")
    case True then show ?thesis using assms(1-6) by (auto simp: R_def intro!: mod_pos_pos_trivial)
  next
    case False
    have "(A - B - c) mod (2 * M) = (A - B - c + 2 * M) mod (2 * M)" by simp
    also have "\<dots> = A - B - c + 2 * M" by (rule mod_pos_pos_trivial) (use False assms(1-6) in auto)
    finally show ?thesis using False by (simp add: R_def)
  qed
  then show ?thesis using assms by (cases "A < M"; cases "B < M") auto
qed

lemma odd_div16_cong: "(R :: int) mod 32 = S mod 32 \<Longrightarrow> odd (R div 16) = odd (S div 16)"
proof -
  assume "R mod 32 = S mod 32"
  then have "take_bit 5 R = take_bit 5 S" by (simp add: take_bit_eq_mod)
  then have "bit (take_bit 5 R) 4 = bit (take_bit 5 S) 4" by simp
  then show ?thesis by (simp add: bit_take_bit_iff) (simp add: bit_iff_odd)
qed

lemma div16_sum: "0 \<le> z \<Longrightarrow> z < 32 \<Longrightarrow> z div 16 = (if 16 \<le> z then 1 else 0)" for z :: int
  by presburger

lemma div16_diff: "-16 \<le> z \<Longrightarrow> z < 16 \<Longrightarrow> z div 16 = (if z < 0 then - 1 else 0)" for z :: int
  by presburger

lemma carry_into_bit4:
  fixes A B c R :: int
  assumes "c = 0 \<or> c = 1" "R mod 32 = (A + B + c) mod 32"
  shows "(odd (A div 16) \<noteq> (odd (B div 16) \<noteq> odd (R div 16))) \<longleftrightarrow> 16 \<le> A mod 16 + B mod 16 + c"
proof -
  let ?s = "A mod 16 + B mod 16 + c"
  have "A + B + c = ?s + 16 * (A div 16 + B div 16)"
    using mult_div_mod_eq [of 16 A, symmetric] mult_div_mod_eq [of 16 B, symmetric]
    by (simp only: distrib_left right_diff_distrib)
  then have "(A + B + c) div 16 = A div 16 + B div 16 + ?s div 16"
    by (metis div_mult_self2 zero_neq_numeral add.commute)
  moreover have "?s div 16 = (if 16 \<le> ?s then 1 else 0)"
    by (rule div16_sum)
       (use assms(1) pos_mod_bound [of 16 A] pos_mod_sign [of 16 A] pos_mod_bound [of 16 B] pos_mod_sign [of 16 B] in linarith)+
  ultimately show ?thesis using odd_div16_cong [OF assms(2)] by auto
qed

lemma borrow_from_bit4:
  fixes A B c R :: int
  assumes "c = 0 \<or> c = 1" "R mod 32 = (A - B - c) mod 32"
  shows "(odd (A div 16) \<noteq> (odd (B div 16) \<noteq> odd (R div 16))) \<longleftrightarrow> A mod 16 < B mod 16 + c"
proof -
  let ?s = "A mod 16 - B mod 16 - c"
  have "A - B - c = ?s + 16 * (A div 16 - B div 16)"
    using mult_div_mod_eq [of 16 A, symmetric] mult_div_mod_eq [of 16 B, symmetric]
    by (simp only: distrib_left right_diff_distrib)
  then have "(A - B - c) div 16 = A div 16 - B div 16 + ?s div 16"
    by (metis div_mult_self2 zero_neq_numeral add.commute)
  moreover have "?s div 16 = (if ?s < 0 then - 1 else 0)"
    by (rule div16_diff)
       (use assms(1) pos_mod_bound [of 16 A] pos_mod_sign [of 16 A] pos_mod_bound [of 16 B] pos_mod_sign [of 16 B] in linarith)+
  ultimately show ?thesis using odd_div16_cong [OF assms(2)] by auto
qed

section \<open>Correctness of ADD, ADC, SUB, SBB and CMP\<close>

lemma pow_w_dvd: "op_width w \<Longrightarrow> (2 :: int) ^ (8 * w) dvd 2 ^ 64"
  by (intro le_imp_power_dvd) (auto simp: op_width_def)

lemma uval_add3: "uval w (a + b + c) = (uval w a + uval w b + uint c) mod 2 ^ (8 * w)" if "op_width w"
proof -
  have "uint (a + b + c) = (uint a + uint b + uint c) mod 2 ^ 64"
    by (simp add: uint_word_ariths mod_add_left_eq)
  then have "uval w (a + b + c) = (uint a + uint b + uint c) mod 2 ^ (8 * w)"
    by (simp only: uval_def mod_mod_cancel [OF pow_w_dvd [OF that]])
  then show ?thesis unfolding uval_def by (metis mod_add_eq mod_add_left_eq)
qed

lemma uval_sub3: "uval w (a - b - c) = (uval w a - uval w b - uint c) mod 2 ^ (8 * w)" if "op_width w"
proof -
  have "uint (a - b - c) = (uint a - uint b - uint c) mod 2 ^ 64"
    by (simp add: uint_word_ariths mod_diff_left_eq)
  then have "uval w (a - b - c) = (uint a - uint b - uint c) mod 2 ^ (8 * w)"
    by (simp only: uval_def mod_mod_cancel [OF pow_w_dvd [OF that]])
  then show ?thesis unfolding uval_def by (metis mod_diff_eq mod_diff_left_eq)
qed

lemma unat_le_uint: "n \<le> unat a + unat b + unat c \<longleftrightarrow> int n \<le> uint a + uint b + uint c" for a b c :: u64
  unfolding uint_nat by linarith

lemma unat_less_uint: "unat a < unat b + unat c \<longleftrightarrow> uint a < uint b + uint c" for a b c :: u64
  unfolding uint_nat by linarith

lemma uint_carry: "carry_in c \<Longrightarrow> uint c = 0 \<or> uint c = 1"
  by (auto simp: carry_in_def)

lemma two_carries:
  "0 \<le> c \<Longrightarrow> (M \<le> a + b \<or> M \<le> (if a + b < M then a + b else a + b - M) + c) \<longleftrightarrow> M \<le> a + b + c" for a b c M :: int
  by auto

lemma two_borrows:
  "0 \<le> c \<Longrightarrow> (a < b \<or> (if b \<le> a then a - b else a - b + M) < c) \<longleftrightarrow> a < b + c" for a b c M :: int
  by auto

lemma Add64_twice:
  assumes "Add64 a b 0 = (s1, c1)" "Add64 s1 c 0 = (s2, c2)"
  shows "s2 = a + b + c" "c1 OR c2 \<noteq> 0 \<longleftrightarrow> 2 ^ 64 \<le> uint a + uint b + uint c"
proof -
  have s1: "s1 = a + b" using assms by (auto simp: Add64_def)
  then show s2: "s2 = a + b + c" using assms by (auto simp: Add64_def)
  have c: "c1 = (if 2 ^ 64 \<le> uint a + uint b then 1 else 0)" "c2 = (if 2 ^ 64 \<le> uint s1 + uint c then 1 else 0)"
    using assms by (simp_all add: Add64_def unat_le_uint [where c = 0, simplified] split: if_splits)
  have u: "uint s1 = (if uint a + uint b < 2 ^ 64 then uint a + uint b else uint a + uint b - 2 ^ 64)"
    by (simp add: s1 uint_plus_if')
  show "c1 OR c2 \<noteq> 0 \<longleftrightarrow> 2 ^ 64 \<le> uint a + uint b + uint c"
    unfolding c u two_carries [OF uint_ge_0 [of c], symmetric] by auto
qed

lemma Sub64_twice:
  assumes "Sub64 a b 0 = (s1, c1)" "Sub64 s1 c 0 = (s2, c2)"
  shows "s2 = a - b - c" "c1 OR c2 \<noteq> 0 \<longleftrightarrow> uint a < uint b + uint c"
proof -
  have s1: "s1 = a - b" using assms by (auto simp: Sub64_def)
  then show s2: "s2 = a - b - c" using assms by (auto simp: Sub64_def)
  have c: "c1 = (if uint a < uint b then 1 else 0)" "c2 = (if uint s1 < uint c then 1 else 0)"
    using assms by (simp_all add: Sub64_def unat_less_uint [where c = 0, simplified] split: if_splits)
  have u: "uint s1 = (if uint b \<le> uint a then uint a - uint b else uint a - uint b + 2 ^ 64)"
    by (simp add: s1 uint_sub_if')
  show "c1 OR c2 \<noteq> 0 \<longleftrightarrow> uint a < uint b + uint c"
    unfolding c u two_borrows [OF uint_ge_0 [of c], of "uint a" "uint b" "2 ^ 64", symmetric] by auto
qed

text \<open>
  What ZF, SF and PF say of a result, and that nothing but the flags register changed; the direction
  flag is kept by every arithmetic instruction.
\<close>

definition result_flags :: "nat \<Rightarrow> u64 \<Rightarrow> registers \<Rightarrow> bool" where
  "result_flags w v r \<longleftrightarrow> flag flagZF r = (uval w v = 0) \<and> flag flagSF r = (sval w v < 0) \<and>
     flag flagPF r = even (card {n. n < 8 \<and> bit v n})"

definition status_flags :: u64 where
  "status_flags = flagCF OR flagPF OR flagAF OR flagZF OR flagSF OR flagOF"

definition only_flags :: "registers \<Rightarrow> registers \<Rightarrow> bool" where
  "only_flags r r' \<longleftrightarrow> r' = r\<lparr>r_rflags := r_rflags r'\<rparr> \<and>
     r_rflags r' AND NOT status_flags = r_rflags r AND NOT status_flags"

lemma bit_flag_masks [bit_simps]:
  "bit flagCF n \<longleftrightarrow> n = 0" "bit flagPF n \<longleftrightarrow> n = 2" "bit flagAF n \<longleftrightarrow> n = 4" "bit flagZF n \<longleftrightarrow> n = 6"
  "bit flagSF n \<longleftrightarrow> n = 7" "bit flagDF n \<longleftrightarrow> n = 10" "bit flagOF n \<longleftrightarrow> n = 11"
  using bit_push_bit_one [where ?'a = 64, of 0 n] bit_push_bit_one [where ?'a = 64, of 2 n]
    bit_push_bit_one [where ?'a = 64, of 4 n] bit_push_bit_one [where ?'a = 64, of 6 n]
    bit_push_bit_one [where ?'a = 64, of 7 n] bit_push_bit_one [where ?'a = 64, of 10 n]
    bit_push_bit_one [where ?'a = 64, of 11 n]
  by (simp_all add: flag_defs)

lemma flag_bit:
  "flag flagCF r = bit (r_rflags r) 0" "flag flagPF r = bit (r_rflags r) 2" "flag flagAF r = bit (r_rflags r) 4"
  "flag flagZF r = bit (r_rflags r) 6" "flag flagSF r = bit (r_rflags r) 7" "flag flagDF r = bit (r_rflags r) 10"
  "flag flagOF r = bit (r_rflags r) 11"
  using and_push_bit_1_iff [of "r_rflags r" 0] and_push_bit_1_iff [of "r_rflags r" 2]
    and_push_bit_1_iff [of "r_rflags r" 4] and_push_bit_1_iff [of "r_rflags r" 6]
    and_push_bit_1_iff [of "r_rflags r" 7] and_push_bit_1_iff [of "r_rflags r" 10]
    and_push_bit_1_iff [of "r_rflags r" 11]
  by (simp_all add: flag_defs flag_def)

lemma only_flags_refl [simp]: "only_flags r r"
  by (simp add: only_flags_def)

lemma only_flags_trans: "only_flags r r' \<Longrightarrow> only_flags r' r'' \<Longrightarrow> only_flags r r''"
  by (cases r; cases r'; cases r'') (auto simp: only_flags_def)

lemma only_flags_setFlag: "only_flags r0 r \<Longrightarrow> m AND NOT status_flags = 0 \<Longrightarrow> only_flags r0 (setFlag m on r)"
  by (rule only_flags_trans [of _ r])
     (simp_all add: only_flags_def or_and_disjoint andn_and_disjoint setFlag_def)

lemma status_flags_simps [simp]:
  "flagCF AND NOT status_flags = 0" "flagPF AND NOT status_flags = 0" "flagAF AND NOT status_flags = 0"
  "flagZF AND NOT status_flags = 0" "flagSF AND NOT status_flags = 0" "flagOF AND NOT status_flags = 0"
  by (simp_all add: flag_defs status_flags_def)

lemma only_flags_setResultFlags: "only_flags r0 r \<Longrightarrow> only_flags r0 (setResultFlags v w r)"
  by (simp add: setResultFlags_def Let_def only_flags_setFlag)

lemmas only_flags_intros = only_flags_refl only_flags_setFlag only_flags_setResultFlags

lemma only_flags_bit:
  assumes "only_flags r r'" "n \<notin> {0, 2, 4, 6, 7, 11}"
  shows "bit (r_rflags r') n = bit (r_rflags r) n"
proof (cases "n < 64")
  case True
  have "bit (r_rflags r' AND NOT status_flags) n = bit (r_rflags r AND NOT status_flags) n"
    using assms(1) by (simp add: only_flags_def)
  then show ?thesis
    using assms(2) True by (auto simp: bit_and_iff bit_not_iff status_flags_def bit_or_iff bit_flag_masks)
qed (auto dest: bit_u64_imp)

lemma only_flags_eqI:
  assumes "only_flags r r1" "only_flags r r2"
    "flag flagCF r1 = flag flagCF r2" "flag flagPF r1 = flag flagPF r2" "flag flagAF r1 = flag flagAF r2"
    "flag flagZF r1 = flag flagZF r2" "flag flagSF r1 = flag flagSF r2" "flag flagOF r1 = flag flagOF r2"
  shows "r1 = r2"
proof -
  have "r_rflags r1 = r_rflags r2"
  proof (rule bit_word_eqI)
    fix n
    show "bit (r_rflags r1) n = bit (r_rflags r2) n"
    proof (cases "n \<in> {0, 2, 4, 6, 7, 11}")
      case True
      then show ?thesis using assms(3-) unfolding flag_bit by blast
    next
      case False
      then show ?thesis using only_flags_bit [OF assms(1)] only_flags_bit [OF assms(2)] by blast
    qed
  qed
  then show ?thesis using assms(1,2) unfolding only_flags_def by metis
qed

lemma only_flags_DF: "only_flags r r' \<Longrightarrow> flag flagDF r' = flag flagDF r"
  unfolding flag_bit by (rule only_flags_bit) simp_all

lemma OnesCount8_card: "OnesCount8 b = card {n. n < 8 \<and> bit b n}"
proof -
  have "length (filter (bit b) [0..<8]) = card (set (filter (bit b) [0..<8]))"
    by (metis distinct_card distinct_filter distinct_upt)
  also have "set (filter (bit b) [0..<8]) = {n. n < 8 \<and> bit b n}" by auto
  finally show ?thesis by (simp add: OnesCount8_def)
qed

lemma parity8_ucast:
  fixes v :: u64
  assumes "0 < w"
  shows "parity8 (ucast (take_bit (8 * w) v)) \<longleftrightarrow> even (card {n. n < 8 \<and> bit v n})"
proof -
  have "{n. n < 8 \<and> bit (ucast (take_bit (8 * w) v) :: u8) n} = {n. n < 8 \<and> bit v n}"
    using assms by (auto simp: bit_simps)
  then show ?thesis by (simp add: parity8_def OnesCount8_card even_iff_mod_2_eq_zero)
qed

lemma setResultFlags_flags:
  assumes "op_width w"
  shows "result_flags w v (setResultFlags v w r)"
    "flag flagCF (setResultFlags v w r) = flag flagCF r" "flag flagOF (setResultFlags v w r) = flag flagOF r"
    "flag flagAF (setResultFlags v w r) = flag flagAF r" "flag flagDF (setResultFlags v w r) = flag flagDF r"
proof -
  have w: "0 < w" using assms by (auto simp: op_width_def)
  have z: "take_bit (8 * w) v = 0 \<longleftrightarrow> uval w v = 0"
    by (metis uint_take_bit_uval uint_0_iff)
  have s: "bit (take_bit (8 * w) v) (8 * w - 1) \<longleftrightarrow> sval w v < 0"
    using bit_top_sval [OF assms, of "take_bit (8 * w) v"] by (simp only: sval_take_bit)
  show "result_flags w v (setResultFlags v w r)"
    unfolding result_flags_def setResultFlags_def Let_def and_maskWidth [OF assms] and_signBit [OF assms]
    by (simp add: z s [unfolded One_nat_def] parity8_ucast [OF w])
qed (simp_all add: setResultFlags_def Let_def)

lemma bit_top_uval: "op_width w \<Longrightarrow> bit x (8 * w - 1) \<longleftrightarrow> 2 ^ (8 * w - 1) \<le> uval w x"
  using uval_range [of w x] unfolding bit_top_sval by (auto simp: sval_def)

lemma and_bit4: "x AND 0x10 \<noteq> 0 \<longleftrightarrow> bit x 4" for x :: u64
  using and_push_bit_1_iff [of x 4] by simp

lemma bit4_xor3:
  assumes "op_width w"
  shows "(take_bit (8 * w) a XOR take_bit (8 * w) b XOR r) AND 0x10 \<noteq> 0 \<longleftrightarrow>
    (odd (uval w a div 16) \<noteq> (odd (uval w b div 16) \<noteq> odd (uval w r div 16)))"
proof -
  have w: "4 < 8 * w" using assms by (auto simp: op_width_def)
  then show ?thesis
    unfolding and_bit4 by (simp add: bit_xor_iff bit_take_bit_iff bit_uval [OF w])
qed

lemma uval_mod_32:
  assumes "op_width w" "uval w r = z mod 2 ^ (8 * w)"
  shows "uval w r mod 32 = z mod 32"
proof -
  have "(2 :: int) ^ 5 dvd 2 ^ (8 * w)" using assms(1) by (intro le_imp_power_dvd) (auto simp: op_width_def)
  then show ?thesis by (simp add: assms(2) mod_mod_cancel)
qed

lemma sval_neg: "op_width w \<Longrightarrow> sval w x < 0 \<longleftrightarrow> 2 ^ (8 * w - 1) \<le> uval w x"
  using bit_top_uval bit_top_sval by blast

lemma add_overflow:
  assumes w: "op_width w" and c: "carry_in c" and r: "uval w r = (uval w a + uval w b + uint c) mod 2 ^ (8 * w)"
  shows "(sval w a < 0) = (sval w b < 0) \<and> (sval w r < 0) \<noteq> (sval w a < 0) \<longleftrightarrow>
    \<not> s_fits w (sval w a + sval w b + uint c)"
proof -
  have p: "(2 :: int) ^ (8 * w) = 2 * 2 ^ (8 * w - 1)" using w by (intro pow_top) (auto simp: op_width_def)
  have nz: "(0 :: int) < 2 ^ (8 * w - 1)" by simp
  show ?thesis
    unfolding sval_neg [OF w]
    unfolding r s_fits_def sval_def p
    by (rule signed_sum_overflow [OF uval_range(1) uval_range(2) [of w, unfolded p]
          uval_range(1) uval_range(2) [of w, unfolded p] uint_carry [OF c] nz])
qed

lemma sub_overflow:
  assumes w: "op_width w" and c: "carry_in c" and r: "uval w r = (uval w a - uval w b - uint c) mod 2 ^ (8 * w)"
  shows "(sval w a < 0) \<noteq> (sval w b < 0) \<and> (sval w r < 0) \<noteq> (sval w a < 0) \<longleftrightarrow>
    \<not> s_fits w (sval w a - sval w b - uint c)"
proof -
  have p: "(2 :: int) ^ (8 * w) = 2 * 2 ^ (8 * w - 1)" using w by (intro pow_top) (auto simp: op_width_def)
  have nz: "(0 :: int) < 2 ^ (8 * w - 1)" by simp
  show ?thesis
    unfolding sval_neg [OF w]
    unfolding r s_fits_def sval_def p
    by (rule signed_diff_overflow [OF uval_range(1) uval_range(2) [of w, unfolded p]
          uval_range(1) uval_range(2) [of w, unfolded p] uint_carry [OF c] nz])
qed

lemma uint_mask_u64: "n \<le> 64 \<Longrightarrow> uint (mask n :: u64) = 2 ^ n - 1"
proof -
  assume "n \<le> 64"
  then have "uint (mask n :: u64) = mask n" by (auto intro!: bit_eqI simp: bit_simps)
  then show ?thesis by (simp add: mask_eq_exp_minus_1)
qed

lemma add_core:
  assumes w: "op_width w" and c: "carry_in c"
    and core: "(if w \<ge> 8 then let (sum1, c1) = Add64 (take_bit (8 * w) a) (take_bit (8 * w) b) 0;
                  (sum2, c2) = Add64 sum1 c 0 in (sum2, c1 OR c2 \<noteq> 0)
                else let s = take_bit (8 * w) a + take_bit (8 * w) b + c in (take_bit (8 * w) s, s > mask (8 * w)))
               = (res, cf)"
  shows "res = take_bit (8 * w) (take_bit (8 * w) a + take_bit (8 * w) b + c) \<and>
    cf = (2 ^ (8 * w) \<le> uval w a + uval w b + uint c)"
proof (cases "w = 8")
  case True
  obtain s1 c1 s2 c2 where "Add64 (take_bit (8 * w) a) (take_bit (8 * w) b) 0 = (s1, c1)" "Add64 s1 c 0 = (s2, c2)"
    by (metis surj_pair)
  with core True show ?thesis using Add64_twice [of a b s1 c1 c s2 c2] by (auto simp: uval_8)
next
  case False
  let ?n = "8 * w" and ?S = "take_bit (8 * w) a + take_bit (8 * w) b + c"
  have w': "?n \<le> 32" using False w by (auto simp: op_width_def)
  have lt: "uval w a < 2 ^ 32" "uval w b < 2 ^ 32"
    using uval_range(2) [of w a] uval_range(2) [of w b] power_increasing [OF w', of "2 :: int"] by simp_all
  have "uint ?S = (uval w a + uval w b + uint c) mod 2 ^ 64"
    by (simp add: uint_word_ariths mod_add_left_eq uint_take_bit_uval del: unsigned_take_bit_eq)
  also have "\<dots> = uval w a + uval w b + uint c"
    by (rule mod_pos_pos_trivial)
       (use lt uval_range(1) [of w a] uval_range(1) [of w b] uint_carry [OF c] in auto)
  finally have "mask ?n < ?S \<longleftrightarrow> 2 ^ ?n \<le> uval w a + uval w b + uint c"
    using w' by (auto simp: word_less_def uint_mask_u64)
  with False core w show ?thesis by (auto simp: op_width_def Let_def)
qed

lemma sub_core:
  assumes w: "op_width w" and c: "carry_in c"
    and core: "(if w \<ge> 8 then let (diff1, b1) = Sub64 (take_bit (8 * w) a) (take_bit (8 * w) b) 0;
                  (diff2, b2) = Sub64 diff1 c 0 in (diff2, b1 OR b2 \<noteq> 0)
                else let d = take_bit (8 * w) a - take_bit (8 * w) b - c
                     in (take_bit (8 * w) d, take_bit (8 * w) a < take_bit (8 * w) b + c))
               = (res, cf)"
  shows "res = take_bit (8 * w) (take_bit (8 * w) a - take_bit (8 * w) b - c) \<and>
    cf = (uval w a < uval w b + uint c)"
proof (cases "w = 8")
  case True
  obtain s1 c1 s2 c2 where "Sub64 (take_bit (8 * w) a) (take_bit (8 * w) b) 0 = (s1, c1)" "Sub64 s1 c 0 = (s2, c2)"
    by (metis surj_pair)
  with core True show ?thesis using Sub64_twice [of a b s1 c1 c s2 c2] by (auto simp: uval_8)
next
  case False
  let ?n = "8 * w"
  have w': "?n \<le> 32" using False w by (auto simp: op_width_def)
  have lt: "uval w b < 2 ^ 32"
    using uval_range(2) [of w b] power_increasing [OF w', of "2 :: int"] by simp
  have "uint (take_bit ?n b + c) = (uval w b + uint c) mod 2 ^ 64"
    by (simp add: uint_word_ariths uint_take_bit_uval del: unsigned_take_bit_eq)
  also have "\<dots> = uval w b + uint c"
    by (rule mod_pos_pos_trivial) (use lt uval_range(1) [of w b] uint_carry [OF c] in auto)
  finally have "take_bit ?n a < take_bit ?n b + c \<longleftrightarrow> uval w a < uval w b + uint c"
    by (simp only: word_less_def uint_take_bit_uval)
  with False core w show ?thesis by (auto simp: op_width_def Let_def)
qed

text \<open>The flag updates the two cores share.\<close>

lemma alu_flags:
  assumes w: "op_width w"
    and r': "r' = setResultFlags res w (setFlag flagAF ((take_bit (8 * w) a XOR take_bit (8 * w) b XOR res) AND 0x10 \<noteq> 0)
       (setFlag flagOF ofl (setFlag flagCF cf r)))"
  shows "flag flagCF r' = cf \<and> flag flagOF r' = ofl \<and>
    flag flagAF r' = (odd (uval w a div 16) \<noteq> (odd (uval w b div 16) \<noteq> odd (uval w res div 16))) \<and>
    result_flags w res r' \<and> only_flags r r'"
  by (simp add: r' setResultFlags_flags [OF w] only_flags_intros bit4_xor3 [OF w])

lemma bit_top:
  assumes "op_width w"
  shows "bit (take_bit (8 * w) x) (8 * w - 1) \<longleftrightarrow> sval w x < 0" "bit x (8 * w - 1) \<longleftrightarrow> sval w x < 0"
  using bit_top_sval [OF assms, of "take_bit (8 * w) x"] bit_top_sval [OF assms, of x]
  by (simp_all only: sval_take_bit)

lemma add_spec:
  assumes "op_width w" "carry_in c" "addWithFlagsCarry a b w c r = (res, r')"
  shows "uint res = (uval w a + uval w b + uint c) mod 2 ^ (8 * w) \<and>
    flag flagCF r' = (2 ^ (8 * w) \<le> uval w a + uval w b + uint c) \<and>
    flag flagOF r' = (\<not> s_fits w (sval w a + sval w b + uint c)) \<and>
    flag flagAF r' = (16 \<le> uval w a mod 16 + uval w b mod 16 + uint c) \<and>
    result_flags w res r' \<and> only_flags r r'"
proof -
  let ?A = "take_bit (8 * w) a" and ?B = "take_bit (8 * w) b"
  obtain cf where core: "(if w \<ge> 8 then let (sum1, c1) = Add64 ?A ?B 0; (sum2, c2) = Add64 sum1 c 0
               in (sum2, c1 OR c2 \<noteq> 0)
             else let s = ?A + ?B + c in (take_bit (8 * w) s, s > mask (8 * w))) = (res, cf)"
    and r': "r' = setResultFlags res w (setFlag flagAF ((?A XOR ?B XOR res) AND 0x10 \<noteq> 0)
       (setFlag flagOF ((sval w a < 0) = (sval w b < 0) \<and> (sval w res < 0) \<noteq> (sval w a < 0)) (setFlag flagCF cf r)))"
    using assms(3)
    unfolding addWithFlagsCarry_def and_maskWidth [OF assms(1)] and_signBit [OF assms(1)] bit_top [OF assms(1)] Let_def
    by (auto simp: maskWidth_mask [OF assms(1)] split: prod.splits if_splits)
  note rc = add_core [OF assms(1,2) core]
  then have ures: "uval w res = (uval w a + uval w b + uint c) mod 2 ^ (8 * w)"
    by (simp add: uval_add3 [OF assms(1)])
  moreover have "uint res = uval w res" by (metis rc uint_take_bit_uval uval_take_bit)
  ultimately show ?thesis
    using alu_flags [OF assms(1) r'] rc add_overflow [OF assms(1,2) ures]
      carry_into_bit4 [OF uint_carry [OF assms(2)] uval_mod_32 [OF assms(1) ures]] by simp
qed

lemma sub_spec:
  assumes "op_width w" "carry_in c" "subWithFlagsBorrow a b w c r = (res, r')"
  shows "uint res = (uval w a - uval w b - uint c) mod 2 ^ (8 * w) \<and>
    flag flagCF r' = (uval w a < uval w b + uint c) \<and>
    flag flagOF r' = (\<not> s_fits w (sval w a - sval w b - uint c)) \<and>
    flag flagAF r' = (uval w a mod 16 < uval w b mod 16 + uint c) \<and>
    result_flags w res r' \<and> only_flags r r'"
proof -
  let ?A = "take_bit (8 * w) a" and ?B = "take_bit (8 * w) b"
  obtain cf where core: "(if w \<ge> 8 then let (diff1, b1) = Sub64 ?A ?B 0; (diff2, b2) = Sub64 diff1 c 0
               in (diff2, b1 OR b2 \<noteq> 0)
             else let d = ?A - ?B - c in (take_bit (8 * w) d, ?A < ?B + c)) = (res, cf)"
    and r': "r' = setResultFlags res w (setFlag flagAF ((?A XOR ?B XOR res) AND 0x10 \<noteq> 0)
       (setFlag flagOF ((sval w a < 0) \<noteq> (sval w b < 0) \<and> (sval w res < 0) \<noteq> (sval w a < 0)) (setFlag flagCF cf r)))"
    using assms(3)
    unfolding subWithFlagsBorrow_def and_maskWidth [OF assms(1)] and_signBit [OF assms(1)] bit_top [OF assms(1)] Let_def
    by (auto split: prod.splits if_splits)
  note rc = sub_core [OF assms(1,2) core]
  then have ures: "uval w res = (uval w a - uval w b - uint c) mod 2 ^ (8 * w)"
    by (simp add: uval_sub3 [OF assms(1)])
  moreover have "uint res = uval w res" by (metis rc uint_take_bit_uval uval_take_bit)
  ultimately show ?thesis
    using alu_flags [OF assms(1) r'] rc sub_overflow [OF assms(1,2) ures]
      borrow_from_bit4 [OF uint_carry [OF assms(2)] uval_mod_32 [OF assms(1) ures]] by simp
qed

lemma signed_less_flags:
  fixes A B M :: int
  assumes "0 \<le> A" "A < 2 * M" "0 \<le> B" "B < 2 * M" "0 < M"
  defines "R \<equiv> (A - B) mod (2 * M)"
  defines "s \<equiv> \<lambda>x. if x < M then x else x - 2 * M"
  shows "(M \<le> R) \<noteq> (\<not> (- M \<le> s A - s B \<and> s A - s B < M)) \<longleftrightarrow> s A < s B"
proof -
  have "R = (if 0 \<le> A - B then A - B else A - B + 2 * M)"
  proof (cases "0 \<le> A - B")
    case True then show ?thesis using assms(1-5) by (auto simp: R_def intro!: mod_pos_pos_trivial)
  next
    case False
    have "(A - B) mod (2 * M) = (A - B + 2 * M) mod (2 * M)" by simp
    also have "\<dots> = A - B + 2 * M" by (rule mod_pos_pos_trivial) (use False assms(1-5) in auto)
    finally show ?thesis using False by (simp add: R_def)
  qed
  then show ?thesis using assms(1-5) by (cases "A < M"; cases "B < M") (auto simp: s_def)
qed

lemma sub_signed_less:
  assumes w: "op_width w" and r: "uval w r = (uval w a - uval w b) mod 2 ^ (8 * w)"
  shows "(sval w r < 0) \<noteq> (\<not> s_fits w (sval w a - sval w b)) \<longleftrightarrow> sval w a < sval w b"
proof -
  have p: "(2 :: int) ^ (8 * w) = 2 * 2 ^ (8 * w - 1)" using w by (intro pow_top) (auto simp: op_width_def)
  have nz: "(0 :: int) < 2 ^ (8 * w - 1)" by simp
  show ?thesis
    unfolding sval_neg [OF w]
    unfolding r s_fits_def sval_def p
    by (rule signed_less_flags [OF uval_range(1) uval_range(2) [of w, unfolded p]
          uval_range(1) uval_range(2) [of w, unfolded p] nz])
qed

lemma sval_inj: "op_width w \<Longrightarrow> sval w a = sval w b \<longleftrightarrow> uval w a = uval w b"
  using uval_range [of w a] uval_range [of w b] by (auto simp: sval_def split: if_splits)

lemma uval_diff_zero: "(uval w a - uval w b) mod 2 ^ (8 * w) = 0 \<longleftrightarrow> uval w a = uval w b"
proof
  assume "(uval w a - uval w b) mod 2 ^ (8 * w) = 0"
  then have "uval w a mod 2 ^ (8 * w) = uval w b mod 2 ^ (8 * w)" by (simp add: mod_eq_dvd_iff dvd_eq_mod_eq_0)
  then show "uval w a = uval w b" by (simp add: uval_def)
qed simp

text \<open>
  After CMP (or SUB) at any width, the sixteen conditions that Jcc, SETcc and CMOVcc test are
  the unsigned and signed comparisons of the two operands.
\<close>

theorem cmp_conditions:
  assumes "op_width w" "subWithFlags a b w r = (res, r')"
  shows "(evalCC 0x2 r' = (uval w a < uval w b)) \<and> (evalCC 0x3 r' = (uval w b \<le> uval w a)) \<and>
    (evalCC 0x4 r' = (uval w a = uval w b)) \<and> (evalCC 0x5 r' = (uval w a \<noteq> uval w b)) \<and>
    (evalCC 0x6 r' = (uval w a \<le> uval w b)) \<and> (evalCC 0x7 r' = (uval w b < uval w a)) \<and>
    (evalCC 0xC r' = (sval w a < sval w b)) \<and> (evalCC 0xD r' = (sval w b \<le> sval w a)) \<and>
    (evalCC 0xE r' = (sval w a \<le> sval w b)) \<and> (evalCC 0xF r' = (sval w b < sval w a)) \<and>
    (evalCC 0x0 r' = (\<not> s_fits w (sval w a - sval w b))) \<and> (evalCC 0x8 r' = (sval w res < 0))"
proof -
  have c0: "carry_in 0" by (simp add: carry_in_def)
  note s = sub_spec [OF assms(1) c0 assms(2) [unfolded subWithFlags_def]]
  have ures: "uval w res = (uval w a - uval w b) mod 2 ^ (8 * w)"
    using s by (simp add: uval_def)
  have cf: "flag flagCF r' = (uval w a < uval w b)" and zf: "flag flagZF r' = (uval w a = uval w b)"
    and sf: "flag flagSF r' = (sval w res < 0)" and of': "flag flagOF r' = (\<not> s_fits w (sval w a - sval w b))"
    using s ures uval_diff_zero [of w a b] by (simp_all add: result_flags_def)
  have lt: "(sval w res < 0) \<noteq> (\<not> s_fits w (sval w a - sval w b)) \<longleftrightarrow> sval w a < sval w b"
    by (rule sub_signed_less [OF assms(1) ures])
  have eq: "uval w a = uval w b \<longleftrightarrow> sval w a = sval w b" using sval_inj [OF assms(1)] by auto
  have "evalCC 0xE r' = (sval w a \<le> sval w b)" "evalCC 0xF r' = (sval w b < sval w a)"
    using lt eq by (auto simp: evalCC_def cf zf sf of')
  then show ?thesis using lt by (auto simp: evalCC_def cf zf sf of')
qed

theorem cmp_conditions_witness:
  "evalCC 0xC (snd (subWithFlags 0xFF 1 1 newRegisters)) \<and> evalCC 0x7 (snd (subWithFlags 0xFF 1 1 newRegisters))"
  using cmp_conditions [of 1 "0xFF" 1 newRegisters, OF _ prod.collapse [symmetric]]
  by (simp add: uval_def sval_def)

section \<open>The 32-bit fast paths\<close>

lemma bit31: "x AND 0x80000000 \<noteq> 0 \<longleftrightarrow> bit x 31" for x :: "'a::len word"
  using and_push_bit_1_iff [of x 31] by simp

lemma bit31_and: "x AND y AND 0x80000000 \<noteq> 0 \<longleftrightarrow> bit x 31 \<and> bit y 31" for x :: "'a::len word"
  using bit31 [of "x AND y"] by (simp add: and.assoc bit_and_iff)

lemma bit4: "x AND 0x10 \<noteq> 0 \<longleftrightarrow> bit x 4" for x :: "'a::len word"
  using and_push_bit_1_iff [of x 4] by simp

lemma bit_u32_imp: "bit x n \<Longrightarrow> n < 32" for x :: u32
  by (auto dest: bit_imp_le_length)

lemma take_32_ucast [simp]: "take_bit 32 (ucast a :: u64) = ucast a" for a :: u32
  by (rule bit_word_eqI) (auto simp: bit_simps dest: bit_u32_imp)

lemma ucast_32_64 [simp]: "ucast (ucast a :: u64) = a" for a :: u32
  by (rule bit_word_eqI) (auto simp: bit_simps dest: bit_u32_imp)

lemma take_32_eq: "take_bit 32 x = ucast (ucast x :: u32)" for x :: u64
  by (rule bit_word_eqI) (auto simp: bit_simps)

lemma uint_drop_32: "uint (drop_bit 32 x) = uint x div 2 ^ 32" for x :: u64
proof -
  have "uint (drop_bit 32 x) = drop_bit 32 (uint x)"
    by (rule bit_eqI) (auto simp: bit_simps dest: bit_u64_imp)
  then show ?thesis by (simp only: drop_bit_eq_div)
qed

lemma mask_less_32: "x > mask 32 \<longleftrightarrow> drop_bit 32 x \<noteq> 0" for x :: u64
proof -
  have "uint (drop_bit 32 x) = uint x div 2 ^ 32"
    by (rule uint_drop_32)
  then have "drop_bit 32 x = 0 \<longleftrightarrow> uint x div 2 ^ 32 = 0" by (simp add: uint_0_iff [symmetric] del: uint_0_iff)
  also have "\<dots> \<longleftrightarrow> uint x < 2 ^ 32"
    by (subst zdiv_eq_0_iff) (auto simp: not_le intro: less_le_trans [OF _ uint_ge_0])
  finally show ?thesis by (auto simp: word_less_def uint_mask_u64)
qed

lemma width_4: "op_width 4" "8 * 4 = (32 :: nat)"
  by simp_all

lemma ucast_eq_0_32 [simp]: "(ucast v :: u64) = 0 \<longleftrightarrow> v = 0" for v :: u32
  by (metis ucast_32_64 ucast_0)

lemma ucast_8_32 [simp]: "(ucast (ucast v :: u64) :: u8) = ucast v" for v :: u32
  by (rule bit_word_eqI) (auto simp: bit_simps dest: bit_u32_imp)

lemma ucast_add_32: "(ucast (ucast a + ucast b :: u64) :: u32) = a + b"
proof -
  have "uint (ucast (ucast a + ucast b :: u64) :: u32) = (uint a + uint b) mod 2 ^ 64 mod 2 ^ 32"
    by (simp add: unsigned_ucast_eq uint_word_ariths take_bit_eq_mod mod_simps)
  also have "\<dots> = (uint a + uint b) mod 2 ^ 32" by (rule mod_mod_cancel) simp
  also have "\<dots> = uint (a + b)" by (simp add: uint_word_ariths)
  finally show ?thesis by (simp only: word_uint_eq_iff)
qed

lemma ucast_sub_32: "(ucast (ucast a - ucast b :: u64) :: u32) = a - b"
proof -
  have "uint (ucast (ucast a - ucast b :: u64) :: u32) = (uint a - uint b) mod 2 ^ 64 mod 2 ^ 32"
    by (simp add: unsigned_ucast_eq uint_word_ariths take_bit_eq_mod mod_simps)
  also have "\<dots> = (uint a - uint b) mod 2 ^ 32" by (rule mod_mod_cancel) simp
  also have "\<dots> = uint (a - b)" by (simp add: uint_word_ariths)
  finally show ?thesis by (simp only: word_uint_eq_iff)
qed

lemma bit31_uint: "bit x 31 \<longleftrightarrow> 0x80000000 \<le> uint x" for x :: u32
proof -
  have "uval 4 (ucast x) = uint x"
    using uint_lt2p [of x] by (simp add: uval_def unsigned_ucast_eq take_bit_eq_mod)
  then show ?thesis using bit_top_uval [of 4 "ucast x"] by (simp add: bit_simps)
qed

lemma overflow_bit31:
  "NOT (a XOR b) AND (a XOR v) AND 0x80000000 \<noteq> 0 \<longleftrightarrow> bit a 31 = bit b 31 \<and> bit v 31 \<noteq> bit a 31" for a :: u32
  unfolding bit31_and by (auto simp: bit_simps)

lemma add32_equiv:
  "addWithFlags (ucast a) (ucast b) 4 r = (ucast (fst (add32Flags a b r)), snd (add32Flags a b r))"
  unfolding addWithFlags_def addWithFlagsCarry_def add32Flags_def setResultFlags_def Let_def
    and_maskWidth [OF width_4(1)] and_signBit [OF width_4(1)] width_4(2)
  unfolding maskWidth_mask [OF width_4(1)] width_4(2) take_32_ucast
  by (simp add: mask_less_32 take_32_eq ucast_add_32 bit31 overflow_bit31 bit4 bit_simps)

lemma inc_overflow: "\<not> bit a 31 \<and> bit (a + 1) 31 \<longleftrightarrow> a = 0x7fffffff" for a :: u32
  unfolding bit31_uint word_uint_eq_iff [of a] using uint_lt2p [of a] by (auto simp: uint_plus_if')

lemma dec_overflow: "bit a 31 \<and> \<not> bit (a - 1) 31 \<longleftrightarrow> a = 0x80000000" for a :: u32
  unfolding bit31_uint word_uint_eq_iff [of a] using uint_lt2p [of a] by (auto simp: uint_sub_if')

lemma inc32_equiv:
  "incFlags (ucast a) 4 r = (ucast (fst (inc32Flags a r)), snd (inc32Flags a r))"
proof -
  have one: "(1 :: u64) = ucast (1 :: u32)" by simp
  show ?thesis
    unfolding incFlags_def one add32_equiv add32Flags_def Let_def ucast_add_32
    by (auto simp: inc32Flags_def Let_def bit31 overflow_bit31 bit4 bit_simps inc_overflow [symmetric]
       intro!: only_flags_eqI [of r] only_flags_intros)
qed

lemma dec32_equiv:
  "decFlags (ucast a) 4 r = (ucast (fst (dec32Flags a r)), snd (dec32Flags a r))"
proof -
  have one: "(1 :: u64) = ucast (1 :: u32)" by simp
  have sum: "ucast (ucast a - 1 :: u64) = a - 1" using ucast_sub_32 [of a 1] by simp
  show ?thesis
    unfolding decFlags_def one subWithFlags_def subWithFlagsBorrow_def setResultFlags_def Let_def
      and_maskWidth [OF width_4(1)] and_signBit [OF width_4(1)] width_4(2)
    by (auto simp: dec32Flags_def Let_def take_32_eq ucast_sub_32 sum bit31 bit4 bit_simps dec_overflow [symmetric]
       intro!: only_flags_eqI [of r] only_flags_intros)
qed

text \<open>
  The 32-bit fast paths the decoder selects for ADD, INC and DEC on a register compute the same
  result and the same flags as the generic routines at width 4; in particular INC and DEC keep CF.
\<close>

theorem fast_paths_equiv:
  "addWithFlags (ucast a) (ucast b) 4 r = (ucast (fst (add32Flags a b r)), snd (add32Flags a b r)) \<and>
   incFlags (ucast a) 4 r = (ucast (fst (inc32Flags a r)), snd (inc32Flags a r)) \<and>
   decFlags (ucast a) 4 r = (ucast (fst (dec32Flags a r)), snd (dec32Flags a r)) \<and>
   flag flagCF (snd (inc32Flags a r)) = flag flagCF r \<and> flag flagCF (snd (dec32Flags a r)) = flag flagCF r"
  unfolding add32_equiv inc32_equiv dec32_equiv by (simp add: inc32Flags_def dec32Flags_def Let_def)

text \<open>
  C11. ADD and ADC at every width: the result is the sum modulo the width, CF is unsigned overflow,
  OF signed overflow of the exact sum, AF the carry out of the low four bits, ZF, SF and PF describe
  the result, and nothing but the six status flags changes.
\<close>

theorem add_flags_correct:
  assumes "op_width w" "carry_in c" "addWithFlagsCarry a b w c r = (res, r')"
  shows "uint res = (uval w a + uval w b + uint c) mod 2 ^ (8 * w) \<and>
    flag flagCF r' = (2 ^ (8 * w) \<le> uval w a + uval w b + uint c) \<and>
    flag flagOF r' = (\<not> s_fits w (sval w a + sval w b + uint c)) \<and>
    flag flagAF r' = (16 \<le> uval w a mod 16 + uval w b mod 16 + uint c) \<and>
    result_flags w res r' \<and> only_flags r r'"
  by (rule add_spec [OF assms])

theorem add_flags_correct_witness:
  "fst (addWithFlagsCarry 0x7F 0 1 1 newRegisters) = 0x80 \<and> flag flagOF (snd (addWithFlagsCarry 0x7F 0 1 1 newRegisters))"
  using add_flags_correct [of 1 1 "0x7F" 0 newRegisters, OF _ _ prod.collapse [symmetric]]
  by (simp add: carry_in_def uval_def sval_def s_fits_def word_uint_eq_iff)

text \<open>
  C12. SUB and SBB at every width: the result is the difference modulo the width, CF the unsigned
  borrow, OF signed overflow of the exact difference, AF the borrow into the low four bits, ZF, SF
  and PF describe the result, and nothing but the six status flags changes.
\<close>

theorem sub_flags_correct:
  assumes "op_width w" "carry_in c" "subWithFlagsBorrow a b w c r = (res, r')"
  shows "uint res = (uval w a - uval w b - uint c) mod 2 ^ (8 * w) \<and>
    flag flagCF r' = (uval w a < uval w b + uint c) \<and>
    flag flagOF r' = (\<not> s_fits w (sval w a - sval w b - uint c)) \<and>
    flag flagAF r' = (uval w a mod 16 < uval w b mod 16 + uint c) \<and>
    result_flags w res r' \<and> only_flags r r'"
  by (rule sub_spec [OF assms])

theorem sub_flags_correct_witness:
  "fst (subWithFlagsBorrow 0 0 2 1 newRegisters) = 0xFFFF \<and> flag flagCF (snd (subWithFlagsBorrow 0 0 2 1 newRegisters))"
  using sub_flags_correct [of 2 1 0 0 newRegisters, OF _ _ prod.collapse [symmetric]]
  by (simp add: carry_in_def uval_def word_uint_eq_iff)

lemma logicFlags_spec:
  assumes "op_width w"
  shows "\<not> flag flagCF (logicFlags v w r) \<and> \<not> flag flagOF (logicFlags v w r) \<and> result_flags w v (logicFlags v w r) \<and>
    only_flags r (logicFlags v w r)"
  by (simp add: logicFlags_def setResultFlags_flags [OF assms] only_flags_intros)

end
