(* ===== verification/Operand.thy ===== *)
theory Operand
  imports Memory_Laws Flags
begin

unbundle bit_operations_syntax

text \<open>
  Instruction operands, \<open>internal/cpu/operand.go\<close>: the symbolic operand record with its lazily
  resolved address, little-endian conversion, and reading and writing an operand. The state is the
  part of \<open>Engine\<close> an instruction works on: registers, memory and \<open>curInstrEnd\<close>.
\<close>

section \<open>The state of an instruction\<close>

record cpu =
  c_regs :: registers
  c_mem :: memory
  c_curInstrEnd :: u64

type_synonym 'a exec = "(cpu, cpu_error, 'a) sem"

text \<open>Running a memory operation and updating the registers inside an instruction.\<close>

definition on_mem :: "(memory, cpu_error, 'a) sem \<Rightarrow> 'a exec" where
  "on_mem f = (\<lambda>c. case f (c_mem c) of (x, m) \<Rightarrow> (x, c\<lparr>c_mem := m\<rparr>))"

definition on_regs :: "(registers \<Rightarrow> registers) \<Rightarrow> unit exec" where
  "on_regs f = modS (\<lambda>c. c\<lparr>c_regs := f (c_regs c)\<rparr>)"

definition regs :: "(registers \<Rightarrow> 'a) \<Rightarrow> 'a exec" where
  "regs f = getS (\<lambda>c. f (c_regs c))"

text \<open>A flag routine returns a value and the registers with the flags it set.\<close>

definition with_flags :: "(registers \<Rightarrow> 'a \<times> registers) \<Rightarrow> 'a exec" where
  "with_flags f = (\<lambda>c. case f (c_regs c) of (x, r) \<Rightarrow> (Inr x, c\<lparr>c_regs := r\<rparr>))"

section \<open>Operands\<close>

datatype operandKind = opndReg | opndMem | opndImm

datatype segOverride = segOverrideNone | segOverrideFS | segOverrideGS

record operand =
  o_kind :: operandKind
  o_reg :: nat
  o_rex :: bool
  o_addr :: u64
  o_ripRelative :: bool
  o_ripDisp :: u64
  o_memBaseIndex :: bool
  o_memBaseReg :: nat
  o_haveBase :: bool
  o_memIndexReg :: nat
  o_haveIndex :: bool
  o_memScale :: u64
  o_memDisp :: u64
  o_seg :: segOverride
  o_imm :: u64

text \<open>The zero operand of Go's composite literals.\<close>

definition zero_operand :: operand where
  "zero_operand = \<lparr>o_kind = opndReg, o_reg = 0, o_rex = False, o_addr = 0, o_ripRelative = False, o_ripDisp = 0,
     o_memBaseIndex = False, o_memBaseReg = 0, o_haveBase = False, o_memIndexReg = 0, o_haveIndex = False,
     o_memScale = 0, o_memDisp = 0, o_seg = segOverrideNone, o_imm = 0\<rparr>"

definition regOperand :: "nat \<Rightarrow> bool \<Rightarrow> operand" where
  "regOperand reg rex = zero_operand\<lparr>o_kind := opndReg, o_reg := reg, o_rex := rex\<rparr>"

definition immOperand :: "u64 \<Rightarrow> operand" where
  "immOperand v = zero_operand\<lparr>o_kind := opndImm, o_imm := v\<rparr>"

definition memOperand :: "u64 \<Rightarrow> operand" where
  "memOperand addr = zero_operand\<lparr>o_kind := opndMem, o_addr := addr\<rparr>"

definition memOperandRIP :: "u64 \<Rightarrow> operand" where
  "memOperandRIP disp = zero_operand\<lparr>o_kind := opndMem, o_ripRelative := True, o_ripDisp := disp\<rparr>"

definition memOperandBaseIndex :: "nat \<Rightarrow> bool \<Rightarrow> nat \<Rightarrow> bool \<Rightarrow> u64 \<Rightarrow> u64 \<Rightarrow> operand" where
  "memOperandBaseIndex baseReg haveBase indexReg haveIndex scale disp =
     zero_operand\<lparr>o_kind := opndMem, o_memBaseIndex := True, o_memBaseReg := baseReg, o_haveBase := haveBase,
       o_memIndexReg := indexReg, o_haveIndex := haveIndex, o_memScale := scale, o_memDisp := disp\<rparr>"

text \<open>
  \<open>effAddr\<close> resolves a memory operand against the registers at the time of the access. \<open>ripDisp\<close>
  and \<open>memDisp\<close> are \<open>int64\<close> in the code, here the same 64 bits.
\<close>

definition effAddr :: "operand \<Rightarrow> cpu \<Rightarrow> u64" where
  "effAddr x c =
     (let r = c_regs c;
          addr = (if o_ripRelative x then c_curInstrEnd c + o_ripDisp x
                  else if o_memBaseIndex x then
                    let a = (if o_haveBase x then read64 (o_memBaseReg x) r else 0);
                        b = (if o_haveIndex x then a + read64 (o_memIndexReg x) r * o_memScale x else a)
                    in if sint (o_memDisp x) < 0 then b - (- o_memDisp x) else b + o_memDisp x
                  else o_addr x)
      in case o_seg x of
           segOverrideFS \<Rightarrow> addr + r_fsbase r
         | segOverrideGS \<Rightarrow> addr + r_gsbase r
         | segOverrideNone \<Rightarrow> addr)"

section \<open>Little-endian conversion\<close>

definition leToU64 :: "u8 list \<Rightarrow> u64" where
  "leToU64 bs = fold (\<lambda>(i, x) v. v OR push_bit (8 * i) (ucast x)) (enumerate 0 bs) 0"

definition u64ToLE :: "u64 \<Rightarrow> nat \<Rightarrow> u8 list" where
  "u64ToLE v width = map (\<lambda>i. ucast (drop_bit (8 * i) v)) [0..<width]"

section \<open>Reading and writing an operand\<close>

definition readOperand :: "operand \<Rightarrow> nat \<Rightarrow> u64 exec" where
  "readOperand x width = (case o_kind x of
       opndReg \<Rightarrow> regs (readWidth (o_reg x) width (o_rex x))
     | opndImm \<Rightarrow> ret (o_imm x)
     | opndMem \<Rightarrow> bindE (getS (effAddr x)) (\<lambda>a.
         bindE (on_mem (readChecked a width ProtRead)) (\<lambda>buf. ret (leToU64 buf))))"

definition writeOperand :: "operand \<Rightarrow> nat \<Rightarrow> u64 \<Rightarrow> unit exec" where
  "writeOperand x width val = (case o_kind x of
       opndReg \<Rightarrow> on_regs (writeWidth (o_reg x) width (o_rex x) val)
     | opndMem \<Rightarrow> bindE (getS (effAddr x)) (\<lambda>a. on_mem (writeChecked a (u64ToLE val width) ProtWrite))
     | opndImm \<Rightarrow> fail BadOperandKind)"

definition leaAddr :: "operand \<Rightarrow> u64 exec" where
  "leaAddr x = (if o_kind x \<noteq> opndMem then fail LeaNotMemory else getS (effAddr x))"

definition signExtend :: "u64 \<Rightarrow> nat \<Rightarrow> u64" where
  "signExtend v fromBits = (let shift = 64 - fromBits in signed_drop_bit shift (push_bit shift v))"

section \<open>Laws of the combinators\<close>

lemma on_mem_apply [sem_simps]: "on_mem f c = (fst (f (c_mem c)), c\<lparr>c_mem := snd (f (c_mem c))\<rparr>)"
  by (simp add: on_mem_def split: prod.split)

lemma on_regs_apply [simp, sem_simps]: "on_regs f c = (Inr (), c\<lparr>c_regs := f (c_regs c)\<rparr>)"
  by (simp add: on_regs_def)

lemma regs_apply [simp, sem_simps]: "regs f c = (Inr (f (c_regs c)), c)"
  by (simp add: regs_def)

lemma with_flags_apply [simp, sem_simps]: "with_flags f c = (Inr (fst (f (c_regs c))), c\<lparr>c_regs := snd (f (c_regs c))\<rparr>)"
  by (simp add: with_flags_def split: prod.split)

section \<open>Laws of little-endian conversion and sign extension\<close>

lemma length_u64ToLE [simp]: "length (u64ToLE v w) = w"
  by (simp add: u64ToLE_def)

lemma leToU64_fold:
  "bit (fold (\<lambda>(i, x) v. v OR push_bit (8 * i) (ucast x)) (enumerate k bs) acc) n \<longleftrightarrow>
     bit acc n \<or> n < 64 \<and> 8 * k \<le> n \<and> n < 8 * (k + length bs) \<and> bit (bs ! (n div 8 - k)) (n mod 8)"
  for acc :: u64 and bs :: "u8 list"
proof (induction bs arbitrary: k acc)
  case Nil
  then show ?case by auto
next
  case (Cons b bs)
  have b8: "bit b j \<Longrightarrow> j < 8" for j by (auto dest: bit_imp_le_length)
  have nd: "n div 8 = k \<and> n mod 8 = n - 8 * k" if "8 * k \<le> n" "n < 8 * k + 8"
    using that by presburger
  have nk: "(b # bs) ! (n div 8 - k) = (if n < 8 * k + 8 then b else bs ! (n div 8 - Suc k))" if "8 * k \<le> n"
  proof (cases "n < 8 * k + 8")
    case False
    then have "Suc k \<le> n div 8" by presburger
    then show ?thesis using False by (simp add: nth_Cons' )
  qed (use nd that in simp)
  have "\<not> bit b (n - 8 * k)" if "8 * k + 8 \<le> n" using b8 [of "n - 8 * k"] that by auto
  then show ?case
    unfolding enumerate_simps fold.simps comp_def prod.case Cons.IH
    by (cases "8 * k \<le> n"; cases "n < 8 * k + 8") (auto simp: bit_simps nk nd)
qed

lemma leToU64_bits: "bit (leToU64 bs) n \<longleftrightarrow> n < 64 \<and> n < 8 * length bs \<and> bit (bs ! (n div 8)) (n mod 8)"
  unfolding leToU64_def leToU64_fold by simp

lemma u64ToLE_bits: "i < w \<Longrightarrow> bit (u64ToLE v w ! i) j \<longleftrightarrow> j < 8 \<and> bit v (8 * i + j)"
  by (auto simp: u64ToLE_def bit_simps add.commute dest: bit_imp_le_length)

lemma le_roundtrip: "leToU64 (u64ToLE v w) = take_bit (8 * w) v"
proof (rule bit_word_eqI)
  fix n :: nat assume "n < LENGTH(64)"
  moreover have "n < 8 * w \<Longrightarrow> n div 8 < w" by presburger
  moreover have "8 * (n div 8) + n mod 8 = n" by simp
  ultimately show "bit (leToU64 (u64ToLE v w)) n = bit (take_bit (8 * w) v) n"
    by (auto simp: leToU64_bits u64ToLE_bits bit_take_bit_iff)
qed

lemma leToU64_take_bit: "length bs = w \<Longrightarrow> take_bit (8 * w) (leToU64 bs) = leToU64 bs"
  by (rule bit_word_eqI) (auto simp: bit_take_bit_iff leToU64_bits)

lemma le_roundtrip_bytes: "length bs = w \<Longrightarrow> w \<le> 8 \<Longrightarrow> u64ToLE (leToU64 bs) w = bs"
proof (rule nth_equalityI)
  fix i assume w: "length bs = w" "w \<le> 8" and "i < length (u64ToLE (leToU64 bs) w)"
  then have i: "i < w" by simp
  show "u64ToLE (leToU64 bs) w ! i = bs ! i"
  proof (rule bit_word_eqI)
    fix j assume "j < LENGTH(8)"
    then have "(8 * i + j) div 8 = i" "(8 * i + j) mod 8 = j" "8 * i + j < 8 * w" "8 * i + j < 64"
      using i w by auto
    then show "bit (u64ToLE (leToU64 bs) w ! i) j = bit (bs ! i) j"
      using \<open>j < LENGTH(8)\<close> w by (simp add: u64ToLE_bits [OF i] leToU64_bits)
  qed
qed simp

lemma bit_signExtend:
  assumes "0 < k" "k \<le> 64"
  shows "bit (signExtend v k) n \<longleftrightarrow> n < 64 \<and> bit v (min n (k - 1))"
  using assms by (auto simp: signExtend_def Let_def bit_simps min_def)

lemma sint_signExtend:
  assumes "op_width w"
  shows "sint (signExtend v (8 * w)) = sval w v"
proof -
  have w: "0 < w" "8 * w \<le> 64" "8 * w - 1 < 64" using assms by (auto simp: op_width_def)
  have "sint (signExtend v (8 * w)) = signed_take_bit (8 * w - 1) (uint v)"
  proof (rule bit_eqI)
    fix n
    have "min 63 n < 64" "min (min 63 n) (8 * w - Suc 0) = min (8 * w - Suc 0) n" using w(3) by auto
    then show "bit (sint (signExtend v (8 * w))) n = bit (signed_take_bit (8 * w - 1) (uint v)) n"
      using w by (simp add: bit_signExtend bit_simps)
  qed
  also have "\<dots> = take_bit (8 * w) (uint v) - 2 ^ (8 * w) * of_bool (bit (uint v) (8 * w - 1))"
    using w by (simp add: signed_take_bit_eq_take_bit_minus)
  also have "bit (uint v) (8 * w - 1) \<longleftrightarrow> bit v (8 * w - 1)"
    using w by (simp add: bit_uint_iff)
  finally show ?thesis
    unfolding bit_top_uval [OF assms] by (auto simp: sval_def uval_def take_bit_eq_mod)
qed

lemma take_bit_signExtend:
  assumes "0 < k" "k \<le> 64"
  shows "take_bit k (signExtend v k) = take_bit k v"
  by (rule bit_word_eqI) (use assms in \<open>auto simp: bit_take_bit_iff bit_signExtend min_def\<close>)

section \<open>What an instruction may do to memory\<close>

text \<open>
  The memory an instruction leaves: same mappings and permissions, no byte changed outside
  writable pages, and no byte of an executable page changed unless the code-dirty flag is set.
\<close>

definition mem_step :: "memory \<Rightarrow> memory \<Rightarrow> bool" where
  "mem_step m m' \<longleftrightarrow> mem_wf m' \<and>
     (\<forall>a. mem_at m a = None \<longrightarrow> mem_at m' a = None) \<and>
     (\<forall>a p b. mem_at m a = Some (p, b) \<longrightarrow> (\<exists>b'. mem_at m' a = Some (p, b') \<and> (b' = b \<or> p AND ProtWrite \<noteq> 0))) \<and>
     (m_codeDirty m \<longrightarrow> m_codeDirty m') \<and>
     (\<not> m_codeDirty m' \<longrightarrow> (\<forall>a p b. mem_at m a = Some (p, b) \<and> p AND ProtExec \<noteq> 0 \<longrightarrow> mem_at m' a = Some (p, b)))"

lemma mem_step_refl: "mem_wf m \<Longrightarrow> mem_step m m"
  by (simp add: mem_step_def)

lemma mem_step_trans:
  assumes "mem_step m m1" "mem_step m1 m2"
  shows "mem_step m m2"
  unfolding mem_step_def
proof (intro conjI allI impI)
  fix a p b assume a: "mem_at m a = Some (p, b)"
  then obtain b1 where b1: "mem_at m1 a = Some (p, b1)" "b1 = b \<or> p AND ProtWrite \<noteq> 0"
    using assms(1) unfolding mem_step_def by blast
  then obtain b2 where "mem_at m2 a = Some (p, b2)" "b2 = b1 \<or> p AND ProtWrite \<noteq> 0"
    using assms(2) unfolding mem_step_def by blast
  with b1 show "\<exists>b'. mem_at m2 a = Some (p, b') \<and> (b' = b \<or> p AND ProtWrite \<noteq> 0)" by blast
next
  fix a p b assume "\<not> m_codeDirty m2" "mem_at m a = Some (p, b) \<and> p AND ProtExec \<noteq> 0"
  then show "mem_at m2 a = Some (p, b)" using assms unfolding mem_step_def by blast
qed (use assms in \<open>auto simp: mem_step_def\<close>)

lemma same_core_step: "mem_wf m' \<Longrightarrow> same_core m m' \<Longrightarrow> mem_step m m'"
  using same_core_mem_at [of m m'] by (auto simp: mem_step_def same_core_def)

lemma readChecked_step: "mem_wf m \<Longrightarrow> mem_step m (snd (readChecked a n req m))"
  using readChecked_spec [of m a n req] same_core_step by fastforce

lemma writeChecked_step:
  assumes "mem_wf m" "length bs \<le> 18446744073709551616"
  shows "mem_step m (snd (writeChecked a bs ProtWrite m))"
proof -
  define k where "k = write_end (fault_index m ProtWrite a 0 (length bs)) (length bs)"
  obtain r m' where w: "writeChecked a bs ProtWrite m = (r, m')" "mem_wf m'"
      "mem_at m' = upd_at a bs 0 k (mem_at m)" "m_codeDirty m' = (m_codeDirty m \<or> changes_code m a bs 0 k)"
    using writeChecked_spec [OF assms, of a ProtWrite, folded k_def] by blast
  have acc: "accessible m ProtWrite (a + of_nat i)" if "i < k" for i
    using that fault_index_SomeD [of m ProtWrite a 0 "length bs"] fault_index_None [of m ProtWrite a 0 "length bs"]
    unfolding k_def write_end_def by (cases "fault_index m ProtWrite a 0 (length bs)") auto
  have at: "a + of_nat (unat (x - a)) = x" for x by simp
  have "mem_step m m'"
    unfolding mem_step_def
  proof (intro conjI allI impI)
    fix x p b assume x: "mem_at m x = Some (p, b)"
    show "\<exists>b'. mem_at m' x = Some (p, b') \<and> (b' = b \<or> p AND ProtWrite \<noteq> 0)"
      using x acc [of "unat (x - a)"] unfolding at by (auto simp: w(3) upd_at_def Let_def accessible_def)
  next
    fix x p b assume nd: "\<not> m_codeDirty m'" and x: "mem_at m x = Some (p, b) \<and> p AND ProtExec \<noteq> 0"
    have "bs ! unat (x - a) = b" if "unat (x - a) < k"
    proof -
      have "accessible m ProtExec x" "mem_byte m x = b" using x by (auto simp: accessible_def mem_byte_def)
      then show ?thesis using nd that unfolding w(4) changes_code_def by (metis at le0)
    qed
    then show "mem_at m' x = Some (p, b)" using x by (auto simp: w(3) upd_at_def Let_def)
  qed (use w in \<open>auto simp: upd_at_def Let_def\<close>)
  then show ?thesis by (simp add: w(1))
qed

text \<open>
  An instruction step that leaves memory as \<open>mem_step\<close> says, whether it succeeds or fails. The
  rules follow the way instruction bodies are composed, so the property of a whole instruction is
  found by \<open>intro\<close>.
\<close>

definition keeps :: "'a exec \<Rightarrow> bool" where
  "keeps f \<longleftrightarrow> (\<forall>c. mem_wf (c_mem c) \<longrightarrow>
     mem_step (c_mem c) (c_mem (snd (f c))) \<and> c_curInstrEnd (snd (f c)) = c_curInstrEnd c)"

named_theorems keeps_intros \<open>composition rules for \<open>keeps\<close>\<close>

lemma keepsI:
  "(\<And>c. mem_wf (c_mem c) \<Longrightarrow> mem_step (c_mem c) (c_mem (snd (f c))) \<and> c_curInstrEnd (snd (f c)) = c_curInstrEnd c) \<Longrightarrow> keeps f"
  by (simp add: keeps_def)

lemma keepsD:
  assumes "keeps f" "mem_wf (c_mem c)" "f c = (r, c')"
  shows "mem_step (c_mem c) (c_mem c')" "c_curInstrEnd c' = c_curInstrEnd c" "mem_wf (c_mem c')"
proof -
  have "mem_step (c_mem c) (c_mem c') \<and> c_curInstrEnd c' = c_curInstrEnd c"
    using assms(1) [unfolded keeps_def, rule_format, OF assms(2)] assms(3) by simp
  then show "mem_step (c_mem c) (c_mem c')" "c_curInstrEnd c' = c_curInstrEnd c" "mem_wf (c_mem c')"
    by (simp_all add: mem_step_def)
qed

lemma keeps_basic [keeps_intros]:
  "keeps (ret a)" "keeps (fail e)" "keeps (getS g)" "keeps (regs h)" "keeps (on_regs k)" "keeps (with_flags fl)"
  by (auto intro!: keepsI mem_step_refl)

lemma keeps_modS [keeps_intros]:
  "(\<And>c. c_mem (f c) = c_mem c \<and> c_curInstrEnd (f c) = c_curInstrEnd c) \<Longrightarrow> keeps (modS f)"
  by (auto intro!: keepsI mem_step_refl)

lemma keeps_bindE_result:
  assumes m: "keeps m" and f: "\<And>a c c'. m c = (Inr a, c') \<Longrightarrow> mem_wf (c_mem c) \<Longrightarrow> keeps (f a)"
  shows "keeps (bindE m f)"
proof (rule keepsI)
  fix c :: cpu assume wf: "mem_wf (c_mem c)"
  obtain r c1 where r: "bindE m f c = (r, c1)" by fastforce
  then show "mem_step (c_mem c) (c_mem (snd (bindE m f c))) \<and> c_curInstrEnd (snd (bindE m f c)) = c_curInstrEnd c"
  proof (cases rule: bindE_cases)
    case (err e)
    then show ?thesis using keepsD [OF m wf err(1)] r by simp
  next
    case (ok a c2)
    note k1 = keepsD [OF m wf ok(1)]
    note k2 = keepsD [OF f [OF ok(1) wf] k1(3) ok(2)]
    show ?thesis using mem_step_trans [OF k1(1) k2(1)] k1(2) k2(2) r by simp
  qed
qed

lemma keeps_bindE [keeps_intros]: "keeps m \<Longrightarrow> (\<And>a. keeps (f a)) \<Longrightarrow> keeps (bindE m f)"
  by (rule keeps_bindE_result)

lemma keeps_if [keeps_intros]: "(b \<Longrightarrow> keeps f) \<Longrightarrow> (\<not> b \<Longrightarrow> keeps g) \<Longrightarrow> keeps (if b then f else g)"
  by simp

lemma keeps_Let [keeps_intros]: "(\<And>x. x = v \<Longrightarrow> keeps (f x)) \<Longrightarrow> keeps (Let v f)"
  by simp

lemma keeps_prod [keeps_intros]: "(\<And>a b. p = (a, b) \<Longrightarrow> keeps (f a b)) \<Longrightarrow> keeps (case p of (a, b) \<Rightarrow> f a b)"
  by (simp split: prod.split)

lemma keeps_read_mem [keeps_intros]: "keeps (on_mem (readChecked a n req))"
  by (rule keepsI) (simp add: on_mem_apply readChecked_step)

lemma keeps_write_mem [keeps_intros]: "length bs \<le> 18446744073709551616 \<Longrightarrow> keeps (on_mem (writeChecked a bs ProtWrite))"
  by (rule keepsI) (simp add: on_mem_apply writeChecked_step)

lemma keeps_readOperand [keeps_intros]: "keeps (readOperand x w)"
  unfolding readOperand_def by (cases "o_kind x") (auto intro!: keeps_intros)

lemma op_width_le: "op_width w \<Longrightarrow> w \<le> 8"
  by (auto simp: op_width_def)

lemma keeps_writeOperand [keeps_intros]: "op_width w \<Longrightarrow> keeps (writeOperand x w v)"
  unfolding writeOperand_def by (cases "o_kind x") (auto intro!: keeps_intros dest: op_width_le)

lemma keeps_leaAddr [keeps_intros]: "keeps (leaAddr x)"
  unfolding leaAddr_def by (auto intro!: keeps_intros)

section \<open>Properties of operands\<close>

text \<open>The address of a memory operand is a sum; the sign test on the displacement does not matter.\<close>

definition seg_base :: "segOverride \<Rightarrow> registers \<Rightarrow> u64" where
  "seg_base s r = (case s of segOverrideNone \<Rightarrow> 0 | segOverrideFS \<Rightarrow> r_fsbase r | segOverrideGS \<Rightarrow> r_gsbase r)"

text \<open>
  A base-plus-index operand resolves, at the time of the access, to the base register plus the
  scaled index register plus the signed displacement plus the FS or GS base, modulo 2^64, in the
  registers of that moment; a RIP-relative one to the end of the instruction plus its displacement.
\<close>

theorem effAddr_formula:
  "effAddr (memOperandBaseIndex b hb i hi s d\<lparr>o_seg := sg\<rparr>) c =
     word_of_int (uint (if hb then r_gpr (c_regs c) b else 0) +
       uint (if hi then r_gpr (c_regs c) i else 0) * uint s + sint d + uint (seg_base sg (c_regs c))) \<and>
   effAddr (memOperandRIP d) c = word_of_int (uint (c_curInstrEnd c) + sint d)"
  by (auto simp: effAddr_def memOperandBaseIndex_def memOperandRIP_def zero_operand_def seg_base_def read64_def
      Let_def split: segOverride.split)

lemma effAddr_mem_frame [simp]: "effAddr x (c\<lparr>c_mem := m\<rparr>) = effAddr x c" for c :: cpu
  by (simp add: effAddr_def cong: if_cong)

lemma writeWidth_gpr: "writeWidth idx w rex v r = r\<lparr>r_gpr := r_gpr (writeWidth idx w rex v r)\<rparr>"
  by (simp add: writeWidth_def write8_def write16_def write32_def write64_def set_gpr_def Let_def)

text \<open>
  C13. Writing an operand and reading it back at the same width gives the value truncated to that
  width, for registers and for memory (little-endian, across pages), when the bytes may be read.
  A memory write sets the width's bytes from the effective address on, with the permissions they
  had, and changes no other byte and nothing of the CPU but memory. A register write changes one
  general-purpose register and nothing else of the CPU: in it the bits outside the part that is
  written stay, but for a 32-bit write, which clears them.
\<close>

theorem operand_write_read:
  assumes "mem_wf (c_mem c)" "op_width w" "writeOperand x w v c = (Inr (), c')"
    "o_kind x = opndMem \<longrightarrow> (\<forall>i<w. accessible (c_mem c) ProtRead (effAddr x c + of_nat i))"
  shows "(\<exists>c''. readOperand x w c' = (Inr (take_bit (8 * w) v), c'') \<and> c'' = c'\<lparr>c_mem := c_mem c''\<rparr> \<and>
      mem_at (c_mem c'') = mem_at (c_mem c')) \<and>
    (o_kind x = opndMem \<longrightarrow> c' = c\<lparr>c_mem := c_mem c'\<rparr> \<and>
       (\<forall>a. mem_at (c_mem c') a = (let i = unat (a - effAddr x c) in
          if i < w then map_option (\<lambda>(p, _). (p, ucast (drop_bit (8 * i) v))) (mem_at (c_mem c) a) else mem_at (c_mem c) a))) \<and>
    (o_kind x = opndReg \<longrightarrow> c' = c\<lparr>c_regs := (c_regs c)\<lparr>r_gpr := r_gpr (c_regs c')\<rparr>\<rparr> \<and>
       (\<forall>j. j \<noteq> phys_reg (o_reg x) w (o_rex x) \<longrightarrow> r_gpr (c_regs c') j = r_gpr (c_regs c) j) \<and>
       (\<forall>n. n < phys_lo (o_reg x) w (o_rex x) \<or> phys_lo (o_reg x) w (o_rex x) + 8 * w \<le> n \<longrightarrow>
          bit (r_gpr (c_regs c') (phys_reg (o_reg x) w (o_rex x))) n =
            (w \<noteq> 4 \<and> bit (r_gpr (c_regs c) (phys_reg (o_reg x) w (o_rex x))) n)))"
proof (cases "o_kind x")
  case opndReg
  then have c': "c' = c\<lparr>c_regs := writeWidth (o_reg x) w (o_rex x) v (c_regs c)\<rparr>"
    using assms(3) by (simp add: writeOperand_def)
  then have r: "c_regs c' = writeWidth (o_reg x) w (o_rex x) v (c_regs c)" by simp
  have "c_regs c' = (c_regs c)\<lparr>r_gpr := r_gpr (c_regs c')\<rparr>" unfolding r by (rule writeWidth_gpr)
  with c' r have fr: "c' = c\<lparr>c_regs := (c_regs c)\<lparr>r_gpr := r_gpr (c_regs c')\<rparr>\<rparr>" by metis
  have rd: "readWidth (o_reg x) w (o_rex x) (c_regs c') = take_bit (8 * w) v" by (simp add: r read_write_width [OF assms(2)])
  show ?thesis
    unfolding readOperand_def opndReg operandKind.case regs_def getS_def rd
    using fr by (simp add: r writeWidth_other [OF assms(2)] writeWidth_bits [OF assms(2)])
next
  case opndMem
  let ?a = "effAddr x c" and ?bs = "u64ToLE v w"
  have len: "length ?bs \<le> 18446744073709551616" using op_width_le [OF assms(2)] by simp
  obtain m' where m': "writeChecked ?a ?bs ProtWrite (c_mem c) = (Inr (), m')" "c' = c\<lparr>c_mem := m'\<rparr>"
    using assms(3) opndMem by (auto simp: writeOperand_def on_mem_def split: prod.splits)
  have at: "mem_at m' = upd_at ?a ?bs 0 w (mem_at (c_mem c))"
    using checked.wr_view(2) [OF assms(1) len m'(1)] by simp
  have "\<exists>p b. mem_at (c_mem c) (?a + of_nat i) = Some (p, b) \<and> p AND ProtRead \<noteq> 0" if "i < length ?bs" for i
    using assms(4) opndMem that by (auto simp: accessible_def split: option.splits)
  from checked.wr_rd [OF assms(1) len m'(1) this] obtain m'' where
    "readChecked ?a w ProtRead m' = (Inr ?bs, m'')" "mem_at m'' = mem_at m'" by auto
  then show ?thesis
    using opndMem by (simp add: readOperand_def on_mem_def m'(2) le_roundtrip at) (auto simp: upd_at_def u64ToLE_def Let_def)
next
  case opndImm
  then show ?thesis using assms(3) by (simp add: writeOperand_def)
qed

text \<open>The run stores four bytes across the boundary of two mapped pages.\<close>

definition demo_cpu :: cpu where
  "demo_cpu = \<lparr>c_regs = newRegisters, c_mem = demo_mem, c_curInstrEnd = 0\<rparr>"

theorem operand_write_read_witness:
  "\<exists>c' c''. writeOperand (memOperand 0x1FFE) 4 0xDEADBEEF demo_cpu = (Inr (), c') \<and>
     readOperand (memOperand 0x1FFE) 4 c' = (Inr 0xDEADBEEF, c'')"
proof -
  let ?x = "memOperand 0x1FFE"
  have e: "effAddr ?x demo_cpu = 0x1000 + of_nat 4094" and k: "o_kind ?x = opndMem" and w: "op_width 4"
    and mem: "c_mem demo_cpu = demo_mem"
    by (simp_all add: effAddr_def memOperand_def zero_operand_def demo_cpu_def)
  have acc: "accessible demo_mem req (effAddr ?x demo_cpu + of_nat i)" if "i < 4" "req = ProtRead \<or> req = ProtWrite" for i req
    using demo_mem_accessible [of "4094 + i"] that unfolding e by (auto simp: add.assoc)
  obtain m' where "writeChecked (effAddr ?x demo_cpu) (u64ToLE 0xDEADBEEF 4) ProtWrite demo_mem = (Inr (), m')"
    using writeChecked_ok [OF demo_mem_wf, of "u64ToLE 0xDEADBEEF 4" ProtWrite "effAddr ?x demo_cpu"] acc by auto
  then have wr: "writeOperand ?x 4 0xDEADBEEF demo_cpu = (Inr (), demo_cpu\<lparr>c_mem := m'\<rparr>)"
    by (simp add: writeOperand_def k on_mem_def mem)
  from operand_write_read [OF demo_mem_wf [folded mem] w wr] show ?thesis
    using acc wr by (auto simp: k mem take_bit_eq_mod)
qed

end
