(* ===== verification/Exec.thy ===== *)
theory Exec
  imports Operand "HOL-Library.Signed_Division"
begin

unbundle bit_operations_syntax

text \<open>
  Instruction semantics shared by the decoder's closures, \<open>internal/cpu/exec.go\<close>: the stack, the
  0xF6/0xF7 group, multiplication and division at every width, the string instructions with their
  REP loops, and the shift group; and \<open>aluBinOp\<close> of \<open>decode.go\<close>.
\<close>

section \<open>The stack\<close>

definition push64 :: "u64 \<Rightarrow> unit exec" where
  "push64 v =
     bindE (regs (\<lambda>r. r_gpr r RegRSP - 8)) (\<lambda>sp.
     bindE (on_mem (writeChecked sp (u64ToLE v 8) ProtWrite)) (\<lambda>_.
     on_regs (set_gpr RegRSP sp)))"

definition pop64 :: "u64 exec" where
  "pop64 =
     bindE (regs (\<lambda>r. r_gpr r RegRSP)) (\<lambda>sp.
     bindE (on_mem (readChecked sp 8 ProtRead)) (\<lambda>buf.
     bindE (on_regs (set_gpr RegRSP (sp + 8))) (\<lambda>_.
     ret (leToU64 buf))))"

section \<open>Multiplication and division\<close>

text \<open>\<open>bits.Mul64\<close> and \<open>bits.Div64\<close> of the standard library: the 128-bit product and quotient.\<close>

definition Mul64 :: "u64 \<Rightarrow> u64 \<Rightarrow> u64 \<times> u64" where
  "Mul64 x y = (word_of_int (uint x * uint y div 2 ^ 64), x * y)"

definition Div64 :: "u64 \<Rightarrow> u64 \<Rightarrow> u64 \<Rightarrow> u64 \<times> u64" where
  "Div64 hi lo y = (let n = uint hi * 2 ^ 64 + uint lo in (word_of_int (n div uint y), word_of_int (n mod uint y)))"

definition extendSignHi :: "u64 \<Rightarrow> nat \<Rightarrow> u64" where
  "extendSignHi lo w = (if sint (signExtend lo (w * 8)) < 0 then maskWidth w else 0)"

definition mulUnsigned :: "u64 \<Rightarrow> u64 \<Rightarrow> nat \<Rightarrow> u64 \<times> u64" where
  "mulUnsigned a b w =
     (let mask = maskWidth w; a = a AND mask; b = b AND mask in
      if w = 8 then Mul64 a b
      else let full = a * b in (drop_bit (w * 8) full AND mask, full AND mask))"

definition mulSigned :: "u64 \<Rightarrow> u64 \<Rightarrow> nat \<Rightarrow> u64 \<times> u64" where
  "mulSigned a b w =
     (let sa = signExtend a (w * 8); sb = signExtend b (w * 8) in
      if w = 8 then
        let (h, l) = Mul64 sa sb;
            h1 = (if sint sa < 0 then h - sb else h);
            h2 = (if sint sb < 0 then h1 - sa else h1)
        in (h2, l)
      else let full = sa * sb; mask = maskWidth w in (signed_drop_bit (w * 8) full AND mask, full AND mask))"

definition divUnsigned :: "u64 \<Rightarrow> u64 \<Rightarrow> u64 \<Rightarrow> nat \<Rightarrow> cpu_error + u64 \<times> u64" where
  "divUnsigned dxHi axLo divisor w =
     (let mask = maskWidth w; dxHi = dxHi AND mask; axLo = axLo AND mask; divisor = divisor AND mask in
      if w = 8 then
        (if dxHi \<ge> divisor then Inl DivOverflow else Inr (Div64 dxHi axLo divisor))
      else if divisor = 0 then Inl GoPanic
      else let full = push_bit (w * 8) dxHi OR axLo; qq = full div divisor in
        if qq > mask then Inl DivOverflow else Inr (qq, full mod divisor))"

text \<open>Go's \<open>/\<close> and \<open>%\<close> on \<open>int64\<close> truncate towards zero; the quotient of the least value by -1 wraps.\<close>

definition go_div :: "u64 \<Rightarrow> u64 \<Rightarrow> u64" where
  "go_div x y = word_of_int (sint x sdiv sint y)"

definition go_mod :: "u64 \<Rightarrow> u64 \<Rightarrow> u64" where
  "go_mod x y = word_of_int (sint x smod sint y)"

definition divSigned :: "u64 \<Rightarrow> u64 \<Rightarrow> u64 \<Rightarrow> nat \<Rightarrow> cpu_error + u64 \<times> u64" where
  "divSigned dxHi axLo divisor w =
     (if divisor = 0 then Inl DivisionByZero
      else if w = 8 then
        (if dxHi \<noteq> 0 \<and> dxHi \<noteq> NOT 0 then Inl IdivUnsupported
         else Inr (go_div axLo divisor, go_mod axLo divisor))
      else let mask = maskWidth w; raw = push_bit (w * 8) (dxHi AND mask) OR (axLo AND mask);
               dividend = signExtend raw (w * 16); sdivisor = signExtend divisor (w * 8) in
        if sdivisor = 0 then Inl GoPanic
        else Inr (go_div dividend sdivisor AND mask, go_mod dividend sdivisor AND mask))"

text \<open>A function result \<open>(q, r, err)\<close> used as a step.\<close>

definition of_result :: "cpu_error + 'a \<Rightarrow> 'a exec" where
  "of_result x = (case x of Inl err \<Rightarrow> fail err | Inr a \<Rightarrow> ret a)"

text \<open>The two-flag update that MUL and IMUL share: CF and OF both tell of overflow.\<close>

definition set_CF_OF :: "bool \<Rightarrow> unit exec" where
  "set_CF_OF on = bindE (on_regs (setFlag flagCF on)) (\<lambda>_. on_regs (setFlag flagOF on))"

definition imul2 :: "operand \<Rightarrow> u64 \<Rightarrow> u64 \<Rightarrow> nat \<Rightarrow> unit exec" where
  "imul2 dst a b w =
     (let (hi, lo) = mulSigned a b w; overflow = (hi \<noteq> extendSignHi lo w) in
      bindE (set_CF_OF overflow) (\<lambda>_. writeOperand dst w lo))"

definition grp3Op :: "nat \<Rightarrow> operand \<Rightarrow> nat \<Rightarrow> unit exec" where
  "grp3Op idx rm w =
     (if idx = 2 then
        bindE (readOperand rm w) (\<lambda>a. writeOperand rm w (NOT a AND maskWidth w))
      else if idx = 3 then
        bindE (readOperand rm w) (\<lambda>a.
        bindE (with_flags (subWithFlags 0 a w)) (\<lambda>result.
        bindE (on_regs (setFlag flagCF (a \<noteq> 0))) (\<lambda>_.
        writeOperand rm w result)))
      else if idx = 4 then
        bindE (readOperand rm w) (\<lambda>a.
        bindE (readOperand (regOperand 0 True) w) (\<lambda>ax.
        let (hi, lo) = mulUnsigned ax a w in
        bindE (writeOperand (regOperand 0 True) w lo) (\<lambda>_.
        bindE (writeOperand (regOperand 2 True) w hi) (\<lambda>_.
        set_CF_OF (hi \<noteq> 0)))))
      else if idx = 5 then
        bindE (readOperand rm w) (\<lambda>a.
        bindE (readOperand (regOperand 0 True) w) (\<lambda>ax.
        let (hi, lo) = mulSigned ax a w in
        bindE (writeOperand (regOperand 0 True) w lo) (\<lambda>_.
        bindE (writeOperand (regOperand 2 True) w hi) (\<lambda>_.
        set_CF_OF (hi \<noteq> extendSignHi lo w)))))
      else if idx = 6 \<or> idx = 7 then
        bindE (readOperand rm w) (\<lambda>divisor.
        if divisor = 0 then fail DivisionByZero else
        bindE (readOperand (regOperand 0 True) w) (\<lambda>ax.
        bindE (readOperand (regOperand 2 True) w) (\<lambda>dx.
        bindE (of_result (if idx = 6 then divUnsigned dx ax divisor w else divSigned dx ax divisor w)) (\<lambda>(q, r).
        bindE (writeOperand (regOperand 0 True) w q) (\<lambda>_.
        writeOperand (regOperand 2 True) w r)))))
      else fail (UnsupportedGroup 3 idx))"

section \<open>String instructions\<close>

datatype repKind = repNone | repZ | repNZ

definition strIndexDelta :: "nat \<Rightarrow> registers \<Rightarrow> u64" where
  "strIndexDelta w r = (if flag flagDF r then NOT (of_nat w) + 1 else of_nat w)"

definition repIterations :: "repKind \<Rightarrow> registers \<Rightarrow> u64" where
  "repIterations rep r = (if rep = repNone then 1 else r_gpr r RegRCX)"

definition add_gpr :: "nat \<Rightarrow> u64 \<Rightarrow> unit exec" where
  "add_gpr i d = on_regs (\<lambda>r. set_gpr i (r_gpr r i + d) r)"

definition dec_rcx :: "repKind \<Rightarrow> unit exec" where
  "dec_rcx rep = (if rep \<noteq> repNone then on_regs (\<lambda>r. set_gpr RegRCX (r_gpr r RegRCX - 1) r) else ret ())"

text \<open>\<open>for i := 0; i < n; i++\<close> around a body that tells whether to break.\<close>

primrec rep_loop :: "nat \<Rightarrow> bool exec \<Rightarrow> unit exec" where
  "rep_loop 0 body = ret ()"
| "rep_loop (Suc n) body = bindE body (\<lambda>stop. if stop then ret () else rep_loop n body)"

definition rep_run :: "repKind \<Rightarrow> bool exec \<Rightarrow> unit exec" where
  "rep_run rep body = bindE (regs (repIterations rep)) (\<lambda>n. rep_loop (unat n) body)"

definition movs_body :: "nat \<Rightarrow> repKind \<Rightarrow> u64 \<Rightarrow> bool exec" where
  "movs_body w rep delta =
     bindE (regs (\<lambda>r. r_gpr r RegRSI)) (\<lambda>rsi.
     bindE (on_mem (readChecked rsi w ProtRead)) (\<lambda>buf.
     bindE (regs (\<lambda>r. r_gpr r RegRDI)) (\<lambda>rdi.
     bindE (on_mem (writeChecked rdi buf ProtWrite)) (\<lambda>_.
     bindE (add_gpr RegRSI delta) (\<lambda>_.
     bindE (add_gpr RegRDI delta) (\<lambda>_.
     bindE (dec_rcx rep) (\<lambda>_. ret False)))))))"

definition strMovs :: "nat \<Rightarrow> repKind \<Rightarrow> unit exec" where
  "strMovs w rep = bindE (regs (strIndexDelta w)) (\<lambda>delta. rep_run rep (movs_body w rep delta))"

definition stos_body :: "u8 list \<Rightarrow> repKind \<Rightarrow> u64 \<Rightarrow> bool exec" where
  "stos_body buf rep delta =
     bindE (regs (\<lambda>r. r_gpr r RegRDI)) (\<lambda>rdi.
     bindE (on_mem (writeChecked rdi buf ProtWrite)) (\<lambda>_.
     bindE (add_gpr RegRDI delta) (\<lambda>_.
     bindE (dec_rcx rep) (\<lambda>_. ret False))))"

definition strStos :: "nat \<Rightarrow> repKind \<Rightarrow> bool \<Rightarrow> unit exec" where
  "strStos w rep rex =
     bindE (regs (strIndexDelta w)) (\<lambda>delta.
     bindE (regs (readWidth RegRAX w rex)) (\<lambda>val.
     rep_run rep (stos_body (u64ToLE val w) rep delta)))"

definition lods_body :: "nat \<Rightarrow> repKind \<Rightarrow> bool \<Rightarrow> u64 \<Rightarrow> bool exec" where
  "lods_body w rep rex delta =
     bindE (regs (\<lambda>r. r_gpr r RegRSI)) (\<lambda>rsi.
     bindE (on_mem (readChecked rsi w ProtRead)) (\<lambda>buf.
     bindE (on_regs (writeWidth RegRAX w rex (leToU64 buf))) (\<lambda>_.
     bindE (add_gpr RegRSI delta) (\<lambda>_.
     bindE (dec_rcx rep) (\<lambda>_. ret False)))))"

definition strLods :: "nat \<Rightarrow> repKind \<Rightarrow> bool \<Rightarrow> unit exec" where
  "strLods w rep rex = bindE (regs (strIndexDelta w)) (\<lambda>delta. rep_run rep (lods_body w rep rex delta))"

text \<open>The early exit of CMPS and SCAS under REPE and REPNE.\<close>

definition rep_stop :: "repKind \<Rightarrow> bool exec" where
  "rep_stop rep = regs (\<lambda>r. rep = repZ \<and> \<not> flag flagZF r \<or> rep = repNZ \<and> flag flagZF r)"

definition cmps_body :: "nat \<Rightarrow> repKind \<Rightarrow> u64 \<Rightarrow> bool exec" where
  "cmps_body w rep delta =
     bindE (regs (\<lambda>r. r_gpr r RegRSI)) (\<lambda>rsi.
     bindE (on_mem (readChecked rsi w ProtRead)) (\<lambda>a.
     bindE (regs (\<lambda>r. r_gpr r RegRDI)) (\<lambda>rdi.
     bindE (on_mem (readChecked rdi w ProtRead)) (\<lambda>b.
     bindE (with_flags (subWithFlags (leToU64 a) (leToU64 b) w)) (\<lambda>_.
     bindE (add_gpr RegRSI delta) (\<lambda>_.
     bindE (add_gpr RegRDI delta) (\<lambda>_.
     bindE (dec_rcx rep) (\<lambda>_. rep_stop rep))))))))"

definition strCmps :: "nat \<Rightarrow> repKind \<Rightarrow> unit exec" where
  "strCmps w rep = bindE (regs (strIndexDelta w)) (\<lambda>delta. rep_run rep (cmps_body w rep delta))"

definition scas_body :: "nat \<Rightarrow> repKind \<Rightarrow> bool \<Rightarrow> u64 \<Rightarrow> bool exec" where
  "scas_body w rep rex delta =
     bindE (regs (readWidth RegRAX w rex)) (\<lambda>a.
     bindE (regs (\<lambda>r. r_gpr r RegRDI)) (\<lambda>rdi.
     bindE (on_mem (readChecked rdi w ProtRead)) (\<lambda>b.
     bindE (with_flags (subWithFlags a (leToU64 b) w)) (\<lambda>_.
     bindE (add_gpr RegRDI delta) (\<lambda>_.
     bindE (dec_rcx rep) (\<lambda>_. rep_stop rep))))))"

definition strScas :: "nat \<Rightarrow> repKind \<Rightarrow> bool \<Rightarrow> unit exec" where
  "strScas w rep rex = bindE (regs (strIndexDelta w)) (\<lambda>delta. rep_run rep (scas_body w rep rex delta))"

section \<open>Shifts and rotates\<close>

text \<open>The result, the carry and the kind of each shift, by the ModRM extension digit.\<close>

definition shift_result :: "nat \<Rightarrow> u64 \<Rightarrow> nat \<Rightarrow> nat \<Rightarrow> (shiftOp \<times> u64 \<times> bool) option" where
  "shift_result idx a w count =
     (let mask = maskWidth w; n = w * 8; c = count mod n in
      if idx = 4 \<or> idx = 6 then
        Some (Shl, if count \<le> n then (push_bit count a AND mask, drop_bit (n - count) a AND 1 \<noteq> 0) else (0, False))
      else if idx = 5 then Some (Shr, drop_bit count a, drop_bit (count - 1) a AND 1 \<noteq> 0)
      else if idx = 7 then
        Some (Sar, signed_drop_bit count (signExtend a n) AND mask, drop_bit (count - 1) a AND 1 \<noteq> 0)
      else if idx = 0 then
        let result = (push_bit c a OR drop_bit (n - c) a) AND mask in Some (Rol, result, result AND 1 \<noteq> 0)
      else if idx = 1 then
        let result = (drop_bit c a OR push_bit (n - c) a) AND mask in Some (Ror, result, result AND signBit w \<noteq> 0)
      else None)"

definition shiftGrp2 :: "nat \<Rightarrow> operand \<Rightarrow> nat \<Rightarrow> nat \<Rightarrow> unit exec" where
  "shiftGrp2 idx rm w rawCount =
     (let count = rawCount mod (if w = 8 then 64 else 32) in
      bindE (readOperand rm w) (\<lambda>a0.
      if count = 0 then ret ()
      else let a = a0 AND maskWidth w in
        case shift_result idx a w count of
          None \<Rightarrow> fail (UnsupportedGroup 2 idx)
        | Some (sop, result, cf) \<Rightarrow>
            bindE (on_regs (shiftFlags sop a result w count cf)) (\<lambda>_. writeOperand rm w result)))"

section \<open>The ALU group\<close>

definition aluBinOp :: "nat \<Rightarrow> operand \<Rightarrow> operand \<Rightarrow> nat \<Rightarrow> unit exec" where
  "aluBinOp idx dst src width =
     bindE (readOperand dst width) (\<lambda>a.
     bindE (readOperand src width) (\<lambda>b.
     if idx = 0 then bindE (with_flags (addWithFlags a b width)) (writeOperand dst width)
     else if idx = 1 then
       bindE (on_regs (logicFlags (a OR b) width)) (\<lambda>_. writeOperand dst width (a OR b))
     else if idx = 2 then
       bindE (with_flags (\<lambda>r. addWithFlagsCarry a b width (if flag flagCF r then 1 else 0) r)) (writeOperand dst width)
     else if idx = 3 then
       bindE (with_flags (\<lambda>r. subWithFlagsBorrow a b width (if flag flagCF r then 1 else 0) r)) (writeOperand dst width)
     else if idx = 4 then
       bindE (on_regs (logicFlags (a AND b) width)) (\<lambda>_. writeOperand dst width (a AND b))
     else if idx = 5 then bindE (with_flags (subWithFlags a b width)) (writeOperand dst width)
     else if idx = 6 then
       bindE (on_regs (logicFlags (a XOR b) width)) (\<lambda>_. writeOperand dst width (a XOR b))
     else if idx = 7 then bindE (with_flags (subWithFlags a b width)) (\<lambda>_. ret ())
     else fail (BadAluIndex idx)))"

section \<open>Every routine keeps the memory rules\<close>

lemma keeps_small [keeps_intros]:
  "keeps (push64 v)" "keeps pop64" "keeps (of_result x)" "keeps (set_CF_OF b)" "keeps (add_gpr i d)"
  "keeps (dec_rcx rep)" "keeps (rep_stop rep)"
  unfolding push64_def pop64_def of_result_def set_CF_OF_def add_gpr_def dec_rcx_def rep_stop_def
  by (auto intro!: keeps_intros split: sum.split)

lemma keeps_imul2 [keeps_intros]: "op_width w \<Longrightarrow> keeps (imul2 dst a b w)"
  unfolding imul2_def by (intro keeps_intros)

lemma keeps_grp3Op [keeps_intros]: "op_width w \<Longrightarrow> keeps (grp3Op idx rm w)"
  unfolding grp3Op_def by (intro keeps_intros)

lemma keeps_rep_loop: "keeps body \<Longrightarrow> keeps (rep_loop n body)"
  by (induction n) (auto intro!: keeps_intros)

lemma keeps_rep_run [keeps_intros]: "keeps body \<Longrightarrow> keeps (rep_run rep body)"
  unfolding rep_run_def by (intro keeps_intros keeps_rep_loop)

lemma readChecked_length: "on_mem (readChecked a n req) c = (Inr bs, c') \<Longrightarrow> mem_wf (c_mem c) \<Longrightarrow> length bs = n"
  using readChecked_spec [of "c_mem c" a n req] by (auto simp: on_mem_def split: option.splits)

lemma keeps_strings [keeps_intros]:
  "op_width w \<Longrightarrow> keeps (strStos w rep rex)" "keeps (strLods w rep rex)"
  "keeps (strCmps w rep)" "keeps (strScas w rep rex)"
  unfolding strStos_def stos_body_def strLods_def lods_body_def strCmps_def cmps_body_def strScas_def scas_body_def
  by (intro keeps_intros; auto dest: op_width_le)+

lemma keeps_strMovs [keeps_intros]:
  assumes "op_width w"
  shows "keeps (strMovs w rep)"
proof -
  have "keeps (bindE (on_mem (readChecked rsi w ProtRead)) (\<lambda>buf.
     bindE (regs (\<lambda>r. r_gpr r RegRDI)) (\<lambda>rdi.
     bindE (on_mem (writeChecked rdi buf ProtWrite)) (\<lambda>_.
     bindE (add_gpr RegRSI delta) (\<lambda>_.
     bindE (add_gpr RegRDI delta) (\<lambda>_.
     bindE (dec_rcx rep) (\<lambda>_. ret False)))))))" for rsi delta
    by (rule keeps_bindE_result; (intro keeps_intros)?)
       (use op_width_le [OF assms] in \<open>auto dest: readChecked_length\<close>)
  then show ?thesis
    unfolding strMovs_def movs_body_def by (intro keeps_bindE [OF keeps_basic(4)] keeps_rep_run)
qed

lemma keeps_shiftGrp2 [keeps_intros]: "op_width w \<Longrightarrow> keeps (shiftGrp2 idx rm w cnt)"
  unfolding shiftGrp2_def
  by (intro keeps_intros) (auto intro!: keeps_intros split: option.split)

lemma keeps_aluBinOp [keeps_intros]: "op_width w \<Longrightarrow> keeps (aluBinOp idx dst src w)"
  unfolding aluBinOp_def by (intro keeps_intros)

section \<open>Multiplication and division are exact\<close>

lemma uint_drop_bit: "uint (drop_bit n x) = uint x div 2 ^ n" for x :: u64
proof -
  have "uint (drop_bit n x) = drop_bit n (uint x)"
    by (rule bit_eqI) (auto simp: bit_simps dest: bit_u64_imp)
  then show ?thesis by (simp only: drop_bit_eq_div)
qed

lemma int_div_lt: "x < c * b \<Longrightarrow> 0 < b \<Longrightarrow> x div b < c" for x b c :: int
proof (rule ccontr)
  assume "x < c * b" "0 < b" "\<not> x div b < c"
  then have "c * b \<le> x div b * b" by simp
  also have "\<dots> \<le> x" using pos_mod_sign [OF \<open>0 < b\<close>, of x] div_mult_mod_eq [of x b] by linarith
  finally show False using \<open>x < c * b\<close> by simp
qed

lemma width_small: "op_width w \<Longrightarrow> w \<noteq> 8 \<Longrightarrow> (2 :: int) ^ (8 * w) * 2 ^ (8 * w) \<le> 2 ^ 64"
  by (elim op_width_cases) simp_all

lemma mulUnsigned_exact:
  assumes "op_width w" "mulUnsigned a b w = (hi, lo)"
  shows "uint hi * 2 ^ (8 * w) + uint lo = uval w a * uval w b \<and> uint hi < 2 ^ (8 * w) \<and> uint lo < 2 ^ (8 * w)"
proof (cases "w = 8")
  case True
  have p: "0 \<le> uint a * uint b" "uint a * uint b < 2 ^ 64 * 2 ^ 64"
    using mult_strict_mono' [OF uint_lt2p [of a] uint_lt2p [of b]] by simp_all
  have d: "uint a * uint b div 2 ^ 64 < 2 ^ 64" using p(2) by (intro int_div_lt) simp_all
  have "uint hi = uint a * uint b div 2 ^ 64"
    using assms(2) True d p(1)
    by (auto simp: mulUnsigned_def Mul64_def Let_def maskWidth_def uint_word_of_int pos_imp_zdiv_nonneg_iff)
  moreover have "uint lo = uint a * uint b mod 2 ^ 64"
    using assms(2) True by (auto simp: mulUnsigned_def Mul64_def Let_def maskWidth_def uint_word_ariths)
  ultimately show ?thesis using True d by (simp add: uval_8)
next
  case False
  define full where "full = take_bit (8 * w) a * take_bit (8 * w) b"
  let ?M = "2 ^ (8 * w) :: int"
  have lt: "uval w a * uval w b < ?M * ?M"
    using uval_range [of w a] uval_range [of w b] by (intro mult_strict_mono') auto
  have "uint full = uval w a * uval w b mod 2 ^ 64"
    by (simp add: full_def uint_word_ariths uint_take_bit_uval del: unsigned_take_bit_eq)
  also have "\<dots> = uval w a * uval w b"
    using lt width_small [OF assms(1) False] uval_range(1) [of w a] uval_range(1) [of w b]
    by (intro mod_pos_pos_trivial) auto
  finally have full: "uint full = uval w a * uval w b" .
  have hl: "hi = take_bit (8 * w) (drop_bit (8 * w) full)" "lo = take_bit (8 * w) full"
    using assms(2) False
    by (auto simp: mulUnsigned_def and_maskWidth [OF assms(1)] full_def Let_def mult.commute [of w 8])
  have "uint hi = uint full div ?M mod ?M" "uint lo = uint full mod ?M"
    by (simp_all only: hl uint_take_bit_mod uint_drop_bit)
  moreover have "uint full div ?M < ?M"
    using lt unfolding full by (intro int_div_lt) simp_all
  moreover have "0 \<le> uint full div ?M" by (simp add: pos_imp_zdiv_nonneg_iff)
  ultimately show ?thesis using div_mult_mod_eq [of "uint full" ?M] by (simp add: full)
qed

lemma uval_of_int: "op_width w \<Longrightarrow> uval w (word_of_int z) = z mod 2 ^ (8 * w)"
proof -
  assume w: "op_width w"
  have "uint (word_of_int z :: u64) = z mod 2 ^ 64" by (simp add: uint_word_of_int)
  then show ?thesis by (simp only: uval_def mod_mod_cancel [OF pow_w_dvd [OF w]])
qed

lemma sval_of_int:
  assumes w: "op_width w" and z: "s_fits w z"
  shows "sval w (word_of_int z) = z"
proof -
  have p: "(2 :: int) ^ (8 * w) = 2 * 2 ^ (8 * w - 1)" using w by (intro pow_top) (auto simp: op_width_def)
  have "z mod 2 ^ (8 * w) = (if 0 \<le> z then z else z + 2 ^ (8 * w))"
  proof (cases "0 \<le> z")
    case True
    then show ?thesis using z by (auto simp: s_fits_def p intro!: mod_pos_pos_trivial)
  next
    case False
    have "z mod 2 ^ (8 * w) = (z + 2 ^ (8 * w)) mod 2 ^ (8 * w)" by simp
    also have "\<dots> = z + 2 ^ (8 * w)" by (rule mod_pos_pos_trivial) (use False z in \<open>auto simp: s_fits_def p\<close>)
    finally show ?thesis using False by simp
  qed
  then show ?thesis using z unfolding sval_def uval_of_int [OF w] s_fits_def p by auto
qed

lemma s_fits_sval: "op_width w \<Longrightarrow> s_fits w (sval w x)"
  using sval_range [of w x] by (simp add: s_fits_def)

lemma s_fits_small: "s_fits w 0" "s_fits w (- 1)"
  by (simp_all add: s_fits_def less_trans [of "- 1 :: int" 0])

lemma sval_word: "op_width w \<Longrightarrow> take_bit (8 * w) (word_of_int (sval w x)) = take_bit (8 * w) x"
proof -
  assume w: "op_width w"
  have "uval w (word_of_int (sval w x)) = uval w x"
    unfolding uval_of_int [OF w] using uval_range [of w x] by (auto simp: sval_def)
  then show ?thesis by (metis uint_take_bit_uval word_uint_eq_iff)
qed

text \<open>A product of two signed operands has a high half that fits.\<close>

lemma int_product_high:
  fixes A B H :: int
  assumes "- H \<le> A" "A < H" "- H \<le> B" "B < H" "0 < H"
  shows "- H \<le> A * B div (2 * H) \<and> A * B div (2 * H) < H \<and> \<bar>A * B\<bar> \<le> H * H"
proof -
  have "\<bar>A\<bar> \<le> H" "\<bar>B\<bar> \<le> H" using assms by auto
  then have abs: "\<bar>A * B\<bar> \<le> H * H" unfolding abs_mult using assms(5) by (intro mult_mono) auto
  moreover have "0 < H * H" using assms(5) by simp
  ultimately have lt: "A * B < H * (2 * H)" and ge: "- H * (2 * H) \<le> A * B" by linarith+
  have "A * B div (2 * H) < H" by (rule int_div_lt [OF lt]) (use assms(5) in simp)
  moreover have "- H * (2 * H) div (2 * H) \<le> A * B div (2 * H)" by (rule zdiv_mono1 [OF ge]) (use assms(5) in simp)
  moreover have "- H * (2 * H) div (2 * H) = - H" using assms(5) by (intro nonzero_mult_div_cancel_right) simp
  ultimately show ?thesis using abs by simp
qed

lemma product_high_fits:
  assumes "op_width w"
  shows "s_fits w (sval w a * sval w b div 2 ^ (8 * w))"
    "\<bar>sval w a * sval w b\<bar> \<le> 2 ^ (8 * w - 1) * 2 ^ (8 * w - 1)"
proof -
  have p: "(2 :: int) ^ (8 * w) = 2 * 2 ^ (8 * w - 1)" using assms by (intro pow_top) (auto simp: op_width_def)
  have "(0 :: int) < 2 ^ (8 * w - 1)" by simp
  from int_product_high [OF sval_range [OF assms] sval_range [OF assms] this]
  show "s_fits w (sval w a * sval w b div 2 ^ (8 * w))"
    "\<bar>sval w a * sval w b\<bar> \<le> 2 ^ (8 * w - 1) * 2 ^ (8 * w - 1)"
    unfolding s_fits_def p by blast+
qed

lemma sval_8: "sval 8 x = sint x"
  using sint_signExtend [of 8 x] bit_word_eqI [of "signExtend x 64" x] by (simp add: bit_signExtend min_def)

lemma uint_sint: "uint x = sint x + (if sint x < 0 then 2 ^ 64 else 0)" for x :: u64
proof -
  have "sint x = (if uint x < 2 ^ 63 then uint x else uint x - 2 ^ 64)"
    using sval_8 [of x] unfolding sval_def uval_8 by (auto split: if_splits)
  then show ?thesis using uint_lt2p [of x] by auto
qed

text \<open>The correction of the unsigned high half that turns it into the signed one.\<close>

lemma mul64_correction:
  assumes "Mul64 a b = (h, l)"
  shows "word_of_int (sint a * sint b div 2 ^ 64) =
    h - (if sint a < 0 then b else 0) - (if sint b < 0 then a else 0)"
proof -
  let ?A = "sint a" and ?B = "sint b"
  define al be :: int where "al = (if ?A < 0 then 1 else 0)" and "be = (if ?B < 0 then 1 else 0)"
  have "uint a * uint b = (?A + al * 2 ^ 64) * (?B + be * 2 ^ 64)"
    unfolding uint_sint [of a] uint_sint [of b] by (simp add: al_def be_def)
  also have "\<dots> = ?A * ?B + 2 ^ 64 * (al * ?B + be * ?A + al * be * 2 ^ 64)"
    by (simp add: algebra_simps)
  finally have "uint a * uint b div 2 ^ 64 = ?A * ?B div 2 ^ 64 + (al * ?B + be * ?A + al * be * 2 ^ 64)"
    by (simp add: div_mult_self2)
  then have h: "h = word_of_int (?A * ?B div 2 ^ 64 + al * ?B + be * ?A + al * be * 2 ^ 64)"
    using assms by (simp add: Mul64_def add.assoc)
  have z: "(18446744073709551616 :: u64) = 0"
    by (simp add: word_uint_eq_iff)
  show ?thesis
    unfolding h al_def be_def by (simp add: z)
qed

lemma sdrop_word: "signed_drop_bit n x = word_of_int (sint x div 2 ^ n)" for x :: u64
  unfolding drop_bit_eq_div [symmetric] sint_signed_drop_bit_eq [symmetric] by simp

lemma mulSigned_words:
  assumes w: "op_width w" and m: "mulSigned a b w = (hi, lo)"
  shows "hi = take_bit (8 * w) (word_of_int (sval w a * sval w b div 2 ^ (8 * w))) \<and>
    lo = take_bit (8 * w) (word_of_int (sval w a * sval w b))"
proof (cases "w = 8")
  case True
  have a: "signExtend a 64 = a" "signExtend b 64 = b"
    by (rule bit_word_eqI; simp add: bit_signExtend min_def)+
  obtain h l where "Mul64 a b = (h, l)" by fastforce
  moreover then have "l = word_of_int (sint a * sint b)" by (simp add: Mul64_def)
  ultimately show ?thesis
    using m True mul64_correction [of a b h l] by (auto simp: mulSigned_def a Let_def sval_8)
next
  case False
  define full where "full = signExtend a (8 * w) * signExtend b (8 * w)"
  let ?S = "sval w a * sval w b"
  have se: "signExtend x (8 * w) = word_of_int (sval w x)" for x
    unfolding sint_signExtend [OF w, symmetric] by simp
  have full: "full = word_of_int ?S" by (simp add: full_def se)
  have "s_fits 8 ?S"
    using product_high_fits(2) [OF w, of a b] w False by (elim op_width_cases) (auto simp: s_fits_def)
  then have "sint full = ?S" unfolding full sval_8 [symmetric] by (intro sval_of_int) auto
  have "signed_drop_bit (8 * w) full = word_of_int (?S div 2 ^ (8 * w))"
    by (simp only: sdrop_word \<open>sint full = ?S\<close>)
  with False m show ?thesis
    by (auto simp: mulSigned_def Let_def and_maskWidth [OF w] mult.commute [of w 8] full_def [symmetric] full)
qed

lemma fits_iff_high:
  fixes H S :: int
  assumes "0 < H"
  shows "S div (2 * H) = (if S mod (2 * H) < H then 0 else - 1) \<longleftrightarrow> - H \<le> S \<and> S < H"
proof -
  define q r where "q = S div (2 * H)" and "r = S mod (2 * H)"
  have S: "S = q * (2 * H) + r" unfolding q_def r_def by (rule div_mult_mod_eq [symmetric])
  have r: "0 \<le> r" "r < 2 * H" using assms by (simp_all add: r_def)
  consider "q \<le> - 2" | "q = - 1" | "q = 0" | "1 \<le> q" by linarith
  then have "q = (if r < H then 0 else - 1) \<longleftrightarrow> - H \<le> S \<and> S < H"
  proof cases
    case 1
    then have "q * (2 * H) \<le> - 2 * (2 * H)" using assms by (intro mult_right_mono) auto
    then have "\<not> (- H \<le> S \<and> S < H)" using S r assms by linarith
    with 1 show ?thesis by auto
  next
    case 4
    then have "1 * (2 * H) \<le> q * (2 * H)" using assms by (intro mult_right_mono) auto
    then have "\<not> (- H \<le> S \<and> S < H)" using S r assms by linarith
    with 4 show ?thesis by auto
  qed (use S r in auto)
  then show ?thesis by (simp add: q_def r_def)
qed

lemma mulSigned_exact:
  assumes w: "op_width w" and m: "mulSigned a b w = (hi, lo)"
  shows "sval w hi * 2 ^ (8 * w) + uval w lo = sval w a * sval w b"
    "uint hi < 2 ^ (8 * w)" "uint lo < 2 ^ (8 * w)"
    "(hi \<noteq> extendSignHi lo w) = (\<not> s_fits w (sval w a * sval w b))"
proof -
  let ?S = "sval w a * sval w b" and ?M = "2 ^ (8 * w) :: int"
  note h = mulSigned_words [OF w m]
  have p: "?M = 2 * 2 ^ (8 * w - 1)" using w by (intro pow_top) (auto simp: op_width_def)
  have shi: "sval w hi = ?S div ?M"
    using h sval_of_int [OF w product_high_fits(1) [OF w]] by simp
  have ulo: "uval w lo = ?S mod ?M" using conjunct2 [OF h] by (simp only: uval_take_bit uval_of_int [OF w])
  show "sval w hi * ?M + uval w lo = ?S" unfolding shi ulo by (rule div_mult_mod_eq)
  show "uint hi < ?M" "uint lo < ?M" using h by (simp_all add: uint_take_bit_mod del: unsigned_take_bit_eq)
  have hi: "hi = take_bit (8 * w) hi" using h by simp
  have ext: "extendSignHi lo w = take_bit (8 * w) (word_of_int (if sval w lo < 0 then - 1 else 0))"
    unfolding extendSignHi_def mult.commute [of w 8] sint_signExtend [OF w]
    by (simp add: maskWidth_mask [OF w] take_bit_minus_one_eq_mask)
  have "hi = extendSignHi lo w \<longleftrightarrow> sval w hi = (if sval w lo < 0 then - 1 else 0)"
  proof
    assume "hi = extendSignHi lo w"
    then show "sval w hi = (if sval w lo < 0 then - 1 else 0)"
      unfolding ext by (simp only: sval_take_bit) (cases "sval w lo < 0"; simp only: if_True if_False sval_of_int [OF w] s_fits_small)
  next
    assume "sval w hi = (if sval w lo < 0 then - 1 else 0)"
    then show "hi = extendSignHi lo w" unfolding ext by (subst hi) (simp add: sval_word [OF w, of hi, symmetric])
  qed
  also have "\<dots> \<longleftrightarrow> s_fits w ?S"
  proof -
    have n: "sval w lo < 0 \<longleftrightarrow> \<not> ?S mod ?M < 2 ^ (8 * w - 1)" by (simp only: sval_neg [OF w] ulo not_less)
    have "(0 :: int) < 2 ^ (8 * w - 1)" by simp
    from fits_iff_high [OF this, of ?S] show ?thesis
      unfolding shi s_fits_def n p [symmetric] by (cases "?S mod ?M < 2 ^ (8 * w - 1)"; simp only: simp_thms if_True if_False)
  qed
  finally show "(hi \<noteq> extendSignHi lo w) = (\<not> s_fits w ?S)" by simp
qed

section \<open>Division\<close>

lemma uint_push_bit: "uint (push_bit n x) = uint x * 2 ^ n mod 2 ^ 64" for x :: u64
proof -
  have "uint (push_bit n x) = take_bit 64 (push_bit n (uint x))"
    by (rule bit_eqI) (auto simp: bit_simps dest: bit_u64_imp)
  then show ?thesis by (simp only: push_bit_eq_mult take_bit_eq_mod)
qed

lemma concat_uint:
  assumes "op_width w" "w \<noteq> 8"
  shows "uint (push_bit (8 * w) (take_bit (8 * w) h) OR take_bit (8 * w) l :: u64) = uval w h * 2 ^ (8 * w) + uval w l"
proof -
  let ?P = "push_bit (8 * w) (take_bit (8 * w) h)" and ?L = "take_bit (8 * w) l"
  have "?P OR ?L = ?P + ?L" by (rule disjunctive_add_eq_or [symmetric]) (auto intro!: bit_word_eqI simp: bit_simps)
  moreover have "uint ?P = uval w h * 2 ^ (8 * w)"
  proof -
    have "uval w h * 2 ^ (8 * w) < 2 ^ (8 * w) * 2 ^ (8 * w)" using uval_range [of w h] by simp
    also note width_small [OF assms]
    finally have "uval w h * 2 ^ (8 * w) < 2 ^ 64" .
    moreover have "uint ?P = (uval w h * 2 ^ (8 * w)) mod 2 ^ 64"
      unfolding uint_push_bit uint_take_bit_uval ..
    ultimately show ?thesis using uval_range(1) [of w h] by (simp add: mod_pos_pos_trivial)
  qed
  moreover have "uint (?P + ?L) = (uint ?P + uint ?L) mod 2 ^ 64" by (simp add: uint_word_ariths)
  moreover have "uval w h * 2 ^ (8 * w) + uval w l < 2 ^ 64"
  proof -
    have "uval w h * 2 ^ (8 * w) \<le> (2 ^ (8 * w) - 1) * 2 ^ (8 * w)"
      using uval_range(2) [of w h] by (intro mult_right_mono) auto
    then show ?thesis using uval_range(2) [of w l] width_small [OF assms] by (simp add: algebra_simps)
  qed
  ultimately show ?thesis
    using uval_range(1) [of w h] uval_range(1) [of w l] by (simp add: uint_take_bit_uval mod_pos_pos_trivial del: unsigned_take_bit_eq)
qed

lemma high_less_iff:
  fixes h d l M :: int
  assumes "0 \<le> h" "0 < d" "0 \<le> l" "l < M"
  shows "h < d \<longleftrightarrow> (h * M + l) div d < M"
proof
  assume "h < d"
  then have "(h + 1) * M \<le> d * M" using assms by (intro mult_right_mono) auto
  then have "h * M + l < M * d" using assms by (simp add: algebra_simps)
  then show "(h * M + l) div d < M" using assms(2) by (rule int_div_lt)
next
  assume lt: "(h * M + l) div d < M"
  show "h < d"
  proof (rule ccontr)
    assume "\<not> h < d"
    then have "M * d \<le> h * M" using assms by (simp add: mult.commute mult_right_mono)
    then have "M * d \<le> h * M + l" using assms(3) by linarith
    then have "M * d div d \<le> (h * M + l) div d" using assms(2) by (intro zdiv_mono1)
    with lt assms(2) show False by simp
  qed
qed

lemma divUnsigned_exact:
  fixes h l d :: u64
  assumes w: "op_width w" and d: "uval w d \<noteq> 0"
  defines "D \<equiv> uval w h * 2 ^ (8 * w) + uval w l"
  shows "divUnsigned h l d w =
    (if D div uval w d < 2 ^ (8 * w) then Inr (word_of_int (D div uval w d), word_of_int (D mod uval w d))
     else Inl DivOverflow)"
proof (cases "w = 8")
  case True
  have "d \<le> h \<longleftrightarrow> \<not> uint h < uint d" by (simp add: word_le_def not_less)
  also have "\<dots> \<longleftrightarrow> \<not> D div uint d < 2 ^ 64"
    using high_less_iff [of "uint h" "uint d" "uint l" "2 ^ 64"] d uint_lt2p [of l] True
    by (simp add: D_def uval_8 order_less_le)
  finally show ?thesis
    using True by (simp add: divUnsigned_def Let_def maskWidth_def Div64_def D_def uval_8)
next
  case False
  define full where "full = (push_bit (8 * w) (take_bit (8 * w) h) OR take_bit (8 * w) l :: u64)"
  let ?d = "take_bit (8 * w) d"
  have full: "uint full = D" unfolding full_def D_def by (rule concat_uint [OF w False])
  have ud: "uint ?d = uval w d" by (rule uint_take_bit_uval)
  have "uint (full div ?d) = D div uval w d" "uint (full mod ?d) = D mod uval w d"
    by (simp_all only: uint_div_distrib uint_mod_distrib full ud)
  moreover have "full div ?d > mask (8 * w) \<longleftrightarrow> \<not> uint (full div ?d) < 2 ^ (8 * w)"
    using w by (auto simp: word_less_def uint_mask_u64 op_width_def)
  moreover have "?d \<noteq> 0" using d ud by auto
  moreover have "full div ?d = word_of_int (uint (full div ?d))" "full mod ?d = word_of_int (uint (full mod ?d))" by simp_all
  ultimately show ?thesis
    using False
    unfolding divUnsigned_def Let_def and_maskWidth [OF w] mult.commute [of w 8]
    unfolding maskWidth_mask [OF w] full_def [symmetric] by (simp del: of_int_uint)
qed

lemma sdiv_self_bounds:
  fixes x y :: int
  assumes "y \<noteq> 0"
  shows "x sdiv y * y + x smod y = x" "\<bar>x smod y\<bar> < \<bar>y\<bar>" "\<bar>x smod y\<bar> \<le> \<bar>x\<bar>"
proof -
  show "x sdiv y * y + x smod y = x" by (rule sdiv_mult_smod_eq)
  have "\<bar>x smod y\<bar> = \<bar>x\<bar> mod \<bar>y\<bar>" using assms by (cases "x = 0") (simp_all add: signed_modulo_int_def abs_mult abs_sgn_eq abs_of_nonneg)
  then show "\<bar>x smod y\<bar> < \<bar>y\<bar>" "\<bar>x smod y\<bar> \<le> \<bar>x\<bar>" using assms by (simp_all add: zmod_le_nonneg_dividend)
qed

lemma raw_dividend:
  assumes w: "op_width w" and w8: "w \<noteq> 8"
  shows "sint (signExtend (push_bit (8 * w) (take_bit (8 * w) h) OR take_bit (8 * w) l) (16 * w)) =
    sval w h * 2 ^ (8 * w) + uval w l"
proof -
  let ?raw = "push_bit (8 * w) (take_bit (8 * w) h) OR take_bit (8 * w) l" and ?M = "2 ^ (8 * w) :: int"
  have w2: "op_width (2 * w)" using w w8 by (auto simp: op_width_def)
  have MM: "(2 :: int) ^ (8 * (2 * w)) = ?M * ?M" by (simp add: power_add [symmetric])
  have p: "?M = 2 * 2 ^ (8 * w - 1)" using w by (intro pow_top) (auto simp: op_width_def)
  have H: "(2 :: int) ^ (8 * (2 * w) - 1) = 2 ^ (8 * w - 1) * ?M"
    using w by (auto simp: power_add [symmetric] op_width_def)
  have raw: "uint ?raw = uval w h * ?M + uval w l" by (rule concat_uint [OF w w8])
  have "uval w h * ?M + uval w l < ?M * ?M"
  proof -
    have "uval w h * ?M \<le> (?M - 1) * ?M" using uval_range(2) [of w h] by (intro mult_right_mono) auto
    then show ?thesis using uval_range(2) [of w l] by (simp add: algebra_simps)
  qed
  then have u: "uval (2 * w) ?raw = uval w h * ?M + uval w l"
    unfolding uval_def [of "2 * w"] raw MM using uval_range(1) [of w h] uval_range(1) [of w l] by (intro mod_pos_pos_trivial) auto
  have "uval w h * ?M + uval w l < 2 ^ (8 * w - 1) * ?M \<longleftrightarrow> uval w h < 2 ^ (8 * w - 1)"
  proof
    assume "uval w h * ?M + uval w l < 2 ^ (8 * w - 1) * ?M"
    then have "uval w h * ?M < 2 ^ (8 * w - 1) * ?M" using uval_range(1) [of w l] by linarith
    then show "uval w h < 2 ^ (8 * w - 1)" by (rule mult_right_less_imp_less) simp
  next
    assume "uval w h < 2 ^ (8 * w - 1)"
    then have "uval w h * ?M \<le> (2 ^ (8 * w - 1) - 1) * ?M" by (intro mult_right_mono) auto
    then show "uval w h * ?M + uval w l < 2 ^ (8 * w - 1) * ?M" using uval_range(2) [of w l] by (simp add: algebra_simps)
  qed
  then have "sval (2 * w) ?raw = sval w h * ?M + uval w l"
    unfolding sval_def u H MM by (auto simp: algebra_simps)
  moreover have "16 * w = 8 * (2 * w)" by simp
  ultimately show ?thesis using sint_signExtend [OF w2, of ?raw] by simp
qed

lemma divSigned_words:
  assumes w: "op_width w" and w8: "w \<noteq> 8" and d: "sval w d \<noteq> 0"
  shows "divSigned h l d w =
    Inr (take_bit (8 * w) (word_of_int ((sval w h * 2 ^ (8 * w) + uval w l) sdiv sval w d)),
         take_bit (8 * w) (word_of_int ((sval w h * 2 ^ (8 * w) + uval w l) smod sval w d)))"
proof -
  have "d \<noteq> 0" "signExtend d (8 * w) \<noteq> 0" using d sint_signExtend [OF w, of d] by (auto simp: sval_def uval_def)
  moreover have "w * 8 = 8 * w" "w * 16 = 16 * w" by simp_all
  ultimately show ?thesis
    using w8 unfolding divSigned_def Let_def and_maskWidth [OF w]
    by (simp only: go_div_def go_mod_def raw_dividend [OF w w8] sint_signExtend [OF w] if_False)
qed

lemma divSigned_64:
  assumes "d \<noteq> 0" "h = (if sint l < 0 then NOT 0 else 0)"
  shows "divSigned h l d 8 = Inr (word_of_int (sint l sdiv sint d), word_of_int (sint l smod sint d))"
  using assms by (simp add: divSigned_def go_div_def go_mod_def)

section \<open>Properties of the arithmetic routines\<close>

text \<open>
  C14. MUL and IMUL at every width produce the exact double-width product: the high and low halves,
  each of which fits the width, recombine to the unsigned or the signed product of the operands, so
  they are its upper and lower half; and the IMUL overflow test (the high half is not the sign
  extension of the low one) holds exactly when the signed product does not fit the width.
\<close>

theorem mul_exact:
  assumes "op_width w"
  shows "uint (fst (mulUnsigned a b w)) * 2 ^ (8 * w) + uint (snd (mulUnsigned a b w)) = uval w a * uval w b \<and>
    uint (fst (mulUnsigned a b w)) < 2 ^ (8 * w) \<and> uint (snd (mulUnsigned a b w)) < 2 ^ (8 * w) \<and>
    sval w (fst (mulSigned a b w)) * 2 ^ (8 * w) + uval w (snd (mulSigned a b w)) = sval w a * sval w b \<and>
    uint (fst (mulSigned a b w)) < 2 ^ (8 * w) \<and> uint (snd (mulSigned a b w)) < 2 ^ (8 * w) \<and>
    (fst (mulSigned a b w) \<noteq> extendSignHi (snd (mulSigned a b w)) w) = (\<not> s_fits w (sval w a * sval w b))"
  using mulUnsigned_exact [OF assms prod.collapse [symmetric]] mulSigned_exact [OF assms prod.collapse [symmetric]] by blast

theorem mul_exact_witness:
  "uint (fst (mulUnsigned 0xFF 0xFF 1)) * 256 + uint (snd (mulUnsigned 0xFF 0xFF 1)) = 0xFE01"
  using mul_exact [of 1 "0xFF" "0xFF"] by (simp add: uval_def)

text \<open>
  DIV at every width: with a non-zero divisor it returns the quotient and the remainder of the
  double-width dividend exactly when the quotient fits the width, and the overflow error otherwise.
  IDIV below 64 bits returns quotient and remainder of the truncated signed division, each cut to
  the width; the remainder is always exact, the quotient is when it fits.
\<close>

theorem div_exact:
  assumes "op_width w" "uval w d \<noteq> 0"
  shows "divUnsigned h l d w =
      (let D = uval w h * 2 ^ (8 * w) + uval w l in
       if D div uval w d < 2 ^ (8 * w) then Inr (word_of_int (D div uval w d), word_of_int (D mod uval w d))
       else Inl DivOverflow) \<and>
    (w \<noteq> 8 \<longrightarrow> (\<exists>q r. divSigned h l d w = Inr (q, r) \<and>
       (let D = sval w h * 2 ^ (8 * w) + uval w l in
        sval w r = D smod sval w d \<and> (s_fits w (D sdiv sval w d) \<longrightarrow> sval w q = D sdiv sval w d))))"
proof -
  let ?D = "sval w h * 2 ^ (8 * w) + uval w l"
  have d: "sval w d \<noteq> 0" using assms sval_inj [OF assms(1), of d 0] by (auto simp: sval_def uval_def split: if_splits)
  have "s_fits w (?D smod sval w d)"
    using sdiv_self_bounds(2) [OF d, of ?D] sval_range [OF assms(1), of d] unfolding s_fits_def by linarith
  then have "sval w (take_bit (8 * w) (word_of_int (?D smod sval w d))) = ?D smod sval w d"
    by (simp only: sval_take_bit sval_of_int [OF assms(1)])
  moreover have "sval w (take_bit (8 * w) (word_of_int (?D sdiv sval w d))) = ?D sdiv sval w d" if "s_fits w (?D sdiv sval w d)"
    using that by (simp only: sval_take_bit sval_of_int [OF assms(1)])
  ultimately show ?thesis
    using divUnsigned_exact [OF assms] divSigned_words [OF assms(1) _ d] by (auto simp: Let_def)
qed

theorem div_exact_witness:
  "divUnsigned 1 0x05 2 1 = Inr (0x82, 1) \<and> divUnsigned 2 0 2 1 = Inl DivOverflow"
  using div_exact [of 1 2 1 "0x05"] div_exact [of 1 2 2 0] by (simp add: uval_def)

text \<open>IDIV below 64 bits never reports that the quotient does not fit; it returns a truncated one.\<close>

lemma idiv_overflow_silent: "divSigned 1 0 1 1 = Inr (0, 0)"
  using divSigned_words [of 1 1 1 0] by (simp add: sval_def uval_def signed_divide_int_def signed_modulo_int_def)

text \<open>
  The 64-bit form divides the low half alone, as a signed number, whatever the high half is among
  0 and -1: with high half 0 and the top bit of the low half set, the dividend 2^63 is taken for
  -2^63.
\<close>

lemma idiv64_wrong_sign: "divSigned 0 0x8000000000000000 2 8 = Inr (0xC000000000000000, 0)"
  by (simp add: divSigned_def go_div_def go_mod_def signed_divide_int_def signed_modulo_int_def)

section \<open>The stack\<close>

text \<open>
  A push that succeeds lowers RSP by eight and stores the value there; when the eight bytes may
  be read, a pop right after it returns the value and restores RSP, and no other register changes.
\<close>

theorem push_pop:
  assumes "mem_wf (c_mem c)" "push64 v c = (Inr (), c')"
    "\<forall>i<8. accessible (c_mem c) ProtRead (r_gpr (c_regs c) 4 - 8 + of_nat i)"
  shows "r_gpr (c_regs c') 4 = r_gpr (c_regs c) 4 - 8 \<and> (\<forall>j. j \<noteq> 4 \<longrightarrow> r_gpr (c_regs c') j = r_gpr (c_regs c) j) \<and>
    (\<exists>c''. pop64 c' = (Inr v, c'') \<and> c_regs c'' = c_regs c)"
proof -
  let ?sp = "r_gpr (c_regs c) 4 - 8"
  have len: "length (u64ToLE v 8) \<le> 18446744073709551616" by simp
  obtain m' where m': "writeChecked ?sp (u64ToLE v 8) ProtWrite (c_mem c) = (Inr (), m')"
    "c' = c\<lparr>c_mem := m', c_regs := set_gpr 4 ?sp (c_regs c)\<rparr>"
    using assms(2) by (auto simp: push64_def on_mem_def bindE_def split: prod.splits sum.splits)
  have "\<exists>p b. mem_at (c_mem c) (?sp + of_nat i) = Some (p, b) \<and> p AND ProtRead \<noteq> 0" if "i < length (u64ToLE v 8)" for i
    using assms(3) that by (auto simp: accessible_def split: option.splits)
  from checked.wr_rd [OF assms(1) len m'(1) this] obtain m'' where
    "readChecked ?sp 8 ProtRead m' = (Inr (u64ToLE v 8), m'')" by auto
  then have "pop64 c' = (Inr v, c'\<lparr>c_mem := m'', c_regs := set_gpr 4 (?sp + 8) (c_regs c')\<rparr>)"
    by (simp add: pop64_def on_mem_def m'(2) le_roundtrip)
  then show ?thesis by (simp add: m'(2) set_gpr_def)
qed

theorem push_pop_witness:
  "\<exists>c' c''. push64 0x1122334455667788 (demo_cpu\<lparr>c_regs := set_gpr 4 0x2000 newRegisters\<rparr>) = (Inr (), c') \<and>
     pop64 c' = (Inr 0x1122334455667788, c'')"
proof -
  let ?c = "demo_cpu\<lparr>c_regs := set_gpr 4 0x2000 newRegisters\<rparr>" and ?v = "0x1122334455667788 :: u64"
  have mem: "c_mem ?c = demo_mem" and sp: "r_gpr (c_regs ?c) 4 - 8 = 8184"
    by (simp_all add: demo_cpu_def)
  have acc: "accessible demo_mem req (8184 + of_nat i)" if "i < 8" "req = ProtRead \<or> req = ProtWrite" for i req
    using demo_mem_accessible [of "4088 + i"] that by auto
  obtain m' where "writeChecked 8184 (u64ToLE ?v 8) ProtWrite demo_mem = (Inr (), m')"
    using writeChecked_ok [OF demo_mem_wf, of "u64ToLE ?v 8" ProtWrite 8184] acc by auto
  then have wr: "push64 ?v ?c = (Inr (), ?c\<lparr>c_mem := m', c_regs := set_gpr 4 8184 (c_regs ?c)\<rparr>)"
    by (simp add: push64_def on_mem_apply mem sp)
  from push_pop [OF demo_mem_wf [folded mem] wr] show ?thesis
    using acc wr unfolding sp mem by blast
qed

section \<open>REP STOS and REP MOVS\<close>

text \<open>Two adjacent runs of bytes stored one after the other are one run.\<close>

lemma upd_at_adjacent:
  assumes "length xs + length ys \<le> 18446744073709551616"
  shows "upd_at (a + of_nat (length xs)) ys 0 (length ys) (upd_at a xs 0 (length xs) f) = upd_at a (xs @ ys) 0 (length (xs @ ys)) f"
proof (cases "ys = []")
  case False
  show ?thesis
  proof (rule ext)
    fix x
    define i where "i = unat (x - a)"
    have "length xs < 2 ^ 64" using assms False by (cases ys) auto
    then have "unat (of_nat (length xs) :: u64) = length xs" by (intro unat_of_nat_small) simp
    then have sh: "unat (x - (a + of_nat (length xs))) = (if length xs \<le> i then i - length xs else i + 2 ^ 64 - length xs)"
      using unat_sub_if' [of "x - a" "of_nat (length xs)"] by (simp add: i_def diff_diff_eq)
    show "upd_at (a + of_nat (length xs)) ys 0 (length ys) (upd_at a xs 0 (length xs) f) x = upd_at a (xs @ ys) 0 (length (xs @ ys)) f x"
      unfolding upd_at_def Let_def sh i_def [symmetric] using assms by (auto simp: nth_append)
  qed
qed simp

text \<open>The registers a string instruction leaves after \<open>n\<close> steps of \<open>delta\<close>.\<close>

definition str_regs :: "bool \<Rightarrow> bool \<Rightarrow> repKind \<Rightarrow> u64 \<Rightarrow> nat \<Rightarrow> registers \<Rightarrow> registers" where
  "str_regs si di rep delta n r =
     (let r1 = (if si then set_gpr RegRSI (r_gpr r RegRSI + of_nat n * delta) r else r);
          r2 = (if di then set_gpr RegRDI (r_gpr r1 RegRDI + of_nat n * delta) r1 else r1)
      in if rep \<noteq> repNone then set_gpr RegRCX (r_gpr r2 RegRCX - of_nat n) r2 else r2)"

lemma str_regs_0 [simp]: "str_regs si di rep delta 0 r = r"
  by (simp add: str_regs_def Let_def set_gpr_def)

lemma str_regs_Suc: "str_regs si di rep delta n (str_regs si di rep delta 1 r) = str_regs si di rep delta (Suc n) r"
  by (auto simp: str_regs_def Let_def set_gpr_def algebra_simps fun_eq_iff intro!: registers.equality)

lemma str_regs_RDI: "r_gpr (str_regs si True rep delta n r) 7 = r_gpr r 7 + of_nat n * delta"
  by (simp add: str_regs_def Let_def)

lemma str_regs_RSI: "r_gpr (str_regs True di rep delta n r) 6 = r_gpr r 6 + of_nat n * delta"
  by (simp add: str_regs_def Let_def)

lemma rep_loop_step: "body c = (Inr False, c1) \<Longrightarrow> rep_loop (Suc n) body c = rep_loop n body c1"
  by (simp add: bindE_def)

lemma stos_step:
  assumes "writeChecked (r_gpr (c_regs c) 7) buf ProtWrite (c_mem c) = (Inr (), m')"
  shows "stos_body buf rep delta c = (Inr False, c\<lparr>c_mem := m', c_regs := str_regs False True rep delta 1 (c_regs c)\<rparr>)"
  using assms by (simp add: stos_body_def on_mem_apply add_gpr_def dec_rcx_def str_regs_def Let_def set_gpr_def)

lemma stos_loop:
  assumes "mem_wf (c_mem c)" "n * length buf \<le> 18446744073709551616"
    "\<And>i. i < n * length buf \<Longrightarrow> accessible (c_mem c) ProtWrite (r_gpr (c_regs c) 7 + of_nat i)"
  shows "\<exists>m'. rep_loop n (stos_body buf rep (of_nat (length buf))) c =
      (Inr (), c\<lparr>c_mem := m', c_regs := str_regs False True rep (of_nat (length buf)) n (c_regs c)\<rparr>) \<and> mem_wf m' \<and>
      mem_at m' = upd_at (r_gpr (c_regs c) 7) (concat (replicate n buf)) 0 (n * length buf) (mem_at (c_mem c))"
  using assms
proof (induction n arbitrary: c)
  case 0
  then show ?case by (intro exI [of _ "c_mem c"]) simp
next
  case (Suc n)
  let ?a = "r_gpr (c_regs c) 7" and ?d = "of_nat (length buf) :: u64"
  have len: "length buf \<le> 18446744073709551616" using Suc.prems(2) by simp
  obtain m1 where m1: "writeChecked ?a buf ProtWrite (c_mem c) = (Inr (), m1)" "mem_wf m1"
    "mem_at m1 = upd_at ?a buf 0 (length buf) (mem_at (c_mem c))"
    using writeChecked_ok [OF Suc.prems(1) len, of ProtWrite ?a] Suc.prems(3) by auto
  define c1 where "c1 = c\<lparr>c_mem := m1, c_regs := str_regs False True rep ?d 1 (c_regs c)\<rparr>"
  have a1: "r_gpr (c_regs c1) 7 = ?a + ?d" by (simp add: c1_def str_regs_RDI)
  have acc: "accessible m1 ProtWrite (?a + ?d + of_nat i)" if "i < n * length buf" for i
    using Suc.prems(3) [of "length buf + i"] that by (simp add: accessible_def m1(3) upd_at_accessible add.assoc)
  obtain m' where "rep_loop n (stos_body buf rep ?d) c1 =
      (Inr (), c1\<lparr>c_mem := m', c_regs := str_regs False True rep ?d n (c_regs c1)\<rparr>)" "mem_wf m'"
      "mem_at m' = upd_at (?a + ?d) (concat (replicate n buf)) 0 (n * length buf) (mem_at m1)"
    using Suc.IH [of c1] m1(2) acc Suc.prems(2) unfolding a1 by (auto simp: c1_def)
  moreover have "length buf + length (concat (replicate n buf)) \<le> 18446744073709551616"
    using Suc.prems(2) by (simp add: length_concat sum_list_replicate)
  moreover have "rep_loop (Suc n) (stos_body buf rep ?d) c = rep_loop n (stos_body buf rep ?d) c1"
    by (rule rep_loop_step) (simp only: stos_step [OF m1(1)] c1_def)
  ultimately show ?case
    using upd_at_adjacent [of buf "concat (replicate n buf)" ?a "mem_at (c_mem c)"]
    by (intro exI [of _ m'])
       (simp del: rep_loop.simps add: c1_def m1(3) str_regs_Suc [unfolded One_nat_def] length_concat sum_list_replicate)
qed

lemma movs_step:
  assumes "readChecked (r_gpr (c_regs c) 6) w ProtRead (c_mem c) = (Inr buf, m1)"
    "writeChecked (r_gpr (c_regs c) 7) buf ProtWrite m1 = (Inr (), m')"
  shows "movs_body w rep delta c = (Inr False, c\<lparr>c_mem := m', c_regs := str_regs True True rep delta 1 (c_regs c)\<rparr>)"
  using assms
  by (auto simp: movs_body_def on_mem_apply add_gpr_def dec_rcx_def str_regs_def Let_def set_gpr_def
      fun_eq_iff intro!: registers.equality)

lemma mem_bytes_add: "mem_bytes m a (k + n) = mem_bytes m a k @ mem_bytes m (a + of_nat k) n"
proof -
  have "[0..<k + n] = [0..<k] @ map (\<lambda>i. i + k) [0..<n]"
    by (simp add: map_add_upt upt_add_eq_append [of 0 k n] add.commute)
  then show ?thesis by (simp add: mem_bytes_def add_ac)
qed

lemma mem_bytes_upd:
  assumes "mem_at m' = upd_at a bs 0 (length bs) (mem_at m)" "\<And>i. i < n \<Longrightarrow> length bs \<le> unat (b + of_nat i - a)"
  shows "mem_bytes m' b n = mem_bytes m b n"
  unfolding mem_bytes_def mem_byte_def assms(1) upd_at_def Let_def using assms(2) by (fastforce simp: not_less)

lemma movs_loop:
  assumes "mem_wf (c_mem c)" "n * w \<le> 18446744073709551616"
    "\<And>i. i < n * w \<Longrightarrow> accessible (c_mem c) ProtRead (r_gpr (c_regs c) 6 + of_nat i)"
    "\<And>i. i < n * w \<Longrightarrow> accessible (c_mem c) ProtWrite (r_gpr (c_regs c) 7 + of_nat i)"
    "\<And>i. i < n * w \<Longrightarrow> n * w \<le> unat (r_gpr (c_regs c) 6 + of_nat i - r_gpr (c_regs c) 7)"
  shows "\<exists>m'. rep_loop n (movs_body w rep (of_nat w)) c =
      (Inr (), c\<lparr>c_mem := m', c_regs := str_regs True True rep (of_nat w) n (c_regs c)\<rparr>) \<and> mem_wf m' \<and>
      mem_at m' = upd_at (r_gpr (c_regs c) 7) (mem_bytes (c_mem c) (r_gpr (c_regs c) 6) (n * w)) 0 (n * w) (mem_at (c_mem c))"
  using assms
proof (induction n arbitrary: c)
  case 0
  then show ?case by (intro exI [of _ "c_mem c"]) simp
next
  case (Suc n)
  let ?s = "r_gpr (c_regs c) 6" and ?a = "r_gpr (c_regs c) 7" and ?d = "of_nat w :: u64"
  let ?buf = "mem_bytes (c_mem c) ?s w"
  have len: "length ?buf \<le> 18446744073709551616" using Suc.prems(2) by simp
  have "fault_index (c_mem c) ProtRead ?s 0 w = None" using Suc.prems(3) by (simp add: fault_index_None)
  then obtain m0 where m0: "readChecked ?s w ProtRead (c_mem c) = (Inr ?buf, m0)" "mem_wf m0" "same_core (c_mem c) m0"
    using readChecked_spec [OF Suc.prems(1), of ?s w ProtRead] by auto
  obtain m1 where m1: "writeChecked ?a ?buf ProtWrite m0 = (Inr (), m1)" "mem_wf m1"
    "mem_at m1 = upd_at ?a ?buf 0 (length ?buf) (mem_at (c_mem c))"
    using writeChecked_ok [OF m0(2) len, of ProtWrite ?a] Suc.prems(4) m0(3) 
    by (auto simp: same_core_accessible same_core_mem_at)
  define c1 where "c1 = c\<lparr>c_mem := m1, c_regs := str_regs True True rep ?d 1 (c_regs c)\<rparr>"
  have a1: "r_gpr (c_regs c1) 7 = ?a + ?d" "r_gpr (c_regs c1) 6 = ?s + ?d" "c_mem c1 = m1"
    by (simp_all add: c1_def str_regs_RDI str_regs_RSI)
  have sh: "(x + ?d) + of_nat i = x + of_nat (w + i)" for x i by simp
  have acc: "accessible m1 = accessible (c_mem c)" by (rule upd_at_accessible [OF m1(3)])
  have far: "Suc n * w \<le> unat (?s + of_nat i - ?a)" if "i < Suc n * w" for i by (rule Suc.prems(5) [OF that])
  have bytes: "mem_bytes m1 (?s + ?d) (n * w) = mem_bytes (c_mem c) (?s + ?d) (n * w)"
  proof (rule mem_bytes_upd [OF m1(3)])
    fix i assume "i < n * w"
    then show "length ?buf \<le> unat (?s + ?d + of_nat i - ?a)" using far [of "w + i"] by (simp add: add.assoc)
  qed
  have far1: "n * w \<le> unat (?s + ?d + of_nat i - (?a + ?d))" if "i < n * w" for i
    using far [of i] that by (simp add: algebra_simps)
  obtain m' where "rep_loop n (movs_body w rep ?d) c1 =
      (Inr (), c1\<lparr>c_mem := m', c_regs := str_regs True True rep ?d n (c_regs c1)\<rparr>)" "mem_wf m'"
      "mem_at m' = upd_at (?a + ?d) (mem_bytes (c_mem c) (?s + ?d) (n * w)) 0 (n * w) (mem_at m1)"
  proof -
    have prem: "n * w \<le> 18446744073709551616" using Suc.prems(2) by simp
    have rd: "accessible (c_mem c) ProtRead (?s + ?d + of_nat i)" "accessible (c_mem c) ProtWrite (?a + ?d + of_nat i)"
      if "i < n * w" for i
      using Suc.prems(3) [of "w + i"] Suc.prems(4) [of "w + i"] that by (simp_all add: add.assoc)
    show thesis
      using Suc.IH [of c1] m1(2) prem rd far1 that unfolding a1 acc bytes by blast
  qed
  moreover have "length ?buf + length (mem_bytes (c_mem c) (?s + ?d) (n * w)) \<le> 18446744073709551616"
    using Suc.prems(2) by simp
  moreover have "rep_loop (Suc n) (movs_body w rep ?d) c = rep_loop n (movs_body w rep ?d) c1"
    by (rule rep_loop_step) (simp only: movs_step [OF m0(1) m1(1)] c1_def)
  ultimately show ?case
    using upd_at_adjacent [of ?buf "mem_bytes (c_mem c) (?s + ?d) (n * w)" ?a "mem_at (c_mem c)"]
    by (intro exI [of _ m']) (simp del: rep_loop.simps add: c1_def m1(3) str_regs_Suc [unfolded One_nat_def] mem_bytes_add)
qed

text \<open>
  With the direction flag clear, REP STOS is a memory fill: when the RCX * w bytes from RDI may
  be written it succeeds, those bytes become RCX copies of the low w bytes of the accumulator and no
  other byte changes, RDI moves past them and RCX ends at zero.
\<close>

theorem rep_stos_fills:
  assumes "mem_wf (c_mem c)" "op_width w" "rep \<noteq> repNone" "\<not> flag flagDF (c_regs c)"
    "n = unat (r_gpr (c_regs c) 1)" "n * w \<le> 18446744073709551616"
    "\<forall>i<n * w. accessible (c_mem c) ProtWrite (r_gpr (c_regs c) 7 + of_nat i)"
  shows "\<exists>c'. strStos w rep rex c = (Inr (), c') \<and>
    mem_at (c_mem c') = upd_at (r_gpr (c_regs c) 7)
      (concat (replicate n (u64ToLE (readWidth 0 w rex (c_regs c)) w))) 0 (n * w) (mem_at (c_mem c)) \<and>
    c_regs c' = set_gpr 1 0 (set_gpr 7 (r_gpr (c_regs c) 7 + of_nat (n * w)) (c_regs c))"
proof -
  let ?buf = "u64ToLE (readWidth 0 w rex (c_regs c)) w"
  have run: "strStos w rep rex c = rep_loop n (stos_body ?buf rep (of_nat w)) c"
    using assms(3-5) by (simp add: strStos_def rep_run_def strIndexDelta_def repIterations_def)
  obtain m' where "rep_loop n (stos_body ?buf rep (of_nat w)) c =
      (Inr (), c\<lparr>c_mem := m', c_regs := str_regs False True rep (of_nat w) n (c_regs c)\<rparr>)"
      "mem_at m' = upd_at (r_gpr (c_regs c) 7) (concat (replicate n ?buf)) 0 (n * w) (mem_at (c_mem c))"
    using stos_loop [OF assms(1), of n ?buf rep] assms(6,7) by auto
  moreover have "str_regs False True rep (of_nat w) n (c_regs c) =
      set_gpr 1 0 (set_gpr 7 (r_gpr (c_regs c) 7 + of_nat (n * w)) (c_regs c))"
    using assms(3,5) by (simp add: str_regs_def Let_def)
  ultimately show ?thesis unfolding run by simp
qed

definition stos_demo :: cpu where
  "stos_demo = demo_cpu\<lparr>c_regs := set_gpr 0 0xAB (set_gpr 1 3 (set_gpr 7 0x1FFE newRegisters))\<rparr>"

theorem rep_stos_fills_witness:
  "\<exists>c'. strStos 1 repZ False stos_demo = (Inr (), c') \<and> r_gpr (c_regs c') 1 = 0 \<and> r_gpr (c_regs c') 7 = 0x2001"
proof -
  have mem: "c_mem stos_demo = demo_mem" and r: "r_gpr (c_regs stos_demo) 7 = 8190" "r_gpr (c_regs stos_demo) 1 = 3"
      "\<not> flag flagDF (c_regs stos_demo)"
    by (simp_all add: stos_demo_def demo_cpu_def flag_def newRegisters_def)
  have acc: "\<forall>i<3 * 1. accessible (c_mem stos_demo) ProtWrite (r_gpr (c_regs stos_demo) 7 + of_nat i)"
  proof (intro allI impI)
    fix i :: nat assume "i < 3 * 1"
    then show "accessible (c_mem stos_demo) ProtWrite (r_gpr (c_regs stos_demo) 7 + of_nat i)"
      using demo_mem_accessible [of "4094 + i"] by (simp add: mem r)
  qed
  from rep_stos_fills [OF demo_mem_wf [folded mem] _ _ r(3) _ _ acc, of repZ False] show ?thesis
    by (auto simp: r r(2) [unfolded One_nat_def])
qed

text \<open>
  With the direction flag clear, REP MOVS between disjoint runs is a block copy: when the source
  may be read and the destination written it succeeds, the destination holds the RCX * w bytes the
  source held, no other byte changes, RSI and RDI move past their runs and RCX ends at zero.
\<close>

theorem rep_movs_copies:
  assumes "mem_wf (c_mem c)" "op_width w" "rep \<noteq> repNone" "\<not> flag flagDF (c_regs c)"
    "n = unat (r_gpr (c_regs c) 1)" "n * w \<le> 18446744073709551616"
    "\<forall>i<n * w. accessible (c_mem c) ProtRead (r_gpr (c_regs c) 6 + of_nat i) \<and>
       accessible (c_mem c) ProtWrite (r_gpr (c_regs c) 7 + of_nat i) \<and>
       n * w \<le> unat (r_gpr (c_regs c) 6 + of_nat i - r_gpr (c_regs c) 7)"
  shows "\<exists>c'. strMovs w rep c = (Inr (), c') \<and>
    mem_at (c_mem c') = upd_at (r_gpr (c_regs c) 7)
      (mem_bytes (c_mem c) (r_gpr (c_regs c) 6) (n * w)) 0 (n * w) (mem_at (c_mem c)) \<and>
    c_regs c' = set_gpr 1 0 (set_gpr 7 (r_gpr (c_regs c) 7 + of_nat (n * w))
      (set_gpr 6 (r_gpr (c_regs c) 6 + of_nat (n * w)) (c_regs c)))"
proof -
  have run: "strMovs w rep c = rep_loop n (movs_body w rep (of_nat w)) c"
    using assms(3-5) by (simp add: strMovs_def rep_run_def strIndexDelta_def repIterations_def)
  obtain m' where "rep_loop n (movs_body w rep (of_nat w)) c =
      (Inr (), c\<lparr>c_mem := m', c_regs := str_regs True True rep (of_nat w) n (c_regs c)\<rparr>)"
      "mem_at m' = upd_at (r_gpr (c_regs c) 7) (mem_bytes (c_mem c) (r_gpr (c_regs c) 6) (n * w)) 0 (n * w) (mem_at (c_mem c))"
    using movs_loop [OF assms(1,6), of rep] assms(7) by auto
  moreover have "str_regs True True rep (of_nat w) n (c_regs c) =
      set_gpr 1 0 (set_gpr 7 (r_gpr (c_regs c) 7 + of_nat (n * w))
        (set_gpr 6 (r_gpr (c_regs c) 6 + of_nat (n * w)) (c_regs c)))"
    using assms(3,5) by (simp add: str_regs_def Let_def)
  ultimately show ?thesis unfolding run by simp
qed

definition movs_demo :: cpu where
  "movs_demo = demo_cpu\<lparr>c_regs := set_gpr 1 2 (set_gpr 6 0x1000 (set_gpr 7 0x2000 newRegisters))\<rparr>"

theorem rep_movs_copies_witness:
  "\<exists>c'. strMovs 8 repZ movs_demo = (Inr (), c') \<and> r_gpr (c_regs c') 6 = 0x1010 \<and> r_gpr (c_regs c') 7 = 0x2010"
proof -
  have mem: "c_mem movs_demo = demo_mem" and r: "r_gpr (c_regs movs_demo) 6 = 4096" "r_gpr (c_regs movs_demo) 7 = 8192"
      "r_gpr (c_regs movs_demo) 1 = 2" "\<not> flag flagDF (c_regs movs_demo)"
    by (simp_all add: movs_demo_def demo_cpu_def flag_def newRegisters_def)
  have ok: "\<forall>i<2 * 8. accessible (c_mem movs_demo) ProtRead (r_gpr (c_regs movs_demo) 6 + of_nat i) \<and>
       accessible (c_mem movs_demo) ProtWrite (r_gpr (c_regs movs_demo) 7 + of_nat i) \<and>
       2 * 8 \<le> unat (r_gpr (c_regs movs_demo) 6 + of_nat i - r_gpr (c_regs movs_demo) 7)"
  proof (intro allI impI)
    fix i :: nat assume i: "i < 2 * 8"
    have "unat (of_nat i - 4096 :: u64) = i + 2 ^ 64 - 4096"
      using i unat_of_nat_small [of i, where ?'a = 64] by (simp add: unat_sub_if')
    then show "accessible (c_mem movs_demo) ProtRead (r_gpr (c_regs movs_demo) 6 + of_nat i) \<and>
       accessible (c_mem movs_demo) ProtWrite (r_gpr (c_regs movs_demo) 7 + of_nat i) \<and>
       2 * 8 \<le> unat (r_gpr (c_regs movs_demo) 6 + of_nat i - r_gpr (c_regs movs_demo) 7)"
      using i demo_mem_accessible [of i] demo_mem_accessible [of "4096 + i"] by (simp add: mem r)
  qed
  from rep_movs_copies [OF demo_mem_wf [folded mem] _ _ r(4) _ _ ok, of repZ] show ?thesis
    by (auto simp: r r(3) [unfolded One_nat_def])
qed

section \<open>Shifts and rotates\<close>

lemma and_1_bit: "x AND 1 \<noteq> 0 \<longleftrightarrow> bit x 0" for x :: u64
  using and_push_bit_1_iff [of x 0] by simp

lemma drop_and_1: "drop_bit n x AND 1 \<noteq> 0 \<longleftrightarrow> bit x n" for x :: u64
  unfolding and_1_bit by (simp add: bit_drop_bit_eq)

lemma push_out: "\<not> count \<le> n \<Longrightarrow> take_bit n (push_bit count a) = 0" for a :: u64
  by (rule bit_word_eqI) (simp add: bit_take_bit_iff bit_push_bit_iff)

lemma shift_results:
  assumes "op_width w"
  shows "idx = 4 \<or> idx = 6 \<Longrightarrow> shift_result idx a w count =
      Some (Shl, take_bit (8 * w) (push_bit count a), count \<le> 8 * w \<and> bit a (8 * w - count))"
    "shift_result 5 a w count = Some (Shr, drop_bit count a, bit a (count - 1))"
    "shift_result 7 a w count =
      Some (Sar, signed_drop_bit count (signExtend a (8 * w)) AND maskWidth w, bit a (count - 1))"
  unfolding shift_result_def Let_def mult.commute [of w 8] drop_and_1
  by (auto simp: and_maskWidth [OF assms] push_out)

lemma int_div_range:
  fixes z H P :: int
  assumes "- H \<le> z" "z < H" "1 \<le> P"
  shows "- H \<le> z div P" "z div P < H"
proof -
  have "H * 1 \<le> H * P" using assms by (intro mult_left_mono) auto
  then have lt: "z < H * P" and ge: "- H * P \<le> z" using assms by linarith+
  show "z div P < H" by (rule int_div_lt [OF lt]) (use assms in simp)
  have "- H * P div P \<le> z div P" by (rule zdiv_mono1 [OF ge]) (use assms in simp)
  moreover have "- H * P div P = - H" by (rule nonzero_mult_div_cancel_right) (use assms in simp)
  ultimately show "- H \<le> z div P" by simp
qed

lemma s_fits_div: "s_fits w z \<Longrightarrow> s_fits w (z div 2 ^ k)"
  using int_div_range [of "2 ^ (8 * w - 1)" z "2 ^ k"] by (simp add: s_fits_def)

lemma sval_sar:
  assumes "op_width w"
  shows "sval w (signed_drop_bit count (signExtend a (8 * w)) AND maskWidth w) = sval w a div 2 ^ count"
proof -
  have "sint (signExtend a (8 * w)) = sval w a" by (rule sint_signExtend [OF assms])
  then have "signed_drop_bit count (signExtend a (8 * w)) = word_of_int (sval w a div 2 ^ count)"
    by (simp only: sdrop_word)
  moreover have "s_fits w (sval w a div 2 ^ count)" by (rule s_fits_div [OF s_fits_sval [OF assms]])
  ultimately show ?thesis by (simp only: and_maskWidth [OF assms] sval_take_bit sval_of_int [OF assms])
qed

lemma rot_index: "i < n \<Longrightarrow> c < n \<Longrightarrow> (i + n - c) mod n = (if c \<le> i then i - c else i + n - c)" for i n c :: nat
  by (auto simp: mod_if)

lemma rot_back: "j < n \<Longrightarrow> ((j + count) mod n + n - count mod n) mod n = j" for j n count :: nat
proof -
  assume j: "j < n"
  define c where "c = count mod n"
  have c: "c < n" using j by (simp add: c_def)
  have m: "(j + count) mod n = (j + c) mod n" by (simp add: c_def mod_add_right_eq)
  show "((j + count) mod n + n - count mod n) mod n = j"
  proof (cases "j + c < n")
    case True
    then have "(j + c) mod n + n - c = j + n" by simp
    then show ?thesis using j by (simp add: m flip: c_def)
  next
    case False
    then have "(j + c) mod n = j + c - n" using j c by (simp add: mod_if)
    then have "(j + c) mod n + n - c = j" using False by simp
    then show ?thesis using j by (simp add: m flip: c_def)
  qed
qed

lemma rol_bits:
  assumes "op_width w" "a = take_bit (8 * w) a" "c < 8 * w" "i < 8 * w"
  shows "bit ((push_bit c a OR drop_bit (8 * w - c) a) AND maskWidth w) i \<longleftrightarrow> bit a ((i + 8 * w - c) mod (8 * w))"
proof -
  have top: "\<not> bit a k" if "8 * w \<le> k" for k by (subst assms(2)) (use that in \<open>simp add: bit_take_bit_iff\<close>)
  have "8 * w \<le> 64" using assms(1) by (auto simp: op_width_def)
  then show ?thesis
    using assms(3,4) top unfolding rot_index [OF assms(4,3)] and_maskWidth [OF assms(1)]
    by (auto simp: bit_simps add.commute)
qed

lemma ror_bits:
  assumes "op_width w" "a = take_bit (8 * w) a" "c < 8 * w" "i < 8 * w"
  shows "bit ((drop_bit c a OR push_bit (8 * w - c) a) AND maskWidth w) i \<longleftrightarrow> bit a ((i + c) mod (8 * w))"
proof -
  have top: "\<not> bit a k" if "8 * w \<le> k" for k by (subst assms(2)) (use that in \<open>simp add: bit_take_bit_iff\<close>)
  have w: "8 * w \<le> 64" using assms(1) by (auto simp: op_width_def)
  have "(i + c) mod (8 * w) = (if i + c < 8 * w then i + c else i + c - 8 * w)"
    using assms(3,4) by (auto simp: mod_if)
  then show ?thesis
    using assms(3,4) top w unfolding and_maskWidth [OF assms(1)]
    by (auto simp: bit_simps add.commute)
qed

text \<open>
  The shift group at every width, on an operand cut to the width and a count from 1: SHL gives
  the low bits of the product by 2^count, SHR the quotient, SAR the floor quotient of the signed
  value; the carry of SHL and SHR is the last bit shifted out. ROL and ROR move bit j to j + count
  and j - count modulo the width.
\<close>

theorem shift_group_correct:
  assumes "op_width w" "a = take_bit (8 * w) a" "shift_result idx a w count = Some (sop, res, cf)"
  shows "(idx = 4 \<longrightarrow> sop = Shl \<and> uval w res = uval w a * 2 ^ count mod 2 ^ (8 * w) \<and>
        cf = (count \<le> 8 * w \<and> bit a (8 * w - count))) \<and>
    (idx = 5 \<longrightarrow> sop = Shr \<and> uval w res = uval w a div 2 ^ count \<and> cf = bit a (count - 1)) \<and>
    (idx = 7 \<longrightarrow> sop = Sar \<and> sval w res = sval w a div 2 ^ count \<and> cf = bit a (count - 1)) \<and>
    (idx = 0 \<longrightarrow> sop = Rol \<and> (\<forall>j<8 * w. bit res ((j + count) mod (8 * w)) = bit a j)) \<and>
    (idx = 1 \<longrightarrow> sop = Ror \<and> (\<forall>j<8 * w. bit res j = bit a ((j + count) mod (8 * w))))"
proof -
  have n: "0 < 8 * w" using assms(1) by (auto simp: op_width_def)
  have ua: "uint a = uval w a" using assms(2) by (metis uint_take_bit_uval)
  have c: "count mod (8 * w) < 8 * w" using n by simp
  have "uval w (take_bit (8 * w) (push_bit count a)) = uval w a * 2 ^ count mod 2 ^ (8 * w)"
    unfolding uval_take_bit unfolding uval_def [of w "push_bit count a"] uint_push_bit
    by (simp only: mod_mod_cancel [OF pow_w_dvd [OF assms(1)]] ua)
  moreover have "uval w (drop_bit count a) = uval w a div 2 ^ count"
  proof -
    have "uval w a div 2 ^ count < 2 ^ (8 * w)"
      using uval_range [of w a] by (intro int_div_range(2)) (auto intro: order_trans [of _ 0])
    moreover have "0 \<le> uval w a div 2 ^ count" using uval_range(1) [of w a] by (simp add: pos_imp_zdiv_nonneg_iff)
    ultimately show ?thesis unfolding uval_def [of w "drop_bit count a"] uint_drop_bit ua by (simp add: mod_pos_pos_trivial)
  qed
  moreover have "bit ((push_bit (count mod (8 * w)) a OR drop_bit (8 * w - count mod (8 * w)) a) AND maskWidth w) ((j + count) mod (8 * w)) = bit a j"
    if "j < 8 * w" for j
  proof -
    let ?i = "(j + count) mod (8 * w)"
    have i: "?i < 8 * w" using n by simp
    have "(?i + 8 * w - count mod (8 * w)) mod (8 * w) = j" by (rule rot_back [OF that])
    then show ?thesis using rol_bits [OF assms(1,2) c i] by simp
  qed
  moreover have "bit ((drop_bit (count mod (8 * w)) a OR push_bit (8 * w - count mod (8 * w)) a) AND maskWidth w) j = bit a ((j + count) mod (8 * w))"
    if "j < 8 * w" for j
    using ror_bits [OF assms(1,2) c that] by (simp add: mod_add_right_eq)
  ultimately show ?thesis
    using assms(3) sval_sar [OF assms(1)]
    by (auto simp: shift_results [OF assms(1)]) (auto simp: shift_result_def Let_def mult.commute [of w 8])
qed

theorem shift_group_correct_witness:
  "\<exists>res cf. shift_result 0 0x81 1 1 = Some (Rol, res, cf) \<and> bit res 0 \<and> bit res 1"
proof -
  obtain res cf where s: "shift_result 0 0x81 1 1 = Some (Rol, res, cf)"
    by (simp add: shift_result_def Let_def)
  have a: "(0x81 :: u64) = take_bit (8 * 1) 0x81" by simp
  have "\<forall>j<8 * 1. bit res ((j + 1) mod (8 * 1)) = bit (0x81 :: u64) j"
    using shift_group_correct [OF op_width_simps(1) a s] by blast
  from this [rule_format, of 7] this [rule_format, of 0] show ?thesis
    using s by (auto simp: bit_numeral_rec)
qed

end
