(* ===== verification/Modrm.thy ===== *)
theory Modrm
  imports Exec
begin

unbundle bit_operations_syntax

text \<open>
  Instruction bytes: the fetch cursor and the ModRM/SIB/displacement decoder of
  \<open>internal/cpu/modrm.go\<close>, and the VEX prefix of \<open>vex.go\<close>. A decoder step runs on the cursor: the
  base address, the bytes consumed so far and the guest memory, whose lookup cache a fetch may
  change. \<open>good_dec\<close> collects what every decoder step promises.
\<close>

section \<open>The cursor\<close>

record cursor =
  k_base :: u64
  k_pos :: nat
  k_mem :: memory

type_synonym 'a dec = "(cursor, cpu_error, 'a) sem"

definition read_code :: "nat \<Rightarrow> u8 list dec" where
  "read_code n = (\<lambda>k. case readCheckedInto (k_base k + of_nat (k_pos k)) n ProtExec (k_mem k) of
     (x, m) \<Rightarrow> (x, k\<lparr>k_mem := m\<rparr>))"

text \<open>\<open>c.pos += n\<close>, as the decoder also does directly after a successful peek.\<close>

definition advance :: "nat \<Rightarrow> unit dec" where
  "advance n = modS (\<lambda>k. k\<lparr>k_pos := k_pos k + n\<rparr>)"

definition fetch :: "nat \<Rightarrow> u8 list dec" where
  "fetch n = bindE (read_code n) (\<lambda>buf. bindE (advance n) (\<lambda>_. ret buf))"

definition peekByte :: "u8 dec" where
  "peekByte = bindE (read_code 1) (\<lambda>buf. ret (buf ! 0))"

text \<open>\<open>if b, err := c.peekByte(); err == nil && p(b)\<close>: a peek whose error is dropped.\<close>

definition peek_opt :: "u8 option dec" where
  "peek_opt = (\<lambda>k. case peekByte k of (Inl _, k') \<Rightarrow> (Inr None, k') | (Inr b, k') \<Rightarrow> (Inr (Some b), k'))"

definition fetch_u8 :: "u8 dec" where
  "fetch_u8 = bindE (fetch 1) (\<lambda>b. ret (b ! 0))"

definition fetch_u16 :: "u16 dec" where
  "fetch_u16 = bindE (fetch 2) (\<lambda>b. ret (ucast (leToU64 b)))"

definition fetch_u32 :: "u32 dec" where
  "fetch_u32 = bindE (fetch 4) (\<lambda>b. ret (ucast (leToU64 b)))"

definition fetch_u64 :: "u64 dec" where
  "fetch_u64 = bindE (fetch 8) (\<lambda>b. ret (leToU64 b))"

text \<open>\<open>i8\<close> and \<open>i32\<close>, converted to 64 bits with their sign as every caller does.\<close>

definition fetch_i8 :: "u64 dec" where
  "fetch_i8 = bindE fetch_u8 (\<lambda>b. ret (scast b))"

definition fetch_i32 :: "u64 dec" where
  "fetch_i32 = bindE fetch_u32 (\<lambda>v. ret (scast v))"

definition boolBit :: "bool \<Rightarrow> nat" where
  "boolBit b = (if b then 1 else 0)"

section \<open>ModRM\<close>

record modrmResult =
  mr_regField :: nat
  mr_rm :: operand

text \<open>
  The displacement that follows ModRM and SIB: a 32-bit constant when there is no base register
  (SIB with base 5 and mod 0), an 8- or 32-bit one for mod 1 and 2.
\<close>

definition modrm_disp :: "nat \<Rightarrow> bool \<Rightarrow> u64 dec" where
  "modrm_disp md baseIsConstDisp =
     bindE (if baseIsConstDisp then fetch_i32 else ret 0) (\<lambda>disp.
     if md = 1 then fetch_i8 else if md = 2 then fetch_i32 else ret disp)"

text \<open>The addressing forms with a SIB byte (\<open>rmRaw == 4\<close>).\<close>

definition decode_sib :: "nat \<Rightarrow> nat \<Rightarrow> bool \<Rightarrow> bool \<Rightarrow> modrmResult dec" where
  "decode_sib md regField rexX rexB =
     bindE fetch_u8 (\<lambda>sib.
     let scale = push_bit (unat (drop_bit 6 sib)) 1; indexRaw = unat (drop_bit 3 sib AND 7);
         baseRaw = unat (sib AND 7); indexField = indexRaw + 8 * boolBit rexX;
         haveIndex = (indexField \<noteq> 4); indexReg = (if haveIndex then indexField else 0);
         constDisp = (baseRaw = 5 \<and> md = 0);
         baseReg = (if constDisp then 0 else baseRaw + 8 * boolBit rexB) in
     bindE (modrm_disp md constDisp) (\<lambda>disp.
     ret \<lparr>mr_regField = regField,
          mr_rm = memOperandBaseIndex baseReg (\<not> constDisp) indexReg haveIndex scale disp\<rparr>))"

definition decode_rm :: "bool \<Rightarrow> bool \<Rightarrow> bool \<Rightarrow> nat \<Rightarrow> nat \<Rightarrow> nat \<Rightarrow> modrmResult dec" where
  "decode_rm rexPresent rexX rexB md regField rmRaw =
     (if md = 3 then
        ret \<lparr>mr_regField = regField, mr_rm = regOperand (rmRaw + 8 * boolBit rexB) rexPresent\<rparr>
      else if rmRaw = 4 then decode_sib md regField rexX rexB
      else if md = 0 \<and> rmRaw = 5 then
        bindE fetch_i32 (\<lambda>d. ret \<lparr>mr_regField = regField, mr_rm = memOperandRIP d\<rparr>)
      else
        bindE (modrm_disp md False) (\<lambda>disp.
        ret \<lparr>mr_regField = regField,
             mr_rm = memOperandBaseIndex (rmRaw + 8 * boolBit rexB) True 0 False 1 disp\<rparr>))"

definition decodeModRM :: "bool \<Rightarrow> bool \<Rightarrow> bool \<Rightarrow> bool \<Rightarrow> modrmResult dec" where
  "decodeModRM rexPresent rexR rexX rexB =
     bindE fetch_u8 (\<lambda>b.
       decode_rm rexPresent rexX rexB (unat (drop_bit 6 b)) (unat (drop_bit 3 b AND 7) + 8 * boolBit rexR)
         (unat (b AND 7)))"

section \<open>The VEX prefix\<close>

record vexState =
  vx_present :: bool
  vx_R :: bool
  vx_X :: bool
  vx_B :: bool
  vx_W :: bool
  vx_vvvv :: nat
  vx_L :: bool
  vx_pp :: u8
  vx_mapSelect :: nat

definition zero_vex :: vexState where
  "zero_vex = \<lparr>vx_present = True, vx_R = False, vx_X = False, vx_B = False, vx_W = False, vx_vvvv = 0,
     vx_L = False, vx_pp = 0, vx_mapSelect = 0\<rparr>"

text \<open>\<open>int(^b >> 3) & 0xF\<close>: Go complements the byte before it shifts.\<close>

definition vex_vvvv :: "u8 \<Rightarrow> nat" where
  "vex_vvvv b = unat (drop_bit 3 (NOT b) AND 0xF)"

definition decodeVEXPrefix :: "u8 \<Rightarrow> vexState dec" where
  "decodeVEXPrefix lead =
     (if lead = 0xC5 then
        bindE fetch_u8 (\<lambda>b.
        ret (zero_vex\<lparr>vx_R := (b AND 0x80 = 0), vx_vvvv := vex_vvvv b, vx_L := (b AND 0x04 \<noteq> 0),
               vx_pp := b AND 0x03, vx_mapSelect := 1\<rparr>))
      else if lead = 0xC4 then
        bindE fetch_u8 (\<lambda>b1. bindE fetch_u8 (\<lambda>b2.
        ret (zero_vex\<lparr>vx_R := (b1 AND 0x80 = 0), vx_X := (b1 AND 0x40 = 0), vx_B := (b1 AND 0x20 = 0),
               vx_mapSelect := unat (b1 AND 0x1F), vx_W := (b2 AND 0x80 \<noteq> 0), vx_vvvv := vex_vvvv b2,
               vx_L := (b2 AND 0x04 \<noteq> 0), vx_pp := b2 AND 0x03\<rparr>)))
      else ret zero_vex)"

definition vex_opSize16 :: "vexState \<Rightarrow> bool" where "vex_opSize16 v \<longleftrightarrow> vx_pp v = 1"
definition vex_repZ :: "vexState \<Rightarrow> bool" where "vex_repZ v \<longleftrightarrow> vx_pp v = 2"
definition vex_repNZ :: "vexState \<Rightarrow> bool" where "vex_repNZ v \<longleftrightarrow> vx_pp v = 3"

end
