(* ===== verification/Float64.thy ===== *)
theory Float64
  imports Prelude
begin

unbundle bit_operations_syntax

text \<open>
  Go's \<open>float64\<close> and \<open>float32\<close> as far as \<open>x87.go\<close> and \<open>sse.go\<close> of \<open>internal/cpu\<close> use them: IEEE 754 values as their
  bit patterns, arithmetic as the exact result rounded to nearest, ties to even. A NaN result keeps
  the payload of its first NaN operand, made quiet, as on the amd64 host.
\<close>

section \<open>Values\<close>

text \<open>\<open>Fin s m e\<close> is (-1)^s * m * 2^e.\<close>

datatype fval = NaN | Inf bool | Fin bool nat int

fun bit_len :: "nat \<Rightarrow> nat" where
  "bit_len n = (if n = 0 then 0 else Suc (bit_len (n div 2)))"

declare bit_len.simps [simp del]

definition f64_sign :: "u64 \<Rightarrow> bool" where "f64_sign v = bit v 63"
definition f64_exp :: "u64 \<Rightarrow> nat" where "f64_exp v = unat (drop_bit 52 v AND 0x7ff)"
definition f64_frac :: "u64 \<Rightarrow> nat" where "f64_frac v = unat (v AND 0xFFFFFFFFFFFFF)"

definition f64_val :: "u64 \<Rightarrow> fval" where
  "f64_val v =
     (if f64_exp v = 0x7ff then (if f64_frac v = 0 then Inf (f64_sign v) else NaN)
      else if f64_exp v = 0 then Fin (f64_sign v) (f64_frac v) (-1074)
      else Fin (f64_sign v) (2 ^ 52 + f64_frac v) (int (f64_exp v) - 1075))"

definition f32_val :: "u32 \<Rightarrow> fval" where
  "f32_val v = (let s = bit v 31; x = unat (drop_bit 23 v AND 0xff); f = unat (v AND 0x7FFFFF) in
     if x = 0xff then (if f = 0 then Inf s else NaN)
     else if x = 0 then Fin s f (-149)
     else Fin s (2 ^ 23 + f) (int x - 150))"

section \<open>Rounding\<close>

text \<open>The integer nearest to \<open>m / 2^k\<close>, ties to even.\<close>

definition round_half_even :: "nat \<Rightarrow> nat \<Rightarrow> nat" where
  "round_half_even m k = (let q = m div 2 ^ k; rem = m mod 2 ^ k in
     if 2 * rem < 2 ^ k then q
     else if 2 * rem > 2 ^ k then q + 1
     else if even q then q else q + 1)"

text \<open>
  Rounding \<open>m * 2^e\<close> to a format with \<open>p\<close> bits of significand whose least exponent is \<open>emin\<close>:
  the significand \<open>M\<close> and the exponent \<open>q\<close> of its last bit.
\<close>

definition round_to :: "nat \<Rightarrow> int \<Rightarrow> nat \<Rightarrow> int \<Rightarrow> nat \<times> int" where
  "round_to p emin m e =
     (let q = max (e + int (bit_len m) - int p) emin in
      (if q \<le> e then m * 2 ^ nat (e - q) else round_half_even m (nat (q - e)), q))"

definition f64_inf :: "bool \<Rightarrow> u64" where
  "f64_inf s = (if s then 0xFFF0000000000000 else 0x7FF0000000000000)"

text \<open>
  The bit pattern nearest to (-1)^s * m * 2^e. Its low 63 bits are the biased exponent and fraction,
  read as one number, so a significand that rounds up to the next power of two carries over.
\<close>

definition f64_round :: "bool \<Rightarrow> nat \<Rightarrow> int \<Rightarrow> u64" where
  "f64_round s m e = (let (M, q) = round_to 53 (-1074) m e; b = nat (q + 1074) * 2 ^ 52 + M in
     if m = 0 then (if s then 0x8000000000000000 else 0)
     else if b \<ge> 0x7FF0000000000000 then f64_inf s
     else (if s then 0x8000000000000000 else 0) + of_nat b)"

definition f32_round :: "bool \<Rightarrow> nat \<Rightarrow> int \<Rightarrow> u32" where
  "f32_round s m e = (let (M, q) = round_to 24 (-149) m e; b = nat (q + 149) * 2 ^ 23 + M in
     if m = 0 then (if s then 0x80000000 else 0)
     else if b \<ge> 0x7F800000 then (if s then 0xFF800000 else 0x7F800000)
     else (if s then 0x80000000 else 0) + of_nat b)"

section \<open>Operations\<close>

definition f64_quiet :: "u64 \<Rightarrow> u64" where "f64_quiet v = v OR 0x0008000000000000"

text \<open>The default NaN of an invalid operation.\<close>

definition f64_nan :: u64 where "f64_nan = 0xFFF8000000000000"

text \<open>\<open>nan2 a b r\<close> is \<open>r\<close>, or a NaN operand.\<close>

definition nan2 :: "u64 \<Rightarrow> u64 \<Rightarrow> u64 \<Rightarrow> u64" where
  "nan2 a b r = (if f64_val a = NaN then f64_quiet a else if f64_val b = NaN then f64_quiet b else r)"

definition signed_mag :: "bool \<Rightarrow> nat \<Rightarrow> int" where
  "signed_mag s m = (if s then - int m else int m)"

text \<open>Two finite values over the smaller of the two exponents, as signed numerators.\<close>

definition common_exp :: "bool \<Rightarrow> nat \<Rightarrow> int \<Rightarrow> bool \<Rightarrow> nat \<Rightarrow> int \<Rightarrow> int \<times> int \<times> int" where
  "common_exp s m e s' m' e' = (let q = min e e' in
     (signed_mag s m * 2 ^ nat (e - q), signed_mag s' m' * 2 ^ nat (e' - q), q))"

definition f64_add :: "u64 \<Rightarrow> u64 \<Rightarrow> u64" where
  "f64_add a b = nan2 a b (case (f64_val a, f64_val b) of
       (Inf s, Inf s') \<Rightarrow> (if s = s' then f64_inf s else f64_nan)
     | (Inf s, _) \<Rightarrow> f64_inf s
     | (_, Inf s) \<Rightarrow> f64_inf s
     | (Fin s m e, Fin s' m' e') \<Rightarrow> (let (x, y, q) = common_exp s m e s' m' e'; z = x + y in
          if z = 0 then f64_round (s \<and> s') 0 0 else f64_round (z < 0) (nat \<bar>z\<bar>) q)
     | _ \<Rightarrow> f64_nan)"

definition f64_neg :: "u64 \<Rightarrow> u64" where "f64_neg v = v XOR 0x8000000000000000"

definition f64_sub :: "u64 \<Rightarrow> u64 \<Rightarrow> u64" where
  "f64_sub a b = nan2 a b (f64_add a (f64_neg b))"

definition f64_mul :: "u64 \<Rightarrow> u64 \<Rightarrow> u64" where
  "f64_mul a b = nan2 a b (case (f64_val a, f64_val b) of
       (Inf s, Inf s') \<Rightarrow> f64_inf (s \<noteq> s')
     | (Inf s, Fin s' m e) \<Rightarrow> (if m = 0 then f64_nan else f64_inf (s \<noteq> s'))
     | (Fin s' m e, Inf s) \<Rightarrow> (if m = 0 then f64_nan else f64_inf (s \<noteq> s'))
     | (Fin s m e, Fin s' m' e') \<Rightarrow> f64_round (s \<noteq> s') (m * m') (e + e')
     | _ \<Rightarrow> f64_nan)"

text \<open>\<open>a < b\<close> and \<open>a == b\<close>; both false on a NaN.\<close>

definition f64_less :: "u64 \<Rightarrow> u64 \<Rightarrow> bool" where
  "f64_less a b = (case (f64_val a, f64_val b) of
       (Inf s, Inf s') \<Rightarrow> s \<and> \<not> s'
     | (Inf s, Fin _ _ _) \<Rightarrow> s
     | (Fin _ _ _, Inf s) \<Rightarrow> \<not> s
     | (Fin s m e, Fin s' m' e') \<Rightarrow> (let (x, y, q) = common_exp s m e s' m' e' in x < y)
     | _ \<Rightarrow> False)"

definition f64_eq :: "u64 \<Rightarrow> u64 \<Rightarrow> bool" where
  "f64_eq a b = (case (f64_val a, f64_val b) of
       (Inf s, Inf s') \<Rightarrow> s = s'
     | (Fin s m e, Fin s' m' e') \<Rightarrow> (let (x, y, q) = common_exp s m e s' m' e' in x = y)
     | _ \<Rightarrow> False)"

text \<open>\<open>float64(n)\<close> of a \<open>uint64\<close>, \<open>math.Ldexp\<close>, and the conversions between the two widths.\<close>

definition f64_of_uint :: "u64 \<Rightarrow> u64" where
  "f64_of_uint n = f64_round False (unat n) 0"

definition f64_ldexp :: "u64 \<Rightarrow> int \<Rightarrow> u64" where
  "f64_ldexp v k = (case f64_val v of Fin s m e \<Rightarrow> f64_round s m (e + k) | _ \<Rightarrow> v)"

definition f64_of_f32 :: "u32 \<Rightarrow> u64" where
  "f64_of_f32 v = (case f32_val v of
       Fin s m e \<Rightarrow> f64_round s m e
     | Inf s \<Rightarrow> f64_inf s
     | NaN \<Rightarrow> f64_quiet ((if bit v 31 then 0xFFF0000000000000 else 0x7FF0000000000000) OR
                push_bit 29 (ucast v AND 0x7FFFFF)))"

definition f32_of_f64 :: "u64 \<Rightarrow> u32" where
  "f32_of_f64 v = (case f64_val v of
       Fin s m e \<Rightarrow> f32_round s m e
     | Inf s \<Rightarrow> (if s then 0xFF800000 else 0x7F800000)
     | NaN \<Rightarrow> (if bit v 63 then 0xFFC00000 else 0x7FC00000) OR ucast (drop_bit 29 v AND 0x7FFFFF))"

text \<open>
  \<open>math.RoundToEven\<close>, \<open>Floor\<close>, \<open>Ceil\<close> and \<open>Trunc\<close> (modes 0 to 3) of a finite value, as the
  integer they denote.
\<close>

definition round_int :: "nat \<Rightarrow> bool \<Rightarrow> nat \<Rightarrow> int \<Rightarrow> int" where
  "round_int mode s m e =
     (if e \<ge> 0 then signed_mag s m * 2 ^ nat e
      else let k = nat (- e); x = signed_mag s m in
        if mode = 0 then signed_mag s (round_half_even m k)
        else if mode = 1 then x div 2 ^ k
        else if mode = 2 then - (- x div 2 ^ k)
        else signed_mag s (m div 2 ^ k))"

end
