(* ===== verification/X87.thy ===== *)
theory X87
  imports Exec Float64
begin

unbundle bit_operations_syntax

text \<open>
  The x87 subset of \<open>internal/cpu/x87.go\<close>: conversions between the 80-bit extended format and the
  doubles and integers of the host, and the load, store and arithmetic handlers on the register
  stack.
\<close>

section \<open>Conversions\<close>

definition ext80FromFloat64Bits :: "u64 \<Rightarrow> ext80" where
  "ext80FromFloat64Bits value =
     (let sign = ucast (drop_bit 48 value) AND 0x8000;
          exponent = drop_bit 52 value AND 0x7ff;
          fraction = value AND (push_bit 52 1 - 1) in
      if exponent = 0x7ff then
        let sg = push_bit 63 1;
            sg' = (if fraction \<noteq> 0 then sg OR push_bit 11 fraction OR push_bit 62 1 else sg) in
        \<lparr>significand = sg', signExponent = sign OR 0x7fff\<rparr>
      else if exponent = 0 then
        (if fraction = 0 then \<lparr>significand = 0, signExponent = sign\<rparr>
         else let shift = 64 - bit_len (unat fraction) - 11 in
           \<lparr>significand = push_bit (shift + 11) fraction,
            signExponent = sign OR word_of_int (16383 - 1022 - int shift)\<rparr>)
      else \<lparr>significand = push_bit 63 1 OR push_bit 11 fraction,
            signExponent = sign OR word_of_int (uint exponent - 1023 + 16383)\<rparr>)"

definition ext80ToFloat64 :: "ext80 \<Rightarrow> u64" where
  "ext80ToFloat64 value =
     (let sign = push_bit 48 (ucast (signExponent value AND 0x8000));
          exponent = signExponent value AND 0x7fff in
      if exponent = 0x7fff then
        (if significand value = push_bit 63 1 then sign OR push_bit 52 0x7ff
         else sign OR push_bit 48 0x7ff8 OR (drop_bit 11 (significand value) AND (push_bit 52 1 - 1)))
      else let biased = (if exponent = 0 then 1 else uint exponent);
               v = f64_ldexp (f64_of_uint (significand value)) (biased - 16383 - 63) in
        v OR sign)"

definition ext80FromInt64 :: "u64 \<Rightarrow> ext80" where
  "ext80FromInt64 value =
     (if value = 0 then zero_ext80
      else let neg = sint value < 0;
               sign = (if neg then 0x8000 else 0);
               magnitude = (if neg then - (value + 1) + 1 else value);
               exponent = bit_len (unat magnitude) - 1 in
        \<lparr>significand = push_bit (63 - exponent) magnitude, signExponent = sign OR of_nat (16383 + exponent)\<rparr>)"

section \<open>The register stack\<close>

definition x87_top :: "registers \<Rightarrow> ext80" where
  "x87_top r = r_x87 r (unat (r_x87Top r))"

text \<open>\<open>(top + uint8(index)) & 7\<close>, the slot of ST(index).\<close>

definition x87_slot :: "nat \<Rightarrow> registers \<Rightarrow> nat" where
  "x87_slot index r = unat ((r_x87Top r + of_nat index) AND 7)"

definition x87_set :: "nat \<Rightarrow> ext80 \<Rightarrow> registers \<Rightarrow> registers" where
  "x87_set i v r = r\<lparr>r_x87 := (r_x87 r)(i := v)\<rparr>"

definition x87_pop :: "bool \<Rightarrow> registers \<Rightarrow> registers" where
  "x87_pop pop r = (if pop then r\<lparr>r_x87Top := (r_x87Top r + 1) AND 7\<rparr> else r)"

definition x87Push :: "ext80 \<Rightarrow> registers \<Rightarrow> registers" where
  "x87Push value r = (let t = (r_x87Top r + 7) AND 7 in x87_set (unat t) value (r\<lparr>r_x87Top := t\<rparr>))"

definition x87StoreRegister :: "nat \<Rightarrow> bool \<Rightarrow> registers \<Rightarrow> registers" where
  "x87StoreRegister index pop r = x87_pop pop (x87_set (x87_slot index r) (x87_top r) r)"

text \<open>FXCH: the decoder's closure for 0xD9 /1.\<close>

definition x87_exchange :: "nat \<Rightarrow> registers \<Rightarrow> registers" where
  "x87_exchange index r = (let a = unat (r_x87Top r); b = x87_slot index r in
     x87_set b (r_x87 r a) (x87_set a (r_x87 r b) r))"

section \<open>Arithmetic\<close>

text \<open>FADD ST(0),ST(0) doubles in place without a conversion; other operands go through doubles.\<close>

definition ext80_double :: "ext80 \<Rightarrow> ext80" where
  "ext80_double left =
     (let exponent = signExponent left AND 0x7fff; sg = significand left; sign = signExponent left AND 0x8000 in
      if exponent = 0x7fff \<or> sg = 0 then left
      else if exponent = 0 then
        let sg' = push_bit 1 sg; exponent' = (if sg' AND push_bit 63 1 \<noteq> 0 then 1 else exponent) in
        \<lparr>significand = sg', signExponent = sign OR exponent'\<rparr>
      else if exponent = 0x7ffe then \<lparr>significand = push_bit 63 1, signExponent = sign OR 0x7fff\<rparr>
      else left\<lparr>signExponent := signExponent left + 1\<rparr>)"

definition x87Add :: "nat \<Rightarrow> registers \<Rightarrow> registers" where
  "x87Add index r =
     (let top = unat (r_x87Top r); left = x87_top r in
      if index = 0 then x87_set top (ext80_double left) r
      else let a = ext80ToFloat64 left; b = ext80ToFloat64 (r_x87 r (x87_slot index r)) in
        x87_set top (ext80FromFloat64Bits (f64_add a b)) r)"

definition ext80_nan :: "ext80 \<Rightarrow> bool" where
  "ext80_nan v \<longleftrightarrow> signExponent v AND 0x7fff = 0x7fff \<and> significand v \<noteq> push_bit 63 1"

definition x87Compare :: "nat \<Rightarrow> bool \<Rightarrow> registers \<Rightarrow> registers" where
  "x87Compare index pop r =
     (let a = x87_top r; b = r_x87 r (x87_slot index r);
          unordered = (ext80_nan a \<or> ext80_nan b);
          av = ext80ToFloat64 a; bv = ext80ToFloat64 b;
          less = (\<not> unordered \<and> f64_less av bv); equal = (\<not> unordered \<and> f64_eq av bv) in
      x87_pop pop
        (setFlag flagOF False (setFlag flagSF False (setFlag flagAF False
          (setFlag flagZF (unordered \<or> equal) (setFlag flagPF unordered
            (setFlag flagCF (unordered \<or> less) r)))))))"

definition x87SubPop :: "nat \<Rightarrow> registers \<Rightarrow> registers" where
  "x87SubPop index r =
     (let destination = x87_slot index r;
          value = f64_sub (ext80ToFloat64 (r_x87 r destination)) (ext80ToFloat64 (x87_top r)) in
      x87_pop True (x87_set destination (ext80FromFloat64Bits value) r))"

section \<open>Memory forms\<close>

definition x87_read :: "operand \<Rightarrow> nat \<Rightarrow> u8 list exec" where
  "x87_read x n = bindE (getS (effAddr x)) (\<lambda>a. on_mem (readChecked a n ProtRead))"

definition x87_write :: "operand \<Rightarrow> u8 list \<Rightarrow> unit exec" where
  "x87_write x bs = bindE (getS (effAddr x)) (\<lambda>a. on_mem (writeChecked a bs ProtWrite))"

text \<open>The unsupported widths below are dead: the decoder passes 4, 8 and 10, or 8 for integers.\<close>

definition x87Load :: "operand \<Rightarrow> nat \<Rightarrow> unit exec" where
  "x87Load x width =
     bindE (x87_read x width) (\<lambda>data.
     if width = 4 then on_regs (x87Push (ext80FromFloat64Bits (f64_of_f32 (ucast (leToU64 data)))))
     else if width = 8 then on_regs (x87Push (ext80FromFloat64Bits (leToU64 data)))
     else if width = 10 then
       on_regs (x87Push \<lparr>significand = leToU64 (take 8 data), signExponent = ucast (leToU64 (drop 8 data))\<rparr>)
     else fail (UnsupportedX87 0 width))"

definition x87Store :: "operand \<Rightarrow> nat \<Rightarrow> bool \<Rightarrow> unit exec" where
  "x87Store x width pop =
     bindE (regs x87_top) (\<lambda>value.
     if width = 4 then
       bindE (x87_write x (u64ToLE (ucast (f32_of_f64 (ext80ToFloat64 value))) 4)) (\<lambda>_. on_regs (x87_pop pop))
     else if width = 8 then
       bindE (x87_write x (u64ToLE (ext80ToFloat64 value) 8)) (\<lambda>_. on_regs (x87_pop pop))
     else if width = 10 then
       bindE (x87_write x (u64ToLE (significand value) 8 @ u64ToLE (ucast (signExponent value)) 2))
         (\<lambda>_. on_regs (x87_pop pop))
     else fail (UnsupportedX87 0 width))"

definition x87Multiply32 :: "operand \<Rightarrow> unit exec" where
  "x87Multiply32 x =
     bindE (x87_read x 4) (\<lambda>data.
     let value = f64_of_f32 (ucast (leToU64 data)) in
     on_regs (\<lambda>r. x87_set (unat (r_x87Top r))
       (ext80FromFloat64Bits (f64_mul (ext80ToFloat64 (x87_top r)) value)) r))"

definition x87LoadControl :: "operand \<Rightarrow> unit exec" where
  "x87LoadControl x =
     bindE (x87_read x 2) (\<lambda>data. on_regs (\<lambda>r. r\<lparr>r_x87Control := ucast (leToU64 data)\<rparr>))"

definition x87StoreControl :: "operand \<Rightarrow> unit exec" where
  "x87StoreControl x = bindE (regs r_x87Control) (\<lambda>cw. x87_write x (u64ToLE (ucast cw) 2))"

text \<open>
  The integer FISTP writes: the value rounded in the mode of the control word, or the indefinite
  integer when it is a NaN or does not fit. A rounded double is an integer, so the range test of the
  code is the one on that integer.
\<close>

definition x87_to_int :: "nat \<Rightarrow> nat \<Rightarrow> u64 \<Rightarrow> u64" where
  "x87_to_int mode bits' value =
     (case f64_val value of
        Fin s m e \<Rightarrow> (let n = round_int mode s m e in
          if - (2 ^ (bits' - 1)) \<le> n \<and> n < 2 ^ (bits' - 1) then word_of_int n else push_bit (bits' - 1) 1)
      | _ \<Rightarrow> push_bit (bits' - 1) 1)"

definition x87StoreInteger :: "operand \<Rightarrow> nat \<Rightarrow> bool \<Rightarrow> unit exec" where
  "x87StoreInteger x width pop =
     bindE (regs (\<lambda>r. x87_to_int (unat (drop_bit 10 (r_x87Control r) AND 3)) (width * 8) (ext80ToFloat64 (x87_top r))))
       (\<lambda>integer.
     if width = 2 \<or> width = 4 \<or> width = 8 then
       bindE (x87_write x (u64ToLE integer width)) (\<lambda>_. on_regs (x87_pop pop))
     else fail (UnsupportedX87 1 width))"

definition x87LoadInteger :: "operand \<Rightarrow> nat \<Rightarrow> unit exec" where
  "x87LoadInteger x width =
     bindE (x87_read x width) (\<lambda>data.
     if width = 2 \<or> width = 4 \<or> width = 8 then
       on_regs (x87Push (ext80FromInt64 (signExtend (leToU64 data) (width * 8))))
     else fail (UnsupportedX87 2 width))"

section \<open>The decoder's x87 closures\<close>

datatype x87op =
    XAdd nat | XPushST nat | XExchange nat | XPushZero | XCompare nat bool | XSubPop nat
  | XStoreReg nat bool | XMul32 operand | XLoadControl operand | XStoreControl operand
  | XLoadInt operand nat | XStoreInt operand nat bool | XLoad operand nat | XStore operand nat bool

definition exec_x87 :: "x87op \<Rightarrow> unit exec" where
  "exec_x87 i = (case i of
     XAdd index \<Rightarrow> on_regs (x87Add index)
   | XPushST index \<Rightarrow> on_regs (\<lambda>r. x87Push (r_x87 r (x87_slot index r)) r)
   | XExchange index \<Rightarrow> on_regs (x87_exchange index)
   | XPushZero \<Rightarrow> on_regs (x87Push zero_ext80)
   | XCompare index pop \<Rightarrow> on_regs (x87Compare index pop)
   | XSubPop index \<Rightarrow> on_regs (x87SubPop index)
   | XStoreReg index pop \<Rightarrow> on_regs (x87StoreRegister index pop)
   | XMul32 rm \<Rightarrow> x87Multiply32 rm
   | XLoadControl rm \<Rightarrow> x87LoadControl rm
   | XStoreControl rm \<Rightarrow> x87StoreControl rm
   | XLoadInt rm w \<Rightarrow> x87LoadInteger rm w
   | XStoreInt rm w pop \<Rightarrow> x87StoreInteger rm w pop
   | XLoad rm w \<Rightarrow> x87Load rm w
   | XStore rm w pop \<Rightarrow> x87Store rm w pop)"

end
