(* ===== verification/Insn.thy ===== *)
theory Insn
  imports X87
begin

unbundle bit_operations_syntax

text \<open>
  The semantics closures of \<open>decodeOne\<close> (\<open>decode.go\<close>) and of the scalar half of \<open>decodeTwoByte\<close>
  (\<open>twobyte.go\<close>). A Go closure \<open>func(e *Engine) (branched bool, err error)\<close> is a constructor of
  \<open>insn\<close> holding what it captured; \<open>exec_insn\<close> runs it. \<open>IExt\<close> holds a closure of the SSE and VEX
  decoders, which are parameters.
\<close>

datatype shiftCount = CountImm u8 | CountOne | CountCL bool

datatype btOp = BT | BTS | BTR | BTC

datatype (plugins only: ) insn =
    IAlu nat operand operand nat
  | IAdd32 nat u32
  | ITest operand operand nat
  | ITestImm operand u64 nat
  | IMov operand operand nat
  | IMovImm operand nat u64
  | ILea operand operand nat
  | IPushReg nat
  | IPopReg nat
  | IPushImm u64
  | IPushRM operand
  | IXchg operand operand nat
  | IMovsxd operand operand
  | IImul3 operand operand u64 nat
  | IGrp3 nat operand nat
  | IInc32 nat
  | IDec32 nat
  | IInc operand nat
  | IDec operand nat
  | ICallRM operand
  | IJmpRM operand
  | IShift nat operand nat shiftCount
  | ICall u64
  | IJmp u64
  | IJcc nat u64
  | IRet
  | IRetN u16
  | ILeave
  | IConvert nat bool
  | ISignDX nat
  | INop
  | ISetDF bool
  | IMovs nat repKind
  | IStos nat repKind bool
  | ILods nat repKind bool
  | ICmps nat repKind
  | IScas nat repKind bool
  | ISetcc nat operand
  | ICmovcc nat operand operand nat
  | IMovzx operand operand nat nat
  | IMovsx operand operand nat nat
  | IImul2 operand operand nat
  | IShld operand operand nat "u8 option"
  | IShrd operand operand nat "u8 option"
  | IBt btOp operand operand nat
  | IBtImm nat operand nat u8
  | ICmpxchg operand operand nat
  | IXadd operand operand nat
  | IBswap operand nat
  | IBsf operand operand nat bool
  | IBsr operand operand nat bool
  | IPopcnt operand operand nat
  | IX87 x87op
  | IExt "bool exec"
  | INone

section \<open>Helpers\<close>

text \<open>\<open>return false, f()\<close>: an instruction that does not branch.\<close>

definition no_branch :: "unit exec \<Rightarrow> bool exec" where
  "no_branch f = bindE f (\<lambda>_. ret False)"

definition set_rip :: "u64 \<Rightarrow> bool exec" where
  "set_rip v = bindE (on_regs (\<lambda>r. r\<lparr>r_rip := v\<rparr>)) (\<lambda>_. ret True)"

definition jump_rel :: "u64 \<Rightarrow> bool exec" where
  "jump_rel rel = bindE (getS c_curInstrEnd) (\<lambda>e. set_rip (e + rel))"

section \<open>Data movement, stack and control flow\<close>

definition exec_test :: "operand \<Rightarrow> operand \<Rightarrow> nat \<Rightarrow> unit exec" where
  "exec_test rm reg w =
     bindE (readOperand rm w) (\<lambda>a. bindE (readOperand reg w) (\<lambda>b. on_regs (logicFlags (a AND b) w)))"

definition exec_test_imm :: "operand \<Rightarrow> u64 \<Rightarrow> nat \<Rightarrow> unit exec" where
  "exec_test_imm x immV w = bindE (readOperand x w) (\<lambda>a. on_regs (logicFlags (a AND immV) w))"

definition exec_mov :: "operand \<Rightarrow> operand \<Rightarrow> nat \<Rightarrow> unit exec" where
  "exec_mov dst src w = bindE (readOperand src w) (\<lambda>v. writeOperand dst w v)"

definition exec_xchg :: "operand \<Rightarrow> operand \<Rightarrow> nat \<Rightarrow> unit exec" where
  "exec_xchg x y w =
     bindE (readOperand x w) (\<lambda>a.
     bindE (readOperand y w) (\<lambda>b.
     bindE (writeOperand x w b) (\<lambda>_. writeOperand y w a)))"

definition exec_pop_reg :: "nat \<Rightarrow> unit exec" where
  "exec_pop_reg reg = bindE pop64 (\<lambda>v. on_regs (write64 reg v))"

definition exec_add32 :: "nat \<Rightarrow> u32 \<Rightarrow> unit exec" where
  "exec_add32 reg imm = bindE (with_flags (\<lambda>r. add32Flags (read32 reg r) imm r)) (\<lambda>v. on_regs (write32 reg v))"

definition exec_inc32 :: "nat \<Rightarrow> unit exec" where
  "exec_inc32 reg = bindE (with_flags (\<lambda>r. inc32Flags (read32 reg r) r)) (\<lambda>v. on_regs (write32 reg v))"

definition exec_dec32 :: "nat \<Rightarrow> unit exec" where
  "exec_dec32 reg = bindE (with_flags (\<lambda>r. dec32Flags (read32 reg r) r)) (\<lambda>v. on_regs (write32 reg v))"

definition exec_inc :: "operand \<Rightarrow> nat \<Rightarrow> unit exec" where
  "exec_inc rm w = bindE (readOperand rm w) (\<lambda>a. bindE (with_flags (incFlags a w)) (writeOperand rm w))"

definition exec_dec :: "operand \<Rightarrow> nat \<Rightarrow> unit exec" where
  "exec_dec rm w = bindE (readOperand rm w) (\<lambda>a. bindE (with_flags (decFlags a w)) (writeOperand rm w))"

definition exec_call_rm :: "operand \<Rightarrow> bool exec" where
  "exec_call_rm rm =
     bindE (readOperand rm 8) (\<lambda>target.
     bindE (getS c_curInstrEnd) (\<lambda>e.
     bindE (push64 e) (\<lambda>_. set_rip target)))"

definition exec_call :: "u64 \<Rightarrow> bool exec" where
  "exec_call rel =
     bindE (getS c_curInstrEnd) (\<lambda>e. bindE (push64 e) (\<lambda>_. set_rip (e + rel)))"

definition exec_jcc :: "nat \<Rightarrow> u64 \<Rightarrow> bool exec" where
  "exec_jcc cc rel = bindE (regs (evalCC cc)) (\<lambda>taken. if taken then jump_rel rel else ret False)"

definition exec_ret_n :: "u16 \<Rightarrow> bool exec" where
  "exec_ret_n n =
     bindE pop64 (\<lambda>target.
     bindE (add_gpr RegRSP (ucast n)) (\<lambda>_. set_rip target))"

definition exec_leave :: "unit exec" where
  "exec_leave =
     bindE (on_regs (\<lambda>r. set_gpr RegRSP (r_gpr r RegRBP) r)) (\<lambda>_.
     bindE pop64 (\<lambda>v. on_regs (set_gpr RegRBP v)))"

text \<open>CDQE, CWDE, CBW (0x98) and CQO, CDQ, CWD (0x99).\<close>

definition exec_convert :: "nat \<Rightarrow> bool \<Rightarrow> unit exec" where
  "exec_convert w rex = on_regs (\<lambda>r.
     if w = 8 then write64 0 (signExtend (ucast (read32 0 r)) 32) r
     else if w = 4 then write32 0 (ucast (signExtend (ucast (read16 0 r)) 16)) r
     else if w = 2 then write16 0 (scast (read8 0 rex r)) r
     else r)"

definition exec_sign_dx :: "nat \<Rightarrow> unit exec" where
  "exec_sign_dx w = on_regs (\<lambda>r.
     if w = 8 then write64 2 (if sint (read64 0 r) < 0 then NOT 0 else 0) r
     else if w = 4 then write32 2 (if sint (read32 0 r) < 0 then 0xFFFFFFFF else 0) r
     else if w = 2 then write16 2 (if sint (read16 0 r) < 0 then 0xFFFF else 0) r
     else r)"

definition exec_shift :: "nat \<Rightarrow> operand \<Rightarrow> nat \<Rightarrow> shiftCount \<Rightarrow> unit exec" where
  "exec_shift idx rm w cnt =
     bindE (case cnt of CountImm v \<Rightarrow> ret (unat v) | CountOne \<Rightarrow> ret 1
              | CountCL rex \<Rightarrow> regs (\<lambda>r. unat (read8 1 rex r)))
       (\<lambda>count. shiftGrp2 idx rm w count)"

section \<open>The scalar two-byte instructions\<close>

definition exec_setcc :: "nat \<Rightarrow> operand \<Rightarrow> unit exec" where
  "exec_setcc cc rm = bindE (regs (evalCC cc)) (\<lambda>t. writeOperand rm 1 (if t then 1 else 0))"

definition exec_cmovcc :: "nat \<Rightarrow> operand \<Rightarrow> operand \<Rightarrow> nat \<Rightarrow> unit exec" where
  "exec_cmovcc cc reg rm w =
     bindE (regs (evalCC cc)) (\<lambda>t. if \<not> t then ret () else bindE (readOperand rm w) (writeOperand reg w))"

definition exec_movzx :: "operand \<Rightarrow> operand \<Rightarrow> nat \<Rightarrow> nat \<Rightarrow> unit exec" where
  "exec_movzx reg rm srcW dstW = bindE (readOperand rm srcW) (writeOperand reg dstW)"

definition exec_movsx :: "operand \<Rightarrow> operand \<Rightarrow> nat \<Rightarrow> nat \<Rightarrow> unit exec" where
  "exec_movsx reg rm srcW dstW = bindE (readOperand rm srcW) (\<lambda>v. writeOperand reg dstW (signExtend v (srcW * 8)))"

definition exec_imul_rr :: "operand \<Rightarrow> operand \<Rightarrow> nat \<Rightarrow> unit exec" where
  "exec_imul_rr reg rm w = bindE (readOperand reg w) (\<lambda>a. bindE (readOperand rm w) (\<lambda>b. imul2 reg a b w))"

text \<open>
  SHLD and SHRD. \<open>cnt &= bits - 1\<close> is a remainder, the operand width being 16, 32 or 64 bits. The
  boolean selects the direction.
\<close>

definition shld_flags :: "u64 \<Rightarrow> u64 \<Rightarrow> bool \<Rightarrow> nat \<Rightarrow> nat \<Rightarrow> registers \<Rightarrow> registers" where
  "shld_flags dst result cf cnt bits r =
     setFlag flagOF (cnt = 1 \<and> drop_bit (bits - 1) result \<noteq> drop_bit (bits - 1) dst)
       (setFlag flagSF (drop_bit (bits - 1) result \<noteq> 0)
         (setFlag flagZF (result = 0) (setFlag flagCF cf r)))"

definition exec_shld :: "operand \<Rightarrow> operand \<Rightarrow> nat \<Rightarrow> u8 option \<Rightarrow> unit exec" where
  "exec_shld rm reg w immByte =
     bindE (readOperand rm w) (\<lambda>dst.
     bindE (readOperand reg w) (\<lambda>src.
     bindE (case immByte of Some v \<Rightarrow> ret (unat v) | None \<Rightarrow> regs (\<lambda>r. unat (r_gpr r RegRCX AND 0xFF))) (\<lambda>cnt0.
     let bits = w * 8; cnt = cnt0 mod bits in
     if cnt = 0 then ret ()
     else let result = (push_bit cnt dst OR drop_bit (bits - cnt) src) AND maskWidth w;
              cf = (drop_bit (bits - cnt) dst AND 1 \<noteq> 0) in
       bindE (on_regs (shld_flags dst result cf cnt bits)) (\<lambda>_. writeOperand rm w result))))"

definition exec_shrd :: "operand \<Rightarrow> operand \<Rightarrow> nat \<Rightarrow> u8 option \<Rightarrow> unit exec" where
  "exec_shrd rm reg w immByte =
     bindE (readOperand rm w) (\<lambda>dst.
     bindE (readOperand reg w) (\<lambda>src.
     bindE (case immByte of Some v \<Rightarrow> ret (unat v) | None \<Rightarrow> regs (\<lambda>r. unat (r_gpr r RegRCX AND 0xFF))) (\<lambda>cnt0.
     let bits = w * 8; cnt = cnt0 mod bits in
     if cnt = 0 then ret ()
     else let result = (drop_bit cnt dst OR push_bit (bits - cnt) src) AND maskWidth w;
              cf = (drop_bit (cnt - 1) dst AND 1 \<noteq> 0) in
       bindE (on_regs (shld_flags dst result cf cnt bits)) (\<lambda>_. writeOperand rm w result))))"

text \<open>
  BT, BTS, BTR, BTC with a register bit offset. For a memory operand the closure overwrites the
  captured operand and width before it reads; \<open>bt_target\<close> gives the new values, which
  \<open>insn_after\<close> also stores back, as the Go closure keeps them for its next run.
\<close>

definition bt_byteOff :: "u64 \<Rightarrow> u64" where
  "bt_byteOff bit' = (let bitOff = sint bit'; q = bitOff sdiv 8 in
     word_of_int (if bitOff < 0 \<and> bitOff smod 8 \<noteq> 0 then q - 1 else q))"

definition bt_target :: "operand \<Rightarrow> nat \<Rightarrow> u64 \<Rightarrow> cpu \<Rightarrow> u64 \<times> operand \<times> nat" where
  "bt_target rm w bit' c =
     (if o_kind rm = opndReg then (bit' AND (of_nat w * 8 - 1), rm, w)
      else (bit' AND 7,
            rm\<lparr>o_addr := effAddr rm c + bt_byteOff bit', o_ripRelative := False, o_seg := segOverrideNone\<rparr>, 1))"

definition bt_write :: "btOp \<Rightarrow> operand \<Rightarrow> nat \<Rightarrow> u64 \<Rightarrow> u64 \<Rightarrow> unit exec" where
  "bt_write op rm w base bit' = (let m = push_bit (unat bit') 1 in
     case op of
       BT \<Rightarrow> ret ()
     | BTS \<Rightarrow> writeOperand rm w (base OR m)
     | BTR \<Rightarrow> writeOperand rm w (base AND NOT m)
     | BTC \<Rightarrow> writeOperand rm w (base XOR m))"

definition exec_bt :: "btOp \<Rightarrow> operand \<Rightarrow> operand \<Rightarrow> nat \<Rightarrow> unit exec" where
  "exec_bt op rm reg w =
     bindE (readOperand reg w) (\<lambda>b0.
     bindE (getS (bt_target rm w b0)) (\<lambda>(b, rm1, w1).
     bindE (readOperand rm1 w1) (\<lambda>base.
     bindE (on_regs (setFlag flagCF (drop_bit (unat b) base AND 1 \<noteq> 0))) (\<lambda>_.
     bt_write op rm1 w1 base b))))"

definition exec_bt_imm :: "nat \<Rightarrow> operand \<Rightarrow> nat \<Rightarrow> u8 \<Rightarrow> unit exec" where
  "exec_bt_imm idx rm w imm =
     bindE (readOperand rm w) (\<lambda>base.
     let b = ucast imm AND (of_nat w * 8 - 1) in
     bindE (on_regs (setFlag flagCF (drop_bit (unat b) base AND 1 \<noteq> 0))) (\<lambda>_.
     bt_write (if idx = 5 then BTS else if idx = 6 then BTR else if idx = 7 then BTC else BT) rm w base b))"

definition exec_cmpxchg :: "operand \<Rightarrow> operand \<Rightarrow> nat \<Rightarrow> unit exec" where
  "exec_cmpxchg rm reg w =
     bindE (readOperand rm w) (\<lambda>dest.
     bindE (readOperand (regOperand RegRAX False) w) (\<lambda>acc.
     bindE (readOperand reg w) (\<lambda>src.
     bindE (with_flags (subWithFlags dest acc w)) (\<lambda>_.
     let dest' = dest AND maskWidth w; acc' = acc AND maskWidth w in
     if dest' = acc' then writeOperand rm w src
     else writeOperand (regOperand RegRAX False) w dest'))))"

definition exec_xadd :: "operand \<Rightarrow> operand \<Rightarrow> nat \<Rightarrow> unit exec" where
  "exec_xadd rm reg w =
     bindE (readOperand rm w) (\<lambda>dest.
     bindE (readOperand reg w) (\<lambda>src.
     bindE (with_flags (addWithFlags dest src w)) (\<lambda>sum.
     bindE (writeOperand reg w dest) (\<lambda>_.
     writeOperand rm w sum))))"

definition bswap :: "u64 \<Rightarrow> nat \<Rightarrow> u64" where
  "bswap v w = fold (\<lambda>i swapped. swapped OR push_bit (8 * (w - 1 - i)) (drop_bit (8 * i) v AND 0xFF)) [0..<w] 0"

definition exec_bswap :: "operand \<Rightarrow> nat \<Rightarrow> unit exec" where
  "exec_bswap reg w = bindE (readOperand reg w) (\<lambda>v. writeOperand reg w (bswap v w))"

section \<open>Bit scans\<close>

text \<open>\<open>for count < n && (v >> count) & 1 == 0 { count++ }\<close>.\<close>

function scan_up :: "u64 \<Rightarrow> nat \<Rightarrow> nat \<Rightarrow> nat" where
  "scan_up v n count = (if count < n \<and> drop_bit count v AND 1 = 0 then scan_up v n (count + 1) else count)"
  by pat_completeness auto
termination
  by (relation "measure (\<lambda>(v, n, count). n - count)") auto

declare scan_up.simps [simp del]

text \<open>\<open>for count < bits && (v >> (bits - 1 - count)) & 1 == 0 { count++ }\<close>.\<close>

function lz_scan :: "u64 \<Rightarrow> nat \<Rightarrow> nat \<Rightarrow> nat" where
  "lz_scan v bits count =
     (if count < bits \<and> drop_bit (bits - 1 - count) v AND 1 = 0 then lz_scan v bits (count + 1) else count)"
  by pat_completeness auto
termination
  by (relation "measure (\<lambda>(v, bits, count). bits - count)") auto

declare lz_scan.simps [simp del]

text \<open>
  BSR counts down from the top bit with no lower bound, BSF up with no upper one; both run on a
  non-zero operand only, where they stop before leaving its bits (\<open>bsf_correct\<close>, \<open>bsr_correct\<close>).
\<close>

primrec scan_down :: "u64 \<Rightarrow> nat \<Rightarrow> nat" where
  "scan_down v 0 = 0"
| "scan_down v (Suc n) = (if drop_bit (Suc n) v AND 1 = 0 then scan_down v n else Suc n)"

function popcnt_loop :: "u64 \<Rightarrow> u64 \<Rightarrow> u64" where
  "popcnt_loop v cnt = (if v \<noteq> 0 then popcnt_loop (drop_bit 1 v) (cnt + (v AND 1)) else cnt)"
  by pat_completeness auto
termination
proof (relation "measure (\<lambda>(v, cnt). unat v)", goal_cases)
  case (2 v cnt)
  have half: "unat (drop_bit 1 v) = unat v div 2" by (simp only: unat_drop_bit_eq) (simp add: drop_bit_eq_div)
  have "0 < unat v" using 2 by (simp add: unat_gt_0)
  then have "unat (drop_bit 1 v) < unat v" unfolding half by simp
  then show ?case by (simp only: in_measure case_prod_conv)
qed simp

declare popcnt_loop.simps [simp del]

definition exec_bsf :: "operand \<Rightarrow> operand \<Rightarrow> nat \<Rightarrow> bool \<Rightarrow> unit exec" where
  "exec_bsf reg rm w f3 =
     bindE (readOperand rm w) (\<lambda>v0.
     let v = v0 AND maskWidth w in
     if f3 then let count = scan_up v (w * 8) 0 in
       bindE (on_regs (setFlag flagZF (count = 0) \<circ> setFlag flagCF (v = 0)))
         (\<lambda>_. writeOperand reg w (of_nat count))
     else
       bindE (on_regs (setFlag flagZF (v = 0))) (\<lambda>_.
       if v = 0 then ret () else writeOperand reg w (of_nat (scan_up v 64 0))))"

definition exec_bsr :: "operand \<Rightarrow> operand \<Rightarrow> nat \<Rightarrow> bool \<Rightarrow> unit exec" where
  "exec_bsr reg rm w f3 =
     bindE (readOperand rm w) (\<lambda>v0.
     let v = v0 AND maskWidth w in
     if f3 then let count = lz_scan v (w * 8) 0 in
       bindE (on_regs (setFlag flagZF (count = 0) \<circ> setFlag flagCF (v = 0)))
         (\<lambda>_. writeOperand reg w (of_nat count))
     else
       bindE (on_regs (setFlag flagZF (v = 0))) (\<lambda>_.
       if v = 0 then ret () else writeOperand reg w (of_nat (scan_down v (w * 8 - 1)))))"

definition popcnt_flags :: "u64 \<Rightarrow> registers \<Rightarrow> registers" where
  "popcnt_flags cnt r =
     setFlag flagPF False (setFlag flagAF False (setFlag flagSF False
       (setFlag flagOF False (setFlag flagCF False (setFlag flagZF (cnt = 0) r)))))"

definition exec_popcnt :: "operand \<Rightarrow> operand \<Rightarrow> nat \<Rightarrow> unit exec" where
  "exec_popcnt reg rm w =
     bindE (readOperand rm w) (\<lambda>v.
     let cnt = popcnt_loop (v AND maskWidth w) 0 in
     bindE (on_regs (popcnt_flags cnt)) (\<lambda>_. writeOperand reg w cnt))"

section \<open>Running an instruction\<close>

text \<open>
  \<open>d.exec(e)\<close>: the boolean tells whether the closure has set RIP. \<open>INone\<close> is the nil closure of
  SYSCALL and CPUID, which the run loop never calls (\<open>Run_Loop\<close>).
\<close>

definition exec_insn :: "insn \<Rightarrow> bool exec" where
  "exec_insn i = (case i of
     IAlu idx dst src w \<Rightarrow> no_branch (aluBinOp idx dst src w)
   | IAdd32 reg imm \<Rightarrow> no_branch (exec_add32 reg imm)
   | ITest rm reg w \<Rightarrow> no_branch (exec_test rm reg w)
   | ITestImm x v w \<Rightarrow> no_branch (exec_test_imm x v w)
   | IMov dst src w \<Rightarrow> no_branch (exec_mov dst src w)
   | IMovImm dst w v \<Rightarrow> no_branch (writeOperand dst w v)
   | ILea reg rm w \<Rightarrow> no_branch (bindE (leaAddr rm) (writeOperand reg w))
   | IPushReg reg \<Rightarrow> no_branch (bindE (regs (read64 reg)) push64)
   | IPopReg reg \<Rightarrow> no_branch (exec_pop_reg reg)
   | IPushImm v \<Rightarrow> no_branch (push64 v)
   | IPushRM rm \<Rightarrow> no_branch (bindE (readOperand rm 8) push64)
   | IXchg x y w \<Rightarrow> no_branch (exec_xchg x y w)
   | IMovsxd reg rm \<Rightarrow> no_branch (bindE (readOperand rm 4) (\<lambda>v. writeOperand reg 8 (signExtend v 32)))
   | IImul3 reg rm v w \<Rightarrow> no_branch (bindE (readOperand rm w) (\<lambda>a. imul2 reg a v w))
   | IGrp3 idx rm w \<Rightarrow> no_branch (grp3Op idx rm w)
   | IInc32 reg \<Rightarrow> no_branch (exec_inc32 reg)
   | IDec32 reg \<Rightarrow> no_branch (exec_dec32 reg)
   | IInc rm w \<Rightarrow> no_branch (exec_inc rm w)
   | IDec rm w \<Rightarrow> no_branch (exec_dec rm w)
   | ICallRM rm \<Rightarrow> exec_call_rm rm
   | IJmpRM rm \<Rightarrow> bindE (readOperand rm 8) set_rip
   | IShift idx rm w cnt \<Rightarrow> no_branch (exec_shift idx rm w cnt)
   | ICall rel \<Rightarrow> exec_call rel
   | IJmp rel \<Rightarrow> jump_rel rel
   | IJcc cc rel \<Rightarrow> exec_jcc cc rel
   | IRet \<Rightarrow> bindE pop64 set_rip
   | IRetN n \<Rightarrow> exec_ret_n n
   | ILeave \<Rightarrow> no_branch exec_leave
   | IConvert w rex \<Rightarrow> no_branch (exec_convert w rex)
   | ISignDX w \<Rightarrow> no_branch (exec_sign_dx w)
   | INop \<Rightarrow> ret False
   | ISetDF b \<Rightarrow> no_branch (on_regs (setFlag flagDF b))
   | IMovs w rep \<Rightarrow> no_branch (strMovs w rep)
   | IStos w rep rex \<Rightarrow> no_branch (strStos w rep rex)
   | ILods w rep rex \<Rightarrow> no_branch (strLods w rep rex)
   | ICmps w rep \<Rightarrow> no_branch (strCmps w rep)
   | IScas w rep rex \<Rightarrow> no_branch (strScas w rep rex)
   | ISetcc cc rm \<Rightarrow> no_branch (exec_setcc cc rm)
   | ICmovcc cc reg rm w \<Rightarrow> no_branch (exec_cmovcc cc reg rm w)
   | IMovzx reg rm sw dw \<Rightarrow> no_branch (exec_movzx reg rm sw dw)
   | IMovsx reg rm sw dw \<Rightarrow> no_branch (exec_movsx reg rm sw dw)
   | IImul2 reg rm w \<Rightarrow> no_branch (exec_imul_rr reg rm w)
   | IShld rm reg w imm \<Rightarrow> no_branch (exec_shld rm reg w imm)
   | IShrd rm reg w imm \<Rightarrow> no_branch (exec_shrd rm reg w imm)
   | IBt bop rm reg w \<Rightarrow> no_branch (exec_bt bop rm reg w)
   | IBtImm idx rm w imm \<Rightarrow> no_branch (exec_bt_imm idx rm w imm)
   | ICmpxchg rm reg w \<Rightarrow> no_branch (exec_cmpxchg rm reg w)
   | IXadd rm reg w \<Rightarrow> no_branch (exec_xadd rm reg w)
   | IBswap reg w \<Rightarrow> no_branch (exec_bswap reg w)
   | IBsf reg rm w f3 \<Rightarrow> no_branch (exec_bsf reg rm w f3)
   | IBsr reg rm w f3 \<Rightarrow> no_branch (exec_bsr reg rm w f3)
   | IPopcnt reg rm w \<Rightarrow> no_branch (exec_popcnt reg rm w)
   | IX87 x \<Rightarrow> no_branch (exec_x87 x)
   | IExt f \<Rightarrow> f
   | INone \<Rightarrow> fail GoPanic)"

text \<open>
  The closure after a run that got past its first operand read: only the memory form of BT, BTS,
  BTR and BTC overwrites what it captured.
\<close>

definition insn_after :: "insn \<Rightarrow> cpu \<Rightarrow> insn" where
  "insn_after i c = (case i of
     IBt bop rm reg w \<Rightarrow>
       (case readOperand reg w c of
          (Inr b0, c') \<Rightarrow> (case bt_target rm w b0 c' of (_, rm1, w1) \<Rightarrow> IBt bop rm1 reg w1)
        | _ \<Rightarrow> i)
   | _ \<Rightarrow> i)"

end
