(* ===== verification/Decode.thy ===== *)
theory Decode
  imports Modrm Insn
begin

unbundle bit_operations_syntax

text \<open>
  The instruction decoder, \<open>decodeOne\<close> of \<open>internal/cpu/decode.go\<close> and the scalar part of
  \<open>decodeTwoByte\<close> of \<open>twobyte.go\<close>: prefixes, one definition per opcode case, and the dispatch. The
  SSE and VEX decoders are an argument (\<open>ext_decoders\<close>); the code's own are in \<open>Sse_Decode\<close>.
\<close>

section \<open>Prefixes and the decoded instruction\<close>

record pfx =
  p_opSize16 :: bool
  p_segFS :: bool
  p_segGS :: bool
  p_rep :: repKind
  p_rexPresent :: bool
  p_rexW :: bool
  p_rexR :: bool
  p_rexX :: bool
  p_rexB :: bool

definition no_pfx :: pfx where
  "no_pfx = \<lparr>p_opSize16 = False, p_segFS = False, p_segGS = False, p_rep = repNone, p_rexPresent = False,
     p_rexW = False, p_rexR = False, p_rexX = False, p_rexB = False\<rparr>"

abbreviation (input) InsSyscall :: int where "InsSyscall \<equiv> 0"
abbreviation (input) InsCpuid :: int where "InsCpuid \<equiv> 1"
abbreviation (input) noInsnHook :: int where "noInsnHook \<equiv> - 1"

record decoded =
  d_len :: nat
  d_insnID :: int
  d_endsBlock :: bool
  d_exec :: insn

text \<open>
  \<open>decodeSSE0F\<close>, \<open>decodeThreeByte38\<close>, \<open>decodeThreeByte3A\<close> and \<open>decodeVexInsn\<close>: they read further
  bytes through the cursor and give the closure they pass to \<open>finish\<close>.
\<close>

record ext_decoders =
  x_sse :: "u8 \<Rightarrow> pfx \<Rightarrow> bool exec dec"
  x_38 :: "pfx \<Rightarrow> bool exec dec"
  x_3A :: "pfx \<Rightarrow> bool exec dec"
  x_vex :: "u8 \<Rightarrow> pfx \<Rightarrow> vexState \<Rightarrow> bool exec dec"

definition opWidth :: "pfx \<Rightarrow> bool \<Rightarrow> nat" where
  "opWidth p byteOp = (if byteOp then 1 else if p_rexW p then 8 else if p_opSize16 p then 2 else 4)"

definition applySeg :: "pfx \<Rightarrow> operand \<Rightarrow> operand" where
  "applySeg p x =
     (if o_kind x \<noteq> opndMem \<or> o_ripRelative x then x
      else if p_segFS p then x\<lparr>o_seg := segOverrideFS\<rparr>
      else if p_segGS p then x\<lparr>o_seg := segOverrideGS\<rparr>
      else x)"

definition finish_as :: "int \<Rightarrow> bool \<Rightarrow> insn \<Rightarrow> decoded dec" where
  "finish_as insnID ends i =
     bindE (getS k_pos) (\<lambda>n. ret \<lparr>d_len = n, d_insnID = insnID, d_endsBlock = ends, d_exec = i\<rparr>)"

definition finish :: "insn \<Rightarrow> decoded dec" where
  "finish i = finish_as noInsnHook False i"

definition finishBranch :: "insn \<Rightarrow> decoded dec" where
  "finishBranch i = finish_as noInsnHook True i"

section \<open>Operand helpers\<close>

definition modrm :: "pfx \<Rightarrow> modrmResult dec" where
  "modrm p = decodeModRM (p_rexPresent p) (p_rexR p) (p_rexX p) (p_rexB p)"

text \<open>
  \<open>mr := decodeModRM(..); rm := applySeg(mr.rm); reg := regOperand(mr.regField, rexPresent)\<close>, and
  the group index \<open>mr.regField & 7\<close>.
\<close>

definition with_rm :: "pfx \<Rightarrow> (operand \<Rightarrow> operand \<Rightarrow> 'a dec) \<Rightarrow> 'a dec" where
  "with_rm p f = bindE (modrm p) (\<lambda>mr. f (applySeg p (mr_rm mr)) (regOperand (mr_regField mr) (p_rexPresent p)))"

definition with_group :: "pfx \<Rightarrow> (operand \<Rightarrow> nat \<Rightarrow> 'a dec) \<Rightarrow> 'a dec" where
  "with_group p f = bindE (modrm p) (\<lambda>mr. f (applySeg p (mr_rm mr)) (mr_regField mr mod 8))"

text \<open>The register in the low three bits of an opcode, extended by REX.B.\<close>

definition opcode_reg :: "pfx \<Rightarrow> u8 \<Rightarrow> u8 \<Rightarrow> nat" where
  "opcode_reg p op base = unat (op - base) + 8 * boolBit (p_rexB p)"

text \<open>The two immediate forms: sign-extended (ALU), and cut to the operand width (TEST, MOV).\<close>

definition imm_sx :: "nat \<Rightarrow> u64 dec" where
  "imm_sx w = (if w = 2 then bindE fetch_u16 (\<lambda>v. ret (signExtend (ucast v) 16)) else fetch_i32)"

definition imm_zx :: "bool \<Rightarrow> nat \<Rightarrow> u64 dec" where
  "imm_zx byteOp w =
     (if byteOp then bindE fetch_u8 (\<lambda>v. ret (ucast v))
      else if w = 2 then bindE fetch_u16 (\<lambda>v. ret (ucast v))
      else bindE fetch_i32 (\<lambda>v. ret (v AND maskWidth w)))"

section \<open>x87 (0xD8 to 0xDF)\<close>

definition dec_x87_reg :: "u8 \<Rightarrow> nat \<Rightarrow> nat \<Rightarrow> decoded dec" where
  "dec_x87_reg op reg index =
     (if op = 0xD8 \<and> reg = 0 then finish (IX87 (XAdd index))
      else if op = 0xD9 \<and> reg = 0 then finish (IX87 (XPushST index))
      else if op = 0xD9 \<and> reg = 1 then finish (IX87 (XExchange index))
      else if op = 0xD9 \<and> reg = 5 \<and> index = 6 then finish (IX87 XPushZero)
      else if op = 0xDB \<and> reg = 5 then finish (IX87 (XCompare index False))
      else if op = 0xDE \<and> reg = 5 then finish (IX87 (XSubPop index))
      else if op = 0xDD \<and> reg = 3 then finish (IX87 (XStoreReg index True))
      else if op = 0xDF \<and> reg = 5 then finish (IX87 (XCompare index True))
      else fail (UnsupportedX87 op reg))"

text \<open>The load and store table: whether to load, whether to pop, and the width (0: unsupported).\<close>

definition x87_form :: "u8 \<Rightarrow> nat \<Rightarrow> bool \<times> bool \<times> nat" where
  "x87_form op reg =
     (if op = 0xD9 then
        (if reg = 0 then (True, False, 4) else if reg = 2 then (False, False, 4)
         else if reg = 3 then (False, True, 4) else (False, False, 0))
      else if op = 0xDB then
        (if reg = 5 then (True, False, 10) else if reg = 7 then (False, True, 10) else (False, False, 0))
      else if op = 0xDD then
        (if reg = 0 then (True, False, 8) else if reg = 2 then (False, False, 8)
         else if reg = 3 then (False, True, 8) else (False, False, 0))
      else (False, False, 0))"

definition dec_x87_mem :: "u8 \<Rightarrow> nat \<Rightarrow> operand \<Rightarrow> decoded dec" where
  "dec_x87_mem op reg rm =
     (if op = 0xD8 then
        (if reg \<noteq> 1 then fail (UnsupportedX87 op reg) else finish (IX87 (XMul32 rm)))
      else if op = 0xD9 \<and> reg = 5 then finish (IX87 (XLoadControl rm))
      else if op = 0xD9 \<and> reg = 7 then finish (IX87 (XStoreControl rm))
      else if op = 0xDE then fail (UnsupportedX87 op reg)
      else if op = 0xDF then
        (if reg = 5 then finish (IX87 (XLoadInt rm 8))
         else if reg = 7 then finish (IX87 (XStoreInt rm 8 True))
         else fail (UnsupportedX87 op reg))
      else let (load, pop, w) = x87_form op reg in
        if w = 0 then fail (UnsupportedX87 op reg)
        else finish (IX87 (if load then XLoad rm w else XStore rm w pop)))"

definition dec_x87 :: "pfx \<Rightarrow> u8 \<Rightarrow> decoded dec" where
  "dec_x87 p op =
     bindE (modrm p) (\<lambda>mr.
     let reg = mr_regField mr mod 8; index = o_reg (mr_rm mr) mod 8 in
     if o_kind (mr_rm mr) \<noteq> opndMem then dec_x87_reg op reg index
     else dec_x87_mem op reg (applySeg p (mr_rm mr)))"

section \<open>ALU, TEST and MOV\<close>

definition dec_alu :: "pfx \<Rightarrow> u8 \<Rightarrow> decoded dec" where
  "dec_alu p op =
     (let idx = unat (drop_bit 3 op); form = unat (op AND 7) in
      if form \<le> 3 then
        let w = opWidth p (form = 0 \<or> form = 2) in
        with_rm p (\<lambda>rm reg. finish (if form = 2 \<or> form = 3 then IAlu idx reg rm w else IAlu idx rm reg w))
      else if form = 4 then
        bindE fetch_u8 (\<lambda>imm. finish (IAlu idx (regOperand 0 (p_rexPresent p)) (immOperand (ucast imm)) 1))
      else let w = opWidth p False in
        bindE (imm_sx w) (\<lambda>immV.
        if idx = 0 \<and> w = 4 then finish (IAdd32 0 (ucast immV))
        else finish (IAlu idx (regOperand 0 (p_rexPresent p)) (immOperand immV) w)))"

definition dec_grp1 :: "pfx \<Rightarrow> u8 \<Rightarrow> decoded dec" where
  "dec_grp1 p op =
     (let w = opWidth p (op = 0x80) in
      with_group p (\<lambda>rm idx.
      bindE (if op = 0x80 then bindE fetch_u8 (\<lambda>v. ret (signExtend (ucast v) 8))
             else if op = 0x81 then imm_sx w else fetch_i8) (\<lambda>immV.
      if idx = 0 \<and> w = 4 \<and> o_kind rm = opndReg then finish (IAdd32 (o_reg rm) (ucast immV))
      else finish (IAlu idx rm (immOperand immV) w))))"

definition dec_test :: "pfx \<Rightarrow> u8 \<Rightarrow> decoded dec" where
  "dec_test p op = with_rm p (\<lambda>rm reg. finish (ITest rm reg (opWidth p (op = 0x84))))"

definition dec_test_acc :: "pfx \<Rightarrow> u8 \<Rightarrow> decoded dec" where
  "dec_test_acc p op = (let w = opWidth p (op = 0xA8) in
     bindE (imm_zx (op = 0xA8) w) (\<lambda>immV. finish (ITestImm (regOperand 0 (p_rexPresent p)) immV w)))"

definition dec_mov :: "pfx \<Rightarrow> u8 \<Rightarrow> decoded dec" where
  "dec_mov p op = (let w = opWidth p (op = 0x88 \<or> op = 0x8A) in
     with_rm p (\<lambda>rm reg. finish (if op = 0x8A \<or> op = 0x8B then IMov reg rm w else IMov rm reg w)))"

definition dec_mov_imm :: "pfx \<Rightarrow> u8 \<Rightarrow> decoded dec" where
  "dec_mov_imm p op = (let w = opWidth p (op = 0xC6) in
     with_rm p (\<lambda>rm reg. bindE (imm_zx (op = 0xC6) w) (\<lambda>immV. finish (IMovImm rm w immV))))"

definition dec_mov_r8 :: "pfx \<Rightarrow> u8 \<Rightarrow> decoded dec" where
  "dec_mov_r8 p op =
     bindE fetch_u8 (\<lambda>imm. finish (IMovImm (regOperand (opcode_reg p op 0xB0) (p_rexPresent p)) 1 (ucast imm)))"

definition dec_mov_r :: "pfx \<Rightarrow> u8 \<Rightarrow> decoded dec" where
  "dec_mov_r p op = (let w = opWidth p False in
     bindE (if w = 8 then fetch_u64 else if w = 2 then bindE fetch_u16 (\<lambda>v. ret (ucast v))
            else bindE fetch_u32 (\<lambda>v. ret (ucast v))) (\<lambda>immV.
     finish (IMovImm (regOperand (opcode_reg p op 0xB8) (p_rexPresent p)) w immV)))"

definition dec_lea :: "pfx \<Rightarrow> decoded dec" where
  "dec_lea p = bindE (modrm p) (\<lambda>mr.
     finish (ILea (regOperand (mr_regField mr) (p_rexPresent p)) (mr_rm mr) (opWidth p False)))"

definition dec_push_pop :: "pfx \<Rightarrow> u8 \<Rightarrow> decoded dec" where
  "dec_push_pop p op =
     (if op \<le> 0x57 then finish (IPushReg (opcode_reg p op 0x50)) else finish (IPopReg (opcode_reg p op 0x58)))"

definition dec_push_imm :: "u8 \<Rightarrow> decoded dec" where
  "dec_push_imm op = bindE (if op = 0x68 then fetch_i32 else fetch_i8) (\<lambda>imm. finish (IPushImm imm))"

definition dec_xchg :: "pfx \<Rightarrow> u8 \<Rightarrow> decoded dec" where
  "dec_xchg p op = with_rm p (\<lambda>rm reg. finish (IXchg rm reg (opWidth p (op = 0x86))))"

definition dec_movsxd :: "pfx \<Rightarrow> decoded dec" where
  "dec_movsxd p = with_rm p (\<lambda>rm reg. finish (IMovsxd reg rm))"

definition dec_imul3 :: "pfx \<Rightarrow> u8 \<Rightarrow> decoded dec" where
  "dec_imul3 p op = (let w = opWidth p False in
     with_rm p (\<lambda>rm reg.
     bindE (if op = 0x6B then fetch_i8 else imm_sx w) (\<lambda>immV. finish (IImul3 reg rm immV w))))"

section \<open>The groups\<close>

definition dec_grp3 :: "pfx \<Rightarrow> u8 \<Rightarrow> decoded dec" where
  "dec_grp3 p op = (let byteOp = (op = 0xF6); w = opWidth p byteOp in
     with_group p (\<lambda>rm idx.
     if idx = 0 \<or> idx = 1 then bindE (imm_zx byteOp w) (\<lambda>immV. finish (ITestImm rm immV w))
     else finish (IGrp3 idx rm w)))"

definition dec_grp45 :: "pfx \<Rightarrow> u8 \<Rightarrow> decoded dec" where
  "dec_grp45 p op = (let w = opWidth p (op = 0xFE) in
     with_group p (\<lambda>rm idx.
     let fast = (w = 4 \<and> o_kind rm = opndReg) in
     if fast \<and> idx = 0 then finish (IInc32 (o_reg rm))
     else if fast \<and> idx = 1 then finish (IDec32 (o_reg rm))
     else if idx = 0 then finish (IInc rm w)
     else if idx = 1 then finish (IDec rm w)
     else if idx = 2 then finishBranch (ICallRM rm)
     else if idx = 4 then finishBranch (IJmpRM rm)
     else if idx = 6 then finish (IPushRM rm)
     else fail (UnsupportedGroup idx (unat op))))"

definition dec_shift :: "pfx \<Rightarrow> u8 \<Rightarrow> decoded dec" where
  "dec_shift p op = (let w = opWidth p (op = 0xC0 \<or> op = 0xD0 \<or> op = 0xD2) in
     with_group p (\<lambda>rm idx.
     bindE (if op = 0xC0 \<or> op = 0xC1 then bindE fetch_u8 (\<lambda>v. ret (CountImm v))
            else if op = 0xD0 \<or> op = 0xD1 then ret CountOne
            else ret (CountCL (p_rexPresent p))) (\<lambda>cnt.
     finish (IShift idx rm w cnt))))"

section \<open>Control flow, sign conversions, strings\<close>

definition dec_control :: "u8 \<Rightarrow> decoded dec" where
  "dec_control op =
     (if op = 0xE8 then bindE fetch_i32 (\<lambda>rel. finishBranch (ICall rel))
      else if op = 0xE9 then bindE fetch_i32 (\<lambda>rel. finishBranch (IJmp rel))
      else if op = 0xEB then bindE fetch_i8 (\<lambda>rel. finishBranch (IJmp rel))
      else if op = 0xC3 then finishBranch IRet
      else if op = 0xC2 then bindE fetch_u16 (\<lambda>n. finishBranch (IRetN n))
      else bindE fetch_i8 (\<lambda>rel. finishBranch (IJcc (unat (op - 0x70)) rel)))"

definition dec_xchg_acc :: "pfx \<Rightarrow> u8 \<Rightarrow> decoded dec" where
  "dec_xchg_acc p op =
     (if op = 0x90 \<and> \<not> p_rexB p then finish INop
      else finish (IXchg (regOperand RegRAX (p_rexPresent p)) (regOperand (opcode_reg p op 0x90) (p_rexPresent p))
             (opWidth p False)))"

definition dec_string :: "pfx \<Rightarrow> u8 \<Rightarrow> decoded dec" where
  "dec_string p op =
     (if op = 0xA4 \<or> op = 0xA5 then finish (IMovs (opWidth p (op = 0xA4)) (p_rep p))
      else if op = 0xAA \<or> op = 0xAB then finish (IStos (opWidth p (op = 0xAA)) (p_rep p) (p_rexPresent p))
      else if op = 0xAC \<or> op = 0xAD then finish (ILods (opWidth p (op = 0xAC)) (p_rep p) (p_rexPresent p))
      else if op = 0xA6 \<or> op = 0xA7 then finish (ICmps (opWidth p (op = 0xA6)) (p_rep p))
      else finish (IScas (opWidth p (op = 0xAE)) (p_rep p) (p_rexPresent p)))"

section \<open>Two-byte opcodes\<close>

text \<open>Prefetch hints and the reserved NOPs: the operand bytes are consumed and nothing is accessed.\<close>

definition dec_hint :: "pfx \<Rightarrow> decoded dec" where
  "dec_hint p = bindE (modrm p) (\<lambda>_. finish INop)"

text \<open>0F 1E: ENDBR64 and ENDBR32, or a reserved NOP with a ModRM byte.\<close>

definition dec_endbr :: "pfx \<Rightarrow> decoded dec" where
  "dec_endbr p =
     bindE peek_opt (\<lambda>b.
     if b = Some 0xFA \<or> b = Some 0xFB then bindE (advance 1) (\<lambda>_. finish INop) else dec_hint p)"

definition dec_jcc_near :: "u8 \<Rightarrow> decoded dec" where
  "dec_jcc_near op2 = bindE fetch_i32 (\<lambda>rel. finishBranch (IJcc (unat (op2 - 0x80)) rel))"

definition dec_setcc :: "pfx \<Rightarrow> u8 \<Rightarrow> decoded dec" where
  "dec_setcc p op2 = with_rm p (\<lambda>rm _. finish (ISetcc (unat (op2 - 0x90)) rm))"

definition dec_cmovcc :: "pfx \<Rightarrow> u8 \<Rightarrow> decoded dec" where
  "dec_cmovcc p op2 = with_rm p (\<lambda>rm reg. finish (ICmovcc (unat (op2 - 0x40)) reg rm (opWidth p False)))"

definition dec_movx :: "pfx \<Rightarrow> u8 \<Rightarrow> decoded dec" where
  "dec_movx p op2 = (let dstW = opWidth p False in
     with_rm p (\<lambda>rm reg.
     if op2 = 0xB6 \<or> op2 = 0xB7 then finish (IMovzx reg rm (if op2 = 0xB7 then 2 else 1) dstW)
     else finish (IMovsx reg rm (if op2 = 0xBF then 2 else 1) dstW)))"

definition dec_imul2 :: "pfx \<Rightarrow> decoded dec" where
  "dec_imul2 p = with_rm p (\<lambda>rm reg. finish (IImul2 reg rm (opWidth p False)))"

definition opt_imm8 :: "bool \<Rightarrow> u8 option dec" where
  "opt_imm8 b = (if b then bindE fetch_u8 (\<lambda>v. ret (Some v)) else ret None)"

definition dec_shld :: "pfx \<Rightarrow> u8 \<Rightarrow> decoded dec" where
  "dec_shld p op2 = with_rm p (\<lambda>rm reg.
     bindE (opt_imm8 (op2 = 0xA4)) (\<lambda>imm. finish (IShld rm reg (opWidth p False) imm)))"

definition dec_shrd :: "pfx \<Rightarrow> u8 \<Rightarrow> decoded dec" where
  "dec_shrd p op2 = with_rm p (\<lambda>rm reg.
     bindE (opt_imm8 (op2 = 0xAC)) (\<lambda>imm. finish (IShrd rm reg (opWidth p False) imm)))"

definition dec_bt :: "pfx \<Rightarrow> u8 \<Rightarrow> decoded dec" where
  "dec_bt p op2 = with_rm p (\<lambda>rm reg.
     finish (IBt (if op2 = 0xAB then BTS else if op2 = 0xB3 then BTR else if op2 = 0xBB then BTC else BT)
               rm reg (opWidth p False)))"

definition dec_bt_imm :: "pfx \<Rightarrow> decoded dec" where
  "dec_bt_imm p = with_group p (\<lambda>rm idx. bindE fetch_u8 (\<lambda>imm. finish (IBtImm idx rm (opWidth p False) imm)))"

definition dec_cmpxchg :: "pfx \<Rightarrow> u8 \<Rightarrow> decoded dec" where
  "dec_cmpxchg p op2 = with_rm p (\<lambda>rm reg. finish (ICmpxchg rm reg (opWidth p (op2 = 0xB0))))"

definition dec_xadd :: "pfx \<Rightarrow> u8 \<Rightarrow> decoded dec" where
  "dec_xadd p op2 = with_rm p (\<lambda>rm reg. finish (IXadd rm reg (opWidth p (op2 = 0xC0))))"

definition dec_bswap :: "pfx \<Rightarrow> u8 \<Rightarrow> decoded dec" where
  "dec_bswap p op2 =
     finish (IBswap (regOperand (opcode_reg p op2 0xC8) (p_rexPresent p)) (if p_rexW p then 8 else 4))"

definition dec_bitscan :: "pfx \<Rightarrow> u8 \<Rightarrow> decoded dec" where
  "dec_bitscan p op2 = with_rm p (\<lambda>rm reg.
     let w = opWidth p False; f3 = (p_rep p = repZ) in
     finish (if op2 = 0xBC then IBsf reg rm w f3 else IBsr reg rm w f3))"

definition dec_popcnt :: "pfx \<Rightarrow> decoded dec" where
  "dec_popcnt p = with_rm p (\<lambda>rm reg. finish (IPopcnt reg rm (opWidth p False)))"

text \<open>
  The vector opcodes. An error of \<open>decodeSSE0F\<close> is reported as an unsupported opcode whatever it
  was: \<open>fmt.Errorf\<close> formats it with \<open>%v\<close>, so a fetch fault is no longer a \<open>faultError\<close>.
\<close>

definition dec_ext :: "bool exec dec \<Rightarrow> decoded dec" where
  "dec_ext d = bindE d (\<lambda>f. finish (IExt f))"

definition dec_sse :: "ext_decoders \<Rightarrow> pfx \<Rightarrow> u8 \<Rightarrow> decoded dec" where
  "dec_sse X p op2 = (\<lambda>k. case dec_ext (x_sse X op2 p) k of
       (Inr d, k') \<Rightarrow> (Inr d, k')
     | (Inl _, k') \<Rightarrow> (Inl (UnsupportedTwoByte op2), k'))"

definition dispatch_0F :: "ext_decoders \<Rightarrow> pfx \<Rightarrow> u8 \<Rightarrow> decoded dec" where
  "dispatch_0F X p op2 =
     (if op2 = 0x0D then dec_hint p
      else if op2 = 0x05 then finish_as InsSyscall False INone
      else if op2 = 0xA2 then finish_as InsCpuid False INone
      else if 0x80 \<le> op2 \<and> op2 \<le> 0x8F then dec_jcc_near op2
      else if 0x90 \<le> op2 \<and> op2 \<le> 0x9F then dec_setcc p op2
      else if 0x40 \<le> op2 \<and> op2 \<le> 0x4F then dec_cmovcc p op2
      else if op2 \<in> {0xB6, 0xB7, 0xBE, 0xBF} then dec_movx p op2
      else if op2 = 0xAF then dec_imul2 p
      else if op2 \<in> {0x18, 0x19, 0x1A, 0x1B, 0x1C, 0x1D, 0x1F} then dec_hint p
      else if op2 = 0x1E then dec_endbr p
      else if op2 \<in> {0xA4, 0xA5} then dec_shld p op2
      else if op2 \<in> {0xAC, 0xAD} then dec_shrd p op2
      else if op2 \<in> {0xA3, 0xAB, 0xB3, 0xBB} then dec_bt p op2
      else if op2 = 0xBA then dec_bt_imm p
      else if op2 \<in> {0xB0, 0xB1} then dec_cmpxchg p op2
      else if op2 \<in> {0xC0, 0xC1} then dec_xadd p op2
      else if 0xC8 \<le> op2 \<and> op2 \<le> 0xCF then dec_bswap p op2
      else if op2 \<in> {0xBC, 0xBD} then dec_bitscan p op2
      else if op2 = 0xB8 \<and> p_rep p = repZ then dec_popcnt p
      else if op2 = 0x38 then dec_ext (x_38 X p)
      else if op2 = 0x3A then dec_ext (x_3A X p)
      else dec_sse X p op2)"

definition decodeTwoByte :: "ext_decoders \<Rightarrow> pfx \<Rightarrow> decoded dec" where
  "decodeTwoByte X p = bindE fetch_u8 (dispatch_0F X p)"

section \<open>One-byte opcodes\<close>

definition dispatch :: "ext_decoders \<Rightarrow> pfx \<Rightarrow> u8 \<Rightarrow> decoded dec" where
  "dispatch X p op =
     (if op \<in> {0xD8, 0xD9, 0xDB, 0xDD, 0xDE, 0xDF} then dec_x87 p op
      else if op \<le> 0x3D \<and> op AND 0xC0 = 0 \<and> op AND 7 \<le> 5 then dec_alu p op
      else if op \<in> {0x80, 0x81, 0x83} then dec_grp1 p op
      else if op \<in> {0x84, 0x85} then dec_test p op
      else if op \<in> {0xA8, 0xA9} then dec_test_acc p op
      else if 0x88 \<le> op \<and> op \<le> 0x8B then dec_mov p op
      else if op \<in> {0xC6, 0xC7} then dec_mov_imm p op
      else if 0xB0 \<le> op \<and> op \<le> 0xB7 then dec_mov_r8 p op
      else if 0xB8 \<le> op \<and> op \<le> 0xBF then dec_mov_r p op
      else if op = 0x8D then dec_lea p
      else if 0x50 \<le> op \<and> op \<le> 0x5F then dec_push_pop p op
      else if op \<in> {0x68, 0x6A} then dec_push_imm op
      else if op \<in> {0x86, 0x87} then dec_xchg p op
      else if op = 0x0F then decodeTwoByte X p
      else if op = 0x63 then dec_movsxd p
      else if op \<in> {0x69, 0x6B} then dec_imul3 p op
      else if op \<in> {0xF6, 0xF7} then dec_grp3 p op
      else if op \<in> {0xFE, 0xFF} then dec_grp45 p op
      else if op \<in> {0xC0, 0xC1, 0xD0, 0xD1, 0xD2, 0xD3} then dec_shift p op
      else if op \<in> {0xE8, 0xE9, 0xEB, 0xC3, 0xC2} \<or> 0x70 \<le> op \<and> op \<le> 0x7F then dec_control op
      else if op = 0xC9 then finish ILeave
      else if op = 0x98 then finish (IConvert (opWidth p False) (p_rexPresent p))
      else if op = 0x99 then finish (ISignDX (opWidth p False))
      else if 0x90 \<le> op \<and> op \<le> 0x97 then dec_xchg_acc p op
      else if op = 0xFC then finish (ISetDF False)
      else if op = 0xFD then finish (ISetDF True)
      else if op \<in> {0xA4, 0xA5, 0xAA, 0xAB, 0xAC, 0xAD, 0xA6, 0xA7, 0xAE, 0xAF} then dec_string p op
      else bindE (getS k_base) (\<lambda>addr. fail (UnsupportedOpcode op addr)))"

section \<open>Prefixes\<close>

definition prefix_byte :: "u8 \<Rightarrow> pfx \<Rightarrow> pfx option" where
  "prefix_byte b p =
     (if b = 0x66 then Some (p\<lparr>p_opSize16 := True\<rparr>)
      else if b \<in> {0x67, 0xF0, 0x2E, 0x36, 0x3E, 0x26} then Some p
      else if b = 0xF2 then Some (p\<lparr>p_rep := repNZ\<rparr>)
      else if b = 0xF3 then Some (p\<lparr>p_rep := repZ\<rparr>)
      else if b = 0x64 then Some (p\<lparr>p_segFS := True\<rparr>)
      else if b = 0x65 then Some (p\<lparr>p_segGS := True\<rparr>)
      else None)"

text \<open>
  The \<open>legacyPrefixes\<close> loop has no bound in the code. The fuel is the size of the address space: a
  run of that many prefix bytes has read every address (\<open>prefix_loop_returns\<close>).
\<close>

primrec prefix_loop :: "nat \<Rightarrow> pfx \<Rightarrow> pfx dec" where
  "prefix_loop 0 p = fail NoReturn"
| "prefix_loop (Suc n) p =
     bindE peekByte (\<lambda>b. case prefix_byte b p of
         None \<Rightarrow> ret p
       | Some p' \<Rightarrow> bindE (advance 1) (\<lambda>_. prefix_loop n p'))"

definition prefix_fuel :: nat where "prefix_fuel = 2 ^ 64"

text \<open>
  The VEX path. \<open>vexFinish\<close> builds the decoded instruction without an \<open>insnID\<close>, so it is the zero
  value, \<open>InsSyscall\<close>.
\<close>

definition vex_pfx :: "vexState \<Rightarrow> pfx \<Rightarrow> pfx" where
  "vex_pfx vx p = p\<lparr>p_opSize16 := vex_opSize16 vx,
     p_rep := (if vex_repZ vx then repZ else if vex_repNZ vx then repNZ else repNone),
     p_rexPresent := True, p_rexW := vx_W vx, p_rexR := vx_R vx, p_rexX := vx_X vx, p_rexB := vx_B vx\<rparr>"

definition decode_vex :: "ext_decoders \<Rightarrow> pfx \<Rightarrow> u8 \<Rightarrow> decoded dec" where
  "decode_vex X p lead =
     bindE (advance 1) (\<lambda>_.
     bindE (decodeVEXPrefix lead) (\<lambda>vx.
     bindE fetch_u8 (\<lambda>vop.
     bindE (x_vex X vop (vex_pfx vx p) vx) (\<lambda>f. finish_as InsSyscall False (IExt f)))))"

definition rex_pfx :: "u8 \<Rightarrow> bool \<Rightarrow> pfx \<Rightarrow> pfx" where
  "rex_pfx rex present p = p\<lparr>p_rexPresent := present, p_rexW := (rex AND 0x08 \<noteq> 0),
     p_rexR := (rex AND 0x04 \<noteq> 0), p_rexX := (rex AND 0x02 \<noteq> 0), p_rexB := (rex AND 0x01 \<noteq> 0)\<rparr>"

definition read_rex :: "pfx \<Rightarrow> pfx dec" where
  "read_rex p =
     bindE peek_opt (\<lambda>b. case b of
         Some r \<Rightarrow> if 0x40 \<le> r \<and> r \<le> 0x4F then bindE (advance 1) (\<lambda>_. ret (rex_pfx r True p)) else ret (rex_pfx 0 False p)
       | None \<Rightarrow> ret (rex_pfx 0 False p))"

definition decode_rex :: "ext_decoders \<Rightarrow> pfx \<Rightarrow> decoded dec" where
  "decode_rex X p = bindE (read_rex p) (\<lambda>p'. bindE fetch_u8 (dispatch X p'))"

definition decode_insn :: "ext_decoders \<Rightarrow> decoded dec" where
  "decode_insn X =
     bindE (prefix_loop prefix_fuel no_pfx) (\<lambda>p.
     bindE peek_opt (\<lambda>b. case b of
         Some lead \<Rightarrow> if lead = 0xC4 \<or> lead = 0xC5 then decode_vex X p lead else decode_rex X p
       | None \<Rightarrow> decode_rex X p))"

definition decodeOne :: "ext_decoders \<Rightarrow> u64 \<Rightarrow> (memory, cpu_error, decoded) sem" where
  "decodeOne X addr = (\<lambda>m. case decode_insn X \<lparr>k_base = addr, k_pos = 0, k_mem = m\<rparr> of (x, k) \<Rightarrow> (x, k_mem k))"

end
