(* ===== verification/Decode_Laws.thy ===== *)
theory Decode_Laws
  imports Decode
begin

unbundle bit_operations_syntax

text \<open>
  What every decoder step promises (\<open>dgood\<close>): it changes nothing of memory but its lookup cache,
  never moves the cursor back, and its result is a function of the executable bytes. The rules
  follow the decoder's combinators; the properties at the end are those of \<open>decodeOne\<close>.
\<close>

section \<open>Well-formed instructions\<close>

definition operand_ok :: "operand \<Rightarrow> bool" where
  "operand_ok x \<longleftrightarrow> o_reg x < 16 \<and> o_memBaseReg x < 16 \<and> o_memIndexReg x < 16"

text \<open>A step that leaves RIP alone, to its end or to a fault.\<close>

definition stays :: "'a exec \<Rightarrow> bool" where
  "stays f \<longleftrightarrow> (\<forall>c. r_rip (c_regs (snd (f c))) = r_rip (c_regs c))"

text \<open>What is assumed of a closure of the vector decoders.\<close>

definition ext_ok :: "bool exec \<Rightarrow> bool" where
  "ext_ok f \<longleftrightarrow> keeps f \<and> stays f \<and> (\<forall>c. fst (f c) \<noteq> Inr True)"

definition x87op_ok :: "x87op \<Rightarrow> bool" where
  "x87op_ok i = (case i of
     XAdd j \<Rightarrow> j < 8 | XPushST j \<Rightarrow> j < 8 | XExchange j \<Rightarrow> j < 8 | XPushZero \<Rightarrow> True | XCompare j _ \<Rightarrow> j < 8
   | XSubPop j \<Rightarrow> j < 8 | XStoreReg j _ \<Rightarrow> j < 8 | XMul32 x \<Rightarrow> operand_ok x | XLoadControl x \<Rightarrow> operand_ok x
   | XStoreControl x \<Rightarrow> operand_ok x | XLoadInt x w \<Rightarrow> operand_ok x \<and> w = 8 | XStoreInt x w _ \<Rightarrow> operand_ok x \<and> w = 8
   | XLoad x w \<Rightarrow> operand_ok x \<and> w \<in> {4, 8, 10} | XStore x w _ \<Rightarrow> operand_ok x \<and> w \<in> {4, 8, 10})"

text \<open>Register numbers below 16, operand widths 1, 2, 4 or 8, group and condition numbers in range.\<close>

primrec insn_ok :: "insn \<Rightarrow> bool" where
  "insn_ok (IAlu idx x y w) = (idx < 8 \<and> operand_ok x \<and> operand_ok y \<and> op_width w)"
| "insn_ok (IAdd32 reg _) = (reg < 16)"
| "insn_ok (ITest x y w) = (operand_ok x \<and> operand_ok y \<and> op_width w)"
| "insn_ok (ITestImm x _ w) = (operand_ok x \<and> op_width w)"
| "insn_ok (IMov x y w) = (operand_ok x \<and> operand_ok y \<and> op_width w)"
| "insn_ok (IMovImm x w _) = (operand_ok x \<and> op_width w)"
| "insn_ok (ILea x y w) = (operand_ok x \<and> operand_ok y \<and> op_width w)"
| "insn_ok (IPushReg reg) = (reg < 16)"
| "insn_ok (IPopReg reg) = (reg < 16)"
| "insn_ok (IPushImm _) = True"
| "insn_ok (IPushRM x) = operand_ok x"
| "insn_ok (IXchg x y w) = (operand_ok x \<and> operand_ok y \<and> op_width w)"
| "insn_ok (IMovsxd x y) = (operand_ok x \<and> operand_ok y)"
| "insn_ok (IImul3 x y _ w) = (operand_ok x \<and> operand_ok y \<and> op_width w)"
| "insn_ok (IGrp3 idx x w) = (idx < 8 \<and> operand_ok x \<and> op_width w)"
| "insn_ok (IInc32 reg) = (reg < 16)"
| "insn_ok (IDec32 reg) = (reg < 16)"
| "insn_ok (IInc x w) = (operand_ok x \<and> op_width w)"
| "insn_ok (IDec x w) = (operand_ok x \<and> op_width w)"
| "insn_ok (ICallRM x) = operand_ok x"
| "insn_ok (IJmpRM x) = operand_ok x"
| "insn_ok (IShift idx x w _) = (idx < 8 \<and> operand_ok x \<and> op_width w)"
| "insn_ok (ICall _) = True"
| "insn_ok (IJmp _) = True"
| "insn_ok (IJcc cc _) = (cc < 16)"
| "insn_ok IRet = True"
| "insn_ok (IRetN _) = True"
| "insn_ok ILeave = True"
| "insn_ok (IConvert w _) = op_width w"
| "insn_ok (ISignDX w) = op_width w"
| "insn_ok INop = True"
| "insn_ok (ISetDF _) = True"
| "insn_ok (IMovs w _) = op_width w"
| "insn_ok (IStos w _ _) = op_width w"
| "insn_ok (ILods w _ _) = op_width w"
| "insn_ok (ICmps w _) = op_width w"
| "insn_ok (IScas w _ _) = op_width w"
| "insn_ok (ISetcc cc x) = (cc < 16 \<and> operand_ok x)"
| "insn_ok (ICmovcc cc x y w) = (cc < 16 \<and> operand_ok x \<and> operand_ok y \<and> op_width w)"
| "insn_ok (IMovzx x y v w) = (operand_ok x \<and> operand_ok y \<and> op_width v \<and> op_width w)"
| "insn_ok (IMovsx x y v w) = (operand_ok x \<and> operand_ok y \<and> op_width v \<and> op_width w)"
| "insn_ok (IImul2 x y w) = (operand_ok x \<and> operand_ok y \<and> op_width w)"
| "insn_ok (IShld x y w _) = (operand_ok x \<and> operand_ok y \<and> op_width w)"
| "insn_ok (IShrd x y w _) = (operand_ok x \<and> operand_ok y \<and> op_width w)"
| "insn_ok (IBt _ x y w) = (operand_ok x \<and> operand_ok y \<and> op_width w)"
| "insn_ok (IBtImm idx x w _) = (idx < 8 \<and> operand_ok x \<and> op_width w)"
| "insn_ok (ICmpxchg x y w) = (operand_ok x \<and> operand_ok y \<and> op_width w)"
| "insn_ok (IXadd x y w) = (operand_ok x \<and> operand_ok y \<and> op_width w)"
| "insn_ok (IBswap x w) = (operand_ok x \<and> op_width w)"
| "insn_ok (IBsf x y w _) = (operand_ok x \<and> operand_ok y \<and> op_width w)"
| "insn_ok (IBsr x y w _) = (operand_ok x \<and> operand_ok y \<and> op_width w)"
| "insn_ok (IPopcnt x y w) = (operand_ok x \<and> operand_ok y \<and> op_width w)"
| "insn_ok (IX87 i) = x87op_ok i"
| "insn_ok (IExt f) = ext_ok f"
| "insn_ok INone = True"

text \<open>The instructions that may set RIP.\<close>

definition may_branch :: "insn \<Rightarrow> bool" where
  "may_branch i = (case i of
     ICallRM _ \<Rightarrow> True | IJmpRM _ \<Rightarrow> True | ICall _ \<Rightarrow> True | IJmp _ \<Rightarrow> True | IJcc _ _ \<Rightarrow> True | IRet \<Rightarrow> True
   | IRetN _ \<Rightarrow> True | _ \<Rightarrow> False)"

definition decoded_ok :: "decoded \<Rightarrow> bool" where
  "decoded_ok d \<longleftrightarrow> insn_ok (d_exec d) \<and> (may_branch (d_exec d) \<longrightarrow> d_endsBlock d) \<and>
     d_insnID d \<in> {noInsnHook, InsSyscall, InsCpuid}"

section \<open>Decoder steps\<close>

definition code_view :: "memory \<Rightarrow> u64 \<Rightarrow> u8 option" where
  "code_view m a = (case mem_at m a of None \<Rightarrow> None | Some (p, b) \<Rightarrow> if p AND ProtExec \<noteq> 0 then Some b else None)"

definition same_code :: "cursor \<Rightarrow> cursor \<Rightarrow> bool" where
  "same_code k k' \<longleftrightarrow> mem_wf (k_mem k) \<and> mem_wf (k_mem k') \<and> k_base k' = k_base k \<and> k_pos k' = k_pos k \<and>
     code_view (k_mem k') = code_view (k_mem k)"

definition dgood :: "'a dec \<Rightarrow> ('a \<Rightarrow> bool) \<Rightarrow> bool" where
  "dgood d P \<longleftrightarrow>
     (\<forall>k r k'. mem_wf (k_mem k) \<longrightarrow> d k = (r, k') \<longrightarrow>
        mem_wf (k_mem k') \<and> same_core (k_mem k) (k_mem k') \<and> k_base k' = k_base k \<and> k_pos k \<le> k_pos k' \<and>
        (\<forall>a. r = Inr a \<longrightarrow> P a)) \<and>
     (\<forall>k1 k2. same_code k1 k2 \<longrightarrow> fst (d k2) = fst (d k1) \<and> k_pos (snd (d k2)) = k_pos (snd (d k1)))"

named_theorems dec_intros \<open>composition rules for \<open>dgood\<close>\<close>

lemma dgoodD:
  assumes "dgood d P" "mem_wf (k_mem k)" "d k = (r, k')"
  shows "mem_wf (k_mem k')" "same_core (k_mem k) (k_mem k')" "k_base k' = k_base k" "k_pos k \<le> k_pos k'"
    "\<And>a. r = Inr a \<Longrightarrow> P a"
  using assms(1) [unfolded dgood_def, THEN conjunct1, rule_format, OF assms(2,3)] by auto

lemma dgood_same:
  assumes "dgood d P" "same_code k1 k2" "d k1 = (r1, k1')" "d k2 = (r2, k2')"
  shows "r2 = r1" "k_pos k2' = k_pos k1'"
  using assms(1) [unfolded dgood_def, THEN conjunct2, rule_format, OF assms(2)] assms(3,4) by auto

lemma same_core_view: "same_core m m' \<Longrightarrow> code_view m' = code_view m"
  by (rule ext) (simp add: code_view_def same_core_mem_at)

lemma dgood_step_same:
  assumes "dgood d P" "same_code k1 k2" "d k1 = (r1, k1')" "d k2 = (r2, k2')"
  shows "same_code k1' k2'"
proof -
  have wf: "mem_wf (k_mem k1)" "mem_wf (k_mem k2)" using assms(2) by (auto simp: same_code_def)
  note g1 = dgoodD [OF assms(1) wf(1) assms(3)] and g2 = dgoodD [OF assms(1) wf(2) assms(4)]
  show ?thesis
    using assms(2) g1(1,3) g2(1,3) same_core_view [OF g1(2)] same_core_view [OF g2(2)] dgood_same(2) [OF assms]
    by (simp add: same_code_def)
qed

lemma dgood_ret [dec_intros]: "P a \<Longrightarrow> dgood (ret a) P"
  by (auto simp: dgood_def same_code_def)

lemma dgood_fail [dec_intros]: "dgood (fail e) P"
  by (auto simp: dgood_def same_code_def)

lemma dgood_base [dec_intros]: "dgood (getS k_base) (\<lambda>_. True)"
  by (auto simp: dgood_def same_code_def)

lemma dgood_pos [dec_intros]: "dgood (getS k_pos) (\<lambda>_. True)"
  by (auto simp: dgood_def same_code_def)

lemma dgood_advance [dec_intros]: "dgood (advance n) (\<lambda>_. True)"
  by (auto simp: dgood_def same_code_def advance_def)

lemma dgood_weaken: "dgood d P \<Longrightarrow> (\<And>a. P a \<Longrightarrow> Q a) \<Longrightarrow> dgood d Q"
  unfolding dgood_def by blast

lemma dgood_bind:
  assumes m: "dgood m R" and f: "\<And>a. R a \<Longrightarrow> dgood (f a) P"
  shows "dgood (bindE m f) P"
  unfolding dgood_def
proof (intro conjI allI impI)
  fix k1 k2 assume same: "same_code k1 k2"
  obtain r1 k1' r2 k2' where r: "m k1 = (r1, k1')" "m k2 = (r2, k2')" by fastforce
  have wf: "mem_wf (k_mem k1)" using same by (simp add: same_code_def)
  note eq = dgood_same [OF m same r] and st = dgood_step_same [OF m same r]
  show "fst (bindE m f k2) = fst (bindE m f k1)" "k_pos (snd (bindE m f k2)) = k_pos (snd (bindE m f k1))"
  proof (atomize(full), cases r1)
    case (Inl e)
    then show "fst (bindE m f k2) = fst (bindE m f k1) \<and> k_pos (snd (bindE m f k2)) = k_pos (snd (bindE m f k1))"
      using r eq by simp
  next
    case (Inr a)
    have "R a" using dgoodD(5) [OF m wf r(1) Inr] .
    then show "fst (bindE m f k2) = fst (bindE m f k1) \<and> k_pos (snd (bindE m f k2)) = k_pos (snd (bindE m f k1))"
      using f [unfolded dgood_def, THEN conjunct2, rule_format, OF _ st] r eq Inr by simp
  qed
next
  fix k r k' assume wf: "mem_wf (k_mem k)" and b: "bindE m f k = (r, k')"
  have "mem_wf (k_mem k') \<and> same_core (k_mem k) (k_mem k') \<and> k_base k' = k_base k \<and> k_pos k \<le> k_pos k' \<and>
      (\<forall>a. r = Inr a \<longrightarrow> P a)"
    using b
  proof (cases rule: bindE_cases)
    case (err e)
    then show ?thesis using dgoodD [OF m wf err(1)] by simp
  next
    case (ok a k1)
    note g1 = dgoodD [OF m wf ok(1)]
    note g2 = dgoodD [OF f [OF g1(5) [OF refl]] g1(1) ok(2)]
    show ?thesis using g1(1,3,4) g2 same_core_trans [OF g1(2) g2(2)] by auto
  qed
  then show "mem_wf (k_mem k')" "same_core (k_mem k) (k_mem k')" "k_base k' = k_base k" "k_pos k \<le> k_pos k'"
    "\<And>a. r = Inr a \<Longrightarrow> P a" by auto
qed

lemma dgood_bindT [dec_intros]:
  "dgood m (\<lambda>_. True) \<Longrightarrow> (\<And>a. dgood (f a) P) \<Longrightarrow> dgood (bindE m f) P"
  by (rule dgood_bind)

lemma dgood_if [dec_intros]: "(b \<Longrightarrow> dgood f P) \<Longrightarrow> (\<not> b \<Longrightarrow> dgood g P) \<Longrightarrow> dgood (if b then f else g) P"
  by simp

lemma dgood_Let [dec_intros]: "(\<And>x. x = v \<Longrightarrow> dgood (f x) P) \<Longrightarrow> dgood (Let v f) P"
  by simp

lemma dgood_prod [dec_intros]:
  "(\<And>a b. p = (a, b) \<Longrightarrow> dgood (f a b) P) \<Longrightarrow> dgood (case p of (a, b) \<Rightarrow> f a b) P"
  by (simp split: prod.split)

lemma dgood_option [dec_intros]:
  "(x = None \<Longrightarrow> dgood f P) \<Longrightarrow> (\<And>a. x = Some a \<Longrightarrow> dgood (g a) P) \<Longrightarrow> dgood (case x of None \<Rightarrow> f | Some a \<Rightarrow> g a) P"
  by (simp split: option.split)

section \<open>Fetching\<close>

lemma exec_accessible: "accessible m ProtExec a \<longleftrightarrow> code_view m a \<noteq> None"
  by (auto simp: accessible_def code_view_def split: option.splits)

lemma exec_byte: "code_view m a = Some b \<Longrightarrow> mem_byte m a = b"
  by (auto simp: mem_byte_def code_view_def split: option.splits if_splits)

lemma fetch_fst:
  assumes "mem_wf m"
  shows "fst (readCheckedInto a n ProtExec m) = (case find (\<lambda>i. code_view m (a + of_nat i) = None) [0..<n] of
      None \<Rightarrow> Inr (map (\<lambda>i. the (code_view m (a + of_nat i))) [0..<n])
    | Some k \<Rightarrow> Inl (copy_fault False ProtExec a n k))"
proof -
  have fi: "fault_index m ProtExec a 0 n = find (\<lambda>i. code_view m (a + of_nat i) = None) [0..<n]"
    by (simp add: fault_index_def exec_accessible)
  have "mem_bytes m a n = map (\<lambda>i. the (code_view m (a + of_nat i))) [0..<n]"
    if "find (\<lambda>i. code_view m (a + of_nat i) = None) [0..<n] = None"
    using that exec_byte unfolding find_None_iff by (fastforce simp: mem_bytes_def)
  then show ?thesis
    by (simp add: readCheckedInto_eq readChecked_fst [OF assms] fi split: option.split)
qed

lemma dgood_read_code [dec_intros]: "dgood (read_code n) (\<lambda>_. True)"
proof -
  have "mem_wf (k_mem k') \<and> same_core (k_mem k) (k_mem k') \<and> k_base k' = k_base k \<and> k_pos k \<le> k_pos k'"
    if "mem_wf (k_mem k)" "read_code n k = (r, k')" for k r k'
    using that readChecked_spec [OF that(1), of "k_base k + of_nat (k_pos k)" n ProtExec]
    by (auto simp: read_code_def readCheckedInto_eq split: prod.splits)
  moreover have "fst (read_code n k2) = fst (read_code n k1) \<and> k_pos (snd (read_code n k2)) = k_pos (snd (read_code n k1))"
    if "same_code k1 k2" for k1 k2
  proof -
    have "fst (readCheckedInto (k_base k2 + of_nat (k_pos k2)) n ProtExec (k_mem k2)) =
        fst (readCheckedInto (k_base k1 + of_nat (k_pos k1)) n ProtExec (k_mem k1))"
    proof -
      have eq: "k_base k2 = k_base k1" "k_pos k2 = k_pos k1" "code_view (k_mem k2) = code_view (k_mem k1)"
        and wf: "mem_wf (k_mem k1)" "mem_wf (k_mem k2)" using that by (auto simp: same_code_def)
      show ?thesis unfolding eq fetch_fst [OF wf(1)] fetch_fst [OF wf(2)] ..
    qed
    then show ?thesis using that by (simp add: read_code_def same_code_def case_prod_beta)
  qed
  ultimately show ?thesis unfolding dgood_def by blast
qed

lemma dgood_fetch [dec_intros]:
  "dgood (fetch n) (\<lambda>_. True)" "dgood fetch_u8 (\<lambda>_. True)" "dgood fetch_u16 (\<lambda>_. True)" "dgood fetch_u32 (\<lambda>_. True)"
  "dgood fetch_u64 (\<lambda>_. True)" "dgood fetch_i8 (\<lambda>_. True)" "dgood fetch_i32 (\<lambda>_. True)" "dgood peekByte (\<lambda>_. True)"
  unfolding fetch_def fetch_u8_def fetch_u16_def fetch_u32_def fetch_u64_def fetch_i8_def fetch_i32_def peekByte_def
  by (intro dec_intros TrueI)+

lemma dgood_catch:
  assumes "dgood d P" "\<And>a. P a \<Longrightarrow> Q (f (Inr a))" "\<And>e. Q (f (Inl e))"
  shows "dgood (\<lambda>k. case d k of (r, k') \<Rightarrow> (Inr (f r), k')) Q"
  unfolding dgood_def
proof (intro conjI allI impI)
  fix k1 k2 assume same: "same_code k1 k2"
  obtain r1 k1' r2 k2' where r: "d k1 = (r1, k1')" "d k2 = (r2, k2')" by fastforce
  show "fst (case d k2 of (r, k') \<Rightarrow> (Inr (f r), k')) = fst (case d k1 of (r, k') \<Rightarrow> (Inr (f r), k'))"
    "k_pos (snd (case d k2 of (r, k') \<Rightarrow> (Inr (f r), k'))) = k_pos (snd (case d k1 of (r, k') \<Rightarrow> (Inr (f r), k')))"
    by (simp_all add: r dgood_same [OF assms(1) same r])
next
  fix k r k' assume wf: "mem_wf (k_mem k)" and r: "(case d k of (r, k') \<Rightarrow> (Inr (f r), k')) = (r, k')"
  obtain r0 where r0: "d k = (r0, k')" "r = Inr (f r0)" using r by (cases "d k") simp
  note g = dgoodD [OF assms(1) wf r0(1)]
  show "mem_wf (k_mem k')" "same_core (k_mem k) (k_mem k')" "k_base k' = k_base k" "k_pos k \<le> k_pos k'"
    by (fact g)+
  show "\<And>a. r = Inr a \<Longrightarrow> Q a" using g(5) assms(2,3) r0(2) by (cases r0) auto
qed

lemma dgood_peek_opt [dec_intros]: "dgood peek_opt (\<lambda>_. True)"
proof -
  have eq: "peek_opt = (\<lambda>k. case peekByte k of (r, k') \<Rightarrow> (Inr (case r of Inl _ \<Rightarrow> None | Inr b \<Rightarrow> Some b), k'))"
    by (rule ext) (simp add: peek_opt_def split: prod.split sum.split)
  show ?thesis unfolding eq by (rule dgood_catch [OF dgood_fetch(8)]; simp)
qed


section \<open>Operands\<close>

lemma dgood_modrm_disp [dec_intros]: "dgood (modrm_disp md b) (\<lambda>_. True)"
  unfolding modrm_disp_def by (intro dec_intros TrueI)

lemma boolBit_le [simp]: "boolBit b \<le> 1"
  by (simp add: boolBit_def)

lemma field_less: "unat (b AND 7 :: u8) < 8"
proof -
  have "b AND 7 = take_bit 3 b" by (simp add: take_bit_eq_mask mask_eq_exp_minus_1)
  then show ?thesis by (simp only: unat_take_bit_mod) simp
qed

lemma reg_field_less: "unat (b AND 7 :: u8) + 8 * boolBit x < 16"
  using field_less [of b] by (simp add: boolBit_def)

lemma operand_ok_intros:
  "n < 16 \<Longrightarrow> operand_ok (regOperand n rex)" "operand_ok (immOperand v)" "operand_ok (memOperandRIP d)"
  "b < 16 \<Longrightarrow> i < 16 \<Longrightarrow> operand_ok (memOperandBaseIndex b hb i hi sc d)"
  by (simp_all add: operand_ok_def regOperand_def immOperand_def memOperandRIP_def memOperandBaseIndex_def zero_operand_def)

lemma operand_ok_reg: "operand_ok x \<Longrightarrow> o_reg x < 16"
  by (simp add: operand_ok_def)

definition modrm_ok :: "modrmResult \<Rightarrow> bool" where
  "modrm_ok mr \<longleftrightarrow> mr_regField mr < 16 \<and> operand_ok (mr_rm mr)"

lemma dgood_decodeModRM: "dgood (decodeModRM a b c d) modrm_ok"
  unfolding decodeModRM_def decode_rm_def decode_sib_def
  by (intro dec_intros) (auto simp: modrm_ok_def reg_field_less intro!: operand_ok_intros)

lemma operand_ok_seg [simp]: "operand_ok (applySeg p x) = operand_ok x"
  by (simp add: applySeg_def operand_ok_def)

lemma dgood_modrm: "(\<And>mr. modrm_ok mr \<Longrightarrow> dgood (f mr) P) \<Longrightarrow> dgood (bindE (modrm p) f) P"
  unfolding modrm_def by (rule dgood_bind [OF dgood_decodeModRM])

lemma dgood_with_rm [dec_intros]:
  "(\<And>rm reg. operand_ok rm \<Longrightarrow> operand_ok reg \<Longrightarrow> dgood (f rm reg) P) \<Longrightarrow> dgood (with_rm p f) P"
  unfolding with_rm_def by (rule dgood_modrm) (simp add: modrm_ok_def operand_ok_intros)

lemma dgood_with_group [dec_intros]:
  "(\<And>rm idx. operand_ok rm \<Longrightarrow> idx < 8 \<Longrightarrow> dgood (f rm idx) P) \<Longrightarrow> dgood (with_group p f) P"
  unfolding with_group_def by (rule dgood_modrm) (simp add: modrm_ok_def)

lemma dgood_imm [dec_intros]: "dgood (imm_sx w) (\<lambda>_. True)" "dgood (imm_zx b w) (\<lambda>_. True)" "dgood (opt_imm8 b) (\<lambda>_. True)"
  unfolding imm_sx_def imm_zx_def opt_imm8_def by (intro dec_intros TrueI)+

lemma op_width_opWidth [simp, intro]: "op_width (opWidth p b)"
  by (simp add: opWidth_def op_width_def)

lemma op_width_numbers [simp]: "op_width 1" "op_width (Suc 0)" "op_width 2" "op_width 4" "op_width 8"
  by (simp_all add: op_width_def)

section \<open>Every decoder\<close>

lemma dgood_finish [dec_intros]:
  "insn_ok i \<Longrightarrow> \<not> may_branch i \<Longrightarrow> dgood (finish i) decoded_ok"
  "insn_ok i \<Longrightarrow> dgood (finishBranch i) decoded_ok"
  "insn_ok i \<Longrightarrow> \<not> may_branch i \<Longrightarrow> n \<in> {InsSyscall, InsCpuid} \<Longrightarrow> dgood (finish_as n b i) decoded_ok"
  unfolding finish_def finishBranch_def finish_as_def
  by (intro dec_intros; simp add: decoded_ok_def)+

lemma opcode_reg_less: "b \<le> op \<Longrightarrow> op \<le> b + 7 \<Longrightarrow> b \<le> 0xF7 \<Longrightarrow> opcode_reg p op b < 16"
proof -
  assume a: "b \<le> op" "op \<le> b + 7" "b \<le> 0xF7"
  have "unat b \<le> 247" using a(3) by (simp add: word_le_nat_alt)
  then have "unat (b + 7) = unat b + 7" by (simp add: unat_plus_simple [THEN iffD1] word_le_nat_alt unat_word_ariths)
  then have "unat (op - b) < 8" using a by (simp add: word_le_nat_alt unat_sub)
  then show ?thesis by (simp add: opcode_reg_def boolBit_def)
qed

lemma dgood_x87 [dec_intros]: "dgood (dec_x87 p op) decoded_ok"
proof -
  have reg: "dgood (dec_x87_reg op r i) decoded_ok" if "i < 8" for r i
    using that unfolding dec_x87_reg_def by (intro dec_intros) (simp_all add: may_branch_def x87op_ok_def)
  have form: "(l, pp, w) = x87_form op r \<Longrightarrow> w \<noteq> 0 \<Longrightarrow> w \<in> {4, 8, 10}" for r l pp w
    by (auto simp: x87_form_def split: if_splits)
  have mem: "dgood (dec_x87_mem op r x) decoded_ok" if "operand_ok x" for r x
    unfolding dec_x87_mem_def
    by (intro dec_intros) (use that form in \<open>force simp: may_branch_def x87op_ok_def\<close>)+
  show ?thesis
    unfolding dec_x87_def by (rule dgood_modrm) (auto simp: modrm_ok_def intro!: dec_intros reg mem)
qed

lemma dgood_alu [dec_intros]:
  assumes "op \<le> 0x3D"
  shows "dgood (dec_alu p op) decoded_ok"
proof -
  have "unat (drop_bit 3 op) < 8" using assms by (simp only: word_le_nat_alt unat_drop_bit_eq) (simp add: drop_bit_eq_div)
  then show ?thesis
    unfolding dec_alu_def by (intro dec_intros) (auto simp: may_branch_def intro: operand_ok_intros)
qed

lemma dgood_grp1 [dec_intros]: "dgood (dec_grp1 p op) decoded_ok"
  unfolding dec_grp1_def
  by (intro dec_intros) (auto simp: may_branch_def intro: operand_ok_intros operand_ok_reg)

lemma dgood_moves [dec_intros]:
  "dgood (dec_test p op) decoded_ok" "dgood (dec_test_acc p op) decoded_ok" "dgood (dec_mov p op) decoded_ok"
  "dgood (dec_mov_imm p op) decoded_ok" "dgood (dec_lea p) decoded_ok" "dgood (dec_push_imm op) decoded_ok"
  "dgood (dec_xchg p op) decoded_ok" "dgood (dec_movsxd p) decoded_ok" "dgood (dec_imul3 p op) decoded_ok"
  unfolding dec_test_def dec_test_acc_def dec_mov_def dec_mov_imm_def dec_lea_def dec_push_imm_def dec_xchg_def
    dec_movsxd_def dec_imul3_def
  by (auto simp: may_branch_def modrm_ok_def intro!: dec_intros dgood_modrm operand_ok_intros split: if_splits)

lemma dgood_opcode_reg [dec_intros]:
  "0xB0 \<le> op \<Longrightarrow> op \<le> 0xB7 \<Longrightarrow> dgood (dec_mov_r8 p op) decoded_ok"
  "0xB8 \<le> op \<Longrightarrow> op \<le> 0xBF \<Longrightarrow> dgood (dec_mov_r p op) decoded_ok"
  "0x50 \<le> op \<Longrightarrow> op \<le> 0x5F \<Longrightarrow> dgood (dec_push_pop p op) decoded_ok"
  "0x90 \<le> op \<Longrightarrow> op \<le> 0x97 \<Longrightarrow> dgood (dec_xchg_acc p op) decoded_ok"
  "0xC8 \<le> op \<Longrightarrow> op \<le> 0xCF \<Longrightarrow> dgood (dec_bswap p op) decoded_ok"
proof -
  have pop: "0x58 \<le> op" if "\<not> op \<le> 0x57" for op :: u8
    using that by (simp add: word_le_nat_alt)
  show "0xB0 \<le> op \<Longrightarrow> op \<le> 0xB7 \<Longrightarrow> dgood (dec_mov_r8 p op) decoded_ok"
    "0xB8 \<le> op \<Longrightarrow> op \<le> 0xBF \<Longrightarrow> dgood (dec_mov_r p op) decoded_ok"
    "0x50 \<le> op \<Longrightarrow> op \<le> 0x5F \<Longrightarrow> dgood (dec_push_pop p op) decoded_ok"
    "0x90 \<le> op \<Longrightarrow> op \<le> 0x97 \<Longrightarrow> dgood (dec_xchg_acc p op) decoded_ok"
    "0xC8 \<le> op \<Longrightarrow> op \<le> 0xCF \<Longrightarrow> dgood (dec_bswap p op) decoded_ok"
    unfolding dec_mov_r8_def dec_mov_r_def dec_push_pop_def dec_xchg_acc_def dec_bswap_def
    by (intro dec_intros TrueI; simp add: may_branch_def operand_ok_intros opcode_reg_less pop)+
qed

lemma dgood_groups [dec_intros]:
  "dgood (dec_grp3 p op) decoded_ok" "dgood (dec_grp45 p op) decoded_ok" "dgood (dec_shift p op) decoded_ok"
  unfolding dec_grp3_def dec_grp45_def dec_shift_def
  by (auto simp: may_branch_def intro!: dec_intros operand_ok_reg)

lemma dgood_control [dec_intros]:
  assumes "op \<in> {0xE8, 0xE9, 0xEB, 0xC3, 0xC2} \<or> 0x70 \<le> op \<and> op \<le> 0x7F"
  shows "dgood (dec_control op) decoded_ok"
proof -
  have "unat (op - 0x70) < 16" if "0x70 \<le> op" "op \<le> 0x7F" for op :: u8
    using that by (simp add: word_le_nat_alt unat_sub)
  then show ?thesis using assms unfolding dec_control_def by (auto intro!: dec_intros)
qed

lemma dgood_string [dec_intros]: "dgood (dec_string p op) decoded_ok"
  unfolding dec_string_def by (intro dec_intros) (simp_all add: may_branch_def)

lemma dgood_two_byte [dec_intros]:
  "dgood (dec_hint p) decoded_ok" "dgood (dec_endbr p) decoded_ok" "dgood (dec_movx p op) decoded_ok"
  "dgood (dec_imul2 p) decoded_ok" "dgood (dec_shld p op) decoded_ok" "dgood (dec_shrd p op) decoded_ok"
  "dgood (dec_bt p op) decoded_ok" "dgood (dec_bt_imm p) decoded_ok" "dgood (dec_cmpxchg p op) decoded_ok"
  "dgood (dec_xadd p op) decoded_ok" "dgood (dec_bitscan p op) decoded_ok" "dgood (dec_popcnt p) decoded_ok"
  unfolding dec_hint_def dec_endbr_def dec_movx_def dec_imul2_def dec_shld_def dec_shrd_def dec_bt_def dec_bt_imm_def
    dec_cmpxchg_def dec_xadd_def dec_bitscan_def dec_popcnt_def
  by (auto simp: may_branch_def intro!: dec_intros dgood_modrm split: if_splits)

lemma dgood_conditions [dec_intros]:
  "0x80 \<le> op \<Longrightarrow> op \<le> 0x8F \<Longrightarrow> dgood (dec_jcc_near op) decoded_ok"
  "0x90 \<le> op \<Longrightarrow> op \<le> 0x9F \<Longrightarrow> dgood (dec_setcc p op) decoded_ok"
  "0x40 \<le> op \<Longrightarrow> op \<le> 0x4F \<Longrightarrow> dgood (dec_cmovcc p op) decoded_ok"
proof -
  have "unat (op - b) < 16" if "b \<le> op" "op \<le> b + 15" "b \<le> 0xF0" for op b :: u8
  proof -
    have "unat b \<le> 240" using that(3) by (simp add: word_le_nat_alt)
    then have "unat (b + 15) = unat b + 15" by (simp add: unat_word_ariths)
    then show ?thesis using that by (simp add: word_le_nat_alt unat_sub)
  qed
  from this [of "0x80"] this [of "0x90"] this [of "0x40"]
  show "0x80 \<le> op \<Longrightarrow> op \<le> 0x8F \<Longrightarrow> dgood (dec_jcc_near op) decoded_ok"
    "0x90 \<le> op \<Longrightarrow> op \<le> 0x9F \<Longrightarrow> dgood (dec_setcc p op) decoded_ok"
    "0x40 \<le> op \<Longrightarrow> op \<le> 0x4F \<Longrightarrow> dgood (dec_cmovcc p op) decoded_ok"
    unfolding dec_jcc_near_def dec_setcc_def dec_cmovcc_def
    by (intro dec_intros; simp add: may_branch_def)+
qed

section \<open>The dispatch\<close>

text \<open>What is assumed of the vector decoders.\<close>

definition ext_good :: "ext_decoders \<Rightarrow> bool" where
  "ext_good X \<longleftrightarrow> (\<forall>op p. dgood (x_sse X op p) ext_ok) \<and> (\<forall>p. dgood (x_38 X p) ext_ok) \<and>
     (\<forall>p. dgood (x_3A X p) ext_ok) \<and> (\<forall>op p vx. dgood (x_vex X op p vx) ext_ok)"

lemma dgood_ext [dec_intros]: "dgood d ext_ok \<Longrightarrow> dgood (dec_ext d) decoded_ok"
  unfolding dec_ext_def by (erule dgood_bind) (simp add: may_branch_def dgood_finish)

lemma dgood_map_error:
  assumes "dgood d P"
  shows "dgood (\<lambda>k. case d k of (Inr a, k') \<Rightarrow> (Inr a, k') | (Inl _, k') \<Rightarrow> (Inl e, k')) P"
proof -
  have eq: "(\<lambda>k. case d k of (Inr a, k') \<Rightarrow> (Inr a, k') | (Inl _, k') \<Rightarrow> (Inl e, k')) =
      (\<lambda>k. (case fst (d k) of Inl _ \<Rightarrow> Inl e | Inr a \<Rightarrow> Inr a, snd (d k)))"
    by (rule ext) (simp add: case_prod_beta split: sum.split prod.split)
  show ?thesis
    unfolding eq dgood_def
  proof (intro conjI allI impI)
    fix k1 k2 assume same: "same_code k1 k2"
    show "fst (case fst (d k2) of Inl _ \<Rightarrow> Inl e | Inr a \<Rightarrow> Inr a, snd (d k2)) =
        fst (case fst (d k1) of Inl _ \<Rightarrow> Inl e | Inr a \<Rightarrow> Inr a, snd (d k1))"
      "k_pos (snd (case fst (d k2) of Inl _ \<Rightarrow> Inl e | Inr a \<Rightarrow> Inr a, snd (d k2))) =
        k_pos (snd (case fst (d k1) of Inl _ \<Rightarrow> Inl e | Inr a \<Rightarrow> Inr a, snd (d k1)))"
      using dgood_same [OF assms same prod.collapse [symmetric] prod.collapse [symmetric]] by simp_all
  next
    fix k r k' assume wf: "mem_wf (k_mem k)"
      and r: "(case fst (d k) of Inl _ \<Rightarrow> Inl e | Inr a \<Rightarrow> Inr a, snd (d k)) = (r, k')"
    note g = dgoodD [OF assms wf, of "fst (d k)" "snd (d k)", OF prod.collapse [symmetric]]
    show "mem_wf (k_mem k')" "same_core (k_mem k) (k_mem k')" "k_base k' = k_base k" "k_pos k \<le> k_pos k'"
      using g(1-4) r by simp_all
    show "\<And>a. r = Inr a \<Longrightarrow> P a" using g(5) r by (auto split: sum.splits)
  qed
qed

lemma dgood_dispatch_0F: "ext_good X \<Longrightarrow> dgood (dispatch_0F X p op) decoded_ok"
  unfolding dispatch_0F_def dec_sse_def ext_good_def
  by (intro dec_intros dgood_map_error) (auto simp: may_branch_def)

lemma dgood_dispatch: "ext_good X \<Longrightarrow> dgood (dispatch X p op) decoded_ok"
  unfolding dispatch_def decodeTwoByte_def
  by (intro dec_intros dgood_dispatch_0F) (auto simp: may_branch_def)

lemma dgood_prefix_loop [dec_intros]: "dgood (prefix_loop n p) (\<lambda>_. True)"
  by (induction n arbitrary: p) (auto intro!: dec_intros)

lemma dgood_vex [dec_intros]: "dgood (decodeVEXPrefix b) (\<lambda>_. True)"
  unfolding decodeVEXPrefix_def by (intro dec_intros TrueI)

lemma dgood_read_rex [dec_intros]: "dgood (read_rex p) (\<lambda>_. True)"
  unfolding read_rex_def by (intro dec_intros TrueI)

lemma dgood_decode_insn:
  assumes X: "ext_good X"
  shows "dgood (decode_insn X) decoded_ok"
proof -
  have body: "dgood (bindE (x_vex X op p vx) (\<lambda>f. finish_as InsSyscall False (IExt f))) decoded_ok" for op p vx
  proof (rule dgood_bind)
    show "dgood (x_vex X op p vx) ext_ok" using X by (simp add: ext_good_def)
    show "\<And>f. ext_ok f \<Longrightarrow> dgood (finish_as InsSyscall False (IExt f)) decoded_ok"
      by (intro dec_intros) (simp_all add: may_branch_def)
  qed
  have vex: "dgood (decode_vex X p lead) decoded_ok" for p lead
    unfolding decode_vex_def
    by (rule dgood_bindT [OF dgood_advance dgood_bindT [OF dgood_vex dgood_bindT [OF dgood_fetch(2) body]]])
  have rex: "dgood (decode_rex X p) decoded_ok" for p
    unfolding decode_rex_def by (intro dec_intros dgood_dispatch [OF X])
  show ?thesis
    unfolding decode_insn_def by (intro dec_intros vex rex)
qed

section \<open>Length\<close>

text \<open>The decoded instruction's length is the cursor position, past at least one byte.\<close>

definition dlen :: "decoded dec \<Rightarrow> bool" where
  "dlen d \<longleftrightarrow> (\<forall>k x k'. d k = (Inr x, k') \<longrightarrow> d_len x = k_pos k')"

named_theorems dlen_intros \<open>composition rules for \<open>dlen\<close>\<close>

lemma dlen_finish [dlen_intros]: "dlen (finish i)" "dlen (finishBranch i)" "dlen (finish_as n b i)"
  by (auto simp: dlen_def finish_def finishBranch_def finish_as_def)

lemma dlen_fail [dlen_intros]: "dlen (fail e)"
  by (simp add: dlen_def)

lemma dlen_bind [dlen_intros]: "(\<And>a. dlen (f a)) \<Longrightarrow> dlen (bindE m f)"
  unfolding dlen_def by (auto elim!: bindE_cases)

lemma dlen_if [dlen_intros]: "dlen f \<Longrightarrow> dlen g \<Longrightarrow> dlen (if b then f else g)"
  by simp

lemma dlen_Let [dlen_intros]: "(\<And>x. dlen (f x)) \<Longrightarrow> dlen (Let v f)"
  by simp

lemma dlen_prod [dlen_intros]: "(\<And>a b. dlen (f a b)) \<Longrightarrow> dlen (case p of (a, b) \<Rightarrow> f a b)"
  by (simp split: prod.split)

lemma dlen_option [dlen_intros]: "dlen f \<Longrightarrow> (\<And>a. dlen (g a)) \<Longrightarrow> dlen (case x of None \<Rightarrow> f | Some a \<Rightarrow> g a)"
  by (simp split: option.split)

lemma dlen_map_error [dlen_intros]:
  "dlen d \<Longrightarrow> dlen (\<lambda>k. case d k of (Inr a, k') \<Rightarrow> (Inr a, k') | (Inl _, k') \<Rightarrow> (Inl e, k'))"
  unfolding dlen_def by (auto split: prod.splits sum.splits)

lemma dlen_dispatch: "dlen (dispatch X p op)"
  unfolding dispatch_def decodeTwoByte_def dispatch_0F_def dec_sse_def dec_ext_def with_rm_def with_group_def
    dec_x87_def dec_x87_reg_def dec_x87_mem_def dec_alu_def dec_grp1_def dec_test_def dec_test_acc_def dec_mov_def
    dec_mov_imm_def dec_mov_r8_def dec_mov_r_def dec_lea_def dec_push_pop_def dec_push_imm_def dec_xchg_def
    dec_movsxd_def dec_imul3_def dec_grp3_def dec_grp45_def dec_shift_def dec_control_def dec_xchg_acc_def
    dec_string_def dec_hint_def dec_endbr_def dec_jcc_near_def dec_setcc_def dec_cmovcc_def dec_movx_def
    dec_imul2_def dec_shld_def dec_shrd_def dec_bt_def dec_bt_imm_def dec_cmpxchg_def dec_xadd_def dec_bswap_def
    dec_bitscan_def dec_popcnt_def
  by (intro dlen_intros)

definition dstrict :: "'a dec \<Rightarrow> bool" where
  "dstrict d \<longleftrightarrow> (\<forall>k x k'. mem_wf (k_mem k) \<longrightarrow> d k = (Inr x, k') \<longrightarrow> k_pos k < k_pos k')"

lemma dstrict_first:
  assumes m: "dstrict m" "dgood m Q" and f: "\<And>a. Q a \<Longrightarrow> dgood (f a) P"
  shows "dstrict (bindE m f)"
  unfolding dstrict_def
proof (intro allI impI)
  fix k x k' assume wf: "mem_wf (k_mem k)" and b: "bindE m f k = (Inr x, k')"
  from b show "k_pos k < k_pos k'"
  proof (cases rule: bindE_cases)
    case (ok a k1)
    note g = dgoodD [OF m(2) wf ok(1)]
    show ?thesis using m(1) wf ok(1) dgoodD(4) [OF f [OF g(5) [OF refl]] g(1) ok(2)] unfolding dstrict_def by fastforce
  qed simp
qed

lemma dstrict_rest:
  assumes m: "dgood m Q" and f: "\<And>a. Q a \<Longrightarrow> dstrict (f a)"
  shows "dstrict (bindE m f)"
  unfolding dstrict_def
proof (intro allI impI)
  fix k x k' assume wf: "mem_wf (k_mem k)" and b: "bindE m f k = (Inr x, k')"
  from b show "k_pos k < k_pos k'"
  proof (cases rule: bindE_cases)
    case (ok a k1)
    note g = dgoodD [OF m wf ok(1)]
    show ?thesis using f [OF g(5) [OF refl], unfolded dstrict_def, rule_format, OF g(1) ok(2)] g(4) by simp
  qed simp
qed

lemma dstrict_advance: "dstrict (advance (Suc n))"
  by (simp add: dstrict_def advance_def)

lemma dstrict_fetch_u8: "dstrict fetch_u8"
proof -
  have "dstrict (fetch 1)"
    unfolding fetch_def One_nat_def
    by (intro dstrict_rest [OF dgood_read_code] dstrict_first [OF dstrict_advance dgood_advance] dgood_ret) simp
  then show ?thesis
    unfolding fetch_u8_def by (rule dstrict_first [OF _ dgood_fetch(1) dgood_ret]) simp_all
qed

lemma decode_insn_strict:
  assumes X: "ext_good X"
  shows "dstrict (decode_insn X)"
proof -
  have rex: "dstrict (decode_rex X p)" for p
    unfolding decode_rex_def
    by (rule dstrict_rest [OF dgood_read_rex])
       (rule dstrict_first [OF dstrict_fetch_u8 dgood_fetch(2) dgood_dispatch [OF X]])
  have "dgood (x_vex X op p vx) (\<lambda>_. True)" for op p vx
    by (rule dgood_weaken [OF X [unfolded ext_good_def, THEN conjunct2, THEN conjunct2, THEN conjunct2, rule_format] TrueI])
  moreover have "dgood (finish_as InsSyscall False (IExt f)) (\<lambda>_. True)" for f
    unfolding finish_as_def by (intro dec_intros TrueI)
  ultimately have body: "dgood (bindE (x_vex X op p vx) (\<lambda>f. finish_as InsSyscall False (IExt f))) (\<lambda>_. True)" for op p vx
    by (rule dgood_bindT)
  have vex: "dstrict (decode_vex X p b)" for p b
    unfolding decode_vex_def One_nat_def
    by (rule dstrict_first [OF dstrict_advance dgood_advance dgood_bindT [OF dgood_vex dgood_bindT [OF dgood_fetch(2) body]]])
  show ?thesis
    unfolding decode_insn_def
    by (rule dstrict_rest [OF dgood_prefix_loop], rule dstrict_rest [OF dgood_peek_opt])
       (simp add: rex vex split: option.split)
qed

lemma decode_insn_len: "dlen (decode_insn X)"
  unfolding decode_insn_def decode_rex_def decode_vex_def by (intro dlen_intros dlen_dispatch)

section \<open>decodeOne\<close>

lemma decodeOne_spec:
  assumes X: "ext_good X" and wf: "mem_wf m" and d: "decodeOne X a m = (r, m')"
  shows "mem_wf m'" "same_core m m'" "\<And>i. r = Inr i \<Longrightarrow> decoded_ok i \<and> 0 < d_len i"
proof -
  obtain k' where k: "decode_insn X \<lparr>k_base = a, k_pos = 0, k_mem = m\<rparr> = (r, k')" "m' = k_mem k'"
    using d by (auto simp: decodeOne_def split: prod.splits)
  have wf0: "mem_wf (k_mem \<lparr>k_base = a, k_pos = 0, k_mem = m\<rparr>)" using wf by simp
  note g = dgoodD [OF dgood_decode_insn [OF X] wf0 k(1)]
  show "mem_wf m'" "same_core m m'" using g k(2) by simp_all
  show "decoded_ok i \<and> 0 < d_len i" if "r = Inr i" for i
    using g(5) [OF that] decode_insn_strict [OF X, unfolded dstrict_def, rule_format, OF wf0 k(1) [unfolded that]]
      decode_insn_len [of X, unfolded dlen_def, rule_format, OF k(1) [unfolded that]] by simp
qed

lemma decodeOne_view:
  assumes "ext_good X" "mem_wf m1" "mem_wf m2" "code_view m1 = code_view m2"
  shows "fst (decodeOne X a m1) = fst (decodeOne X a m2)"
proof -
  have "same_code \<lparr>k_base = a, k_pos = 0, k_mem = m1\<rparr> \<lparr>k_base = a, k_pos = 0, k_mem = m2\<rparr>"
    using assms by (simp add: same_code_def)
  from dgood_same(1) [OF dgood_decode_insn [OF assms(1)] this prod.collapse [symmetric] prod.collapse [symmetric]]
  show ?thesis by (simp add: decodeOne_def case_prod_beta)
qed

section \<open>The prefix loop\<close>

definition is_prefix :: "u8 \<Rightarrow> bool" where
  "is_prefix b \<longleftrightarrow> b \<in> {0x66, 0x67, 0xF0, 0x2E, 0x36, 0x3E, 0x26, 0xF2, 0xF3, 0x64, 0x65}"

lemma prefix_byte_None: "prefix_byte b p = None \<longleftrightarrow> \<not> is_prefix b"
  by (simp add: prefix_byte_def is_prefix_def)

lemma peekByte_spec:
  assumes "mem_wf (k_mem k)"
  shows "\<exists>k'. peekByte k = (case code_view (k_mem k) (k_base k + of_nat (k_pos k)) of
      None \<Rightarrow> Inl (copy_fault False ProtExec (k_base k + of_nat (k_pos k)) 1 0) | Some b \<Rightarrow> Inr b, k') \<and>
    mem_wf (k_mem k') \<and> k_base k' = k_base k \<and> k_pos k' = k_pos k \<and> code_view (k_mem k') = code_view (k_mem k)"
proof -
  obtain r k' where r: "peekByte k = (r, k')" by fastforce
  note g = dgoodD [OF dgood_fetch(8) assms r]
  have "r = (case code_view (k_mem k) (k_base k + of_nat (k_pos k)) of
      None \<Rightarrow> Inl (copy_fault False ProtExec (k_base k + of_nat (k_pos k)) 1 0) | Some b \<Rightarrow> Inr b)"
    using r fetch_fst [OF assms, of "k_base k + of_nat (k_pos k)" 1]
    by (auto simp: peekByte_def read_code_def bindE_def split: prod.splits sum.splits option.splits)
  moreover have "k_pos k' = k_pos k"
    using r by (auto simp: peekByte_def read_code_def bindE_def split: prod.splits sum.splits)
  ultimately show ?thesis using r g(1,3) same_core_view [OF g(2)] by simp
qed

lemma prefix_loop_no_return:
  assumes "mem_wf (k_mem k)" "fst (prefix_loop n p k) = Inl NoReturn" "i < n"
  shows "\<exists>b. code_view (k_mem k) (k_base k + of_nat (k_pos k + i)) = Some b \<and> is_prefix b"
  using assms
proof (induction n arbitrary: p k i)
  case (Suc n)
  obtain k1 where pk: "peekByte k = (case code_view (k_mem k) (k_base k + of_nat (k_pos k)) of
      None \<Rightarrow> Inl (copy_fault False ProtExec (k_base k + of_nat (k_pos k)) 1 0) | Some b \<Rightarrow> Inr b, k1)"
    and k1: "mem_wf (k_mem k1)" "k_base k1 = k_base k" "k_pos k1 = k_pos k" "code_view (k_mem k1) = code_view (k_mem k)"
    using peekByte_spec [OF Suc.prems(1)] by blast
  show ?case
  proof (cases "code_view (k_mem k) (k_base k + of_nat (k_pos k))")
    case None
    then show ?thesis using pk Suc.prems(2) by (simp add: copy_fault_def)
  next
    case (Some b)
    then obtain p' where p': "prefix_byte b p = Some p'"
      using pk Suc.prems(2) by (cases "prefix_byte b p") simp_all
    define k2 where "k2 = k1\<lparr>k_pos := k_pos k1 + 1\<rparr>"
    have "fst (prefix_loop n p' k2) = Inl NoReturn"
      using pk Some p' Suc.prems(2) by (simp add: advance_def k2_def)
    then have IH: "\<exists>b. code_view (k_mem k) (k_base k + of_nat (k_pos k + 1 + j)) = Some b \<and> is_prefix b" if "j < n" for j
      using Suc.IH [of k2 p' j] that k1 by (simp add: k2_def)
    show ?thesis
    proof (cases i)
      case 0
      then show ?thesis using Some p' prefix_byte_None [of b p] by simp
    next
      case (Suc j)
      then show ?thesis using IH [of j] Suc.prems(3) by simp
    qed
  qed
qed simp

end
