(* ===== verification/Decode_Round.thy ===== *)
theory Decode_Round
  imports Decode_Laws
begin

unbundle bit_operations_syntax

text \<open>
  Decoding inverts assembling. \<open>runs p d bs n x\<close> says that a decoder step run at position \<open>p\<close> on the
  bytes \<open>bs\<close> consumes \<open>n\<close> of them and gives \<open>x\<close>; its rules evaluate a decoder on symbolic bytes.
\<close>

section \<open>Running a decoder on given bytes\<close>

definition code_at :: "memory \<Rightarrow> u64 \<Rightarrow> u8 list \<Rightarrow> bool" where
  "code_at m a bs \<longleftrightarrow> (\<forall>i<length bs. code_view m (a + of_nat i) = Some (bs ! i))"

definition runs :: "nat \<Rightarrow> 'a dec \<Rightarrow> u8 list \<Rightarrow> nat \<Rightarrow> 'a \<Rightarrow> bool" where
  "runs p d bs n x \<longleftrightarrow> (\<forall>k. mem_wf (k_mem k) \<longrightarrow> k_pos k = p \<longrightarrow> code_at (k_mem k) (k_base k + of_nat p) bs \<longrightarrow>
     (\<exists>k'. d k = (Inr x, k') \<and> mem_wf (k_mem k') \<and> k_base k' = k_base k \<and> k_pos k' = p + n \<and>
       code_view (k_mem k') = code_view (k_mem k)))"

lemma code_atD: "code_at m a bs \<Longrightarrow> i < length bs \<Longrightarrow> code_view m (a + of_nat i) = Some (bs ! i)"
  by (simp add: code_at_def)

lemma code_at_drop: "code_at m a bs \<Longrightarrow> n \<le> length bs \<Longrightarrow> code_at m (a + of_nat n) (drop n bs)"
  unfolding code_at_def
proof (intro allI impI)
  fix i assume a: "\<forall>i<length bs. code_view m (a + of_nat i) = Some (bs ! i)" "n \<le> length bs" "i < length (drop n bs)"
  then show "code_view m (a + of_nat n + of_nat i) = Some (drop n bs ! i)"
    using a(1) [rule_format, of "n + i"] by (simp add: add.assoc)
qed

lemma runs_bind:
  assumes m: "runs p m bs n a" and le: "n \<le> length bs" and f: "runs (p + n) (f a) (drop n bs) n' b" and s: "s = n + n'"
  shows "runs p (bindE m f) bs s b"
  unfolding runs_def
proof (intro allI impI)
  fix k :: cursor assume k: "mem_wf (k_mem k)" "k_pos k = p" "code_at (k_mem k) (k_base k + of_nat p) bs"
  obtain k1 where k1: "m k = (Inr a, k1)" "mem_wf (k_mem k1)" "k_base k1 = k_base k" "k_pos k1 = p + n"
      "code_view (k_mem k1) = code_view (k_mem k)"
    using m [unfolded runs_def, rule_format, OF k] by blast
  have "code_at (k_mem k1) (k_base k1 + of_nat (p + n)) (drop n bs)"
    using code_at_drop [OF k(3) le] k1(3,5) by (simp add: code_at_def add.assoc)
  from f [unfolded runs_def, rule_format, OF k1(2,4) this] k1
  show "\<exists>k'. bindE m f k = (Inr b, k') \<and> mem_wf (k_mem k') \<and> k_base k' = k_base k \<and> k_pos k' = p + s \<and>
      code_view (k_mem k') = code_view (k_mem k)"
    by (auto simp: s)
qed

lemma runs_ret: "runs p (ret x) bs 0 x"
  by (simp add: runs_def)

lemma runs_pos: "runs p (getS k_pos) bs 0 p"
  by (simp add: runs_def)

lemma runs_advance: "runs p (advance n) bs n ()"
  by (simp add: runs_def advance_def)

lemma runs_read_code:
  assumes "n \<le> length bs"
  shows "runs p (read_code n) bs 0 (take n bs)"
  unfolding runs_def
proof (intro allI impI)
  fix k :: cursor assume k: "mem_wf (k_mem k)" "k_pos k = p" "code_at (k_mem k) (k_base k + of_nat p) bs"
  have at: "code_view (k_mem k) (k_base k + of_nat p + of_nat i) = Some (bs ! i)" if "i < n" for i
    using k(3) that assms by (simp add: code_at_def)
  have "find (\<lambda>i. code_view (k_mem k) (k_base k + of_nat p + of_nat i) = None) [0..<n] = None"
    using at by (auto simp: find_None_iff)
  moreover have "map (\<lambda>i. the (code_view (k_mem k) (k_base k + of_nat p + of_nat i))) [0..<n] = take n bs"
    using at assms by (intro nth_equalityI) auto
  ultimately have r: "fst (read_code n k) = Inr (take n bs)"
    using fetch_fst [OF k(1), of "k_base k + of_nat p" n] k(2) by (simp add: read_code_def case_prod_beta)
  obtain k' where k': "read_code n k = (Inr (take n bs), k')" using r by (cases "read_code n k") simp
  note g = dgoodD [OF dgood_read_code k(1) k']
  have "k_pos k' = k_pos k" using k' by (auto simp: read_code_def split: prod.splits)
  then show "\<exists>k'. read_code n k = (Inr (take n bs), k') \<and> mem_wf (k_mem k') \<and> k_base k' = k_base k \<and> k_pos k' = p + 0 \<and>
      code_view (k_mem k') = code_view (k_mem k)"
    using k' k(2) g(1,3) same_core_view [OF g(2)] by auto
qed

lemma runs_fetch: "n \<le> length bs \<Longrightarrow> runs p (fetch n) bs n (take n bs)"
  unfolding fetch_def
  by (rule runs_bind [OF runs_read_code]) (auto intro!: runs_bind [OF runs_advance] runs_ret)

lemma runs_map: "runs p m bs n a \<Longrightarrow> runs p (bindE m (\<lambda>v. ret (f v))) bs n (f a)"
  unfolding runs_def by (metis (no_types, lifting) bindE_Inr ret_apply)

lemma runs_u8: "runs p fetch_u8 (b # bs) 1 b"
  using runs_map [OF runs_fetch, of 1 "b # bs" p "\<lambda>b. b ! 0"] by (simp add: fetch_u8_def)

lemma runs_u8_bind: "runs (p + 1) (f b) bs n x \<Longrightarrow> s = n + 1 \<Longrightarrow> runs p (bindE fetch_u8 f) (b # bs) s x"
  by (rule runs_bind [OF runs_u8, where n' = n]) simp_all

lemma runs_peek: "runs p peekByte (b # bs) 0 b"
  using runs_map [OF runs_read_code, of 1 "b # bs" p "\<lambda>b. b ! 0"] by (simp add: peekByte_def)

lemma runs_peek_opt: "runs p peek_opt (b # bs) 0 (Some b)"
  using runs_peek [of p b bs] unfolding runs_def peek_opt_def by fastforce

lemma runs_u32: "length bs = 4 \<Longrightarrow> runs p fetch_u32 (bs @ cs) 4 (ucast (leToU64 bs))"
  using runs_map [OF runs_fetch, of 4 "bs @ cs" p "\<lambda>b. ucast (leToU64 b)"] by (simp add: fetch_u32_def)

lemma runs_i32: "length bs = 4 \<Longrightarrow> runs p fetch_i32 (bs @ cs) 4 (scast (ucast (leToU64 bs) :: u32))"
  using runs_map [OF runs_u32 [of bs p cs], of "\<lambda>v. scast v"] by (simp add: fetch_i32_def)

lemma disp_roundtrip: "ucast (leToU64 (u64ToLE (ucast d) 4)) = d" for d :: u32
  by (rule bit_word_eqI) (simp add: le_roundtrip bit_simps)

lemma runs_disp: "runs p fetch_i32 (u64ToLE (ucast d) 4 @ cs) 4 (scast d)" for d :: u32
proof -
  have "length (u64ToLE (ucast d) 4) = 4" by (simp add: u64ToLE_def)
  from runs_i32 [OF this, of p cs] show ?thesis by (simp only: disp_roundtrip)
qed

section \<open>Assembling an operand\<close>

text \<open>
  An addressing form: a register; RIP plus a displacement; a base register plus a displacement without
  a SIB byte; or, with a SIB byte, an optional base register, an optional index register, the logarithm of
  the scale and a displacement. A displacement is absent, one byte or four bytes. Together these are
  all the encodings a ModRM byte starts.
\<close>

datatype displacement = NoDisp | Disp8 u8 | Disp32 u32

datatype ea = EReg nat | ERip u32 | EBase nat displacement | EMem "nat option" "nat option" nat displacement

definition disp_val :: "displacement \<Rightarrow> u64" where
  "disp_val d = (case d of NoDisp \<Rightarrow> 0 | Disp8 v \<Rightarrow> scast v | Disp32 v \<Rightarrow> scast v)"

definition disp_bytes :: "displacement \<Rightarrow> u8 list" where
  "disp_bytes d = (case d of NoDisp \<Rightarrow> [] | Disp8 v \<Rightarrow> [v] | Disp32 v \<Rightarrow> u64ToLE (ucast v) 4)"

text \<open>The mod field: 0, 1 or 2 bytes' worth of displacement after a base register.\<close>

definition disp_mod :: "displacement \<Rightarrow> nat" where
  "disp_mod d = (case d of NoDisp \<Rightarrow> 0 | Disp8 _ \<Rightarrow> 1 | Disp32 _ \<Rightarrow> 2)"

text \<open>
  What cannot be encoded: RSP and R12 as a base without SIB, RBP and R13 as a base without displacement,
  RSP as an index, and no base with a displacement other than four bytes.
\<close>

definition ea_ok :: "ea \<Rightarrow> bool" where
  "ea_ok x = (case x of EReg r \<Rightarrow> r < 16 | ERip _ \<Rightarrow> True
     | EBase r d \<Rightarrow> r < 16 \<and> r mod 8 \<noteq> 4 \<and> (d \<noteq> NoDisp \<or> r mod 8 \<noteq> 5)
     | EMem b i s d \<Rightarrow> (case b of None \<Rightarrow> disp_mod d = 2 | Some r \<Rightarrow> r < 16 \<and> (d \<noteq> NoDisp \<or> r mod 8 \<noteq> 5)) \<and>
         (case i of None \<Rightarrow> True | Some r \<Rightarrow> r < 16 \<and> r \<noteq> RegRSP) \<and> s < 4)"

definition reg_or_0 :: "nat option \<Rightarrow> nat" where
  "reg_or_0 r = (case r of None \<Rightarrow> 0 | Some r \<Rightarrow> r)"

definition ea_operand :: "bool \<Rightarrow> ea \<Rightarrow> operand" where
  "ea_operand rex x = (case x of EReg r \<Rightarrow> regOperand r rex | ERip d \<Rightarrow> memOperandRIP (scast d)
     | EBase r d \<Rightarrow> memOperandBaseIndex r True 0 False 1 (disp_val d)
     | EMem b i s d \<Rightarrow> memOperandBaseIndex (reg_or_0 b) (b \<noteq> None) (reg_or_0 i) (i \<noteq> None) (push_bit s 1) (disp_val d))"

definition ea_X :: "ea \<Rightarrow> bool" where
  "ea_X x = (case x of EMem _ (Some r) _ _ \<Rightarrow> 8 \<le> r | _ \<Rightarrow> False)"

definition ea_B :: "ea \<Rightarrow> bool" where
  "ea_B x = (case x of EReg r \<Rightarrow> 8 \<le> r | EBase r _ \<Rightarrow> 8 \<le> r | EMem (Some r) _ _ _ \<Rightarrow> 8 \<le> r | _ \<Rightarrow> False)"

definition field_byte :: "nat \<Rightarrow> nat \<Rightarrow> nat \<Rightarrow> u8" where
  "field_byte hi mid lo = of_nat (64 * hi + 8 * mid + lo)"

definition asm_modrm :: "nat \<Rightarrow> ea \<Rightarrow> u8 list" where
  "asm_modrm reg x = (case x of
       EReg r \<Rightarrow> [field_byte 3 (reg mod 8) (r mod 8)]
     | ERip d \<Rightarrow> field_byte 0 (reg mod 8) 5 # disp_bytes (Disp32 d)
     | EBase r d \<Rightarrow> field_byte (disp_mod d) (reg mod 8) (r mod 8) # disp_bytes d
     | EMem b i s d \<Rightarrow> field_byte (if b = None then 0 else disp_mod d) (reg mod 8) 4 #
         field_byte s (case i of None \<Rightarrow> 4 | Some r \<Rightarrow> r mod 8) (case b of None \<Rightarrow> 5 | Some r \<Rightarrow> r mod 8) # disp_bytes d)"

lemma field_byte_split:
  assumes "hi < 4" "mid < 8" "lo < 8"
  shows "unat (drop_bit 6 (field_byte hi mid lo)) = hi"
    "unat (drop_bit 3 (field_byte hi mid lo) AND 7) = mid" "unat (field_byte hi mid lo AND 7) = lo"
proof -
  have u: "unat (field_byte hi mid lo) = 64 * hi + 8 * mid + lo"
    unfolding field_byte_def using assms by (intro unat_of_nat_small) simp
  have seven: "x AND 7 = take_bit 3 x" for x :: u8 by (simp add: take_bit_eq_mask mask_eq_exp_minus_1)
  show "unat (drop_bit 6 (field_byte hi mid lo)) = hi"
    unfolding unat_drop_bit_eq u using assms by (simp add: drop_bit_eq_div)
  have "64 * hi + 8 * mid + lo = lo + 8 * (8 * hi + mid)" by simp
  then have m8: "(64 * hi + 8 * mid + lo) mod 8 = lo" using assms by (simp only: mod_mult_self2) simp
  show "unat (field_byte hi mid lo AND 7) = lo"
    using m8 by (simp only: seven unat_take_bit_mod u) simp
  have "(64 * hi + 8 * mid + lo) div 8 = 8 * hi + mid" using assms by simp
  then show "unat (drop_bit 3 (field_byte hi mid lo) AND 7) = mid"
    using assms unfolding seven unat_take_bit_mod unat_drop_bit_eq u by (simp add: drop_bit_eq_div)
qed

lemma mod8_high: "8 \<le> r \<Longrightarrow> r < 16 \<Longrightarrow> r mod 8 + 8 = r" for r :: nat
  by presburger

lemma reg_fields: "r < 16 \<Longrightarrow> r mod 8 + 8 * boolBit (8 \<le> r) = r"
  by (auto simp: boolBit_def not_le mod8_high)

lemma length_disp_bytes [simp]: "length (disp_bytes d) = (case d of NoDisp \<Rightarrow> 0 | Disp8 _ \<Rightarrow> 1 | Disp32 _ \<Rightarrow> 4)"
  by (simp add: disp_bytes_def u64ToLE_def split: displacement.split)

lemma disp_mod_less: "disp_mod d < 3"
  by (simp add: disp_mod_def split: displacement.split)

lemma runs_modrm_disp:
  assumes "md = disp_mod d \<and> \<not> cd \<or> disp_mod d = 2 \<and> md = 0 \<and> cd"
  shows "runs p (modrm_disp md cd) (disp_bytes d @ cs) (length (disp_bytes d)) (disp_val d)"
proof (cases d)
  case NoDisp
  then have "modrm_disp md cd = ret 0" using assms by (auto simp: modrm_disp_def disp_mod_def)
  then show ?thesis using runs_ret [of p "0 :: u64"] NoDisp by (simp add: disp_bytes_def disp_val_def del: ret_apply)
next
  case (Disp8 v)
  have "runs p fetch_i8 (v # cs) 1 (scast v)" unfolding fetch_i8_def by (rule runs_map [OF runs_u8])
  then show ?thesis using assms Disp8 by (simp add: modrm_disp_def disp_mod_def disp_bytes_def disp_val_def)
next
  case (Disp32 v)
  then show ?thesis
    using assms runs_disp [of p v cs] runs_map [OF runs_disp [of p v cs], of "\<lambda>v. v"]
    by (auto simp: modrm_disp_def disp_mod_def disp_bytes_def disp_val_def u64ToLE_def)
qed

lemma runs_sib:
  assumes x: "ea_ok (EMem b i s d)" and md: "md = (if b = None then 0 else disp_mod d)"
  shows "runs p (decode_sib md reg (ea_X (EMem b i s d)) (ea_B (EMem b i s d)))
    (field_byte s (case i of None \<Rightarrow> 4 | Some r \<Rightarrow> r mod 8) (case b of None \<Rightarrow> 5 | Some r \<Rightarrow> r mod 8) # disp_bytes d @ cs)
    (1 + length (disp_bytes d)) \<lparr>mr_regField = reg, mr_rm = ea_operand rex (EMem b i s d)\<rparr>"
proof -
  define ir where "ir = (case i of None \<Rightarrow> 4 | Some r \<Rightarrow> r mod 8)"
  define br where "br = (case b of None \<Rightarrow> 5 | Some r \<Rightarrow> r mod 8)"
  have f: "unat (drop_bit 6 (field_byte s ir br)) = s" "unat (drop_bit 3 (field_byte s ir br) AND 7) = ir"
      "unat (field_byte s ir br AND 7) = br"
    using x by (intro field_byte_split; auto simp: ir_def br_def ea_ok_def split: option.splits)+
  have idx: "ir + 8 * boolBit (ea_X (EMem b i s d)) = (case i of None \<Rightarrow> 4 | Some r \<Rightarrow> r)"
    using x by (auto simp: mod8_high ir_def ea_X_def ea_ok_def boolBit_def split: option.splits)
  have idx4: "((case i of None \<Rightarrow> 4 | Some r \<Rightarrow> r) \<noteq> 4) = (i \<noteq> None)"
    using x by (auto simp: ea_ok_def split: option.splits)
  have idxReg: "(if i \<noteq> None then (case i of None \<Rightarrow> 4 | Some r \<Rightarrow> r) else 0) = reg_or_0 i"
    by (simp add: reg_or_0_def split: option.split)
  have const: "(br = 5 \<and> md = 0) = (b = None)"
    using x by (auto simp: br_def md ea_ok_def disp_mod_def split: option.splits displacement.splits)
  have base: "(if b = None then 0 else br + 8 * boolBit (ea_B (EMem b i s d))) = reg_or_0 b"
    using x by (auto simp: mod8_high br_def ea_B_def ea_ok_def boolBit_def reg_or_0_def split: option.splits)
  have disp: "runs q (modrm_disp md (b = None)) (disp_bytes d @ cs) (length (disp_bytes d)) (disp_val d)" for q
    by (rule runs_modrm_disp) (use x in \<open>auto simp: md ea_ok_def split: option.splits\<close>)
  have op: "memOperandBaseIndex (reg_or_0 b) (b \<noteq> None) (reg_or_0 i) (i \<noteq> None) (push_bit s 1) (disp_val d) = ea_operand rex (EMem b i s d)"
    by (simp add: ea_operand_def)
  show ?thesis
    unfolding decode_sib_def ir_def [symmetric] br_def [symmetric]
    by (rule runs_u8_bind [where n = "length (disp_bytes d)"])
      (unfold Let_def f idx idx4 idxReg const base op [symmetric], use runs_map [OF disp] in simp_all)
qed

lemma asm_modrm_length: "length (asm_modrm reg x) = (case x of EReg _ \<Rightarrow> 1 | ERip _ \<Rightarrow> 5
    | EBase _ d \<Rightarrow> 1 + length (disp_bytes d) | EMem _ _ _ d \<Rightarrow> 2 + length (disp_bytes d))"
  by (simp add: asm_modrm_def split: ea.split)

text \<open>The first byte: mod, reg and rm.\<close>

lemma runs_modrm_byte:
  assumes "reg < 16" "md < 4" "rm < 8" "bytes = field_byte md (reg mod 8) rm # rest" "runs (p + 1) (decode_rm rex X B md reg rm) (rest @ cs) n y"
    "length bytes = Suc n"
  shows "runs p (decodeModRM rex (8 \<le> reg) X B) (bytes @ cs) (length bytes) y"
proof -
  have f: "unat (drop_bit 6 (field_byte md (reg mod 8) rm)) = md"
      "unat (drop_bit 3 (field_byte md (reg mod 8) rm) AND 7) = reg mod 8" "unat (field_byte md (reg mod 8) rm AND 7) = rm"
    using assms(2,3) by (intro field_byte_split; simp)+
  show ?thesis
    unfolding decodeModRM_def assms(6) unfolding assms(4) append_Cons
    by (rule runs_u8_bind [where n = n]) (unfold f reg_fields [OF assms(1)], use assms(5) in simp_all)
qed

lemma runs_modrm:
  assumes reg: "reg < 16" and x: "ea_ok x"
  shows "runs p (decodeModRM rex (8 \<le> reg) (ea_X x) (ea_B x)) (asm_modrm reg x @ cs) (length (asm_modrm reg x))
    \<lparr>mr_regField = reg, mr_rm = ea_operand rex x\<rparr>"
proof (cases x)
  case (EMem b i s d)
  let ?md = "if b = None then 0 else disp_mod d"
  have md: "?md < 3" using disp_mod_less [of d] by auto
  then have "decode_rm rex (ea_X x) (ea_B x) ?md reg 4 = decode_sib ?md reg (ea_X x) (ea_B x)" by (simp add: decode_rm_def)
  with runs_sib [OF x [unfolded EMem] refl, of "p + 1" reg cs rex] have sib: "runs (p + 1) (decode_rm rex (ea_X x) (ea_B x) ?md reg 4)
      ((field_byte s (case i of None \<Rightarrow> 4 | Some r \<Rightarrow> r mod 8) (case b of None \<Rightarrow> 5 | Some r \<Rightarrow> r mod 8) # disp_bytes d) @ cs)
      (1 + length (disp_bytes d)) \<lparr>mr_regField = reg, mr_rm = ea_operand rex x\<rparr>" by (simp add: EMem)
  show ?thesis
    by (rule runs_modrm_byte [OF reg _ _ _ sib]) (use md in \<open>simp_all add: EMem asm_modrm_def\<close>)
next
  case (EReg r)
  have r: "r mod 8 + 8 * boolBit (ea_B x) = r" using x EReg by (simp add: ea_ok_def ea_B_def reg_fields)
  have "runs (p + 1) (decode_rm rex (ea_X x) (ea_B x) 3 reg (r mod 8)) ([] @ cs) 0 \<lparr>mr_regField = reg, mr_rm = ea_operand rex x\<rparr>"
    unfolding decode_rm_def r using runs_ret by (simp add: EReg ea_operand_def)
  from runs_modrm_byte [OF reg _ _ _ this] show ?thesis by (simp add: EReg asm_modrm_def)
next
  case (ERip d)
  have rip: "runs (p + 1) (decode_rm rex (ea_X x) (ea_B x) 0 reg 5) (disp_bytes (Disp32 d) @ cs) 4
      \<lparr>mr_regField = reg, mr_rm = ea_operand rex x\<rparr>"
    using runs_map [OF runs_disp [of "p + 1" d cs]] by (simp add: decode_rm_def ERip ea_operand_def disp_bytes_def)
  show ?thesis by (rule runs_modrm_byte [OF reg _ _ _ rip]) (simp_all add: ERip asm_modrm_def)
next
  case (EBase r d)
  have r: "r mod 8 + 8 * boolBit (ea_B x) = r" "r mod 8 \<noteq> 4" "\<not> (disp_mod d = 0 \<and> r mod 8 = 5)" "disp_mod d \<noteq> 3"
    using x EBase disp_mod_less [of d] by (auto simp: ea_ok_def ea_B_def reg_fields disp_mod_def split: displacement.splits)
  have "runs q (modrm_disp (disp_mod d) False) (disp_bytes d @ cs) (length (disp_bytes d)) (disp_val d)" for q
    by (rule runs_modrm_disp) simp
  from runs_map [OF this] have b: "runs (p + 1) (decode_rm rex (ea_X x) (ea_B x) (disp_mod d) reg (r mod 8)) (disp_bytes d @ cs)
      (length (disp_bytes d)) \<lparr>mr_regField = reg, mr_rm = ea_operand rex x\<rparr>"
    unfolding decode_rm_def r(1) if_not_P [OF r(2)] if_not_P [OF r(3)] if_not_P [OF r(4)] by (simp add: EBase ea_operand_def)
  show ?thesis
    by (rule runs_modrm_byte [OF reg _ _ _ b]) (use disp_mod_less [of d] in \<open>simp_all add: EBase asm_modrm_def\<close>)
qed

section \<open>Assembling an instruction\<close>

definition rex_byte :: "bool \<Rightarrow> bool \<Rightarrow> bool \<Rightarrow> u8" where
  "rex_byte R X B = 0x48 + (if R then 4 else 0) + (if X then 2 else 0) + (if B then 1 else 0)"

definition rex64 :: "bool \<Rightarrow> bool \<Rightarrow> bool \<Rightarrow> pfx" where
  "rex64 R X B = no_pfx\<lparr>p_rexPresent := True, p_rexW := True, p_rexR := R, p_rexX := X, p_rexB := B\<rparr>"

text \<open>The 64-bit \<open>op r/m, r\<close> form of ADD, OR, ADC, SBB, AND, SUB, XOR and CMP.\<close>

definition asm_alu :: "nat \<Rightarrow> ea \<Rightarrow> nat \<Rightarrow> u8 list" where
  "asm_alu idx x reg = rex_byte (8 \<le> reg) (ea_X x) (ea_B x) # of_nat (8 * idx + 1) # asm_modrm reg x"

lemma rex_pfx_byte: "rex_pfx (rex_byte R X B) True no_pfx = rex64 R X B"
  by (cases R; cases X; cases B) (simp_all add: rex_pfx_def rex_byte_def rex64_def no_pfx_def)

lemma rex_byte_range: "0x40 \<le> rex_byte R X B \<and> rex_byte R X B \<le> 0x4F" "\<not> is_prefix (rex_byte R X B)"
  by (cases R; cases X; cases B; simp add: rex_byte_def is_prefix_def)+

lemma runs_prefix_none: "\<not> is_prefix b \<Longrightarrow> 0 < n \<Longrightarrow> runs p (prefix_loop n q) (b # bs) 0 q"
proof -
  assume b: "\<not> is_prefix b" and "0 < n"
  then obtain m where n: "n = Suc m" by (cases n) auto
  have "prefix_byte b q = None" using b by (simp add: prefix_byte_None)
  then have "runs (p + 0) (case prefix_byte b q of None \<Rightarrow> ret q | Some p' \<Rightarrow> bindE (advance 1) (\<lambda>_. prefix_loop m p'))
      (drop 0 (b # bs)) 0 q" by (simp add: runs_ret)
  then show ?thesis unfolding n prefix_loop.simps by (rule runs_bind [OF runs_peek, rotated]) simp_all
qed

lemma runs_finish: "runs p (finish i) bs 0 \<lparr>d_len = p, d_insnID = noInsnHook, d_endsBlock = False, d_exec = i\<rparr>"
  unfolding finish_def finish_as_def
  by (rule runs_map [OF runs_pos])

lemma runs_with_rm:
  assumes "reg < 16" "ea_ok x" "p_rexR q = (8 \<le> reg)" "p_rexX q = ea_X x" "p_rexB q = ea_B x"
    and f: "runs (p + length (asm_modrm reg x)) (f (applySeg q (ea_operand (p_rexPresent q) x)) (regOperand reg (p_rexPresent q))) cs n y"
    and s: "s = length (asm_modrm reg x) + n"
  shows "runs p (with_rm q f) (asm_modrm reg x @ cs) s y"
  unfolding with_rm_def modrm_def assms(3-5)
  by (rule runs_bind [OF runs_modrm [OF assms(1,2)], where n' = n]) (simp_all add: f s)

lemma applySeg_none: "\<not> p_segFS q \<Longrightarrow> \<not> p_segGS q \<Longrightarrow> applySeg q x = x"
  by (simp add: applySeg_def)

lemma dispatch_alu:
  assumes "idx < 8"
  shows "dispatch X q (of_nat (8 * idx + 1)) = dec_alu q (of_nat (8 * idx + 1))"
    "unat (drop_bit 3 (of_nat (8 * idx + 1) :: u8)) = idx" "unat ((of_nat (8 * idx + 1) :: u8) AND 7) = 1"
proof -
  from assms consider "idx = 0" | "idx = 1" | "idx = 2" | "idx = 3" | "idx = 4" | "idx = 5" | "idx = 6" | "idx = 7"
    by linarith
  then show "dispatch X q (of_nat (8 * idx + 1)) = dec_alu q (of_nat (8 * idx + 1))"
    "unat (drop_bit 3 (of_nat (8 * idx + 1) :: u8)) = idx" "unat ((of_nat (8 * idx + 1) :: u8) AND 7) = 1"
    by (cases; simp add: dispatch_def)+
qed

lemma runs_alu:
  assumes "idx < 8" "reg < 16" "ea_ok x"
  shows "runs 0 (decode_insn X) (asm_alu idx x reg @ cs) (length (asm_alu idx x reg))
    \<lparr>d_len = length (asm_alu idx x reg), d_insnID = noInsnHook, d_endsBlock = False,
     d_exec = IAlu idx (ea_operand True x) (regOperand reg True) 8\<rparr>"
proof -
  define R where "R = rex_byte (8 \<le> reg) (ea_X x) (ea_B x)"
  define op where "op = (of_nat (8 * idx + 1) :: u8)"
  define q where "q = rex64 (8 \<le> reg) (ea_X x) (ea_B x)"
  define L where "L = length (asm_modrm reg x)"
  define D where "D = \<lparr>d_len = 2 + L, d_insnID = noInsnHook, d_endsBlock = False,
     d_exec = IAlu idx (ea_operand True x) (regOperand reg True) 8\<rparr>"
  have q: "p_rexR q = (8 \<le> reg)" "p_rexX q = ea_X x" "p_rexB q = ea_B x" "p_rexPresent q" "p_rexW q"
      "\<not> p_segFS q" "\<not> p_segGS q"
    by (simp_all add: q_def rex64_def no_pfx_def)
  note R = rex_byte_range [of "8 \<le> reg" "ea_X x" "ea_B x", folded R_def]
  note disp = dispatch_alu [OF assms(1), folded op_def]
  have "runs 2 (dec_alu q op) (asm_modrm reg x @ cs) L D"
    unfolding dec_alu_def Let_def disp(2,3)
    using runs_with_rm [OF assms(2,3) q(1-3), of 2 "\<lambda>rm reg. finish (IAlu idx rm reg 8)" cs 0 D L] runs_finish [of "2 + L"]
    by (simp add: q applySeg_none D_def L_def opWidth_def)
  then have rest: "runs 1 (bindE fetch_u8 (dispatch X q)) (op # asm_modrm reg x @ cs) (1 + L) D"
    by (intro runs_u8_bind [where n = L]) (simp_all add: disp(1) nat_1_add_1 del: One_nat_def)
  have rexb: "runs 0 (read_rex no_pfx) (R # op # asm_modrm reg x @ cs) 1 q"
    unfolding read_rex_def
    by (rule runs_bind [OF runs_peek_opt, where n' = 1])
       (use R runs_map [OF runs_advance [of 0 1 "R # op # asm_modrm reg x @ cs"], of "\<lambda>_. rex_pfx R True no_pfx"]
         in \<open>simp_all add: rex_pfx_byte R_def q_def\<close>)
  have rex: "runs 0 (decode_rex X no_pfx) (R # op # asm_modrm reg x @ cs) (2 + L) D"
    unfolding decode_rex_def by (rule runs_bind [where n' = "1 + L", OF rexb]) (use rest in simp_all)
  have "runs 0 (decode_insn X) (R # op # asm_modrm reg x @ cs) (2 + L) D"
    unfolding decode_insn_def
  proof (rule runs_bind [OF runs_prefix_none [OF R(2)]])
    have ne: "\<not> (R = 0xC4 \<or> R = 0xC5)" using R(1) by auto
    show "runs (0 + 0) (bindE peek_opt (\<lambda>b. case b of None \<Rightarrow> decode_rex X no_pfx
          | Some lead \<Rightarrow> if lead = 0xC4 \<or> lead = 0xC5 then decode_vex X no_pfx lead else decode_rex X no_pfx))
        (drop 0 (R # op # asm_modrm reg x @ cs)) (2 + L) D"
      by (simp only: drop_0 add_0) (rule runs_bind [where n' = "2 + L", OF runs_peek_opt]; use ne rex in simp)
  qed (simp_all add: prefix_fuel_def)
  then show ?thesis
    unfolding asm_alu_def R_def [symmetric] op_def [symmetric] by (simp add: L_def [symmetric] D_def)
qed

lemma decodeOne_runs:
  assumes "runs 0 (decode_insn X) bs n d" "mem_wf m" "code_at m a bs"
  shows "fst (decodeOne X a m) = Inr d"
proof -
  have "\<exists>k'. decode_insn X \<lparr>k_base = a, k_pos = 0, k_mem = m\<rparr> = (Inr d, k')"
    using assms(1) [unfolded runs_def, rule_format, of "\<lparr>k_base = a, k_pos = 0, k_mem = m\<rparr>"] assms(2,3) by auto
  then show ?thesis by (auto simp: decodeOne_def)
qed

section \<open>A program in memory\<close>

text \<open>A page of code for the witnesses: readable and executable, holding the given bytes.\<close>

definition code_mem :: "u8 list \<Rightarrow> memory" where
  "code_mem bs = snd (MemWrite 0x1000 bs (snd (MemMap 0x1000 0x1000 (ProtRead OR ProtExec) newMemory)))"

lemma code_mem_spec:
  assumes "length bs \<le> 4096"
  shows "mem_wf (code_mem bs)" "code_at (code_mem bs) 0x1000 bs"
    "\<not> unat (x - 0x1000) < 4096 \<Longrightarrow> mem_at (code_mem bs) x = None"
proof -
  define m0 where "m0 = snd (MemMap 0x1000 0x1000 (ProtRead OR ProtExec) newMemory)"
  have wf0: "mem_wf m0" unfolding m0_def by (rule MemMap_wf [OF mem_wf_newMemory])
  have at0: "mem_at m0 x = (if unat (x - 0x1000) < 4096 then Some (ProtRead OR ProtExec, 0) else None)" for x
    using MemMap_fresh [OF mem_wf_newMemory, of "0x1000" "0x1000" "ProtRead OR ProtExec"] by (auto simp: m0_def newMemory_at)
  have off: "unat (of_nat i :: u64) = i" if "i < length bs" for i
    using that assms by (intro unat_of_nat_small) simp
  have acc: "accessible m0 0 (0x1000 + of_nat i)" if "i < length bs" for i
    using that assms off [OF that] by (simp add: accessible_def at0)
  have len: "length bs \<le> 18446744073709551616" using assms by simp
  obtain m where m: "writeChecked 0x1000 bs 0 m0 = (Inr (), m)" "mem_wf m" "mem_at m = upd_at 0x1000 bs 0 (length bs) (mem_at m0)"
    using writeChecked_ok [OF wf0 len acc] by blast
  have cm: "code_mem bs = m" by (simp add: code_mem_def m0_def [symmetric] MemWrite_eq m(1))
  show "mem_wf (code_mem bs)" by (simp add: cm m(2))
  show "code_at (code_mem bs) 0x1000 bs"
    using off assms by (simp add: cm code_at_def code_view_def m(3) upd_at_def at0 Let_def prot_defs)
  show "\<not> unat (x - 0x1000) < 4096 \<Longrightarrow> mem_at (code_mem bs) x = None"
    by (simp add: cm m(3) upd_at_def at0 Let_def)
qed

lemma data_map_view:
  "code_view (snd (MemMap 0x5000 0x1000 (ProtRead OR ProtWrite) (code_mem []))) = code_view (code_mem [])"
proof (rule ext)
  fix x
  have wf: "mem_wf (code_mem [])" using code_mem_spec(1) [of "[]"] by simp
  have free: "mem_at (code_mem []) y = None" if "unat (y - 0x5000) < unat (0x1000 :: u64)" for y
  proof (rule code_mem_spec(3))
    define z where "z = y - 0x5000"
    have "y - 0x1000 = z + 0x4000" by (simp add: z_def)
    moreover have "unat (z + 0x4000) = unat z + 0x4000"
      using that by (simp add: unat_word_ariths z_def [symmetric])
    ultimately show "\<not> unat (y - 0x1000) < 4096" by (simp only:)
  qed simp
  show "code_view (snd (MemMap 0x5000 0x1000 (ProtRead OR ProtWrite) (code_mem []))) x = code_view (code_mem []) x"
    using MemMap_fresh [OF wf, of "0x5000" "0x1000" "ProtRead OR ProtWrite"] free free [of x]
    by (auto simp: code_view_def prot_defs)
qed

section \<open>Properties of the decoder\<close>

text \<open>The vector decoders of the witnesses: they give a closure that does nothing.\<close>

definition nop_ext :: ext_decoders where
  "nop_ext = \<lparr>x_sse = (\<lambda>_ _. ret (ret False)), x_38 = (\<lambda>_. ret (ret False)), x_3A = (\<lambda>_. ret (ret False)),
     x_vex = (\<lambda>_ _ _. ret (ret False))\<rparr>"

lemma demo_decode:
  "decodeOne X 0x1000 (code_mem (asm_alu 5 (EReg 12) 3)) = (Inr \<lparr>d_len = 3, d_insnID = noInsnHook, d_endsBlock = False,
     d_exec = IAlu 5 (regOperand 12 True) (regOperand 3 True) 8\<rparr>, snd (decodeOne X 0x1000 (code_mem (asm_alu 5 (EReg 12) 3))))"
  using decodeOne_runs [OF runs_alu [of 5 3 "EReg 12" X "[]"], of "code_mem (asm_alu 5 (EReg 12) 3)" "0x1000"]
    code_mem_spec [of "asm_alu 5 (EReg 12) 3"]
  by (intro prod_eqI) (simp_all add: ea_ok_def ea_operand_def asm_alu_def asm_modrm_length)

lemma demo_wf: "mem_wf (code_mem (asm_alu 5 (EReg 12) 3))"
  by (rule code_mem_spec) (simp add: asm_alu_def asm_modrm_length)

lemma nop_ext_good: "ext_good nop_ext"
  by (auto simp: ext_good_def nop_ext_def ext_ok_def stays_def intro!: dec_intros keeps_intros)

text \<open>
  A ModRM, SIB and displacement assembled for any register, RIP-relative or base+index*scale
  operand, with a displacement of any size, decodes to exactly that operand and register number, and consumes exactly those bytes.
\<close>

theorem modrm_roundtrip:
  assumes "reg < 16" "ea_ok x" "mem_wf (k_mem k)"
    "code_at (k_mem k) (k_base k + of_nat (k_pos k)) (asm_modrm reg x)"
  shows "\<exists>k'. decodeModRM rex (8 \<le> reg) (ea_X x) (ea_B x) k =
      (Inr \<lparr>mr_regField = reg, mr_rm = ea_operand rex x\<rparr>, k') \<and> k_pos k' = k_pos k + length (asm_modrm reg x)"
  using runs_modrm [OF assms(1,2), of "k_pos k" rex "[]"] assms(3,4) unfolding runs_def by fastforce

theorem modrm_roundtrip_witness:
  "\<exists>k'. decodeModRM True True True True \<lparr>k_base = 0x1000, k_pos = 0, k_mem = code_mem (asm_modrm 9 (EMem (Some 13) (Some 9) 3 (Disp8 0xF0)))\<rparr> =
      (Inr \<lparr>mr_regField = 9, mr_rm = memOperandBaseIndex 13 True 9 True 8 (- 16)\<rparr>, k') \<and> k_pos k' = 3"
proof -
  let ?x = "EMem (Some 13) (Some 9) 3 (Disp8 0xF0)"
  have len: "length (asm_modrm 9 ?x) = 3" by (simp add: asm_modrm_length)
  have x: "ea_operand True ?x = memOperandBaseIndex 13 True 9 True 8 (- 16)" "ea_X ?x" "ea_B ?x" "ea_ok ?x"
    by (simp_all add: ea_operand_def ea_X_def ea_B_def ea_ok_def reg_or_0_def disp_val_def)
  have c: "mem_wf (code_mem (asm_modrm 9 ?x))" "code_at (code_mem (asm_modrm 9 ?x)) 0x1000 (asm_modrm 9 ?x)"
    using code_mem_spec [of "asm_modrm 9 ?x"] by (simp_all add: len)
  show ?thesis
    using modrm_roundtrip [of 9 ?x "\<lparr>k_base = 0x1000, k_pos = 0, k_mem = code_mem (asm_modrm 9 ?x)\<rparr>" True, unfolded len x(1)] x(2-4) c by simp
qed

text \<open>
  C16. The 64-bit register form of ADD, OR, ADC, SBB, AND, SUB, XOR and CMP with any operand in any of
  its encodings (register, RIP-relative, base with or without a SIB byte, index and scale, no, one-byte
  or four-byte displacement), placed at an executable address, decodes to that operation on those
  operands with its exact length.
\<close>

theorem alu_decodes:
  assumes "idx < 8" "reg < 16" "ea_ok x" "mem_wf m" "code_at m a (asm_alu idx x reg)"
  shows "fst (decodeOne X a m) = Inr \<lparr>d_len = length (asm_alu idx x reg), d_insnID = noInsnHook, d_endsBlock = False,
     d_exec = IAlu idx (ea_operand True x) (regOperand reg True) 8\<rparr>"
  using decodeOne_runs [OF runs_alu [OF assms(1-3), of X "[]"]] assms(4,5) by simp

theorem alu_decodes_witness:
  "fst (decodeOne nop_ext 0x1000 (code_mem (asm_alu 5 (EReg 12) 3))) = Inr \<lparr>d_len = 3, d_insnID = noInsnHook,
     d_endsBlock = False, d_exec = IAlu 5 (regOperand 12 True) (regOperand 3 True) 8\<rparr>"
  using alu_decodes [of 5 3 "EReg 12" "code_mem (asm_alu 5 (EReg 12) 3)" "0x1000" nop_ext]
    code_mem_spec [of "asm_alu 5 (EReg 12) 3"]
  by (simp add: ea_ok_def ea_operand_def asm_alu_def asm_modrm_length)

text \<open>
  Whatever the bytes are, a decoded instruction is well formed: register numbers below 16,
  operand widths of 1, 2, 4 or 8 bytes, operation indices and condition codes in range, a block end
  wherever it may branch, and the memory is changed only in its lookup cache.
\<close>

theorem decoded_well_formed:
  assumes "ext_good X" "mem_wf m" "decodeOne X a m = (r, m')"
  shows "mem_wf m' \<and> same_core m m' \<and> (\<forall>d. r = Inr d \<longrightarrow> decoded_ok d)"
  using decodeOne_spec [OF assms] by blast

theorem decoded_well_formed_witness:
  "decoded_ok \<lparr>d_len = 3, d_insnID = noInsnHook, d_endsBlock = False, d_exec = IAlu 5 (regOperand 12 True) (regOperand 3 True) 8\<rparr>"
  using decoded_well_formed [OF nop_ext_good demo_wf demo_decode] by simp

text \<open>A decoded instruction is at least one byte long, so the run loop always moves forward past it.\<close>

theorem decoded_length_pos:
  assumes "ext_good X" "mem_wf m" "decodeOne X a m = (Inr d, m')"
  shows "0 < d_len d"
  using decodeOne_spec(3) [OF assms refl] by simp


theorem decoded_length_pos_witness: "0 < (3 :: nat)"
  using decoded_length_pos [OF nop_ext_good demo_wf demo_decode] by simp

text \<open>
  Decoding depends on the executable bytes alone: two memories with the same bytes on the same
  executable pages decode every address to the same instruction or the same fault. This is what
  makes a cached decode valid until code changes.
\<close>

theorem decode_depends_on_code:
  assumes "ext_good X" "mem_wf m1" "mem_wf m2" "code_view m1 = code_view m2"
  shows "fst (decodeOne X a m1) = fst (decodeOne X a m2)"
  by (rule decodeOne_view [OF assms])

theorem decode_depends_on_code_witness:
  "fst (decodeOne nop_ext 0x1000 (code_mem [])) =
   fst (decodeOne nop_ext 0x1000 (snd (MemMap 0x5000 0x1000 (ProtRead OR ProtWrite) (code_mem []))))"
proof -
  have wf: "mem_wf (code_mem [])" using code_mem_spec(1) [of "[]"] by simp
  show ?thesis
    by (rule decode_depends_on_code [OF nop_ext_good wf MemMap_wf [OF wf] data_map_view [symmetric]])
qed

text \<open>
  C24. The loop over the legacy prefixes ends: it can run through its fuel, the size of the address
  space, only if every address of the guest holds an executable prefix byte.
\<close>

theorem prefix_loop_returns:
  assumes "mem_wf (k_mem k)" "\<And>b. code_view (k_mem k) a = Some b \<Longrightarrow> \<not> is_prefix b"
  shows "fst (prefix_loop prefix_fuel p k) \<noteq> Inl NoReturn"
proof
  assume no: "fst (prefix_loop prefix_fuel p k) = Inl NoReturn"
  define i where "i = unat (a - (k_base k + of_nat (k_pos k)))"
  have "i < prefix_fuel" unfolding i_def prefix_fuel_def using unsigned_less [of "a - (k_base k + of_nat (k_pos k))", where ?'a = nat] by simp
  from prefix_loop_no_return [OF assms(1) no this]
  obtain b where "code_view (k_mem k) (k_base k + of_nat (k_pos k + i)) = Some b" "is_prefix b" by blast
  moreover have "k_base k + of_nat (k_pos k + i) = a" by (simp add: i_def)
  ultimately show False using assms(2) by simp
qed

theorem prefix_loop_returns_witness:
  "fst (prefix_loop prefix_fuel no_pfx \<lparr>k_base = 0x1000, k_pos = 0, k_mem = code_mem [0x66, 0x90]\<rparr>) \<noteq> Inl NoReturn"
proof (rule prefix_loop_returns [where a = "0x1001"])
  show "mem_wf (k_mem \<lparr>k_base = 0x1000, k_pos = 0, k_mem = code_mem [0x66, 0x90]\<rparr>)"
    using code_mem_spec(1) [of "[0x66, 0x90]"] by simp
  have "code_view (code_mem [0x66, 0x90]) (0x1000 + of_nat 1) = Some 0x90"
    using code_atD [OF code_mem_spec(2) [of "[0x66, 0x90]"], of 1] by simp
  then show "\<not> is_prefix b" if "code_view (k_mem \<lparr>k_base = 0x1000, k_pos = 0, k_mem = code_mem [0x66, 0x90]\<rparr>) 0x1001 = Some b" for b
    using that by (simp add: is_prefix_def)
qed

end
