(* ===== verification/Insn_Laws.thy ===== *)
theory Insn_Laws
  imports Decode_Round
begin

unbundle bit_operations_syntax

text \<open>
  What running an instruction does: the memory rules hold for every decoded instruction, only the
  branch instructions set RIP themselves, and the bit instructions compute what their names say.
\<close>

section \<open>Memory rules\<close>

lemma keeps_no_branch [keeps_intros]: "keeps f \<Longrightarrow> keeps (no_branch f)"
  unfolding no_branch_def by (intro keeps_intros)

lemma keeps_rip [keeps_intros]: "keeps (set_rip v)" "keeps (jump_rel v)"
  unfolding set_rip_def jump_rel_def by (intro keeps_intros)+

lemma keeps_writes [keeps_intros]:
  "op_width w \<Longrightarrow> keeps (bindE f (writeOperand x w))" if "keeps f" for f
  using that by (intro keeps_intros)

lemma keeps_moves:
  "keeps (exec_test x y w)" "keeps (exec_test_imm x v w)" "op_width w \<Longrightarrow> keeps (exec_mov x y w)"
  "op_width w \<Longrightarrow> keeps (exec_xchg x y w)" "keeps (exec_pop_reg reg)" "keeps (exec_add32 reg imm)"
  "keeps (exec_inc32 reg)" "keeps (exec_dec32 reg)" "op_width w \<Longrightarrow> keeps (exec_inc x w)"
  "op_width w \<Longrightarrow> keeps (exec_dec x w)" "keeps (exec_call_rm x)" "keeps (exec_call v)" "keeps (exec_jcc cc v)"
  "keeps (exec_ret_n n)" "keeps exec_leave" "keeps (exec_convert w rex)" "keeps (exec_sign_dx w)"
  unfolding exec_test_def exec_test_imm_def exec_mov_def exec_xchg_def exec_pop_reg_def exec_add32_def exec_inc32_def
    exec_dec32_def exec_inc_def exec_dec_def exec_call_rm_def exec_call_def exec_jcc_def exec_ret_n_def exec_leave_def
    exec_convert_def exec_sign_dx_def
  by (intro keeps_intros; assumption?)+

lemma keeps_shift: "op_width w \<Longrightarrow> keeps (exec_shift idx x w cnt)"
  unfolding exec_shift_def by (intro keeps_intros) (cases cnt; auto intro!: keeps_intros)+

lemma keeps_bt: "op_width w \<Longrightarrow> keeps (bt_write bop x w v b)"
  unfolding bt_write_def by (cases bop) (auto intro!: keeps_intros)

lemma keeps_bits:
  assumes "op_width w"
  shows "keeps (exec_setcc cc x)" "keeps (exec_cmovcc cc y x w)" "keeps (exec_movzx y x sw w)" "keeps (exec_movsx y x sw w)"
    "keeps (exec_imul_rr y x w)" "keeps (exec_shld x y w imm)" "keeps (exec_shrd x y w imm)"
    "keeps (exec_bt_imm idx x w b)" "keeps (exec_cmpxchg x y w)" "keeps (exec_xadd x y w)" "keeps (exec_bswap x w)"
    "keeps (exec_bsf y x w f3)" "keeps (exec_bsr y x w f3)" "keeps (exec_popcnt y x w)"
  unfolding exec_setcc_def exec_cmovcc_def exec_movzx_def exec_movsx_def exec_imul_rr_def exec_shld_def exec_shrd_def
    exec_bt_imm_def exec_cmpxchg_def exec_xadd_def exec_bswap_def exec_bsf_def exec_bsr_def exec_popcnt_def
  using assms by (auto intro!: keeps_intros keeps_bt split: option.split)

lemma keeps_exec_bt:
  assumes w: "op_width w"
  shows "keeps (exec_bt bop x y w)"
  unfolding exec_bt_def
proof (rule keeps_bindE [OF keeps_readOperand])
  fix b0
  show "keeps (bindE (getS (bt_target x w b0)) (\<lambda>(b, rm1, w1). bindE (readOperand rm1 w1) (\<lambda>base.
      bindE (on_regs (setFlag flagCF (drop_bit (unat b) base AND 1 \<noteq> 0))) (\<lambda>_. bt_write bop rm1 w1 base b))))"
  proof (rule keeps_bindE_result [OF keeps_basic(3)])
    fix t c c' assume "getS (bt_target x w b0) c = (Inr t, c')"
    then have "op_width (snd (snd t))" using w by (auto simp: bt_target_def split: if_splits)
    then show "keeps (case t of (b, rm1, w1) \<Rightarrow> bindE (readOperand rm1 w1) (\<lambda>base.
        bindE (on_regs (setFlag flagCF (drop_bit (unat b) base AND 1 \<noteq> 0))) (\<lambda>_. bt_write bop rm1 w1 base b)))"
      by (cases t) (auto intro!: keeps_intros keeps_bt)
  qed
qed

lemma keeps_x87: "x87op_ok i \<Longrightarrow> keeps (exec_x87 i)"
proof -
  have rd: "keeps (x87_read x n)" for x n
    unfolding x87_read_def by (intro keeps_intros)
  have wr: "length bs \<le> 10 \<Longrightarrow> keeps (x87_write x bs)" for x bs
    unfolding x87_write_def by (intro keeps_intros) simp
  assume "x87op_ok i"
  then show ?thesis
    by (cases i) (auto simp: exec_x87_def x87op_ok_def x87Multiply32_def x87LoadControl_def x87StoreControl_def
        x87LoadInteger_def x87StoreInteger_def x87Load_def x87Store_def intro!: keeps_intros rd wr)
qed

lemma keeps_exec_insn: "insn_ok i \<Longrightarrow> keeps (exec_insn i)"
  by (cases i)
     (auto simp: exec_insn_def ext_ok_def intro!: keeps_intros keeps_moves keeps_shift keeps_bits keeps_exec_bt keeps_x87)

section \<open>Branching\<close>

lemma no_branch_false: "fst (no_branch f c) \<noteq> Inr True"
  by (auto simp: no_branch_def bindE_def split: prod.split sum.split)

lemma branch_may_branch:
  assumes "insn_ok i" "fst (exec_insn i c) = Inr True"
  shows "may_branch i"
  using assms no_branch_false by (cases i) (auto simp: exec_insn_def may_branch_def ext_ok_def)

text \<open>The register forms of BT always work on a bit of the operand.\<close>

lemma bt_target_reg: "o_kind x = opndReg \<Longrightarrow> bt_target x w b c = (b AND (of_nat w * 8 - 1), x, w)"
  by (simp add: bt_target_def)

text \<open>
  For a base+index operand the closure of BT, BTS, BTR and BTC sets \<open>rm.addr\<close>, which \<open>effAddr\<close> does
  not read: whatever the bit offset, the byte accessed is the one at the operand's own address, and
  without its segment base.
\<close>

lemma bt_offset_ignored:
  assumes "o_kind x = opndMem" "o_memBaseIndex x" "\<not> o_ripRelative x"
  shows "effAddr (fst (snd (bt_target x w b c))) c' = effAddr (x\<lparr>o_seg := segOverrideNone\<rparr>) c'"
proof -
  have "effAddr (x\<lparr>o_addr := v, o_ripRelative := False, o_seg := segOverrideNone\<rparr>) c' =
      effAddr (x\<lparr>o_seg := segOverrideNone\<rparr>) c'" for v
    using assms(2,3) by (simp add: effAddr_def Let_def cong: if_cong)
  then show ?thesis using assms(1) by (simp add: bt_target_def)
qed

section \<open>Byte swap\<close>

lemma bit_byte: "bit (push_bit (8 * j) (drop_bit (8 * i) v AND 0xFF) :: u64) n \<longleftrightarrow>
    n < 64 \<and> 8 * j \<le> n \<and> n < 8 * j + 8 \<and> bit v (n - 8 * j + 8 * i)"
proof -
  have ff: "(0xFF :: u64) = mask 8" by (simp add: mask_eq_exp_minus_1)
  show ?thesis
    unfolding ff by (auto simp: bit_simps ac_simps)
qed

lemma bit_bswap_fold:
  "bit (fold (\<lambda>i swapped. swapped OR push_bit (8 * (w - 1 - i)) (drop_bit (8 * i) v AND 0xFF)) [0..<k] 0 :: u64) n \<longleftrightarrow>
   (\<exists>i<k. n < 64 \<and> 8 * (w - 1 - i) \<le> n \<and> n < 8 * (w - 1 - i) + 8 \<and> bit v (n - 8 * (w - 1 - i) + 8 * i))"
proof (induction k)
  case (Suc k)
  show ?case
    unfolding upt_Suc_append [OF le0] fold_append comp_def
    by (simp only: fold_simps bit_or_iff Suc.IH bit_byte) (auto simp: less_Suc_eq)
qed simp

lemma div8_unique: "8 * k \<le> n \<Longrightarrow> n < 8 * k + 8 \<Longrightarrow> n div 8 = k \<and> n mod 8 = n - 8 * k" for n k :: nat
  using div_nat_eqI [of 8 k n] by (simp add: modulo_nat_def mult.commute)

lemma bit_bswap:
  assumes "w \<le> 8"
  shows "bit (bswap v w) n \<longleftrightarrow> n < 8 * w \<and> bit v (8 * (w - 1 - n div 8) + n mod 8)"
proof
  assume "bit (bswap v w) n"
  then obtain i where i: "i < w" "8 * (w - 1 - i) \<le> n" "n < 8 * (w - 1 - i) + 8" "bit v (n - 8 * (w - 1 - i) + 8 * i)"
    unfolding bswap_def bit_bswap_fold by blast
  then have "n div 8 = w - 1 - i" "n mod 8 = n - 8 * (w - 1 - i)" using div8_unique [of "w - 1 - i" n] by auto
  then show "n < 8 * w \<and> bit v (8 * (w - 1 - n div 8) + n mod 8)"
    using i by (simp add: add.commute)
next
  assume n: "n < 8 * w \<and> bit v (8 * (w - 1 - n div 8) + n mod 8)"
  define i where "i = w - 1 - n div 8"
  have d: "w - 1 - i = n div 8" "i < w" using n by (auto simp: i_def)
  have bv: "bit v (n mod 8 + 8 * i)" using n by (simp add: i_def add.commute)
  have "8 * (w - 1 - i) \<le> n" "n < 8 * (w - 1 - i) + 8" "n - 8 * (w - 1 - i) = n mod 8" "n < 64"
    unfolding d(1) using n assms by (auto simp: minus_mult_div_eq_mod)
  then show "bit (bswap v w) n"
    unfolding bswap_def bit_bswap_fold using n d(2) by (intro exI [of _ i]) (simp add: bv)
qed

section \<open>Bit scans\<close>

lemma drop_bit_and_1: "drop_bit n v AND 1 = 0 \<longleftrightarrow> \<not> bit v n" for v :: u64
  by (simp add: bit_iff_odd_drop_bit and_one_eq even_iff_mod_2_eq_zero)

lemma scan_up_spec:
  assumes "c \<le> n"
  shows "c \<le> scan_up v n c \<and> scan_up v n c \<le> n \<and> (\<forall>i. c \<le> i \<and> i < scan_up v n c \<longrightarrow> \<not> bit v i) \<and>
    (scan_up v n c < n \<longrightarrow> bit v (scan_up v n c))"
  using assms
proof (induction v n c rule: scan_up.induct)
  case (1 v n c)
  show ?case
  proof (cases "c < n \<and> drop_bit c v AND 1 = 0")
    case True
    have eq: "scan_up v n c = scan_up v n (c + 1)" using True by (subst scan_up.simps) simp
    have nb: "\<not> bit v c" using True by (simp add: drop_bit_and_1)
    have IH: "c + 1 \<le> scan_up v n (c + 1) \<and> scan_up v n (c + 1) \<le> n \<and>
        (\<forall>i. c + 1 \<le> i \<and> i < scan_up v n (c + 1) \<longrightarrow> \<not> bit v i) \<and> (scan_up v n (c + 1) < n \<longrightarrow> bit v (scan_up v n (c + 1)))"
      using 1(1) [OF True] True by simp
    have "\<not> bit v i" if "c \<le> i" "i < scan_up v n (c + 1)" for i
      using that IH nb by (cases "i = c") auto
    then show ?thesis using IH by (simp add: eq)
  next
    case False
    then have eq: "scan_up v n c = c" by (subst scan_up.simps) auto
    show ?thesis using False 1(2) by (auto simp: eq drop_bit_and_1)
  qed
qed

lemma lz_scan_spec:
  assumes "c \<le> n"
  shows "c \<le> lz_scan v n c \<and> lz_scan v n c \<le> n \<and> (\<forall>i. c \<le> i \<and> i < lz_scan v n c \<longrightarrow> \<not> bit v (n - 1 - i)) \<and>
    (lz_scan v n c < n \<longrightarrow> bit v (n - 1 - lz_scan v n c))"
  using assms
proof (induction v n c rule: lz_scan.induct)
  case (1 v n c)
  show ?case
  proof (cases "c < n \<and> drop_bit (n - 1 - c) v AND 1 = 0")
    case True
    have eq: "lz_scan v n c = lz_scan v n (c + 1)" using True by (subst lz_scan.simps) simp
    have nb: "\<not> bit v (n - 1 - c)" using True by (simp add: drop_bit_and_1)
    have IH: "c + 1 \<le> lz_scan v n (c + 1) \<and> lz_scan v n (c + 1) \<le> n \<and>
        (\<forall>i. c + 1 \<le> i \<and> i < lz_scan v n (c + 1) \<longrightarrow> \<not> bit v (n - 1 - i)) \<and>
        (lz_scan v n (c + 1) < n \<longrightarrow> bit v (n - 1 - lz_scan v n (c + 1)))"
      using 1(1) [OF True] True by simp
    have "\<not> bit v (n - 1 - i)" if "c \<le> i" "i < lz_scan v n (c + 1)" for i
      using that IH nb by (cases "i = c") auto
    then show ?thesis using IH by (simp add: eq)
  next
    case False
    then have eq: "lz_scan v n c = c" by (subst lz_scan.simps) auto
    show ?thesis using False 1(2) by (auto simp: eq drop_bit_and_1)
  qed
qed

lemma scan_down_spec:
  assumes "bit v i" "i \<le> n"
  shows "bit v (scan_down v n) \<and> i \<le> scan_down v n \<and> scan_down v n \<le> n \<and>
    (\<forall>j. scan_down v n < j \<and> j \<le> n \<longrightarrow> \<not> bit v j)"
  using assms
proof (induction n)
  case (Suc n)
  show ?case
  proof (cases "bit v (Suc n)")
    case True
    then show ?thesis using Suc.prems by (auto simp: drop_bit_and_1)
  next
    case False
    then have "i \<le> n" using Suc.prems by (cases "i = Suc n") auto
    then show ?thesis using Suc.IH Suc.prems(1) False by (auto simp: drop_bit_and_1 le_Suc_eq)
  qed
qed auto

lemma popcnt_loop_spec: "popcnt_loop v c = c + of_nat (card {i. bit v i})"
proof (induction v c rule: popcnt_loop.induct)
  case (1 v c)
  show ?case
  proof (cases "v = 0")
    case False
    have fin: "finite {i. bit v i}" "finite {i. bit v (Suc i)}"
      by (rule finite_subset [of _ "{..<64}"]; use bit_imp_le_length in fastforce)+
    have split: "{i. bit v i} = (if bit v 0 then {0} else {}) \<union> Suc ` {i. bit v (Suc i)}"
      by (auto simp: image_iff) (metis not0_implies_Suc)+
    have "card {i. bit v i} = (if bit v 0 then 1 else 0) + card {i. bit v (Suc i)}"
      by (subst split, subst card_Un_disjoint) (use fin in \<open>auto simp: card_image\<close>)
    moreover have "v AND 1 = of_bool (bit v 0)" by (simp add: and_one_eq bit_0 odd_iff_mod_2_eq_one)
    moreover have "{i. bit (drop_bit 1 v) i} = {i. bit v (Suc i)}" by (simp add: bit_drop_bit_eq)
    moreover have "popcnt_loop v c = popcnt_loop (drop_bit 1 v) (c + (v AND 1))"
      using False by (subst popcnt_loop.simps) simp
    ultimately show ?thesis using 1 [OF False] by simp
  next
    case True
    have none: "card {i. bit v i} = 0" using True by (simp add: bot_fun_def)
    have "popcnt_loop v c = c" using True by (subst popcnt_loop.simps) simp
    then show ?thesis unfolding none by simp
  qed
qed

section \<open>A branch instruction in memory\<close>

lemma runs_plain:
  assumes "\<not> is_prefix b" "\<not> (0x40 \<le> b \<and> b \<le> 0x4F)" "b \<noteq> 0xC4" "b \<noteq> 0xC5"
    and d: "runs 1 (dispatch X (rex_pfx 0 False no_pfx) b) bs n d" and s: "s = 1 + n"
  shows "runs 0 (decode_insn X) (b # bs) s d"
proof -
  have "runs 0 (read_rex no_pfx) (b # bs) 0 (rex_pfx 0 False no_pfx)"
    unfolding read_rex_def
    by (rule runs_bind [OF runs_peek_opt, where n' = 0]) (use assms(2) in \<open>auto simp: runs_ret\<close>)
  then have rex: "runs 0 (decode_rex X no_pfx) (b # bs) (1 + n) d"
    unfolding decode_rex_def
  proof (rule runs_bind)
    show "runs (0 + 0) (bindE fetch_u8 (dispatch X (rex_pfx 0 False no_pfx))) (drop 0 (b # bs)) (1 + n) d"
      by (simp only: drop_0 add_0) (rule runs_u8_bind; use d in simp)
  qed simp_all
  show ?thesis
    unfolding decode_insn_def s
  proof (rule runs_bind [OF runs_prefix_none [OF assms(1)]])
    show "runs (0 + 0) (bindE peek_opt (\<lambda>b. case b of None \<Rightarrow> decode_rex X no_pfx
          | Some lead \<Rightarrow> if lead = 0xC4 \<or> lead = 0xC5 then decode_vex X no_pfx lead else decode_rex X no_pfx))
        (drop 0 (b # bs)) (1 + n) d"
      by (simp only: drop_0 add_0) (rule runs_bind [where n' = "1 + n", OF runs_peek_opt]; use assms(3,4) rex in simp)
  qed (simp_all add: prefix_fuel_def)
qed

lemma runs_jmp8:
  "runs 0 (decode_insn X) [0xEB, b] 2 \<lparr>d_len = 2, d_insnID = noInsnHook, d_endsBlock = True, d_exec = IJmp (scast b)\<rparr>"
proof -
  have fin: "runs 2 (finishBranch i) [] 0 \<lparr>d_len = 2, d_insnID = noInsnHook, d_endsBlock = True, d_exec = i\<rparr>" for i
    unfolding finishBranch_def finish_as_def by (rule runs_map [OF runs_pos])
  have "runs 1 fetch_i8 [b] 1 (scast b)"
    unfolding fetch_i8_def using runs_map [OF runs_u8 [of 1 b "[]"], of "\<lambda>b. scast b"] by simp
  then have "runs 1 (bindE fetch_i8 (\<lambda>rel. finishBranch (IJmp rel))) [b] 1
      \<lparr>d_len = 2, d_insnID = noInsnHook, d_endsBlock = True, d_exec = IJmp (scast b)\<rparr>"
    by (rule runs_bind [where n' = 0]) (use fin in \<open>simp_all add: nat_1_add_1 del: One_nat_def\<close>)
  then have "runs 1 (dispatch X (rex_pfx 0 False no_pfx) 0xEB) [b] 1
      \<lparr>d_len = 2, d_insnID = noInsnHook, d_endsBlock = True, d_exec = IJmp (scast b)\<rparr>"
    by (simp add: dispatch_def dec_control_def)
  then show ?thesis by (rule runs_plain [rotated 4]) (simp_all add: is_prefix_def)
qed

lemma demo_jmp:
  "decodeOne X 0x1000 (code_mem [0xEB, 0xFE]) = (Inr \<lparr>d_len = 2, d_insnID = noInsnHook, d_endsBlock = True,
     d_exec = IJmp (scast (0xFE :: u8))\<rparr>, snd (decodeOne X 0x1000 (code_mem [0xEB, 0xFE])))"
  using decodeOne_runs [OF runs_jmp8, of "code_mem [0xEB, 0xFE]" "0x1000" "0xFE" X] code_mem_spec [of "[0xEB, 0xFE]"]
  by (intro prod_eqI) simp_all

section \<open>Properties of instructions\<close>

text \<open>
  A decoded instruction, whatever it is and whether it succeeds or faults, maps and unmaps
  nothing, changes no permission, changes only bytes of writable pages, and raises the code-dirty
  flag if it changes a byte of an executable page.
\<close>

theorem instruction_memory_safe:
  assumes "ext_good X" "mem_wf m" "decodeOne X a m = (Inr d, m')" "mem_wf (c_mem c)"
    "exec_insn (d_exec d) c = (r, c')"
  shows "mem_step (c_mem c) (c_mem c') \<and> c_curInstrEnd c' = c_curInstrEnd c"
proof -
  have "keeps (exec_insn (d_exec d))"
    using decodeOne_spec(3) [OF assms(1-3) refl] by (intro keeps_exec_insn) (simp add: decoded_ok_def)
  from keepsD [OF this assms(4,5)] show ?thesis by simp
qed

theorem instruction_memory_safe_witness:
  "mem_step (c_mem demo_cpu) (c_mem (snd (exec_insn (IAlu 5 (regOperand 12 True) (regOperand 3 True) 8) demo_cpu)))"
  using instruction_memory_safe [OF nop_ext_good demo_wf demo_decode _ prod.collapse [symmetric], of demo_cpu]
    demo_mem_wf by (simp add: demo_cpu_def)

text \<open>
  An instruction that has set RIP ends its block: the run loop may treat every other decoded
  instruction as falling through, which is what basic blocks rest on.
\<close>

theorem branch_ends_block:
  assumes "ext_good X" "mem_wf m" "decodeOne X a m = (Inr d, m')" "fst (exec_insn (d_exec d) c) = Inr True"
  shows "d_endsBlock d"
  using decodeOne_spec(3) [OF assms(1-3) refl] branch_may_branch [OF _ assms(4)] by (simp add: decoded_ok_def)

theorem branch_ends_block_witness:
  "fst (exec_insn (IJmp (scast (0xFE :: u8))) demo_cpu) = Inr True \<and>
   d_endsBlock \<lparr>d_len = 2, d_insnID = noInsnHook, d_endsBlock = True, d_exec = IJmp (scast (0xFE :: u8))\<rparr>"
proof -
  have t: "fst (exec_insn (IJmp (scast (0xFE :: u8))) demo_cpu) = Inr True"
    by (simp add: exec_insn_def jump_rel_def set_rip_def)
  have "mem_wf (code_mem [0xEB, 0xFE])" by (rule code_mem_spec) simp
  from branch_ends_block [OF nop_ext_good this demo_jmp, of demo_cpu] t show ?thesis by simp
qed

text \<open>
  BSWAP reverses the bytes of its operand: bit k of byte i of the result is bit k of byte
  w - 1 - i of the source, and nothing is set above the operand; swapping twice gives the operand
  back.
\<close>

theorem bswap_reverses:
  assumes "op_width w"
  shows "(\<forall>i k. i < w \<and> k < 8 \<longrightarrow> bit (bswap v w) (8 * i + k) = bit v (8 * (w - 1 - i) + k)) \<and>
    bswap (bswap v w) w = v AND maskWidth w"
proof (intro conjI allI impI)
  have w: "w \<le> 8" using assms by (auto simp: op_width_def)
  show "bit (bswap v w) (8 * i + k) = bit v (8 * (w - 1 - i) + k)" if "i < w \<and> k < 8" for i k
    using that bit_bswap [OF w, of v "8 * i + k"] by simp
  show "bswap (bswap v w) w = v AND maskWidth w"
  proof (rule bit_word_eqI)
    fix n
    have "8 * (w - 1 - n div 8) + n mod 8 < 8 * w \<and> w - 1 - (w - 1 - n div 8) = n div 8" if "n < 8 * w"
      using that by auto
    then show "bit (bswap (bswap v w) w) n = bit (v AND maskWidth w) n"
      by (auto simp: bit_bswap [OF w] maskWidth_mask [OF assms] bit_simps dest: bit_imp_le_length)
  qed
qed

theorem bswap_reverses_witness: "bswap (bswap 0x0123456789ABCDEF 8) 8 = 0x0123456789ABCDEF"
  using bswap_reverses [of 8 "0x0123456789ABCDEF"] by (simp add: op_width_def maskWidth_def)

text \<open>
  On an operand of any width: TZCNT counts the clear bits below the lowest set bit (the width if
  there is none) and LZCNT those above the highest; on a non-zero operand BSF and BSR give the index
  of the lowest and of the highest set bit; POPCNT gives the number of set bits.
\<close>

theorem bit_scans_correct:
  assumes w: "op_width w" and v: "v AND maskWidth w = v"
  shows "(\<forall>i < scan_up v (w * 8) 0. \<not> bit v i) \<and> (if v = 0 then scan_up v (w * 8) 0 = w * 8 else bit v (scan_up v (w * 8) 0)) \<and>
    (\<forall>i < lz_scan v (w * 8) 0. \<not> bit v (w * 8 - 1 - i)) \<and>
    (if v = 0 then lz_scan v (w * 8) 0 = w * 8 else bit v (w * 8 - 1 - lz_scan v (w * 8) 0)) \<and>
    (v \<noteq> 0 \<longrightarrow> bit v (scan_up v 64 0) \<and> (\<forall>i < scan_up v 64 0. \<not> bit v i) \<and>
       bit v (scan_down v (w * 8 - 1)) \<and> (\<forall>i > scan_down v (w * 8 - 1). \<not> bit v i)) \<and>
    popcnt_loop v 0 = of_nat (card {i. bit v i})"
proof -
  have high: "i < w * 8" if "bit v i" for i
  proof -
    have "bit (v AND maskWidth w) i" using that v by simp
    then show ?thesis by (simp add: maskWidth_mask [OF w] bit_simps mult.commute)
  qed
  have pos: "0 < w * 8" "w * 8 \<le> 64" using w by (auto simp: op_width_def)
  have low64: "i < 64" if "bit v i" for i using bit_imp_le_length [OF that] by simp
  obtain i0 where i0: "v \<noteq> 0 \<Longrightarrow> bit v i0"
    by (metis bit_0_eq bit_word_eqI bot_apply bot_bool_def)
  have z: "\<not> bit v i" if "v = 0" for i using that by simp
  note up = scan_up_spec [of 0 "w * 8" v] and up64 = scan_up_spec [of 0 64 v] and lz = lz_scan_spec [of 0 "w * 8" v]
  have up': "if v = 0 then scan_up v (w * 8) 0 = w * 8 else bit v (scan_up v (w * 8) 0)"
  proof (cases "v = 0")
    case False
    have "\<not> i0 < scan_up v (w * 8) 0" using up i0 [OF False] by auto
    then have "scan_up v (w * 8) 0 < w * 8" using high [OF i0 [OF False]] by linarith
    then show ?thesis using up False by simp
  next
    case True
    have "\<not> scan_up v (w * 8) 0 < w * 8" using up z [OF True] by blast
    then show ?thesis using up True by simp
  qed
  have lz': "if v = 0 then lz_scan v (w * 8) 0 = w * 8 else bit v (w * 8 - 1 - lz_scan v (w * 8) 0)"
  proof (cases "v = 0")
    case False
    note i0' = high [OF i0 [OF False]]
    have "w * 8 - 1 - (w * 8 - 1 - i0) = i0" using i0' by simp
    then have "\<not> w * 8 - 1 - i0 < lz_scan v (w * 8) 0" using lz i0 [OF False] by (metis le0)
    then have "lz_scan v (w * 8) 0 < w * 8" using i0' by linarith
    then show ?thesis using lz False by simp
  next
    case True
    have "\<not> lz_scan v (w * 8) 0 < w * 8" using lz z [OF True] by blast
    then show ?thesis using lz True by simp
  qed
  have nz: "bit v (scan_up v 64 0) \<and> bit v (scan_down v (w * 8 - 1)) \<and> (\<forall>i > scan_down v (w * 8 - 1). \<not> bit v i)"
    if "v \<noteq> 0"
  proof (intro conjI allI impI)
    have "\<not> i0 < scan_up v 64 0" using up64 i0 [OF that] by auto
    then have "scan_up v 64 0 < 64" using low64 [OF i0 [OF that]] by linarith
    then show "bit v (scan_up v 64 0)" using up64 by simp
    have "i0 \<le> w * 8 - 1" using high [OF i0 [OF that]] by simp
    note sd = scan_down_spec [OF i0 [OF that] this]
    then show "bit v (scan_down v (w * 8 - 1))" by blast
    fix i assume "scan_down v (w * 8 - 1) < i"
    then show "\<not> bit v i" using sd high [of i] by (metis Suc_pred' less_Suc_eq_le pos(1))
  qed
  show ?thesis
    using up up64 lz up' lz' nz by (simp add: popcnt_loop_spec)
qed

theorem bit_scans_correct_witness:
  "bit (0x50 :: u64) (scan_up 0x50 64 0) \<and> popcnt_loop 0x50 0 = of_nat (card {i. bit (0x50 :: u64) i})"
  using bit_scans_correct [of 4 "0x50"] by (simp add: op_width_def maskWidth_def)

end
