(* ===== verification/Sse.thy ===== *)
theory Sse
  imports Operand
begin

unbundle bit_operations_syntax

text \<open>
  The packed integer operations of \<open>internal/cpu/sse.go\<close>: functions on 128-bit values held as a
  pair \<open>(lo, hi)\<close> of 64-bit words. The lane loops run over 8-, 16- and 32-bit lanes of both words;
  Go's \<open>int8\<close>, \<open>int16\<close> and \<open>int32\<close> are the words read with \<open>sint\<close>. Sums and products that the code
  forms in a wider type are formed in \<open>int\<close> where they cannot leave that type.
\<close>

section \<open>Lanes\<close>

type_synonym xmm = "u64 \<times> u64"
type_synonym xmm_op = "u64 \<Rightarrow> u64 \<Rightarrow> u64 \<Rightarrow> u64 \<Rightarrow> xmm"

text \<open>
  One word of the loop of \<open>lane8\<close>, \<open>lane16\<close> and \<open>lane32\<close>: lane \<open>i\<close> starts at bit \<open>i\<close> times the lane
  width. The code handles the two words in the same pass.
\<close>

definition lane_loop :: "nat \<Rightarrow> ('a::len word \<Rightarrow> 'a word \<Rightarrow> 'a word) \<Rightarrow> u64 \<Rightarrow> u64 \<Rightarrow> u64" where
  "lane_loop n f a b = fold (\<lambda>i acc. let shift = i * LENGTH('a) in
     acc OR push_bit shift (ucast (f (ucast (drop_bit shift a)) (ucast (drop_bit shift b))))) [0..<n] 0"

definition lane8 :: "u64 \<Rightarrow> u64 \<Rightarrow> u64 \<Rightarrow> u64 \<Rightarrow> (u8 \<Rightarrow> u8 \<Rightarrow> u8) \<Rightarrow> xmm" where
  "lane8 alo ahi blo bhi f = (lane_loop 8 f alo blo, lane_loop 8 f ahi bhi)"

definition lane16 :: "u64 \<Rightarrow> u64 \<Rightarrow> u64 \<Rightarrow> u64 \<Rightarrow> (u16 \<Rightarrow> u16 \<Rightarrow> u16) \<Rightarrow> xmm" where
  "lane16 alo ahi blo bhi f = (lane_loop 4 f alo blo, lane_loop 4 f ahi bhi)"

definition lane32 :: "u64 \<Rightarrow> u64 \<Rightarrow> u64 \<Rightarrow> u64 \<Rightarrow> (u32 \<Rightarrow> u32 \<Rightarrow> u32) \<Rightarrow> xmm" where
  "lane32 alo ahi blo bhi f = (lane_loop 2 f alo blo, lane_loop 2 f ahi bhi)"

definition lane64 :: "u64 \<Rightarrow> u64 \<Rightarrow> u64 \<Rightarrow> u64 \<Rightarrow> (u64 \<Rightarrow> u64 \<Rightarrow> u64) \<Rightarrow> xmm" where
  "lane64 alo ahi blo bhi f = (f alo blo, f ahi bhi)"

definition map8 :: "u64 \<Rightarrow> u64 \<Rightarrow> (u8 \<Rightarrow> u8) \<Rightarrow> xmm" where
  "map8 alo ahi f = lane8 alo ahi 0 0 (\<lambda>a _. f a)"

section \<open>Addition and subtraction\<close>

definition ssePaddb :: xmm_op where
  "ssePaddb dlo dhi slo shi = lane8 dlo dhi slo shi (\<lambda>a b. a + b)"

definition ssePaddw :: xmm_op where
  "ssePaddw dlo dhi slo shi = lane16 dlo dhi slo shi (\<lambda>a b. a + b)"

definition ssePaddd :: xmm_op where
  "ssePaddd dlo dhi slo shi = lane32 dlo dhi slo shi (\<lambda>a b. a + b)"

definition ssePaddq :: xmm_op where
  "ssePaddq dlo dhi slo shi = lane64 dlo dhi slo shi (\<lambda>a b. a + b)"

definition ssePsubb :: xmm_op where
  "ssePsubb dlo dhi slo shi = lane8 dlo dhi slo shi (\<lambda>a b. a - b)"

definition ssePsubw :: xmm_op where
  "ssePsubw dlo dhi slo shi = lane16 dlo dhi slo shi (\<lambda>a b. a - b)"

definition ssePsubd :: xmm_op where
  "ssePsubd dlo dhi slo shi = lane32 dlo dhi slo shi (\<lambda>a b. a - b)"

definition ssePsubq :: xmm_op where
  "ssePsubq dlo dhi slo shi = lane64 dlo dhi slo shi (\<lambda>a b. a - b)"

text \<open>Saturating arithmetic: the sum or difference is formed in a wider type and clamped.\<close>

definition saturateAddU8 :: "u8 \<Rightarrow> u8 \<Rightarrow> u8" where
  "saturateAddU8 a b = (let s = uint a + uint b in if s > 0xFF then 0xFF else word_of_int s)"

definition saturateSubU8 :: "u8 \<Rightarrow> u8 \<Rightarrow> u8" where
  "saturateSubU8 a b = (if a < b then 0 else a - b)"

definition clamp_s16 :: "int \<Rightarrow> u16" where
  "clamp_s16 s = (if s > 0x7FFF then 0x7FFF else if s < - 0x8000 then 0x8000 else word_of_int s)"

definition clamp_s8 :: "int \<Rightarrow> u8" where
  "clamp_s8 s = (if s > 127 then 127 else if s < - 128 then 0x80 else word_of_int s)"

definition saturateAddS16 :: "u16 \<Rightarrow> u16 \<Rightarrow> u16" where
  "saturateAddS16 a b = clamp_s16 (sint a + sint b)"

definition saturateSubS16 :: "u16 \<Rightarrow> u16 \<Rightarrow> u16" where
  "saturateSubS16 a b = clamp_s16 (sint a - sint b)"

definition ssePaddsb :: xmm_op where
  "ssePaddsb dlo dhi slo shi = lane8 dlo dhi slo shi (\<lambda>a b. clamp_s8 (sint a + sint b))"

definition ssePaddsw :: xmm_op where
  "ssePaddsw dlo dhi slo shi = lane16 dlo dhi slo shi (saturateAddS16)"

definition ssePsubsb :: xmm_op where
  "ssePsubsb dlo dhi slo shi = lane8 dlo dhi slo shi (\<lambda>a b. clamp_s8 (sint a - sint b))"

definition ssePsubsw :: xmm_op where
  "ssePsubsw dlo dhi slo shi = lane16 dlo dhi slo shi (saturateSubS16)"

definition ssePaddusb :: xmm_op where
  "ssePaddusb dlo dhi slo shi = lane8 dlo dhi slo shi (saturateAddU8)"

definition ssePaddusw :: xmm_op where
  "ssePaddusw dlo dhi slo shi = lane16 dlo dhi slo shi (\<lambda>a b. let s = uint a + uint b in if s > 0xFFFF then 0xFFFF else word_of_int s)"

definition ssePsubusb :: xmm_op where
  "ssePsubusb dlo dhi slo shi = lane8 dlo dhi slo shi (saturateSubU8)"

definition ssePsubusw :: xmm_op where
  "ssePsubusw dlo dhi slo shi = lane16 dlo dhi slo shi (\<lambda>a b. if a < b then 0 else a - b)"

section \<open>Bitwise operations\<close>

definition ssePand :: xmm_op where
  "ssePand dlo dhi slo shi = (dlo AND slo, dhi AND shi)"

definition ssePandn :: xmm_op where
  "ssePandn dlo dhi slo shi = (NOT dlo AND slo, NOT dhi AND shi)"

definition ssePor :: xmm_op where
  "ssePor dlo dhi slo shi = (dlo OR slo, dhi OR shi)"

definition ssePxor :: xmm_op where
  "ssePxor dlo dhi slo shi = (dlo XOR slo, dhi XOR shi)"

section \<open>Multiplication, sums and averages\<close>

definition ssePmullw :: xmm_op where
  "ssePmullw dlo dhi slo shi = lane16 dlo dhi slo shi (\<lambda>a b. a * b)"

definition ssePmulhw :: xmm_op where
  "ssePmulhw dlo dhi slo shi = lane16 dlo dhi slo shi (\<lambda>a b. word_of_int (sint a * sint b div 2 ^ 16))"

definition ssePmulhuw :: xmm_op where
  "ssePmulhuw dlo dhi slo shi = lane16 dlo dhi slo shi (\<lambda>a b. word_of_int (uint a * uint b div 2 ^ 16))"

definition ssePmulld :: xmm_op where
  "ssePmulld dlo dhi slo shi = lane32 dlo dhi slo shi (\<lambda>a b. a * b)"

definition ssePmuludq :: xmm_op where
  "ssePmuludq dlo dhi slo shi = ((dlo AND 0xFFFFFFFF) * (slo AND 0xFFFFFFFF), (dhi AND 0xFFFFFFFF) * (shi AND 0xFFFFFFFF))"

text \<open>PMADDWD: the sum of two products wraps at 32 bits, as Go's \<open>int32\<close> does.\<close>

definition pmaddwd_prod :: "u64 \<Rightarrow> u64 \<Rightarrow> nat \<Rightarrow> u32" where
  "pmaddwd_prod hi64 lo64 shift =
     (let a = scast (ucast (drop_bit shift lo64) :: u16);
          b = scast (ucast (drop_bit (shift + 16) lo64) :: u16);
          c = scast (ucast (drop_bit shift hi64) :: u16);
          d = scast (ucast (drop_bit (shift + 16) hi64) :: u16)
      in a * c + b * d)"

definition ssePmaddwd :: xmm_op where
  "ssePmaddwd dlo dhi slo shi =
     (ucast (pmaddwd_prod slo dlo 0) OR push_bit 32 (ucast (pmaddwd_prod slo dlo 32)),
      ucast (pmaddwd_prod shi dhi 0) OR push_bit 32 (ucast (pmaddwd_prod shi dhi 32)))"

text \<open>PSADBW: one word of the loop.\<close>

definition sad_loop :: "u64 \<Rightarrow> u64 \<Rightarrow> u64" where
  "sad_loop d s = fold (\<lambda>i acc. let a = ucast (drop_bit (i * 8) d) :: u8; b = ucast (drop_bit (i * 8) s) :: u8 in
     acc + ucast (if a \<ge> b then a - b else b - a)) [0..<8] 0"

definition ssePsadbw :: xmm_op where
  "ssePsadbw dlo dhi slo shi = (sad_loop dlo slo AND 0xFFFF, sad_loop dhi shi AND 0xFFFF)"

definition ssePavgb :: xmm_op where
  "ssePavgb dlo dhi slo shi = lane8 dlo dhi slo shi (\<lambda>a b. word_of_int ((uint a + uint b + 1) div 2))"

definition ssePavgw :: xmm_op where
  "ssePavgw dlo dhi slo shi = lane16 dlo dhi slo shi (\<lambda>a b. word_of_int ((uint a + uint b + 1) div 2))"

section \<open>Minimum, maximum and comparison\<close>

definition ssePminub :: xmm_op where
  "ssePminub dlo dhi slo shi = lane8 dlo dhi slo shi (\<lambda>a b. if a < b then a else b)"

definition ssePmaxub :: xmm_op where
  "ssePmaxub dlo dhi slo shi = lane8 dlo dhi slo shi (\<lambda>a b. if a > b then a else b)"

definition ssePminsw :: xmm_op where
  "ssePminsw dlo dhi slo shi = lane16 dlo dhi slo shi (\<lambda>a b. if sint a < sint b then a else b)"

definition ssePmaxsw :: xmm_op where
  "ssePmaxsw dlo dhi slo shi = lane16 dlo dhi slo shi (\<lambda>a b. if sint a > sint b then a else b)"

definition ssePminsb :: xmm_op where
  "ssePminsb dlo dhi slo shi = lane8 dlo dhi slo shi (\<lambda>a b. if sint a < sint b then a else b)"

definition ssePmaxsb :: xmm_op where
  "ssePmaxsb dlo dhi slo shi = lane8 dlo dhi slo shi (\<lambda>a b. if sint a > sint b then a else b)"

definition ssePminsd :: xmm_op where
  "ssePminsd dlo dhi slo shi = lane32 dlo dhi slo shi (\<lambda>a b. if sint a < sint b then a else b)"

definition ssePmaxsd :: xmm_op where
  "ssePmaxsd dlo dhi slo shi = lane32 dlo dhi slo shi (\<lambda>a b. if sint a > sint b then a else b)"

definition ssePminuw :: xmm_op where
  "ssePminuw dlo dhi slo shi = lane16 dlo dhi slo shi (\<lambda>a b. if a < b then a else b)"

definition ssePmaxuw :: xmm_op where
  "ssePmaxuw dlo dhi slo shi = lane16 dlo dhi slo shi (\<lambda>a b. if a > b then a else b)"

definition ssePminud :: xmm_op where
  "ssePminud dlo dhi slo shi = lane32 dlo dhi slo shi (\<lambda>a b. if a < b then a else b)"

definition ssePmaxud :: xmm_op where
  "ssePmaxud dlo dhi slo shi = lane32 dlo dhi slo shi (\<lambda>a b. if a > b then a else b)"

definition ssePmuldq :: xmm_op where
  "ssePmuldq dlo dhi slo shi = (word_of_int (sint (ucast dlo :: u32) * sint (ucast slo :: u32)),
      word_of_int (sint (ucast dhi :: u32) * sint (ucast shi :: u32)))"

definition ssePcmpeqb :: xmm_op where
  "ssePcmpeqb dlo dhi slo shi = lane8 dlo dhi slo shi (\<lambda>a b. if a = b then NOT 0 else 0)"

definition ssePcmpeqw :: xmm_op where
  "ssePcmpeqw dlo dhi slo shi = lane16 dlo dhi slo shi (\<lambda>a b. if a = b then NOT 0 else 0)"

definition ssePcmpeqd :: xmm_op where
  "ssePcmpeqd dlo dhi slo shi = lane32 dlo dhi slo shi (\<lambda>a b. if a = b then NOT 0 else 0)"

definition ssePcmpeqq :: xmm_op where
  "ssePcmpeqq dlo dhi slo shi = lane64 dlo dhi slo shi (\<lambda>a b. if a = b then NOT 0 else 0)"

definition ssePcmpgtb :: xmm_op where
  "ssePcmpgtb dlo dhi slo shi = lane8 dlo dhi slo shi (\<lambda>a b. if sint a > sint b then NOT 0 else 0)"

definition ssePcmpgtw :: xmm_op where
  "ssePcmpgtw dlo dhi slo shi = lane16 dlo dhi slo shi (\<lambda>a b. if sint a > sint b then NOT 0 else 0)"

definition ssePcmpgtd :: xmm_op where
  "ssePcmpgtd dlo dhi slo shi = lane32 dlo dhi slo shi (\<lambda>a b. if sint a > sint b then NOT 0 else 0)"

definition ssePcmpgtq :: xmm_op where
  "ssePcmpgtq dlo dhi slo shi = lane64 dlo dhi slo shi (\<lambda>a b. if sint a > sint b then NOT 0 else 0)"

text \<open>PTEST sets ZF and CF and clears the others.\<close>

definition ssePtest :: "u64 \<Rightarrow> u64 \<Rightarrow> u64 \<Rightarrow> u64 \<Rightarrow> registers \<Rightarrow> registers" where
  "ssePtest dlo dhi slo shi r =
     (let zf = ((slo AND dlo) OR (shi AND dhi) = 0); cf = ((NOT dlo AND slo) OR (NOT dhi AND shi) = 0) in
      setFlag flagPF False (setFlag flagSF False (setFlag flagOF False (setFlag flagAF False
        (setFlag flagCF cf (setFlag flagZF zf r))))))"

text \<open>PMOVMSKB: bit \<open>i\<close> of the result is the sign of byte \<open>i\<close>.\<close>

definition ssePmovmskb :: "u64 \<Rightarrow> u64 \<Rightarrow> u32" where
  "ssePmovmskb lo hi = fold (\<lambda>i m.
     let m1 = (if drop_bit (i * 8 + 7) lo AND 1 \<noteq> 0 then m OR push_bit i 1 else m) in
     if drop_bit (i * 8 + 7) hi AND 1 \<noteq> 0 then m1 OR push_bit (i + 8) 1 else m1) [0..<8] 0"

section \<open>Shifts\<close>

text \<open>By lanes; the count is a \<open>uint64\<close> and counts past the lane are cut off before the shift.\<close>

definition ssePsllw :: "u64 \<Rightarrow> u64 \<Rightarrow> u64 \<Rightarrow> xmm" where
  "ssePsllw lo hi count = (if count \<ge> 16 then (0, 0) else lane16 lo hi 0 0 (\<lambda>a _. push_bit (unat count) a))"

definition ssePsrlw :: "u64 \<Rightarrow> u64 \<Rightarrow> u64 \<Rightarrow> xmm" where
  "ssePsrlw lo hi count = (if count \<ge> 16 then (0, 0) else lane16 lo hi 0 0 (\<lambda>a _. drop_bit (unat count) a))"

definition ssePsraw :: "u64 \<Rightarrow> u64 \<Rightarrow> u64 \<Rightarrow> xmm" where
  "ssePsraw lo hi count = (let count = (if count \<ge> 16 then 15 else count) in
     lane16 lo hi 0 0 (\<lambda>a _. signed_drop_bit (unat count) a))"

definition ssePslld :: "u64 \<Rightarrow> u64 \<Rightarrow> u64 \<Rightarrow> xmm" where
  "ssePslld lo hi count = (if count \<ge> 32 then (0, 0) else lane32 lo hi 0 0 (\<lambda>a _. push_bit (unat count) a))"

definition ssePsrld :: "u64 \<Rightarrow> u64 \<Rightarrow> u64 \<Rightarrow> xmm" where
  "ssePsrld lo hi count = (if count \<ge> 32 then (0, 0) else lane32 lo hi 0 0 (\<lambda>a _. drop_bit (unat count) a))"

definition ssePsrad :: "u64 \<Rightarrow> u64 \<Rightarrow> u64 \<Rightarrow> xmm" where
  "ssePsrad lo hi count = (let count = (if count \<ge> 32 then 31 else count) in
     lane32 lo hi 0 0 (\<lambda>a _. signed_drop_bit (unat count) a))"

definition ssePsllq :: "u64 \<Rightarrow> u64 \<Rightarrow> u64 \<Rightarrow> xmm" where
  "ssePsllq lo hi count = (if count \<ge> 64 then (0, 0) else (push_bit (unat count) lo, push_bit (unat count) hi))"

definition ssePsrlq :: "u64 \<Rightarrow> u64 \<Rightarrow> u64 \<Rightarrow> xmm" where
  "ssePsrlq lo hi count = (if count \<ge> 64 then (0, 0) else (drop_bit (unat count) lo, drop_bit (unat count) hi))"

text \<open>By bytes, on the 16-byte little-endian image of the register.\<close>

definition xmm_bytes :: "u64 \<Rightarrow> u64 \<Rightarrow> u8 list" where
  "xmm_bytes lo hi = u64ToLE lo 8 @ u64ToLE hi 8"

definition bytes_xmm :: "u8 list \<Rightarrow> xmm" where
  "bytes_xmm bs = (leToU64 (take 8 bs), leToU64 (drop 8 bs))"

definition ssePslldq :: "u64 \<Rightarrow> u64 \<Rightarrow> u8 \<Rightarrow> xmm" where
  "ssePslldq lo hi imm = (let n = unat imm in
     if n \<ge> 16 then (0, 0) else bytes_xmm (replicate n 0 @ take (16 - n) (xmm_bytes lo hi)))"

definition ssePsrldq :: "u64 \<Rightarrow> u64 \<Rightarrow> u8 \<Rightarrow> xmm" where
  "ssePsrldq lo hi imm = (let n = unat imm in
     if n \<ge> 16 then (0, 0) else bytes_xmm (drop n (xmm_bytes lo hi) @ replicate n 0))"

section \<open>Unpacking and packing\<close>

definition ssePunpcklbw :: xmm_op where
  "ssePunpcklbw dlo _ slo _ = fold (\<lambda>i (lo, hi).
     let db = ucast (drop_bit (i * 8) dlo) :: u8; sb = ucast (drop_bit (i * 8) slo) :: u8; shift = i * 16 in
     if shift < 64 then (lo OR push_bit shift (ucast db) OR push_bit (shift + 8) (ucast sb), hi)
     else let shift = shift - 64 in (lo, hi OR push_bit shift (ucast db) OR push_bit (shift + 8) (ucast sb)))
   [0..<8] (0, 0)"

definition ssePunpckhbw :: xmm_op where
  "ssePunpckhbw _ dhi _ shi = ssePunpcklbw dhi 0 shi 0"

definition ssePunpcklwd :: xmm_op where
  "ssePunpcklwd dlo _ slo _ = fold (\<lambda>i (lo, hi).
     let dw = ucast (drop_bit (i * 16) dlo) :: u16; sw = ucast (drop_bit (i * 16) slo) :: u16; shift = i * 32 in
     if shift < 64 then (lo OR push_bit shift (ucast dw) OR push_bit (shift + 16) (ucast sw), hi)
     else let shift = shift - 64 in (lo, hi OR push_bit shift (ucast dw) OR push_bit (shift + 16) (ucast sw)))
   [0..<4] (0, 0)"

definition ssePunpckhwd :: xmm_op where
  "ssePunpckhwd _ dhi _ shi = ssePunpcklwd dhi 0 shi 0"

definition ssePunpckldq :: xmm_op where
  "ssePunpckldq dlo _ slo _ =
     ((dlo AND 0xFFFFFFFF) OR push_bit 32 (slo AND 0xFFFFFFFF),
      (drop_bit 32 dlo AND 0xFFFFFFFF) OR push_bit 32 (drop_bit 32 slo AND 0xFFFFFFFF))"

definition ssePunpckhdq :: xmm_op where
  "ssePunpckhdq _ dhi _ shi = ssePunpckldq dhi 0 shi 0"

definition ssePunpcklqdq :: xmm_op where
  "ssePunpcklqdq dlo _ slo _ = (dlo, slo)"

definition ssePunpckhqdq :: xmm_op where
  "ssePunpckhqdq _ dhi _ shi = (dhi, shi)"

text \<open>The loop of PACKSSWB and PACKUSWB over the eight words of one operand.\<close>

definition pack_words :: "(u16 \<Rightarrow> u8) \<Rightarrow> u64 \<Rightarrow> u64 \<Rightarrow> u64" where
  "pack_words pack lo hi = fold (\<lambda>i acc.
     let v = ucast (if i < 4 then drop_bit (i * 16) lo else drop_bit ((i - 4) * 16) hi) in
     acc OR push_bit (i * 8) (ucast (pack v))) [0..<8] 0"

definition pack_ss :: "u16 \<Rightarrow> u8" where
  "pack_ss a = (if sint a > 127 then 127 else if sint a < - 128 then 0x80 else ucast a)"

definition pack_us :: "u16 \<Rightarrow> u8" where
  "pack_us a = (if sint a < 0 then 0 else if sint a > 255 then 255 else ucast a)"

definition ssePacksswb :: xmm_op where
  "ssePacksswb dlo dhi slo shi = (pack_words pack_ss dlo dhi, pack_words pack_ss slo shi)"

definition ssePackuswb :: xmm_op where
  "ssePackuswb dlo dhi slo shi = (pack_words pack_us dlo dhi, pack_words pack_us slo shi)"

definition pack_dw :: "u32 \<Rightarrow> u16" where
  "pack_dw a = (if sint a > 0x7FFF then 0x7FFF else if sint a < - 0x8000 then 0x8000 else ucast a)"

definition pack_dwords :: "u64 \<Rightarrow> u64 \<Rightarrow> u64" where
  "pack_dwords lo hi =
     ucast (pack_dw (ucast lo)) OR push_bit 16 (ucast (pack_dw (ucast (drop_bit 32 lo)))) OR
     push_bit 32 (ucast (pack_dw (ucast hi))) OR push_bit 48 (ucast (pack_dw (ucast (drop_bit 32 hi))))"

definition ssePackssdw :: xmm_op where
  "ssePackssdw dlo dhi slo shi = (pack_dwords dlo dhi, pack_dwords slo shi)"

section \<open>Shuffles\<close>

text \<open>Lane \<open>idx\<close> of a 128-bit value: the \<open>get\<close> closures of the shuffles.\<close>

definition get32 :: "u64 \<Rightarrow> u64 \<Rightarrow> nat \<Rightarrow> u32" where
  "get32 lo hi idx = ucast (if idx < 2 then drop_bit (idx * 32) lo else drop_bit ((idx - 2) * 32) hi)"

definition get16 :: "u64 \<Rightarrow> nat \<Rightarrow> u16" where
  "get16 v idx = ucast (drop_bit (idx * 16) v)"

definition get8 :: "u64 \<Rightarrow> u64 \<Rightarrow> nat \<Rightarrow> u8" where
  "get8 lo hi i = ucast (if i < 8 then drop_bit (i * 8) lo else drop_bit ((i - 8) * 8) hi)"

text \<open>\<open>imm >> (2*k) & 3\<close>.\<close>

definition sel :: "u8 \<Rightarrow> nat \<Rightarrow> nat" where
  "sel imm k = unat (drop_bit (2 * k) imm AND 3)"

definition join32 :: "u32 \<Rightarrow> u32 \<Rightarrow> u64" where
  "join32 a b = ucast a OR push_bit 32 (ucast b)"

definition join16 :: "u16 \<Rightarrow> u16 \<Rightarrow> u16 \<Rightarrow> u16 \<Rightarrow> u64" where
  "join16 a b c d = ucast a OR push_bit 16 (ucast b) OR push_bit 32 (ucast c) OR push_bit 48 (ucast d)"

definition ssePshufd :: "u64 \<Rightarrow> u64 \<Rightarrow> u8 \<Rightarrow> xmm" where
  "ssePshufd slo shi imm =
     (join32 (get32 slo shi (sel imm 0)) (get32 slo shi (sel imm 1)),
      join32 (get32 slo shi (sel imm 2)) (get32 slo shi (sel imm 3)))"

definition ssePshufhw :: "u64 \<Rightarrow> u64 \<Rightarrow> u8 \<Rightarrow> xmm" where
  "ssePshufhw slo shi imm =
     (slo, join16 (get16 shi (sel imm 0)) (get16 shi (sel imm 1)) (get16 shi (sel imm 2)) (get16 shi (sel imm 3)))"

definition ssePshuflw :: "u64 \<Rightarrow> u64 \<Rightarrow> u8 \<Rightarrow> xmm" where
  "ssePshuflw slo shi imm =
     (join16 (get16 slo (sel imm 0)) (get16 slo (sel imm 1)) (get16 slo (sel imm 2)) (get16 slo (sel imm 3)), shi)"

definition sseShufps :: "u64 \<Rightarrow> u64 \<Rightarrow> u64 \<Rightarrow> u64 \<Rightarrow> u8 \<Rightarrow> xmm" where
  "sseShufps dlo dhi slo shi imm =
     (join32 (get32 dlo dhi (sel imm 0)) (get32 dlo dhi (sel imm 1)),
      join32 (get32 slo shi (sel imm 2)) (get32 slo shi (sel imm 3)))"

definition sseShufpd :: "u64 \<Rightarrow> u64 \<Rightarrow> u64 \<Rightarrow> u64 \<Rightarrow> u8 \<Rightarrow> xmm" where
  "sseShufpd dlo dhi slo shi imm =
     (if imm AND 1 \<noteq> 0 then dhi else dlo, if imm AND 2 \<noteq> 0 then shi else slo)"

text \<open>One word of PSHUFB: \<open>m\<close> is the word of the mask.\<close>

definition pshufb_word :: "u64 \<Rightarrow> u64 \<Rightarrow> u64 \<Rightarrow> u64" where
  "pshufb_word dlo dhi mk = fold (\<lambda>i acc.
     let m = ucast (drop_bit (i * 8) mk) :: u8; v = (if m AND 0x80 = 0 then get8 dlo dhi (unat (m AND 0x0F)) else 0) in
     acc OR push_bit (i * 8) (ucast v)) [0..<8] 0"

definition ssePshufb :: xmm_op where
  "ssePshufb dlo dhi mlo mhi = (pshufb_word dlo dhi mlo, pshufb_word dlo dhi mhi)"

text \<open>
  PALIGNR: the window of 16 bytes at offset \<open>n\<close> of the 32-byte concatenation. The slice expression
  \<open>tmp[n : n+16]\<close> panics when it passes the end of the array: \<open>None\<close>.
\<close>

definition ssePalignr :: "u64 \<Rightarrow> u64 \<Rightarrow> u64 \<Rightarrow> u64 \<Rightarrow> u8 \<Rightarrow> xmm option" where
  "ssePalignr dlo dhi slo shi imm = (let n = unat imm in
     if n \<ge> 32 then Some (0, 0)
     else let tmp = xmm_bytes slo shi @ xmm_bytes dlo dhi in
       if n + 16 > 32 then None else Some (bytes_xmm (take 16 (drop n tmp))))"

section \<open>Inserting and extracting a lane\<close>

definition ssePinsrb :: "u64 \<Rightarrow> u64 \<Rightarrow> u8 \<Rightarrow> u8 \<Rightarrow> xmm" where
  "ssePinsrb dlo dhi v imm = (let pos = unat (imm AND 0xF); shift = pos * 8 in
     if pos < 8 then ((dlo AND NOT (push_bit shift 0xFF)) OR push_bit shift (ucast v), dhi)
     else let shift = shift - 64 in (dlo, (dhi AND NOT (push_bit shift 0xFF)) OR push_bit shift (ucast v)))"

definition ssePinsrw :: "u64 \<Rightarrow> u64 \<Rightarrow> u16 \<Rightarrow> u8 \<Rightarrow> xmm" where
  "ssePinsrw dlo dhi v imm = (let pos = unat (imm AND 7); shift = pos * 16 in
     if pos < 4 then ((dlo AND NOT (push_bit shift 0xFFFF)) OR push_bit shift (ucast v), dhi)
     else let shift = shift - 64 in (dlo, (dhi AND NOT (push_bit shift 0xFFFF)) OR push_bit shift (ucast v)))"

definition ssePinsrd :: "u64 \<Rightarrow> u64 \<Rightarrow> u32 \<Rightarrow> u8 \<Rightarrow> xmm" where
  "ssePinsrd dlo dhi v imm = (let pos = unat (imm AND 3); shift = pos * 32 in
     if pos < 2 then ((dlo AND NOT (push_bit shift 0xFFFFFFFF)) OR push_bit shift (ucast v), dhi)
     else let shift = shift - 64 in (dlo, (dhi AND NOT (push_bit shift 0xFFFFFFFF)) OR push_bit shift (ucast v)))"

definition ssePinsrq :: "u64 \<Rightarrow> u64 \<Rightarrow> u64 \<Rightarrow> u8 \<Rightarrow> xmm" where
  "ssePinsrq dlo dhi v imm = (if imm AND 1 = 0 then (v, dhi) else (dlo, v))"

definition ssePextrb :: "u64 \<Rightarrow> u64 \<Rightarrow> u8 \<Rightarrow> u8" where
  "ssePextrb lo hi imm = get8 lo hi (unat (imm AND 0xF))"

definition ssePextrw :: "u64 \<Rightarrow> u64 \<Rightarrow> u8 \<Rightarrow> u16" where
  "ssePextrw lo hi imm = (let pos = unat (imm AND 7) in if pos < 4 then get16 lo pos else get16 hi (pos - 4))"

definition ssePextrd :: "u64 \<Rightarrow> u64 \<Rightarrow> u8 \<Rightarrow> u32" where
  "ssePextrd lo hi imm = get32 lo hi (unat (imm AND 3))"

definition ssePextrq :: "u64 \<Rightarrow> u64 \<Rightarrow> u8 \<Rightarrow> u64" where
  "ssePextrq lo hi imm = (if imm AND 1 = 0 then lo else hi)"

definition sseMovmskps :: "u64 \<Rightarrow> u64 \<Rightarrow> u32" where
  "sseMovmskps lo hi = ucast (drop_bit 31 lo AND 1) OR ucast (drop_bit 62 lo AND 2) OR
     ucast (drop_bit 29 hi AND 4) OR ucast (drop_bit 60 hi AND 8)"

definition sseMovmskpd :: "u64 \<Rightarrow> u64 \<Rightarrow> u32" where
  "sseMovmskpd lo hi = ucast (drop_bit 63 lo) OR ucast (drop_bit 62 hi AND 2)"

definition sseInsertps :: "u64 \<Rightarrow> u64 \<Rightarrow> u32 \<Rightarrow> u8 \<Rightarrow> xmm" where
  "sseInsertps dlo dhi srcF imm =
     (let countD = unat (drop_bit 4 imm AND 3); shift = countD * 32;
          placed = (if countD < 2 then ((dlo AND NOT (push_bit shift 0xFFFFFFFF)) OR push_bit shift (ucast srcF), dhi)
            else let shift = shift - 64 in
              (dlo, (dhi AND NOT (push_bit shift 0xFFFFFFFF)) OR push_bit shift (ucast srcF)))
      in fold (\<lambda>i (lo, hi).
           if drop_bit i imm AND 1 \<noteq> 0 then
             (if i < 2 then (lo AND NOT (push_bit (i * 32) 0xFFFFFFFF), hi)
              else (lo, hi AND NOT (push_bit (i * 32 - 64) 0xFFFFFFFF)))
           else (lo, hi)) [0..<4] placed)"

section \<open>256-bit values\<close>

type_synonym ymm = "u64 \<times> u64 \<times> u64 \<times> u64"

definition sseVbroadcastss :: "u32 \<Rightarrow> bool \<Rightarrow> ymm" where
  "sseVbroadcastss src L = (let v = join32 src src in (v, v, if L then v else 0, if L then v else 0))"

definition sseVbroadcastsd :: "u64 \<Rightarrow> ymm" where
  "sseVbroadcastsd src = (src, src, src, src)"

definition vperm_pick :: "ymm \<Rightarrow> ymm \<Rightarrow> u8 \<Rightarrow> xmm" where
  "vperm_pick d s ctrl = (case (d, s) of ((d0, d1, d2, d3), (s0, s1, s2, s3)) \<Rightarrow>
     if ctrl AND 8 \<noteq> 0 then (0, 0) else [(d0, d1), (d2, d3), (s0, s1), (s2, s3)] ! unat (ctrl AND 3))"

definition sseVperm2f128 :: "ymm \<Rightarrow> ymm \<Rightarrow> u8 \<Rightarrow> ymm" where
  "sseVperm2f128 d s imm = (let (lo, hi) = vperm_pick d s (imm AND 0x0F); (hi0, hi1) = vperm_pick d s (drop_bit 4 imm) in
     (lo, hi, hi0, hi1))"

definition sseVinsertf128 :: "ymm \<Rightarrow> u64 \<Rightarrow> u64 \<Rightarrow> u8 \<Rightarrow> ymm" where
  "sseVinsertf128 d slo shi imm = (case d of (dlo, dhi, d2lo, d2hi) \<Rightarrow>
     if imm AND 1 = 0 then (slo, shi, d2lo, d2hi) else (dlo, dhi, slo, shi))"

definition sseVextractf128 :: "ymm \<Rightarrow> u8 \<Rightarrow> xmm" where
  "sseVextractf128 d imm = (case d of (dlo, dhi, d2lo, d2hi) \<Rightarrow>
     if imm AND 1 = 0 then (dlo, dhi) else (d2lo, d2hi))"

end
