(* ===== verification/Sse_Float.thy ===== *)
theory Sse_Float
  imports Sse Float64
begin

unbundle bit_operations_syntax

text \<open>
  The floating-point operations of \<open>internal/cpu/sse.go\<close>. A \<open>float32\<close> is its 32-bit pattern and a
  \<open>float64\<close> its 64-bit pattern, so \<open>math.Float32frombits\<close> and its companions are the identity;
  arithmetic is the exact result rounded to nearest, ties to even (\<open>Float64\<close>). Conversions to an
  integer type that does not hold the value give the amd64 host's indefinite integer, the least
  value of the type. The amd64 compiler does not fuse a product and a sum.
\<close>

section \<open>Division and square root\<close>

text \<open>
  A quotient or root that is not exact is cut off at a last bit below every rounding position and
  that bit set, so rounding decides as it would on the exact value.
\<close>

definition quot_sticky :: "nat \<Rightarrow> nat \<Rightarrow> nat \<times> int" where
  "quot_sticky m m' = (let k = 64 + bit_len m'; n = m * 2 ^ k in
     (2 * (n div m') + (if n mod m' = 0 then 0 else 1), - int k - 1))"

text \<open>The integer square root, two bits of the operand at a time.\<close>

primrec isqrt_steps :: "nat \<Rightarrow> nat \<Rightarrow> nat" where
  "isqrt_steps 0 n = 0"
| "isqrt_steps (Suc k) n = (let s = 2 * isqrt_steps k (n div 4) in if (s + 1) * (s + 1) \<le> n then s + 1 else s)"

definition isqrt :: "nat \<Rightarrow> nat" where
  "isqrt n = isqrt_steps (bit_len n) n"

definition root_sticky :: "nat \<Rightarrow> int \<Rightarrow> nat \<times> int" where
  "root_sticky m e = (let m1 = (if even e then m else 2 * m); e1 = (if even e then e else e - 1);
       n = m1 * 2 ^ 128; s = isqrt n in
     (2 * s + (if s * s = n then 0 else 1), e1 div 2 - 65))"

definition f64_div :: "u64 \<Rightarrow> u64 \<Rightarrow> u64" where
  "f64_div a b = nan2 a b (case (f64_val a, f64_val b) of
       (Inf s, Fin s' m' e') \<Rightarrow> f64_inf (s \<noteq> s')
     | (Fin s m e, Inf s') \<Rightarrow> f64_round (s \<noteq> s') 0 0
     | (Fin s m e, Fin s' m' e') \<Rightarrow>
         (if m' = 0 then (if m = 0 then f64_nan else f64_inf (s \<noteq> s'))
          else let (q, x) = quot_sticky m m' in f64_round (s \<noteq> s') q (e - e' + x))
     | _ \<Rightarrow> f64_nan)"

definition f64_sqrt :: "u64 \<Rightarrow> u64" where
  "f64_sqrt a = (case f64_val a of
       NaN \<Rightarrow> f64_quiet a
     | Inf s \<Rightarrow> (if s then f64_nan else a)
     | Fin s m e \<Rightarrow> if m = 0 then a else if s then f64_nan
         else let (q, x) = root_sticky m e in f64_round False q x)"

section \<open>Single precision\<close>

definition f32_quiet :: "u32 \<Rightarrow> u32" where "f32_quiet v = v OR 0x00400000"
definition f32_nan :: u32 where "f32_nan = 0xFFC00000"
definition f32_inf :: "bool \<Rightarrow> u32" where "f32_inf s = (if s then 0xFF800000 else 0x7F800000)"

definition nan2_32 :: "u32 \<Rightarrow> u32 \<Rightarrow> u32 \<Rightarrow> u32" where
  "nan2_32 a b r = (if f32_val a = NaN then f32_quiet a else if f32_val b = NaN then f32_quiet b else r)"

definition f32_add :: "u32 \<Rightarrow> u32 \<Rightarrow> u32" where
  "f32_add a b = nan2_32 a b (case (f32_val a, f32_val b) of
       (Inf s, Inf s') \<Rightarrow> (if s = s' then f32_inf s else f32_nan)
     | (Inf s, _) \<Rightarrow> f32_inf s
     | (_, Inf s) \<Rightarrow> f32_inf s
     | (Fin s m e, Fin s' m' e') \<Rightarrow> (let (x, y, q) = common_exp s m e s' m' e'; z = x + y in
          if z = 0 then f32_round (s \<and> s') 0 0 else f32_round (z < 0) (nat \<bar>z\<bar>) q)
     | _ \<Rightarrow> f32_nan)"

definition f32_sub :: "u32 \<Rightarrow> u32 \<Rightarrow> u32" where
  "f32_sub a b = nan2_32 a b (f32_add a (b XOR 0x80000000))"

definition f32_mul :: "u32 \<Rightarrow> u32 \<Rightarrow> u32" where
  "f32_mul a b = nan2_32 a b (case (f32_val a, f32_val b) of
       (Inf s, Inf s') \<Rightarrow> f32_inf (s \<noteq> s')
     | (Inf s, Fin s' m e) \<Rightarrow> (if m = 0 then f32_nan else f32_inf (s \<noteq> s'))
     | (Fin s' m e, Inf s) \<Rightarrow> (if m = 0 then f32_nan else f32_inf (s \<noteq> s'))
     | (Fin s m e, Fin s' m' e') \<Rightarrow> f32_round (s \<noteq> s') (m * m') (e + e')
     | _ \<Rightarrow> f32_nan)"

definition f32_div :: "u32 \<Rightarrow> u32 \<Rightarrow> u32" where
  "f32_div a b = nan2_32 a b (case (f32_val a, f32_val b) of
       (Inf s, Fin s' m' e') \<Rightarrow> f32_inf (s \<noteq> s')
     | (Fin s m e, Inf s') \<Rightarrow> f32_round (s \<noteq> s') 0 0
     | (Fin s m e, Fin s' m' e') \<Rightarrow>
         (if m' = 0 then (if m = 0 then f32_nan else f32_inf (s \<noteq> s'))
          else let (q, x) = quot_sticky m m' in f32_round (s \<noteq> s') q (e - e' + x))
     | _ \<Rightarrow> f32_nan)"

text \<open>Comparisons of \<open>float32\<close> values are those of the doubles they denote.\<close>

definition f32_less :: "u32 \<Rightarrow> u32 \<Rightarrow> bool" where
  "f32_less a b = f64_less (f64_of_f32 a) (f64_of_f32 b)"

definition f32_eq :: "u32 \<Rightarrow> u32 \<Rightarrow> bool" where
  "f32_eq a b = f64_eq (f64_of_f32 a) (f64_of_f32 b)"

definition f64_isNaN :: "u64 \<Rightarrow> bool" where "f64_isNaN v \<longleftrightarrow> f64_val v = NaN"
definition f32_isNaN :: "u32 \<Rightarrow> bool" where "f32_isNaN v = f64_isNaN (f64_of_f32 v)"

definition f32_one :: u32 where "f32_one = 0x3F800000"
definition f64_one :: u64 where "f64_one = 0x3FF0000000000000"

section \<open>Conversions\<close>

definition f64_of_int :: "int \<Rightarrow> u64" where
  "f64_of_int i = f64_round (i < 0) (nat \<bar>i\<bar>) 0"

definition f32_of_int :: "int \<Rightarrow> u32" where
  "f32_of_int i = f32_round (i < 0) (nat \<bar>i\<bar>) 0"

text \<open>\<open>math.RoundToEven\<close>, \<open>Floor\<close>, \<open>Ceil\<close>, \<open>Trunc\<close>: a zero result keeps the sign of the operand.\<close>

definition f64_rint :: "nat \<Rightarrow> u64 \<Rightarrow> u64" where
  "f64_rint mode v = (case f64_val v of
       NaN \<Rightarrow> f64_quiet v
     | Inf s \<Rightarrow> v
     | Fin s m e \<Rightarrow> (let z = round_int mode s m e in
         if z = 0 then f64_round s 0 0 else f64_round (z < 0) (nat \<bar>z\<bar>) 0))"

text \<open>\<open>int64(f)\<close> and \<open>int32(f)\<close>.\<close>

definition int64_of_f64 :: "u64 \<Rightarrow> u64" where
  "int64_of_f64 v = (case f64_val v of
       Fin s m e \<Rightarrow> (let z = round_int 3 s m e in
         if - (2 ^ 63) \<le> z \<and> z < 2 ^ 63 then word_of_int z else 0x8000000000000000)
     | _ \<Rightarrow> 0x8000000000000000)"

definition int32_of_f64 :: "u64 \<Rightarrow> u32" where
  "int32_of_f64 v = (case f64_val v of
       Fin s m e \<Rightarrow> (let z = round_int 3 s m e in
         if - (2 ^ 31) \<le> z \<and> z < 2 ^ 31 then word_of_int z else 0x80000000)
     | _ \<Rightarrow> 0x80000000)"

section \<open>Lane loops on floats\<close>

definition map_loop32 :: "(u32 \<Rightarrow> u32) \<Rightarrow> u64 \<Rightarrow> u64" where
  "map_loop32 f a = fold (\<lambda>i acc. let shift = i * 32 in
     acc OR push_bit shift (ucast (f (ucast (drop_bit shift a))))) [0..<2] 0"

definition map32f :: "u64 \<Rightarrow> u64 \<Rightarrow> (u32 \<Rightarrow> u32) \<Rightarrow> xmm" where
  "map32f alo ahi f = (map_loop32 f alo, map_loop32 f ahi)"

definition map64f :: "u64 \<Rightarrow> u64 \<Rightarrow> (u64 \<Rightarrow> u64) \<Rightarrow> xmm" where
  "map64f alo ahi f = (f alo, f ahi)"

definition lane32f :: "u64 \<Rightarrow> u64 \<Rightarrow> u64 \<Rightarrow> u64 \<Rightarrow> (u32 \<Rightarrow> u32 \<Rightarrow> u32) \<Rightarrow> xmm" where
  "lane32f alo ahi blo bhi f = lane32 alo ahi blo bhi (\<lambda>a b. f a b)"

definition lane64f :: "u64 \<Rightarrow> u64 \<Rightarrow> u64 \<Rightarrow> u64 \<Rightarrow> (u64 \<Rightarrow> u64 \<Rightarrow> u64) \<Rightarrow> xmm" where
  "lane64f alo ahi blo bhi f = lane64 alo ahi blo bhi (\<lambda>a b. f a b)"

section \<open>Packed arithmetic\<close>

definition sseAddps :: xmm_op where
  "sseAddps dlo dhi slo shi = lane32f dlo dhi slo shi f32_add"

definition sseSubps :: xmm_op where
  "sseSubps dlo dhi slo shi = lane32f dlo dhi slo shi f32_sub"

definition sseMulps :: xmm_op where
  "sseMulps dlo dhi slo shi = lane32f dlo dhi slo shi f32_mul"

definition sseDivps :: xmm_op where
  "sseDivps dlo dhi slo shi = lane32f dlo dhi slo shi f32_div"

definition sqrt32 :: "u32 \<Rightarrow> u32" where
  "sqrt32 a = f32_of_f64 (f64_sqrt (f64_of_f32 a))"

definition rsqrt32 :: "u32 \<Rightarrow> u32" where
  "rsqrt32 a = f32_of_f64 (f64_div f64_one (f64_sqrt (f64_of_f32 a)))"

definition sseSqrtps :: "u64 \<Rightarrow> u64 \<Rightarrow> xmm" where
  "sseSqrtps lo hi = map32f lo hi sqrt32"

definition sseRsqrtps :: "u64 \<Rightarrow> u64 \<Rightarrow> xmm" where
  "sseRsqrtps lo hi = map32f lo hi rsqrt32"

definition sseRcpps :: "u64 \<Rightarrow> u64 \<Rightarrow> xmm" where
  "sseRcpps lo hi = map32f lo hi (f32_div f32_one)"

text \<open>\<open>if math.IsNaN(b) || b < a { return b }; return a\<close>, and with \<open>b > a\<close>.\<close>

definition min32 :: "u32 \<Rightarrow> u32 \<Rightarrow> u32" where
  "min32 a b = (if f32_isNaN b \<or> f32_less b a then b else a)"

definition max32 :: "u32 \<Rightarrow> u32 \<Rightarrow> u32" where
  "max32 a b = (if f32_isNaN b \<or> f32_less a b then b else a)"

definition min64 :: "u64 \<Rightarrow> u64 \<Rightarrow> u64" where
  "min64 a b = (if f64_isNaN b \<or> f64_less b a then b else a)"

definition max64 :: "u64 \<Rightarrow> u64 \<Rightarrow> u64" where
  "max64 a b = (if f64_isNaN b \<or> f64_less a b then b else a)"

definition sseMinps :: xmm_op where
  "sseMinps dlo dhi slo shi = lane32f dlo dhi slo shi min32"

definition sseMaxps :: xmm_op where
  "sseMaxps dlo dhi slo shi = lane32f dlo dhi slo shi max32"

definition sseAndps :: xmm_op where
  "sseAndps dlo dhi slo shi = (dlo AND slo, dhi AND shi)"

definition sseAndnps :: xmm_op where
  "sseAndnps dlo dhi slo shi = (NOT dlo AND slo, NOT dhi AND shi)"

definition sseOrps :: xmm_op where
  "sseOrps dlo dhi slo shi = (dlo OR slo, dhi OR shi)"

definition sseXorps :: xmm_op where
  "sseXorps dlo dhi slo shi = (dlo XOR slo, dhi XOR shi)"

text \<open>The predicates of the compare instructions, on doubles.\<close>

definition f64_le :: "u64 \<Rightarrow> u64 \<Rightarrow> bool" where
  "f64_le a b \<longleftrightarrow> f64_less a b \<or> f64_eq a b"

definition cmpFloatPred :: "u8 \<Rightarrow> u64 \<Rightarrow> u64 \<Rightarrow> bool" where
  "cmpFloatPred imm a b = (let k = unat (imm AND 7) in
     if k = 0 then f64_eq a b
     else if k = 1 then f64_less a b
     else if k = 2 then f64_le a b
     else if k = 3 then f64_isNaN a \<or> f64_isNaN b
     else if k = 4 then \<not> f64_eq a b \<or> f64_isNaN a \<or> f64_isNaN b
     else if k = 5 then \<not> f64_less a b
     else if k = 6 then \<not> f64_le a b
     else \<not> f64_isNaN a \<and> \<not> f64_isNaN b)"

definition sseCmpps :: "u64 \<Rightarrow> u64 \<Rightarrow> u64 \<Rightarrow> u64 \<Rightarrow> u8 \<Rightarrow> xmm" where
  "sseCmpps dlo dhi slo shi imm = lane32f dlo dhi slo shi
     (\<lambda>a b. if cmpFloatPred (imm AND 7) (f64_of_f32 a) (f64_of_f32 b) then 0xFFFFFFFF else 0)"

definition sseAddpd :: xmm_op where
  "sseAddpd dlo dhi slo shi = lane64f dlo dhi slo shi f64_add"

definition sseSubpd :: xmm_op where
  "sseSubpd dlo dhi slo shi = lane64f dlo dhi slo shi f64_sub"

definition sseMulpd :: xmm_op where
  "sseMulpd dlo dhi slo shi = lane64f dlo dhi slo shi f64_mul"

definition sseDivpd :: xmm_op where
  "sseDivpd dlo dhi slo shi = lane64f dlo dhi slo shi f64_div"

definition sseSqrtpd :: "u64 \<Rightarrow> u64 \<Rightarrow> xmm" where
  "sseSqrtpd lo hi = map64f lo hi f64_sqrt"

definition sseMinpd :: xmm_op where
  "sseMinpd dlo dhi slo shi = lane64f dlo dhi slo shi min64"

definition sseMaxpd :: xmm_op where
  "sseMaxpd dlo dhi slo shi = lane64f dlo dhi slo shi max64"

definition sseCmppd :: "u64 \<Rightarrow> u64 \<Rightarrow> u64 \<Rightarrow> u64 \<Rightarrow> u8 \<Rightarrow> xmm" where
  "sseCmppd dlo dhi slo shi imm = lane64f dlo dhi slo shi (\<lambda>a b. if cmpFloatPred (imm AND 7) a b then NOT 0 else 0)"

text \<open>Horizontal addition; \<open>lo32\<close> and \<open>hi32\<close> are the two \<open>float32\<close> lanes of a word.\<close>

definition lo32 :: "u64 \<Rightarrow> u32" where "lo32 v = ucast v"
definition hi32 :: "u64 \<Rightarrow> u32" where "hi32 v = ucast (drop_bit 32 v)"

definition sseHaddps :: xmm_op where
  "sseHaddps dlo dhi slo shi =
     (join32 (f32_add (lo32 dlo) (hi32 dlo)) (f32_add (lo32 dhi) (hi32 dhi)),
      join32 (f32_add (lo32 slo) (hi32 slo)) (f32_add (lo32 shi) (hi32 shi)))"

definition sseHaddpd :: xmm_op where
  "sseHaddpd dlo dhi slo shi = (f64_add dlo dhi, f64_add slo shi)"

section \<open>Scalar arithmetic\<close>

text \<open>\<open>(dlo &^ 0xFFFFFFFF) | uint64(r)\<close>: the low lane replaced.\<close>

definition put32 :: "u64 \<Rightarrow> u32 \<Rightarrow> u64" where
  "put32 dlo r = (dlo AND NOT 0xFFFFFFFF) OR ucast r"

definition sseAddss :: xmm_op where
  "sseAddss dlo dhi slo shi = (put32 dlo (f32_add (lo32 dlo) (lo32 slo)), dhi)"

definition sseSubss :: xmm_op where
  "sseSubss dlo dhi slo shi = (put32 dlo (f32_sub (lo32 dlo) (lo32 slo)), dhi)"

definition sseMulss :: xmm_op where
  "sseMulss dlo dhi slo shi = (put32 dlo (f32_mul (lo32 dlo) (lo32 slo)), dhi)"

definition sseDivss :: xmm_op where
  "sseDivss dlo dhi slo shi = (put32 dlo (f32_div (lo32 dlo) (lo32 slo)), dhi)"

text \<open>The square root and reciprocal of the scalar forms: the code takes the lane of \<open>dlo\<close>; the source is not used.\<close>

definition sseSqrtss :: "u64 \<Rightarrow> u64 \<Rightarrow> u64 \<Rightarrow> xmm" where
  "sseSqrtss dlo dhi src = (put32 dlo (sqrt32 (lo32 dlo)), dhi)"

definition sseRsqrtss :: "u64 \<Rightarrow> u64 \<Rightarrow> u64 \<Rightarrow> xmm" where
  "sseRsqrtss dlo dhi src = (put32 dlo (rsqrt32 (lo32 dlo)), dhi)"

definition sseRcpss :: "u64 \<Rightarrow> u64 \<Rightarrow> u64 \<Rightarrow> xmm" where
  "sseRcpss dlo dhi src = (put32 dlo (f32_div f32_one (lo32 dlo)), dhi)"

definition sseMinss :: xmm_op where
  "sseMinss dlo dhi slo shi = (put32 dlo (min32 (lo32 dlo) (lo32 slo)), dhi)"

definition sseMaxss :: xmm_op where
  "sseMaxss dlo dhi slo shi = (put32 dlo (max32 (lo32 dlo) (lo32 slo)), dhi)"

definition sseCmpss :: "u64 \<Rightarrow> u64 \<Rightarrow> u64 \<Rightarrow> u64 \<Rightarrow> u8 \<Rightarrow> xmm" where
  "sseCmpss dlo dhi slo shi imm = (put32 dlo (if cmpFloatPred (imm AND 7) (f64_of_f32 (lo32 dlo)) (f64_of_f32 (lo32 slo)) then 0xFFFFFFFF else 0), dhi)"

definition sseAddsd :: xmm_op where
  "sseAddsd dlo dhi slo shi = (f64_add dlo slo, dhi)"

definition sseSubsd :: xmm_op where
  "sseSubsd dlo dhi slo shi = (f64_sub dlo slo, dhi)"

definition sseMulsd :: xmm_op where
  "sseMulsd dlo dhi slo shi = (f64_mul dlo slo, dhi)"

definition sseDivsd :: xmm_op where
  "sseDivsd dlo dhi slo shi = (f64_div dlo slo, dhi)"

definition sseSqrtsd :: "u64 \<Rightarrow> u64 \<Rightarrow> u64 \<Rightarrow> xmm" where
  "sseSqrtsd dlo dhi src = (f64_sqrt dlo, dhi)"

definition sseMinsd :: xmm_op where
  "sseMinsd dlo dhi slo shi = (min64 dlo slo, dhi)"

definition sseMaxsd :: xmm_op where
  "sseMaxsd dlo dhi slo shi = (max64 dlo slo, dhi)"

definition sseCmpsd :: "u64 \<Rightarrow> u64 \<Rightarrow> u64 \<Rightarrow> u64 \<Rightarrow> u8 \<Rightarrow> xmm" where
  "sseCmpsd dlo dhi slo shi imm = (if cmpFloatPred (imm AND 7) dlo slo then NOT 0 else 0, dhi)"

section \<open>Scalar comparison\<close>

definition comi_flags :: "bool \<Rightarrow> bool \<Rightarrow> bool \<Rightarrow> registers \<Rightarrow> registers" where
  "comi_flags zf pf cf r = setFlag flagCF cf (setFlag flagPF pf (setFlag flagZF zf
     (setFlag flagAF False (setFlag flagSF False (setFlag flagOF False r)))))"

definition sseComisd :: "u64 \<Rightarrow> u64 \<Rightarrow> registers \<Rightarrow> registers" where
  "sseComisd a b =
     (if f64_isNaN a \<or> f64_isNaN b then comi_flags True True True
      else if f64_less a b then comi_flags False False True
      else if f64_eq a b then comi_flags True False False
      else comi_flags False False False)"

definition sseComiss :: "u64 \<Rightarrow> u64 \<Rightarrow> registers \<Rightarrow> registers" where
  "sseComiss dlo slo = (let a = lo32 dlo; b = lo32 slo in
     if f32_isNaN a \<or> f32_isNaN b then comi_flags True True True
     else if f32_less a b then comi_flags False False True
     else if f32_eq a b then comi_flags True False False
     else comi_flags False False False)"

section \<open>Conversion instructions\<close>

text \<open>An \<open>int64\<close> is the 64 bits read with \<open>sint\<close>.\<close>

definition sseCvtsi2ss :: "u64 \<Rightarrow> u64 \<Rightarrow> u64 \<Rightarrow> xmm" where
  "sseCvtsi2ss dlo dhi intVal = (put32 dlo (f32_of_int (sint intVal)), dhi)"

definition sseCvtsi2sd :: "u64 \<Rightarrow> u64 \<Rightarrow> u64 \<Rightarrow> xmm" where
  "sseCvtsi2sd dlo dhi intVal = (f64_of_int (sint intVal), dhi)"

definition sseCvtss2sd :: xmm_op where
  "sseCvtss2sd dlo dhi slo shi = (f64_of_f32 (lo32 slo), dhi)"

definition sseCvtsd2ss :: xmm_op where
  "sseCvtsd2ss dlo dhi slo shi = (put32 dlo (f32_of_f64 slo), dhi)"

definition sseCvttss2si :: "u64 \<Rightarrow> u64" where
  "sseCvttss2si slo = int64_of_f64 (f64_rint 3 (f64_of_f32 (lo32 slo)))"

definition sseCvttsd2si :: "u64 \<Rightarrow> u64" where
  "sseCvttsd2si slo = int64_of_f64 (f64_rint 3 slo)"

definition sseCvtss2si :: "u64 \<Rightarrow> u64" where
  "sseCvtss2si slo = int64_of_f64 (f64_rint 0 (f64_of_f32 (lo32 slo)))"

definition sseCvtsd2si :: "u64 \<Rightarrow> u64" where
  "sseCvtsd2si slo = int64_of_f64 (f64_rint 0 slo)"

definition sseCvtdq2ps :: "u64 \<Rightarrow> u64 \<Rightarrow> xmm" where
  "sseCvtdq2ps slo shi = lane32 slo shi 0 0 (\<lambda>a _. f32_of_int (sint a))"

text \<open>The range test of the packed conversions, against 2^31 and -2^31 as doubles.\<close>

definition out_of_int32 :: "u64 \<Rightarrow> bool" where
  "out_of_int32 f \<longleftrightarrow> f64_le (f64_of_int (2 ^ 31)) f \<or> f64_less f (f64_of_int (- (2 ^ 31)))"

definition sseCvttps2dq :: "u64 \<Rightarrow> u64 \<Rightarrow> xmm" where
  "sseCvttps2dq slo shi = lane32 slo shi 0 0 (\<lambda>a _. let f = f64_of_f32 a in
     if f64_isNaN f \<or> out_of_int32 f then 0x80000000 else int32_of_f64 f)"

definition sseCvtps2dq :: "u64 \<Rightarrow> u64 \<Rightarrow> xmm" where
  "sseCvtps2dq slo shi = lane32 slo shi 0 0 (\<lambda>a _. let f = f64_of_f32 a; r = f64_rint 0 f in
     if f64_isNaN f \<or> out_of_int32 r then 0x80000000 else int32_of_f64 r)"

definition sseCvtps2pd :: "u64 \<Rightarrow> u64 \<Rightarrow> xmm" where
  "sseCvtps2pd slo shi = (f64_of_f32 (lo32 slo), f64_of_f32 (hi32 slo))"

definition sseCvtpd2ps :: "u64 \<Rightarrow> u64 \<Rightarrow> xmm" where
  "sseCvtpd2ps slo shi = (join32 (f32_of_f64 slo) (f32_of_f64 shi), 0)"

definition sseCvtpd2dq :: "u64 \<Rightarrow> u64 \<Rightarrow> xmm" where
  "sseCvtpd2dq slo shi = (join32 (int32_of_f64 (f64_rint 0 slo)) (int32_of_f64 (f64_rint 0 shi)), 0)"

definition sseCvttpd2dq :: "u64 \<Rightarrow> u64 \<Rightarrow> xmm" where
  "sseCvttpd2dq slo shi = (join32 (int32_of_f64 (f64_rint 3 slo)) (int32_of_f64 (f64_rint 3 shi)), 0)"

definition sseCvtdq2pd :: "u64 \<Rightarrow> u64 \<Rightarrow> xmm" where
  "sseCvtdq2pd slo shi = (f64_of_int (sint (lo32 slo)), f64_of_int (sint (hi32 slo)))"

section \<open>Dot products and rounding\<close>

definition sseDpps :: "u64 \<Rightarrow> u64 \<Rightarrow> u64 \<Rightarrow> u64 \<Rightarrow> u8 \<Rightarrow> xmm" where
  "sseDpps dlo dhi slo shi imm =
     (let ds = [lo32 dlo, hi32 dlo, lo32 dhi, hi32 dhi]; ss = [lo32 slo, hi32 slo, lo32 shi, hi32 shi];
          dp = fold (\<lambda>i dp. if drop_bit (i + 4) imm AND 1 \<noteq> 0 then f32_add dp (f32_mul (ds ! i) (ss ! i)) else dp) [0..<4] 0;
          r = (\<lambda>i. if drop_bit i imm AND 1 \<noteq> 0 then dp else 0)
      in (join32 (r 0) (r 1), join32 (r 2) (r 3)))"

definition sseDppd :: "u64 \<Rightarrow> u64 \<Rightarrow> u64 \<Rightarrow> u64 \<Rightarrow> u8 \<Rightarrow> xmm" where
  "sseDppd dlo dhi slo shi imm =
     (let dp0 = (if imm AND 0x10 \<noteq> 0 then f64_add 0 (f64_mul dlo slo) else 0);
          dp = (if imm AND 0x20 \<noteq> 0 then f64_add dp0 (f64_mul dhi shi) else dp0)
      in (if imm AND 1 \<noteq> 0 then dp else 0, if imm AND 2 \<noteq> 0 then dp else 0))"

definition roundF64 :: "u64 \<Rightarrow> u8 \<Rightarrow> u64" where
  "roundF64 f imm = f64_rint (unat (imm AND 3)) f"

definition roundF32 :: "u32 \<Rightarrow> u8 \<Rightarrow> u32" where
  "roundF32 f imm = f32_of_f64 (roundF64 (f64_of_f32 f) imm)"

definition sseRoundss :: "u64 \<Rightarrow> u64 \<Rightarrow> u8 \<Rightarrow> xmm" where
  "sseRoundss dlo dhi imm = (put32 dlo (roundF32 (lo32 dlo) imm), dhi)"

definition sseRoundsd :: "u64 \<Rightarrow> u64 \<Rightarrow> u8 \<Rightarrow> xmm" where
  "sseRoundsd dlo dhi imm = (roundF64 dlo imm, dhi)"

definition sseRoundps :: "u64 \<Rightarrow> u64 \<Rightarrow> u8 \<Rightarrow> xmm" where
  "sseRoundps lo hi imm = map32f lo hi (\<lambda>a. roundF32 a imm)"

definition sseRoundpd :: "u64 \<Rightarrow> u64 \<Rightarrow> u8 \<Rightarrow> xmm" where
  "sseRoundpd lo hi imm = map64f lo hi (\<lambda>a. roundF64 a imm)"

end
