(* ===== verification/Sse_Insn.thy ===== *)
theory Sse_Insn
  imports Sse_Float Insn Decode
begin

unbundle bit_operations_syntax

text \<open>
  The vector instructions: operand access and execution helpers of \<open>internal/cpu/sse.go\<close>, and the
  closures that \<open>decodeSSE0F\<close>, \<open>decodeThreeByte38\<close>, \<open>decodeThreeByte3A\<close> and \<open>decodeVexInsn\<close> of
  \<open>twobyte.go\<close> pass to \<open>finish\<close>, one definition per closure or family of closures that differ in one
  function. None of them branches.
\<close>

section \<open>XMM and YMM operands\<close>

definition readXMMOp :: "operand \<Rightarrow> xmm exec" where
  "readXMMOp x =
     (if o_kind x = opndMem then
        bindE (getS (effAddr x)) (\<lambda>a.
        bindE (on_mem (readChecked a 16 ProtRead)) (\<lambda>buf.
        ret (leToU64 (take 8 buf), leToU64 (drop 8 buf))))
      else regs (readXMM (o_reg x)))"

definition writeXMMOp :: "operand \<Rightarrow> u64 \<Rightarrow> u64 \<Rightarrow> bool \<Rightarrow> unit exec" where
  "writeXMMOp x lo hi zeroUpper =
     (if o_kind x = opndMem then
        bindE (getS (effAddr x)) (\<lambda>a. on_mem (writeChecked a (u64ToLE lo 8 @ u64ToLE hi 8) ProtWrite))
      else if zeroUpper then on_regs (writeXMMVex (o_reg x) lo hi)
      else on_regs (writeXMM (o_reg x) lo hi))"

definition readYMMOp :: "operand \<Rightarrow> ymm exec" where
  "readYMMOp x =
     (if o_kind x = opndMem then
        bindE (getS (effAddr x)) (\<lambda>a.
        bindE (on_mem (readChecked a 32 ProtRead)) (\<lambda>buf.
        ret (leToU64 (take 8 buf), leToU64 (take 8 (drop 8 buf)),
             leToU64 (take 8 (drop 16 buf)), leToU64 (drop 24 buf))))
      else regs (readYMM (o_reg x)))"

definition writeYMMOp :: "operand \<Rightarrow> ymm \<Rightarrow> unit exec" where
  "writeYMMOp x v = (case v of (lo0, lo1, hi0, hi1) \<Rightarrow>
     if o_kind x = opndMem then
       bindE (getS (effAddr x)) (\<lambda>a.
       on_mem (writeChecked a (u64ToLE lo0 8 @ u64ToLE lo1 8 @ u64ToLE hi0 8 @ u64ToLE hi1 8) ProtWrite))
     else on_regs (writeYMM (o_reg x) lo0 lo1 hi0 hi1))"

text \<open>\<open>lo, hi, _ := e.readXMMOp(x)\<close>: the error is dropped and the value is then zero.\<close>

definition tryXMMOp :: "operand \<Rightarrow> xmm exec" where
  "tryXMMOp x = (\<lambda>c. case readXMMOp x c of (Inl _, c') \<Rightarrow> (Inr (0, 0), c') | (Inr v, c') \<Rightarrow> (Inr v, c'))"

text \<open>\<open>e.mem.writeChecked(e.effAddr(x), u64ToLE(v, n), ProtWrite)\<close>.\<close>

definition store_low :: "operand \<Rightarrow> u64 \<Rightarrow> nat \<Rightarrow> unit exec" where
  "store_low x v n = bindE (getS (effAddr x)) (\<lambda>a. on_mem (writeChecked a (u64ToLE v n) ProtWrite))"

section \<open>Execution helpers\<close>

definition execXMM :: "operand \<Rightarrow> operand \<Rightarrow> bool \<Rightarrow> xmm_op \<Rightarrow> unit exec" where
  "execXMM dst src zeroUpper f =
     bindE (readXMMOp dst) (\<lambda>(dlo, dhi).
     bindE (readXMMOp src) (\<lambda>(slo, shi).
     let (rlo, rhi) = f dlo dhi slo shi in writeXMMOp dst rlo rhi zeroUpper))"

definition execXMM3 :: "operand \<Rightarrow> nat \<Rightarrow> operand \<Rightarrow> bool \<Rightarrow> xmm_op \<Rightarrow> unit exec" where
  "execXMM3 dst src1Reg src2 zeroUpper f =
     bindE (regs (readXMM src1Reg)) (\<lambda>(s1lo, s1hi).
     bindE (readXMMOp src2) (\<lambda>(s2lo, s2hi).
     let (rlo, rhi) = f s1lo s1hi s2lo s2hi in writeXMMOp dst rlo rhi zeroUpper))"

definition execYMM :: "operand \<Rightarrow> operand \<Rightarrow> (ymm \<Rightarrow> ymm \<Rightarrow> ymm) \<Rightarrow> unit exec" where
  "execYMM dst src f =
     bindE (readYMMOp dst) (\<lambda>d. bindE (readYMMOp src) (\<lambda>s. writeYMMOp dst (f d s)))"

definition execYMM3 :: "operand \<Rightarrow> nat \<Rightarrow> operand \<Rightarrow> (ymm \<Rightarrow> ymm \<Rightarrow> ymm) \<Rightarrow> unit exec" where
  "execYMM3 dst src1Reg src2 f =
     bindE (regs (readYMM src1Reg)) (\<lambda>s1. bindE (readYMMOp src2) (\<lambda>s2. writeYMMOp dst (f s1 s2)))"

text \<open>An XMM operation on both halves of a YMM value.\<close>

definition ymm_halves :: "xmm_op \<Rightarrow> ymm \<Rightarrow> ymm \<Rightarrow> ymm" where
  "ymm_halves f x y = (case (x, y) of ((a, b, a2, b2), (c, d, c2, d2)) \<Rightarrow>
     let (r0, r1) = f a b c d; (r2, r3) = f a2 b2 c2 d2 in (r0, r1, r2, r3))"

text \<open>The mandatory prefix; \<open>switch { case isSS: .. case isSD: .. case isPD: .. default: .. }\<close>.\<close>

definition isSS :: "pfx \<Rightarrow> bool" where "isSS p \<longleftrightarrow> p_rep p = repZ"
definition isSD :: "pfx \<Rightarrow> bool" where "isSD p \<longleftrightarrow> p_rep p = repNZ"
definition isPD :: "pfx \<Rightarrow> bool" where "isPD p \<longleftrightarrow> p_opSize16 p"

definition by_prefix :: "pfx \<Rightarrow> 'a \<Rightarrow> 'a \<Rightarrow> 'a \<Rightarrow> 'a \<Rightarrow> 'a" where
  "by_prefix p ss sd pd ps = (if isSS p then ss else if isSD p then sd else if isPD p then pd else ps)"

definition vexBinop :: "operand \<Rightarrow> nat \<Rightarrow> operand \<Rightarrow> pfx \<Rightarrow> bool \<Rightarrow> bool \<Rightarrow> xmm_op \<Rightarrow> xmm_op \<Rightarrow> xmm_op \<Rightarrow> xmm_op \<Rightarrow> unit exec" where
  "vexBinop dst src1Reg src2 p L zu fnSS fnSD fnPD fnPS =
     (if isSS p then execXMM3 dst src1Reg src2 zu fnSS
      else if isSD p then execXMM3 dst src1Reg src2 zu fnSD
      else let fn = (if isPD p then fnPD else fnPS) in
        if L then execYMM3 dst src1Reg src2 (ymm_halves fn) else execXMM3 dst src1Reg src2 zu fn)"

text \<open>Reading the source first, then the destination, and writing the result: the float closures.\<close>

definition src_dst :: "operand \<Rightarrow> operand \<Rightarrow> xmm_op \<Rightarrow> unit exec" where
  "src_dst dst src f =
     bindE (readXMMOp src) (\<lambda>(slo, shi).
     bindE (tryXMMOp dst) (\<lambda>(dlo, dhi).
     let (rlo, rhi) = f dlo dhi slo shi in writeXMMOp dst rlo rhi False))"

definition copy_op :: xmm_op where
  "copy_op dlo dhi slo shi = (slo, shi)"

section \<open>Moves\<close>

definition exec_movs_load :: "pfx \<Rightarrow> operand \<Rightarrow> operand \<Rightarrow> unit exec" where
  "exec_movs_load p dst src =
     (if isSS p then
        bindE (readXMMOp src) (\<lambda>(slo, shi). bindE (tryXMMOp dst) (\<lambda>(dlo, dhi).
        if o_kind src = opndMem then writeXMMOp dst (slo AND 0xFFFFFFFF) dhi False
        else writeXMMOp dst ((dlo AND NOT 0xFFFFFFFF) OR (slo AND 0xFFFFFFFF)) dhi False))
      else if isSD p then
        bindE (readXMMOp src) (\<lambda>(slo, _). bindE (tryXMMOp dst) (\<lambda>(_, dhi). writeXMMOp dst slo dhi False))
      else execXMM dst src False copy_op)"

definition exec_movs_store :: "pfx \<Rightarrow> operand \<Rightarrow> operand \<Rightarrow> unit exec" where
  "exec_movs_store p dst src =
     (if isSS p then
        bindE (tryXMMOp src) (\<lambda>(slo, _). bindE (tryXMMOp dst) (\<lambda>(dlo, dhi).
        if o_kind dst = opndMem then store_low dst (slo AND 0xFFFFFFFF) 4
        else writeXMMOp dst ((dlo AND NOT 0xFFFFFFFF) OR (slo AND 0xFFFFFFFF)) dhi False))
      else if isSD p then
        bindE (tryXMMOp src) (\<lambda>(slo, _). bindE (tryXMMOp dst) (\<lambda>(_, dhi).
        if o_kind dst = opndMem then store_low dst slo 8 else writeXMMOp dst slo dhi False))
      else execXMM dst src False copy_op)"

text \<open>MOVLPS/MOVHPS: eight bytes from memory into one half; the address is taken of any operand.\<close>

definition load_half :: "operand \<Rightarrow> (u64 \<Rightarrow> xmm \<Rightarrow> unit exec) \<Rightarrow> operand \<Rightarrow> unit exec" where
  "load_half src f dst =
     bindE (getS (effAddr src)) (\<lambda>a.
     bindE (on_mem (readChecked a 8 ProtRead)) (\<lambda>buf.
     bindE (tryXMMOp dst) (\<lambda>d. f (leToU64 buf) d)))"

definition exec_movlp_load :: "operand \<Rightarrow> operand \<Rightarrow> unit exec" where
  "exec_movlp_load dst src = load_half src (\<lambda>v (_, dhi). writeXMMOp dst v dhi False) dst"

definition exec_movhp_load :: "operand \<Rightarrow> operand \<Rightarrow> unit exec" where
  "exec_movhp_load dst src = load_half src (\<lambda>v (dlo, _). writeXMMOp dst dlo v False) dst"

definition exec_movlp_store :: "operand \<Rightarrow> operand \<Rightarrow> unit exec" where
  "exec_movlp_store dst src = bindE (tryXMMOp src) (\<lambda>(slo, _). store_low dst slo 8)"

definition exec_movhp_store :: "operand \<Rightarrow> operand \<Rightarrow> unit exec" where
  "exec_movhp_store dst src = bindE (tryXMMOp src) (\<lambda>(_, shi). store_low dst shi 8)"

definition unpckl :: "pfx \<Rightarrow> xmm_op" where
  "unpckl p dlo dhi slo shi = (if isPD p then (dlo, slo) else ssePunpckldq dlo dhi slo shi)"

definition unpckh :: "pfx \<Rightarrow> xmm_op" where
  "unpckh p dlo dhi slo shi = (if isPD p then (dhi, shi) else ssePunpckhdq dlo dhi slo shi)"

definition exec_unpck :: "xmm_op \<Rightarrow> operand \<Rightarrow> operand \<Rightarrow> unit exec" where
  "exec_unpck f dst src =
     bindE (tryXMMOp dst) (\<lambda>(dlo, dhi). bindE (tryXMMOp src) (\<lambda>(slo, shi).
     let (lo, hi) = f dlo dhi slo shi in writeXMMOp dst lo hi False))"

definition exec_movd_load :: "nat \<Rightarrow> bool \<Rightarrow> operand \<Rightarrow> operand \<Rightarrow> unit exec" where
  "exec_movd_load w zu dst src = bindE (readOperand src w) (\<lambda>v. writeXMMOp dst v 0 zu)"

definition exec_movd_store :: "nat \<Rightarrow> operand \<Rightarrow> operand \<Rightarrow> unit exec" where
  "exec_movd_store w dst src = bindE (tryXMMOp src) (\<lambda>(slo, _). writeOperand dst w slo)"

definition exec_movq_load :: "bool \<Rightarrow> operand \<Rightarrow> operand \<Rightarrow> unit exec" where
  "exec_movq_load zu dst src = bindE (readXMMOp src) (\<lambda>(slo, _). writeXMMOp dst slo 0 zu)"

definition exec_movq_store :: "operand \<Rightarrow> operand \<Rightarrow> unit exec" where
  "exec_movq_store dst src = bindE (tryXMMOp src) (\<lambda>(slo, _).
     if o_kind dst = opndMem then store_low dst slo 8 else writeXMMOp dst slo 0 False)"

definition exec_movntdq :: "operand \<Rightarrow> operand \<Rightarrow> unit exec" where
  "exec_movntdq dst src = bindE (tryXMMOp src) (\<lambda>(slo, shi).
     bindE (getS (effAddr dst)) (\<lambda>a. on_mem (writeChecked a (u64ToLE slo 8 @ u64ToLE shi 8) ProtWrite)))"

section \<open>Conversions, comparisons and masks\<close>

definition exec_cvtsi2 :: "pfx \<Rightarrow> nat \<Rightarrow> operand \<Rightarrow> operand \<Rightarrow> unit exec" where
  "exec_cvtsi2 p w dst src =
     bindE (readOperand src w) (\<lambda>iv.
     let intVal = signExtend iv (w * 8) in
     bindE (tryXMMOp dst) (\<lambda>(dlo, dhi).
     let (rlo, rhi) = (if isSS p then sseCvtsi2ss dlo dhi intVal else sseCvtsi2sd dlo dhi intVal) in
     writeXMMOp dst rlo rhi False))"

definition exec_cvt2si :: "pfx \<Rightarrow> nat \<Rightarrow> (u64 \<Rightarrow> u64) \<Rightarrow> (u64 \<Rightarrow> u64) \<Rightarrow> operand \<Rightarrow> operand \<Rightarrow> unit exec" where
  "exec_cvt2si p w fSS fSD dst src =
     bindE (readXMMOp src) (\<lambda>(slo, _). writeOperand dst w (if isSS p then fSS slo else fSD slo))"

definition exec_comi :: "pfx \<Rightarrow> operand \<Rightarrow> operand \<Rightarrow> unit exec" where
  "exec_comi p dst src =
     bindE (tryXMMOp dst) (\<lambda>(dlo, _). bindE (readXMMOp src) (\<lambda>(slo, _).
     on_regs (if isPD p then sseComisd dlo slo else sseComiss dlo slo)))"

definition exec_mask :: "(u64 \<Rightarrow> u64 \<Rightarrow> u32) \<Rightarrow> operand \<Rightarrow> operand \<Rightarrow> unit exec" where
  "exec_mask f dst src = bindE (tryXMMOp src) (\<lambda>(slo, shi). writeOperand dst 4 (ucast (f slo shi)))"

definition exec_ptest :: "operand \<Rightarrow> operand \<Rightarrow> unit exec" where
  "exec_ptest dst src =
     bindE (readXMMOp src) (\<lambda>(slo, shi). bindE (tryXMMOp dst) (\<lambda>(dlo, dhi).
     on_regs (ssePtest dlo dhi slo shi)))"

text \<open>One operand in, the destination written without being read.\<close>

definition exec_unary :: "bool \<Rightarrow> (u64 \<Rightarrow> u64 \<Rightarrow> xmm) \<Rightarrow> operand \<Rightarrow> operand \<Rightarrow> unit exec" where
  "exec_unary zu f dst src =
     bindE (readXMMOp src) (\<lambda>(slo, shi). let (rlo, rhi) = f slo shi in writeXMMOp dst rlo rhi zu)"

section \<open>Shifts by an immediate, MXCSR\<close>

definition shift_grp12 :: "nat \<Rightarrow> u8 \<Rightarrow> u64 \<Rightarrow> u64 \<Rightarrow> cpu_error + xmm" where
  "shift_grp12 idx imm lo hi =
     (if idx = 2 then Inr (ssePsrlw lo hi (ucast imm)) else if idx = 4 then Inr (ssePsraw lo hi (ucast imm))
      else if idx = 6 then Inr (ssePsllw lo hi (ucast imm)) else Inl (UnsupportedGroup idx 0x71))"

definition shift_grp13 :: "nat \<Rightarrow> u8 \<Rightarrow> u64 \<Rightarrow> u64 \<Rightarrow> cpu_error + xmm" where
  "shift_grp13 idx imm lo hi =
     (if idx = 2 then Inr (ssePsrld lo hi (ucast imm)) else if idx = 4 then Inr (ssePsrad lo hi (ucast imm))
      else if idx = 6 then Inr (ssePslld lo hi (ucast imm)) else Inl (UnsupportedGroup idx 0x72))"

definition shift_grp14 :: "nat \<Rightarrow> u8 \<Rightarrow> u64 \<Rightarrow> u64 \<Rightarrow> cpu_error + xmm" where
  "shift_grp14 idx imm lo hi =
     (if idx = 2 then Inr (ssePsrlq lo hi (ucast imm)) else if idx = 3 then Inr (ssePsrldq lo hi imm)
      else if idx = 6 then Inr (ssePsllq lo hi (ucast imm)) else if idx = 7 then Inr (ssePslldq lo hi imm)
      else Inl (UnsupportedGroup idx 0x73))"

definition exec_shift_imm :: "(u64 \<Rightarrow> u64 \<Rightarrow> cpu_error + xmm) \<Rightarrow> operand \<Rightarrow> unit exec" where
  "exec_shift_imm f rm =
     bindE (tryXMMOp rm) (\<lambda>(lo, hi). bindE (of_result (f lo hi)) (\<lambda>(rlo, rhi). writeXMMOp rm rlo rhi False))"

definition exec_grp15 :: "nat \<Rightarrow> operand \<Rightarrow> unit exec" where
  "exec_grp15 idx rm =
     (if idx = 2 then bindE (readOperand rm 4) (\<lambda>v. on_regs (\<lambda>r. r\<lparr>r_mxcsr := ucast v\<rparr>))
      else if idx = 3 then bindE (regs r_mxcsr) (\<lambda>v. writeOperand rm 4 (ucast v))
      else if idx = 5 \<or> idx = 6 \<or> idx = 7 then ret ()
      else fail (UnsupportedGroup idx 0xAE))"

section \<open>Lanes in and out of general-purpose registers\<close>

text \<open>PEXTR*: the closure writes \<open>w\<close> bytes of the zero-extended lane.\<close>

definition exec_pextr :: "nat \<Rightarrow> (u64 \<Rightarrow> u64 \<Rightarrow> u64) \<Rightarrow> operand \<Rightarrow> operand \<Rightarrow> unit exec" where
  "exec_pextr w f dst src = bindE (tryXMMOp src) (\<lambda>(slo, shi). writeOperand dst w (f slo shi))"

definition exec_pinsr :: "nat \<Rightarrow> (u64 \<Rightarrow> u64 \<Rightarrow> u64 \<Rightarrow> xmm) \<Rightarrow> operand \<Rightarrow> operand \<Rightarrow> unit exec" where
  "exec_pinsr w f dst src =
     bindE (readOperand src w) (\<lambda>v. bindE (tryXMMOp dst) (\<lambda>(dlo, dhi).
     let (rlo, rhi) = f dlo dhi v in writeXMMOp dst rlo rhi False))"

definition pinsr_dq :: "nat \<Rightarrow> u8 \<Rightarrow> u64 \<Rightarrow> u64 \<Rightarrow> u64 \<Rightarrow> xmm" where
  "pinsr_dq w imm dlo dhi v = (if w = 8 then ssePinsrq dlo dhi v imm else ssePinsrd dlo dhi (ucast v) imm)"

definition pextr_dq :: "nat \<Rightarrow> u8 \<Rightarrow> u64 \<Rightarrow> u64 \<Rightarrow> u64" where
  "pextr_dq w imm slo shi = (if w = 8 then ssePextrq slo shi imm else ucast (ssePextrd slo shi imm))"

text \<open>The \<open>float32\<close> INSERTPS takes; a lane of the upper half is read from the operand again.\<close>

definition insertps_src :: "operand \<Rightarrow> u8 \<Rightarrow> u64 \<Rightarrow> u32 exec" where
  "insertps_src src imm slo = (let countS = unat (drop_bit 6 imm AND 3) in
     if countS < 2 then ret (ucast (drop_bit (countS * 32) slo))
     else bindE (tryXMMOp src) (\<lambda>(_, shi). ret (ucast (drop_bit ((countS - 2) * 32) shi))))"

definition exec_insertps :: "u8 \<Rightarrow> operand \<Rightarrow> operand \<Rightarrow> unit exec" where
  "exec_insertps imm dst src =
     bindE (readXMMOp src) (\<lambda>(slo, _). bindE (tryXMMOp dst) (\<lambda>(dlo, dhi).
     bindE (insertps_src src imm slo) (\<lambda>srcF.
     let (rlo, rhi) = sseInsertps dlo dhi srcF imm in writeXMMOp dst rlo rhi False)))"

definition palignr_result :: "xmm option \<Rightarrow> xmm exec" where
  "palignr_result r = (case r of None \<Rightarrow> fail GoPanic | Some v \<Rightarrow> ret v)"

definition exec_palignr :: "u8 \<Rightarrow> operand \<Rightarrow> operand \<Rightarrow> unit exec" where
  "exec_palignr imm dst src =
     bindE (readXMMOp src) (\<lambda>(slo, shi). bindE (tryXMMOp dst) (\<lambda>(dlo, dhi).
     bindE (palignr_result (ssePalignr dlo dhi slo shi imm)) (\<lambda>(rlo, rhi). writeXMMOp dst rlo rhi False)))"

text \<open>PMADDUBSW: unsigned bytes of the destination times signed bytes of the source, summed and clamped.\<close>

definition pmaddubsw_lane :: "u16 \<Rightarrow> u16 \<Rightarrow> u16" where
  "pmaddubsw_lane d s =
     (let d0 = sint (ucast s :: u8); d1 = sint (ucast (drop_bit 8 s) :: u8); s0 = uint (d AND 0xFF); s1 = uint (drop_bit 8 d)
      in clamp_s16 (d0 * s0 + d1 * s1))"

definition pmaddubsw :: xmm_op where
  "pmaddubsw dlo dhi slo shi = lane16 dlo dhi slo shi pmaddubsw_lane"

section \<open>VEX forms\<close>

definition exec_vmov :: "bool \<Rightarrow> operand \<Rightarrow> operand \<Rightarrow> unit exec" where
  "exec_vmov L dst src = (if L then execYMM dst src (\<lambda>_ s. s) else execXMM dst src True copy_op)"

definition exec_vcvtsi2 :: "pfx \<Rightarrow> nat \<Rightarrow> nat \<Rightarrow> operand \<Rightarrow> operand \<Rightarrow> unit exec" where
  "exec_vcvtsi2 p w vvvv dst src2 =
     bindE (readOperand src2 w) (\<lambda>iv.
     let intVal = signExtend iv (w * 8) in
     bindE (regs (readXMM vvvv)) (\<lambda>(mlo, mhi).
     let (rlo, rhi) = (if isSS p then sseCvtsi2ss mlo mhi intVal else sseCvtsi2sd mlo mhi intVal) in
     writeXMMOp dst rlo rhi True))"

text \<open>
  VSQRT and VADD with 256 bits: the closures apply the operation to the lower half twice and write
  the two results to the two halves.
\<close>

definition exec_vsqrt :: "pfx \<Rightarrow> bool \<Rightarrow> operand \<Rightarrow> operand \<Rightarrow> unit exec" where
  "exec_vsqrt p L dst src =
     bindE (readXMMOp src) (\<lambda>(slo, shi). bindE (tryXMMOp dst) (\<lambda>(dlo, dhi).
     if isSS p then (case sseSqrtss dlo dhi slo of (rlo, rhi) \<Rightarrow> writeXMMOp dst rlo rhi True)
     else if isSD p then (case sseSqrtsd slo dhi 0 of (rlo, rhi) \<Rightarrow> writeXMMOp dst rlo rhi True)
     else let f = (if isPD p then sseSqrtpd else sseSqrtps); (rlo, rhi) = f slo shi in
       if L then
         bindE (if isPD p then readXMMOp src
                else bindE (readYMMOp src) (\<lambda>(slo2, shi2, _, _). ret (slo2, shi2))) (\<lambda>(slo2, shi2).
         let (rlo2, rhi2) = f slo2 shi2 in writeYMMOp dst (rlo, rhi, rlo2, rhi2))
       else writeXMMOp dst rlo rhi True))"

definition exec_vadd :: "pfx \<Rightarrow> bool \<Rightarrow> operand \<Rightarrow> nat \<Rightarrow> operand \<Rightarrow> unit exec" where
  "exec_vadd p L dst src1Reg src2 =
     bindE (readXMMOp src2) (\<lambda>(s2lo, s2hi). bindE (regs (readXMM src1Reg)) (\<lambda>(s1lo, s1hi).
     if isSS p then (case sseAddss s1lo s1hi s2lo s2hi of (rlo, rhi) \<Rightarrow> writeXMMOp dst rlo rhi True)
     else if isSD p then (case sseAddsd s1lo s1hi s2lo s2hi of (rlo, rhi) \<Rightarrow> writeXMMOp dst rlo rhi True)
     else let f = (if isPD p then sseAddpd else sseAddps); (rlo, rhi) = f s1lo s1hi s2lo s2hi in
       if L then
         bindE (regs (readYMM src1Reg)) (\<lambda>(s1lo2, s1hi2, _, _).
         bindE (readYMMOp src2) (\<lambda>(s2lo2, s2hi2, _, _).
         let (r2, r3) = f s1lo2 s1hi2 s2lo2 s2hi2 in writeYMMOp dst (rlo, rhi, r2, r3)))
       else writeXMMOp dst rlo rhi True))"

text \<open>An operation on a register named by VEX.vvvv and the second source, reading the source first.\<close>

definition src2_src1 :: "operand \<Rightarrow> nat \<Rightarrow> operand \<Rightarrow> (u64 \<Rightarrow> u64 \<Rightarrow> u64 \<Rightarrow> u64 \<Rightarrow> xmm exec) \<Rightarrow> unit exec" where
  "src2_src1 dst src1Reg src2 f =
     bindE (readXMMOp src2) (\<lambda>(s2lo, s2hi). bindE (regs (readXMM src1Reg)) (\<lambda>(s1lo, s1hi).
     bindE (f s1lo s1hi s2lo s2hi) (\<lambda>(rlo, rhi). writeXMMOp dst rlo rhi True)))"

definition vcvt_5A :: "pfx \<Rightarrow> xmm_op" where
  "vcvt_5A p mlo mhi slo shi = by_prefix p (sseCvtss2sd mlo mhi slo shi) (sseCvtsd2ss mlo mhi slo shi)
     (sseCvtpd2ps slo shi) (sseCvtps2pd slo shi)"

definition exec_vpinsr :: "nat \<Rightarrow> (u64 \<Rightarrow> u64 \<Rightarrow> u64 \<Rightarrow> xmm) \<Rightarrow> operand \<Rightarrow> nat \<Rightarrow> operand \<Rightarrow> unit exec" where
  "exec_vpinsr w f dst src1Reg src2 =
     bindE (readOperand src2 w) (\<lambda>v. bindE (regs (readXMM src1Reg)) (\<lambda>(s1lo, s1hi).
     let (rlo, rhi) = f s1lo s1hi v in writeXMMOp dst rlo rhi True))"

definition exec_vbroadcastss :: "bool \<Rightarrow> operand \<Rightarrow> operand \<Rightarrow> unit exec" where
  "exec_vbroadcastss L dst src =
     bindE (readXMMOp src) (\<lambda>(slo, _).
     let (r0, r1, r2, r3) = sseVbroadcastss (ucast slo) L in
     if L then writeYMMOp dst (r0, r1, r2, r3) else writeXMMOp dst r0 r1 True)"

definition exec_vbroadcastsd :: "bool \<Rightarrow> operand \<Rightarrow> operand \<Rightarrow> unit exec" where
  "exec_vbroadcastsd L dst src =
     bindE (readXMMOp src) (\<lambda>(slo, _).
     let (r0, r1, r2, r3) = sseVbroadcastsd slo in
     if L then writeYMMOp dst (r0, r1, r2, r3) else writeXMMOp dst r0 r1 True)"

definition exec_vperm2f128 :: "u8 \<Rightarrow> operand \<Rightarrow> nat \<Rightarrow> operand \<Rightarrow> unit exec" where
  "exec_vperm2f128 imm dst src1Reg src2 =
     bindE (regs (readYMM src1Reg)) (\<lambda>d. bindE (readYMMOp src2) (\<lambda>s. writeYMMOp dst (sseVperm2f128 d s imm)))"

definition exec_vinsertf128 :: "u8 \<Rightarrow> operand \<Rightarrow> nat \<Rightarrow> operand \<Rightarrow> unit exec" where
  "exec_vinsertf128 imm dst src1Reg src2 =
     bindE (regs (readYMM src1Reg)) (\<lambda>d. bindE (readXMMOp src2) (\<lambda>(s0, s1). writeYMMOp dst (sseVinsertf128 d s0 s1 imm)))"

definition exec_vextractf128 :: "u8 \<Rightarrow> operand \<Rightarrow> operand \<Rightarrow> unit exec" where
  "exec_vextractf128 imm dst src =
     bindE (readYMMOp src) (\<lambda>d. let (rlo, rhi) = sseVextractf128 d imm in writeXMMOp dst rlo rhi True)"

definition exec_vinsertps :: "u8 \<Rightarrow> operand \<Rightarrow> nat \<Rightarrow> operand \<Rightarrow> unit exec" where
  "exec_vinsertps imm dst src1Reg src2 =
     bindE (readXMMOp src2) (\<lambda>(slo, _). bindE (regs (readXMM src1Reg)) (\<lambda>(d1lo, d1hi).
     bindE (insertps_src src2 imm slo) (\<lambda>srcF.
     let (rlo, rhi) = sseInsertps d1lo d1hi srcF imm in writeXMMOp dst rlo rhi True)))"

end
