(* ===== verification/Sse_Decode.thy ===== *)
theory Sse_Decode
  imports Sse_Insn
begin

unbundle bit_operations_syntax

text \<open>
  The vector decoders of \<open>internal/cpu/twobyte.go\<close>: \<open>decodeSSE0F\<close> (0F), \<open>decodeThreeByte38\<close>,
  \<open>decodeThreeByte3A\<close> and \<open>decodeVexInsn\<close>. The cases of each \<open>switch\<close> are split by opcode range;
  cases that differ in the operation only are rows of a table. \<open>sse_ext\<close> puts them in the place the
  decoder of \<open>Decode\<close> leaves for them.
\<close>

section \<open>Operands\<close>

text \<open>\<open>operand{kind: opndReg, reg: n}\<close>, a vector register.\<close>

definition vecOperand :: "nat \<Rightarrow> operand" where
  "vecOperand n = zero_operand\<lparr>o_kind := opndReg, o_reg := n\<rparr>"

definition decodeMR2 :: "pfx \<Rightarrow> (operand \<Rightarrow> operand \<Rightarrow> 'a dec) \<Rightarrow> 'a dec" where
  "decodeMR2 p f = bindE (modrm p) (\<lambda>mr. f (vecOperand (mr_regField mr)) (applySeg p (mr_rm mr)))"

text \<open>A case that decodes ModRM, and perhaps an immediate, and finishes with a closure.\<close>

definition mr2 :: "pfx \<Rightarrow> (operand \<Rightarrow> operand \<Rightarrow> unit exec) \<Rightarrow> bool exec dec" where
  "mr2 p f = decodeMR2 p (\<lambda>reg rm. ret (no_branch (f reg rm)))"

definition mr2_imm :: "pfx \<Rightarrow> (operand \<Rightarrow> operand \<Rightarrow> u8 \<Rightarrow> unit exec) \<Rightarrow> bool exec dec" where
  "mr2_imm p f = decodeMR2 p (\<lambda>reg rm. bindE fetch_u8 (\<lambda>imm. ret (no_branch (f reg rm imm))))"

text \<open>\<open>w := 4; if rexW { w = 8 }\<close>.\<close>

definition gpr_w :: "pfx \<Rightarrow> nat" where
  "gpr_w p = (if p_rexW p then 8 else 4)"

definition unsupported :: "nat \<Rightarrow> u8 \<Rightarrow> bool exec dec" where
  "unsupported m op2 = fail (UnsupportedSSE m op2)"

text \<open>\<open>if !sseInt { break }\<close>: without the 0x66 prefix the case is left before ModRM is read.\<close>

definition sse_int :: "pfx \<Rightarrow> u8 \<Rightarrow> bool exec dec \<Rightarrow> bool exec dec" where
  "sse_int p op2 d = (if isPD p then d else unsupported 1 op2)"

section \<open>0F: moves\<close>

definition sse_10_17 :: "pfx \<Rightarrow> u8 \<Rightarrow> bool exec dec" where
  "sse_10_17 p op2 =
     (if op2 = 0x10 then mr2 p (\<lambda>dst src. exec_movs_load p dst src)
      else if op2 = 0x11 then mr2 p (\<lambda>src dst. exec_movs_store p dst src)
      else if op2 = 0x12 then mr2 p (\<lambda>dst src. exec_movlp_load dst src)
      else if op2 = 0x13 then mr2 p (\<lambda>src dst. exec_movlp_store dst src)
      else if op2 = 0x14 then mr2 p (\<lambda>dst src. exec_unpck (unpckl p) dst src)
      else if op2 = 0x15 then mr2 p (\<lambda>dst src. exec_unpck (unpckh p) dst src)
      else if op2 = 0x16 then mr2 p (\<lambda>dst src. exec_movhp_load dst src)
      else mr2 p (\<lambda>src dst. exec_movhp_store dst src))"

definition sse_28_2F :: "pfx \<Rightarrow> u8 \<Rightarrow> bool exec dec" where
  "sse_28_2F p op2 =
     (if op2 = 0x28 then mr2 p (\<lambda>dst src. execXMM dst src False copy_op)
      else if op2 = 0x29 \<or> op2 = 0x2B then mr2 p (\<lambda>src dst. execXMM dst src False copy_op)
      else if op2 = 0x2A then mr2 p (\<lambda>dst src. exec_cvtsi2 p (gpr_w p) dst src)
      else if op2 = 0x2C then mr2 p (\<lambda>dst src. exec_cvt2si p (gpr_w p) sseCvttss2si sseCvttsd2si dst src)
      else if op2 = 0x2D then mr2 p (\<lambda>dst src. exec_cvt2si p (gpr_w p) sseCvtss2si sseCvtsd2si dst src)
      else mr2 p (\<lambda>dst src. exec_comi p dst src))"

section \<open>0F: float arithmetic\<close>

definition sse_50_57 :: "pfx \<Rightarrow> u8 \<Rightarrow> bool exec dec" where
  "sse_50_57 p op2 =
     (if op2 = 0x50 then mr2 p (\<lambda>dst src. exec_mask (if isPD p then sseMovmskpd else sseMovmskps) dst src)
      else if op2 = 0x51 then mr2 p (\<lambda>dst src. src_dst dst src (by_prefix p
        (\<lambda>dlo dhi slo shi. sseSqrtss dlo dhi slo) (\<lambda>dlo dhi slo shi. sseSqrtsd slo dhi 0)
        (\<lambda>dlo dhi slo shi. sseSqrtpd slo shi) (\<lambda>dlo dhi slo shi. sseSqrtps slo shi)))
      else if op2 = 0x52 then mr2 p (\<lambda>dst src. src_dst dst src (if isSS p
        then (\<lambda>dlo dhi slo shi. sseRsqrtss dlo dhi slo) else (\<lambda>dlo dhi slo shi. sseRsqrtps slo shi)))
      else if op2 = 0x53 then mr2 p (\<lambda>dst src. src_dst dst src (if isSS p
        then (\<lambda>dlo dhi slo shi. sseRcpss dlo dhi slo) else (\<lambda>dlo dhi slo shi. sseRcpps slo shi)))
      else mr2 p (\<lambda>dst src. execXMM dst src False
        (if op2 = 0x54 then sseAndps else if op2 = 0x55 then sseAndnps else if op2 = 0x56 then sseOrps else sseXorps)))"

text \<open>The operation of the four-way arithmetic opcodes, chosen by the prefix.\<close>

definition arith_58_5A :: "pfx \<Rightarrow> u8 \<Rightarrow> xmm_op" where
  "arith_58_5A p op2 =
     (if op2 = 0x58 then by_prefix p sseAddss sseAddsd sseAddpd sseAddps
      else if op2 = 0x59 then by_prefix p sseMulss sseMulsd sseMulpd sseMulps
      else by_prefix p sseCvtss2sd sseCvtsd2ss (\<lambda>dlo dhi slo shi. sseCvtpd2ps slo shi)
             (\<lambda>dlo dhi slo shi. sseCvtps2pd slo shi))"

definition arith_5C_5F :: "pfx \<Rightarrow> u8 \<Rightarrow> xmm_op" where
  "arith_5C_5F p op2 =
     (if op2 = 0x5C then by_prefix p sseSubss sseSubsd sseSubpd sseSubps
      else if op2 = 0x5D then by_prefix p sseMinss sseMinsd sseMinpd sseMinps
      else if op2 = 0x5E then by_prefix p sseDivss sseDivsd sseDivpd sseDivps
      else by_prefix p sseMaxss sseMaxsd sseMaxpd sseMaxps)"

definition cvt_5B :: "pfx \<Rightarrow> u64 \<Rightarrow> u64 \<Rightarrow> xmm" where
  "cvt_5B p slo shi = (if isSS p then sseCvttps2dq slo shi else if isPD p then sseCvtps2dq slo shi else sseCvtdq2ps slo shi)"

definition sse_58_5F :: "pfx \<Rightarrow> u8 \<Rightarrow> bool exec dec" where
  "sse_58_5F p op2 =
     (if op2 = 0x5B then mr2 p (\<lambda>dst src. exec_unary False (cvt_5B p) dst src)
      else mr2 p (\<lambda>dst src. src_dst dst src (if op2 \<le> 0x5A then arith_58_5A p op2 else arith_5C_5F p op2)))"

section \<open>0F: packed integer operations\<close>

definition int_60_67 :: "u8 \<Rightarrow> xmm_op" where
  "int_60_67 op2 =
     (if op2 = 0x60 then ssePunpcklbw else if op2 = 0x61 then ssePunpcklwd else if op2 = 0x62 then ssePunpckldq
      else if op2 = 0x63 then ssePacksswb else if op2 = 0x64 then ssePcmpgtb else if op2 = 0x65 then ssePcmpgtw
      else if op2 = 0x66 then ssePcmpgtd else ssePackuswb)"

definition int_68_6D :: "u8 \<Rightarrow> xmm_op" where
  "int_68_6D op2 =
     (if op2 = 0x68 then ssePunpckhbw else if op2 = 0x69 then ssePunpckhwd else if op2 = 0x6A then ssePunpckhdq
      else if op2 = 0x6B then ssePackssdw else if op2 = 0x6C then ssePunpcklqdq else ssePunpckhqdq)"

definition int_74_76 :: "u8 \<Rightarrow> xmm_op" where
  "int_74_76 op2 = (if op2 = 0x74 then ssePcmpeqb else if op2 = 0x75 then ssePcmpeqw else ssePcmpeqd)"

definition int_D4_DD :: "u8 \<Rightarrow> xmm_op" where
  "int_D4_DD op2 =
     (if op2 = 0xD4 then ssePaddq else if op2 = 0xD5 then ssePmullw else if op2 = 0xD8 then ssePsubusb
      else if op2 = 0xD9 then ssePsubusw else if op2 = 0xDA then ssePminub else if op2 = 0xDB then ssePand
      else if op2 = 0xDC then ssePaddusb else ssePaddusw)"

definition int_DE_E5 :: "u8 \<Rightarrow> xmm_op" where
  "int_DE_E5 op2 =
     (if op2 = 0xDE then ssePmaxub else if op2 = 0xDF then ssePandn else if op2 = 0xE0 then ssePavgb
      else if op2 = 0xE3 then ssePavgw else if op2 = 0xE4 then ssePmulhuw else ssePmulhw)"

definition int_E8_EF :: "u8 \<Rightarrow> xmm_op" where
  "int_E8_EF op2 =
     (if op2 = 0xE8 then ssePsubsb else if op2 = 0xE9 then ssePsubsw else if op2 = 0xEA then ssePminsw
      else if op2 = 0xEB then ssePor else if op2 = 0xEC then ssePaddsb else if op2 = 0xED then ssePaddsw
      else if op2 = 0xEE then ssePmaxsw else ssePxor)"

definition int_F4_FE :: "u8 \<Rightarrow> xmm_op" where
  "int_F4_FE op2 =
     (if op2 = 0xF4 then ssePmuludq else if op2 = 0xF5 then ssePmaddwd else if op2 = 0xF6 then ssePsadbw
      else if op2 = 0xF8 then ssePsubb else if op2 = 0xF9 then ssePsubw else if op2 = 0xFA then ssePsubd
      else if op2 = 0xFB then ssePsubq else if op2 = 0xFC then ssePaddb else if op2 = 0xFD then ssePaddw else ssePaddd)"

definition int_case :: "pfx \<Rightarrow> u8 \<Rightarrow> xmm_op \<Rightarrow> bool exec dec" where
  "int_case p op2 f = sse_int p op2 (mr2 p (\<lambda>dst src. execXMM dst src False f))"

text \<open>The shifts by a register: the count is the low byte of the source.\<close>

definition shift_D1_D3 :: "u8 \<Rightarrow> u64 \<Rightarrow> u64 \<Rightarrow> u64 \<Rightarrow> xmm" where
  "shift_D1_D3 op2 = (if op2 = 0xD1 then ssePsrlw else if op2 = 0xD2 then ssePsrld else ssePsrlq)"

definition shift_E1_E2 :: "u8 \<Rightarrow> u64 \<Rightarrow> u64 \<Rightarrow> u64 \<Rightarrow> xmm" where
  "shift_E1_E2 op2 = (if op2 = 0xE1 then ssePsraw else ssePsrad)"

definition shift_F1_F3 :: "u8 \<Rightarrow> u64 \<Rightarrow> u64 \<Rightarrow> u64 \<Rightarrow> xmm" where
  "shift_F1_F3 op2 = (if op2 = 0xF1 then ssePsllw else if op2 = 0xF2 then ssePslld else ssePsllq)"

definition shift_case :: "pfx \<Rightarrow> u8 \<Rightarrow> (u64 \<Rightarrow> u64 \<Rightarrow> u64 \<Rightarrow> xmm) \<Rightarrow> bool exec dec" where
  "shift_case p op2 f =
     sse_int p op2 (mr2 p (\<lambda>dst src. src_dst dst src (\<lambda>dlo dhi slo shi. f dlo dhi (slo AND 0xFF))))"

text \<open>Groups 12 to 14: the operand is the register of the rm field whatever its mode.\<close>

definition shift_imm_case :: "pfx \<Rightarrow> u8 \<Rightarrow> (nat \<Rightarrow> u8 \<Rightarrow> u64 \<Rightarrow> u64 \<Rightarrow> cpu_error + xmm) \<Rightarrow> bool exec dec" where
  "shift_imm_case p op2 grp =
     sse_int p op2 (bindE (modrm p) (\<lambda>mr. bindE fetch_u8 (\<lambda>imm.
       ret (no_branch (exec_shift_imm (grp (mr_regField mr mod 8) imm) (vecOperand (o_reg (mr_rm mr))))))))"

definition sse_6E_76 :: "pfx \<Rightarrow> u8 \<Rightarrow> bool exec dec" where
  "sse_6E_76 p op2 =
     (if op2 = 0x6E then sse_int p op2 (mr2 p (\<lambda>dst src. exec_movd_load (gpr_w p) False dst src))
      else if op2 = 0x6F then
        (if \<not> isPD p \<and> \<not> isSS p then unsupported 1 op2 else mr2 p (\<lambda>dst src. execXMM dst src False copy_op))
      else if op2 = 0x70 then mr2_imm p (\<lambda>dst src imm. exec_unary False (\<lambda>slo shi.
        if isSS p then ssePshufhw slo shi imm else if isSD p then ssePshuflw slo shi imm else ssePshufd slo shi imm) dst src)
      else if op2 = 0x71 then shift_imm_case p op2 shift_grp12
      else if op2 = 0x72 then shift_imm_case p op2 shift_grp13
      else if op2 = 0x73 then shift_imm_case p op2 shift_grp14
      else int_case p op2 (int_74_76 op2))"

definition sse_7C_7F :: "pfx \<Rightarrow> u8 \<Rightarrow> bool exec dec" where
  "sse_7C_7F p op2 =
     (if op2 = 0x7C then mr2 p (\<lambda>dst src. src_dst dst src (if isPD p then sseHaddpd else sseHaddps))
      else if op2 = 0x7E then
        (if isSS p then mr2 p (\<lambda>dst src. exec_movq_load False dst src)
         else sse_int p op2 (mr2 p (\<lambda>src dst. exec_movd_store (gpr_w p) dst src)))
      else if \<not> isPD p \<and> \<not> isSS p then unsupported 1 op2
      else mr2 p (\<lambda>src dst. execXMM dst src False copy_op))"

section \<open>0F: the rest\<close>

definition cmp_C2 :: "pfx \<Rightarrow> u8 \<Rightarrow> xmm_op" where
  "cmp_C2 p imm dlo dhi slo shi = by_prefix p (sseCmpss dlo dhi slo shi imm) (sseCmpsd dlo dhi slo shi imm)
     (sseCmppd dlo dhi slo shi imm) (sseCmpps dlo dhi slo shi imm)"

definition shuf_C6 :: "pfx \<Rightarrow> u8 \<Rightarrow> xmm_op" where
  "shuf_C6 p imm dlo dhi slo shi =
     (if isPD p then sseShufpd dlo dhi slo shi imm else sseShufps dlo dhi slo shi imm)"

definition sse_AE_C6 :: "pfx \<Rightarrow> u8 \<Rightarrow> bool exec dec" where
  "sse_AE_C6 p op2 =
     (if op2 = 0xAE then bindE (modrm p) (\<lambda>mr.
        ret (no_branch (exec_grp15 (mr_regField mr mod 8) (applySeg p (mr_rm mr)))))
      else if op2 = 0xC2 then mr2_imm p (\<lambda>dst src imm. src_dst dst src (cmp_C2 p imm))
      else if op2 = 0xC4 then sse_int p op2 (mr2_imm p (\<lambda>dst src imm.
        exec_pinsr 2 (\<lambda>dlo dhi v. ssePinsrw dlo dhi (ucast v) imm) dst src))
      else if op2 = 0xC5 then sse_int p op2 (mr2_imm p (\<lambda>dst src imm.
        exec_pextr 4 (\<lambda>slo shi. ucast (ssePextrw slo shi imm)) dst src))
      else mr2_imm p (\<lambda>dst src imm. src_dst dst src (shuf_C6 p imm)))"

definition cvt_E6 :: "pfx \<Rightarrow> u64 \<Rightarrow> u64 \<Rightarrow> xmm" where
  "cvt_E6 p slo shi = (if isSS p then sseCvtdq2pd slo shi else if isSD p then sseCvtpd2dq slo shi else sseCvttpd2dq slo shi)"

definition sse_D1_FE :: "pfx \<Rightarrow> u8 \<Rightarrow> bool exec dec" where
  "sse_D1_FE p op2 =
     (if op2 \<in> {0xD1, 0xD2, 0xD3} then shift_case p op2 (shift_D1_D3 op2)
      else if op2 = 0xD6 then sse_int p op2 (mr2 p (\<lambda>src dst. exec_movq_store dst src))
      else if op2 = 0xD7 then sse_int p op2 (mr2 p (\<lambda>dst src. exec_mask ssePmovmskb dst src))
      else if op2 \<in> {0xD4, 0xD5, 0xD8, 0xD9, 0xDA, 0xDB, 0xDC, 0xDD} then int_case p op2 (int_D4_DD op2)
      else if op2 \<in> {0xE1, 0xE2} then shift_case p op2 (shift_E1_E2 op2)
      else if op2 \<in> {0xDE, 0xDF, 0xE0, 0xE3, 0xE4, 0xE5} then int_case p op2 (int_DE_E5 op2)
      else if op2 = 0xE6 then mr2 p (\<lambda>dst src. exec_unary False (cvt_E6 p) dst src)
      else if op2 = 0xE7 then sse_int p op2 (mr2 p (\<lambda>src dst. exec_movntdq dst src))
      else if op2 \<in> {0xE8, 0xE9, 0xEA, 0xEB, 0xEC, 0xED, 0xEE, 0xEF} then int_case p op2 (int_E8_EF op2)
      else if op2 \<in> {0xF1, 0xF2, 0xF3} then shift_case p op2 (shift_F1_F3 op2)
      else if op2 \<in> {0xF4, 0xF5, 0xF6, 0xF8, 0xF9, 0xFA, 0xFB, 0xFC, 0xFD, 0xFE} then int_case p op2 (int_F4_FE op2)
      else unsupported 1 op2)"

definition decodeSSE0F :: "u8 \<Rightarrow> pfx \<Rightarrow> bool exec dec" where
  "decodeSSE0F op2 p =
     (if 0x10 \<le> op2 \<and> op2 \<le> 0x17 then sse_10_17 p op2
      else if 0x28 \<le> op2 \<and> op2 \<le> 0x2F then sse_28_2F p op2
      else if 0x50 \<le> op2 \<and> op2 \<le> 0x57 then sse_50_57 p op2
      else if 0x58 \<le> op2 \<and> op2 \<le> 0x5F then sse_58_5F p op2
      else if 0x60 \<le> op2 \<and> op2 \<le> 0x67 then int_case p op2 (int_60_67 op2)
      else if 0x68 \<le> op2 \<and> op2 \<le> 0x6D then int_case p op2 (int_68_6D op2)
      else if 0x6E \<le> op2 \<and> op2 \<le> 0x76 then sse_6E_76 p op2
      else if op2 \<in> {0x7C, 0x7E, 0x7F} then sse_7C_7F p op2
      else if op2 \<in> {0xAE, 0xC2, 0xC4, 0xC5, 0xC6} then sse_AE_C6 p op2
      else sse_D1_FE p op2)"

section \<open>0F 38 and 0F 3A\<close>

definition int_38 :: "u8 \<Rightarrow> xmm_op option" where
  "int_38 op3 =
     (if op3 = 0x28 then Some ssePmuldq else if op3 = 0x29 then Some ssePcmpeqq else if op3 = 0x37 then Some ssePcmpgtq
      else if op3 = 0x38 then Some ssePminsb else if op3 = 0x39 then Some ssePminsd else if op3 = 0x3A then Some ssePminuw
      else if op3 = 0x3B then Some ssePminud else if op3 = 0x3C then Some ssePmaxsb else if op3 = 0x3D then Some ssePmaxsd
      else if op3 = 0x3E then Some ssePmaxuw else if op3 = 0x3F then Some ssePmaxud else if op3 = 0x40 then Some ssePmulld
      else None)"

definition dispatch_38 :: "pfx \<Rightarrow> u8 \<Rightarrow> bool exec dec" where
  "dispatch_38 p op3 =
     (if op3 = 0x00 then mr2 p (\<lambda>dst src. src_dst dst src ssePshufb)
      else if op3 = 0x04 then mr2 p (\<lambda>dst src. src_dst dst src pmaddubsw)
      else if op3 = 0x17 then mr2 p (\<lambda>dst src. exec_ptest dst src)
      else case int_38 op3 of
        Some f \<Rightarrow> mr2 p (\<lambda>dst src. execXMM dst src False f)
      | None \<Rightarrow> unsupported 2 op3)"

definition decodeThreeByte38 :: "pfx \<Rightarrow> bool exec dec" where
  "decodeThreeByte38 p = bindE fetch_u8 (dispatch_38 p)"

definition round_3A :: "pfx \<Rightarrow> u8 \<Rightarrow> bool exec dec" where
  "round_3A p op3 =
     (if op3 = 0x08 then mr2_imm p (\<lambda>dst src imm. exec_unary False (\<lambda>slo shi. sseRoundps slo shi imm) dst src)
      else if op3 = 0x09 then mr2_imm p (\<lambda>dst src imm. exec_unary False (\<lambda>slo shi. sseRoundpd slo shi imm) dst src)
      else if op3 = 0x0A then mr2_imm p (\<lambda>dst src imm. src_dst dst src (\<lambda>dlo dhi slo shi. sseRoundss slo dhi imm))
      else mr2_imm p (\<lambda>dst src imm. src_dst dst src (\<lambda>dlo dhi slo shi. sseRoundsd slo dhi imm)))"

definition lanes_3A :: "pfx \<Rightarrow> u8 \<Rightarrow> bool exec dec" where
  "lanes_3A p op3 =
     (if op3 = 0x14 then mr2_imm p (\<lambda>src dst imm. exec_pextr 4 (\<lambda>slo shi. ucast (ssePextrb slo shi imm)) dst src)
      else if op3 = 0x15 then mr2_imm p (\<lambda>src dst imm. exec_pextr 4 (\<lambda>slo shi. ucast (ssePextrw slo shi imm)) dst src)
      else if op3 = 0x16 then mr2_imm p (\<lambda>src dst imm. exec_pextr (gpr_w p) (pextr_dq (gpr_w p) imm) dst src)
      else if op3 = 0x20 then mr2_imm p (\<lambda>dst src imm. exec_pinsr 4 (\<lambda>dlo dhi v. ssePinsrb dlo dhi (ucast v) imm) dst src)
      else if op3 = 0x21 then mr2_imm p (\<lambda>dst src imm. exec_insertps imm dst src)
      else mr2_imm p (\<lambda>dst src imm. exec_pinsr (gpr_w p) (pinsr_dq (gpr_w p) imm) dst src))"

definition dispatch_3A :: "pfx \<Rightarrow> u8 \<Rightarrow> bool exec dec" where
  "dispatch_3A p op3 =
     (if op3 \<in> {0x08, 0x09, 0x0A, 0x0B} then round_3A p op3
      else if op3 = 0x0F then mr2_imm p (\<lambda>dst src imm. exec_palignr imm dst src)
      else if op3 \<in> {0x14, 0x15, 0x16, 0x20, 0x21, 0x22} then lanes_3A p op3
      else if op3 = 0x40 then mr2_imm p (\<lambda>dst src imm. src_dst dst src (\<lambda>dlo dhi slo shi. sseDpps dlo dhi slo shi imm))
      else if op3 = 0x41 then mr2_imm p (\<lambda>dst src imm. src_dst dst src (\<lambda>dlo dhi slo shi. sseDppd dlo dhi slo shi imm))
      else unsupported 3 op3)"

definition decodeThreeByte3A :: "pfx \<Rightarrow> bool exec dec" where
  "decodeThreeByte3A p = bindE fetch_u8 (dispatch_3A p)"

section \<open>VEX\<close>

text \<open>\<open>decodeMR3\<close>: the destination register, the register of VEX.vvvv and the rm operand.\<close>

definition mr3 :: "pfx \<Rightarrow> nat \<Rightarrow> (operand \<Rightarrow> nat \<Rightarrow> operand \<Rightarrow> unit exec) \<Rightarrow> bool exec dec" where
  "mr3 p vvvv f = decodeMR2 p (\<lambda>reg rm. ret (no_branch (f reg vvvv rm)))"

definition mr3_imm :: "pfx \<Rightarrow> nat \<Rightarrow> (operand \<Rightarrow> nat \<Rightarrow> operand \<Rightarrow> u8 \<Rightarrow> unit exec) \<Rightarrow> bool exec dec" where
  "mr3_imm p vvvv f = decodeMR2 p (\<lambda>reg rm. bindE fetch_u8 (\<lambda>imm. ret (no_branch (f reg vvvv rm imm))))"

definition vex_unsupported :: "vexState \<Rightarrow> u8 \<Rightarrow> bool exec dec" where
  "vex_unsupported vx vop = fail (UnsupportedVEX (vx_mapSelect vx) vop)"

definition vex_10_2F :: "pfx \<Rightarrow> vexState \<Rightarrow> u8 \<Rightarrow> bool exec dec" where
  "vex_10_2F p vx vop = (let L = vx_L vx; w = opWidth p False in
     if vop = 0x10 \<or> vop = 0x28 then mr2 p (\<lambda>dst src. exec_vmov L dst src)
     else if vop = 0x11 \<or> vop = 0x29 then mr2 p (\<lambda>src dst. exec_vmov L dst src)
     else if vop = 0x2A then mr3 p (vx_vvvv vx) (\<lambda>dst vvvv src2. exec_vcvtsi2 p w vvvv dst src2)
     else if vop = 0x2C then mr2 p (\<lambda>dst src. exec_cvt2si p w sseCvttss2si sseCvttsd2si dst src)
     else if vop = 0x2D then mr2 p (\<lambda>dst src. exec_cvt2si p w sseCvtss2si sseCvtsd2si dst src)
     else if vop = 0x2E \<or> vop = 0x2F then mr2 p (\<lambda>dst src. exec_comi p dst src)
     else vex_unsupported vx vop)"

definition vex_logic :: "u8 \<Rightarrow> xmm_op" where
  "vex_logic vop = (if vop = 0x54 then sseAndps else if vop = 0x55 then sseAndnps else if vop = 0x56 then sseOrps else sseXorps)"

text \<open>The four operations VMUL, VSUB, VMIN, VDIV and VMAX pass to \<open>vexBinop\<close>.\<close>

definition vex_arith :: "u8 \<Rightarrow> xmm_op \<times> xmm_op \<times> xmm_op \<times> xmm_op" where
  "vex_arith vop =
     (if vop = 0x59 then (sseMulss, sseMulsd, sseMulpd, sseMulps)
      else if vop = 0x5C then (sseSubss, sseSubsd, sseSubpd, sseSubps)
      else if vop = 0x5D then (sseMinss, sseMinsd, sseMinpd, sseMinps)
      else if vop = 0x5E then (sseDivss, sseDivsd, sseDivpd, sseDivps)
      else (sseMaxss, sseMaxsd, sseMaxpd, sseMaxps))"

definition vex_51_5F :: "pfx \<Rightarrow> vexState \<Rightarrow> u8 \<Rightarrow> bool exec dec" where
  "vex_51_5F p vx vop = (let L = vx_L vx; vvvv = vx_vvvv vx in
     if vop = 0x51 then mr2 p (\<lambda>dst src. exec_vsqrt p L dst src)
     else if vop \<in> {0x54, 0x55, 0x56, 0x57} then mr3 p vvvv (\<lambda>dst src1 src2.
       if L then execYMM3 dst src1 src2 (ymm_halves (vex_logic vop)) else execXMM3 dst src1 src2 True (vex_logic vop))
     else if vop = 0x58 then mr3 p vvvv (\<lambda>dst src1 src2. exec_vadd p L dst src1 src2)
     else if vop = 0x5A then mr3 p vvvv (\<lambda>dst src1 src2. src2_src1 dst src1 src2 (\<lambda>a b c d. ret (vcvt_5A p a b c d)))
     else if vop \<in> {0x59, 0x5C, 0x5D, 0x5E, 0x5F} then mr3 p vvvv (\<lambda>dst src1 src2.
       case vex_arith vop of (fss, fsd, fpd, fps) \<Rightarrow> vexBinop dst src1 src2 p L True fss fsd fpd fps)
     else vex_unsupported vx vop)"

definition vex_6E_7F :: "pfx \<Rightarrow> vexState \<Rightarrow> u8 \<Rightarrow> bool exec dec" where
  "vex_6E_7F p vx vop =
     (if vop = 0x6E then mr2 p (\<lambda>dst src. exec_movd_load (gpr_w p) True dst src)
      else if vop = 0x6F then mr2 p (\<lambda>dst src. exec_vmov (vx_L vx) dst src)
      else if vop = 0x70 then mr2_imm p (\<lambda>dst src imm. exec_unary True (\<lambda>slo shi.
        if isSS p then ssePshufhw slo shi imm else if isSD p then ssePshuflw slo shi imm else ssePshufd slo shi imm) dst src)
      else if vop = 0x7E then
        (if isSS p then mr2 p (\<lambda>dst src. exec_movq_load True dst src)
         else mr2 p (\<lambda>src dst. exec_movd_store (gpr_w p) dst src))
      else if vop = 0x7F then mr2 p (\<lambda>src dst. exec_vmov (vx_L vx) dst src)
      else vex_unsupported vx vop)"

definition vex_int :: "u8 \<Rightarrow> xmm_op option" where
  "vex_int vop =
     (if vop = 0xD4 then Some ssePaddq else if vop = 0xDB then Some ssePand else if vop = 0xDF then Some ssePandn
      else if vop = 0xEB then Some ssePor else if vop = 0xEF then Some ssePxor else if vop = 0xF8 then Some ssePsubb
      else if vop = 0xF9 then Some ssePsubw else if vop = 0xFA then Some ssePsubd else if vop = 0xFB then Some ssePsubq
      else if vop = 0xFC then Some ssePaddb else if vop = 0xFD then Some ssePaddw else if vop = 0xFE then Some ssePaddd
      else None)"

definition vex_map1 :: "pfx \<Rightarrow> vexState \<Rightarrow> u8 \<Rightarrow> bool exec dec" where
  "vex_map1 p vx vop =
     (if vop \<le> 0x2F then vex_10_2F p vx vop
      else if vop \<le> 0x5F then vex_51_5F p vx vop
      else if vop \<le> 0x7F then vex_6E_7F p vx vop
      else case vex_int vop of
        Some f \<Rightarrow> mr3 p (vx_vvvv vx) (\<lambda>dst src1 src2. execXMM3 dst src1 src2 True f)
      | None \<Rightarrow> vex_unsupported vx vop)"

definition vex_map2 :: "pfx \<Rightarrow> vexState \<Rightarrow> u8 \<Rightarrow> bool exec dec" where
  "vex_map2 p vx vop = (let L = vx_L vx; vvvv = vx_vvvv vx in
     if vop = 0x00 then mr3 p vvvv (\<lambda>dst src1 src2. src2_src1 dst src1 src2 (\<lambda>a b c d. ret (ssePshufb a b c d)))
     else if vop = 0x17 then mr2 p (\<lambda>dst src. exec_ptest dst src)
     else if vop = 0x18 then mr2 p (\<lambda>dst src. exec_vbroadcastss L dst src)
     else if vop = 0x19 then mr2 p (\<lambda>dst src. exec_vbroadcastsd L dst src)
     else if vop = 0x28 then mr3 p vvvv (\<lambda>dst src1 src2. execXMM3 dst src1 src2 True ssePmuldq)
     else if vop = 0x29 then mr3 p vvvv (\<lambda>dst src1 src2. execXMM3 dst src1 src2 True ssePcmpeqq)
     else if vop = 0x37 then mr3 p vvvv (\<lambda>dst src1 src2. execXMM3 dst src1 src2 True ssePcmpgtq)
     else if vop = 0x40 then mr3 p vvvv (\<lambda>dst src1 src2. execXMM3 dst src1 src2 True ssePmulld)
     else vex_unsupported vx vop)"

definition vex_map3 :: "pfx \<Rightarrow> vexState \<Rightarrow> u8 \<Rightarrow> bool exec dec" where
  "vex_map3 p vx vop = (let vvvv = vx_vvvv vx; w = gpr_w p in
     if vop = 0x04 then mr2_imm p (\<lambda>dst src imm. exec_unary True (\<lambda>slo shi. ssePshufd slo shi imm) dst src)
     else if vop = 0x06 then mr3_imm p vvvv (\<lambda>dst src1 src2 imm. exec_vperm2f128 imm dst src1 src2)
     else if vop = 0x0F then mr3_imm p vvvv (\<lambda>dst src1 src2 imm.
       src2_src1 dst src1 src2 (\<lambda>a b c d. palignr_result (ssePalignr a b c d imm)))
     else if vop = 0x18 \<or> vop = 0x38 then mr3_imm p vvvv (\<lambda>dst src1 src2 imm. exec_vinsertf128 imm dst src1 src2)
     else if vop = 0x19 \<or> vop = 0x39 then mr2_imm p (\<lambda>src dst imm. exec_vextractf128 imm dst src)
     else if vop = 0x20 then mr3_imm p vvvv (\<lambda>dst src1 src2 imm.
       exec_vpinsr 4 (\<lambda>a b v. ssePinsrb a b (ucast v) imm) dst src1 src2)
     else if vop = 0x21 then mr3_imm p vvvv (\<lambda>dst src1 src2 imm. exec_vinsertps imm dst src1 src2)
     else if vop = 0x22 then mr3_imm p vvvv (\<lambda>dst src1 src2 imm. exec_vpinsr w (pinsr_dq w imm) dst src1 src2)
     else vex_unsupported vx vop)"

definition decodeVexInsn :: "u8 \<Rightarrow> pfx \<Rightarrow> vexState \<Rightarrow> bool exec dec" where
  "decodeVexInsn vop p vx =
     (if vx_mapSelect vx = 1 then vex_map1 p vx vop
      else if vx_mapSelect vx = 2 then vex_map2 p vx vop
      else if vx_mapSelect vx = 3 then vex_map3 p vx vop
      else vex_unsupported vx vop)"

definition sse_ext :: ext_decoders where
  "sse_ext = \<lparr>x_sse = decodeSSE0F, x_38 = decodeThreeByte38, x_3A = decodeThreeByte3A, x_vex = decodeVexInsn\<rparr>"

end
