(* ===== verification/Rip_Laws.thy ===== *)
theory Rip_Laws
  imports Insn_Laws
begin

unbundle bit_operations_syntax

text \<open>
  The instruction pointer: no closure of an instruction writes RIP, to its end or to a fault, unless it
  reports a branch. The rules follow the way instruction bodies are composed.
\<close>

section \<open>Steps that leave RIP alone\<close>

named_theorems stays_intros \<open>composition rules for \<open>stays\<close>\<close>

lemma staysI: "(\<And>c. r_rip (c_regs (snd (f c))) = r_rip (c_regs c)) \<Longrightarrow> stays f"
  by (simp add: stays_def)

lemma staysD: "stays f \<Longrightarrow> f c = (r, c') \<Longrightarrow> r_rip (c_regs c') = r_rip (c_regs c)"
  unfolding stays_def by (metis snd_conv)

lemma stays_basic [stays_intros]:
  "stays (ret a)" "stays (fail e)" "stays (getS g)" "stays (regs h)" "stays (on_mem m)"
  by (simp_all add: stays_def on_mem_apply)

lemma stays_regs [stays_intros]:
  "(\<And>r. r_rip (k r) = r_rip r) \<Longrightarrow> stays (on_regs k)" "(\<And>r. r_rip (snd (fl r)) = r_rip r) \<Longrightarrow> stays (with_flags fl)"
  by (simp_all add: stays_def with_flags_def split: prod.split) (metis snd_conv)

lemma stays_bindE [stays_intros]:
  assumes "stays m" "\<And>a. stays (f a)"
  shows "stays (bindE m f)"
proof (rule staysI)
  fix c :: cpu
  obtain r c1 where r: "bindE m f c = (r, c1)" by fastforce
  then show "r_rip (c_regs (snd (bindE m f c))) = r_rip (c_regs c)"
    by (cases rule: bindE_cases) (simp_all add: r staysD [OF assms(1)] staysD [OF assms(2)])
qed

lemma stays_control [stays_intros]:
  "(b \<Longrightarrow> stays f) \<Longrightarrow> (\<not> b \<Longrightarrow> stays g) \<Longrightarrow> stays (if b then f else g)"
  "stays (h v) \<Longrightarrow> stays (Let v h)"
  "(\<And>x y. stays (k x y)) \<Longrightarrow> stays (case p of (x, y) \<Rightarrow> k x y)"
  by (simp_all split: prod.split)

text \<open>The register updates of the closures that are made of others.\<close>

lemma rip_frames [simp]:
  "r_rip (writeWidth i w x v r) = r_rip r" "r_rip (write64 i v r) = r_rip r" "r_rip (write32 i v' r) = r_rip r" "r_rip (write16 i v'' r) = r_rip r"
  "r_rip (snd (addWithFlagsCarry a b w c r)) = r_rip r" "r_rip (snd (subWithFlagsBorrow a b w c r)) = r_rip r"
  "r_rip (snd (addWithFlags a b w r)) = r_rip r" "r_rip (snd (subWithFlags a b w r)) = r_rip r" "r_rip (logicFlags a w r) = r_rip r"
  "r_rip (snd (add32Flags s t r)) = r_rip r" "r_rip (snd (inc32Flags s r)) = r_rip r" "r_rip (snd (dec32Flags s r)) = r_rip r"
  "r_rip (snd (incFlags a w r)) = r_rip r" "r_rip (snd (decFlags a w r)) = r_rip r" "r_rip (shiftFlags sop a b w n cf r) = r_rip r"
  by (simp_all add: write64_def write32_def write16_def addWithFlagsCarry_def subWithFlagsBorrow_def addWithFlags_def subWithFlags_def
      logicFlags_def add32Flags_def inc32Flags_def dec32Flags_def incFlags_def decFlags_def shiftFlags_def Let_def split: prod.split shiftOp.split)

lemma x87_rip [simp]:
  "r_rip (x87_set i v r) = r_rip r" "r_rip (x87_pop b r) = r_rip r" "r_rip (x87Push v r) = r_rip r" "r_rip (x87StoreRegister j b r) = r_rip r"
  "r_rip (x87_exchange j r) = r_rip r" "r_rip (x87Add j r) = r_rip r" "r_rip (x87Compare j b r) = r_rip r" "r_rip (x87SubPop j r) = r_rip r"
  by (simp_all add: x87_set_def x87_pop_def x87Push_def x87StoreRegister_def x87_exchange_def x87Add_def x87Compare_def x87SubPop_def Let_def)

section \<open>Routines\<close>

lemma stays_operand [stays_intros]: "stays (readOperand x w)" "stays (writeOperand x w v)" "stays (leaAddr x)"
  unfolding readOperand_def writeOperand_def leaAddr_def by (cases "o_kind x"; auto intro!: stays_intros)+

lemma stays_small [stays_intros]:
  "stays (push64 v)" "stays pop64" "stays (set_CF_OF b)" "stays (add_gpr i d)" "stays (dec_rcx rep)" "stays (rep_stop rep)"
  unfolding push64_def pop64_def set_CF_OF_def add_gpr_def dec_rcx_def rep_stop_def by (intro stays_intros; simp)+

lemma stays_of_result [stays_intros]: "stays (of_result x)"
  unfolding of_result_def by (cases x) (simp_all add: stays_intros)

lemma stays_arithmetic [stays_intros]: "stays (imul2 dst a b w)" "stays (grp3Op idx rm w)" "stays (aluBinOp idx dst src w)"
  unfolding imul2_def grp3Op_def aluBinOp_def by (intro stays_intros; simp)+

lemma stays_rep_loop: "stays body \<Longrightarrow> stays (rep_loop n body)"
  by (induction n) (auto intro!: stays_intros)

lemma stays_rep_run [stays_intros]: "stays body \<Longrightarrow> stays (rep_run rep body)"
  unfolding rep_run_def by (intro stays_intros stays_rep_loop)

lemma stays_strings [stays_intros]:
  "stays (strMovs w rep)" "stays (strStos w rep rex)" "stays (strLods w rep rex)" "stays (strCmps w rep)" "stays (strScas w rep rex)"
  unfolding strMovs_def movs_body_def strStos_def stos_body_def strLods_def lods_body_def strCmps_def cmps_body_def strScas_def scas_body_def
  by (intro stays_intros; simp)+

lemma stays_shiftGrp2 [stays_intros]: "stays (shiftGrp2 idx rm w n)"
  unfolding shiftGrp2_def by (intro stays_intros) (auto intro!: stays_intros split: option.split)

section \<open>Instructions\<close>

lemma stays_no_branch [stays_intros]: "stays f \<Longrightarrow> stays (no_branch f)"
  unfolding no_branch_def by (intro stays_intros)

lemma stays_moves:
  "stays (exec_test x y w)" "stays (exec_test_imm x v w)" "stays (exec_mov x y w)" "stays (exec_xchg x y w)" "stays (exec_pop_reg reg)"
  "stays (exec_add32 reg imm)" "stays (exec_inc32 reg)" "stays (exec_dec32 reg)" "stays (exec_inc x w)" "stays (exec_dec x w)"
  "stays exec_leave" "stays (exec_convert w rex)" "stays (exec_sign_dx w)"
  unfolding exec_test_def exec_test_imm_def exec_mov_def exec_xchg_def exec_pop_reg_def exec_add32_def exec_inc32_def
    exec_dec32_def exec_inc_def exec_dec_def exec_leave_def exec_convert_def exec_sign_dx_def
  by (intro stays_intros; simp)+

lemma stays_shift: "stays (exec_shift idx x w cnt)"
  unfolding exec_shift_def by (intro stays_intros) (cases cnt; auto intro!: stays_intros)

lemma stays_bt: "stays (bt_write bop x w v b)"
  unfolding bt_write_def by (cases bop) (auto intro!: stays_intros)

lemma stays_bits:
  "stays (exec_setcc cc x)" "stays (exec_cmovcc cc y x w)" "stays (exec_movzx y x sw w)" "stays (exec_movsx y x sw w)"
  "stays (exec_imul_rr y x w)" "stays (exec_shld x y w imm)" "stays (exec_shrd x y w imm)" "stays (exec_bt bop x y w)"
  "stays (exec_bt_imm idx x w i8)" "stays (exec_cmpxchg x y w)" "stays (exec_xadd x y w)" "stays (exec_bswap x w)"
  "stays (exec_bsf y x w f3)" "stays (exec_bsr y x w f3)" "stays (exec_popcnt y x w)"
  unfolding exec_setcc_def exec_cmovcc_def exec_movzx_def exec_movsx_def exec_imul_rr_def exec_shld_def exec_shrd_def exec_bt_def
    exec_bt_imm_def exec_cmpxchg_def exec_xadd_def exec_bswap_def exec_bsf_def exec_bsr_def exec_popcnt_def
  by (auto intro!: stays_intros stays_bt simp: shld_flags_def popcnt_flags_def split: option.split)

lemma stays_x87: "stays (exec_x87 i)"
proof -
  have m: "stays (x87_read x n)" "stays (x87_write x bs)" for x n bs
    unfolding x87_read_def x87_write_def by (intro stays_intros)+
  show ?thesis
    by (cases i) (auto simp: exec_x87_def x87Multiply32_def x87LoadControl_def x87StoreControl_def
        x87LoadInteger_def x87StoreInteger_def x87Load_def x87Store_def intro!: stays_intros m)
qed

text \<open>A closure that branches writes RIP as its last step.\<close>

definition quiet :: "bool exec \<Rightarrow> bool" where
  "quiet f \<longleftrightarrow> (\<forall>c. fst (f c) \<noteq> Inr True \<longrightarrow> r_rip (c_regs (snd (f c))) = r_rip (c_regs c))"

lemma quiet_stays: "stays f \<Longrightarrow> quiet f"
  by (simp add: quiet_def stays_def)

lemma quiet_set_rip: "quiet (set_rip v)"
  by (simp add: quiet_def set_rip_def bindE_def)

lemma quiet_bindE:
  assumes "stays m" "\<And>a. quiet (f a)"
  shows "quiet (bindE m f)"
  unfolding quiet_def
proof (intro allI impI)
  fix c :: cpu assume n: "fst (bindE m f c) \<noteq> Inr True"
  obtain r c1 where r: "bindE m f c = (r, c1)" by fastforce
  then show "r_rip (c_regs (snd (bindE m f c))) = r_rip (c_regs c)"
  proof (cases rule: bindE_cases)
    case (err e)
    then show ?thesis using r staysD [OF assms(1)] by simp
  next
    case (ok a c2)
    then show ?thesis using r n staysD [OF assms(1) ok(1)] assms(2) [of a] unfolding quiet_def by (metis fst_conv snd_conv)
  qed
qed

lemma quiet_branches:
  "quiet (exec_call_rm x)" "quiet (exec_call v)" "quiet (exec_jcc cc v)" "quiet (exec_ret_n n)" "quiet (jump_rel v)"
proof -
  show j: "quiet (jump_rel v)" for v unfolding jump_rel_def by (intro quiet_bindE quiet_set_rip stays_intros)
  show "quiet (exec_call_rm x)" "quiet (exec_call v)" "quiet (exec_ret_n n)"
    unfolding exec_call_rm_def exec_call_def exec_ret_n_def by (intro quiet_bindE quiet_set_rip stays_intros)+
  show "quiet (exec_jcc cc v)" unfolding exec_jcc_def using j by (intro quiet_bindE stays_intros) (auto intro: quiet_stays stays_intros)
qed

lemma quiet_exec_insn:
  assumes "\<And>f. i = IExt f \<Longrightarrow> quiet f"
  shows "quiet (exec_insn i)"
proof (cases i)
  case (IExt f)
  then show ?thesis using assms by (simp add: exec_insn_def)
next
  case (IJmpRM x)
  then show ?thesis by (simp add: exec_insn_def) (intro quiet_bindE quiet_set_rip stays_intros)
next
  case IRet
  then show ?thesis by (simp add: exec_insn_def) (intro quiet_bindE quiet_set_rip stays_intros)
qed (auto simp: exec_insn_def intro!: quiet_branches quiet_stays stays_intros stays_moves stays_shift stays_bits stays_x87)

lemma quiet_decoded: "insn_ok i \<Longrightarrow> quiet (exec_insn i)"
  by (rule quiet_exec_insn) (simp add: ext_ok_def quiet_stays)

end
