(* ===== verification/Sse_Ext.thy ===== *)
theory Sse_Ext
  imports Sse_Decode Rip_Laws
begin

unbundle bit_operations_syntax

text \<open>
  The vector decoders keep the contract of \<open>ext_good\<close>: they read code only, and the closures they
  give leave mappings and permissions alone, change only bytes of writable pages and never branch.
  What \<open>Decode_Laws\<close> and the engine theories prove under that contract therefore holds of the
  decoder as the code has it, \<open>decodeOne sse_ext\<close>. A closure that fails leaves the registers as
  they were, so that the instruction can be restarted once its fault is repaired, and no closure
  writes RIP.
\<close>

section \<open>Reading first, writing last\<close>

definition reads :: "'a exec \<Rightarrow> bool" where
  "reads f \<longleftrightarrow> keeps f \<and> (\<forall>c. c_regs (snd (f c)) = c_regs c)"

definition precise :: "'a exec \<Rightarrow> bool" where
  "precise f \<longleftrightarrow> keeps f \<and> stays f \<and> (\<forall>c e. fst (f c) = Inl e \<longrightarrow> c_regs (snd (f c)) = c_regs c)"

named_theorems vec_intros \<open>composition rules for \<open>reads\<close> and \<open>precise\<close>\<close>

lemma on_mem_regs [simp]: "c_regs (snd (on_mem f c)) = c_regs c"
  by (simp add: on_mem_def split: prod.split)

lemma readsD: "reads f \<Longrightarrow> f c = (r, c') \<Longrightarrow> c_regs c' = c_regs c"
  unfolding reads_def by (metis snd_conv)

lemma preciseD: "precise f \<Longrightarrow> f c = (Inl e, c') \<Longrightarrow> c_regs c' = c_regs c"
  unfolding precise_def by (metis fst_conv snd_conv)

lemma readsI: "keeps f \<Longrightarrow> (\<And>c r c'. f c = (r, c') \<Longrightarrow> c_regs c' = c_regs c) \<Longrightarrow> reads f"
  by (simp add: reads_def) (metis prod.collapse)

lemma preciseI: "keeps f \<Longrightarrow> stays f \<Longrightarrow> (\<And>c e c'. f c = (Inl e, c') \<Longrightarrow> c_regs c' = c_regs c) \<Longrightarrow> precise f"
  by (simp add: precise_def) (metis prod.collapse)

lemma vec_keeps: "reads f \<Longrightarrow> keeps f" "precise g \<Longrightarrow> keeps g" "reads f \<Longrightarrow> stays f" "precise g \<Longrightarrow> stays g"
  by (simp_all add: reads_def precise_def stays_def)

lemma reads_bind [vec_intros]:
  assumes "reads m" "\<And>v. reads (f v)"
  shows "reads (bindE m f)"
proof (rule readsI)
  show "keeps (bindE m f)" using assms by (intro keeps_intros vec_keeps)
  show "c_regs c' = c_regs c" if "bindE m f c = (r, c')" for c r c'
    using that by (cases rule: bindE_cases) (metis readsD [OF assms(1)] readsD [OF assms(2)])+
qed

lemma precise_bind [vec_intros]:
  assumes "reads m" "\<And>v. precise (f v)"
  shows "precise (bindE m f)"
proof (rule preciseI)
  show "keeps (bindE m f)" using assms by (intro keeps_intros vec_keeps)
  show "stays (bindE m f)" using assms by (intro stays_intros vec_keeps)
  show "c_regs c' = c_regs c" if "bindE m f c = (Inl e, c')" for c e c'
    using that by (cases rule: bindE_cases) (metis readsD [OF assms(1)] preciseD [OF assms(2)])+
qed

lemma vec_control [vec_intros]:
  "(b \<Longrightarrow> reads f) \<Longrightarrow> (\<not> b \<Longrightarrow> reads g) \<Longrightarrow> reads (if b then f else g)"
  "(b \<Longrightarrow> precise f) \<Longrightarrow> (\<not> b \<Longrightarrow> precise g) \<Longrightarrow> precise (if b then f else g)"
  "reads (h v) \<Longrightarrow> reads (Let v h)" "precise (h v) \<Longrightarrow> precise (Let v h)"
  "(\<And>x y. reads (k x y)) \<Longrightarrow> reads (case p of (x, y) \<Rightarrow> k x y)"
  "(\<And>x y. precise (k x y)) \<Longrightarrow> precise (case p of (x, y) \<Rightarrow> k x y)"
  by (simp_all split: prod.split)

lemma vec_leaves [vec_intros]:
  "reads (ret v)" "reads (fail x)" "precise (ret v)" "precise (fail x)" "reads (regs h)" "reads (getS h')" "(\<And>r. r_rip (g r) = r_rip r) \<Longrightarrow> precise (on_regs g)"
  "reads (on_mem (readChecked a n req))"
  unfolding reads_def precise_def by (simp_all add: keeps_intros stays_intros regs_apply)

lemma precise_write_mem [vec_intros]: "length bs \<le> 18446744073709551616 \<Longrightarrow> precise (on_mem (writeChecked a bs ProtWrite))"
  unfolding precise_def by (simp add: keeps_intros stays_intros)

lemma vec_operand [vec_intros]: "reads (readOperand x w)" "op_width w \<Longrightarrow> precise (writeOperand x w v)"
  unfolding readOperand_def writeOperand_def
  by (cases "o_kind x"; simp; intro vec_intros; simp add: op_width_le [THEN order_trans])+

lemma reads_catch:
  assumes "reads m"
  shows "reads (\<lambda>c. case m c of (Inl _, c') \<Rightarrow> (Inr d, c') | (Inr v, c') \<Rightarrow> (Inr v, c'))"
proof (rule readsI)
  show "keeps (\<lambda>c. case m c of (Inl _, c') \<Rightarrow> (Inr d, c') | (Inr v, c') \<Rightarrow> (Inr v, c'))"
    using vec_keeps(1) [OF assms] unfolding keeps_def by (auto split: prod.split sum.split)
qed (auto dest: readsD [OF assms] split: prod.splits sum.splits)

section \<open>Closures\<close>

lemma vec_rip [simp]:
  "r_rip (writeXMM i lo hi r) = r_rip r" "r_rip (writeXMMVex i lo hi r) = r_rip r" "r_rip (writeYMM i a b c d r) = r_rip r"
  "r_rip (sseComisd a b r) = r_rip r" "r_rip (sseComiss a b r) = r_rip r" "r_rip (ssePtest a b c d r) = r_rip r"
  by (simp_all add: writeXMM_def writeXMMVex_def writeYMM_def sseComisd_def sseComiss_def ssePtest_def comi_flags_def Let_def)

lemma vec_operands [vec_intros]:
  "reads (readXMMOp x)" "reads (readYMMOp x)" "precise (writeXMMOp x lo hi z)" "precise (writeYMMOp x v)"
  "precise (store_low x lo 4)" "precise (store_low x lo 8)" "reads (tryXMMOp x)"
proof -
  show r: "reads (readXMMOp x)" unfolding readXMMOp_def by (intro vec_intros)
  show "reads (readYMMOp x)" unfolding readYMMOp_def by (intro vec_intros)
  show "precise (writeXMMOp x lo hi z)" unfolding writeXMMOp_def by (intro vec_intros; simp)
  show "precise (writeYMMOp x v)" unfolding writeYMMOp_def by (intro vec_intros; simp)
  show "precise (store_low x lo 4)" "precise (store_low x lo 8)" unfolding store_low_def by (intro vec_intros; simp)+
  show "reads (tryXMMOp x)" unfolding tryXMMOp_def by (rule reads_catch [OF r])
qed

lemma vec_exec_helpers [vec_intros]:
  "precise (execXMM d s z f)" "precise (execXMM3 d i s z f)" "precise (execYMM d s g)" "precise (execYMM3 d i s g)"
  "precise (src_dst d s f)" "precise (exec_unary z h d s)" "precise (exec_unpck f d s)"
  unfolding execXMM_def execXMM3_def execYMM_def execYMM3_def src_dst_def exec_unary_def exec_unpck_def
  by (intro vec_intros)+

lemma vec_vexBinop [vec_intros]: "precise (vexBinop d i s p L z f1 f2 f3 f4)"
  unfolding vexBinop_def by (intro vec_intros)

lemma precise_load_half: "(\<And>v d. precise (f v d)) \<Longrightarrow> precise (load_half src f dst)"
  unfolding load_half_def by (intro vec_intros)

lemma vec_moves [vec_intros]:
  "precise (exec_movs_load p d s)" "precise (exec_movs_store p d s)" "precise (exec_movlp_load d s)"
  "precise (exec_movhp_load d s)" "precise (exec_movlp_store d s)" "precise (exec_movhp_store d s)"
  "precise (exec_movd_load w z d s)" "precise (exec_movq_load z d s)" "precise (exec_movq_store d s)"
  "precise (exec_movntdq d s)"
  unfolding exec_movs_load_def exec_movs_store_def exec_movlp_load_def exec_movhp_load_def exec_movlp_store_def
    exec_movhp_store_def exec_movd_load_def exec_movq_load_def exec_movq_store_def exec_movntdq_def
  by (intro vec_intros precise_load_half; simp)+

lemma vec_gpr_results [vec_intros]:
  assumes "op_width w"
  shows "precise (exec_movd_store w d s)" "precise (exec_cvt2si p w f g d s)" "precise (exec_pextr w h d s)"
  unfolding exec_movd_store_def exec_cvt2si_def exec_pextr_def by (intro vec_intros assms)+

lemma vec_of_result [vec_intros]: "reads (of_result r)"
  unfolding of_result_def by (cases r) (simp_all add: vec_intros)

lemma vec_palignr_result [vec_intros]: "reads (palignr_result r)"
  unfolding palignr_result_def by (cases r) (simp_all add: vec_intros)

lemma vec_conversions [vec_intros]:
  "precise (exec_cvtsi2 p w d s)" "precise (exec_comi p d s)" "precise (exec_mask h d s)" "precise (exec_ptest d s)"
  "precise (exec_shift_imm sh d)" "precise (exec_grp15 idx d)" "precise (exec_pinsr w g d s)"
  "reads (insertps_src s imm v)" "precise (exec_palignr imm d s)"
  unfolding exec_cvtsi2_def exec_comi_def exec_mask_def exec_ptest_def exec_shift_imm_def exec_grp15_def
    exec_pinsr_def insertps_src_def exec_palignr_def
  by (intro vec_intros; simp)+

lemma vec_insertps [vec_intros]: "precise (exec_insertps imm d s)" "precise (exec_vinsertps imm d i s)"
  unfolding exec_insertps_def exec_vinsertps_def by (intro vec_intros)+

lemma vec_src2_src1: "(\<And>a b c d. reads (f a b c d)) \<Longrightarrow> precise (src2_src1 x i y f)"
  unfolding src2_src1_def by (intro vec_intros)

lemma vec_vex [vec_intros]:
  "precise (exec_vmov L d s)" "precise (exec_vcvtsi2 p w i d s)" "precise (exec_vsqrt p L d s)" "precise (exec_vadd p L d i s)"
  "precise (exec_vpinsr w g d i s)" "precise (exec_vbroadcastss L d s)" "precise (exec_vbroadcastsd L d s)"
  "precise (exec_vperm2f128 imm d i s)" "precise (exec_vinsertf128 imm d i s)" "precise (exec_vextractf128 imm d s)"
  unfolding exec_vmov_def exec_vcvtsi2_def exec_vsqrt_def exec_vadd_def exec_vpinsr_def exec_vbroadcastss_def
    exec_vbroadcastsd_def exec_vperm2f128_def exec_vinsertf128_def exec_vextractf128_def
  by (intro vec_intros)+

section \<open>Decoders\<close>

definition vec_ok :: "bool exec \<Rightarrow> bool" where
  "vec_ok f \<longleftrightarrow> ext_ok f \<and> precise f"

lemma vec_ok_no_branch:
  assumes "precise f"
  shows "vec_ok (no_branch f)"
proof -
  have k: "keeps (no_branch f)" by (rule keeps_no_branch [OF vec_keeps(2) [OF assms]])
  moreover have "precise (no_branch f)"
    by (rule preciseI [OF k stays_no_branch [OF vec_keeps(4) [OF assms]]]) (auto simp: no_branch_def bindE_def split: prod.splits sum.splits dest: preciseD [OF assms])
  moreover have "fst (no_branch f c) \<noteq> Inr True" for c
    by (auto simp: no_branch_def bindE_def split: prod.split sum.split)
  ultimately show ?thesis using vec_keeps(4) by (simp add: vec_ok_def ext_ok_def)
qed

lemma op_width_gpr_w [simp]: "op_width (gpr_w p)"
  by (simp add: gpr_w_def)

lemma dgood_decodeMR2: "(\<And>reg rm. dgood (f reg rm) P) \<Longrightarrow> dgood (decodeMR2 p f) P"
  unfolding decodeMR2_def by (rule dgood_modrm)

lemma dgood_mr [dec_intros]:
  "(\<And>a b. precise (f a b)) \<Longrightarrow> dgood (mr2 p f) vec_ok"
  "(\<And>a b i. precise (g a b i)) \<Longrightarrow> dgood (mr2_imm p g) vec_ok"
  "(\<And>a b. precise (h a v b)) \<Longrightarrow> dgood (mr3 p v h) vec_ok"
  "(\<And>a b i. precise (k a v b i)) \<Longrightarrow> dgood (mr3_imm p v k) vec_ok"
  unfolding mr2_def mr2_imm_def mr3_def mr3_imm_def
  by (intro dgood_decodeMR2 dec_intros vec_ok_no_branch; simp)+

lemma dgood_cases [dec_intros]:
  "dgood (unsupported m x) P" "dgood (vex_unsupported vx x) P"
  "dgood d vec_ok \<Longrightarrow> dgood (sse_int p x d) vec_ok" "dgood (int_case p x f) vec_ok" "dgood (shift_case p x sh) vec_ok"
  "dgood (shift_imm_case p x grp) vec_ok"
  unfolding unsupported_def vex_unsupported_def sse_int_def int_case_def shift_case_def shift_imm_case_def
  by (intro dgood_modrm dec_intros vec_intros vec_ok_no_branch TrueI; assumption?)+

lemmas sse_intros = dec_intros vec_intros op_width_opWidth

lemma dgood_0F:
  "dgood (sse_10_17 p x) vec_ok" "dgood (sse_28_2F p x) vec_ok" "dgood (sse_50_57 p x) vec_ok" "dgood (sse_58_5F p x) vec_ok"
  "dgood (sse_6E_76 p x) vec_ok" "dgood (sse_7C_7F p x) vec_ok" "dgood (sse_AE_C6 p x) vec_ok" "dgood (sse_D1_FE p x) vec_ok"
  unfolding sse_10_17_def sse_28_2F_def sse_50_57_def sse_58_5F_def sse_6E_76_def sse_7C_7F_def sse_AE_C6_def sse_D1_FE_def
  by (intro sse_intros dgood_modrm vec_ok_no_branch; simp)+

lemma dgood_decodeSSE0F: "dgood (decodeSSE0F x p) vec_ok"
  unfolding decodeSSE0F_def by (intro dec_intros dgood_0F)

lemma dgood_three_byte: "dgood (decodeThreeByte38 p) vec_ok" "dgood (decodeThreeByte3A p) vec_ok"
  unfolding decodeThreeByte38_def decodeThreeByte3A_def dispatch_38_def dispatch_3A_def round_3A_def lanes_3A_def
  by (intro sse_intros; simp)+

lemma dgood_vex_maps:
  "dgood (vex_10_2F p vx x) vec_ok" "dgood (vex_51_5F p vx x) vec_ok" "dgood (vex_6E_7F p vx x) vec_ok"
  "dgood (vex_map2 p vx x) vec_ok" "dgood (vex_map3 p vx x) vec_ok"
  unfolding vex_10_2F_def vex_51_5F_def vex_6E_7F_def vex_map2_def vex_map3_def
  by (intro sse_intros vec_src2_src1; simp)+

lemma dgood_decodeVexInsn: "dgood (decodeVexInsn x p vx) vec_ok"
  unfolding decodeVexInsn_def vex_map1_def by (intro dec_intros dgood_vex_maps vec_intros)

section \<open>The contract\<close>

text \<open>What the decoder relies on of the vector decoders, and what it gives for it.\<close>

locale vector_decoders =
  fixes X :: ext_decoders
  assumes two_byte: "dgood (x_sse X op p) ext_ok"
    and three_byte_38: "dgood (x_38 X p) ext_ok"
    and three_byte_3A: "dgood (x_3A X p) ext_ok"
    and vex: "dgood (x_vex X op p vx) ext_ok"
begin

lemma good: "ext_good X"
  by (simp add: ext_good_def two_byte three_byte_38 three_byte_3A vex)

lemma decoded:
  assumes "mem_wf m" "decodeOne X a m = (r, m')"
  shows "mem_wf m'" "same_core m m'" "r = Inr d \<Longrightarrow> decoded_ok d \<and> 0 < d_len d"
  using decodeOne_spec [OF good assms] by blast+

lemma executed:
  assumes "mem_wf m" "decodeOne X a m = (Inr d, m')" "mem_wf (c_mem c)" "exec_insn (d_exec d) c = (r, c')"
  shows "mem_step (c_mem c) (c_mem c')" "c_curInstrEnd c' = c_curInstrEnd c" "r = Inr True \<Longrightarrow> d_endsBlock d"
    "r \<noteq> Inr True \<Longrightarrow> r_rip (c_regs c') = r_rip (c_regs c)"
proof -
  have ok: "decoded_ok d" using decoded(3) [OF assms(1,2) refl] by simp
  have "keeps (exec_insn (d_exec d))" using ok by (intro keeps_exec_insn) (simp add: decoded_ok_def)
  from keepsD [OF this assms(3,4)] show "mem_step (c_mem c) (c_mem c')" "c_curInstrEnd c' = c_curInstrEnd c" by simp_all
  show "d_endsBlock d" if "r = Inr True"
    using branch_may_branch [of "d_exec d" c] ok assms(4) that by (simp add: decoded_ok_def)
  have "quiet (exec_insn (d_exec d))" using ok by (intro quiet_decoded) (simp add: decoded_ok_def)
  then show "r_rip (c_regs c') = r_rip (c_regs c)" if "r \<noteq> Inr True"
    using that assms(4) unfolding quiet_def by (metis fst_conv snd_conv)
qed

end

lemma dgood_vec_ext: "dgood d vec_ok \<Longrightarrow> dgood d ext_ok"
  by (erule dgood_weaken) (simp add: vec_ok_def)

interpretation sse: vector_decoders sse_ext
  by unfold_locales (simp_all add: sse_ext_def dgood_vec_ext dgood_decodeSSE0F dgood_three_byte dgood_decodeVexInsn)

end
