(* ===== verification/Run_Loop.thy ===== *)
theory Run_Loop
  imports Insn_Laws
begin

unbundle bit_operations_syntax

text \<open>
  The engine of \<open>internal/cpu/cpu.go\<close> and the cached basic blocks of \<open>block.go\<close>: the decode cache,
  block compilation and execution, and the loop of \<open>EmuStart\<close>. Go's pointers to decoded instructions
  and to decoded pages are indices into two stores, so that what is shared in the code is shared
  here; a block is never changed once it is built and is a value.
\<close>

section \<open>The engine\<close>

record basicBlock =
  b_start :: u64
  b_generation :: u64
  b_instructions :: "nat list"

record engine =
  e_cpu :: cpu
  e_stopRequested :: bool
  e_insns :: "nat \<Rightarrow> decoded"
  e_nextInsn :: nat
  e_pages :: "nat \<Rightarrow> nat \<rightharpoonup> nat"
  e_nextPage :: nat
  e_decodeCache :: "u64 \<rightharpoonup> nat"
  e_cachedDecodePageAddr :: u64
  e_cachedDecodePage :: "nat option"
  e_blockJIT :: bool
  e_blockCache :: "nat \<rightharpoonup> basicBlock"
  e_blockCacheGeneration :: u64
  e_cachedBlockStart :: u64
  e_cachedBlock :: "basicBlock option"
  e_trace :: "nat \<Rightarrow> u64"
  e_traceIdx :: nat

text \<open>
  The installed hooks. A hook is any function on the engine; it may map memory, write registers,
  request a stop.
\<close>

record 'p hooks =
  h_insn :: "int \<rightharpoonup> ('p engine_scheme \<Rightarrow> 'p engine_scheme)"
  h_unmap :: "(memType \<Rightarrow> u64 \<Rightarrow> nat \<Rightarrow> 'p engine_scheme \<Rightarrow> bool \<times> 'p engine_scheme) option"

definition HookInsn :: "int \<Rightarrow> ('p engine_scheme \<Rightarrow> 'p engine_scheme) \<Rightarrow> 'p hooks \<Rightarrow> 'p hooks" where
  "HookInsn insnID cb H = H\<lparr>h_insn := (h_insn H)(insnID \<mapsto> cb)\<rparr>"

definition HookMemUnmapped :: "(memType \<Rightarrow> u64 \<Rightarrow> nat \<Rightarrow> 'p engine_scheme \<Rightarrow> bool \<times> 'p engine_scheme) \<Rightarrow> 'p hooks \<Rightarrow> 'p hooks" where
  "HookMemUnmapped cb H = H\<lparr>h_unmap := Some cb\<rparr>"

definition NewEngine :: engine where
  "NewEngine = \<lparr>e_cpu = \<lparr>c_regs = newRegisters, c_mem = newMemory, c_curInstrEnd = 0\<rparr>, e_stopRequested = False,
     e_insns = (\<lambda>_. \<lparr>d_len = 0, d_insnID = 0, d_endsBlock = False, d_exec = INone\<rparr>), e_nextInsn = 0,
     e_pages = (\<lambda>_. Map.empty), e_nextPage = 0, e_decodeCache = Map.empty, e_cachedDecodePageAddr = 0,
     e_cachedDecodePage = None, e_blockJIT = False, e_blockCache = Map.empty, e_blockCacheGeneration = 0,
     e_cachedBlockStart = 0, e_cachedBlock = None, e_trace = (\<lambda>_. 0), e_traceIdx = 0\<rparr>"

text \<open>\<open>Clone\<close>: the registers, a deep copy of memory and \<open>blockJIT\<close>; everything else starts fresh.\<close>

definition engine_Clone :: "engine \<Rightarrow> engine" where
  "engine_Clone e = NewEngine\<lparr>
     e_cpu := \<lparr>c_regs = c_regs (e_cpu e), c_mem = mem_Clone (c_mem (e_cpu e)), c_curInstrEnd = 0\<rparr>,
     e_blockJIT := e_blockJIT e\<rparr>"

definition EmuStop :: "'p engine_scheme \<Rightarrow> 'p engine_scheme" where
  "EmuStop e = e\<lparr>e_stopRequested := True\<rparr>"

abbreviation e_rip :: "'p engine_scheme \<Rightarrow> u64" where "e_rip e \<equiv> r_rip (c_regs (e_cpu e))"
abbreviation e_mem :: "'p engine_scheme \<Rightarrow> memory" where "e_mem e \<equiv> c_mem (e_cpu e)"

definition set_e_rip :: "u64 \<Rightarrow> 'p engine_scheme \<Rightarrow> 'p engine_scheme" where
  "set_e_rip v e = e\<lparr>e_cpu := (e_cpu e)\<lparr>c_regs := (c_regs (e_cpu e))\<lparr>r_rip := v\<rparr>\<rparr>\<rparr>"

definition set_e_mem :: "memory \<Rightarrow> 'p engine_scheme \<Rightarrow> 'p engine_scheme" where
  "set_e_mem m e = e\<lparr>e_cpu := (e_cpu e)\<lparr>c_mem := m\<rparr>\<rparr>"

definition set_curInstrEnd :: "u64 \<Rightarrow> 'p engine_scheme \<Rightarrow> 'p engine_scheme" where
  "set_curInstrEnd v e = e\<lparr>e_cpu := (e_cpu e)\<lparr>c_curInstrEnd := v\<rparr>\<rparr>"

definition record_trace :: "u64 \<Rightarrow> 'p engine_scheme \<Rightarrow> 'p engine_scheme" where
  "record_trace pc e = e\<lparr>e_trace := (e_trace e)(e_traceIdx e := pc), e_traceIdx := (e_traceIdx e + 1) mod 256\<rparr>"

section \<open>The caches\<close>

definition invalidateCodeCaches :: "'p engine_scheme \<Rightarrow> 'p engine_scheme" where
  "invalidateCodeCaches e = e\<lparr>e_decodeCache := Map.empty, e_cachedDecodePage := None,
     e_blockCacheGeneration := e_blockCacheGeneration e + 1, e_cachedBlockStart := 0, e_cachedBlock := None\<rparr>"

definition SetBlockJIT :: "bool \<Rightarrow> 'p engine_scheme \<Rightarrow> 'p engine_scheme" where
  "SetBlockJIT enabled e =
     (if e_blockJIT e = enabled then e else invalidateCodeCaches (e\<lparr>e_blockJIT := enabled\<rparr>))"

text \<open>\<open>if e.mem.consumeCodeDirty() { e.invalidateCodeCaches() }\<close>, with the flag that was read.\<close>

definition poll_dirty :: "'p engine_scheme \<Rightarrow> bool \<times> 'p engine_scheme" where
  "poll_dirty e = (let (dirty, m) = consumeCodeDirty (e_mem e); e1 = set_e_mem m e in
     (dirty, if dirty then invalidateCodeCaches e1 else e1))"

text \<open>
  The page table of decoded instructions for \<open>pc\<close>: the current one, or the one of the map, created
  when there is none.
\<close>

definition load_page :: "u64 \<Rightarrow> 'p engine_scheme \<Rightarrow> nat \<times> 'p engine_scheme" where
  "load_page pageA e = (case e_decodeCache e pageA of
       Some p \<Rightarrow> (p, e\<lparr>e_cachedDecodePageAddr := pageA, e_cachedDecodePage := Some p\<rparr>)
     | None \<Rightarrow> (let p = e_nextPage e in
         (p, e\<lparr>e_pages := (e_pages e)(p := Map.empty), e_nextPage := p + 1,
            e_decodeCache := (e_decodeCache e)(pageA \<mapsto> p),
            e_cachedDecodePageAddr := pageA, e_cachedDecodePage := Some p\<rparr>)))"

definition decode_page :: "u64 \<Rightarrow> 'p engine_scheme \<Rightarrow> nat \<times> 'p engine_scheme" where
  "decode_page pc e = (case e_cachedDecodePage e of
       Some p \<Rightarrow> if e_cachedDecodePageAddr e = pageAddr pc then (p, e) else load_page (pageAddr pc) e
     | None \<Rightarrow> load_page (pageAddr pc) e)"

definition cachedDecode :: "ext_decoders \<Rightarrow> u64 \<Rightarrow> ('p engine_scheme, cpu_error, nat) sem" where
  "cachedDecode X pc = (\<lambda>e0.
     let (p, e) = decode_page pc e0; idx = unat (pc AND pageMask) in
     case e_pages e p idx of
       Some d \<Rightarrow> (Inr d, e)
     | None \<Rightarrow> (case decodeOne X pc (e_mem e) of
           (Inl err, m) \<Rightarrow> (Inl err, set_e_mem m e)
         | (Inr d, m) \<Rightarrow> (let i = e_nextInsn e; e1 = set_e_mem m e in
             (Inr i, e1\<lparr>e_insns := (e_insns e1)(i := d), e_nextInsn := i + 1,
                e_pages := (e_pages e1)(p := (e_pages e1 p)(idx \<mapsto> i))\<rparr>))))"

section \<open>Compiling a block\<close>

definition block_slot :: "u64 \<Rightarrow> nat" where
  "block_slot start = unat (drop_bit 1 start AND 1023)"

definition block_valid :: "u64 \<Rightarrow> 'p engine_scheme \<Rightarrow> basicBlock \<Rightarrow> bool" where
  "block_valid start e b \<longleftrightarrow> b_start b = start \<and> b_generation b = e_blockCacheGeneration e"

text \<open>
  The compilation loop, with the number of instructions still allowed: it stops at the end of the
  page, at an instruction that does not decode (an error only for the first one), at SYSCALL and
  CPUID, and after an instruction that ends a block.
\<close>

primrec compile_loop :: "nat \<Rightarrow> ext_decoders \<Rightarrow> u64 \<Rightarrow> u64 \<Rightarrow> nat list \<Rightarrow> ('p engine_scheme, cpu_error, nat list) sem" where
  "compile_loop 0 X page pc ins = ret ins"
| "compile_loop (Suc n) X page pc ins = (\<lambda>e.
     if pageAddr pc \<noteq> page then (Inr ins, e)
     else case cachedDecode X pc e of
         (Inl err, e1) \<Rightarrow> (if ins = [] then (Inl err, e1) else (Inr ins, e1))
       | (Inr i, e1) \<Rightarrow> (let d = e_insns e1 i in
           if d_insnID d \<noteq> noInsnHook then (Inr ins, e1)
           else if d_endsBlock d then (Inr (ins @ [i]), e1)
           else compile_loop n X page (pc + of_nat (d_len d)) (ins @ [i]) e1))"

definition maxBlockInstructions :: nat where "maxBlockInstructions = 64"

definition compile_new :: "ext_decoders \<Rightarrow> u64 \<Rightarrow> ('p engine_scheme, cpu_error, basicBlock option) sem" where
  "compile_new X start = (\<lambda>e.
     case compile_loop maxBlockInstructions X (pageAddr start) start [] e of
       (Inl err, e1) \<Rightarrow> (Inl err, e1)
     | (Inr ins, e1) \<Rightarrow>
         (if ins = [] then (Inr None, e1)
          else let b = \<lparr>b_start = start, b_generation = e_blockCacheGeneration e, b_instructions = ins\<rparr> in
            (Inr (Some b), e1\<lparr>e_blockCache := (e_blockCache e1)(block_slot start \<mapsto> b),
               e_cachedBlockStart := start, e_cachedBlock := Some b\<rparr>)))"

text \<open>\<open>cachedBlockAt\<close>, which is also the first half of \<open>compileBlock\<close>.\<close>

definition cachedBlockAt :: "u64 \<Rightarrow> 'p engine_scheme \<Rightarrow> basicBlock option \<times> 'p engine_scheme" where
  "cachedBlockAt start e =
     (let slotted = (case e_blockCache e (block_slot start) of
            Some b \<Rightarrow> if block_valid start e b then (Some b, e\<lparr>e_cachedBlockStart := start, e_cachedBlock := Some b\<rparr>)
              else (None, e)
          | None \<Rightarrow> (None, e)) in
      case e_cachedBlock e of
        Some b \<Rightarrow> if e_cachedBlockStart e = start \<and> b_generation b = e_blockCacheGeneration e then (Some b, e) else slotted
      | None \<Rightarrow> slotted)"

definition compileBlock :: "ext_decoders \<Rightarrow> u64 \<Rightarrow> ('p engine_scheme, cpu_error, basicBlock option) sem" where
  "compileBlock X start = (\<lambda>e. case cachedBlockAt start e of
       (Some b, e1) \<Rightarrow> (Inr (Some b), e1)
     | (None, e1) \<Rightarrow> compile_new X start e1)"

section \<open>Running instructions\<close>

text \<open>\<open>d.exec(e)\<close> through the pointer: what the closure captured may change with the run.\<close>

definition exec_at :: "nat \<Rightarrow> ('p engine_scheme, cpu_error, bool) sem" where
  "exec_at i = (\<lambda>e. let d = e_insns e i in
     case exec_insn (d_exec d) (e_cpu e) of (x, c) \<Rightarrow>
       (x, e\<lparr>e_cpu := c, e_insns := (e_insns e)(i := d\<lparr>d_exec := insn_after (d_exec d) (e_cpu e)\<rparr>)\<rparr>))"

text \<open>
  One instruction of a block at \<open>pc\<close>: it sets \<open>curInstrEnd\<close>, runs, advances RIP unless it branched,
  and polls the code-dirty flag.
\<close>

datatype insn_result = XErr cpu_error | XDirty | XNext bool

definition block_insn :: "nat \<Rightarrow> u64 \<Rightarrow> 'p engine_scheme \<Rightarrow> insn_result \<times> 'p engine_scheme" where
  "block_insn i next' e =
     (case exec_at i (set_curInstrEnd next' e) of
        (Inl err, e1) \<Rightarrow> (XErr err, e1)
      | (Inr branched, e1) \<Rightarrow>
          (let e2 = (if branched then e1 else set_e_rip next' e1) in
           case poll_dirty e2 of (dirty, e3) \<Rightarrow> (if dirty then XDirty else XNext branched, e3)))"

text \<open>What \<open>executeBlock\<close> does next: return \<open>nil\<close>, return an error, or go on with a block.\<close>

datatype block_result = BReturn | BErr cpu_error | BChain basicBlock

text \<open>\<open>block = e.cachedBlockAt(e.regs.rip); if block == nil { return nil }\<close> and the trace entry.\<close>

definition chain :: "'p engine_scheme \<Rightarrow> block_result \<times> 'p engine_scheme" where
  "chain e = (case cachedBlockAt (e_rip e) e of
       (None, e1) \<Rightarrow> (BReturn, e1)
     | (Some b, e1) \<Rightarrow> (BChain b, record_trace (e_rip e1) e1))"

text \<open>
  The instruction loop for \<open>until == 0\<close>. After a branch \<open>continue\<close> goes on with the same list, so
  the block is looked up and traced a second time after the loop.
\<close>

primrec run_block0 :: "nat list \<Rightarrow> bool \<Rightarrow> u64 \<Rightarrow> 'p engine_scheme \<Rightarrow> block_result \<times> 'p engine_scheme" where
  "run_block0 [] first pc e = chain e"
| "run_block0 (i # is) first pc e =
     (if e_stopRequested e then (BReturn, e)
      else let e1 = (if first then e else record_trace pc e); next' = pc + of_nat (d_len (e_insns e1 i)) in
        case block_insn i next' e1 of
          (XErr err, e2) \<Rightarrow> (BErr err, e2)
        | (XDirty, e2) \<Rightarrow> (BReturn, e2)
        | (XNext branched, e2) \<Rightarrow>
            (if branched then
               case chain e2 of (BReturn, e3) \<Rightarrow> (BReturn, e3) | (_, e3) \<Rightarrow> run_block0 is False next' e3
             else run_block0 is False next' e2))"

text \<open>The instruction loop for a non-zero \<open>until\<close>, tested before every instruction.\<close>

primrec run_block :: "u64 \<Rightarrow> nat list \<Rightarrow> bool \<Rightarrow> u64 \<Rightarrow> 'p engine_scheme \<Rightarrow> block_result \<times> 'p engine_scheme" where
  "run_block until' [] first pc e = (if e_rip e = until' then (BReturn, e) else chain e)"
| "run_block until' (i # is) first pc e =
     (if e_stopRequested e \<or> e_rip e = until' then (BReturn, e)
      else let e1 = (if first then e else record_trace pc e); next' = pc + of_nat (d_len (e_insns e1 i)) in
        case block_insn i next' e1 of
          (XErr err, e2) \<Rightarrow> (BErr err, e2)
        | (XDirty, e2) \<Rightarrow> (BReturn, e2)
        | (XNext branched, e2) \<Rightarrow>
            (if branched then (if e_rip e2 = until' then (BReturn, e2) else chain e2)
             else run_block until' is False next' e2))"

text \<open>
  \<open>executeBlock\<close>: blocks chained until RIP leaves the cached blocks. The fuel counts blocks; \<open>None\<close>
  means that it ran out.
\<close>

primrec executeBlock :: "nat \<Rightarrow> basicBlock \<Rightarrow> u64 \<Rightarrow> 'p engine_scheme \<Rightarrow> (cpu_error option \<times> 'p engine_scheme) option" where
  "executeBlock 0 b until' e = None"
| "executeBlock (Suc n) b until' e =
     (if e_rip e \<noteq> b_start b then Some (None, e)
      else case (if until' = 0 then run_block0 (b_instructions b) True (b_start b) e
                 else run_block until' (b_instructions b) True (b_start b) e) of
        (BReturn, e1) \<Rightarrow> Some (None, e1)
      | (BErr err, e1) \<Rightarrow> Some (Some err, e1)
      | (BChain b', e1) \<Rightarrow> executeBlock n b' until' e1)"

section \<open>EmuStart\<close>

text \<open>\<open>handleFault\<close>: only an unwrapped \<open>faultError\<close> reaches the hook.\<close>

definition handleFault :: "'p hooks \<Rightarrow> cpu_error \<Rightarrow> 'p engine_scheme \<Rightarrow> bool \<times> 'p engine_scheme" where
  "handleFault H err e = (case (err, h_unmap H) of
       (FaultError k a n, Some f) \<Rightarrow> f k a n e
     | _ \<Rightarrow> (False, e))"

datatype run_result = RDone | RErr cpu_error | RContinue

definition on_fault :: "'p hooks \<Rightarrow> cpu_error \<Rightarrow> 'p engine_scheme \<Rightarrow> run_result \<times> 'p engine_scheme" where
  "on_fault H err e = (case handleFault H err e of (True, e1) \<Rightarrow> (RContinue, e1) | (False, e1) \<Rightarrow> (RErr err, e1))"

text \<open>SYSCALL and CPUID: the hook runs in their place; RIP moves past SYSCALL unless a stop was requested.\<close>

definition run_hook :: "'p hooks \<Rightarrow> int \<Rightarrow> 'p engine_scheme \<Rightarrow> run_result \<times> 'p engine_scheme" where
  "run_hook H n e = (case h_insn H n of
       None \<Rightarrow> (RErr (NoHook (nat n)), e)
     | Some f \<Rightarrow> (let e1 = f e in
         (RContinue, if n = InsSyscall \<and> \<not> e_stopRequested e1 then set_e_rip (c_curInstrEnd (e_cpu e1)) e1 else e1)))"

text \<open>One instruction through the decode cache: the second half of the loop body.\<close>

definition emu_step :: "ext_decoders \<Rightarrow> 'p hooks \<Rightarrow> u64 \<Rightarrow> 'p engine_scheme \<Rightarrow> run_result \<times> 'p engine_scheme" where
  "emu_step X H pc e =
     (case cachedDecode X pc e of
        (Inl err, e1) \<Rightarrow> on_fault H err e1
      | (Inr i, e1) \<Rightarrow>
          (let d = e_insns e1 i; e2 = set_curInstrEnd (pc + of_nat (d_len d)) e1 in
           if d_insnID d \<noteq> noInsnHook then run_hook H (d_insnID d) e2
           else case exec_at i e2 of
               (Inl err, e3) \<Rightarrow> on_fault H err e3
             | (Inr branched, e3) \<Rightarrow>
                 (RContinue, if branched then e3 else set_e_rip (c_curInstrEnd (e_cpu e3)) e3)))"

text \<open>One turn of the loop of \<open>EmuStart\<close>; the fuel is for the blocks it may chain.\<close>

definition emu_turn :: "nat \<Rightarrow> ext_decoders \<Rightarrow> 'p hooks \<Rightarrow> u64 \<Rightarrow> 'p engine_scheme \<Rightarrow> (run_result \<times> 'p engine_scheme) option" where
  "emu_turn n X H until' e =
     (if e_stopRequested e then Some (RDone, e)
      else if until' \<noteq> 0 \<and> e_rip e = until' then Some (RDone, e)
      else let pc = e_rip e; e1 = snd (poll_dirty (record_trace pc e)) in
        if e_blockJIT e1 then
          (case compileBlock X pc e1 of
             (Inl err, e2) \<Rightarrow> Some (on_fault H err e2)
           | (Inr (Some b), e2) \<Rightarrow>
               (case executeBlock n b until' e2 of
                  None \<Rightarrow> None
                | Some (Some err, e3) \<Rightarrow> Some (on_fault H err e3)
                | Some (None, e3) \<Rightarrow> Some (RContinue, e3))
           | (Inr None, e2) \<Rightarrow> Some (emu_step X H pc e2))
        else Some (emu_step X H pc e1))"

primrec emu_loop :: "nat \<Rightarrow> ext_decoders \<Rightarrow> 'p hooks \<Rightarrow> u64 \<Rightarrow> 'p engine_scheme \<Rightarrow> (cpu_error option \<times> 'p engine_scheme) option" where
  "emu_loop 0 X H until' e = None"
| "emu_loop (Suc n) X H until' e = (case emu_turn n X H until' e of
       None \<Rightarrow> None
     | Some (RDone, e1) \<Rightarrow> Some (None, e1)
     | Some (RErr err, e1) \<Rightarrow> Some (Some err, e1)
     | Some (RContinue, e1) \<Rightarrow> emu_loop n X H until' e1)"

definition EmuStart :: "nat \<Rightarrow> ext_decoders \<Rightarrow> 'p hooks \<Rightarrow> u64 \<Rightarrow> u64 \<Rightarrow> 'p engine_scheme \<Rightarrow> (cpu_error option \<times> 'p engine_scheme) option" where
  "EmuStart n X H begin' until' e = emu_loop n X H until' ((set_e_rip begin' e)\<lparr>e_stopRequested := False\<rparr>)"

end
