(* ===== verification/Run_Laws.thy ===== *)
theory Run_Laws
  imports Run_Loop
begin

unbundle bit_operations_syntax

text \<open>
  The caches of the engine are transparent: the invariant of the decode and block caches
  (\<open>cache_inv\<close>), its preservation by every operation, and the refinement of block execution to
  single instructions decoded afresh (\<open>cpu_step\<close>).
\<close>

section \<open>Decoded instructions and what running them may change\<close>

text \<open>
  The closures that keep state between their runs: the memory forms of BT, BTS, BTR and BTC with a
  register offset, which overwrite the operand and the width they captured. \<open>after_runs cs i\<close> is the
  closure \<open>i\<close> after runs at the CPU states \<open>cs\<close>; every other closure is never changed.
\<close>

definition keeps_state :: "insn \<Rightarrow> bool" where
  "keeps_state i = (case i of IBt bop x r w \<Rightarrow> o_kind x \<noteq> opndReg | _ \<Rightarrow> False)"

primrec after_runs :: "cpu list \<Rightarrow> insn \<Rightarrow> insn" where
  "after_runs [] i = i"
| "after_runs (c # cs) i = after_runs cs (insn_after i c)"

definition drifted :: "insn \<Rightarrow> insn \<Rightarrow> bool" where
  "drifted i i' \<longleftrightarrow> (\<exists>cs. i' = after_runs cs i)"

definition drifted_dec :: "decoded \<Rightarrow> decoded \<Rightarrow> bool" where
  "drifted_dec d d' \<longleftrightarrow> d_len d' = d_len d \<and> d_insnID d' = d_insnID d \<and> d_endsBlock d' = d_endsBlock d \<and>
     drifted (d_exec d) (d_exec d')"

lemma after_runs_append: "after_runs (cs @ ds) i = after_runs ds (after_runs cs i)"
  by (induction cs arbitrary: i) simp_all

lemma insn_after_cases:
  obtains "insn_after i c = i"
  | bop x r w y where "i = IBt bop x r w" "keeps_state i" "insn_after i c = IBt bop y r 1" "o_kind y = o_kind x"
      "operand_ok x \<longrightarrow> operand_ok y"
proof (cases "\<exists>bop x r w. i = IBt bop x r w")
  case True
  then obtain bop x r w where i: "i = IBt bop x r w" by blast
  obtain b0 c' where rd: "(\<exists>err. readOperand r w c = (Inl err, c')) \<or> readOperand r w c = (Inr b0, c')"
    by (metis obj_sumE prod.exhaust)
  have after: "insn_after i c = i \<or> readOperand r w c = (Inr b0, c') \<and>
      insn_after i c = (case bt_target x w b0 c' of (_, x1, w1) \<Rightarrow> IBt bop x1 r w1)"
    using rd unfolding i by (auto simp: insn_after_def)
  show ?thesis
  proof (cases "o_kind x = opndReg")
    case True
    then have "insn_after i c = i" using after by (auto simp: i bt_target_def)
    then show ?thesis by (rule that(1))
  next
    case False
    let ?y = "snd (bt_target x w b0 c')"
    have y: "?y = (fst ?y, 1)" "o_kind (fst ?y) = o_kind x" "operand_ok x \<longrightarrow> operand_ok (fst ?y)"
      using False by (simp_all add: bt_target_def operand_ok_def)
    have "insn_after i c = i \<or> insn_after i c = IBt bop (fst ?y) r 1"
      using after False by (auto simp: bt_target_def)
    then show ?thesis using that(1) that(2) [OF i _ _ y(2,3)] False by (auto simp: i keeps_state_def)
  qed
next
  case False
  then have "insn_after i c = i" by (cases i) (simp_all add: insn_after_def)
  then show ?thesis using that(1) by blast
qed

lemma insn_after_keeps: "keeps_state (insn_after i c) = keeps_state i"
  by (rule insn_after_cases [of i c]) (auto simp: keeps_state_def)

lemma insn_after_same: "\<not> keeps_state i \<Longrightarrow> insn_after i c = i"
  by (rule insn_after_cases [of i c]) auto

lemma insn_after_ok: "insn_ok i \<Longrightarrow> insn_ok (insn_after i c)"
  by (rule insn_after_cases [of i c]) auto

lemma insn_after_branch: "may_branch (insn_after i c) = may_branch i"
  by (rule insn_after_cases [of i c]) (auto simp: may_branch_def)

lemma insn_after_drifted: "drifted i (insn_after i c)"
  unfolding drifted_def by (rule exI [of _ "[c]"]) simp

lemma drifted_refl [simp]: "drifted i i" "drifted_dec d d"
proof -
  show d: "drifted i i" for i unfolding drifted_def by (rule exI [of _ "[]"]) simp
  show "drifted_dec d d" using d by (simp add: drifted_dec_def)
qed

lemma drifted_trans: "drifted i j \<Longrightarrow> drifted j k \<Longrightarrow> drifted i k"
  unfolding drifted_def by (metis after_runs_append)

lemma drifted_keeps: "drifted i i' \<Longrightarrow> keeps_state i' = keeps_state i"
proof -
  have "keeps_state (after_runs cs i) = keeps_state i" for cs
    by (induction cs arbitrary: i) (simp_all add: insn_after_keeps)
  then show "drifted i i' \<Longrightarrow> keeps_state i' = keeps_state i" unfolding drifted_def by blast
qed

lemma drifted_same: "\<not> keeps_state i \<Longrightarrow> drifted i i' \<Longrightarrow> i' = i"
proof -
  have "\<not> keeps_state i \<Longrightarrow> after_runs cs i = i" for cs
    by (induction cs) (simp_all add: insn_after_same)
  then show "\<not> keeps_state i \<Longrightarrow> drifted i i' \<Longrightarrow> i' = i" unfolding drifted_def by blast
qed

lemma drifted_dec_same: "\<not> keeps_state (d_exec d) \<Longrightarrow> drifted_dec d d' \<Longrightarrow> d' = d"
  using drifted_same [of "d_exec d" "d_exec d'"] by (simp add: drifted_dec_def)

lemma drifted_dec_trans: "drifted_dec a b \<Longrightarrow> drifted_dec b c \<Longrightarrow> drifted_dec a c"
  unfolding drifted_dec_def by (auto intro: drifted_trans)

lemma drifted_dec_exact:
  assumes "drifted_dec d d'"
  shows "if keeps_state (d_exec d) then \<exists>cs. d' = d\<lparr>d_exec := after_runs cs (d_exec d)\<rparr> else d' = d"
proof -
  obtain cs where "d_exec d' = after_runs cs (d_exec d)" using assms by (auto simp: drifted_dec_def drifted_def)
  then have "d' = d\<lparr>d_exec := after_runs cs (d_exec d)\<rparr>" using assms by (cases d; cases d') (simp add: drifted_dec_def)
  then show ?thesis using drifted_dec_same [OF _ assms] by auto
qed

lemma drifted_ok: "drifted i i' \<Longrightarrow> insn_ok i \<Longrightarrow> insn_ok i'"
proof -
  have "insn_ok i \<Longrightarrow> insn_ok (after_runs cs i)" for cs
    by (induction cs arbitrary: i) (simp_all add: insn_after_ok)
  then show "drifted i i' \<Longrightarrow> insn_ok i \<Longrightarrow> insn_ok i'" unfolding drifted_def by blast
qed

lemma drifted_branch: "drifted i i' \<Longrightarrow> may_branch i' = may_branch i"
proof -
  have "may_branch (after_runs cs i) = may_branch i" for cs
    by (induction cs arbitrary: i) (simp_all add: insn_after_branch)
  then show "drifted i i' \<Longrightarrow> may_branch i' = may_branch i" unfolding drifted_def by blast
qed

lemma drifted_decoded_ok: "drifted_dec d d' \<Longrightarrow> decoded_ok d \<Longrightarrow> decoded_ok d'"
  unfolding drifted_dec_def decoded_ok_def using drifted_ok drifted_branch by auto

section \<open>Fresh decoding\<close>

definition entry_ok :: "ext_decoders \<Rightarrow> memory \<Rightarrow> u64 \<Rightarrow> decoded \<Rightarrow> bool" where
  "entry_ok X m pc d \<longleftrightarrow> (\<exists>d0. fst (decodeOne X pc m) = Inr d0 \<and> drifted_dec d0 d)"

lemma entry_ok_decoded:
  assumes "ext_good X" "mem_wf m" "entry_ok X m pc d"
  shows "decoded_ok d" "0 < d_len d"
proof -
  from assms(3) obtain d0 where d0: "fst (decodeOne X pc m) = Inr d0" "drifted_dec d0 d"
    unfolding entry_ok_def by blast
  have "decodeOne X pc m = (Inr d0, snd (decodeOne X pc m))" using d0(1) by (simp add: prod_eq_iff)
  from decodeOne_spec(3) [OF assms(1,2) this refl]
  show "decoded_ok d" "0 < d_len d" using d0(2) drifted_decoded_ok by (auto simp: drifted_dec_def)
qed

lemma entry_ok_drift: "entry_ok X m pc d \<Longrightarrow> drifted_dec d d' \<Longrightarrow> entry_ok X m pc d'"
  unfolding entry_ok_def using drifted_dec_trans by blast

lemma entry_ok_view:
  assumes "ext_good X" "mem_wf m" "mem_wf m'" "code_view m' = code_view m"
  shows "entry_ok X m' pc d = entry_ok X m pc d"
  unfolding entry_ok_def using decodeOne_view [OF assms(1,3,2,4)] by simp

primrec block_seq :: "ext_decoders \<Rightarrow> memory \<Rightarrow> (nat \<Rightarrow> decoded) \<Rightarrow> nat \<Rightarrow> u64 \<Rightarrow> nat list \<Rightarrow> bool" where
  "block_seq X m f n pc [] = True"
| "block_seq X m f n pc (i # is) =
     (entry_ok X m pc (f i) \<and> i < n \<and> d_insnID (f i) = noInsnHook \<and> (is \<noteq> [] \<longrightarrow> \<not> d_endsBlock (f i)) \<and>
      block_seq X m f n (pc + of_nat (d_len (f i))) is)"

section \<open>The invariant\<close>

definition known_block :: "'p engine_scheme \<Rightarrow> basicBlock \<Rightarrow> bool" where
  "known_block e b \<longleftrightarrow> b \<in> ran (e_blockCache e) \<or> e_cachedBlock e = Some b"

definition coherent :: "ext_decoders \<Rightarrow> 'p engine_scheme \<Rightarrow> bool" where
  "coherent X e \<longleftrightarrow>
     (\<forall>pa p idx i. e_decodeCache e pa = Some p \<longrightarrow> e_pages e p idx = Some i \<longrightarrow>
        entry_ok X (e_mem e) (pa + of_nat idx) (e_insns e i)) \<and>
     (\<forall>b. known_block e b \<longrightarrow> b_generation b = e_blockCacheGeneration e \<longrightarrow>
        b_instructions b \<noteq> [] \<and> block_seq X (e_mem e) (e_insns e) (e_nextInsn e) (b_start b) (b_instructions b))"

definition shape_ok :: "'p engine_scheme \<Rightarrow> bool" where
  "shape_ok e \<longleftrightarrow>
     (\<forall>pa p. e_decodeCache e pa = Some p \<longrightarrow> p < e_nextPage e) \<and>
     (\<forall>pa p idx i. e_decodeCache e pa = Some p \<longrightarrow> e_pages e p idx = Some i \<longrightarrow> i < e_nextInsn e) \<and>
     (\<forall>pa qa p. e_decodeCache e pa = Some p \<longrightarrow> e_decodeCache e qa = Some p \<longrightarrow> pa = qa) \<and>
     (\<forall>p. e_cachedDecodePage e = Some p \<longrightarrow> e_decodeCache e (e_cachedDecodePageAddr e) = Some p) \<and>
     (\<forall>b. known_block e b \<longrightarrow> b_generation b \<le> e_blockCacheGeneration e) \<and>
     (\<forall>b. e_cachedBlock e = Some b \<longrightarrow> b_start b = e_cachedBlockStart e)"

definition cache_inv :: "ext_decoders \<Rightarrow> 'p engine_scheme \<Rightarrow> bool" where
  "cache_inv X e \<longleftrightarrow> mem_wf (e_mem e) \<and> shape_ok e \<and> (\<not> m_codeDirty (e_mem e) \<longrightarrow> coherent X e)"

lemma cache_inv_new: "cache_inv X NewEngine"
  by (simp add: cache_inv_def shape_ok_def coherent_def known_block_def NewEngine_def mem_wf_newMemory)

text \<open>
  A later engine: more instructions, the known ones changed only as \<open>drifted\<close> allows, the same
  executable bytes.
\<close>

definition grows :: "'p engine_scheme \<Rightarrow> 'p engine_scheme \<Rightarrow> bool" where
  "grows e e' \<longleftrightarrow> mem_wf (e_mem e) \<and> mem_wf (e_mem e') \<and> code_view (e_mem e') = code_view (e_mem e) \<and>
     e_nextInsn e \<le> e_nextInsn e' \<and> (\<forall>i < e_nextInsn e. drifted_dec (e_insns e i) (e_insns e' i))"

lemma grows_refl: "mem_wf (e_mem e) \<Longrightarrow> grows e e"
  by (simp add: grows_def)

lemma grows_trans: "grows a b \<Longrightarrow> grows b c \<Longrightarrow> grows a c"
  unfolding grows_def by (auto intro: drifted_dec_trans)

lemma block_seq_grows:
  assumes X: "ext_good X" and g: "grows e e'"
  shows "block_seq X (e_mem e) (e_insns e) (e_nextInsn e) pc is \<Longrightarrow>
    block_seq X (e_mem e') (e_insns e') (e_nextInsn e') pc is"
proof (induction "is" arbitrary: pc)
  case (Cons i "is")
  have i: "i < e_nextInsn e" "entry_ok X (e_mem e) pc (e_insns e i)" using Cons.prems by auto
  have d: "drifted_dec (e_insns e i) (e_insns e' i)" using g i(1) by (simp add: grows_def)
  have "entry_ok X (e_mem e') pc (e_insns e' i)"
    using entry_ok_drift [OF i(2) d] g entry_ok_view [OF X, of "e_mem e" "e_mem e'"] by (simp add: grows_def)
  then show ?case using Cons.prems Cons.IH d g by (simp add: drifted_dec_def grows_def)
qed simp

lemma coherent_grows:
  assumes X: "ext_good X" and g: "grows e e'" and sh: "shape_ok e" and co: "coherent X e"
    and same: "e_decodeCache e' = e_decodeCache e" "e_pages e' = e_pages e" "e_blockCache e' = e_blockCache e"
      "e_cachedBlock e' = e_cachedBlock e" "e_blockCacheGeneration e' = e_blockCacheGeneration e"
  shows "coherent X e'"
  unfolding coherent_def known_block_def same
proof (intro conjI allI impI)
  fix pa p idx i assume c: "e_decodeCache e pa = Some p" "e_pages e p idx = Some i"
  have i: "i < e_nextInsn e" using sh c unfolding shape_ok_def by blast
  have "entry_ok X (e_mem e) (pa + of_nat idx) (e_insns e i)" using co c unfolding coherent_def by blast
  then show "entry_ok X (e_mem e') (pa + of_nat idx) (e_insns e' i)"
    using i g entry_ok_drift [of X "e_mem e"] entry_ok_view [OF X, of "e_mem e" "e_mem e'"] by (simp add: grows_def)
next
  fix b assume "b \<in> ran (e_blockCache e) \<or> e_cachedBlock e = Some b" "b_generation b = e_blockCacheGeneration e"
  then have "b_instructions b \<noteq> [] \<and> block_seq X (e_mem e) (e_insns e) (e_nextInsn e) (b_start b) (b_instructions b)"
    using co unfolding coherent_def known_block_def by blast
  then show "b_instructions b \<noteq> []"
    "block_seq X (e_mem e') (e_insns e') (e_nextInsn e') (b_start b) (b_instructions b)"
    using block_seq_grows [OF X g] by blast+
qed

lemma mem_step_view:
  assumes "mem_step m m'" "\<not> m_codeDirty m'"
  shows "\<not> m_codeDirty m \<and> code_view m' = code_view m"
proof (intro conjI ext)
  show "\<not> m_codeDirty m" using assms by (auto simp: mem_step_def)
  fix a
  show "code_view m' a = code_view m a"
  proof (cases "mem_at m a")
    case None
    then show ?thesis using assms by (simp add: mem_step_def code_view_def)
  next
    case (Some pb)
    obtain p b where pb: "mem_at m a = Some (p, b)" using Some by (cases pb) simp
    obtain b' where b': "mem_at m' a = Some (p, b')" using assms pb unfolding mem_step_def by blast
    have "b' = b" if "p AND ProtExec \<noteq> 0" using assms pb b' that unfolding mem_step_def by fastforce
    then show ?thesis using pb b' by (auto simp: code_view_def)
  qed
qed

text \<open>Replacing the state of the CPU, with the rest of the engine as it is.\<close>

lemma cache_inv_cpu:
  assumes X: "ext_good X" and inv: "cache_inv X e" and step: "mem_step (e_mem e) (c_mem c)"
    and drift: "\<And>i. i < e_nextInsn e \<Longrightarrow> drifted_dec (e_insns e i) (f i)"
  shows "cache_inv X (e\<lparr>e_cpu := c, e_insns := f\<rparr>)"
    "\<not> m_codeDirty (c_mem c) \<Longrightarrow> grows e (e\<lparr>e_cpu := c, e_insns := f\<rparr>)"
proof -
  let ?e = "e\<lparr>e_cpu := c, e_insns := f\<rparr>"
  have wf: "mem_wf (e_mem e)" "mem_wf (c_mem c)" using inv step by (auto simp: cache_inv_def mem_step_def)
  show g: "grows e ?e" if "\<not> m_codeDirty (c_mem c)"
    using mem_step_view [OF step that] wf drift by (simp add: grows_def)
  have sh: "shape_ok ?e" using inv by (simp add: cache_inv_def shape_ok_def known_block_def)
  have "coherent X ?e" if nd: "\<not> m_codeDirty (c_mem c)"
    by (rule coherent_grows [OF X g [OF nd]]) (use inv mem_step_view [OF step nd] in \<open>auto simp: cache_inv_def\<close>)
  then show "cache_inv X ?e" using sh wf by (simp add: cache_inv_def)
qed

lemma cache_inv_regs:
  assumes "ext_good X" "cache_inv X e" "c_mem c = e_mem e"
  shows "cache_inv X (e\<lparr>e_cpu := c\<rparr>)"
proof -
  have "mem_wf (e_mem e)" using assms(2) by (simp add: cache_inv_def)
  then have "cache_inv X (e\<lparr>e_cpu := c, e_insns := e_insns e\<rparr>)"
    by (intro cache_inv_cpu [OF assms(1,2)]) (simp_all add: assms(3) mem_step_refl)
  then show ?thesis by simp
qed

lemma cache_inv_trace [simp]: "cache_inv X (record_trace pc e) = cache_inv X e"
  by (simp add: cache_inv_def shape_ok_def coherent_def known_block_def record_trace_def)

lemma cache_inv_stop [simp]: "cache_inv X (e\<lparr>e_stopRequested := b\<rparr>) = cache_inv X e"
  by (simp add: cache_inv_def shape_ok_def coherent_def known_block_def)

lemma trace_simps [simp]:
  "e_cpu (record_trace pc e) = e_cpu e" "e_insns (record_trace pc e) = e_insns e" "e_nextInsn (record_trace pc e) = e_nextInsn e"
  "e_stopRequested (record_trace pc e) = e_stopRequested e" "e_blockCacheGeneration (record_trace pc e) = e_blockCacheGeneration e"
  "e_blockJIT (record_trace pc e) = e_blockJIT e"
  by (simp_all add: record_trace_def)

section \<open>Single instructions\<close>

definition same_map :: "memory \<Rightarrow> memory \<Rightarrow> bool" where
  "same_map m m' \<longleftrightarrow> m_store m' = m_store m \<and> m_next m' = m_next m \<and> m_pages m' = m_pages m"

definition cpu_eq :: "cpu \<Rightarrow> cpu \<Rightarrow> bool" where
  "cpu_eq c c' \<longleftrightarrow> c_regs c' = c_regs c \<and> c_curInstrEnd c' = c_curInstrEnd c \<and> same_map (c_mem c) (c_mem c')"

lemma cpu_eq_refl [simp]: "cpu_eq c c"
  by (simp add: cpu_eq_def same_map_def)

text \<open>
  The instruction at RIP, decoded from the bytes that are there, run on the registers and on the
  same memory contents: with \<open>Inl\<close> its fault, with \<open>Inr b\<close> whether it branched. Memory may differ in
  its lookup cache and code-dirty flag, which hold no contents. The closure that runs is related to
  the decoded one by \<open>D\<close>: with \<open>(=)\<close> it is the decoded one, and this is the interpreter that decodes
  every instruction afresh; with \<open>drifted\<close> it is the decoded one after earlier runs of it, as in
  the engine.
\<close>

inductive cpu_run :: "(insn \<Rightarrow> insn \<Rightarrow> bool) \<Rightarrow> ext_decoders \<Rightarrow> cpu \<Rightarrow> cpu_error + bool \<Rightarrow> cpu \<Rightarrow> bool" for D X where
  cpu_run: "fst (decodeOne X (r_rip (c_regs c)) (c_mem c)) = Inr d \<Longrightarrow> d_insnID d = noInsnHook \<Longrightarrow>
    D (d_exec d) i \<Longrightarrow> same_map (c_mem c) m \<Longrightarrow> mem_wf m \<Longrightarrow>
    exec_insn i (c\<lparr>c_mem := m, c_curInstrEnd := r_rip (c_regs c) + of_nat (d_len d)\<rparr>) = (x, c1) \<Longrightarrow>
    c' = (if x = Inr False then c1\<lparr>c_regs := (c_regs c1)\<lparr>r_rip := r_rip (c_regs c) + of_nat (d_len d)\<rparr>\<rparr> else c1) \<Longrightarrow>
    cpu_run D X c x c'"

inductive cpu_step :: "(insn \<Rightarrow> insn \<Rightarrow> bool) \<Rightarrow> ext_decoders \<Rightarrow> cpu \<Rightarrow> cpu \<Rightarrow> bool" for D X where
  cpu_step: "cpu_run D X c (Inr b) c' \<Longrightarrow> cpu_step D X c c'"

inductive_cases cpu_runE: "cpu_run D X c x c'"

text \<open>
  The two interpreters part at a memory form of BT, BTS, BTR or BTC only: anywhere else the closure
  that runs is the decoded one.
\<close>

definition bt_memory_at :: "ext_decoders \<Rightarrow> cpu \<Rightarrow> bool" where
  "bt_memory_at X c \<longleftrightarrow> (\<exists>d. fst (decodeOne X (r_rip (c_regs c)) (c_mem c)) = Inr d \<and> keeps_state (d_exec d))"

lemma cpu_run_strict: "cpu_run drifted X c x c' \<Longrightarrow> cpu_run (=) X c x c' \<or> bt_memory_at X c"
proof (elim cpu_runE, goal_cases)
  case (1 d i m c1)
  show ?case
  proof (cases "keeps_state (d_exec d)")
    case True
    then show ?thesis using 1 by (auto simp: bt_memory_at_def)
  next
    case False
    then have "d_exec d = i" by (rule drifted_same [OF _ 1(4), symmetric])
    then show ?thesis using 1 by (intro disjI1 cpu_run.intros [of X c d "(=)" "d_exec d" m x c1]) simp_all
  qed
qed

text \<open>
  The block generation is a 64-bit counter that every invalidation raises; the invariant needs it
  not to wrap around. \<open>gen_room n e\<close>: \<open>n\<close> more invalidations do not.
\<close>

definition gen_room :: "nat \<Rightarrow> 'p engine_scheme \<Rightarrow> bool" where
  "gen_room n e \<longleftrightarrow> unat (e_blockCacheGeneration e) + n < 2 ^ 64"

lemma gen_room_mono: "gen_room n e \<Longrightarrow> m \<le> n \<Longrightarrow> e_blockCacheGeneration e' = e_blockCacheGeneration e \<Longrightarrow> gen_room m e'"
  by (simp add: gen_room_def)

lemma gen_succ: "gen_room (Suc n) e \<Longrightarrow> unat (e_blockCacheGeneration e + 1) = unat (e_blockCacheGeneration e) + 1"
  by (simp add: gen_room_def unat_word_ariths)

lemma invalidate_inv:
  assumes "mem_wf (e_mem e)" "shape_ok e" "gen_room 1 e"
  shows "cache_inv X (invalidateCodeCaches e)"
proof -
  note g = gen_succ [OF assms(3) [unfolded One_nat_def]]
  have old: "b_generation b < e_blockCacheGeneration e + 1" if "b \<in> ran (e_blockCache e)" for b
  proof -
    have "b_generation b \<le> e_blockCacheGeneration e" using assms(2) that by (simp add: shape_ok_def known_block_def)
    then show ?thesis using g by (simp add: word_le_nat_alt word_less_nat_alt)
  qed
  then have "b_generation b \<le> e_blockCacheGeneration e + 1 \<and> b_generation b \<noteq> e_blockCacheGeneration e + 1"
    if "b \<in> ran (e_blockCache e)" for b using that by force
  then show ?thesis
    using assms(1) by (simp add: cache_inv_def shape_ok_def coherent_def known_block_def invalidateCodeCaches_def)
qed

lemma poll_dirty_spec:
  assumes inv: "cache_inv X e" and room: "gen_room (Suc n) e" and p: "poll_dirty e = (dirty, e')"
  shows "cache_inv X e'" "\<not> m_codeDirty (e_mem e')" "cpu_eq (e_cpu e) (e_cpu e')" "dirty = m_codeDirty (e_mem e)"
    "\<not> dirty \<Longrightarrow> e' = e" "gen_room n e'" "e_stopRequested e' = e_stopRequested e" "e_blockJIT e' = e_blockJIT e"
proof -
  define e1 where "e1 = set_e_mem ((e_mem e)\<lparr>m_codeDirty := False\<rparr>) e"
  have e1: "e_mem e1 = (e_mem e)\<lparr>m_codeDirty := False\<rparr>" "mem_wf (e_mem e1)" "shape_ok e1" "gen_room (Suc n) e1"
    using inv room by (auto simp: e1_def set_e_mem_def cache_inv_def mem_wf_def shape_ok_def known_block_def gen_room_def)
  have e': "dirty = m_codeDirty (e_mem e)" "e' = (if dirty then invalidateCodeCaches e1 else e1)"
    using p by (auto simp: poll_dirty_def consumeCodeDirty_def e1_def Let_def)
  have same: "e1 = e" if "\<not> m_codeDirty (e_mem e)"
    using that by (simp add: e1_def set_e_mem_def)
  show "dirty = m_codeDirty (e_mem e)" by (rule e')
  show "\<not> dirty \<Longrightarrow> e' = e" using e' same by simp
  show "cache_inv X e'"
    using e' same inv invalidate_inv [OF e1(2,3) gen_room_mono [OF e1(4)]] by simp
  show "\<not> m_codeDirty (e_mem e')" "cpu_eq (e_cpu e) (e_cpu e')" "e_stopRequested e' = e_stopRequested e" "e_blockJIT e' = e_blockJIT e"
    using e' by (simp_all add: invalidateCodeCaches_def e1_def set_e_mem_def cpu_eq_def same_map_def)
  have "unat (e_blockCacheGeneration e1 + 1) = unat (e_blockCacheGeneration e1) + 1" by (rule gen_succ [OF e1(4)])
  then show "gen_room n e'"
    using e' e1(4) by (simp add: gen_room_def invalidateCodeCaches_def)
qed

lemma exec_at_spec:
  assumes X: "ext_good X" and inv: "cache_inv X e" and ok: "insn_ok (d_exec (e_insns e i))" and x: "exec_at i e = (r, e')"
  shows "cache_inv X e'" "\<not> m_codeDirty (e_mem e') \<Longrightarrow> grows e e'"
    "exec_insn (d_exec (e_insns e i)) (e_cpu e) = (r, e_cpu e')" "e_blockCacheGeneration e' = e_blockCacheGeneration e"
    "e_nextInsn e' = e_nextInsn e" "d_endsBlock (e_insns e' j) = d_endsBlock (e_insns e j)"
    "d_len (e_insns e' j) = d_len (e_insns e j)" "c_curInstrEnd (e_cpu e') = c_curInstrEnd (e_cpu e)"
proof -
  define f where "f = (e_insns e)(i := (e_insns e i)\<lparr>d_exec := insn_after (d_exec (e_insns e i)) (e_cpu e)\<rparr>)"
  obtain c where c: "exec_insn (d_exec (e_insns e i)) (e_cpu e) = (r, c)" "e' = e\<lparr>e_cpu := c, e_insns := f\<rparr>"
    using x by (auto simp: exec_at_def Let_def f_def split: prod.splits)
  have wf: "mem_wf (e_mem e)" using inv by (simp add: cache_inv_def)
  note st = keepsD [OF keeps_exec_insn [OF ok] wf c(1)]
  have drift: "drifted_dec (e_insns e j) (f j)" for j
    using insn_after_drifted [of "d_exec (e_insns e i)" "e_cpu e"] by (simp add: drifted_dec_def f_def)
  note ci = cache_inv_cpu [OF X inv st(1) drift]
  show "cache_inv X e'" "\<not> m_codeDirty (e_mem e') \<Longrightarrow> grows e e'" using ci by (simp_all add: c(2))
  show "exec_insn (d_exec (e_insns e i)) (e_cpu e) = (r, e_cpu e')" "e_blockCacheGeneration e' = e_blockCacheGeneration e"
    "e_nextInsn e' = e_nextInsn e" "d_endsBlock (e_insns e' j) = d_endsBlock (e_insns e j)"
    "d_len (e_insns e' j) = d_len (e_insns e j)" "c_curInstrEnd (e_cpu e') = c_curInstrEnd (e_cpu e)"
    using c st(2) by (simp_all add: f_def)
qed

lemma same_map_refl [simp]: "same_map m m"
  by (simp add: same_map_def)

lemma set_curInstrEnd_inv:
  assumes "ext_good X" "cache_inv X e"
  shows "cache_inv X (set_curInstrEnd v e)"
  unfolding set_curInstrEnd_def by (rule cache_inv_regs [OF assms]) simp

lemma set_e_rip_inv:
  assumes "ext_good X" "cache_inv X e"
  shows "cache_inv X (set_e_rip v e)"
  unfolding set_e_rip_def by (rule cache_inv_regs [OF assms]) simp

lemma block_insn_spec:
  assumes X: "ext_good X" and inv: "cache_inv X e" and nd: "\<not> m_codeDirty (e_mem e)" and room: "gen_room (Suc n) e"
    and en: "entry_ok X (e_mem e) (e_rip e) (e_insns e i)" "d_insnID (e_insns e i) = noInsnHook"
    and next': "next' = e_rip e + of_nat (d_len (e_insns e i))"
    and b: "block_insn i next' e = (r, e')"
  shows "cache_inv X e'" "gen_room n e'"
    "\<And>err. r = XErr err \<Longrightarrow> cpu_run drifted X (e_cpu e) (Inl err) (e_cpu e')"
    "r = XDirty \<Longrightarrow> \<exists>c. cpu_step drifted X (e_cpu e) c \<and> cpu_eq c (e_cpu e')"
    "\<And>br. r = XNext br \<Longrightarrow> cpu_step drifted X (e_cpu e) (e_cpu e') \<and> \<not> m_codeDirty (e_mem e') \<and> grows e e' \<and>
       e_blockCacheGeneration e' = e_blockCacheGeneration e \<and> (\<not> br \<longrightarrow> e_rip e' = next') \<and>
       (br \<longrightarrow> d_endsBlock (e_insns e i)) \<and> gen_room (Suc n) e'"
proof -
  have wf: "mem_wf (e_mem e)" using inv by (simp add: cache_inv_def)
  note dec = entry_ok_decoded [OF X wf en(1)]
  obtain d where d: "fst (decodeOne X (e_rip e) (e_mem e)) = Inr d" "drifted_dec d (e_insns e i)"
    using en(1) unfolding entry_ok_def by blast
  define e0 where "e0 = set_curInstrEnd next' e"
  have inv0: "cache_inv X e0" unfolding e0_def by (rule set_curInstrEnd_inv [OF X inv])
  have e0: "e_insns e0 = e_insns e" "e_cpu e0 = (e_cpu e)\<lparr>c_curInstrEnd := next'\<rparr>" "e_nextInsn e0 = e_nextInsn e"
      "e_blockCacheGeneration e0 = e_blockCacheGeneration e"
    by (simp_all add: e0_def set_curInstrEnd_def)
  have ok: "insn_ok (d_exec (e_insns e0 i))" using dec(1) by (simp add: decoded_ok_def e0)
  obtain x e1 where x: "exec_at i e0 = (x, e1)" by fastforce
  note ex = exec_at_spec [OF X inv0 ok x]
  have g0: "grows e e1" if "\<not> m_codeDirty (e_mem e1)"
    using ex(2) [OF that] by (simp add: grows_def e0)
  have run: "cpu_run drifted X (e_cpu e) x c'"
    if "c' = (if x = Inr False then (e_cpu e1)\<lparr>c_regs := (c_regs (e_cpu e1))\<lparr>r_rip := next'\<rparr>\<rparr> else e_cpu e1)" for c'
  proof (rule cpu_run.intros [OF d(1)])
    show "d_insnID d = noInsnHook" "drifted (d_exec d) (d_exec (e_insns e i))" using d(2) en(2) by (auto simp: drifted_dec_def)
    have n: "r_rip (c_regs (e_cpu e)) + of_nat (d_len d) = next'" using d(2) by (simp add: next' drifted_dec_def)
    show "exec_insn (d_exec (e_insns e i)) ((e_cpu e)\<lparr>c_mem := e_mem e, c_curInstrEnd := r_rip (c_regs (e_cpu e)) + of_nat (d_len d)\<rparr>) = (x, e_cpu e1)"
      using ex(3) by (simp add: n e0)
    show "c' = (if x = Inr False then (e_cpu e1)\<lparr>c_regs := (c_regs (e_cpu e1))\<lparr>r_rip := r_rip (c_regs (e_cpu e)) + of_nat (d_len d)\<rparr>\<rparr> else e_cpu e1)"
      unfolding n by (rule that)
  qed (simp_all add: wf)
  have room1: "gen_room (Suc n) e1" using room ex(4) by (simp add: gen_room_def e0)
  have main: "cache_inv X e' \<and> gen_room n e' \<and> (\<forall>err. r = XErr err \<longrightarrow> cpu_run drifted X (e_cpu e) (Inl err) (e_cpu e')) \<and>
      (r = XDirty \<longrightarrow> (\<exists>c. cpu_step drifted X (e_cpu e) c \<and> cpu_eq c (e_cpu e'))) \<and>
      (\<forall>br. r = XNext br \<longrightarrow> cpu_step drifted X (e_cpu e) (e_cpu e') \<and> \<not> m_codeDirty (e_mem e') \<and> grows e e' \<and>
       e_blockCacheGeneration e' = e_blockCacheGeneration e \<and> (\<not> br \<longrightarrow> e_rip e' = next') \<and>
       (br \<longrightarrow> d_endsBlock (e_insns e i)) \<and> gen_room (Suc n) e')"
  proof (cases x)
    case (Inl err)
    then have r: "r = XErr err" "e' = e1" using b x by (simp_all add: block_insn_def e0_def)
    show ?thesis
      using ex(1) room1 run [OF refl] Inl by (simp add: r gen_room_def)
  next
    case (Inr br)
    define e2 where "e2 = (if br then e1 else set_e_rip next' e1)"
    obtain dirty e3 where p: "poll_dirty e2 = (dirty, e3)" by fastforce
    have r: "r = (if dirty then XDirty else XNext br)" "e' = e3"
      using b x Inr p by (simp_all add: block_insn_def e0_def e2_def Let_def)
    have inv2: "cache_inv X e2" using ex(1) set_e_rip_inv [OF X ex(1)] by (simp add: e2_def)
    have e2: "e_cpu e2 = (if br then e_cpu e1 else (e_cpu e1)\<lparr>c_regs := (c_regs (e_cpu e1))\<lparr>r_rip := next'\<rparr>\<rparr>)"
        "e_mem e2 = e_mem e1" "e_insns e2 = e_insns e1" "e_nextInsn e2 = e_nextInsn e1"
        "e_blockCacheGeneration e2 = e_blockCacheGeneration e1"
      by (simp_all add: e2_def set_e_rip_def)
    have room2: "gen_room (Suc n) e2" using room1 by (simp add: gen_room_def e2)
    note pd = poll_dirty_spec [OF inv2 room2 p]
    have step: "cpu_step drifted X (e_cpu e) (e_cpu e2)"
      using run [of "e_cpu e2"] Inr by (intro cpu_step.intros [of drifted X _ br]) (simp add: e2)
    have ends: "d_endsBlock (e_insns e i)" if br
    proof -
      have "fst (exec_insn (d_exec (e_insns e i)) (e_cpu e0)) = Inr True" using ex(3) Inr that by (simp add: e0)
      from branch_may_branch [OF _ this] dec(1) show ?thesis by (simp add: decoded_ok_def)
    qed
    show ?thesis
    proof (cases dirty)
      case True
      then show ?thesis using pd(1,3,6) step by (auto simp: r)
    next
      case False
      have e3: "e3 = e2" by (rule pd(5) [OF False])
      have nd2: "\<not> m_codeDirty (e_mem e1)" using pd(2) unfolding e3 e2(2) .
      have "grows e e2" using g0 [OF nd2] by (simp add: grows_def e2)
      then show ?thesis
        using pd(1,2,6) step ends room2 ex(4) by (simp add: r False e3 e2 e0)
    qed
  qed
  show "cache_inv X e'" "gen_room n e'"
    "\<And>err. r = XErr err \<Longrightarrow> cpu_run drifted X (e_cpu e) (Inl err) (e_cpu e')"
    "r = XDirty \<Longrightarrow> \<exists>c. cpu_step drifted X (e_cpu e) c \<and> cpu_eq c (e_cpu e')"
    "\<And>br. r = XNext br \<Longrightarrow> cpu_step drifted X (e_cpu e) (e_cpu e') \<and> \<not> m_codeDirty (e_mem e') \<and> grows e e' \<and>
       e_blockCacheGeneration e' = e_blockCacheGeneration e \<and> (\<not> br \<longrightarrow> e_rip e' = next') \<and>
       (br \<longrightarrow> d_endsBlock (e_insns e i)) \<and> gen_room (Suc n) e'"
    using main by blast+
qed

section \<open>Decoding through the cache\<close>

lemma decode_page_spec:
  assumes inv: "cache_inv X e" and p: "decode_page pc e = (p, e')"
  shows "cache_inv X e'" "e_decodeCache e' (pageAddr pc) = Some p" "e_cpu e' = e_cpu e" "e_insns e' = e_insns e"
    "e_nextInsn e' = e_nextInsn e" "e_blockCacheGeneration e' = e_blockCacheGeneration e"
    "e_blockCache e' = e_blockCache e" "e_cachedBlock e' = e_cachedBlock e" "e_blockJIT e' = e_blockJIT e"
    "e_stopRequested e' = e_stopRequested e"
proof -
  have fnd: "cache_inv X e2 \<and> e_decodeCache e2 (pageAddr pc) = Some q \<and> e_cpu e2 = e_cpu e \<and> e_insns e2 = e_insns e \<and>
      e_nextInsn e2 = e_nextInsn e \<and> e_blockCacheGeneration e2 = e_blockCacheGeneration e \<and>
      e_blockCache e2 = e_blockCache e \<and> e_cachedBlock e2 = e_cachedBlock e \<and> e_blockJIT e2 = e_blockJIT e \<and>
      e_stopRequested e2 = e_stopRequested e"
    if "load_page (pageAddr pc) e = (q, e2)" for q e2
  proof (cases "e_decodeCache e (pageAddr pc)")
    case (Some p')
    then show ?thesis
      using that inv by (auto simp: load_page_def cache_inv_def shape_ok_def coherent_def known_block_def)
  next
    case None
    have lt: "\<And>pa q. e_decodeCache e pa = Some q \<Longrightarrow> q < e_nextPage e" using inv by (simp add: cache_inv_def shape_ok_def)
    then have ne: "e_decodeCache e pa \<noteq> Some (e_nextPage e)" for pa by fastforce
    have e2: "q = e_nextPage e" "e2 = e\<lparr>e_pages := (e_pages e)(q := Map.empty), e_nextPage := q + 1,
        e_decodeCache := (e_decodeCache e)(pageAddr pc \<mapsto> q), e_cachedDecodePageAddr := pageAddr pc, e_cachedDecodePage := Some q\<rparr>"
      using that None by (auto simp: load_page_def Let_def)
    have sh: "shape_ok e" using inv by (simp add: cache_inv_def)
    have "shape_ok e2"
      using sh lt ne unfolding shape_ok_def known_block_def e2 by (auto simp: less_SucI split: if_splits)
    moreover have "coherent X e2" if "coherent X e"
      using that ne unfolding coherent_def known_block_def e2 by (auto split: if_splits)
    ultimately show ?thesis using inv by (auto simp: cache_inv_def e2)
  qed
  have hit: "e_decodeCache e (pageAddr pc) = Some q" if "e_cachedDecodePage e = Some q" "e_cachedDecodePageAddr e = pageAddr pc" for q
    using inv that by (auto simp: cache_inv_def shape_ok_def)
  show "cache_inv X e'" "e_decodeCache e' (pageAddr pc) = Some p" "e_cpu e' = e_cpu e" "e_insns e' = e_insns e"
    "e_nextInsn e' = e_nextInsn e" "e_blockCacheGeneration e' = e_blockCacheGeneration e"
    "e_blockCache e' = e_blockCache e" "e_cachedBlock e' = e_cachedBlock e" "e_blockJIT e' = e_blockJIT e"
    "e_stopRequested e' = e_stopRequested e"
    using p fnd inv hit unfolding decode_page_def by (auto split: option.splits if_splits)
qed

lemma pageAddr_split: "pageAddr pc + of_nat (unat (pc AND pageMask)) = pc"
proof -
  have "of_nat (unat (pc AND pageMask)) = pc AND pageMask" by simp
  then show ?thesis unfolding pageAddr_def by (simp only: andn_add_and)
qed

lemma cachedDecode_spec:
  assumes X: "ext_good X" and inv: "cache_inv X e" and nd: "\<not> m_codeDirty (e_mem e)" and c: "cachedDecode X pc e = (r, e')"
  shows "cache_inv X e' \<and> grows e e' \<and> \<not> m_codeDirty (e_mem e') \<and> same_core (e_mem e) (e_mem e') \<and>
    e_cpu e' = (e_cpu e)\<lparr>c_mem := e_mem e'\<rparr> \<and>
    e_blockCacheGeneration e' = e_blockCacheGeneration e \<and> e_blockCache e' = e_blockCache e \<and>
    e_cachedBlock e' = e_cachedBlock e \<and> e_blockJIT e' = e_blockJIT e \<and>
    (case r of Inl err \<Rightarrow> fst (decodeOne X pc (e_mem e)) = Inl err
     | Inr i \<Rightarrow> i < e_nextInsn e' \<and> entry_ok X (e_mem e') pc (e_insns e' i))"
proof -
  obtain p e1 where p: "decode_page pc e = (p, e1)" by fastforce
  note dp = decode_page_spec [OF inv p]
  have wf: "mem_wf (e_mem e)" using inv by (simp add: cache_inv_def)
  have co: "coherent X e1" "shape_ok e1" using dp(1) nd by (simp_all add: cache_inv_def dp(3))
  define idx where "idx = unat (pc AND pageMask)"
  have pc: "pageAddr pc + of_nat idx = pc" unfolding idx_def by (rule pageAddr_split)
  have g1: "grows e e1" using wf by (simp add: grows_def dp)
  show ?thesis
  proof (cases "e_pages e1 p idx")
    case (Some i)
    then have r: "r = Inr i" "e' = e1" using c p by (simp_all add: cachedDecode_def idx_def Let_def)
    have "i < e_nextInsn e1" using co(2) dp(2) Some unfolding shape_ok_def by blast
    moreover have "entry_ok X (e_mem e1) (pageAddr pc + of_nat idx) (e_insns e1 i)"
      using co(1) dp(2) Some unfolding coherent_def by blast
    ultimately show ?thesis using dp g1 nd by (simp add: r pc)
  next
    case None
    obtain x m where x: "decodeOne X pc (e_mem e) = (x, m)" by fastforce
    note d1 = decodeOne_spec [OF X wf x]
    have step: "mem_step (e_mem e1) m" using same_core_step [OF d1(1,2)] by (simp add: dp)
    have ndm: "\<not> m_codeDirty m" using d1(2) nd by (simp add: same_core_def)
    have se: "set_e_mem m e1 = e1\<lparr>e_cpu := (e_cpu e1)\<lparr>c_mem := m\<rparr>, e_insns := e_insns e1\<rparr>" by (simp add: set_e_mem_def)
    have inv2: "cache_inv X (set_e_mem m e1)" and g2: "grows e1 (set_e_mem m e1)"
      unfolding se using cache_inv_cpu [OF X dp(1), of "(e_cpu e1)\<lparr>c_mem := m\<rparr>" "e_insns e1"] step ndm by simp_all
    show ?thesis
    proof (cases x)
      case (Inl err)
      then have r: "r = Inl err" "e' = set_e_mem m e1" using c p None x by (simp_all add: cachedDecode_def idx_def Let_def dp)
      show ?thesis using inv2 grows_trans [OF g1 g2] ndm d1(2) x Inl dp by (simp add: r set_e_mem_def)
    next
      case (Inr d)
      define i where "i = e_nextInsn e1"
      have e': "r = Inr i" "e' = (set_e_mem m e1)\<lparr>e_insns := (e_insns e1)(i := d), e_nextInsn := i + 1,
          e_pages := (e_pages e1)(p := (e_pages e1 p)(idx \<mapsto> i))\<rparr>"
        using c p None x Inr by (simp_all add: cachedDecode_def idx_def Let_def dp i_def set_e_mem_def)
      have em: "e_mem e' = m" by (simp add: e' set_e_mem_def)
      have ent: "entry_ok X m pc d"
        using decodeOne_view [OF X d1(1) wf same_core_view [OF d1(2)], of pc] x Inr by (auto simp: entry_ok_def)
      have g3: "grows (set_e_mem m e1) e'"
        using d1(1) by (simp add: grows_def e' set_e_mem_def i_def)
      have sh: "shape_ok e'"
        using co(2) dp(2) unfolding shape_ok_def known_block_def e' set_e_mem_def
        by (auto simp: i_def less_SucI split: if_splits)
      have co2: "coherent X (set_e_mem m e1)" "shape_ok (set_e_mem m e1)" using inv2 ndm by (simp_all add: cache_inv_def set_e_mem_def)
      have "coherent X e'"
        unfolding coherent_def
      proof (intro conjI allI impI)
        fix pa q idx' j assume q: "e_decodeCache e' pa = Some q" "e_pages e' q idx' = Some j"
        have dc: "e_decodeCache e1 pa = Some q" using q(1) by (simp add: e' set_e_mem_def)
        show "entry_ok X (e_mem e') (pa + of_nat idx') (e_insns e' j)"
        proof (cases "q = p \<and> idx' = idx")
          case True
          then have "pa = pageAddr pc" using dc dp(2) co(2) unfolding shape_ok_def by blast
          moreover have "j = i" using q(2) True by (simp add: e')
          ultimately show ?thesis using True ent by (simp add: em pc) (simp add: e')
        next
          case False
          then have old: "e_pages e1 q idx' = Some j" using q(2) by (auto simp: e' split: if_splits)
          have "j < i" using co(2) dc old unfolding shape_ok_def i_def by blast
          moreover have "entry_ok X m (pa + of_nat idx') (e_insns e1 j)"
            using co2(1) dc old unfolding coherent_def by (simp add: set_e_mem_def)
          ultimately show ?thesis by (simp add: em) (simp add: e')
        qed
      next
        fix b assume b: "known_block e' b" "b_generation b = e_blockCacheGeneration e'"
        have "known_block (set_e_mem m e1) b" "b_generation b = e_blockCacheGeneration (set_e_mem m e1)"
          using b by (simp_all add: known_block_def e')
        then have "b_instructions b \<noteq> [] \<and> block_seq X (e_mem (set_e_mem m e1)) (e_insns (set_e_mem m e1))
            (e_nextInsn (set_e_mem m e1)) (b_start b) (b_instructions b)"
          using co2(1) unfolding coherent_def by blast
        then show "b_instructions b \<noteq> []" "block_seq X (e_mem e') (e_insns e') (e_nextInsn e') (b_start b) (b_instructions b)"
          using block_seq_grows [OF X g3] by blast+
      qed
      then have "cache_inv X e'" using sh d1(1) by (simp add: cache_inv_def em)
      moreover have "grows e e'" by (rule grows_trans [OF grows_trans [OF g1 g2] g3])
      moreover have "i < e_nextInsn e'" "e_insns e' i = d" by (simp_all add: e')
      ultimately show ?thesis
        using ent d1(2) ndm dp by (simp add: e'(1) em) (simp add: e'(2) set_e_mem_def)
    qed
  qed
qed

section \<open>Blocks\<close>

text \<open>An operation on the caches alone: of the CPU it changes at most the lookup cache of memory.\<close>

definition cache_step :: "ext_decoders \<Rightarrow> 'p engine_scheme \<Rightarrow> 'p engine_scheme \<Rightarrow> bool" where
  "cache_step X e e' \<longleftrightarrow> cache_inv X e' \<and> grows e e' \<and> \<not> m_codeDirty (e_mem e') \<and> same_core (e_mem e) (e_mem e') \<and>
    c_regs (e_cpu e') = c_regs (e_cpu e) \<and> c_curInstrEnd (e_cpu e') = c_curInstrEnd (e_cpu e) \<and>
    e_blockCacheGeneration e' = e_blockCacheGeneration e \<and>
    e_blockJIT e' = e_blockJIT e"

lemma cache_step_refl: "cache_inv X e \<Longrightarrow> \<not> m_codeDirty (e_mem e) \<Longrightarrow> cache_step X e e"
  by (simp add: cache_step_def cache_inv_def grows_refl)

lemma cache_step_trans: "cache_step X a b \<Longrightarrow> cache_step X b c \<Longrightarrow> cache_step X a c"
  unfolding cache_step_def using grows_trans same_core_trans by auto

lemma cache_step_eq: "cache_step X e e' \<Longrightarrow> cpu_eq (e_cpu e) (e_cpu e')"
  by (simp add: cache_step_def cpu_eq_def same_map_def same_core_def)

definition block_ok :: "ext_decoders \<Rightarrow> 'p engine_scheme \<Rightarrow> basicBlock \<Rightarrow> bool" where
  "block_ok X e b \<longleftrightarrow> b_instructions b \<noteq> [] \<and>
     block_seq X (e_mem e) (e_insns e) (e_nextInsn e) (b_start b) (b_instructions b)"

lemma cachedDecode_step:
  assumes "ext_good X" "cache_inv X e" "\<not> m_codeDirty (e_mem e)" "cachedDecode X pc e = (r, e')"
  shows "cache_step X e e'" "e_blockCache e' = e_blockCache e" "e_cachedBlock e' = e_cachedBlock e"
    "\<And>err. r = Inl err \<Longrightarrow> fst (decodeOne X pc (e_mem e)) = Inl err"
    "\<And>i. r = Inr i \<Longrightarrow> i < e_nextInsn e' \<and> entry_ok X (e_mem e') pc (e_insns e' i)"
proof -
  note cd = cachedDecode_spec [OF assms]
  then obtain m where m: "e_cpu e' = (e_cpu e)\<lparr>c_mem := m\<rparr>" by blast
  then have "c_regs (e_cpu e') = c_regs (e_cpu e) \<and> c_curInstrEnd (e_cpu e') = c_curInstrEnd (e_cpu e)" by simp
  then show "cache_step X e e'" using cd unfolding cache_step_def by blast
  show "e_blockCache e' = e_blockCache e" "e_cachedBlock e' = e_cachedBlock e" using cd by blast+
  show "fst (decodeOne X pc (e_mem e)) = Inl err" if "r = Inl err" for err using cd that by simp
  show "i < e_nextInsn e' \<and> entry_ok X (e_mem e') pc (e_insns e' i)" if "r = Inr i" for i using cd that by simp
qed

lemma cachedBlockAt_spec:
  assumes inv: "cache_inv X e" and nd: "\<not> m_codeDirty (e_mem e)" and c: "cachedBlockAt start e = (r, e')"
  shows "cache_step X e e'" "e_cpu e' = e_cpu e" "\<And>b. r = Some b \<Longrightarrow> b_start b = start \<and> block_ok X e' b"
    "e_stopRequested e' = e_stopRequested e" "r = None \<Longrightarrow> e' = e"
proof -
  have co: "coherent X e" "shape_ok e" using inv nd by (simp_all add: cache_inv_def)
  have cases: "(e' = e \<and> (r = None \<or> (\<exists>b. r = Some b \<and> e_cachedBlock e = Some b \<and> e_cachedBlockStart e = start \<and>
        b_generation b = e_blockCacheGeneration e))) \<or>
      (\<exists>b. r = Some b \<and> e_blockCache e (block_slot start) = Some b \<and> block_valid start e b \<and>
        e' = e\<lparr>e_cachedBlockStart := start, e_cachedBlock := Some b\<rparr>)"
    using c by (auto simp: cachedBlockAt_def Let_def split: option.splits if_splits)
  have known: "known_block e b \<and> b_start b = start \<and> b_generation b = e_blockCacheGeneration e" if "r = Some b" for b
    using cases that co(2) by (auto simp: known_block_def block_valid_def shape_ok_def intro: ranI)
  have inv': "cache_inv X e'"
  proof (cases "e' = e")
    case False
    then obtain b where b: "r = Some b" "e_blockCache e (block_slot start) = Some b" "block_valid start e b"
        "e' = e\<lparr>e_cachedBlockStart := start, e_cachedBlock := Some b\<rparr>" using cases by blast
    have kb: "known_block e' b' \<longrightarrow> known_block e b'" for b'
      using b(2,4) by (auto simp: known_block_def intro: ranI)
    then show ?thesis
      using inv b(3,4) by (auto simp: cache_inv_def shape_ok_def coherent_def block_valid_def)
  qed (use inv in simp)
  have same: "e_cpu e' = e_cpu e" "e_insns e' = e_insns e" "e_nextInsn e' = e_nextInsn e" "e_blockJIT e' = e_blockJIT e"
      "e_blockCacheGeneration e' = e_blockCacheGeneration e" "e_stopRequested e' = e_stopRequested e"
    using cases by auto
  show "e_cpu e' = e_cpu e" "e_stopRequested e' = e_stopRequested e" by (fact same)+
  show "r = None \<Longrightarrow> e' = e" using cases by auto
  show "cache_step X e e'" using inv' nd inv by (simp add: cache_step_def grows_def same cache_inv_def)
  show "b_start b = start \<and> block_ok X e' b" if "r = Some b" for b
    using known [OF that] co(1) unfolding coherent_def block_ok_def same by blast
qed

primrec end_pc :: "(nat \<Rightarrow> decoded) \<Rightarrow> u64 \<Rightarrow> nat list \<Rightarrow> u64" where
  "end_pc f pc [] = pc"
| "end_pc f pc (i # is) = end_pc f (pc + of_nat (d_len (f i))) is"

lemma end_pc_append: "end_pc f pc (is @ [i]) = end_pc f pc is + of_nat (d_len (f i))"
  by (induction "is" arbitrary: pc) simp_all

lemma block_seq_append:
  "block_seq X m f n s is \<Longrightarrow> \<forall>j\<in>set is. \<not> d_endsBlock (f j) \<Longrightarrow> entry_ok X m (end_pc f s is) (f i) \<Longrightarrow> i < n \<Longrightarrow>
   d_insnID (f i) = noInsnHook \<Longrightarrow> block_seq X m f n s (is @ [i])"
  by (induction "is" arbitrary: s) auto

lemma block_seq_ids: "block_seq X m f n s is \<Longrightarrow> j \<in> set is \<Longrightarrow> j < n"
  by (induction "is" arbitrary: s) auto

lemma end_pc_cong: "(\<And>j. j \<in> set is \<Longrightarrow> d_len (f j) = d_len (g j)) \<Longrightarrow> end_pc f s is = end_pc g s is"
  by (induction "is" arbitrary: s) auto

lemma compile_loop_spec:
  assumes X: "ext_good X"
  shows "cache_inv X e \<Longrightarrow> \<not> m_codeDirty (e_mem e) \<Longrightarrow> block_seq X (e_mem e) (e_insns e) (e_nextInsn e) s ins \<Longrightarrow>
    \<forall>j\<in>set ins. \<not> d_endsBlock (e_insns e j) \<Longrightarrow> end_pc (e_insns e) s ins = pc \<Longrightarrow>
    compile_loop n X page pc ins e = (r, e') \<Longrightarrow>
    cache_step X e e' \<and> e_blockCache e' = e_blockCache e \<and> e_cachedBlock e' = e_cachedBlock e \<and>
    (\<forall>is. r = Inr is \<longrightarrow> block_seq X (e_mem e') (e_insns e') (e_nextInsn e') s is) \<and>
    (\<forall>err. r = Inl err \<longrightarrow> ins = [] \<and> fst (decodeOne X s (e_mem e)) = Inl err)"
proof (induction n arbitrary: pc ins e)
  case 0
  then have "r = Inr ins" "e' = e" by simp_all
  then show ?case using 0 by (simp add: cache_step_refl)
next
  case (Suc n)
  show ?case
  proof (cases "pageAddr pc = page")
    case False
    then show ?thesis using Suc.prems by (auto simp: cache_step_refl)
  next
    case True
    obtain x e1 where x: "cachedDecode X pc e = (x, e1)" by fastforce
    note cd = cachedDecode_step [OF X Suc.prems(1,2) x]
    have inv1: "cache_inv X e1" "\<not> m_codeDirty (e_mem e1)" and g: "grows e e1" using cd(1) by (simp_all add: cache_step_def)
    have seq1: "block_seq X (e_mem e1) (e_insns e1) (e_nextInsn e1) s ins" by (rule block_seq_grows [OF X g Suc.prems(3)])
    have drift: "drifted_dec (e_insns e j) (e_insns e1 j)" if "j \<in> set ins" for j
      using g block_seq_ids [OF Suc.prems(3) that] by (simp add: grows_def)
    have ends1: "\<forall>j\<in>set ins. \<not> d_endsBlock (e_insns e1 j)" and pc1: "end_pc (e_insns e1) s ins = pc"
      using drift Suc.prems(4,5) end_pc_cong [of ins "e_insns e1" "e_insns e" s] by (auto simp: drifted_dec_def)
    show ?thesis
    proof (cases x)
      case (Inl err)
      then have "r = (if ins = [] then Inl err else Inr ins)" "e' = e1"
        using Suc.prems(6) True x by (auto split: if_splits)
      moreover have "fst (decodeOne X pc (e_mem e)) = Inl err" using cd(4) Inl by simp
      ultimately show ?thesis using cd(1-3) seq1 Suc.prems(5) by auto
    next
      case (Inr i)
      note en = cd(5) [OF Inr]
      define d where "d = e_insns e1 i"
      consider (hook) "d_insnID d \<noteq> noInsnHook" | (last) "d_insnID d = noInsnHook" "d_endsBlock d"
        | (more) "d_insnID d = noInsnHook" "\<not> d_endsBlock d" by blast
      then show ?thesis
      proof cases
        case hook
        then have "r = Inr ins" "e' = e1" using Suc.prems(6) True x Inr by (simp_all add: d_def Let_def)
        then show ?thesis using cd(1-3) seq1 by simp
      next
        case last
        then have r: "r = Inr (ins @ [i])" "e' = e1" using Suc.prems(6) True x Inr by (simp_all add: d_def Let_def)
        have "block_seq X (e_mem e1) (e_insns e1) (e_nextInsn e1) s (ins @ [i])"
          by (rule block_seq_append [OF seq1 ends1]) (use en pc1 last in \<open>simp_all add: d_def\<close>)
        then show ?thesis using cd(1-3) r by simp
      next
        case more
        have seq2: "block_seq X (e_mem e1) (e_insns e1) (e_nextInsn e1) s (ins @ [i])"
          by (rule block_seq_append [OF seq1 ends1]) (use en pc1 more in \<open>simp_all add: d_def\<close>)
        have rec: "compile_loop n X page (pc + of_nat (d_len d)) (ins @ [i]) e1 = (r, e')"
          using Suc.prems(6) True x Inr more by (simp add: d_def Let_def)
        have "cache_step X e1 e' \<and> e_blockCache e' = e_blockCache e1 \<and> e_cachedBlock e' = e_cachedBlock e1 \<and>
            (\<forall>is. r = Inr is \<longrightarrow> block_seq X (e_mem e') (e_insns e') (e_nextInsn e') s is) \<and>
            (\<forall>err. r = Inl err \<longrightarrow> ins @ [i] = [] \<and> fst (decodeOne X s (e_mem e1)) = Inl err)"
          by (rule Suc.IH [OF inv1 seq2 _ _ rec]) (use ends1 more pc1 in \<open>auto simp: d_def end_pc_append\<close>)
        then show ?thesis using cd(1-3) cache_step_trans by fastforce
      qed
    qed
  qed
qed

end
