(* ===== verification/Engine_Laws.thy ===== *)
theory Engine_Laws
  imports Run_Laws
begin

unbundle bit_operations_syntax

text \<open>
  What the caches promise: a compiled block is the straight line of code at its address, running
  blocks is running single instructions (\<open>cpu_step\<close>), and a whole run of \<open>EmuStart\<close> keeps the
  invariant of the caches and agrees with the run that decodes every instruction afresh.
\<close>

section \<open>Compiled blocks\<close>

lemma cache_step_trace [simp]: "cache_step X e (record_trace pc e') = cache_step X e e'"
  by (simp add: cache_step_def grows_def)

lemma block_ok_trace [simp]: "block_ok X (record_trace pc e) b = block_ok X e b"
  by (simp add: block_ok_def)

lemma install_block:
  assumes inv: "cache_inv X e" and b: "block_ok X e b" "b_generation b = e_blockCacheGeneration e"
    and e': "e' = e\<lparr>e_blockCache := (e_blockCache e)(s \<mapsto> b), e_cachedBlockStart := b_start b, e_cachedBlock := Some b\<rparr>"
  shows "cache_inv X e'"
proof -
  have known: "b' = b \<or> known_block e b'" if "known_block e' b'" for b'
    using that by (auto simp: known_block_def e' ran_def split: if_splits)
  have sh: "shape_ok e" using inv by (simp add: cache_inv_def)
  have "b_generation b' \<le> e_blockCacheGeneration e" if "known_block e' b'" for b'
    using known [OF that] sh b(2) unfolding shape_ok_def by auto
  then have "shape_ok e'" using sh unfolding shape_ok_def by (simp add: e')
  moreover have "coherent X e'" if co: "coherent X e"
    unfolding coherent_def
  proof (intro conjI allI impI)
    fix pa p idx i assume "e_decodeCache e' pa = Some p" "e_pages e' p idx = Some i"
    then have "entry_ok X (e_mem e) (pa + of_nat idx) (e_insns e i)" using co unfolding coherent_def by (simp add: e')
    then show "entry_ok X (e_mem e') (pa + of_nat idx) (e_insns e' i)" by (simp add: e')
  next
    fix b' assume k: "known_block e' b'" "b_generation b' = e_blockCacheGeneration e'"
    then have "block_ok X e b'"
      using known [OF k(1)] co b(1) unfolding coherent_def block_ok_def by (auto simp: e')
    then show "b_instructions b' \<noteq> []" "block_seq X (e_mem e') (e_insns e') (e_nextInsn e') (b_start b') (b_instructions b')"
      by (simp_all add: block_ok_def e')
  qed
  moreover have "e_mem e' = e_mem e" by (simp add: e')
  ultimately show ?thesis using inv by (simp add: cache_inv_def)
qed

lemma compileBlock_spec:
  assumes X: "ext_good X" and inv: "cache_inv X e" and nd: "\<not> m_codeDirty (e_mem e)"
    and c: "compileBlock X start e = (r, e')"
  shows "cache_step X e e'" "\<And>b. r = Inr (Some b) \<Longrightarrow> b_start b = start \<and> block_ok X e' b"
    "\<And>err. r = Inl err \<Longrightarrow> fst (decodeOne X start (e_mem e)) = Inl err"
proof -
  obtain bo e1 where at: "cachedBlockAt start e = (bo, e1)" by fastforce
  note ca = cachedBlockAt_spec [OF inv nd at]
  have "cache_step X e e' \<and> (\<forall>b. r = Inr (Some b) \<longrightarrow> b_start b = start \<and> block_ok X e' b) \<and>
    (\<forall>err. r = Inl err \<longrightarrow> fst (decodeOne X start (e_mem e)) = Inl err)"
  proof (cases bo)
    case (Some b)
    then have "r = Inr (Some b)" "e' = e1" using c at by (simp_all add: compileBlock_def)
    then show ?thesis using ca(1,3) Some by simp
  next
    case None
    obtain x e2 where x: "compile_loop maxBlockInstructions X (pageAddr start) start [] e = (x, e2)" by fastforce
    have c': "compile_new X start e = (r, e')" using c at None ca(5) by (simp add: compileBlock_def)
    have cl: "cache_step X e e2 \<and> e_blockCache e2 = e_blockCache e \<and> e_cachedBlock e2 = e_cachedBlock e \<and>
        (\<forall>is. x = Inr is \<longrightarrow> block_seq X (e_mem e2) (e_insns e2) (e_nextInsn e2) start is) \<and>
        (\<forall>err. x = Inl err \<longrightarrow> ([] :: nat list) = [] \<and> fst (decodeOne X start (e_mem e)) = Inl err)"
      by (rule compile_loop_spec [OF X inv nd _ _ _ x]) simp_all
    show ?thesis
    proof (cases x)
      case (Inl err)
      then have "r = Inl err" "e' = e2" using c' x by (simp_all add: compile_new_def)
      then show ?thesis using cl Inl by simp
    next
      case (Inr ins)
      show ?thesis
      proof (cases "ins = []")
        case True
        then have "r = Inr None" "e' = e2" using c' x Inr by (simp_all add: compile_new_def)
        then show ?thesis using cl by simp
      next
        case False
        define b where "b = \<lparr>b_start = start, b_generation = e_blockCacheGeneration e, b_instructions = ins\<rparr>"
        have e': "r = Inr (Some b)" "e' = e2\<lparr>e_blockCache := (e_blockCache e2)(block_slot start \<mapsto> b),
            e_cachedBlockStart := b_start b, e_cachedBlock := Some b\<rparr>"
          using c' x Inr False by (simp_all add: compile_new_def b_def Let_def)
        have ok: "block_ok X e2 b" using cl Inr False by (simp add: block_ok_def b_def)
        have inv2: "cache_inv X e2" "e_blockCacheGeneration e2 = e_blockCacheGeneration e" using cl by (simp_all add: cache_step_def)
        have "cache_inv X e'" by (rule install_block [OF inv2(1) ok _ e'(2)]) (simp add: b_def inv2)
        moreover have "cache_step X e e2" using cl by blast
        ultimately have "cache_step X e e'" unfolding cache_step_def by (simp add: e' grows_def)
        moreover have "block_ok X e' b" using ok by (simp add: block_ok_def e')
        ultimately show ?thesis using e'(1) by (simp add: b_def)
      qed
    qed
  qed
  then show "cache_step X e e'" "\<And>b. r = Inr (Some b) \<Longrightarrow> b_start b = start \<and> block_ok X e' b"
    "\<And>err. r = Inl err \<Longrightarrow> fst (decodeOne X start (e_mem e)) = Inl err" by blast+
qed

lemma chain_spec:
  assumes inv: "cache_inv X e" and nd: "\<not> m_codeDirty (e_mem e)" and c: "chain e = (r, e')"
  shows "cache_step X e e'" "e_cpu e' = e_cpu e" "r = BReturn \<or> (\<exists>b. r = BChain b \<and> b_start b = e_rip e' \<and> block_ok X e' b)"
proof -
  obtain bo e1 where at: "cachedBlockAt (e_rip e) e = (bo, e1)" by fastforce
  note ca = cachedBlockAt_spec [OF inv nd at]
  have "cache_step X e e' \<and> e_cpu e' = e_cpu e \<and> (r = BReturn \<or> (\<exists>b. r = BChain b \<and> b_start b = e_rip e' \<and> block_ok X e' b))"
  proof (cases bo)
    case None
    then have "r = BReturn" "e' = e1" using c at by (simp_all add: chain_def)
    then show ?thesis using ca(1,2) by simp
  next
    case (Some b)
    then have "r = BChain b" "e' = record_trace (e_rip e1) e1" using c at by (simp_all add: chain_def)
    then show ?thesis using ca(1-3) Some by simp
  qed
  then show "cache_step X e e'" "e_cpu e' = e_cpu e" "r = BReturn \<or> (\<exists>b. r = BChain b \<and> b_start b = e_rip e' \<and> block_ok X e' b)"
    by blast+
qed

section \<open>Running a block\<close>

text \<open>
  What running part of a block has done to the CPU \<open>c\<close> it started from: some single steps, then the
  fault of the error, or what \<open>cpu_eq\<close> allows, or nothing and the next block, which stands at RIP.
\<close>

definition block_done :: "ext_decoders \<Rightarrow> nat \<Rightarrow> cpu \<Rightarrow> block_result \<Rightarrow> 'p engine_scheme \<Rightarrow> bool" where
  "block_done X n c r e' \<longleftrightarrow> cache_inv X e' \<and> gen_room n e' \<and> (\<exists>c1. (cpu_step drifted X)\<^sup>*\<^sup>* c c1 \<and>
     (case r of BReturn \<Rightarrow> cpu_eq c1 (e_cpu e')
      | BErr err \<Rightarrow> cpu_run drifted X c1 (Inl err) (e_cpu e')
      | BChain b \<Rightarrow> c1 = e_cpu e' \<and> \<not> m_codeDirty (e_mem e') \<and> gen_room (Suc n) e' \<and> b_start b = e_rip e' \<and> block_ok X e' b))"

lemma block_done_step: "cpu_step drifted X c c' \<Longrightarrow> block_done X n c' r e \<Longrightarrow> block_done X n c r e"
  unfolding block_done_def by (meson converse_rtranclp_into_rtranclp)

lemma block_done_return: "cache_inv X e \<Longrightarrow> gen_room n e \<Longrightarrow> cpu_eq c (e_cpu e) \<Longrightarrow> block_done X n c BReturn e"
  unfolding block_done_def by auto

lemma gen_room_Suc: "gen_room (Suc n) e \<Longrightarrow> gen_room n e"
  by (simp add: gen_room_def)

lemma chain_done:
  assumes "cache_inv X e" "\<not> m_codeDirty (e_mem e)" "gen_room (Suc n) e" "chain e = (r, e')"
  shows "block_done X n (e_cpu e) r e'"
proof -
  note cs = chain_spec [OF assms(1,2,4)]
  have g: "gen_room (Suc n) e'" "cache_inv X e'" "\<not> m_codeDirty (e_mem e')"
    using cs(1) assms(3) by (simp_all add: cache_step_def gen_room_def)
  show ?thesis
    using cs(3)
  proof (elim disjE exE)
    assume "r = BReturn"
    then show ?thesis using block_done_return [OF g(2) gen_room_Suc [OF g(1)]] cs(2) by simp
  next
    fix b assume "r = BChain b \<and> b_start b = e_rip e' \<and> block_ok X e' b"
    then show ?thesis unfolding block_done_def using g gen_room_Suc [OF g(1)] cs(2) by auto
  qed
qed

text \<open>
  The shared step of both loops: one instruction of the list, then either the end or the rest.
\<close>

lemma block_head:
  assumes X: "ext_good X" and inv: "cache_inv X e" and nd: "\<not> m_codeDirty (e_mem e)" and room: "gen_room (Suc n) e"
    and seq: "block_seq X (e_mem e) (e_insns e) (e_nextInsn e) pc (i # is)" and rip: "e_rip e = pc"
    and e1: "e1 = (if first then e else record_trace pc e)"
    and b: "block_insn i (pc + of_nat (d_len (e_insns e1 i))) e1 = (r, e2)"
  shows "\<And>err. r = XErr err \<Longrightarrow> block_done X n (e_cpu e) (BErr err) e2"
    "r = XDirty \<Longrightarrow> block_done X n (e_cpu e) BReturn e2"
    "\<And>br. r = XNext br \<Longrightarrow> cpu_step drifted X (e_cpu e) (e_cpu e2) \<and> cache_inv X e2 \<and> \<not> m_codeDirty (e_mem e2) \<and> gen_room (Suc n) e2 \<and>
       block_seq X (e_mem e2) (e_insns e2) (e_nextInsn e2) (pc + of_nat (d_len (e_insns e1 i))) is \<and>
       (if br then is = [] else e_rip e2 = pc + of_nat (d_len (e_insns e1 i)))"
proof -
  have same: "e_cpu e1 = e_cpu e" "e_insns e1 = e_insns e" "e_nextInsn e1 = e_nextInsn e"
      "e_blockCacheGeneration e1 = e_blockCacheGeneration e" "cache_inv X e1 = cache_inv X e"
    by (simp_all add: e1)
  have pre: "cache_inv X e1" "\<not> m_codeDirty (e_mem e1)" "gen_room (Suc n) e1" "entry_ok X (e_mem e1) (e_rip e1) (e_insns e1 i)"
      "d_insnID (e_insns e1 i) = noInsnHook" "pc + of_nat (d_len (e_insns e1 i)) = e_rip e1 + of_nat (d_len (e_insns e1 i))"
    using inv nd room seq rip by (simp_all add: same gen_room_def)
  note bi = block_insn_spec [OF X pre b]
  show "block_done X n (e_cpu e) (BErr err) e2" if "r = XErr err" for err
    unfolding block_done_def using bi(1,2) bi(3) [OF that] by (auto simp: same)
  show "block_done X n (e_cpu e) BReturn e2" if r: "r = XDirty"
  proof -
    obtain c where "cpu_step drifted X (e_cpu e) c" "cpu_eq c (e_cpu e2)" using bi(4) [OF r] unfolding same by blast
    then show ?thesis using block_done_step [OF _ block_done_return [OF bi(1,2)]] by blast
  qed
  show "cpu_step drifted X (e_cpu e) (e_cpu e2) \<and> cache_inv X e2 \<and> \<not> m_codeDirty (e_mem e2) \<and> gen_room (Suc n) e2 \<and>
       block_seq X (e_mem e2) (e_insns e2) (e_nextInsn e2) (pc + of_nat (d_len (e_insns e1 i))) is \<and>
       (if br then is = [] else e_rip e2 = pc + of_nat (d_len (e_insns e1 i)))" if r: "r = XNext br" for br
  proof -
    note nx = bi(5) [OF r]
    have g: "grows e e2" using nx by (simp add: grows_def same)
    have "block_seq X (e_mem e) (e_insns e) (e_nextInsn e) (pc + of_nat (d_len (e_insns e i))) is" using seq by simp
    note s2 = block_seq_grows [OF X g this]
    have "is = []" if br using nx seq that by (auto simp: same)
    then show ?thesis using nx bi(1) s2 by (simp add: same)
  qed
qed

lemma run_block0_spec:
  assumes X: "ext_good X"
  shows "cache_inv X e \<Longrightarrow> \<not> m_codeDirty (e_mem e) \<Longrightarrow> gen_room (Suc n) e \<Longrightarrow>
    block_seq X (e_mem e) (e_insns e) (e_nextInsn e) pc is \<Longrightarrow> is = [] \<or> e_rip e = pc \<Longrightarrow>
    run_block0 is first pc e = (r, e') \<Longrightarrow> block_done X n (e_cpu e) r e'"
proof (induction "is" arbitrary: first pc e)
  case Nil
  then show ?case using chain_done [OF Nil.prems(1-3)] by simp
next
  case (Cons i "is")
  show ?case
  proof (cases "e_stopRequested e")
    case True
    then show ?thesis using Cons.prems block_done_return [OF Cons.prems(1) gen_room_Suc [OF Cons.prems(3)]] by simp
  next
    case False
    define e1 where "e1 = (if first then e else record_trace pc e)"
    define nx where "nx = pc + of_nat (d_len (e_insns e1 i))"
    obtain x e2 where x: "block_insn i nx e1 = (x, e2)" by fastforce
    have rip: "e_rip e = pc" using Cons.prems(5) by simp
    note bh = block_head [OF X Cons.prems(1-4) rip e1_def x [unfolded nx_def]]
    have run: "run_block0 (i # is) first pc e = (case (x, e2) of
          (XErr err, e2) \<Rightarrow> (BErr err, e2) | (XDirty, e2) \<Rightarrow> (BReturn, e2)
        | (XNext branched, e2) \<Rightarrow> (if branched then
               case chain e2 of (BReturn, e3) \<Rightarrow> (BReturn, e3) | (_, e3) \<Rightarrow> run_block0 is False nx e3
             else run_block0 is False nx e2))"
      using False x unfolding run_block0.simps run_block.simps Let_def e1_def [symmetric] nx_def [symmetric] by simp
    show ?thesis
    proof (cases x)
      case (XErr err)
      then show ?thesis using run Cons.prems(6) bh(1) by simp
    next
      case XDirty
      then show ?thesis using run Cons.prems(6) bh(2) by simp
    next
      case (XNext br)
      have nxt: "cpu_step drifted X (e_cpu e) (e_cpu e2)" "cache_inv X e2" "\<not> m_codeDirty (e_mem e2)" "gen_room (Suc n) e2"
          "block_seq X (e_mem e2) (e_insns e2) (e_nextInsn e2) nx is" "br \<Longrightarrow> is = []" "\<not> br \<Longrightarrow> e_rip e2 = nx"
        using bh(3) [OF XNext] unfolding nx_def by (auto split: if_splits)
      have "block_done X n (e_cpu e2) r e'"
      proof (cases br)
        case False
        then have "run_block0 is False nx e2 = (r, e')" using run Cons.prems(6) XNext by simp
        then show ?thesis by (rule Cons.IH [OF nxt(2-5) disjI2 [OF nxt(7) [OF False]]])
      next
        case True
        note nil = nxt(6) [OF True]
        obtain y e3 where y: "chain e2 = (y, e3)" by fastforce
        note cs = chain_spec [OF nxt(2,3) y]
        have g3: "cache_inv X e3" "\<not> m_codeDirty (e_mem e3)" "gen_room (Suc n) e3"
          using cs(1) nxt(4) by (simp_all add: cache_step_def gen_room_def)
        show ?thesis
        proof (cases "y = BReturn")
          case ret: True
          then have "r = BReturn" "e' = e3" using run Cons.prems(6) XNext True y by simp_all
          then show ?thesis using block_done_return [OF g3(1) gen_room_Suc [OF g3(3)]] cs(2) by simp
        next
          case False
          then have "run_block0 [] False nx e3 = (r, e')" using run Cons.prems(6) XNext True y nil
            by (auto split: block_result.splits)
          then have "chain e3 = (r, e')" by simp
          from chain_done [OF g3 this] cs(2) show ?thesis by simp
        qed
      qed
      then show ?thesis by (rule block_done_step [OF nxt(1)])
    qed
  qed
qed

lemma run_block_spec:
  assumes X: "ext_good X"
  shows "cache_inv X e \<Longrightarrow> \<not> m_codeDirty (e_mem e) \<Longrightarrow> gen_room (Suc n) e \<Longrightarrow>
    block_seq X (e_mem e) (e_insns e) (e_nextInsn e) pc is \<Longrightarrow> is = [] \<or> e_rip e = pc \<Longrightarrow>
    run_block u is first pc e = (r, e') \<Longrightarrow> block_done X n (e_cpu e) r e'"
proof (induction "is" arbitrary: first pc e)
  case Nil
  then show ?case
    using chain_done [OF Nil.prems(1-3)] block_done_return [OF Nil.prems(1) gen_room_Suc [OF Nil.prems(3)]]
    by (auto split: if_splits)
next
  case (Cons i "is")
  show ?case
  proof (cases "e_stopRequested e \<or> e_rip e = u")
    case True
    then show ?thesis using Cons.prems block_done_return [OF Cons.prems(1) gen_room_Suc [OF Cons.prems(3)]] by simp
  next
    case False
    define e1 where "e1 = (if first then e else record_trace pc e)"
    define nx where "nx = pc + of_nat (d_len (e_insns e1 i))"
    obtain x e2 where x: "block_insn i nx e1 = (x, e2)" by fastforce
    have rip: "e_rip e = pc" using Cons.prems(5) by simp
    note bh = block_head [OF X Cons.prems(1-4) rip e1_def x [unfolded nx_def]]
    have run: "run_block u (i # is) first pc e = (case (x, e2) of
          (XErr err, e2) \<Rightarrow> (BErr err, e2) | (XDirty, e2) \<Rightarrow> (BReturn, e2)
        | (XNext branched, e2) \<Rightarrow> (if branched then (if e_rip e2 = u then (BReturn, e2) else chain e2)
             else run_block u is False nx e2))"
      using False x unfolding run_block0.simps run_block.simps Let_def e1_def [symmetric] nx_def [symmetric] by simp
    show ?thesis
    proof (cases x)
      case (XErr err)
      then show ?thesis using run Cons.prems(6) bh(1) by simp
    next
      case XDirty
      then show ?thesis using run Cons.prems(6) bh(2) by simp
    next
      case (XNext br)
      have nxt: "cpu_step drifted X (e_cpu e) (e_cpu e2)" "cache_inv X e2" "\<not> m_codeDirty (e_mem e2)" "gen_room (Suc n) e2"
          "block_seq X (e_mem e2) (e_insns e2) (e_nextInsn e2) nx is" "br \<Longrightarrow> is = []" "\<not> br \<Longrightarrow> e_rip e2 = nx"
        using bh(3) [OF XNext] unfolding nx_def by (auto split: if_splits)
      have "block_done X n (e_cpu e2) r e'"
      proof (cases br)
        case False
        then have "run_block u is False nx e2 = (r, e')" using run Cons.prems(6) XNext by simp
        then show ?thesis by (rule Cons.IH [OF nxt(2-5) disjI2 [OF nxt(7) [OF False]]])
      next
        case True
        have "(if e_rip e2 = u then (BReturn, e2) else chain e2) = (r, e')" using run Cons.prems(6) XNext True by simp
        then show ?thesis
          using chain_done [OF nxt(2-4)] block_done_return [OF nxt(2) gen_room_Suc [OF nxt(4)]] by (auto split: if_splits)
      qed
      then show ?thesis by (rule block_done_step [OF nxt(1)])
    qed
  qed
qed

lemma executeBlock_spec:
  assumes X: "ext_good X"
  shows "cache_inv X e \<Longrightarrow> \<not> m_codeDirty (e_mem e) \<Longrightarrow> gen_room (Suc n) e \<Longrightarrow> block_ok X e b \<Longrightarrow>
    executeBlock f b u e = Some (r, e') \<Longrightarrow>
    block_done X n (e_cpu e) (case r of None \<Rightarrow> BReturn | Some err \<Rightarrow> BErr err) e'"
proof (induction f arbitrary: b e)
  case (Suc f)
  show ?case
  proof (cases "e_rip e = b_start b")
    case False
    then show ?thesis using Suc.prems block_done_return [OF Suc.prems(1) gen_room_Suc [OF Suc.prems(3)]] by simp
  next
    case True
    obtain x e1 where x: "(if u = 0 then run_block0 (b_instructions b) True (b_start b) e
        else run_block u (b_instructions b) True (b_start b) e) = (x, e1)" by fastforce
    have seq: "block_seq X (e_mem e) (e_insns e) (e_nextInsn e) (b_start b) (b_instructions b)"
      using Suc.prems(4) by (simp add: block_ok_def)
    have fin: "block_done X n (e_cpu e) x e1"
      using x run_block0_spec [OF X Suc.prems(1-3) seq disjI2 [OF True]] run_block_spec [OF X Suc.prems(1-3) seq disjI2 [OF True]]
      by (auto split: if_splits)
    have exec: "executeBlock (Suc f) b u e = (case x of BReturn \<Rightarrow> Some (None, e1) | BErr err \<Rightarrow> Some (Some err, e1)
        | BChain b' \<Rightarrow> executeBlock f b' u e1)"
      using x True by (auto split: block_result.split if_splits)
    show ?thesis
    proof (cases x)
      case (BChain b')
      obtain c1 where c1: "(cpu_step drifted X)\<^sup>*\<^sup>* (e_cpu e) c1" "c1 = e_cpu e1" "\<not> m_codeDirty (e_mem e1)" "gen_room (Suc n) e1" "block_ok X e1 b'"
          "cache_inv X e1"
        using fin BChain unfolding block_done_def by auto
      have "executeBlock f b' u e1 = Some (r, e')" using exec Suc.prems(5) BChain by simp
      from Suc.IH [OF c1(6,3,4,5) this] c1(1,2) show ?thesis
        unfolding block_done_def by (meson rtranclp_trans)
    qed (use exec Suc.prems(5) fin in auto)
  qed
qed simp

section \<open>The host's view: memory operations between instructions\<close>

lemma cache_inv_view:
  assumes X: "ext_good X" and inv: "cache_inv X e" and wf: "mem_wf m"
    and view: "\<not> m_codeDirty m \<Longrightarrow> \<not> m_codeDirty (e_mem e) \<and> code_view m = code_view (e_mem e)"
  shows "cache_inv X (set_e_mem m e)"
proof -
  let ?e = "set_e_mem m e"
  have wf0: "mem_wf (e_mem e)" and sh: "shape_ok e" using inv by (simp_all add: cache_inv_def)
  have sh': "shape_ok ?e" using sh by (simp add: shape_ok_def known_block_def set_e_mem_def)
  have "coherent X ?e" if nd: "\<not> m_codeDirty m"
  proof (rule coherent_grows [OF X _ sh])
    show "grows e ?e" using view [OF nd] wf wf0 by (simp add: grows_def set_e_mem_def)
    show "coherent X e" using inv view [OF nd] by (simp add: cache_inv_def)
  qed (simp_all add: set_e_mem_def)
  then show ?thesis using sh' wf by (simp add: cache_inv_def set_e_mem_def)
qed

lemma write_view:
  assumes wf: "mem_wf m" and len: "length bs \<le> 18446744073709551616"
    and w: "writeChecked a bs perm m = (r, m')" and nd: "\<not> m_codeDirty m'"
  shows "\<not> m_codeDirty m" "code_view m' = code_view m"
proof -
  define hi where "hi = write_end (fault_index m perm a 0 (length bs)) (length bs)"
  have m': "mem_at m' = upd_at a bs 0 hi (mem_at m)" "\<not> changes_code m a bs 0 hi" "\<not> m_codeDirty m"
    using writeChecked_spec [OF wf len, of a perm] w nd by (auto simp: hi_def)
  show "\<not> m_codeDirty m" by (rule m'(3))
  have at: "a + of_nat (unat (x - a)) = x" for x by simp
  show "code_view m' = code_view m"
  proof
    fix x
    have "bs ! unat (x - a) = b" if "unat (x - a) < hi" "mem_at m x = Some (p, b)" "p AND ProtExec \<noteq> 0" for p b
    proof -
      have "accessible m ProtExec x" "mem_byte m x = b" using that by (auto simp: accessible_def mem_byte_def)
      then show ?thesis using m'(2) that(1) unfolding changes_code_def by (metis at le0)
    qed
    then show "code_view m' x = code_view m x"
      unfolding code_view_def m'(1) by (auto simp: upd_at_def Let_def split: option.splits)
  qed
qed

text \<open>The operations on guest memory that the rest of the program performs on a live engine.\<close>

fun host_op :: "mem_op \<Rightarrow> bool" where
  "host_op OpConsumeDirty \<longleftrightarrow> False"
| "host_op OpClone \<longleftrightarrow> False"
| "host_op oper \<longleftrightarrow> op_fits oper"

lemma host_op_view:
  assumes wf: "mem_wf m" and op: "host_op oper" and nd: "\<not> m_codeDirty (run_op oper m)"
  shows "\<not> m_codeDirty m \<and> code_view (run_op oper m) = code_view m"
proof -
  have rd: "\<not> m_codeDirty m \<and> code_view m' = code_view m" if "same_core m m'" "\<not> m_codeDirty m'" for m'
    using that same_core_view [OF that(1)] by (simp add: same_core_def)
  have wr: "\<not> m_codeDirty m \<and> code_view (snd (writeChecked a bs p m)) = code_view m"
    if "length bs \<le> 18446744073709551616" "\<not> m_codeDirty (snd (writeChecked a bs p m))" for a bs p
    using write_view [OF wf that(1) prod.collapse [symmetric] that(2)] by simp
  have r: "same_core m (snd (readChecked a n p m))" for a n p
    using readChecked_spec [OF wf, of a n p] by auto
  show ?thesis
  proof (cases oper)
    case (OpMap a sz p)
    then show ?thesis using nd by (auto simp: MemMap_def Let_def split: if_splits option.splits)
  next
    case (OpUnmap a sz)
    then show ?thesis using nd by (simp add: MemUnmap_def Let_def)
  next
    case (OpProtect a sz p)
    then show ?thesis using nd by (simp add: MemProtect_def Let_def)
  next
    case (OpWrite a bs)
    then show ?thesis using op nd wr by (simp add: MemWrite_eq)
  next
    case (OpRead a n)
    then show ?thesis using nd rd [OF r] by (simp add: MemRead_eq)
  next
    case (OpFetch a n)
    then show ?thesis using nd rd [OF r] by (simp add: readCheckedInto_eq)
  next
    case (OpReadChecked a n p)
    then show ?thesis using nd rd [OF r] by simp
  next
    case (OpWriteChecked a bs p)
    then show ?thesis using op nd wr by simp
  qed (use op in simp_all)
qed

lemma host_op_fits: "host_op oper \<Longrightarrow> op_fits oper"
  by (cases oper) simp_all

lemma host_op_inv:
  assumes "ext_good X" "cache_inv X e" "host_op oper"
  shows "cache_inv X (set_e_mem (run_op oper (e_mem e)) e)"
proof -
  have wf: "mem_wf (e_mem e)" using assms(2) by (simp add: cache_inv_def)
  show ?thesis
    by (rule cache_inv_view [OF assms(1,2) run_op_wf [OF wf host_op_fits [OF assms(3)]] host_op_view [OF wf assms(3)]])
qed

lemma host_ops_view:
  "mem_wf m \<Longrightarrow> list_all host_op ops \<Longrightarrow> \<not> m_codeDirty (fold run_op ops m) \<Longrightarrow>
    \<not> m_codeDirty m \<and> code_view (fold run_op ops m) = code_view m"
proof (induction ops arbitrary: m)
  case (Cons oper ops)
  have op: "host_op oper" "list_all host_op ops" using Cons.prems(2) by simp_all
  have "\<not> m_codeDirty (run_op oper m) \<and> code_view (fold run_op ops (run_op oper m)) = code_view (run_op oper m)"
    using Cons.IH [OF run_op_wf [OF Cons.prems(1) host_op_fits [OF op(1)]] op(2)] Cons.prems(3) by simp
  then show ?case using host_op_view [OF Cons.prems(1) op(1)] by simp
qed simp

lemma host_ops_inv:
  assumes X: "ext_good X"
  shows "cache_inv X e \<Longrightarrow> list_all host_op ops \<Longrightarrow> cache_inv X (set_e_mem (fold run_op ops (e_mem e)) e)"
proof (induction ops arbitrary: e)
  case (Cons oper ops)
  have "cache_inv X (set_e_mem (run_op oper (e_mem e)) e)" using host_op_inv [OF X Cons.prems(1)] Cons.prems(2) by simp
  from Cons.IH [OF this] Cons.prems(2) show ?case by (simp add: set_e_mem_def)
qed (simp add: set_e_mem_def)

section \<open>Single steps do not depend on the lookup cache\<close>

lemma same_map_view: "same_map m m' \<Longrightarrow> code_view m' = code_view m"
  unfolding same_map_def code_view_def mem_at_def by (elim conjE) (simp only:)

lemma cpu_run_cong:
  assumes X: "ext_good X" and eq: "cpu_eq c d" and wf: "mem_wf (c_mem c)" "mem_wf (c_mem d)" and run: "cpu_run D X c x c'"
  shows "cpu_run D X d x c'"
proof -
  obtain m where m: "d = c\<lparr>c_mem := m\<rparr>" "same_map (c_mem c) m"
    using eq by (cases c; cases d) (auto simp: cpu_eq_def)
  have dec: "fst (decodeOne X a m) = fst (decodeOne X a (c_mem c))" for a
    using decodeOne_view [OF X, of m "c_mem c"] same_map_view [OF m(2)] wf m(1) by simp
  have sm: "same_map m k" if "same_map (c_mem c) k" for k using m(2) that by (simp add: same_map_def)
  show ?thesis
    using run
  proof (elim cpu_runE, goal_cases)
    case (1 e i k c1)
    show ?case
      by (rule cpu_run.intros [of X d e D i k x c1])
        (use 1 in \<open>simp_all add: m(1) dec sm cong: if_cong split del: if_split\<close>)
  qed
qed

lemma cpu_run_wf:
  assumes X: "ext_good X" and wf: "mem_wf (c_mem c)" and run: "cpu_run drifted X c x c'"
  shows "mem_wf (c_mem c')"
  using run
proof (elim cpu_runE, goal_cases)
  case (1 d i m c1)
  have "entry_ok X (c_mem c) (r_rip (c_regs c)) d" using 1 by (auto simp: entry_ok_def)
  then have "insn_ok i" using entry_ok_decoded(1) [OF X wf] drifted_ok [OF 1(4)] by (simp add: decoded_ok_def)
  then have "mem_wf (c_mem c1)" using keepsD(3) [OF keeps_exec_insn _ 1(7)] 1(6) by simp
  then show ?case using 1(1) by simp
qed

text \<open>
  \<open>cpu_path D X c d\<close>: single steps lead from \<open>c\<close> to \<open>d\<close>, up to the lookup cache and dirty flag of
  memory. With \<open>(=)\<close> for \<open>D\<close> every step runs what the bytes at RIP decode to.
\<close>

definition cpu_path :: "(insn \<Rightarrow> insn \<Rightarrow> bool) \<Rightarrow> ext_decoders \<Rightarrow> cpu \<Rightarrow> cpu \<Rightarrow> bool" where
  "cpu_path D X c d \<longleftrightarrow> (\<exists>c1. (cpu_step D X)\<^sup>*\<^sup>* c c1 \<and> cpu_eq c1 d)"

lemma cpu_path_refl [simp]: "cpu_path D X c c"
  unfolding cpu_path_def by (blast intro: cpu_eq_refl)

lemma cpu_eq_sym: "cpu_eq c d \<Longrightarrow> cpu_eq d c"
  by (auto simp: cpu_eq_def same_map_def)

lemma cpu_eq_trans: "cpu_eq c d \<Longrightarrow> cpu_eq d b \<Longrightarrow> cpu_eq c b"
  by (auto simp: cpu_eq_def same_map_def)

lemma cpu_steps_eq:
  assumes X: "ext_good X" and eq: "cpu_eq c d" and wf: "mem_wf (c_mem c)" "mem_wf (c_mem d)" and st: "(cpu_step D X)\<^sup>*\<^sup>* d d'"
  shows "\<exists>c'. (cpu_step D X)\<^sup>*\<^sup>* c c' \<and> cpu_eq c' d'"
  using st
proof (cases rule: converse_rtranclpE)
  case base
  then show ?thesis using eq by blast
next
  case (step y)
  obtain b where "cpu_run D X d (Inr b) y" using step(1) by (auto elim: cpu_step.cases)
  then have "cpu_run D X c (Inr b) y" by (rule cpu_run_cong [OF X cpu_eq_sym [OF eq] wf(2,1)])
  then have "(cpu_step D X)\<^sup>*\<^sup>* c d'" using step(2) by (meson cpu_step.intros converse_rtranclp_into_rtranclp)
  then show ?thesis by (blast intro: cpu_eq_refl)
qed

lemma cpu_steps_strict:
  "(cpu_step drifted X)\<^sup>*\<^sup>* c d \<Longrightarrow> (cpu_step (=) X)\<^sup>*\<^sup>* c d \<or> (\<exists>c1. (cpu_step (=) X)\<^sup>*\<^sup>* c c1 \<and> bt_memory_at X c1)"
proof (induction rule: rtranclp_induct)
  case (step y z)
  have "cpu_step (=) X y z \<or> bt_memory_at X y"
    using step(2) cpu_run_strict [of X y] by (meson cpu_step.cases cpu_step.intros)
  then show ?case using step.IH by (meson rtranclp.rtrancl_into_rtrancl)
qed simp

lemma cpu_path_strict:
  assumes "cpu_path drifted X c d"
  shows "cpu_path (=) X c d \<or> (\<exists>c1. cpu_path (=) X c c1 \<and> bt_memory_at X c1)"
proof -
  obtain c1 where "(cpu_step drifted X)\<^sup>*\<^sup>* c c1" "cpu_eq c1 d" using assms by (auto simp: cpu_path_def)
  then show ?thesis using cpu_steps_strict [of X c c1] cpu_eq_refl unfolding cpu_path_def by blast
qed

text \<open>
  What execution from \<open>c\<close> to \<open>c'\<close> is, with the error it ends in if there is one: a path of single
  steps, then the fault of the instruction reached.
\<close>

definition cpu_runs :: "(insn \<Rightarrow> insn \<Rightarrow> bool) \<Rightarrow> ext_decoders \<Rightarrow> cpu \<Rightarrow> cpu_error option \<Rightarrow> cpu \<Rightarrow> bool" where
  "cpu_runs D X c r c' \<longleftrightarrow> (case r of None \<Rightarrow> cpu_path D X c c'
     | Some err \<Rightarrow> \<exists>c1. cpu_path D X c c1 \<and> cpu_run D X c1 (Inl err) c')"

lemma cpu_runs_strict:
  assumes "cpu_runs drifted X c r c'"
  shows "cpu_runs (=) X c r c' \<or> (\<exists>c1. cpu_path (=) X c c1 \<and> bt_memory_at X c1)"
proof (cases r)
  case None
  then show ?thesis using assms cpu_path_strict by (simp add: cpu_runs_def)
next
  case (Some err)
  then obtain c1 where c1: "cpu_path drifted X c c1" "cpu_run drifted X c1 (Inl err) c'"
    using assms by (auto simp: cpu_runs_def)
  then show ?thesis
    using cpu_path_strict [OF c1(1)] cpu_run_strict [OF c1(2)] unfolding cpu_runs_def Some option.case by blast
qed

section \<open>The run loop\<close>

lemma exec_entry:
  assumes X: "ext_good X" and inv: "cache_inv X e"
    and en: "entry_ok X (e_mem e) (e_rip e) (e_insns e i)" "d_insnID (e_insns e i) = noInsnHook"
    and nx: "nx = e_rip e + of_nat (d_len (e_insns e i))" and x: "exec_at i (set_curInstrEnd nx e) = (x, e1)"
  shows "cache_inv X e1" "e_blockCacheGeneration e1 = e_blockCacheGeneration e" "c_curInstrEnd (e_cpu e1) = nx"
    "cpu_run drifted X (e_cpu e) x (e_cpu (if x = Inr False then set_e_rip nx e1 else e1))"
proof -
  have wf: "mem_wf (e_mem e)" using inv by (simp add: cache_inv_def)
  obtain d where d: "fst (decodeOne X (e_rip e) (e_mem e)) = Inr d" "drifted_dec d (e_insns e i)"
    using en(1) unfolding entry_ok_def by blast
  let ?e0 = "set_curInstrEnd nx e"
  have e0: "e_insns ?e0 = e_insns e" "e_cpu ?e0 = (e_cpu e)\<lparr>c_curInstrEnd := nx\<rparr>" "e_blockCacheGeneration ?e0 = e_blockCacheGeneration e"
    by (simp_all add: set_curInstrEnd_def)
  have ok: "insn_ok (d_exec (e_insns ?e0 i))" using entry_ok_decoded(1) [OF X wf en(1)] by (simp add: decoded_ok_def e0)
  note ex = exec_at_spec [OF X set_curInstrEnd_inv [OF X inv] ok x]
  show "cache_inv X e1" by (rule ex(1))
  show "e_blockCacheGeneration e1 = e_blockCacheGeneration e" "c_curInstrEnd (e_cpu e1) = nx" using ex(4,8) by (simp_all add: e0)
  have n: "r_rip (c_regs (e_cpu e)) + of_nat (d_len d) = nx" using d(2) by (simp add: nx drifted_dec_def)
  show "cpu_run drifted X (e_cpu e) x (e_cpu (if x = Inr False then set_e_rip nx e1 else e1))"
  proof (rule cpu_run.intros [OF d(1)])
    show "d_insnID d = noInsnHook" "drifted (d_exec d) (d_exec (e_insns e i))" using d(2) en(2) by (auto simp: drifted_dec_def)
    show "exec_insn (d_exec (e_insns e i)) ((e_cpu e)\<lparr>c_mem := e_mem e, c_curInstrEnd := r_rip (c_regs (e_cpu e)) + of_nat (d_len d)\<rparr>) = (x, e_cpu e1)"
      using ex(3) by (simp add: n e0)
  qed (simp_all add: wf n set_e_rip_def)
qed

text \<open>
  Hooks that respect the caches: they keep the invariant and do not switch block compilation. What
  they do to registers and, through the operations of \<open>host_op\<close>, to memory is theirs.
\<close>

definition hooks_ok :: "ext_decoders \<Rightarrow> 'p hooks \<Rightarrow> bool" where
  "hooks_ok X H \<longleftrightarrow>
     (\<forall>k f e. h_insn H k = Some f \<longrightarrow> cache_inv X e \<longrightarrow>
        cache_inv X (f e) \<and> e_blockCacheGeneration (f e) = e_blockCacheGeneration e) \<and>
     (\<forall>f t a n e. h_unmap H = Some f \<longrightarrow> cache_inv X e \<longrightarrow>
        cache_inv X (snd (f t a n e)) \<and> e_blockCacheGeneration (snd (f t a n e)) = e_blockCacheGeneration e)"

definition keeps_caches :: "ext_decoders \<Rightarrow> 'p engine_scheme \<Rightarrow> 'p engine_scheme \<Rightarrow> bool" where
  "keeps_caches X e e' \<longleftrightarrow> cache_inv X e' \<and> e_blockCacheGeneration e' = e_blockCacheGeneration e"

lemma on_fault_keeps:
  assumes "hooks_ok X H" "cache_inv X e" "on_fault H err e = (r, e')"
  shows "keeps_caches X e e'"
proof -
  have "e' = e \<or> (\<exists>f t a n. h_unmap H = Some f \<and> e' = snd (f t a n e))"
  proof (cases "\<exists>t a n f. err = FaultError t a n \<and> h_unmap H = Some f")
    case True
    then obtain t a n f where f: "err = FaultError t a n" "h_unmap H = Some f" by blast
    then have "e' = snd (f t a n e)" using assms(3) by (auto simp: on_fault_def handleFault_def split: prod.splits bool.splits)
    then show ?thesis using f(2) by blast
  next
    case False
    then have "handleFault H err e = (False, e)"
      by (auto simp: handleFault_def split: cpu_error.split option.split)
    then show ?thesis using assms(3) by (simp add: on_fault_def)
  qed
  then show ?thesis using assms(1,2) unfolding hooks_ok_def keeps_caches_def by blast
qed

lemma run_hook_keeps:
  assumes "ext_good X" "hooks_ok X H" "cache_inv X e" "run_hook H k e = (r, e')"
  shows "keeps_caches X e e'"
proof (cases "h_insn H k")
  case None
  then show ?thesis using assms(3,4) by (simp add: run_hook_def keeps_caches_def)
next
  case (Some f)
  then have f: "cache_inv X (f e)" "e_blockCacheGeneration (f e) = e_blockCacheGeneration e"
    using assms(2,3) unfolding hooks_ok_def by blast+
  have "e' = f e \<or> e' = set_e_rip (c_curInstrEnd (e_cpu (f e))) (f e)"
    using assms(4) Some by (auto simp: run_hook_def Let_def)
  then show ?thesis using f set_e_rip_inv [OF assms(1) f(1)] by (auto simp: keeps_caches_def set_e_rip_def)
qed

text \<open>What extends the engine, the state of its process, is not touched by the caches.\<close>

lemma more_simps [simp]:
  "engine.more (set_e_mem m e) = engine.more e" "engine.more (set_e_rip v e) = engine.more e" "engine.more (set_curInstrEnd v e) = engine.more e"
  "engine.more (record_trace pc e) = engine.more e" "engine.more (invalidateCodeCaches e) = engine.more e"
  by (simp_all add: set_e_mem_def set_e_rip_def set_curInstrEnd_def record_trace_def invalidateCodeCaches_def)

lemma poll_dirty_more: "poll_dirty e = (b, e') \<Longrightarrow> engine.more e' = engine.more e"
  by (auto simp: poll_dirty_def Let_def split: prod.splits if_splits)

lemma decode_page_more: "engine.more (snd (decode_page pc e)) = engine.more e"
  by (auto simp: decode_page_def load_page_def Let_def split: option.split)

lemma cachedDecode_more: "cachedDecode X pc e = (r, e') \<Longrightarrow> engine.more e' = engine.more e"
  using decode_page_more [of pc e] by (auto simp: cachedDecode_def Let_def split: prod.splits option.splits sum.splits)

lemma compile_loop_more: "compile_loop n X pg pc ins e = (r, e') \<Longrightarrow> engine.more e' = engine.more e"
proof (induction n arbitrary: pc ins e)
  case (Suc n)
  then show ?case
    using cachedDecode_more [of X pc e] by (auto simp: Let_def split: prod.splits sum.splits if_splits)
qed simp

lemma compileBlock_more:
  assumes "compileBlock X pc e = (r, e')" shows "engine.more e' = engine.more e"
proof -
  obtain bo e1 where c: "cachedBlockAt pc e = (bo, e1)" by fastforce
  have e1: "engine.more e1 = engine.more e" using c by (auto simp: cachedBlockAt_def Let_def split: option.splits if_splits)
  obtain r1 e2 where l: "compile_loop maxBlockInstructions X (pageAddr pc) pc [] e1 = (r1, e2)" by fastforce
  show ?thesis
    using assms c e1 compile_loop_more [OF l]
    by (auto simp: compileBlock_def compile_new_def Let_def l split: option.splits sum.splits if_splits)
qed

lemma exec_at_more: "exec_at i e = (r, e') \<Longrightarrow> engine.more e' = engine.more e"
  by (auto simp: exec_at_def Let_def split: prod.splits)

lemma cachedBlockAt_more: "cachedBlockAt pc e = (r, e') \<Longrightarrow> engine.more e' = engine.more e"
  by (auto simp: cachedBlockAt_def Let_def split: option.splits if_splits)

lemma chain_more: "chain e = (r, e') \<Longrightarrow> engine.more e' = engine.more e"
  by (auto simp: chain_def split: prod.splits option.splits dest: cachedBlockAt_more)

lemma block_insn_more:
  assumes "block_insn i nx e = (r, e')"
  shows "engine.more e' = engine.more e"
proof -
  obtain x e1 where x: "exec_at i (set_curInstrEnd nx e) = (x, e1)" by fastforce
  have e1: "engine.more e1 = engine.more e" using exec_at_more [OF x] by simp
  show ?thesis
  proof (cases x)
    case (Inl err)
    then show ?thesis using assms x e1 by (simp add: block_insn_def)
  next
    case (Inr br)
    obtain dirty e3 where p: "poll_dirty (if br then e1 else set_e_rip nx e1) = (dirty, e3)" by fastforce
    have "e' = e3" using assms x Inr p by (simp add: block_insn_def Let_def)
    then show ?thesis using poll_dirty_more [OF p] e1 by (cases br) simp_all
  qed
qed

lemma run_block0_more: "run_block0 is first pc e = (r, e') \<Longrightarrow> engine.more e' = engine.more e"
proof (induction "is" arbitrary: first pc e)
  case (Cons i "is")
  define e1 where "e1 = (if first then e else record_trace pc e)"
  define nx where "nx = pc + of_nat (d_len (e_insns e1 i))"
  obtain x e2 where x: "block_insn i nx e1 = (x, e2)" by fastforce
  obtain y e3 where y: "chain e2 = (y, e3)" by fastforce
  have e1: "engine.more e1 = engine.more e" by (simp add: e1_def)
  note m = block_insn_more [OF x] chain_more [OF y]
  have "e_stopRequested e \<and> e' = e \<or> e' = e2 \<or> e' = e3 \<or> run_block0 is False nx e2 = (r, e') \<or> run_block0 is False nx e3 = (r, e')"
    using Cons.prems x y unfolding run_block0.simps Let_def e1_def [symmetric] nx_def [symmetric]
    by (auto split: if_splits insn_result.splits block_result.splits)
  then show ?case using m e1 Cons.IH by auto
qed (simp add: chain_more)

lemma run_block_more: "run_block u is first pc e = (r, e') \<Longrightarrow> engine.more e' = engine.more e"
proof (induction "is" arbitrary: first pc e)
  case Nil
  then show ?case using chain_more by (auto split: if_splits)
next
  case (Cons i "is")
  define e1 where "e1 = (if first then e else record_trace pc e)"
  define nx where "nx = pc + of_nat (d_len (e_insns e1 i))"
  obtain x e2 where x: "block_insn i nx e1 = (x, e2)" by fastforce
  obtain y e3 where y: "chain e2 = (y, e3)" by fastforce
  have e1: "engine.more e1 = engine.more e" by (simp add: e1_def)
  note m = block_insn_more [OF x] chain_more [OF y]
  have "e' = e \<or> e' = e2 \<or> e' = e3 \<or> run_block u is False nx e2 = (r, e')"
    using Cons.prems x y unfolding run_block.simps Let_def e1_def [symmetric] nx_def [symmetric]
    by (auto split: if_splits insn_result.splits)
  then show ?case using m e1 Cons.IH by auto
qed

lemma executeBlock_more: "executeBlock f b u e = Some (r, e') \<Longrightarrow> engine.more e' = engine.more e"
proof (induction f arbitrary: b e)
  case (Suc f)
  obtain x e1 where x: "(if u = 0 then run_block0 (b_instructions b) True (b_start b) e
      else run_block u (b_instructions b) True (b_start b) e) = (x, e1)" by fastforce
  have m: "engine.more e1 = engine.more e" using x run_block0_more run_block_more by (metis (full_types))
  have "e' = e \<or> e' = e1 \<or> (\<exists>b'. executeBlock f b' u e1 = Some (r, e'))"
    using Suc.prems x by (auto split: if_splits block_result.splits)
  then show ?case using m Suc.IH by auto
qed simp

section \<open>The reference interpreter of EmuStart\<close>

text \<open>
  The interpreter that \<open>EmuStart\<close> is compared with. Its state is the CPU and what extends the engine
  (the state of the process). A move is an instruction that runs; or the hook of the SYSCALL or
  CPUID that the bytes at RIP decode to, called on some engine in this state with \<open>curInstrEnd\<close> set;
  or the handler of a fault, which resumes. \<open>cpu_fails\<close> is how fetching, decoding or running the
  instruction at RIP fails.
\<close>

definition cpu_fails :: "(insn \<Rightarrow> insn \<Rightarrow> bool) \<Rightarrow> ext_decoders \<Rightarrow> cpu \<Rightarrow> cpu_error \<Rightarrow> cpu \<Rightarrow> bool" where
  "cpu_fails D X c err c' \<longleftrightarrow>
     (fst (decodeOne X (r_rip (c_regs c)) (c_mem c)) = Inl err \<and> cpu_eq c c') \<or> cpu_run D X c (Inl err) c'"

definition in_state :: "ext_decoders \<Rightarrow> 'p engine_scheme \<Rightarrow> 'p \<Rightarrow> bool" where
  "in_state X e p \<longleftrightarrow> cache_inv X e \<and> engine.more e = p"

inductive emu_move :: "(insn \<Rightarrow> insn \<Rightarrow> bool) \<Rightarrow> ext_decoders \<Rightarrow> 'p hooks \<Rightarrow> cpu \<times> 'p \<Rightarrow> cpu \<times> 'p \<Rightarrow> bool" for D X H where
  insn: "cpu_step D X c c' \<Longrightarrow> emu_move D X H (c, p) (c', p)"
| hook: "fst (decodeOne X (r_rip (c_regs c)) (c_mem c)) = Inr d \<Longrightarrow> d_insnID d \<noteq> noInsnHook \<Longrightarrow>
    cpu_eq (c\<lparr>c_curInstrEnd := r_rip (c_regs c) + of_nat (d_len d)\<rparr>) (e_cpu e1) \<Longrightarrow> in_state X e1 p \<Longrightarrow>
    run_hook H (d_insnID d) e1 = (RContinue, e2) \<Longrightarrow> emu_move D X H (c, p) (e_cpu e2, engine.more e2)"
| fault: "cpu_fails D X c err (e_cpu e1) \<Longrightarrow> in_state X e1 p \<Longrightarrow> handleFault H err e1 = (True, e2) \<Longrightarrow>
    emu_move D X H (c, p) (e_cpu e2, engine.more e2)"

definition emu_path :: "(insn \<Rightarrow> insn \<Rightarrow> bool) \<Rightarrow> ext_decoders \<Rightarrow> 'p hooks \<Rightarrow> cpu \<times> 'p \<Rightarrow> cpu \<times> 'p \<Rightarrow> bool" where
  "emu_path D X H s t \<longleftrightarrow> (\<exists>c. (emu_move D X H)\<^sup>*\<^sup>* s (c, snd t) \<and> cpu_eq c (fst t))"

text \<open>
  The run ends in an error when the handler of the fault declines it, or when the hook of a SYSCALL
  or CPUID is not installed.
\<close>

inductive emu_fails :: "(insn \<Rightarrow> insn \<Rightarrow> bool) \<Rightarrow> ext_decoders \<Rightarrow> 'p hooks \<Rightarrow> cpu \<times> 'p \<Rightarrow> cpu_error \<Rightarrow> cpu \<times> 'p \<Rightarrow> bool" for D X H where
  declined: "cpu_fails D X c err (e_cpu e1) \<Longrightarrow> in_state X e1 p \<Longrightarrow> handleFault H err e1 = (False, e2) \<Longrightarrow>
    emu_fails D X H (c, p) err (e_cpu e2, engine.more e2)"
| no_hook: "fst (decodeOne X (r_rip (c_regs c)) (c_mem c)) = Inr d \<Longrightarrow> d_insnID d \<noteq> noInsnHook \<Longrightarrow>
    h_insn H (d_insnID d) = None \<Longrightarrow> cpu_eq (c\<lparr>c_curInstrEnd := r_rip (c_regs c) + of_nat (d_len d)\<rparr>) c' \<Longrightarrow>
    emu_fails D X H (c, p) (NoHook (nat (d_insnID d))) (c', p)"

definition interprets :: "(insn \<Rightarrow> insn \<Rightarrow> bool) \<Rightarrow> ext_decoders \<Rightarrow> 'p hooks \<Rightarrow> cpu \<times> 'p \<Rightarrow> cpu_error option \<Rightarrow> cpu \<times> 'p \<Rightarrow> bool" where
  "interprets D X H s r t \<longleftrightarrow> (case r of None \<Rightarrow> emu_path D X H s t
     | Some err \<Rightarrow> \<exists>s1. emu_path D X H s s1 \<and> emu_fails D X H s1 err t)"

text \<open>Where decoding afresh and the engine may part: a memory form of BT, BTS, BTR or BTC is reached.\<close>

definition reaches_bt :: "ext_decoders \<Rightarrow> 'p hooks \<Rightarrow> cpu \<times> 'p \<Rightarrow> bool" where
  "reaches_bt X H s \<longleftrightarrow> (\<exists>s1. emu_path (=) X H s s1 \<and> bt_memory_at X (fst s1))"

abbreviation eng_state :: "'p engine_scheme \<Rightarrow> cpu \<times> 'p" where
  "eng_state e \<equiv> (e_cpu e, engine.more e)"

lemma emu_path_refl [simp]: "emu_path D X H s s"
  unfolding emu_path_def by (rule exI [of _ "fst s"]) simp

lemma emu_pathI: "(emu_move D X H)\<^sup>*\<^sup>* s t \<Longrightarrow> emu_path D X H s t"
  unfolding emu_path_def by (rule exI [of _ "fst t"]) simp

lemma interprets_fails: "emu_fails D X H s err t \<Longrightarrow> interprets D X H s (Some err) t"
  unfolding interprets_def option.case by (rule exI [of _ s]) simp

lemma cpu_fails_strict: "cpu_fails drifted X c err c' \<Longrightarrow> cpu_fails (=) X c err c' \<or> bt_memory_at X c"
  unfolding cpu_fails_def using cpu_run_strict by blast

lemma emu_move_strict: "emu_move drifted X H s t \<Longrightarrow> emu_move (=) X H s t \<or> bt_memory_at X (fst s)"
proof (induction rule: emu_move.induct)
  case (insn c c' p)
  then have "cpu_step (=) X c c' \<or> bt_memory_at X c" using cpu_run_strict [of X c] by (meson cpu_step.cases cpu_step.intros)
  then show ?case by (auto intro: emu_move.insn)
next
  case (hook c d e1 p e2)
  show ?case by (rule disjI1) (rule emu_move.hook [OF hook])
next
  case (fault c err e1 p e2)
  then show ?case using cpu_fails_strict [OF fault(1)] by (auto intro: emu_move.fault)
qed

lemma emu_path_strict:
  assumes "emu_path drifted X H s t"
  shows "emu_path (=) X H s t \<or> reaches_bt X H s"
proof -
  have "(emu_move drifted X H)\<^sup>*\<^sup>* s u \<Longrightarrow> (emu_move (=) X H)\<^sup>*\<^sup>* s u \<or> reaches_bt X H s" for u
  proof (induction rule: rtranclp_induct)
    case (step y z)
    then show ?case
      using emu_move_strict [OF step(2)] emu_pathI unfolding reaches_bt_def by (meson rtranclp.rtrancl_into_rtrancl)
  qed simp
  then show ?thesis using assms unfolding emu_path_def by blast
qed

lemma interprets_strict:
  assumes "interprets drifted X H s r t"
  shows "interprets (=) X H s r t \<or> reaches_bt X H s"
proof (cases r)
  case None
  then show ?thesis using assms emu_path_strict by (simp add: interprets_def)
next
  case (Some err)
  then obtain s1 where s1: "emu_path drifted X H s s1" "emu_fails drifted X H s1 err t"
    using assms by (auto simp: interprets_def)
  have "emu_fails (=) X H s1 err t \<or> bt_memory_at X (fst s1)"
    using s1(2)
  proof (induction rule: emu_fails.induct)
    case (declined c err e1 p e2)
    then show ?case using cpu_fails_strict [OF declined(1)] by (auto intro: emu_fails.declined)
  next
    case (no_hook c d c' p)
    show ?case by (rule disjI1) (rule emu_fails.no_hook [OF no_hook])
  qed
  then show ?thesis
    using emu_path_strict [OF s1(1)] unfolding interprets_def Some option.case reaches_bt_def by blast
qed

section \<open>Paths up to the lookup cache of memory\<close>

lemma cpu_fails_cong:
  assumes "ext_good X" "cpu_eq c d" "mem_wf (c_mem c)" "mem_wf (c_mem d)" "cpu_fails D X c err c'"
  shows "cpu_fails D X d err c'"
proof -
  have "fst (decodeOne X (r_rip (c_regs d)) (c_mem d)) = fst (decodeOne X (r_rip (c_regs c)) (c_mem c))"
    using decodeOne_view [OF assms(1,4,3)] same_map_view [of "c_mem c" "c_mem d"] assms(2) by (simp add: cpu_eq_def)
  then show ?thesis
    using assms(5) cpu_run_cong [OF assms(1-4)] cpu_eq_trans [OF cpu_eq_sym [OF assms(2)]] by (auto simp: cpu_fails_def)
qed

lemma emu_move_cong:
  assumes X: "ext_good X" and eq: "cpu_eq c d" and wf: "mem_wf (c_mem c)" "mem_wf (c_mem d)" and m: "emu_move D X H (c, p) t"
  shows "emu_move D X H (d, p) t"
  using m
proof cases
  case (insn c')
  then show ?thesis using cpu_run_cong [OF X eq wf] by (auto elim!: cpu_step.cases intro!: emu_move.insn intro: cpu_step.intros)
next
  case (hook dd e1 e2)
  have dec: "fst (decodeOne X (r_rip (c_regs d)) (c_mem d)) = Inr dd"
    using decodeOne_view [OF X wf(2,1)] same_map_view [of "c_mem c" "c_mem d"] eq hook(2) by (simp add: cpu_eq_def)
  have "cpu_eq (d\<lparr>c_curInstrEnd := r_rip (c_regs d) + of_nat (d_len dd)\<rparr>) (e_cpu e1)"
    using eq hook(4) by (simp add: cpu_eq_def same_map_def)
  then show ?thesis unfolding hook(1) by (rule emu_move.hook [OF dec hook(3) _ hook(5,6)])
next
  case (fault err e1 e2)
  show ?thesis unfolding fault(1) by (rule emu_move.fault [OF cpu_fails_cong [OF X eq wf fault(2)] fault(3,4)])
qed

lemma handleFault_on_fault: "on_fault H err e = (RContinue, e') \<longleftrightarrow> handleFault H err e = (True, e')"
  "on_fault H err e = (RErr er, e') \<longleftrightarrow> er = err \<and> handleFault H err e = (False, e')"
  by (auto simp: on_fault_def split: prod.splits bool.splits)

lemma emu_move_wf:
  assumes X: "ext_good X" and H: "hooks_ok X H" and m: "emu_move drifted X H s t" and wf: "mem_wf (c_mem (fst s))"
  shows "mem_wf (c_mem (fst t))"
  using m wf
proof (induction rule: emu_move.induct)
  case (insn c c' p)
  then show ?case using cpu_run_wf [OF X] by (auto elim!: cpu_step.cases)
next
  case (hook c d e1 p e2)
  have "cache_inv X e1" using hook(4) by (simp add: in_state_def)
  from run_hook_keeps [OF X H this hook(5)] show ?case by (simp add: keeps_caches_def cache_inv_def)
next
  case (fault c err e1 p e2)
  have "cache_inv X e1" using fault(2) by (simp add: in_state_def)
  from on_fault_keeps [OF H this] fault(3) show ?case by (force simp: keeps_caches_def cache_inv_def handleFault_on_fault [symmetric])
qed

lemma emu_moves_wf:
  assumes "ext_good X" "hooks_ok X H" "(emu_move drifted X H)\<^sup>*\<^sup>* s t" "mem_wf (c_mem (fst s))"
  shows "mem_wf (c_mem (fst t))"
  using assms(3,4) by (induction rule: rtranclp_induct) (auto intro: emu_move_wf [OF assms(1,2)])

lemma emu_moves_eq:
  assumes X: "ext_good X" and eq: "cpu_eq c d" and wf: "mem_wf (c_mem c)" "mem_wf (c_mem d)"
    and st: "(emu_move D X H)\<^sup>*\<^sup>* (d, p) t"
  shows "emu_path D X H (c, p) t"
  using st
proof (cases rule: converse_rtranclpE)
  case base
  then show ?thesis unfolding emu_path_def using eq by auto
next
  case (step y)
  have "emu_move D X H (c, p) y" by (rule emu_move_cong [OF X cpu_eq_sym [OF eq] wf(2,1) step(1)])
  then show ?thesis using step(2) by (meson converse_rtranclp_into_rtranclp emu_pathI)
qed

lemma emu_path_trans:
  assumes X: "ext_good X" "hooks_ok X H" and wf: "mem_wf (c_mem (fst a))" "mem_wf (c_mem (fst b))"
    and p: "emu_path drifted X H a b" "emu_path drifted X H b c"
  shows "emu_path drifted X H a c"
proof -
  obtain c1 where c1: "(emu_move drifted X H)\<^sup>*\<^sup>* a (c1, snd b)" "cpu_eq c1 (fst b)" using p(1) by (auto simp: emu_path_def)
  obtain c2 where c2: "(emu_move drifted X H)\<^sup>*\<^sup>* b (c2, snd c)" "cpu_eq c2 (fst c)" using p(2) by (auto simp: emu_path_def)
  have w1: "mem_wf (c_mem c1)" using emu_moves_wf [OF X c1(1) wf(1)] by simp
  have "(emu_move drifted X H)\<^sup>*\<^sup>* (fst b, snd b) (c2, snd c)" using c2(1) by simp
  from emu_moves_eq [OF X(1) c1(2) w1 wf(2) this] obtain c3 where "(emu_move drifted X H)\<^sup>*\<^sup>* (c1, snd b) (c3, snd c)" "cpu_eq c3 c2" by (auto simp: emu_path_def)
  then show ?thesis unfolding emu_path_def using c1(1) c2(2) cpu_eq_trans by (meson rtranclp_trans)
qed

lemma interprets_path:
  assumes "ext_good X" "hooks_ok X H" "mem_wf (c_mem (fst a))" "mem_wf (c_mem (fst b))" "emu_path drifted X H a b"
    "interprets drifted X H b r t"
  shows "interprets drifted X H a r t"
  using assms(6) emu_path_trans [OF assms(1-5)] by (auto simp: interprets_def split: option.splits)

lemma cpu_steps_emu: "(cpu_step D X)\<^sup>*\<^sup>* c d \<Longrightarrow> (emu_move D X H)\<^sup>*\<^sup>* (c, p) (d, p)"
  by (induction rule: rtranclp_induct) (auto intro: emu_move.insn rtranclp.rtrancl_into_rtrancl)

lemma cpu_path_emu: "cpu_path D X c c' \<Longrightarrow> emu_path D X H (c, p) (c', p)"
  using cpu_steps_emu by (fastforce simp: cpu_path_def emu_path_def)

section \<open>Turns of the loop\<close>

definition run_done :: "ext_decoders \<Rightarrow> 'p hooks \<Rightarrow> cpu \<times> 'p \<Rightarrow> run_result \<Rightarrow> 'p engine_scheme \<Rightarrow> bool" where
  "run_done X H s r e' \<longleftrightarrow> interprets drifted X H s (case r of RErr err \<Rightarrow> Some err | _ \<Rightarrow> None) (eng_state e')"

lemma fault_done:
  assumes "cpu_fails drifted X c err (e_cpu e1)" "cache_inv X e1" "on_fault H err e1 = (r, e')"
  shows "run_done X H (c, engine.more e1) r e' \<and> r \<noteq> RDone"
proof -
  have st: "in_state X e1 (engine.more e1)" using assms(2) by (simp add: in_state_def)
  obtain b e2 where h: "handleFault H err e1 = (b, e2)" by fastforce
  have e': "e' = e2" "r = (if b then RContinue else RErr err)" using assms(3) h by (auto simp: on_fault_def split: bool.splits)
  show ?thesis
  proof (cases b)
    case True
    have "emu_move drifted X H (c, engine.more e1) (eng_state e2)"
      by (rule emu_move.fault [OF assms(1) st]) (use h True in simp)
    then show ?thesis using True by (auto simp: e' run_done_def interprets_def intro: emu_pathI)
  next
    case False
    have "emu_fails drifted X H (c, engine.more e1) err (eng_state e2)"
      by (rule emu_fails.declined [OF assms(1) st]) (use h False in simp)
    then show ?thesis using False interprets_fails by (auto simp: e' run_done_def)
  qed
qed

lemma hook_done:
  assumes dec: "fst (decodeOne X (r_rip (c_regs c)) (c_mem c)) = Inr d" "d_insnID d \<noteq> noInsnHook"
    and eq: "cpu_eq (c\<lparr>c_curInstrEnd := r_rip (c_regs c) + of_nat (d_len d)\<rparr>) (e_cpu e1)"
    and inv: "cache_inv X e1" and h: "run_hook H (d_insnID d) e1 = (r, e')"
  shows "run_done X H (c, engine.more e1) r e' \<and> r \<noteq> RDone"
proof (cases "h_insn H (d_insnID d)")
  case None
  then have r: "r = RErr (NoHook (nat (d_insnID d)))" "e' = e1" using h by (simp_all add: run_hook_def)
  have "emu_fails drifted X H (c, engine.more e1) (NoHook (nat (d_insnID d))) (eng_state e1)"
    by (rule emu_fails.no_hook [OF dec None eq])
  then show ?thesis using interprets_fails by (auto simp: r run_done_def)
next
  case (Some f)
  have st: "in_state X e1 (engine.more e1)" using inv by (simp add: in_state_def)
  have r: "r = RContinue" using h Some by (simp add: run_hook_def Let_def)
  have "emu_move drifted X H (c, engine.more e1) (eng_state e')"
    by (rule emu_move.hook [OF dec eq st]) (use h r in simp)
  then show ?thesis by (auto simp: r run_done_def interprets_def intro: emu_pathI)
qed

lemma run_done_path:
  assumes "ext_good X" "hooks_ok X H" "mem_wf (c_mem c)" "mem_wf (c_mem d)" "emu_path drifted X H (c, p) (d, p)"
    "run_done X H (d, p) r e'"
  shows "run_done X H (c, p) r e'"
  using interprets_path [OF assms(1,2) _ _ assms(5)] assms(3,4,6) by (simp add: run_done_def)

lemma emu_step_spec:
  assumes X: "ext_good X" and H: "hooks_ok X H" and inv: "cache_inv X e" and nd: "\<not> m_codeDirty (e_mem e)"
    and s: "emu_step X H (e_rip e) e = (r, e')"
  shows "keeps_caches X e e' \<and> run_done X H (eng_state e) r e' \<and> r \<noteq> RDone"
proof -
  obtain x e1 where x: "cachedDecode X (e_rip e) e = (x, e1)" by fastforce
  note cd = cachedDecode_step [OF X inv nd x]
  have inv1: "cache_inv X e1" and gen1: "e_blockCacheGeneration e1 = e_blockCacheGeneration e" and wf: "mem_wf (e_mem e)" "mem_wf (e_mem e1)"
    and rip1: "e_rip e1 = e_rip e" and view: "code_view (e_mem e1) = code_view (e_mem e)"
    using cd(1) by (simp_all add: cache_step_def grows_def)
  note eq1 = cache_step_eq [OF cd(1)]
  note m1 = cachedDecode_more [OF x]
  have keep1: "keeps_caches X e e2" if "keeps_caches X e1 e2" for e2 using that gen1 by (simp add: keeps_caches_def)
  show ?thesis
  proof (cases x)
    case (Inl err)
    then have s': "on_fault H err e1 = (r, e')" using s x by (simp add: emu_step_def)
    have "cpu_fails drifted X (e_cpu e) err (e_cpu e1)" using cd(4) [OF Inl] eq1 by (simp add: cpu_fails_def)
    from fault_done [OF this inv1 s'] show ?thesis using keep1 on_fault_keeps [OF H inv1 s'] m1 by simp
  next
    case (Inr i)
    note en = conjunct2 [OF cd(5) [OF Inr]]
    define nx where "nx = e_rip e1 + of_nat (d_len (e_insns e1 i))"
    define e2 where "e2 = set_curInstrEnd nx e1"
    have inv2: "cache_inv X e2" unfolding e2_def by (rule set_curInstrEnd_inv [OF X inv1])
    have keep2: "keeps_caches X e e3" if "keeps_caches X e2 e3" for e3
      using that gen1 by (simp add: keeps_caches_def e2_def set_curInstrEnd_def)
    have m2: "engine.more e2 = engine.more e" using m1 by (simp add: e2_def)
    have "entry_ok X (e_mem e) (e_rip e) (e_insns e1 i)" using en entry_ok_view [OF X wf view] by simp
    then obtain d where d: "fst (decodeOne X (e_rip e) (e_mem e)) = Inr d" "drifted_dec d (e_insns e1 i)" unfolding entry_ok_def by blast
    have id: "d_insnID (e_insns e1 i) = d_insnID d" "d_len (e_insns e1 i) = d_len d" using d(2) by (simp_all add: drifted_dec_def)
    show ?thesis
    proof (cases "d_insnID d = noInsnHook")
      case False
      then have s': "run_hook H (d_insnID d) e2 = (r, e')"
        using s x Inr by (simp add: emu_step_def Let_def e2_def nx_def rip1 id)
      have "cpu_eq ((e_cpu e)\<lparr>c_curInstrEnd := r_rip (c_regs (e_cpu e)) + of_nat (d_len d)\<rparr>) (e_cpu e2)"
        using eq1 rip1 by (simp add: cpu_eq_def e2_def set_curInstrEnd_def nx_def id)
      from hook_done [OF d(1) False this inv2 s'] show ?thesis
        using keep2 run_hook_keeps [OF X H inv2 s'] m2 by simp
    next
      case True
      obtain y e3 where y: "exec_at i e2 = (y, e3)" by fastforce
      have en1: "entry_ok X (e_mem e1) (e_rip e1) (e_insns e1 i)" using en rip1 by simp
      note ee = exec_entry [OF X inv1 en1 True [folded id(1)] nx_def y [unfolded e2_def]]
      have m3: "engine.more e3 = engine.more e" using exec_at_more [OF y] m2 by simp
      have s': "(case y of Inl err \<Rightarrow> on_fault H err e3
          | Inr branched \<Rightarrow> (RContinue, if branched then e3 else set_e_rip nx e3)) = (r, e')"
        using s x Inr True y ee(3) by (cases y) (auto simp: emu_step_def Let_def e2_def nx_def rip1 id split: if_splits)
      have keep3: "keeps_caches X e e4" if "keeps_caches X e3 e4" for e4 using that gen1 ee(2) by (simp add: keeps_caches_def)
      show ?thesis
      proof (cases y)
        case (Inl err)
        then have f: "on_fault H err e3 = (r, e')" using s' by simp
        have "cpu_run drifted X (e_cpu e1) (Inl err) (e_cpu e3)" using ee(4) Inl by simp
        then have "cpu_fails drifted X (e_cpu e) err (e_cpu e3)"
          unfolding cpu_fails_def using cpu_run_cong [OF X cpu_eq_sym [OF eq1] wf(2,1)] by blast
        from fault_done [OF this ee(1) f] show ?thesis using keep3 on_fault_keeps [OF H ee(1) f] m3 by simp
      next
        case (Inr br)
        define e4 where "e4 = (if br then e3 else set_e_rip nx e3)"
        have r: "r = RContinue" "e' = e4" using s' Inr by (simp_all add: e4_def)
        have "cpu_run drifted X (e_cpu e1) (Inr br) (e_cpu e4)" using ee(4) Inr unfolding e4_def by (cases br) simp_all
        then have "cpu_run drifted X (e_cpu e) (Inr br) (e_cpu e4)" by (rule cpu_run_cong [OF X cpu_eq_sym [OF eq1] wf(2,1)])
        then have "emu_move drifted X H (eng_state e) (e_cpu e4, engine.more e)" by (blast intro: cpu_step.intros emu_move.insn)
        moreover have "engine.more e4 = engine.more e" using m3 by (simp add: e4_def)
        moreover have "keeps_caches X e3 e4"
          using ee(1) set_e_rip_inv [OF X ee(1)] by (simp add: keeps_caches_def e4_def set_e_rip_def)
        moreover have "run_done X H (eng_state e) RContinue e4"
          using emu_pathI [OF r_into_rtranclp, OF calculation(1)] calculation(2) by (simp add: run_done_def interprets_def)
        ultimately show ?thesis using keep3 by (simp add: r)
      qed
    qed
  qed
qed

lemma keeps_gen: "keeps_caches X e e' \<Longrightarrow> gen_room n e \<Longrightarrow> gen_room n e'"
  by (simp add: keeps_caches_def gen_room_def)

lemma block_done_runs:
  assumes "block_done X n c (case ro of None \<Rightarrow> BReturn | Some err \<Rightarrow> BErr err) e'"
  shows "cache_inv X e'" "gen_room n e'" "cpu_runs drifted X c ro (e_cpu e')"
  using assms unfolding block_done_def by (auto simp: cpu_runs_def cpu_path_def split: option.splits intro: cpu_eq_refl)

lemma block_runs_eq:
  assumes X: "ext_good X" and eq: "cpu_eq c0 c" and wf: "mem_wf (c_mem c0)" "mem_wf (c_mem c)"
    and bd: "block_done X n c (case ro of None \<Rightarrow> BReturn | Some err \<Rightarrow> BErr err) e'"
  shows "cpu_runs drifted X c0 ro (e_cpu e')"
proof (cases ro)
  case None
  then obtain c1 where "(cpu_step drifted X)\<^sup>*\<^sup>* c c1" "cpu_eq c1 (e_cpu e')" using bd by (auto simp: block_done_def)
  then show ?thesis using cpu_steps_eq [OF X eq wf] cpu_eq_trans None by (auto simp: cpu_runs_def cpu_path_def) blast
next
  case (Some err)
  then obtain c1 where c1: "(cpu_step drifted X)\<^sup>*\<^sup>* c c1" "cpu_run drifted X c1 (Inl err) (e_cpu e')" using bd by (auto simp: block_done_def)
  then have "cpu_path drifted X c0 c1" using cpu_steps_eq [OF X eq wf c1(1)] by (simp add: cpu_path_def)
  then show ?thesis using c1(2) Some by (auto simp: cpu_runs_def)
qed

text \<open>One turn with block compilation on: compile at RIP, execute the block, or run a single instruction.\<close>

lemma jit_turn_spec:
  assumes X: "ext_good X" and H: "hooks_ok X H" and inv: "cache_inv X e" and nd: "\<not> m_codeDirty (e_mem e)" and room: "gen_room (Suc n) e"
    and t: "(case compileBlock X (e_rip e) e of
             (Inl err, e2) \<Rightarrow> Some (on_fault H err e2)
           | (Inr (Some b), e2) \<Rightarrow> (case executeBlock f b u e2 of None \<Rightarrow> None
                | Some (Some err, e3) \<Rightarrow> Some (on_fault H err e3) | Some (None, e3) \<Rightarrow> Some (RContinue, e3))
           | (Inr None, e2) \<Rightarrow> Some (emu_step X H (e_rip e) e2)) = Some (r, e')"
  shows "cache_inv X e' \<and> gen_room n e' \<and> run_done X H (eng_state e) r e' \<and> r \<noteq> RDone"
proof -
  obtain x e2 where x: "compileBlock X (e_rip e) e = (x, e2)" by fastforce
  note cb = compileBlock_spec [OF X inv nd x]
  have st: "cache_inv X e2" "\<not> m_codeDirty (e_mem e2)" "gen_room (Suc n) e2" "mem_wf (e_mem e2)"
    and rip2: "e_rip e2 = e_rip e" and wf: "mem_wf (e_mem e)"
    using cb(1) inv room by (simp_all add: cache_step_def gen_room_def cache_inv_def)
  note eq2 = cache_step_eq [OF cb(1)]
  note m2 = compileBlock_more [OF x]
  have path2: "cpu_path drifted X (e_cpu e) (e_cpu e2)" unfolding cpu_path_def using eq2 by blast
  note prefix = run_done_path [OF X H wf st(4) cpu_path_emu [OF path2]]
  note room2 = gen_room_Suc [OF st(3)]
  consider (err) err where "x = Inl err" | (blk) b where "x = Inr (Some b)" | (none) "x = Inr None"
    by (cases x) auto
  then show ?thesis
  proof cases
    case err
    then have f: "on_fault H err e2 = (r, e')" using t x by simp
    have "cpu_fails drifted X (e_cpu e) err (e_cpu e2)" using cb(3) [OF err] eq2 by (simp add: cpu_fails_def)
    from fault_done [OF this st(1) f] show ?thesis
      using on_fault_keeps [OF H st(1) f] keeps_gen [OF _ room2] m2 by (auto simp: keeps_caches_def)
  next
    case none
    then have s: "emu_step X H (e_rip e2) e2 = (r, e')" using t x rip2 by simp
    from emu_step_spec [OF X H st(1,2) s] show ?thesis
      using keeps_gen [OF _ room2] prefix [of "engine.more e" r e'] m2 by (auto simp: keeps_caches_def)
  next
    case blk
    then obtain ro e3 where ex: "executeBlock f b u e2 = Some (ro, e3)"
      using t x by (cases "executeBlock f b u e2") auto
    have ok: "block_ok X e2 b" using cb(2) [OF blk] by simp
    note fin = executeBlock_spec [OF X st(1-3) ok ex]
    note bd = block_done_runs [OF fin]
    have m3: "engine.more e3 = engine.more e" using executeBlock_more [OF ex] m2 by simp
    show ?thesis
    proof (cases ro)
      case None
      then have r: "r = RContinue" "e' = e3" using t x blk ex by simp_all
      have "run_done X H (e_cpu e2, engine.more e) r e'"
        using cpu_path_emu bd(3) None m3 by (auto simp: r run_done_def interprets_def cpu_runs_def)
      then show ?thesis using prefix bd(1,2) r(2) by (auto simp: r(1))
    next
      case (Some err)
      then have f: "on_fault H err e3 = (r, e')" using t x blk ex by simp
      obtain c1 where c1: "(cpu_step drifted X)\<^sup>*\<^sup>* (e_cpu e2) c1" "cpu_run drifted X c1 (Inl err) (e_cpu e3)"
        using fin Some by (auto simp: block_done_def)
      note moves = cpu_steps_emu [OF c1(1), of H "engine.more e"]
      have w1: "mem_wf (c_mem c1)" using emu_moves_wf [OF X H moves] st(4) by simp
      have "cpu_fails drifted X c1 err (e_cpu e3)" using c1(2) by (simp add: cpu_fails_def)
      from fault_done [OF this bd(1) f] have fd: "run_done X H (c1, engine.more e) r e'" "r \<noteq> RDone" by (simp_all add: m3)
      have "run_done X H (e_cpu e2, engine.more e) r e'"
        by (rule run_done_path [OF X H st(4) w1 emu_pathI [OF moves] fd(1)])
      then show ?thesis using prefix m2 fd(2) on_fault_keeps [OF H bd(1) f] keeps_gen [OF _ bd(2)] by (auto simp: keeps_caches_def)
    qed
  qed
qed

lemma emu_turn_spec:
  assumes X: "ext_good X" and H: "hooks_ok X H" and inv: "cache_inv X e" and room: "gen_room (Suc (Suc n)) e"
    and t: "emu_turn f X H u e = Some (r, e')"
  shows "cache_inv X e' \<and> gen_room n e' \<and> run_done X H (eng_state e) r e' \<and>
    (r = RDone \<longrightarrow> e_stopRequested e' \<or> u \<noteq> 0 \<and> e_rip e' = u)"
proof (cases "e_stopRequested e \<or> u \<noteq> 0 \<and> e_rip e = u")
  case True
  then have "r = RDone" "e' = e" using t by (auto simp: emu_turn_def split: if_splits)
  then show ?thesis using True inv gen_room_Suc [OF gen_room_Suc [OF room]] by (simp add: run_done_def interprets_def)
next
  case False
  define pc where "pc = e_rip e"
  have ns: "\<not> e_stopRequested e" "\<not> (u \<noteq> 0 \<and> pc = u)" using False by (auto simp: pc_def)
  obtain dirty e1 where p: "poll_dirty (record_trace pc e) = (dirty, e1)" by fastforce
  have pre: "cache_inv X (record_trace pc e)" "gen_room (Suc (Suc n)) (record_trace pc e)"
    using inv room by (simp_all add: gen_room_def)
  note pd = poll_dirty_spec [OF pre p]
  have wf: "mem_wf (e_mem e)" "mem_wf (e_mem e1)" using inv pd(1) by (simp_all add: cache_inv_def)
  have path1: "cpu_path drifted X (e_cpu e) (e_cpu e1)" unfolding cpu_path_def using pd(3) by auto
  have m1: "engine.more e1 = engine.more e" using poll_dirty_more [OF p] by simp
  have rip1: "e_rip e1 = pc" using pd(3) by (simp add: cpu_eq_def pc_def)
  have turn: "(if e_blockJIT e1 then
        (case compileBlock X pc e1 of
           (Inl err, e2) \<Rightarrow> Some (on_fault H err e2)
         | (Inr (Some b), e2) \<Rightarrow> (case executeBlock f b u e2 of None \<Rightarrow> None
              | Some (Some err, e3) \<Rightarrow> Some (on_fault H err e3) | Some (None, e3) \<Rightarrow> Some (RContinue, e3))
         | (Inr None, e2) \<Rightarrow> Some (emu_step X H pc e2)) else Some (emu_step X H pc e1)) = Some (r, e')"
    using t unfolding emu_turn_def Let_def pc_def [symmetric] if_not_P [OF ns(1)] if_not_P [OF ns(2)] p snd_conv .
  have "cache_inv X e' \<and> gen_room n e' \<and> run_done X H (eng_state e1) r e' \<and> r \<noteq> RDone"
  proof (cases "e_blockJIT e1")
    case False
    then have s: "emu_step X H (e_rip e1) e1 = (r, e')" using turn rip1 by simp
    from emu_step_spec [OF X H pd(1,2) s] show ?thesis
      using keeps_gen [OF _ gen_room_Suc [OF pd(6)]] by (auto simp: keeps_caches_def)
  next
    case True
    show ?thesis by (rule jit_turn_spec [OF X H pd(1,2) pd(6) turn [unfolded if_P [OF True], folded rip1]])
  qed
  then show ?thesis using run_done_path [OF X H wf cpu_path_emu [OF path1]] m1 by auto
qed

lemma emu_loop_spec:
  assumes X: "ext_good X" and H: "hooks_ok X H"
  shows "cache_inv X e \<Longrightarrow> gen_room (2 * f) e \<Longrightarrow> emu_loop f X H u e = Some (r, e') \<Longrightarrow>
    cache_inv X e' \<and> interprets drifted X H (eng_state e) r (eng_state e') \<and>
    (r = None \<longrightarrow> e_stopRequested e' \<or> u \<noteq> 0 \<and> e_rip e' = u)"
proof (induction f arbitrary: e)
  case (Suc f)
  obtain x e1 where x: "emu_turn f X H u e = Some (x, e1)"
    using Suc.prems(3) by (cases "emu_turn f X H u e") auto
  have room: "gen_room (Suc (Suc (2 * f))) e" using Suc.prems(2) by simp
  note et = emu_turn_spec [OF X H Suc.prems(1) room x]
  have e1: "cache_inv X e1" "gen_room (2 * f) e1" using et by simp_all
  have wf: "mem_wf (c_mem (fst (eng_state e)))" "mem_wf (c_mem (fst (eng_state e1)))"
    using Suc.prems(1) e1(1) by (simp_all add: cache_inv_def)
  show ?case
  proof (cases x)
    case RContinue
    then have l: "emu_loop f X H u e1 = Some (r, e')" using Suc.prems(3) x by simp
    have "emu_path drifted X H (eng_state e) (eng_state e1)" using et RContinue by (simp add: run_done_def interprets_def)
    then show ?thesis using Suc.IH [OF e1 l] interprets_path [OF X H wf] by blast
  qed (use Suc.prems(3) x e1(1) et in \<open>auto simp: run_done_def\<close>)
qed simp

lemma EmuStart_spec:
  assumes "ext_good X" "cache_inv X e" "gen_room (2 * f) e" "hooks_ok X H" "EmuStart f X H start u e = Some (r, e')"
  shows "cache_inv X e'"
    "interprets drifted X H ((e_cpu e)\<lparr>c_regs := (c_regs (e_cpu e))\<lparr>r_rip := start\<rparr>\<rparr>, engine.more e) r (eng_state e')"
    "r = None \<Longrightarrow> e_stopRequested e' \<or> u \<noteq> 0 \<and> e_rip e' = u"
proof -
  let ?e = "(set_e_rip start e)\<lparr>e_stopRequested := False\<rparr>"
  have "cache_inv X ?e" using set_e_rip_inv [OF assms(1,2)] by simp
  moreover have "gen_room (2 * f) ?e" using assms(3) by (simp add: gen_room_def set_e_rip_def)
  ultimately have "cache_inv X e' \<and> interprets drifted X H (eng_state ?e) r (eng_state e') \<and>
      (r = None \<longrightarrow> e_stopRequested e' \<or> u \<noteq> 0 \<and> e_rip e' = u)"
    using emu_loop_spec [OF assms(1,4), of ?e f u r e'] assms(5) by (simp add: EmuStart_def)
  then show "cache_inv X e'"
    "interprets drifted X H ((e_cpu e)\<lparr>c_regs := (c_regs (e_cpu e))\<lparr>r_rip := start\<rparr>\<rparr>, engine.more e) r (eng_state e')"
    "r = None \<Longrightarrow> e_stopRequested e' \<or> u \<noteq> 0 \<and> e_rip e' = u"
    by (simp_all add: set_e_rip_def)
qed

section \<open>After an invalidation\<close>

text \<open>
  After the poll has found the code-dirty flag set no cache answers: the instruction is decoded
  again and every old block is passed over.
\<close>

definition no_code_cached :: "'p engine_scheme \<Rightarrow> bool" where
  "no_code_cached e \<longleftrightarrow> e_decodeCache e = Map.empty \<and> e_cachedDecodePage e = None \<and> e_cachedBlock e = None \<and>
     (\<forall>b \<in> ran (e_blockCache e). b_generation b \<noteq> e_blockCacheGeneration e)"

lemma poll_dirty_empties:
  assumes inv: "cache_inv X e" and room: "gen_room 1 e" and p: "poll_dirty e = (True, e')"
  shows "no_code_cached e'"
proof -
  have e': "e' = invalidateCodeCaches (set_e_mem ((e_mem e)\<lparr>m_codeDirty := False\<rparr>) e)"
    using p by (auto simp: poll_dirty_def consumeCodeDirty_def Let_def split: if_splits)
  have "b_generation b \<noteq> e_blockCacheGeneration e + 1" if "b \<in> ran (e_blockCache e)" for b
  proof -
    have "b_generation b \<le> e_blockCacheGeneration e" using inv that by (simp add: cache_inv_def shape_ok_def known_block_def)
    moreover have "unat (e_blockCacheGeneration e + 1) = unat (e_blockCacheGeneration e) + 1" using gen_succ [of 0 e] room by simp
    ultimately show ?thesis by (auto simp: word_le_nat_alt)
  qed
  then show ?thesis by (simp add: no_code_cached_def e' invalidateCodeCaches_def set_e_mem_def)
qed

lemma no_code_decode:
  assumes "no_code_cached e" "cachedDecode X pc e = (Inr i, e')"
  shows "fst (decodeOne X pc (e_mem e)) = Inr (e_insns e' i)"
proof -
  obtain x m where x: "decodeOne X pc (e_mem e) = (x, m)" by fastforce
  show ?thesis
    using assms x by (cases x)
      (auto simp: no_code_cached_def cachedDecode_def decode_page_def load_page_def Let_def)
qed

lemma no_code_block:
  assumes "no_code_cached e"
  shows "cachedBlockAt pc e = (None, e)"
  using assms by (auto simp: no_code_cached_def cachedBlockAt_def block_valid_def Let_def ran_def split: option.split)

end
