(* ===== verification/Engine_Runs.thy ===== *)
theory Engine_Runs
  imports Sse_Ext Engine_Laws
begin

unbundle bit_operations_syntax

text \<open>
  The properties of the engine: decoding through the caches is decoding afresh, compiled blocks and
  whole runs of \<open>EmuStart\<close> are runs of single instructions, no stale code is run after memory
  changed, and a SYSCALL hook that stops the engine ends the run at once.
\<close>

definition no_hooks :: "'p hooks" where
  "no_hooks = \<lparr>h_insn = Map.empty, h_unmap = None\<rparr>"

section \<open>Small programs\<close>

lemma runs_syscall:
  "runs 0 (decode_insn X) [0x0F, 0x05] 2 \<lparr>d_len = 2, d_insnID = InsSyscall, d_endsBlock = False, d_exec = INone\<rparr>"
proof -
  have "runs 2 (finish_as InsSyscall False INone) [] 0 \<lparr>d_len = 2, d_insnID = InsSyscall, d_endsBlock = False, d_exec = INone\<rparr>"
    unfolding finish_as_def by (rule runs_map [OF runs_pos])
  then have "runs 1 (decodeTwoByte X (rex_pfx 0 False no_pfx)) [0x05] 1
      \<lparr>d_len = 2, d_insnID = InsSyscall, d_endsBlock = False, d_exec = INone\<rparr>"
    unfolding decodeTwoByte_def by (intro runs_u8_bind) (simp_all add: dispatch_0F_def nat_1_add_1 del: One_nat_def)
  then have "runs 1 (dispatch X (rex_pfx 0 False no_pfx) 0x0F) [0x05] 1
      \<lparr>d_len = 2, d_insnID = InsSyscall, d_endsBlock = False, d_exec = INone\<rparr>"
    by (simp add: dispatch_def)
  then show ?thesis by (rule runs_plain [rotated 4]) (simp_all add: is_prefix_def)
qed

definition demo_engine :: "u8 list \<Rightarrow> engine" where
  "demo_engine bs = set_e_mem ((code_mem bs)\<lparr>m_codeDirty := False\<rparr>) NewEngine"

lemma demo_engine_simps [simp]:
  "e_mem (demo_engine bs) = (code_mem bs)\<lparr>m_codeDirty := False\<rparr>" "e_blockCacheGeneration (demo_engine bs) = 0"
  "e_stopRequested (demo_engine bs) = False" "e_blockJIT (demo_engine bs) = False" "e_rip (demo_engine bs) = 0"
  by (simp_all add: demo_engine_def set_e_mem_def NewEngine_def newRegisters_def)

lemma demo_engine_inv:
  assumes "length bs \<le> 4096"
  shows "cache_inv X (demo_engine bs)"
proof -
  have "mem_wf ((code_mem bs)\<lparr>m_codeDirty := False\<rparr>)" using code_mem_spec(1) [OF assms] by (simp add: mem_wf_def)
  then show ?thesis
    by (simp add: cache_inv_def shape_ok_def coherent_def known_block_def demo_engine_def set_e_mem_def NewEngine_def)
qed

lemma demo_engine_decode:
  assumes "runs 0 (decode_insn X) bs n d" "length bs \<le> 4096"
  shows "fst (decodeOne X 0x1000 ((code_mem bs)\<lparr>m_codeDirty := False\<rparr>)) = Inr d"
proof (rule decodeOne_runs [OF assms(1)])
  show "mem_wf ((code_mem bs)\<lparr>m_codeDirty := False\<rparr>)" using code_mem_spec(1) [OF assms(2)] by (simp add: mem_wf_def)
  show "code_at ((code_mem bs)\<lparr>m_codeDirty := False\<rparr>) 0x1000 bs"
    using code_mem_spec(2) [OF assms(2)] by (simp add: code_at_def code_view_def)
qed

section \<open>A SYSCALL instruction\<close>

lemma entry_ok_fresh:
  assumes "ext_good X" "cache_step X e e'" "fst (decodeOne X pc (e_mem e)) = Inr d" "entry_ok X (e_mem e') pc d'"
  shows "drifted_dec d d'"
proof -
  have "mem_wf (e_mem e)" "mem_wf (e_mem e')" "code_view (e_mem e') = code_view (e_mem e)"
    using assms(2) by (simp_all add: cache_step_def grows_def)
  then have "entry_ok X (e_mem e) pc d'" using entry_ok_view [OF assms(1)] assms(4) by blast
  then show ?thesis using assms(3) by (simp add: entry_ok_def)
qed

lemma emu_step_syscall:
  assumes X: "ext_good X" and inv: "cache_inv X e" and nd: "\<not> m_codeDirty (e_mem e)"
    and d: "fst (decodeOne X pc (e_mem e)) = Inr d" "d_insnID d = InsSyscall"
    and f: "h_insn H InsSyscall = Some f" "\<And>e1. c_regs (e_cpu e1) = c_regs (e_cpu e) \<Longrightarrow> e_stopRequested (f e1)"
  shows "\<exists>e1. emu_step X H pc e = (RContinue, f e1) \<and> engine.more e1 = engine.more e \<and> cpu_eq ((e_cpu e)\<lparr>c_curInstrEnd := pc + of_nat (d_len d)\<rparr>) (e_cpu e1)"
proof -
  obtain r e1 where c: "cachedDecode X pc e = (r, e1)" by fastforce
  note cd = cachedDecode_step [OF X inv nd c]
  obtain i where i: "r = Inr i" using cd(4) d(1) by (cases r) auto
  have dr: "drifted_dec d (e_insns e1 i)" using entry_ok_fresh [OF X cd(1) d(1)] cd(5) [OF i] by blast
  have "emu_step X H pc e = (RContinue, f (set_curInstrEnd (pc + of_nat (d_len d)) e1))"
    using dr d(2) f(1) f(2) [of "set_curInstrEnd (pc + of_nat (d_len d)) e1"] cache_step_eq [OF cd(1)]
    by (simp add: emu_step_def c i Let_def drifted_dec_def run_hook_def cpu_eq_def set_curInstrEnd_def)
  moreover have "cpu_eq ((e_cpu e)\<lparr>c_curInstrEnd := pc + of_nat (d_len d)\<rparr>) (e_cpu (set_curInstrEnd (pc + of_nat (d_len d)) e1))"
    using cache_step_eq [OF cd(1)] by (simp add: cpu_eq_def set_curInstrEnd_def)
  ultimately show ?thesis using cachedDecode_more [OF c] by (metis more_simps(3))
qed

lemma compileBlock_syscall:
  assumes X: "ext_good X" and inv: "cache_inv X e" and nd: "\<not> m_codeDirty (e_mem e)"
    and d: "fst (decodeOne X pc (e_mem e)) = Inr d" "d_insnID d = InsSyscall"
  shows "\<exists>e1. compileBlock X pc e = (Inr None, e1) \<and> cache_step X e e1"
proof -
  obtain r e1 where c: "compileBlock X pc e = (r, e1)" by fastforce
  note cb = compileBlock_spec [OF X inv nd c]
  have "r \<noteq> Inl err" for err using cb(3) d(1) by auto
  moreover have "r \<noteq> Inr (Some b)" for b
  proof
    assume r: "r = Inr (Some b)"
    then obtain i "is" where "b_instructions b = i # is" "entry_ok X (e_mem e1) pc (e_insns e1 i)" "d_insnID (e_insns e1 i) = noInsnHook"
      using cb(2) [OF r] by (cases "b_instructions b") (auto simp: block_ok_def)
    then show False using entry_ok_fresh [OF X cb(1) d(1)] d(2) by (auto simp: drifted_dec_def)
  qed
  ultimately have "r = Inr None" by (cases r) auto
  then show ?thesis using c cb(1) by blast
qed

lemma syscall_stop:
  assumes X: "ext_good X" and inv: "cache_inv X e" and room: "gen_room 2 e" and until: "until' = 0 \<or> start \<noteq> until'"
    and d: "fst (decodeOne X start (e_mem e)) = Inr d" "d_insnID d = InsSyscall"
    and f: "h_insn H InsSyscall = Some f" "\<And>e1. c_regs (e_cpu e1) = (c_regs (e_cpu e))\<lparr>r_rip := start\<rparr> \<Longrightarrow> e_stopRequested (f e1)"
  shows "\<exists>e1. EmuStart (Suc (Suc n)) X H start until' e = Some (None, f e1) \<and> engine.more e1 = engine.more e \<and>
    cpu_eq \<lparr>c_regs = (c_regs (e_cpu e))\<lparr>r_rip := start\<rparr>, c_mem = e_mem e, c_curInstrEnd = start + of_nat (d_len d)\<rparr> (e_cpu e1)"
proof -
  define e0 where "e0 = (set_e_rip start e)\<lparr>e_stopRequested := False\<rparr>"
  have inv0: "cache_inv X (record_trace start e0)" using set_e_rip_inv [OF X inv] by (simp add: e0_def)
  have e0: "e_rip e0 = start" "\<not> e_stopRequested e0" "e_mem e0 = e_mem e" "e_blockCacheGeneration e0 = e_blockCacheGeneration e"
      "e_cpu e0 = (e_cpu e)\<lparr>c_regs := (c_regs (e_cpu e))\<lparr>r_rip := start\<rparr>\<rparr>"
    by (simp_all add: e0_def set_e_rip_def)
  have room0: "gen_room (Suc 1) (record_trace start e0)" using room by (simp add: gen_room_def e0)
  obtain dirty e1 where p: "poll_dirty (record_trace start e0) = (dirty, e1)" by fastforce
  note pd = poll_dirty_spec [OF inv0 room0 p]
  have eq1: "cpu_eq (e_cpu e0) (e_cpu e1)" using pd(3) by simp
  have f1: "e_stopRequested (f q)" if "c_regs (e_cpu q) = c_regs (e_cpu e1)" for q
    using f(2) [of q] that eq1 by (simp add: cpu_eq_def e0)
  have m1: "engine.more e1 = engine.more e" using poll_dirty_more [OF p] by (simp add: e0_def)
  have dec: "fst (decodeOne X start (e_mem e1)) = Inr d"
  proof -
    have "mem_wf (e_mem e)" "mem_wf (e_mem e1)" using inv pd(1) by (simp_all add: cache_inv_def)
    then show ?thesis
      using decodeOne_view [OF X, of "e_mem e1" "e_mem e"] same_map_view [of "e_mem e" "e_mem e1"] eq1 d(1)
      by (simp add: cpu_eq_def e0(3))
  qed
  have turn: "emu_turn (Suc n) X H until' e0 = (if e_blockJIT e1 then
          (case compileBlock X start e1 of
             (Inl err, e2) \<Rightarrow> Some (on_fault H err e2)
           | (Inr (Some b), e2) \<Rightarrow> (case executeBlock (Suc n) b until' e2 of None \<Rightarrow> None
                | Some (Some err, e3) \<Rightarrow> Some (on_fault H err e3) | Some (None, e3) \<Rightarrow> Some (RContinue, e3))
           | (Inr None, e2) \<Rightarrow> Some (emu_step X H start e2)) else Some (emu_step X H start e1))"
  proof -
    have ns: "\<not> (until' \<noteq> 0 \<and> start = until')" using until by auto
    show ?thesis unfolding emu_turn_def Let_def e0(1) if_not_P [OF e0(2)] if_not_P [OF ns] p snd_conv by (rule refl)
  qed
  have main: "\<exists>e2. emu_turn (Suc n) X H until' e0 = Some (RContinue, f e2) \<and> engine.more e2 = engine.more e \<and>
      cpu_eq ((e_cpu e1)\<lparr>c_curInstrEnd := start + of_nat (d_len d)\<rparr>) (e_cpu e2)"
  proof (cases "e_blockJIT e1")
    case False
    then show ?thesis using turn emu_step_syscall [OF X pd(1,2) dec d(2) f(1) f1] m1 by auto
  next
    case True
    obtain e2 where e2: "compileBlock X start e1 = (Inr None, e2)" "cache_step X e1 e2"
      using compileBlock_syscall [OF X pd(1,2) dec d(2)] by blast
    have st: "cache_inv X e2" "\<not> m_codeDirty (e_mem e2)" using e2(2) by (simp_all add: cache_step_def)
    have dec2: "fst (decodeOne X start (e_mem e2)) = Inr d"
      using e2(2) decodeOne_view [OF X, of "e_mem e2" "e_mem e1"] dec by (simp add: cache_step_def grows_def)
    have f2: "e_stopRequested (f q)" if "c_regs (e_cpu q) = c_regs (e_cpu e2)" for q
      using f1 [of q] that cache_step_eq [OF e2(2)] by (simp add: cpu_eq_def)
    obtain e3 where e3: "emu_step X H start e2 = (RContinue, f e3)" "engine.more e3 = engine.more e2" "cpu_eq ((e_cpu e2)\<lparr>c_curInstrEnd := start + of_nat (d_len d)\<rparr>) (e_cpu e3)"
      using emu_step_syscall [OF X st dec2 d(2) f(1) f2] by blast
    have "cpu_eq ((e_cpu e1)\<lparr>c_curInstrEnd := start + of_nat (d_len d)\<rparr>) (e_cpu e3)"
      using cache_step_eq [OF e2(2)] e3(3) by (simp add: cpu_eq_def same_map_def)
    then show ?thesis using turn True e2(1) e3(1,2) m1 compileBlock_more [OF e2(1)] by auto
  qed
  then obtain e2 where e2: "emu_turn (Suc n) X H until' e0 = Some (RContinue, f e2)" "engine.more e2 = engine.more e"
      "cpu_eq ((e_cpu e1)\<lparr>c_curInstrEnd := start + of_nat (d_len d)\<rparr>) (e_cpu e2)" by blast
  have "emu_turn n X H until' (f e2) = Some (RDone, f e2)"
    using f1 [of e2] e2(3) by (simp add: emu_turn_def cpu_eq_def)
  then have "EmuStart (Suc (Suc n)) X H start until' e = Some (None, f e2)"
    using e2(1) by (simp add: EmuStart_def e0_def [symmetric])
  moreover have "cpu_eq \<lparr>c_regs = (c_regs (e_cpu e))\<lparr>r_rip := start\<rparr>, c_mem = e_mem e, c_curInstrEnd = start + of_nat (d_len d)\<rparr> (e_cpu e2)"
    using e2(3) eq1 by (simp add: cpu_eq_def same_map_def e0)
  ultimately show ?thesis using e2(2) by blast
qed

section \<open>Properties of the engine\<close>

text \<open>
  C4. Decoding through the cache gives, at any address, the error that decoding afresh gives, or the
  very instruction that decoding afresh gives. The one exception is a memory form of BT, BTS, BTR or
  BTC (\<open>keeps_state\<close>): its closure overwrites what it captured, and the cached one is the fresh one
  after earlier runs of it. The cache stays coherent, registers and memory contents are as they were.
\<close>

theorem cached_decode_fresh:
  assumes "ext_good X" "cache_inv X e" "\<not> m_codeDirty (e_mem e)" "cachedDecode X pc e = (r, e')"
  shows "cache_inv X e' \<and> cpu_eq (e_cpu e) (e_cpu e') \<and>
    (case r of Inl err \<Rightarrow> fst (decodeOne X pc (e_mem e)) = Inl err
     | Inr i \<Rightarrow> \<exists>d. fst (decodeOne X pc (e_mem e)) = Inr d \<and>
         (if keeps_state (d_exec d) then \<exists>cs. e_insns e' i = d\<lparr>d_exec := after_runs cs (d_exec d)\<rparr> else e_insns e' i = d))"
proof -
  note cd = cachedDecode_step [OF assms]
  have wf: "mem_wf (e_mem e)" "mem_wf (e_mem e')" and view: "code_view (e_mem e') = code_view (e_mem e)"
    using cd(1) by (simp_all add: cache_step_def grows_def)
  have res: "case r of Inl err \<Rightarrow> fst (decodeOne X pc (e_mem e)) = Inl err
     | Inr i \<Rightarrow> \<exists>d. fst (decodeOne X pc (e_mem e)) = Inr d \<and>
         (if keeps_state (d_exec d) then \<exists>cs. e_insns e' i = d\<lparr>d_exec := after_runs cs (d_exec d)\<rparr> else e_insns e' i = d)"
  proof (cases r)
    case (Inr i)
    have "entry_ok X (e_mem e) pc (e_insns e' i)"
      using cd(5) [OF Inr] entry_ok_view [OF assms(1) wf view] by simp
    then show ?thesis unfolding Inr sum.case entry_ok_def using drifted_dec_exact by blast
  qed (use cd(4) in simp)
  show ?thesis using cd(1) cache_step_eq [OF cd(1)] res by (simp add: cache_step_def)
qed

theorem cached_decode_fresh_witness:
  "\<exists>i e'. cachedDecode sse_ext 0x1000 (demo_engine [0xEB, 0]) = (Inr i, e') \<and>
     e_insns e' i = \<lparr>d_len = 2, d_insnID = noInsnHook, d_endsBlock = True, d_exec = IJmp 0\<rparr>"
proof -
  obtain r e' where c: "cachedDecode sse_ext 0x1000 (demo_engine [0xEB, 0]) = (r, e')" by fastforce
  note cf = cached_decode_fresh [OF sse.good demo_engine_inv _ c]
  show ?thesis
    using cf c demo_engine_decode [OF runs_jmp8 [of sse_ext 0]] by (cases r) (auto simp: keeps_state_def)
qed

text \<open>
  C3. Code that the host or the guest has changed is never run from a cache: whatever maps, unmaps,
  protections, reads and writes are done on the memory of an engine, if any executable byte has
  changed then the poll of the code-dirty flag that precedes every instruction sees the flag, and
  then decoding through the cache gives exactly what the bytes now in memory decode to and no block
  compiled before is found. If the poll does not see it the executable bytes are what they were, and
  the caches give what these decode to (up to the closures of \<open>keeps_state\<close>, as without a change).
\<close>

theorem stale_code_never_runs:
  assumes X: "ext_good X" and inv: "cache_inv X e" and ops: "list_all host_op ops" and room: "gen_room 1 e"
    and p: "poll_dirty (set_e_mem (fold run_op ops (e_mem e)) e) = (dirty, e1)"
  shows "(case cachedDecode X pc e1 of
       (Inl err, e2) \<Rightarrow> fst (decodeOne X pc (fold run_op ops (e_mem e))) = Inl err
     | (Inr i, e2) \<Rightarrow> \<exists>d. fst (decodeOne X pc (fold run_op ops (e_mem e))) = Inr d \<and>
         drifted_dec d (e_insns e2 i) \<and> (dirty \<or> \<not> keeps_state (d_exec d) \<longrightarrow> e_insns e2 i = d)) \<and>
    (\<forall>b e2. cachedBlockAt pc e1 = (Some b, e2) \<longrightarrow> \<not> dirty \<and> b_start b = pc \<and>
       block_seq X (fold run_op ops (e_mem e)) (e_insns e2) (e_nextInsn e2) pc (b_instructions b)) \<and>
    (\<not> dirty \<longrightarrow> code_view (fold run_op ops (e_mem e)) = code_view (e_mem e))"
proof -
  let ?m = "fold run_op ops (e_mem e)"
  let ?e = "set_e_mem ?m e"
  note inv' = host_ops_inv [OF X inv ops]
  have room': "gen_room (Suc 0) ?e" using room by (simp add: gen_room_def set_e_mem_def)
  note pd = poll_dirty_spec [OF inv' room' p]
  have em: "e_mem ?e = ?m" by (simp add: set_e_mem_def)
  have wf: "mem_wf ?m" "mem_wf (e_mem e1)" using inv' pd(1) by (simp_all add: cache_inv_def em)
  have view: "code_view (e_mem e1) = code_view ?m" using pd(3) same_map_view [of ?m "e_mem e1"] by (simp add: cpu_eq_def em)
  have dec: "fst (decodeOne X pc (e_mem e1)) = fst (decodeOne X pc ?m)"
    by (rule decodeOne_view [OF X wf(2,1) view])
  obtain r e2 where c: "cachedDecode X pc e1 = (r, e2)" by fastforce
  note cd = cachedDecode_step [OF X pd(1,2) c]
  have wf2: "mem_wf (e_mem e2)" and view2: "code_view (e_mem e2) = code_view (e_mem e1)"
    using cd(1) by (simp_all add: cache_step_def grows_def)
  have room1: "gen_room 1 ?e" using room' by simp
  have none: "no_code_cached e1" if dirty using poll_dirty_empties [OF inv' room1] p that by simp
  have ex: "\<exists>d. fst (decodeOne X pc ?m) = Inr d \<and> drifted_dec d (e_insns e2 i) \<and> (dirty \<or> \<not> keeps_state (d_exec d) \<longrightarrow> e_insns e2 i = d)"
    if r: "r = Inr i" for i
  proof -
    obtain d where d: "fst (decodeOne X pc ?m) = Inr d" "drifted_dec d (e_insns e2 i)"
      using cd(5) [OF r] entry_ok_view [OF X wf(2) wf2 view2] dec by (auto simp: entry_ok_def)
    have "e_insns e2 i = d" if dirty using no_code_decode [OF none [OF that]] c r dec d(1) by simp
    then show ?thesis using d drifted_dec_same [OF _ d(2)] by blast
  qed
  have "case r of Inl err \<Rightarrow> fst (decodeOne X pc ?m) = Inl err
      | Inr i \<Rightarrow> \<exists>d. fst (decodeOne X pc ?m) = Inr d \<and> drifted_dec d (e_insns e2 i) \<and> (dirty \<or> \<not> keeps_state (d_exec d) \<longrightarrow> e_insns e2 i = d)"
    using cd(4) dec ex by (auto split: sum.split)
  moreover have "\<not> dirty \<longrightarrow> code_view ?m = code_view (e_mem e)" using host_ops_view [OF _ ops, of "e_mem e"] pd(4) inv by (auto simp: em cache_inv_def)
  moreover have "\<not> dirty \<and> b_start b = pc \<and> block_seq X ?m (e_insns e3) (e_nextInsn e3) pc (b_instructions b)"
    if "cachedBlockAt pc e1 = (Some b, e3)" for b e3
  proof -
    note cb = cachedBlockAt_spec [OF pd(1,2) that]
    have "b_start b = pc" "block_ok X e3 b" using cb(3) by simp_all
    then have s: "block_seq X (e_mem e1) (e_insns e3) (e_nextInsn e3) pc (b_instructions b)" using cb(2) by (simp add: block_ok_def)
    have "block_seq X ?m (e_insns e3) (e_nextInsn e3) s is = block_seq X (e_mem e1) (e_insns e3) (e_nextInsn e3) s is" for s "is"
      using entry_ok_view [OF X wf view] by (induction "is" arbitrary: s) simp_all
    moreover have "\<not> dirty" using no_code_block [OF none, of pc] that by auto
    ultimately show ?thesis using s \<open>b_start b = pc\<close> by simp
  qed
  ultimately show ?thesis by (simp add: c)
qed

theorem stale_code_never_runs_witness:
  "\<exists>i e2. cachedDecode sse_ext 0x1000 (snd (poll_dirty (set_e_mem
       (fold run_op [OpWrite 0x1000 [0xEB, 0]] (e_mem (demo_engine [0x0F, 0x05]))) (demo_engine [0x0F, 0x05])))) = (Inr i, e2) \<and>
     d_exec (e_insns e2 i) = IJmp 0"
proof -
  define m where "m = (code_mem [0x0F, 0x05])\<lparr>m_codeDirty := False\<rparr>"
  have wf: "mem_wf m" using code_mem_spec(1) [of "[0x0F, 0x05]"] by (simp add: m_def mem_wf_def)
  have at: "code_at m 0x1000 [0x0F, 0x05]" using code_mem_spec(2) [of "[0x0F, 0x05]"] by (simp add: m_def code_at_def code_view_def)
  have cells: "\<exists>p b. mem_at m (0x1000 + of_nat i) = Some (p, b) \<and> p AND ProtExec \<noteq> 0" if "i < 2" for i
  proof -
    have "code_view m (0x1000 + of_nat i) = Some ([0x0F, 0x05] ! i)" using at that by (simp add: code_at_def)
    then show ?thesis by (auto simp: code_view_def split: option.splits if_splits)
  qed
  have acc: "accessible m 0 (0x1000 + of_nat i)" if "i < length [0xEB, 0 :: u8]" for i
    using cells [of i] that by (auto simp: accessible_def)
  obtain m' where w: "writeChecked 0x1000 [0xEB, 0] 0 m = (Inr (), m')" "mem_wf m'" "mem_at m' = upd_at 0x1000 [0xEB, 0] 0 2 (mem_at m)"
    using writeChecked_ok [OF wf, of "[0xEB, 0]", OF _ acc] by (auto simp: numeral_2_eq_2)
  have at': "code_at m' 0x1000 [0xEB, 0]"
    unfolding code_at_def
  proof (intro allI impI)
    fix i assume "i < length [0xEB, 0 :: u8]"
    then have i: "i = 0 \<or> i = 1" by auto
    then obtain p b where "mem_at m (0x1000 + of_nat i) = Some (p, b)" "p AND ProtExec \<noteq> 0" using cells [of i] by auto
    then show "code_view m' (0x1000 + of_nat i) = Some ([0xEB, 0] ! i)"
      using i by (auto simp: code_view_def w(3) upd_at_def)
  qed
  have run: "fold run_op [OpWrite 0x1000 [0xEB, 0]] (e_mem (demo_engine [0x0F, 0x05])) = m'"
    using w(1) by (simp add: MemWrite_eq m_def)
  let ?e = "set_e_mem (fold run_op [OpWrite 0x1000 [0xEB, 0]] (e_mem (demo_engine [0x0F, 0x05]))) (demo_engine [0x0F, 0x05])"
  have ops: "list_all host_op [OpWrite 0x1000 [0xEB, 0]]" by simp
  have room: "gen_room 1 (demo_engine [0x0F, 0x05])" by (simp add: gen_room_def)
  have inv: "cache_inv sse_ext (demo_engine [0x0F, 0x05])" by (rule demo_engine_inv) simp
  obtain r e2 where c: "cachedDecode sse_ext 0x1000 (snd (poll_dirty ?e)) = (r, e2)" by fastforce
  note nv = stale_code_never_runs [OF sse.good inv ops room prod.collapse [symmetric], of "0x1000", unfolded run c [unfolded run] prod.case]
  have "fst (decodeOne sse_ext 0x1000 m') = Inr \<lparr>d_len = 2, d_insnID = noInsnHook, d_endsBlock = True, d_exec = IJmp 0\<rparr>"
    using decodeOne_runs [OF runs_jmp8 [of sse_ext 0] w(2) at'] by simp
  then have "\<exists>i. r = Inr i \<and> d_exec (e_insns e2 i) = IJmp 0"
    using conjunct1 [OF nv] by (auto simp: keeps_state_def split: sum.splits)
  then show ?thesis using c by blast
qed

text \<open>
  C2. A compiled block is an optimisation only: compiling at RIP and executing the block, with all
  the blocks it chains to, is some number of single instructions, each decoded from the bytes at RIP
  and run as decoded, and an error is the fault of the instruction those steps lead to
  (\<open>cpu_runs (=)\<close>), unless such steps reach a memory form of BT, BTS, BTR or BTC with a register
  offset, whose closure the code overwrites; then what runs is the decoded closure after earlier runs
  of it (\<open>cpu_runs drifted\<close>, which holds in every case). The caches stay coherent.
\<close>

theorem block_refines_steps:
  assumes "ext_good X" "cache_inv X e" "\<not> m_codeDirty (e_mem e)" "gen_room 1 e"
    and "compileBlock X (e_rip e) e = (Inr (Some b), e1)" "executeBlock f b until' e1 = Some (r, e2)"
  shows "cache_inv X e2 \<and> cpu_runs drifted X (e_cpu e) r (e_cpu e2) \<and>
    (cpu_runs (=) X (e_cpu e) r (e_cpu e2) \<or> (\<exists>c. cpu_path (=) X (e_cpu e) c \<and> bt_memory_at X c))"
proof -
  note cb = compileBlock_spec [OF assms(1-3,5)]
  have e1: "cache_inv X e1" "\<not> m_codeDirty (e_mem e1)" "gen_room (Suc 0) e1"
    using cb(1) assms(4) by (simp_all add: cache_step_def gen_room_def)
  have ok: "block_ok X e1 b" using cb(2) by simp
  note bd = executeBlock_spec [OF assms(1) e1 ok assms(6)]
  have wf: "mem_wf (e_mem e)" "mem_wf (e_mem e1)" using assms(2) e1(1) by (simp_all add: cache_inv_def)
  have runs: "cpu_runs drifted X (e_cpu e) r (e_cpu e2)"
    by (rule block_runs_eq [OF assms(1) cache_step_eq [OF cb(1)] wf bd])
  show ?thesis using runs cpu_runs_strict [OF runs] block_done_runs(1) [OF bd] by blast
qed

lemma demo_engine_block:
  "\<exists>e1. compileBlock X 0x1000 (set_e_rip 0x1000 (demo_engine [0xEB, 0])) =
      (Inr (Some \<lparr>b_start = 0x1000, b_generation = 0, b_instructions = [0]\<rparr>), e1) \<and>
     e_insns e1 0 = \<lparr>d_len = 2, d_insnID = noInsnHook, d_endsBlock = True, d_exec = IJmp 0\<rparr> \<and>
     e_rip e1 = 0x1000 \<and> \<not> e_stopRequested e1"
proof -
  define m where "m = (code_mem [0xEB, 0])\<lparr>m_codeDirty := False\<rparr>"
  define d where "d = \<lparr>d_len = 2, d_insnID = noInsnHook, d_endsBlock = True, d_exec = IJmp 0\<rparr>"
  obtain m1 where m1: "decodeOne X 0x1000 m = (Inr d, m1)"
    using demo_engine_decode [OF runs_jmp8 [of X 0]] by (cases "decodeOne X 0x1000 m") (auto simp: m_def d_def)
  define n where "n = (63 :: nat)"
  have n: "maxBlockInstructions = Suc n" by (simp add: n_def maxBlockInstructions_def)
  define e where "e = set_e_rip 0x1000 (demo_engine [0xEB, 0])"
  have e: "e_cachedBlock e = None" "e_blockCache e = Map.empty" "e_cachedDecodePage e = None" "e_decodeCache e = Map.empty"
      "e_mem e = m" "e_nextInsn e = 0" "e_rip e = 0x1000" "\<not> e_stopRequested e" "e_blockCacheGeneration e = 0"
    by (simp_all add: e_def set_e_rip_def demo_engine_def set_e_mem_def NewEngine_def m_def)
  have "\<exists>e1. compileBlock X 0x1000 e = (Inr (Some \<lparr>b_start = 0x1000, b_generation = 0, b_instructions = [0]\<rparr>), e1) \<and>
      e_insns e1 0 = d \<and> e_rip e1 = 0x1000 \<and> \<not> e_stopRequested e1"
    by (simp add: compileBlock_def cachedBlockAt_def compile_new_def n cachedDecode_def decode_page_def load_page_def
        Let_def e m1 set_e_mem_def d_def)
  then show ?thesis by (simp add: e_def d_def)
qed

lemma block_insn_jmp:
  assumes "e_insns e i = \<lparr>d_len = 2, d_insnID = noInsnHook, d_endsBlock = True, d_exec = IJmp 0\<rparr>" "\<not> m_codeDirty (e_mem e)"
  shows "\<exists>e2. block_insn i nx e = (XNext True, e2) \<and> e_rip e2 = nx"
proof -
  have same: "(e_mem e)\<lparr>m_codeDirty := False\<rparr> = e_mem e" using assms(2) by (cases "e_mem e") simp
  show ?thesis
    using assms same by (simp add: block_insn_def exec_at_def set_curInstrEnd_def exec_insn_def jump_rel_def set_rip_def
        poll_dirty_def consumeCodeDirty_def Let_def set_e_mem_def)
qed

theorem block_refines_steps_witness:
  "\<exists>(e1 :: engine) e2. executeBlock 1 \<lparr>b_start = 0x1000, b_generation = 0, b_instructions = [0]\<rparr> 0x1002 e1 = Some (None, e2) \<and>
     e_rip e2 = 0x1002 \<and> cpu_path drifted sse_ext (e_cpu (set_e_rip 0x1000 (demo_engine [0xEB, 0]))) (e_cpu e2)"
proof -
  define e where "e = set_e_rip 0x1000 (demo_engine [0xEB, 0])"
  define b where "b = \<lparr>b_start = 0x1000, b_generation = 0, b_instructions = [0]\<rparr>"
  have rip: "e_rip e = 0x1000" by (simp add: e_def set_e_rip_def)
  have inv0: "cache_inv sse_ext (demo_engine [0xEB, 0])" by (rule demo_engine_inv) simp
  have pre: "cache_inv sse_ext e" "\<not> m_codeDirty (e_mem e)" "gen_room 1 e"
    using set_e_rip_inv [OF sse.good inv0] by (simp_all add: e_def gen_room_def set_e_rip_def)
  obtain e1 where e1: "compileBlock sse_ext (e_rip e) e = (Inr (Some b), e1)"
      "e_insns e1 0 = \<lparr>d_len = 2, d_insnID = noInsnHook, d_endsBlock = True, d_exec = IJmp 0\<rparr>" "e_rip e1 = 0x1000" "\<not> e_stopRequested e1"
    using demo_engine_block [of sse_ext] rip unfolding e_def b_def by auto
  have "\<not> m_codeDirty (e_mem e1)" using compileBlock_spec(1) [OF sse.good pre(1,2) e1(1)] by (simp add: cache_step_def)
  then obtain e2 where i: "block_insn 0 0x1002 e1 = (XNext True, e2)" "e_rip e2 = 0x1002"
    using block_insn_jmp [OF e1(2), of "0x1002"] by blast
  then have "run_block 0x1002 [0] True 0x1000 e1 = (BReturn, e2)" using e1(2-4) by (simp add: Let_def)
  then have e2: "executeBlock 1 b 0x1002 e1 = Some (None, e2)" "e_rip e2 = 0x1002"
    using e1(3) i(2) by (simp_all add: b_def del: run_block.simps run_block0.simps)
  have "cpu_path drifted sse_ext (e_cpu e) (e_cpu e2)"
    using block_refines_steps [OF sse.good pre e1(1) e2(1)] by (simp add: cpu_runs_def)
  then show ?thesis using e2 unfolding e_def b_def by blast
qed

text \<open>
  C1. A run of \<open>EmuStart\<close>, with block compilation on or off, with the caches in any coherent state
  and with any hooks that respect the caches, is a run of the plain interpreter that decodes each
  instruction afresh: instructions run as decoded from the bytes at RIP, the hooks of SYSCALL and
  CPUID, handled faults, then, if it returns an error, the way the instruction there fails
  (\<open>interprets (=)\<close>), unless that interpreter reaches a memory form of BT, BTS, BTR or BTC with a
  register offset; then a closure that runs is the decoded one after earlier runs of it
  (\<open>interprets drifted\<close>, which holds in every case). It returns no error only on a stop request or
  at \<open>until\<close>. Afterwards the caches are coherent again. The fuel bounds the turns of the loop.
\<close>

theorem emu_refines_interpreter:
  assumes "ext_good X" "cache_inv X e" "gen_room (2 * n) e" "hooks_ok X H" "EmuStart n X H start until' e = Some (r, e')"
  shows "cache_inv X e' \<and> (r = None \<longrightarrow> e_stopRequested e' \<or> until' \<noteq> 0 \<and> e_rip e' = until') \<and>
    (let s = ((e_cpu e)\<lparr>c_regs := (c_regs (e_cpu e))\<lparr>r_rip := start\<rparr>\<rparr>, engine.more e) in
       interprets drifted X H s r (eng_state e') \<and>
       (interprets (=) X H s r (eng_state e') \<or> reaches_bt X H s))"
proof -
  note es = EmuStart_spec [OF assms]
  show ?thesis using es(1) es(3) interprets_strict [OF es(2)] es(2) unfolding Let_def by blast
qed

theorem emu_refines_interpreter_witness:
  "\<exists>e'. EmuStart 2 sse_ext no_hooks 0x1000 0x1002 (demo_engine [0xEB, 0]) = Some (None, e') \<and> e_rip e' = 0x1002 \<and>
     emu_path drifted sse_ext no_hooks (e_cpu (set_e_rip 0x1000 (demo_engine [0xEB, 0])), ()) (e_cpu e', ())"
proof -
  define m where "m = (code_mem [0xEB, 0])\<lparr>m_codeDirty := False\<rparr>"
  define d where "d = \<lparr>d_len = 2, d_insnID = noInsnHook, d_endsBlock = True, d_exec = IJmp 0\<rparr>"
  obtain m1 where m1: "decodeOne sse_ext 0x1000 m = (Inr d, m1)"
    using demo_engine_decode [OF runs_jmp8 [of sse_ext 0]] by (cases "decodeOne sse_ext 0x1000 m") (auto simp: m_def d_def)
  have nd: "\<not> m_codeDirty m" by (simp add: m_def)
  have m': "m\<lparr>m_codeDirty := False\<rparr> = m" by (simp add: m_def)
  define e where "e = (set_e_rip 0x1000 (demo_engine [0xEB, 0]))\<lparr>e_stopRequested := False\<rparr>"
  have e: "e_cachedDecodePage e = None" "e_decodeCache e = Map.empty" "\<not> e_blockJIT e"
      "e_mem e = m" "e_nextInsn e = 0" "e_rip e = 0x1000" "\<not> e_stopRequested e"
    by (simp_all add: e_def set_e_rip_def demo_engine_def set_e_mem_def NewEngine_def m_def)
  have "\<exists>e1. emu_turn 1 sse_ext no_hooks 0x1002 e = Some (RContinue, e1) \<and> e_rip e1 = 0x1002 \<and> \<not> e_stopRequested e1"
    by (simp add: emu_turn_def poll_dirty_def consumeCodeDirty_def record_trace_def e nd m' emu_step_def cachedDecode_def
        decode_page_def load_page_def Let_def m1 set_e_mem_def d_def exec_at_def exec_insn_def jump_rel_def set_rip_def set_curInstrEnd_def)
  then obtain e1 where e1: "emu_turn (Suc 0) sse_ext no_hooks 0x1002 e = Some (RContinue, e1)" "e_rip e1 = 0x1002" "\<not> e_stopRequested e1" by auto
  have "emu_turn 0 sse_ext no_hooks 0x1002 e1 = Some (RDone, e1)" using e1(2,3) by (simp add: emu_turn_def)
  then have "EmuStart (Suc (Suc 0)) sse_ext no_hooks 0x1000 0x1002 (demo_engine [0xEB, 0]) = Some (None, e1)"
    using e1(1) by (simp add: EmuStart_def e_def [symmetric])
  then have "EmuStart 2 sse_ext no_hooks 0x1000 0x1002 (demo_engine [0xEB, 0]) = Some (None, e1)"
    by (simp only: numeral_2_eq_2)
  moreover have "cache_inv sse_ext (demo_engine [0xEB, 0])" "gen_room (2 * 2) (demo_engine [0xEB, 0])"
    by (rule demo_engine_inv; simp) (simp add: gen_room_def)
  ultimately show ?thesis
    using emu_refines_interpreter [OF sse.good, of "demo_engine [0xEB, 0]" 2 no_hooks "0x1000" "0x1002" None e1] e1(2)
    by (auto simp: Let_def set_e_rip_def interprets_def hooks_ok_def no_hooks_def)
qed

text \<open>
  When the instruction at the start address is SYSCALL and the installed hook requests a stop
  (as exit and a blocking call do), \<open>EmuStart\<close> returns: the hook runs once, with the registers as they
  were and \<open>curInstrEnd\<close> behind the instruction, and its engine is returned without error and
  without moving RIP. Two turns of the loop suffice, with block compilation on or off.
\<close>

theorem syscall_stop_returns:
  assumes X: "ext_good X" and inv: "cache_inv X e" and room: "gen_room 2 e" and until: "until' = 0 \<or> start \<noteq> until'"
    and d: "fst (decodeOne X start (e_mem e)) = Inr d" "d_insnID d = InsSyscall"
    and f: "h_insn H InsSyscall = Some f" "\<And>e1. e_stopRequested (f e1)"
  shows "\<exists>e1. EmuStart (Suc (Suc n)) X H start until' e = Some (None, f e1) \<and>
    cpu_eq \<lparr>c_regs = (c_regs (e_cpu e))\<lparr>r_rip := start\<rparr>, c_mem = e_mem e, c_curInstrEnd = start + of_nat (d_len d)\<rparr> (e_cpu e1)"
  using syscall_stop [OF X inv room until d f(1)] f(2) by blast

theorem syscall_stop_returns_witness:
  "\<exists>e1. EmuStart 2 sse_ext \<lparr>h_insn = [InsSyscall \<mapsto> EmuStop], h_unmap = None\<rparr> 0x1000 0 (demo_engine [0x0F, 0x05]) =
      Some (None, EmuStop e1) \<and> e_rip e1 = 0x1000 \<and> c_curInstrEnd (e_cpu e1) = 0x1002"
proof -
  have dec: "fst (decodeOne sse_ext 0x1000 (e_mem (demo_engine [0x0F, 0x05]))) =
      Inr \<lparr>d_len = 2, d_insnID = InsSyscall, d_endsBlock = False, d_exec = INone\<rparr>"
    using demo_engine_decode [OF runs_syscall] by simp
  have "cache_inv sse_ext (demo_engine [0x0F, 0x05])" "gen_room 2 (demo_engine [0x0F, 0x05])"
    by (rule demo_engine_inv; simp) (simp add: gen_room_def)
  from syscall_stop_returns [OF sse.good this _ dec, of 0 "\<lparr>h_insn = [InsSyscall \<mapsto> EmuStop], h_unmap = None\<rparr>" EmuStop 0]
  show ?thesis by (auto simp: EmuStop_def cpu_eq_def numeral_2_eq_2)
qed

text \<open>
  Whatever well-behaved hooks are installed (they may change registers, memory through the
  operations of \<open>host_op\<close>, and request stops), a run of \<open>EmuStart\<close> leaves every cached instruction
  and every live block equal to what memory now decodes to, or the code-dirty flag set.
\<close>

theorem emu_keeps_caches:
  assumes "ext_good X" "cache_inv X e" "gen_room (2 * n) e" "hooks_ok X H" "EmuStart n X H start until' e = Some (r, e')"
  shows "cache_inv X e'"
  by (rule EmuStart_spec(1) [OF assms])

theorem emu_keeps_caches_witness:
  "\<exists>e1. EmuStart 2 sse_ext \<lparr>h_insn = [InsSyscall \<mapsto> EmuStop], h_unmap = None\<rparr> 0x1000 0 (demo_engine [0x0F, 0x05]) = Some (None, e1) \<and>
     cache_inv sse_ext e1"
proof -
  have ok: "hooks_ok sse_ext \<lparr>h_insn = [InsSyscall \<mapsto> EmuStop], h_unmap = None\<rparr>"
    by (simp add: hooks_ok_def EmuStop_def)
  have dec: "fst (decodeOne sse_ext 0x1000 (e_mem (demo_engine [0x0F, 0x05]))) =
      Inr \<lparr>d_len = 2, d_insnID = InsSyscall, d_endsBlock = False, d_exec = INone\<rparr>"
    using demo_engine_decode [OF runs_syscall] by simp
  have inv: "cache_inv sse_ext (demo_engine [0x0F, 0x05])" by (rule demo_engine_inv) simp
  have room: "gen_room 2 (demo_engine [0x0F, 0x05])" "gen_room (2 * 2) (demo_engine [0x0F, 0x05])" by (simp_all add: gen_room_def)
  obtain e1 where run: "EmuStart 2 sse_ext \<lparr>h_insn = [InsSyscall \<mapsto> EmuStop], h_unmap = None\<rparr> 0x1000 0 (demo_engine [0x0F, 0x05]) = Some (None, e1)"
    using syscall_stop [OF sse.good inv room(1) _ dec, of 0 "\<lparr>h_insn = [InsSyscall \<mapsto> EmuStop], h_unmap = None\<rparr>" EmuStop 0]
    by (auto simp: EmuStop_def numeral_2_eq_2)
  show ?thesis using emu_keeps_caches [OF sse.good inv room(2) ok run] run by blast
qed

end
