(* ===== verification/Fds.thy ===== *)
theory Fds
  imports Prelude
begin

text \<open>
  The descriptor tables of \<open>internal/fds/fds.go\<close>: small integers mapped to open files, shared
  between the processes of a fork tree through one reference count per open file. A file is known by
  its identity, a number; what \<open>Close\<close> of the file does on the host is recorded as its place in the
  list of closed files.
\<close>

section \<open>State\<close>

record fileRefs =
  fr_counts :: "nat \<Rightarrow> int"
  fr_closed :: "nat list"

record fd_table =
  t_entries :: "int \<rightharpoonup> nat"
  t_next :: int
  t_cloexec :: "int \<Rightarrow> bool"

text \<open>Go's \<open>int\<close> has 64 bits: \<open>next\<close> and \<open>newfd + 1\<close> wrap.\<close>

definition wrap_int :: "int \<Rightarrow> int" where
  "wrap_int k = sint (word_of_int k :: 64 word)"

definition maxInt :: int where "maxInt = 9223372036854775807"

section \<open>Reference counts\<close>

text \<open>A key that is not in the map counts zero, so deleting one sets it to zero.\<close>

definition incr :: "nat \<Rightarrow> fileRefs \<Rightarrow> fileRefs" where
  "incr f r = r\<lparr>fr_counts := (fr_counts r)(f := fr_counts r f + 1)\<rparr>"

definition decrAndMaybeClose :: "nat \<Rightarrow> fileRefs \<Rightarrow> fileRefs" where
  "decrAndMaybeClose f r =
     (let n = fr_counts r f - 1 in
      if n \<le> 0 then r\<lparr>fr_counts := (fr_counts r)(f := 0), fr_closed := fr_closed r @ [f]\<rparr>
      else r\<lparr>fr_counts := (fr_counts r)(f := n)\<rparr>)"

section \<open>The table\<close>

text \<open>The files of the three standard streams are given by the caller.\<close>

definition NewTable :: "nat \<Rightarrow> nat \<Rightarrow> nat \<Rightarrow> fileRefs \<times> fd_table" where
  "NewTable f0 f1 f2 =
     (incr f2 (incr f1 (incr f0 \<lparr>fr_counts = (\<lambda>_. 0), fr_closed = []\<rparr>)),
      \<lparr>t_entries = [0 \<mapsto> f0, 1 \<mapsto> f1, 2 \<mapsto> f2], t_next = 3, t_cloexec = (\<lambda>_. False)\<rparr>)"

definition Get :: "int \<Rightarrow> fd_table \<Rightarrow> nat option" where
  "Get fd t = t_entries t fd"

definition SetCloexec :: "int \<Rightarrow> bool \<Rightarrow> fd_table \<Rightarrow> fd_table" where
  "SetCloexec fd val t = t\<lparr>t_cloexec := (t_cloexec t)(fd := val)\<rparr>"

definition Cloexec :: "int \<Rightarrow> fd_table \<Rightarrow> bool" where
  "Cloexec fd t = t_cloexec t fd"

definition set_entry :: "int \<Rightarrow> nat \<Rightarrow> fileRefs \<times> fd_table \<Rightarrow> fileRefs \<times> fd_table" where
  "set_entry fd f = (\<lambda>(r, t). (incr f r, t\<lparr>t_entries := (t_entries t)(fd \<mapsto> f)\<rparr>))"

definition Alloc :: "nat \<Rightarrow> fileRefs \<times> fd_table \<Rightarrow> int \<times> fileRefs \<times> fd_table" where
  "Alloc f = (\<lambda>(r, t). let fd = t_next t in
     (fd, set_entry fd f (r, t\<lparr>t_next := wrap_int (t_next t + 1)\<rparr>)))"

definition CloseFd :: "int \<Rightarrow> fileRefs \<times> fd_table \<Rightarrow> bool \<times> fileRefs \<times> fd_table" where
  "CloseFd fd = (\<lambda>(r, t). case t_entries t fd of
       None \<Rightarrow> (False, r, t)
     | Some f \<Rightarrow> (True, decrAndMaybeClose f r,
         t\<lparr>t_entries := (t_entries t)(fd := None), t_cloexec := (t_cloexec t)(fd := False)\<rparr>))"

text \<open>
  Go ranges over a map in an order of its own. The order is an argument: the keys of the map, each
  once. \<open>Close\<close> deletes only the key that is being visited.
\<close>

definition CloseOnExec :: "int list \<Rightarrow> fileRefs \<times> fd_table \<Rightarrow> fileRefs \<times> fd_table" where
  "CloseOnExec order = fold (\<lambda>fd (r, t). if t_cloexec t fd then snd (CloseFd fd (r, t)) else (r, t)) order"

definition CloseAll :: "int list \<Rightarrow> fileRefs \<times> fd_table \<Rightarrow> fileRefs \<times> fd_table" where
  "CloseAll order = fold (\<lambda>fd s. snd (CloseFd fd s)) order"

definition CloneTable :: "int list \<Rightarrow> fileRefs \<times> fd_table \<Rightarrow> fileRefs \<times> fd_table" where
  "CloneTable order = (\<lambda>(r, t). fold (\<lambda>fd s. case t_entries t fd of None \<Rightarrow> s | Some f \<Rightarrow> set_entry fd f s) order
     (r, \<lparr>t_entries = Map.empty, t_next = t_next t, t_cloexec = t_cloexec t\<rparr>))"

definition Dup :: "int \<Rightarrow> fileRefs \<times> fd_table \<Rightarrow> int option \<times> fileRefs \<times> fd_table" where
  "Dup oldfd = (\<lambda>(r, t). case t_entries t oldfd of
       None \<Rightarrow> (None, r, t)
     | Some f \<Rightarrow> (let (fd, s) = Alloc f (r, t) in (Some fd, s)))"

definition raise_next :: "int \<Rightarrow> fileRefs \<times> fd_table \<Rightarrow> fileRefs \<times> fd_table" where
  "raise_next newfd = (\<lambda>(r, t). (r, if t_next t < wrap_int (newfd + 1) then t\<lparr>t_next := wrap_int (newfd + 1)\<rparr> else t))"

definition Dup2 :: "int \<Rightarrow> int \<Rightarrow> fileRefs \<times> fd_table \<Rightarrow> int option \<times> fileRefs \<times> fd_table" where
  "Dup2 oldfd newfd = (\<lambda>(r, t). case t_entries t oldfd of
       None \<Rightarrow> (None, r, t)
     | Some f \<Rightarrow> (Some newfd, raise_next newfd
         (if newfd \<noteq> oldfd then set_entry newfd f (snd (CloseFd newfd (r, t))) else (r, t))))"

section \<open>Read-only files and directories\<close>

text \<open>
  \<open>StaticFile\<close>: its data and the read position. A slice whose bounds are out of order is a panic
  of the program, the value \<open>None\<close>; \<open>pos + n\<close> wraps.
\<close>

record static_file =
  sf_data :: "8 word list"
  sf_pos :: int

definition StaticFile_Read :: "int \<Rightarrow> static_file \<Rightarrow> (8 word list \<times> static_file) option" where
  "StaticFile_Read n f =
     (if int (length (sf_data f)) \<le> sf_pos f then Some ([], f)
      else let e = wrap_int (sf_pos f + n);
               end' = (if int (length (sf_data f)) < e then int (length (sf_data f)) else e) in
        if end' < sf_pos f then None
        else Some (take (nat (end' - sf_pos f)) (drop (nat (sf_pos f)) (sf_data f)), f\<lparr>sf_pos := end'\<rparr>))"

definition StaticFile_PreadAt :: "int \<Rightarrow> int \<Rightarrow> static_file \<Rightarrow> 8 word list option" where
  "StaticFile_PreadAt n offset f =
     (if offset < 0 \<or> int (length (sf_data f)) \<le> offset then Some []
      else let e = wrap_int (offset + n);
               end' = (if int (length (sf_data f)) < e then int (length (sf_data f)) else e) in
        if end' < offset then None
        else Some (take (nat (end' - offset)) (drop (nat offset) (sf_data f))))"

record dir_handle =
  dh_guestPath :: string
  dh_entries :: "string list"
  dh_Pos :: int

definition NewDirHandleFromEntries :: "string \<Rightarrow> string list \<Rightarrow> dir_handle" where
  "NewDirHandleFromEntries guestPath names = \<lparr>dh_guestPath = guestPath, dh_entries = [''.'', ''..''] @ names, dh_Pos = 0\<rparr>"

section \<open>Processes that share descriptions\<close>

text \<open>The tables of the live processes and the reference counts that they share.\<close>

record fd_world =
  w_refs :: fileRefs
  w_tables :: "fd_table list"

definition on_table :: "nat \<Rightarrow> (fileRefs \<times> fd_table \<Rightarrow> fileRefs \<times> fd_table) \<Rightarrow> fd_world \<Rightarrow> fd_world" where
  "on_table i f w = (let (r, t) = f (w_refs w, w_tables w ! i) in \<lparr>w_refs = r, w_tables = (w_tables w)[i := t]\<rparr>)"

inductive fd_step :: "fd_world \<Rightarrow> fd_world \<Rightarrow> bool" where
  open_file: "i < length (w_tables w) \<Longrightarrow> f \<notin> set (fr_closed (w_refs w)) \<Longrightarrow> t_next (w_tables w ! i) < maxInt \<Longrightarrow>
    fd_step w (on_table i (\<lambda>s. snd (Alloc f s)) w)"
| close: "i < length (w_tables w) \<Longrightarrow> fd_step w (on_table i (\<lambda>s. snd (CloseFd fd s)) w)"
| cloexec: "i < length (w_tables w) \<Longrightarrow> fd_step w (on_table i (\<lambda>(r, t). (r, SetCloexec fd val t)) w)"
| dup: "i < length (w_tables w) \<Longrightarrow> t_next (w_tables w ! i) < maxInt \<Longrightarrow> fd_step w (on_table i (\<lambda>s. snd (Dup fd s)) w)"
| dup2: "i < length (w_tables w) \<Longrightarrow> - maxInt \<le> newfd \<Longrightarrow> newfd < maxInt \<Longrightarrow>
    fd_step w (on_table i (\<lambda>s. snd (Dup2 fd newfd s)) w)"
| exec: "i < length (w_tables w) \<Longrightarrow> fd_step w (on_table i (CloseOnExec order) w)"
| exit: "i < length (w_tables w) \<Longrightarrow> distinct order \<Longrightarrow> set order = dom (t_entries (w_tables w ! i)) \<Longrightarrow>
    fd_step w (on_table i (CloseAll order) w)"
| fork: "i < length (w_tables w) \<Longrightarrow> distinct order \<Longrightarrow> set order = dom (t_entries (w_tables w ! i)) \<Longrightarrow>
    CloneTable order (w_refs w, w_tables w ! i) = (r, t) \<Longrightarrow>
    fd_step w \<lparr>w_refs = r, w_tables = w_tables w @ [t]\<rparr>"

end
