(* ===== verification/Fds_Laws.thy ===== *)
theory Fds_Laws
  imports Fds
begin

text \<open>
  The reference counts of shared open files are exact: a file is closed by the step that removes its
  last descriptor in the whole fork tree and by no other, so no descriptor ever refers to a closed
  file. Descriptor numbers are fresh, and \<open>execve\<close> closes exactly the flagged descriptors.
\<close>

section \<open>Tables\<close>

lemma wrap_int_id: "- maxInt - 1 \<le> k \<Longrightarrow> k \<le> maxInt \<Longrightarrow> wrap_int k = k"
  by (simp add: wrap_int_def maxInt_def int_word_sint)

definition table_ok :: "fd_table \<Rightarrow> bool" where
  "table_ok t \<longleftrightarrow> finite (dom (t_entries t)) \<and> (\<forall>fd f. t_entries t fd = Some f \<longrightarrow> fd < t_next t) \<and>
     - maxInt \<le> t_next t \<and> t_next t \<le> maxInt"

lemma table_ok_fresh: "table_ok t \<Longrightarrow> t_entries t (t_next t) = None"
  unfolding table_ok_def by (metis not_None_eq order_less_irrefl)

definition fd_of :: "fileRefs \<times> fd_table \<Rightarrow> int \<rightharpoonup> nat" where
  "fd_of s = t_entries (snd s)"

lemma table_ok_remove: "table_ok t \<Longrightarrow> table_ok (t\<lparr>t_entries := (t_entries t)(fd := None), t_cloexec := c\<rparr>)"
  by (auto simp: table_ok_def)

lemma CloseFd_ok: "table_ok (snd s) \<Longrightarrow> table_ok (snd (snd (CloseFd fd s)))"
  by (cases s) (auto simp: CloseFd_def table_ok_remove split: option.split)

section \<open>Descriptors of a file\<close>

definition refs_of :: "fd_table list \<Rightarrow> nat \<Rightarrow> (nat \<times> int) set" where
  "refs_of ts f = {(i, fd). i < length ts \<and> t_entries (ts ! i) fd = Some f}"

lemma refs_of_update:
  assumes "i < length ts"
  shows "refs_of (ts[i := t]) f = {(j, fd) \<in> refs_of ts f. j \<noteq> i} \<union> {(i, fd) | fd. t_entries t fd = Some f}"
  using assms by (auto simp: refs_of_def nth_list_update split: if_splits)

lemma refs_of_add:
  assumes "i < length ts" "t_entries (ts ! i) fd = None" "t_entries t = (t_entries (ts ! i))(fd \<mapsto> f)"
  shows "refs_of (ts[i := t]) g = (if g = f then insert (i, fd) (refs_of ts f) else refs_of ts g)"
    "(i, fd) \<notin> refs_of ts f"
  using assms by (auto simp: refs_of_def nth_list_update split: if_splits)

lemma refs_of_remove:
  assumes "i < length ts" "t_entries (ts ! i) fd = Some f" "t_entries t = (t_entries (ts ! i))(fd := None)"
  shows "refs_of (ts[i := t]) g = (if g = f then refs_of ts f - {(i, fd)} else refs_of ts g)"
    "(i, fd) \<in> refs_of ts f"
  using assms by (auto simp: refs_of_def nth_list_update split: if_splits)

lemma refs_of_same:
  assumes "i < length ts" "t_entries t = t_entries (ts ! i)"
  shows "refs_of (ts[i := t]) g = refs_of ts g"
  using assms by (auto simp: refs_of_def nth_list_update split: if_splits)

lemma finite_refs:
  assumes "\<forall>t \<in> set ts. finite (dom (t_entries t))"
  shows "finite (refs_of ts f)"
proof (rule finite_subset)
  show "refs_of ts f \<subseteq> (\<Union>i < length ts. Pair i ` dom (t_entries (ts ! i)))" by (auto simp: refs_of_def)
  show "finite (\<Union>i < length ts. Pair i ` dom (t_entries (ts ! i)))" using assms by auto
qed

section \<open>The invariant\<close>

text \<open>
  Every count is the number of descriptors, no open file has been closed, no file has been closed
  twice.
\<close>

definition counted :: "fileRefs \<Rightarrow> fd_table list \<Rightarrow> bool" where
  "counted r ts \<longleftrightarrow> (\<forall>t \<in> set ts. table_ok t) \<and> (\<forall>f. fr_counts r f = int (card (refs_of ts f))) \<and>
     (\<forall>f. refs_of ts f \<noteq> {} \<longrightarrow> f \<notin> set (fr_closed r)) \<and> distinct (fr_closed r)"

lemma counted_finite: "counted r ts \<Longrightarrow> finite (refs_of ts f)"
  unfolding counted_def table_ok_def by (blast intro: finite_refs)

text \<open>What a step closed: exactly the files that lost their last descriptor.\<close>

definition closes_last :: "fileRefs \<Rightarrow> fd_table list \<Rightarrow> fileRefs \<Rightarrow> fd_table list \<Rightarrow> bool" where
  "closes_last r ts r' ts' \<longleftrightarrow>
     set (fr_closed r') = set (fr_closed r) \<union> {f. refs_of ts f \<noteq> {} \<and> refs_of ts' f = {}}"

lemma set_update_ok: "\<forall>t \<in> set ts. P t \<Longrightarrow> P t' \<Longrightarrow> \<forall>t \<in> set (ts[i := t']). P t"
  using set_update_subset_insert by fastforce

lemma attach:
  assumes c: "counted r ts" and i: "i < length ts" and e: "t_entries (ts ! i) fd = None"
    "t_entries t = (t_entries (ts ! i))(fd \<mapsto> f)" and ok: "table_ok t" and f: "f \<notin> set (fr_closed r)"
  shows "counted (incr f r) (ts[i := t])" "\<And>g. refs_of ts g \<subseteq> refs_of (ts[i := t]) g"
proof -
  note ra = refs_of_add [OF i e]
  have fin: "finite (refs_of ts f)" by (rule counted_finite [OF c])
  show "\<And>g. refs_of ts g \<subseteq> refs_of (ts[i := t]) g" by (auto simp: ra(1))
  have "\<forall>t \<in> set (ts[i := t]). table_ok t" using set_update_ok [of ts table_ok t i] c ok by (simp add: counted_def)
  then show "counted (incr f r) (ts[i := t])"
    using c f fin ra(2) by (auto simp: counted_def incr_def ra(1))
qed

lemma detach:
  assumes c: "counted r ts" and i: "i < length ts" and e: "t_entries (ts ! i) fd = Some f"
    "t_entries t = (t_entries (ts ! i))(fd := None)" and ok: "table_ok t"
  shows "counted (decrAndMaybeClose f r) (ts[i := t])" "closes_last r ts (decrAndMaybeClose f r) (ts[i := t])"
    "\<And>g. refs_of (ts[i := t]) g \<subseteq> refs_of ts g"
proof -
  note rr = refs_of_remove [OF i e]
  have fin: "finite (refs_of ts f)" by (rule counted_finite [OF c])
  have pos: "0 < card (refs_of ts f)" using fin rr(2) by (auto simp: card_gt_0_iff)
  have card: "int (card (refs_of ts f - {(i, fd)})) = int (card (refs_of ts f)) - 1"
    using pos rr(2) by (simp add: card_Diff_singleton)
  have n: "fr_counts r f - 1 = int (card (refs_of ts f - {(i, fd)}))" using c card by (simp add: counted_def)
  have empty: "card (refs_of ts f - {(i, fd)}) = 0 \<longleftrightarrow> refs_of ts f - {(i, fd)} = {}" using fin by simp
  have oks: "\<forall>t \<in> set (ts[i := t]). table_ok t" using set_update_ok [of ts table_ok t i] c ok by (simp add: counted_def)
  have fresh: "f \<notin> set (fr_closed r)" using c rr(2) unfolding counted_def by blast
  show "\<And>g. refs_of (ts[i := t]) g \<subseteq> refs_of ts g" by (auto simp: rr(1))
  show "counted (decrAndMaybeClose f r) (ts[i := t])"
    using c oks fresh empty unfolding counted_def decrAndMaybeClose_def Let_def n
    by (auto simp: rr(1))
  show "closes_last r ts (decrAndMaybeClose f r) (ts[i := t])"
    using rr(2) empty unfolding closes_last_def decrAndMaybeClose_def Let_def n
    by (auto simp: rr(1))
qed

text \<open>Steps that only remove descriptors compose.\<close>

definition drops :: "fileRefs \<Rightarrow> fd_table list \<Rightarrow> fileRefs \<Rightarrow> fd_table list \<Rightarrow> bool" where
  "drops r ts r' ts' \<longleftrightarrow> counted r' ts' \<and> closes_last r ts r' ts' \<and> (\<forall>g. refs_of ts' g \<subseteq> refs_of ts g)"

lemma drops_refl: "counted r ts \<Longrightarrow> drops r ts r ts"
  by (auto simp: drops_def closes_last_def)

lemma drops_trans: "drops r ts r1 ts1 \<Longrightarrow> drops r1 ts1 r2 ts2 \<Longrightarrow> drops r ts r2 ts2"
  unfolding drops_def closes_last_def by blast

lemma CloseFd_drops:
  assumes c: "counted r (ts[i := t])" and i: "i < length ts" and s: "snd (CloseFd fd (r, t)) = (r', t')"
  shows "drops r (ts[i := t]) r' (ts[i := t'])"
proof (cases "t_entries t fd")
  case None
  then show ?thesis using s drops_refl [OF c] by (simp add: CloseFd_def)
next
  case (Some f)
  then have s': "r' = decrAndMaybeClose f r" "t' = t\<lparr>t_entries := (t_entries t)(fd := None), t_cloexec := (t_cloexec t)(fd := False)\<rparr>"
    using s by (simp_all add: CloseFd_def)
  have "table_ok t" using c i by (auto simp: counted_def dest!: bspec [of _ _ t] intro: set_update_memI)
  then have ok: "table_ok t'" unfolding s' by (rule table_ok_remove)
  have "counted r' ((ts[i := t])[i := t'])" "closes_last r (ts[i := t]) r' ((ts[i := t])[i := t'])"
      "\<And>g. refs_of ((ts[i := t])[i := t']) g \<subseteq> refs_of (ts[i := t]) g"
    unfolding s'(1) by (rule detach [OF c]; use i Some ok s'(2) in simp)+
  then show ?thesis by (simp add: drops_def)
qed

lemma fold_drops:
  assumes i: "i < length ts"
    and step: "\<And>fd r t r' t'. g fd (r, t) = (r', t') \<Longrightarrow> counted r (ts[i := t]) \<Longrightarrow> drops r (ts[i := t]) r' (ts[i := t'])"
  shows "counted r (ts[i := t]) \<Longrightarrow> fold g order (r, t) = (r', t') \<Longrightarrow> drops r (ts[i := t]) r' (ts[i := t'])"
proof (induction order arbitrary: r t)
  case Nil
  then show ?case by (simp add: drops_refl)
next
  case (Cons fd order)
  obtain r1 t1 where s: "g fd (r, t) = (r1, t1)" by fastforce
  have d: "drops r (ts[i := t]) r1 (ts[i := t1])" by (rule step [OF s Cons.prems(1)])
  have "counted r1 (ts[i := t1])" using d by (simp add: drops_def)
  moreover have "fold g order (r1, t1) = (r', t')" using Cons.prems(2) s by simp
  ultimately have "drops r1 (ts[i := t1]) r' (ts[i := t'])" by (rule Cons.IH)
  then show ?case by (rule drops_trans [OF d])
qed

section \<open>Every operation\<close>

lemma closes_last_grow:
  assumes "\<And>g. refs_of ts g \<subseteq> refs_of ts' g" "fr_closed r' = fr_closed r"
  shows "closes_last r ts r' ts'"
proof -
  have "refs_of ts f = {}" if "refs_of ts' f = {}" for f using assms(1) [of f] that by simp
  then show ?thesis using assms(2) by (auto simp: closes_last_def)
qed

lemma incr_closed [simp]: "fr_closed (incr f r) = fr_closed r"
  by (simp add: incr_def)

lemma on_table_eq: "f (w_refs w, w_tables w ! i) = (r, t) \<Longrightarrow> on_table i f w = \<lparr>w_refs = r, w_tables = (w_tables w)[i := t]\<rparr>"
  by (simp add: on_table_def)

definition step_ok :: "fd_world \<Rightarrow> fd_world \<Rightarrow> bool" where
  "step_ok w w' \<longleftrightarrow> counted (w_refs w') (w_tables w') \<and> closes_last (w_refs w) (w_tables w) (w_refs w') (w_tables w')"

lemma step_ok_drops:
  assumes i: "i < length (w_tables w)" and c: "counted (w_refs w) (w_tables w)"
    and d: "\<And>r' t'. f (w_refs w, w_tables w ! i) = (r', t') \<Longrightarrow>
      drops (w_refs w) ((w_tables w)[i := w_tables w ! i]) r' ((w_tables w)[i := t'])"
  shows "step_ok w (on_table i f w)"
proof -
  obtain r' t' where f: "f (w_refs w, w_tables w ! i) = (r', t')" by fastforce
  show ?thesis using d [OF f] by (simp add: on_table_eq [of f, OF f] step_ok_def drops_def)
qed

lemma step_ok_attach:
  assumes i: "i < length (w_tables w)" and c: "counted (w_refs w) (w_tables w)"
    and f: "g (w_refs w, w_tables w ! i) = (incr f (w_refs w), t)" "f \<notin> set (fr_closed (w_refs w))"
    and e: "t_entries (w_tables w ! i) fd = None" "t_entries t = (t_entries (w_tables w ! i))(fd \<mapsto> f)" and ok: "table_ok t"
  shows "step_ok w (on_table i g w)"
  using attach [OF c i e ok f(2)] closes_last_grow
  by (simp add: on_table_eq [of g, OF f(1)] step_ok_def)

lemma step_ok_same:
  assumes i: "i < length (w_tables w)" and c: "counted (w_refs w) (w_tables w)"
    and f: "g (w_refs w, w_tables w ! i) = (w_refs w, t)" and e: "t_entries t = t_entries (w_tables w ! i)" and ok: "table_ok t"
  shows "step_ok w (on_table i g w)"
proof -
  note same = refs_of_same [OF i e]
  have "\<forall>t \<in> set ((w_tables w)[i := t]). table_ok t" using set_update_ok [of "w_tables w" table_ok t i] c ok by (simp add: counted_def)
  then show ?thesis
    using c by (simp add: on_table_eq [of g, OF f] step_ok_def counted_def closes_last_def same)
qed

lemma Alloc_step:
  assumes i: "i < length (w_tables w)" and c: "counted (w_refs w) (w_tables w)"
    and f: "f \<notin> set (fr_closed (w_refs w))" and n: "t_next (w_tables w ! i) < maxInt"
    and g: "g (w_refs w, w_tables w ! i) = snd (Alloc f (w_refs w, w_tables w ! i))"
  shows "step_ok w (on_table i g w)"
proof -
  let ?t = "w_tables w ! i"
  have ok: "table_ok ?t" using c i by (simp add: counted_def)
  have w: "wrap_int (t_next ?t + 1) = t_next ?t + 1" using ok n by (intro wrap_int_id) (auto simp: table_ok_def)
  have "fd < t_next ?t + 1" if "t_entries ?t fd = Some y" for fd y using ok that by (fastforce simp: table_ok_def)
  then have "table_ok (?t\<lparr>t_next := t_next ?t + 1, t_entries := (t_entries ?t)(t_next ?t \<mapsto> f)\<rparr>)"
    using ok n by (auto simp: table_ok_def)
  then show ?thesis
    by (intro step_ok_attach [OF i c _ f table_ok_fresh [OF ok]])
      (simp_all add: g Alloc_def set_entry_def w Let_def)
qed

lemma Dup2_step:
  assumes i: "i < length (w_tables w)" and c: "counted (w_refs w) (w_tables w)" and n: "- maxInt \<le> newfd" "newfd < maxInt"
  shows "step_ok w (on_table i (\<lambda>s. snd (Dup2 fd newfd s)) w)"
proof -
  let ?t = "w_tables w ! i" and ?r = "w_refs w" and ?ts = "w_tables w"
  have ok: "table_ok ?t" using c i by (simp add: counted_def)
  have w: "wrap_int (newfd + 1) = newfd + 1" using n by (intro wrap_int_id) auto
  define up where "up t = (if t_next t < newfd + 1 then t\<lparr>t_next := newfd + 1\<rparr> else t)" for t :: fd_table
  have up: "table_ok (up t)" if "table_ok t" for t
    using that n by (fastforce simp: table_ok_def up_def)
  have up_simps [simp]: "t_entries (up t) = t_entries t" for t by (simp add: up_def)
  show ?thesis
  proof (cases "t_entries ?t fd")
    case None
    then show ?thesis using step_ok_same [OF i c _ refl ok] by (simp add: Dup2_def)
  next
    case (Some f)
    have fref: "(i, fd) \<in> refs_of ?ts f" using Some i by (simp add: refs_of_def)
    show ?thesis
    proof (cases "newfd = fd")
      case True
      then have "snd (Dup2 fd newfd (?r, ?t)) = (?r, up ?t)"
        using Some w by (simp add: Dup2_def raise_next_def up_def)
      then show ?thesis by (rule step_ok_same [OF i c _ _ up [OF ok]]) simp
    next
      case False
      obtain r1 t1 where s: "snd (CloseFd newfd (?r, ?t)) = (r1, t1)" by fastforce
      have d: "drops ?r ?ts r1 (?ts[i := t1])" using CloseFd_drops [of ?r ?ts i ?t] c i s by simp
      have c1: "counted r1 (?ts[i := t1])" using d by (simp add: drops_def)
      have e1: "t_entries t1 = (t_entries ?t)(newfd := None)" "table_ok t1"
        using s CloseFd_ok [of "(?r, ?t)" newfd] ok by (auto simp: CloseFd_def split: option.splits)
      define t2 where "t2 = up (t1\<lparr>t_entries := (t_entries t1)(newfd \<mapsto> f)\<rparr>)"
      have eq: "snd (Dup2 fd newfd (?r, ?t)) = (incr f r1, t2)"
        using Some False s by (simp add: Dup2_def raise_next_def set_entry_def w up_def t2_def)
      have f1: "(i, fd) \<in> refs_of (?ts[i := t1]) f" using Some i False e1 by (simp add: refs_of_def)
      have nf: "f \<notin> set (fr_closed r1)" using c1 f1 unfolding counted_def by blast
      have ok2: "table_ok t2"
        using e1(2) n by (fastforce simp: table_ok_def t2_def up_def split: if_splits)
      have at: "counted (incr f r1) ((?ts[i := t1])[i := t2])" "\<And>g. refs_of (?ts[i := t1]) g \<subseteq> refs_of ((?ts[i := t1])[i := t2]) g"
        by (rule attach [OF c1, of i newfd]; use i e1 ok2 nf in \<open>simp add: t2_def\<close>)+
      have ra: "refs_of ((?ts[i := t1])[i := t2]) g = (if g = f then insert (i, newfd) (refs_of (?ts[i := t1]) f) else refs_of (?ts[i := t1]) g)" for g
        by (rule refs_of_add(1)) (use i e1 in \<open>simp_all add: t2_def\<close>)
      have "closes_last ?r ?ts (incr f r1) (?ts[i := t2])"
        using d f1 fref ra unfolding drops_def closes_last_def by (auto simp: incr_def)
      then show ?thesis using at(1) by (simp add: on_table_def eq step_ok_def)
    qed
  qed
qed

lemma clone_fold:
  assumes e: "\<And>fd. fd \<in> set order \<Longrightarrow> t_entries t fd \<noteq> None" and d: "distinct order"
  shows "fold (\<lambda>fd s. case t_entries t fd of None \<Rightarrow> s | Some f \<Rightarrow> set_entry fd f s) order (r, u) = (r', u') \<Longrightarrow>
    counted r (ts @ [u]) \<Longrightarrow> \<forall>fd \<in> set order. t_entries u fd = None \<and> fd < t_next u \<Longrightarrow>
    \<forall>fd \<in> set order. \<forall>f. t_entries t fd = Some f \<longrightarrow> refs_of ts f \<noteq> {} \<Longrightarrow>
    counted r' (ts @ [u']) \<and> fr_closed r' = fr_closed r \<and>
    t_entries u' = (\<lambda>fd. if fd \<in> set order then t_entries t fd else t_entries u fd) \<and> t_next u' = t_next u \<and> t_cloexec u' = t_cloexec u"
  using e d
proof (induction order arbitrary: r u)
  case (Cons fd order)
  obtain f where f: "t_entries t fd = Some f" using Cons.prems(5) by force
  let ?u = "u\<lparr>t_entries := (t_entries u)(fd \<mapsto> f)\<rparr>"
  have step: "fold (\<lambda>fd s. case t_entries t fd of None \<Rightarrow> s | Some f \<Rightarrow> set_entry fd f s) order (incr f r, ?u) = (r', u')"
    using Cons.prems(1) f by (simp add: set_entry_def)
  have i: "length ts < length (ts @ [u])" by simp
  have ref: "refs_of ts g \<subseteq> refs_of (ts @ [u]) g" for g by (auto simp: refs_of_def nth_append)
  have nf: "f \<notin> set (fr_closed r)"
    using Cons.prems(2,4) f ref [of f] unfolding counted_def by fastforce
  have oku: "table_ok u" using Cons.prems(2) by (simp add: counted_def)
  have ok: "table_ok ?u" using oku Cons.prems(3) by (auto simp: table_ok_def)
  have "counted (incr f r) ((ts @ [u])[length ts := ?u])"
    by (rule attach(1) [OF Cons.prems(2) i]) (use Cons.prems(3) ok nf in simp_all)
  then have c: "counted (incr f r) (ts @ [?u])" by simp
  have "\<forall>fd' \<in> set order. t_entries ?u fd' = None \<and> fd' < t_next ?u"
    using Cons.prems(3,6) by auto
  from Cons.IH [OF step c this] Cons.prems(4-6) f
  show ?case by (auto simp: incr_def fun_eq_iff)
qed (simp add: fun_eq_iff)

lemma CloneTable_step:
  assumes c: "counted r ts" and i: "i < length ts" and o: "distinct order" "set order = dom (t_entries (ts ! i))"
    and cl: "CloneTable order (r, ts ! i) = (r', t')"
  shows "counted r' (ts @ [t'])" "fr_closed r' = fr_closed r" "t_entries t' = t_entries (ts ! i)"
    "t_next t' = t_next (ts ! i)" "t_cloexec t' = t_cloexec (ts ! i)"
proof -
  let ?u = "\<lparr>t_entries = Map.empty, t_next = t_next (ts ! i), t_cloexec = t_cloexec (ts ! i)\<rparr>"
  have ok: "table_ok (ts ! i)" using c i by (simp add: counted_def)
  have "refs_of (ts @ [?u]) f = refs_of ts f" for f by (auto simp: refs_of_def nth_append split: if_splits)
  then have c0: "counted r (ts @ [?u])" using c ok by (auto simp: counted_def table_ok_def)
  have f: "fold (\<lambda>fd s. case t_entries (ts ! i) fd of None \<Rightarrow> s | Some f \<Rightarrow> set_entry fd f s) order (r, ?u) = (r', t')"
    using cl by (simp add: CloneTable_def)
  have dom: "t_entries (ts ! i) fd \<noteq> None" if "fd \<in> set order" for fd using that o(2) by auto
  have fresh: "\<forall>fd \<in> set order. t_entries ?u fd = None \<and> fd < t_next ?u" using ok o(2) by (auto simp: table_ok_def)
  have refs: "\<forall>fd \<in> set order. \<forall>f. t_entries (ts ! i) fd = Some f \<longrightarrow> refs_of ts f \<noteq> {}" using i by (auto simp: refs_of_def)
  note cf = clone_fold [OF dom o(1) f c0 fresh refs]
  have "t_entries t' = t_entries (ts ! i)" using cf o(2) by (auto simp: fun_eq_iff)
  then show "counted r' (ts @ [t'])" "fr_closed r' = fr_closed r" "t_entries t' = t_entries (ts ! i)"
    "t_next t' = t_next (ts ! i)" "t_cloexec t' = t_cloexec (ts ! i)"
    using cf by simp_all
qed

lemma fd_step_ok:
  assumes "fd_step w w'" "counted (w_refs w) (w_tables w)"
  shows "step_ok w w'"
  using assms
proof (induction rule: fd_step.induct)
  case (open_file i w f)
  then show ?case by (intro Alloc_step) auto
next
  case (close i w fd)
  then show ?case by (intro step_ok_drops CloseFd_drops) auto
next
  case (cloexec i w fd val)
  then show ?case
    by (intro step_ok_same [of _ _ _ "SetCloexec fd val (w_tables w ! i)"])
      (auto simp: SetCloexec_def counted_def table_ok_def dest: nth_mem)
next
  case (dup i w fd)
  show ?case
  proof (cases "t_entries (w_tables w ! i) fd")
    case None
    then show ?thesis using dup step_ok_same [of i w _ "w_tables w ! i"] by (auto simp: Dup_def counted_def)
  next
    case (Some f)
    then have "(i, fd) \<in> refs_of (w_tables w) f" using dup by (simp add: refs_of_def)
    then have "f \<notin> set (fr_closed (w_refs w))" using dup by (auto simp: counted_def)
    then show ?thesis using dup Some by (intro Alloc_step [of _ _ f]) (auto simp: Dup_def split: prod.split)
  qed
next
  case (dup2 i w newfd fd)
  then show ?case by (intro Dup2_step) auto
next
  case (exec i w order)
  show ?case
  proof (rule step_ok_drops [OF exec(1,2)])
    fix r' t' assume x: "CloseOnExec order (w_refs w, w_tables w ! i) = (r', t')"
    show "drops (w_refs w) ((w_tables w)[i := w_tables w ! i]) r' ((w_tables w)[i := t'])"
      by (rule fold_drops [OF exec(1) _ _ x [unfolded CloseOnExec_def]])
        (use exec in \<open>auto split: if_splits intro: drops_refl CloseFd_drops\<close>)
  qed
next
  case (exit i w order)
  show ?case
  proof (rule step_ok_drops [OF exit(1,4)])
    fix r' t' assume x: "CloseAll order (w_refs w, w_tables w ! i) = (r', t')"
    show "drops (w_refs w) ((w_tables w)[i := w_tables w ! i]) r' ((w_tables w)[i := t'])"
      by (rule fold_drops [OF exit(1) _ _ x [unfolded CloseAll_def]]) (use exit in \<open>auto intro: CloseFd_drops\<close>)
  qed
next
  case (fork i w order r t)
  note cs = CloneTable_step [OF fork(5,1,2,3,4)]
  have "refs_of (w_tables w) g \<subseteq> refs_of (w_tables w @ [t]) g" for g by (auto simp: refs_of_def nth_append)
  then have "closes_last (w_refs w) (w_tables w) r (w_tables w @ [t])" using cs(2) by (rule closes_last_grow)
  then show ?case using cs(1) by (simp add: step_ok_def)
qed

section \<open>execve and fork\<close>

lemma CloseOnExec_fold:
  "t_entries (snd (CloseOnExec order (r, t))) = (\<lambda>fd. if fd \<in> set order \<and> t_cloexec t fd then None else t_entries t fd) \<and>
   t_next (snd (CloseOnExec order (r, t))) = t_next t"
proof (induction order arbitrary: r t)
  case Nil
  then show ?case by (simp add: CloseOnExec_def)
next
  case (Cons fd order)
  obtain r1 t1 where s: "(if t_cloexec t fd then snd (CloseFd fd (r, t)) else (r, t)) = (r1, t1)" by fastforce
  have t1: "t_entries t1 = (if t_cloexec t fd then (t_entries t)(fd := None) else t_entries t)" "t_next t1 = t_next t"
      "t_cloexec t1 = (if t_cloexec t fd \<and> t_entries t fd \<noteq> None then (t_cloexec t)(fd := False) else t_cloexec t)"
    using s by (auto simp: CloseFd_def split: if_splits option.splits)
  have "CloseOnExec (fd # order) (r, t) = CloseOnExec order (r1, t1)" using s by (simp add: CloseOnExec_def)
  then show ?case using Cons.IH [of r1 t1] t1 by (auto simp: fun_eq_iff)
qed

section \<open>Properties of the descriptor tables\<close>

definition fd_start :: "nat \<Rightarrow> nat \<Rightarrow> nat \<Rightarrow> fd_world" where
  "fd_start f0 f1 f2 = (let (r, t) = NewTable f0 f1 f2 in \<lparr>w_refs = r, w_tables = [t]\<rparr>)"

lemma fd_start_counted:
  assumes "distinct [f0, f1, f2]"
  shows "counted (w_refs (fd_start f0 f1 f2)) (w_tables (fd_start f0 f1 f2))"
proof -
  have r: "refs_of (w_tables (fd_start f0 f1 f2)) f = (if f = f0 then {(0, 0)} else if f = f1 then {(0, 1)} else if f = f2 then {(0, 2)} else {})" for f
    using assms by (auto simp: refs_of_def fd_start_def NewTable_def split: if_splits)
  show ?thesis
    using assms unfolding counted_def r
    by (auto simp: fd_start_def NewTable_def incr_def table_ok_def maxInt_def split: if_splits)
qed

text \<open>
  C25. Open files are closed exactly when their last descriptor goes. From a process with its three
  standard streams, whatever sequence of opens, closes, dup, dup2, fork, execve and exit the
  processes of the fork tree perform, every reference count is the number of descriptors in all
  tables, no descriptor refers to a closed file, no file is closed twice; and every further step
  closes exactly the files whose last descriptor it removes.
\<close>

theorem descriptor_refcounts:
  assumes "distinct [f0, f1, f2]" and "fd_step\<^sup>*\<^sup>* (fd_start f0 f1 f2) w"
  shows "(\<forall>f. fr_counts (w_refs w) f = int (card (refs_of (w_tables w) f))) \<and>
    (\<forall>i fd f. i < length (w_tables w) \<and> Get fd (w_tables w ! i) = Some f \<longrightarrow> f \<notin> set (fr_closed (w_refs w))) \<and>
    distinct (fr_closed (w_refs w)) \<and>
    (\<forall>w'. fd_step w w' \<longrightarrow> set (fr_closed (w_refs w')) =
       set (fr_closed (w_refs w)) \<union> {f. refs_of (w_tables w) f \<noteq> {} \<and> refs_of (w_tables w') f = {}})"
proof -
  have c: "counted (w_refs w) (w_tables w)"
    using assms(2)
  proof (induction rule: rtranclp_induct)
    case base
    then show ?case by (rule fd_start_counted [OF assms(1)])
  next
    case (step w w')
    then show ?case using fd_step_ok by (simp add: step_ok_def)
  qed
  have "f \<notin> set (fr_closed (w_refs w))" if "i < length (w_tables w)" "Get fd (w_tables w ! i) = Some f" for i fd f
  proof -
    have "(i, fd) \<in> refs_of (w_tables w) f" using that by (simp add: refs_of_def Get_def)
    then show ?thesis using c unfolding counted_def by blast
  qed
  moreover have "set (fr_closed (w_refs w')) = set (fr_closed (w_refs w)) \<union> {f. refs_of (w_tables w) f \<noteq> {} \<and> refs_of (w_tables w') f = {}}"
    if "fd_step w w'" for w'
    using fd_step_ok [OF that c] by (simp add: step_ok_def closes_last_def)
  ultimately show ?thesis using c by (auto simp: counted_def)
qed

theorem descriptor_refcounts_witness:
  "let w = on_table 0 (\<lambda>s. snd (CloseFd 1 s)) (on_table 0 (\<lambda>s. snd (Dup2 1 7 s)) (fd_start 10 11 12)) in
     fr_counts (w_refs w) 11 = int (card (refs_of (w_tables w) 11)) \<and> Get 7 (w_tables w ! 0) = Some 11 \<and> fr_closed (w_refs w) = []"
proof -
  define w1 where "w1 = on_table 0 (\<lambda>s. snd (Dup2 1 7 s)) (fd_start 10 11 12)"
  define w2 where "w2 = on_table 0 (\<lambda>s. snd (CloseFd 1 s)) w1"
  have s1: "fd_step (fd_start 10 11 12) w1"
    unfolding w1_def by (rule fd_step.dup2) (simp_all add: fd_start_def NewTable_def maxInt_def)
  have s2: "fd_step w1 w2"
    unfolding w2_def by (rule fd_step.close) (simp add: w1_def on_table_def fd_start_def NewTable_def split: prod.split)
  have "fd_step\<^sup>*\<^sup>* (fd_start 10 11 12) w2" using s1 s2 by (rule rtranclp.rtrancl_into_rtrancl [OF r_into_rtranclp])
  from descriptor_refcounts [OF _ this] have c: "fr_counts (w_refs w2) 11 = int (card (refs_of (w_tables w2) 11))" by simp
  have w: "wrap_int 8 = 8" by (rule wrap_int_id) (simp_all add: maxInt_def)
  have "Get 7 (w_tables w2 ! 0) = Some 11 \<and> fr_closed (w_refs w2) = []"
    by (simp add: w2_def w1_def on_table_def fd_start_def NewTable_def Dup2_def CloseFd_def set_entry_def raise_next_def w incr_def
        decrAndMaybeClose_def Get_def)
  then show ?thesis using c unfolding w2_def w1_def Let_def by blast
qed

text \<open>
  \<open>execve\<close> closes exactly the descriptors flagged close-on-exec and keeps every other, whatever
  order Go visits the flags in; \<open>fork\<close> gives the child a table with the same descriptors, flags and
  next number, and closes nothing.
\<close>

theorem exec_and_fork_tables:
  assumes "set order = {fd. t_cloexec t fd}" and "counted r ts" "i < length ts" "distinct order'" "set order' = dom (t_entries (ts ! i))"
    and "CloneTable order' (r, ts ! i) = (r', t')"
  shows "t_entries (snd (CloseOnExec order (r0, t))) = (\<lambda>fd. if Cloexec fd t then None else t_entries t fd) \<and>
    t' = ts ! i \<and> fr_closed r' = fr_closed r \<and> counted r' (ts @ [t'])"
  using CloseOnExec_fold [of order r0 t] CloneTable_step [OF assms(2-6)] assms(1)
  by (auto simp: Cloexec_def fun_eq_iff)

theorem exec_and_fork_tables_witness:
  "t_entries (snd (CloseOnExec [2] (fst (NewTable 10 11 12), SetCloexec 2 True (snd (NewTable 10 11 12))))) 2 = None \<and>
   t_entries (snd (CloneTable [0, 1, 2] (NewTable 10 11 12))) 1 = Some 11"
proof -
  define t where "t = SetCloexec 2 True (snd (NewTable 10 11 12))"
  obtain r u where nt: "NewTable 10 11 12 = (r, u)" by fastforce
  have flags: "set [2] = {fd. t_cloexec t fd}" by (auto simp: t_def SetCloexec_def NewTable_def)
  have c: "counted r [u]" using fd_start_counted [of 10 11 12] by (simp add: fd_start_def nt)
  have u: "t_entries u = [0 \<mapsto> 10, 1 \<mapsto> 11, 2 \<mapsto> 12]" using nt by (auto simp: NewTable_def)
  have d: "set [0, 1, 2] = dom (t_entries ([u] ! 0))" by (auto simp: u split: if_splits)
  obtain r' t' where cl: "CloneTable [0, 1, 2] (r, [u] ! 0) = (r', t')" by fastforce
  from exec_and_fork_tables [OF flags c _ _ d cl, of r]
  have "t_entries (snd (CloseOnExec [2] (r, t))) 2 = None" "t' = u" using flags by (auto simp: Cloexec_def)
  then show ?thesis using cl u by (simp add: t_def nt)
qed

text \<open>
  A read of a synthetic file with a count beyond the range of \<open>int\<close>, as \<open>read\<close> passes on from the
  guest, panics: the slice bound is below the position.
\<close>

lemma StaticFile_Read_panics:
  assumes "0 \<le> sf_pos f" "sf_pos f < int (length (sf_data f))" "sf_pos f \<le> maxInt" "- maxInt - 1 \<le> n" "n < 0"
  shows "StaticFile_Read n f = None"
proof (cases "- maxInt - 1 \<le> sf_pos f + n \<and> sf_pos f + n \<le> maxInt")
  case True
  then have "wrap_int (sf_pos f + n) = sf_pos f + n" by (intro wrap_int_id) auto
  then show ?thesis using assms by (simp add: StaticFile_Read_def)
next
  case False
  then show ?thesis using assms by (simp add: maxInt_def)
qed

end
