(* ===== verification/Elfload.thy ===== *)
theory Elfload
  imports Operand
begin

unbundle bit_operations_syntax

text \<open>
  The ELF64 parser of \<open>internal/elfload/elf.go\<close>: header and program headers, loadable segments, and
  the relocation tables found through PT_DYNAMIC. A slice with bounds out of order or out of range
  panics in Go; the panic is the error \<open>ElfPanic\<close>. Offsets are 64-bit and wrap as in the code.
\<close>

section \<open>Data\<close>

datatype elf_error =
    NotElf | Not64Bit | NotLittleEndian | NotX86_64 | TruncatedPhdrs | InterpOutOfRange
  | LoadOutOfRange | DynamicOutOfRange | RelaNotBacked | RelaOutOfRange | ElfPanic

record ProgramHeader =
  ph_Type :: u32
  ph_Flags :: u32
  ph_Offset :: u64
  ph_Vaddr :: u64
  ph_Paddr :: u64
  ph_Filesz :: u64
  ph_Memsz :: u64
  ph_Align :: u64

record elf_image =
  im_Path :: string
  im_Data :: "u8 list"
  im_Type :: u16
  im_Entry :: u64
  im_Phoff :: u64
  im_Phentsize :: u16
  im_Phnum :: u16
  im_Segments :: "ProgramHeader list"
  im_Interp :: "u8 list"

definition PT_LOAD :: u32 where "PT_LOAD = 1"
definition PT_DYNAMIC :: u32 where "PT_DYNAMIC = 2"
definition PT_INTERP :: u32 where "PT_INTERP = 3"
definition ET_DYN :: u16 where "ET_DYN = 3"

definition IsPIE :: "elf_image \<Rightarrow> bool" where
  "IsPIE img \<longleftrightarrow> im_Type img = ET_DYN"

definition ehdrSize :: nat where "ehdrSize = 64"
definition phdrSize :: nat where "phdrSize = 56"

section \<open>Parsing\<close>

text \<open>\<open>data[lo:hi]\<close> and \<open>binary.LittleEndian.UintN(data[lo:lo+n])\<close>, in range.\<close>

definition slice :: "'a list \<Rightarrow> nat \<Rightarrow> nat \<Rightarrow> 'a list" where
  "slice bs lo hi = take (hi - lo) (drop lo bs)"

definition le_at :: "u8 list \<Rightarrow> nat \<Rightarrow> nat \<Rightarrow> u64" where
  "le_at bs off n = leToU64 (slice bs off (off + n))"

primrec index_from :: "nat \<Rightarrow> u8 list \<Rightarrow> u8 \<Rightarrow> nat option" where
  "index_from i [] c = None"
| "index_from i (x # xs) c = (if x = c then Some i else index_from (Suc i) xs c)"

definition indexByte :: "u8 list \<Rightarrow> u8 \<Rightarrow> nat option" where
  "indexByte b c = index_from 0 b c"

definition read_phdr :: "u8 list \<Rightarrow> ProgramHeader" where
  "read_phdr d = \<lparr>ph_Type = ucast (le_at d 0 4), ph_Flags = ucast (le_at d 4 4), ph_Offset = le_at d 8 8,
     ph_Vaddr = le_at d 16 8, ph_Paddr = le_at d 24 8, ph_Filesz = le_at d 32 8, ph_Memsz = le_at d 40 8,
     ph_Align = le_at d 48 8\<rparr>"

text \<open>\<open>data[ph.Offset:end]\<close> cut at its first NUL, for a PT_INTERP header.\<close>

definition read_interp :: "u8 list \<Rightarrow> ProgramHeader \<Rightarrow> elf_error + u8 list" where
  "read_interp data ph =
     (let e = ph_Offset ph + ph_Filesz ph in
      if of_nat (length data) < e then Inl InterpOutOfRange
      else if e < ph_Offset ph then Inl ElfPanic
      else let raw = slice data (unat (ph_Offset ph)) (unat e) in
        Inr (case indexByte raw 0 of Some i \<Rightarrow> take i raw | None \<Rightarrow> raw))"

text \<open>
  The loop over the program header table, with the headers still to read: the offset is a signed
  \<open>int\<close>, so a huge \<open>ePhoff\<close> gives a negative offset that passes the bound test.
\<close>

primrec phdr_loop :: "u8 list \<Rightarrow> u16 \<Rightarrow> nat \<Rightarrow> u64 \<Rightarrow> elf_image \<Rightarrow> elf_error + elf_image" where
  "phdr_loop data entsize 0 off img = Inr img"
| "phdr_loop data entsize (Suc n) off img =
     (if int (length data) < sint (off + of_nat phdrSize) then Inl TruncatedPhdrs
      else if sint off < 0 \<or> sint (off + of_nat phdrSize) < sint off then Inl ElfPanic
      else let ph = read_phdr (slice data (unat off) (unat off + phdrSize));
               img1 = img\<lparr>im_Segments := im_Segments img @ [ph]\<rparr>; next' = off + ucast entsize in
        if ph_Type ph = PT_INTERP then
          (case read_interp data ph of
             Inl err \<Rightarrow> Inl err
           | Inr s \<Rightarrow> phdr_loop data entsize n next' (img1\<lparr>im_Interp := s\<rparr>))
        else phdr_loop data entsize n next' img1)"

definition elf_magic :: "u8 list" where
  "elf_magic = [0x7F, 0x45, 0x4C, 0x46]"

definition ParseBytes :: "u8 list \<Rightarrow> string \<Rightarrow> elf_error + elf_image" where
  "ParseBytes data path =
     (if length data < ehdrSize \<or> take 4 data \<noteq> elf_magic then Inl NotElf
      else if data ! 4 \<noteq> 2 then Inl Not64Bit
      else if data ! 5 \<noteq> 1 then Inl NotLittleEndian
      else if le_at data 18 2 \<noteq> 0x3E then Inl NotX86_64
      else let img = \<lparr>im_Path = (if path = '''' then ''<mem>'' else path), im_Data = data,
                 im_Type = ucast (le_at data 16 2), im_Entry = le_at data 24 8, im_Phoff = le_at data 32 8,
                 im_Phentsize = ucast (le_at data 54 2), im_Phnum = ucast (le_at data 56 2),
                 im_Segments = [], im_Interp = []\<rparr> in
        phdr_loop data (im_Phentsize img) (unat (im_Phnum img)) (im_Phoff img) img)"

section \<open>Segments\<close>

record segment =
  sg_Vaddr :: u64
  sg_Memsz :: u64
  sg_Data :: "u8 list"
  sg_Flags :: u32

text \<open>
  One PT_LOAD header: \<open>make\<close> panics on a size beyond the range of \<open>int\<close>; \<open>copy\<close> copies what fits and
  the rest is zero.
\<close>

definition load_segment :: "u8 list \<Rightarrow> ProgramHeader \<Rightarrow> elf_error + segment" where
  "load_segment data ph =
     (let e = ph_Offset ph + ph_Filesz ph in
      if of_nat (length data) < e then Inl LoadOutOfRange
      else if sint (ph_Memsz ph) < 0 \<or> e < ph_Offset ph then Inl ElfPanic
      else let src = take (unat (ph_Memsz ph)) (slice data (unat (ph_Offset ph)) (unat e)) in
        Inr \<lparr>sg_Vaddr = ph_Vaddr ph, sg_Memsz = ph_Memsz ph,
          sg_Data = src @ replicate (unat (ph_Memsz ph) - length src) 0, sg_Flags = ph_Flags ph\<rparr>)"

primrec load_loop :: "u8 list \<Rightarrow> ProgramHeader list \<Rightarrow> elf_error + segment list" where
  "load_loop data [] = Inr []"
| "load_loop data (ph # phs) =
     (if ph_Type ph \<noteq> PT_LOAD then load_loop data phs
      else case load_segment data ph of
          Inl err \<Rightarrow> Inl err
        | Inr s \<Rightarrow> (case load_loop data phs of Inl err \<Rightarrow> Inl err | Inr ss \<Rightarrow> Inr (s # ss)))"

definition LoadSegments :: "elf_image \<Rightarrow> elf_error + segment list" where
  "LoadSegments img = load_loop (im_Data img) (im_Segments img)"

section \<open>Relocations\<close>

record Rela =
  rl_Offset :: u64
  rl_Type :: u32
  rl_Sym :: u32
  rl_Addend :: u64

definition covers_vaddr :: "u64 \<Rightarrow> ProgramHeader \<Rightarrow> bool" where
  "covers_vaddr vaddr ph \<longleftrightarrow> ph_Type ph = PT_LOAD \<and> ph_Vaddr ph \<le> vaddr \<and> vaddr < ph_Vaddr ph + ph_Filesz ph"

definition vaddrToFileOffset :: "elf_image \<Rightarrow> u64 \<Rightarrow> u64 option" where
  "vaddrToFileOffset img vaddr =
     map_option (\<lambda>ph. ph_Offset ph + (vaddr - ph_Vaddr ph)) (find (covers_vaddr vaddr) (im_Segments img))"

text \<open>
  The loops over tables of fixed-size entries: \<open>off + size <= end\<close> is tested on words that wrap; a
  wrapped test is followed by a slice that panics.
\<close>

lemma table_step: "\<not> off + k < off \<Longrightarrow> k \<noteq> 0 \<Longrightarrow> 18446744073709551616 - unat (off + k) < 18446744073709551616 - unat off"
  for off k :: u64
proof -
  assume a: "\<not> off + k < off" "k \<noteq> 0"
  then have "off < off + k" by (metis add.right_neutral add_left_cancel linorder_less_linear)
  then show ?thesis using unat_u64_less [of "off + k"] by (simp add: word_less_nat_alt)
qed

lemmas table_step_16 = table_step [of _ 16, simplified] and table_step_24 = table_step [of _ 24, simplified]

function dyn_loop :: "u8 list \<Rightarrow> u64 \<Rightarrow> u64 \<Rightarrow> elf_error + (u64 \<times> u64) list" where
  "dyn_loop data end' off =
     (if end' < off + 16 then Inr []
      else if off + 16 < off \<or> length data < unat off + 16 then Inl ElfPanic
      else let tag = le_at data (unat off) 8; val = le_at data (unat off + 8) 8 in
        if tag = 0 then Inr []
        else case dyn_loop data end' (off + 16) of Inl err \<Rightarrow> Inl err | Inr es \<Rightarrow> Inr ((tag, val) # es))"
  by pat_completeness auto
termination
  by (relation "measure (\<lambda>(data, end', off). 2 ^ 64 - unat off)")
     (auto simp: table_step_16 table_step_24)

function rela_loop :: "u8 list \<Rightarrow> u64 \<Rightarrow> u64 \<Rightarrow> elf_error + Rela list" where
  "rela_loop data end' off =
     (if end' < off + 24 then Inr []
      else if off + 24 < off \<or> length data < unat off + 24 then Inl ElfPanic
      else let info = le_at data (unat off + 8) 8;
               r = \<lparr>rl_Offset = le_at data (unat off) 8, rl_Type = ucast info, rl_Sym = ucast (drop_bit 32 info),
                    rl_Addend = le_at data (unat off + 16) 8\<rparr> in
        case rela_loop data end' (off + 24) of Inl err \<Rightarrow> Inl err | Inr rs \<Rightarrow> Inr (r # rs))"
  by pat_completeness auto
termination
  by (relation "measure (\<lambda>(data, end', off). 2 ^ 64 - unat off)")
     (auto simp: table_step_16 table_step_24)

declare dyn_loop.simps [simp del] rela_loop.simps [simp del]

definition parseDynamic :: "elf_image \<Rightarrow> elf_error + (u64 \<times> u64) list" where
  "parseDynamic img =
     (case find (\<lambda>ph. ph_Type ph = PT_DYNAMIC) (im_Segments img) of
        None \<Rightarrow> Inr []
      | Some dyn \<Rightarrow> (let e = ph_Offset dyn + ph_Filesz dyn in
          if of_nat (length (im_Data img)) < e then Inl DynamicOutOfRange
          else dyn_loop (im_Data img) e (ph_Offset dyn)))"

definition readRelaTable :: "elf_image \<Rightarrow> u64 \<Rightarrow> u64 \<Rightarrow> elf_error + Rela list" where
  "readRelaTable img vaddr sizeBytes =
     (if sizeBytes = 0 then Inr []
      else case vaddrToFileOffset img vaddr of
          None \<Rightarrow> Inl RelaNotBacked
        | Some fileOff \<Rightarrow> (let e = fileOff + sizeBytes in
            if of_nat (length (im_Data img)) < e then Inl RelaOutOfRange
            else rela_loop (im_Data img) e fileOff))"

record dyn_tags =
  dt_relaVaddr :: u64
  dt_relaSize :: u64
  dt_jmprelVaddr :: u64
  dt_pltrelsz :: u64
  dt_pltrelIsRela :: bool

fun dyn_tag :: "u64 \<times> u64 \<Rightarrow> dyn_tags \<Rightarrow> dyn_tags" where
  "dyn_tag (tag, val) t =
     (if tag = 7 then t\<lparr>dt_relaVaddr := val\<rparr>
      else if tag = 8 then t\<lparr>dt_relaSize := val\<rparr>
      else if tag = 23 then t\<lparr>dt_jmprelVaddr := val\<rparr>
      else if tag = 2 then t\<lparr>dt_pltrelsz := val\<rparr>
      else if tag = 20 then t\<lparr>dt_pltrelIsRela := (val = 7)\<rparr>
      else t)"

definition Relocations :: "elf_image \<Rightarrow> elf_error + Rela list" where
  "Relocations img =
     (case parseDynamic img of
        Inl err \<Rightarrow> Inl err
      | Inr entries \<Rightarrow>
          (let t = fold dyn_tag entries \<lparr>dt_relaVaddr = 0, dt_relaSize = 0, dt_jmprelVaddr = 0, dt_pltrelsz = 0, dt_pltrelIsRela = False\<rparr> in
           case (if dt_relaVaddr t \<noteq> 0 \<and> dt_relaSize t \<noteq> 0 then readRelaTable img (dt_relaVaddr t) (dt_relaSize t) else Inr []) of
             Inl err \<Rightarrow> Inl err
           | Inr rs \<Rightarrow>
               (case (if dt_jmprelVaddr t \<noteq> 0 \<and> dt_pltrelsz t \<noteq> 0 \<and> dt_pltrelIsRela t
                      then readRelaTable img (dt_jmprelVaddr t) (dt_pltrelsz t) else Inr []) of
                  Inl err \<Rightarrow> Inl err
                | Inr js \<Rightarrow> Inr (rs @ js))))"

end
