(* ===== verification/Elf_Laws.thy ===== *)
theory Elf_Laws
  imports Elfload Exec
begin

unbundle bit_operations_syntax

text \<open>
  The ELF parser inverts an encoder of headers, loads exactly the bytes the headers name, finds the
  loaded byte of a virtual address in the file, and panics only on offsets that wrap.
\<close>

section \<open>Slices and fields\<close>

lemma slice_append [simp]: "length xs \<le> lo \<Longrightarrow> slice (xs @ ys) lo hi = slice ys (lo - length xs) (hi - length xs)"
  by (simp add: slice_def)

lemma length_slice [simp]: "lo \<le> hi \<Longrightarrow> hi \<le> length bs \<Longrightarrow> length (slice bs lo hi) = hi - lo"
  by (simp add: slice_def)

lemma nth_slice: "i < hi - lo \<Longrightarrow> lo + i < length bs \<Longrightarrow> slice bs lo hi ! i = bs ! (lo + i)"
  by (simp add: slice_def)

lemma slice_prefix: "slice (xs @ ys) 0 (length xs) = xs"
  by (simp add: slice_def)

lemma le_at_append [simp]: "length xs \<le> off \<Longrightarrow> le_at (xs @ ys) off n = le_at ys (off - length xs) n"
  by (simp add: le_at_def)

lemma le_at_Cons [simp]: "0 < off \<Longrightarrow> le_at (x # xs) off n = le_at xs (off - 1) n"
  using le_at_append [of "[x]" off xs n] by simp

lemma le_at_field [simp]: "le_at (u64ToLE v n @ ys) 0 n = take_bit (8 * n) v"
  by (simp add: le_at_def slice_def le_roundtrip)

lemma le_at_field_last [simp]: "le_at (u64ToLE v n) 0 n = take_bit (8 * n) v"
  using le_at_field [of v n "[]"] by simp

lemma ucast_take_bit_ucast:
  "LENGTH('a) \<le> n \<Longrightarrow> LENGTH('a) \<le> 64 \<Longrightarrow> ucast (take_bit n (ucast x :: u64)) = (x :: 'a::len word)"
  by (rule bit_word_eqI) (auto simp: bit_simps dest: bit_imp_le_length)

lemma take_bit_ucast_id: "LENGTH('a) \<le> n \<Longrightarrow> take_bit n (ucast x :: u64) = ucast x" for x :: "'a::len word"
  by (rule bit_word_eqI) (auto simp: bit_simps dest: bit_imp_le_length)

lemma take_index: "(case index_from i raw c of Some j \<Rightarrow> take (j - i) raw | None \<Rightarrow> raw) = takeWhile (\<lambda>x. x \<noteq> c) raw"
proof (induction raw arbitrary: i)
  case (Cons x raw)
  have ge: "Suc i \<le> j" if "index_from (Suc i) raw c = Some j" for j
    using that by (induction raw arbitrary: i) (auto split: if_splits dest: Suc_leD)
  show ?case
    using Cons.IH [of "Suc i"] ge by (auto simp: Suc_diff_le take_Cons' split: option.splits)
qed simp

section \<open>An encoder\<close>

definition phdr_bytes :: "ProgramHeader \<Rightarrow> u8 list" where
  "phdr_bytes ph = u64ToLE (ucast (ph_Type ph)) 4 @ u64ToLE (ucast (ph_Flags ph)) 4 @ u64ToLE (ph_Offset ph) 8 @
     u64ToLE (ph_Vaddr ph) 8 @ u64ToLE (ph_Paddr ph) 8 @ u64ToLE (ph_Filesz ph) 8 @ u64ToLE (ph_Memsz ph) 8 @
     u64ToLE (ph_Align ph) 8"

definition ehdr_bytes :: "u16 \<Rightarrow> u64 \<Rightarrow> u64 \<Rightarrow> u16 \<Rightarrow> u16 \<Rightarrow> u8 list" where
  "ehdr_bytes ety entry phoff entsize phnum = (elf_magic @ [2, 1, 1] @ replicate 9 0) @ u64ToLE (ucast ety) 2 @ u64ToLE 0x3E 2 @
     u64ToLE 1 4 @ u64ToLE entry 8 @ u64ToLE phoff 8 @ u64ToLE 0 8 @ u64ToLE 0 4 @ u64ToLE 64 2 @
     u64ToLE (ucast entsize) 2 @ u64ToLE (ucast phnum) 2 @ replicate 6 0"

lemma length_phdr_bytes [simp]: "length (phdr_bytes ph) = 56"
  by (simp add: phdr_bytes_def)

lemma length_ehdr_bytes [simp]: "length (ehdr_bytes a b c d e) = 64"
  by (simp add: ehdr_bytes_def elf_magic_def)

lemma read_phdr_bytes: "read_phdr (phdr_bytes ph) = ph"
  by (simp add: read_phdr_def phdr_bytes_def ucast_take_bit_ucast)

section \<open>The header table\<close>

definition interp_str :: "u8 list \<Rightarrow> ProgramHeader \<Rightarrow> u8 list" where
  "interp_str data ph = takeWhile (\<lambda>x. x \<noteq> 0) (slice data (unat (ph_Offset ph)) (unat (ph_Offset ph) + unat (ph_Filesz ph)))"

lemma read_interp_ok:
  assumes "unat (ph_Offset ph) + unat (ph_Filesz ph) \<le> length data" "length data < 2 ^ 63"
  shows "read_interp data ph = Inr (interp_str data ph)"
proof -
  have e: "unat (ph_Offset ph + ph_Filesz ph) = unat (ph_Offset ph) + unat (ph_Filesz ph)"
    using assms by (subst unat_add_lem [symmetric]) simp_all
  have "unat (of_nat (length data) :: u64) = length data" using assms(2) by (intro unat_of_nat_small) simp
  moreover have "(case index_from 0 raw 0 of None \<Rightarrow> raw | Some j \<Rightarrow> take j raw) = takeWhile (\<lambda>x. x \<noteq> 0) raw" for raw :: "u8 list"
    using take_index [where i = 0 and c = 0 and raw = raw] by (cases "index_from 0 raw 0") simp_all
  ultimately show ?thesis
    using assms(1) e by (simp add: read_interp_def Let_def word_less_nat_alt indexByte_def interp_str_def)
qed

definition interp_of :: "u8 list \<Rightarrow> ProgramHeader list \<Rightarrow> u8 list \<Rightarrow> u8 list" where
  "interp_of data phs s = fold (\<lambda>ph s. if ph_Type ph = PT_INTERP then interp_str data ph else s) phs s"

lemma sint_small: "unat x < 2 ^ 63 \<Longrightarrow> sint x = int (unat x)" for x :: u64
proof -
  assume a: "unat x < 2 ^ 63"
  then have "int (unat x) < int (2 ^ 63)" by (simp only: of_nat_less_iff)
  then have "uint x < 2 ^ 63" unfolding int_nat_eq by (simp only: unat_eq_nat_uint) simp
  moreover have "- (2 ^ 63) \<le> sint x" using sint_ge [of x] by simp
  ultimately have "\<not> sint x < 0" using uint_sint [of x] by (simp split: if_splits)
  then show ?thesis using uint_sint [of x] by simp
qed

text \<open>The loop over a table of encoded headers at \<open>off\<close> reads back exactly those headers.\<close>

lemma phdr_loop_bytes:
  assumes len: "length data < 2 ^ 63"
    and interp: "\<forall>ph \<in> set phs. ph_Type ph = PT_INTERP \<longrightarrow> unat (ph_Offset ph) + unat (ph_Filesz ph) \<le> length data"
  shows "data = pre @ concat (map phdr_bytes phs) @ body \<Longrightarrow> unat off = length pre \<Longrightarrow>
    phdr_loop data 56 (length phs) off img =
      Inr (img\<lparr>im_Segments := im_Segments img @ phs, im_Interp := interp_of data phs (im_Interp img)\<rparr>)"
  using interp
proof (induction phs arbitrary: pre off img)
  case Nil
  then show ?case by (simp add: interp_of_def)
next
  case (Cons ph phs)
  have fits: "length pre + 56 \<le> length data" using Cons.prems(1) by simp
  have off56: "unat (off + of_nat phdrSize) = length pre + 56" 
    using Cons.prems(2) fits len by (simp add: phdrSize_def unat_word_ariths)
  have s: "sint off = int (length pre)" "sint (off + of_nat phdrSize) = int (length pre + 56)"
    using sint_small [of off] sint_small [of "off + of_nat phdrSize"] off56 fits len Cons.prems(2) by simp_all
  have d: "slice data (unat off) (unat off + phdrSize) = phdr_bytes ph"
    using Cons.prems(1,2) slice_prefix [of "phdr_bytes ph"] by (simp add: phdrSize_def)
  have d2: "data = (pre @ phdr_bytes ph) @ concat (map phdr_bytes phs) @ body" using Cons.prems(1) by simp
  have off2: "unat (off + ucast (56 :: u16)) = length (pre @ phdr_bytes ph)"
    using off56 by (simp add: phdrSize_def)
  note IH = Cons.IH [OF d2 off2]
  have in1: "\<forall>ph \<in> set phs. ph_Type ph = PT_INTERP \<longrightarrow> unat (ph_Offset ph) + unat (ph_Filesz ph) \<le> length data" using Cons.prems(3) by simp
  show ?case
  proof (cases "ph_Type ph = PT_INTERP")
    case True
    then have "read_interp data ph = Inr (interp_str data ph)" using Cons.prems(3) len by (intro read_interp_ok) auto
    then show ?thesis
      using s fits d True IH [OF in1] by (simp add: read_phdr_bytes Let_def interp_of_def)
  next
    case False
    then show ?thesis
      using s fits d IH [OF in1] by (simp add: read_phdr_bytes Let_def interp_of_def)
  qed
qed

section \<open>Segments\<close>

lemma load_segment_spec:
  assumes l: "load_segment data ph = Inr s" and len: "length data < 2 ^ 63"
  shows "sg_Vaddr s = ph_Vaddr ph" "sg_Flags s = ph_Flags ph" "sg_Memsz s = ph_Memsz ph" "length (sg_Data s) = unat (ph_Memsz ph)"
    "unat (ph_Offset ph) + unat (ph_Filesz ph) \<le> length data"
    "i < unat (ph_Memsz ph) \<Longrightarrow> sg_Data s ! i = (if i < unat (ph_Filesz ph) then data ! (unat (ph_Offset ph) + i) else 0)"
proof -
  define e where "e = ph_Offset ph + ph_Filesz ph"
  have l64: "unat (of_nat (length data) :: u64) = length data" using len by (intro unat_of_nat_small) simp
  have c: "\<not> of_nat (length data) < e" "\<not> e < ph_Offset ph"
    using l by (auto simp: load_segment_def Let_def e_def split: if_splits)
  have ue: "unat e = unat (ph_Offset ph) + unat (ph_Filesz ph)"
    using c(2) unat_plus_simple [of "ph_Offset ph" "ph_Filesz ph"] by (simp add: e_def not_less)
  then show le: "unat (ph_Offset ph) + unat (ph_Filesz ph) \<le> length data"
    using c(1) l64 by (simp add: word_less_nat_alt)
  have s: "s = \<lparr>sg_Vaddr = ph_Vaddr ph, sg_Memsz = ph_Memsz ph,
      sg_Data = take (unat (ph_Memsz ph)) (slice data (unat (ph_Offset ph)) (unat e)) @
        replicate (unat (ph_Memsz ph) - length (take (unat (ph_Memsz ph)) (slice data (unat (ph_Offset ph)) (unat e)))) 0,
      sg_Flags = ph_Flags ph\<rparr>"
    using l c by (auto simp: load_segment_def Let_def e_def split: if_splits)
  show "sg_Vaddr s = ph_Vaddr ph" "sg_Flags s = ph_Flags ph" "sg_Memsz s = ph_Memsz ph" "length (sg_Data s) = unat (ph_Memsz ph)"
    by (simp_all add: s)
  show "sg_Data s ! i = (if i < unat (ph_Filesz ph) then data ! (unat (ph_Offset ph) + i) else 0)" if "i < unat (ph_Memsz ph)"
    using that le ue by (auto simp: s nth_append nth_slice)
qed

lemma load_loop_spec:
  "load_loop data phs = Inr ss \<Longrightarrow>
   list_all2 (\<lambda>ph s. load_segment data ph = Inr s) (filter (\<lambda>ph. ph_Type ph = PT_LOAD) phs) ss"
  by (induction phs arbitrary: ss) (auto split: sum.splits if_splits)

section \<open>The whole parser\<close>

lemma ehdr_fields:
  assumes "data = ehdr_bytes ety entry phoff entsize phnum @ rest"
  shows "take 4 data = elf_magic" "data ! 4 = 2" "data ! 5 = 1" "le_at data 18 2 = 0x3E" "le_at data 16 2 = ucast ety"
    "le_at data 24 8 = entry" "le_at data 32 8 = phoff" "le_at data 54 2 = ucast entsize" "le_at data 56 2 = ucast phnum"
    "64 \<le> length data"
  unfolding assms by (simp_all add: ehdr_bytes_def elf_magic_def take_bit_ucast_id)

definition image_of :: "string \<Rightarrow> u8 list \<Rightarrow> u16 \<Rightarrow> u64 \<Rightarrow> u64 \<Rightarrow> u16 \<Rightarrow> u16 \<Rightarrow> elf_image" where
  "image_of path data ety entry phoff entsize phnum =
     \<lparr>im_Path = (if path = '''' then ''<mem>'' else path), im_Data = data, im_Type = ety, im_Entry = entry, im_Phoff = phoff,
      im_Phentsize = entsize, im_Phnum = phnum, im_Segments = [], im_Interp = []\<rparr>"

lemma ParseBytes_ehdr:
  assumes "data = ehdr_bytes ety entry phoff entsize phnum @ rest"
  shows "ParseBytes data path = phdr_loop data entsize (unat phnum) phoff (image_of path data ety entry phoff entsize phnum)"
  using ehdr_fields [OF assms] by (simp add: ParseBytes_def image_of_def ehdrSize_def Let_def unsigned_ucast_eq take_bit_word_eq_self)

text \<open>
  C26. Encoding an ELF64 header and a program header table, with any gap before the table and any
  bytes after it, and parsing the result gives back exactly the encoded header fields and program
  headers, and the interpreter path of the last PT_INTERP header, cut at its first NUL.
\<close>

theorem elf_roundtrip:
  assumes "data = ehdr_bytes ety entry (of_nat (64 + length gap)) 56 (of_nat (length phs)) @ gap @ concat (map phdr_bytes phs) @ body"
    and "length data < 2 ^ 63" and "length phs < 2 ^ 16"
    and "\<forall>ph \<in> set phs. ph_Type ph = PT_INTERP \<longrightarrow> unat (ph_Offset ph) + unat (ph_Filesz ph) \<le> length data"
  shows "ParseBytes data path =
    Inr \<lparr>im_Path = (if path = '''' then ''<mem>'' else path), im_Data = data, im_Type = ety, im_Entry = entry,
      im_Phoff = of_nat (64 + length gap), im_Phentsize = 56, im_Phnum = of_nat (length phs), im_Segments = phs,
      im_Interp = interp_of data phs []\<rparr>"
proof -
  have n: "unat (of_nat (length phs) :: u16) = length phs" using assms(3) by (intro unat_of_nat_small) simp
  have off: "unat (of_nat (64 + length gap) :: u64) = length (ehdr_bytes ety entry (of_nat (64 + length gap)) 56 (of_nat (length phs)) @ gap)"
    using assms(1,2) by (subst unat_of_nat_small) auto
  have d: "data = (ehdr_bytes ety entry (of_nat (64 + length gap)) 56 (of_nat (length phs)) @ gap) @ concat (map phdr_bytes phs) @ body"
    using assms(1) by simp
  show ?thesis
    unfolding ParseBytes_ehdr [OF assms(1)] n phdr_loop_bytes [OF assms(2,4) d off] by (simp add: image_of_def)
qed

definition demo_load :: ProgramHeader where
  "demo_load = \<lparr>ph_Type = PT_LOAD, ph_Flags = 5, ph_Offset = 0, ph_Vaddr = 0x400000, ph_Paddr = 0x400000, ph_Filesz = 2, ph_Memsz = 4, ph_Align = 0x1000\<rparr>"

definition demo_interp :: ProgramHeader where
  "demo_interp = \<lparr>ph_Type = PT_INTERP, ph_Flags = 4, ph_Offset = 1, ph_Vaddr = 0, ph_Paddr = 0, ph_Filesz = 3, ph_Memsz = 3, ph_Align = 1\<rparr>"

definition demo_elf :: "u8 list" where
  "demo_elf = ehdr_bytes 2 0x400000 64 56 2 @ phdr_bytes demo_load @ phdr_bytes demo_interp"

lemma demo_elf_interp: "interp_of demo_elf [demo_load, demo_interp] [] = [0x45, 0x4C, 0x46]"
  by (simp add: interp_of_def demo_elf_def demo_load_def demo_interp_def interp_str_def ehdr_bytes_def elf_magic_def slice_def
      PT_LOAD_def PT_INTERP_def)

lemma elf_roundtrip_witness:
  "map_sum id im_Segments (ParseBytes demo_elf ''a'') = Inr [demo_load, demo_interp] \<and>
   map_sum id im_Interp (ParseBytes demo_elf ''a'') = Inr [0x45, 0x4C, 0x46]"
proof -
  have d: "demo_elf = ehdr_bytes 2 0x400000 (of_nat (64 + length ([] :: u8 list))) 56 (of_nat (length [demo_load, demo_interp])) @ [] @
      concat (map phdr_bytes [demo_load, demo_interp]) @ []"
    by (simp add: demo_elf_def)
  show ?thesis
    using elf_roundtrip [OF d, of "''a''"] demo_elf_interp by (simp add: demo_elf_def demo_load_def demo_interp_def PT_LOAD_def PT_INTERP_def)
qed

text \<open>
  Loading the segments of a parsed file gives one segment for each PT_LOAD header, in order: its
  address and flags, and as many bytes as its memory size, the file's bytes first and zeros after
  them. The file offset computed for a virtual address inside the file part of a segment is in the
  file.
\<close>

theorem segments_loaded:
  assumes "LoadSegments img = Inr ss" and "length (im_Data img) < 2 ^ 63"
  shows "list_all2 (\<lambda>ph s. sg_Vaddr s = ph_Vaddr ph \<and> sg_Flags s = ph_Flags ph \<and> length (sg_Data s) = unat (ph_Memsz ph) \<and>
        unat (ph_Offset ph) + unat (ph_Filesz ph) \<le> length (im_Data img) \<and>
        (\<forall>i < unat (ph_Memsz ph). sg_Data s ! i = (if i < unat (ph_Filesz ph) then im_Data img ! (unat (ph_Offset ph) + i) else 0)))
      (filter (\<lambda>ph. ph_Type ph = PT_LOAD) (im_Segments img)) ss"
  using load_loop_spec [OF assms(1) [unfolded LoadSegments_def]]
proof (rule list_all2_mono)
  fix ph s assume "load_segment (im_Data img) ph = Inr s"
  note spec = load_segment_spec [OF this assms(2)]
  show "sg_Vaddr s = ph_Vaddr ph \<and> sg_Flags s = ph_Flags ph \<and> length (sg_Data s) = unat (ph_Memsz ph) \<and>
      unat (ph_Offset ph) + unat (ph_Filesz ph) \<le> length (im_Data img) \<and>
      (\<forall>i < unat (ph_Memsz ph). sg_Data s ! i = (if i < unat (ph_Filesz ph) then im_Data img ! (unat (ph_Offset ph) + i) else 0))"
    using spec by blast
qed

definition demo_image :: elf_image where
  "demo_image = (image_of ''a'' [1, 2] 2 0 64 56 1)\<lparr>im_Segments := [demo_load]\<rparr>"

lemma segments_loaded_witness:
  "map_sum id (map sg_Data) (LoadSegments demo_image) = Inr [[1, 2, 0, 0]] \<and>
   (\<exists>s :: segment. list_all2 (\<lambda>ph s. length (sg_Data s) = unat (ph_Memsz ph)) (filter (\<lambda>ph. ph_Type ph = PT_LOAD) (im_Segments demo_image)) [s])"
proof -
  have s: "replicate 2 (0 :: u8) = [0, 0]" by (simp add: numeral_2_eq_2)
  have l: "LoadSegments demo_image = Inr [\<lparr>sg_Vaddr = 0x400000, sg_Memsz = 4, sg_Data = [1, 2, 0, 0], sg_Flags = 5\<rparr>]"
    using s by (simp add: LoadSegments_def demo_image_def image_of_def demo_load_def PT_LOAD_def load_segment_def slice_def Let_def)
  have "length (im_Data demo_image) < 2 ^ 63" by (simp add: demo_image_def image_of_def)
  from segments_loaded [OF l this] have "list_all2 (\<lambda>ph s. length (sg_Data s) = unat (ph_Memsz ph)) (filter (\<lambda>ph. ph_Type ph = PT_LOAD) (im_Segments demo_image))
      [\<lparr>sg_Vaddr = 0x400000, sg_Memsz = 4, sg_Data = [1, 2, 0, 0], sg_Flags = 5\<rparr>]"
    by (rule list_all2_mono) blast
  then have "\<exists>s :: segment. list_all2 (\<lambda>ph s. length (sg_Data s) = unat (ph_Memsz ph)) (filter (\<lambda>ph. ph_Type ph = PT_LOAD) (im_Segments demo_image)) [s]"
    by blast
  then show ?thesis unfolding l by simp
qed

section \<open>Panics\<close>

lemma sint_ge_word: "\<not> sint x < 0 \<Longrightarrow> sint x = int (unat x)" for x :: u64
  using uint_sint [of x] by simp

lemma sint_ge_bound: "\<not> sint x < 0 \<Longrightarrow> unat x < 2 ^ 63" for x :: u64
proof -
  assume a: "\<not> sint x < 0"
  have "int (unat x) < int (2 ^ 63)" unfolding sint_ge_word [OF a, symmetric] using sint_lt [of x] by simp
  then show ?thesis by (simp only: of_nat_less_iff)
qed

lemma read_interp_panic: "read_interp data ph = Inl ElfPanic \<Longrightarrow> ph_Offset ph + ph_Filesz ph < ph_Offset ph"
  by (auto simp: read_interp_def Let_def split: if_splits option.splits)

lemma u16_bound: "unat x < 65536" for x :: u16
  using unsigned_less [of x] by simp

lemma unat_ucast_u16: "unat (ucast x :: u64) = unat x" for x :: u16
  using u16_bound [of x] by (simp add: unsigned_ucast_eq take_bit_nat_eq_self_iff)

text \<open>The offset stays below \<open>length data + entsize\<close>, so it becomes negative only if it was at the start.\<close>

lemma phdr_loop_panic:
  assumes len: "length data < 2 ^ 62"
  shows "phdr_loop data entsize n off img = Inl ElfPanic \<Longrightarrow> 0 \<le> sint off \<Longrightarrow> unat off \<le> length data + 2 ^ 16 \<or> int (length data) < sint (off + of_nat phdrSize) \<Longrightarrow>
    \<exists>o' :: u64. unat o' + phdrSize \<le> length data \<and> ph_Type (read_phdr (slice data (unat o') (unat o' + phdrSize))) = PT_INTERP \<and>
      read_interp data (read_phdr (slice data (unat o') (unat o' + phdrSize))) = Inl ElfPanic"
proof (induction n arbitrary: off img)
  case (Suc n)
  let ?ph = "read_phdr (slice data (unat off) (unat off + phdrSize))"
  have fits: "sint (off + of_nat phdrSize) \<le> int (length data)" using Suc.prems(1) by (auto split: if_splits)
  then have lo: "unat off \<le> length data + 2 ^ 16" using Suc.prems(3) by auto
  then have u: "unat (off + of_nat phdrSize) = unat off + phdrSize"
    using len by (simp add: phdrSize_def unat_word_ariths)
  then have s: "sint (off + of_nat phdrSize) = int (unat off + phdrSize)" "sint off = int (unat off)"
    using sint_small [of "off + of_nat phdrSize"] sint_small [of off] lo len by (simp_all add: phdrSize_def)
  have inb: "unat off + phdrSize \<le> length data" using fits unfolding s(1) by linarith
  have ue: "unat (off + ucast entsize) = unat off + unat entsize"
    using inb len u16_bound [of entsize] by (simp add: unat_word_ariths phdrSize_def unat_ucast_u16)
  have nx: "0 \<le> sint (off + ucast entsize)" "unat (off + ucast entsize) \<le> length data + 2 ^ 16"
    using sint_small [of "off + ucast entsize"] ue inb len u16_bound [of entsize] by (simp_all add: phdrSize_def)
  note IH = Suc.IH [of "off + ucast entsize"]
  show ?case
  proof (cases "ph_Type ?ph = PT_INTERP \<and> read_interp data ?ph = Inl ElfPanic")
    case True
    then show ?thesis using inb by blast
  next
    case False
    then obtain img' where "phdr_loop data entsize n (off + ucast entsize) img' = Inl ElfPanic"
      using Suc.prems(1) s inb by (auto simp: Let_def split: if_splits sum.splits)
    then show ?thesis using IH nx by blast
  qed
qed simp

text \<open>
  C28. Parsing any bytes returns an image or one of the parser's errors; it crashes on a slice whose
  bounds are out of order only in three cases: the table offset of the header (bytes 32 to 39) is
  negative as a signed number; the offset is positive but so near 2^63 that the end of the first
  table entry, the offset plus 56, is negative; or a PT_INTERP entry inside the file has an offset
  and size whose sum wraps past 2^64.
\<close>

theorem elf_panics_only_on_wrap:
  assumes "ParseBytes data path = Inl ElfPanic" and "length data < 2 ^ 62"
  shows "sint (le_at data 32 8) < 0 \<or> sint (le_at data 32 8 + 56) < 0 \<or>
    (\<exists>off ph. unat off + 56 \<le> length data \<and> ph = read_phdr (slice data (unat (off :: u64)) (unat off + 56)) \<and>
       ph_Type ph = PT_INTERP \<and> ph_Offset ph + ph_Filesz ph < ph_Offset ph)"
proof (rule ccontr)
  let ?off = "le_at data 32 8"
  assume neg: "\<not> ?thesis"
  then have s: "0 \<le> sint ?off" "0 \<le> sint (?off + of_nat phdrSize)" by (auto simp: phdrSize_def)
  have o: "unat ?off < 2 ^ 63" using s(1) by (intro sint_ge_bound) simp
  then have u: "unat (?off + of_nat phdrSize) = unat ?off + 56"
    by (simp add: phdrSize_def unat_word_ariths)
  have start: "unat ?off \<le> length data + 2 ^ 16 \<or> int (length data) < sint (?off + of_nat phdrSize)"
  proof -
    have "sint (?off + of_nat phdrSize) = int (unat ?off + 56)"
      using sint_ge_word [of "?off + of_nat phdrSize"] s(2) unfolding u by linarith
    then show ?thesis by linarith
  qed
  obtain es n img where "phdr_loop data es n ?off img = Inl ElfPanic"
    using assms(1) by (auto simp: ParseBytes_def Let_def split: if_splits)
  from phdr_loop_panic [OF assms(2) this s(1) start] neg show False
    by (auto simp: phdrSize_def dest!: read_interp_panic)
qed

definition crafted_elf :: "u8 list" where
  "crafted_elf = ehdr_bytes 2 0 0x8000000000000000 56 1"

lemma elf_panics_only_on_wrap_witness:
  "ParseBytes crafted_elf [] = Inl ElfPanic \<and> length crafted_elf = 64 \<and>
   (sint (le_at crafted_elf 32 8) < 0 \<or> sint (le_at crafted_elf 32 8 + 56) < 0 \<or>
    (\<exists>off ph. unat off + 56 \<le> length crafted_elf \<and> ph = read_phdr (slice crafted_elf (unat (off :: u64)) (unat off + 56)) \<and>
       ph_Type ph = PT_INTERP \<and> ph_Offset ph + ph_Filesz ph < ph_Offset ph))"
proof -
  have e: "crafted_elf = ehdr_bytes 2 0 0x8000000000000000 56 1 @ []" by (simp add: crafted_elf_def)
  have p: "ParseBytes crafted_elf [] = Inl ElfPanic" unfolding ParseBytes_ehdr [OF e] by (simp add: phdrSize_def)
  moreover have "length crafted_elf = 64" by (simp add: crafted_elf_def)
  ultimately show ?thesis using elf_panics_only_on_wrap [OF p] by simp
qed

end
