(* ===== verification/Paths.thy ===== *)
theory Paths
  imports Prelude "HOL-Library.Sublist"
begin

text \<open>
  The path algebra of \<open>internal/vfs/vfs.go\<close>: \<open>NormPath\<close>, \<open>splitGuest\<close>, \<open>HostPath\<close> and \<open>itoa\<close>, with
  the parts of Go's \<open>strings\<close> and \<open>filepath\<close> packages they use. A Go string is a sequence of bytes,
  as a HOL \<open>string\<close> is. The laws: the normal form is canonical, its components resolve \<open>.\<close> and
  \<open>..\<close> without ever rising above the root, and the host path of a guest path stays under the root.
\<close>

section \<open>strings and filepath\<close>

abbreviation slash :: char where "slash \<equiv> CHR ''/''"

text \<open>\<open>strings.Split\<close> and \<open>strings.Join\<close> with the separator \<open>/\<close>.\<close>

primrec split_slash :: "string \<Rightarrow> string list" where
  "split_slash [] = [[]]"
| "split_slash (c # s) = (if c = slash then [] # split_slash s
     else (case split_slash s of [] \<Rightarrow> [[c]] | p # ps \<Rightarrow> (c # p) # ps))"

fun join_slash :: "string list \<Rightarrow> string" where
  "join_slash [] = []"
| "join_slash [p] = p"
| "join_slash (p # q # ps) = p @ [slash] @ join_slash (q # ps)"

definition hasPrefix :: "string \<Rightarrow> string \<Rightarrow> bool" where
  "hasPrefix s p \<longleftrightarrow> take (length p) s = p"

definition hasSuffix :: "string \<Rightarrow> string \<Rightarrow> bool" where
  "hasSuffix s p \<longleftrightarrow> hasPrefix (rev s) (rev p)"

definition trimPrefix :: "string \<Rightarrow> string \<Rightarrow> string" where
  "trimPrefix s p = (if hasPrefix s p then drop (length p) s else s)"

definition trimSuffix :: "string \<Rightarrow> string \<Rightarrow> string" where
  "trimSuffix s p = rev (trimPrefix (rev s) (rev p))"

section \<open>Normal form\<close>

definition norm_step :: "string list \<Rightarrow> string \<Rightarrow> string list" where
  "norm_step parts c =
     (if c = [] \<or> c = ''.'' then parts
      else if c = ''..'' then (if parts \<noteq> [] then butlast parts else parts)
      else parts @ [c])"

definition NormPath :: "string \<Rightarrow> string" where
  "NormPath path =
     (let path1 = (if hasPrefix path ''/'' then path else ''/'' @ path)
      in ''/'' @ join_slash (foldl norm_step [] (split_slash path1)))"

text \<open>\<open>splitGuest\<close>, for a path with a slash; without one Go's slice panics, and no caller has one.\<close>

definition splitGuest :: "string \<Rightarrow> string \<times> string" where
  "splitGuest guestPath =
     (let name = rev (takeWhile (\<lambda>c. c \<noteq> slash) (rev guestPath));
          parent = take (length guestPath - length name - 1) guestPath
      in (if parent = [] then ''/'' else parent, name))"

text \<open>
  \<open>filepath.Join(root, rel)\<close> cleans the joined path; for an absolute path \<open>filepath.Clean\<close> drops
  empty and dot components and resolves double dots as \<open>NormPath\<close> does.
\<close>

definition HostPath :: "string \<Rightarrow> string \<Rightarrow> string" where
  "HostPath root guestPath =
     (let rel = trimPrefix (NormPath guestPath) ''/''
      in if rel = [] then root else NormPath (root @ ''/'' @ rel))"

section \<open>itoa\<close>

text \<open>The digits of a positive number, least significant first; a 64-bit number has at most 20.\<close>

fun itoa_digits :: "nat \<Rightarrow> string" where
  "itoa_digits n = (if n = 0 then [] else char_of (48 + n mod 10) # itoa_digits (n div 10))"

declare itoa_digits.simps [simp del]

text \<open>Negating the smallest \<open>int\<close> leaves it negative, and the loop then writes no digit.\<close>

definition itoa :: "u64 \<Rightarrow> string" where
  "itoa n =
     (if n = 0 then ''0''
      else let neg = sint n < 0; m = (if neg then - n else n);
               ds = (if 0 < sint m then rev (itoa_digits (unat m)) else [])
        in if neg then ''-'' @ ds else ds)"

section \<open>Laws of splitting and joining\<close>

lemma split_slash_nonempty [simp]: "split_slash s \<noteq> []"
  by (induction s) (auto split: list.splits)

lemma split_no_slash: "slash \<notin> set c \<Longrightarrow> split_slash c = [c]"
  by (induction c) auto

lemma split_parts: "p \<in> set (split_slash s) \<Longrightarrow> slash \<notin> set p"
  by (induction s arbitrary: p) (fastforce split: list.splits if_splits)+

lemma split_append: "split_slash (a @ slash # b) = split_slash a @ split_slash b"
proof (induction a)
  case (Cons c a)
  then show ?case by (cases "split_slash a") auto
qed simp

lemma join_split: "join_slash (split_slash s) = s"
proof (induction s)
  case (Cons c s)
  then show ?case by (cases "split_slash s" rule: join_slash.cases) auto
qed simp

lemma split_join: "cs \<noteq> [] \<Longrightarrow> \<forall>c \<in> set cs. slash \<notin> set c \<Longrightarrow> split_slash (join_slash cs) = cs"
  by (induction cs rule: join_slash.induct) (simp_all add: split_no_slash split_append)

lemma join_snoc: "cs \<noteq> [] \<Longrightarrow> join_slash (cs @ [c]) = join_slash cs @ slash # c"
  by (induction cs rule: join_slash.induct) auto

lemma join_append: "cs \<noteq> [] \<Longrightarrow> ds \<noteq> [] \<Longrightarrow> join_slash (cs @ ds) = join_slash cs @ slash # join_slash ds"
proof (induction cs rule: join_slash.induct)
  case (2 p)
  then show ?case by (cases ds) auto
qed auto

text \<open>A component that a normal path may have.\<close>

definition plain :: "string \<Rightarrow> bool" where
  "plain c \<longleftrightarrow> c \<noteq> [] \<and> c \<noteq> ''.'' \<and> c \<noteq> ''..'' \<and> slash \<notin> set c"

lemma norm_step_plain [simp]: "plain c \<Longrightarrow> norm_step ps c = ps @ [c]"
  by (simp add: norm_step_def plain_def)

lemma foldl_plain: "list_all plain cs \<Longrightarrow> foldl norm_step ps cs = ps @ cs"
  by (induction cs arbitrary: ps) auto

lemma foldl_keeps_plain:
  "list_all plain ps \<Longrightarrow> \<forall>c \<in> set cs. slash \<notin> set c \<Longrightarrow> list_all plain (foldl norm_step ps cs)"
proof (induction cs arbitrary: ps)
  case (Cons c cs)
  have "list_all plain (norm_step ps c)"
    using Cons.prems by (auto simp: norm_step_def plain_def list_all_iff dest: in_set_butlastD)
  then show ?case using Cons by simp
qed simp

text \<open>The components of a guest path.\<close>

definition comps :: "string \<Rightarrow> string list" where
  "comps path = foldl norm_step [] (split_slash path)"

lemma comps_plain: "list_all plain (comps path)"
  unfolding comps_def by (rule foldl_keeps_plain) (auto dest: split_parts)

lemma comps_slash [simp]: "comps (slash # path) = comps path"
  by (simp add: comps_def norm_step_def)

lemma hasPrefix_slash: "hasPrefix s ''/'' \<longleftrightarrow> (\<exists>t. s = slash # t)"
  by (cases s) (auto simp: hasPrefix_def)

lemma NormPath_comps: "NormPath path = slash # join_slash (comps path)"
  by (auto simp: NormPath_def Let_def comps_def [symmetric])

lemma comps_join: "list_all plain cs \<Longrightarrow> comps (join_slash cs) = cs"
proof (cases "cs = []")
  case False
  assume p: "list_all plain cs"
  then have "split_slash (join_slash cs) = cs"
    using False by (intro split_join) (auto simp: list_all_iff plain_def)
  then show ?thesis using p foldl_plain [of cs "[]"] by (simp add: comps_def)
qed (simp add: comps_def norm_step_def)

lemma comps_NormPath [simp]: "comps (NormPath path) = comps path"
  by (simp add: NormPath_comps comps_join comps_plain)

lemma NormPath_idem: "NormPath (NormPath path) = NormPath path"
  by (metis NormPath_comps comps_NormPath)

lemma comps_append: "comps (a @ slash # b) = foldl norm_step (comps a) (split_slash b)"
  by (simp add: comps_def split_append)

lemma split_plain: "list_all plain cs \<Longrightarrow> cs \<noteq> [] \<Longrightarrow> split_slash (join_slash cs) = cs"
  by (rule split_join) (auto simp: list_all_iff plain_def)

lemma join_inj: "list_all plain cs \<Longrightarrow> list_all plain ds \<Longrightarrow> join_slash cs = join_slash ds \<Longrightarrow> cs = ds"
  using comps_join by metis

lemma NormPath_eq_iff: "NormPath a = NormPath b \<longleftrightarrow> comps a = comps b"
  by (metis NormPath_comps comps_NormPath)

section \<open>Parents and host paths\<close>

lemma takeWhile_rev_component: "slash \<notin> set c \<Longrightarrow> takeWhile (\<lambda>x. x \<noteq> slash) (rev c @ slash # t) = rev c"
  by (induction c rule: rev_induct) auto

lemma splitGuest_snoc:
  assumes "list_all plain (cs @ [c])"
  shows "splitGuest (slash # join_slash (cs @ [c])) = (slash # join_slash cs, c)"
proof -
  have c: "slash \<notin> set c" using assms by (simp add: plain_def)
  obtain t where t: "slash # join_slash (cs @ [c]) = t @ slash # c" "cs = [] \<longrightarrow> t = []" "cs \<noteq> [] \<longrightarrow> t = slash # join_slash cs"
  proof (cases "cs = []")
    case True
    then show ?thesis using that [of "[]"] by simp
  next
    case False
    then show ?thesis using that [of "slash # join_slash cs"] by (simp add: join_snoc)
  qed
  then show ?thesis
    unfolding splitGuest_def t(1) using takeWhile_rev_component [OF c, of "rev t"] by (cases "cs = []") auto
qed

lemma splitGuest_NormPath:
  "comps path = cs @ [c] \<Longrightarrow> splitGuest (NormPath path) = (slash # join_slash cs, c)"
  using splitGuest_snoc [of cs c] comps_plain [of path] by (simp add: NormPath_comps)

lemma HostPath_comps: "comps root = rs \<Longrightarrow> comps (HostPath root path) = rs @ comps path"
proof (cases "comps path = []")
  case True
  then show "comps root = rs \<Longrightarrow> ?thesis" by (simp add: HostPath_def NormPath_comps trimPrefix_def hasPrefix_def)
next
  case False
  assume r: "comps root = rs"
  have rel: "trimPrefix (NormPath path) ''/'' = join_slash (comps path)"
    by (simp add: NormPath_comps trimPrefix_def hasPrefix_def)
  have ne: "join_slash (comps path) \<noteq> []"
    using False comps_join [OF comps_plain, of path] by (auto simp: comps_def norm_step_def)
  have "split_slash (join_slash (comps path)) = comps path"
    using False comps_plain [of path] by (intro split_join) (auto simp: list_all_iff plain_def)
  then show ?thesis
    using ne r comps_plain [of path] by (simp add: HostPath_def rel comps_append foldl_plain)
qed

lemma HostPath_inside:
  assumes "NormPath root = root"
  shows "HostPath root path = slash # join_slash (comps root @ comps path)"
proof (cases "comps path = []")
  case True
  then show ?thesis using assms by (simp add: HostPath_def NormPath_comps trimPrefix_def hasPrefix_def)
next
  case False
  then have ne: "join_slash (comps path) \<noteq> []"
    using comps_join [OF comps_plain, of path] by (auto simp: comps_def norm_step_def)
  then have "HostPath root path = NormPath (root @ slash # join_slash (comps path))"
    by (simp add: HostPath_def NormPath_comps trimPrefix_def hasPrefix_def Let_def)
  moreover have "comps (root @ slash # join_slash (comps path)) = comps root @ comps path"
    using False comps_plain [of path] by (simp add: comps_append foldl_plain split_join list_all_iff plain_def)
  ultimately show ?thesis by (simp add: NormPath_comps)
qed

lemma hasPrefix_prefix: "hasPrefix s p \<longleftrightarrow> prefix p s"
  unfolding hasPrefix_def by (metis append_take_drop_id prefix_def prefixI append_eq_conv_conj)

text \<open>
  A path is at or below a normal path \<open>mp\<close>, as strings with a slash between, exactly when the
  components of \<open>mp\<close> start those of the path.
\<close>

lemma below_iff:
  assumes "list_all plain ms" "list_all plain gs"
  shows "slash # join_slash gs = slash # join_slash ms \<or>
      hasPrefix (slash # join_slash gs) (trimSuffix (slash # join_slash ms) ''/'' @ ''/'') \<longleftrightarrow> prefix ms gs"
proof (cases "ms = []")
  case True
  then show ?thesis by (simp add: trimSuffix_def trimPrefix_def hasPrefix_def)
next
  case False
  have last: "trimSuffix (slash # join_slash ms) ''/'' = slash # join_slash ms"
  proof -
    obtain ps p where ms: "ms = ps @ [p]" using False by (metis rev_exhaust)
    then have p: "p \<noteq> []" "slash \<notin> set p" using assms(1) by (auto simp: plain_def)
    obtain t where "slash # join_slash ms = t @ p"
    proof (cases "ps = []")
      case True
      then show ?thesis using that [of "[slash]"] ms by simp
    next
      case False
      then show ?thesis using that [of "slash # join_slash ps @ [slash]"] ms by (simp add: join_snoc)
    qed
    moreover obtain p' x where "p = p' @ [x]" using p(1) by (metis rev_exhaust)
    ultimately show ?thesis using p(2) by (auto simp: trimSuffix_def trimPrefix_def hasPrefix_def)
  qed
  have inner: "prefix ms gs" if "join_slash gs = join_slash ms @ slash # t" for t
  proof -
    have ne: "gs \<noteq> []" using that False by (cases gs) auto
    have "split_slash (join_slash gs) = split_slash (join_slash ms) @ split_slash t"
      unfolding that by (rule split_append)
    then have "gs = ms @ split_slash t" using split_plain [OF assms(2) ne] split_plain [OF assms(1) False] by simp
    then show ?thesis by (metis prefixI)
  qed
  have outer: "join_slash gs = join_slash ms \<or> prefix (join_slash ms @ [slash]) (join_slash gs)" if p: "prefix ms gs"
  proof -
    obtain zs where "gs = ms @ zs" using p by (auto simp: prefix_def)
    then show ?thesis using False by (cases "zs = []") (auto simp: join_append prefix_def)
  qed
  show ?thesis
    unfolding last hasPrefix_prefix using inner outer join_inj [OF assms(2,1)] by (auto simp: prefix_def)
qed

section \<open>Decimal numbers\<close>

definition digit_val :: "char \<Rightarrow> nat" where
  "digit_val c = of_char c - 48"

lemma digit_val_char: "d < 10 \<Longrightarrow> digit_val (char_of (48 + d)) = d"
  by (simp add: digit_val_def)

lemma itoa_digits_value: "foldr (\<lambda>c n. digit_val c + 10 * n) (itoa_digits n) 0 = n"
proof (induction n rule: itoa_digits.induct)
  case (1 n)
  then show ?case by (subst itoa_digits.simps) (simp add: digit_val_char)
qed

section \<open>Properties\<close>

text \<open>
  C5. Whatever a guest path contains, its normal form is absolute, has only plain components (not
  empty, no dots, no slash) and is its own normal form; a path relative to a directory resolves from
  that directory's components; and the host path lies at or under the root of the VFS.
\<close>

theorem path_confinement:
  assumes "NormPath root = root"
  shows "(\<exists>cs. list_all plain cs \<and> NormPath path = slash # join_slash cs \<and>
      HostPath root path = slash # join_slash (comps root @ cs) \<and> prefix (comps root) (comps (HostPath root path))) \<and>
    NormPath (NormPath path) = NormPath path \<and>
    NormPath (NormPath dir @ slash # path) = slash # join_slash (foldl norm_step (comps dir) (split_slash path))"
  using comps_plain [of path] HostPath_inside [OF assms, of path] NormPath_comps [of path] HostPath_comps [of root "comps root" path]
    NormPath_idem [of path] NormPath_comps [of "NormPath dir @ slash # path"] comps_append [of "NormPath dir" path]
  by auto

theorem path_confinement_witness:
  "NormPath ''a/.././../b//c'' = ''/b/c'' \<and> HostPath ''/srv/fs'' ''../../etc/passwd'' = ''/srv/fs/etc/passwd'' \<and>
   prefix [''srv'', ''fs''] (comps (HostPath ''/srv/fs'' ''../../etc/passwd''))"
proof -
  have r: "NormPath ''/srv/fs'' = ''/srv/fs''" by (simp add: NormPath_def hasPrefix_def norm_step_def)
  have "comps ''/srv/fs'' = [''srv'', ''fs'']" by (simp add: comps_def norm_step_def)
  then have "prefix [''srv'', ''fs''] (comps (HostPath ''/srv/fs'' ''../../etc/passwd''))"
    using path_confinement [OF r, of "''../../etc/passwd''"] by auto
  moreover have "NormPath ''a/.././../b//c'' = ''/b/c''" by (simp add: NormPath_def hasPrefix_def norm_step_def)
  moreover have "HostPath ''/srv/fs'' ''../../etc/passwd'' = ''/srv/fs/etc/passwd''"
    by (simp add: HostPath_def NormPath_def hasPrefix_def trimPrefix_def norm_step_def)
  ultimately show ?thesis by blast
qed

end
