(* ===== verification/Hostfs.thy ===== *)
theory Hostfs
  imports Paths "HOL-Library.AList"
begin

unbundle bit_operations_syntax

text \<open>
  The host file system as the VFS of \<open>internal/vfs/vfs.go\<close> sees it, through the calls of Go's \<open>os\<close>
  package: the part of the tree under the VFS root, as an association list from component paths
  relative to the root. A host symbolic link is a node of its own with what it leads to; links in
  the middle of a path are not followed. The host grants access and has room, so a call fails only
  for the shape of the tree. Files that golinux itself writes as JSON hold the value they encode
  (\<open>MetaJson m\<close> stands for the bytes that \<open>json.Marshal\<close> gives for \<open>m\<close>); decoding other bytes is the
  field \<open>v_parseMeta\<close> or \<open>v_parseMounts\<close>.
\<close>

section \<open>Data\<close>

type_synonym hpath = "string list"

record Meta =
  mt_Type :: string
  mt_Mode :: int
  mt_Uid :: int
  mt_Gid :: int
  mt_Target :: string
  mt_Rdev :: int

record MountInfo =
  mi_Source :: string
  mi_Fstype :: string
  mi_Flags :: int
  mi_Data :: string

datatype fcontent = Raw "u8 list" | MetaJson "(string \<times> Meta) list" | MountsJson "(string \<times> MountInfo) list"

record hattr =
  ha_mode :: u32
  ha_uid :: int
  ha_gid :: int
  ha_rdev :: int
  ha_mtime :: int

text \<open>\<open>HNode attr content target follow\<close>: the last two are for symbolic links.\<close>

datatype hnode = HNode (hn_attr: hattr) (hn_content: fcontent) (hn_target: string) (hn_follow: "hnode option")

definition ModeDir :: u32 where "ModeDir = 0x80000000"
definition ModeSymlink :: u32 where "ModeSymlink = 0x8000000"
definition ModeDevice :: u32 where "ModeDevice = 0x4000000"
definition ModeNamedPipe :: u32 where "ModeNamedPipe = 0x2000000"
definition ModeSocket :: u32 where "ModeSocket = 0x1000000"
definition ModeCharDevice :: u32 where "ModeCharDevice = 0x200000"
definition ModeIrregular :: u32 where "ModeIrregular = 0x80000"

lemmas mode_defs = ModeDir_def ModeSymlink_def ModeDevice_def ModeNamedPipe_def ModeSocket_def ModeCharDevice_def ModeIrregular_def

definition ModeType :: u32 where
  "ModeType = ModeDir OR ModeSymlink OR ModeNamedPipe OR ModeSocket OR ModeDevice OR ModeCharDevice OR ModeIrregular"

definition is_dir :: "hnode \<Rightarrow> bool" where "is_dir n \<longleftrightarrow> ha_mode (hn_attr n) AND ModeDir \<noteq> 0"
definition is_link :: "hnode \<Rightarrow> bool" where "is_link n \<longleftrightarrow> ha_mode (hn_attr n) AND ModeSymlink \<noteq> 0"

datatype vfs_error = VFSError int | HostError

record vfs =
  v_NativePerms :: bool
  v_mounts :: "(string \<times> MountInfo) list"
  v_mountsMTime :: int
  v_tree :: "(hpath \<times> hnode) list"
  v_now :: int
  v_parseMeta :: "u8 list \<Rightarrow> (string \<times> Meta) list option"
  v_parseMounts :: "u8 list \<Rightarrow> (string \<times> MountInfo) list option"

section \<open>Calls of package os\<close>

definition os_Lstat :: "hpath \<Rightarrow> vfs \<Rightarrow> hnode option" where
  "os_Lstat p v = map_of (v_tree v) p"

definition os_Stat :: "hpath \<Rightarrow> vfs \<Rightarrow> hnode option" where
  "os_Stat p v = (case os_Lstat p v of
       None \<Rightarrow> None
     | Some n \<Rightarrow> if is_link n then hn_follow n else Some n)"

definition host_dir :: "hpath \<Rightarrow> vfs \<Rightarrow> bool" where
  "host_dir p v \<longleftrightarrow> (case os_Stat p v of None \<Rightarrow> False | Some n \<Rightarrow> is_dir n)"

definition set_node :: "hpath \<Rightarrow> hnode \<Rightarrow> vfs \<Rightarrow> vfs" where
  "set_node p n v = v\<lparr>v_tree := AList.update p n (v_tree v)\<rparr>"

definition del_node :: "hpath \<Rightarrow> vfs \<Rightarrow> vfs" where
  "del_node p v = v\<lparr>v_tree := AList.delete p (v_tree v)\<rparr>"

definition new_dir :: "vfs \<Rightarrow> hnode" where
  "new_dir v = HNode \<lparr>ha_mode = ModeDir OR 0x1ED, ha_uid = 0, ha_gid = 0, ha_rdev = 0, ha_mtime = v_now v\<rparr> (Raw []) '''' None"

definition new_file :: "fcontent \<Rightarrow> vfs \<Rightarrow> hnode" where
  "new_file c v = HNode \<lparr>ha_mode = 0x1A4, ha_uid = 0, ha_gid = 0, ha_rdev = 0, ha_mtime = v_now v\<rparr> c '''' None"

definition os_ReadDir :: "hpath \<Rightarrow> vfs \<Rightarrow> string list option" where
  "os_ReadDir d v =
     (if host_dir d v then Some (map last (filter (\<lambda>q. q \<noteq> [] \<and> butlast q = d) (map fst (v_tree v)))) else None)"

definition os_ReadFile :: "hpath \<Rightarrow> vfs \<Rightarrow> fcontent option" where
  "os_ReadFile p v = (case os_Stat p v of
       None \<Rightarrow> None
     | Some n \<Rightarrow> if is_dir n then None else Some (hn_content n))"

text \<open>\<open>os.WriteFile\<close> and \<open>os.Create\<close>: what a link leads to lies outside the tree.\<close>

definition os_WriteFile :: "hpath \<Rightarrow> fcontent \<Rightarrow> (vfs, vfs_error, unit) sem" where
  "os_WriteFile p c = (\<lambda>v.
     if p = [] \<or> \<not> host_dir (butlast p) v then (Inl HostError, v)
     else case os_Lstat p v of
         None \<Rightarrow> (Inr (), set_node p (new_file c v) v)
       | Some n \<Rightarrow>
           if is_link n then (if host_dir p v then (Inl HostError, v) else (Inr (), v))
           else if is_dir n then (Inl HostError, v)
           else (Inr (), set_node p (HNode ((hn_attr n)\<lparr>ha_mtime := v_now v\<rparr>) c (hn_target n) (hn_follow n)) v))"

primrec mkdirs :: "hpath \<Rightarrow> hpath \<Rightarrow> (vfs, vfs_error, unit) sem" where
  "mkdirs d [] = ret ()"
| "mkdirs d (c # cs) = (\<lambda>v.
     if host_dir (d @ [c]) v then mkdirs (d @ [c]) cs v
     else if os_Lstat (d @ [c]) v \<noteq> None then (Inl HostError, v)
     else mkdirs (d @ [c]) cs (set_node (d @ [c]) (new_dir v) v))"

definition os_MkdirAll :: "hpath \<Rightarrow> (vfs, vfs_error, unit) sem" where
  "os_MkdirAll p = mkdirs [] p"

definition has_child :: "hpath \<Rightarrow> vfs \<Rightarrow> bool" where
  "has_child d v \<longleftrightarrow> list_ex (\<lambda>q. q \<noteq> [] \<and> butlast q = d) (map fst (v_tree v))"

definition os_Remove :: "hpath \<Rightarrow> (vfs, vfs_error, unit) sem" where
  "os_Remove p = (\<lambda>v. case os_Lstat p v of
       None \<Rightarrow> (Inl HostError, v)
     | Some n \<Rightarrow> if p = [] \<or> is_dir n \<and> has_child p v then (Inl HostError, v) else (Inr (), del_node p v))"

definition move_key :: "hpath \<Rightarrow> hpath \<Rightarrow> hpath \<Rightarrow> hpath" where
  "move_key old new q = (if prefix old q then new @ drop (length old) q else q)"

text \<open>
  \<open>os.Rename\<close>: Go refuses an existing directory as the new name; the system refuses to put a
  directory over a file or into itself, and moves everything below a directory with it.
\<close>

definition os_Rename :: "hpath \<Rightarrow> hpath \<Rightarrow> (vfs, vfs_error, unit) sem" where
  "os_Rename old new = (\<lambda>v. case os_Lstat old v of
       None \<Rightarrow> (Inl HostError, v)
     | Some n \<Rightarrow>
         if new = [] \<or> old = [] \<or> \<not> host_dir (butlast new) v then (Inl HostError, v)
         else if (case os_Lstat new v of Some k \<Rightarrow> is_dir k | None \<Rightarrow> False) then (Inl HostError, v)
         else if is_dir n then
           (if os_Lstat new v \<noteq> None \<or> prefix old new then (Inl HostError, v)
            else (Inr (), v\<lparr>v_tree := map (\<lambda>(q, k). (move_key old new q, k)) (v_tree v)\<rparr>))
         else if old = new then (Inr (), v)
         else (Inr (), set_node new n (del_node old v)))"

text \<open>\<open>copyFile\<close>, from the content of a file of the host: \<open>io.Copy\<close> from a directory fails after the creation.\<close>

definition copy_into :: "hnode option \<Rightarrow> hpath \<Rightarrow> (vfs, vfs_error, unit) sem" where
  "copy_into src dst = (case src of
       None \<Rightarrow> fail HostError
     | Some n \<Rightarrow> if is_dir n then bindE (os_WriteFile dst (Raw [])) (\<lambda>_. fail HostError) else os_WriteFile dst (hn_content n))"

definition copyFile :: "hpath \<Rightarrow> hpath \<Rightarrow> (vfs, vfs_error, unit) sem" where
  "copyFile src dst = (\<lambda>v. if src = dst then os_WriteFile dst (Raw []) v else copy_into (os_Stat src v) dst v)"

end
