(* ===== verification/Json_Text.thy ===== *)
theory Json_Text
  imports Prelude
begin

text \<open>
  Strings through \<open>encoding/json\<close>, for the metadata and mount files of \<open>internal/vfs/vfs.go\<close>. JSON text
  is Unicode: \<open>json.Marshal\<close> writes each byte of a Go string that is not part of a valid UTF-8 sequence
  as U+FFFD, \<open>json.Unmarshal\<close> does the same, and so what a map is after being stored and read back is
  \<open>json_map\<close> of it: the identity on valid UTF-8, and not on other names.
\<close>

section \<open>UTF-8\<close>

definition byte_at :: "string \<Rightarrow> nat \<Rightarrow> nat" where
  "byte_at s i = (if i < length s then of_char (s ! i) else 0)"

definition byte_in :: "string \<Rightarrow> nat \<Rightarrow> nat \<Rightarrow> nat \<Rightarrow> bool" where
  "byte_in s i lo hi \<longleftrightarrow> lo \<le> byte_at s i \<and> byte_at s i \<le> hi"

text \<open>
  \<open>utf8.DecodeRuneInString\<close>: the length of the rune a string starts with, 0 where there is none. The
  second byte is restricted after E0, ED, F0 and F4 (overlong forms, surrogates, above U+10FFFF).
\<close>

definition rune_len :: "string \<Rightarrow> nat" where
  "rune_len s =
     (if byte_in s 0 0 0x7F then 1
      else if byte_in s 0 0xC2 0xDF then (if byte_in s 1 0x80 0xBF then 2 else 0)
      else if byte_in s 0 0xE0 0xEF then
        (if byte_in s 1 (if byte_at s 0 = 0xE0 then 0xA0 else 0x80) (if byte_at s 0 = 0xED then 0x9F else 0xBF) \<and>
            byte_in s 2 0x80 0xBF then 3 else 0)
      else if byte_in s 0 0xF0 0xF4 then
        (if byte_in s 1 (if byte_at s 0 = 0xF0 then 0x90 else 0x80) (if byte_at s 0 = 0xF4 then 0x8F else 0xBF) \<and>
            byte_in s 2 0x80 0xBF \<and> byte_in s 3 0x80 0xBF then 4 else 0)
      else 0)"

text \<open>U+FFFD in UTF-8.\<close>

definition fffd :: string where
  "fffd = map char_of [0xEF, 0xBF, 0xBD :: nat]"

function utf8_coerce :: "string \<Rightarrow> string" where
  "utf8_coerce [] = []"
| "utf8_coerce (c # cs) = (let n = rune_len (c # cs) in
     if n = 0 then fffd @ utf8_coerce cs else take n (c # cs) @ utf8_coerce (drop n (c # cs)))"
  by pat_completeness auto

termination
  by (relation "measure length") auto

definition utf8_valid :: "string \<Rightarrow> bool" where
  "utf8_valid s \<longleftrightarrow> utf8_coerce s = s"

lemma byte_in_bound: "byte_in s i lo hi \<Longrightarrow> 0 < lo \<Longrightarrow> i < length s"
  by (auto simp: byte_in_def byte_at_def split: if_splits)

lemma rune_len_le: "s \<noteq> [] \<Longrightarrow> rune_len s \<le> length s"
  using byte_in_bound [of s 1 "0x80"] byte_in_bound [of s 1 "0xA0"] byte_in_bound [of s 1 "0x90"]
    byte_in_bound [of s 2 "0x80"] byte_in_bound [of s 3 "0x80"]
  unfolding rune_len_def by (cases s) (auto split: if_splits simp: Suc_le_eq numeral_2_eq_2 numeral_3_eq_3)

lemma byte_at_take: "i < n \<Longrightarrow> n \<le> length s \<Longrightarrow> byte_at (take n s @ t) i = byte_at s i"
  by (simp add: byte_at_def nth_append)

text \<open>The length of a rune depends on its own bytes only.\<close>

lemma rune_len_cong:
  assumes "byte_at u 0 = byte_at s 0" "1 < rune_len s \<Longrightarrow> byte_at u 1 = byte_at s 1"
    "2 < rune_len s \<Longrightarrow> byte_at u 2 = byte_at s 2" "3 < rune_len s \<Longrightarrow> byte_at u 3 = byte_at s 3" "rune_len s \<noteq> 0"
  shows "rune_len u = rune_len s"
proof -
  have b: "byte_in u 0 lo hi = byte_in s 0 lo hi" for lo hi using assms(1) by (simp add: byte_in_def)
  have some: "byte_in s 0 0 0x7F \<or> byte_in s 0 0xC2 0xDF \<or> byte_in s 0 0xE0 0xEF \<or> byte_in s 0 0xF0 0xF4"
  proof (rule ccontr)
    assume "\<not> ?thesis"
    then have "rune_len s = 0" unfolding rune_len_def by simp
    then show False using assms(5) by simp
  qed
  consider (one) "byte_in s 0 0 0x7F" | (two) "\<not> byte_in s 0 0 0x7F" "byte_in s 0 0xC2 0xDF"
    | (three) "\<not> byte_in s 0 0 0x7F" "\<not> byte_in s 0 0xC2 0xDF" "byte_in s 0 0xE0 0xEF"
    | (four) "\<not> byte_in s 0 0 0x7F" "\<not> byte_in s 0 0xC2 0xDF" "\<not> byte_in s 0 0xE0 0xEF" "byte_in s 0 0xF0 0xF4"
    using some by blast
  then show ?thesis
  proof cases
    case one
    then show ?thesis by (simp add: rune_len_def b)
  next
    case two
    have r: "rune_len t = (if byte_in t 1 0x80 0xBF then 2 else 0)" if "\<And>lo hi. byte_in t 0 lo hi = byte_in s 0 lo hi" for t
      unfolding rune_len_def that using two by simp
    have "byte_in u 1 0x80 0xBF = byte_in s 1 0x80 0xBF"
      using assms(2,5) r [OF refl] by (simp add: byte_in_def split: if_splits)
    then show ?thesis using r [OF refl] r [OF b] by simp
  next
    case three
    let ?lo = "if byte_at s 0 = 0xE0 then 0xA0 else 0x80 :: nat" and ?hi = "if byte_at s 0 = 0xED then 0x9F else 0xBF :: nat"
    have r: "rune_len t = (if byte_in t 1 ?lo ?hi \<and> byte_in t 2 0x80 0xBF then 3 else 0)"
      if "\<And>lo hi. byte_in t 0 lo hi = byte_in s 0 lo hi" "byte_at t 0 = byte_at s 0" for t
      unfolding rune_len_def that using three by simp
    note rs = r [OF refl refl] and ru = r [OF b assms(1)]
    have "rune_len s = 3" using assms(5) rs by presburger
    then have "byte_in u 1 lo hi = byte_in s 1 lo hi" "byte_in u 2 lo hi = byte_in s 2 lo hi" for lo hi
      using assms(2,3) by (simp_all add: byte_in_def)
    then show ?thesis unfolding rs ru by simp
  next
    case four
    let ?lo = "if byte_at s 0 = 0xF0 then 0x90 else 0x80 :: nat" and ?hi = "if byte_at s 0 = 0xF4 then 0x8F else 0xBF :: nat"
    have r: "rune_len t = (if byte_in t 1 ?lo ?hi \<and> byte_in t 2 0x80 0xBF \<and> byte_in t 3 0x80 0xBF then 4 else 0)"
      if "\<And>lo hi. byte_in t 0 lo hi = byte_in s 0 lo hi" "byte_at t 0 = byte_at s 0" for t
      unfolding rune_len_def that using four by simp
    note rs = r [OF refl refl] and ru = r [OF b assms(1)]
    have "rune_len s = 4" using assms(5) rs by presburger
    then have "byte_in u 1 lo hi = byte_in s 1 lo hi" "byte_in u 2 lo hi = byte_in s 2 lo hi" "byte_in u 3 lo hi = byte_in s 3 lo hi" for lo hi
      using assms(2-4) by (simp_all add: byte_in_def)
    then show ?thesis unfolding rs ru by simp
  qed
qed

lemma rune_len_take:
  assumes "s \<noteq> []" "rune_len s \<noteq> 0"
  shows "rune_len (take (rune_len s) s @ t) = rune_len s"
proof -
  have at: "byte_at (take (rune_len s) s @ t) i = byte_at s i" if "i < rune_len s" for i
    by (rule byte_at_take [OF that rune_len_le [OF assms(1)]])
  show ?thesis by (rule rune_len_cong) (use at assms in simp_all)
qed

lemma utf8_coerce_rune:
  assumes "s \<noteq> []" "rune_len s \<noteq> 0"
  shows "utf8_coerce (take (rune_len s) s @ t) = take (rune_len s) s @ utf8_coerce t"
proof -
  define r where "r = take (rune_len s) s"
  have len: "length r = rune_len s" using rune_len_le [OF assms(1)] by (simp add: r_def)
  have rl: "rune_len (r @ t) = rune_len s" unfolding r_def by (rule rune_len_take [OF assms])
  obtain c cs where c: "r @ t = c # cs" using len assms(2) by (cases r) auto
  have "utf8_coerce (r @ t) = take (rune_len s) (r @ t) @ utf8_coerce (drop (rune_len s) (r @ t))"
    using rl assms(2) unfolding c by (simp add: Let_def)
  then show ?thesis using len by (simp add: r_def [symmetric])
qed

lemma rune_len_fffd: "rune_len (fffd @ t) = 3" "length fffd = 3" "fffd \<noteq> []"
  by (simp_all add: rune_len_def fffd_def byte_in_def byte_at_def)

lemma utf8_coerce_fffd: "utf8_coerce (fffd @ t) = fffd @ utf8_coerce t"
  using utf8_coerce_rune [of fffd t] rune_len_fffd(1) [of "[]"] rune_len_fffd(2,3) by simp

lemma utf8_coerce_idem: "utf8_coerce (utf8_coerce s) = utf8_coerce s"
proof (induction s rule: utf8_coerce.induct)
  case (2 c cs)
  define n where "n = rune_len (c # cs)"
  show ?case
  proof (cases "n = 0")
    case True
    then show ?thesis using 2(1) [OF n_def True] by (simp add: n_def [symmetric] utf8_coerce_fffd Let_def)
  next
    case False
    have "utf8_coerce (take n (c # cs) @ utf8_coerce (drop n (c # cs))) = take n (c # cs) @ utf8_coerce (utf8_coerce (drop n (c # cs)))"
      unfolding n_def by (rule utf8_coerce_rune) (use False in \<open>simp_all add: n_def\<close>)
    moreover have "utf8_coerce (c # cs) = take n (c # cs) @ utf8_coerce (drop n (c # cs))"
      using False by (simp add: n_def [symmetric] Let_def)
    ultimately show ?thesis using 2(2) [OF n_def False] by simp
  qed
qed simp

lemma utf8_valid_coerce [simp]: "utf8_valid (utf8_coerce s)"
  by (simp add: utf8_valid_def utf8_coerce_idem)

lemma utf8_valid_ascii:
  assumes "\<forall>c \<in> set s. (of_char c :: nat) < 128"
  shows "utf8_valid s"
  using assms
proof (induction s)
  case (Cons c cs)
  then have "rune_len (c # cs) = 1" by (simp add: rune_len_def byte_in_def byte_at_def)
  then show ?case using Cons by (simp add: utf8_valid_def Let_def)
qed (simp add: utf8_valid_def)

section \<open>Objects\<close>

fun bytes_le :: "string \<Rightarrow> string \<Rightarrow> bool" where
  "bytes_le [] t = True"
| "bytes_le (c # cs) [] = False"
| "bytes_le (c # cs) (d # ds) = ((of_char c :: nat) < of_char d \<or> c = d \<and> bytes_le cs ds)"

text \<open>
  A map with string keys after \<open>json.Marshal\<close> and \<open>json.Unmarshal\<close>, with \<open>e\<close> for what happens to a
  value. \<open>Marshal\<close> writes the keys in the order of their bytes and of the keys that have become equal
  \<open>Unmarshal\<close> keeps the last.
\<close>

definition json_map :: "('a \<Rightarrow> 'a) \<Rightarrow> (string \<times> 'a) list \<Rightarrow> (string \<times> 'a) list" where
  "json_map e data = map (\<lambda>(k, m). (utf8_coerce k, e m))
     (filter (\<lambda>(k, m). list_all (\<lambda>(k', m'). utf8_coerce k' = utf8_coerce k \<longrightarrow> bytes_le k' k) data) data)"

definition json_fixed :: "('a \<Rightarrow> 'a) \<Rightarrow> (string \<times> 'a) list \<Rightarrow> bool" where
  "json_fixed e data \<longleftrightarrow> (\<forall>(k, m) \<in> set data. utf8_valid k \<and> e m = m)"

lemma bytes_le_refl [simp]: "bytes_le s s"
  by (induction s) simp_all

lemma json_map_keys:
  assumes "\<And>k m. (k, m) \<in> set data \<Longrightarrow> utf8_valid k"
  shows "json_map e data = map (\<lambda>(k, m). (k, e m)) data"
proof -
  have v: "utf8_coerce k = k" if "(k, m) \<in> set data" for k m
    using assms [OF that] by (simp add: utf8_valid_def)
  have "filter (\<lambda>(k, m). list_all (\<lambda>(k', m'). utf8_coerce k' = utf8_coerce k \<longrightarrow> bytes_le k' k) data) data = data"
  proof (intro filter_True ballI)
    fix x assume x: "x \<in> set data"
    obtain k m where km: "x = (k, m)" by fastforce
    have "utf8_coerce k' = utf8_coerce k \<longrightarrow> bytes_le k' k" if "(k', m') \<in> set data" for k' m'
      using v [OF that] v x km by simp
    then show "case x of (k, m) \<Rightarrow> list_all (\<lambda>(k', m'). utf8_coerce k' = utf8_coerce k \<longrightarrow> bytes_le k' k) data"
      by (auto simp: km list_all_iff)
  qed
  then show ?thesis using v by (auto simp: json_map_def)
qed

lemma json_map_fixed: "json_fixed e data \<Longrightarrow> json_map e data = data"
  by (subst json_map_keys) (auto simp: json_fixed_def intro!: map_idI)

lemma json_fixed_map:
  assumes "\<And>m. e (e m) = e m"
  shows "json_fixed e (json_map e data)"
  using assms by (auto simp: json_fixed_def json_map_def)

lemma json_fixed_Nil [simp]: "json_fixed e []"
  by (simp add: json_fixed_def)

lemma json_fixed_map_of: "json_fixed e data \<Longrightarrow> map_of data k = Some m \<Longrightarrow> utf8_valid k \<and> e m = m"
  by (auto simp: json_fixed_def dest: map_of_SomeD)

end
