(* ===== verification/Vfs.thy ===== *)
theory Vfs
  imports Hostfs Json_Text
begin

unbundle bit_operations_syntax

text \<open>
  The virtual file system of \<open>internal/vfs/vfs.go\<close>: metadata in a sidecar file of every host
  directory, healing of unregistered files, directory and file operations, the mount table. A guest
  path is used through its components; a host path is the components under the root.
\<close>

section \<open>Constants\<close>

definition Sidecar :: string where "Sidecar = ''.golinux_meta''"
definition LegacySidecar :: string where "LegacySidecar = ''.pylinux_meta''"
definition mountsFile :: string where "mountsFile = ''.golinux_mounts.json''"
definition legacyMountsFile :: string where "legacyMountsFile = ''.pylinux_mounts.json''"
definition DefaultDirMode :: int where "DefaultDirMode = 0x1ED"
definition DefaultFileMode :: int where "DefaultFileMode = 0x1A4"
definition AutohealMode :: int where "AutohealMode = 0x1FF"

definition mk_Meta :: "string \<Rightarrow> int \<Rightarrow> string \<Rightarrow> int \<Rightarrow> Meta" where
  "mk_Meta typ md target rdev = \<lparr>mt_Type = typ, mt_Mode = md, mt_Uid = 0, mt_Gid = 0, mt_Target = target, mt_Rdev = rdev\<rparr>"

text \<open>The strings of a value through \<open>encoding/json\<close>.\<close>

definition json_Meta :: "Meta \<Rightarrow> Meta" where
  "json_Meta m = m\<lparr>mt_Type := utf8_coerce (mt_Type m), mt_Target := utf8_coerce (mt_Target m)\<rparr>"

definition json_MountInfo :: "MountInfo \<Rightarrow> MountInfo" where
  "json_MountInfo i = i\<lparr>mi_Source := utf8_coerce (mi_Source i), mi_Fstype := utf8_coerce (mi_Fstype i), mi_Data := utf8_coerce (mi_Data i)\<rparr>"

section \<open>Mount table\<close>

text \<open>
  \<open>json.Unmarshal\<close>: what \<open>json.Marshal\<close> wrote comes back as \<open>json_map\<close> of it; in any other file the
  strings are made valid UTF-8 too.
\<close>

definition migrateLegacyMountsFile :: "vfs \<Rightarrow> vfs" where
  "migrateLegacyMountsFile v =
     (if os_Stat [mountsFile] v \<noteq> None then v
      else if os_Stat [legacyMountsFile] v = None then v
      else snd (os_Rename [legacyMountsFile] [mountsFile] v))"

definition unmarshalMounts :: "vfs \<Rightarrow> fcontent \<Rightarrow> (string \<times> MountInfo) list option" where
  "unmarshalMounts v c = (case c of MountsJson m \<Rightarrow> Some (json_map json_MountInfo m)
     | Raw b \<Rightarrow> map_option (json_map json_MountInfo) (v_parseMounts v b) | MetaJson m \<Rightarrow> None)"

definition refreshMounts :: "vfs \<Rightarrow> vfs" where
  "refreshMounts v0 = (let v = migrateLegacyMountsFile v0 in
     case os_Stat [mountsFile] v of
       None \<Rightarrow> v\<lparr>v_mounts := [], v_mountsMTime := -1\<rparr>
     | Some st \<Rightarrow>
         (let t = ha_mtime (hn_attr st) in
          if t = v_mountsMTime v then v
          else case os_ReadFile [mountsFile] v of
              None \<Rightarrow> v\<lparr>v_mounts := [], v_mountsMTime := t\<rparr>
            | Some c \<Rightarrow> (case unmarshalMounts v c of
                  None \<Rightarrow> v\<lparr>v_mounts := [], v_mountsMTime := t\<rparr>
                | Some m \<Rightarrow> v\<lparr>v_mounts := m, v_mountsMTime := t\<rparr>)))"

definition persistMounts :: "(vfs, vfs_error, unit) sem" where
  "persistMounts =
     bindE (getS v_mounts) (\<lambda>m.
     bindE (os_WriteFile [mountsFile @ ''.tmp''] (MountsJson m)) (\<lambda>_.
     bindE (os_Rename [mountsFile @ ''.tmp''] [mountsFile]) (\<lambda>_.
     modS (\<lambda>v. case os_Stat [mountsFile] v of
         None \<Rightarrow> v
       | Some st \<Rightarrow> v\<lparr>v_mountsMTime := ha_mtime (hn_attr st)\<rparr>))))"

section \<open>Sidecar files\<close>

definition sidecarPath :: "hpath \<Rightarrow> hpath" where
  "sidecarPath d = d @ [Sidecar]"

definition legacySidecarPath :: "hpath \<Rightarrow> hpath" where
  "legacySidecarPath d = d @ [LegacySidecar]"

definition migrateLegacySidecar :: "hpath \<Rightarrow> vfs \<Rightarrow> vfs" where
  "migrateLegacySidecar d v =
     (if os_Stat (sidecarPath d) v \<noteq> None then v
      else if os_Stat (legacySidecarPath d) v = None then v
      else snd (os_Rename (legacySidecarPath d) (sidecarPath d) v))"

definition unmarshalMeta :: "vfs \<Rightarrow> fcontent \<Rightarrow> (string \<times> Meta) list option" where
  "unmarshalMeta v c = (case c of MetaJson m \<Rightarrow> Some (json_map json_Meta m)
     | Raw b \<Rightarrow> map_option (json_map json_Meta) (v_parseMeta v b) | MountsJson m \<Rightarrow> None)"

definition loadSidecar :: "hpath \<Rightarrow> vfs \<Rightarrow> (string \<times> Meta) list \<times> vfs" where
  "loadSidecar d v0 = (let v = migrateLegacySidecar d v0 in
     (case os_ReadFile (sidecarPath d) v of
        None \<Rightarrow> []
      | Some c \<Rightarrow> (case unmarshalMeta v c of None \<Rightarrow> [] | Some m \<Rightarrow> m), v))"

definition saveSidecar :: "hpath \<Rightarrow> (string \<times> Meta) list \<Rightarrow> (vfs, vfs_error, unit) sem" where
  "saveSidecar d data =
     bindE (os_WriteFile (d @ [Sidecar @ ''.tmp'']) (MetaJson data)) (\<lambda>_.
     os_Rename (d @ [Sidecar @ ''.tmp'']) (sidecarPath d))"

text \<open>\<open>data := loadSidecar(d)\<close> at the head of a function that may fail later.\<close>

definition loadS :: "hpath \<Rightarrow> (vfs, vfs_error, (string \<times> Meta) list) sem" where
  "loadS d = (\<lambda>v. let (data, v1) = loadSidecar d v in (Inr data, v1))"

definition ensureRootMeta :: "(vfs, vfs_error, unit) sem" where
  "ensureRootMeta =
     bindE (loadS []) (\<lambda>data.
     if map_of data ''.'' = None then saveSidecar [] (AList.update ''.'' (mk_Meta ''dir'' DefaultDirMode '''' 0) data)
     else ret ())"

definition skipped :: "string \<Rightarrow> bool" where
  "skipped name \<longleftrightarrow> name = Sidecar \<or> name = LegacySidecar \<or> hasSuffix name ''.tmp''"

definition autoheal :: "hpath \<Rightarrow> vfs \<Rightarrow> string \<Rightarrow> Meta" where
  "autoheal d v name = (case os_Lstat (d @ [name]) v of
       None \<Rightarrow> mk_Meta ''reg'' AutohealMode '''' 0
     | Some n \<Rightarrow>
         if is_link n then mk_Meta ''lnk'' AutohealMode (hn_target n) 0
         else mk_Meta (if is_dir n then ''dir'' else ''reg'') AutohealMode '''' 0)"

definition heal_step :: "hpath \<Rightarrow> vfs \<Rightarrow> string \<Rightarrow> (string \<times> Meta) list \<times> bool \<Rightarrow> (string \<times> Meta) list \<times> bool" where
  "heal_step d v name = (\<lambda>(data, changed).
     if skipped name \<or> map_of data name \<noteq> None then (data, changed)
     else (AList.update name (autoheal d v name) data, True))"

definition reconcile :: "hpath \<Rightarrow> vfs \<Rightarrow> (string \<times> Meta) list \<times> vfs" where
  "reconcile d v0 =
     (let (data0, v) = loadSidecar d v0;
          names = (case os_ReadDir d v of None \<Rightarrow> [] | Some ns \<Rightarrow> ns);
          (data1, ch1) = fold (heal_step d v) names (data0, False);
          (data, changed) = (if map_of data1 ''.'' = None \<and> d = []
             then (AList.update ''.'' (mk_Meta ''dir'' DefaultDirMode '''' 0) data1, True) else (data1, ch1))
      in (data, if changed then snd (saveSidecar d data v) else v))"

section \<open>Metadata\<close>

definition typeFromMode :: "u32 \<Rightarrow> string" where
  "typeFromMode m =
     (if m AND ModeSymlink \<noteq> 0 then ''lnk''
      else if m AND ModeDir \<noteq> 0 then ''dir''
      else if m AND ModeCharDevice \<noteq> 0 then ''chr''
      else if m AND ModeDevice \<noteq> 0 then ''blk''
      else if m AND ModeNamedPipe \<noteq> 0 then ''fifo''
      else if m AND ModeType = 0 then ''reg''
      else ''reg'')"

text \<open>On a host with POSIX metadata; any failure of the call itself is "no such file".\<close>

definition nativeGetMeta :: "string \<Rightarrow> vfs \<Rightarrow> vfs_error + Meta" where
  "nativeGetMeta guestPath v = (case os_Lstat (comps guestPath) v of
       None \<Rightarrow> Inl (VFSError 2)
     | Some n \<Rightarrow>
         (let typ = typeFromMode (ha_mode (hn_attr n)) in
          Inr \<lparr>mt_Type = typ, mt_Mode = uint (ha_mode (hn_attr n) AND 0x1FF), mt_Uid = ha_uid (hn_attr n), mt_Gid = ha_gid (hn_attr n),
               mt_Target = (if typ = ''lnk'' then hn_target n else ''''),
               mt_Rdev = (if typ = ''chr'' \<or> typ = ''blk'' then ha_rdev (hn_attr n) else 0)\<rparr>))"

definition zero_Meta :: Meta where
  "zero_Meta = mk_Meta '''' 0 '''' 0"

definition lookup0 :: "(string \<times> Meta) list \<Rightarrow> string \<Rightarrow> Meta" where
  "lookup0 data name = (case map_of data name of None \<Rightarrow> zero_Meta | Some m \<Rightarrow> m)"

definition GetMeta :: "string \<Rightarrow> (vfs, vfs_error, Meta) sem" where
  "GetMeta path = (\<lambda>v. let guestPath = NormPath path in
     if v_NativePerms v then (nativeGetMeta guestPath v, v)
     else if guestPath = ''/'' then
       (let (data, v1) = loadSidecar [] v in
        if map_of data ''.'' = None then
          (let (data', v2) = loadSidecar [] (snd (ensureRootMeta v1)) in (Inr (lookup0 data' ''.''), v2))
        else (Inr (lookup0 data ''.''), v1))
     else
       (let (parent, name) = splitGuest guestPath; (data, v1) = reconcile (comps parent) v in
        (case map_of data name of None \<Rightarrow> Inl (VFSError 2) | Some m \<Rightarrow> Inr m, v1)))"

definition SetMeta :: "string \<Rightarrow> (Meta \<Rightarrow> Meta) \<Rightarrow> (vfs, vfs_error, unit) sem" where
  "SetMeta path update = (let guestPath = NormPath path in
     if guestPath = ''/'' then
       bindE (loadS []) (\<lambda>data. saveSidecar [] (AList.update ''.'' (update (lookup0 data ''.'')) data))
     else (let (parent, name) = splitGuest guestPath in
       bindE (loadS (comps parent)) (\<lambda>data.
         let m = (case map_of data name of None \<Rightarrow> mk_Meta ''reg'' DefaultFileMode '''' 0 | Some m \<Rightarrow> m)
         in saveSidecar (comps parent) (AList.update name (update m) data))))"

definition register :: "string \<Rightarrow> string \<Rightarrow> int \<Rightarrow> string \<Rightarrow> int \<Rightarrow> (vfs, vfs_error, unit) sem" where
  "register guestPath typ md target rdev =
     (let (parent, name) = splitGuest (NormPath guestPath) in
      bindE (loadS (comps parent)) (\<lambda>data. saveSidecar (comps parent) (AList.update name (mk_Meta typ md target rdev) data)))"

definition unregister :: "string \<Rightarrow> (vfs, vfs_error, unit) sem" where
  "unregister guestPath =
     (let (parent, name) = splitGuest (NormPath guestPath) in
      bindE (loadS (comps parent)) (\<lambda>data. saveSidecar (comps parent) (AList.delete name data)))"

section \<open>Existence and types\<close>

definition Exists :: "string \<Rightarrow> vfs \<Rightarrow> bool \<times> vfs" where
  "Exists guestPath v =
     (if v_NativePerms v then (os_Lstat (comps guestPath) v \<noteq> None, v)
      else let (r, v1) = GetMeta guestPath v in (case r of Inl _ \<Rightarrow> False | Inr _ \<Rightarrow> True, v1))"

definition IsDir :: "string \<Rightarrow> vfs \<Rightarrow> bool \<times> vfs" where
  "IsDir guestPath v =
     (if v_NativePerms v then (host_dir (comps guestPath) v, v)
      else let (r, v1) = GetMeta guestPath v in (case r of Inl _ \<Rightarrow> False | Inr m \<Rightarrow> mt_Type m = ''dir'', v1))"

text \<open>A test with the state it leaves, as a step of a function that may fail.\<close>

definition testS :: "(vfs \<Rightarrow> bool \<times> vfs) \<Rightarrow> (vfs, vfs_error, bool) sem" where
  "testS f = (\<lambda>v. let (b, v1) = f v in (Inr b, v1))"

section \<open>Directories\<close>

definition Mkdir :: "string \<Rightarrow> int \<Rightarrow> (vfs, vfs_error, unit) sem" where
  "Mkdir guestPath md =
     bindE (testS (Exists guestPath)) (\<lambda>ex.
     if ex then fail (VFSError 17)
     else bindE (os_MkdirAll (comps guestPath)) (\<lambda>_.
       bindE (getS v_NativePerms) (\<lambda>native. if native then ret () else register guestPath ''dir'' md '''' 0)))"

primrec makedirs_loop :: "string list \<Rightarrow> string \<Rightarrow> int \<Rightarrow> (vfs, vfs_error, unit) sem" where
  "makedirs_loop [] cur md = ret ()"
| "makedirs_loop (p # ps) cur md =
     (if p = [] then makedirs_loop ps cur md
      else let cur' = cur @ ''/'' @ p in
        bindE (testS (Exists cur')) (\<lambda>ex.
        bindE (if ex then ret () else Mkdir cur' md) (\<lambda>_. makedirs_loop ps cur' md)))"

definition Makedirs :: "string \<Rightarrow> int \<Rightarrow> (vfs, vfs_error, unit) sem" where
  "Makedirs guestPath md = makedirs_loop (split_slash (trimPrefix (NormPath guestPath) ''/'')) '''' md"

definition Listdir :: "string \<Rightarrow> (vfs, vfs_error, string list) sem" where
  "Listdir guestPath =
     bindE (testS (IsDir guestPath)) (\<lambda>isdir.
     if \<not> isdir then fail (VFSError 20)
     else (\<lambda>v.
       if v_NativePerms v then
         (Inr (case os_ReadDir (comps guestPath) v of None \<Rightarrow> [] | Some ns \<Rightarrow> filter (\<lambda>n. \<not> skipped n) ns), v)
       else let (data, v1) = reconcile (comps guestPath) v in (Inr (filter (\<lambda>n. n \<noteq> ''.'') (map fst data)), v1)))"

definition Rmdir :: "string \<Rightarrow> (vfs, vfs_error, unit) sem" where
  "Rmdir guestPath =
     bindE (testS (IsDir guestPath)) (\<lambda>isdir.
     if \<not> isdir then fail (VFSError 20)
     else bindE (Listdir guestPath) (\<lambda>entries.
       if entries \<noteq> [] then fail (VFSError 39)
       else bindE (\<lambda>v. if os_Lstat (comps guestPath) v = None then (Inr (), v) else os_Remove (comps guestPath) v) (\<lambda>_.
         unregister guestPath)))"

section \<open>Files\<close>

definition CreateFile :: "string \<Rightarrow> int \<Rightarrow> (vfs, vfs_error, unit) sem" where
  "CreateFile guestPath md =
     bindE (\<lambda>v. let hp = comps guestPath in
       if os_Stat hp v \<noteq> None then (Inr (), v)
       else bindE (os_MkdirAll (butlast hp)) (\<lambda>_ v1.
         if os_Lstat hp v1 \<noteq> None then (Inr (), v1) else os_WriteFile hp (Raw []) v1) v) (\<lambda>_.
     bindE (getS v_NativePerms) (\<lambda>native. if native then ret () else register guestPath ''reg'' md '''' 0))"

definition Unlink :: "string \<Rightarrow> (vfs, vfs_error, unit) sem" where
  "Unlink guestPath =
     bindE (GetMeta guestPath) (\<lambda>meta.
     if mt_Type meta = ''dir'' then fail (VFSError 21)
     else bindE (modS (\<lambda>v. if mt_Type meta = ''reg'' \<and> os_Stat (comps guestPath) v \<noteq> None
         then snd (os_Remove (comps guestPath) v) else v)) (\<lambda>_.
       unregister guestPath))"

definition typeBits :: "string \<Rightarrow> u32 option" where
  "typeBits = map_of [(''reg'', 0x8000), (''dir'', 0x4000), (''lnk'', 0xA000),
     (''chr'', 0x2000), (''blk'', 0x6000), (''fifo'', 0x1000)]"

record Stat =
  st_Dev :: u64
  st_Ino :: u64
  st_Mode :: u32
  st_Size :: u64
  st_Uid :: u32
  st_Gid :: u32
  st_Mtime :: int
  st_Atime :: int
  st_Ctime :: int
  st_Nlink :: u64
  st_Rdev :: u64

text \<open>
  The 48-bit inode number from the MD5 sum of the normal path. The size of a file is that of its
  bytes; \<open>size_of\<close> gives the length of a JSON file.
\<close>

primrec ino_loop :: "u8 list \<Rightarrow> nat \<Rightarrow> u64" where
  "ino_loop [] i = 0"
| "ino_loop (b # bs) i = push_bit (8 * i) (ucast b) OR ino_loop bs (Suc i)"

definition ino_of :: "(string \<Rightarrow> u8 list) \<Rightarrow> string \<Rightarrow> u64" where
  "ino_of md5 guestPath = (let ino = ino_loop (take 6 (md5 (NormPath guestPath))) 0 in if ino = 0 then 1 else ino)"

definition StatPath :: "(string \<Rightarrow> u8 list) \<Rightarrow> (fcontent \<Rightarrow> nat) \<Rightarrow> string \<Rightarrow> (vfs, vfs_error, Stat) sem" where
  "StatPath md5 size_of guestPath =
     bindE (GetMeta guestPath) (\<lambda>meta v.
       let (size, mtime) = (if mt_Type meta = ''reg'' then
              (case os_Stat (comps guestPath) v of
                 None \<Rightarrow> (0, v_now v div 1000000000)
               | Some n \<Rightarrow> (of_nat (size_of (hn_content n)), ha_mtime (hn_attr n) div 1000000000))
            else if mt_Type meta = ''dir'' then (4096, v_now v div 1000000000)
            else (0, v_now v div 1000000000));
           tb = (case typeBits (mt_Type meta) of None \<Rightarrow> 0x8000 | Some b \<Rightarrow> b)
       in (Inr \<lparr>st_Dev = 1, st_Ino = ino_of md5 guestPath, st_Mode = tb OR (word_of_int (mt_Mode meta) AND 0xFFF),
             st_Size = size, st_Uid = word_of_int (mt_Uid meta), st_Gid = word_of_int (mt_Gid meta), st_Mtime = mtime,
             st_Atime = mtime, st_Ctime = mtime, st_Nlink = (if mt_Type meta = ''dir'' then 2 else 1), st_Rdev = word_of_int (mt_Rdev meta)\<rparr>, v))"

definition Readlink :: "string \<Rightarrow> (vfs, vfs_error, string) sem" where
  "Readlink guestPath =
     bindE (GetMeta guestPath) (\<lambda>meta. if mt_Type meta \<noteq> ''lnk'' then fail (VFSError 22) else ret (mt_Target meta))"

definition Symlink :: "string \<Rightarrow> string \<Rightarrow> (vfs, vfs_error, unit) sem" where
  "Symlink target guestPath = register guestPath ''lnk'' 0x1FF target 0"

definition Mknod :: "string \<Rightarrow> string \<Rightarrow> int \<Rightarrow> int \<Rightarrow> (vfs, vfs_error, unit) sem" where
  "Mknod guestPath typ md rdev = register guestPath typ md '''' rdev"

section \<open>Mounting\<close>

definition devNodes :: "(string \<times> int \<times> int) list" where
  "devNodes = [(''null'', 1, 3), (''zero'', 1, 5), (''full'', 1, 7), (''random'', 1, 8), (''urandom'', 1, 9),
     (''tty'', 5, 0), (''console'', 5, 1), (''ptmx'', 5, 2)]"

text \<open>Go visits the map of device nodes in an order of its own: the argument \<open>nodes\<close>, a permutation of \<open>devNodes\<close>.\<close>

primrec devfs_loop :: "string \<Rightarrow> (string \<times> int \<times> int) list \<Rightarrow> (vfs, vfs_error, unit) sem" where
  "devfs_loop target [] = ret ()"
| "devfs_loop target (nd # nds) = (case nd of (name, major, minor) \<Rightarrow>
     bindE (testS (Exists (target @ ''/'' @ name))) (\<lambda>ex.
     bindE (if ex then ret () else Mknod (target @ ''/'' @ name) ''chr'' 0x1B6 (or (256 * major) minor)) (\<lambda>_.
     devfs_loop target nds)))"

definition EnsureDevfs :: "(string \<times> int \<times> int) list \<Rightarrow> string \<Rightarrow> (vfs, vfs_error, unit) sem" where
  "EnsureDevfs nodes target0 = (let t1 = trimSuffix target0 ''/''; target = (if t1 = [] then ''/'' else t1) in
     bindE (testS (IsDir target)) (\<lambda>isdir.
     bindE (if isdir then ret () else Makedirs target DefaultDirMode) (\<lambda>_. devfs_loop target nodes)))"

definition Mount :: "(string \<times> int \<times> int) list \<Rightarrow> (string \<Rightarrow> string) \<Rightarrow> string \<Rightarrow> string \<Rightarrow> string \<Rightarrow> int \<Rightarrow> string \<Rightarrow> (vfs, vfs_error, unit) sem" where
  "Mount nodes toLower source target0 fstype0 flags data = (let target = NormPath target0; fstype = toLower fstype0 in
     bindE (testS (IsDir target)) (\<lambda>isdir.
     bindE (if isdir then ret () else Makedirs target DefaultDirMode) (\<lambda>_.
     bindE (if fstype = ''devtmpfs'' then EnsureDevfs nodes target else ret ()) (\<lambda>_.
     bindE (modS refreshMounts) (\<lambda>_.
     bindE (modS (\<lambda>v. v\<lparr>v_mounts := AList.update target
         \<lparr>mi_Source = (if source = [] then ''none'' else source), mi_Fstype = fstype, mi_Flags = flags, mi_Data = data\<rparr> (v_mounts v)\<rparr>)) (\<lambda>_.
     persistMounts))))))"

definition Umount :: "string \<Rightarrow> (vfs, vfs_error, unit) sem" where
  "Umount target0 = (let target = NormPath target0 in
     bindE (modS refreshMounts) (\<lambda>_.
     bindE (getS v_mounts) (\<lambda>m.
     if map_of m target = None then fail (VFSError 22)
     else bindE (modS (\<lambda>v. v\<lparr>v_mounts := AList.delete target (v_mounts v)\<rparr>)) (\<lambda>_. persistMounts))))"

definition covers_path :: "string \<Rightarrow> string \<Rightarrow> bool" where
  "covers_path mp guestPath \<longleftrightarrow> guestPath = mp \<or> hasPrefix guestPath (trimSuffix mp ''/'' @ ''/'')"

text \<open>The loop over the mount table, in the order of the list: the best mount point so far and its length.\<close>

definition best_step :: "string \<Rightarrow> string \<times> MountInfo \<Rightarrow> (string \<times> string) \<times> int \<Rightarrow> (string \<times> string) \<times> int" where
  "best_step guestPath = (\<lambda>(mp, info) (best, bestLen).
     if covers_path mp guestPath \<and> bestLen < int (length mp) then ((mp, mi_Fstype info), int (length mp)) else (best, bestLen))"

definition best_mount :: "string \<Rightarrow> (string \<times> MountInfo) list \<Rightarrow> (string \<times> string) \<times> int" where
  "best_mount guestPath mounts = fold (best_step guestPath) mounts (('''', ''''), -1)"

definition MountType :: "string \<Rightarrow> vfs \<Rightarrow> string \<times> vfs" where
  "MountType guestPath v0 = (let v = refreshMounts v0 in (snd (fst (best_mount (NormPath guestPath) (v_mounts v))), v))"

definition MountPointFor :: "string \<Rightarrow> vfs \<Rightarrow> string \<times> vfs" where
  "MountPointFor guestPath v0 = (let v = refreshMounts v0 in (fst (fst (best_mount (NormPath guestPath) (v_mounts v))), v))"

definition MountsList :: "vfs \<Rightarrow> (string \<times> MountInfo) list \<times> vfs" where
  "MountsList v0 = (let v = refreshMounts v0 in (v_mounts v, v))"

section \<open>Renaming, linking, importing\<close>

definition Rename :: "string \<Rightarrow> string \<Rightarrow> (vfs, vfs_error, unit) sem" where
  "Rename oldPath newPath =
     bindE (GetMeta oldPath) (\<lambda>meta.
     bindE (\<lambda>v. let oh = comps oldPath; nh = comps newPath in
       if (mt_Type meta = ''reg'' \<or> mt_Type meta = ''dir'') \<and> os_Stat oh v \<noteq> None
       then bindE (os_MkdirAll (butlast nh)) (\<lambda>_. os_Rename oh nh) v
       else (Inr (), v)) (\<lambda>_.
     bindE (register newPath (mt_Type meta) (mt_Mode meta) (mt_Target meta) (mt_Rdev meta)) (\<lambda>_.
     unregister oldPath)))"

definition Link :: "string \<Rightarrow> string \<Rightarrow> (vfs, vfs_error, unit) sem" where
  "Link oldPath newPath =
     bindE (testS (Exists oldPath)) (\<lambda>ex1.
     if \<not> ex1 then fail (VFSError 2)
     else bindE (testS (Exists newPath)) (\<lambda>ex2.
       if ex2 then fail (VFSError 17)
       else bindE (GetMeta oldPath) (\<lambda>meta.
         if mt_Type meta = ''dir'' then fail (VFSError 1)
         else bindE (if mt_Type meta = ''reg''
             then bindE (os_MkdirAll (butlast (comps newPath))) (\<lambda>_. copyFile (comps oldPath) (comps newPath))
             else ret ()) (\<lambda>_.
           register newPath (mt_Type meta) (mt_Mode meta) (mt_Target meta) (mt_Rdev meta)))))"

text \<open>The source is a file of the host outside the root, given by its node.\<close>

definition ImportHostFile :: "hnode option \<Rightarrow> string \<Rightarrow> int \<Rightarrow> (vfs, vfs_error, unit) sem" where
  "ImportHostFile src guestDst md =
     bindE (os_MkdirAll (butlast (comps guestDst))) (\<lambda>_.
     bindE (copy_into src (comps guestDst)) (\<lambda>_. register guestDst ''reg'' md '''' 0))"

text \<open>The random part of the temporary name is an argument; the result is its host path.\<close>

definition CreateTmpFile :: "string \<Rightarrow> string \<Rightarrow> int \<Rightarrow> (vfs, vfs_error, hpath) sem" where
  "CreateTmpFile rnd guestDir md = (\<lambda>v. let d = comps guestDir; p = d @ [''.tmpfile-'' @ rnd] in
     if \<not> host_dir d v then (Inl (VFSError 20), v)
     else let n = new_file (Raw []) v;
              n1 = (if md = 0 then HNode ((hn_attr n)\<lparr>ha_mode := 0x180\<rparr>) (Raw []) '''' None
                    else HNode ((hn_attr n)\<lparr>ha_mode := word_of_int md AND 0xFFF\<rparr>) (Raw []) '''' None)
       in (Inr p, set_node p n1 v))"

definition LinkTmpFile :: "hpath \<Rightarrow> string \<Rightarrow> int \<Rightarrow> (vfs, vfs_error, unit) sem" where
  "LinkTmpFile hostTmp guestDst md =
     bindE (testS (Exists guestDst)) (\<lambda>ex.
     if ex then fail (VFSError 17)
     else bindE (\<lambda>v. ImportHostFile (os_Stat hostTmp v) guestDst md v) (\<lambda>_.
       modS (\<lambda>v. snd (os_Remove hostTmp v))))"

text \<open>A tree of the host to import: directories by their entries, files by their node.\<close>

datatype host_tree = TDir "(string \<times> host_tree) list" | TFile hnode

definition isExecutable :: "hnode \<Rightarrow> bool" where
  "isExecutable n \<longleftrightarrow> ha_mode (hn_attr n) AND 0x49 \<noteq> 0"

fun ImportHostTree :: "host_tree \<Rightarrow> string \<Rightarrow> (vfs, vfs_error, unit) sem"
  and import_entries :: "(string \<times> host_tree) list \<Rightarrow> string \<Rightarrow> (vfs, vfs_error, unit) sem" where
  "ImportHostTree (TFile n) guestDstDir = bindE (Makedirs guestDstDir DefaultDirMode) (\<lambda>_. fail HostError)"
| "ImportHostTree (TDir es) guestDstDir = bindE (Makedirs guestDstDir DefaultDirMode) (\<lambda>_. import_entries es guestDstDir)"
| "import_entries [] guestDstDir = ret ()"
| "import_entries ((name, t) # es) guestDstDir =
     (if name = Sidecar \<or> name = LegacySidecar then import_entries es guestDstDir
      else let d = trimSuffix guestDstDir ''/'' @ ''/'' @ name in
        bindE (case t of
            TDir es' \<Rightarrow> ImportHostTree (TDir es') d
          | TFile n \<Rightarrow> ImportHostFile (Some n) d (if isExecutable n then 0x1ED else 0x1A4)) (\<lambda>_.
        import_entries es guestDstDir))"

text \<open>\<open>New\<close> on a host tree.\<close>

definition VfsNew :: "bool \<Rightarrow> vfs \<Rightarrow> (vfs_error + unit) \<times> vfs" where
  "VfsNew nativePerms host =
     (let v = host\<lparr>v_NativePerms := nativePerms, v_mounts := [], v_mountsMTime := -1\<rparr> in
      bindE (os_MkdirAll []) (\<lambda>_.
      bindE (if nativePerms then ret () else ensureRootMeta) (\<lambda>_. modS refreshMounts)) v)"

end
