(* ===== verification/Vfs_Laws.thy ===== *)
theory Vfs_Laws
  imports Vfs
begin

unbundle bit_operations_syntax

text \<open>
  The VFS refines one flat map from guest paths to metadata: \<open>meta_view\<close> reads it off the sidecar
  files and the host tree, every operation of the metadata layer is the corresponding operation of
  the map, and reading, which heals and rewrites sidecars, leaves the map as it is.
\<close>

section \<open>Well-formed trees and the view\<close>

abbreviation lstat :: "vfs \<Rightarrow> hpath \<Rightarrow> hnode option" where "lstat v p \<equiv> os_Lstat p v"

definition reserved :: "string \<Rightarrow> bool" where
  "reserved n \<longleftrightarrow> n = Sidecar \<or> n = Sidecar @ ''.tmp'' \<or> n = LegacySidecar"

text \<open>
  A tree golinux has set up: the root is a directory, whatever has something below it is one, there
  are no host links, no directory has the name of a sidecar, no legacy sidecar is left, no name is a dot,
  and every name is valid UTF-8.
\<close>

definition vfs_wf :: "vfs \<Rightarrow> bool" where
  "vfs_wf v \<longleftrightarrow> \<not> v_NativePerms v \<and>
     (\<exists>n. lstat v [] = Some n \<and> is_dir n) \<and>
     (\<forall>d c n. lstat v (d @ [c]) = Some n \<longrightarrow> (\<exists>m. lstat v d = Some m \<and> is_dir m)) \<and>
     (\<forall>p n. lstat v p = Some n \<longrightarrow> \<not> is_link n) \<and>
     (\<forall>d c n. lstat v (d @ [c]) = Some n \<longrightarrow> reserved c \<longrightarrow> \<not> is_dir n) \<and>
     (\<forall>d. lstat v (d @ [LegacySidecar]) = None \<and> lstat v (d @ [''.'']) = None) \<and>
     (\<forall>d c n. lstat v (d @ [c]) = Some n \<longrightarrow> utf8_valid c)"

lemma vfs_wfD:
  assumes "vfs_wf v"
  shows "\<not> v_NativePerms v" "\<exists>n. lstat v [] = Some n \<and> is_dir n"
    "lstat v (d @ [c]) = Some n \<Longrightarrow> \<exists>m. lstat v d = Some m \<and> is_dir m"
    "lstat v p = Some n \<Longrightarrow> \<not> is_link n"
    "lstat v (d @ [c]) = Some n \<Longrightarrow> reserved c \<Longrightarrow> \<not> is_dir n"
    "lstat v (d @ [LegacySidecar]) = None" "lstat v (d @ [''.'']) = None"
    "lstat v (d @ [c]) = Some n \<Longrightarrow> utf8_valid c"
  using assms unfolding vfs_wf_def by blast+

lemma reserved_names [simp]: "reserved Sidecar" "reserved (Sidecar @ ''.tmp'')" "reserved LegacySidecar"
  by (simp_all add: reserved_def)

definition side :: "vfs \<Rightarrow> hpath \<Rightarrow> (string \<times> Meta) list" where
  "side v d = (case lstat v (d @ [Sidecar]) of
       None \<Rightarrow> []
     | Some n \<Rightarrow> (case unmarshalMeta v (hn_content n) of None \<Rightarrow> [] | Some m \<Rightarrow> m))"

text \<open>Metadata whose strings are valid UTF-8, which JSON leaves as they are.\<close>

definition meta_valid :: "Meta \<Rightarrow> bool" where
  "meta_valid m \<longleftrightarrow> utf8_valid (mt_Type m) \<and> utf8_valid (mt_Target m)"

lemma meta_valid_json: "meta_valid m \<longleftrightarrow> json_Meta m = m"
  by (cases m) (simp add: meta_valid_def json_Meta_def utf8_valid_def)

lemma mk_Meta_valid [simp]: "meta_valid (mk_Meta t md g r) \<longleftrightarrow> utf8_valid t \<and> utf8_valid g"
  by (simp add: meta_valid_def mk_Meta_def)

lemma valid_names [simp]: "utf8_valid Sidecar" "utf8_valid (Sidecar @ ''.tmp'')" "utf8_valid ''.''" "utf8_valid ''dir''"
    "utf8_valid ''reg''" "utf8_valid ''lnk''" "utf8_valid []" "utf8_valid ''.golinux_meta''"
  by (rule utf8_valid_ascii; simp add: Sidecar_def)+

abbreviation side_valid :: "(string \<times> Meta) list \<Rightarrow> bool" where
  "side_valid \<equiv> json_fixed json_Meta"

lemma side_valid_side [simp]: "side_valid (side v d)"
  by (auto simp: side_def unmarshalMeta_def json_Meta_def utf8_coerce_idem intro!: json_fixed_map
      split: option.splits fcontent.splits)

lemma update_in: "x \<in> set (AList.update k m data) \<Longrightarrow> x = (k, m) \<or> x \<in> set data"
  by (induction data) (auto split: if_splits)

lemma side_valid_update: "side_valid data \<Longrightarrow> utf8_valid k \<Longrightarrow> meta_valid m \<Longrightarrow> side_valid (AList.update k m data)"
  using update_in [of _ k m data] by (auto simp: json_fixed_def meta_valid_json)

text \<open>One more entry, with a name that JSON keeps: its value alone is changed.\<close>

lemma json_map_update:
  assumes "side_valid data" "utf8_valid k"
  shows "json_map json_Meta (AList.update k m data) = AList.update k (json_Meta m) data"
proof -
  have "map (\<lambda>(k, m). (k, json_Meta m)) (AList.update k m data) = AList.update k (json_Meta m) data"
    using assms(1) by (induction data) (auto simp: json_fixed_def intro!: map_idI)
  moreover have "utf8_valid j" if "(j, x) \<in> set (AList.update k m data)" for j x
    using update_in [OF that] assms by (auto simp: json_fixed_def)
  ultimately show ?thesis using json_map_keys [of "AList.update k m data" json_Meta] by simp
qed

lemma side_valid_delete: "side_valid data \<Longrightarrow> side_valid (AList.delete k data)"
  by (induction data) (auto simp: json_fixed_def)

definition healed :: "vfs \<Rightarrow> hpath \<Rightarrow> string \<Rightarrow> Meta option" where
  "healed v d n = (if skipped n \<or> lstat v (d @ [n]) = None then None else Some (autoheal d v n))"

definition entry_view :: "vfs \<Rightarrow> hpath \<Rightarrow> string \<Rightarrow> Meta option" where
  "entry_view v d n = (case map_of (side v d) n of Some m \<Rightarrow> Some m | None \<Rightarrow> healed v d n)"

definition meta_view :: "vfs \<Rightarrow> hpath \<Rightarrow> Meta option" where
  "meta_view v p =
     (if \<not> list_all plain p then None
      else if p = [] then Some (case map_of (side v []) ''.'' of None \<Rightarrow> mk_Meta ''dir'' DefaultDirMode '''' 0 | Some m \<Rightarrow> m)
      else entry_view v (butlast p) (last p))"

text \<open>What a read may change: the sidecars, not what they mean.\<close>

definition same_view :: "vfs \<Rightarrow> vfs \<Rightarrow> bool" where
  "same_view v v' \<longleftrightarrow> vfs_wf v' \<and> meta_view v' = meta_view v \<and> (\<forall>d n. n \<noteq> ''.'' \<longrightarrow> entry_view v' d n = entry_view v d n) \<and>
     (\<forall>d. lstat v (d @ [Sidecar]) \<noteq> None \<longrightarrow> lstat v' (d @ [Sidecar]) \<noteq> None) \<and>
     (\<forall>d c. \<not> reserved c \<longrightarrow> lstat v' (d @ [c]) = lstat v (d @ [c])) \<and> lstat v' [] = lstat v [] \<and>
     v_mounts v' = v_mounts v \<and> v_now v' = v_now v"

text \<open>
  The sidecar files of the directories \<open>D\<close>, and the host tree as it is but for them: what reading and
  writing metadata may touch on the host.
\<close>

definition sidecar_file :: "hpath set \<Rightarrow> hpath \<Rightarrow> bool" where
  "sidecar_file D q \<longleftrightarrow> (\<exists>d \<in> D. \<exists>c. reserved c \<and> q = d @ [c])"

definition only_sidecars :: "hpath set \<Rightarrow> vfs \<Rightarrow> vfs \<Rightarrow> bool" where
  "only_sidecars D v v' \<longleftrightarrow> (\<forall>q. \<not> sidecar_file D q \<longrightarrow> lstat v' q = lstat v q)"

lemma only_sidecarsI:
  assumes "\<And>d c. \<not> reserved c \<Longrightarrow> lstat v' (d @ [c]) = lstat v (d @ [c])" "lstat v' [] = lstat v []"
    "\<And>q. butlast q \<noteq> d \<Longrightarrow> lstat v' q = lstat v q"
  shows "only_sidecars {d} v v'"
  unfolding only_sidecars_def
proof (intro allI impI)
  fix q assume q: "\<not> sidecar_file {d} q"
  show "lstat v' q = lstat v q"
  proof (cases q rule: rev_cases)
    case (snoc e c)
    then have "e \<noteq> d \<or> \<not> reserved c" using q by (auto simp: sidecar_file_def)
    then show ?thesis using assms(1) assms(3) [of q] snoc by auto
  qed (use assms(2) in simp)
qed

lemma reserved_skipped: "reserved n \<Longrightarrow> skipped n"
  by (auto simp: reserved_def skipped_def hasSuffix_def hasPrefix_def Sidecar_def)

lemma os_Stat_wf: "vfs_wf v \<Longrightarrow> os_Stat p v = lstat v p"
  by (auto simp: os_Stat_def split: option.splits dest: vfs_wfD(4))

lemma host_dir_wf: "vfs_wf v \<Longrightarrow> host_dir p v \<longleftrightarrow> (\<exists>n. lstat v p = Some n \<and> is_dir n)"
  by (auto simp: host_dir_def os_Stat_wf split: option.splits)

lemma host_dir_parent: "vfs_wf v \<Longrightarrow> lstat v (d @ [c]) = Some n \<Longrightarrow> host_dir d v"
  using vfs_wfD(3) by (auto simp: host_dir_wf)

lemma lstat_set: "lstat (set_node p n v) q = (if q = p then Some n else lstat v q)"
  by (simp add: os_Lstat_def set_node_def update_conv')

lemma lstat_del: "lstat (del_node p v) q = (if q = p then None else lstat v q)"
  by (simp add: os_Lstat_def del_node_def delete_conv')

lemma node_fields [simp]:
  "v_NativePerms (set_node p n v) = v_NativePerms v" "v_NativePerms (del_node p v) = v_NativePerms v"
  "v_parseMeta (set_node p n v) = v_parseMeta v" "v_parseMeta (del_node p v) = v_parseMeta v"
  "v_mounts (set_node p n v) = v_mounts v" "v_mounts (del_node p v) = v_mounts v"
  "v_now (set_node p n v) = v_now v" "v_now (del_node p v) = v_now v"
  by (simp_all add: set_node_def del_node_def)

lemma new_dir_simps [simp]: "is_dir (new_dir v)" "\<not> is_link (new_dir v)"
  by (simp_all add: new_dir_def is_dir_def is_link_def mode_defs)

lemma new_file_simps [simp]: "\<not> is_dir (new_file c v)" "\<not> is_link (new_file c v)" "hn_content (new_file c v) = c"
  by (simp_all add: new_file_def is_dir_def is_link_def mode_defs)

lemma touched_node [simp]:
  "is_dir (HNode ((hn_attr k)\<lparr>ha_mtime := t\<rparr>) c g f) = is_dir k" "is_link (HNode ((hn_attr k)\<lparr>ha_mtime := t\<rparr>) c g f) = is_link k"
  by (simp_all add: is_dir_def is_link_def)

lemma loadSidecar_wf: "vfs_wf v \<Longrightarrow> loadSidecar d v = (side v d, v)"
proof -
  assume wf: "vfs_wf v"
  then have "lstat v (d @ [LegacySidecar]) = None" "\<And>n. lstat v (d @ [Sidecar]) = Some n \<Longrightarrow> \<not> is_dir n"
    using vfs_wfD(5,6) by auto
  then show ?thesis
    using wf by (auto simp: loadSidecar_def migrateLegacySidecar_def legacySidecarPath_def sidecarPath_def os_Stat_wf
        os_ReadFile_def side_def Let_def split: option.splits)
qed

lemma loadS_wf: "vfs_wf v \<Longrightarrow> loadS d v = (Inr (side v d), v)"
  by (simp add: loadS_def loadSidecar_wf)

section \<open>Saving a sidecar\<close>

lemma saveSidecar_ok:
  assumes wf: "vfs_wf v" and d: "host_dir d v"
  shows "\<exists>v' n. saveSidecar d data v = (Inr (), v') \<and> vfs_wf v' \<and> hn_content n = MetaJson data \<and>
    (\<forall>q. lstat v' q = (if q = d @ [Sidecar] then Some n else if q = d @ [Sidecar @ ''.tmp''] then None else lstat v q)) \<and>
    v_parseMeta v' = v_parseMeta v \<and> v_mounts v' = v_mounts v \<and> v_now v' = v_now v"
proof -
  let ?t = "d @ [Sidecar @ ''.tmp'']" and ?s = "d @ [Sidecar]"
  have ne: "?s \<noteq> ?t" by simp
  have nodir: "\<not> is_dir k \<and> \<not> is_link k" if "lstat v ?s = Some k \<or> lstat v ?t = Some k" for k
    using that vfs_wfD(4,5) [OF wf] by auto
  obtain n where n: "os_WriteFile ?t (MetaJson data) v = (Inr (), set_node ?t n v)" "\<not> is_dir n" "\<not> is_link n" "hn_content n = MetaJson data"
  proof (cases "lstat v ?t")
    case None
    then show ?thesis using that [of "new_file (MetaJson data) v"] d by (simp add: os_WriteFile_def)
  next
    case (Some k)
    then show ?thesis
      using that [of "HNode ((hn_attr k)\<lparr>ha_mtime := v_now v\<rparr>) (MetaJson data) (hn_target k) (hn_follow k)"] nodir d
      by (simp add: os_WriteFile_def)
  qed
  define v1 where "v1 = set_node ?t n v"
  have d1: "host_dir d v1"
    using d by (auto simp: v1_def host_dir_def os_Stat_def lstat_set split: option.splits if_splits)
  have s1: "lstat v1 ?s = lstat v ?s" by (simp add: v1_def lstat_set)
  have "os_Rename ?t ?s v1 = (Inr (), set_node ?s n (del_node ?t v1))"
    using d1 nodir n(2) s1 by (auto simp: os_Rename_def v1_def lstat_set split: option.splits)
  then have save: "saveSidecar d data v = (Inr (), set_node ?s n (del_node ?t v1))"
    using n(1) by (simp add: saveSidecar_def sidecarPath_def v1_def)
  have look: "lstat (set_node ?s n (del_node ?t v1)) q = (if q = ?s then Some n else if q = ?t then None else lstat v q)" for q
    by (simp add: lstat_set lstat_del v1_def)
  have "vfs_wf (set_node ?s n (del_node ?t v1))"
    unfolding vfs_wf_def look
  proof (intro conjI allI impI)
    fix d' c k assume "(if d' @ [c] = ?s then Some n else if d' @ [c] = ?t then None else lstat v (d' @ [c])) = Some k"
    then have "\<exists>m. lstat v d' = Some m \<and> is_dir m" "reserved c \<Longrightarrow> \<not> is_dir k"
      using vfs_wfD(3,5) [OF wf] d n(2) by (auto simp: host_dir_wf [OF wf] split: if_splits)
    moreover from this have "d' \<noteq> ?s" "d' \<noteq> ?t" using nodir by auto
    ultimately show "\<exists>m. (if d' = ?s then Some n else if d' = ?t then None else lstat v d') = Some m \<and> is_dir m" by simp
    show "\<not> is_dir k" if "reserved c" using that \<open>reserved c \<Longrightarrow> \<not> is_dir k\<close> by blast
  next
    show "\<not> v_NativePerms (set_node ?s n (del_node ?t v1))" using vfs_wfD(1) [OF wf] by (simp add: v1_def)
  qed (use vfs_wfD [OF wf] n(3) in \<open>auto simp: Sidecar_def LegacySidecar_def split: if_splits\<close>)
  with save look n(4) show ?thesis by (intro exI [of _ "set_node ?s n (del_node ?t v1)"] exI [of _ n]) (simp add: v1_def)
qed

lemma saveSidecar_no_dir: "\<not> host_dir d v \<Longrightarrow> saveSidecar d data v = (Inl HostError, v)"
  by (simp add: saveSidecar_def os_WriteFile_def bindE_def)

text \<open>The state after saving \<open>data\<close> for \<open>d\<close>: everything but two reserved names is as it was.\<close>

definition saved :: "hpath \<Rightarrow> (string \<times> Meta) list \<Rightarrow> vfs \<Rightarrow> vfs \<Rightarrow> bool" where
  "saved d data v v' \<longleftrightarrow> vfs_wf v' \<and> (\<forall>d'. side v' d' = (if d' = d then data else side v d')) \<and>
     (\<forall>d' c. \<not> reserved c \<longrightarrow> lstat v' (d' @ [c]) = lstat v (d' @ [c])) \<and> lstat v' [] = lstat v [] \<and>
     (\<forall>q. butlast q \<noteq> d \<longrightarrow> lstat v' q = lstat v q) \<and>
     lstat v' (d @ [Sidecar]) \<noteq> None \<and> v_mounts v' = v_mounts v \<and> v_now v' = v_now v"

lemma saveSidecar_saved:
  assumes "vfs_wf v" "host_dir d v"
  shows "\<exists>v'. saveSidecar d data v = (Inr (), v') \<and> saved d (json_map json_Meta data) v v'"
proof -
  obtain v' n where s: "saveSidecar d data v = (Inr (), v')" "vfs_wf v'" "hn_content n = MetaJson data"
      "\<And>q. lstat v' q = (if q = d @ [Sidecar] then Some n else if q = d @ [Sidecar @ ''.tmp''] then None else lstat v q)"
      "v_parseMeta v' = v_parseMeta v" "v_mounts v' = v_mounts v" "v_now v' = v_now v"
    using saveSidecar_ok [OF assms(1,2), of data] by blast
  have "saved d (json_map json_Meta data) v v'"
    using s by (auto simp: saved_def side_def unmarshalMeta_def reserved_def split: option.splits fcontent.splits)
  with s(1) show ?thesis by blast
qed

lemma saveSidecar_valid:
  assumes "vfs_wf v" "host_dir d v" "side_valid data"
  shows "\<exists>v'. saveSidecar d data v = (Inr (), v') \<and> saved d data v v'"
  using saveSidecar_saved [OF assms(1,2), of data] json_map_fixed [OF assms(3)] by simp

lemma saved_autoheal: "saved d data v v' \<Longrightarrow> \<not> skipped n \<Longrightarrow> autoheal d' v' n = autoheal d' v n"
  using reserved_skipped [of n] by (simp add: saved_def autoheal_def) (metis (no_types, lifting))

lemma saved_healed: "saved d data v v' \<Longrightarrow> healed v' d' n = healed v d' n"
proof -
  assume s: "saved d data v v'"
  show ?thesis
  proof (cases "skipped n")
    case False
    then have "lstat v' (d' @ [n]) = lstat v (d' @ [n])" using s reserved_skipped by (auto simp: saved_def)
    then show ?thesis by (simp add: healed_def saved_autoheal [OF s False])
  qed (simp add: healed_def)
qed

lemma saved_entry:
  "saved d data v v' \<Longrightarrow> entry_view v' d' n =
     (if d' = d then (case map_of data n of Some m \<Rightarrow> Some m | None \<Rightarrow> healed v d n) else entry_view v d' n)"
  unfolding entry_view_def saved_healed by (cases "d' = d") (auto simp: saved_def)

lemma same_view_refl: "vfs_wf v \<Longrightarrow> same_view v v"
  by (simp add: same_view_def)

lemma saved_same_view:
  assumes s: "saved d data v v'" and e: "\<And>n. n \<noteq> ''.'' \<Longrightarrow> map_of data n = entry_view v d n \<or> map_of data n = map_of (side v d) n"
    and r: "d = [] \<Longrightarrow> map_of data ''.'' = meta_view v []"
  shows "same_view v v'"
proof -
  have ev: "entry_view v' d' n = entry_view v d' n" if "n \<noteq> ''.''" for d' n
    using e [OF that] unfolding saved_entry [OF s] by (cases "d' = d") (auto simp: entry_view_def split: option.split)
  have "meta_view v' p = meta_view v p" for p
  proof (cases "list_all plain p \<and> p \<noteq> []")
    case True
    then have n: "last p \<noteq> ''.''" by (auto simp: list_all_iff plain_def dest: last_in_set)
    then show ?thesis using True ev by (simp add: meta_view_def)
  next
    case False
    then show ?thesis using s r by (auto simp: meta_view_def saved_def split: option.splits)
  qed
  moreover have "lstat v' (d' @ [Sidecar]) \<noteq> None" if "lstat v (d' @ [Sidecar]) \<noteq> None" for d'
    using that s by (cases "d' = d") (auto simp: saved_def)
  ultimately show ?thesis using s ev by (auto simp: same_view_def saved_def)
qed

section \<open>Healing\<close>

lemma heal_fold:
  "\<exists>data' ch'. fold (heal_step d v) names (data, ch) = (data', ch') \<and>
     (\<forall>n. map_of data' n = (case map_of data n of Some m \<Rightarrow> Some m
        | None \<Rightarrow> if n \<in> set names \<and> \<not> skipped n then Some (autoheal d v n) else None)) \<and>
     (ch' \<or> data' = data \<and> ch' = ch)"
proof (induction names arbitrary: data ch)
  case Nil
  then show ?case by (auto split: option.splits)
next
  case (Cons x names)
  show ?case
  proof (cases "skipped x \<or> map_of data x \<noteq> None")
    case True
    then have e: "fold (heal_step d v) (x # names) (data, ch) = fold (heal_step d v) names (data, ch)" by (simp add: heal_step_def)
    show ?thesis unfolding e using Cons.IH [of data ch] True by (elim exE conjE) (auto split: option.splits)
  next
    case False
    then have e: "fold (heal_step d v) (x # names) (data, ch) = fold (heal_step d v) names (AList.update x (autoheal d v x) data, True)"
      by (simp add: heal_step_def)
    show ?thesis unfolding e
      using Cons.IH [of "AList.update x (autoheal d v x) data" True] False
      by (elim exE conjE) (auto simp: update_conv' split: option.splits)
  qed
qed

lemma autoheal_valid: "vfs_wf v \<Longrightarrow> meta_valid (autoheal d v n)"
  using vfs_wfD(4) [of v "d @ [n]"] by (auto simp: autoheal_def split: option.split)

lemma heal_valid:
  "vfs_wf v \<Longrightarrow> list_all utf8_valid names \<Longrightarrow> side_valid data \<Longrightarrow> side_valid (fst (fold (heal_step d v) names (data, ch)))"
proof (induction names arbitrary: data ch)
  case (Cons x names)
  obtain data1 ch1 where h: "heal_step d v x (data, ch) = (data1, ch1)" by fastforce
  have "side_valid data1"
    using h Cons.prems side_valid_update autoheal_valid by (auto simp: heal_step_def split: if_splits)
  then show ?case using Cons.IH [of data1 ch1] Cons.prems h by simp
qed simp

lemma names_of_dir:
  "n \<in> set (map last (filter (\<lambda>q. q \<noteq> [] \<and> butlast q = d) qs)) \<longleftrightarrow> d @ [n] \<in> set qs"
proof (induction qs)
  case (Cons q qs)
  then show ?case by (cases q rule: rev_cases) auto
qed simp

lemma ReadDir_names: "os_ReadDir d v = Some ns \<Longrightarrow> n \<in> set ns \<longleftrightarrow> lstat v (d @ [n]) \<noteq> None"
proof -
  assume "os_ReadDir d v = Some ns"
  then have "ns = map last (filter (\<lambda>q. q \<noteq> [] \<and> butlast q = d) (map fst (v_tree v)))" by (simp add: os_ReadDir_def split: if_splits)
  then have "n \<in> set ns \<longleftrightarrow> d @ [n] \<in> set (map fst (v_tree v))" by (simp only: names_of_dir)
  then show ?thesis by (simp add: os_Lstat_def map_of_eq_None_iff)
qed

lemma reconcile_spec:
  assumes wf: "vfs_wf v"
  shows "\<exists>data v'. reconcile d v = (data, v') \<and> same_view v v' \<and> (\<forall>q. butlast q \<noteq> d \<longrightarrow> lstat v' q = lstat v q) \<and> (\<forall>n. n \<noteq> ''.'' \<longrightarrow> map_of data n = entry_view v d n)"
proof -
  define names where "names = (case os_ReadDir d v of None \<Rightarrow> [] | Some ns \<Rightarrow> ns)"
  obtain data1 ch1 where f: "fold (heal_step d v) names (side v d, False) = (data1, ch1)"
      "\<And>n. map_of data1 n = (case map_of (side v d) n of Some m \<Rightarrow> Some m
        | None \<Rightarrow> if n \<in> set names \<and> \<not> skipped n then Some (autoheal d v n) else None)" "ch1 \<or> data1 = side v d"
    using heal_fold [of d v names "side v d" False] by blast
  have nm: "n \<in> set names \<longleftrightarrow> lstat v (d @ [n]) \<noteq> None" for n
  proof (cases "os_ReadDir d v")
    case None
    then have "\<not> host_dir d v" by (simp add: os_ReadDir_def split: if_splits)
    then have "lstat v (d @ [n]) = None" using host_dir_parent [OF wf] by (metis option.exhaust)
    then show ?thesis using None by (simp add: names_def)
  next
    case (Some ns)
    then show ?thesis using ReadDir_names by (simp add: names_def)
  qed
  have v1: "map_of data1 n = entry_view v d n" for n by (simp add: f(2) nm entry_view_def healed_def split: option.split)
  obtain data ch where dc: "(if map_of data1 ''.'' = None \<and> d = [] then (AList.update ''.'' (mk_Meta ''dir'' DefaultDirMode '''' 0) data1, True) else (data1, ch1)) = (data, ch)"
    by fastforce
  have "list_all utf8_valid names" using nm vfs_wfD(8) [OF wf, of d] by (auto simp: list_all_iff)
  then have "side_valid data1" using heal_valid [OF wf, of names "side v d" d False] f(1) by simp
  then have dv: "side_valid data" using dc side_valid_update by (auto split: if_splits)
  have r: "reconcile d v = (data, if ch then snd (saveSidecar d data v) else v)"
    using f(1) dc by (simp add: reconcile_def loadSidecar_wf [OF wf] names_def)
  have data: "map_of data n = entry_view v d n" if "n \<noteq> ''.''" for n
    using dc v1 [of n] that by (auto simp: update_conv' split: if_splits)
  have root: "map_of data ''.'' = meta_view v []" if "d = []"
    using dc that v1 [of "''.''"] vfs_wfD(7) [OF wf, of d]
    by (auto simp: update_conv' meta_view_def entry_view_def healed_def split: if_splits option.splits)
  have "same_view v (if ch then snd (saveSidecar d data v) else v) \<and>
      (\<forall>q. butlast q \<noteq> d \<longrightarrow> lstat (if ch then snd (saveSidecar d data v) else v) q = lstat v q)"
  proof (cases "ch \<and> host_dir d v")
    case True
    then obtain v' where s: "saveSidecar d data v = (Inr (), v')" "saved d data v v'"
      using saveSidecar_valid [OF wf _ dv] by blast
    have "same_view v v'" by (rule saved_same_view [OF s(2)]) (use data root in blast)+
    then show ?thesis using True s by (simp add: saved_def)
  next
    case False
    then show ?thesis using wf by (auto simp: saveSidecar_no_dir same_view_refl)
  qed
  with r data show ?thesis by blast
qed

section \<open>Reading\<close>

lemma guest_root_iff: "NormPath g = ''/'' \<longleftrightarrow> comps g = []"
  using NormPath_eq_iff [of g "''/''"] by (simp add: NormPath_def hasPrefix_def norm_step_def comps_def)

lemma guest_split:
  assumes "comps g = d @ [n]"
  shows "splitGuest (NormPath g) = (slash # join_slash d, n)" "comps (slash # join_slash d) = d" "comps (join_slash d) = d"
    "plain n" "list_all plain d" "NormPath g \<noteq> ''/''"
  using comps_plain [of g] splitGuest_NormPath [OF assms] guest_root_iff [of g] assms by (auto simp: comps_join)

lemma GetMeta_root:
  assumes wf: "vfs_wf v" and g: "comps g = []"
  shows "\<exists>v'. GetMeta g v = (Inr (the (meta_view v [])), v') \<and> same_view v v' \<and> (\<forall>q. butlast q \<noteq> butlast (comps g) \<longrightarrow> lstat v' q = lstat v q)"
proof (cases "map_of (side v []) ''.''")
  case (Some m)
  then show ?thesis
    using wf g vfs_wfD(1) [OF wf] by (simp add: GetMeta_def guest_root_iff loadSidecar_wf meta_view_def lookup0_def same_view_refl)
next
  case None
  let ?data = "AList.update ''.'' (mk_Meta ''dir'' DefaultDirMode '''' 0) (side v [])"
  have "host_dir [] v" using vfs_wfD(2) [OF wf] by (simp add: host_dir_wf [OF wf])
  moreover have "side_valid ?data" by (rule side_valid_update) simp_all
  ultimately obtain v' where s: "saveSidecar [] ?data v = (Inr (), v')" "saved [] ?data v v'" using saveSidecar_valid [OF wf] by blast
  have e: "ensureRootMeta v = (Inr (), v')" using None s(1) by (simp add: ensureRootMeta_def loadS_wf [OF wf])
  have wf': "vfs_wf v'" and sd: "side v' [] = ?data" using s(2) by (auto simp: saved_def)
  have "same_view v v'"
    by (rule saved_same_view [OF s(2)]) (auto simp: update_conv' meta_view_def None)
  moreover have "\<forall>q. butlast q \<noteq> [] \<longrightarrow> lstat v' q = lstat v q" using s(2) by (simp add: saved_def)
  ultimately show ?thesis
    using None g vfs_wfD(1) [OF wf] by (simp add: GetMeta_def guest_root_iff loadSidecar_wf wf wf' e sd lookup0_def update_conv' meta_view_def)
qed

text \<open>Every read of metadata is a lookup in the view.\<close>

lemma GetMeta_spec:
  assumes wf: "vfs_wf v"
  shows "\<exists>v'. GetMeta g v = ((case meta_view v (comps g) of None \<Rightarrow> Inl (VFSError 2) | Some m \<Rightarrow> Inr m), v') \<and> same_view v v' \<and> (\<forall>q. butlast q \<noteq> butlast (comps g) \<longrightarrow> lstat v' q = lstat v q)"
proof (cases "comps g = []")
  case True
  then show ?thesis using GetMeta_root [OF wf True] by (auto simp: meta_view_def)
next
  case False
  then obtain d n where g: "comps g = d @ [n]" by (metis rev_exhaust)
  obtain data v' where r: "reconcile d v = (data, v')" "same_view v v'" "\<forall>q. butlast q \<noteq> d \<longrightarrow> lstat v' q = lstat v q" "\<And>n. n \<noteq> ''.'' \<Longrightarrow> map_of data n = entry_view v d n"
    using reconcile_spec [OF wf, of d] by blast
  have "n \<noteq> ''.''" using guest_split(4) [OF g] by (simp add: plain_def)
  then show ?thesis
    using r guest_split [OF g] g vfs_wfD(1) [OF wf] by (simp add: GetMeta_def meta_view_def)
qed

lemma Exists_spec:
  assumes "vfs_wf v"
  shows "\<exists>v'. Exists g v = (meta_view v (comps g) \<noteq> None, v') \<and> same_view v v' \<and> (\<forall>q. butlast q \<noteq> butlast (comps g) \<longrightarrow> lstat v' q = lstat v q)"
  using GetMeta_spec [OF assms, of g] vfs_wfD(1) [OF assms] by (auto simp: Exists_def split: option.splits)

lemma IsDir_spec:
  assumes "vfs_wf v"
  shows "\<exists>v'. IsDir g v = ((\<exists>m. meta_view v (comps g) = Some m \<and> mt_Type m = ''dir''), v') \<and> same_view v v' \<and> (\<forall>q. butlast q \<noteq> butlast (comps g) \<longrightarrow> lstat v' q = lstat v q)"
  using GetMeta_spec [OF assms, of g] vfs_wfD(1) [OF assms] by (auto simp: IsDir_def split: option.splits)

lemma same_viewD:
  assumes "same_view v v'"
  shows "vfs_wf v'" "meta_view v' = meta_view v" "\<not> reserved c \<Longrightarrow> lstat v' (d @ [c]) = lstat v (d @ [c])" "lstat v' [] = lstat v []"
    "v_mounts v' = v_mounts v" "v_now v' = v_now v"
  using assms by (auto simp: same_view_def)

lemma same_view_only:
  "same_view v v' \<Longrightarrow> \<forall>q. butlast q \<noteq> d \<longrightarrow> lstat v' q = lstat v q \<Longrightarrow> only_sidecars {d} v v'"
  by (rule only_sidecarsI) (simp_all add: same_viewD)

lemma plain_not_reserved: "plain c \<Longrightarrow> c \<notin> {Sidecar, Sidecar @ ''.tmp'', LegacySidecar} \<Longrightarrow> \<not> reserved c"
  by (simp add: reserved_def)

text \<open>A directory of guest names none of which is a sidecar's is seen the same.\<close>

definition guest_path :: "hpath \<Rightarrow> bool" where
  "guest_path p \<longleftrightarrow> list_all plain p \<and> list_all (\<lambda>c. \<not> reserved c) p"

lemma same_view_lstat: "same_view v v' \<Longrightarrow> list_all (\<lambda>c. \<not> reserved c) p \<Longrightarrow> lstat v' p = lstat v p"
  by (cases p rule: rev_cases) (auto dest: same_viewD)

lemma same_view_host_dir: "same_view v v' \<Longrightarrow> vfs_wf v \<Longrightarrow> list_all (\<lambda>c. \<not> reserved c) p \<Longrightarrow> host_dir p v' = host_dir p v"
  by (simp add: host_dir_wf same_viewD(1) same_view_lstat)

section \<open>Writing metadata\<close>

text \<open>A write replaces one entry of the view and nothing else.\<close>

definition wrote :: "hpath \<Rightarrow> Meta option \<Rightarrow> vfs \<Rightarrow> vfs \<Rightarrow> bool" where
  "wrote p m v v' \<longleftrightarrow> vfs_wf v' \<and> meta_view v' = (meta_view v)(p := m) \<and>
     (\<forall>d c. \<not> reserved c \<longrightarrow> lstat v' (d @ [c]) = lstat v (d @ [c])) \<and> lstat v' [] = lstat v [] \<and>
     (\<forall>q. butlast q \<noteq> butlast p \<longrightarrow> lstat v' q = lstat v q) \<and>
     lstat v' (butlast p @ [Sidecar]) \<noteq> None \<and> v_mounts v' = v_mounts v \<and> v_now v' = v_now v"

lemma wrote_only: "wrote p m v v' \<Longrightarrow> only_sidecars {butlast p} v v'"
  by (rule only_sidecarsI) (simp_all add: wrote_def)

lemma saved_wrote:
  assumes s: "saved d data v v'" and p: "list_all plain (d @ [n])"
    and data: "\<And>k. k \<noteq> n \<Longrightarrow> map_of data k = map_of (side v d) k"
  shows "wrote (d @ [n]) (case map_of data n of Some m \<Rightarrow> Some m | None \<Rightarrow> healed v d n) v v'"
proof -
  have n: "n \<noteq> ''.''" using p by (simp add: plain_def)
  have "meta_view v' q = ((meta_view v)(d @ [n] := (case map_of data n of Some m \<Rightarrow> Some m | None \<Rightarrow> healed v d n))) q" for q
  proof (cases "q = d @ [n]")
    case True
    then show ?thesis using p by (simp add: meta_view_def saved_entry [OF s])
  next
    case False
    show ?thesis
    proof (cases q rule: rev_cases)
      case Nil
      then show ?thesis using s data [of "''.''"] n by (auto simp: meta_view_def saved_def)
    next
      case (snoc d' k)
      then have "d' = d \<longrightarrow> k \<noteq> n" using False by auto
      then have "entry_view v' d' k = entry_view v d' k"
        unfolding saved_entry [OF s] using data [of k] by (cases "d' = d") (auto simp: entry_view_def)
      then have "meta_view v' q = meta_view v q" using snoc by (simp add: meta_view_def)
      then show ?thesis using False by simp
    qed
  qed
  then show ?thesis using s by (auto simp: wrote_def saved_def)
qed

lemma register_spec:
  assumes wf: "vfs_wf v" and g: "comps g = d @ [n]" and d: "host_dir d v" and u: "utf8_valid n"
  shows "\<exists>v'. register g typ md target rdev v = (Inr (), v') \<and>
    wrote (d @ [n]) (Some (json_Meta (mk_Meta typ md target rdev))) v v'"
proof -
  let ?m = "mk_Meta typ md target rdev"
  obtain v' where s: "saveSidecar d (AList.update n ?m (side v d)) v = (Inr (), v')" "saved d (AList.update n (json_Meta ?m) (side v d)) v v'"
    using saveSidecar_saved [OF wf d, of "AList.update n ?m (side v d)"] json_map_update [OF side_valid_side u] by auto
  have "register g typ md target rdev v = (Inr (), v')"
    using s(1) guest_split [OF g] by (simp add: register_def loadS_wf [OF wf])
  moreover have "wrote (d @ [n]) (Some (json_Meta ?m)) v v'"
    using saved_wrote [OF s(2), of n] guest_split [OF g] by (simp add: update_conv')
  ultimately show ?thesis by blast
qed

lemma register_valid:
  assumes "vfs_wf v" "comps g = d @ [n]" "host_dir d v" "utf8_valid n" "utf8_valid typ" "utf8_valid target"
  shows "\<exists>v'. register g typ md target rdev v = (Inr (), v') \<and> wrote (d @ [n]) (Some (mk_Meta typ md target rdev)) v v'"
proof -
  have "json_Meta (mk_Meta typ md target rdev) = mk_Meta typ md target rdev"
    using assms(5,6) by (simp add: meta_valid_json [symmetric])
  then show ?thesis using register_spec [OF assms(1-4), of "typ" md target rdev] by simp
qed

lemma register_no_dir:
  assumes wf: "vfs_wf v" and g: "comps g = d @ [n]" and d: "\<not> host_dir d v"
  shows "register g typ md target rdev v = (Inl HostError, v)"
  using guest_split [OF g] d by (simp add: register_def loadS_wf [OF wf] saveSidecar_no_dir)

lemma unregister_spec:
  assumes wf: "vfs_wf v" and g: "comps g = d @ [n]" and d: "host_dir d v"
  shows "\<exists>v'. unregister g v = (Inr (), v') \<and> wrote (d @ [n]) (healed v d n) v v'"
proof -
  let ?data = "AList.delete n (side v d)"
  obtain v' where s: "saveSidecar d ?data v = (Inr (), v')" "saved d ?data v v'"
    using saveSidecar_valid [OF wf d, of ?data] side_valid_delete by auto
  have "unregister g v = (Inr (), v')"
    using s(1) guest_split [OF g] by (simp add: unregister_def loadS_wf [OF wf])
  moreover have "wrote (d @ [n]) (healed v d n) v v'"
    using saved_wrote [OF s(2), of n] guest_split [OF g] by (simp add: delete_conv')
  ultimately show ?thesis by blast
qed

lemma SetMeta_spec:
  assumes wf: "vfs_wf v" and g: "comps g = d @ [n]" and d: "host_dir d v" and u: "utf8_valid n"
  shows "\<exists>v'. SetMeta g f v = (Inr (), v') \<and>
    wrote (d @ [n]) (Some (json_Meta (f (case map_of (side v d) n of None \<Rightarrow> mk_Meta ''reg'' DefaultFileMode '''' 0 | Some m \<Rightarrow> m)))) v v'"
proof -
  let ?m = "f (case map_of (side v d) n of None \<Rightarrow> mk_Meta ''reg'' DefaultFileMode '''' 0 | Some m \<Rightarrow> m)"
  obtain v' where s: "saveSidecar d (AList.update n ?m (side v d)) v = (Inr (), v')" "saved d (AList.update n (json_Meta ?m) (side v d)) v v'"
    using saveSidecar_saved [OF wf d, of "AList.update n ?m (side v d)"] json_map_update [OF side_valid_side u] by auto
  have "SetMeta g f v = (Inr (), v')"
    using s(1) guest_split [OF g] by (simp add: SetMeta_def loadS_wf [OF wf] Let_def)
  moreover have "wrote (d @ [n]) (Some (json_Meta ?m)) v v'"
    using saved_wrote [OF s(2), of n] guest_split [OF g] by (simp add: update_conv')
  ultimately show ?thesis by blast
qed

section \<open>Changes of the host tree\<close>

lemma guest_path_snoc: "guest_path (d @ [n]) \<longleftrightarrow> guest_path d \<and> plain n \<and> \<not> reserved n"
  by (auto simp: guest_path_def)

lemma entry_view_dir: "vfs_wf v \<Longrightarrow> entry_view v d n = Some m \<Longrightarrow> host_dir d v"
  using host_dir_parent [of v d n] host_dir_parent [of v d Sidecar]
  by (auto simp: entry_view_def healed_def side_def split: option.splits if_splits)

lemma entry_view_valid: "vfs_wf v \<Longrightarrow> entry_view v d n = Some m \<Longrightarrow> utf8_valid n \<and> meta_valid m"
  using json_fixed_map_of [OF side_valid_side, of v d n] vfs_wfD(8) [of v d n] autoheal_valid [of v d n]
  by (auto simp: entry_view_def healed_def meta_valid_json split: option.splits if_splits)

lemma meta_view_snoc: "guest_path (d @ [n]) \<Longrightarrow> meta_view v (d @ [n]) = entry_view v d n"
  by (simp add: meta_view_def guest_path_def)

text \<open>The node at one guest path is replaced, or removed, with nothing below it.\<close>

lemma leaf_change:
  assumes wf: "vfs_wf v" and p: "guest_path (d @ [n])" and d: "host_dir d v"
    and look: "\<And>q. lstat v' q = (if q = d @ [n] then k else lstat v q)"
    and k: "\<And>x. k = Some x \<Longrightarrow> \<not> is_link x \<and> utf8_valid n" "(\<exists>x. k = Some x \<and> is_dir x) \<or> (\<forall>c. lstat v (d @ [n] @ [c]) = None)"
    and f: "v_NativePerms v' = v_NativePerms v" "v_parseMeta v' = v_parseMeta v"
  shows "vfs_wf v'" "side v' = side v"
    "entry_view v' d' m = (if d' = d \<and> m = n then (case map_of (side v d) n of Some x \<Rightarrow> Some x | None \<Rightarrow> healed v' d n) else entry_view v d' m)"
proof -
  have n: "\<not> reserved n" "n \<noteq> ''.''" using p by (auto simp: guest_path_snoc plain_def)
  have neq: "d \<noteq> d @ [n]" by simp
  show "vfs_wf v'"
    unfolding vfs_wf_def look
  proof (intro conjI allI impI)
    show "\<not> v_NativePerms v'" using vfs_wfD(1) [OF wf] f by simp
    show "\<exists>x. (if [] = d @ [n] then k else lstat v []) = Some x \<and> is_dir x" using vfs_wfD(2) [OF wf] by simp
  next
    fix e c x assume a: "(if e @ [c] = d @ [n] then k else lstat v (e @ [c])) = Some x"
    show "\<exists>m. (if e = d @ [n] then k else lstat v e) = Some m \<and> is_dir m"
    proof (cases "e = d @ [n]")
      case True
      then show ?thesis using a k(2) by auto
    next
      case False
      then show ?thesis using a d host_dir_wf [OF wf, of d] vfs_wfD(3) [OF wf] by (auto split: if_splits)
    qed
    show "\<not> is_dir x" if "reserved c" using that a n vfs_wfD(5) [OF wf] by (auto split: if_splits)
    show "utf8_valid c" using a k(1) vfs_wfD(8) [OF wf] by (auto split: if_splits)
  next
    fix q x assume "(if q = d @ [n] then k else lstat v q) = Some x"
    then show "\<not> is_link x" using k(1) vfs_wfD(4) [OF wf] by (auto split: if_splits)
  qed (use n vfs_wfD(6,7) [OF wf] in auto)
  show side: "side v' = side v"
  proof
    fix e
    have S: "Sidecar \<noteq> n" using n(1) by auto
    have um: "unmarshalMeta v' = unmarshalMeta v" using f by (intro ext) (simp add: unmarshalMeta_def split: fcontent.split)
    show "side v' e = side v e" unfolding side_def look um using S by simp
  qed
  show "entry_view v' d' m = (if d' = d \<and> m = n then (case map_of (side v d) n of Some x \<Rightarrow> Some x | None \<Rightarrow> healed v' d n) else entry_view v d' m)"
    by (auto simp: entry_view_def side healed_def autoheal_def look split: option.split)
qed

lemma leaf_change_view:
  assumes wf: "vfs_wf v" and p: "guest_path (d @ [n])" and d: "host_dir d v"
    and look: "\<And>q. lstat v' q = (if q = d @ [n] then k else lstat v q)"
    and k: "\<And>x. k = Some x \<Longrightarrow> \<not> is_link x \<and> utf8_valid n" "(\<exists>x. k = Some x \<and> is_dir x) \<or> (\<forall>c. lstat v (d @ [n] @ [c]) = None)"
    and f: "v_NativePerms v' = v_NativePerms v" "v_parseMeta v' = v_parseMeta v"
  shows "\<forall>q. q \<noteq> d @ [n] \<longrightarrow> meta_view v' q = meta_view v q"
proof (intro allI impI)
  fix q assume q: "q \<noteq> d @ [n]"
  note lc = leaf_change [OF assms]
  show "meta_view v' q = meta_view v q"
  proof (cases q rule: rev_cases)
    case Nil
    then show ?thesis by (simp add: meta_view_def lc(2))
  next
    case (snoc e c)
    then have "entry_view v' e c = entry_view v e c" using q lc(3) [of e c] by auto
    then show ?thesis using snoc by (simp add: meta_view_def)
  qed
qed

lemma no_child: "vfs_wf v \<Longrightarrow> lstat v p = None \<or> (\<exists>x. lstat v p = Some x \<and> \<not> is_dir x) \<Longrightarrow> lstat v (p @ [c]) = None"
  using vfs_wfD(3) [of v p c] by (metis option.exhaust option.inject option.distinct(1))

lemma host_dir_prefix: "vfs_wf v \<Longrightarrow> host_dir (a @ b) v \<Longrightarrow> host_dir a v"
proof (induction b rule: rev_induct)
  case (snoc c b)
  then obtain n where "lstat v ((a @ b) @ [c]) = Some n" by (auto simp: host_dir_wf)
  then show ?case using snoc host_dir_parent by blast
qed simp

lemma mkdirs_existing: "vfs_wf v \<Longrightarrow> host_dir (a @ b) v \<Longrightarrow> mkdirs a (b @ cs) v = mkdirs (a @ b) cs v"
proof (induction b arbitrary: a)
  case (Cons x b)
  then have "host_dir (a @ [x]) v" using host_dir_prefix [of v "a @ [x]" b] by simp
  then show ?case using Cons by simp
qed simp

lemma MkdirAll_existing: "vfs_wf v \<Longrightarrow> host_dir p v \<Longrightarrow> os_MkdirAll p v = (Inr (), v)"
  using mkdirs_existing [of v "[]" p "[]"] by (simp add: os_MkdirAll_def)

lemma MkdirAll_new:
  "vfs_wf v \<Longrightarrow> host_dir d v \<Longrightarrow> lstat v (d @ [n]) = None \<Longrightarrow>
   os_MkdirAll (d @ [n]) v = (Inr (), set_node (d @ [n]) (new_dir v) v)"
  using mkdirs_existing [of v "[]" d "[n]"] by (simp add: os_MkdirAll_def host_dir_wf)

lemma snoc_keys: "(\<exists>q \<in> K. q \<noteq> [] \<and> butlast q = p) \<longleftrightarrow> (\<exists>c. p @ [c] \<in> K)"
proof -
  have "q \<noteq> [] \<and> butlast q = p \<longleftrightarrow> (\<exists>c. q = p @ [c])" for q
    by (cases q rule: rev_cases) auto
  then show ?thesis by metis
qed

lemma has_child_iff: "has_child p v \<longleftrightarrow> (\<exists>c. lstat v (p @ [c]) \<noteq> None)"
  using snoc_keys [of "set (map fst (v_tree v))" p]
  by (simp only: has_child_def list_ex_iff os_Lstat_def map_of_eq_None_iff not_not set_map)

section \<open>Creating and removing\<close>

lemma Mkdir_spec:
  assumes wf: "vfs_wf v" and g: "comps g = d @ [n]" and p: "guest_path (d @ [n])" and d: "host_dir d v"
    and new: "meta_view v (d @ [n]) = None" "lstat v (d @ [n]) = None" and u: "utf8_valid n"
  shows "\<exists>v'. Mkdir g md v = (Inr (), v') \<and> vfs_wf v' \<and> host_dir (d @ [n]) v' \<and>
    meta_view v' = (meta_view v)(d @ [n] \<mapsto> mk_Meta ''dir'' md '''' 0) \<and>
    (\<forall>q. q \<noteq> d @ [n] \<and> \<not> sidecar_file {d} q \<longrightarrow> lstat v' q = lstat v q)"
proof -
  obtain v1 where e: "Exists g v = (False, v1)" "same_view v v1" "\<forall>q. butlast q \<noteq> d \<longrightarrow> lstat v1 q = lstat v q"
    using Exists_spec [OF wf, of g] g new by auto
  have nr: "list_all (\<lambda>c. \<not> reserved c) (d @ [n])" "list_all (\<lambda>c. \<not> reserved c) d" using p by (auto simp: guest_path_def)
  have d1: "host_dir d v1" using d same_view_host_dir [OF e(2) wf nr(2)] by simp
  have new1: "lstat v1 (d @ [n]) = None" using new same_view_lstat [OF e(2) nr(1)] by simp
  let ?v2 = "set_node (d @ [n]) (new_dir v1) v1"
  note wf1 = same_viewD(1) [OF e(2)]
  have l: "\<And>q. lstat ?v2 q = (if q = d @ [n] then Some (new_dir v1) else lstat v1 q)" by (simp add: lstat_set)
  note lc = leaf_change [OF wf1 p d1 l] and lv = leaf_change_view [OF wf1 p d1 l]
  have wf2: "vfs_wf ?v2" by (rule lc) (use u in auto)
  have view2: "\<forall>q. q \<noteq> d @ [n] \<longrightarrow> meta_view ?v2 q = meta_view v q"
    using lv same_viewD(2) [OF e(2)] u by auto
  have d2: "host_dir d ?v2" using d1 by (simp add: host_dir_wf [OF wf2] host_dir_wf [OF wf1] l)
  obtain v3 where r: "register g ''dir'' md '''' 0 ?v2 = (Inr (), v3)" "wrote (d @ [n]) (Some (mk_Meta ''dir'' md '''' 0)) ?v2 v3"
    using register_valid [OF wf2 g d2 u valid_names(4,7)] by blast
  have "\<forall>q. q \<noteq> d @ [n] \<and> \<not> sidecar_file {d} q \<longrightarrow> lstat v3 q = lstat v q"
    using wrote_only [OF r(2)] same_view_only [OF e(2,3)] by (simp add: only_sidecars_def l)
  moreover have "Mkdir g md v = (Inr (), v3)"
    using e r(1) g vfs_wfD(1) [OF wf2] MkdirAll_new [OF wf1 d1 new1] by (simp add: Mkdir_def testS_def)
  moreover have "meta_view v3 = (meta_view v)(d @ [n] \<mapsto> mk_Meta ''dir'' md '''' 0)"
    using r(2) view2 by (auto simp: wrote_def fun_eq_iff)
  moreover have "lstat v3 (d @ [n]) = Some (new_dir v1)" using r(2) nr by (simp add: wrote_def l)
  ultimately show ?thesis using r(2) by (auto simp: wrote_def host_dir_wf)
qed

lemma Unlink_spec:
  assumes wf: "vfs_wf v" and g: "comps g = d @ [n]" and p: "guest_path (d @ [n])"
    and m: "meta_view v (d @ [n]) = Some m" "mt_Type m \<noteq> ''dir''"
    and f: "lstat v (d @ [n]) = None \<or> mt_Type m = ''reg'' \<and> \<not> host_dir (d @ [n]) v"
  shows "\<exists>v'. Unlink g v = (Inr (), v') \<and> vfs_wf v' \<and> meta_view v' = (meta_view v)(d @ [n] := None) \<and> lstat v' (d @ [n]) = None \<and>
    (\<forall>q. q \<noteq> d @ [n] \<and> \<not> sidecar_file {d} q \<longrightarrow> lstat v' q = lstat v q)"
proof -
  have nr: "list_all (\<lambda>c. \<not> reserved c) (d @ [n])" "list_all (\<lambda>c. \<not> reserved c) d" using p by (auto simp: guest_path_def)
  have d: "host_dir d v" using entry_view_dir [OF wf] m(1) meta_view_snoc [OF p] by metis
  obtain v1 where e: "GetMeta g v = (Inr m, v1)" "same_view v v1" "\<forall>q. butlast q \<noteq> d \<longrightarrow> lstat v1 q = lstat v q"
    using GetMeta_spec [OF wf, of g] g m by auto
  note wf1 = same_viewD(1) [OF e(2)]
  have d1: "host_dir d v1" using d same_view_host_dir [OF e(2) wf nr(2)] by simp
  have l1: "lstat v1 (d @ [n]) = lstat v (d @ [n])" using same_view_lstat [OF e(2) nr(1)] by simp
  define v2 where "v2 = (if mt_Type m = ''reg'' \<and> os_Stat (comps g) v1 \<noteq> None then snd (os_Remove (comps g) v1) else v1)"
  have nodir: "\<exists>x. lstat v1 (d @ [n]) = Some x \<and> \<not> is_dir x" if "lstat v1 (d @ [n]) \<noteq> None"
    using that f l1 host_dir_wf [OF wf, of "d @ [n]"] by auto
  have v2: "v2 = (if lstat v1 (d @ [n]) = None then v1 else del_node (d @ [n]) v1)"
    using f l1 nodir g by (auto simp: v2_def os_Stat_wf [OF wf1] os_Remove_def)
  have l: "\<And>q. lstat v2 q = (if q = d @ [n] then None else lstat v1 q)" by (simp add: v2 lstat_del)
  have fields: "v_NativePerms v2 = v_NativePerms v1" "v_parseMeta v2 = v_parseMeta v1" by (simp_all add: v2)
  have nc: "\<forall>c. lstat v1 (d @ [n] @ [c]) = None" using no_child [OF wf1, of "d @ [n]"] nodir by (cases "lstat v1 (d @ [n])") auto
  have wf2: "vfs_wf v2" by (rule leaf_change [OF wf1 p d1 l]) (use nc fields in auto)
  have view2: "\<forall>q. q \<noteq> d @ [n] \<longrightarrow> meta_view v2 q = meta_view v q"
    using leaf_change_view [OF wf1 p d1 l] nc fields same_viewD(2) [OF e(2)] by auto
  have d2: "host_dir d v2" using d1 by (simp add: host_dir_wf [OF wf2] host_dir_wf [OF wf1] l)
  obtain v3 where r: "unregister g v2 = (Inr (), v3)" "wrote (d @ [n]) (healed v2 d n) v2 v3"
    using unregister_spec [OF wf2 g d2] by blast
  have "healed v2 d n = None" by (simp add: healed_def l)
  moreover have "Unlink g v = (Inr (), v3)" using e(1) r(1) m(2) by (simp add: Unlink_def v2_def)
  moreover have "lstat v3 (d @ [n]) = None" using r(2) nr by (simp add: wrote_def l)
  moreover have "\<forall>q. q \<noteq> d @ [n] \<and> \<not> sidecar_file {d} q \<longrightarrow> lstat v3 q = lstat v q"
    using wrote_only [OF r(2)] same_view_only [OF e(2,3)] by (simp add: only_sidecars_def l)
  ultimately show ?thesis using r(2) view2 by (auto simp: wrote_def fun_eq_iff)
qed

section \<open>Renaming\<close>

lemma wrote_host_dir:
  assumes "wrote p m v v'" "vfs_wf v" "list_all (\<lambda>c. \<not> reserved c) q"
  shows "host_dir q v' = host_dir q v"
  using assms by (cases q rule: rev_cases) (auto simp: wrote_def host_dir_wf)

lemma wrote_lstat: "wrote p m v v' \<Longrightarrow> \<not> reserved c \<Longrightarrow> lstat v' (d @ [c]) = lstat v (d @ [c])"
  by (simp add: wrote_def)

text \<open>Moving a regular file to a name that is free or a file, in an existing directory.\<close>

lemma Rename_spec:
  assumes wf: "vfs_wf v" and old: "comps g = d @ [n]" "guest_path (d @ [n])" and new: "comps h = e @ [k]" "guest_path (e @ [k])"
    and ne: "d @ [n] \<noteq> e @ [k]" and e: "host_dir e v"
    and m: "meta_view v (d @ [n]) = Some m" "mt_Type m = ''reg''" and f: "lstat v (d @ [n]) = Some f" "\<not> is_dir f"
    and q: "\<not> host_dir (e @ [k]) v" and u: "utf8_valid k"
  shows "\<exists>v'. Rename g h v = (Inr (), v') \<and> vfs_wf v' \<and> lstat v' (e @ [k]) = Some f \<and> lstat v' (d @ [n]) = None \<and>
    meta_view v' = (meta_view v)(e @ [k] \<mapsto> mk_Meta ''reg'' (mt_Mode m) (mt_Target m) (mt_Rdev m), d @ [n] := None) \<and>
    (\<forall>x. x \<noteq> d @ [n] \<and> x \<noteq> e @ [k] \<and> \<not> sidecar_file {d, e} x \<longrightarrow> lstat v' x = lstat v x)"
proof -
  let ?p = "d @ [n]" and ?q = "e @ [k]"
  have nr: "list_all (\<lambda>c. \<not> reserved c) ?p" "list_all (\<lambda>c. \<not> reserved c) d" "list_all (\<lambda>c. \<not> reserved c) ?q" "list_all (\<lambda>c. \<not> reserved c) e"
    using old new by (auto simp: guest_path_def)
  have ut: "utf8_valid (mt_Target m)" using entry_view_valid [OF wf] m(1) meta_view_snoc [OF old(2)] by (simp add: meta_valid_def)
  obtain v1 where g: "GetMeta g v = (Inr m, v1)" "same_view v v1" "\<forall>q. butlast q \<noteq> d \<longrightarrow> lstat v1 q = lstat v q"
    using GetMeta_spec [OF wf, of g] old(1) m by auto
  note wf1 = same_viewD(1) [OF g(2)]
  have dirs: "host_dir d v1" "host_dir e v1" "\<not> host_dir ?q v1"
    using host_dir_parent [OF wf f(1)] e q same_view_host_dir [OF g(2) wf] nr by simp_all
  have f1: "lstat v1 ?p = Some f" using f(1) same_view_lstat [OF g(2) nr(1)] by simp
  have pe: "e \<noteq> ?p" "d \<noteq> ?p" using dirs f1 f(2) by (auto simp: host_dir_wf [OF wf1])
  define v2 where "v2 = del_node ?p v1"
  have l2: "\<And>x. lstat v2 x = (if x = ?p then None else lstat v1 x)" by (simp add: v2_def lstat_del)
  have nc: "\<forall>c. lstat v1 (d @ [n] @ [c]) = None" using no_child [OF wf1, of ?p] f1 f(2) by auto
  note c2 = leaf_change [OF wf1 old(2) dirs(1) l2] and w2 = leaf_change_view [OF wf1 old(2) dirs(1) l2]
  have wf2: "vfs_wf v2" by (rule c2) (use nc in \<open>auto simp: v2_def\<close>)
  have view2: "\<forall>x. x \<noteq> ?p \<longrightarrow> meta_view v2 x = meta_view v x"
    using w2 nc same_viewD(2) [OF g(2)] by (auto simp: v2_def)
  have e2: "host_dir e v2" "\<not> host_dir ?q v2"
    using dirs pe by (auto simp: host_dir_wf [OF wf2] host_dir_wf [OF wf1] l2)
  define v3 where "v3 = set_node ?q f v2"
  have l3: "\<And>x. lstat v3 x = (if x = ?q then Some f else lstat v2 x)" by (simp add: v3_def lstat_set)
  have nolink: "\<not> is_link f" using vfs_wfD(4) [OF wf f(1)] .
  have nc2: "\<forall>c. lstat v2 (e @ [k] @ [c]) = None" using no_child [OF wf2, of ?q] e2(2) host_dir_wf [OF wf2, of ?q] by (metis append_assoc option.exhaust)
  note c3 = leaf_change [OF wf2 new(2) e2(1) l3] and w3 = leaf_change_view [OF wf2 new(2) e2(1) l3]
  have wf3: "vfs_wf v3" by (rule c3) (use nc2 nolink u in \<open>auto simp: v3_def\<close>)
  have view3: "\<forall>x. x \<noteq> ?q \<longrightarrow> meta_view v3 x = meta_view v2 x" using w3 nc2 nolink u by (auto simp: v3_def)
  have "\<not> (case lstat v1 ?q of Some x \<Rightarrow> is_dir x | None \<Rightarrow> False)"
    using dirs(3) by (auto simp: host_dir_wf [OF wf1] split: option.splits)
  then have rn: "os_Rename ?p ?q v1 = (Inr (), v3)"
    using f1 f(2) dirs ne by (auto simp: os_Rename_def v3_def v2_def)
  have e3: "host_dir e v3" "host_dir d v3" using dirs pe e2 f(2) by (auto simp: host_dir_wf [OF wf3] host_dir_wf [OF wf2] host_dir_wf [OF wf1] l3 l2)
  let ?m = "mk_Meta ''reg'' (mt_Mode m) (mt_Target m) (mt_Rdev m)"
  obtain v4 where r4: "register h ''reg'' (mt_Mode m) (mt_Target m) (mt_Rdev m) v3 = (Inr (), v4)" "wrote ?q (Some ?m) v3 v4"
    using register_valid [OF wf3 new(1) e3(1) u valid_names(5) ut] by blast
  have wf4: "vfs_wf v4" using r4(2) by (simp add: wrote_def)
  obtain v5 where r5: "unregister g v4 = (Inr (), v5)" "wrote ?p (healed v4 d n) v4 v5"
    using unregister_spec [OF wf4 old(1)] wrote_host_dir [OF r4(2) wf3 nr(2)] e3(2) by blast
  have l4: "lstat v4 ?p = None" "lstat v4 ?q = Some f"
    using nr ne by (simp_all add: wrote_lstat [OF r4(2)] l3 l2)
  then have "healed v4 d n = None" by (simp add: healed_def)
  then have view5: "meta_view v5 = (meta_view v)(?q \<mapsto> ?m, ?p := None)"
    using r5(2) r4(2) view2 view3 by (auto simp: wrote_def fun_eq_iff)
  have "Rename g h v = (Inr (), v5)"
    using g(1) m(2) old(1) new(1) f1 MkdirAll_existing [OF wf1 dirs(2)] rn r4(1) r5(1)
    by (simp add: Rename_def Let_def os_Stat_wf [OF wf1])
  moreover have "lstat v5 ?q = Some f" "lstat v5 ?p = None"
    using nr l4 by (simp_all add: wrote_lstat [OF r5(2)])
  moreover have "\<forall>x. x \<noteq> ?p \<and> x \<noteq> ?q \<and> \<not> sidecar_file {d, e} x \<longrightarrow> lstat v5 x = lstat v x"
    using wrote_only [OF r5(2)] wrote_only [OF r4(2)] same_view_only [OF g(2,3)]
    by (auto simp: only_sidecars_def sidecar_file_def l3 l2)
  ultimately show ?thesis using r5(2) view5 by (auto simp: wrote_def)
qed

text \<open>Renaming a name that is only metadata, such as a symbolic link, to itself removes it.\<close>

lemma Rename_self:
  assumes wf: "vfs_wf v" and g: "comps g = d @ [n]" "guest_path (d @ [n])"
    and m: "meta_view v (d @ [n]) = Some m" "mt_Type m = ''lnk''" and f: "lstat v (d @ [n]) = None"
  shows "\<exists>v'. Rename g g v = (Inr (), v') \<and> vfs_wf v' \<and> meta_view v' = (meta_view v)(d @ [n] := None)"
proof -
  have nr: "list_all (\<lambda>c. \<not> reserved c) (d @ [n])" "list_all (\<lambda>c. \<not> reserved c) d" using g by (auto simp: guest_path_def)
  have d: "host_dir d v" using entry_view_dir [OF wf] m(1) meta_view_snoc [OF g(2)] by metis
  obtain v1 where e: "GetMeta g v = (Inr m, v1)" "same_view v v1" using GetMeta_spec [OF wf, of g] g(1) m by auto
  note wf1 = same_viewD(1) [OF e(2)]
  have d1: "host_dir d v1" using d same_view_host_dir [OF e(2) wf nr(2)] by simp
  obtain v2 where r: "register g ''lnk'' (mt_Mode m) (mt_Target m) (mt_Rdev m) v1 = (Inr (), v2)"
      "wrote (d @ [n]) (Some (mk_Meta ''lnk'' (mt_Mode m) (mt_Target m) (mt_Rdev m))) v1 v2"
    using register_valid [OF wf1 g(1) d1 _ valid_names(6)] entry_view_valid [OF wf, of d n m] m(1) meta_view_snoc [OF g(2)] unfolding meta_valid_def by metis
  have wf2: "vfs_wf v2" using r(2) by (simp add: wrote_def)
  obtain v3 where u: "unregister g v2 = (Inr (), v3)" "wrote (d @ [n]) (healed v2 d n) v2 v3"
    using unregister_spec [OF wf2 g(1)] wrote_host_dir [OF r(2) wf1 nr(2)] d1 by blast
  have "lstat v2 (d @ [n]) = None" using nr f same_view_lstat [OF e(2) nr(1)] by (simp add: wrote_lstat [OF r(2)])
  then have "healed v2 d n = None" by (simp add: healed_def)
  moreover have "Rename g g v = (Inr (), v3)" using e(1) m(2) r(1) u(1) by (simp add: Rename_def)
  ultimately show ?thesis using u(2) r(2) same_viewD(2) [OF e(2)] by (auto simp: wrote_def fun_eq_iff)
qed

section \<open>Removing directories\<close>

lemma same_view_trans: "same_view a b \<Longrightarrow> same_view b c \<Longrightarrow> same_view a c"
  unfolding same_view_def by auto

lemma same_view_side: "same_view v v' \<Longrightarrow> lstat v (d @ [Sidecar]) \<noteq> None \<Longrightarrow> lstat v' (d @ [Sidecar]) \<noteq> None"
  by (simp add: same_view_def)

lemma same_view_entry: "same_view v v' \<Longrightarrow> n \<noteq> ''.'' \<Longrightarrow> entry_view v' d n = entry_view v d n"
  by (simp add: same_view_def)

text \<open>Listing a directory all of whose entries are gone.\<close>

lemma Listdir_empty:
  assumes wf: "vfs_wf v" and m: "meta_view v (comps g) = Some m" "mt_Type m = ''dir''"
    and e: "\<forall>n. n \<noteq> ''.'' \<longrightarrow> entry_view v (comps g) n = None"
  shows "\<exists>v'. Listdir g v = (Inr [], v') \<and> same_view v v'"
proof -
  obtain v1 where i: "IsDir g v = (True, v1)" "same_view v v1" using IsDir_spec [OF wf, of g] m by auto
  note wf1 = same_viewD(1) [OF i(2)]
  obtain data v2 where r: "reconcile (comps g) v1 = (data, v2)" "same_view v1 v2" "\<forall>n. n \<noteq> ''.'' \<longrightarrow> map_of data n = entry_view v1 (comps g) n"
    using reconcile_spec [OF wf1, of "comps g"] by blast
  have "filter (\<lambda>n. n \<noteq> ''.'') (map fst data) = []"
    using r(3) e same_view_entry [OF i(2)] by (auto simp: filter_empty_conv map_of_eq_None_iff image_iff)
  then have "Listdir g v = (Inr [], v2)"
    using i(1) r(1) vfs_wfD(1) [OF wf1] by (simp add: Listdir_def testS_def)
  with same_view_trans [OF i(2) r(2)] show ?thesis by blast
qed

text \<open>The sidecar file itself keeps the host from removing the directory.\<close>

lemma Rmdir_sidecar:
  assumes wf: "vfs_wf v" and g: "comps g = d @ [n]" "guest_path (d @ [n])"
    and m: "meta_view v (d @ [n]) = Some m" "mt_Type m = ''dir''" and f: "host_dir (d @ [n]) v"
    and e: "\<forall>c. c \<noteq> ''.'' \<longrightarrow> entry_view v (d @ [n]) c = None" and s: "lstat v (d @ [n, Sidecar]) \<noteq> None"
  shows "\<exists>v'. Rmdir g v = (Inl HostError, v') \<and> same_view v v'"
proof -
  have nr: "list_all (\<lambda>c. \<not> reserved c) (d @ [n])" using g by (auto simp: guest_path_def)
  obtain v1 where i: "IsDir g v = (True, v1)" "same_view v v1" using IsDir_spec [OF wf, of g] m g(1) by auto
  note wf1 = same_viewD(1) [OF i(2)]
  have "meta_view v1 (comps g) = Some m" using m(1) same_viewD(2) [OF i(2)] g(1) by simp
  moreover have "\<forall>c. c \<noteq> ''.'' \<longrightarrow> entry_view v1 (comps g) c = None" using e same_view_entry [OF i(2)] g(1) by simp
  ultimately obtain v2 where l: "Listdir g v1 = (Inr [], v2)" "same_view v1 v2"
    using Listdir_empty [OF wf1] m(2) by blast
  have sv: "same_view v v2" by (rule same_view_trans [OF i(2) l(2)])
  obtain x where x: "lstat v2 (d @ [n]) = Some x" "is_dir x"
    using f same_view_lstat [OF sv nr] by (auto simp: host_dir_wf [OF wf])
  have "lstat v2 ((d @ [n]) @ [Sidecar]) \<noteq> None" using same_view_side [OF sv, of "d @ [n]"] s by simp
  then have "has_child (d @ [n]) v2" unfolding has_child_iff by blast
  then have "os_Remove (d @ [n]) v2 = (Inl HostError, v2)" using x by (simp add: os_Remove_def)
  then have "Rmdir g v = (Inl HostError, v2)" using i(1) l(1) x(1) g(1) by (simp add: Rmdir_def testS_def)
  with sv show ?thesis by blast
qed

text \<open>A directory with nothing at all in it on the host is removed.\<close>

lemma reconcile_bare:
  assumes wf: "vfs_wf v" and p: "p \<noteq> []" "\<forall>c. lstat v (p @ [c]) = None"
  shows "reconcile p v = ([], v)"
proof -
  have "os_ReadDir p v = None \<or> os_ReadDir p v = Some []"
  proof (cases "os_ReadDir p v")
    case (Some ns)
    have e: "c \<notin> set ns" for c using ReadDir_names [OF Some, of c] p(2) by simp
    have "ns = []" using e [of "hd ns"] by (cases ns) simp_all
    then show ?thesis using Some by simp
  qed simp
  then show ?thesis using p by (auto simp: reconcile_def loadSidecar_wf [OF wf] side_def)
qed

lemma Rmdir_bare:
  assumes wf: "vfs_wf v" and g: "comps g = d @ [n]" "guest_path (d @ [n])"
    and m: "meta_view v (d @ [n]) = Some m" "mt_Type m = ''dir''" and f: "host_dir (d @ [n]) v"
    and e: "\<forall>c. lstat v ((d @ [n]) @ [c]) = None"
  shows "\<exists>v'. Rmdir g v = (Inr (), v') \<and> vfs_wf v' \<and> lstat v' (d @ [n]) = None \<and> meta_view v' = (meta_view v)(d @ [n] := None)"
proof -
  have nr: "list_all (\<lambda>c. \<not> reserved c) (d @ [n])" "list_all (\<lambda>c. \<not> reserved c) d" using g by (auto simp: guest_path_def)
  have step: "\<exists>v'. IsDir g u = (True, v') \<and> same_view u v' \<and> (\<forall>c. lstat v' ((d @ [n]) @ [c]) = None)"
    if u: "vfs_wf u" "meta_view u = meta_view v" "\<forall>c. lstat u ((d @ [n]) @ [c]) = None" for u
  proof -
    obtain v' where "IsDir g u = (True, v')" "same_view u v'" "\<forall>q. butlast q \<noteq> butlast (comps g) \<longrightarrow> lstat v' q = lstat u q"
      using IsDir_spec [OF u(1), of g] u(2) m g(1) by auto
    moreover have "butlast (d @ [n, c]) \<noteq> d" for c by (simp add: butlast_append)
    ultimately show ?thesis using u(3) g(1) by (intro exI [of _ v']) simp
  qed
  obtain v1 where i: "IsDir g v = (True, v1)" "same_view v v1" "\<forall>c. lstat v1 ((d @ [n]) @ [c]) = None"
    using step [OF wf refl e] by blast
  obtain v2 where j: "IsDir g v1 = (True, v2)" "same_view v1 v2" "\<forall>c. lstat v2 ((d @ [n]) @ [c]) = None"
    using step [OF same_viewD(1) [OF i(2)] same_viewD(2) [OF i(2)] i(3)] by blast
  have sv: "same_view v v2" by (rule same_view_trans [OF i(2) j(2)])
  note wf2 = same_viewD(1) [OF sv]
  have "Listdir g v1 = (Inr [], v2)"
    using j(1) reconcile_bare [OF wf2 _ j(3)] vfs_wfD(1) [OF wf2] g(1) by (simp add: Listdir_def testS_def)
  moreover obtain x where x: "lstat v2 (d @ [n]) = Some x" "is_dir x"
    using f same_view_lstat [OF sv nr(1)] by (auto simp: host_dir_wf [OF wf])
  moreover have "os_Remove (d @ [n]) v2 = (Inr (), del_node (d @ [n]) v2)"
    using x j(3) has_child_iff [of "d @ [n]" v2] by (simp add: os_Remove_def)
  ultimately have rm: "Rmdir g v = unregister g (del_node (d @ [n]) v2)"
    using i(1) g(1) by (simp add: Rmdir_def testS_def)
  define v3 where "v3 = del_node (d @ [n]) v2"
  have l3: "\<And>q. lstat v3 q = (if q = d @ [n] then None else lstat v2 q)" by (simp add: v3_def lstat_del)
  have d2: "host_dir d v2" by (rule host_dir_parent [OF wf2 x(1)])
  note c3 = leaf_change [OF wf2 g(2) d2 l3] and w3 = leaf_change_view [OF wf2 g(2) d2 l3]
  have wf3: "vfs_wf v3" by (rule c3) (use j(3) in \<open>auto simp: v3_def\<close>)
  have view3: "\<forall>q. q \<noteq> d @ [n] \<longrightarrow> meta_view v3 q = meta_view v q"
    using w3 j(3) same_viewD(2) [OF sv] by (auto simp: v3_def)
  have d3: "host_dir d v3" using d2 by (simp add: host_dir_wf [OF wf3] host_dir_wf [OF wf2] l3)
  obtain v4 where u: "unregister g v3 = (Inr (), v4)" "wrote (d @ [n]) (healed v3 d n) v3 v4"
    using unregister_spec [OF wf3 g(1) d3] by blast
  have "healed v3 d n = None" by (simp add: healed_def l3)
  moreover have "lstat v4 (d @ [n]) = None" using nr by (simp add: wrote_lstat [OF u(2)] l3)
  ultimately show ?thesis using u rm view3 by (auto simp: v3_def [symmetric] wrote_def fun_eq_iff)
qed

end
