(* ===== verification/Vfs_Spec.thy ===== *)
theory Vfs_Spec
  imports Vfs_Laws
begin

unbundle bit_operations_syntax

text \<open>
  The properties of the virtual file system: it is a map from guest paths to metadata, creating,
  removing and renaming change exactly the entries they name, and the mount table is searched for
  the longest mount point above a path.
\<close>

section \<open>Mount points\<close>

lemma fold_best_step:
  "\<exists>b' l'. fold (best_step g) ms (b, l) = (b', l') \<and> l \<le> l' \<and>
     (\<forall>mp i. (mp, i) \<in> set ms \<and> covers_path mp g \<longrightarrow> int (length mp) \<le> l') \<and>
     ((b', l') = (b, l) \<or> (\<exists>mp i. (mp, i) \<in> set ms \<and> covers_path mp g \<and> b' = (mp, mi_Fstype i) \<and> l' = int (length mp)))"
proof (induction ms arbitrary: b l)
  case (Cons x ms)
  obtain mp i where x: "x = (mp, i)" by fastforce
  show ?case
  proof (cases "covers_path mp g \<and> l < int (length mp)")
    case True
    then have e: "fold (best_step g) (x # ms) (b, l) = fold (best_step g) ms ((mp, mi_Fstype i), int (length mp))"
      by (simp add: best_step_def x)
    show ?thesis
      unfolding e using Cons.IH [of "(mp, mi_Fstype i)" "int (length mp)"] True x
      by (elim exE conjE) (intro exI conjI, assumption, auto)
  next
    case False
    then have e: "fold (best_step g) (x # ms) (b, l) = fold (best_step g) ms (b, l)"
      by (cases b) (auto simp: best_step_def x)
    show ?thesis
      unfolding e using Cons.IH [of b l] False x
      by (elim exE conjE) (intro exI conjI, assumption, auto)
  qed
qed simp

lemma normal_mp: "NormPath mp = mp \<Longrightarrow> mp = slash # join_slash (comps mp)"
  using NormPath_comps [of mp] by simp

lemma covers_normal: "NormPath mp = mp \<Longrightarrow> covers_path mp (NormPath g) \<longleftrightarrow> prefix (comps mp) (comps g)"
  using below_iff [OF comps_plain [of mp] comps_plain [of g]] normal_mp [of mp] NormPath_comps [of g] by (simp add: covers_path_def)

lemma prefix_length_join:
  assumes "list_all plain (as @ bs)" "bs \<noteq> []"
  shows "length (join_slash as) < length (join_slash (as @ bs))"
proof (cases "as = []")
  case True
  have "join_slash bs \<noteq> []" using assms comps_join [of bs] by (auto simp: comps_def norm_step_def)
  then show ?thesis using True by simp
next
  case False
  then show ?thesis using assms(2) by (simp add: join_append)
qed

lemma longer_mount:
  assumes "NormPath a = a" "NormPath b = b" "prefix (comps a) g" "prefix (comps b) g" "length b \<le> length a"
  shows "prefix (comps b) (comps a)"
proof (rule ccontr)
  assume "\<not> prefix (comps b) (comps a)"
  then have "prefix (comps a) (comps b)" using prefix_same_cases assms(3,4) by blast
  then obtain bs where b: "comps b = comps a @ bs" by (auto simp: prefix_def)
  with \<open>\<not> prefix (comps b) (comps a)\<close> have "bs \<noteq> []" by auto
  then have "length (join_slash (comps a)) < length (join_slash (comps b))"
    using prefix_length_join [of "comps a" bs] comps_plain [of b] b by simp
  then show False using normal_mp [OF assms(1)] normal_mp [OF assms(2)] assms(5) by (metis length_Cons not_less_eq_eq not_le)
qed

text \<open>
  \<open>MountPointFor\<close> and \<open>MountType\<close> give the longest mount point at or above a path, component
  by component, and its type, or the empty string when there is none; as the answer is unique it
  does not depend on the order in which Go visits the table.
\<close>

theorem mount_longest_prefix:
  assumes "\<forall>(mp, i) \<in> set (v_mounts (refreshMounts v)). NormPath mp = mp"
  shows "if \<exists>(mp, i) \<in> set (v_mounts (refreshMounts v)). prefix (comps mp) (comps g)
    then \<exists>i. (fst (MountPointFor g v), i) \<in> set (v_mounts (refreshMounts v)) \<and> fst (MountType g v) = mi_Fstype i \<and>
      prefix (comps (fst (MountPointFor g v))) (comps g) \<and>
      (\<forall>(mp, j) \<in> set (v_mounts (refreshMounts v)). prefix (comps mp) (comps g) \<longrightarrow> prefix (comps mp) (comps (fst (MountPointFor g v))))
    else fst (MountPointFor g v) = '''' \<and> fst (MountType g v) = ''''"
proof -
  let ?ms = "v_mounts (refreshMounts v)"
  obtain b l where f: "best_mount (NormPath g) ?ms = (b, l)" "-1 \<le> l"
      "\<And>mp i. (mp, i) \<in> set ?ms \<Longrightarrow> covers_path mp (NormPath g) \<Longrightarrow> int (length mp) \<le> l"
      "(b, l) = (('''', ''''), -1) \<or> (\<exists>mp i. (mp, i) \<in> set ?ms \<and> covers_path mp (NormPath g) \<and> b = (mp, mi_Fstype i) \<and> l = int (length mp))"
    using fold_best_step [of "NormPath g" ?ms "('''', '''')" "-1"] unfolding best_mount_def by blast
  have norm: "NormPath mp = mp" if "(mp, i) \<in> set ?ms" for mp i using assms that by blast
  have mp: "fst (MountPointFor g v) = fst b" "fst (MountType g v) = snd b"
    using f(1) by (simp_all add: MountPointFor_def MountType_def Let_def)
  show ?thesis
  proof (cases "\<exists>(mp, i) \<in> set ?ms. prefix (comps mp) (comps g)")
    case True
    then obtain mp0 i0 where "(mp0, i0) \<in> set ?ms" "covers_path mp0 (NormPath g)"
      using covers_normal norm by blast
    then have "l \<noteq> -1" using f(3) [of mp0 i0] by auto
    then obtain mp i where m: "(mp, i) \<in> set ?ms" "covers_path mp (NormPath g)" "b = (mp, mi_Fstype i)" "l = int (length mp)"
      using f(4) by auto
    have pm: "prefix (comps mp) (comps g)" using m(2) covers_normal [OF norm [OF m(1)]] by simp
    have "prefix (comps mp') (comps mp)" if "(mp', j) \<in> set ?ms" "prefix (comps mp') (comps g)" for mp' j
    proof (rule longer_mount [OF norm [OF m(1)] norm [OF that(1)] pm that(2)])
      show "length mp' \<le> length mp" using f(3) [OF that(1)] covers_normal [OF norm [OF that(1)]] that(2) m(4) by simp
    qed
    then show ?thesis using True m pm mp by auto
  next
    case False
    then have "(b, l) = (('''', ''''), -1)" using f(4) covers_normal norm by blast
    then show ?thesis using False mp by auto
  qed
qed

section \<open>A small tree\<close>

definition dir_node :: hnode where
  "dir_node = HNode \<lparr>ha_mode = ModeDir OR 0x1ED, ha_uid = 0, ha_gid = 0, ha_rdev = 0, ha_mtime = 0\<rparr> (Raw []) '''' None"

definition file_node :: "fcontent \<Rightarrow> hnode" where
  "file_node c = HNode \<lparr>ha_mode = 0x1A4, ha_uid = 0, ha_gid = 0, ha_rdev = 0, ha_mtime = 0\<rparr> c '''' None"

lemma node_simps [simp]: "is_dir dir_node" "\<not> is_link dir_node" "\<not> is_dir (file_node c)" "\<not> is_link (file_node c)" "hn_content (file_node c) = c"
    "ha_mtime (hn_attr (file_node c)) = 0"
  by (simp_all add: dir_node_def file_node_def is_dir_def is_link_def mode_defs)

definition demo_vfs :: "(hpath \<times> hnode) list \<Rightarrow> vfs" where
  "demo_vfs t = \<lparr>v_NativePerms = False, v_mounts = [], v_mountsMTime = 7,
     v_tree = ([], dir_node) # ([''d''], dir_node) # ([''f''], file_node (Raw [1, 2])) # t, v_now = 0,
     v_parseMeta = (\<lambda>_. None), v_parseMounts = (\<lambda>_. None)\<rparr>"

lemma demo_lstat:
  "lstat (demo_vfs t) q = (if q = [] \<or> q = [''d''] then Some dir_node else if q = [''f''] then Some (file_node (Raw [1, 2])) else map_of t q)"
  by (simp add: os_Lstat_def demo_vfs_def)

lemma demo_names [simp]: "utf8_valid ''d''" "utf8_valid ''f''" "utf8_valid ''s''" "utf8_valid ''x''"
  by (rule utf8_valid_ascii; simp)+

lemma demo_vfs_wf: "t = [] \<or> t = [([''d'', Sidecar], file_node (MetaJson []))] \<Longrightarrow> vfs_wf (demo_vfs t)"
  unfolding vfs_wf_def demo_lstat
  by (auto simp: demo_vfs_def reserved_def Sidecar_def LegacySidecar_def append_eq_Cons_conv split: if_splits)

lemma demo_dirs [simp]: "t = [] \<or> t = [([''d'', Sidecar], file_node (MetaJson []))] \<Longrightarrow> host_dir [] (demo_vfs t)"
    "t = [] \<or> t = [([''d'', Sidecar], file_node (MetaJson []))] \<Longrightarrow> host_dir [''d''] (demo_vfs t)"
  by (simp_all add: host_dir_wf [OF demo_vfs_wf] demo_lstat)

lemma demo_comps [simp]: "comps ''/d'' = [''d'']" "comps ''/f'' = [''f'']" "comps ''/s'' = [''s'']" "comps ''/d/x'' = [''d'', ''x'']" "comps [] = []"
    "comps ''d'' = [''d'']" "comps ''f'' = [''f'']" "comps ''s'' = [''s'']" "comps ''d/x'' = [''d'', ''x'']"
  by (simp_all add: comps_def norm_step_def)

lemma demo_guest [simp]: "guest_path [''d'']" "guest_path [''f'']" "guest_path [''s'']" "guest_path [''d'', ''x'']"
  by (simp_all add: guest_path_def plain_def reserved_def Sidecar_def LegacySidecar_def)

lemma demo_side: "t = [] \<or> t = [([''d'', Sidecar], file_node (MetaJson []))] \<Longrightarrow> side (demo_vfs t) d = []"
  by (auto simp: side_def demo_lstat Sidecar_def unmarshalMeta_def json_map_def)

lemma demo_not_skipped [simp]: "\<not> skipped ''d''" "\<not> skipped ''f''" "\<not> skipped ''s''" "\<not> skipped ''x''"
  by (simp_all add: skipped_def hasSuffix_def hasPrefix_def Sidecar_def LegacySidecar_def)

lemma demo_view:
  assumes "t = [] \<or> t = [([''d'', Sidecar], file_node (MetaJson []))]"
  shows "meta_view (demo_vfs t) [''d''] = Some (mk_Meta ''dir'' AutohealMode '''' 0)"
    "meta_view (demo_vfs t) [''f''] = Some (mk_Meta ''reg'' AutohealMode '''' 0)"
    "meta_view (demo_vfs t) [''s''] = None" "meta_view (demo_vfs t) [''d'', ''x''] = None"
  using assms by (auto simp: meta_view_def plain_def entry_view_def demo_side healed_def demo_lstat autoheal_def Sidecar_def)

section \<open>Metadata\<close>

text \<open>
  C29. The sidecar files implement a map from guest paths to metadata. Reading the metadata of any
  path is a lookup in the map, a file of the host that was never registered included, and leaves the
  map as it is; registering a symbolic link and updating the metadata of a path whose parent
  directory exists and whose name is valid UTF-8 change exactly that path; and the link's target is
  read back, with each byte that is not valid UTF-8 replaced by U+FFFD, as JSON does (\<open>utf8_coerce\<close>,
  the identity on valid UTF-8). On the host none of them touches anything but sidecar files.
\<close>

theorem metadata_is_a_map:
  assumes "vfs_wf v" and "comps g = d @ [n]" and "host_dir d v" and "utf8_valid n"
  shows "(\<exists>v'. GetMeta h v = ((case meta_view v (comps h) of None \<Rightarrow> Inl (VFSError 2) | Some m \<Rightarrow> Inr m), v') \<and>
       vfs_wf v' \<and> meta_view v' = meta_view v \<and> only_sidecars {butlast (comps h)} v v') \<and>
    (\<exists>v' v''. Symlink target g v = (Inr (), v') \<and> vfs_wf v' \<and>
       meta_view v' = (meta_view v)(comps g \<mapsto> mk_Meta ''lnk'' 0x1FF (utf8_coerce target) 0) \<and> only_sidecars {d} v v' \<and>
       Readlink g v' = (Inr (utf8_coerce target), v'')) \<and>
    (\<exists>v'. SetMeta g f v = (Inr (), v') \<and> vfs_wf v' \<and> only_sidecars {d} v v' \<and> meta_view v' = (meta_view v)(comps g \<mapsto>
       json_Meta (f (case map_of (side v d) n of None \<Rightarrow> mk_Meta ''reg'' DefaultFileMode '''' 0 | Some m \<Rightarrow> m))))"
proof (intro conjI)
  show "\<exists>v'. GetMeta h v = ((case meta_view v (comps h) of None \<Rightarrow> Inl (VFSError 2) | Some m \<Rightarrow> Inr m), v') \<and>
       vfs_wf v' \<and> meta_view v' = meta_view v \<and> only_sidecars {butlast (comps h)} v v'"
    using GetMeta_spec [OF assms(1), of h] same_view_only by (auto dest: same_viewD)
next
  let ?m = "mk_Meta ''lnk'' 0x1FF (utf8_coerce target) 0"
  have m: "json_Meta (mk_Meta ''lnk'' 0x1FF target 0) = ?m"
    using valid_names(6) by (simp add: json_Meta_def mk_Meta_def utf8_valid_def)
  obtain v' where s: "register g ''lnk'' 0x1FF target 0 v = (Inr (), v')" "wrote (d @ [n]) (Some ?m) v v'"
    using register_spec [OF assms, of "''lnk''" "0x1FF" target 0] unfolding m by blast
  then have v': "vfs_wf v'" "meta_view v' = (meta_view v)(comps g \<mapsto> ?m)" "only_sidecars {d} v v'"
    using assms(2) wrote_only [OF s(2)] by (simp_all add: wrote_def)
  obtain v'' where "GetMeta g v' = (Inr ?m, v'')"
    using GetMeta_spec [OF v'(1), of g] v'(2) by auto
  then have "Readlink g v' = (Inr (utf8_coerce target), v'')" by (simp add: Readlink_def mk_Meta_def)
  with s v' show "\<exists>v' v''. Symlink target g v = (Inr (), v') \<and> vfs_wf v' \<and>
       meta_view v' = (meta_view v)(comps g \<mapsto> mk_Meta ''lnk'' 0x1FF (utf8_coerce target) 0) \<and> only_sidecars {d} v v' \<and>
       Readlink g v' = (Inr (utf8_coerce target), v'')"
    unfolding Symlink_def by blast
next
  show "\<exists>v'. SetMeta g f v = (Inr (), v') \<and> vfs_wf v' \<and> only_sidecars {d} v v' \<and> meta_view v' = (meta_view v)(comps g \<mapsto>
       json_Meta (f (case map_of (side v d) n of None \<Rightarrow> mk_Meta ''reg'' DefaultFileMode '''' 0 | Some m \<Rightarrow> m)))"
    using SetMeta_spec [OF assms, of f] assms(2) wrote_only [of "d @ [n]"] by (auto simp: wrote_def)
qed

lemma metadata_is_a_map_witness:
  "(\<exists>v'. GetMeta ''/d/../f'' (demo_vfs []) = (Inr (mk_Meta ''reg'' AutohealMode '''' 0), v')) \<and>
   (\<exists>v' v''. Symlink ''/f'' ''/s'' (demo_vfs []) = (Inr (), v') \<and> Readlink ''/s'' v' = (Inr ''/f'', v'')) \<and>
   (\<exists>v' v''. Symlink [char_of (255 :: nat)] ''/s'' (demo_vfs []) = (Inr (), v') \<and> Readlink ''/s'' v' = (Inr fffd, v''))"
proof -
  have g: "comps ''/s'' = [] @ [''s'']" by simp
  have f: "comps ''/d/../f'' = [''f'']" by (simp add: comps_def norm_step_def)
  have wf: "vfs_wf (demo_vfs [])" by (rule demo_vfs_wf) simp
  have d: "host_dir [] (demo_vfs [])" by simp
  have s: "utf8_valid ''s''" by simp
  have t: "utf8_coerce ''/f'' = ''/f''" using utf8_valid_ascii [of "''/f''"] by (simp add: utf8_valid_def)
  have x: "utf8_coerce [char_of (255 :: nat)] = fffd" by (simp add: rune_len_def byte_in_def byte_at_def)
  note map = metadata_is_a_map [OF wf g d s, of "''/d/../f''" _ id]
  show ?thesis
    using map [of "''/f''"] map [of "[char_of (255 :: nat)]"] unfolding f demo_view(2) [OF disjI1 [OF refl]] t x by auto
qed

section \<open>Creating, removing, renaming\<close>

text \<open>
  C30. \<open>Mkdir\<close> of a free name, valid UTF-8, in an existing directory adds exactly that directory, with
  the mode given; \<open>Unlink\<close> of a regular file, or of a name that is only metadata, removes exactly that
  name and its content; \<open>Rename\<close> moves a regular file and its metadata, except for the owner, which
  becomes root, and changes no other name. On the host nothing but the named nodes and the sidecar
  files of their directories changes, neither existence nor content nor mode.
\<close>

theorem create_remove_rename:
  assumes "vfs_wf v" and "comps g = d @ [n]" "guest_path (comps g)" and "host_dir d v"
  shows "(meta_view v (comps g) = None \<and> lstat v (comps g) = None \<and> utf8_valid n \<longrightarrow>
      (\<exists>v'. Mkdir g md v = (Inr (), v') \<and> vfs_wf v' \<and> host_dir (comps g) v' \<and>
         meta_view v' = (meta_view v)(comps g \<mapsto> mk_Meta ''dir'' md '''' 0) \<and>
         (\<forall>q. q \<noteq> comps g \<and> \<not> sidecar_file {d} q \<longrightarrow> lstat v' q = lstat v q))) \<and>
    (\<forall>m. meta_view v (comps g) = Some m \<and> mt_Type m \<noteq> ''dir'' \<and> (lstat v (comps g) = None \<or> mt_Type m = ''reg'' \<and> \<not> host_dir (comps g) v) \<longrightarrow>
      (\<exists>v'. Unlink g v = (Inr (), v') \<and> vfs_wf v' \<and> meta_view v' = (meta_view v)(comps g := None) \<and> lstat v' (comps g) = None \<and>
         (\<forall>q. q \<noteq> comps g \<and> \<not> sidecar_file {d} q \<longrightarrow> lstat v' q = lstat v q))) \<and>
    (\<forall>h m f. comps h \<noteq> comps g \<and> guest_path (comps h) \<and> comps h \<noteq> [] \<and> utf8_valid (last (comps h)) \<and>
        host_dir (butlast (comps h)) v \<and> \<not> host_dir (comps h) v \<and>
        meta_view v (comps g) = Some m \<and> mt_Type m = ''reg'' \<and> lstat v (comps g) = Some f \<and> \<not> is_dir f \<longrightarrow>
      (\<exists>v'. Rename g h v = (Inr (), v') \<and> vfs_wf v' \<and> lstat v' (comps h) = Some f \<and> lstat v' (comps g) = None \<and>
         meta_view v' = (meta_view v)(comps h \<mapsto> mk_Meta ''reg'' (mt_Mode m) (mt_Target m) (mt_Rdev m), comps g := None) \<and>
         (\<forall>q. q \<noteq> comps g \<and> q \<noteq> comps h \<and> \<not> sidecar_file {d, butlast (comps h)} q \<longrightarrow> lstat v' q = lstat v q)))"
proof (intro conjI impI allI)
  have p: "guest_path (d @ [n])" using assms by simp
  show "\<exists>v'. Mkdir g md v = (Inr (), v') \<and> vfs_wf v' \<and> host_dir (comps g) v' \<and> meta_view v' = (meta_view v)(comps g \<mapsto> mk_Meta ''dir'' md '''' 0) \<and>
      (\<forall>q. q \<noteq> comps g \<and> \<not> sidecar_file {d} q \<longrightarrow> lstat v' q = lstat v q)"
    if "meta_view v (comps g) = None \<and> lstat v (comps g) = None \<and> utf8_valid n"
    using Mkdir_spec [OF assms(1,2) p assms(4), of md] that unfolding assms(2) by simp
  show "\<exists>v'. Unlink g v = (Inr (), v') \<and> vfs_wf v' \<and> meta_view v' = (meta_view v)(comps g := None) \<and> lstat v' (comps g) = None \<and>
      (\<forall>q. q \<noteq> comps g \<and> \<not> sidecar_file {d} q \<longrightarrow> lstat v' q = lstat v q)"
    if "meta_view v (comps g) = Some m \<and> mt_Type m \<noteq> ''dir'' \<and> (lstat v (comps g) = None \<or> mt_Type m = ''reg'' \<and> \<not> host_dir (comps g) v)" for m
    using Unlink_spec [OF assms(1,2) p, of m] that unfolding assms(2) by blast
  fix h m f
  assume a: "comps h \<noteq> comps g \<and> guest_path (comps h) \<and> comps h \<noteq> [] \<and> utf8_valid (last (comps h)) \<and>
        host_dir (butlast (comps h)) v \<and> \<not> host_dir (comps h) v \<and>
        meta_view v (comps g) = Some m \<and> mt_Type m = ''reg'' \<and> lstat v (comps g) = Some f \<and> \<not> is_dir f"
  then obtain e k where h: "comps h = e @ [k]" by (metis rev_exhaust)
  have hb: "butlast (comps h) = e" "last (comps h) = k" by (simp_all add: h)
  show "\<exists>v'. Rename g h v = (Inr (), v') \<and> vfs_wf v' \<and> lstat v' (comps h) = Some f \<and> lstat v' (comps g) = None \<and>
         meta_view v' = (meta_view v)(comps h \<mapsto> mk_Meta ''reg'' (mt_Mode m) (mt_Target m) (mt_Rdev m), comps g := None) \<and>
         (\<forall>q. q \<noteq> comps g \<and> q \<noteq> comps h \<and> \<not> sidecar_file {d, butlast (comps h)} q \<longrightarrow> lstat v' q = lstat v q)"
    using Rename_spec [OF assms(1,2) p h, of m f] a unfolding hb unfolding h assms(2) by metis
qed

lemma create_remove_rename_witness:
  "(\<exists>v'. Mkdir ''/d/x'' 0x1C0 (demo_vfs []) = (Inr (), v') \<and> meta_view v' [''d'', ''x''] = Some (mk_Meta ''dir'' 0x1C0 '''' 0)) \<and>
   (\<exists>v'. Unlink ''/f'' (demo_vfs []) = (Inr (), v') \<and> meta_view v' [''f''] = None) \<and>
   (\<exists>v'. Rename ''/f'' ''/d/x'' (demo_vfs []) = (Inr (), v') \<and> meta_view v' [''f''] = None \<and>
      lstat v' [''d'', ''x''] = Some (file_node (Raw [1, 2])))"
proof -
  let ?v = "demo_vfs []"
  have wf: "vfs_wf ?v" by (rule demo_vfs_wf) simp
  have x: "comps ''/d/x'' = [''d''] @ [''x'']" and f: "comps ''/f'' = [] @ [''f'']" by simp_all
  have gx: "guest_path (comps ''/d/x'')" and gf: "guest_path (comps ''/f'')" by simp_all
  have d: "host_dir [''d''] ?v" "host_dir [] ?v" by simp_all
  have nd: "\<not> host_dir [''f''] ?v" "\<not> host_dir [''d'', ''x''] ?v" "lstat ?v [''d'', ''x''] = None"
    by (simp_all add: host_dir_wf [OF wf] demo_lstat)
  have u: "utf8_valid ''x''" by simp
  have l: "lstat ?v [''f''] = Some (file_node (Raw [1, 2]))" by (simp add: demo_lstat)
  note view = demo_view [of "[]", OF disjI1 [OF refl]]
  have "\<exists>v'. Mkdir ''/d/x'' 0x1C0 ?v = (Inr (), v') \<and> meta_view v' [''d'', ''x''] = Some (mk_Meta ''dir'' 0x1C0 '''' 0)"
    using create_remove_rename [OF wf x gx d(1), THEN conjunct1, of "0x1C0"] view nd u by auto
  moreover have "\<exists>v'. Unlink ''/f'' ?v = (Inr (), v') \<and> meta_view v' [''f''] = None"
    using create_remove_rename [OF wf f gf d(2), THEN conjunct2, THEN conjunct1] view nd by (auto simp: mk_Meta_def)
  moreover have "\<exists>v'. Rename ''/f'' ''/d/x'' ?v = (Inr (), v') \<and> meta_view v' [''f''] = None \<and>
      lstat v' [''d'', ''x''] = Some (file_node (Raw [1, 2]))"
    using create_remove_rename [OF wf f gf d(2), THEN conjunct2, THEN conjunct2, rule_format, of "''/d/x''" "mk_Meta ''reg'' AutohealMode '''' 0" "file_node (Raw [1, 2])"]
      view nd l gx d u by (auto simp: mk_Meta_def)
  ultimately show ?thesis by blast
qed

text \<open>
  \<open>Rmdir\<close> removes a directory that has nothing in it on the host. Once a sidecar file has been
  written into a directory, which registering any entry does, removing the directory fails however
  many of its entries are removed again: the host finds the sidecar file in it.
\<close>

theorem rmdir_needs_bare_directory:
  assumes "vfs_wf v" and "comps g = d @ [n]" "guest_path (comps g)"
    and "meta_view v (comps g) = Some m" "mt_Type m = ''dir''" "host_dir (comps g) v"
  shows "((\<forall>c. lstat v (comps g @ [c]) = None) \<longrightarrow>
      (\<exists>v'. Rmdir g v = (Inr (), v') \<and> vfs_wf v' \<and> lstat v' (comps g) = None \<and> meta_view v' = (meta_view v)(comps g := None))) \<and>
    (lstat v (comps g @ [Sidecar]) \<noteq> None \<and> (\<forall>c. c \<noteq> ''.'' \<longrightarrow> entry_view v (comps g) c = None) \<longrightarrow>
      (\<exists>v'. Rmdir g v = (Inl HostError, v') \<and> vfs_wf v' \<and> meta_view v' = meta_view v))"
proof (intro conjI impI)
  have p: "guest_path (d @ [n])" using assms by simp
  show "\<exists>v'. Rmdir g v = (Inr (), v') \<and> vfs_wf v' \<and> lstat v' (comps g) = None \<and> meta_view v' = (meta_view v)(comps g := None)"
    if "\<forall>c. lstat v (comps g @ [c]) = None"
    using Rmdir_bare [OF assms(1,2) p] assms that by auto
  show "\<exists>v'. Rmdir g v = (Inl HostError, v') \<and> vfs_wf v' \<and> meta_view v' = meta_view v"
    if "lstat v (comps g @ [Sidecar]) \<noteq> None \<and> (\<forall>c. c \<noteq> ''.'' \<longrightarrow> entry_view v (comps g) c = None)"
  proof -
    have "lstat v (d @ [n, Sidecar]) \<noteq> None" "\<forall>c. c \<noteq> ''.'' \<longrightarrow> entry_view v (d @ [n]) c = None"
      using that assms(2) by simp_all
    with Rmdir_sidecar [OF assms(1,2) p] assms(2,4,5,6) obtain v' where "Rmdir g v = (Inl HostError, v')" "same_view v v'"
      by (metis (no_types, lifting))
    then show ?thesis by (auto dest: same_viewD)
  qed
qed

lemma rmdir_needs_bare_directory_witness:
  "(\<exists>v'. Rmdir ''/d'' (demo_vfs []) = (Inr (), v') \<and> meta_view v' [''d''] = None) \<and>
   (\<exists>v'. Rmdir ''/d'' (demo_vfs [([''d'', Sidecar], file_node (MetaJson []))]) = (Inl HostError, v') \<and> meta_view v' [''d''] \<noteq> None)"
proof -
  let ?t = "[([''d'', Sidecar], file_node (MetaJson []))]"
  have g: "comps ''/d'' = [] @ [''d'']" "guest_path (comps ''/d'')" by simp_all
  have wf: "vfs_wf (demo_vfs [])" "vfs_wf (demo_vfs ?t)" by (auto intro: demo_vfs_wf)
  have t: "mt_Type (mk_Meta ''dir'' AutohealMode '''' 0) = ''dir''" by (simp add: mk_Meta_def)
  have m: "meta_view (demo_vfs []) (comps ''/d'') = Some (mk_Meta ''dir'' AutohealMode '''' 0)"
      "meta_view (demo_vfs ?t) (comps ''/d'') = Some (mk_Meta ''dir'' AutohealMode '''' 0)"
    using demo_view(1) by simp_all
  have h: "host_dir (comps ''/d'') (demo_vfs [])" "host_dir (comps ''/d'') (demo_vfs ?t)" by simp_all
  have "\<forall>c. lstat (demo_vfs []) (comps ''/d'' @ [c]) = None" by (simp add: demo_lstat)
  then have "\<exists>v'. Rmdir ''/d'' (demo_vfs []) = (Inr (), v') \<and> meta_view v' [''d''] = None"
    using rmdir_needs_bare_directory [OF wf(1) g m(1) t h(1)] by auto
  moreover have "lstat (demo_vfs ?t) (comps ''/d'' @ [Sidecar]) \<noteq> None" by (simp add: demo_lstat)
  moreover have "\<forall>c. c \<noteq> ''.'' \<longrightarrow> entry_view (demo_vfs ?t) (comps ''/d'') c = None"
    using demo_side [of ?t "[''d'']"] by (auto simp: entry_view_def healed_def demo_lstat skipped_def)
  ultimately show ?thesis
    using rmdir_needs_bare_directory [OF wf(2) g m(2) t h(2)] m(2) by auto
qed

lemma mount_longest_prefix_witness:
  "fst (MountPointFor ''/proc/self/x'' (demo_vfs [([mountsFile], file_node (MountsJson
      [(''/'', \<lparr>mi_Source = ''none'', mi_Fstype = ''tmpfs'', mi_Flags = 0, mi_Data = ''''\<rparr>),
       (''/proc'', \<lparr>mi_Source = ''none'', mi_Fstype = ''proc'', mi_Flags = 0, mi_Data = ''''\<rparr>)]))])) = ''/proc''"
proof -
  let ?ms = "[(''/'', \<lparr>mi_Source = ''none'', mi_Fstype = ''tmpfs'', mi_Flags = 0, mi_Data = ''''\<rparr>),
       (''/proc'', \<lparr>mi_Source = ''none'', mi_Fstype = ''proc'', mi_Flags = 0, mi_Data = ''''\<rparr>)] :: (string \<times> MountInfo) list"
  let ?v = "demo_vfs [([mountsFile], file_node (MountsJson ?ms))]"
  have st: "os_Stat [mountsFile] ?v = Some (file_node (MountsJson ?ms))"
    by (simp add: os_Stat_def demo_lstat mountsFile_def)
  have mig: "migrateLegacyMountsFile ?v = ?v" by (simp add: migrateLegacyMountsFile_def st)
  have "utf8_valid ''none''" "utf8_valid ''tmpfs''" "utf8_valid ''proc''" "utf8_valid ''/''" "utf8_valid ''/proc''"
    by (rule utf8_valid_ascii; simp)+
  then have "json_fixed json_MountInfo ?ms" using valid_names(7) by (simp add: json_fixed_def json_MountInfo_def utf8_valid_def)
  then have j: "json_map json_MountInfo ?ms = ?ms" by (rule json_map_fixed)
  have m: "v_mounts (refreshMounts ?v) = ?ms"
    unfolding refreshMounts_def mig Let_def by (simp add: st os_ReadFile_def unmarshalMounts_def j) (simp add: demo_vfs_def)
  have n: "NormPath ''/'' = ''/''" "NormPath ''/proc'' = ''/proc''" by (simp_all add: NormPath_def hasPrefix_def norm_step_def)
  have c: "comps ''proc'' = [''proc'']" "comps ''proc/self/x'' = [''proc'', ''self'', ''x'']" by (simp_all add: comps_def norm_step_def)
  have a: "\<forall>(mp, i) \<in> set (v_mounts (refreshMounts ?v)). NormPath mp = mp" unfolding m using n by simp
  from mount_longest_prefix [OF a, of "''/proc/self/x''"] show ?thesis
    unfolding m by (auto simp: c)
qed

end
