(* ===== verification/Process.thy ===== *)
theory Process
  imports Engine_Runs Fds_Laws Elf_Laws Vfs
begin

unbundle bit_operations_syntax

text \<open>
  The emulated process of \<open>internal/emulator/emulator.go\<close>: brk and mmap, ELF loading with relocations
  and the initial stack, the SYSCALL and CPUID hooks, execve, fork and wait4, and the run loop. A
  process extends the engine, so that it is what the engine's hooks act on. The parts Go shares between
  the processes of a fork tree (the VFS, reference counts, open files, the pid counter) are fields too:
  the model follows one process, and a child starts with the values they have at the fork. Log output
  is not modelled.
\<close>

section \<open>Constants\<close>

abbreviation page :: u64 where "page \<equiv> 0x1000"

abbreviation (input) RegR8 :: nat where "RegR8 \<equiv> 8"
abbreviation (input) RegR9 :: nat where "RegR9 \<equiv> 9"
abbreviation (input) RegR10 :: nat where "RegR10 \<equiv> 10"

definition mmapBase :: u64 where "mmapBase = 0x600000000000"
definition mmapMax :: u64 where "mmapMax = 0x6fffffff0000"
definition interpBase :: u64 where "interpBase = 0x7ffff7fc0000"
definition pieBase :: u64 where "pieBase = 0x555555554000"
definition stackTop :: u64 where "stackTop = 0x7ffffffff000"
definition stackSize :: u64 where "stackSize = 8 * 1024 * 1024"

definition pageAlignDown :: "u64 \<Rightarrow> u64" where
  "pageAlignDown x = x AND NOT (page - 1)"

definition pageAlignUp :: "u64 \<Rightarrow> u64" where
  "pageAlignUp x = (x + page - 1) AND NOT (page - 1)"

definition PROT_READ :: u64 where "PROT_READ = 1"
definition PROT_WRITE :: u64 where "PROT_WRITE = 2"
definition PROT_EXEC :: u64 where "PROT_EXEC = 4"
definition MAP_FIXED :: u64 where "MAP_FIXED = 0x10"
definition MAP_ANONYMOUS :: u64 where "MAP_ANONYMOUS = 0x20"

definition protToEngine :: "u64 \<Rightarrow> u64" where
  "protToEngine prot =
     (if prot AND PROT_READ \<noteq> 0 then ProtRead else 0) OR
     (if prot AND PROT_WRITE \<noteq> 0 then ProtWrite else 0) OR
     (if prot AND PROT_EXEC \<noteq> 0 then ProtExec else 0)"

section \<open>State\<close>

text \<open>
  What an open file is, as far as a process looks at it: a regular file by its guest path and the
  bytes the host holds, a synthetic file, a directory, a nameless temporary file by its host path, mode
  and \<open>Linked\<close> flag, a standard stream or device by its name (a terminal device with the
  open files it reads and writes), or a pipe end or a socket by its host
  descriptor (a socket with its non-blocking flag). Open files are objects that several descriptors
  share: \<open>pd_files\<close> has them by number, \<open>pd_nextFile\<close> is the next unused number.
\<close>

datatype gofile = VFSFile string "u8 list" | StaticFileF string static_file | DirHandleF dir_handle | TmpFileF hpath int bool | StreamF string |
  TtyF string "nat option" "nat option" | PipeEndF int | SocketF int bool

record childRecord =
  cr_pid :: int
  cr_exit :: "int option"
  cr_reaped :: bool

record proc_data =
  pd_root :: string
  pd_vfs :: vfs
  pd_argv :: "string list"
  pd_envp :: "string list"
  pd_cwd :: string
  pd_pid :: int
  pd_ppid :: int
  pd_blockJIT :: bool
  pd_hostname :: string
  pd_refs :: fileRefs
  pd_fds :: fd_table
  pd_files :: "nat \<Rightarrow> gofile"
  pd_nextFile :: nat
  pd_mmapNext :: u64
  pd_brkStart :: u64
  pd_brkCur :: u64
  pd_brkMappedEnd :: u64
  pd_fsbase :: u64
  pd_umask :: u64
  pd_uid :: u32
  pd_gid :: u32
  pd_euid :: u32
  pd_egid :: u32
  pd_suid :: u32
  pd_sgid :: u32
  pd_fsuid :: u32
  pd_fsgid :: u32
  pd_groups :: "u32 list"
  pd_entry :: u64
  pd_exitCode :: "int option"
  pd_panic :: bool
  pd_blocked :: bool
  pd_cpuidPending :: bool
  pd_cpuidResumeRIP :: u64
  pd_pendingExec :: "(string \<times> string list \<times> string list option) option"
  pd_nextPid :: int
  pd_children :: "childRecord list"

text \<open>
  \<open>pr_spawned\<close>: the children whose goroutine was started, by the engine and the data they start with.
\<close>

record process = engine +
  pr_data :: proc_data
  pr_spawned :: "(engine \<times> proc_data) list"

definition default_env :: "string list" where
  "default_env = [''PATH=/usr/local/sbin:/usr/local/bin:/usr/sbin:/usr/bin:/sbin:/bin'', ''HOME=/root'', ''TERM=xterm'']"

text \<open>The pid is the host's; the standard streams are the files \<open>f0\<close>, \<open>f1\<close>, \<open>f2\<close>.\<close>

definition new_data :: "string \<Rightarrow> vfs \<Rightarrow> string list \<Rightarrow> string list option \<Rightarrow> string \<Rightarrow> int \<Rightarrow> nat \<Rightarrow> nat \<Rightarrow> nat \<Rightarrow> proc_data" where
  "new_data root vv argv envp cwd pid f0 f1 f2 = (let (refs, fds) = NewTable f0 f1 f2 in
     \<lparr>pd_root = root, pd_vfs = vv, pd_argv = argv, pd_envp = (case envp of None \<Rightarrow> default_env | Some e \<Rightarrow> e), pd_cwd = cwd,
      pd_pid = pid, pd_ppid = 0, pd_blockJIT = False, pd_hostname = ''golinux'', pd_refs = refs, pd_fds = fds,
      pd_files = (\<lambda>f. StreamF (if f = f0 then ''stdin'' else if f = f1 then ''stdout'' else ''stderr'')),
      pd_nextFile = f0 + f1 + f2 + 1, pd_mmapNext = mmapBase, pd_brkStart = 0, pd_brkCur = 0, pd_brkMappedEnd = 0, pd_fsbase = 0,
      pd_umask = 18, pd_uid = 0, pd_gid = 0, pd_euid = 0, pd_egid = 0, pd_suid = 0, pd_sgid = 0, pd_fsuid = 0, pd_fsgid = 0,
      pd_groups = [], pd_entry = 0, pd_exitCode = None, pd_panic = False, pd_blocked = False, pd_cpuidPending = False, pd_cpuidResumeRIP = 0, pd_pendingExec = None,
      pd_nextPid = 2 ^ 23, pd_children = []\<rparr>)"

definition mk_process :: "engine \<Rightarrow> proc_data \<Rightarrow> (engine \<times> proc_data) list \<Rightarrow> process" where
  "mk_process e d sp = engine.extend e \<lparr>pr_data = d, pr_spawned = sp\<rparr>"

definition NewProcess :: "string \<Rightarrow> vfs \<Rightarrow> string list \<Rightarrow> string list option \<Rightarrow> string \<Rightarrow> int \<Rightarrow> nat \<Rightarrow> nat \<Rightarrow> nat \<Rightarrow> process" where
  "NewProcess root vv argv envp cwd pid f0 f1 f2 = mk_process NewEngine (new_data root vv argv envp cwd pid f0 f1 f2) []"

abbreviation upd_data :: "(proc_data \<Rightarrow> proc_data) \<Rightarrow> process \<Rightarrow> process" where
  "upd_data f p \<equiv> p\<lparr>pr_data := f (pr_data p)\<rparr>"

text \<open>The engine's memory and register calls.\<close>

definition on_mem :: "(memory, 'e, 'a) sem \<Rightarrow> ('p engine_scheme, 'e, 'a) sem" where
  "on_mem f = (\<lambda>e. let (r, m) = f (e_mem e) in (r, set_e_mem m e))"

definition eRegRead :: "nat \<Rightarrow> 'p engine_scheme \<Rightarrow> u64" where
  "eRegRead reg e = (case RegRead reg (c_regs (e_cpu e)) of Inl _ \<Rightarrow> 0 | Inr v \<Rightarrow> v)"

definition eRegWrite :: "nat \<Rightarrow> u64 \<Rightarrow> 'p engine_scheme \<Rightarrow> 'p engine_scheme" where
  "eRegWrite reg val e = e\<lparr>e_cpu := (e_cpu e)\<lparr>c_regs := snd (RegWrite reg val (c_regs (e_cpu e)))\<rparr>\<rparr>"

definition SetProcBlockJIT :: "bool \<Rightarrow> process \<Rightarrow> process" where
  "SetProcBlockJIT enabled p = SetBlockJIT enabled (upd_data (\<lambda>d. d\<lparr>pd_blockJIT := enabled\<rparr>) p)"

definition SetUmask :: "u64 \<Rightarrow> process \<Rightarrow> u64 \<times> process" where
  "SetUmask newMask p = (pd_umask (pr_data p), upd_data (\<lambda>d. d\<lparr>pd_umask := newMask AND 0x1FF\<rparr>) p)"

definition SetFSBase :: "u64 \<Rightarrow> process \<Rightarrow> process" where
  "SetFSBase addr p = eRegWrite RegFSBASE addr (upd_data (\<lambda>d. d\<lparr>pd_fsbase := addr\<rparr>) p)"

section \<open>Memory regions\<close>

definition DoBrk :: "u64 \<Rightarrow> process \<Rightarrow> u64 \<times> process" where
  "DoBrk addr p = (let d = pr_data p in
     if addr = 0 \<or> addr < pd_brkStart d then (pd_brkCur d, p)
     else let needEnd = pageAlignUp addr in
       if pd_brkMappedEnd d < needEnd then
         (case on_mem (MemMap (pd_brkMappedEnd d) (needEnd - pd_brkMappedEnd d) (ProtRead OR ProtWrite)) p of
            (Inl _, p1) \<Rightarrow> (pd_brkCur d, p1)
          | (Inr _, p1) \<Rightarrow> (addr, upd_data (\<lambda>d. d\<lparr>pd_brkMappedEnd := needEnd, pd_brkCur := addr\<rparr>) p1))
       else (addr, upd_data (\<lambda>d. d\<lparr>pd_brkCur := addr\<rparr>) p))"

datatype mmap_error = ArenaExhausted | MapFailed cpu_error | MmapPanic

text \<open>
  \<open>PreadAt\<close> of a regular file; the length and the offset are signed. \<open>make\<close> panics on a negative
  length, and a negative offset is an error of \<open>ReadAt\<close>, which \<open>PreadAt\<close> turns into no bytes.
\<close>

definition VFSFile_PreadAt :: "u8 list \<Rightarrow> u64 \<Rightarrow> u64 \<Rightarrow> u8 list option" where
  "VFSFile_PreadAt data n offset =
     (if sint n < 0 then None
      else if sint offset < 0 then Some []
      else Some (take (unat n) (drop (unat offset) data)))"

definition mmap_file :: "u64 \<Rightarrow> u64 \<Rightarrow> int \<Rightarrow> u64 \<Rightarrow> u64 \<Rightarrow> (process, mmap_error, u64) sem" where
  "mmap_file flags length' fdNum offset base = (\<lambda>p.
     if flags AND MAP_ANONYMOUS \<noteq> 0 then (Inr base, p)
     else case Get fdNum (pd_fds (pr_data p)) of
         None \<Rightarrow> (Inr base, p)
       | Some f \<Rightarrow> (case pd_files (pr_data p) f of
           VFSFile _ content \<Rightarrow> (case VFSFile_PreadAt content length' offset of
               None \<Rightarrow> (Inl MmapPanic, p)
             | Some data \<Rightarrow> (Inr base, snd (on_mem (MemWrite base data) p)))
         | _ \<Rightarrow> (Inr base, p)))"

definition DoMmap :: "u64 \<Rightarrow> u64 \<Rightarrow> u64 \<Rightarrow> u64 \<Rightarrow> int \<Rightarrow> u64 \<Rightarrow> (process, mmap_error, u64) sem" where
  "DoMmap addr length0 prot flags fdNum offset = (\<lambda>p.
     let len = pageAlignUp length0; perms = protToEngine prot in
     if flags AND MAP_FIXED \<noteq> 0 \<and> addr \<noteq> 0 then
       (let base = pageAlignDown addr in
        case on_mem (MemMap base len perms) (snd (on_mem (MemUnmap base len) p)) of
          (Inl err, p1) \<Rightarrow> (Inl (MapFailed err), p1)
        | (Inr _, p1) \<Rightarrow> mmap_file flags len fdNum offset base p1)
     else
       (let base = pd_mmapNext (pr_data p); newNext = base + len in
        if mmapMax < newNext then (Inl ArenaExhausted, p)
        else case on_mem (MemMap base len perms) p of
          (Inl err, p1) \<Rightarrow> (Inl (MapFailed err), p1)
        | (Inr _, p1) \<Rightarrow> mmap_file flags len fdNum offset base (upd_data (\<lambda>d. d\<lparr>pd_mmapNext := newNext\<rparr>) p1)))"

definition DoMunmap :: "u64 \<Rightarrow> u64 \<Rightarrow> process \<Rightarrow> process" where
  "DoMunmap addr len p = snd (on_mem (MemUnmap (pageAlignDown addr) (pageAlignUp len)) p)"

definition DoMprotect :: "u64 \<Rightarrow> u64 \<Rightarrow> u64 \<Rightarrow> (process, cpu_error, unit) sem" where
  "DoMprotect addr len prot = on_mem (MemProtect (pageAlignDown addr) (pageAlignUp len) (protToEngine prot))"

section \<open>Loading an image\<close>

datatype load_error = LoadNoFile | LoadElf elf_error | LoadCpu cpu_error | LoadNoInterp

definition boolMask :: "bool \<Rightarrow> u64 \<Rightarrow> u64" where
  "boolMask b v = (if b then v else 0)"

definition seg_perms :: "u32 \<Rightarrow> u64" where
  "seg_perms flags =
     (let perms = protToEngine (boolMask (flags AND 4 \<noteq> 0) PROT_READ OR boolMask (flags AND 2 \<noteq> 0) PROT_WRITE OR
            boolMask (flags AND 1 \<noteq> 0) PROT_EXEC)
      in if perms = 0 then ProtAll else perms)"

definition cpuS :: "('p engine_scheme, cpu_error, 'a) sem \<Rightarrow> ('p engine_scheme, load_error, 'a) sem" where
  "cpuS f = (\<lambda>e. case f e of (Inl err, e1) \<Rightarrow> (Inl (LoadCpu err), e1) | (Inr a, e1) \<Rightarrow> (Inr a, e1))"

primrec map_segs :: "segment list \<Rightarrow> u64 \<Rightarrow> u64 \<Rightarrow> ('p engine_scheme, load_error, u64) sem" where
  "map_segs [] bias tp = ret tp"
| "map_segs (seg # segs) bias tp =
     (let base = pageAlignDown (sg_Vaddr seg + bias); end' = pageAlignUp (sg_Vaddr seg + bias + sg_Memsz seg) in
      bindE (modS (\<lambda>e. snd (on_mem (MemMap base (end' - base) (seg_perms (sg_Flags seg))) e))) (\<lambda>_.
      bindE (cpuS (on_mem (MemWrite (sg_Vaddr seg + bias) (sg_Data seg)))) (\<lambda>_.
      map_segs segs bias (if tp < end' then end' else tp))))"

definition mapSegments :: "elf_image \<Rightarrow> u64 \<Rightarrow> ('p engine_scheme, load_error, u64) sem" where
  "mapSegments img bias = (case LoadSegments img of
       Inl err \<Rightarrow> fail (LoadElf err)
     | Inr segs \<Rightarrow> map_segs segs bias 0)"

definition R_X86_64_RELATIVE :: u32 where "R_X86_64_RELATIVE = 8"

primrec apply_relas :: "Rela list \<Rightarrow> u64 \<Rightarrow> ('p engine_scheme, load_error, unit) sem" where
  "apply_relas [] bias = ret ()"
| "apply_relas (r # rs) bias =
     (if rl_Type r \<noteq> R_X86_64_RELATIVE then apply_relas rs bias
      else bindE (cpuS (on_mem (MemWrite (bias + rl_Offset r) (u64ToLE (bias + rl_Addend r) 8)))) (\<lambda>_. apply_relas rs bias))"

definition applyRelocations :: "elf_image \<Rightarrow> u64 \<Rightarrow> ('p engine_scheme, load_error, unit) sem" where
  "applyRelocations img bias = (case Relocations img of
       Inl err \<Rightarrow> fail (LoadElf err)
     | Inr relas \<Rightarrow> apply_relas relas bias)"

definition phdrRuntimeAddr :: "elf_image \<Rightarrow> u64 \<Rightarrow> u64" where
  "phdrRuntimeAddr img bias =
     (if IsPIE img then bias + im_Phoff img
      else case find (\<lambda>ph. ph_Type ph = PT_LOAD \<and> ph_Offset ph \<le> im_Phoff img \<and> im_Phoff img < ph_Offset ph + ph_Filesz ph) (im_Segments img) of
          Some ph \<Rightarrow> (ph_Vaddr ph - ph_Offset ph) + im_Phoff img + bias
        | None \<Rightarrow> im_Phoff img + bias)"

section \<open>The initial stack\<close>

definition str_bytes :: "string \<Rightarrow> u8 list" where
  "str_bytes s = map of_char s"

definition pushStr :: "string \<Rightarrow> u64 \<Rightarrow> ('p engine_scheme, cpu_error, u64) sem" where
  "pushStr s tp = (let b = str_bytes s @ [0]; top1 = tp - of_nat (length b) in
     bindE (on_mem (MemWrite top1 b)) (\<lambda>_. ret top1))"

text \<open>The pointers to the strings, and the top below them.\<close>

primrec push_strs :: "string list \<Rightarrow> u64 \<Rightarrow> ('p engine_scheme, cpu_error, u64 list \<times> u64) sem" where
  "push_strs [] tp = ret ([], tp)"
| "push_strs (s # ss) tp =
     bindE (pushStr s tp) (\<lambda>ptr. bindE (push_strs ss ptr) (\<lambda>(ptrs, top1). ret (ptr # ptrs, top1)))"

definition AT_RANDOM :: u64 where "AT_RANDOM = 25"
definition AT_EXECFN :: u64 where "AT_EXECFN = 31"
definition AT_NULL :: u64 where "AT_NULL = 0"

definition words_bytes :: "u64 list \<Rightarrow> u8 list" where
  "words_bytes ws = concat (map (\<lambda>w. u64ToLE w 8) ws)"

text \<open>
  \<open>rnd\<close> stands for the bytes read from /dev/urandom; \<open>perm\<close> is the order in which Go visits the
  auxiliary vector, a map.
\<close>

definition setupStack :: "u8 list \<Rightarrow> ((u64 \<times> u64) list \<Rightarrow> (u64 \<times> u64) list) \<Rightarrow> string list \<Rightarrow> string list \<Rightarrow>
    (u64 \<times> u64) list \<Rightarrow> string \<Rightarrow> ('p engine_scheme, cpu_error, u64) sem" where
  "setupStack rnd perm argv envp auxv execfn =
     bindE (push_strs argv stackTop) (\<lambda>(argvPtrs, top1).
     bindE (push_strs envp top1) (\<lambda>(envpPtrs, top2).
     bindE (pushStr execfn top2) (\<lambda>execfnPtr.
     let top3 = execfnPtr - 16 in
     bindE (on_mem (MemWrite top3 rnd)) (\<lambda>_.
     let aux = perm (auxv @ [(AT_RANDOM, top3), (AT_EXECFN, execfnPtr)]);
         ws = [of_nat (length argv)] @ argvPtrs @ [0] @ envpPtrs @ [0] @ concat (map (\<lambda>(k, v). [k, v]) aux) @ [AT_NULL, 0];
         arrayStart = (top3 - of_nat (length ws * 8)) AND NOT 0xF in
     bindE (on_mem (MemWrite arrayStart (words_bytes ws))) (\<lambda>_. ret arrayStart)))))"

definition main_auxv :: "elf_image \<Rightarrow> u64 \<Rightarrow> u64 \<Rightarrow> (u64 \<times> u64) list" where
  "main_auxv img bias atBase =
     [(3, phdrRuntimeAddr img bias), (4, ucast (im_Phentsize img)), (5, ucast (im_Phnum img)), (6, page), (7, atBase), (8, 0),
      (9, im_Entry img + bias), (11, 0), (12, 0), (13, 0), (14, 0), (16, 0), (17, 100), (23, 0)]"

text \<open>
  \<open>Load\<close>: \<open>readFile\<close> is \<open>os.ReadFile\<close>. The VFS heals itself when the interpreter is looked up.
\<close>

definition ParseFile :: "(string \<Rightarrow> u8 list option) \<Rightarrow> string \<Rightarrow> ('s, load_error, elf_image) sem" where
  "ParseFile readFile path = (case readFile path of
       None \<Rightarrow> fail LoadNoFile
     | Some data \<Rightarrow> (case ParseBytes data path of Inl err \<Rightarrow> fail (LoadElf err) | Inr img \<Rightarrow> ret img))"

definition interp_string :: "elf_image \<Rightarrow> string" where
  "interp_string img = map (\<lambda>b. char_of (unat b)) (im_Interp img)"

definition load_interp :: "(string \<Rightarrow> u8 list option) \<Rightarrow> elf_image \<Rightarrow> u64 \<Rightarrow> (process, load_error, u64 \<times> u64) sem" where
  "load_interp readFile img entry =
     (if im_Interp img = [] then ret (entry, 0)
      else bindE (\<lambda>p. let (ex, v) = Exists (interp_string img) (pd_vfs (pr_data p)) in (Inr ex, upd_data (\<lambda>d. d\<lparr>pd_vfs := v\<rparr>) p)) (\<lambda>ex.
        if \<not> ex then fail LoadNoInterp
        else bindE (getS (\<lambda>p. HostPath (pd_root (pr_data p)) (interp_string img))) (\<lambda>hostInterp.
          bindE (ParseFile readFile hostInterp) (\<lambda>interpImg.
          bindE (mapSegments interpImg interpBase) (\<lambda>_.
          bindE (applyRelocations interpImg interpBase) (\<lambda>_.
          ret (im_Entry interpImg + interpBase, interpBase)))))))"

definition Load :: "(string \<Rightarrow> u8 list option) \<Rightarrow> u8 list \<Rightarrow> ((u64 \<times> u64) list \<Rightarrow> (u64 \<times> u64) list) \<Rightarrow> string \<Rightarrow> (process, load_error, unit) sem" where
  "Load readFile rnd perm path =
     bindE (ParseFile readFile path) (\<lambda>img. let bias = (if IsPIE img then pieBase else 0) in
     bindE (mapSegments img bias) (\<lambda>tp.
     bindE (applyRelocations img bias) (\<lambda>_.
     bindE (modS (upd_data (\<lambda>d. d\<lparr>pd_brkStart := tp, pd_brkCur := tp, pd_brkMappedEnd := tp\<rparr>))) (\<lambda>_.
     bindE (load_interp readFile img (im_Entry img + bias)) (\<lambda>(entry, atBase).
     bindE (cpuS (on_mem (MemMap (pageAlignDown (stackTop - stackSize)) stackSize (ProtRead OR ProtWrite)))) (\<lambda>_.
     bindE (getS pr_data) (\<lambda>d.
     bindE (cpuS (setupStack rnd perm (pd_argv d) (pd_envp d) (main_auxv img bias atBase) path)) (\<lambda>sp.
     modS (\<lambda>p. upd_data (\<lambda>d. d\<lparr>pd_entry := entry\<rparr>) (eRegWrite RegRIP entry (eRegWrite RegRSP sp p)))))))))))"

section \<open>Hooks\<close>

text \<open>
  What a system call handler answers: the value for RAX, or a control-flow signal. \<open>SysPanic\<close> is a
  run-time panic in the handler, which ends the emulator: the engine is stopped there and \<open>Run\<close>
  answers \<open>RunPanic\<close>. \<open>SysBlock\<close> is a handler that waits for another process: the engine is stopped at
  the SYSCALL and \<open>Run\<close> answers \<open>RunBlocked\<close>; the handlers that block have no effect before they do,
  so waking up is running the SYSCALL again in the state of that time.
\<close>

datatype sys_result = SysPanic | SysBlock | SysRet u64 | SysStop int | SysExecve string "string list" "string list option" | SysFork bool

text \<open>
  \<open>doFork\<close>: \<open>ord\<close> is the order in which Go visits the descriptors of a table. The child starts on a
  goroutine of its own with a copy of the engine.
\<close>

definition child_data :: "proc_data \<Rightarrow> fileRefs \<Rightarrow> fd_table \<Rightarrow> int \<Rightarrow> u64 \<Rightarrow> proc_data" where
  "child_data d refs fds pid resumeRIP = d\<lparr>pd_pid := pid, pd_ppid := pd_pid d, pd_refs := refs, pd_fds := fds, pd_entry := resumeRIP,
     pd_exitCode := None, pd_panic := False, pd_blocked := False, pd_cpuidPending := False, pd_cpuidResumeRIP := 0, pd_pendingExec := None, pd_nextPid := pid, pd_children := []\<rparr>"

definition doFork :: "(fd_table \<Rightarrow> int list) \<Rightarrow> u64 \<Rightarrow> process \<Rightarrow> int \<times> process" where
  "doFork ord resumeRIP p =
     (let d = pr_data p; pid = pd_nextPid d + 1; (refs, fds) = CloneTable (ord (pd_fds d)) (pd_refs d, pd_fds d);
          child = eRegWrite RegRAX 0 (engine_Clone (engine.truncate p))
      in (pid, p\<lparr>pr_data := d\<lparr>pd_nextPid := pid, pd_refs := refs,
                     pd_children := pd_children d @ [\<lparr>cr_pid = pid, cr_exit = None, cr_reaped = False\<rparr>]\<rparr>,
                 pr_spawned := pr_spawned p @ [(child, child_data d refs fds pid resumeRIP)]\<rparr>))"

definition onSyscall :: "(u64 \<Rightarrow> u64 list \<Rightarrow> process \<Rightarrow> sys_result \<times> process) \<Rightarrow> (fd_table \<Rightarrow> int list) \<Rightarrow> process \<Rightarrow> process" where
  "onSyscall disp ord p0 =
     (let rip = eRegRead RegRIP p0;
          args = map (\<lambda>r. eRegRead r p0) [RegRDI, RegRSI, RegRDX, RegR10, RegR8, RegR9]
      in case disp (eRegRead RegRAX p0) args p0 of
          (SysStop code, p) \<Rightarrow>
            (let d = pr_data p; (refs, fds) = CloseAll (ord (pd_fds d)) (pd_refs d, pd_fds d)
             in EmuStop (p\<lparr>pr_data := d\<lparr>pd_exitCode := Some code, pd_refs := refs, pd_fds := fds\<rparr>\<rparr>))
        | (SysExecve path argv envp, p) \<Rightarrow> EmuStop (upd_data (\<lambda>d. d\<lparr>pd_pendingExec := Some (path, argv, envp)\<rparr>) p)
        | (SysFork vfork, p) \<Rightarrow> (let (pid, p1) = doFork ord (rip + 2) p in eRegWrite RegRAX (word_of_int pid) p1)
        | (SysRet r, p) \<Rightarrow> eRegWrite RegRAX r p
        | (SysPanic, p) \<Rightarrow> EmuStop (upd_data (\<lambda>d. d\<lparr>pd_panic := True\<rparr>) p)
        | (SysBlock, p) \<Rightarrow> EmuStop (upd_data (\<lambda>d. d\<lparr>pd_blocked := True, pd_entry := rip\<rparr>) p))"

text \<open>The leaves of CPUID: EAX, EBX, ECX, EDX.\<close>

definition cpuid_leaf :: "u64 \<Rightarrow> u64 \<times> u64 \<times> u64 \<times> u64" where
  "cpuid_leaf leaf =
     (if leaf = 0 then (0x16, 0x756e6547, 0x6c65746e, 0x49656e69)
      else if leaf = 1 then (0x000306A9, 0, 0x00982201, 0x078BFBFF)
      else if leaf = 7 then (0, 0, 0, 0)
      else if leaf = 0x80000000 then (0x80000004, 0, 0, 0)
      else if leaf = 0x80000001 then (0, 0, 1, 0x20000800)
      else (0, 0, 0, 0))"

definition onCpuid :: "process \<Rightarrow> process" where
  "onCpuid p =
     (let (eax, ebx, ecx, edx) = cpuid_leaf (eRegRead RegRAX p AND 0xFFFFFFFF); rip = eRegRead RegRIP p;
          p1 = eRegWrite RegRIP (rip + 2) (eRegWrite RegRDX edx (eRegWrite RegRCX ecx (eRegWrite RegRBX ebx (eRegWrite RegRAX eax p))))
      in upd_data (\<lambda>d. d\<lparr>pd_cpuidResumeRIP := rip + 2, pd_cpuidPending := True\<rparr>) (EmuStop p1))"

definition onMemUnmapped :: "memType \<Rightarrow> u64 \<Rightarrow> nat \<Rightarrow> process \<Rightarrow> bool \<times> process" where
  "onMemUnmapped memType addr sz p = (False, p)"

type_synonym proc_ext = "\<lparr>pr_data :: proc_data, pr_spawned :: (engine \<times> proc_data) list\<rparr>"

definition installHooks :: "(u64 \<Rightarrow> u64 list \<Rightarrow> process \<Rightarrow> sys_result \<times> process) \<Rightarrow> (fd_table \<Rightarrow> int list) \<Rightarrow> proc_ext hooks" where
  "installHooks disp ord =
     HookMemUnmapped onMemUnmapped (HookInsn InsCpuid onCpuid (HookInsn InsSyscall (onSyscall disp ord) \<lparr>h_insn = Map.empty, h_unmap = None\<rparr>))"

section \<open>execve\<close>

text \<open>\<open>ordx\<close> is the order in which Go visits the close-on-exec flags.\<close>

definition execImage :: "(string \<Rightarrow> u8 list option) \<Rightarrow> u8 list \<Rightarrow> ((u64 \<times> u64) list \<Rightarrow> (u64 \<times> u64) list) \<Rightarrow> (fd_table \<Rightarrow> int list) \<Rightarrow>
    string \<Rightarrow> string list \<Rightarrow> string list option \<Rightarrow> (process, load_error, unit) sem" where
  "execImage readFile rnd perm ordx hostPath argv envp = (\<lambda>p.
     let d = pr_data p; (refs, fds) = CloseOnExec (ordx (pd_fds d)) (pd_refs d, pd_fds d);
         d1 = d\<lparr>pd_refs := refs, pd_fds := fds, pd_mmapNext := mmapBase, pd_brkStart := 0, pd_brkCur := 0, pd_brkMappedEnd := 0,
                pd_fsbase := 0, pd_argv := argv, pd_envp := (case envp of None \<Rightarrow> pd_envp d | Some e \<Rightarrow> e)\<rparr>
     in Load readFile rnd perm hostPath (mk_process (SetBlockJIT (pd_blockJIT d) NewEngine) d1 (pr_spawned p)))"

section \<open>wait4\<close>

definition wait_matches :: "int \<Rightarrow> childRecord \<Rightarrow> bool" where
  "wait_matches pid r \<longleftrightarrow> \<not> cr_reaped r \<and> (pid \<le> 0 \<or> cr_pid r = pid)"

primrec reap_first :: "int \<Rightarrow> childRecord list \<Rightarrow> (childRecord \<times> int \<times> childRecord list) option" where
  "reap_first pid [] = None"
| "reap_first pid (r # rs) =
     (case (if wait_matches pid r then cr_exit r else None) of
        Some code \<Rightarrow> Some (r, code, r\<lparr>cr_reaped := True\<rparr> # rs)
      | None \<Rightarrow> map_option (\<lambda>(r', code, rs'). (r', code, r # rs')) (reap_first pid rs))"

text \<open>
  \<open>Wait4\<close>: the first matching child that has exited. When there is none and WNOHANG is not set the
  call blocks until a matching child exits, the value \<open>None\<close>; it is then this call in a state where
  the child's exit is recorded.
\<close>

definition Wait4 :: "int \<Rightarrow> u64 \<Rightarrow> u64 \<Rightarrow> process \<Rightarrow> (u64 \<times> process) option" where
  "Wait4 pid wstatusPtr options p = (let cs = pd_children (pr_data p) in
     if filter (wait_matches pid) cs = [] then Some (- 10, p)
     else case reap_first pid cs of
         None \<Rightarrow> if options AND 1 \<noteq> 0 then Some (0, p) else None
       | Some (r, code, cs') \<Rightarrow>
           (let p1 = upd_data (\<lambda>d. d\<lparr>pd_children := cs'\<rparr>) p;
                status = u64ToLE (push_bit 8 (word_of_int code AND 0xFF)) 4
            in Some (word_of_int (cr_pid r), if wstatusPtr = 0 then p1 else snd (on_mem (MemWrite wstatusPtr status) p1))))"

text \<open>The end of a child's goroutine: its \<open>done\<close> channel is closed with the exit code.\<close>

definition child_exits :: "int \<Rightarrow> int \<Rightarrow> process \<Rightarrow> process" where
  "child_exits pid code p = upd_data (\<lambda>d. d\<lparr>pd_children := map (\<lambda>r. if cr_pid r = pid then r\<lparr>cr_exit := Some code\<rparr> else r) (pd_children d)\<rparr>) p"

section \<open>The run loop\<close>

datatype run_end = RunPanic | RunBlocked | RunExit int | RunHalted cpu_error | RunExecFailed load_error

text \<open>
  \<open>Run\<close>, with fuel for its turns and for the turns of the engine in each of them; \<open>None\<close> is running
  out of fuel.
\<close>

primrec Run :: "nat \<Rightarrow> nat \<Rightarrow> ext_decoders \<Rightarrow> (u64 \<Rightarrow> u64 list \<Rightarrow> process \<Rightarrow> sys_result \<times> process) \<Rightarrow> (fd_table \<Rightarrow> int list) \<Rightarrow>
    (fd_table \<Rightarrow> int list) \<Rightarrow> (string \<Rightarrow> u8 list option) \<Rightarrow> u8 list \<Rightarrow> ((u64 \<times> u64) list \<Rightarrow> (u64 \<times> u64) list) \<Rightarrow> process \<Rightarrow> (run_end \<times> process) option" where
  "Run 0 n X disp ord ordx readFile rnd perm p = None"
| "Run (Suc k) n X disp ord ordx readFile rnd perm p =
     (case EmuStart n X (installHooks disp ord) (pd_entry (pr_data p)) 0
            (upd_data (\<lambda>d. d\<lparr>pd_exitCode := None, pd_panic := False, pd_blocked := False, pd_cpuidPending := False, pd_pendingExec := None\<rparr>) p) of
        None \<Rightarrow> None
      | Some (err, p1) \<Rightarrow> (let d = pr_data p1 in
          if pd_panic d then Some (RunPanic, p1)
          else if pd_blocked d then Some (RunBlocked, p1)
          else case (err, pd_exitCode d, pd_cpuidPending d, pd_pendingExec d) of
            (Some e, None, False, None) \<Rightarrow> Some (RunHalted e, p1)
          | (_, Some code, _, _) \<Rightarrow> Some (RunExit code, p1)
          | (_, None, True, _) \<Rightarrow> Run k n X disp ord ordx readFile rnd perm (upd_data (\<lambda>d. d\<lparr>pd_entry := pd_cpuidResumeRIP d\<rparr>) p1)
          | (_, None, False, Some (path, argv, envp)) \<Rightarrow>
              (case execImage readFile rnd perm ordx (HostPath (pd_root d) path) argv envp p1 of
                 (Inl e, p2) \<Rightarrow> Some (RunExecFailed e, p2)
               | (Inr _, p2) \<Rightarrow> Run k n X disp ord ordx readFile rnd perm p2)
          | (None, None, False, None) \<Rightarrow> Some (RunExit 0, p1)))"

end
