(* ===== verification/Process_Laws.thy ===== *)
theory Process_Laws
  imports Process
begin

unbundle bit_operations_syntax

text \<open>
  The laws of the process: what brk and mmap do to the address space, the initial stack read back,
  relocations, fork, wait4 and CPUID.
\<close>

section \<open>Memory calls of a process\<close>

lemma set_e_mem_simps [simp]:
  "e_mem (set_e_mem m e) = m" "c_regs (e_cpu (set_e_mem m e)) = c_regs (e_cpu e)" "c_curInstrEnd (e_cpu (set_e_mem m e)) = c_curInstrEnd (e_cpu e)"
  "set_e_mem m (set_e_mem m' e) = set_e_mem m e"
  by (simp_all add: set_e_mem_def)

lemma pr_data_mem [simp]: "pr_data (set_e_mem m p) = pr_data p" "pr_spawned (set_e_mem m p) = pr_spawned p"
  by (simp_all add: set_e_mem_def)

lemma upd_data_simps [simp]:
  "e_cpu (p\<lparr>pr_data := d\<rparr>) = e_cpu p" "e_cpu (p\<lparr>pr_spawned := s\<rparr>) = e_cpu p"
  by simp_all

lemma on_mem_eq: "f (e_mem e) = (r, m) \<Longrightarrow> on_mem f e = (r, set_e_mem m e)"
  by (simp add: on_mem_def)

lemma pageAlignDown_eq: "pageAlignDown x = pageAddr x"
  by (simp add: pageAlignDown_def pageAddr_def)

lemma pageAlignUp_aligned: "pageAlignUp x AND pageMask = 0"
  unfolding pageAlignUp_def using andn_and_self [of "x + page - 1" pageMask] by simp

lemma pageAlignUp_unat:
  assumes "unat x + 4095 < 18446744073709551616"
  shows "unat (pageAlignUp x) = (unat x + 4095) div 4096 * 4096" "unat x \<le> unat (pageAlignUp x)" "unat (pageAlignUp x) < unat x + 4096"
proof -
  have "x + page - 1 = x + 4095" by simp
  then have a: "pageAlignUp x = pageAddr (x + 4095)" by (simp add: pageAlignUp_def pageAddr_def add.commute)
  have u: "unat (x + 4095) = unat x + 4095" using assms by (simp add: unat_word_ariths)
  show v: "unat (pageAlignUp x) = (unat x + 4095) div 4096 * 4096"
    unfolding a unat_pageAddr u by (simp add: minus_mod_eq_div_mult)
  show "unat x \<le> unat (pageAlignUp x)" "unat (pageAlignUp x) < unat x + 4096" unfolding v by linarith+
qed

section \<open>brk\<close>

definition brk_ok :: "process \<Rightarrow> bool" where
  "brk_ok p \<longleftrightarrow> mem_wf (e_mem p) \<and> pd_brkMappedEnd (pr_data p) AND pageMask = 0 \<and>
     pd_brkStart (pr_data p) \<le> pd_brkCur (pr_data p) \<and> pd_brkCur (pr_data p) \<le> pd_brkMappedEnd (pr_data p)"

lemma aligned_diff: "a AND pageMask = 0 \<Longrightarrow> b AND pageMask = 0 \<Longrightarrow> (a - b) AND pageMask = 0" for a b :: u64
proof -
  assume a: "a AND pageMask = 0" and b: "b AND pageMask = 0"
  then have d: "4096 dvd unat a" "4096 dvd unat b" by (simp_all add: aligned_iff)
  have "4096 dvd unat (a - b)"
  proof (cases "unat b \<le> unat a")
    case True
    then have "unat (a - b) = unat a - unat b" by (rule unat_sub [unfolded word_le_nat_alt])
    then show ?thesis using d by (simp add: dvd_diff_nat)
  next
    case False
    have "unat (a - b) = 18446744073709551616 + unat a - unat b" using False by (subst unat_sub_if') simp
    moreover have "(4096::nat) dvd 18446744073709551616" by simp
    ultimately show ?thesis using d by (metis dvd_add dvd_diff_nat)
  qed
  then show ?thesis by (simp add: aligned_iff)
qed

lemma brk_data_same:
  "set_e_mem (e_mem p) (upd_data (\<lambda>d. d\<lparr>pd_brkMappedEnd := pd_brkMappedEnd (pr_data p), pd_brkCur := addr\<rparr>) p) =
   upd_data (\<lambda>d. d\<lparr>pd_brkCur := addr\<rparr>) p"
  by (cases "pr_data p") (simp add: set_e_mem_def)

lemma set_e_mem_data: "(set_e_mem m p)\<lparr>pr_data := d\<rparr> = set_e_mem m (p\<lparr>pr_data := d\<rparr>)"
  by (simp add: set_e_mem_def)

lemma DoBrk_grow:
  assumes ok: "brk_ok p" and addr: "addr \<noteq> 0" "pd_brkStart (pr_data p) \<le> addr" "unat addr \<le> 18446744073709547520"
    and free: "\<And>x. pd_brkMappedEnd (pr_data p) \<le> x \<Longrightarrow> x < pageAlignUp addr \<Longrightarrow> mem_at (e_mem p) x = None"
  shows "\<exists>p'. DoBrk addr p = (addr, p') \<and> brk_ok p' \<and>
    p' = set_e_mem (e_mem p') (upd_data (\<lambda>d. d\<lparr>pd_brkMappedEnd := max (pd_brkMappedEnd (pr_data p)) (pageAlignUp addr), pd_brkCur := addr\<rparr>) p) \<and>
    (pageAlignUp addr \<le> pd_brkMappedEnd (pr_data p) \<longrightarrow> p' = upd_data (\<lambda>d. d\<lparr>pd_brkCur := addr\<rparr>) p) \<and>
    (\<forall>x. mem_at (e_mem p') x = (if pd_brkMappedEnd (pr_data p) \<le> x \<and> x < pageAlignUp addr then Some (ProtRead OR ProtWrite, 0) else mem_at (e_mem p) x))"
proof -
  let ?m = "pd_brkMappedEnd (pr_data p)" and ?n = "pageAlignUp addr"
  have nostart: "\<not> addr < pd_brkStart (pr_data p)" using addr(2) by simp
  have up: "unat addr \<le> unat ?n" "unat ?n < unat addr + 4096" using pageAlignUp_unat [of addr] addr(3) by simp_all
  show ?thesis
  proof (cases "?m < ?n")
    case True
    have sz: "unat (?n - ?m) = unat ?n - unat ?m" using True by (simp add: unat_sub word_less_nat_alt word_le_nat_alt)
    have "\<exists>m'. MemMap ?m (?n - ?m) (ProtRead OR ProtWrite) (e_mem p) = (Inr (), m') \<and> mem_wf m' \<and>
        (\<forall>x. mem_at m' x = (if unat (x - ?m) < unat (?n - ?m) then Some (ProtRead OR ProtWrite, 0) else mem_at (e_mem p) x))"
    proof (rule MemMap_fresh)
      show "unat ?m + unat (?n - ?m) < 18446744073709551616" using True up addr(3) unat_u64_less [of ?n] unfolding sz word_less_nat_alt by simp
      show "?n - ?m \<noteq> 0" using True by auto
      show "(?n - ?m) AND pageMask = 0" using ok pageAlignUp_aligned by (auto simp: brk_ok_def intro: aligned_diff)
      show "mem_at (e_mem p) x = None" if "unat (x - ?m) < unat (?n - ?m)" for x
        using that range_iff_index [of ?m "?n - ?m" x] True up addr(3) free [of x] unat_u64_less [of ?n] unfolding sz word_less_nat_alt by simp
    qed (use ok in \<open>auto simp: brk_ok_def\<close>)
    then obtain m' where m': "MemMap ?m (?n - ?m) (ProtRead OR ProtWrite) (e_mem p) = (Inr (), m')" "mem_wf m'"
        "\<And>x. mem_at m' x = (if unat (x - ?m) < unat (?n - ?m) then Some (ProtRead OR ProtWrite, 0) else mem_at (e_mem p) x)"
      by blast
    have rng: "unat (x - ?m) < unat (?n - ?m) \<longleftrightarrow> ?m \<le> x \<and> x < ?n" for x
      using range_iff_index [of ?m "?n - ?m" x] True up addr(3) unat_u64_less [of ?n] unfolding sz word_less_nat_alt by simp
    have "max ?m ?n = ?n" "\<not> ?n \<le> ?m" using True by (simp_all add: max_absorb2 less_imp_le not_le)
    then show ?thesis
      using m' True nostart addr(1,2) up ok pageAlignUp_aligned [of addr] unfolding rng
      by (simp add: DoBrk_def Let_def on_mem_def m'(1) brk_ok_def word_le_nat_alt set_e_mem_data)
  next
    case False
    have "max ?m ?n = ?m" using False by (simp add: max_def)
    moreover have "DoBrk addr p = (addr, upd_data (\<lambda>d. d\<lparr>pd_brkCur := addr\<rparr>) p)"
      using False nostart addr(1) by (simp add: DoBrk_def Let_def)
    ultimately show ?thesis using False addr(2) up ok brk_data_same [of p addr]
      by (auto simp: brk_ok_def word_le_nat_alt word_less_nat_alt)
  qed
qed

section \<open>mmap\<close>

lemma range_nat: "unat a + unat n < 18446744073709551616 \<Longrightarrow> unat (x - a) < unat n \<longleftrightarrow> a \<le> x \<and> x < a + n" for a n x :: u64
  using range_iff_index [of a n x] by simp

lemma in_pages_aligned:
  assumes "a AND pageMask = 0" "n AND pageMask = 0" "n \<noteq> 0" "unat a + unat n \<le> 18446744073709547520"
  shows "in_pages a n x \<longleftrightarrow> unat (x - a) < unat n"
proof -
  have d: "4096 dvd unat a" "4096 dvd unat n" using assms(1,2) by (simp_all add: aligned_iff)
  have pos: "0 < unat n" using assms(3) by (simp add: unat_gt_0)
  have u: "unat (a + n - 1) = unat a + unat n - 1"
    using assms(4) pos by (simp add: unat_sub word_le_nat_alt unat_word_ariths)
  have f: "pageAddr a = a" by (simp add: pageAddr_fix_iff d)
  obtain k where k: "unat a + unat n = 4096 * k" using d by (metis dvd_add dvd_def)
  then have kp: "0 < k" using pos by (cases k) auto
  have "unat (pageAddr (a + n - 1)) = 4096 * (k - 1)"
    unfolding unat_pageAddr u k using kp by (cases k) (simp_all add: mod_less)
  then have "unat (pageAddr (a + n - 1) + 4096) = unat a + unat n"
    using k kp assms(4) by (cases k) (simp_all add: unat_word_ariths)
  moreover have "unat (a + n) = unat a + unat n" using assms(4) by (simp add: unat_word_ariths)
  ultimately have "pageAddr (a + n - 1) + 4096 = a + n" by (metis word_unat_eq_iff)
  then show ?thesis unfolding in_pages_def f using range_nat [of a n x] assms(4) by simp
qed

text \<open>What a successful \<open>MemMap\<close> over a range that was cleared first leaves.\<close>

lemma unmap_then_map:
  assumes "mem_wf m" "a AND pageMask = 0" "n AND pageMask = 0" "n \<noteq> 0" "unat a + unat n \<le> 18446744073709547520"
  shows "\<exists>m'. MemMap a n perms (snd (MemUnmap a n m)) = (Inr (), m') \<and> mem_wf m' \<and>
    (\<forall>x. mem_at m' x = (if unat (x - a) < unat n then Some (perms, 0) else mem_at m x))"
proof -
  obtain m1 where m1: "MemUnmap a n m = (Inr (), m1)" "mem_wf m1" "\<And>x. mem_at m1 x = (if in_pages a n x then None else mem_at m x)"
    using MemUnmap_spec [OF assms(1,4,5)] by blast
  have "\<exists>m'. MemMap a n perms m1 = (Inr (), m') \<and> mem_wf m' \<and> (\<forall>x. mem_at m' x = (if unat (x - a) < unat n then Some (perms, 0) else mem_at m1 x))"
    by (rule MemMap_fresh) (use assms m1 in_pages_aligned [OF assms(2-5)] in auto)
  then show ?thesis using m1 in_pages_aligned [OF assms(2-5)] by auto
qed

lemma set_e_mem_same [simp]: "set_e_mem (e_mem p) p = p"
  by (simp add: set_e_mem_def)

lemma pageAlignUp_range: "unat x \<le> 18446744073709547520 \<Longrightarrow> x \<noteq> 0 \<Longrightarrow> pageAlignUp x \<noteq> 0"
  using pageAlignUp_unat(2) [of x] unat_gt_0 [of x] by fastforce

text \<open>A write without permission checks over mapped memory.\<close>

lemma MemWrite_mapped:
  assumes "mem_wf m" "length bs \<le> 18446744073709551616" "\<And>x. unat (x - a) < length bs \<Longrightarrow> mem_at m x \<noteq> None"
  shows "\<exists>m'. MemWrite a bs m = (Inr (), m') \<and> mem_wf m' \<and>
    (\<forall>x. mem_at m' x = (if unat (x - a) < length bs then map_option (\<lambda>(p, _). (p, bs ! unat (x - a))) (mem_at m x) else mem_at m x))"
proof -
  have "accessible m 0 (a + of_nat i)" if "i < length bs" for i
  proof -
    have "unat (of_nat i :: u64) = i" using that assms(2) by (intro unat_of_nat_small) simp
    then show ?thesis using assms(3) [of "a + of_nat i"] that by (auto simp: accessible_def)
  qed
  from writeChecked_ok [OF assms(1,2) this] show ?thesis
    unfolding MemWrite_eq by (fastforce simp: upd_at_def Let_def)
qed

text \<open>The bytes a mapping takes from its file.\<close>

definition file_part :: "process \<Rightarrow> u64 \<Rightarrow> u64 \<Rightarrow> int \<Rightarrow> u64 \<Rightarrow> u8 list" where
  "file_part p flags len fdNum offset =
     (if flags AND MAP_ANONYMOUS \<noteq> 0 then []
      else case map_option (pd_files (pr_data p)) (Get fdNum (pd_fds (pr_data p))) of
          Some (VFSFile _ content) \<Rightarrow> if sint offset < 0 then [] else take (unat len) (drop (unat offset) content)
        | _ \<Rightarrow> [])"

definition file_byte :: "u8 list \<Rightarrow> nat \<Rightarrow> u8" where
  "file_byte bs i = (if i < length bs then bs ! i else 0)"

lemma length_file_part: "length (file_part p flags len fdNum offset) \<le> unat len"
  by (auto simp: file_part_def split: option.splits gofile.splits)

lemma mmap_file_eq:
  assumes "0 \<le> sint len"
  shows "mmap_file flags len fdNum offset base p = (Inr base, snd (on_mem (MemWrite base (file_part p flags len fdNum offset)) p))"
proof -
  have e: "snd (on_mem (MemWrite base []) p) = p" by (simp add: on_mem_def MemWrite_def)
  show ?thesis
    using assms e by (auto simp: mmap_file_def file_part_def VFSFile_PreadAt_def split: option.splits gofile.splits)
qed

text \<open>A fresh zeroed range, then its file's bytes.\<close>

lemma mmap_file_fresh:
  assumes "mem_wf (e_mem p)" "0 \<le> sint len" "\<And>x. unat (x - base) < unat len \<Longrightarrow> mem_at (e_mem p) x = Some (perms, 0)"
  shows "\<exists>p'. mmap_file flags len fdNum offset base p = (Inr base, p') \<and> mem_wf (e_mem p') \<and> pr_data p' = pr_data p \<and>
    (\<forall>x. mem_at (e_mem p') x = (if unat (x - base) < unat len
       then Some (perms, file_byte (file_part p flags len fdNum offset) (unat (x - base)))
       else mem_at (e_mem p) x))"
proof -
  let ?b = "file_part p flags len fdNum offset"
  have le: "length ?b \<le> unat len" by (rule length_file_part)
  then have "length ?b \<le> 18446744073709551616" using unat_u64_less [of len] by linarith
  from MemWrite_mapped [OF assms(1) this, of base] obtain m' where m': "MemWrite base ?b (e_mem p) = (Inr (), m')" "mem_wf m'"
     "\<And>x. mem_at m' x = (if unat (x - base) < length ?b then map_option (\<lambda>(p, _). (p, ?b ! unat (x - base))) (mem_at (e_mem p) x)
        else mem_at (e_mem p) x)"
    using assms(3) le by fastforce
  show ?thesis
    unfolding mmap_file_eq [OF assms(2)] using m' assms(3) le by (auto simp: on_mem_def file_byte_def)
qed

section \<open>Properties of brk and mmap\<close>

text \<open>
  C31. brk: address 0 or one below the heap returns the current break and changes nothing; growth maps
  exactly the pages between the mapped end and the page-rounded new break, readable, writable and
  zero, or, when one of them is taken, returns the old break and changes nothing. After a success the
  break is the address asked for and the mapped end is the larger of the old one and the page-rounded
  address, and nothing else of the process differs but the memory of the new pages; an address within
  the pages already mapped, below the old break too, only moves the break: no page is unmapped and the
  mapped end stays. The heap invariant is kept.
\<close>

theorem brk_exact:
  assumes "brk_ok p" "unat addr \<le> 18446744073709547520" "mEnd = pd_brkMappedEnd (pr_data p)"
  shows "if addr = 0 \<or> addr < pd_brkStart (pr_data p) then DoBrk addr p = (pd_brkCur (pr_data p), p)
    else if \<exists>x. mEnd \<le> x \<and> x < pageAlignUp addr \<and> mem_at (e_mem p) x \<noteq> None then DoBrk addr p = (pd_brkCur (pr_data p), p)
    else \<exists>p'. DoBrk addr p = (addr, p') \<and> brk_ok p' \<and>
      p' = set_e_mem (e_mem p') (upd_data (\<lambda>d. d\<lparr>pd_brkMappedEnd := max mEnd (pageAlignUp addr), pd_brkCur := addr\<rparr>) p) \<and>
      (pageAlignUp addr \<le> mEnd \<longrightarrow> p' = upd_data (\<lambda>d. d\<lparr>pd_brkCur := addr\<rparr>) p) \<and>
      (\<forall>x. mem_at (e_mem p') x = (if mEnd \<le> x \<and> x < pageAlignUp addr then Some (ProtRead OR ProtWrite, 0) else mem_at (e_mem p) x))"
proof (cases "addr = 0 \<or> addr < pd_brkStart (pr_data p)")
  case True
  then show ?thesis by (auto simp: DoBrk_def Let_def)
next
  case low: False
  let ?n = "pageAlignUp addr"
  show ?thesis
  proof (cases "\<exists>x. mEnd \<le> x \<and> x < ?n \<and> mem_at (e_mem p) x \<noteq> None")
    case True
    then obtain x where x: "mEnd \<le> x" "x < ?n" "mem_at (e_mem p) x \<noteq> None" by blast
    then have lt: "mEnd < ?n" by simp
    then have sz: "unat (?n - mEnd) = unat ?n - unat mEnd" by (simp add: unat_sub word_less_nat_alt word_le_nat_alt)
    have fit: "unat mEnd + unat (?n - mEnd) < 18446744073709551616" using lt unat_u64_less [of ?n] unfolding sz word_less_nat_alt by simp
    have "\<exists>a. MemMap mEnd (?n - mEnd) (ProtRead OR ProtWrite) (e_mem p) = (Inl (AlreadyMapped a), e_mem p)"
    proof (rule MemMap_taken [OF _ _ _ fit])
      show "unat (x - mEnd) < unat (?n - mEnd)" using range_iff_index [OF fit, of x] x by simp
      show "(?n - mEnd) AND pageMask = 0" using assms pageAlignUp_aligned by (auto simp: brk_ok_def intro: aligned_diff)
    qed (use assms lt x in \<open>auto simp: brk_ok_def\<close>)
    then obtain a where "MemMap mEnd (?n - mEnd) (ProtRead OR ProtWrite) (e_mem p) = (Inl (AlreadyMapped a), e_mem p)" ..
    then show ?thesis using low True lt by (simp add: DoBrk_def Let_def on_mem_def assms(3) [symmetric])
  next
    case False
    note f = False [unfolded assms(3)]
    have free: "mem_at (e_mem p) x = None" if "pd_brkMappedEnd (pr_data p) \<le> x" "x < ?n" for x using f that by blast
    have start: "addr \<noteq> 0" "pd_brkStart (pr_data p) \<le> addr" using low by (simp_all add: not_less)
    show ?thesis
      unfolding if_not_P [OF low] if_not_P [OF False] unfolding assms(3) by (rule DoBrk_grow [OF assms(1) start assms(2)]) (rule free)
  qed
qed

text \<open>A process with an empty heap at 0x3000 over the memory of two pages at 0x1000.\<close>

definition bare_vfs :: vfs where
  "bare_vfs = \<lparr>v_NativePerms = False, v_mounts = [], v_mountsMTime = 0, v_tree = [], v_now = 0, v_parseMeta = (\<lambda>_. None), v_parseMounts = (\<lambda>_. None)\<rparr>"

definition demo_proc :: process where
  "demo_proc = set_e_mem demo_mem (upd_data (\<lambda>d. d\<lparr>pd_brkStart := 0x3000, pd_brkCur := 0x3000, pd_brkMappedEnd := 0x3000\<rparr>)
     (NewProcess ''r'' bare_vfs [] None ''cwd'' 1 0 1 2))"

lemma demo_proc_simps [simp]:
  "e_mem demo_proc = demo_mem" "pd_brkStart (pr_data demo_proc) = 0x3000" "pd_brkCur (pr_data demo_proc) = 0x3000"
  "pd_brkMappedEnd (pr_data demo_proc) = 0x3000" "pd_mmapNext (pr_data demo_proc) = mmapBase"
  by (simp_all add: demo_proc_def NewProcess_def mk_process_def engine.extend_def new_data_def NewTable_def Let_def split: prod.split)

lemma demo_proc_ok: "brk_ok demo_proc"
  by (simp add: brk_ok_def demo_mem_wf)

theorem brk_exact_witness:
  "\<exists>p'. DoBrk 0x4801 demo_proc = (0x4801, p') \<and> brk_ok p' \<and> mem_at (e_mem p') 0x4FFF = Some (ProtRead OR ProtWrite, 0) \<and>
     mem_at (e_mem p') 0x5000 = None"
proof -
  have up: "pageAlignUp 0x4801 = 0x5000" by (simp add: pageAlignUp_def)
  have free: "\<not> (\<exists>x. 0x3000 \<le> x \<and> x < pageAlignUp 0x4801 \<and> mem_at (e_mem demo_proc) x \<noteq> None)"
  proof (clarify, unfold up)
    fix x a b assume x: "0x3000 \<le> x" "x < 0x5000" "mem_at (e_mem demo_proc) x = Some (a, b)"
    then have "unat (x - 0x1000) < 8192" using demo_mem_map [of x] by (auto split: if_splits)
    then have "x < 0x3000" using range_iff_index [of "0x1000" "0x2000" x] by simp
    then show False using x(1) by simp
  qed
  show ?thesis
    using brk_exact [OF demo_proc_ok, of "0x4801" "0x3000"] demo_mem_map unfolding if_not_P [OF free] by (auto simp: up)
qed

text \<open>The parts of mmap after the arguments are rounded.\<close>

lemma DoMmap_arena:
  assumes "mem_wf (e_mem p)" "\<not> (flags AND MAP_FIXED \<noteq> 0 \<and> addr \<noteq> 0)" "base = pd_mmapNext (pr_data p)" "base AND pageMask = 0"
    "len = pageAlignUp len0" "len \<noteq> 0" "0 \<le> sint len" "unat base + unat len < 18446744073709551616" "\<not> mmapMax < base + len"
    "\<And>x. unat (x - base) < unat len \<Longrightarrow> mem_at (e_mem p) x = None"
  shows "\<exists>p'. DoMmap addr len0 prot flags fdNum offset p = (Inr base, p') \<and> mem_wf (e_mem p') \<and>
    pr_data p' = (pr_data p)\<lparr>pd_mmapNext := base + len\<rparr> \<and>
    (\<forall>x. mem_at (e_mem p') x = (if unat (x - base) < unat len
       then Some (protToEngine prot, file_byte (file_part p flags len fdNum offset) (unat (x - base)))
       else mem_at (e_mem p) x))"
proof -
  have la: "len AND pageMask = 0" by (simp add: assms(5) pageAlignUp_aligned)
  from MemMap_fresh [OF assms(1,4) la assms(6,8) assms(10)] obtain m1 where m1:
      "MemMap base len (protToEngine prot) (e_mem p) = (Inr (), m1)" "mem_wf m1"
      "\<And>x. mem_at m1 x = (if unat (x - base) < unat len then Some (protToEngine prot, 0) else mem_at (e_mem p) x)" by blast
  let ?q = "upd_data (\<lambda>d. d\<lparr>pd_mmapNext := base + len\<rparr>) (set_e_mem m1 p)"
  have "file_part ?q flags len fdNum offset = file_part p flags len fdNum offset" by (simp add: file_part_def)
  then obtain p' where p': "mmap_file flags len fdNum offset base ?q = (Inr base, p')" "mem_wf (e_mem p')" "pr_data p' = pr_data ?q"
      "\<And>x. mem_at (e_mem p') x = (if unat (x - base) < unat len
       then Some (protToEngine prot, file_byte (file_part p flags len fdNum offset) (unat (x - base)))
       else mem_at (e_mem ?q) x)"
    using mmap_file_fresh [of ?q len base "protToEngine prot" flags fdNum offset] m1 assms(7) by (fastforce simp: set_e_mem_def)
  have "DoMmap addr len0 prot flags fdNum offset p = (Inr base, p')"
    unfolding DoMmap_def Let_def if_not_P [OF assms(2)] assms(5) [symmetric] assms(3) [symmetric] if_not_P [OF assms(9)]
    using p'(1) m1(1) by (simp add: on_mem_def set_e_mem_def)
  then show ?thesis using p' m1(3) by (intro exI [of _ p']) (auto simp: set_e_mem_def)
qed

lemma DoMmap_fixed:
  assumes "mem_wf (e_mem p)" "flags AND MAP_FIXED \<noteq> 0" "addr \<noteq> 0" "base = pageAlignDown addr"
    "len = pageAlignUp len0" "len \<noteq> 0" "0 \<le> sint len" "unat base + unat len \<le> 18446744073709547520"
  shows "\<exists>p'. DoMmap addr len0 prot flags fdNum offset p = (Inr base, p') \<and> mem_wf (e_mem p') \<and> pr_data p' = pr_data p \<and>
    (\<forall>x. mem_at (e_mem p') x = (if unat (x - base) < unat len
       then Some (protToEngine prot, file_byte (file_part p flags len fdNum offset) (unat (x - base)))
       else mem_at (e_mem p) x))"
proof -
  have la: "len AND pageMask = 0" by (simp add: assms(5) pageAlignUp_aligned)
  have ba: "base AND pageMask = 0" by (simp add: assms(4) pageAlignDown_eq aligned_pageAddr)
  from unmap_then_map [OF assms(1) ba la assms(6,8), of "protToEngine prot"] obtain m1 where m1:
      "MemMap base len (protToEngine prot) (snd (MemUnmap base len (e_mem p))) = (Inr (), m1)" "mem_wf m1"
      "\<And>x. mem_at m1 x = (if unat (x - base) < unat len then Some (protToEngine prot, 0) else mem_at (e_mem p) x)" by blast
  let ?q = "set_e_mem m1 p"
  have "file_part ?q flags len fdNum offset = file_part p flags len fdNum offset" by (simp add: file_part_def)
  then obtain p' where p': "mmap_file flags len fdNum offset base ?q = (Inr base, p')" "mem_wf (e_mem p')" "pr_data p' = pr_data ?q"
      "\<And>x. mem_at (e_mem p') x = (if unat (x - base) < unat len
       then Some (protToEngine prot, file_byte (file_part p flags len fdNum offset) (unat (x - base)))
       else mem_at (e_mem ?q) x)"
    using mmap_file_fresh [of ?q len base "protToEngine prot" flags fdNum offset] m1 assms(7) by fastforce
  have "DoMmap addr len0 prot flags fdNum offset p = (Inr base, p')"
    using p'(1) m1(1) assms(2,3) by (simp add: DoMmap_def Let_def assms(4,5) on_mem_def split_beta)
  then show ?thesis using p' m1(3) by (intro exI [of _ p']) auto
qed

text \<open>
  C32. mmap over any state: without MAP_FIXED the range at the arena's next address is mapped with the
  requested permissions, holding the file's bytes from the offset and zeros after them, and the next
  address moves past it; the arena's end and a taken page are errors that change nothing. With
  MAP_FIXED the range at the rounded address replaces what was there.
\<close>

theorem mmap_exact:
  assumes "mem_wf (e_mem p)" "fixed \<longleftrightarrow> flags AND MAP_FIXED \<noteq> 0 \<and> addr \<noteq> 0"
    "base = (if fixed then pageAlignDown addr else pd_mmapNext (pr_data p))" "pd_mmapNext (pr_data p) AND pageMask = 0"
    "len = pageAlignUp len0" "len \<noteq> 0" "0 \<le> sint len" "unat base + unat len \<le> 18446744073709547520"
    "bs = file_part p flags len fdNum offset"
  shows "if \<not> fixed \<and> mmapMax < base + len then DoMmap addr len0 prot flags fdNum offset p = (Inl ArenaExhausted, p)
    else if \<not> fixed \<and> (\<exists>x. unat (x - base) < unat len \<and> mem_at (e_mem p) x \<noteq> None)
      then \<exists>a. DoMmap addr len0 prot flags fdNum offset p = (Inl (MapFailed (AlreadyMapped a)), p)
    else \<exists>p'. DoMmap addr len0 prot flags fdNum offset p = (Inr base, p') \<and> mem_wf (e_mem p') \<and>
      pr_data p' = (if fixed then pr_data p else (pr_data p)\<lparr>pd_mmapNext := base + len\<rparr>) \<and>
      (\<forall>x. mem_at (e_mem p') x = (if unat (x - base) < unat len
         then Some (protToEngine prot, file_byte bs (unat (x - base))) else mem_at (e_mem p) x))"
proof (cases fixed)
  case True
  then show ?thesis
    using DoMmap_fixed [OF assms(1) _ _ _ assms(5-8), of flags addr prot fdNum offset] assms(2,3) unfolding assms(9) by simp
next
  case nf: False
  note b = assms(3) [unfolded if_not_P [OF nf]] and fx = nf [unfolded assms(2)]
  have la: "len AND pageMask = 0" by (simp add: assms(5) pageAlignUp_aligned)
  have fit: "unat base + unat len < 18446744073709551616" using assms(8) by simp
  consider (full) "mmapMax < base + len" | (taken) x where "\<not> mmapMax < base + len" "unat (x - base) < unat len" "mem_at (e_mem p) x \<noteq> None"
    | (free) "\<not> mmapMax < base + len" "\<And>x. unat (x - base) < unat len \<Longrightarrow> mem_at (e_mem p) x = None" by blast
  then show ?thesis
  proof cases
    case full
    then have "DoMmap addr len0 prot flags fdNum offset p = (Inl ArenaExhausted, p)"
      unfolding DoMmap_def Let_def if_not_P [OF fx] b [symmetric] assms(5) [symmetric] by simp
    then show ?thesis using full nf by simp
  next
    case taken
    from MemMap_taken [OF _ la assms(6) fit taken(2,3)] assms(4) b obtain a where
      "MemMap base len (protToEngine prot) (e_mem p) = (Inl (AlreadyMapped a), e_mem p)" by blast
    then have "DoMmap addr len0 prot flags fdNum offset p = (Inl (MapFailed (AlreadyMapped a)), p)"
      unfolding DoMmap_def Let_def if_not_P [OF fx] b [symmetric] assms(5) [symmetric] if_not_P [OF taken(1)] by (simp add: on_mem_def)
    moreover have "\<not> (\<not> fixed \<and> mmapMax < base + len)" "\<not> fixed \<and> (\<exists>x. unat (x - base) < unat len \<and> mem_at (e_mem p) x \<noteq> None)"
      using taken nf by blast+
    ultimately show ?thesis by (simp only: simp_thms if_True if_False) blast
  next
    case free
    have n: "\<not> (\<not> fixed \<and> mmapMax < base + len)" "\<not> (\<not> fixed \<and> (\<exists>x. unat (x - base) < unat len \<and> mem_at (e_mem p) x \<noteq> None))"
      using free(1) by (simp, metis free(2))
    have a: "base AND pageMask = 0" using assms(4) b by simp
    show ?thesis
      unfolding if_not_P [OF n(1)] if_not_P [OF n(2)] if_not_P [OF nf] assms(9)
      using DoMmap_arena [OF assms(1) fx b a assms(5-7) fit free(1), of prot fdNum offset] free(2) by meson
  qed
qed

theorem mmap_exact_witness:
  "\<exists>p'. DoMmap 0x1234 0x10 (PROT_READ OR PROT_EXEC) (MAP_FIXED OR MAP_ANONYMOUS) (- 1) 0 demo_proc = (Inr 0x1000, p') \<and>
     mem_at (e_mem p') 0x1FFF = Some (protToEngine (PROT_READ OR PROT_EXEC), 0) \<and> mem_at (e_mem p') 0x2000 = Some (ProtRead OR ProtWrite, 0)"
proof -
  have r: "pageAlignDown 0x1234 = 0x1000" "pageAlignUp 0x10 = 0x1000" "(MAP_FIXED OR MAP_ANONYMOUS) AND MAP_FIXED \<noteq> 0"
      "mmapBase AND pageMask = 0" "file_part demo_proc (MAP_FIXED OR MAP_ANONYMOUS) 0x1000 (- 1) 0 = []"
    by (simp_all add: pageAlignDown_def pageAlignUp_def MAP_FIXED_def MAP_ANONYMOUS_def mmapBase_def file_part_def)
  have "mem_wf (e_mem demo_proc)" by (simp add: demo_mem_wf)
  note m = mmap_exact [OF this, of True "MAP_FIXED OR MAP_ANONYMOUS" "0x1234" "0x1000" "0x1000" "0x10" "[]" "- 1" 0 "PROT_READ OR PROT_EXEC"]
  have "\<exists>p'. DoMmap 0x1234 0x10 (PROT_READ OR PROT_EXEC) (MAP_FIXED OR MAP_ANONYMOUS) (- 1) 0 demo_proc = (Inr 0x1000, p') \<and>
      (\<forall>x. mem_at (e_mem p') x = (if unat (x - 0x1000) < unat (0x1000 :: u64) then Some (protToEngine (PROT_READ OR PROT_EXEC), file_byte [] (unat (x - 0x1000)))
         else mem_at (e_mem demo_proc) x))"
    using m [unfolded r simp_thms if_True if_False demo_proc_simps] r(3,4) by (simp only: demo_proc_simps) force
  then obtain p' where p': "DoMmap 0x1234 0x10 (PROT_READ OR PROT_EXEC) (MAP_FIXED OR MAP_ANONYMOUS) (- 1) 0 demo_proc = (Inr 0x1000, p')"
      "\<And>x. mem_at (e_mem p') x = (if unat (x - 0x1000) < 4096 then Some (protToEngine (PROT_READ OR PROT_EXEC), file_byte [] (unat (x - 0x1000)))
         else mem_at demo_mem x)" by auto
  have "mem_at demo_mem 0x2000 = Some (ProtRead OR ProtWrite, 0)" using demo_mem_map [of "0x2000"] by simp
  then show ?thesis using p'(1) p'(2) [of "0x1FFF"] p'(2) [of "0x2000"] by (intro exI [of _ p']) (simp add: file_byte_def)
qed

text \<open>
  C33. The end of the address space is not guarded: brk to an address in the last page returns it as
  the new break though nothing was mapped, and an anonymous mmap whose range wraps around 2^64
  succeeds, maps nothing and moves the arena's next address backwards.
\<close>

theorem huge_requests_succeed:
  assumes "mem_wf (e_mem p)" "pd_mmapNext (pr_data p) AND pageMask = 0" "pd_mmapNext (pr_data p) \<le> mmapMax" "unat len \<le> 18446744073709547520"
    "18446744073709551616 \<le> unat (pd_mmapNext (pr_data p)) + unat (pageAlignUp len)" "flags AND MAP_FIXED = 0" "flags AND MAP_ANONYMOUS \<noteq> 0"
    "18446744073709547520 < unat addr" "pd_brkStart (pr_data p) \<le> addr"
  shows "DoBrk addr p = (addr, upd_data (\<lambda>d. d\<lparr>pd_brkCur := addr\<rparr>) p) \<and>
    (\<exists>p'. DoMmap a len prot flags fdNum offset p = (Inr (pd_mmapNext (pr_data p)), p') \<and> mem_at (e_mem p') = mem_at (e_mem p) \<and>
       pd_mmapNext (pr_data p') < pd_mmapNext (pr_data p))"
proof
  have "(4095 + unat addr) mod 18446744073709551616 = 4095 + unat addr - 18446744073709551616"
    using assms(8) unat_u64_less [of addr] by (simp add: mod_if)
  then have "addr + page - 1 < page" using assms(8) unat_u64_less [of addr] by (simp add: word_less_nat_alt unat_word_ariths)
  then have "unat ((addr + page - 1) AND NOT (page - 1)) = 0"
    using unat_pageAddr [of "addr + page - 1"] by (simp add: pageAddr_def word_less_nat_alt)
  then have "pageAlignUp addr = 0" by (simp add: pageAlignUp_def unat_eq_zero)
  moreover have "addr \<noteq> 0" using assms(8) by auto
  ultimately show "DoBrk addr p = (addr, upd_data (\<lambda>d. d\<lparr>pd_brkCur := addr\<rparr>) p)"
    using assms(9) by (simp add: DoBrk_def Let_def not_less [symmetric])
next
  let ?b = "pd_mmapNext (pr_data p)" and ?l = "pageAlignUp len"
  have ul: "unat ?l < 18446744073709551616" "unat ?b < 18446744073709551616" by (rule unat_u64_less)+
  have u: "unat (?b + ?l) = unat ?b + unat ?l - 18446744073709551616"
    using assms(5) ul by (simp add: unat_word_ariths mod_if)
  have lt: "?b + ?l < ?b" unfolding word_less_nat_alt u using ul assms(5) by linarith
  then have nm: "\<not> mmapMax < ?b + ?l" using assms(3) by simp
  have l0: "?l \<noteq> 0" using assms(5) ul by auto
  have "page_loop ?b (?b + ?l) = []" using lt by (subst page_loop.simps) simp
  then have "MemMap ?b ?l (protToEngine prot) (e_mem p) = (Inr (), invalidateCode (invalidateCache (e_mem p)))"
    using assms(2) l0 pageAlignUp_aligned [of len] by (simp add: MemMap_def)
  then show "\<exists>p'. DoMmap a len prot flags fdNum offset p = (Inr ?b, p') \<and> mem_at (e_mem p') = mem_at (e_mem p) \<and> pd_mmapNext (pr_data p') < ?b"
    using assms(6,7) nm lt by (simp add: DoMmap_def Let_def on_mem_def mmap_file_def set_e_mem_def)
qed

theorem huge_requests_succeed_witness:
  "DoBrk 0xFFFFFFFFFFFFF001 demo_proc = (0xFFFFFFFFFFFFF001, upd_data (\<lambda>d. d\<lparr>pd_brkCur := 0xFFFFFFFFFFFFF001\<rparr>) demo_proc) \<and>
   (\<exists>p'. DoMmap 0 0xFFFFB00000000000 PROT_READ MAP_ANONYMOUS (- 1) 0 demo_proc = (Inr mmapBase, p') \<and>
      mem_at (e_mem p') = mem_at demo_mem \<and> pd_mmapNext (pr_data p') < mmapBase)"
proof -
  have "mem_wf (e_mem demo_proc)" by (simp add: demo_mem_wf)
  from huge_requests_succeed [OF this, of "0xFFFFB00000000000" MAP_ANONYMOUS "0xFFFFFFFFFFFFF001" 0 PROT_READ "- 1" 0] show ?thesis
    by (simp add: MAP_FIXED_def MAP_ANONYMOUS_def mmapBase_def mmapMax_def pageAlignUp_def)
qed

end
