(* ===== verification/Process_Image.thy ===== *)
theory Process_Image
  imports Process_Laws
begin

unbundle bit_operations_syntax

text \<open>
  The laws of a loaded image: the initial stack read back from guest memory, the segments and the
  relocations as bytes at run-time addresses.
\<close>

section \<open>Writes that stay in a range\<close>

text \<open>\<open>m'\<close> differs from \<open>m\<close> in bytes of the range from \<open>lo\<close> up to \<open>hi\<close> only; nothing is mapped or unmapped.\<close>

definition wrote_in :: "memory \<Rightarrow> memory \<Rightarrow> u64 \<Rightarrow> u64 \<Rightarrow> bool" where
  "wrote_in m m' lo hi \<longleftrightarrow> mem_wf m' \<and> (\<forall>x. map_option fst (mem_at m' x) = map_option fst (mem_at m x)) \<and>
     (\<forall>x. \<not> (lo \<le> x \<and> x < hi) \<longrightarrow> mem_at m' x = mem_at m x)"

lemma wrote_in_refl: "mem_wf m \<Longrightarrow> wrote_in m m lo hi"
  by (simp add: wrote_in_def)

lemma wrote_in_trans: "wrote_in m m1 b c \<Longrightarrow> wrote_in m1 m2 a b \<Longrightarrow> a \<le> b \<Longrightarrow> b \<le> c \<Longrightarrow> wrote_in m m2 a c"
  unfolding wrote_in_def by (metis order_trans order_less_le_trans not_le)

lemma wrote_in_mapped: "wrote_in m m' lo hi \<Longrightarrow> mem_at m' x = None \<longleftrightarrow> mem_at m x = None"
  unfolding wrote_in_def by (metis option.map_disc_iff)

text \<open>The bytes \<open>bs\<close> lie at \<open>a\<close>, up to \<open>hi\<close>.\<close>

definition holds_at :: "memory \<Rightarrow> u64 \<Rightarrow> u8 list \<Rightarrow> u64 \<Rightarrow> bool" where
  "holds_at m a bs hi \<longleftrightarrow> unat a + length bs \<le> unat hi \<and> mem_bytes m a (length bs) = bs"

lemma index_range:
  assumes "unat a + n \<le> unat (hi :: u64)" "i < n"
  shows "a \<le> a + of_nat i" "a + of_nat i < hi" "unat (a + of_nat i - a) = i" "unat (a + of_nat i) = unat a + i"
proof -
  have "unat hi < 18446744073709551616" by (rule unat_u64_less)
  then have i: "unat (of_nat i :: u64) = i" using assms by (intro unat_of_nat_small) simp
  then show u: "unat (a + of_nat i) = unat a + i" using assms \<open>unat hi < _\<close> by (simp add: unat_word_ariths)
  show "a \<le> a + of_nat i" "a + of_nat i < hi" using u assms by (simp_all add: word_le_nat_alt word_less_nat_alt)
  show "unat (a + of_nat i - a) = i" using i by simp
qed

lemma holds_at_wrote:
  assumes "holds_at m a bs h" "wrote_in m m' lo hi" "hi \<le> a"
  shows "holds_at m' a bs h"
proof -
  have "mem_byte m' (a + of_nat i) = mem_byte m (a + of_nat i)" if "i < length bs" for i
  proof -
    have "a \<le> a + of_nat i" using assms(1) that index_range(1) [of a "length bs" h i] by (simp add: holds_at_def)
    then have "\<not> (lo \<le> a + of_nat i \<and> a + of_nat i < hi)" using assms(3) by auto
    then show ?thesis using assms(2) by (simp add: mem_byte_def wrote_in_def)
  qed
  then have "mem_bytes m' a (length bs) = mem_bytes m a (length bs)" by (simp add: mem_bytes_def)
  then show ?thesis using assms(1) by (simp add: holds_at_def)
qed

text \<open>A write below the top of a mapped range.\<close>

lemma MemWrite_range:
  assumes "mem_wf m" "unat a + length bs \<le> unat hi" "\<And>x. a \<le> x \<Longrightarrow> x < hi \<Longrightarrow> mem_at m x \<noteq> None"
  shows "\<exists>m'. MemWrite a bs m = (Inr (), m') \<and> wrote_in m m' a hi \<and> holds_at m' a bs hi"
proof -
  note lt = unat_u64_less [of hi]
  have inr: "a \<le> x \<and> x < hi" if "unat (x - a) < length bs" for x
    using index_range(1,2) [OF assms(2) that] by simp
  have "length bs \<le> 18446744073709551616" using assms(2) lt by linarith
  from MemWrite_mapped [OF assms(1) this, of a] obtain m' where m': "MemWrite a bs m = (Inr (), m')" "mem_wf m'"
      "\<And>x. mem_at m' x = (if unat (x - a) < length bs then map_option (\<lambda>(p, _). (p, bs ! unat (x - a))) (mem_at m x) else mem_at m x)"
    using assms(3) inr by blast
  have "wrote_in m m' a hi"
    unfolding wrote_in_def using m'(2) inr by (auto simp: m'(3) option.map_comp comp_def case_prod_beta)
  moreover have "mem_byte m' (a + of_nat i) = bs ! i" if "i < length bs" for i
  proof -
    note r = index_range [OF assms(2) that]
    obtain pb where "mem_at m (a + of_nat i) = Some pb" using assms(3) r(1,2) by blast
    then show ?thesis using m'(3) [of "a + of_nat i"] r(3) that by (simp add: mem_byte_def split: prod.splits)
  qed
  then have "mem_bytes m' a (length bs) = bs" by (intro nth_equalityI) (simp_all add: mem_bytes_def)
  ultimately show ?thesis using m'(1) assms(2) by (auto simp: holds_at_def)
qed

section \<open>The strings of the stack\<close>

definition str_size :: "string \<Rightarrow> nat" where
  "str_size s = length s + 1"

definition strs_size :: "string list \<Rightarrow> nat" where
  "strs_size ss = sum_list (map str_size ss)"

lemma strs_size_simps [simp]: "strs_size [] = 0" "strs_size (s # ss) = str_size s + strs_size ss"
  by (simp_all add: strs_size_def)

lemma length_str_bytes [simp]: "length (str_bytes s) = length s"
  by (simp add: str_bytes_def)

text \<open>The range from \<open>lo\<close> up to \<open>hi\<close> is mapped.\<close>

definition range_mapped :: "memory \<Rightarrow> u64 \<Rightarrow> u64 \<Rightarrow> bool" where
  "range_mapped m lo hi \<longleftrightarrow> (\<forall>x. lo \<le> x \<and> x < hi \<longrightarrow> mem_at m x \<noteq> None)"

lemma range_mapped_wrote: "range_mapped m lo hi \<Longrightarrow> wrote_in m m' a b \<Longrightarrow> range_mapped m' lo hi"
  by (simp add: range_mapped_def wrote_in_mapped)

lemma range_mapped_sub: "range_mapped m lo hi \<Longrightarrow> lo \<le> lo' \<Longrightarrow> hi' \<le> hi \<Longrightarrow> range_mapped m lo' hi'"
  unfolding range_mapped_def by (meson order_trans order_less_le_trans)

lemma push_bytes:
  assumes "mem_wf m" "range_mapped m lo tp" "unat lo + length bs \<le> unat tp" "a = tp - of_nat (length bs)"
  shows "\<exists>m'. MemWrite a bs m = (Inr (), m') \<and> wrote_in m m' a tp \<and> holds_at m' a bs tp \<and> unat a = unat tp - length bs \<and> lo \<le> a \<and> a \<le> tp"
proof -
  have n: "unat (of_nat (length bs) :: u64) = length bs" using assms(3) unat_u64_less [of tp] by (intro unat_of_nat_small) simp
  have u: "unat a = unat tp - length bs" unfolding assms(4) using n assms(3) by (subst unat_sub) (simp_all add: word_le_nat_alt)
  have le: "lo \<le> a" "a \<le> tp" using u assms(3) by (simp_all add: word_le_nat_alt)
  have "\<exists>m'. MemWrite a bs m = (Inr (), m') \<and> wrote_in m m' a tp \<and> holds_at m' a bs tp"
  proof (rule MemWrite_range [OF assms(1)])
    show "unat a + length bs \<le> unat tp" using u assms(3) by simp
    show "mem_at m x \<noteq> None" if "a \<le> x" "x < tp" for x using that le assms(2) by (auto simp: range_mapped_def)
  qed
  then show ?thesis using u le by blast
qed

lemma pushStr_spec:
  assumes "mem_wf (e_mem e)" "range_mapped (e_mem e) lo tp" "unat lo + str_size s \<le> unat tp"
  shows "\<exists>ptr m'. pushStr s tp e = (Inr ptr, set_e_mem m' e) \<and> wrote_in (e_mem e) m' ptr tp \<and> holds_at m' ptr (str_bytes s @ [0]) tp \<and>
    unat ptr = unat tp - str_size s \<and> lo \<le> ptr \<and> ptr \<le> tp"
proof -
  have "unat lo + length (str_bytes s @ [0]) \<le> unat tp" using assms(3) by (simp add: str_size_def)
  from push_bytes [OF assms(1,2) this refl] show ?thesis
    by (auto simp: pushStr_def Let_def on_mem_def str_size_def)
qed

definition strs_at :: "memory \<Rightarrow> string list \<Rightarrow> u64 list \<Rightarrow> u64 \<Rightarrow> u64 \<Rightarrow> bool" where
  "strs_at m ss ps lo hi \<longleftrightarrow> list_all2 (\<lambda>s p. lo \<le> p \<and> holds_at m p (str_bytes s @ [0]) hi) ss ps"

lemma strs_at_wrote: "strs_at m ss ps b hi \<Longrightarrow> wrote_in m m' a b' \<Longrightarrow> b' \<le> b \<Longrightarrow> strs_at m' ss ps b hi"
  unfolding strs_at_def by (auto elim!: list_all2_mono intro: holds_at_wrote order_trans)

lemma strs_at_weaken: "strs_at m ss ps lo hi \<Longrightarrow> lo' \<le> lo \<Longrightarrow> hi \<le> hi' \<Longrightarrow> strs_at m ss ps lo' hi'"
  unfolding strs_at_def by (auto elim!: list_all2_mono simp: holds_at_def word_le_nat_alt)

lemma push_strs_spec:
  assumes "mem_wf (e_mem e)" "range_mapped (e_mem e) lo tp" "unat lo + strs_size ss \<le> unat tp"
  shows "\<exists>ptrs tp1 m'. push_strs ss tp e = (Inr (ptrs, tp1), set_e_mem m' e) \<and> wrote_in (e_mem e) m' tp1 tp \<and> strs_at m' ss ptrs tp1 tp \<and>
    unat tp1 = unat tp - strs_size ss \<and> lo \<le> tp1 \<and> tp1 \<le> tp"
  using assms
proof (induction ss arbitrary: e tp)
  case Nil
  then show ?case by (auto simp: strs_at_def word_le_nat_alt intro: wrote_in_refl exI [of _ "e_mem e"])
next
  case (Cons s ss)
  obtain ptr m1 where m1: "pushStr s tp e = (Inr ptr, set_e_mem m1 e)" "wrote_in (e_mem e) m1 ptr tp" "holds_at m1 ptr (str_bytes s @ [0]) tp"
      "unat ptr = unat tp - str_size s" "lo \<le> ptr" "ptr \<le> tp"
    using pushStr_spec [OF Cons.prems(1,2), of s] Cons.prems(3) by auto
  have "\<exists>ptrs tp1 m'. push_strs ss ptr (set_e_mem m1 e) = (Inr (ptrs, tp1), set_e_mem m' (set_e_mem m1 e)) \<and>
      wrote_in (e_mem (set_e_mem m1 e)) m' tp1 ptr \<and> strs_at m' ss ptrs tp1 ptr \<and> unat tp1 = unat ptr - strs_size ss \<and> lo \<le> tp1 \<and> tp1 \<le> ptr"
  proof (rule Cons.IH)
    show "range_mapped (e_mem (set_e_mem m1 e)) lo ptr"
      using range_mapped_sub [OF range_mapped_wrote [OF Cons.prems(2) m1(2)] order_refl m1(6)] by simp
  qed (use m1 Cons.prems in \<open>auto simp: wrote_in_def\<close>)
  then obtain ptrs tp1 m' where m': "push_strs ss ptr (set_e_mem m1 e) = (Inr (ptrs, tp1), set_e_mem m' e)" "wrote_in m1 m' tp1 ptr"
      "strs_at m' ss ptrs tp1 ptr" "unat tp1 = unat ptr - strs_size ss" "lo \<le> tp1" "tp1 \<le> ptr"
    by auto
  have "strs_at m' (s # ss) (ptr # ptrs) tp1 tp"
    using strs_at_weaken [OF m'(3) order_refl m1(6)] holds_at_wrote [OF m1(3) m'(2)] m'(6) by (simp add: strs_at_def)
  then show ?case
    using m1 m' wrote_in_trans [OF m1(2) m'(2)] Cons.prems(3) by auto
qed

section \<open>The words of the stack\<close>

definition stack_word :: "memory \<Rightarrow> u64 \<Rightarrow> nat \<Rightarrow> u64" where
  "stack_word m a k = leToU64 (mem_bytes m (a + of_nat (8 * k)) 8)"

lemma length_words_bytes [simp]: "length (words_bytes ws) = 8 * length ws"
  by (induction ws) (simp_all add: words_bytes_def length_u64ToLE)

lemma words_bytes_slice: "k < length ws \<Longrightarrow> take 8 (drop (8 * k) (words_bytes ws)) = u64ToLE (ws ! k) 8"
proof (induction ws arbitrary: k)
  case (Cons w ws)
  then show ?case by (cases k) (simp_all add: words_bytes_def length_u64ToLE)
qed simp

lemma mem_bytes_slice: "i + n \<le> k \<Longrightarrow> mem_bytes m (a + of_nat i) n = take n (drop i (mem_bytes m a k))"
  by (intro nth_equalityI) (simp_all add: mem_bytes_def add.assoc)

lemma stack_words_read:
  assumes "holds_at m a (words_bytes ws) hi"
  shows "map (stack_word m a) [0..<length ws] = ws"
proof (intro nth_equalityI)
  fix k assume "k < length (map (stack_word m a) [0..<length ws])"
  then have k: "k < length ws" by simp
  have "mem_bytes m (a + of_nat (8 * k)) 8 = take 8 (drop (8 * k) (mem_bytes m a (length (words_bytes ws))))"
    by (rule mem_bytes_slice) (use k in simp)
  also have "\<dots> = u64ToLE (ws ! k) 8" using assms words_bytes_slice [OF k] by (simp add: holds_at_def)
  finally show "map (stack_word m a) [0..<length ws] ! k = ws ! k"
    using k le_roundtrip [of "ws ! k" 8] by (simp add: stack_word_def take_bit_64)
qed simp

lemma align16:
  fixes x :: u64
  shows "unat (x AND NOT 0xF) = unat x - unat x mod 16" "(x AND NOT 0xF) AND 0xF = 0"
proof -
  have m: "x AND 0xF = take_bit 4 x" by (simp add: take_bit_eq_mask mask_eq_exp_minus_1)
  then have u: "unat (x AND 0xF) = unat x mod 16" by (simp add: unat_take_bit_mod)
  have e: "x AND NOT 0xF = x - (x AND 0xF)" by (metis diff_andn diff_diff_eq2 add_diff_cancel_left')
  show "unat (x AND NOT 0xF) = unat x - unat x mod 16"
    unfolding e using u by (subst unat_sub) (simp_all add: word_le_nat_alt)
  show "(x AND NOT 0xF) AND 0xF = 0" by (rule andn_and_self)
qed

definition stack_words :: "string list \<Rightarrow> u64 list \<Rightarrow> u64 list \<Rightarrow> (u64 \<times> u64) list \<Rightarrow> u64 list" where
  "stack_words argv ap ep aux = [of_nat (length argv)] @ ap @ [0] @ ep @ [0] @ concat (map (\<lambda>(k, v). [k, v]) aux) @ [AT_NULL, 0]"

lemma length_stack_words: "length (stack_words argv ap ep aux) = 5 + length ap + length ep + 2 * length aux"
proof -
  have "length (concat (map (\<lambda>(k, v). [k, v]) aux)) = 2 * length aux" for aux :: "(u64 \<times> u64) list"
    by (induction aux) auto
  then show ?thesis by (simp add: stack_words_def)
qed

definition stack_room :: "string list \<Rightarrow> string list \<Rightarrow> (u64 \<times> u64) list \<Rightarrow> string \<Rightarrow> nat" where
  "stack_room argv envp auxv execfn = strs_size argv + strs_size envp + str_size execfn + 32 +
     8 * (9 + length argv + length envp + 2 * length auxv)"

lemma setupStack_spec:
  assumes "mem_wf (e_mem e)" "range_mapped (e_mem e) lo stackTop" "length rnd = 16" "\<And>xs. length (perm xs) = length xs"
    "unat lo + stack_room argv envp auxv execfn \<le> unat stackTop"
  shows "\<exists>sp m' ap ep fnp rp. setupStack rnd perm argv envp auxv execfn e = (Inr sp, set_e_mem m' e) \<and> sp AND 0xF = 0 \<and>
    lo \<le> sp \<and> wrote_in (e_mem e) m' sp stackTop \<and>
    holds_at m' sp (words_bytes (stack_words argv ap ep (perm (auxv @ [(AT_RANDOM, rp), (AT_EXECFN, fnp)])))) stackTop \<and>
    strs_at m' argv ap sp stackTop \<and> strs_at m' envp ep sp stackTop \<and> holds_at m' fnp (str_bytes execfn @ [0]) stackTop \<and> holds_at m' rp rnd stackTop"
proof -
  note room = assms(5) [unfolded stack_room_def]
  from push_strs_spec [OF assms(1,2), of argv] room obtain ap t1 m1 where
    1: "push_strs argv stackTop e = (Inr (ap, t1), set_e_mem m1 e)" "wrote_in (e_mem e) m1 t1 stackTop" "strs_at m1 argv ap t1 stackTop"
      "unat t1 = unat stackTop - strs_size argv" "lo \<le> t1" "t1 \<le> stackTop" by auto
  have r1: "mem_wf m1" "range_mapped m1 lo t1"
    using 1(2) range_mapped_sub [OF range_mapped_wrote [OF assms(2) 1(2)] order_refl 1(6)] by (simp_all add: wrote_in_def)
  have "unat lo + strs_size envp \<le> unat t1" using room 1(4) by simp
  with push_strs_spec [of "set_e_mem m1 e" lo t1 envp] r1 obtain ep t2 m2 where
    2: "push_strs envp t1 (set_e_mem m1 e) = (Inr (ep, t2), set_e_mem m2 e)" "wrote_in m1 m2 t2 t1" "strs_at m2 envp ep t2 t1"
      "unat t2 = unat t1 - strs_size envp" "lo \<le> t2" "t2 \<le> t1" by auto
  have r2: "mem_wf m2" "range_mapped m2 lo t2"
    using 2(2) range_mapped_sub [OF range_mapped_wrote [OF r1(2) 2(2)] order_refl 2(6)] by (simp_all add: wrote_in_def)
  have "unat lo + str_size execfn \<le> unat t2" using room 1(4) 2(4) by simp
  with pushStr_spec [of "set_e_mem m2 e" lo t2 execfn] r2 obtain fnp m3 where
    3: "pushStr execfn t2 (set_e_mem m2 e) = (Inr fnp, set_e_mem m3 e)" "wrote_in m2 m3 fnp t2" "holds_at m3 fnp (str_bytes execfn @ [0]) t2"
      "unat fnp = unat t2 - str_size execfn" "lo \<le> fnp" "fnp \<le> t2" by auto
  have r3: "mem_wf m3" "range_mapped m3 lo fnp"
    using 3(2) range_mapped_sub [OF range_mapped_wrote [OF r2(2) 3(2)] order_refl 3(6)] by (simp_all add: wrote_in_def)
  have "unat lo + length rnd \<le> unat fnp" using room 1(4) 2(4) 3(4) assms(3) by simp
  with push_bytes [OF r3, of rnd "fnp - 16"] assms(3) obtain m4 where
    4: "MemWrite (fnp - 16) rnd m3 = (Inr (), m4)" "wrote_in m3 m4 (fnp - 16) fnp" "holds_at m4 (fnp - 16) rnd fnp"
      "unat (fnp - 16) = unat fnp - 16" "lo \<le> fnp - 16" "fnp - 16 \<le> fnp" by auto
  have r4: "mem_wf m4" "range_mapped m4 lo (fnp - 16)"
    using 4(2) range_mapped_sub [OF range_mapped_wrote [OF r3(2) 4(2)] order_refl 4(6)] by (simp_all add: wrote_in_def)
  define rp where "rp = fnp - 16"
  define ws where "ws = stack_words argv ap ep (perm (auxv @ [(AT_RANDOM, rp), (AT_EXECFN, fnp)]))"
  define sp where "sp = (rp - of_nat (length ws * 8)) AND NOT 0xF"
  have lens: "length ap = length argv" "length ep = length envp" using 1(3) 2(3) by (simp_all add: strs_at_def list_all2_lengthD)
  have n: "8 * length ws = 8 * (9 + length argv + length envp + 2 * length auxv)"
    unfolding ws_def length_stack_words assms(4) using lens by simp
  have fit: "unat lo + 8 * length ws + 16 \<le> unat rp" using room 1(4) 2(4) 3(4) 4(4) n by (simp add: rp_def)
  have un: "unat (of_nat (length ws * 8) :: u64) = 8 * length ws" using fit unat_u64_less [of rp] by (subst unat_of_nat_small) auto
  have u: "unat (rp - of_nat (length ws * 8)) = unat rp - 8 * length ws" using un fit by (subst unat_sub) (simp_all add: word_le_nat_alt)
  have usp: "unat sp \<le> unat rp - 8 * length ws" "unat rp - 8 * length ws - 16 < unat sp"
    unfolding sp_def align16 u using fit mod_less_divisor [of 16 "unat rp - 8 * length ws"] by linarith+
  have spr: "lo \<le> sp" "sp \<le> rp" "unat sp + length (words_bytes ws) \<le> unat rp" using usp fit by (simp_all add: word_le_nat_alt)
  have "\<exists>m5. MemWrite sp (words_bytes ws) m4 = (Inr (), m5) \<and> wrote_in m4 m5 sp rp \<and> holds_at m5 sp (words_bytes ws) rp"
    by (rule MemWrite_range [OF r4(1) spr(3)]) (use r4(2) spr(1) in \<open>auto simp: range_mapped_def rp_def\<close>)
  then obtain m5 where 5: "MemWrite sp (words_bytes ws) m4 = (Inr (), m5)" "wrote_in m4 m5 sp rp" "holds_at m5 sp (words_bytes ws) rp" by blast
  have run: "setupStack rnd perm argv envp auxv execfn e = (Inr sp, set_e_mem m5 e)"
    using 1(1) 2(1) 3(1) 4(1) 5(1)
    by (simp add: setupStack_def Let_def on_mem_def rp_def sp_def ws_def stack_words_def)
  have w35: "wrote_in m3 m5 sp fnp" using wrote_in_trans [OF 4(2) 5(2) [unfolded rp_def]] spr(2) 4(6) by (simp add: rp_def)
  have w25: "wrote_in m2 m5 sp t2" using wrote_in_trans [OF 3(2) w35] spr(2) 4(6) 3(6) by (simp add: rp_def)
  have w15: "wrote_in m1 m5 sp t1" using wrote_in_trans [OF 2(2) w25] spr(2) 4(6) 3(6) 2(6) by (simp add: rp_def)
  have w05: "wrote_in (e_mem e) m5 sp stackTop" using wrote_in_trans [OF 1(2) w15] spr(2) 4(6) 3(6) 2(6) 1(6) by (simp add: rp_def)
  have ups: "sp \<le> t2" "sp \<le> t1" "rp \<le> stackTop" "fnp \<le> stackTop" "t2 \<le> stackTop"
    using spr(2) 4(6) 3(6) 2(6) 1(6) by (auto simp: rp_def)
  have hw: "holds_at m a bs hi \<Longrightarrow> hi \<le> hi' \<Longrightarrow> holds_at m a bs hi'" for m a bs hi hi' by (simp add: holds_at_def word_le_nat_alt)
  show ?thesis
  proof (intro exI conjI)
    show "setupStack rnd perm argv envp auxv execfn e = (Inr sp, set_e_mem m5 e)" by (rule run)
    show "sp AND 0xF = 0" unfolding sp_def by (rule align16)
    show "lo \<le> sp" by (rule spr)
    show "wrote_in (e_mem e) m5 sp stackTop" by (rule w05)
    show "holds_at m5 sp (words_bytes (stack_words argv ap ep (perm (auxv @ [(AT_RANDOM, rp), (AT_EXECFN, fnp)])))) stackTop"
      using hw [OF 5(3) ups(3)] by (simp add: ws_def)
    show "strs_at m5 argv ap sp stackTop" using strs_at_weaken [OF strs_at_wrote [OF 1(3) w15 order_refl] ups(2) order_refl] .
    show "strs_at m5 envp ep sp stackTop" using strs_at_weaken [OF strs_at_wrote [OF 2(3) w25 order_refl] ups(1) 1(6)] .
    show "holds_at m5 fnp (str_bytes execfn @ [0]) stackTop" using hw [OF holds_at_wrote [OF 3(3) w35 order_refl] ups(5)] .
    show "holds_at m5 rp rnd stackTop" using hw [OF holds_at_wrote [OF 4(3) 5(2)] ups(4)] by (simp add: rp_def)
  qed
qed

section \<open>Segments\<close>

definition seg_lo :: "u64 \<Rightarrow> segment \<Rightarrow> u64" where
  "seg_lo bias s = pageAlignDown (sg_Vaddr s + bias)"

definition seg_hi :: "u64 \<Rightarrow> segment \<Rightarrow> u64" where
  "seg_hi bias s = pageAlignUp (sg_Vaddr s + bias + sg_Memsz s)"

definition in_seg :: "u64 \<Rightarrow> u64 \<Rightarrow> segment \<Rightarrow> bool" where
  "in_seg bias x s \<longleftrightarrow> seg_lo bias s \<le> x \<and> x < seg_hi bias s"

text \<open>A segment that is not empty and ends, rounded up, inside the address space.\<close>

definition seg_fits :: "u64 \<Rightarrow> segment \<Rightarrow> bool" where
  "seg_fits bias s \<longleftrightarrow> sg_Memsz s \<noteq> 0 \<and> length (sg_Data s) \<le> unat (sg_Memsz s) \<and>
     unat (sg_Vaddr s + bias) + unat (sg_Memsz s) \<le> 18446744073709547520"

text \<open>The bytes and permissions of the pages of a segment.\<close>

definition seg_view :: "u64 \<Rightarrow> segment \<Rightarrow> u64 \<Rightarrow> (u64 \<times> u8) option" where
  "seg_view bias s x = Some (seg_perms (sg_Flags s), file_byte (sg_Data s) (unat (x - (sg_Vaddr s + bias))))"

lemma seg_bounds:
  assumes "seg_fits bias s"
  shows "unat (seg_lo bias s) \<le> unat (sg_Vaddr s + bias)"
    "unat (sg_Vaddr s + bias) + length (sg_Data s) \<le> unat (seg_hi bias s)" "seg_lo bias s < seg_hi bias s"
    "(seg_hi bias s - seg_lo bias s) AND pageMask = 0" "seg_lo bias s AND pageMask = 0"
    "unat (seg_lo bias s) + unat (seg_hi bias s - seg_lo bias s) < 18446744073709551616"
    "seg_lo bias s \<le> x \<and> x < seg_hi bias s \<longleftrightarrow> unat (x - seg_lo bias s) < unat (seg_hi bias s - seg_lo bias s)"
proof -
  let ?v = "sg_Vaddr s + bias"
  have f: "sg_Memsz s \<noteq> 0" "length (sg_Data s) \<le> unat (sg_Memsz s)" "unat ?v + unat (sg_Memsz s) \<le> 18446744073709547520"
    using assms by (simp_all add: seg_fits_def)
  have pos: "0 < unat (sg_Memsz s)" using f(1) by (simp add: unat_gt_0)
  have u: "unat (?v + sg_Memsz s) = unat ?v + unat (sg_Memsz s)" using f(3) by (simp add: unat_word_ariths)
  have up: "unat ?v + unat (sg_Memsz s) \<le> unat (seg_hi bias s)"
    using pageAlignUp_unat(2) [of "?v + sg_Memsz s"] f(3) by (simp add: seg_hi_def u)
  show lo: "unat (seg_lo bias s) \<le> unat ?v" by (simp add: seg_lo_def pageAlignDown_eq unat_pageAddr)
  show "unat ?v + length (sg_Data s) \<le> unat (seg_hi bias s)" using up f(2) by simp
  show lt: "seg_lo bias s < seg_hi bias s" using lo up pos by (simp add: word_less_nat_alt)
  show a: "seg_lo bias s AND pageMask = 0" by (simp add: seg_lo_def pageAlignDown_eq aligned_pageAddr)
  show "(seg_hi bias s - seg_lo bias s) AND pageMask = 0"
    by (rule aligned_diff [OF _ a]) (simp add: seg_hi_def pageAlignUp_aligned)
  have "unat (seg_hi bias s - seg_lo bias s) = unat (seg_hi bias s) - unat (seg_lo bias s)"
    using lt by (subst unat_sub) (simp_all add: word_le_nat_alt word_less_nat_alt)
  then show fit: "unat (seg_lo bias s) + unat (seg_hi bias s - seg_lo bias s) < 18446744073709551616"
    using lt unat_u64_less [of "seg_hi bias s"] by (simp add: word_less_nat_alt)
  show "seg_lo bias s \<le> x \<and> x < seg_hi bias s \<longleftrightarrow> unat (x - seg_lo bias s) < unat (seg_hi bias s - seg_lo bias s)"
    using range_iff_index [OF fit, of x] by simp
qed

text \<open>Mapping one segment over free pages.\<close>

lemma map_one_seg:
  assumes "mem_wf (e_mem e)" "seg_fits bias s" "\<And>x. in_seg bias x s \<Longrightarrow> mem_at (e_mem e) x = None"
  shows "\<exists>m'. map_segs (s # segs) bias tp e = map_segs segs bias (if tp < seg_hi bias s then seg_hi bias s else tp) (set_e_mem m' e) \<and>
    mem_wf m' \<and> (\<forall>x. mem_at m' x = (if in_seg bias x s then seg_view bias s x else mem_at (e_mem e) x))"
proof -
  note b = seg_bounds [OF assms(2)]
  let ?v = "sg_Vaddr s + bias" and ?lo = "seg_lo bias s" and ?hi = "seg_hi bias s"
  have "?hi - ?lo \<noteq> 0" using b(3) by auto
  from MemMap_fresh [OF assms(1) b(5) b(4) this b(6)] assms(3) obtain m1 where m1:
      "MemMap ?lo (?hi - ?lo) (seg_perms (sg_Flags s)) (e_mem e) = (Inr (), m1)" "mem_wf m1"
      "\<And>x. mem_at m1 x = (if in_seg bias x s then Some (seg_perms (sg_Flags s), 0) else mem_at (e_mem e) x)"
    unfolding in_seg_def b(7) by blast
  have inr: "in_seg bias x s" if "unat (x - ?v) < length (sg_Data s)" for x
    using index_range(1,2) [OF b(2) that] b(1) unfolding in_seg_def word_le_nat_alt by simp
  have "length (sg_Data s) \<le> 18446744073709551616" using b(2) unat_u64_less [of ?hi] by linarith
  from MemWrite_mapped [OF m1(2) this, of ?v] inr obtain m' where m': "MemWrite ?v (sg_Data s) m1 = (Inr (), m')" "mem_wf m'"
      "\<And>x. mem_at m' x = (if unat (x - ?v) < length (sg_Data s) then map_option (\<lambda>(p, _). (p, sg_Data s ! unat (x - ?v))) (mem_at m1 x) else mem_at m1 x)"
    by (auto simp: m1(3))
  have "map_segs (s # segs) bias tp e = map_segs segs bias (if tp < ?hi then ?hi else tp) (set_e_mem m' e)"
    using m1(1) m'(1) by (simp add: Let_def on_mem_def cpuS_def seg_lo_def seg_hi_def)
  moreover have "mem_at m' x = (if in_seg bias x s then seg_view bias s x else mem_at (e_mem e) x)" for x
    using inr [of x] unfolding m'(3) m1(3) by (auto simp: seg_view_def file_byte_def)
  ultimately show ?thesis using m'(2) by blast
qed

definition segs_disjoint :: "u64 \<Rightarrow> segment list \<Rightarrow> bool" where
  "segs_disjoint bias segs \<longleftrightarrow> sorted_wrt (\<lambda>s t. \<forall>x. \<not> (in_seg bias x s \<and> in_seg bias x t)) segs"

lemma map_segs_spec:
  assumes "mem_wf (e_mem e)" "list_all (seg_fits bias) segs" "segs_disjoint bias segs"
    "\<And>s x. s \<in> set segs \<Longrightarrow> in_seg bias x s \<Longrightarrow> mem_at (e_mem e) x = None"
  shows "\<exists>m'. map_segs segs bias tp e = (Inr (fold max (map (seg_hi bias) segs) tp), set_e_mem m' e) \<and> mem_wf m' \<and>
    (\<forall>x. mem_at m' x = (case find (in_seg bias x) segs of None \<Rightarrow> mem_at (e_mem e) x | Some s \<Rightarrow> seg_view bias s x))"
  using assms
proof (induction segs arbitrary: tp e)
  case Nil
  then show ?case by (intro exI [of _ "e_mem e"]) simp
next
  case (Cons s segs)
  obtain m1 where m1: "map_segs (s # segs) bias tp e = map_segs segs bias (if tp < seg_hi bias s then seg_hi bias s else tp) (set_e_mem m1 e)"
      "mem_wf m1" "\<And>x. mem_at m1 x = (if in_seg bias x s then seg_view bias s x else mem_at (e_mem e) x)"
    using map_one_seg [OF Cons.prems(1), of bias s segs tp] Cons.prems(2,4) by auto
  have mx: "(if tp < seg_hi bias s then seg_hi bias s else tp) = max (seg_hi bias s) tp" by (auto simp: max_def)
  have "\<exists>m'. map_segs segs bias (max (seg_hi bias s) tp) (set_e_mem m1 e) = (Inr (fold max (map (seg_hi bias) segs) (max (seg_hi bias s) tp)), set_e_mem m' (set_e_mem m1 e)) \<and>
      mem_wf m' \<and> (\<forall>x. mem_at m' x = (case find (in_seg bias x) segs of None \<Rightarrow> mem_at (e_mem (set_e_mem m1 e)) x | Some s \<Rightarrow> seg_view bias s x))"
  proof (rule Cons.IH)
    show "mem_at (e_mem (set_e_mem m1 e)) x = None" if "t \<in> set segs" "in_seg bias x t" for t x
      using that Cons.prems(3,4) by (auto simp: m1(3) segs_disjoint_def)
  qed (use m1 Cons.prems in \<open>auto simp: segs_disjoint_def\<close>)
  then obtain m' where m': "map_segs segs bias (max (seg_hi bias s) tp) (set_e_mem m1 e) = (Inr (fold max (map (seg_hi bias) segs) (max (seg_hi bias s) tp)), set_e_mem m' e)"
      "mem_wf m'" "\<And>x. mem_at m' x = (case find (in_seg bias x) segs of None \<Rightarrow> mem_at m1 x | Some s \<Rightarrow> seg_view bias s x)"
    by (simp only: set_e_mem_simps) blast
  have "mem_at m' x = (case find (in_seg bias x) (s # segs) of None \<Rightarrow> mem_at (e_mem e) x | Some s \<Rightarrow> seg_view bias s x)" for x
  proof (cases "in_seg bias x s")
    case True
    then have "find (in_seg bias x) segs = None" using Cons.prems(3) by (auto simp: find_None_iff segs_disjoint_def)
    then show ?thesis using True by (simp add: m' m1(3))
  qed (simp add: m' m1(3) split: option.split)
  then show ?case using m'(1,2) m1(1) by (intro exI [of _ m']) (simp add: mx)
qed

lemma map_segs_append: "map_segs (a @ b) bias tp = bindE (map_segs a bias tp) (\<lambda>tp1. map_segs b bias tp1)"
  by (induction a arbitrary: tp) (simp_all add: Let_def bindE_assoc)

text \<open>A segment of which one page is taken and one byte of data falls on a page that is not mapped.\<close>

lemma map_seg_taken:
  assumes "mem_wf (e_mem e)" "seg_fits bias s" "in_seg bias x s" "mem_at (e_mem e) x \<noteq> None"
    "i < length (sg_Data s)" "mem_at (e_mem e) (sg_Vaddr s + bias + of_nat i) = None"
  shows "\<exists>err e'. map_segs (s # segs) bias tp e = (Inl (LoadCpu err), e')"
proof -
  note b = seg_bounds [OF assms(2)]
  have "seg_hi bias s - seg_lo bias s \<noteq> 0" using b(3) by auto
  from MemMap_taken [OF b(5) b(4) this b(6) _ assms(4)] assms(3) b(7) [of x] obtain a where
    t: "MemMap (seg_lo bias s) (seg_hi bias s - seg_lo bias s) (seg_perms (sg_Flags s)) (e_mem e) = (Inl (AlreadyMapped a), e_mem e)"
    unfolding in_seg_def by blast
  have "length (sg_Data s) \<le> 18446744073709551616" using b(2) unat_u64_less [of "seg_hi bias s"] by linarith
  from writeChecked_fault [OF assms(1) this assms(5), of 0 "sg_Vaddr s + bias"] assms(6) obtain err m' where
    "MemWrite (sg_Vaddr s + bias) (sg_Data s) (e_mem e) = (Inl err, m')"
    unfolding MemWrite_eq by (auto simp: accessible_def)
  then show ?thesis using t by (simp add: Let_def on_mem_def cpuS_def seg_lo_def seg_hi_def)
qed

section \<open>Properties of a loaded image\<close>

text \<open>
  C27. \<open>mapSegments\<close> over free pages, when no two segments share a page: the pages of every segment
  are mapped with its permissions, its data lies at its address plus the load bias, the rest of its
  pages is zero, nothing else changes, and the result is the end of the highest segment.
\<close>

theorem segments_mapped:
  assumes "mem_wf (e_mem e)" "LoadSegments img = Inr segs" "list_all (seg_fits bias) segs" "segs_disjoint bias segs"
    "\<And>s x. s \<in> set segs \<Longrightarrow> in_seg bias x s \<Longrightarrow> mem_at (e_mem e) x = None"
  shows "\<exists>e'. mapSegments img bias e = (Inr (fold max (map (seg_hi bias) segs) 0), e') \<and> mem_wf (e_mem e') \<and> c_regs (e_cpu e') = c_regs (e_cpu e) \<and>
    (\<forall>x. mem_at (e_mem e') x = (case find (in_seg bias x) segs of None \<Rightarrow> mem_at (e_mem e) x | Some s \<Rightarrow> seg_view bias s x))"
proof -
  have "\<exists>m'. map_segs segs bias 0 e = (Inr (fold max (map (seg_hi bias) segs) 0), set_e_mem m' e) \<and> mem_wf m' \<and>
      (\<forall>x. mem_at m' x = (case find (in_seg bias x) segs of None \<Rightarrow> mem_at (e_mem e) x | Some s \<Rightarrow> seg_view bias s x))"
    by (rule map_segs_spec [OF assms(1,3,4)]) (rule assms(5))
  then obtain m' where "map_segs segs bias 0 e = (Inr (fold max (map (seg_hi bias) segs) 0), set_e_mem m' e)" "mem_wf m'"
      "\<forall>x. mem_at m' x = (case find (in_seg bias x) segs of None \<Rightarrow> mem_at (e_mem e) x | Some s \<Rightarrow> seg_view bias s x)"
    by blast
  then show ?thesis using assms(2) by (intro exI [of _ "set_e_mem m' e"]) (simp add: mapSegments_def)
qed

text \<open>Two images: segments at 0x400000 and 0x403000, and segments that share the page at 0x400000.\<close>

definition demo_ph :: "u64 \<Rightarrow> ProgramHeader" where
  "demo_ph a = \<lparr>ph_Type = PT_LOAD, ph_Flags = 5, ph_Offset = 0, ph_Vaddr = a, ph_Paddr = a, ph_Filesz = 2, ph_Memsz = 2, ph_Align = 0x1000\<rparr>"

definition demo_image :: "u64 \<Rightarrow> elf_image" where
  "demo_image a = \<lparr>im_Path = [], im_Data = [7, 9], im_Type = 2, im_Entry = 0x400000, im_Phoff = 64, im_Phentsize = 56, im_Phnum = 2,
     im_Segments = [demo_ph 0x400000, demo_ph a], im_Interp = []\<rparr>"

definition demo_seg :: "u64 \<Rightarrow> segment" where
  "demo_seg a = \<lparr>sg_Vaddr = a, sg_Memsz = 2, sg_Data = [7, 9], sg_Flags = 5\<rparr>"

lemma demo_image_segs: "LoadSegments (demo_image a) = Inr [demo_seg 0x400000, demo_seg a]"
  by (simp add: LoadSegments_def demo_image_def demo_ph_def demo_seg_def load_segment_def Let_def slice_def PT_LOAD_def)

lemma demo_seg_range:
  "in_seg 0 x (demo_seg 0x400000) \<longleftrightarrow> 0x400000 \<le> x \<and> x < 0x401000" "in_seg 0 x (demo_seg 0x403000) \<longleftrightarrow> 0x403000 \<le> x \<and> x < 0x404000"
  "in_seg 0 x (demo_seg 0x400FFF) \<longleftrightarrow> 0x400000 \<le> x \<and> x < 0x402000"
  by (simp_all add: in_seg_def seg_lo_def seg_hi_def demo_seg_def pageAlignDown_def pageAlignUp_def)

lemma demo_seg_fits: "a \<in> {0x400000, 0x403000, 0x400FFF} \<Longrightarrow> seg_fits 0 (demo_seg a)"
  by (auto simp: seg_fits_def demo_seg_def)

theorem segments_mapped_witness:
  "\<exists>e'. mapSegments (demo_image 0x403000) 0 NewEngine = (Inr 0x404000, e') \<and> mem_at (e_mem e') 0x403001 = Some (ProtRead OR ProtExec, 9) \<and>
     mem_at (e_mem e') 0x400FFF = Some (ProtRead OR ProtExec, 0) \<and> mem_at (e_mem e') 0x401000 = None"
proof -
  let ?segs = "[demo_seg 0x400000, demo_seg 0x403000]"
  have ne: "mem_wf (e_mem NewEngine)" "\<And>x. mem_at (e_mem NewEngine) x = None"
    by (simp_all add: NewEngine_def mem_wf_newMemory newMemory_at)
  have dj: "segs_disjoint 0 ?segs" by (auto simp: segs_disjoint_def demo_seg_range word_less_nat_alt word_le_nat_alt)
  have fs: "list_all (seg_fits 0) ?segs" by (simp add: demo_seg_fits)
  obtain e' where e': "mapSegments (demo_image 0x403000) 0 NewEngine = (Inr (fold max (map (seg_hi 0) ?segs) 0), e')"
      "\<And>x. mem_at (e_mem e') x = (case find (in_seg 0 x) ?segs of None \<Rightarrow> mem_at (e_mem NewEngine) x | Some s \<Rightarrow> seg_view 0 s x)"
    using segments_mapped [OF ne(1) demo_image_segs fs dj] ne(2) by blast
  have hi: "fold max (map (seg_hi 0) ?segs) 0 = 0x404000" by (simp add: seg_hi_def demo_seg_def pageAlignUp_def max_def)
  have pr: "seg_perms 5 = ProtRead OR ProtExec"
    by (simp add: seg_perms_def protToEngine_def boolMask_def PROT_READ_def PROT_WRITE_def PROT_EXEC_def prot_defs)
  show ?thesis using e'(1) unfolding hi
    by (intro exI [of _ e']) (simp add: e'(2) demo_seg_range ne(2) seg_view_def file_byte_def, simp add: demo_seg_def pr)
qed

text \<open>
  Segments that share a page are not loaded: when a page of a segment belongs to a segment before
  it and one of its data bytes lies outside the earlier segments, the whole segment stays unmapped
  and writing its data fails, although the error of \<open>MemMap\<close> is ignored.
\<close>

theorem segment_overlap_fails:
  assumes "mem_wf (e_mem e)" "LoadSegments img = Inr (segs @ s # rest)" "list_all (seg_fits bias) (segs @ [s])" "segs_disjoint bias segs"
    and free: "\<And>x. mem_at (e_mem e) x = None"
    and "t \<in> set segs" "in_seg bias x t" "in_seg bias x s"
    and "i < length (sg_Data s)" "\<And>t. t \<in> set segs \<Longrightarrow> \<not> in_seg bias (sg_Vaddr s + bias + of_nat i) t"
  shows "\<exists>err e'. mapSegments img bias e = (Inl (LoadCpu err), e')"
proof -
  obtain m' where m': "map_segs segs bias 0 e = (Inr (fold max (map (seg_hi bias) segs) 0), set_e_mem m' e)" "mem_wf m'"
      "\<And>x. mem_at m' x = (case find (in_seg bias x) segs of None \<Rightarrow> mem_at (e_mem e) x | Some s \<Rightarrow> seg_view bias s x)"
    using map_segs_spec [OF assms(1) _ assms(4), of 0] assms(3) free by auto
  have "find (in_seg bias (sg_Vaddr s + bias + of_nat i)) segs = None" using assms(10) by (auto simp: find_None_iff)
  then have out: "mem_at m' (sg_Vaddr s + bias + of_nat i) = None" using free by (simp add: m')
  have "find (in_seg bias x) segs \<noteq> None" using assms(6,7) by (auto simp: find_None_iff)
  then have "mem_at m' x \<noteq> None" by (auto simp: m' seg_view_def)
  with map_seg_taken [of "set_e_mem m' e" bias s x i rest] m'(2) assms(3,8,9) out show ?thesis
    using m'(1) by (simp add: mapSegments_def assms(2) map_segs_append del: map_segs.simps)
qed

theorem segment_overlap_fails_witness: "\<exists>err e'. mapSegments (demo_image 0x400FFF) 0 NewEngine = (Inl (LoadCpu err), e')"
proof (rule segment_overlap_fails)
  show "LoadSegments (demo_image 0x400FFF) = Inr ([demo_seg 0x400000] @ demo_seg 0x400FFF # [])" by (simp add: demo_image_segs)
  show "list_all (seg_fits 0) ([demo_seg 0x400000] @ [demo_seg 0x400FFF])" by (simp add: demo_seg_fits)
  show "mem_wf (e_mem NewEngine)" "\<And>x. mem_at (e_mem NewEngine) x = None"
    by (simp_all add: NewEngine_def mem_wf_newMemory newMemory_at)
  show "in_seg 0 0x400000 (demo_seg 0x400000)" "in_seg 0 0x400000 (demo_seg 0x400FFF)" by (simp_all add: demo_seg_range)
  show "(1 :: nat) < length (sg_Data (demo_seg 0x400FFF))" by (simp add: demo_seg_def)
  show "\<not> in_seg 0 (sg_Vaddr (demo_seg 0x400FFF) + 0 + of_nat 1) t" if "t \<in> set [demo_seg 0x400000]" for t
    using that by (simp add: demo_seg_range) (simp add: demo_seg_def)
qed (simp_all add: segs_disjoint_def)

text \<open>
  C6. The initial stack: \<open>setupStack\<close> returns a 16-byte aligned stack pointer; the words read from it
  are argc, the argv pointers, 0, the envp pointers, 0, the auxiliary vector with AT_RANDOM and
  AT_EXECFN, and AT_NULL; every pointer leads to its string and a zero byte, AT_RANDOM to the 16 random
  bytes; memory below the stack pointer and above the stack is as it was.
\<close>

theorem stack_layout:
  assumes "mem_wf (e_mem e)" "range_mapped (e_mem e) lo stackTop" "length rnd = 16" "\<And>xs. length (perm xs) = length xs"
    "unat lo + stack_room argv envp auxv execfn \<le> unat stackTop"
  shows "\<exists>sp e' ap ep fnp rp ws. setupStack rnd perm argv envp auxv execfn e = (Inr sp, e') \<and> sp AND 0xF = 0 \<and> lo \<le> sp \<and>
    (\<forall>x. \<not> (sp \<le> x \<and> x < stackTop) \<longrightarrow> mem_at (e_mem e') x = mem_at (e_mem e) x) \<and>
    ws = [of_nat (length argv)] @ ap @ [0] @ ep @ [0] @
      concat (map (\<lambda>(k, v). [k, v]) (perm (auxv @ [(AT_RANDOM, rp), (AT_EXECFN, fnp)]))) @ [AT_NULL, 0] \<and>
    map (stack_word (e_mem e') sp) [0..<length ws] = ws \<and>
    list_all2 (\<lambda>s p. mem_bytes (e_mem e') p (length s + 1) = str_bytes s @ [0]) argv ap \<and>
    list_all2 (\<lambda>s p. mem_bytes (e_mem e') p (length s + 1) = str_bytes s @ [0]) envp ep \<and>
    mem_bytes (e_mem e') fnp (length execfn + 1) = str_bytes execfn @ [0] \<and> mem_bytes (e_mem e') rp 16 = rnd"
proof -
  obtain sp m' ap ep fnp rp where s: "setupStack rnd perm argv envp auxv execfn e = (Inr sp, set_e_mem m' e)" "sp AND 0xF = 0"
      "lo \<le> sp" "wrote_in (e_mem e) m' sp stackTop"
      "holds_at m' sp (words_bytes (stack_words argv ap ep (perm (auxv @ [(AT_RANDOM, rp), (AT_EXECFN, fnp)])))) stackTop"
      "strs_at m' argv ap sp stackTop" "strs_at m' envp ep sp stackTop" "holds_at m' fnp (str_bytes execfn @ [0]) stackTop" "holds_at m' rp rnd stackTop"
    using setupStack_spec [where rnd = rnd and perm = perm, OF assms] by blast
  have strs: "list_all2 (\<lambda>s p. mem_bytes m' p (length s + 1) = str_bytes s @ [0]) ss ps" if "strs_at m' ss ps sp stackTop" for ss ps
    using that unfolding strs_at_def by (auto elim!: list_all2_mono simp: holds_at_def)
  show ?thesis
    using s(1-4) stack_words_read [OF s(5)] strs [OF s(6)] strs [OF s(7)] s(8,9) assms(3)
    by (intro exI [of _ sp] exI [of _ "set_e_mem m' e"] exI [of _ ap] exI [of _ ep] exI [of _ fnp] exI [of _ rp]
        exI [of _ "stack_words argv ap ep (perm (auxv @ [(AT_RANDOM, rp), (AT_EXECFN, fnp)]))"])
      (simp add: stack_words_def wrote_in_def holds_at_def)
qed

definition demo_stack :: engine where
  "demo_stack = set_e_mem (snd (MemMap 0x7FFFFFFFE000 0x1000 (ProtRead OR ProtWrite) newMemory)) NewEngine"

theorem stack_layout_witness:
  "\<exists>sp e'. setupStack (replicate 16 7) rev [''a''] [] [(6, 0x1000)] ''/a'' demo_stack = (Inr sp, e') \<and> sp AND 0xF = 0 \<and>
     stack_word (e_mem e') sp 0 = 1 \<and> mem_bytes (e_mem e') (stack_word (e_mem e') sp 1) 2 = [0x61, 0] \<and>
     stack_word (e_mem e') sp 4 = AT_EXECFN \<and> mem_bytes (e_mem e') (stack_word (e_mem e') sp 5) 3 = [0x2F, 0x61, 0] \<and>
     stack_word (e_mem e') sp 9 = 0x1000"
proof -
  have "\<exists>m'. MemMap 0x7FFFFFFFE000 0x1000 (ProtRead OR ProtWrite) newMemory = (Inr (), m') \<and> mem_wf m' \<and>
      (\<forall>x. mem_at m' x = (if unat (x - 0x7FFFFFFFE000) < unat (0x1000 :: u64) then Some (ProtRead OR ProtWrite, 0) else mem_at newMemory x))"
    by (rule MemMap_fresh) (simp_all add: mem_wf_newMemory newMemory_at)
  then have m: "mem_wf (e_mem demo_stack)" "range_mapped (e_mem demo_stack) 0x7FFFFFFFE000 stackTop"
    using range_iff_index [of "0x7FFFFFFFE000" "0x1000"] by (auto simp: demo_stack_def range_mapped_def stackTop_def)
  have room: "unat (0x7FFFFFFFE000 :: u64) + stack_room [''a''] [] [(6, 0x1000)] ''/a'' \<le> unat stackTop"
    by (simp add: stack_room_def str_size_def stackTop_def)
  obtain sp e' ap ep fnp rp ws where s: "setupStack (replicate 16 7) rev [''a''] [] [(6, 0x1000)] ''/a'' demo_stack = (Inr sp, e')" "sp AND 0xF = 0"
    and ws: "ws = [of_nat (length [''a''])] @ ap @ [0] @ ep @ [0] @
      concat (map (\<lambda>(k, v). [k, v]) (rev ([(6, 0x1000)] @ [(AT_RANDOM, rp), (AT_EXECFN, fnp)]))) @ [AT_NULL, 0]"
      "map (stack_word (e_mem e') sp) [0..<length ws] = ws"
    and st: "list_all2 (\<lambda>s p. mem_bytes (e_mem e') p (length s + 1) = str_bytes s @ [0]) [''a''] ap"
      "list_all2 (\<lambda>s p. mem_bytes (e_mem e') p (length s + 1) = str_bytes s @ [0]) [] ep"
      "mem_bytes (e_mem e') fnp (length ''/a'' + 1) = str_bytes ''/a'' @ [0]"
    using stack_layout [OF m, of "replicate 16 7" rev, OF _ _ room] by auto
  obtain p where p: "ap = [p]" "mem_bytes (e_mem e') p 2 = [0x61, 0]" using st(1) by (auto simp: list_all2_Cons1 str_bytes_def numeral_2_eq_2)
  have "ep = []" using st(2) by simp
  then have w: "ws = [1, p, 0, 0, AT_EXECFN, fnp, AT_RANDOM, rp, 6, 0x1000, AT_NULL, 0]" using ws(1) p(1) by simp
  have "stack_word (e_mem e') sp k = ws ! k" if "k < length ws" for k
    using arg_cong [where f = "\<lambda>l. l ! k", OF ws(2)] that by simp
  then have "stack_word (e_mem e') sp 0 = 1" "stack_word (e_mem e') sp 1 = p" "stack_word (e_mem e') sp 4 = AT_EXECFN"
      "stack_word (e_mem e') sp 5 = fnp" "stack_word (e_mem e') sp 9 = 0x1000"
    by (simp_all add: w)
  then show ?thesis using s p(2) st(3) by (intro exI [of _ sp] exI [of _ e']) (simp add: str_bytes_def numeral_3_eq_3)
qed

end
