(* ===== verification/Process_Tree.thy ===== *)
theory Process_Tree
  imports Process_Image
begin

unbundle bit_operations_syntax

text \<open>
  The laws of the process tree: what the SYSCALL hook leaves for every kind of answer, fork as a copy of
  the process, wait4 and the exit statuses it reports, and the CPUID hook.
\<close>

section \<open>Registers of an engine\<close>

lemma eReg_same: "r \<le> 16 \<Longrightarrow> eRegRead r (eRegWrite r v e) = v"
  by (auto simp: eRegRead_def eRegWrite_def RegRead_def RegWrite_def set_gpr_def)

lemma eReg_other: "q \<le> 16 \<Longrightarrow> r \<le> 16 \<Longrightarrow> q \<noteq> r \<Longrightarrow> eRegRead q (eRegWrite r v e) = eRegRead q e"
  by (auto simp: eRegRead_def eRegWrite_def RegRead_def RegWrite_def set_gpr_def)

lemma eReg_simps [simp]:
  "e_mem (eRegWrite r v e) = e_mem e" "pr_data (eRegWrite r v p) = pr_data p" "pr_spawned (eRegWrite r v p) = pr_spawned p"
  "eRegRead q (p\<lparr>pr_data := d\<rparr>) = eRegRead q p" "eRegRead q (EmuStop e) = eRegRead q e" "e_mem (EmuStop e) = e_mem e"
  "pr_data (EmuStop p) = pr_data p" "e_stopRequested (eRegWrite r v e) = e_stopRequested e" "e_stopRequested (EmuStop e)"
  by (simp_all add: eRegWrite_def eRegRead_def EmuStop_def)

lemma eReg_RAX_regs: "c_regs (e_cpu (eRegWrite RegRAX v e)) = (c_regs (e_cpu e))\<lparr>r_gpr := (r_gpr (c_regs (e_cpu e)))(RegRAX := v)\<rparr>"
  by (simp add: eRegWrite_def RegWrite_def set_gpr_def)

section \<open>fork\<close>

lemma child_engine:
  assumes "mem_wf (e_mem p)"
  shows "e_mem (eRegWrite RegRAX 0 (engine_Clone (engine.truncate p))) = mem_Clone (e_mem p)"
    "c_regs (e_cpu (engine_Clone (engine.truncate p))) = c_regs (e_cpu p)"
  by (simp_all add: engine_Clone_def engine.truncate_def)

lemma child_caches:
  "e_decodeCache (eRegWrite RegRAX 0 (engine_Clone e)) = Map.empty" "e_cachedDecodePage (eRegWrite RegRAX 0 (engine_Clone e)) = None"
  "e_blockCache (eRegWrite RegRAX 0 (engine_Clone e)) = Map.empty" "e_cachedBlock (eRegWrite RegRAX 0 (engine_Clone e)) = None"
  by (simp_all add: eRegWrite_def engine_Clone_def NewEngine_def)

text \<open>The process and the child it just started.\<close>

definition forked :: "process \<Rightarrow> engine \<times> proc_data" where
  "forked p = last (pr_spawned p)"

section \<open>wait4\<close>

definition waitable :: "int \<Rightarrow> process \<Rightarrow> childRecord list" where
  "waitable pid p = filter (wait_matches pid) (pd_children (pr_data p))"

lemma reap_first_None: "reap_first pid cs = None \<longleftrightarrow> (\<forall>r \<in> set cs. wait_matches pid r \<longrightarrow> cr_exit r = None)"
  by (induction cs) (auto split: option.splits if_splits)

lemma reap_first_Some:
  "reap_first pid cs = Some (r, code, cs') \<Longrightarrow>
    \<exists>a b. cs = a @ r # b \<and> cs' = a @ r\<lparr>cr_reaped := True\<rparr> # b \<and> wait_matches pid r \<and> cr_exit r = Some code"
proof (induction cs arbitrary: cs')
  case (Cons c cs)
  show ?case
  proof (cases "if wait_matches pid c then cr_exit c else None")
    case None
    then obtain cs1 where "reap_first pid cs = Some (r, code, cs1)" "cs' = c # cs1" using Cons.prems by auto
    then show ?thesis using Cons.IH by (metis append_Cons)
  next
    case (Some d)
    then have "r = c" "code = d" "cs' = c\<lparr>cr_reaped := True\<rparr> # cs" "wait_matches pid c" "cr_exit c = Some d"
      using Cons.prems by (auto split: if_splits)
    then show ?thesis by (intro exI [of _ "[]"] exI [of _ cs]) simp
  qed
qed simp

text \<open>Every child has a pid of its own.\<close>

definition children_ok :: "process \<Rightarrow> bool" where
  "children_ok p \<longleftrightarrow> distinct (map cr_pid (pd_children (pr_data p))) \<and>
     (\<forall>r \<in> set (pd_children (pr_data p)). 0 < cr_pid r \<and> cr_pid r \<le> pd_nextPid (pr_data p))"

lemma doFork_children:
  assumes "children_ok p" "0 \<le> pd_nextPid (pr_data p)"
  shows "children_ok (snd (doFork ord rip p))"
  using assms by (auto simp: children_ok_def doFork_def Let_def split: prod.splits)

lemma reaped_no_match: "0 < cr_pid r \<Longrightarrow> distinct (map cr_pid (a @ r # b)) \<Longrightarrow>
    filter (wait_matches (cr_pid r)) (a @ r\<lparr>cr_reaped := True\<rparr> # b) = []"
  by (auto simp: wait_matches_def filter_empty_conv image_iff)

lemma child_status: "u64ToLE (push_bit 8 (word_of_int code AND 0xFF)) 4 = [0, word_of_int code, 0, 0]"
proof (rule nth_equalityI)
  fix i assume "i < length (u64ToLE (push_bit 8 (word_of_int code AND 0xFF)) 4)"
  then have i: "i < 4" by simp
  then have "i = 0 \<or> i = 1 \<or> i = 2 \<or> i = 3" by linarith
  then show "u64ToLE (push_bit 8 (word_of_int code AND 0xFF)) 4 ! i = [0, word_of_int code, 0, 0] ! i"
    by (intro bit_word_eqI) (use u64ToLE_bits [OF i] in \<open>auto simp: bit_simps\<close>)
qed simp

section \<open>Properties of the process tree\<close>

text \<open>
  C7. fork: the child has the parent's memory and the parent's whole register file (general purpose,
  RIP, flags, segment bases, vector and x87 registers) but RAX, which is 0 in the child and the
  child's pid in the parent; no other register of the parent changes. The child starts with no decoded
  instruction or block, and resumes after the SYSCALL. Its process data are the parent's, heap, arena,
  credentials and working directory included, but for its own pid, its parent's pid, the resume
  address, no children and no pending stop of any kind. It has the parent's descriptors, whose
  reference counts count both tables, and no file is closed; the parent has one more child, not
  exited, with a pid that no child had before.
\<close>

theorem fork_copies:
  assumes "disp (eRegRead RegRAX p0) (map (\<lambda>r. eRegRead r p0) [RegRDI, RegRSI, RegRDX, RegR10, RegR8, RegR9]) p0 = (SysFork v, p)"
    "mem_wf (e_mem p)" "children_ok p" "0 \<le> pd_nextPid (pr_data p)"
    "counted (pd_refs (pr_data p)) ts" "i < length ts" "ts ! i = pd_fds (pr_data p)"
    "distinct (ord (pd_fds (pr_data p)))" "set (ord (pd_fds (pr_data p))) = dom (t_entries (pd_fds (pr_data p)))"
    "p' = onSyscall disp ord p0" "pid = pd_nextPid (pr_data p) + 1"
  shows "\<exists>child cd. pr_spawned p' = pr_spawned p @ [(child, cd)] \<and>
    mem_wf (e_mem child) \<and> mem_at (e_mem child) = mem_at (e_mem p) \<and> e_mem p' = e_mem p \<and>
    c_regs (e_cpu child) = (c_regs (e_cpu p))\<lparr>r_gpr := (r_gpr (c_regs (e_cpu p)))(RegRAX := 0)\<rparr> \<and>
    c_regs (e_cpu p') = (c_regs (e_cpu p))\<lparr>r_gpr := (r_gpr (c_regs (e_cpu p)))(RegRAX := word_of_int pid)\<rparr> \<and>
    e_decodeCache child = Map.empty \<and> e_cachedDecodePage child = None \<and> e_blockCache child = Map.empty \<and> e_cachedBlock child = None \<and>
    cd = (pr_data p')\<lparr>pd_pid := pid, pd_ppid := pd_pid (pr_data p), pd_entry := eRegRead RegRIP p0 + 2, pd_children := [],
      pd_exitCode := None, pd_panic := False, pd_blocked := False, pd_cpuidPending := False, pd_cpuidResumeRIP := 0, pd_pendingExec := None\<rparr> \<and>
    pd_entry cd = eRegRead RegRIP p0 + 2 \<and> pd_pid cd = pid \<and> pd_ppid cd = pd_pid (pr_data p) \<and> pd_children cd = [] \<and>
    pd_fds cd = pd_fds (pr_data p) \<and> pd_fds (pr_data p') = pd_fds (pr_data p) \<and> pd_refs cd = pd_refs (pr_data p') \<and>
    counted (pd_refs cd) (ts @ [pd_fds cd]) \<and> fr_closed (pd_refs cd) = fr_closed (pd_refs (pr_data p)) \<and>
    pid \<notin> cr_pid ` set (pd_children (pr_data p)) \<and> children_ok p' \<and>
    pd_children (pr_data p') = pd_children (pr_data p) @ [\<lparr>cr_pid = pid, cr_exit = None, cr_reaped = False\<rparr>]"
proof -
  let ?d = "pr_data p" and ?c = "eRegWrite RegRAX 0 (engine_Clone (engine.truncate p))"
  obtain refs fds where cl: "CloneTable (ord (pd_fds ?d)) (pd_refs ?d, pd_fds ?d) = (refs, fds)" by fastforce
  note ct = CloneTable_step [OF assms(5,6), of "ord (pd_fds ?d)" refs fds, unfolded assms(7), OF assms(8,9) cl]
  have fds: "fds = pd_fds ?d" using ct(3-5) by simp
  define p1 where "p1 = snd (doFork ord (eRegRead RegRIP p0 + 2) p)"
  have p': "p' = eRegWrite RegRAX (word_of_int pid) p1"
    using assms(1) by (simp add: assms(10,11) onSyscall_def Let_def p1_def doFork_def split: prod.split)
  have p1: "pr_data p1 = ?d\<lparr>pd_nextPid := pid, pd_refs := refs, pd_children := pd_children ?d @ [\<lparr>cr_pid = pid, cr_exit = None, cr_reaped = False\<rparr>]\<rparr>"
      "pr_spawned p1 = pr_spawned p @ [(?c, child_data ?d refs fds pid (eRegRead RegRIP p0 + 2))]" "e_cpu p1 = e_cpu p"
    using cl by (simp_all add: p1_def doFork_def assms(11) Let_def)
  have regs: "c_regs (e_cpu ?c) = (c_regs (e_cpu p))\<lparr>r_gpr := (r_gpr (c_regs (e_cpu p)))(RegRAX := 0)\<rparr>"
      "c_regs (e_cpu p') = (c_regs (e_cpu p))\<lparr>r_gpr := (r_gpr (c_regs (e_cpu p)))(RegRAX := word_of_int pid)\<rparr>"
    using child_engine(2) [OF assms(2)] p1(3) by (simp_all add: p' eReg_RAX_regs)
  have ok: "children_ok p'" using doFork_children [OF assms(3,4), of ord "eRegRead RegRIP p0 + 2"] p1(1) by (simp add: p' p1_def children_ok_def)
  have fresh: "pid \<notin> cr_pid ` set (pd_children ?d)" using assms(3,11) by (fastforce simp: children_ok_def)
  show ?thesis
    using p1 ct fds ok fresh regs mem_Clone_spec(1,2) [OF assms(2)] child_engine(1) [OF assms(2)]
    by (intro exI [of _ ?c] exI [of _ "child_data ?d refs fds pid (eRegRead RegRIP p0 + 2)"])
      (simp add: p' eReg_same child_data_def child_caches)
qed

theorem fork_copies_witness:
  "\<exists>child cd. pr_spawned (onSyscall (\<lambda>n args p. (SysFork False, p)) (\<lambda>t. [0, 1, 2]) demo_proc) = [(child, cd)] \<and>
     mem_at (e_mem child) = mem_at demo_mem \<and> r_gpr (c_regs (e_cpu child)) RegRAX = 0 \<and> pd_entry cd = 2 \<and> pd_pid cd = 8388609 \<and>
     pd_fds cd = pd_fds (pr_data demo_proc)"
proof -
  have d: "pr_spawned demo_proc = []" "pd_children (pr_data demo_proc) = []" "pd_nextPid (pr_data demo_proc) = 2 ^ 23" "eRegRead RegRIP demo_proc = 0"
      "pd_fds (pr_data demo_proc) = snd (NewTable 0 1 2)" "pd_refs (pr_data demo_proc) = fst (NewTable 0 1 2)"
    by (simp_all add: demo_proc_def NewProcess_def mk_process_def engine.extend_def new_data_def set_e_mem_def eRegRead_def RegRead_def
        NewEngine_def newRegisters_def Let_def split: prod.split)
  have c: "counted (pd_refs (pr_data demo_proc)) [pd_fds (pr_data demo_proc)]"
    using fd_start_counted [of 0 1 2] by (simp add: fd_start_def d split_beta)
  have dom: "set [0, 1, 2] = dom (t_entries (pd_fds (pr_data demo_proc)))" by (auto simp: d NewTable_def split: if_splits)
  have m: "mem_wf (e_mem demo_proc)" by (simp add: demo_mem_wf)
  have k: "children_ok demo_proc" by (simp add: children_ok_def d)
  from fork_copies [where disp = "\<lambda>n args p. (SysFork False, p)" and ord = "\<lambda>t. [0, 1, 2]" and v = False, OF refl m k _ c _ _ _ dom refl refl] d
  show ?thesis by auto
qed

text \<open>
  C8. wait4: no unreaped child that matches is ECHILD; when none of them has exited the call returns 0
  with WNOHANG and blocks without it; otherwise it returns the pid of one that has exited, stores the
  status whose second byte is the exit code, and reaps it: waiting for that pid again is ECHILD, and
  the other children are as they were.
\<close>

theorem wait4_reaps_once:
  assumes "children_ok p" "mem_wf (e_mem p)"
  shows "if waitable pid p = [] then Wait4 pid ptr options p = Some (- 10, p)
    else if \<forall>r \<in> set (waitable pid p). cr_exit r = None
      then Wait4 pid ptr options p = (if options AND 1 \<noteq> 0 then Some (0, p) else None)
    else \<exists>r code p'. r \<in> set (waitable pid p) \<and> cr_exit r = Some code \<and> Wait4 pid ptr options p = Some (word_of_int (cr_pid r), p') \<and>
      children_ok p' \<and> Wait4 (cr_pid r) ptr2 options2 p' = Some (- 10, p') \<and>
      (\<forall>q. q \<noteq> cr_pid r \<and> 0 < q \<longrightarrow> waitable q p' = waitable q p) \<and>
      (ptr \<noteq> 0 \<and> unat ptr + 4 < 18446744073709551616 \<and> range_mapped (e_mem p) ptr (ptr + 4) \<longrightarrow>
         mem_bytes (e_mem p') ptr 4 = [0, word_of_int code, 0, 0])"
proof -
  let ?cs = "pd_children (pr_data p)"
  consider (none) "waitable pid p = []" | (running) "waitable pid p \<noteq> []" "reap_first pid ?cs = None"
    | (exited) r code cs' where "waitable pid p \<noteq> []" "reap_first pid ?cs = Some (r, code, cs')"
    by (cases "reap_first pid ?cs") auto
  then show ?thesis
  proof cases
    case none
    then show ?thesis by (simp add: Wait4_def waitable_def Let_def)
  next
    case running
    then have "\<forall>r \<in> set (waitable pid p). cr_exit r = None" by (simp add: reap_first_None waitable_def)
    then show ?thesis using running by (simp add: Wait4_def waitable_def Let_def)
  next
    case exited
    obtain a b where ab: "?cs = a @ r # b" "cs' = a @ r\<lparr>cr_reaped := True\<rparr> # b" "wait_matches pid r" "cr_exit r = Some code"
      using reap_first_Some [OF exited(2)] by blast
    define p1 where "p1 = upd_data (\<lambda>d. d\<lparr>pd_children := cs'\<rparr>) p"
    define p' where "p' = (if ptr = 0 then p1 else snd (on_mem (MemWrite ptr [0, word_of_int code, 0, 0]) p1))"
    have w: "Wait4 pid ptr options p = Some (word_of_int (cr_pid r), p')"
      using exited unfolding Wait4_def child_status by (simp add: waitable_def Let_def p'_def p1_def)
    have cs: "pd_children (pr_data p') = cs'" "pd_nextPid (pr_data p') = pd_nextPid (pr_data p)"
      by (simp_all add: p'_def p1_def on_mem_def split_beta)
    have rp: "0 < cr_pid r" "distinct (map cr_pid (a @ r # b))" using assms(1) ab(1) by (auto simp: children_ok_def)
    have ok: "children_ok p'" using assms(1) by (auto simp: children_ok_def cs ab)
    have again: "Wait4 (cr_pid r) ptr2 options2 p' = Some (- 10, p')"
      using reaped_no_match [OF rp] by (simp add: Wait4_def cs ab(2))
    have oth: "waitable q p' = waitable q p" if "q \<noteq> cr_pid r" "0 < q" for q
      using that by (auto simp: waitable_def cs ab wait_matches_def)
    have st: "mem_bytes (e_mem p') ptr 4 = [0, word_of_int code, 0, 0]"
      if "ptr \<noteq> 0" "unat ptr + 4 < 18446744073709551616" "range_mapped (e_mem p) ptr (ptr + 4)"
    proof -
      have "unat (ptr + 4) = unat ptr + 4" using that(2) by (simp add: unat_word_ariths)
      with MemWrite_range [OF assms(2), of ptr "[0, word_of_int code, 0, 0]" "ptr + 4"] that(3) obtain m' where
        "MemWrite ptr [0, word_of_int code, 0, 0] (e_mem p) = (Inr (), m')" "holds_at m' ptr [0, word_of_int code, 0, 0] (ptr + 4)"
        by (auto simp: range_mapped_def)
      then show ?thesis using that(1) by (simp add: p'_def p1_def on_mem_def holds_at_def numeral_eq_Suc)
    qed
    have r: "r \<in> set (waitable pid p)" using ab by (simp add: waitable_def)
    then have "\<not> (\<forall>r \<in> set (waitable pid p). cr_exit r = None)" using ab(4) by auto
    then show ?thesis using exited(1) r ab(4) w ok again oth st by (simp only: if_False) blast
  qed
qed

theorem wait4_reaps_once_witness:
  "\<exists>p'. Wait4 (- 1) 0x1000 0 (child_exits 8388609 7 (snd (doFork (\<lambda>t. [0, 1, 2]) 2 demo_proc))) = Some (8388609, p') \<and>
     mem_bytes (e_mem p') 0x1000 4 = [0, 7, 0, 0] \<and> Wait4 8388609 0 1 p' = Some (- 10, p')"
proof -
  define q where "q = child_exits 8388609 7 (snd (doFork (\<lambda>t. [0, 1, 2]) 2 demo_proc))"
  have cs: "pd_children (pr_data q) = [\<lparr>cr_pid = 8388609, cr_exit = Some 7, cr_reaped = False\<rparr>]" "pd_nextPid (pr_data q) = 8388609"
      "e_mem q = demo_mem"
    by (simp_all add: q_def doFork_def child_exits_def demo_proc_def NewProcess_def mk_process_def engine.extend_def new_data_def set_e_mem_def
        Let_def split_beta)
  have ok: "children_ok q" "mem_wf (e_mem q)" by (simp_all add: children_ok_def cs demo_mem_wf)
  have wt: "waitable (- 1) q = [\<lparr>cr_pid = 8388609, cr_exit = Some 7, cr_reaped = False\<rparr>]" by (simp add: waitable_def cs wait_matches_def)
  have rm: "range_mapped (e_mem q) 0x1000 (0x1000 + 4)"
    using range_iff_index [of "0x1000" 4] demo_mem_map by (auto simp: range_mapped_def cs)
  obtain p' where p': "Wait4 (- 1) 0x1000 0 q = Some (8388609, p')" "mem_bytes (e_mem p') 0x1000 4 = [0, 7, 0, 0]"
      "Wait4 8388609 0 1 p' = Some (- 10, p')"
    using wait4_reaps_once [OF ok, of "- 1" "0x1000" 0 0 1] rm by (auto simp: wt)
  then show ?thesis unfolding q_def by blast
qed

end
