(* ===== verification/Process_Run.thy ===== *)
theory Process_Run
  imports Process_Tree
begin

unbundle bit_operations_syntax

text \<open>
  The run loop of a process over the engine: an exit system call ends the run with its code, CPUID
  resumes after the instruction.
\<close>

lemma cache_inv_data [simp]: "cache_inv X (p\<lparr>pr_data := d\<rparr>) \<longleftrightarrow> cache_inv X p" for p :: process
  by (simp add: cache_inv_def shape_ok_def coherent_def known_block_def)

lemma gen_room_data [simp]: "gen_room n (p\<lparr>pr_data := d\<rparr>) \<longleftrightarrow> gen_room n p" for p :: process
  by (simp add: gen_room_def)

lemma more_data: "engine.more p = engine.more q \<Longrightarrow> pr_data p = pr_data q \<and> pr_spawned p = pr_spawned q" for p q :: process
  by (cases p, cases q) simp

lemma eRegRead_cong: "c_regs (e_cpu p) = c_regs (e_cpu q) \<Longrightarrow> eRegRead r p = eRegRead r q"
  by (simp add: eRegRead_def)

lemma eRegRead_rip: "r < 16 \<Longrightarrow> c_regs (e_cpu p) = (c_regs (e_cpu q))\<lparr>r_rip := v\<rparr> \<Longrightarrow> eRegRead r p = eRegRead r q"
  by (simp add: eRegRead_def RegRead_def)

abbreviation sys_args :: "process \<Rightarrow> u64 list" where
  "sys_args p \<equiv> map (\<lambda>r. eRegRead r p) [RegRDI, RegRSI, RegRDX, RegR10, RegR8, RegR9]"

lemma CloseAll_all:
  assumes "dom (t_entries t) \<subseteq> set order"
  shows "t_entries (snd (CloseAll order (r, t))) = Map.empty"
proof -
  have "t_entries (snd (CloseAll order (r, t))) fd = (if fd \<in> set order then None else t_entries t fd)" for fd
  proof (induction order arbitrary: r t)
    case (Cons a order)
    obtain r1 t1 where c: "snd (CloseFd a (r, t)) = (r1, t1)" by fastforce
    then have "t_entries t1 = (t_entries t)(a := None)" by (auto simp: CloseFd_def split: option.splits)
    then show ?case using Cons [of r1 t1] c by (simp add: CloseAll_def)
  qed (simp add: CloseAll_def)
  then show ?thesis using assms by (auto simp: fun_eq_iff)
qed

text \<open>
  C9. A process whose next instruction is SYSCALL, with a system call that answers with an exit code,
  ends: \<open>Run\<close> returns that code, the process has no descriptor left, and exactly the files that lost
  their last descriptor in the tables of the fork tree have been closed.
\<close>

theorem exit_ends_run:
  assumes "ext_good X" "cache_inv X p" "gen_room 2 p" "pd_entry (pr_data p) = start"
    and "fst (decodeOne X start (e_mem p)) = Inr d" "d_insnID d = InsSyscall"
    and "\<And>q. disp (eRegRead RegRAX p) (sys_args p) q = (SysStop code, q)"
    and "counted (pd_refs (pr_data p)) ts" "i < length ts" "ts ! i = pd_fds (pr_data p)"
    and "distinct (ord (pd_fds (pr_data p)))" "set (ord (pd_fds (pr_data p))) = dom (t_entries (pd_fds (pr_data p)))"
  shows "\<exists>p'. Run (Suc k) (Suc (Suc n)) X disp ord ordx readFile rnd perm p = Some (RunExit code, p') \<and>
    t_entries (pd_fds (pr_data p')) = Map.empty \<and> counted (pd_refs (pr_data p')) (ts[i := pd_fds (pr_data p')]) \<and>
    closes_last (pd_refs (pr_data p)) ts (pd_refs (pr_data p')) (ts[i := pd_fds (pr_data p')])"
proof -
  define q where "q = upd_data (\<lambda>d. d\<lparr>pd_exitCode := None, pd_panic := False, pd_blocked := False, pd_cpuidPending := False, pd_pendingExec := None\<rparr>) p"
  let ?H = "installHooks disp ord" and ?f = "onSyscall disp ord"
  have q: "e_cpu q = e_cpu p" "pr_data q = (pr_data p)\<lparr>pd_exitCode := None, pd_panic := False, pd_blocked := False, pd_cpuidPending := False, pd_pendingExec := None\<rparr>"
    by (simp_all add: q_def)
  have stops: "\<exists>dd. ?f e1 = EmuStop (e1\<lparr>pr_data := dd\<rparr>) \<and> pd_exitCode dd = Some code \<and> pd_panic dd = pd_panic (pr_data e1) \<and> pd_blocked dd = pd_blocked (pr_data e1) \<and>
      CloseAll (ord (pd_fds (pr_data e1))) (pd_refs (pr_data e1), pd_fds (pr_data e1)) = (pd_refs dd, pd_fds dd)"
    if "c_regs (e_cpu e1) = (c_regs (e_cpu q))\<lparr>r_rip := start\<rparr>" for e1
  proof -
    have "eRegRead r e1 = eRegRead r p" if "r < 16" for r
      using eRegRead_rip [OF that \<open>c_regs (e_cpu e1) = _\<close>] q(1) by (simp add: eRegRead_def)
    then have "disp (eRegRead RegRAX e1) (sys_args e1) e1 = (SysStop code, e1)" using assms(7) [of e1] by simp
    moreover obtain refs fds where "CloseAll (ord (pd_fds (pr_data e1))) (pd_refs (pr_data e1), pd_fds (pr_data e1)) = (refs, fds)" by fastforce
    ultimately show ?thesis
      by (intro exI [of _ "(pr_data e1)\<lparr>pd_exitCode := Some code, pd_refs := refs, pd_fds := fds\<rparr>"]) (simp add: onSyscall_def Let_def)
  qed
  have "h_insn ?H InsSyscall = Some ?f" by (simp add: installHooks_def HookMemUnmapped_def HookInsn_def)
  moreover have "e_stopRequested (?f e1)" if "c_regs (e_cpu e1) = (c_regs (e_cpu q))\<lparr>r_rip := start\<rparr>" for e1
    using stops [OF that] by auto
  ultimately have "\<exists>e1. EmuStart (Suc (Suc n)) X ?H start 0 q = Some (None, ?f e1) \<and> engine.more e1 = engine.more q \<and>
      cpu_eq \<lparr>c_regs = (c_regs (e_cpu q))\<lparr>r_rip := start\<rparr>, c_mem = e_mem q, c_curInstrEnd = start + of_nat (d_len d)\<rparr> (e_cpu e1)"
    using assms(1-3,5,6) by (intro syscall_stop) (auto simp: q_def)
  then obtain e1 where e1': "EmuStart (Suc (Suc n)) X ?H start 0 q = Some (None, ?f e1)" "engine.more e1 = engine.more q"
      "cpu_eq \<lparr>c_regs = (c_regs (e_cpu q))\<lparr>r_rip := start\<rparr>, c_mem = e_mem q, c_curInstrEnd = start + of_nat (d_len d)\<rparr> (e_cpu e1)"
    by blast
  have e1: "pr_data e1 = pr_data q" "c_regs (e_cpu e1) = (c_regs (e_cpu q))\<lparr>r_rip := start\<rparr>"
    using more_data [OF e1'(2)] e1'(3) by (simp_all add: cpu_eq_def)
  obtain dd where dd: "?f e1 = EmuStop (e1\<lparr>pr_data := dd\<rparr>)" "pd_exitCode dd = Some code" "\<not> pd_panic dd \<and> \<not> pd_blocked dd"
      "CloseAll (ord (pd_fds (pr_data p))) (pd_refs (pr_data p), pd_fds (pr_data p)) = (pd_refs dd, pd_fds dd)"
    using stops [OF e1(2)] by (auto simp: e1(1) q(2))
  have "Run (Suc k) (Suc (Suc n)) X disp ord ordx readFile rnd perm p = Some (RunExit code, ?f e1)"
    using e1'(1) assms(4) dd by (simp add: q_def [symmetric] Let_def)
  moreover have "t_entries (pd_fds dd) = Map.empty" using CloseAll_all [of "pd_fds (pr_data p)" "ord (pd_fds (pr_data p))" "pd_refs (pr_data p)"] assms(12) dd(4) by simp
  moreover have "counted (pd_refs dd) (ts[i := pd_fds dd]) \<and> closes_last (pd_refs (pr_data p)) ts (pd_refs dd) (ts[i := pd_fds dd])"
  proof -
    let ?w = "\<lparr>w_refs = pd_refs (pr_data p), w_tables = ts\<rparr>"
    have "fd_step ?w (on_table i (CloseAll (ord (pd_fds (pr_data p)))) ?w)" by (rule fd_step.exit) (simp_all add: assms(9-12))
    from fd_step_ok [OF this] show ?thesis using assms(8,10) dd(4) by (simp add: step_ok_def on_table_def)
  qed
  ultimately show ?thesis using dd(1) by (intro exI [of _ "?f e1"]) simp
qed

text \<open>A process at a SYSCALL instruction.\<close>

definition syscall_proc :: process where
  "syscall_proc = mk_process (demo_engine [0x0F, 0x05]) ((new_data ''r'' bare_vfs [] None ''cwd'' 1 0 1 2)\<lparr>pd_entry := 0x1000\<rparr>) []"

lemma cache_inv_extend: "cache_inv X (mk_process e d sp) \<longleftrightarrow> cache_inv X e"
  by (simp add: cache_inv_def shape_ok_def coherent_def known_block_def mk_process_def engine.extend_def)

lemma mk_process_simps [simp]:
  "e_cpu (mk_process e d sp) = e_cpu e" "pr_data (mk_process e d sp) = d" "pr_spawned (mk_process e d sp) = sp"
  "gen_room n (mk_process e d sp) \<longleftrightarrow> gen_room n e"
  by (simp_all add: mk_process_def engine.extend_def gen_room_def)

theorem exit_ends_run_witness:
  "\<exists>p'. Run 1 2 sse_ext (\<lambda>num args q. (SysStop 3, q)) (\<lambda>t. [0, 1, 2]) (\<lambda>t. []) (\<lambda>path. None) [] (\<lambda>xs. xs) syscall_proc = Some (RunExit 3, p') \<and>
     t_entries (pd_fds (pr_data p')) = Map.empty"
proof -
  let ?d = "\<lparr>d_len = 2, d_insnID = InsSyscall, d_endsBlock = False, d_exec = INone\<rparr>"
  have dec: "fst (decodeOne sse_ext 0x1000 (e_mem syscall_proc)) = Inr ?d"
    using demo_engine_decode [OF runs_syscall] by (simp add: syscall_proc_def)
  have inv: "cache_inv sse_ext syscall_proc" "gen_room 2 syscall_proc"
    by (simp add: syscall_proc_def cache_inv_extend, rule demo_engine_inv, simp) (simp add: syscall_proc_def, simp add: gen_room_def)
  have d: "pd_entry (pr_data syscall_proc) = 0x1000" "pd_fds (pr_data syscall_proc) = snd (NewTable 0 1 2)"
      "pd_refs (pr_data syscall_proc) = fst (NewTable 0 1 2)"
    by (simp_all add: syscall_proc_def new_data_def Let_def split: prod.split)
  have c: "counted (pd_refs (pr_data syscall_proc)) [pd_fds (pr_data syscall_proc)]"
    using fd_start_counted [of 0 1 2] by (simp add: fd_start_def d split_beta)
  have dom: "set [0, 1, 2] = dom (t_entries (pd_fds (pr_data syscall_proc)))" by (auto simp: d NewTable_def split: if_splits)
  from exit_ends_run [where k = 0 and n = 0 and ordx = "\<lambda>t. []" and readFile = "\<lambda>path. None" and rnd = "[]" and perm = "\<lambda>xs. xs" and
      disp = "\<lambda>num args q. (SysStop 3, q)" and ord = "\<lambda>t. [0, 1, 2]" and code = 3, OF sse.good inv d(1) dec _ _ c _ _ _ dom]
  show ?thesis by (auto simp: numeral_2_eq_2)
qed

end
