(* ===== verification/Sys_Helpers.thy ===== *)
theory Sys_Helpers
  imports Process_Run
begin

unbundle bit_operations_syntax

text \<open>
  What the system call handlers share, \<open>internal/syscalls/helpers.go\<close>: C strings and arrays read from
  guest memory, paths resolved against a directory descriptor, symbolic links followed through the VFS.
\<close>

section \<open>C strings\<close>

definition indexZero :: "u8 list \<Rightarrow> nat option" where
  "indexZero b = (if 0 \<in> set b then Some (length (takeWhile (\<lambda>c. c \<noteq> 0) b)) else None)"

definition bytes_str :: "u8 list \<Rightarrow> string" where
  "bytes_str bs = map (\<lambda>b. char_of (unat b)) bs"

text \<open>How much one turn of the loop of \<open>cstr\<close> reads: the rest of the page or of the limit.\<close>

definition cstr_chunk :: "nat \<Rightarrow> u64 \<Rightarrow> nat \<Rightarrow> nat" where
  "cstr_chunk maxlen cur have =
     (let pageEnd = (cur div page + 1) * page; want = unat (pageEnd - cur); chunkLen = maxlen - have
      in if want < chunkLen then want else chunkLen)"

lemma page_end: "unat ((cur div page + 1) * page - cur) = 4096 - unat cur mod 4096" for cur :: u64
proof -
  have e: "(cur div page + 1) * page - cur = page - cur mod page"
    using div_mult_mod_eq [of cur page] by (simp add: algebra_simps)
  have "unat (cur mod page) = unat cur mod 4096" by (simp add: unat_mod)
  then show ?thesis unfolding e by (subst unat_sub) (simp_all add: word_le_nat_alt)
qed

lemma cstr_chunk_pos: "have < maxlen \<Longrightarrow> 0 < cstr_chunk maxlen cur have"
  unfolding cstr_chunk_def Let_def page_end by auto

lemma copy_loop_length: "length (fst (snd (copy_loop wr req a off buf m))) = length buf"
proof (induction wr req a off buf m rule: copy_loop.induct)
  case (1 wr req addr off buf m)
  note IH = "1.IH"
  show ?case
  proof (cases "off < length buf")
    case off: True
    obtain po m1 where lk: "lookupPage (pageAddr (addr + of_nat off)) m = (po, m1)" by fastforce
    show ?thesis
    proof (cases po)
      case None
      then show ?thesis using off lk by (subst copy_loop.simps) (simp add: Let_def)
    next
      case (Some p)
      let ?pg = "m_store m1 p"
      show ?thesis
      proof (cases "req \<noteq> 0 \<and> pg_perm ?pg AND req = 0")
        case True
        then show ?thesis using off lk Some by (subst copy_loop.simps) (simp add: Let_def)
      next
        case False
        note ih = IH [OF off refl refl lk [symmetric] refl Some refl False refl refl]
        show ?thesis
          using off lk Some False ih by (subst copy_loop.simps) (cases wr; simp add: Let_def page_bytes_def)
      qed
    qed
  next
    case False
    then show ?thesis by (subst copy_loop.simps) simp
  qed
qed

lemma MemRead_length: "MemRead a n m = (Inr bs, m') \<Longrightarrow> length bs = n"
  using copy_loop_length [of False 0 a 0 "replicate n 0" m]
  by (auto simp: MemRead_def readChecked_def mem_copy_def split: prod.splits option.splits if_splits)

function cstr_loop :: "nat \<Rightarrow> u64 \<Rightarrow> u8 list \<Rightarrow> memory \<Rightarrow> u8 list \<times> memory" where
  "cstr_loop maxlen cur data m =
     (if length data < maxlen then
        let chunkLen = cstr_chunk maxlen cur (length data) in
        case MemRead cur chunkLen m of
          (Inl _, m1) \<Rightarrow> (data, m1)
        | (Inr chunk, m1) \<Rightarrow> (case indexZero chunk of
              Some idx \<Rightarrow> (data @ take idx chunk, m1)
            | None \<Rightarrow> cstr_loop maxlen (cur + of_nat chunkLen) (data @ chunk) m1)
      else (data, m))"
  by pat_completeness auto
termination
  by (relation "measure (\<lambda>(maxlen, cur, data, m). maxlen - length data)")
    (auto dest!: MemRead_length [OF sym] intro!: diff_less_mono2 simp: cstr_chunk_pos)

declare cstr_loop.simps [simp del]

text \<open>\<open>cstr\<close> with the limit 4096 that every handler passes. A null pointer is the failure \<open>None\<close>.\<close>

definition cstr :: "u64 \<Rightarrow> process \<Rightarrow> string option \<times> process" where
  "cstr addr p =
     (if addr = 0 then (None, p)
      else let (data, m) = cstr_loop 4096 addr [] (e_mem p) in (Some (bytes_str data), set_e_mem m p))"

text \<open>What it reads, byte by byte: up to a zero byte, an unmapped address or the limit.\<close>

primrec flat_cstr :: "nat \<Rightarrow> u64 \<Rightarrow> memory \<Rightarrow> u8 list" where
  "flat_cstr 0 a m = []"
| "flat_cstr (Suc k) a m = (case mem_at m a of None \<Rightarrow> [] | Some (_, b) \<Rightarrow> if b = 0 then [] else b # flat_cstr k (a + 1) m)"

section \<open>Arrays of guest pointers\<close>

text \<open>
  \<open>readCStrArray\<close> stops at a null pointer or an unreadable slot. After \<open>2 ^ 61\<close> slots the address has
  come round and the loop would go on until memory is exhausted: that is the value \<open>None\<close>.
\<close>

function read_strs :: "u64 \<Rightarrow> nat \<Rightarrow> string list \<Rightarrow> process \<Rightarrow> string list option \<times> process" where
  "read_strs ptr i out p =
     (if i \<ge> 2305843009213693952 then (None, p)
      else case on_mem (MemRead (ptr + of_nat i * 8) 8) p of
          (Inl _, p1) \<Rightarrow> (Some out, p1)
        | (Inr raw, p1) \<Rightarrow> (let q = leToU64 raw in
            if q = 0 then (Some out, p1)
            else case cstr q p1 of (s, p2) \<Rightarrow> read_strs ptr (i + 1) (out @ [case s of None \<Rightarrow> '''' | Some t \<Rightarrow> t]) p2))"
  by pat_completeness auto
termination by (relation "measure (\<lambda>(ptr, i, out, p). 2305843009213693952 - i)") auto

declare read_strs.simps [simp del]

definition readCStrArray :: "u64 \<Rightarrow> process \<Rightarrow> string list option \<times> process" where
  "readCStrArray ptr p = (if ptr = 0 then (Some [], p) else read_strs ptr 0 [] p)"

section \<open>Paths\<close>

text \<open>\<open>strings.TrimRight(s, "/")\<close>.\<close>

definition trimRightSlash :: "string \<Rightarrow> string" where
  "trimRightSlash s = rev (dropWhile (\<lambda>c. c = slash) (rev s))"

definition resolveAbs :: "string \<Rightarrow> string \<Rightarrow> string" where
  "resolveAbs cwd path = NormPath (if hasPrefix path ''/'' then path else trimRightSlash cwd @ ''/'' @ path)"

text \<open>The two questions a path asks of an open file.\<close>

definition file_path :: "gofile \<Rightarrow> string" where
  "file_path f = (case f of VFSFile g _ \<Rightarrow> g | StaticFileF g _ \<Rightarrow> g | DirHandleF d \<Rightarrow> dh_guestPath d | _ \<Rightarrow> '''')"

definition file_isdir :: "gofile \<Rightarrow> bool" where
  "file_isdir f = (case f of DirHandleF _ \<Rightarrow> True | _ \<Rightarrow> False)"

definition open_file :: "int \<Rightarrow> process \<Rightarrow> gofile option" where
  "open_file fd p = map_option (pd_files (pr_data p)) (Get fd (pd_fds (pr_data p)))"

definition AT_FDCWD :: int where "AT_FDCWD = - 100"

text \<open>\<open>resolve\<close>: an error number or the path. A directory descriptor is the low half of its register.\<close>

definition int32 :: "u64 \<Rightarrow> int" where
  "int32 x = sint (ucast x :: 32 word)"

definition resolve :: "u64 \<Rightarrow> string \<Rightarrow> process \<Rightarrow> int + string" where
  "resolve dirfd path p =
     (if hasPrefix path ''/'' then Inr path
      else let base = (if int32 dirfd = AT_FDCWD then Inr (pd_cwd (pr_data p))
             else case open_file (int32 dirfd) p of
                 None \<Rightarrow> Inl 9
               | Some f \<Rightarrow> if file_path f = '''' then Inl 9 else Inr (file_path f))
        in case base of Inl e \<Rightarrow> Inl e
          | Inr b \<Rightarrow> if path = '''' then Inr b else Inr (trimRightSlash b @ ''/'' @ path))"

section \<open>Symbolic links\<close>

definition on_vfs :: "(vfs, vfs_error, 'a) sem \<Rightarrow> process \<Rightarrow> (vfs_error + 'a) \<times> process" where
  "on_vfs f p = (let (r, v) = f (pd_vfs (pr_data p)) in (r, upd_data (\<lambda>d. d\<lparr>pd_vfs := v\<rparr>) p))"

definition ask_vfs :: "(vfs \<Rightarrow> 'a \<times> vfs) \<Rightarrow> process \<Rightarrow> 'a \<times> process" where
  "ask_vfs f p = (let (r, v) = f (pd_vfs (pr_data p)) in (r, upd_data (\<lambda>d. d\<lparr>pd_vfs := v\<rparr>) p))"

definition joinAbs :: "string \<Rightarrow> string list \<Rightarrow> string" where
  "joinAbs orig parts = (if hasPrefix orig ''/'' then ''/'' else '''') @ join_slash parts"

text \<open>\<open>strings.ReplaceAll(s, "//", "/")\<close>, repeated while a double slash is left.\<close>

fun replace_double :: "string \<Rightarrow> string" where
  "replace_double [] = []"
| "replace_double [c] = [c]"
| "replace_double (c # d # s) = (if c = slash \<and> d = slash then slash # replace_double s else c # replace_double (d # s))"

fun has_double :: "string \<Rightarrow> bool" where
  "has_double (c # d # s) \<longleftrightarrow> (c = slash \<and> d = slash) \<or> has_double (d # s)"
| "has_double _ \<longleftrightarrow> False"

lemma replace_double_length: "length (replace_double s) \<le> length s" "has_double s \<Longrightarrow> length (replace_double s) < length s"
proof -
  show le: "length (replace_double s) \<le> length s" for s by (induction s rule: replace_double.induct) auto
  show "has_double s \<Longrightarrow> length (replace_double s) < length s"
  proof (induction s rule: replace_double.induct)
    case (3 c d s)
    then show ?case using le [of s] by (cases "c = slash \<and> d = slash") auto
  qed auto
qed

function collapseSlashes :: "string \<Rightarrow> string" where
  "collapseSlashes s = (if has_double s then collapseSlashes (replace_double s) else s)"
  by pat_completeness auto
termination by (relation "measure length") (auto simp: replace_double_length)

declare collapseSlashes.simps [simp del]

text \<open>
  One walk along the components of a path. At the first symbolic link it answers the path that takes
  the link's target instead; otherwise the components that are left.
\<close>

definition link_target :: "string \<Rightarrow> vfs \<Rightarrow> string option \<times> vfs" where
  "link_target path v =
     (case Exists path v of (ex, v1) \<Rightarrow>
        if \<not> ex then (None, v1)
        else case GetMeta path v1 of
            (Inl _, v2) \<Rightarrow> (None, v2)
          | (Inr meta, v2) \<Rightarrow> (if mt_Type meta = ''lnk'' then Some (mt_Target meta) else None, v2))"

definition splice_link :: "string \<Rightarrow> string list \<Rightarrow> string \<Rightarrow> string list \<Rightarrow> string" where
  "splice_link path parents target rest =
     (let remPath = (if hasPrefix target ''/'' then target @ ''/'' @ join_slash rest
            else let parent = joinAbs path parents in
              if parent = '''' \<and> \<not> hasPrefix path ''/'' then target @ ''/'' @ join_slash rest
              else parent @ ''/'' @ target @ ''/'' @ join_slash rest);
          p = collapseSlashes remPath
      in if p \<noteq> ''/'' then trimRightSlash p else p)"

fun walk_links :: "string \<Rightarrow> string list \<Rightarrow> string list \<Rightarrow> vfs \<Rightarrow> (string + string list) \<times> vfs" where
  "walk_links path walked [] v = (Inr walked, v)"
| "walk_links path walked (part # rest) v =
     (if part = '''' \<or> part = ''.'' then walk_links path walked rest v
      else if part = ''..'' then walk_links path (butlast walked) rest v
      else case link_target (joinAbs path (walked @ [part])) v of
          (Some target, v1) \<Rightarrow> (Inl (splice_link path walked target rest), v1)
        | (None, v1) \<Rightarrow> walk_links path (walked @ [part]) rest v1)"

definition maxHops :: nat where "maxHops = 40"

primrec follow_hops :: "nat \<Rightarrow> string \<Rightarrow> vfs \<Rightarrow> string \<times> vfs" where
  "follow_hops 0 path v = (path, v)"
| "follow_hops (Suc n) path v =
     (case walk_links path [] (split_slash path) v of
        (Inl path1, v1) \<Rightarrow> follow_hops n path1 v1
      | (Inr parts, v1) \<Rightarrow> (let final = joinAbs path parts in (if final = '''' then ''/'' else final, v1)))"

definition followSymlinks :: "string \<Rightarrow> process \<Rightarrow> string \<times> process" where
  "followSymlinks path = ask_vfs (\<lambda>v. if path = '''' then (path, v) else follow_hops maxHops path v)"

section \<open>Errors of the VFS and descriptors named by /proc\<close>

definition vfsErrno :: "vfs_error \<Rightarrow> int" where
  "vfsErrno e = (case e of VFSError n \<Rightarrow> n | HostError \<Rightarrow> 5)"

text \<open>\<open>strconv.Atoi\<close>: an optional sign and decimal digits, a number of 64 bits.\<close>

definition is_digit :: "char \<Rightarrow> bool" where
  "is_digit c \<longleftrightarrow> 48 \<le> (of_char c :: nat) \<and> (of_char c :: nat) \<le> 57"

definition dec_value :: "string \<Rightarrow> nat" where
  "dec_value s = foldl (\<lambda>n c. 10 * n + (of_char c - 48)) 0 s"

definition Atoi :: "string \<Rightarrow> int option" where
  "Atoi s =
     (let neg = hasPrefix s ''-''; ds = (if neg \<or> hasPrefix s ''+'' then tl s else s);
          n = (if neg then - int (dec_value ds) else int (dec_value ds))
      in if ds = '''' \<or> \<not> list_all is_digit ds \<or> n < - (2 ^ 63) \<or> 2 ^ 63 \<le> n then None else Some n)"

text \<open>\<open>strconv.Itoa\<close>.\<close>

definition Itoa :: "int \<Rightarrow> string" where
  "Itoa n = (if n = 0 then ''0'' else if n < 0 then ''-'' @ rev (itoa_digits (nat (- n))) else rev (itoa_digits (nat n)))"

definition procFdLink :: "string \<Rightarrow> process \<Rightarrow> int option" where
  "procFdLink path p =
     (if \<not> hasPrefix path ''/proc/'' then None
      else let parts = split_slash (trimPrefix path ''/proc/'') in
        if length parts \<noteq> 3 \<or> parts ! 1 \<noteq> ''fd'' then None
        else if parts ! 0 \<noteq> ''self'' \<and> parts ! 0 \<noteq> ''thread-self'' \<and> parts ! 0 \<noteq> Itoa (pd_pid (pr_data p)) then None
        else Atoi (parts ! 2))"

end
