(* ===== verification/Sys_Calls.thy ===== *)
theory Sys_Calls
  imports Sys_Helpers
begin

unbundle bit_operations_syntax

text \<open>
  What every system call handler of \<open>internal/syscalls\<close> shares, and the handlers on memory, exit and
  identity (\<open>memory.go\<close>, \<open>exit.go\<close>, \<open>arch.go\<close>, \<open>process.go\<close>). A handler takes the six argument registers
  and the process and answers a value for RAX or a signal to the run loop.
\<close>

section \<open>Answers\<close>

type_synonym handler = "u64 \<Rightarrow> u64 \<Rightarrow> u64 \<Rightarrow> u64 \<Rightarrow> u64 \<Rightarrow> u64 \<Rightarrow> process \<Rightarrow> sys_result \<times> process"

definition ENOENT :: int where "ENOENT = 2"
definition EIO :: int where "EIO = 5"
definition ENOEXEC :: int where "ENOEXEC = 8"
definition EBADF :: int where "EBADF = 9"
definition ENOMEM :: int where "ENOMEM = 12"
definition EACCES :: int where "EACCES = 13"
definition EFAULT :: int where "EFAULT = 14"
definition EEXIST :: int where "EEXIST = 17"
definition ENOTDIR :: int where "ENOTDIR = 20"
definition EINVAL :: int where "EINVAL = 22"
definition ERANGE :: int where "ERANGE = 34"
definition ENOSYS :: int where "ENOSYS = 38"

lemmas errno_defs = ENOENT_def EIO_def ENOEXEC_def EBADF_def ENOMEM_def EACCES_def EFAULT_def EEXIST_def ENOTDIR_def EINVAL_def ERANGE_def
  ENOSYS_def

abbreviation errS :: "int \<Rightarrow> sys_result" where "errS e \<equiv> SysRet (word_of_int (- e))"
abbreviation retS :: "int \<Rightarrow> sys_result" where "retS n \<equiv> SysRet (word_of_int n)"

text \<open>\<open>return int64(-vfsErrno(err))\<close> for an error, \<open>return 0\<close> otherwise.\<close>

definition vfs_ret :: "vfs_error + 'a \<Rightarrow> sys_result" where
  "vfs_ret r = (case r of Inl e \<Rightarrow> errS (vfsErrno e) | Inr _ \<Rightarrow> SysRet 0)"

text \<open>A handler that reads a path at \<open>ptr\<close> first.\<close>

definition with_path :: "u64 \<Rightarrow> (string \<Rightarrow> process \<Rightarrow> sys_result \<times> process) \<Rightarrow> process \<Rightarrow> sys_result \<times> process" where
  "with_path ptr f p = (case cstr ptr p of (None, p1) \<Rightarrow> (errS EFAULT, p1) | (Some s, p1) \<Rightarrow> f s p1)"

text \<open>One that reads two paths, both before either is checked.\<close>

definition with_paths :: "u64 \<Rightarrow> u64 \<Rightarrow> (string \<Rightarrow> string \<Rightarrow> process \<Rightarrow> sys_result \<times> process) \<Rightarrow> process \<Rightarrow> sys_result \<times> process" where
  "with_paths ptr1 ptr2 f p = (case cstr ptr1 p of (s1, p1) \<Rightarrow> (case cstr ptr2 p1 of (s2, p2) \<Rightarrow>
     (case (s1, s2) of (Some a, Some b) \<Rightarrow> f a b p2 | _ \<Rightarrow> (errS EFAULT, p2))))"

definition with_resolved :: "u64 \<Rightarrow> string \<Rightarrow> (string \<Rightarrow> process \<Rightarrow> sys_result \<times> process) \<Rightarrow> process \<Rightarrow> sys_result \<times> process" where
  "with_resolved dirfd path f p = (case resolve dirfd path p of Inl e \<Rightarrow> (errS e, p) | Inr full \<Rightarrow> f full p)"

definition vfs_call :: "(vfs, vfs_error, 'a) sem \<Rightarrow> process \<Rightarrow> sys_result \<times> process" where
  "vfs_call f p = (let (r, p1) = on_vfs f p in (vfs_ret r, p1))"

text \<open>\<open>MemWrite\<close> of an answer: EFAULT when it fails.\<close>

definition put_mem :: "u64 \<Rightarrow> u8 list \<Rightarrow> sys_result \<Rightarrow> process \<Rightarrow> sys_result \<times> process" where
  "put_mem addr bs r p = (case on_mem (MemWrite addr bs) p of (Inl _, p1) \<Rightarrow> (errS EFAULT, p1) | (Inr _, p1) \<Rightarrow> (r, p1))"

section \<open>memory.go, exit.go, arch.go, signal.go\<close>

definition sysBrk :: handler where
  "sysBrk addr a1 a2 a3 a4 a5 p = (let (r, p1) = DoBrk addr p in (SysRet r, p1))"

definition sysMmap :: handler where
  "sysMmap addr len prot flags fdNum offset p = (case DoMmap addr len prot flags (int32 fdNum) offset p of
       (Inl MmapPanic, p1) \<Rightarrow> (SysPanic, p1)
     | (Inl _, p1) \<Rightarrow> (errS ENOMEM, p1)
     | (Inr base, p1) \<Rightarrow> (SysRet base, p1))"

definition sysMunmap :: handler where
  "sysMunmap addr len a2 a3 a4 a5 p = (SysRet 0, DoMunmap addr len p)"

definition sysMprotect :: handler where
  "sysMprotect addr len prot a3 a4 a5 p = (SysRet 0, snd (DoMprotect addr len prot p))"

definition sysExit :: handler where
  "sysExit code a1 a2 a3 a4 a5 p = (SysStop (uint (code AND 0xFF)), p)"

definition sysExitGroup :: handler where
  "sysExitGroup code a1 a2 a3 a4 a5 p = (SysStop (uint (code AND 0xFF)), p)"

definition sysArchPrctl :: handler where
  "sysArchPrctl code addr a2 a3 a4 a5 p =
     (if code = 0x1002 then (SysRet 0, SetFSBase addr p)
      else if code = 0x1003 then put_mem addr (u64ToLE (pd_fsbase (pr_data p)) 8) (SysRet 0) p
      else (SysRet 0, p))"

definition sysSetTidAddress :: handler where
  "sysSetTidAddress a0 a1 a2 a3 a4 a5 p = (retS (pd_pid (pr_data p)), p)"

definition sysNothing :: handler where
  "sysNothing a0 a1 a2 a3 a4 a5 p = (SysRet 0, p)"

section \<open>process.go: identity\<close>

definition sysGetpid :: handler where
  "sysGetpid a0 a1 a2 a3 a4 a5 p = (retS (pd_pid (pr_data p)), p)"

definition sysGetppid :: handler where
  "sysGetppid a0 a1 a2 a3 a4 a5 p = (retS (if pd_ppid (pr_data p) \<noteq> 0 then pd_ppid (pr_data p) else 1), p)"

definition sysGetuid :: handler where
  "sysGetuid a0 a1 a2 a3 a4 a5 p = (SysRet (ucast (pd_uid (pr_data p))), p)"

definition sysGetgid :: handler where
  "sysGetgid a0 a1 a2 a3 a4 a5 p = (SysRet (ucast (pd_gid (pr_data p))), p)"

definition sysGeteuid :: handler where
  "sysGeteuid a0 a1 a2 a3 a4 a5 p = (SysRet (ucast (pd_euid (pr_data p))), p)"

definition sysGetegid :: handler where
  "sysGetegid a0 a1 a2 a3 a4 a5 p = (SysRet (ucast (pd_egid (pr_data p))), p)"

abbreviation u32Max :: u32 where "u32Max \<equiv> 0xFFFFFFFF"

definition sysSetuid :: handler where
  "sysSetuid uid a1 a2 a3 a4 a5 p = (let u = ucast uid in
     (SysRet 0, upd_data (\<lambda>d. d\<lparr>pd_uid := u, pd_euid := u, pd_fsuid := u, pd_suid := u\<rparr>) p))"

definition sysSetgid :: handler where
  "sysSetgid gid a1 a2 a3 a4 a5 p = (let g = ucast gid in
     (SysRet 0, upd_data (\<lambda>d. d\<lparr>pd_gid := g, pd_egid := g, pd_fsgid := g, pd_sgid := g\<rparr>) p))"

text \<open>The value all ones leaves an id as it is; the effective id drags the file-system id along.\<close>

definition set_ruid :: "u32 \<Rightarrow> proc_data \<Rightarrow> proc_data" where
  "set_ruid r d = (if r \<noteq> u32Max then d\<lparr>pd_uid := r\<rparr> else d)"

definition set_euid :: "u32 \<Rightarrow> proc_data \<Rightarrow> proc_data" where
  "set_euid e d = (if e \<noteq> u32Max then d\<lparr>pd_euid := e, pd_fsuid := e\<rparr> else d)"

definition set_suid :: "u32 \<Rightarrow> proc_data \<Rightarrow> proc_data" where
  "set_suid s d = (if s \<noteq> u32Max then d\<lparr>pd_suid := s\<rparr> else d)"

definition set_rgid :: "u32 \<Rightarrow> proc_data \<Rightarrow> proc_data" where
  "set_rgid r d = (if r \<noteq> u32Max then d\<lparr>pd_gid := r\<rparr> else d)"

definition set_egid :: "u32 \<Rightarrow> proc_data \<Rightarrow> proc_data" where
  "set_egid e d = (if e \<noteq> u32Max then d\<lparr>pd_egid := e, pd_fsgid := e\<rparr> else d)"

definition set_sgid :: "u32 \<Rightarrow> proc_data \<Rightarrow> proc_data" where
  "set_sgid s d = (if s \<noteq> u32Max then d\<lparr>pd_sgid := s\<rparr> else d)"

definition sysSetreuid :: handler where
  "sysSetreuid ruid euid a2 a3 a4 a5 p = (SysRet 0, upd_data (set_euid (ucast euid) \<circ> set_ruid (ucast ruid)) p)"

definition sysSetregid :: handler where
  "sysSetregid rgid egid a2 a3 a4 a5 p = (SysRet 0, upd_data (set_egid (ucast egid) \<circ> set_rgid (ucast rgid)) p)"

definition sysSetresuid :: handler where
  "sysSetresuid ruid euid suid a3 a4 a5 p =
     (SysRet 0, upd_data (set_suid (ucast suid) \<circ> set_euid (ucast euid) \<circ> set_ruid (ucast ruid)) p)"

definition sysSetresgid :: handler where
  "sysSetresgid rgid egid sgid a3 a4 a5 p =
     (SysRet 0, upd_data (set_sgid (ucast sgid) \<circ> set_egid (ucast egid) \<circ> set_rgid (ucast rgid)) p)"

definition writeU32 :: "u64 \<Rightarrow> u32 \<Rightarrow> process \<Rightarrow> process" where
  "writeU32 addr v p = snd (on_mem (MemWrite addr (u64ToLE (ucast v) 4)) p)"

definition sysGetresuid :: handler where
  "sysGetresuid rp ep sp a3 a4 a5 p = (let d = pr_data p in
     (SysRet 0, writeU32 sp (pd_suid d) (writeU32 ep (pd_euid d) (writeU32 rp (pd_uid d) p))))"

definition sysGetresgid :: handler where
  "sysGetresgid rp ep sp a3 a4 a5 p = (let d = pr_data p in
     (SysRet 0, writeU32 sp (pd_sgid d) (writeU32 ep (pd_egid d) (writeU32 rp (pd_gid d) p))))"

definition sysSetfsuid :: handler where
  "sysSetfsuid fsuid a1 a2 a3 a4 a5 p = (let u = ucast fsuid in
     (SysRet (ucast (pd_fsuid (pr_data p))), if u \<noteq> u32Max then upd_data (\<lambda>d. d\<lparr>pd_fsuid := u\<rparr>) p else p))"

definition sysSetfsgid :: handler where
  "sysSetfsgid fsgid a1 a2 a3 a4 a5 p = (let g = ucast fsgid in
     (SysRet (ucast (pd_fsgid (pr_data p))), if g \<noteq> u32Max then upd_data (\<lambda>d. d\<lparr>pd_fsgid := g\<rparr>) p else p))"

definition groups_bytes :: "u32 list \<Rightarrow> u8 list" where
  "groups_bytes gs = concat (map (\<lambda>g. u64ToLE (ucast g) 4) gs)"

definition sysGetgroups :: handler where
  "sysGetgroups sz listPtr a2 a3 a4 a5 p = (let gs = pd_groups (pr_data p) in
     if sz = 0 then (retS (int (length gs)), p)
     else if sint sz < int (length gs) then (errS EINVAL, p)
     else put_mem listPtr (groups_bytes gs) (retS (int (length gs))) p)"

text \<open>
  \<open>make\<close> panics on a negative length and on more than \<open>maxAlloc\<close> bytes, the limit of the Go run time on
  64-bit Linux. \<open>int(size)*4\<close> wraps.
\<close>

definition maxAlloc :: nat where "maxAlloc = 2 ^ 48"

definition sysSetgroups :: handler where
  "sysSetgroups sz listPtr a2 a3 a4 a5 p =
     (if sz = 0 then (SysRet 0, upd_data (\<lambda>d. d\<lparr>pd_groups := []\<rparr>) p)
      else if sint (sz * 4) < 0 \<or> maxAlloc < unat (sz * 4) then (SysPanic, p)
      else case on_mem (MemRead listPtr (unat (sz * 4))) p of
          (Inl _, p1) \<Rightarrow> (errS EFAULT, p1)
        | (Inr data, p1) \<Rightarrow>
            (if maxAlloc < 4 * unat sz then (SysPanic, p1)
             else (SysRet 0, upd_data (\<lambda>d. d\<lparr>pd_groups := map (\<lambda>i. ucast (leToU64 (take 4 (drop (4 * i) data)))) [0..<unat sz]\<rparr>) p1)))"

definition uname_field :: "string \<Rightarrow> u8 list" where
  "uname_field s = (let b = take 65 (str_bytes s) in b @ replicate (65 - length b) 0)"

definition sysUname :: handler where
  "sysUname buf a1 a2 a3 a4 a5 p =
     put_mem buf (concat (map uname_field [''Linux'', pd_hostname (pr_data p), ''6.6.0-emu'', ''#1 SMP'', ''x86_64'', ''''])) (SysRet 0) p"

definition sysSchedGetaffinity :: handler where
  "sysSchedGetaffinity pid cpusetsize maskPtr a3 a4 a5 p =
     (if maskPtr \<noteq> 0 \<and> 0 < cpusetsize then
        (if maxAlloc < unat cpusetsize then (SysPanic, p)
         else put_mem maskPtr (1 # replicate (unat cpusetsize - 1) 0) (SysRet cpusetsize) p)
      else (SysRet cpusetsize, p))"

end
