(* ===== verification/Sys_Names.thy ===== *)
theory Sys_Names
  imports Sys_Calls
begin

unbundle bit_operations_syntax

text \<open>
  System calls on directories and names, \<open>internal/syscalls/dir.go\<close>: the working directory, mkdir to
  linkat, and getdents64.
\<close>

section \<open>The working directory\<close>

definition set_cwd :: "string \<Rightarrow> process \<Rightarrow> process" where
  "set_cwd s = upd_data (\<lambda>d. d\<lparr>pd_cwd := s\<rparr>)"

text \<open>A path against the working directory, as \<open>chdir\<close>, \<open>symlink\<close> and \<open>link\<close> join it: not normalised.\<close>

definition join_cwd :: "string \<Rightarrow> process \<Rightarrow> string" where
  "join_cwd path p = (if hasPrefix path ''/'' then path else trimRightSlash (pd_cwd (pr_data p)) @ ''/'' @ path)"

definition sysGetcwd :: handler where
  "sysGetcwd buf sz a2 a3 a4 a5 p = (let data = str_bytes (pd_cwd (pr_data p)) @ [0] in
     if unat sz < length data then (errS ERANGE, p) else put_mem buf data (retS (int (length data))) p)"

definition sysChdir :: handler where
  "sysChdir pathPtr a1 a2 a3 a4 a5 = with_path pathPtr (\<lambda>path p. let full = join_cwd path p in
     case ask_vfs (IsDir full) p of (isdir, p1) \<Rightarrow> if isdir then (SysRet 0, set_cwd full p1) else (errS ENOTDIR, p1))"

definition sysFchdir :: handler where
  "sysFchdir fdNum a1 a2 a3 a4 a5 p = (case open_file (sint fdNum) p of
       None \<Rightarrow> (errS EBADF, p)
     | Some f \<Rightarrow>
         if \<not> file_isdir f then (errS ENOTDIR, p)
         else if file_path f = '''' then (errS ENOTDIR, p)
         else case ask_vfs (IsDir (file_path f)) p of
             (isdir, p1) \<Rightarrow> if isdir then (SysRet 0, set_cwd (file_path f) p1) else (errS ENOTDIR, p1))"

section \<open>mkdir, rmdir, unlink\<close>

definition mkdir_mode :: "u64 \<Rightarrow> int" where
  "mkdir_mode md = (let m = uint (md AND 0x1FF) in if m = 0 then 0x1ED else m)"

definition sysMkdir :: handler where
  "sysMkdir pathPtr md a2 a3 a4 a5 = with_path pathPtr (\<lambda>path p.
     vfs_call (Mkdir (resolveAbs (pd_cwd (pr_data p)) path) (mkdir_mode md)) p)"

definition sysMkdirat :: handler where
  "sysMkdirat dirfd pathPtr md a3 a4 a5 = with_path pathPtr (\<lambda>path. with_resolved dirfd path (\<lambda>full.
     vfs_call (Mkdir full (mkdir_mode md))))"

definition sysRmdir :: handler where
  "sysRmdir pathPtr a1 a2 a3 a4 a5 = with_path pathPtr (\<lambda>path p.
     vfs_call (Rmdir (resolveAbs (pd_cwd (pr_data p)) path)) p)"

definition sysUnlink :: handler where
  "sysUnlink pathPtr a1 a2 a3 a4 a5 = with_path pathPtr (\<lambda>path p.
     vfs_call (Unlink (resolveAbs (pd_cwd (pr_data p)) path)) p)"

definition atRemoveDir :: u64 where "atRemoveDir = 0x200"

definition sysUnlinkat :: handler where
  "sysUnlinkat dirfd pathPtr flags a3 a4 a5 = with_path pathPtr (\<lambda>path. with_resolved dirfd path (\<lambda>full.
     if flags AND atRemoveDir \<noteq> 0 then vfs_call (Rmdir full) else vfs_call (Unlink full)))"

section \<open>rename\<close>

text \<open>\<open>rename\<close> hands its two paths to the VFS as they are, relative to the root.\<close>

definition sysRename :: handler where
  "sysRename oldPtr newPtr a2 a3 a4 a5 = with_paths oldPtr newPtr (\<lambda>oldPath newPath. vfs_call (Rename oldPath newPath))"

definition sysRenameat :: handler where
  "sysRenameat olddirfd oldPtr newdirfd newPtr a4 a5 = with_paths oldPtr newPtr (\<lambda>oldRaw newRaw.
     with_resolved olddirfd oldRaw (\<lambda>oldPath. with_resolved newdirfd newRaw (\<lambda>newPath. vfs_call (Rename oldPath newPath))))"

section \<open>symlink and link\<close>

definition new_symlink :: "string \<Rightarrow> string \<Rightarrow> process \<Rightarrow> sys_result \<times> process" where
  "new_symlink target full p = (case ask_vfs (Exists full) p of (ex, p1) \<Rightarrow>
     if ex then (errS EEXIST, p1) else vfs_call (Symlink target full) p1)"

definition sysSymlink :: handler where
  "sysSymlink targetPtr linkpathPtr a2 a3 a4 a5 = with_paths targetPtr linkpathPtr (\<lambda>target linkpath p.
     new_symlink target (join_cwd linkpath p) p)"

definition sysSymlinkat :: handler where
  "sysSymlinkat targetPtr dirfd linkpathPtr a3 a4 a5 = with_paths targetPtr linkpathPtr (\<lambda>target linkpath.
     with_resolved dirfd linkpath (new_symlink target))"

definition sysLink :: handler where
  "sysLink oldPtr newPtr a2 a3 a4 a5 = with_paths oldPtr newPtr (\<lambda>oldRaw newRaw p.
     vfs_call (Link (join_cwd oldRaw p) (join_cwd newRaw p)) p)"

definition AT_EMPTY_PATH :: u64 where "AT_EMPTY_PATH = 0x1000"

text \<open>A nameless temporary file gets a name, once.\<close>

definition set_file :: "nat \<Rightarrow> gofile \<Rightarrow> process \<Rightarrow> process" where
  "set_file k f = upd_data (\<lambda>d. d\<lparr>pd_files := (pd_files d)(k := f)\<rparr>)"

definition link_tmp :: "int \<Rightarrow> u64 \<Rightarrow> string \<Rightarrow> process \<Rightarrow> sys_result \<times> process" where
  "link_tmp fd newdirfd newRaw p = (case Get fd (pd_fds (pr_data p)) of
       None \<Rightarrow> (errS ENOENT, p)
     | Some k \<Rightarrow> (case pd_files (pr_data p) k of
           TmpFileF hostTmp md linked \<Rightarrow>
             if linked then (errS EEXIST, p)
             else with_resolved newdirfd newRaw (\<lambda>newFull p.
               case on_vfs (LinkTmpFile hostTmp newFull md) p of
                 (Inl e, p1) \<Rightarrow> (errS (vfsErrno e), p1)
               | (Inr _, p1) \<Rightarrow> (SysRet 0, set_file k (TmpFileF hostTmp md True) p1)) p
         | _ \<Rightarrow> (errS ENOENT, p)))"

definition sysLinkat :: handler where
  "sysLinkat olddirfd oldpathPtr newdirfd newpathPtr flags a5 = with_paths oldpathPtr newpathPtr (\<lambda>oldRaw newRaw p.
     if flags AND AT_EMPTY_PATH \<noteq> 0 \<and> oldRaw = '''' then link_tmp (sint olddirfd) newdirfd newRaw p
     else case (if oldRaw \<noteq> '''' \<and> hasPrefix oldRaw ''/'' then procFdLink oldRaw p else None) of
         Some fd \<Rightarrow> link_tmp fd newdirfd newRaw p
       | None \<Rightarrow> with_resolved olddirfd oldRaw (\<lambda>oldFull. with_resolved newdirfd newRaw (\<lambda>newFull. vfs_call (Link oldFull newFull))) p)"

section \<open>getdents64\<close>

definition reclen :: "string \<Rightarrow> nat" where
  "reclen name = (19 + (length name + 1) + 7) div 8 * 8"

text \<open>One record: d_ino, d_off, d_reclen, d_type, the name and its zero byte, padding.\<close>

definition dirent :: "int \<Rightarrow> string \<Rightarrow> u8 list" where
  "dirent pos name = u64ToLE 1 8 @ u64ToLE (word_of_int (pos + 1)) 8 @ u64ToLE (of_nat (reclen name)) 2 @ [0] @
     str_bytes name @ [0] @ replicate (reclen name - 20 - length name) 0"

fun dents_loop :: "int \<Rightarrow> string list \<Rightarrow> int \<Rightarrow> u8 list \<Rightarrow> u8 list \<times> int" where
  "dents_loop limit [] pos out = (out, pos)"
| "dents_loop limit (name # names) pos out =
     (if limit < int (length out + reclen name) then (out, pos)
      else dents_loop limit names (pos + 1) (out @ dirent pos name))"

definition sysGetdents64 :: handler where
  "sysGetdents64 fdNum buf count a3 a4 a5 p = (case Get (sint fdNum) (pd_fds (pr_data p)) of
       None \<Rightarrow> (errS ENOTDIR, p)
     | Some k \<Rightarrow> (case pd_files (pr_data p) k of
           DirHandleF dh \<Rightarrow>
             (let (out, pos) = dents_loop (sint count) (drop (nat (dh_Pos dh)) (dh_entries dh)) (dh_Pos dh) []
              in put_mem buf out (retS (int (length out))) (set_file k (DirHandleF (dh\<lparr>dh_Pos := pos\<rparr>)) p))
         | _ \<Rightarrow> (errS ENOTDIR, p)))"

end
