(* ===== verification/Procfs.thy ===== *)
theory Procfs
  imports Sys_Helpers "HOL-Library.List_Lexorder"
begin

unbundle bit_operations_syntax

text \<open>
  The synthetic /proc of \<open>internal/procfs/procfs.go\<close>: which paths exist below a mount point, of what kind,
  with which content. The time is that of the host, \<open>v_now\<close>; \<open>boot\<close> is the start time of the process.
\<close>

section \<open>Go's strings\<close>

abbreviation (input) nl :: char where "nl \<equiv> CHR 0x0A"
abbreviation (input) tab :: char where "tab \<equiv> CHR 0x09"
abbreviation (input) nul :: char where "nul \<equiv> CHR 0x00"

definition row :: "string \<Rightarrow> string" where "row s = s @ [nl]"
definition field :: "string \<Rightarrow> string \<Rightarrow> string" where "field k v = k @ [tab] @ v @ [nl]"

text \<open>\<open>sort.Strings\<close>, by bytes.\<close>

definition sort_strings :: "string list \<Rightarrow> string list" where
  "sort_strings = sort_key (map (of_char :: char \<Rightarrow> nat))"

definition trimSlashes :: "string \<Rightarrow> string" where
  "trimSlashes s = dropWhile (\<lambda>c. c = slash) (trimRightSlash s)"

definition isDigits :: "string \<Rightarrow> bool" where
  "isDigits s \<longleftrightarrow> s \<noteq> '''' \<and> list_all is_digit s"

text \<open>The number of \<open>strconv.Atoi\<close> on digits when the error is dropped: too large a number is cut to the largest.\<close>

definition clampedAtoi :: "string \<Rightarrow> int" where
  "clampedAtoi s = min (int (dec_value s)) (2 ^ 63 - 1)"

section \<open>Contents\<close>

definition unix_now :: "process \<Rightarrow> int" where
  "unix_now p = v_now (pd_vfs (pr_data p)) div 1000000000"

definition staticText :: "int \<Rightarrow> process \<Rightarrow> (string \<times> string) list" where
  "staticText boot0 p =
     (let boot = (if boot0 = 0 then unix_now p else boot0);
          up = Itoa (max 0 (unix_now p - boot)) @ ''.00'';
          host = pd_hostname (pr_data p)
      in [(''version'', row ''Linux version 6.6.0-emu (golinux@build) #1 SMP PREEMPT x86_64 GNU/Linux''),
          (''uptime'', row (up @ '' '' @ up)),
          (''loadavg'', row ''0.00 0.00 0.00 1/1 1''),
          (''meminfo'', row ''MemTotal:        2097152 kB'' @ row ''MemFree:         1048576 kB'' @ row ''MemAvailable:    1572864 kB'' @
             row ''Buffers:               0 kB'' @ row ''Cached:            262144 kB'' @ row ''SwapTotal:              0 kB'' @
             row ''SwapFree:               0 kB''),
          (''cpuinfo'', field ''processor'' '': 0'' @ field ''vendor_id'' '': GenuineIntel'' @ field ''cpu family'' '': 6'' @
             field ''model name'' '': golinux virtual CPU'' @ ''cpu MHz'' @ [tab] @ field '''' '': 2000.000'' @ field ''cache size'' '': 8192 KB'' @
             ''flags'' @ [tab] @ field '''' '': fpu sse sse2'' @ field ''bogomips'' '': 4000.00'' @ [nl]),
          (''stat'', row ''cpu  0 0 0 0 0 0 0 0 0 0'' @ row ''cpu0 0 0 0 0 0 0 0 0 0 0'' @ row ''ctxt 0'' @
             row (''btime '' @ Itoa boot) @ row ''processes 1'' @ row ''procs_running 1'' @ row ''procs_blocked 0''),
          (''filesystems'', field ''nodev'' ''proc'' @ field ''nodev'' ''sysfs'' @ field ''nodev'' ''devtmpfs'' @ field ''nodev'' ''tmpfs'' @ row ''ext4''),
          (''cmdline'', ''BOOT_IMAGE=/init'' @ [nul]),
          (''sys/kernel/hostname'', row host),
          (''sys/kernel/osrelease'', row ''6.6.0-emu''),
          (''sys/kernel/ostype'', row ''Linux'')])"

text \<open>The mount table; \<open>perm\<close> is the order in which Go visits the map of mounts.\<close>

definition mount_row :: "string \<times> MountInfo \<Rightarrow> string" where
  "mount_row = (\<lambda>(mp, m). row (mi_Source m @ '' '' @ mp @ '' '' @ (if mi_Fstype m = '''' then ''none'' else mi_Fstype m) @ '' rw,relatime 0 0''))"

definition mountsText :: "((string \<times> MountInfo) list \<Rightarrow> (string \<times> MountInfo) list) \<Rightarrow> process \<Rightarrow> string \<times> process" where
  "mountsText perm p = (case ask_vfs MountsList p of (ms, p1) \<Rightarrow>
     (concat (map mount_row (perm ms)) @ row ''hostfs / hostfs rw,relatime 0 0'', p1))"

definition pidFiles :: "int \<Rightarrow> process \<Rightarrow> (string \<times> string) list" where
  "pidFiles pid p =
     (let argv = (if pid = pd_pid (pr_data p) then pd_argv (pr_data p) else [''[pid '' @ Itoa pid @ '']'']);
          cmdline = (if argv = [] then '''' else concat (map (\<lambda>a. a @ [nul]) argv));
          name = (if argv = [] then ''?'' else take 15 (last (split_slash (hd argv))));
          ppid = (if pid = 1 then 0 else 1 :: int)
      in [(''cmdline'', cmdline),
          (''status'', field ''Name:'' name @ field ''State:'' ''R (running)'' @ field ''Pid:'' (Itoa pid) @ field ''PPid:'' (Itoa ppid) @
             ''Uid:'' @ concat (replicate 4 (tab # ''0'')) @ [nl] @ ''Gid:'' @ concat (replicate 4 (tab # ''0'')) @ [nl]),
          (''comm'', row name)])"
section \<open>What a path names\<close>

datatype proc_entry = PReg string | PDir | PLnk

text \<open>The part of a path below a process's own directory.\<close>

definition classify_pid :: "int \<Rightarrow> string \<Rightarrow> process \<Rightarrow> proc_entry option" where
  "classify_pid pid sub p =
     (if sub = ''exe'' \<or> sub = ''cwd'' then Some PLnk
      else if sub = ''fd'' then Some PDir
      else if hasPrefix sub ''fd/'' then
        (case Atoi (trimPrefix sub ''fd/'') of
           None \<Rightarrow> None
         | Some fd \<Rightarrow> if Get fd (pd_fds (pr_data p)) = None then None else Some PLnk)
      else map_option PReg (map_of (pidFiles pid p) sub))"

definition classify :: "((string \<times> MountInfo) list \<Rightarrow> (string \<times> MountInfo) list) \<Rightarrow> int \<Rightarrow> string \<Rightarrow> process \<Rightarrow> proc_entry option \<times> process" where
  "classify perm boot relpath0 p =
     (let relpath = trimSlashes relpath0 in
      if relpath = '''' \<or> relpath = ''.'' then (Some PDir, p)
      else if relpath = ''mounts'' then (case mountsText perm p of (t, p1) \<Rightarrow> (Some (PReg t), p1))
      else case map_of (staticText boot p) relpath of
          Some payload \<Rightarrow> (Some (PReg payload), p)
        | None \<Rightarrow>
            if relpath = ''sys'' \<or> relpath = ''sys/kernel'' then (Some PDir, p)
            else (let parts = split_slash relpath; first = hd parts in
              if first = ''self'' \<or> first = ''thread-self'' \<or> isDigits first then
                (let pid = (if isDigits first then clampedAtoi first else pd_pid (pr_data p)) in
                 if length parts = 1 then (Some (if first = ''self'' \<or> first = ''thread-self'' then PLnk else PDir), p)
                 else (classify_pid pid (join_slash (tl parts)) p, p))
              else (None, p)))"

definition proc_Exists :: "((string \<times> MountInfo) list \<Rightarrow> (string \<times> MountInfo) list) \<Rightarrow> int \<Rightarrow> string \<Rightarrow> process \<Rightarrow> bool \<times> process" where
  "proc_Exists perm boot relpath p = (case classify perm boot relpath p of (k, p1) \<Rightarrow> (k \<noteq> None, p1))"

definition proc_IsDir :: "((string \<times> MountInfo) list \<Rightarrow> (string \<times> MountInfo) list) \<Rightarrow> int \<Rightarrow> string \<Rightarrow> process \<Rightarrow> bool \<times> process" where
  "proc_IsDir perm boot relpath p = (case classify perm boot relpath p of (k, p1) \<Rightarrow> (k = Some PDir, p1))"

definition proc_IsSymlink :: "((string \<times> MountInfo) list \<Rightarrow> (string \<times> MountInfo) list) \<Rightarrow> int \<Rightarrow> string \<Rightarrow> process \<Rightarrow> bool \<times> process" where
  "proc_IsSymlink perm boot relpath p = (case classify perm boot relpath p of (k, p1) \<Rightarrow> (k = Some PLnk, p1))"

definition proc_Read :: "((string \<times> MountInfo) list \<Rightarrow> (string \<times> MountInfo) list) \<Rightarrow> int \<Rightarrow> string \<Rightarrow> process \<Rightarrow> u8 list option \<times> process" where
  "proc_Read perm boot relpath p = (case classify perm boot relpath p of
     (k, p1) \<Rightarrow> (case k of Some (PReg t) \<Rightarrow> Some (str_bytes t) | _ \<Rightarrow> None, p1))"

definition proc_Readlink :: "string \<Rightarrow> process \<Rightarrow> string option" where
  "proc_Readlink relpath0 p =
     (let relpath = trimSlashes relpath0; parts = split_slash relpath; d = pr_data p in
      if relpath = ''self'' \<or> relpath = ''thread-self'' then Some (Itoa (pd_pid d))
      else if length parts = 2 \<and> parts ! 1 = ''exe'' then Some (if pd_argv d = [] then ''/'' else hd (pd_argv d))
      else if length parts = 2 \<and> parts ! 1 = ''cwd'' then Some (pd_cwd d)
      else if length parts = 3 \<and> parts ! 1 = ''fd'' then
        (case Atoi (parts ! 2) of
           None \<Rightarrow> None
         | Some fd \<Rightarrow> (case open_file fd p of
               None \<Rightarrow> None
             | Some f \<Rightarrow> Some (if file_path f \<noteq> '''' then file_path f else ''pipe:['' @ Itoa fd @ '']'')))
      else None)"

text \<open>\<open>ord\<close> is the order in which Go visits the descriptors. The names are not trimmed of slashes here.\<close>

definition before_slash :: "string \<Rightarrow> string" where
  "before_slash s = takeWhile (\<lambda>c. c \<noteq> slash) s"

definition proc_Listdir :: "(fd_table \<Rightarrow> int list) \<Rightarrow> int \<Rightarrow> string \<Rightarrow> process \<Rightarrow> string list" where
  "proc_Listdir ord boot relpath p =
     (let d = pr_data p; pid = Itoa (pd_pid d) in
      if relpath = '''' \<or> relpath = ''.'' then
        sort_strings (remdups (map (before_slash \<circ> fst) (staticText boot p))) @ [pid, ''self'', ''mounts'']
      else if relpath = ''sys'' then [''kernel'']
      else if relpath = ''sys/kernel'' then [''hostname'', ''osrelease'', ''ostype'']
      else if relpath = ''self'' \<or> relpath = pid then sort_strings (map fst (pidFiles (pd_pid d) p)) @ [''cwd'', ''exe'', ''fd'']
      else if relpath = ''self/fd'' \<or> relpath = pid @ ''/fd'' then sort_strings (map Itoa (ord (pd_fds d)))
      else [])"

definition proc_stat :: "process \<Rightarrow> u32 \<Rightarrow> u64 \<Rightarrow> u64 \<Rightarrow> Stat" where
  "proc_stat p md sz nlink = (let now = unix_now p in \<lparr>st_Dev = 0, st_Ino = 0, st_Mode = md, st_Size = sz, st_Uid = 0, st_Gid = 0,
     st_Mtime = now, st_Atime = now, st_Ctime = now, st_Nlink = nlink, st_Rdev = 0\<rparr>)"

definition proc_Stat :: "((string \<times> MountInfo) list \<Rightarrow> (string \<times> MountInfo) list) \<Rightarrow> int \<Rightarrow> string \<Rightarrow> process \<Rightarrow> Stat option \<times> process" where
  "proc_Stat perm boot relpath p =
     (case proc_IsDir perm boot relpath p of (isdir, p1) \<Rightarrow>
        if isdir then (Some (proc_stat p 0x416D 0 2), p1)
        else case proc_IsSymlink perm boot relpath p1 of (islink, p2) \<Rightarrow>
          if islink then (Some (proc_stat p 0xA1FF (of_nat (length (case proc_Readlink relpath p2 of None \<Rightarrow> '''' | Some t \<Rightarrow> t))) 1), p2)
          else case proc_Read perm boot relpath p2 of
              (None, p3) \<Rightarrow> (None, p3)
            | (Some data, p3) \<Rightarrow> (Some (proc_stat p 0x8124 (of_nat (length data)) 1), p3))"

section \<open>Paths below a mount of type proc\<close>

definition procRel :: "string \<Rightarrow> process \<Rightarrow> string option \<times> process" where
  "procRel path0 p = (let path = resolveAbs (pd_cwd (pr_data p)) path0 in
     case ask_vfs (MountType path) p of (typ, p1) \<Rightarrow>
       if typ \<noteq> ''proc'' then (None, p1)
       else case ask_vfs (MountPointFor path) p1 of (mp, p2) \<Rightarrow>
         (Some (trimPrefix (trimPrefix path (trimSuffix mp ''/'')) ''/''), p2))"

end
