(* ===== verification/Sys_Env.thy ===== *)
theory Sys_Env
  imports Sys_Helpers
begin

text \<open>
  What the system call handlers take from outside the program while one call runs: the orders in which
  Go visits its maps, functions of its standard library, and the answers of the host kernel. A host
  call answers an error number, 0 for none, and its results; host file descriptors are numbers.
\<close>

text \<open>
  The socket calls made to the host, and an answer: an error number, the result, a second descriptor,
  the bytes put into the buffer, the address and its length. What an answer does not mention is zero.
\<close>

datatype (plugins only: ) sock_call =
    HSocket u64 u64 u64 | HConnect int "u8 list" | HBind int "u8 list" | HListen int u64 | HAccept int u64
  | HGetName bool int nat | HSend int "u8 list" u64 "u8 list option" u64 | HRecv int nat u64 "nat option" | HShutdown int u64
  | HSocketPair u64 u64 u64 | HSetOpt int u64 u64 "u8 list" | HGetOpt int u64 u64 nat

record sock_answer =
  sa_errno :: int
  sa_ret :: u64
  sa_ret2 :: int
  sa_data :: "u8 list"
  sa_addr :: "u8 list"
  sa_addrlen :: u32

text \<open>
  Reads and writes of an open file are numbered within one call; a read answers an error number and
  the bytes, a write an error number and how much was written.
\<close>

record sys_env =
  se_mounts :: "(string \<times> MountInfo) list \<Rightarrow> (string \<times> MountInfo) list"
  se_nodes :: "(string \<times> int \<times> int) list"
  se_fds :: "fd_table \<Rightarrow> int list"
  se_toLower :: "string \<Rightarrow> string"
  se_md5 :: "string \<Rightarrow> u8 list"
  se_encode :: "fcontent \<Rightarrow> u8 list"
  se_tmpName :: string
  se_nativeStat :: "hpath \<Rightarrow> vfs \<Rightarrow> Stat option"
  se_readFile :: "string \<Rightarrow> u8 list option"
  se_random :: "nat \<Rightarrow> u8 list"
  se_boot :: int
  se_hostPid :: int
  se_getpgid :: "int \<Rightarrow> int + int"
  se_setpgid :: "int \<Rightarrow> int \<Rightarrow> int"
  se_getsid :: "int \<Rightarrow> int + int"
  se_setsid :: "int + int"
  se_pipe :: "(int \<times> int) option"
  se_ioctl :: "int \<Rightarrow> u64 \<Rightarrow> u8 list \<Rightarrow> int \<times> u8 list"
  se_poll :: "(int \<times> 16 word) list \<Rightarrow> int \<Rightarrow> int \<times> 16 word list"
  se_elapsed :: int
  se_sockFlags :: "int \<Rightarrow> int + u64"
  se_fread :: "nat \<Rightarrow> nat \<Rightarrow> nat \<Rightarrow> int \<times> u8 list"
  se_fwrite :: "nat \<Rightarrow> nat \<Rightarrow> u8 list \<Rightarrow> int \<times> int"
  se_fpwrite :: "nat \<Rightarrow> u8 list \<Rightarrow> int \<Rightarrow> int \<times> int"
  se_fseek :: "nat \<Rightarrow> int \<Rightarrow> int \<Rightarrow> int option"
  se_ftruncate :: "nat \<Rightarrow> int \<Rightarrow> bool"
  se_sock :: "sock_call \<Rightarrow> sock_answer"
  se_setSockFlags :: "int \<Rightarrow> u64 \<Rightarrow> int"

text \<open>The bytes of a file's content: for a file of golinux's own, the encoded JSON text.\<close>

definition content_bytes :: "sys_env \<Rightarrow> fcontent \<Rightarrow> u8 list" where
  "content_bytes E c = (case c of Raw b \<Rightarrow> b | _ \<Rightarrow> se_encode E c)"

end
