(* ===== verification/Sys_Meta.thy ===== *)
theory Sys_Meta
  imports Sys_Names Procfs Sys_Env "HOL-Library.Signed_Division"
begin

unbundle bit_operations_syntax

text \<open>
  System calls on metadata, \<open>internal/syscalls/fs_meta.go\<close>.
\<close>

section \<open>stat\<close>

definition packStat :: "Stat \<Rightarrow> u8 list" where
  "packStat st =
     u64ToLE (st_Dev st) 8 @ u64ToLE (st_Ino st) 8 @ u64ToLE (st_Nlink st) 8 @
     u64ToLE (ucast (st_Mode st)) 4 @ u64ToLE (ucast (st_Uid st)) 4 @ u64ToLE (ucast (st_Gid st)) 4 @ replicate 4 0 @
     u64ToLE (st_Rdev st) 8 @ u64ToLE (st_Size st) 8 @ u64ToLE 512 8 @ u64ToLE (word_of_int (sint (st_Size st + 511) sdiv 512)) 8 @
     u64ToLE (word_of_int (st_Atime st)) 8 @ replicate 8 0 @ u64ToLE (word_of_int (st_Mtime st)) 8 @ replicate 8 0 @
     u64ToLE (word_of_int (st_Ctime st)) 8 @ replicate 32 0"

definition VfsStat :: "sys_env \<Rightarrow> string \<Rightarrow> (vfs, vfs_error, Stat) sem" where
  "VfsStat E path v =
     (if v_NativePerms v then (case se_nativeStat E (comps path) v of None \<Rightarrow> (Inl (VFSError 2), v) | Some st \<Rightarrow> (Inr st, v))
      else StatPath (se_md5 E) (\<lambda>c. length (content_bytes E c)) path v)"

definition follow_if :: "bool \<Rightarrow> string \<Rightarrow> process \<Rightarrow> string \<times> process" where
  "follow_if b path p = (if b then followSymlinks path p else (path, p))"

definition doStat :: "sys_env \<Rightarrow> string \<Rightarrow> u64 \<Rightarrow> bool \<Rightarrow> process \<Rightarrow> sys_result \<times> process" where
  "doStat E path0 buf follow p0 =
     (case follow_if follow (resolveAbs (pd_cwd (pr_data p0)) path0) p0 of (path, p1) \<Rightarrow>
        (case procRel path p1 of
          (Some rel, p2) \<Rightarrow> (case proc_Stat (se_mounts E) (se_boot E) rel p2 of
              (None, p3) \<Rightarrow> (errS ENOENT, p3)
            | (Some st, p3) \<Rightarrow> put_mem buf (packStat st) (SysRet 0) p3)
        | (None, p2) \<Rightarrow> (case on_vfs (VfsStat E path) p2 of
              (Inl e, p3) \<Rightarrow> (errS (vfsErrno e), p3)
            | (Inr st, p3) \<Rightarrow> put_mem buf (packStat st) (SysRet 0) p3)))"

definition sysStat :: "sys_env \<Rightarrow> handler" where
  "sysStat E pathPtr buf a2 a3 a4 a5 = with_path pathPtr (\<lambda>path. doStat E path buf True)"

definition sysLstat :: "sys_env \<Rightarrow> handler" where
  "sysLstat E pathPtr buf a2 a3 a4 a5 = with_path pathPtr (\<lambda>path. doStat E path buf False)"

text \<open>A descriptor without a path: a socket or a character device.\<close>

definition stream_stat :: "gofile \<Rightarrow> Stat" where
  "stream_stat f = \<lparr>st_Dev = 0, st_Ino = 0, st_Mode = (case f of SocketF _ _ \<Rightarrow> 0xC1FF | _ \<Rightarrow> 0x2190), st_Size = 0, st_Uid = 0, st_Gid = 0, st_Mtime = 0, st_Atime = 0,
     st_Ctime = 0, st_Nlink = 1, st_Rdev = 0\<rparr>"

definition sysFstat :: "sys_env \<Rightarrow> handler" where
  "sysFstat E fdNum buf a2 a3 a4 a5 p = (case open_file (sint fdNum) p of
       None \<Rightarrow> (errS EBADF, p)
     | Some f \<Rightarrow> if file_path f = '''' then put_mem buf (packStat (stream_stat f)) (SysRet 0) p else doStat E (file_path f) buf True p)"

definition AT_SYMLINK_NOFOLLOW :: u64 where "AT_SYMLINK_NOFOLLOW = 0x100"

definition sysFstatat :: "sys_env \<Rightarrow> handler" where
  "sysFstatat E dirfd pathPtr buf flags a4 a5 = with_path pathPtr (\<lambda>path. with_resolved dirfd path (\<lambda>full.
     doStat E full buf (flags AND AT_SYMLINK_NOFOLLOW = 0)))"

section \<open>access\<close>

definition check_access :: "sys_env \<Rightarrow> string \<Rightarrow> process \<Rightarrow> sys_result \<times> process" where
  "check_access E path p0 = (case followSymlinks path p0 of (full, p1) \<Rightarrow> (case procRel full p1 of
       (Some rel, p2) \<Rightarrow> (case proc_Exists (se_mounts E) (se_boot E) rel p2 of (ex, p3) \<Rightarrow> (if ex then SysRet 0 else errS ENOENT, p3))
     | (None, p2) \<Rightarrow> (case ask_vfs (Exists full) p2 of (ex, p3) \<Rightarrow> (if ex then SysRet 0 else errS ENOENT, p3))))"

definition sysAccess :: "sys_env \<Rightarrow> handler" where
  "sysAccess E pathPtr a1 a2 a3 a4 a5 = with_path pathPtr (\<lambda>path p. check_access E (resolveAbs (pd_cwd (pr_data p)) path) p)"

definition sysFaccessat :: "sys_env \<Rightarrow> handler" where
  "sysFaccessat E dirfd pathPtr a2 a3 a4 a5 = with_path pathPtr (\<lambda>path. with_resolved dirfd path (check_access E))"

section \<open>chmod, chown, umask\<close>

definition sysChmod :: handler where
  "sysChmod pathPtr md a2 a3 a4 a5 = with_path pathPtr (\<lambda>path p0.
     (case followSymlinks (resolveAbs (pd_cwd (pr_data p0)) path) p0 of (full, p1) \<Rightarrow>
      (case ask_vfs (Exists full) p1 of (ex, p2) \<Rightarrow>
        if \<not> ex then (errS ENOENT, p2)
        else vfs_call (SetMeta full (\<lambda>m. m\<lparr>mt_Mode := uint (md AND 0xFFF)\<rparr>)) p2)))"

definition chown_meta :: "u64 \<Rightarrow> u64 \<Rightarrow> Meta \<Rightarrow> Meta" where
  "chown_meta uid gid m =
     (let m1 = (if (ucast uid :: u32) \<noteq> u32Max then m\<lparr>mt_Uid := uint (ucast uid :: u32)\<rparr> else m)
      in if (ucast gid :: u32) \<noteq> u32Max then m1\<lparr>mt_Gid := uint (ucast gid :: u32)\<rparr> else m1)"

definition chownPath :: "string \<Rightarrow> u64 \<Rightarrow> u64 \<Rightarrow> process \<Rightarrow> sys_result \<times> process" where
  "chownPath path uid gid p = (case ask_vfs (Exists path) p of (ex, p1) \<Rightarrow>
     if \<not> ex then (errS ENOENT, p1) else vfs_call (SetMeta path (chown_meta uid gid)) p1)"

definition sysChown :: handler where
  "sysChown pathPtr uid gid a3 a4 a5 = with_path pathPtr (\<lambda>path p.
     (case followSymlinks (resolveAbs (pd_cwd (pr_data p)) path) p of (full, p1) \<Rightarrow> chownPath full uid gid p1))"

definition sysLchown :: handler where
  "sysLchown pathPtr uid gid a3 a4 a5 = with_path pathPtr (\<lambda>path p. chownPath (resolveAbs (pd_cwd (pr_data p)) path) uid gid p)"

definition sysFchown :: handler where
  "sysFchown fdNum uid gid a3 a4 a5 p = (case open_file (sint fdNum) p of
       None \<Rightarrow> (errS EBADF, p)
     | Some f \<Rightarrow> if file_path f = '''' then (SysRet 0, p) else chownPath (file_path f) uid gid p)"

text \<open>The empty path with AT_EMPTY_PATH names the descriptor itself.\<close>

definition empty_path :: "u64 \<Rightarrow> process \<Rightarrow> int + string" where
  "empty_path dirfd p =
     (if int32 dirfd = AT_FDCWD then Inr (pd_cwd (pr_data p))
      else case open_file (int32 dirfd) p of
          None \<Rightarrow> Inl EBADF
        | Some f \<Rightarrow> if file_path f = '''' then Inl EBADF else Inr (file_path f))"

definition sysFchownat :: handler where
  "sysFchownat dirfd pathPtr uid gid flags a5 = with_path pathPtr (\<lambda>path p.
     if flags AND NOT (AT_SYMLINK_NOFOLLOW OR AT_EMPTY_PATH) \<noteq> 0 then (errS EINVAL, p)
     else if path = '''' \<and> flags AND AT_EMPTY_PATH = 0 then (errS ENOENT, p)
     else case (if path = '''' then empty_path dirfd p else resolve dirfd path p) of
         Inl e \<Rightarrow> (errS e, p)
       | Inr full \<Rightarrow> (case follow_if (flags AND AT_SYMLINK_NOFOLLOW = 0) full p of (full1, p1) \<Rightarrow> chownPath full1 uid gid p1))"

definition sysUmask :: handler where
  "sysUmask newMask a1 a2 a3 a4 a5 p = (case SetUmask (newMask AND 0x1FF) p of (old, p1) \<Rightarrow> (SysRet old, p1))"

section \<open>readlink\<close>

text \<open>Slicing to a negative size panics.\<close>

definition doReadlink :: "string \<Rightarrow> u64 \<Rightarrow> u64 \<Rightarrow> process \<Rightarrow> sys_result \<times> process" where
  "doReadlink path buf bufsiz p0 =
     (let finish = (\<lambda>target p. let data = str_bytes target; n = sint bufsiz in
        if int (length data) \<le> n then put_mem buf data (retS (int (length data))) p
        else if n < 0 then (SysPanic, p)
        else put_mem buf (take (nat n) data) (retS n) p)
      in case procRel path p0 of
          (Some rel, p1) \<Rightarrow> (case proc_Readlink rel p1 of None \<Rightarrow> (errS EINVAL, p1) | Some t \<Rightarrow> finish t p1)
        | (None, p1) \<Rightarrow> (case on_vfs (Readlink path) p1 of (Inl e, p2) \<Rightarrow> (errS (vfsErrno e), p2) | (Inr t, p2) \<Rightarrow> finish t p2))"

definition sysReadlink :: handler where
  "sysReadlink pathPtr buf bufsiz a3 a4 a5 = with_path pathPtr (\<lambda>path p. doReadlink (resolveAbs (pd_cwd (pr_data p)) path) buf bufsiz p)"

definition sysReadlinkat :: handler where
  "sysReadlinkat dirfd pathPtr buf bufsiz a4 a5 = with_path pathPtr (\<lambda>path. with_resolved dirfd path (\<lambda>full. doReadlink full buf bufsiz))"

end
