(* ===== verification/Sys_Misc.thy ===== *)
theory Sys_Misc
  imports Sys_Meta
begin

unbundle bit_operations_syntax

text \<open>
  System calls on limits, mounts, the root and time: \<open>internal/syscalls/misc.go\<close>, \<open>mount.go\<close> and
  \<open>time.go\<close>. The clock is that of the host, \<open>v_now\<close> in nanoseconds.
\<close>

section \<open>misc.go\<close>

definition rlim_infinity :: "u8 list" where
  "rlim_infinity = u64ToLE 0xFFFFFFFFFFFFFFFF 8 @ u64ToLE 0xFFFFFFFFFFFFFFFF 8"

definition sysGetrlimit :: handler where
  "sysGetrlimit resource rlim a2 a3 a4 a5 = put_mem rlim rlim_infinity (SysRet 0)"

definition sysPrlimit64 :: handler where
  "sysPrlimit64 pid resource newLimit oldLimit a4 a5 p =
     (if oldLimit \<noteq> 0 then put_mem oldLimit rlim_infinity (SysRet 0) p else (SysRet 0, p))"

definition statfs_bytes :: "u8 list" where
  "statfs_bytes = concat (map (\<lambda>w. u64ToLE w 8) [0xEF53, 4096, 2621440, 2621440, 2621440, 1000000, 1000000, 0, 255]) @ replicate 48 0"

definition sysStatfs :: handler where
  "sysStatfs pathPtr buf a2 a3 a4 a5 = put_mem buf statfs_bytes (SysRet 0)"

definition sysUtimensat :: handler where
  "sysUtimensat dirfd pathPtr timesPtr flags a4 a5 p0 =
     (if pathPtr = 0 then (SysRet 0, p0)
      else with_path pathPtr (\<lambda>path. with_resolved dirfd path (\<lambda>full p.
        (case follow_if (flags AND AT_SYMLINK_NOFOLLOW = 0) full p of (full1, p1) \<Rightarrow>
         (case ask_vfs (Exists full1) p1 of (ex, p2) \<Rightarrow> (if ex then SysRet 0 else errS ENOENT, p2))))) p0)"

definition sysUtimes :: handler where
  "sysUtimes pathPtr timesPtr a2 a3 a4 a5 p0 =
     (if pathPtr = 0 then (errS EFAULT, p0)
      else with_path pathPtr (\<lambda>path p.
        (case ask_vfs (Exists (resolveAbs (pd_cwd (pr_data p)) path)) p of (ex, p1) \<Rightarrow> (if ex then SysRet 0 else errS ENOENT, p1))) p0)"

section \<open>mount.go\<close>

text \<open>A string argument that may be missing.\<close>

definition cstr0 :: "u64 \<Rightarrow> process \<Rightarrow> string \<times> process" where
  "cstr0 ptr p = (case cstr ptr p of (None, p1) \<Rightarrow> ('''', p1) | (Some s, p1) \<Rightarrow> (s, p1))"

definition sysMount :: "sys_env \<Rightarrow> handler" where
  "sysMount E sourcePtr targetPtr fstypePtr flags a4 a5 p0 =
     (case cstr0 sourcePtr p0 of (source, p1) \<Rightarrow>
      (case cstr targetPtr p1 of
        (None, p2) \<Rightarrow> (errS EFAULT, p2)
      | (Some target, p2) \<Rightarrow>
          if target = '''' then (errS EFAULT, p2)
          else case cstr0 fstypePtr p2 of (fstype, p3) \<Rightarrow>
            vfs_call (Mount (se_nodes E) (se_toLower E) source (resolveAbs (pd_cwd (pr_data p3)) target) fstype (sint flags) '''') p3))"

definition sysUmount2 :: handler where
  "sysUmount2 targetPtr a1 a2 a3 a4 a5 = with_path targetPtr (\<lambda>target p.
     vfs_call (Umount (resolveAbs (pd_cwd (pr_data p)) target)) p)"

text \<open>
  The VFS of a new root: the directory is created when it is missing, then the part of the tree below
  it is a tree of its own. A failure of the constructor is EIO.
\<close>

definition sub_tree :: "hpath \<Rightarrow> vfs \<Rightarrow> vfs" where
  "sub_tree d v = v\<lparr>v_tree := map (\<lambda>(q, n). (drop (length d) q, n)) (filter (\<lambda>(q, n). prefix d q) (v_tree v))\<rparr>"

definition reroot :: "string \<Rightarrow> vfs \<Rightarrow> (vfs_error + unit) \<times> vfs" where
  "reroot full v = (case os_MkdirAll (comps full) v of
       (Inl e, v1) \<Rightarrow> (Inl e, v1)
     | (Inr _, v1) \<Rightarrow> (case VfsNew False (sub_tree (comps full) v1) of (Inl e, v2) \<Rightarrow> (Inl e, v1) | (Inr _, v2) \<Rightarrow> (Inr (), v2)))"

definition rerootTo :: "u64 \<Rightarrow> process \<Rightarrow> sys_result \<times> process" where
  "rerootTo pathPtr = with_path pathPtr (\<lambda>path p.
     let full = resolveAbs (pd_cwd (pr_data p)) path in
     case ask_vfs (IsDir full) p of (isdir, p1) \<Rightarrow>
       if \<not> isdir then (errS ENOTDIR, p1)
       else case on_vfs (reroot full) p1 of
           (Inl _, p2) \<Rightarrow> (errS EIO, p2)
         | (Inr _, p2) \<Rightarrow> (SysRet 0, upd_data (\<lambda>d. d\<lparr>pd_root := HostPath (pd_root d) full, pd_cwd := ''/''\<rparr>) p2))"

definition sysChroot :: handler where
  "sysChroot pathPtr a1 a2 a3 a4 a5 = rerootTo pathPtr"

definition sysPivotRoot :: handler where
  "sysPivotRoot newRootPtr putOldPtr a2 a3 a4 a5 = rerootTo newRootPtr"

definition sysSethostname :: handler where
  "sysSethostname namePtr len a2 a3 a4 a5 p =
     (if sint len < 0 \<or> maxAlloc < unat len then (SysPanic, p)
      else case on_mem (MemRead namePtr (unat len)) p of
          (Inl _, p1) \<Rightarrow> (errS EFAULT, p1)
        | (Inr data, p1) \<Rightarrow> (SysRet 0, upd_data (\<lambda>d. d\<lparr>pd_hostname := bytes_str (rev (dropWhile (\<lambda>b. b = 0) (rev data)))\<rparr>) p1))"

section \<open>time.go\<close>

definition now_sec :: "process \<Rightarrow> int" where
  "now_sec p = v_now (pd_vfs (pr_data p)) div 1000000000"

definition now_nsec :: "process \<Rightarrow> int" where
  "now_nsec p = v_now (pd_vfs (pr_data p)) mod 1000000000"

definition writeTimespecLike :: "u64 \<Rightarrow> int \<Rightarrow> int \<Rightarrow> process \<Rightarrow> sys_result \<times> process" where
  "writeTimespecLike addr sec subsec = put_mem addr (u64ToLE (word_of_int sec) 8 @ u64ToLE (word_of_int subsec) 8) (SysRet 0)"

definition sysGettimeofday :: handler where
  "sysGettimeofday tv tz a2 a3 a4 a5 p =
     (if tv \<noteq> 0 then writeTimespecLike tv (now_sec p) (now_nsec p div 1000) p else (SysRet 0, p))"

definition sysTime :: handler where
  "sysTime tloc a1 a2 a3 a4 a5 p =
     (if tloc \<noteq> 0 then put_mem tloc (u64ToLE (word_of_int (now_sec p)) 8) (retS (now_sec p)) p else (retS (now_sec p), p))"

definition sysClockGettime :: handler where
  "sysClockGettime clkID ts a2 a3 a4 a5 p = writeTimespecLike ts (now_sec p) (now_nsec p) p"

definition sysClockGetres :: handler where
  "sysClockGetres clkID ts a2 a3 a4 a5 p = (if ts \<noteq> 0 then writeTimespecLike ts 0 1 p else (SysRet 0, p))"

text \<open>\<open>make\<close> takes the length as it is and panics above \<open>maxAlloc\<close>.\<close>

definition sysGetrandom :: "sys_env \<Rightarrow> handler" where
  "sysGetrandom E buf buflen flags a3 a4 a5 p =
     (if maxAlloc < unat buflen then (SysPanic, p)
      else put_mem buf (se_random E (unat buflen)) (SysRet buflen) p)"

definition writeItimerval :: "u64 \<Rightarrow> process \<Rightarrow> sys_result \<times> process" where
  "writeItimerval ptr p = (if ptr = 0 then (SysRet 0, p) else put_mem ptr (replicate 32 0) (SysRet 0) p)"

definition bad_itimer :: "u64 \<Rightarrow> bool" where
  "bad_itimer which \<longleftrightarrow> sint which < 0 \<or> 2 < sint which"

definition sysGetitimer :: handler where
  "sysGetitimer which currVal a2 a3 a4 a5 p = (if bad_itimer which then (errS EINVAL, p) else writeItimerval currVal p)"

definition sysSetitimer :: handler where
  "sysSetitimer which newVal oldVal a3 a4 a5 p =
     (if bad_itimer which then (errS EINVAL, p)
      else if newVal = 0 then writeItimerval oldVal p
      else case on_mem (MemRead newVal 32) p of (Inl _, p1) \<Rightarrow> (errS EFAULT, p1) | (Inr _, p1) \<Rightarrow> writeItimerval oldVal p1)"

end
