(* ===== verification/Sys_Files.thy ===== *)
theory Sys_Files
  imports Sys_Misc
begin

unbundle bit_operations_syntax

text \<open>
  System calls on descriptors, \<open>internal/syscalls/file.go\<close>, with the device nodes of
  \<open>internal/devices/devices.go\<close>: open with its procfs, device, directory and temporary-file cases, close,
  dup, fcntl, pipe and pread64; and the calls that ask the host about processes and terminals. A regular
  file keeps the bytes it had when it was opened for \<open>mmap\<close> and \<open>pread64\<close>; other reads and writes are
  answered by the host (theory \<open>Sys_IO\<close>).
\<close>

section \<open>New descriptors\<close>

definition on_fds :: "(fileRefs \<times> fd_table \<Rightarrow> 'a \<times> fileRefs \<times> fd_table) \<Rightarrow> process \<Rightarrow> 'a \<times> process" where
  "on_fds f p = (case f (pd_refs (pr_data p), pd_fds (pr_data p)) of
     (r, refs, fds) \<Rightarrow> (r, upd_data (\<lambda>d. d\<lparr>pd_refs := refs, pd_fds := fds\<rparr>) p))"

definition set_cloexec :: "int \<Rightarrow> bool \<Rightarrow> process \<Rightarrow> process" where
  "set_cloexec fd b = upd_data (\<lambda>d. d\<lparr>pd_fds := SetCloexec fd b (pd_fds d)\<rparr>)"

text \<open>\<open>Alloc\<close> of a new file object.\<close>

definition alloc_file :: "gofile \<Rightarrow> process \<Rightarrow> int \<times> process" where
  "alloc_file f p = (let k = pd_nextFile (pr_data p) in
     on_fds (Alloc k) (upd_data (\<lambda>d. d\<lparr>pd_nextFile := k + 1\<rparr>) (set_file k f p)))"

definition alloc_ret :: "bool \<Rightarrow> gofile \<Rightarrow> process \<Rightarrow> sys_result \<times> process" where
  "alloc_ret cloexec f p = (case alloc_file f p of (fd, p1) \<Rightarrow> (retS fd, if cloexec then set_cloexec fd True p1 else p1))"

section \<open>Devices\<close>

definition majorMinor :: "int \<Rightarrow> int \<times> int" where
  "majorMinor rdev = (and (drop_bit 8 rdev) 0xFFF, and rdev 0xFF)"

text \<open>The terminal reads and writes the files that are open as 0 and 1 at this time.\<close>

definition dev_Open :: "int \<Rightarrow> process \<Rightarrow> gofile option" where
  "dev_Open rdev p = (case majorMinor rdev of (major, minor) \<Rightarrow>
     if major = 1 \<and> minor = 3 then Some (StreamF ''null'')
     else if major = 1 \<and> minor = 5 then Some (StreamF ''zero'')
     else if major = 1 \<and> minor = 7 then Some (StreamF ''full'')
     else if major = 1 \<and> (minor = 8 \<or> minor = 9) then Some (StreamF (if minor = 9 then ''urandom'' else ''random''))
     else if major = 5 \<and> (minor = 0 \<or> minor = 1) then Some (TtyF (if minor = 1 then ''console'' else ''tty'') (Get 0 (pd_fds (pr_data p))) (Get 1 (pd_fds (pr_data p))))
     else if major = 5 \<and> minor = 2 then Some (StreamF ''ptmx'')
     else None)"

section \<open>open\<close>

definition O_ACCMODE :: u64 where "O_ACCMODE = 0x3"
definition O_CREAT :: u64 where "O_CREAT = 0x40"
definition O_TRUNC :: u64 where "O_TRUNC = 0x200"
definition O_DIRECTORY :: u64 where "O_DIRECTORY = 0x10000"
definition O_NOFOLLOW :: u64 where "O_NOFOLLOW = 0x20000"
definition O_CLOEXEC :: u64 where "O_CLOEXEC = 0x80000"
definition O_TMPFILE :: u64 where "O_TMPFILE = 0x400000"

lemmas open_flags = O_ACCMODE_def O_CREAT_def O_TRUNC_def O_DIRECTORY_def O_NOFOLLOW_def O_CLOEXEC_def O_TMPFILE_def

definition ELOOP :: int where "ELOOP = 40"

definition openTmpFile :: "sys_env \<Rightarrow> string \<Rightarrow> u64 \<Rightarrow> u64 \<Rightarrow> process \<Rightarrow> sys_result \<times> process" where
  "openTmpFile E path flags md p =
     (if flags AND O_DIRECTORY = 0 then (errS EINVAL, p)
      else case ask_vfs (IsDir path) p of (isdir, p1) \<Rightarrow>
        if \<not> isdir then (errS ENOTDIR, p1)
        else case on_vfs (CreateTmpFile (se_tmpName E) path (sint md)) p1 of
            (Inl e, p2) \<Rightarrow> (errS (vfsErrno e), p2)
          | (Inr hostTmp, p2) \<Rightarrow> alloc_ret (flags AND O_CLOEXEC \<noteq> 0) (TmpFileF hostTmp (sint md) False) p2)"

definition openProcfs :: "sys_env \<Rightarrow> string \<Rightarrow> string \<Rightarrow> process \<Rightarrow> sys_result \<times> process" where
  "openProcfs E path rel p0 =
     (case proc_Exists (se_mounts E) (se_boot E) rel p0 of (ex, p1) \<Rightarrow>
      if \<not> ex then (errS ENOENT, p1)
      else case proc_IsDir (se_mounts E) (se_boot E) rel p1 of (isdir, p2) \<Rightarrow>
      if isdir then alloc_ret False (DirHandleF (NewDirHandleFromEntries path (proc_Listdir (se_fds E) (se_boot E) rel p2))) p2
      else case proc_IsSymlink (se_mounts E) (se_boot E) rel p2 of (islink, p3) \<Rightarrow>
      if islink then (errS ELOOP, p3)
      else case proc_Read (se_mounts E) (se_boot E) rel p3 of
          (None, p4) \<Rightarrow> (errS ENOENT, p4)
        | (Some data, p4) \<Rightarrow> alloc_ret False (StaticFileF path \<lparr>sf_data = data, sf_pos = 0\<rparr>) p4)"

text \<open>
  \<open>OpenVFSFile\<close> and the errors \<open>openCommon\<close> makes of it: a missing file is created with O_CREAT, a host
  directory opens for reading only. The host grants access.
\<close>

definition OpenVFSFile :: "sys_env \<Rightarrow> string \<Rightarrow> u64 \<Rightarrow> vfs \<Rightarrow> (int + gofile) \<times> vfs" where
  "OpenVFSFile E path flags v =
     (let h = comps path; trunc = flags AND O_TRUNC \<noteq> 0; create = flags AND O_CREAT \<noteq> 0 in
      case os_Stat h v of
        None \<Rightarrow>
          if \<not> create then (Inl ENOENT, v)
          else (case os_WriteFile h (Raw []) v of (Inl _, v1) \<Rightarrow> (Inl ENOENT, v1) | (Inr _, v1) \<Rightarrow> (Inr (VFSFile path []), v1))
      | Some n \<Rightarrow>
          if is_dir n then (if flags AND O_ACCMODE \<noteq> 0 \<or> trunc \<or> create then (Inl EIO, v) else (Inr (VFSFile path []), v))
          else if trunc then (case os_WriteFile h (Raw []) v of (Inl _, v1) \<Rightarrow> (Inl EIO, v1) | (Inr _, v1) \<Rightarrow> (Inr (VFSFile path []), v1))
          else (Inr (VFSFile path (content_bytes E (hn_content n))), v))"

definition open_mode :: "u64 \<Rightarrow> int" where
  "open_mode md = (let m = uint (md AND 0x1FF) in if m = 0 then 0x1A4 else m)"

text \<open>The end of \<open>openCommon\<close>, for a path that exists now.\<close>

definition open_existing :: "sys_env \<Rightarrow> string \<Rightarrow> u64 \<Rightarrow> process \<Rightarrow> sys_result \<times> process" where
  "open_existing E path flags p =
     (case on_vfs (GetMeta path) p of
        (Inl e, p1) \<Rightarrow> (errS (vfsErrno e), p1)
      | (Inr meta, p1) \<Rightarrow>
          if mt_Type meta = ''dir'' then
            (case on_vfs (Listdir path) p1 of
               (Inl e, p2) \<Rightarrow> (errS (vfsErrno e), p2)
             | (Inr names, p2) \<Rightarrow> alloc_ret False (DirHandleF (NewDirHandleFromEntries path names)) p2)
          else (case ask_vfs (OpenVFSFile E path flags) p1 of
               (Inl e, p2) \<Rightarrow> (errS e, p2)
             | (Inr f, p2) \<Rightarrow> alloc_ret (flags AND O_CLOEXEC \<noteq> 0) f p2))"

definition open_device :: "string \<Rightarrow> process \<Rightarrow> gofile option \<times> process" where
  "open_device path p = (case on_vfs (GetMeta path) p of
       (Inl _, p1) \<Rightarrow> (None, p1)
     | (Inr meta, p1) \<Rightarrow> (if mt_Type meta = ''chr'' then dev_Open (mt_Rdev meta) p1 else None, p1))"

definition openCommon :: "sys_env \<Rightarrow> string \<Rightarrow> u64 \<Rightarrow> u64 \<Rightarrow> process \<Rightarrow> sys_result \<times> process" where
  "openCommon E path0 flags md p0 =
     (if flags AND O_TMPFILE \<noteq> 0 then openTmpFile E path0 flags md p0
      else case follow_if (flags AND O_NOFOLLOW = 0) path0 p0 of (path, p1) \<Rightarrow>
        (case procRel path p1 of
           (Some rel, p2) \<Rightarrow> openProcfs E path rel p2
         | (None, p2) \<Rightarrow>
           (case ask_vfs (Exists path) p2 of (ex, p3) \<Rightarrow>
            if ex then
              (case open_device path p3 of
                 (Some dev, p4) \<Rightarrow> alloc_ret False dev p4
               | (None, p4) \<Rightarrow> open_existing E path flags p4)
            else if flags AND O_CREAT = 0 then (errS ENOENT, p3)
            else (case on_vfs (CreateFile path (open_mode md)) p3 of
                 (Inl e, p4) \<Rightarrow> (errS (vfsErrno e), p4)
               | (Inr _, p4) \<Rightarrow> open_existing E path flags p4))))"

definition sysOpen :: "sys_env \<Rightarrow> handler" where
  "sysOpen E pathPtr flags md a3 a4 a5 = with_path pathPtr (\<lambda>path p. openCommon E (resolveAbs (pd_cwd (pr_data p)) path) flags md p)"

definition sysOpenat :: "sys_env \<Rightarrow> handler" where
  "sysOpenat E dirfd pathPtr flags md a4 a5 = with_path pathPtr (\<lambda>path. with_resolved dirfd path (\<lambda>full. openCommon E full flags md))"

definition sysCreat :: "sys_env \<Rightarrow> handler" where
  "sysCreat E pathPtr md a2 a3 a4 a5 = with_path pathPtr (\<lambda>path p.
     openCommon E (resolveAbs (pd_cwd (pr_data p)) path) (O_CREAT OR 1 OR O_TRUNC) md p)"
text \<open>\<open>MemRead\<close> of a length the guest gives: \<open>make\<close> panics when it is out of range.\<close>

definition get_mem :: "u64 \<Rightarrow> u64 \<Rightarrow> (u8 list \<Rightarrow> process \<Rightarrow> sys_result \<times> process) \<Rightarrow> process \<Rightarrow> sys_result \<times> process" where
  "get_mem addr n f p =
     (if sint n < 0 \<or> maxAlloc < unat n then (SysPanic, p)
      else case on_mem (MemRead addr (unat n)) p of (Inl _, p1) \<Rightarrow> (errS EFAULT, p1) | (Inr bs, p1) \<Rightarrow> f bs p1)"

text \<open>A little-endian field of a record.\<close>

definition le_word :: "u8 list \<Rightarrow> nat \<Rightarrow> nat \<Rightarrow> u64" where
  "le_word bs off n = leToU64 (take n (drop off bs))"

section \<open>close, dup, fcntl, pipe\<close>

definition sysClose :: handler where
  "sysClose fdNum a1 a2 a3 a4 a5 p = (case on_fds (CloseFd (sint fdNum)) p of (ok, p1) \<Rightarrow> (if ok then SysRet 0 else errS EBADF, p1))"

definition sysDup :: handler where
  "sysDup fdNum a1 a2 a3 a4 a5 p = (case on_fds (Dup (sint fdNum)) p of
     (None, p1) \<Rightarrow> (errS EBADF, p1) | (Some fd, p1) \<Rightarrow> (retS fd, p1))"

definition sysDup2 :: handler where
  "sysDup2 oldfd newfd a2 a3 a4 a5 p = (case on_fds (Dup2 (sint oldfd) (sint newfd)) p of
     (None, p1) \<Rightarrow> (errS EBADF, p1) | (Some fd, p1) \<Rightarrow> (retS fd, p1))"

definition O_NONBLOCK :: u64 where "O_NONBLOCK = 0x800"

text \<open>The commands are 0 F_DUPFD, 1 F_GETFD, 2 F_SETFD, 3 F_GETFL, 4 F_SETFL and 1030 F_DUPFD_CLOEXEC.\<close>

definition sysFcntl :: "sys_env \<Rightarrow> handler" where
  "sysFcntl E fdNum cmd arg a3 a4 a5 p = (let fd = sint fdNum in
     case Get fd (pd_fds (pr_data p)) of
       None \<Rightarrow> (errS EBADF, p)
     | Some k \<Rightarrow>
         if cmd = 0 then (case on_fds (Alloc k) p of (new, p1) \<Rightarrow> (retS new, p1))
         else if cmd = 1030 then (case on_fds (Alloc k) p of (new, p1) \<Rightarrow> (retS new, set_cloexec new True p1))
         else if cmd = 1 then (SysRet (if Cloexec fd (pd_fds (pr_data p)) then 1 else 0), p)
         else if cmd = 2 then (SysRet 0, set_cloexec fd (arg AND 1 \<noteq> 0) p)
         else if cmd = 3 then
           (case pd_files (pr_data p) k of
              SocketF h nb \<Rightarrow> (case se_sockFlags E h of Inl e \<Rightarrow> (errS e, p) | Inr fl \<Rightarrow> (SysRet (fl AND 0xFFF), p))
            | _ \<Rightarrow> (SysRet 0, p))
         else if cmd = 4 then
           (case pd_files (pr_data p) k of
              SocketF h nb \<Rightarrow> (let e = se_setSockFlags E h (arg AND O_NONBLOCK) in
                if e \<noteq> 0 then (errS e, p) else (SysRet 0, set_file k (SocketF h (arg AND O_NONBLOCK \<noteq> 0)) p))
            | _ \<Rightarrow> (SysRet 0, p))
         else (SysRet 0, p))"

definition EMFILE :: int where "EMFILE = 24"

definition fd_bytes :: "int \<Rightarrow> u8 list" where
  "fd_bytes fd = u64ToLE (word_of_int fd) 4"

definition doPipe :: "sys_env \<Rightarrow> u64 \<Rightarrow> u64 \<Rightarrow> process \<Rightarrow> sys_result \<times> process" where
  "doPipe E pipefdPtr flags p = (case se_pipe E of
       None \<Rightarrow> (errS EMFILE, p)
     | Some (r, w) \<Rightarrow>
         (case alloc_file (PipeEndF r) p of (rfd, p1) \<Rightarrow> (case alloc_file (PipeEndF w) p1 of (wfd, p2) \<Rightarrow>
            put_mem pipefdPtr (fd_bytes rfd @ fd_bytes wfd) (SysRet 0)
              (if flags AND O_CLOEXEC \<noteq> 0 then set_cloexec wfd True (set_cloexec rfd True p2) else p2))))"

definition sysPipe :: "sys_env \<Rightarrow> handler" where
  "sysPipe E pipefdPtr a1 a2 a3 a4 a5 = doPipe E pipefdPtr 0"

definition sysPipe2 :: "sys_env \<Rightarrow> handler" where
  "sysPipe2 E pipefdPtr flags a2 a3 a4 a5 = doPipe E pipefdPtr flags"

definition ESPIPE :: int where "ESPIPE = 29"

text \<open>The buffer is made before the file is read: a negative or too large count panics.\<close>

definition sysPread64 :: handler where
  "sysPread64 fdNum buf count offset a4 a5 p = (case open_file (sint fdNum) p of
       None \<Rightarrow> (errS EBADF, p)
     | Some (VFSFile g content) \<Rightarrow>
         (if maxAlloc < unat count then (SysPanic, p)
          else case VFSFile_PreadAt content count offset of
              None \<Rightarrow> (SysPanic, p)
            | Some data \<Rightarrow> put_mem buf data (retS (int (length data))) p)
     | Some _ \<Rightarrow> (errS ESPIPE, p))"

section \<open>Process groups and terminals of the host\<close>

definition ret_sum :: "int + int \<Rightarrow> sys_result" where
  "ret_sum r = (case r of Inl e \<Rightarrow> errS e | Inr n \<Rightarrow> retS n)"

definition real_pid :: "sys_env \<Rightarrow> u64 \<Rightarrow> int" where
  "real_pid E pid = (if int32 pid \<le> 0 then se_hostPid E else int32 pid)"

definition sysGetpgrp :: "sys_env \<Rightarrow> handler" where
  "sysGetpgrp E a0 a1 a2 a3 a4 a5 p = (ret_sum (se_getpgid E 0), p)"

definition sysGetpgid :: "sys_env \<Rightarrow> handler" where
  "sysGetpgid E pid a1 a2 a3 a4 a5 p = (ret_sum (se_getpgid E (real_pid E pid)), p)"

definition sysSetpgid :: "sys_env \<Rightarrow> handler" where
  "sysSetpgid E pid pgid a2 a3 a4 a5 p =
     (let rp = real_pid E pid; rg = (if int32 pgid \<le> 0 then rp else int32 pgid); e = se_setpgid E rp rg
      in (if e \<noteq> 0 then errS e else SysRet 0, p))"

definition sysGetsid :: "sys_env \<Rightarrow> handler" where
  "sysGetsid E pid a1 a2 a3 a4 a5 p = (ret_sum (se_getsid E (real_pid E pid)), p)"

definition sysSetsid :: "sys_env \<Rightarrow> handler" where
  "sysSetsid E a0 a1 a2 a3 a4 a5 p = (ret_sum (se_setsid E), p)"

definition hostStdioFd :: "gofile \<Rightarrow> int option" where
  "hostStdioFd f = (case f of
       StreamF name \<Rightarrow> (if name = ''stdin'' then Some 0 else if name = ''stdout'' then Some 1 else if name = ''stderr'' then Some 2 else None)
     | _ \<Rightarrow> None)"

definition ENOTTY :: int where "ENOTTY = 25"

text \<open>The size of the structure of a terminal request, and whether it reads the terminal.\<close>

definition ioctl_size :: "u64 \<Rightarrow> nat option" where
  "ioctl_size req = map_of [(0x5401, 36), (0x5402, 36), (0x5403, 36), (0x5404, 36), (0x5413, 8), (0x5414, 8), (0x540F, 4), (0x5410, 4)] req"

definition ioctl_get :: "u64 \<Rightarrow> bool" where
  "ioctl_get req \<longleftrightarrow> req = 0x5401 \<or> req = 0x5413 \<or> req = 0x540F"

definition sysIoctl :: "sys_env \<Rightarrow> handler" where
  "sysIoctl E fdNum request argPtr a3 a4 a5 p = (case open_file (sint fdNum) p of
       None \<Rightarrow> (errS EBADF, p)
     | Some f \<Rightarrow> (case ioctl_size request of
           None \<Rightarrow> (errS ENOSYS, p)
         | Some sz \<Rightarrow> (case hostStdioFd f of
             None \<Rightarrow> (errS ENOTTY, p)
           | Some h \<Rightarrow>
               if ioctl_get request then
                 (case se_ioctl E h request (replicate sz 0) of (e, out) \<Rightarrow>
                    if e \<noteq> 0 then (errS e, p) else put_mem argPtr out (SysRet 0) p)
               else (case on_mem (MemRead argPtr sz) p of
                   (Inl _, p1) \<Rightarrow> (errS EFAULT, p1)
                 | (Inr data, p1) \<Rightarrow> (case se_ioctl E h request data of (e, out) \<Rightarrow> (if e \<noteq> 0 then errS e else SysRet 0, p1))))))"

end
