(* ===== verification/Sys_Exec.thy ===== *)
theory Sys_Exec
  imports Sys_Files
begin

unbundle bit_operations_syntax

text \<open>
  \<open>internal/syscalls/fork.go\<close>: execve with its interpreter scripts, fork, vfork, clone and wait4.
\<close>

section \<open>White space\<close>

text \<open>The UTF-8 encodings of the characters \<open>strings.TrimSpace\<close> trims.\<close>

definition go_spaces :: "string list" where
  "go_spaces = map (map char_of) ([[9], [10], [11], [12], [13], [32], [0xC2, 0x85], [0xC2, 0xA0], [0xE1, 0x9A, 0x80],
     [0xE2, 0x80, 0xA8], [0xE2, 0x80, 0xA9], [0xE2, 0x80, 0xAF], [0xE2, 0x81, 0x9F], [0xE3, 0x80, 0x80]] @
     map (\<lambda>k. [0xE2, 0x80, 0x80 + k]) [0..<11 :: nat])"

lemma go_spaces_nonempty: "w \<in> set go_spaces \<Longrightarrow> w \<noteq> []"
  by (auto simp: go_spaces_def)

function trim_front :: "string list \<Rightarrow> string \<Rightarrow> string" where
  "trim_front ws s = (case find (\<lambda>w. w \<noteq> [] \<and> hasPrefix s w) ws of None \<Rightarrow> s | Some w \<Rightarrow> trim_front ws (drop (length w) s))"
  by pat_completeness auto
termination
proof (relation "measure (\<lambda>(ws, s). length s)")
  fix ws s w assume "find (\<lambda>w. w \<noteq> [] \<and> hasPrefix s w) ws = Some w"
  then have "w \<noteq> []" "hasPrefix s w" by (auto simp: find_Some_iff)
  then show "((ws, drop (length w) s), ws, s) \<in> measure (\<lambda>(ws, s). length s)"
    by (cases s) (auto simp: hasPrefix_def)
qed simp

declare trim_front.simps [simp del]

definition TrimSpace :: "string \<Rightarrow> string" where
  "TrimSpace s = rev (trim_front (map rev go_spaces) (rev (trim_front go_spaces s)))"

section \<open>Interpreter scripts\<close>

definition is_blank :: "char \<Rightarrow> bool" where
  "is_blank c \<longleftrightarrow> c = CHR 0x20 \<or> c = CHR 0x09"

text \<open>
  The line after \<open>#!\<close> in what was read of the file, at most 256 bytes: \<open>None\<close> when it does not end there.
\<close>

definition script_line :: "u8 list \<Rightarrow> string option" where
  "script_line buf =
     (let s = bytes_str (drop 2 buf) in
      if CHR 0x0A \<in> set s then Some (takeWhile (\<lambda>c. c \<noteq> CHR 0x0A) s)
      else if length buf = 256 then None else Some s)"

text \<open>The interpreter and its argument, \<open>''''\<close> for none.\<close>

definition split_line :: "string \<Rightarrow> string \<times> string" where
  "split_line line = (takeWhile (\<lambda>c. \<not> is_blank c) line, TrimSpace (dropWhile (\<lambda>c. \<not> is_blank c) line))"

definition script_interp :: "u8 list \<Rightarrow> (string \<times> string) option" where
  "script_interp buf = (case script_line buf of
       None \<Rightarrow> None
     | Some l \<Rightarrow> (let line = TrimSpace (trimSuffix l [CHR 0x0D]); (interp, arg) = split_line line in
         if line = '''' \<or> \<not> hasPrefix interp ''/'' then None else Some (interp, arg)))"

text \<open>A path must be there and a regular file.\<close>

definition check_regular :: "string \<Rightarrow> process \<Rightarrow> int option \<times> process" where
  "check_regular path p = (case ask_vfs (Exists path) p of (ex, p1) \<Rightarrow>
     if \<not> ex then (Some ENOENT, p1)
     else case on_vfs (GetMeta path) p1 of
         (Inl e, p2) \<Rightarrow> (Some (vfsErrno e), p2)
       | (Inr meta, p2) \<Rightarrow> (if mt_Type meta \<noteq> ''reg'' then Some EACCES else None, p2))"

definition script_argv :: "string \<Rightarrow> string \<Rightarrow> string \<Rightarrow> string list \<Rightarrow> string list" where
  "script_argv interp arg guestPath argv = interp # (if arg = '''' then [] else [arg]) @ guestPath # tl argv"

text \<open>The argument counts the interpreters that may still follow; \<open>execScript\<close> starts with four.\<close>

primrec script_loop :: "nat \<Rightarrow> sys_env \<Rightarrow> string \<Rightarrow> string list \<Rightarrow> process \<Rightarrow> (int + string \<times> string list) \<times> process" where
  "script_loop 0 E guestPath argv p = (case se_readFile E (HostPath (pd_root (pr_data p)) guestPath) of
       None \<Rightarrow> (Inl EACCES, p)
     | Some data \<Rightarrow> (if take 2 data \<noteq> [35, 33] then Inr (guestPath, argv) else Inl ENOEXEC, p))"
| "script_loop (Suc n) E guestPath argv p = (case se_readFile E (HostPath (pd_root (pr_data p)) guestPath) of
       None \<Rightarrow> (Inl EACCES, p)
     | Some data \<Rightarrow>
         if take 2 data \<noteq> [35, 33] then (Inr (guestPath, argv), p)
         else case script_interp (take 256 data) of
             None \<Rightarrow> (Inl ENOEXEC, p)
           | Some (interp0, arg) \<Rightarrow> (case followSymlinks interp0 p of (interp, p1) \<Rightarrow>
               (case check_regular interp p1 of
                  (Some e, p2) \<Rightarrow> (Inl e, p2)
                | (None, p2) \<Rightarrow> script_loop n E interp (script_argv interp arg guestPath argv) p2)))"

definition execScript :: "sys_env \<Rightarrow> string \<Rightarrow> string list \<Rightarrow> process \<Rightarrow> (int + string \<times> string list) \<times> process" where
  "execScript = script_loop 4"

section \<open>execve\<close>

text \<open>\<open>trimSlash\<close> leaves one character.\<close>

definition trimSlash :: "string \<Rightarrow> string" where
  "trimSlash s = (let t = trimRightSlash s in if t = '''' then take 1 s else t)"

text \<open>
  The environment is \<open>nil\<close>, and the old one kept, when the pointer is null; an array without an entry is
  \<open>nil\<close> in Go too.
\<close>

definition exec_envp :: "u64 \<Rightarrow> process \<Rightarrow> string list option option \<times> process" where
  "exec_envp envpPtr p =
     (if envpPtr = 0 then (Some None, p)
      else case readCStrArray envpPtr p of
          (None, p1) \<Rightarrow> (None, p1)
        | (Some es, p1) \<Rightarrow> (Some (if es = [] then None else Some es), p1))"

definition exec_image :: "sys_env \<Rightarrow> string \<Rightarrow> string \<Rightarrow> u64 \<Rightarrow> u64 \<Rightarrow> process \<Rightarrow> sys_result \<times> process" where
  "exec_image E path full argvPtr envpPtr p = (case readCStrArray argvPtr p of
       (None, p1) \<Rightarrow> (SysPanic, p1)
     | (Some argv, p1) \<Rightarrow> (case execScript E full (if argv = [] then [path] else argv) p1 of
           (Inl e, p2) \<Rightarrow> (errS e, p2)
         | (Inr (target, args), p2) \<Rightarrow> (case exec_envp envpPtr p2 of
               (None, p3) \<Rightarrow> (SysPanic, p3)
             | (Some envp, p3) \<Rightarrow> (SysExecve target args envp, p3))))"

definition sysExecve :: "sys_env \<Rightarrow> handler" where
  "sysExecve E pathPtr argvPtr envpPtr a3 a4 a5 p0 = (case cstr pathPtr p0 of
       (None, p1) \<Rightarrow> (errS ENOENT, p1)
     | (Some path, p1) \<Rightarrow>
         if path = '''' then (errS ENOENT, p1)
         else (case followSymlinks (if hasPrefix path ''/'' then path else trimSlash (pd_cwd (pr_data p1)) @ ''/'' @ path) p1 of (full, p2) \<Rightarrow>
           (case check_regular full p2 of
              (Some e, p3) \<Rightarrow> (errS e, p3)
            | (None, p3) \<Rightarrow> exec_image E path full argvPtr envpPtr p3)))"

section \<open>fork and wait4\<close>

definition sysFork :: handler where
  "sysFork a0 a1 a2 a3 a4 a5 p = (SysFork False, p)"

definition sysVfork :: handler where
  "sysVfork a0 a1 a2 a3 a4 a5 p = (SysFork True, p)"

definition cloneVM :: u64 where "cloneVM = 0x100"
definition cloneVfork :: u64 where "cloneVfork = 0x4000"
definition cloneThread :: u64 where "cloneThread = 0x10000"

definition sysClone :: handler where
  "sysClone flags a1 a2 a3 a4 a5 p =
     (if flags AND (cloneVM OR cloneThread) \<noteq> 0 then (errS ENOSYS, p) else (SysFork (flags AND cloneVfork \<noteq> 0), p))"

definition sysWait4 :: handler where
  "sysWait4 pid wstatusPtr options a3 a4 a5 p = (case Wait4 (int32 pid) wstatusPtr options p of
     None \<Rightarrow> (SysBlock, p) | Some (r, p1) \<Rightarrow> (SysRet r, p1))"

end
