(* ===== verification/Sys_IO.thy ===== *)
theory Sys_IO
  imports Sys_Files
begin

unbundle bit_operations_syntax

text \<open>
  read, write, readv, writev, pwrite64, lseek and ftruncate of \<open>internal/syscalls/file.go\<close> and
  \<open>misc.go\<close>, with the \<open>Read\<close> and \<open>Write\<close> methods of the kinds of open files in \<open>internal/fds\<close>,
  \<open>internal/devices\<close> and \<open>internal/syscalls\<close>. What a host file, pipe, socket or stream answers is \<open>se_fread\<close>
  and \<open>se_fwrite\<close>.
\<close>

section \<open>Read\<close>

datatype io_result = IoPanic | IoErr int | IoData "u8 list"

text \<open>\<open>make\<close> of \<open>n\<close> bytes, then a read: an error without bytes reads as no bytes.\<close>

definition host_read :: "sys_env \<Rightarrow> nat \<Rightarrow> nat \<Rightarrow> int \<Rightarrow> io_result" where
  "host_read E call k n =
     (if n < 0 \<or> int maxAlloc < n then IoPanic else case se_fread E k call (nat n) of (e, bs) \<Rightarrow> IoData (take (nat n) bs))"

definition sock_read :: "sys_env \<Rightarrow> nat \<Rightarrow> nat \<Rightarrow> int \<Rightarrow> io_result" where
  "sock_read E call k n =
     (if n \<le> 0 then IoData []
      else if int maxAlloc < n then IoPanic
      else case se_fread E k call (nat n) of (e, bs) \<Rightarrow>
        if bs \<noteq> [] then IoData (take (nat n) bs) else if e \<noteq> 0 then IoErr e else IoData [])"

definition stream_read :: "sys_env \<Rightarrow> nat \<Rightarrow> nat \<Rightarrow> string \<Rightarrow> int \<Rightarrow> io_result" where
  "stream_read E call k name n =
     (if name = ''stdin'' then (if n \<le> 0 then IoData [] else host_read E call k n)
      else if name = ''zero'' \<or> name = ''full'' then
        (if n < 0 \<or> int maxAlloc < n then IoPanic else IoData (replicate (nat n) 0))
      else if name = ''random'' \<or> name = ''urandom'' then
        (if n < 0 \<or> int maxAlloc < n then IoPanic else IoData (se_random E (nat n)))
      else IoData [])"

text \<open>
  \<open>file_read fuel E call k n\<close> reads from the open file number \<open>k\<close>. A terminal reads the file behind it,
  which is older, so that \<open>k + 1\<close> is enough fuel. A directory has an error of its own, EIO here.
\<close>

primrec file_read :: "nat \<Rightarrow> sys_env \<Rightarrow> nat \<Rightarrow> nat \<Rightarrow> int \<Rightarrow> process \<Rightarrow> io_result \<times> process" where
  "file_read 0 E call k n p = (IoPanic, p)"
| "file_read (Suc fuel) E call k n p = (case pd_files (pr_data p) k of
       VFSFile _ _ \<Rightarrow> (host_read E call k n, p)
     | TmpFileF _ _ _ \<Rightarrow> (host_read E call k n, p)
     | PipeEndF _ \<Rightarrow> (host_read E call k n, p)
     | SocketF _ _ \<Rightarrow> (sock_read E call k n, p)
     | StreamF name \<Rightarrow> (stream_read E call k name n, p)
     | TtyF _ i _ \<Rightarrow> (case i of None \<Rightarrow> (IoData [], p) | Some s \<Rightarrow> file_read fuel E call s n p)
     | StaticFileF g f \<Rightarrow> (case StaticFile_Read n f of
           None \<Rightarrow> (IoPanic, p)
         | Some (bs, f1) \<Rightarrow> (IoData bs, set_file k (StaticFileF g f1) p))
     | DirHandleF _ \<Rightarrow> (IoErr EIO, p))"

section \<open>Write\<close>

datatype wr_result = WrErr int | WrN int

definition ENOSPC :: int where "ENOSPC = 28"
definition EROFS :: int where "EROFS = 30"
definition EISDIR :: int where "EISDIR = 21"

text \<open>An error of a host file has no number of its own and becomes EIO.\<close>

definition host_write :: "sys_env \<Rightarrow> nat \<Rightarrow> nat \<Rightarrow> u8 list \<Rightarrow> wr_result" where
  "host_write E call k bs = (case se_fwrite E k call bs of (e, n) \<Rightarrow> if e \<noteq> 0 then WrErr EIO else WrN n)"

definition stream_write :: "sys_env \<Rightarrow> nat \<Rightarrow> nat \<Rightarrow> string \<Rightarrow> u8 list \<Rightarrow> wr_result" where
  "stream_write E call k name bs =
     (if name = ''stdout'' \<or> name = ''stderr'' then host_write E call k bs
      else if name = ''full'' then WrErr ENOSPC
      else WrN (int (length bs)))"

primrec file_write :: "nat \<Rightarrow> sys_env \<Rightarrow> nat \<Rightarrow> nat \<Rightarrow> u8 list \<Rightarrow> process \<Rightarrow> wr_result" where
  "file_write 0 E call k bs p = WrErr EIO"
| "file_write (Suc fuel) E call k bs p = (case pd_files (pr_data p) k of
       VFSFile _ _ \<Rightarrow> host_write E call k bs
     | TmpFileF _ _ _ \<Rightarrow> host_write E call k bs
     | PipeEndF _ \<Rightarrow> host_write E call k bs
     | SocketF _ _ \<Rightarrow> (if bs = [] then WrN 0 else case se_fwrite E k call bs of (e, n) \<Rightarrow> if e \<noteq> 0 then WrErr e else WrN (max 0 n))
     | StreamF name \<Rightarrow> stream_write E call k name bs
     | TtyF _ _ o' \<Rightarrow> (case o' of None \<Rightarrow> WrN (int (length bs)) | Some s \<Rightarrow> file_write fuel E call s bs p)
     | StaticFileF _ _ \<Rightarrow> WrErr EROFS
     | DirHandleF _ \<Rightarrow> WrErr EIO)"

section \<open>read and write\<close>

definition with_fd :: "u64 \<Rightarrow> (nat \<Rightarrow> process \<Rightarrow> sys_result \<times> process) \<Rightarrow> process \<Rightarrow> sys_result \<times> process" where
  "with_fd fdNum f p = (case Get (sint fdNum) (pd_fds (pr_data p)) of None \<Rightarrow> (errS EBADF, p) | Some k \<Rightarrow> f k p)"

definition sysRead :: "sys_env \<Rightarrow> handler" where
  "sysRead E fdNum buf count a3 a4 a5 = with_fd fdNum (\<lambda>k p.
     if file_isdir (pd_files (pr_data p) k) then (errS EISDIR, p)
     else case file_read (Suc k) E 0 k (sint count) p of
         (IoPanic, p1) \<Rightarrow> (SysPanic, p1)
       | (IoErr e, p1) \<Rightarrow> (errS e, p1)
       | (IoData bs, p1) \<Rightarrow> put_mem buf bs (retS (int (length bs))) p1)"

definition wr_ret :: "wr_result \<Rightarrow> sys_result" where
  "wr_ret r = (case r of WrErr e \<Rightarrow> errS e | WrN n \<Rightarrow> retS n)"

definition sysWrite :: "sys_env \<Rightarrow> handler" where
  "sysWrite E fdNum buf count a3 a4 a5 = with_fd fdNum (\<lambda>k.
     get_mem buf count (\<lambda>data p. (wr_ret (file_write (Suc k) E 0 k data p), p)))"

definition sysPwrite64 :: "sys_env \<Rightarrow> handler" where
  "sysPwrite64 E fdNum buf count offset a4 a5 = with_fd fdNum (\<lambda>k p. case pd_files (pr_data p) k of
       VFSFile _ _ \<Rightarrow> get_mem buf count (\<lambda>data p. (case se_fpwrite E k data (sint offset) of
           (e, n) \<Rightarrow> if e \<noteq> 0 then errS EIO else retS n, p)) p
     | _ \<Rightarrow> (errS ESPIPE, p))"

definition sysLseek :: "sys_env \<Rightarrow> handler" where
  "sysLseek E fdNum offset whence a3 a4 a5 = with_fd fdNum (\<lambda>k p. case pd_files (pr_data p) k of
       DirHandleF _ \<Rightarrow> (errS EBADF, p)
     | VFSFile _ _ \<Rightarrow> (case se_fseek E k (sint offset) (sint whence) of None \<Rightarrow> errS EINVAL | Some pos \<Rightarrow> retS pos, p)
     | _ \<Rightarrow> (errS ESPIPE, p))"

definition sysFtruncate :: "sys_env \<Rightarrow> handler" where
  "sysFtruncate E fdNum len a2 a3 a4 a5 = with_fd fdNum (\<lambda>k p. case pd_files (pr_data p) k of
       VFSFile _ _ \<Rightarrow> (if se_ftruncate E k (sint len) then SysRet 0 else errS EIO, p)
     | _ \<Rightarrow> (errS EBADF, p))"

section \<open>readv and writev\<close>

text \<open>The iovecs from the one numbered \<open>i\<close> on, as base and length.\<close>

fun read_iovecs :: "nat \<Rightarrow> nat \<Rightarrow> u64 \<Rightarrow> process \<Rightarrow> (u64 \<times> u64) list option \<times> process" where
  "read_iovecs 0 i iov p = (Some [], p)"
| "read_iovecs (Suc n) i iov p = (case on_mem (MemRead (iov + of_nat i * 16) 16) p of
       (Inl _, p1) \<Rightarrow> (None, p1)
     | (Inr d, p1) \<Rightarrow> (case read_iovecs n (i + 1) iov p1 of
           (None, p2) \<Rightarrow> (None, p2)
         | (Some vs, p2) \<Rightarrow> (Some ((le_word d 0 8, le_word d 8 8) # vs), p2)))"

text \<open>\<open>readIovecs\<close>: \<open>make\<close> of the result panics for a count out of range.\<close>

definition with_iovecs :: "u64 \<Rightarrow> u64 \<Rightarrow> ((u64 \<times> u64) list \<Rightarrow> process \<Rightarrow> sys_result \<times> process) \<Rightarrow> process \<Rightarrow> sys_result \<times> process" where
  "with_iovecs iov iovcnt f p =
     (if sint iovcnt < 0 \<or> maxAlloc < 16 * unat iovcnt then (SysPanic, p)
      else case read_iovecs (unat iovcnt) 0 iov p of (None, p1) \<Rightarrow> (errS EFAULT, p1) | (Some vs, p1) \<Rightarrow> f vs p1)"

fun readv_loop :: "sys_env \<Rightarrow> nat \<Rightarrow> nat \<Rightarrow> int \<Rightarrow> (u64 \<times> u64) list \<Rightarrow> process \<Rightarrow> sys_result \<times> process" where
  "readv_loop E k call tot [] p = (retS tot, p)"
| "readv_loop E k call tot ((base, len) # vs) p = (case file_read (Suc k) E call k (sint len) p of
       (IoPanic, p1) \<Rightarrow> (SysPanic, p1)
     | (IoErr e, p1) \<Rightarrow> (if 0 < tot then retS tot else errS e, p1)
     | (IoData bs, p1) \<Rightarrow> (case on_mem (MemWrite base bs) p1 of
           (Inl _, p2) \<Rightarrow> (errS EFAULT, p2)
         | (Inr _, p2) \<Rightarrow> (if length bs < unat len then (retS (tot + int (length bs)), p2)
             else readv_loop E k (call + 1) (tot + int (length bs)) vs p2)))"

definition sysReadv :: "sys_env \<Rightarrow> handler" where
  "sysReadv E fdNum iov iovcnt a3 a4 a5 = with_fd fdNum (\<lambda>k. with_iovecs iov iovcnt (readv_loop E k 0 0))"

fun writev_loop :: "sys_env \<Rightarrow> nat \<Rightarrow> nat \<Rightarrow> int \<Rightarrow> (u64 \<times> u64) list \<Rightarrow> process \<Rightarrow> sys_result \<times> process" where
  "writev_loop E k call tot [] p = (retS tot, p)"
| "writev_loop E k call tot ((base, len) # vs) p = get_mem base len (\<lambda>data p1.
     case file_write (Suc k) E call k data p1 of
       WrErr e \<Rightarrow> (errS e, p1)
     | WrN n \<Rightarrow> writev_loop E k (call + 1) (tot + n) vs p1) p"

definition sysWritev :: "sys_env \<Rightarrow> handler" where
  "sysWritev E fdNum iov iovcnt a3 a4 a5 = with_fd fdNum (\<lambda>k. with_iovecs iov iovcnt (writev_loop E k 0 0))"

end
