(* ===== verification/Sys_Poll.thy ===== *)
theory Sys_Poll
  imports Sys_Files
begin

unbundle bit_operations_syntax

text \<open>
  poll, ppoll, select and pselect6, \<open>internal/syscalls/poll.go\<close> and \<open>select.go\<close>: which descriptors go to
  the host's poll, which are answered at once, and the records written back. \<open>se_poll\<close> is the host's
  poll, from descriptors with their events and a timeout to an error number and the returned events.
\<close>

section \<open>Descriptors the host can wait for\<close>

definition hostFdForFile :: "gofile \<Rightarrow> int option" where
  "hostFdForFile f = (case hostStdioFd f of
       Some h \<Rightarrow> Some h
     | None \<Rightarrow> (case f of PipeEndF h \<Rightarrow> Some h | SocketF h _ \<Rightarrow> Some h | _ \<Rightarrow> None))"

text \<open>Milliseconds from seconds and a fraction of \<open>1000 * unit\<close> parts; both are signed and the sum wraps.\<close>

definition millis :: "u8 list \<Rightarrow> int \<Rightarrow> int" where
  "millis bs unit' = wrap_int (sint (le_word bs 0 8) * 1000 + sint (le_word bs 8 8) sdiv unit')"

section \<open>poll\<close>

abbreviation POLLIN :: "16 word" where "POLLIN \<equiv> 1"
abbreviation POLLOUT :: "16 word" where "POLLOUT \<equiv> 4"
abbreviation POLLERR :: "16 word" where "POLLERR \<equiv> 8"
abbreviation POLLHUP :: "16 word" where "POLLHUP \<equiv> 16"
abbreviation POLLNVAL :: "16 word" where "POLLNVAL \<equiv> 32"

text \<open>What one entry comes to: an answer at once, or a question to the host.\<close>

datatype poll_kind = PollNow "16 word" | PollHost int "16 word"

definition poll_fd :: "u8 list \<Rightarrow> int" where
  "poll_fd e = int32 (le_word e 0 4)"

definition poll_events :: "u8 list \<Rightarrow> 16 word" where
  "poll_events e = ucast (le_word e 4 2)"

definition poll_entry :: "process \<Rightarrow> u8 list \<Rightarrow> poll_kind" where
  "poll_entry p e =
     (let fd = poll_fd e; events = poll_events e in
      if fd < 0 then PollNow 0
      else case open_file fd p of
          None \<Rightarrow> PollNow POLLNVAL
        | Some f \<Rightarrow> (case hostFdForFile f of
              Some h \<Rightarrow> PollHost h events
            | None \<Rightarrow> PollNow ((events AND POLLIN) OR (events AND POLLOUT))))"

fun host_polls :: "poll_kind list \<Rightarrow> (int \<times> 16 word) list" where
  "host_polls [] = []"
| "host_polls (PollHost h ev # ks) = (h, ev) # host_polls ks"
| "host_polls (PollNow r # ks) = host_polls ks"

fun merge_polls :: "poll_kind list \<Rightarrow> 16 word list \<Rightarrow> 16 word list" where
  "merge_polls [] rs = []"
| "merge_polls (PollNow r # ks) rs = r # merge_polls ks rs"
| "merge_polls (PollHost h ev # ks) [] = 0 # merge_polls ks []"
| "merge_polls (PollHost h ev # ks) (r # rs) = r # merge_polls ks rs"

definition immediate :: "poll_kind list \<Rightarrow> bool" where
  "immediate ks \<longleftrightarrow> list_ex (\<lambda>k. case k of PollNow r \<Rightarrow> r \<noteq> 0 | PollHost _ _ \<Rightarrow> False) ks"

text \<open>The host's error number and the answers to all entries; the host is asked only when there is a question.\<close>

definition poll_all :: "sys_env \<Rightarrow> poll_kind list \<Rightarrow> int \<Rightarrow> int \<times> 16 word list" where
  "poll_all E ks timeoutMs =
     (if host_polls ks = [] then (0, merge_polls ks [])
      else case se_poll E (host_polls ks) (if immediate ks then 0 else timeoutMs) of (e, rs) \<Rightarrow> (e, merge_polls ks rs))"

definition poll_record :: "u8 list \<Rightarrow> 16 word \<Rightarrow> u8 list" where
  "poll_record e r = take 6 e @ u64ToLE (ucast r) 2"

definition entries_of :: "nat \<Rightarrow> u8 list \<Rightarrow> u8 list list" where
  "entries_of n raw = map (\<lambda>i. take 8 (drop (8 * i) raw)) [0..<n]"

definition doPoll :: "sys_env \<Rightarrow> u64 \<Rightarrow> u64 \<Rightarrow> int \<Rightarrow> process \<Rightarrow> sys_result \<times> process" where
  "doPoll E fdsPtr nfds timeoutMs p =
     (if nfds = 0 then (if timeoutMs < 0 then SysBlock else SysRet 0, p)
      else if sint (nfds * 8) < 0 \<or> maxAlloc < unat (nfds * 8) then (SysPanic, p)
      else case on_mem (MemRead fdsPtr (unat (nfds * 8))) p of
          (Inl _, p1) \<Rightarrow> (errS EFAULT, p1)
        | (Inr raw, p1) \<Rightarrow>
            if maxAlloc < 2 * unat nfds then (SysPanic, p1)
            else (let es = entries_of (unat nfds) raw in
              case poll_all E (map (poll_entry p1) es) timeoutMs of (e, revents) \<Rightarrow>
                if e \<noteq> 0 then (errS e, p1)
                else put_mem fdsPtr (concat (map2 poll_record es revents)) (retS (int (length (filter (\<lambda>r. r \<noteq> 0) revents)))) p1))"

definition sysPoll :: "sys_env \<Rightarrow> handler" where
  "sysPoll E fdsPtr nfds timeout a3 a4 a5 = doPoll E fdsPtr nfds (sint timeout)"

definition sysPpoll :: "sys_env \<Rightarrow> handler" where
  "sysPpoll E fdsPtr nfds tsPtr sigmaskPtr sigsetsize a5 p =
     (if tsPtr = 0 then doPoll E fdsPtr nfds (- 1) p
      else case on_mem (MemRead tsPtr 16) p of
          (Inl _, p1) \<Rightarrow> (errS EFAULT, p1)
        | (Inr buf, p1) \<Rightarrow> doPoll E fdsPtr nfds (max 0 (millis buf 1000000)) p1)"

section \<open>select\<close>

abbreviation fdSetBytes :: nat where "fdSetBytes \<equiv> 128"

definition fdSetIsSet :: "u8 list option \<Rightarrow> int \<Rightarrow> bool" where
  "fdSetIsSet st fd = (case st of
       None \<Rightarrow> False
     | Some bs \<Rightarrow> 0 \<le> fd \<and> fd < 1024 \<and> bit (bs ! nat (fd div 8)) (nat (fd mod 8)))"

text \<open>The bitmap of a list of descriptors.\<close>

definition fdSet :: "int list \<Rightarrow> u8 list" where
  "fdSet fds = map (\<lambda>i. foldr (\<lambda>k b. if int (8 * i + k) \<in> set fds then b OR push_bit k 1 else b) [0..<8] 0) [0..<fdSetBytes]"

definition isAlwaysReadyFile :: "gofile \<Rightarrow> bool" where
  "isAlwaysReadyFile f = (case f of VFSFile _ _ \<Rightarrow> True | StaticFileF _ _ \<Rightarrow> True | DirHandleF _ \<Rightarrow> True | _ \<Rightarrow> False)"

text \<open>The questions for one descriptor: whether they watch writing, and what goes to the host.\<close>

definition watch_fd :: "u8 list option \<Rightarrow> u8 list option \<Rightarrow> process \<Rightarrow> int \<Rightarrow> (int \<times> bool \<times> int \<times> 16 word) list" where
  "watch_fd rd wr p fd =
     (case map_option hostFdForFile (open_file fd p) of
        Some (Some h) \<Rightarrow>
          (if fdSetIsSet rd fd then [(fd, False, h, POLLIN OR POLLERR)] else []) @
          (if fdSetIsSet wr fd then [(fd, True, h, POLLOUT OR POLLERR)] else [])
      | _ \<Rightarrow> [])"

definition ready_now :: "u8 list option \<Rightarrow> u8 list option \<Rightarrow> process \<Rightarrow> int \<Rightarrow> bool" where
  "ready_now rd wr p fd =
     ((fdSetIsSet rd fd \<or> fdSetIsSet wr fd) \<and> (case open_file fd p of None \<Rightarrow> False | Some f \<Rightarrow> isAlwaysReadyFile f))"

text \<open>The answers of the host: a descriptor counts, and is marked, for its first answer only.\<close>

fun select_answers :: "((int \<times> bool \<times> int \<times> 16 word) \<times> 16 word) list \<Rightarrow> int list \<Rightarrow> (int \<times> bool) list" where
  "select_answers [] done' = []"
| "select_answers (((fd, w, h, ev), rv) # xs) done' =
     (if fd \<in> set done' then select_answers xs done'
      else if (if w then rv AND (POLLOUT OR POLLERR) \<noteq> 0 else rv AND (POLLIN OR POLLERR OR POLLHUP) \<noteq> 0)
        then (fd, w) # select_answers xs (fd # done')
      else select_answers xs done')"

definition read_set :: "u64 \<Rightarrow> process \<Rightarrow> (int + u8 list option) \<times> process" where
  "read_set ptr p = (if ptr = 0 then (Inr None, p)
     else case on_mem (MemRead ptr fdSetBytes) p of (Inl _, p1) \<Rightarrow> (Inl EFAULT, p1) | (Inr b, p1) \<Rightarrow> (Inr (Some b), p1))"

definition write_set :: "u64 \<Rightarrow> u8 list \<Rightarrow> process \<Rightarrow> (int + unit) \<times> process" where
  "write_set ptr bs p = (if ptr = 0 then (Inr (), p)
     else case on_mem (MemWrite ptr bs) p of (Inl _, p1) \<Rightarrow> (Inl EFAULT, p1) | (Inr _, p1) \<Rightarrow> (Inr (), p1))"

text \<open>The descriptors that are ready: the ones of the always-ready kinds, then the ones the host reports.\<close>

definition select_ready :: "sys_env \<Rightarrow> nat \<Rightarrow> u8 list option \<Rightarrow> u8 list option \<Rightarrow> int \<Rightarrow> process \<Rightarrow> int list \<times> (int \<times> bool) list" where
  "select_ready E n rd wr timeoutMs p =
     (let fds = map int [0..<n]; now = filter (ready_now rd wr p) fds; ws = concat (map (watch_fd rd wr p) fds);
          wait = (if now \<noteq> [] then 0 else max 0 timeoutMs);
          revents = (if ws = [] then [] else snd (se_poll E (map (\<lambda>(fd, w, h, ev). (h, ev)) ws) wait))
      in (now, select_answers (zip ws revents) []))"

definition doSelect :: "sys_env \<Rightarrow> int \<Rightarrow> u64 \<Rightarrow> u64 \<Rightarrow> u64 \<Rightarrow> int \<Rightarrow> process \<Rightarrow> (int + int \<times> int) \<times> process" where
  "doSelect E nfds readPtr writePtr exceptPtr timeoutMs =
     (if nfds < 0 \<or> 1024 < nfds then fail EINVAL
      else bindE (read_set readPtr) (\<lambda>rd. bindE (read_set writePtr) (\<lambda>wr. bindE (read_set exceptPtr) (\<lambda>ex.
        bindE (getS (select_ready E (nat nfds) rd wr timeoutMs)) (\<lambda>(now, host).
          let outRead = filter (fdSetIsSet rd) now @ map fst (filter (\<lambda>(fd, w). \<not> w) host);
              outWrite = filter (fdSetIsSet wr) now @ map fst (filter (\<lambda>(fd, w). w) host);
              left = (if 0 \<le> timeoutMs then max 0 (timeoutMs - se_elapsed E) else timeoutMs)
          in bindE (write_set readPtr (fdSet outRead)) (\<lambda>_. bindE (write_set writePtr (fdSet outWrite)) (\<lambda>_.
             bindE (write_set exceptPtr (fdSet [])) (\<lambda>_. ret (int (length now + length host), left)))))))))"

definition timeval_bytes :: "int \<Rightarrow> u8 list" where
  "timeval_bytes left = (if left < 0 then replicate 16 0
     else u64ToLE (word_of_int (left div 1000)) 8 @ u64ToLE (word_of_int (left mod 1000 * 1000)) 8)"

definition select_ret :: "u64 \<Rightarrow> (int + int \<times> int) \<times> process \<Rightarrow> sys_result \<times> process" where
  "select_ret timeoutPtr r = (case r of
       (Inl e, p) \<Rightarrow> (errS e, p)
     | (Inr (n, left), p) \<Rightarrow> if timeoutPtr = 0 then (retS n, p) else put_mem timeoutPtr (timeval_bytes left) (retS n) p)"

definition sysSelect :: "sys_env \<Rightarrow> handler" where
  "sysSelect E nfds readPtr writePtr exceptPtr timeoutPtr a5 p =
     (if timeoutPtr = 0 then select_ret 0 (doSelect E (sint nfds) readPtr writePtr exceptPtr (- 1) p)
      else case on_mem (MemRead timeoutPtr 16) p of
          (Inl _, p1) \<Rightarrow> (errS EFAULT, p1)
        | (Inr tv, p1) \<Rightarrow> select_ret timeoutPtr (doSelect E (sint nfds) readPtr writePtr exceptPtr (millis tv 1000) p1))"

definition sysPselect6 :: "sys_env \<Rightarrow> handler" where
  "sysPselect6 E nfds readPtr writePtr exceptPtr tsPtr sigmaskPtr p =
     (if tsPtr = 0 then select_ret 0 (doSelect E (sint nfds) readPtr writePtr exceptPtr (- 1) p)
      else case on_mem (MemRead tsPtr 16) p of
          (Inl _, p1) \<Rightarrow> (errS EFAULT, p1)
        | (Inr ts, p1) \<Rightarrow> select_ret 0 (doSelect E (sint nfds) readPtr writePtr exceptPtr (max 0 (millis ts 1000000)) p1))"

end
