(* ===== verification/Sys_Socket.thy ===== *)
theory Sys_Socket
  imports Sys_Files
begin

unbundle bit_operations_syntax

text \<open>
  The socket system calls of \<open>internal/syscalls/socket_impl.go\<close> on a Linux host. Addresses and options
  pass through as bytes; \<open>se_sock\<close> has the host's answers.
\<close>

section \<open>Sockets\<close>

definition ENOTSOCK :: int where "ENOTSOCK = 88"
definition ESOCKTNOSUPPORT :: int where "ESOCKTNOSUPPORT = 94"
definition EAFNOSUPPORT :: int where "EAFNOSUPPORT = 97"
definition EMSGSIZE :: int where "EMSGSIZE = 90"

abbreviation SOCK_NONBLOCK_C :: u64 where "SOCK_NONBLOCK_C \<equiv> 0x800"
abbreviation SOCK_CLOEXEC_C :: u64 where "SOCK_CLOEXEC_C \<equiv> 0x80000"

definition guestDomain :: "u64 \<Rightarrow> bool" where
  "guestDomain family \<longleftrightarrow> family = 1 \<or> family = 2 \<or> family = 10"

text \<open>What every handler starts with: the host descriptor of a socket.\<close>

definition with_sock :: "u64 \<Rightarrow> (int \<Rightarrow> process \<Rightarrow> sys_result \<times> process) \<Rightarrow> process \<Rightarrow> sys_result \<times> process" where
  "with_sock fdNum f p = (case open_file (sint fdNum) p of
       None \<Rightarrow> (errS EBADF, p)
     | Some (SocketF h nb) \<Rightarrow> f h p
     | Some _ \<Rightarrow> (errS ENOTSOCK, p))"

text \<open>A host call whose result is dropped, and one whose result is returned.\<close>

definition ret0 :: "sock_answer \<Rightarrow> sys_result" where
  "ret0 a = (if sa_errno a \<noteq> 0 then errS (sa_errno a) else SysRet 0)"

text \<open>A buffer of \<open>n\<close> zero bytes whose first bytes the host fills.\<close>

definition filled :: "nat \<Rightarrow> u8 list \<Rightarrow> u8 list" where
  "filled n bs = take n (bs @ replicate n 0)"

definition sysSocket :: "sys_env \<Rightarrow> handler" where
  "sysSocket E domain sockType protocol a3 a4 a5 p =
     (let t = sockType AND 0xFF in
      if \<not> guestDomain domain then (errS EAFNOSUPPORT, p)
      else if t \<noteq> 1 \<and> t \<noteq> 2 then (errS ESOCKTNOSUPPORT, p)
      else let a = se_sock E (HSocket domain t protocol); h = sint (sa_ret a); nb = sockType AND SOCK_NONBLOCK_C \<noteq> 0;
               e = (if nb then se_setSockFlags E h O_NONBLOCK else 0) in
        if sa_errno a \<noteq> 0 then (errS (sa_errno a), p)
        else if e \<noteq> 0 then (errS e, p)
        else alloc_ret (sockType AND SOCK_CLOEXEC_C \<noteq> 0) (SocketF h nb) p)"

section \<open>Addresses\<close>

definition bad_addrlen :: "u64 \<Rightarrow> bool" where
  "bad_addrlen n \<longleftrightarrow> n < 2 \<or> 128 < n"

definition sysConnect :: "sys_env \<Rightarrow> handler" where
  "sysConnect E fdNum addrPtr addrlen a3 a4 a5 = with_sock fdNum (\<lambda>h p.
     if bad_addrlen addrlen then (errS EINVAL, p)
     else get_mem addrPtr addrlen (\<lambda>blob p1.
       if \<not> guestDomain (le_word blob 0 2) then (errS EAFNOSUPPORT, p1) else (ret0 (se_sock E (HConnect h blob)), p1)) p)"

definition sysBind :: "sys_env \<Rightarrow> handler" where
  "sysBind E fdNum addrPtr addrlen a3 a4 a5 = with_sock fdNum (\<lambda>h p.
     if bad_addrlen addrlen then (errS EINVAL, p)
     else get_mem addrPtr addrlen (\<lambda>blob p1. (ret0 (se_sock E (HBind h blob)), p1)) p)"

definition sysListen :: "sys_env \<Rightarrow> handler" where
  "sysListen E fdNum backlog a2 a3 a4 a5 = with_sock fdNum (\<lambda>h p. (ret0 (se_sock E (HListen h backlog)), p))"

text \<open>The address the host has for a socket, cut to the guest's buffer; failures are dropped.\<close>

definition writePeerAddr :: "sys_env \<Rightarrow> bool \<Rightarrow> int \<Rightarrow> u64 \<Rightarrow> u64 \<Rightarrow> process \<Rightarrow> process" where
  "writePeerAddr E peer h addrPtr lenPtr p = (case on_mem (MemRead lenPtr 4) p of
       (Inl _, p1) \<Rightarrow> p1
     | (Inr lb, p1) \<Rightarrow> (let capLen = unat (leToU64 lb) in
         if capLen < 2 \<or> 128 < capLen then p1
         else let a = se_sock E (HGetName peer h capLen); n = min (unat (sa_addrlen a)) capLen in
           if sa_errno a \<noteq> 0 then p1
           else case on_mem (MemWrite addrPtr (take n (filled capLen (sa_addr a)))) p1 of
               (Inl _, p2) \<Rightarrow> p2
             | (Inr _, p2) \<Rightarrow> snd (on_mem (MemWrite lenPtr (u64ToLE (of_nat n) 4)) p2)))"

text \<open>Both \<open>accept\<close> and \<open>accept4\<close>: the flags are the fourth argument register for the two of them.\<close>

definition sysAccept :: "sys_env \<Rightarrow> handler" where
  "sysAccept E fdNum addrPtr lenPtr flags a4 a5 = with_sock fdNum (\<lambda>h p.
     let a = se_sock E (HAccept h flags); nh = sint (sa_ret a) in
     if sa_errno a \<noteq> 0 then (errS (sa_errno a), p)
     else case alloc_ret (flags AND SOCK_CLOEXEC_C \<noteq> 0) (SocketF nh (flags AND SOCK_NONBLOCK_C \<noteq> 0)) p of
         (r, p1) \<Rightarrow> (r, if addrPtr \<noteq> 0 \<and> lenPtr \<noteq> 0 then writePeerAddr E True nh addrPtr lenPtr p1 else p1))"

definition sysGetsockname :: "sys_env \<Rightarrow> handler" where
  "sysGetsockname E fdNum addrPtr lenPtr a3 a4 a5 = with_sock fdNum (\<lambda>h p. (SysRet 0, writePeerAddr E False h addrPtr lenPtr p))"

definition sysGetpeername :: "sys_env \<Rightarrow> handler" where
  "sysGetpeername E fdNum addrPtr lenPtr a3 a4 a5 = with_sock fdNum (\<lambda>h p. (SysRet 0, writePeerAddr E True h addrPtr lenPtr p))"

section \<open>Data\<close>

definition ret_n :: "sock_answer \<Rightarrow> sys_result" where
  "ret_n a = (if sa_errno a \<noteq> 0 then errS (sa_errno a) else SysRet (sa_ret a))"

definition sysSendto :: "sys_env \<Rightarrow> handler" where
  "sysSendto E fdNum bufPtr len flags addrPtr addrlen = with_sock fdNum (\<lambda>h p.
     if sint len < 0 then (errS EINVAL, p)
     else get_mem bufPtr len (\<lambda>data p1.
       if addrPtr = 0 then (ret_n (se_sock E (HSend h data flags None addrlen)), p1)
       else if bad_addrlen addrlen then (errS EINVAL, p1)
       else get_mem addrPtr addrlen (\<lambda>dest p2. (ret_n (se_sock E (HSend h data flags (Some dest) addrlen)), p2)) p1) p)"

text \<open>The source address goes back cut to 128 bytes and to the length the guest has at that time.\<close>

definition put_source :: "u64 \<Rightarrow> u64 \<Rightarrow> sock_answer \<Rightarrow> process \<Rightarrow> sys_result \<times> process" where
  "put_source addrPtr lenPtr a p = (case on_mem (MemRead lenPtr 4) p of
       (Inl _, p1) \<Rightarrow> (errS EFAULT, p1)
     | (Inr lb, p1) \<Rightarrow>
         (let n = min (min (unat (sa_addrlen a)) 128) (unat (leToU64 lb));
              put_len = put_mem lenPtr (u64ToLE (ucast (sa_addrlen a)) 4) (SysRet (sa_ret a)) in
          if n = 0 then put_len p1
          else case on_mem (MemWrite addrPtr (take n (filled 128 (sa_addr a)))) p1 of
              (Inl _, p2) \<Rightarrow> (errS EFAULT, p2)
            | (Inr _, p2) \<Rightarrow> put_len p2))"

definition finish_recv :: "u64 \<Rightarrow> nat \<Rightarrow> u64 \<Rightarrow> u64 \<Rightarrow> sock_answer \<Rightarrow> process \<Rightarrow> sys_result \<times> process" where
  "finish_recv bufPtr n addrPtr lenPtr a p =
     (let k = min n (unat (sa_ret a));
          rest = (\<lambda>p. if addrPtr = 0 then (SysRet (sa_ret a), p) else put_source addrPtr lenPtr a p) in
      if sa_errno a \<noteq> 0 then (errS (sa_errno a), p)
      else if k = 0 then rest p
      else case on_mem (MemWrite bufPtr (take k (filled n (sa_data a)))) p of
          (Inl _, p1) \<Rightarrow> (errS EFAULT, p1)
        | (Inr _, p1) \<Rightarrow> rest p1)"

definition sysRecvfrom :: "sys_env \<Rightarrow> handler" where
  "sysRecvfrom E fdNum bufPtr len flags addrPtr lenPtr = with_sock fdNum (\<lambda>h p.
     if sint len < 0 then (errS EINVAL, p)
     else if addrPtr \<noteq> 0 \<and> lenPtr = 0 then (errS EFAULT, p)
     else if maxAlloc < unat len then (SysPanic, p)
     else if addrPtr = 0 then finish_recv bufPtr (unat len) addrPtr lenPtr (se_sock E (HRecv h (unat len) flags None)) p
     else case on_mem (MemRead lenPtr 4) p of
         (Inl _, p1) \<Rightarrow> (errS EFAULT, p1)
       | (Inr lb, p1) \<Rightarrow> finish_recv bufPtr (unat len) addrPtr lenPtr
           (se_sock E (HRecv h (unat len) flags (Some (min (unat (leToU64 lb)) 128)))) p1)"

definition sysShutdown :: "sys_env \<Rightarrow> handler" where
  "sysShutdown E fdNum how a2 a3 a4 a5 = with_sock fdNum (\<lambda>h p.
     if 2 < how then (errS EINVAL, p) else (ret0 (se_sock E (HShutdown h how)), p))"

section \<open>Pairs and options\<close>

text \<open>When the flags of a new pair cannot be set its sockets are closed, but their descriptors stay.\<close>

definition sysSocketpair :: "sys_env \<Rightarrow> handler" where
  "sysSocketpair E domain sockType protocol svPtr a4 a5 p =
     (if \<not> guestDomain domain then (errS EAFNOSUPPORT, p)
      else let a = se_sock E (HSocketPair domain (sockType AND 0xFF) protocol); h0 = sint (sa_ret a); h1 = sa_ret2 a;
               nb = sockType AND SOCK_NONBLOCK_C \<noteq> 0; k = pd_nextFile (pr_data p) in
        if sa_errno a \<noteq> 0 then (errS (sa_errno a), p)
        else case alloc_file (SocketF h0 False) p of (fd0, p1) \<Rightarrow> (case alloc_file (SocketF h1 False) p1 of (fd1, p2) \<Rightarrow>
          let set2 = (\<lambda>f g. set_file (k + 1) g (set_file k f p2));
              e = (if nb then (let e0 = se_setSockFlags E h0 O_NONBLOCK in if e0 \<noteq> 0 then e0 else se_setSockFlags E h1 O_NONBLOCK) else 0) in
          if e \<noteq> 0 then (errS e, set2 (SocketF (- 1) False) (SocketF (- 1) False))
          else put_mem svPtr (fd_bytes fd0 @ fd_bytes fd1) (SysRet 0) (set2 (SocketF h0 nb) (SocketF h1 nb))))"

definition sysSetsockopt :: "sys_env \<Rightarrow> handler" where
  "sysSetsockopt E fdNum level optname optvalPtr optlen a5 = with_sock fdNum (\<lambda>h p.
     if 0 < optlen then get_mem optvalPtr optlen (\<lambda>blob p1. (ret0 (se_sock E (HSetOpt h level optname blob)), p1)) p
     else (ret0 (se_sock E (HSetOpt h level optname [])), p))"

text \<open>SO_ERROR of SOL_SOCKET is always 0.\<close>

definition get_so_error :: "u64 \<Rightarrow> u64 \<Rightarrow> process \<Rightarrow> sys_result \<times> process" where
  "get_so_error optvalPtr optlenPtr p =
     (if optlenPtr = 0 then (errS EFAULT, p)
      else case on_mem (MemWrite optlenPtr (u64ToLE 4 4)) p of
          (Inl _, p1) \<Rightarrow> (errS EFAULT, p1)
        | (Inr _, p1) \<Rightarrow> if optvalPtr = 0 then (SysRet 0, p1) else put_mem optvalPtr (replicate 4 0) (SysRet 0) p1)"

definition sysGetsockopt :: "sys_env \<Rightarrow> handler" where
  "sysGetsockopt E fdNum level optname optvalPtr optlenPtr a5 = with_sock fdNum (\<lambda>h p.
     if level = 1 \<and> optname = 4 then get_so_error optvalPtr optlenPtr p
     else case on_mem (MemRead optlenPtr 4) p of
         (Inl _, p1) \<Rightarrow> (errS EFAULT, p1)
       | (Inr lb, p1) \<Rightarrow> (let n = unat (leToU64 lb) in
           if n = 0 \<or> 1024 < n then (errS EINVAL, p1)
           else let a = se_sock E (HGetOpt h level optname n); out = take (unat (sa_addrlen a)) (filled n (sa_data a)) in
             if sa_errno a \<noteq> 0 then (errS (sa_errno a), p1)
             else case on_mem (MemWrite optvalPtr out) p1 of
                 (Inl _, p2) \<Rightarrow> (errS EFAULT, p2)
               | (Inr _, p2) \<Rightarrow> put_mem optlenPtr (u64ToLE (ucast (sa_addrlen a)) 4) (SysRet 0) p2))"

definition sysSendmsg :: handler where
  "sysSendmsg fdNum msgPtr flags a3 a4 a5 p = (errS ENOSYS, p)"

section \<open>recvmsg\<close>

text \<open>The sum of the lengths of the first \<open>n\<close> iovecs, from the one numbered \<open>i\<close> on; it wraps.\<close>

fun iov_total :: "nat \<Rightarrow> nat \<Rightarrow> u64 \<Rightarrow> int \<Rightarrow> process \<Rightarrow> int option \<times> process" where
  "iov_total 0 i iovPtr tot p = (Some tot, p)"
| "iov_total (Suc n) i iovPtr tot p = (case on_mem (MemRead (iovPtr + of_nat (i * 16) + 8) 8) p of
       (Inl _, p1) \<Rightarrow> (None, p1)
     | (Inr lens, p1) \<Rightarrow> iov_total n (i + 1) iovPtr (wrap_int (tot + sint (leToU64 lens))) p1)"

text \<open>
  Handing out the bytes: every iovec gets the start of the buffer. The result is an error, \<open>None\<close> for
  none. A negative length panics.
\<close>

fun scatter :: "nat \<Rightarrow> nat \<Rightarrow> u64 \<Rightarrow> u8 list \<Rightarrow> nat \<Rightarrow> process \<Rightarrow> sys_result option \<times> process" where
  "scatter 0 i iovPtr buf remaining p = (None, p)"
| "scatter (Suc n) i iovPtr buf remaining p =
     (if remaining = 0 then (None, p)
      else case on_mem (MemRead (iovPtr + of_nat (i * 16)) 16) p of
          (Inl _, p1) \<Rightarrow> (Some (errS EFAULT), p1)
        | (Inr ihdr, p1) \<Rightarrow>
            if sint (le_word ihdr 8 8) < 0 then (Some SysPanic, p1)
            else let l = min (unat (le_word ihdr 8 8)) remaining in
              case on_mem (MemWrite (le_word ihdr 0 8) (take l buf)) p1 of
                (Inl _, p2) \<Rightarrow> (Some (errS EFAULT), p2)
              | (Inr _, p2) \<Rightarrow> scatter n (i + 1) iovPtr buf (remaining - l) p2)"

definition put_range :: "nat \<Rightarrow> u8 list \<Rightarrow> u8 list \<Rightarrow> u8 list" where
  "put_range off new bs = take off bs @ new @ drop (off + length new) bs"

definition finish_msg :: "u64 \<Rightarrow> u8 list \<Rightarrow> nat \<Rightarrow> sock_answer \<Rightarrow> process \<Rightarrow> sys_result \<times> process" where
  "finish_msg msgPtr hdr n a p =
     (let msgName = le_word hdr 0 8; w = min (unat (sa_addrlen a)) (unat (le_word hdr 8 4));
          rest = put_mem msgPtr (put_range 48 (replicate 4 0) (put_range 8 (u64ToLE (ucast (sa_addrlen a)) 4) hdr)) (retS (int n)) in
      if msgName = 0 \<or> w = 0 then rest p
      else if 128 < w then (SysPanic, p)
      else case on_mem (MemWrite msgName (take w (filled 128 (sa_addr a)))) p of
          (Inl _, p1) \<Rightarrow> (errS EFAULT, p1)
        | (Inr _, p1) \<Rightarrow> rest p1)"

definition sysRecvmsg :: "sys_env \<Rightarrow> handler" where
  "sysRecvmsg E fdNum msgPtr flags a3 a4 a5 = with_sock fdNum (\<lambda>h. get_mem msgPtr 56 (\<lambda>hdr p.
     let iovPtr = le_word hdr 16 8; iovs = nat (sint (le_word hdr 24 8)) in
     case iov_total (min iovs 1024) 0 iovPtr 0 p of
       (None, p1) \<Rightarrow> (errS EFAULT, p1)
     | (Some tot, p1) \<Rightarrow>
         if tot < 0 \<or> 2 ^ 20 < tot then (errS EMSGSIZE, p1)
         else let a = se_sock E (HRecv h (nat tot) flags (if le_word hdr 0 8 = 0 then None else Some 128));
                  n = min (unat (sa_ret a)) (nat tot); buf = filled (nat tot) (sa_data a) in
           if sa_errno a \<noteq> 0 then (errS (sa_errno a), p1)
           else case scatter iovs 0 iovPtr buf n p1 of
               (Some r, p2) \<Rightarrow> (r, p2)
             | (None, p2) \<Rightarrow> finish_msg msgPtr hdr n a p2))"

end
