(* ===== verification/Sys_Dispatch.thy ===== *)
theory Sys_Dispatch
  imports Sys_Exec Sys_IO Sys_Poll Sys_Socket
begin

text \<open>
  \<open>Dispatch\<close> of \<open>internal/syscalls/syscalls.go\<close>, with the table that the \<open>init\<close> functions of the package
  fill: every handler of the package by its number. The handlers that only answer 0 (signals,
  scheduling, sleeping, synchronisation) are \<open>sysNothing\<close>.
\<close>

definition syscall_table :: "sys_env \<Rightarrow> (u64 \<times> handler) list" where
  "syscall_table E =
     [(0, sysRead E), (1, sysWrite E), (2, sysOpen E), (3, sysClose), (4, sysStat E), (5, sysFstat E), (6, sysLstat E),
      (7, sysPoll E), (8, sysLseek E), (9, sysMmap), (10, sysMprotect), (11, sysMunmap), (12, sysBrk), (13, sysNothing),
      (14, sysNothing), (15, sysNothing), (16, sysIoctl E), (17, sysPread64), (18, sysPwrite64 E), (19, sysReadv E),
      (20, sysWritev E), (21, sysAccess E), (22, sysPipe E), (23, sysSelect E), (24, sysNothing), (32, sysDup), (33, sysDup2),
      (35, sysNothing), (36, sysGetitimer), (37, sysNothing), (38, sysSetitimer), (39, sysGetpid), (41, sysSocket E),
      (42, sysConnect E), (43, sysAccept E), (44, sysSendto E), (45, sysRecvfrom E), (46, sysSendmsg), (47, sysRecvmsg E),
      (48, sysShutdown E), (49, sysBind E), (50, sysListen E), (51, sysGetsockname E), (52, sysGetpeername E),
      (53, sysSocketpair E), (54, sysSetsockopt E), (55, sysGetsockopt E), (56, sysClone), (57, sysFork), (58, sysVfork),
      (59, sysExecve E), (60, sysExit), (61, sysWait4), (62, sysNothing), (63, sysUname), (72, sysFcntl E), (73, sysNothing),
      (74, sysNothing), (77, sysFtruncate E), (79, sysGetcwd), (80, sysChdir), (81, sysFchdir), (82, sysRename), (83, sysMkdir),
      (84, sysRmdir), (85, sysCreat E), (86, sysLink), (87, sysUnlink), (88, sysSymlink), (89, sysReadlink), (90, sysChmod),
      (92, sysChown), (93, sysFchown), (94, sysLchown), (95, sysUmask), (96, sysGettimeofday), (97, sysGetrlimit), (102, sysGetuid),
      (104, sysGetgid), (105, sysSetuid), (106, sysSetgid), (107, sysGeteuid), (108, sysGetegid), (109, sysSetpgid E),
      (110, sysGetppid), (111, sysGetpgrp E), (112, sysSetsid E), (113, sysSetreuid), (114, sysSetregid), (115, sysGetgroups),
      (116, sysSetgroups), (117, sysSetresuid), (118, sysGetresuid), (119, sysSetresgid), (120, sysGetresgid), (121, sysGetpgid E),
      (122, sysSetfsuid), (123, sysSetfsgid), (124, sysGetsid E), (137, sysStatfs), (155, sysPivotRoot), (158, sysArchPrctl),
      (161, sysChroot), (162, sysNothing), (165, sysMount E), (166, sysUmount2), (170, sysSethostname), (171, sysNothing),
      (186, sysGetpid), (201, sysTime), (204, sysSchedGetaffinity), (217, sysGetdents64), (218, sysSetTidAddress),
      (228, sysClockGettime), (229, sysClockGetres), (231, sysExitGroup), (234, sysNothing), (235, sysUtimes), (257, sysOpenat E),
      (258, sysMkdirat), (260, sysFchownat), (262, sysFstatat E), (263, sysUnlinkat), (264, sysRenameat), (265, sysLinkat),
      (266, sysSymlinkat), (267, sysReadlinkat), (269, sysFaccessat E), (270, sysPselect6 E), (271, sysPpoll E), (273, sysNothing),
      (280, sysUtimensat), (288, sysAccept E), (293, sysPipe2 E), (302, sysPrlimit64), (318, sysGetrandom E), (334, sysNothing),
      (439, sysFaccessat E)]"

definition sysUnimplemented :: "process \<Rightarrow> sys_result \<times> process" where
  "sysUnimplemented p = (errS ENOSYS, p)"

definition Dispatch :: "sys_env \<Rightarrow> u64 \<Rightarrow> u64 list \<Rightarrow> process \<Rightarrow> sys_result \<times> process" where
  "Dispatch E num args p = (case map_of (syscall_table E) num of
       None \<Rightarrow> sysUnimplemented p
     | Some h \<Rightarrow> h (args ! 0) (args ! 1) (args ! 2) (args ! 3) (args ! 4) (args ! 5) p)"

text \<open>No number is registered twice, which \<open>register\<close> would answer with a panic when the program starts.\<close>

fun ascending :: "u64 list \<Rightarrow> bool" where
  "ascending (a # b # xs) \<longleftrightarrow> a < b \<and> ascending (b # xs)"
| "ascending _ \<longleftrightarrow> True"

lemma ascending_sorted: "ascending xs \<Longrightarrow> sorted_wrt (<) xs"
  by (induction xs rule: ascending.induct) force+

lemma table_distinct: "distinct (map fst (syscall_table E))"
proof -
  have "ascending (map fst (syscall_table E))" by (simp add: syscall_table_def)
  then have "sorted_wrt (<) (map fst (syscall_table E))" by (rule ascending_sorted)
  then show ?thesis by (simp add: strict_sorted_iff)
qed

lemma Dispatch_registered: "(n, h) \<in> set (syscall_table E) \<Longrightarrow> map_of (syscall_table E) n = Some h"
  using table_distinct by simp

end
