(* ===== verification/Sys_Laws.thy ===== *)
theory Sys_Laws
  imports Sys_Dispatch
begin

unbundle bit_operations_syntax

text \<open>
  Properties of the system call layer: strings and records read from and written to guest memory,
  symbolic links, scripts, polling and sockets.
\<close>

section \<open>C strings\<close>

lemma indexZero_None: "indexZero b = None \<longleftrightarrow> 0 \<notin> set b"
  by (simp add: indexZero_def)

lemma indexZero_Some: "indexZero b = Some i \<Longrightarrow> take i b = takeWhile (\<lambda>c. c \<noteq> 0) b"
  by (auto simp: indexZero_def takeWhile_eq_take [symmetric] split: if_splits)

text \<open>The bytes of a mapped run, one after the other.\<close>

lemma flat_cstr_run:
  assumes "\<And>i. i < c \<Longrightarrow> \<exists>q. mem_at m (a + of_nat i) = Some (q, bs ! i)" "length bs = c"
  shows "flat_cstr (c + k) a m = (if 0 \<in> set bs then takeWhile (\<lambda>b. b \<noteq> 0) bs else bs @ flat_cstr k (a + of_nat c) m)"
  using assms
proof (induction c arbitrary: a bs)
  case (Suc c)
  then obtain b bs' where bs: "bs = b # bs'" by (cases bs) auto
  obtain q where q: "mem_at m a = Some (q, b)" using Suc.prems(1) [of 0] bs by auto
  have "flat_cstr (c + k) (a + 1) m = (if 0 \<in> set bs' then takeWhile (\<lambda>b. b \<noteq> 0) bs' else bs' @ flat_cstr k (a + 1 + of_nat c) m)"
  proof (rule Suc.IH)
    show "\<exists>q. mem_at m (a + 1 + of_nat i) = Some (q, bs' ! i)" if "i < c" for i
      using Suc.prems(1) [of "Suc i"] that bs by (simp add: add.assoc)
    show "length bs' = c" using Suc.prems(2) bs by simp
  qed
  then show ?case unfolding bs using q by (cases "b = 0") (simp_all add: add.assoc)
qed simp

text \<open>A chunk stays in the page of its address, so it is mapped or unmapped as a whole.\<close>

lemma chunk_in_page:
  assumes "i < cstr_chunk maxlen cur have"
  shows "unat (cur AND pageMask) + i < 4096" "pageAddr (cur + of_nat i) = pageAddr cur"
proof -
  have "cstr_chunk maxlen cur have \<le> 4096 - unat cur mod 4096" unfolding cstr_chunk_def Let_def page_end by simp
  then show l: "unat (cur AND pageMask) + i < 4096" using assms by (simp add: unat_page_offset)
  show "pageAddr (cur + of_nat i) = pageAddr cur" by (rule page_step(1) [OF l])
qed

lemma chunk_read:
  assumes wf: "mem_wf m" and c: "c = cstr_chunk maxlen cur (length data)" and pos: "length data < maxlen"
  shows "mem_at m cur = None \<Longrightarrow> \<exists>e m'. MemRead cur c m = (Inl e, m') \<and> mem_wf m' \<and> same_core m m'"
    and "mem_at m cur \<noteq> None \<Longrightarrow> \<exists>m'. MemRead cur c m = (Inr (mem_bytes m cur c), m') \<and> mem_wf m' \<and> same_core m m' \<and>
      (\<forall>i < c. \<exists>q. mem_at m (cur + of_nat i) = Some (q, mem_bytes m cur c ! i))"
proof -
  have c0: "0 < c" unfolding c by (rule cstr_chunk_pos [OF pos])
  show "\<exists>e m'. MemRead cur c m = (Inl e, m') \<and> mem_wf m' \<and> same_core m m'" if "mem_at m cur = None"
    unfolding MemRead_eq by (rule readChecked_fault [OF wf c0]) (simp add: accessible_def that)
  assume "mem_at m cur \<noteq> None"
  then obtain p where p: "m_pages m (pageAddr cur) = Some p" by (auto simp: mem_at_def split: option.splits)
  have at: "\<exists>q. mem_at m (cur + of_nat i) = Some (q, mem_byte m (cur + of_nat i))" if "i < c" for i
    using chunk_in_page(2) [of i maxlen cur "length data"] that p unfolding c [symmetric]
    by (auto simp: mem_at_def mem_byte_def)
  have "\<exists>m'. MemRead cur c m = (Inr (map (\<lambda>i. mem_byte m (cur + of_nat i)) [0..<c]), m') \<and> mem_wf m' \<and> same_core m m'"
    unfolding MemRead_eq by (rule readChecked_ok [OF wf]) (use at in auto)
  then show "\<exists>m'. MemRead cur c m = (Inr (mem_bytes m cur c), m') \<and> mem_wf m' \<and> same_core m m' \<and>
      (\<forall>i < c. \<exists>q. mem_at m (cur + of_nat i) = Some (q, mem_bytes m cur c ! i))"
    using at by (auto simp: mem_bytes_def)
qed

lemma flat_cstr_core: "same_core m m' \<Longrightarrow> flat_cstr k a m' = flat_cstr k a m"
  by (induction k arbitrary: a) (auto simp: same_core_mem_at split: option.split)

lemma cstr_loop_flat:
  assumes "mem_wf m" "length data \<le> maxlen"
  shows "\<exists>m'. cstr_loop maxlen cur data m = (data @ flat_cstr (maxlen - length data) cur m, m') \<and> mem_wf m' \<and> same_core m m'"
  using assms
proof (induction maxlen cur data m rule: cstr_loop.induct)
  case (1 maxlen cur data m)
  show ?case
  proof (cases "length data < maxlen")
    case False
    then show ?thesis using "1.prems" by (subst cstr_loop.simps) simp
  next
    case lt: True
    define c where "c = cstr_chunk maxlen cur (length data)"
    have c0: "0 < c" and cle: "c \<le> maxlen - length data"
      using cstr_chunk_pos [OF lt, of cur] by (auto simp: c_def cstr_chunk_def Let_def)
    have split: "maxlen - length data = c + (maxlen - length data - c)" using cle by simp
    show ?thesis
    proof (cases "mem_at m cur = None")
      case True
      from chunk_read(1) [OF "1.prems"(1) c_def lt this] obtain e m' where
        r: "MemRead cur c m = (Inl e, m')" "mem_wf m'" "same_core m m'" by blast
      have "flat_cstr (maxlen - length data) cur m = []" using True lt by (cases "maxlen - length data") auto
      then show ?thesis using r lt by (subst cstr_loop.simps) (simp add: c_def [symmetric])
    next
      case False
      from chunk_read(2) [OF "1.prems"(1) c_def lt this] obtain m' where
        r: "MemRead cur c m = (Inr (mem_bytes m cur c), m')" "mem_wf m'" "same_core m m'" and
        at: "\<And>i. i < c \<Longrightarrow> \<exists>q. mem_at m (cur + of_nat i) = Some (q, mem_bytes m cur c ! i)" by blast
      let ?bs = "mem_bytes m cur c"
      have flat: "flat_cstr (maxlen - length data) cur m =
          (if 0 \<in> set ?bs then takeWhile (\<lambda>b. b \<noteq> 0) ?bs else ?bs @ flat_cstr (maxlen - length data - c) (cur + of_nat c) m)"
        by (subst split) (rule flat_cstr_run [OF at], simp_all)
      show ?thesis
      proof (cases "indexZero ?bs")
        case (Some i)
        then have "0 \<in> set ?bs" by (auto simp: indexZero_def split: if_splits)
        then show ?thesis using r lt Some indexZero_Some [OF Some] flat
          by (subst cstr_loop.simps) (simp add: c_def [symmetric])
      next
        case None
        have "\<exists>m''. cstr_loop maxlen (cur + of_nat c) (data @ ?bs) m' =
            ((data @ ?bs) @ flat_cstr (maxlen - length (data @ ?bs)) (cur + of_nat c) m', m'') \<and> mem_wf m'' \<and> same_core m' m''"
          using "1.IH" [OF lt refl r(1) [symmetric, unfolded c_def] refl None [unfolded c_def]] r(2) cle lt by (simp add: c_def)
        then obtain m'' where "cstr_loop maxlen (cur + of_nat c) (data @ ?bs) m' =
            ((data @ ?bs) @ flat_cstr (maxlen - length (data @ ?bs)) (cur + of_nat c) m', m'')" "mem_wf m''" "same_core m' m''" by blast
        moreover have "0 \<notin> set ?bs" using None by (simp add: indexZero_None)
        ultimately show ?thesis using r lt None flat same_core_trans [OF r(3)]
          by (subst cstr_loop.simps) (auto simp: c_def [symmetric] flat_cstr_core [OF r(3)])
      qed
    qed
  qed
qed

text \<open>
  C34. For every non-null pointer \<open>cstr\<close>, which reads page by page, gives the bytes that follow the
  pointer up to a zero byte, an address that is not mapped or 4096 bytes, as the byte-by-byte reference
  does; it changes nothing but the page cache. In particular a pointer to no memory gives the empty string.
\<close>

theorem cstr_equiv:
  assumes "mem_wf (e_mem p)" "addr \<noteq> 0"
  shows "\<exists>m. cstr addr p = (Some (bytes_str (flat_cstr 4096 addr (e_mem p))), set_e_mem m p) \<and> mem_wf m \<and> same_core (e_mem p) m"
proof -
  obtain m where "cstr_loop 4096 addr [] (e_mem p) = ([] @ flat_cstr (4096 - length ([] :: u8 list)) addr (e_mem p), m)"
      "mem_wf m" "same_core (e_mem p) m"
    using cstr_loop_flat [OF assms(1), of "[]" 4096 addr] by auto
  then show ?thesis using assms(2) by (auto simp: cstr_def)
qed
lemma unat_of_char [simp]: "unat (of_char c :: u8) = of_char c"
proof -
  have "unat (of_nat (of_char c :: nat) :: u8) = (of_char c :: nat) mod 256" by (subst unat_of_nat) simp
  then have "unat (of_char c :: u8) = (of_char c :: nat) mod 256" by (simp only: of_nat_of_char)
  then show ?thesis by simp
qed

lemma bytes_str_bytes [simp]: "bytes_str (str_bytes s) = s"
  by (induction s) (simp_all add: bytes_str_def str_bytes_def)

lemma str_bytes_length [simp]: "length (str_bytes s) = length s"
  by (simp add: str_bytes_def)

lemma str_bytes_zero: "0 \<in> set (str_bytes s) \<longleftrightarrow> CHR 0x00 \<in> set s"
proof -
  have eq: "(0 :: u8) = of_char c \<longleftrightarrow> c = CHR 0x00" for c
  proof
    assume "(0 :: u8) = of_char c"
    then have "(of_char c :: u8) = 0" by (rule sym)
    then have "unat (of_char c :: u8) = 0" by (simp only: unat_0)
    then have "(of_char c :: nat) = of_char (CHR 0x00)" by (simp only: unat_of_char) simp
    then show "c = CHR 0x00" by (simp only: of_char_eq_iff)
  qed simp
  show ?thesis unfolding str_bytes_def set_map image_iff eq by blast
qed

lemma flat_cstr_stored:
  assumes "\<And>i. i < length bs \<Longrightarrow> \<exists>q. mem_at m (a + of_nat i) = Some (q, bs ! i)" "0 \<notin> set bs"
    "\<exists>q. mem_at m (a + of_nat (length bs)) = Some (q, 0)" "length bs < n"
  shows "flat_cstr n a m = bs"
proof -
  have "flat_cstr (Suc (length bs) + (n - Suc (length bs))) a m = takeWhile (\<lambda>b. b \<noteq> 0) (bs @ [0])"
    by (subst flat_cstr_run [where bs = "bs @ [0]"]) (use assms in \<open>auto simp: nth_append less_Suc_eq\<close>)
  then show ?thesis using assms(2,4) by (auto simp: takeWhile_append)
qed

section \<open>getdents64\<close>

text \<open>What a program reads from the buffer: the offset and the name of each record.\<close>

function parse_dirents :: "u8 list \<Rightarrow> (u64 \<times> string) list" where
  "parse_dirents bs = (let rl = unat (leToU64 (take 2 (drop 16 bs))) in
     if bs = [] \<or> rl = 0 then []
     else (leToU64 (take 8 (drop 8 bs)), bytes_str (takeWhile (\<lambda>b. b \<noteq> 0) (drop 19 bs))) # parse_dirents (drop rl bs))"
  by pat_completeness auto
termination by (relation "measure length") auto

declare parse_dirents.simps [simp del]

lemma reclen_bounds: "length name + 20 \<le> reclen name" "reclen name \<le> length name + 27"
  unfolding reclen_def by linarith+

lemma length_dirent [simp]: "length (dirent pos name) = reclen name"
  using reclen_bounds(1) [of name] by (simp add: dirent_def)

definition ok_name :: "string \<Rightarrow> bool" where
  "ok_name name \<longleftrightarrow> CHR 0x00 \<notin> set name \<and> length name < 65000"

lemma parse_dirent:
  assumes "ok_name name"
  shows "parse_dirents (dirent pos name @ rest) = (word_of_int (pos + 1), name) # parse_dirents rest"
proof -
  let ?bs = "dirent pos name @ rest"
  have r: "reclen name < 65536" "0 < reclen name" using reclen_bounds [of name] assms by (auto simp: ok_name_def)
  have off: "leToU64 (take 8 (drop 8 ?bs)) = word_of_int (pos + 1)"
    by (simp add: dirent_def le_roundtrip take_bit_word_eq_self)
  have len: "unat (leToU64 (take 2 (drop 16 ?bs))) = reclen name"
    using r by (simp add: dirent_def le_roundtrip take_bit_of_nat take_bit_nat_eq_self unat_of_nat_small)
  have "drop 19 ?bs = str_bytes name @ [0] @ replicate (reclen name - 20 - length name) 0 @ rest"
    by (simp add: dirent_def)
  then have nm: "bytes_str (takeWhile (\<lambda>b. b \<noteq> 0) (drop 19 ?bs)) = name"
    using assms by (simp add: takeWhile_append2 takeWhile_tail ok_name_def str_bytes_zero [symmetric])
      (metis (mono_tags, lifting) bytes_str_bytes takeWhile_eq_all_conv)
  have "?bs \<noteq> []" using length_dirent [of pos name] r by fastforce
  then show ?thesis using r off len nm by (subst parse_dirents.simps) (simp add: Let_def)
qed
primrec dirents :: "int \<Rightarrow> string list \<Rightarrow> u8 list" where
  "dirents pos [] = []"
| "dirents pos (name # names) = dirent pos name @ dirents (pos + 1) names"

text \<open>What a program should read: the names with the offsets after them.\<close>

primrec numbered :: "int \<Rightarrow> string list \<Rightarrow> (u64 \<times> string) list" where
  "numbered pos [] = []"
| "numbered pos (name # names) = (word_of_int (pos + 1), name) # numbered (pos + 1) names"

lemma parse_dirents_dirents: "list_all ok_name names \<Longrightarrow> parse_dirents (dirents pos names) = numbered pos names"
proof (induction names arbitrary: pos)
  case Nil
  show ?case by (subst parse_dirents.simps) (simp add: Let_def)
qed (simp add: parse_dirent)

text \<open>The loop stores as many records as fit.\<close>

lemma dents_loop_prefix:
  assumes "dents_loop limit names pos out = (out', pos')"
  shows "\<exists>n \<le> length names. pos' = pos + int n \<and> out' = out @ dirents pos (take n names) \<and> (0 < n \<longrightarrow> int (length out') \<le> limit) \<and>
     (n < length names \<longrightarrow> limit < int (length out' + reclen (names ! n)))"
  using assms
proof (induction limit names pos out rule: dents_loop.induct)
  case (1 limit pos out)
  then show ?case by simp
next
  case (2 limit name names pos out)
  show ?case
  proof (cases "limit < int (length out + reclen name)")
    case True
    then show ?thesis using "2.prems" by (intro exI [of _ 0]) simp
  next
    case False
    then have "dents_loop limit names (pos + 1) (out @ dirent pos name) = (out', pos')" using "2.prems" by simp
    from "2.IH" [OF False this] obtain n where n: "n \<le> length names" "pos' = pos + 1 + int n"
      "out' = (out @ dirent pos name) @ dirents (pos + 1) (take n names)" "0 < n \<longrightarrow> int (length out') \<le> limit"
      "n < length names \<longrightarrow> limit < int (length out' + reclen (names ! n))" by blast
    have "int (length out') \<le> limit" using n(3,4) False by (cases "n = 0") auto
    then show ?thesis using n by (intro exI [of _ "Suc n"]) simp
  qed
qed

text \<open>
  C36. getdents64 on a directory: reading the records it stores in the guest's buffer back gives the
  names that follow the directory's position, with their offsets, in order and none twice; they fill at
  most the guest's count, and a name is left out only when its record does not fit. The position moves
  behind the last name stored even when the buffer is not mapped, and a buffer too small for one record
  is answered with 0, the end of the directory.
\<close>

theorem getdents_roundtrip:
  assumes fd: "Get (sint fdNum) (pd_fds (pr_data p)) = Some k" "pd_files (pr_data p) k = DirHandleF dh"
    and pos: "dh_Pos dh = int i" "i \<le> length (dh_entries dh)" and ok: "list_all ok_name (dh_entries dh)"
  shows "\<exists>out n. sysGetdents64 fdNum buf count a3 a4 a5 p =
        put_mem buf out (retS (int (length out))) (set_file k (DirHandleF (dh\<lparr>dh_Pos := int (i + n)\<rparr>)) p) \<and>
      parse_dirents out = numbered (int i) (take n (drop i (dh_entries dh))) \<and> i + n \<le> length (dh_entries dh) \<and>
      (n = 0 \<longrightarrow> out = []) \<and> (0 < n \<longrightarrow> int (length out) \<le> sint count) \<and>
      (i + n < length (dh_entries dh) \<longrightarrow> sint count < int (length out + reclen (dh_entries dh ! (i + n))))"
proof -
  let ?names = "drop i (dh_entries dh)"
  obtain out pos' where l: "dents_loop (sint count) ?names (int i) [] = (out, pos')" by fastforce
  from dents_loop_prefix [OF l] obtain n where n: "n \<le> length ?names" "pos' = int i + int n" "out = [] @ dirents (int i) (take n ?names)"
    "0 < n \<longrightarrow> int (length out) \<le> sint count" "n < length ?names \<longrightarrow> sint count < int (length out + reclen (?names ! n))" by blast
  have "list_all ok_name (take n ?names)" using ok by (auto simp: list_all_iff dest: in_set_takeD in_set_dropD)
  then have "parse_dirents out = numbered (int i) (take n ?names)" using n(3) parse_dirents_dirents by simp
  moreover have "sysGetdents64 fdNum buf count a3 a4 a5 p =
      put_mem buf out (retS (int (length out))) (set_file k (DirHandleF (dh\<lparr>dh_Pos := int (i + n)\<rparr>)) p)"
    using fd pos(1) l n(2) by (simp add: sysGetdents64_def)
  ultimately show ?thesis using n pos(2) by (intro exI [of _ out] exI [of _ n]) auto
qed

definition demo_dir :: process where
  "demo_dir = upd_data (\<lambda>d. d\<lparr>pd_fds := (pd_fds d)\<lparr>t_entries := [3 \<mapsto> 7]\<rparr>,
     pd_files := (pd_files d)(7 := DirHandleF (NewDirHandleFromEntries ''/d'' [''abc'']))\<rparr>) demo_proc"

theorem getdents_roundtrip_witness:
  "\<exists>out n. sysGetdents64 3 0x1000 50 0 0 0 demo_dir = put_mem 0x1000 out (retS (int (length out)))
      (set_file 7 (DirHandleF ((NewDirHandleFromEntries ''/d'' [''abc''])\<lparr>dh_Pos := int n\<rparr>)) demo_dir) \<and>
    parse_dirents out = numbered 0 (take n [''.'', ''..'', ''abc''])"
proof -
  have "Get (sint (3 :: u64)) (pd_fds (pr_data demo_dir)) = Some 7"
    "pd_files (pr_data demo_dir) 7 = DirHandleF (NewDirHandleFromEntries ''/d'' [''abc''])"
    "dh_Pos (NewDirHandleFromEntries ''/d'' [''abc'']) = int 0"
    "0 \<le> length (dh_entries (NewDirHandleFromEntries ''/d'' [''abc'']))"
    "list_all ok_name (dh_entries (NewDirHandleFromEntries ''/d'' [''abc'']))"
    by (simp_all add: demo_dir_def Get_def NewDirHandleFromEntries_def ok_name_def)
  from getdents_roundtrip [OF this, of "0x1000" 50 0 0 0] show ?thesis
    by (elim exE conjE) (rule exI, rule exI, rule conjI, assumption, simp add: NewDirHandleFromEntries_def)
qed
section \<open>struct stat\<close>

lemma le_word_here: "le_word (u64ToLE x n @ bs) 0 n = take_bit (8 * n) x"
  by (simp add: le_word_def le_roundtrip)

lemma le_word_skip: "length as \<le> off \<Longrightarrow> le_word (as @ bs) off n = le_word bs (off - length as) n"
  by (simp add: le_word_def)

lemma le_word_last: "le_word (u64ToLE x n) 0 n = take_bit (8 * n) x"
  using le_word_here [of x n "[]"] by simp

lemma take_bit_ucast32: "take_bit 32 (ucast x :: u64) = ucast x" for x :: u32
  by (rule bit_word_eqI) (auto simp: bit_simps dest: bit_imp_le_length)

text \<open>
  The 144 bytes of the stat structure hold, at the offsets of the Linux ABI for x86-64, the device,
  inode, links, mode, owner, group, device number, size, block size, number of 512-byte blocks and the
  three times of the VFS's record.
\<close>

theorem stat_layout:
  "length (packStat st) = 144 \<and> le_word (packStat st) 0 8 = st_Dev st \<and> le_word (packStat st) 8 8 = st_Ino st \<and>
   le_word (packStat st) 16 8 = st_Nlink st \<and> le_word (packStat st) 24 4 = ucast (st_Mode st) \<and>
   le_word (packStat st) 28 4 = ucast (st_Uid st) \<and> le_word (packStat st) 32 4 = ucast (st_Gid st) \<and>
   le_word (packStat st) 40 8 = st_Rdev st \<and> le_word (packStat st) 48 8 = st_Size st \<and> le_word (packStat st) 56 8 = 512 \<and>
   le_word (packStat st) 64 8 = word_of_int (sint (st_Size st + 511) sdiv 512) \<and>
   le_word (packStat st) 72 8 = word_of_int (st_Atime st) \<and> le_word (packStat st) 88 8 = word_of_int (st_Mtime st) \<and>
   le_word (packStat st) 104 8 = word_of_int (st_Ctime st)"
  by (simp add: packStat_def le_word_skip le_word_here take_bit_word_eq_self take_bit_ucast32)

section \<open>Interpreter scripts\<close>

lemma ask_vfs_root: "ask_vfs f p = (r, p') \<Longrightarrow> pd_root (pr_data p') = pd_root (pr_data p)"
  by (auto simp: ask_vfs_def split: prod.splits)

lemma on_vfs_root: "on_vfs f p = (r, p') \<Longrightarrow> pd_root (pr_data p') = pd_root (pr_data p)"
  by (auto simp: on_vfs_def split: prod.splits)

lemma followSymlinks_root: "followSymlinks path p = (r, p') \<Longrightarrow> pd_root (pr_data p') = pd_root (pr_data p)"
  unfolding followSymlinks_def by (rule ask_vfs_root)

lemma check_regular_root:
  assumes "check_regular path p = (r, p')"
  shows "pd_root (pr_data p') = pd_root (pr_data p)"
proof -
  obtain ex p1 where a: "ask_vfs (Exists path) p = (ex, p1)" by fastforce
  obtain m p2 where b: "on_vfs (GetMeta path) p1 = (m, p2)" by fastforce
  have "p' = p1 \<or> p' = p2" using assms by (auto simp: check_regular_def a b split: if_splits sum.splits)
  then show ?thesis using ask_vfs_root [OF a] on_vfs_root [OF b] by auto
qed

text \<open>A file that starts with the two bytes of a script.\<close>

definition is_script :: "sys_env \<Rightarrow> string \<Rightarrow> string \<Rightarrow> bool" where
  "is_script E root g \<longleftrightarrow> (\<exists>data. se_readFile E (HostPath root g) = Some data \<and> take 2 data = [35, 33])"

definition is_image :: "sys_env \<Rightarrow> string \<Rightarrow> string \<Rightarrow> bool" where
  "is_image E root g \<longleftrightarrow> (\<exists>data. se_readFile E (HostPath root g) = Some data \<and> take 2 data \<noteq> [35, 33])"

text \<open>
  The reference: running \<open>g\<close> with \<open>argv\<close> leads through \<open>k\<close> interpreters to the image \<open>g'\<close> with
  \<open>argv'\<close>. Each script's first line names an interpreter, which behind its symbolic links is a regular
  file; it runs with itself, the optional argument of the line, the script's path and the arguments
  of the script after the first.
\<close>

inductive script_via :: "sys_env \<Rightarrow> string \<Rightarrow> nat \<Rightarrow> string \<Rightarrow> string list \<Rightarrow> string \<Rightarrow> string list \<Rightarrow> bool" for E root where
  image: "is_image E root g \<Longrightarrow> script_via E root 0 g argv g argv"
| interpreter: "se_readFile E (HostPath root g) = Some data \<Longrightarrow> take 2 data = [35, 33] \<Longrightarrow>
    script_interp (take 256 data) = Some (named, arg) \<Longrightarrow> followSymlinks named p = (i, p1) \<Longrightarrow> check_regular i p1 = (None, p2) \<Longrightarrow>
    script_via E root k i (i # (if arg = '''' then [] else [arg]) @ g # tl argv) g' argv' \<Longrightarrow> script_via E root (Suc k) g argv g' argv'"

lemma script_loop_via:
  "script_loop n E g argv p = (Inr (g', argv'), p') \<Longrightarrow> \<exists>k \<le> n. script_via E (pd_root (pr_data p)) k g argv g' argv'"
proof (induction n arbitrary: g argv p)
  case 0
  then show ?case by (auto simp: is_image_def intro: script_via.image split: option.splits if_splits)
next
  case (Suc n)
  obtain data where d: "se_readFile E (HostPath (pd_root (pr_data p)) g) = Some data"
    using Suc.prems by (auto split: option.splits)
  show ?case
  proof (cases "take 2 data = [35, 33]")
    case False
    then have "script_via E (pd_root (pr_data p)) 0 g argv g' argv'"
      using Suc.prems d by (auto simp: is_image_def intro: script_via.image)
    then show ?thesis by blast
  next
    case True
    obtain i0 arg where si: "script_interp (take 256 data) = Some (i0, arg)"
      using Suc.prems d True by (auto split: option.splits)
    obtain i p1 where fs: "followSymlinks i0 p = (i, p1)" by fastforce
    obtain r p2 where cr: "check_regular i p1 = (r, p2)" by fastforce
    have r: "r = None" and l: "script_loop n E i (script_argv i arg g argv) p2 = (Inr (g', argv'), p')"
      using Suc.prems d True si fs cr by (auto split: option.splits)
    from Suc.IH [OF l] obtain k where "k \<le> n" "script_via E (pd_root (pr_data p)) k i (script_argv i arg g argv) g' argv'"
      using followSymlinks_root [OF fs] check_regular_root [OF cr] by auto
    then show ?thesis
      using script_via.interpreter [OF d True si fs cr [unfolded r]] by (intro exI [of _ "Suc k"]) (simp add: script_argv_def)
  qed
qed

text \<open>What a chain of interpreters does to the arguments.\<close>

lemma script_via_result:
  "script_via E root k g argv g' argv' \<Longrightarrow> is_image E root g' \<and> (is_script E root g \<longleftrightarrow> 0 < k) \<and>
    (k = 0 \<longrightarrow> g' = g \<and> argv' = argv) \<and> (0 < k \<longrightarrow> hd argv' = g' \<and> suffix (g # tl argv) (tl argv'))"
proof (induction rule: script_via.induct)
  case (image g argv)
  then show ?case by (auto simp: is_image_def is_script_def)
next
  case (interpreter g data named arg p i p1 p2 k argv g' argv')
  let ?args = "i # (if arg = '''' then [] else [arg]) @ g # tl argv"
  have sfx: "suffix (g # tl argv) (tl ?args)" by (auto simp: suffix_def)
  have "hd argv' = g' \<and> suffix (g # tl argv) (tl argv')"
  proof (cases "k = 0")
    case True
    then show ?thesis using interpreter.IH sfx by simp
  next
    case False
    then have "hd argv' = g'" "suffix (i # tl ?args) (tl argv')" using interpreter.IH by simp_all
    then show ?thesis using suffix_order.order_trans [OF suffix_ConsI [OF sfx]] by blast
  qed
  then show ?case using interpreter by (auto simp: is_script_def)
qed

text \<open>
  C37. When \<open>execScript\<close> accepts a program, the image it names is reached through at most four
  interpreters, each named by the first line of the script before it; it is a readable file and itself
  no script. A program that is no script is its own image and keeps its arguments; for a script the new
  arguments start with the image and, after it, end with the script's path and the script's own arguments
  but the first.
\<close>

theorem exec_script_image:
  assumes "execScript E g argv p = (Inr (g', argv'), p')" "root = pd_root (pr_data p)"
  shows "(\<exists>k \<le> 4. script_via E root k g argv g' argv') \<and> is_image E root g' \<and>
    (if is_script E root g then hd argv' = g' \<and> suffix (g # tl argv) (tl argv') else g' = g \<and> argv' = argv)"
proof -
  obtain k where "k \<le> 4" "script_via E root k g argv g' argv'"
    using script_loop_via assms unfolding execScript_def by blast
  then show ?thesis using script_via_result by fastforce
qed

definition demo_env :: sys_env where
  "demo_env = \<lparr>se_mounts = (\<lambda>m. m), se_nodes = devNodes, se_fds = (\<lambda>t. []), se_toLower = (\<lambda>s. s), se_md5 = (\<lambda>s. []), se_encode = (\<lambda>c. []),
     se_tmpName = ''1'', se_nativeStat = (\<lambda>p v. None), se_readFile = (\<lambda>p. Some [127, 69, 76, 70]), se_random = (\<lambda>n. replicate n 4),
     se_boot = 1, se_hostPid = 9, se_getpgid = Inr, se_setpgid = (\<lambda>a b. 0), se_getsid = Inr, se_setsid = Inr 9, se_pipe = Some (10, 11),
     se_ioctl = (\<lambda>h r b. (25, [])), se_poll = (\<lambda>qs t. (0, map snd qs)), se_elapsed = 0, se_sockFlags = (\<lambda>h. Inr 2),
     se_fread = (\<lambda>k c n. (0, [])), se_fwrite = (\<lambda>k c bs. (0, int (length bs))), se_fpwrite = (\<lambda>k bs n. (0, int (length bs))),
     se_fseek = (\<lambda>k n w. Some n), se_ftruncate = (\<lambda>k n. True),
     se_sock = (\<lambda>c. \<lparr>sa_errno = 0, sa_ret = 20, sa_ret2 = 21, sa_data = [1, 2, 3], sa_addr = [], sa_addrlen = 0\<rparr>),
     se_setSockFlags = (\<lambda>h f. 0)\<rparr>"

theorem exec_script_image_witness:
  "(\<exists>k \<le> 4. script_via demo_env (pd_root (pr_data demo_proc)) k ''/x'' [''x'', ''-v''] ''/x'' [''x'', ''-v'']) \<and>
   is_image demo_env (pd_root (pr_data demo_proc)) ''/x''"
proof -
  have "execScript demo_env ''/x'' [''x'', ''-v''] demo_proc = (Inr (''/x'', [''x'', ''-v'']), demo_proc)"
    by (simp add: execScript_def script_loop.simps(2) [of 3, simplified] demo_env_def)
  from exec_script_image [OF this refl] show ?thesis by blast
qed

section \<open>poll\<close>

lemma map2_nth_eq: "length xs = length ys \<Longrightarrow> i < length xs \<Longrightarrow> map2 f xs ys ! i = f (xs ! i) (ys ! i)"
  by simp

lemma length_merge [simp]: "length (merge_polls ks rs) = length ks"
  by (induction ks rs rule: merge_polls.induct) simp_all

text \<open>When the host answers question by question, every entry gets the answer to its own question.\<close>

definition poll_answer :: "(int \<times> 16 word \<Rightarrow> 16 word) \<Rightarrow> poll_kind \<Rightarrow> 16 word" where
  "poll_answer f k = (case k of PollNow r \<Rightarrow> r | PollHost h ev \<Rightarrow> f (h, ev))"

lemma merge_answers: "merge_polls ks (map f (host_polls ks)) = map (poll_answer f) ks"
  by (induction ks rule: host_polls.induct) (simp_all add: poll_answer_def)

lemma entries_of_length: "length raw = 8 * n \<Longrightarrow> e \<in> set (entries_of n raw) \<Longrightarrow> length e = 8"
  by (auto simp: entries_of_def)

text \<open>The reference: what an entry must report.\<close>

definition poll_spec :: "(int \<times> 16 word \<Rightarrow> 16 word) \<Rightarrow> process \<Rightarrow> u8 list \<Rightarrow> 16 word" where
  "poll_spec f p e =
     (if poll_fd e < 0 then 0
      else case open_file (poll_fd e) p of
          None \<Rightarrow> POLLNVAL
        | Some g \<Rightarrow> (case hostFdForFile g of
              Some h \<Rightarrow> f (h, poll_events e)
            | None \<Rightarrow> poll_events e AND (POLLIN OR POLLOUT)))"

lemma poll_spec_entry: "poll_answer f (poll_entry p e) = poll_spec f p e"
proof -
  have "(a AND POLLIN) OR (a AND POLLOUT) = a AND (POLLIN OR POLLOUT)" for a :: "16 word"
    by (simp only: bit.conj_disj_distrib)
  then show ?thesis by (auto simp: poll_answer_def poll_entry_def poll_spec_def Let_def split: option.splits)
qed

text \<open>
  C38. poll over \<open>n\<close> entries, when the host answers each question on its own: every entry keeps its
  descriptor and events and gets exactly its own answer (nothing for a negative descriptor, POLLNVAL
  for a closed one, readiness at once for a file the host cannot wait for, the host's answer
  otherwise), in order, however the two kinds mix; the result counts the entries with an answer.
\<close>

theorem poll_exact:
  assumes "nfds \<noteq> 0" "0 \<le> sint (nfds * 8)" "unat (nfds * 8) \<le> maxAlloc" "2 * unat nfds \<le> maxAlloc"
    and raw: "on_mem (MemRead fdsPtr (unat (nfds * 8))) p = (Inr raw, p1)"
    and host: "\<And>qs t. se_poll E qs t = (0, map f qs)"
  shows "doPoll E fdsPtr nfds timeoutMs p =
      (let es = entries_of (unat nfds) raw; answers = map (poll_spec f p1) es
       in put_mem fdsPtr (concat (map (\<lambda>e. poll_record e (poll_spec f p1 e)) es)) (retS (int (length (filter (\<lambda>r. r \<noteq> 0) answers)))) p1)"
proof -
  let ?es = "entries_of (unat nfds) raw" let ?ks = "map (poll_entry p1) ?es"
  have "poll_all E ?ks timeoutMs = (0, map (poll_answer f) ?ks)"
    using merge_answers [of ?ks f] host by (auto simp: poll_all_def)
  then have pa: "poll_all E ?ks timeoutMs = (0, map (poll_spec f p1) ?es)"
    by (simp add: comp_def poll_spec_entry)
  have m2: "map2 poll_record es (map g es) = map (\<lambda>e. poll_record e (g e)) es" for es g
    by (induction es) simp_all
  show ?thesis using assms(1-4) raw pa by (simp add: doPoll_def Let_def m2 not_less)
qed

lemma demo_read: "\<exists>p1. on_mem (MemRead 0x1000 8) demo_proc = (Inr (replicate 8 0), p1)"
proof -
  have "\<exists>q. mem_at demo_mem (0x1000 + of_nat i) = Some (q, replicate 8 0 ! i)" if "i < 8" for i
    using demo_mem_map [of "0x1000 + of_nat i"] that by (simp add: unat_of_nat_small)
  then have "\<exists>m'. MemRead 0x1000 8 demo_mem = (Inr (map (\<lambda>i. replicate 8 0 ! i) [0..<8]), m') \<and> mem_wf m' \<and> same_core demo_mem m'"
    unfolding MemRead_eq by (intro readChecked_ok [OF demo_mem_wf]) auto
  moreover have "map (\<lambda>i. replicate 8 0 ! i) [0..<8] = replicate 8 (0 :: u8)" by (simp add: map_replicate_trivial numeral_eq_Suc)
  ultimately show ?thesis by (auto simp: on_mem_def)
qed

theorem poll_exact_witness:
  "\<exists>p1. doPoll demo_env 0x1000 1 5 demo_proc =
    (let es = entries_of (unat (1 :: u64)) (replicate 8 0); answers = map (poll_spec snd p1) es
     in put_mem 0x1000 (concat (map (\<lambda>e. poll_record e (poll_spec snd p1 e)) es)) (retS (int (length (filter (\<lambda>r. r \<noteq> 0) answers)))) p1)"
proof -
  obtain p1 where r: "on_mem (MemRead 0x1000 8) demo_proc = (Inr (replicate 8 0), p1)" using demo_read by blast
  have "doPoll demo_env 0x1000 1 5 demo_proc =
    (let es = entries_of (unat (1 :: u64)) (replicate 8 0); answers = map (poll_spec snd p1) es
     in put_mem 0x1000 (concat (map (\<lambda>e. poll_record e (poll_spec snd p1 e)) es)) (retS (int (length (filter (\<lambda>r. r \<noteq> 0) answers)))) p1)"
    by (rule poll_exact) (use r in \<open>simp_all add: maxAlloc_def demo_env_def\<close>)
  then show ?thesis by blast
qed

section \<open>recvmsg\<close>

lemma on_mem_read:
  assumes "mem_wf (e_mem p)" "\<And>i. i < n \<Longrightarrow> \<exists>q. mem_at (e_mem p) (a + of_nat i) = Some (q, bs ! i)" "length bs = n"
  shows "\<exists>m. on_mem (MemRead a n) p = (Inr bs, set_e_mem m p) \<and> mem_wf m \<and> mem_at m = mem_at (e_mem p)"
proof -
  have "\<exists>m'. MemRead a n (e_mem p) = (Inr (map (\<lambda>i. bs ! i) [0..<n]), m') \<and> mem_wf m' \<and> same_core (e_mem p) m'"
    unfolding MemRead_eq by (rule readChecked_ok [OF assms(1)]) (use assms(2) in auto)
  then show ?thesis using assms(3) by (auto simp: on_mem_def map_nth dest: same_core_mem_at)
qed

lemma on_mem_write:
  assumes "mem_wf (e_mem p)" "length bs \<le> 2 ^ 32" "\<And>i. i < length bs \<Longrightarrow> mem_at (e_mem p) (a + of_nat i) \<noteq> None"
  shows "\<exists>m. on_mem (MemWrite a bs) p = (Inr (), set_e_mem m p) \<and> mem_wf m \<and> mem_at m = upd_at a bs 0 (length bs) (mem_at (e_mem p))"
proof -
  have "\<exists>m'. MemWrite a bs (e_mem p) = (Inr (), m') \<and> mem_wf m' \<and> mem_at m' = upd_at a bs 0 (length bs) (mem_at (e_mem p))"
    unfolding MemWrite_eq by (rule writeChecked_ok [OF assms(1)]) (use assms(2,3) in \<open>fastforce simp: accessible_def split: option.split\<close>)+
  then show ?thesis by (auto simp: on_mem_def)
qed
text \<open>The iovec numbered \<open>i\<close> of the array at \<open>ptr\<close>.\<close>

definition iovec_at :: "memory \<Rightarrow> u64 \<Rightarrow> nat \<Rightarrow> u64 \<Rightarrow> u64 \<Rightarrow> bool" where
  "iovec_at m ptr i base len \<longleftrightarrow>
     (\<forall>j < 16. \<exists>q. mem_at m (ptr + of_nat (i * 16) + of_nat j) = Some (q, (u64ToLE base 8 @ u64ToLE len 8) ! j))"

definition mapped :: "memory \<Rightarrow> u64 \<Rightarrow> nat \<Rightarrow> bool" where
  "mapped m a n \<longleftrightarrow> (\<forall>j < n. mem_at m (a + of_nat j) \<noteq> None)"

lemma upd_at_mapped: "upd_at a bs 0 k f x = None \<longleftrightarrow> f x = None"
  by (simp add: upd_at_def Let_def)

lemma scatter_step:
  assumes wf: "mem_wf (e_mem p)" and iov: "iovec_at (e_mem p) ptr i base len" and len: "0 \<le> sint len" "min (unat len) n \<le> length buf"
    and n: "0 < n" "n \<le> 2 ^ 20" and dst: "mapped (e_mem p) base (min (unat len) n)"
  shows "\<exists>m. scatter (Suc k) i ptr buf n p = scatter k (i + 1) ptr buf (n - min (unat len) n) (set_e_mem m p) \<and> mem_wf m \<and>
     mem_at m = upd_at base (take (min (unat len) n) buf) 0 (min (unat len) n) (mem_at (e_mem p))"
proof -
  let ?rec = "u64ToLE base 8 @ u64ToLE len 8" let ?l = "min (unat len) n"
  have "\<exists>m. on_mem (MemRead (ptr + of_nat (i * 16)) 16) p = (Inr ?rec, set_e_mem m p) \<and> mem_wf m \<and> mem_at m = mem_at (e_mem p)"
    by (rule on_mem_read [OF wf]) (use iov in \<open>auto simp: iovec_at_def\<close>)
  then obtain m1 where r: "on_mem (MemRead (ptr + of_nat (i * 16)) 16) p = (Inr ?rec, set_e_mem m1 p)" "mem_wf m1" "mem_at m1 = mem_at (e_mem p)"
    by blast
  have f: "le_word ?rec 0 8 = base" "le_word ?rec 8 8 = len"
    by (simp_all add: le_word_here le_word_skip le_word_last take_bit_word_eq_self)
  have lb: "length (take ?l buf) = ?l" using len(2) by simp
  have "\<exists>m. on_mem (MemWrite base (take ?l buf)) (set_e_mem m1 p) = (Inr (), set_e_mem m (set_e_mem m1 p)) \<and> mem_wf m \<and>
      mem_at m = upd_at base (take ?l buf) 0 (length (take ?l buf)) (mem_at (e_mem (set_e_mem m1 p)))"
    by (rule on_mem_write) (use r lb n dst in \<open>auto simp: set_e_mem_def mapped_def\<close>)
  then obtain m2 where w: "on_mem (MemWrite base (take ?l buf)) (set_e_mem m1 p) = (Inr (), set_e_mem m2 p)" "mem_wf m2"
      "mem_at m2 = upd_at base (take ?l buf) 0 ?l (mem_at (e_mem p))"
    using lb r(3) by (auto simp: set_e_mem_def)
  show ?thesis using r(1) w n(1) len(1) by (intro exI [of _ m2]) (simp add: f Let_def)
qed

text \<open>
  A message received into two iovecs, longer than the first: the second iovec, which should take up
  where the first ends, gets the bytes from the start of the message again.
\<close>

theorem recvmsg_repeats_start:
  assumes wf: "mem_wf (e_mem p)" and iov: "iovec_at (e_mem p) ptr 0 b1 l1" "iovec_at (e_mem p) ptr 1 b2 l2"
    and len: "0 < unat l1" "unat l1 < n" "n - unat l1 \<le> unat l2" "0 \<le> sint l1" "0 \<le> sint l2" "n \<le> length buf" "n \<le> 2 ^ 20"
    and dst: "mapped (e_mem p) b1 (unat l1)" "mapped (e_mem p) b2 (n - unat l1)"
    and apart: "\<And>j. j < 16 \<Longrightarrow> unat l1 \<le> unat (ptr + 16 + of_nat j - b1)"
  shows "\<exists>p'. scatter 2 0 ptr buf n p = (None, p') \<and>
     (\<forall>j < n - unat l1. \<exists>q. mem_at (e_mem p') (b2 + of_nat j) = Some (q, buf ! j))"
proof -
  have l1: "min (unat l1) n = unat l1" and l2: "min (unat l2) (n - unat l1) = n - unat l1" using len by auto
  obtain m where s1: "scatter (Suc 1) 0 ptr buf n p = scatter 1 (0 + 1) ptr buf (n - unat l1) (set_e_mem m p)" and wfm: "mem_wf m"
    and at: "mem_at m = upd_at b1 (take (unat l1) buf) 0 (unat l1) (mem_at (e_mem p))"
    using scatter_step [OF wf iov(1) len(4), of n buf 1] len dst(1) unfolding l1 by auto
  let ?p = "set_e_mem m p"
  have e: "e_mem ?p = m" by (simp add: set_e_mem_def)
  have iov2: "iovec_at (e_mem ?p) ptr 1 b2 l2"
    unfolding iovec_at_def e at
  proof (intro allI impI)
    fix j :: nat assume j: "j < 16"
    have "upd_at b1 (take (unat l1) buf) 0 (unat l1) (mem_at (e_mem p)) (ptr + of_nat (1 * 16) + of_nat j) = mem_at (e_mem p) (ptr + of_nat (1 * 16) + of_nat j)"
      using apart [OF j] by (simp add: upd_at_def Let_def add.assoc)
    then show "\<exists>q. upd_at b1 (take (unat l1) buf) 0 (unat l1) (mem_at (e_mem p)) (ptr + of_nat (1 * 16) + of_nat j) =
        Some (q, (u64ToLE b2 8 @ u64ToLE l2 8) ! j)"
      using iov(2) j unfolding iovec_at_def by metis
  qed
  have d2: "mapped (e_mem ?p) b2 (min (unat l2) (n - unat l1))" using dst(2) unfolding l2 mapped_def e at upd_at_mapped by simp
  have "\<exists>m'. scatter (Suc 0) 1 ptr buf (n - unat l1) ?p = scatter 0 (1 + 1) ptr buf (n - unat l1 - min (unat l2) (n - unat l1)) (set_e_mem m' ?p) \<and>
      mem_wf m' \<and> mem_at m' = upd_at b2 (take (min (unat l2) (n - unat l1)) buf) 0 (min (unat l2) (n - unat l1)) (mem_at (e_mem ?p))"
    by (rule scatter_step [OF _ iov2 len(5) _ _ _ d2]) (use len wfm in \<open>simp_all add: e\<close>)
  then obtain m' where s2: "scatter (Suc 0) 1 ptr buf (n - unat l1) ?p = scatter 0 (1 + 1) ptr buf (n - unat l1 - (n - unat l1)) (set_e_mem m' ?p)"
    and at2: "mem_at m' = upd_at b2 (take (n - unat l1) buf) 0 (n - unat l1) (mem_at (e_mem ?p))"
    unfolding l2 by blast
  have "\<exists>q. mem_at m' (b2 + of_nat j) = Some (q, buf ! j)" if j: "j < n - unat l1" for j
  proof -
    have "unat (of_nat j :: u64) = j" using j len(7) by (intro unat_of_nat_small) simp
    moreover obtain q b where "mem_at (e_mem ?p) (b2 + of_nat j) = Some (q, b)" using d2 j unfolding l2 mapped_def by fastforce
    ultimately show ?thesis using j by (simp add: at2 upd_at_def Let_def)
  qed
  then show ?thesis using s1 s2 by (intro exI [of _ "set_e_mem m' ?p"]) (simp add: numeral_2_eq_2 set_e_mem_def)
qed
lemma demo_stored:
  assumes "length bs \<le> 4096"
  shows "\<exists>m. mem_wf m \<and> mem_at m = upd_at 0x1000 bs 0 (length bs) (mem_at demo_mem)"
proof -
  have "mem_at demo_mem (0x1000 + of_nat i) \<noteq> None" if "i < length bs" for i
    using demo_mem_map [of "0x1000 + of_nat i"] that assms by (simp add: unat_of_nat_small)
  then show ?thesis using on_mem_write [of demo_proc bs "0x1000"] assms demo_mem_wf by auto
qed

lemma demo_stored_at:
  assumes "mem_at m = upd_at 0x1000 bs 0 (length bs) (mem_at demo_mem)" "k < 4096"
  shows "\<exists>q. mem_at m (0x1000 + of_nat k) = Some (q, if k < length bs then bs ! k else 0)"
  using demo_mem_map [of "0x1000 + of_nat k"] assms by (simp add: upd_at_def Let_def unat_of_nat_small)

lemma demo_stored_mapped:
  assumes at: "mem_at m = upd_at 0x1000 bs 0 (length bs) (mem_at demo_mem)" and k: "k + n \<le> 4096"
  shows "mapped m (0x1000 + of_nat k) n"
  unfolding mapped_def
proof (intro allI impI)
  fix j assume "j < n"
  then show "mem_at m (0x1000 + of_nat k + of_nat j) \<noteq> None" using demo_stored_at [OF at, of "k + j"] k by (auto simp: add.assoc)
qed

theorem recvmsg_repeats_start_witness:
  "\<exists>p p'. scatter 2 0 0x1000 [1, 2, 3, 4] 4 p = (None, p') \<and>
     (\<forall>j < 2. \<exists>q. mem_at (e_mem p') (0x1200 + of_nat j) = Some (q, [1, 2, 3, 4 :: u8] ! j))"
proof -
  let ?bs = "u64ToLE 0x1100 8 @ u64ToLE 2 8 @ u64ToLE 0x1200 8 @ u64ToLE 2 8"
  obtain m where wf: "mem_wf m" and at: "mem_at m = upd_at 0x1000 ?bs 0 (length ?bs) (mem_at demo_mem)"
    using demo_stored [of ?bs] by auto
  note at' = demo_stored_at [OF at]
  let ?p = "set_e_mem m demo_proc"
  have e: "e_mem ?p = m" by (simp add: set_e_mem_def)
  have i1: "iovec_at (e_mem ?p) 0x1000 0 0x1100 2" unfolding iovec_at_def e
  proof (intro allI impI)
    fix j :: nat assume "j < 16"
    then show "\<exists>q. mem_at m (0x1000 + of_nat (0 * 16) + of_nat j) = Some (q, (u64ToLE 0x1100 8 @ u64ToLE 2 8) ! j)"
      using at' [of j] by (auto simp: nth_append)
  qed
  have i2: "iovec_at (e_mem ?p) 0x1000 1 0x1200 2" unfolding iovec_at_def e
  proof (intro allI impI)
    fix j :: nat assume "j < 16"
    then show "\<exists>q. mem_at m (0x1000 + of_nat (1 * 16) + of_nat j) = Some (q, (u64ToLE 0x1200 8 @ u64ToLE 2 8) ! j)"
      using at' [of "16 + j"] by (auto simp: nth_append add.assoc)
  qed
  have d: "mapped (e_mem ?p) 0x1100 (unat (2 :: u64))" "mapped (e_mem ?p) 0x1200 (4 - unat (2 :: u64))"
    using demo_stored_mapped [OF at, of "0x100" 2] demo_stored_mapped [OF at, of "0x200" 2] by (simp_all add: e)
  have "\<exists>p'. scatter 2 0 0x1000 [1, 2, 3, 4] 4 ?p = (None, p') \<and>
     (\<forall>j < 4 - unat (2 :: u64). \<exists>q. mem_at (e_mem p') (0x1200 + of_nat j) = Some (q, [1, 2, 3, 4] ! j))"
  proof (rule recvmsg_repeats_start [OF _ i1 i2])
    show "unat (2 :: u64) \<le> unat ((0x1000 :: u64) + 16 + of_nat j - 0x1100)" if "j < 16" for j
    proof -
      have "(0x1000 :: u64) + 16 + of_nat j - 0x1100 = of_nat j - 240" by simp
      moreover have "unat (of_nat j - 240 :: u64) = 18446744073709551616 - (240 - j)"
        using that by (subst unat_sub_if') (simp add: unat_of_nat_small word_less_nat_alt)
      ultimately show ?thesis using that by simp
    qed
  qed (use d wf e in simp_all)
  then have "\<exists>p'. scatter 2 0 0x1000 [1, 2, 3, 4] 4 ?p = (None, p') \<and>
     (\<forall>j < 2. \<exists>q. mem_at (e_mem p') (0x1200 + of_nat j) = Some (q, [1, 2, 3, 4] ! j))" by simp
  then show ?thesis by (rule exI [where x = ?p])
qed
theorem cstr_equiv_witness: "\<exists>p m. cstr 0x1000 p = (Some ''/a'', set_e_mem m p)"
proof -
  obtain m where wf: "mem_wf m" and at: "mem_at m = upd_at 0x1000 [47, 97, 0] 0 (length [47, 97, 0 :: u8]) (mem_at demo_mem)"
    using demo_stored [of "[47, 97, 0]"] by auto
  let ?p = "set_e_mem m demo_proc"
  have e: "e_mem ?p = m" by (simp add: set_e_mem_def)
  note at' = demo_stored_at [OF at]
  have "flat_cstr 4096 0x1000 m = [47, 97]"
  proof (rule flat_cstr_stored)
    show "\<exists>q. mem_at m (0x1000 + of_nat i) = Some (q, [47, 97] ! i)" if "i < length [47, 97 :: u8]" for i
      using at' [of i] that by (auto simp: less_Suc_eq)
    show "\<exists>q. mem_at m (0x1000 + of_nat (length [47, 97 :: u8])) = Some (q, 0)" using at' [of 2] by simp
  qed simp_all
  moreover have "str_bytes ''/a'' = [47, 97]" by (simp add: str_bytes_def)
  ultimately have "bytes_str (flat_cstr 4096 0x1000 m) = ''/a''" using bytes_str_bytes [of "''/a''"] by (simp only:)
  moreover obtain m' where "cstr 0x1000 ?p = (Some (bytes_str (flat_cstr 4096 0x1000 (e_mem ?p))), set_e_mem m' ?p)"
    using cstr_equiv [of ?p "0x1000"] wf e by auto
  ultimately show ?thesis unfolding e by (intro exI [of _ ?p] exI [of _ m']) simp
qed

section \<open>select\<close>





















end
