(* ===== verification/Sys_Files_Laws.thy ===== *)
theory Sys_Files_Laws
  imports Sys_Laws
begin

unbundle bit_operations_syntax

text \<open>
  What opening a file does to the descriptor table, whatever kind of file the path names.
\<close>

section \<open>Opening adds one descriptor\<close>

text \<open>What an open may not touch: everything but the memory's caches and the VFS.\<close>

definition same_fds :: "process \<Rightarrow> process \<Rightarrow> bool" where
  "same_fds p q \<longleftrightarrow> pd_fds (pr_data q) = pd_fds (pr_data p) \<and> pd_refs (pr_data q) = pd_refs (pr_data p) \<and>
     pd_files (pr_data q) = pd_files (pr_data p) \<and> pd_nextFile (pr_data q) = pd_nextFile (pr_data p)"

lemma same_fds_refl [simp]: "same_fds p p"
  by (simp add: same_fds_def)

lemma same_fds_trans [trans]: "same_fds p q \<Longrightarrow> same_fds q r \<Longrightarrow> same_fds p r"
  by (simp add: same_fds_def)

named_theorems keeps_fds

lemma ask_vfs_fds [keeps_fds]: "ask_vfs f p = (r, q) \<Longrightarrow> same_fds p q"
  by (auto simp: ask_vfs_def same_fds_def split: prod.splits)

lemma on_vfs_fds [keeps_fds]: "on_vfs f p = (r, q) \<Longrightarrow> same_fds p q"
  by (auto simp: on_vfs_def same_fds_def split: prod.splits)

lemma followSymlinks_fds [keeps_fds]: "followSymlinks path p = (r, q) \<Longrightarrow> same_fds p q"
  unfolding followSymlinks_def by (rule ask_vfs_fds)

lemma follow_if_fds [keeps_fds]: "follow_if b path p = (r, q) \<Longrightarrow> same_fds p q"
  by (auto simp: follow_if_def dest: followSymlinks_fds split: if_splits)

lemma mountsText_fds [keeps_fds]: "mountsText perm p = (t, q) \<Longrightarrow> same_fds p q"
  by (auto simp: mountsText_def dest: ask_vfs_fds split: prod.splits)

lemma classify_fds [keeps_fds]:
  assumes "classify perm boot rel p = (k, q)"
  shows "same_fds p q"
proof -
  obtain t p1 where m: "mountsText perm p = (t, p1)" by fastforce
  have "q = p \<or> q = p1"
    using assms unfolding classify_def Let_def m by (auto split: if_splits option.splits)
  then show ?thesis using mountsText_fds [OF m] by auto
qed

lemma proc_tests_fds [keeps_fds]:
  "proc_Exists perm boot rel p = (b, q) \<Longrightarrow> same_fds p q" "proc_IsDir perm boot rel p = (b, q) \<Longrightarrow> same_fds p q"
  "proc_IsSymlink perm boot rel p = (b, q) \<Longrightarrow> same_fds p q" "proc_Read perm boot rel p = (bs, q) \<Longrightarrow> same_fds p q"
  by (auto simp: proc_Exists_def proc_IsDir_def proc_IsSymlink_def proc_Read_def dest: classify_fds split: prod.splits)

lemma procRel_fds [keeps_fds]:
  assumes "procRel path p = (r, q)"
  shows "same_fds p q"
proof -
  let ?path = "resolveAbs (pd_cwd (pr_data p)) path"
  obtain t p1 where a: "ask_vfs (MountType ?path) p = (t, p1)" by fastforce
  obtain mp p2 where b: "ask_vfs (MountPointFor ?path) p1 = (mp, p2)" by fastforce
  have "q = p1 \<or> q = p2" using assms by (auto simp: procRel_def Let_def a b split: if_splits)
  then show ?thesis using ask_vfs_fds [OF a] same_fds_trans [OF ask_vfs_fds [OF a] ask_vfs_fds [OF b]] by auto
qed

lemma open_device_fds [keeps_fds]:
  assumes "open_device path p = (r, q)"
  shows "same_fds p q"
proof -
  obtain m p1 where a: "on_vfs (GetMeta path) p = (m, p1)" by fastforce
  have "q = p1" using assms by (auto simp: open_device_def a split: sum.splits)
  then show ?thesis using on_vfs_fds [OF a] by simp
qed

text \<open>The errors of an open: its own and those of the VFS.\<close>

definition open_error :: "int \<Rightarrow> bool" where
  "open_error e \<longleftrightarrow> e \<in> {ENOENT, EIO, EINVAL, ENOTDIR, ELOOP} \<or> e \<in> range vfsErrno"

lemma open_error_simps [simp]:
  "open_error ENOENT" "open_error EIO" "open_error EINVAL" "open_error ENOTDIR" "open_error ELOOP" "open_error (vfsErrno x)"
  by (simp_all add: open_error_def)

text \<open>
  The result of an open that starts with the table of \<open>p\<close>: an error and no change of the table, or
  the table's next number, which names a new file object; nothing else in the table changes but
  that number's close-on-exec flag.
\<close>

definition opened :: "process \<Rightarrow> sys_result \<times> process \<Rightarrow> bool" where
  "opened p = (\<lambda>(r, q). let d = pr_data p; d' = pr_data q; fd = t_next (pd_fds d) in
     ((\<exists>e. open_error e \<and> r = errS e) \<and> same_fds p q) \<or>
     (\<exists>f c. r = retS fd \<and> t_entries (pd_fds d') = (t_entries (pd_fds d))(fd \<mapsto> pd_nextFile d) \<and>
        t_cloexec (pd_fds d') = (if c then (t_cloexec (pd_fds d))(fd := True) else t_cloexec (pd_fds d)) \<and>
        pd_files d' = (pd_files d)(pd_nextFile d := f) \<and> pd_nextFile d' = pd_nextFile d + 1 \<and>
        pd_refs d' = incr (pd_nextFile d) (pd_refs d)))"

lemma opened_err: "same_fds p q \<Longrightarrow> open_error e \<Longrightarrow> opened p (errS e, q)"
  unfolding opened_def Let_def prod.case by blast

lemma opened_err': "same_fds p q \<Longrightarrow> open_error e \<Longrightarrow> opened p (SysRet (- word_of_int e), q)"
  using opened_err [of p q e] by simp

lemma opened_fds:
  assumes "same_fds p q" "opened q x"
  shows "opened p x"
proof -
  have e: "pd_fds (pr_data q) = pd_fds (pr_data p)" "pd_refs (pr_data q) = pd_refs (pr_data p)"
    "pd_files (pr_data q) = pd_files (pr_data p)" "pd_nextFile (pr_data q) = pd_nextFile (pr_data p)"
    using assms(1) by (simp_all add: same_fds_def)
  obtain r q' where x: "x = (r, q')" by fastforce
  show ?thesis using assms(2) unfolding x opened_def Let_def prod.case same_fds_def e .
qed

lemma opened_alloc_here: "opened q (alloc_ret c f q)"
proof -
  obtain fd q1 where a: "alloc_file f q = (fd, q1)" by fastforce
  let ?q = "if c then set_cloexec fd True q1 else q1" and ?d = "pr_data q"
  have "fd = t_next (pd_fds ?d) \<and> t_entries (pd_fds (pr_data ?q)) = (t_entries (pd_fds ?d))(fd \<mapsto> pd_nextFile ?d) \<and>
      t_cloexec (pd_fds (pr_data ?q)) = (if c then (t_cloexec (pd_fds ?d))(fd := True) else t_cloexec (pd_fds ?d)) \<and>
      pd_files (pr_data ?q) = (pd_files ?d)(pd_nextFile ?d := f) \<and> pd_nextFile (pr_data ?q) = pd_nextFile ?d + 1 \<and>
      pd_refs (pr_data ?q) = incr (pd_nextFile ?d) (pd_refs ?d)"
    using a by (auto simp: alloc_file_def on_fds_def Alloc_def set_entry_def Let_def set_file_def set_cloexec_def SetCloexec_def)
  then have "\<exists>f' c'. retS fd = retS (t_next (pd_fds ?d)) \<and> t_entries (pd_fds (pr_data ?q)) = (t_entries (pd_fds ?d))(t_next (pd_fds ?d) \<mapsto> pd_nextFile ?d) \<and>
      t_cloexec (pd_fds (pr_data ?q)) = (if c' then (t_cloexec (pd_fds ?d))(t_next (pd_fds ?d) := True) else t_cloexec (pd_fds ?d)) \<and>
      pd_files (pr_data ?q) = (pd_files ?d)(pd_nextFile ?d := f') \<and> pd_nextFile (pr_data ?q) = pd_nextFile ?d + 1 \<and>
      pd_refs (pr_data ?q) = incr (pd_nextFile ?d) (pd_refs ?d)" by blast
  then show ?thesis unfolding opened_def Let_def alloc_ret_def a prod.case by (rule disjI2)
qed

lemma opened_alloc: "same_fds p q \<Longrightarrow> opened p (alloc_ret c f q)"
  by (rule opened_fds [OF _ opened_alloc_here])
lemma OpenVFSFile_errors:
  assumes "OpenVFSFile E path flags v = (Inl e, v')"
  shows "open_error e"
proof -
  have "e = ENOENT \<or> e = EIO"
    using assms unfolding OpenVFSFile_def Let_def by (auto split: option.splits if_splits prod.splits sum.splits)
  then show ?thesis by auto
qed

lemma openTmpFile_opened: "opened p (openTmpFile E path flags md p)"
proof -
  obtain isdir p1 where a: "ask_vfs (IsDir path) p = (isdir, p1)" by fastforce
  obtain r p2 where b: "on_vfs (CreateTmpFile (se_tmpName E) path (sint md)) p1 = (r, p2)" by fastforce
  note k1 = ask_vfs_fds [OF a] note k2 = same_fds_trans [OF k1 on_vfs_fds [OF b]]
  show ?thesis unfolding openTmpFile_def a b prod.case
    by (cases r) (simp_all add: opened_err' opened_alloc k1 k2)
qed

lemma openProcfs_opened: "opened p (openProcfs E path rel p)"
proof -
  let ?m = "se_mounts E" and ?b = "se_boot E"
  obtain ex p1 where a: "proc_Exists ?m ?b rel p = (ex, p1)" by fastforce
  obtain isdir p2 where b: "proc_IsDir ?m ?b rel p1 = (isdir, p2)" by fastforce
  obtain islink p3 where c: "proc_IsSymlink ?m ?b rel p2 = (islink, p3)" by fastforce
  obtain bs p4 where d: "proc_Read ?m ?b rel p3 = (bs, p4)" by fastforce
  note k1 = proc_tests_fds(1) [OF a]
  note k2 = same_fds_trans [OF k1 proc_tests_fds(2) [OF b]]
  note k3 = same_fds_trans [OF k2 proc_tests_fds(3) [OF c]]
  note k4 = same_fds_trans [OF k3 proc_tests_fds(4) [OF d]]
  show ?thesis unfolding openProcfs_def a b c d prod.case
    by (cases bs) (simp_all add: opened_err' opened_alloc k1 k2 k3 k4)
qed

lemma open_existing_opened: "opened p (open_existing E path flags p)"
proof -
  obtain m p1 where a: "on_vfs (GetMeta path) p = (m, p1)" by fastforce
  obtain ns p2 where b: "on_vfs (Listdir path) p1 = (ns, p2)" by fastforce
  obtain f p3 where c: "ask_vfs (OpenVFSFile E path flags) p1 = (f, p3)" by fastforce
  note k1 = on_vfs_fds [OF a]
  note k2 = same_fds_trans [OF k1 on_vfs_fds [OF b]]
  note k3 = same_fds_trans [OF k1 ask_vfs_fds [OF c]]
  have e: "open_error e" if "f = Inl e" for e
    using c that OpenVFSFile_errors by (auto simp: ask_vfs_def split: prod.splits)
  show ?thesis unfolding open_existing_def a b c prod.case
    by (cases m; cases ns; cases f) (simp_all add: opened_err' opened_alloc k1 k2 k3 e)
qed

text \<open>
  C35. Any open, of whatever path, flags and mode: either it answers an error and the descriptor table,
  the reference counts and the open files are as before, or it answers the table's next number and
  adds exactly that entry, naming a new open file with one reference; every other entry keeps its file.
\<close>

theorem open_adds_one_descriptor: "opened p (openCommon E path flags md p)"
proof (cases "flags AND O_TMPFILE \<noteq> 0")
  case True
  then show ?thesis by (simp add: openCommon_def openTmpFile_opened)
next
  case False
  obtain path1 p1 where a: "follow_if (flags AND O_NOFOLLOW = 0) path p = (path1, p1)" by fastforce
  obtain rel p2 where b: "procRel path1 p1 = (rel, p2)" by fastforce
  obtain ex p3 where c: "ask_vfs (Exists path1) p2 = (ex, p3)" by fastforce
  obtain dev p4 where d: "open_device path1 p3 = (dev, p4)" by fastforce
  obtain cr p5 where e: "on_vfs (CreateFile path1 (open_mode md)) p3 = (cr, p5)" by fastforce
  note k2 = same_fds_trans [OF follow_if_fds [OF a] procRel_fds [OF b]]
  note k3 = same_fds_trans [OF k2 ask_vfs_fds [OF c]]
  note k4 = same_fds_trans [OF k3 open_device_fds [OF d]]
  note k5 = same_fds_trans [OF k3 on_vfs_fds [OF e]]
  note ops = opened_fds [OF k2 openProcfs_opened] opened_fds [OF k4 open_existing_opened] opened_fds [OF k5 open_existing_opened]
    opened_alloc [OF k4]
  show ?thesis unfolding openCommon_def if_not_P [OF False] a b c d e prod.case
    by (cases rel; cases dev; cases cr) (simp_all add: ops opened_err' k3 k5)
qed

end
