(* ===== verification/Procfs_Laws.thy ===== *)
theory Procfs_Laws
  imports Procfs Process_Laws
begin

text \<open>
  The synthetic /proc answers consistently: what it classifies as a symbolic link can be read, and every
  name it lists in a directory exists there.
\<close>

section \<open>Numbers as text\<close>

lemma digit_char: "d < 10 \<Longrightarrow> is_digit (char_of (48 + d :: nat)) \<and> (of_char (char_of (48 + d :: nat)) :: nat) = 48 + d"
  by (simp add: is_digit_def)

lemma dec_digits:
  "list_all is_digit (itoa_digits n) \<and> dec_value (rev (itoa_digits n)) = n \<and> (0 < n \<longrightarrow> itoa_digits n \<noteq> [])"
proof (induction n rule: itoa_digits.induct)
  case (1 n)
  show ?case
  proof (cases "n = 0")
    case True
    then show ?thesis by (simp add: itoa_digits.simps [of 0] dec_value_def)
  next
    case False
    with 1 digit_char [of "n mod 10"] show ?thesis
      by (simp add: itoa_digits.simps [of n] dec_value_def)
  qed
qed

lemma digit_not_slash: "is_digit c \<Longrightarrow> c \<noteq> slash"
  by (auto simp: is_digit_def)

lemma Itoa_digits: "0 \<le> n \<Longrightarrow> isDigits (Itoa n) \<and> dec_value (Itoa n) = nat n"
proof (cases "n = 0")
  case False
  moreover assume "0 \<le> n"
  ultimately show ?thesis using dec_digits [of "nat n"] by (simp add: Itoa_def isDigits_def list_all_iff)
qed (simp add: Itoa_def isDigits_def dec_value_def is_digit_def)

lemma isDigits_no_slash: "isDigits s \<Longrightarrow> s \<noteq> [] \<and> slash \<notin> set s"
  using digit_not_slash by (auto simp: isDigits_def list_all_iff)

lemma Atoi_no_slash: "Atoi s = Some n \<Longrightarrow> slash \<notin> set s"
proof -
  assume a: "Atoi s = Some n"
  have "slash \<notin> set (tl s)" if "list_all is_digit (tl s)" using that digit_not_slash by (auto simp: list_all_iff)
  moreover have "slash \<notin> set s" if "list_all is_digit s" using that digit_not_slash by (auto simp: list_all_iff)
  ultimately show ?thesis using a
    by (cases s) (auto simp: Atoi_def Let_def hasPrefix_def split: if_splits)
qed

lemma Atoi_digits: "isDigits s \<Longrightarrow> dec_value s < 2 ^ 63 \<Longrightarrow> Atoi s = Some (int (dec_value s))"
proof -
  assume d: "isDigits s" and r: "dec_value s < 2 ^ 63"
  have "\<not> hasPrefix s ''-'' \<and> \<not> hasPrefix s ''+''"
    using d by (cases s) (auto simp: isDigits_def hasPrefix_def is_digit_def)
  then show ?thesis using d r by (auto simp: Atoi_def isDigits_def)
qed

lemma Atoi_Itoa: "0 \<le> n \<Longrightarrow> n < 2 ^ 63 \<Longrightarrow> Atoi (Itoa n) = Some n"
  using Itoa_digits [of n] Atoi_digits [of "Itoa n"] by (simp add: nat_less_iff)

section \<open>Links\<close>

lemma tail_parts: "parts = split_slash s \<Longrightarrow> tl parts \<noteq> [] \<Longrightarrow> split_slash (join_slash (tl parts)) = tl parts"
  using split_join [of "tl parts"] split_parts [of _ s] list.set_sel(2) [of parts] by auto

lemma fd_part:
  assumes "hasPrefix (join_slash (tl parts)) ''fd/''" "parts = split_slash s" "tl parts \<noteq> []"
    and n: "Atoi (trimPrefix (join_slash (tl parts)) ''fd/'') = Some n"
  shows "tl parts = [''fd'', trimPrefix (join_slash (tl parts)) ''fd/'']"
proof -
  let ?t = "trimPrefix (join_slash (tl parts)) ''fd/''"
  have "join_slash (tl parts) = ''fd'' @ slash # ?t"
    using assms(1) append_take_drop_id [of "length ''fd/''" "join_slash (tl parts)"]
    by (auto simp: hasPrefix_def trimPrefix_def simp del: append_take_drop_id)
  then have "tl parts = split_slash ''fd'' @ split_slash ?t"
    using tail_parts [OF assms(2,3)] split_append [of "''fd''" ?t] by simp
  then show ?thesis using split_no_slash [OF Atoi_no_slash [OF n]] by simp
qed

lemma classify_link:
  assumes c: "classify perm boot rel p = (Some PLnk, p')" and parts: "parts = split_slash (trimSlashes rel)"
  shows "p' = p \<and> (if length parts = 1 then hd parts = ''self'' \<or> hd parts = ''thread-self''
     else \<exists>pid. classify_pid pid (join_slash (tl parts)) p = Some PLnk)"
proof -
  let ?r = "trimSlashes rel"
  have n: "\<not> (?r = '''' \<or> ?r = ''.'')" "?r \<noteq> ''mounts''" "map_of (staticText boot p) ?r = None"
    "\<not> (?r = ''sys'' \<or> ?r = ''sys/kernel'')"
    using c by (simp_all add: classify_def Let_def split: if_split_asm option.split_asm prod.split_asm)
  show ?thesis using c
    unfolding classify_def Let_def if_not_P [OF n(1)] if_not_P [OF n(2)] if_not_P [OF n(4)] n(3) option.case parts [symmetric]
    by (simp split: if_split_asm) (blast+)?
qed

text \<open>
  Whatever path below /proc is classified as a symbolic link has a target: \<open>Readlink\<close>, which takes
  the path apart by rules of its own, answers it.
\<close>

theorem proc_links_resolve:
  assumes "classify perm boot rel p = (Some PLnk, p')"
  shows "proc_Readlink rel p \<noteq> None \<and> p' = p"
proof -
  let ?r = "trimSlashes rel" let ?parts = "split_slash ?r"
  have one: "?r = hd ?parts" if "length ?parts = 1"
    using that join_split [of ?r] by (cases ?parts) auto
  have put: "\<exists>a. ?parts = a # xs" if "tl ?parts = xs" for xs using that by (cases ?parts) auto
  show ?thesis
  proof (cases "length ?parts = 1")
    case True
    with classify_link [OF assms refl] one show ?thesis by (auto simp: proc_Readlink_def)
  next
    case False
    then have t: "tl ?parts \<noteq> []" by (cases ?parts) auto
    obtain pid where k: "classify_pid pid (join_slash (tl ?parts)) p = Some PLnk" "p' = p"
      using classify_link [OF assms refl] False by auto
    let ?sub = "join_slash (tl ?parts)"
    have sub: "tl ?parts = split_slash x" if "?sub = x" for x using tail_parts [OF refl t] that by simp
    consider "?sub = ''exe''" | "?sub = ''cwd''"
      | n where "hasPrefix ?sub ''fd/''" "Atoi (trimPrefix ?sub ''fd/'') = Some n" "Get n (pd_fds (pr_data p)) \<noteq> None"
      using k(1) by (auto simp: classify_pid_def split: if_splits option.splits)
    then show ?thesis
    proof cases
      case 1
      from put [OF sub [OF 1]] obtain a where "?parts = [a, ''exe'']" by auto
      then show ?thesis using k(2) by (simp add: proc_Readlink_def Let_def)
    next
      case 2
      from put [OF sub [OF 2]] obtain a where "?parts = [a, ''cwd'']" by auto
      then show ?thesis using k(2) by (simp add: proc_Readlink_def Let_def)
    next
      case 3
      from put [OF fd_part [OF 3(1) refl t 3(2)]] obtain a where a: "?parts = [a, ''fd'', trimPrefix ?sub ''fd/'']" by blast
      obtain y where y: "trimPrefix ?sub ''fd/'' = y" by simp
      show ?thesis using 3(2,3) k(2) a unfolding y by (auto simp: proc_Readlink_def open_file_def Let_def)
    qed
  qed
qed

text \<open>A process whose argument names a script: its \<open>/proc/self/exe\<close> is a link.\<close>

lemma demo_link: "classify (\<lambda>ms. ms) 0 ''/self/exe/'' p = (Some PLnk, p)"
  by (simp add: classify_def Let_def trimSlashes_def trimRightSlash_def staticText_def classify_pid_def)

lemma proc_links_resolve_witness: "proc_Readlink ''/self/exe/'' (demo_proc) \<noteq> None"
  using proc_links_resolve [OF demo_link [of demo_proc]] by simp

section \<open>Listings\<close>

lemma trimSlashes_id: "s \<noteq> [] \<Longrightarrow> hd s \<noteq> slash \<Longrightarrow> last s \<noteq> slash \<Longrightarrow> trimSlashes s = s"
  using dropWhile_eq_self_iff [of "\<lambda>c. c = slash" s] dropWhile_eq_self_iff [of "\<lambda>c. c = slash" "rev s"]
  by (simp add: trimSlashes_def trimRightSlash_def hd_rev)

lemma names_ok: "n \<in> set (map (before_slash \<circ> fst) (staticText boot p)) \<Longrightarrow>
    n \<in> {''version'', ''uptime'', ''loadavg'', ''meminfo'', ''cpuinfo'', ''stat'', ''filesystems'', ''cmdline'', ''sys''}"
  by (auto simp: staticText_def Let_def before_slash_def)

lemma known_pid_files: "fst ` set (pidFiles pid p) = {''cmdline'', ''status'', ''comm''}"
  by (auto simp: pidFiles_def Let_def)

lemma static_names: "fst ` set (staticText boot p) = {''version'', ''uptime'', ''loadavg'', ''meminfo'', ''cpuinfo'', ''stat'',
    ''filesystems'', ''cmdline'', ''sys/kernel/hostname'', ''sys/kernel/osrelease'', ''sys/kernel/ostype''}"
  by (simp add: staticText_def Let_def)

lemma classify_static: "n \<in> fst ` set (staticText boot p) \<Longrightarrow> fst (classify perm boot n p) \<noteq> None"
proof -
  assume n: "n \<in> fst ` set (staticText boot p)"
  then have "n \<noteq> [] \<and> hd n \<noteq> slash \<and> last n \<noteq> slash \<and> n \<noteq> ''mounts'' \<and> n \<noteq> ''.''"
    unfolding static_names by (elim insertE) simp_all
  with n show ?thesis by (auto simp: classify_def Let_def trimSlashes_id map_of_eq_None_iff split: option.splits)
qed

text \<open>Inside the directory of a process, by its number or as \<open>self\<close>.\<close>

lemma classify_inside:
  assumes f: "first = ''self'' \<or> first = Itoa (pd_pid (pr_data p)) \<and> 0 \<le> pd_pid (pr_data p)"
    and sub: "sub \<noteq> []" "last sub \<noteq> slash"
    and ex: "\<And>pid. classify_pid pid sub p \<noteq> None"
  shows "fst (classify perm boot (first @ slash # sub) p) \<noteq> None"
proof -
  have first: "first \<noteq> []" "slash \<notin> set first" "first = ''self'' \<or> isDigits first"
    using f Itoa_digits [of "pd_pid (pr_data p)"] isDigits_no_slash [of "Itoa (pd_pid (pr_data p))"] by auto
  have first_hd: "hd first \<noteq> slash" using hd_in_set [OF first(1)] first(2) by metis
  let ?r = "first @ slash # sub"
  have t: "trimSlashes ?r = ?r"
    using first(1) first_hd sub by (intro trimSlashes_id) (auto simp: hd_append)
  have sp: "split_slash ?r = first # split_slash sub"
    using split_append [of first sub] split_no_slash [OF first(2)] by simp
  have ne: "?r \<noteq> s" if "hd (split_slash s) \<noteq> first \<or> length (split_slash s) < 2" for s
    using that sp by (cases "split_slash sub") auto
  have "hd (split_slash k) \<noteq> first" if "k \<in> fst ` set (staticText boot p)" for k
    using that first(3) unfolding static_names by (elim insertE) (auto simp: isDigits_def is_digit_def)
  then have "map_of (staticText boot p) ?r = None" using ne by (force simp: map_of_eq_None_iff)
  moreover have "?r \<noteq> '''' \<and> ?r \<noteq> ''.'' \<and> ?r \<noteq> ''mounts'' \<and> ?r \<noteq> ''sys'' \<and> ?r \<noteq> ''sys/kernel''"
    using first(3) by (intro conjI ne; auto simp: isDigits_def is_digit_def)
  ultimately show ?thesis using ex first(3) sp join_split [of sub]
    unfolding classify_def Let_def t by auto
qed

lemma classify_pid_known: "n \<in> {''cmdline'', ''status'', ''comm'', ''cwd'', ''exe'', ''fd''} \<Longrightarrow> classify_pid pid n p \<noteq> None"
  by (elim insertE) (simp_all add: classify_pid_def pidFiles_def Let_def hasPrefix_def)

lemma classify_top:
  assumes "n \<in> {''self'', ''mounts'', ''sys''} \<or> isDigits n"
  shows "fst (classify perm boot n p) \<noteq> None"
proof -
  have n: "n \<noteq> []" "slash \<notin> set n" using assms isDigits_no_slash by auto
  then have "trimSlashes n = n" by (intro trimSlashes_id) (auto dest: hd_in_set last_in_set)
  with n assms show ?thesis
    by (auto simp: classify_def Let_def split_no_slash split: option.splits prod.splits)
qed

text \<open>
  C40. Every name a directory of /proc lists exists there: joined to the directory's path, it is
  classified. The order in which Go visits the descriptors is any that gives open ones.
\<close>

theorem proc_listing_exists:
  assumes d: "d \<noteq> ''.''" and name: "name \<in> set (proc_Listdir ord boot d p)" and pid: "0 \<le> pd_pid (pr_data p)"
    and fds: "\<forall>fd \<in> set (ord (pd_fds (pr_data p))). 0 \<le> fd \<and> fd < 2 ^ 63 \<and> Get fd (pd_fds (pr_data p)) \<noteq> None"
  shows "fst (classify perm boot (if d = '''' then name else d @ ''/'' @ name) p) \<noteq> None"
proof -
  let ?pid = "Itoa (pd_pid (pr_data p))"
  let ?dirs = "{''self'', ?pid}"
  have inside: "fst (classify perm boot (first @ slash # sub) p) \<noteq> None"
    if "first \<in> ?dirs" "sub \<noteq> []" "last sub \<noteq> slash" "\<And>n. classify_pid n sub p \<noteq> None" for first sub
    using that pid by (intro classify_inside) auto
  have pd: "?pid \<noteq> '''' \<and> ?pid \<noteq> ''sys'' \<and> ?pid \<noteq> ''sys/kernel'' \<and> slash \<notin> set ?pid"
    using Itoa_digits [OF pid] isDigits_no_slash [of ?pid] by (auto simp: isDigits_def is_digit_def)
  consider "d = ''''" | "d = ''sys''" | "d = ''sys/kernel''" | "d \<in> ?dirs" | first where "first \<in> ?dirs" "d = first @ ''/fd''"
    using name d by (fastforce simp: proc_Listdir_def Let_def split: if_split_asm)
  then show ?thesis
  proof cases
    case 1
    have "name \<in> {''version'', ''uptime'', ''loadavg'', ''meminfo'', ''cpuinfo'', ''stat'', ''filesystems'', ''cmdline''}
        \<or> name \<in> {''self'', ''mounts'', ''sys''} \<or> isDigits name"
      using name 1 names_ok [of name boot p] Itoa_digits [OF pid]
      by (auto simp: proc_Listdir_def Let_def sort_strings_def)
    then show ?thesis using 1 classify_top [of name] classify_static [of name boot p] unfolding static_names by auto
  next
    case 2
    then show ?thesis using name by (auto simp: proc_Listdir_def Let_def classify_def trimSlashes_id split: option.splits)
  next
    case 3
    then have "name \<in> {''hostname'', ''osrelease'', ''ostype''}" using name by (auto simp: proc_Listdir_def Let_def)
    then have "d @ ''/'' @ name \<in> fst ` set (staticText boot p)" unfolding static_names 3 by (elim insertE) simp_all
    then show ?thesis using 3 classify_static by auto
  next
    case 4
    have dne: "d \<noteq> '''' \<and> d \<noteq> ''sys'' \<and> d \<noteq> ''sys/kernel''" using 4 pd by auto
    have "name \<in> {''cmdline'', ''status'', ''comm'', ''cwd'', ''exe'', ''fd''}"
      using name 4 dne d known_pid_files [of "pd_pid (pr_data p)" p] unfolding proc_Listdir_def Let_def
      by (auto simp: sort_strings_def)
    then show ?thesis using inside [OF 4, of name] dne classify_pid_known [of name] by auto
  next
    case 5
    then have "slash \<in> set d" "last d = CHR ''d''" by auto
    then have dne: "d \<noteq> '''' \<and> d \<noteq> ''sys'' \<and> d \<noteq> ''sys/kernel'' \<and> d \<notin> ?dirs" using pd by fastforce
    obtain fd where fd: "fd \<in> set (ord (pd_fds (pr_data p)))" "name = Itoa fd"
      using name 5 dne d unfolding proc_Listdir_def Let_def by (auto simp: sort_strings_def)
    have "classify_pid n (''fd/'' @ name) p \<noteq> None" for n
      using fd fds Atoi_Itoa [of fd] by (auto simp: classify_pid_def hasPrefix_def trimPrefix_def)
    moreover have nn: "name \<noteq> [] \<and> slash \<notin> set name"
      using isDigits_no_slash [of name] Itoa_digits [of fd] fd fds by auto
    moreover have "last name \<noteq> slash" using nn last_in_set by metis
    ultimately show ?thesis using 5 inside [OF 5(1), of "''fd/'' @ name"] dne by auto
  qed
qed

lemma digit_two: "char_of (50 :: nat) = CHR ''2''"
  by (simp add: char_of_def bit_0)

lemma proc_listing_exists_witness:
  "fst (classify (\<lambda>ms. ms) 0 ''self/fd/2'' (upd_data (\<lambda>d. d\<lparr>pd_pid := 7, pd_fds := (pd_fds d)\<lparr>t_entries := [2 \<mapsto> 5]\<rparr>\<rparr>) demo_proc)) \<noteq> None"
  (is "fst (classify _ _ _ ?p) \<noteq> None")
  using proc_listing_exists [of "''self/fd''" "''2''" "\<lambda>t. [2]" 0 ?p "\<lambda>ms. ms"]
  by (simp add: proc_Listdir_def Let_def Itoa_def itoa_digits.simps [of 7] itoa_digits.simps [of 2] itoa_digits.simps [of 0]
      sort_strings_def Get_def digit_two)

end
