(* ===== verification/Sse_Laws.thy ===== *)
theory Sse_Laws
  imports Sse
begin

unbundle bit_operations_syntax

text \<open>
  What the vector operations compute: lanes are independent, saturating arithmetic clamps the exact
  result, the byte shifts and PALIGNR are shifts of one wide number, packing undoes unpacking,
  extraction reads back what insertion wrote; and what an executed instruction changes.
\<close>

section \<open>Lanes\<close>

text \<open>Lane \<open>i\<close> of a word, for lanes of the width of the result type.\<close>

definition lane :: "nat \<Rightarrow> u64 \<Rightarrow> 'a::len word" where
  "lane i v = ucast (drop_bit (i * LENGTH('a)) v)"

lemma bit_lane: "bit (lane i v :: 'a::len word) j \<longleftrightarrow> j < LENGTH('a) \<and> bit v (i * LENGTH('a) + j)"
  by (auto simp: lane_def bit_simps dest: bit_imp_le_length)

text \<open>The loop all lane operations share: \<open>acc |= g(i) << (i * width)\<close>.\<close>

lemma bit_put_loop:
  fixes g :: "nat \<Rightarrow> 'a::len word"
  assumes "n * LENGTH('a) \<le> 64"
  shows "bit (fold (\<lambda>i acc. acc OR push_bit (i * LENGTH('a)) (ucast (g i))) [0..<n] (0 :: u64)) k \<longleftrightarrow>
    k < n * LENGTH('a) \<and> bit (g (k div LENGTH('a))) (k mod LENGTH('a))"
    (is "bit (?w n) k \<longleftrightarrow> _")
  using assms
proof (induction n)
  case (Suc n)
  let ?L = "LENGTH('a)"
  have n: "n * ?L \<le> 64" using Suc.prems by simp
  have step: "?w (Suc n) = ?w n OR push_bit (n * ?L) (ucast (g n))" by simp
  have pushed: "bit (push_bit (n * ?L) (ucast (g n)) :: u64) k \<longleftrightarrow>
      n * ?L \<le> k \<and> k < 64 \<and> k - n * ?L < ?L \<and> bit (g n) (k - n * ?L)"
    by (auto simp: bit_simps dest: bit_imp_le_length)
  consider "k < n * ?L" | "n * ?L + ?L \<le> k" | j where "k = n * ?L + j" "j < ?L"
    by (metis le_add_diff_inverse less_diff_conv2 linorder_not_less nat_add_left_cancel_less)
  then show ?case
  proof cases
    case 1
    then show ?thesis unfolding step bit_or_iff pushed Suc.IH [OF n] by simp
  next
    case 2
    then have "\<not> k - n * ?L < ?L" "\<not> k < Suc n * ?L" "\<not> k < n * ?L" by simp_all
    then show ?thesis unfolding step bit_or_iff pushed Suc.IH [OF n] by blast
  next
    case 3
    then have "k div ?L = n" "k mod ?L = j" "k < 64" using Suc.prems by simp_all
    with 3 show ?thesis unfolding step bit_or_iff pushed Suc.IH [OF n] by simp
  qed
qed simp

lemma lane_put_loop:
  fixes g :: "nat \<Rightarrow> 'a::len word"
  assumes "n * LENGTH('a) \<le> 64" "i < n"
  shows "lane i (fold (\<lambda>i acc. acc OR push_bit (i * LENGTH('a)) (ucast (g i))) [0..<n] (0 :: u64)) = g i"
proof (rule bit_word_eqI)
  fix j assume j: "j < LENGTH('a)"
  have "i * LENGTH('a) + j < Suc i * LENGTH('a)" using j by simp
  also have "\<dots> \<le> n * LENGTH('a)" using assms(2) by (intro mult_right_mono) auto
  finally show "bit (lane i (fold (\<lambda>i acc. acc OR push_bit (i * LENGTH('a)) (ucast (g i))) [0..<n] (0 :: u64)) :: 'a word) j
      = bit (g i) j"
    using j by (simp add: bit_lane bit_put_loop [OF assms(1)])
qed

lemma lane_lane_loop:
  fixes f :: "'a::len word \<Rightarrow> 'a word \<Rightarrow> 'a word"
  assumes "n * LENGTH('a) \<le> 64" "i < n"
  shows "lane i (lane_loop n f a b) = f (lane i a) (lane i b)"
  using lane_put_loop [OF assms, of "\<lambda>i. f (lane i a) (lane i b)"] by (simp add: lane_loop_def lane_def Let_def)

text \<open>Two words with the same lanes are equal.\<close>

lemma lanes_eqI:
  assumes "\<And>i. i * LENGTH('a::len) < 64 \<Longrightarrow> (lane i x :: 'a word) = lane i y"
  shows "x = y"
proof (rule bit_word_eqI)
  fix k assume k: "k < LENGTH(64)"
  let ?L = "LENGTH('a)"
  have "(k div ?L) * ?L < 64" by (rule le_less_trans [OF div_times_less_eq_dividend]) (use k in simp)
  from assms [OF this] have "bit (lane (k div ?L) x :: 'a word) (k mod ?L) = bit (lane (k div ?L) y :: 'a word) (k mod ?L)"
    by simp
  then show "bit x k = bit y k" by (simp add: bit_lane)
qed

text \<open>
  The lane helpers apply their function lane by lane: lane \<open>i\<close> of either half of the result is
  the function of the lanes \<open>i\<close> of the operands, for 8-, 16-, 32- and 64-bit lanes, and nothing
  carries from one lane into another. Every packed integer instruction is one of these with the
  function of its lane.
\<close>

theorem packed_lanes:
  "(\<forall>i<8. lane i (fst (lane8 a a' b b' f8)) = f8 (lane i a) (lane i b) \<and>
          lane i (snd (lane8 a a' b b' f8)) = f8 (lane i a') (lane i b')) \<and>
   (\<forall>i<4. lane i (fst (lane16 a a' b b' f16)) = f16 (lane i a) (lane i b) \<and>
          lane i (snd (lane16 a a' b b' f16)) = f16 (lane i a') (lane i b')) \<and>
   (\<forall>i<2. lane i (fst (lane32 a a' b b' f32)) = f32 (lane i a) (lane i b) \<and>
          lane i (snd (lane32 a a' b b' f32)) = f32 (lane i a') (lane i b')) \<and>
   lane64 a a' b b' f64 = (f64 a b, f64 a' b')"
  by (simp add: lane8_def lane16_def lane32_def lane64_def lane_lane_loop)

theorem packed_lanes_witness:
  "ssePaddb 0xFF01 0 0x0102 0 = (0x03, 0) \<and> (lane 1 (fst (ssePaddb 0xFF01 0 0x0102 0)) :: u8) = 0"
proof -
  have "fst (ssePaddb 0xFF01 0 0x0102 0) = 0x03" "snd (ssePaddb 0xFF01 0 0x0102 0) = 0"
    by (simp_all add: ssePaddb_def lane8_def lane_loop_def upt_rec)
  moreover have "lane 1 (fst (ssePaddb 0xFF01 0 0x0102 0)) = (lane 1 0xFF01 + lane 1 0x0102 :: u8)"
    using packed_lanes [of "0xFF01" 0 "0x0102" 0 "\<lambda>a b. a + b"] by (simp add: ssePaddb_def)
  ultimately show ?thesis by (simp add: lane_def prod_eq_iff)
qed

section \<open>Saturating arithmetic\<close>

lemma sint_word_of_int_small: "- (2 ^ (LENGTH('a) - 1)) \<le> s \<Longrightarrow> s < 2 ^ (LENGTH('a) - 1) \<Longrightarrow> sint (word_of_int s :: 'a::len word) = s"
  by (simp add: signed_of_int signed_take_bit_int_eq_self)

lemma uint_word_of_int_small: "0 \<le> s \<Longrightarrow> s < 2 ^ LENGTH('a) \<Longrightarrow> uint (word_of_int s :: 'a::len word) = s"
  by (simp add: uint_word_of_int)

lemma sint_clamp_s8: "sint (clamp_s8 s) = max (- 128) (min 127 s)"
  using sint_word_of_int_small [where 'a = 8, of s] by (simp add: clamp_s8_def)

lemma sint_clamp_s16: "sint (clamp_s16 s) = max (- 32768) (min 32767 s)"
  using sint_word_of_int_small [where 'a = 16, of s] by (simp add: clamp_s16_def)

lemma uint_add_small: "uint a + uint b < 2 ^ LENGTH('a) \<Longrightarrow> uint (a + b) = uint a + uint b" for a b :: "'a::len word"
  by (simp add: uint_add_lem)

lemma uint_saturateAddU8: "uint (saturateAddU8 a b) = min 255 (uint a + uint b)"
  using uint_add_small [where 'a = 8, of a b] by (auto simp: saturateAddU8_def Let_def)

lemma uint_saturate_add16:
  "uint (let s = uint a + uint b in if s > 0xFFFF then 0xFFFF else word_of_int s :: u16) = min 65535 (uint a + uint b)"
  for a b :: u16
  using uint_add_small [where 'a = 16, of a b] by (auto simp: Let_def)

lemma uint_sub_saturated: "uint (if a < b then 0 else a - b) = max 0 (uint a - uint b)" for a b :: "'a::len word"
  by (auto simp: word_less_def uint_sub_if_size max_def)

text \<open>
  C20. The saturating instructions clamp the exact sum or difference of their lanes, in either half
  of the register: PADDSB/PSUBSB to -128..127, PADDSW/PSUBSW to -32768..32767, PADDUSB and PADDUSW
  to 255 and 65535 from above, PSUBUSB and PSUBUSW to 0 from below. No lane wraps.
\<close>

theorem saturating_clamps:
  fixes a b a' b' :: u64
  assumes "h = fst \<or> h = snd" "i < 8" "j < 4"
  defines "x \<equiv> lane i (h (a, a')) :: u8" and "y \<equiv> lane i (h (b, b')) :: u8"
    and "u \<equiv> lane j (h (a, a')) :: u16" and "v \<equiv> lane j (h (b, b')) :: u16"
  shows "sint (lane i (h (ssePaddsb a a' b b')) :: u8) = max (- 128) (min 127 (sint x + sint y)) \<and>
   sint (lane i (h (ssePsubsb a a' b b')) :: u8) = max (- 128) (min 127 (sint x - sint y)) \<and>
   sint (lane j (h (ssePaddsw a a' b b')) :: u16) = max (- 32768) (min 32767 (sint u + sint v)) \<and>
   sint (lane j (h (ssePsubsw a a' b b')) :: u16) = max (- 32768) (min 32767 (sint u - sint v)) \<and>
   uint (lane i (h (ssePaddusb a a' b b')) :: u8) = min 255 (uint x + uint y) \<and>
   uint (lane j (h (ssePaddusw a a' b b')) :: u16) = min 65535 (uint u + uint v) \<and>
   uint (lane i (h (ssePsubusb a a' b b')) :: u8) = max 0 (uint x - uint y) \<and>
   uint (lane j (h (ssePsubusw a a' b b')) :: u16) = max 0 (uint u - uint v)"
  using assms(1-3) unfolding x_def y_def u_def v_def
  by (auto simp add: ssePaddsb_def ssePsubsb_def ssePaddsw_def ssePsubsw_def ssePaddusb_def ssePaddusw_def ssePsubusb_def
        ssePsubusw_def lane8_def lane16_def lane_lane_loop sint_clamp_s8 sint_clamp_s16 saturateAddS16_def
        saturateSubS16_def uint_saturateAddU8 saturateSubU8_def uint_sub_saturated uint_saturate_add16)

theorem saturating_clamps_witness:
  "sint (lane 0 (fst (ssePaddsb 0x7F 0 0x01 0)) :: u8) = 127 \<and> uint (lane 0 (fst (ssePsubusb 3 0 5 0)) :: u8) = 0"
  using saturating_clamps [of fst 0 0 "0x7F" 0 "0x01" 0] saturating_clamps [of fst 0 0 3 0 5 0] by (simp add: lane_def)

section \<open>Byte shifts of the whole register\<close>

text \<open>The 128-bit number a pair of words holds.\<close>

definition x128 :: "xmm \<Rightarrow> 128 word" where
  "x128 v = ucast (fst v) OR push_bit 64 (ucast (snd v))"

definition x256 :: "xmm \<Rightarrow> xmm \<Rightarrow> 256 word" where
  "x256 lo hi = ucast (x128 lo) OR push_bit 128 (ucast (x128 hi))"

lemma bit_x128: "bit (x128 v) k \<longleftrightarrow> (if k < 64 then bit (fst v) k else k < 128 \<and> bit (snd v) (k - 64))"
  by (auto simp: x128_def bit_simps dest: bit_imp_le_length)

lemma bit_x256: "bit (x256 lo hi) k \<longleftrightarrow> (if k < 128 then bit (x128 lo) k else k < 256 \<and> bit (x128 hi) (k - 128))"
  by (auto simp: x256_def bit_simps dest: bit_imp_le_length)

text \<open>Bit positions as byte indices.\<close>

lemma bytes_le: "8 * u \<le> k \<longleftrightarrow> u \<le> k div 8" for u k :: nat
  by (simp add: less_eq_div_iff_mult_less_eq mult.commute)

lemma bytes_less: "8 * u + k < 128 \<longleftrightarrow> u + k div 8 < 16" for u k :: nat
  using div_less_iff_less_mult [of 8 "8 * u + k" 16] by simp

lemma bytes_add: "8 * (u + k div 8) + k mod 8 = 8 * u + k" for u k :: nat
  by (simp add: distrib_left)

lemma bytes_sub:
  fixes u k :: nat
  assumes "u \<le> k div 8"
  shows "8 * (k div 8 - u) + k mod 8 = k - 8 * u"
proof -
  obtain d where d: "k div 8 = u + d" using le_Suc_ex [OF assms] by blast
  have "8 * d + m = n - 8 * u" if "n = 8 * (u + d) + m" for n m using that by (simp add: distrib_left)
  from this [of k "k mod 8"] show ?thesis by (simp add: d [symmetric]) (simp add: d)
qed

lemma bytes_back:
  fixes i r n :: nat
  assumes "\<not> i < 16" "8 * i + r = n"
  shows "8 * (i - 16) + r = n - 128"
  using assms by (simp add: diff_mult_distrib2)

lemma length_xmm_bytes [simp]: "length (xmm_bytes lo hi) = 16"
  by (simp add: xmm_bytes_def)

lemma bit_xmm_bytes: "i < 16 \<Longrightarrow> bit (xmm_bytes lo hi ! i) j \<longleftrightarrow> j < 8 \<and> bit (x128 (lo, hi)) (8 * i + j)"
proof -
  assume i: "i < 16"
  show ?thesis
  proof (cases "i < 8")
    case True
    then have "j < 8 \<Longrightarrow> 8 * i + j < 64" by simp
    then show ?thesis using True by (auto simp: xmm_bytes_def nth_append u64ToLE_bits bit_x128)
  next
    case False
    then have "xmm_bytes lo hi ! i = u64ToLE hi 8 ! (i - 8)" by (simp add: xmm_bytes_def nth_append)
    moreover have "8 * (i - 8) + j = 8 * i + j - 64" using False by simp
    ultimately show ?thesis using False i by (auto simp: u64ToLE_bits bit_x128)
  qed
qed

lemma bit_bytes_xmm:
  assumes "length bs = 16"
  shows "bit (x128 (bytes_xmm bs)) k \<longleftrightarrow> k < 128 \<and> bit (bs ! (k div 8)) (k mod 8)"
proof (cases "k < 64")
  case True
  then have "k div 8 < 8" by simp
  then show ?thesis using True assms by (simp add: bit_x128 bytes_xmm_def leToU64_bits)
next
  case False
  then obtain m where k: "k = 64 + m" by (metis le_add_diff_inverse linorder_not_less)
  have "(64 + m) div 8 = 8 + m div 8" "(64 + m) mod 8 = m mod 8" using mod_add_left_eq [of 64 8 m] by simp_all
  then show ?thesis using assms unfolding k by (auto simp: bit_x128 bytes_xmm_def leToU64_bits)
qed

lemma pslldq_shift: "x128 (ssePslldq lo hi imm) = push_bit (8 * unat imm) (x128 (lo, hi))"
proof (rule bit_word_eqI)
  fix k assume k: "k < LENGTH(128)"
  show "bit (x128 (ssePslldq lo hi imm)) k = bit (push_bit (8 * unat imm) (x128 (lo, hi))) k"
  proof (cases "unat imm \<ge> 16")
    case False
    have "k div 8 - unat imm < 16" using k by simp
    with False show ?thesis using k
      by (simp add: ssePslldq_def Let_def bit_bytes_xmm nth_append bit_push_bit_iff bytes_le) (auto simp: bit_xmm_bytes bytes_sub)
  qed (use k in \<open>simp add: ssePslldq_def Let_def bit_x128 bit_push_bit_iff\<close>)
qed

lemma psrldq_shift: "x128 (ssePsrldq lo hi imm) = drop_bit (8 * unat imm) (x128 (lo, hi))"
proof (rule bit_word_eqI)
  fix k assume k: "k < LENGTH(128)"
  show "bit (x128 (ssePsrldq lo hi imm)) k = bit (drop_bit (8 * unat imm) (x128 (lo, hi))) k"
  proof (cases "unat imm \<ge> 16")
    case False
    have out: "\<not> bit (x128 (lo, hi)) (8 * unat imm + k)" if "16 \<le> unat imm + k div 8"
      using that by (auto simp: bit_x128)
    with False show ?thesis using k
      by (simp add: ssePsrldq_def Let_def bit_bytes_xmm nth_append bit_drop_bit_eq) (auto simp: bit_xmm_bytes bytes_add add.commute [of k])
  qed (use k in \<open>auto simp: ssePsrldq_def Let_def bit_x128 bit_drop_bit_eq\<close>)
qed

lemma palignr_window:
  assumes "unat imm \<le> 16"
  shows "x128 (bytes_xmm (take 16 (drop (unat imm) (xmm_bytes slo shi @ xmm_bytes dlo dhi)))) =
    ucast (drop_bit (8 * unat imm) (x256 (slo, shi) (dlo, dhi)))"
proof (rule bit_word_eqI)
  let ?bs = "take 16 (drop (unat imm) (xmm_bytes slo shi @ xmm_bytes dlo dhi))"
  have len: "length ?bs = 16" using assms by simp
  fix k assume k: "k < LENGTH(128)"
  let ?i = "unat imm + k div 8"
  have i: "?i < 32" "8 * ?i + k mod 8 = 8 * unat imm + k" "k div 8 < 16" using assms k by simp_all
  have nth: "?bs ! (k div 8) = (if ?i < 16 then xmm_bytes slo shi ! ?i else xmm_bytes dlo dhi ! (?i - 16))"
  proof -
    have "?bs ! (k div 8) = (xmm_bytes slo shi @ xmm_bytes dlo dhi) ! ?i"
      using i(3) assms by (subst nth_take, simp, subst nth_drop) simp_all
    then show ?thesis by (simp only: nth_append length_xmm_bytes)
  qed
  have hi: "8 * (?i - 16) + k mod 8 = 8 * unat imm + k - 128" if "\<not> ?i < 16" by (rule bytes_back [OF that i(2)])
  have "8 * unat imm + k < 256" using assms k by simp
  then show "bit (x128 (bytes_xmm ?bs)) k = bit (ucast (drop_bit (8 * unat imm) (x256 (slo, shi) (dlo, dhi))) :: 128 word) k"
    unfolding bit_bytes_xmm [OF len] nth
    using k i hi bytes_less [of "unat imm" k] by (auto simp: bit_xmm_bytes bit_ucast_iff bit_drop_bit_eq bit_x256 add.commute [of k])
qed

lemma palignr_beyond: "32 \<le> k \<Longrightarrow> x128 (0, 0) = ucast (drop_bit (8 * k) (x256 a b))"
  by (rule bit_word_eqI) (auto simp: bit_x128 bit_ucast_iff bit_drop_bit_eq bit_x256)

text \<open>
  C21. PSLLDQ and PSRLDQ are the shifts of the 128-bit number the register holds by eight times the
  immediate, zero when it is 16 or more; PALIGNR is the shift of the 256-bit concatenation of
  destination and source, cut to 128 bits, for an immediate up to 16, and zero from 32 on. For 17 to
  31 the slice leaves the 32-byte array and the Go code panics.
\<close>

theorem byte_shifts:
  "x128 (ssePslldq lo hi imm) = push_bit (8 * unat imm) (x128 (lo, hi)) \<and>
   x128 (ssePsrldq lo hi imm) = drop_bit (8 * unat imm) (x128 (lo, hi)) \<and>
   (case ssePalignr dlo dhi slo shi imm of
      None \<Rightarrow> 17 \<le> unat imm \<and> unat imm \<le> 31
    | Some v \<Rightarrow> (unat imm \<le> 16 \<or> 32 \<le> unat imm) \<and>
        x128 v = ucast (drop_bit (8 * unat imm) (x256 (slo, shi) (dlo, dhi))))"
  using pslldq_shift psrldq_shift palignr_window [of imm slo shi dlo dhi] palignr_beyond [of "unat imm"]
  by (auto simp: ssePalignr_def Let_def)

section \<open>Unpacking and packing\<close>

lemma lane_pack_words:
  assumes "i < 8"
  shows "lane i (pack_words pack lo hi) = pack (if i < 4 then lane i lo else lane (i - 4) hi)"
  using lane_put_loop [where 'a = 8, of 8 i "\<lambda>i. pack (ucast (if i < 4 then drop_bit (i * 16) lo else drop_bit ((i - 4) * 16) hi))"] assms
  by (simp add: pack_words_def Let_def lane_def)

lemma punpcklbw_words:
  "ssePunpcklbw d x s y = (fold (\<lambda>i acc. acc OR push_bit (i * LENGTH(16)) (ucast (ucast (lane i d :: u8) OR push_bit 8 (ucast (lane i s :: u8)) :: u16))) [0..<4] 0,
     fold (\<lambda>i acc. acc OR push_bit (i * LENGTH(16)) (ucast (ucast (lane (i + 4) d :: u8) OR push_bit 8 (ucast (lane (i + 4) s :: u8)) :: u16))) [0..<4] 0)"
proof -
  have w: "push_bit k (ucast (ucast a OR push_bit 8 (ucast b) :: u16)) = (push_bit k (ucast a) OR push_bit (k + 8) (ucast b) :: u64)"
    for a b :: u8 and k
    by (rule bit_word_eqI) (auto simp: bit_simps dest: bit_imp_le_length)
  show ?thesis
    unfolding w by (simp add: ssePunpcklbw_def lane_def Let_def upt_rec or.assoc)
qed

lemma lane_punpcklbw:
  assumes "i < 4"
  shows "lane i (fst (ssePunpcklbw d x s y)) = (ucast (lane i d :: u8) OR push_bit 8 (ucast (lane i s :: u8)) :: u16)"
    "lane i (snd (ssePunpcklbw d x s y)) = (ucast (lane (i + 4) d :: u8) OR push_bit 8 (ucast (lane (i + 4) s :: u8)) :: u16)"
  unfolding punpcklbw_words fst_conv snd_conv using assms by (subst lane_put_loop; simp)+

lemma pack_us_byte: "pack_us (ucast b) = b" for b :: u8
proof -
  have b: "0 \<le> uint b" "uint b < 256" using unsigned_less [of b, where ?'a = int] by simp_all
  have "signed_take_bit 15 (uint b) = uint b" by (rule signed_take_bit_int_eq_self, rule order_trans [OF _ b(1)]) (use b in simp_all)
  then have "sint (ucast b :: u16) = uint b" using b by (simp add: sint_uint unsigned_ucast_eq take_bit_int_eq_self)
  moreover have "ucast (ucast b :: u16) = b" by (rule bit_word_eqI) (simp add: bit_ucast_iff)
  ultimately show ?thesis using b by (simp add: pack_us_def not_less)
qed

text \<open>
  PACKUSWB undoes the widening of bytes to words: unpacking the two halves of any register
  against zero (PUNPCKLBW, PUNPCKHBW) and packing the two results gives the register back.
\<close>

theorem unpack_pack:
  "(let l = ssePunpcklbw lo hi 0 0; h = ssePunpckhbw lo hi 0 0 in
     ssePackuswb (fst l) (snd l) (fst h) (snd h)) = (lo, hi)"
proof -
  have "pack_words pack_us (fst (ssePunpcklbw v x 0 0)) (snd (ssePunpcklbw v x 0 0)) = v" for v x
  proof (rule lanes_eqI [where 'a = 8])
    fix i :: nat assume "i * LENGTH(8) < 64"
    then have i: "i < 8" by simp
    have z: "(lane j 0 :: u8) = 0" for j by (simp add: lane_def)
    show "(lane i (pack_words pack_us (fst (ssePunpcklbw v x 0 0)) (snd (ssePunpcklbw v x 0 0))) :: u8) = lane i v"
    proof (cases "i < 4")
      case True
      then show ?thesis using i by (simp add: lane_pack_words lane_punpcklbw z pack_us_byte)
    next
      case False
      then have "i - 4 < 4" "i - 4 + 4 = i" using i by simp_all
      with False show ?thesis using i by (simp add: lane_pack_words lane_punpcklbw z pack_us_byte)
    qed
  qed
  then show ?thesis by (simp add: ssePackuswb_def ssePunpckhbw_def Let_def)
qed

section \<open>Inserting and extracting lanes\<close>

lemma bit_insert_lane:
  fixes d :: u64
  assumes "LENGTH('a::len) = L" "m = mask L" "s + L \<le> 64"
  shows "bit ((d AND NOT (push_bit s m)) OR push_bit s (ucast (v :: 'a word))) k \<longleftrightarrow>
    (if s \<le> k \<and> k < s + L then bit v (k - s) else bit d k)"
  using assms by (auto simp: bit_simps dest: bit_imp_le_length)

lemma lane_masks: "(0xFF :: u64) = mask 8" "(0xFFFF :: u64) = mask 16" "(0xFFFFFFFF :: u64) = mask 32"
  by (simp_all add: mask_eq_exp_minus_1)

lemma lane_insert:
  fixes v :: "'a::len word" and d :: u64
  assumes "m = mask (LENGTH('a))" "Suc i * LENGTH('a) \<le> 64" "Suc j * LENGTH('a) \<le> 64"
  shows "lane j ((d AND NOT (push_bit (i * LENGTH('a)) m)) OR push_bit (i * LENGTH('a)) (ucast v)) = (if j = i then v else lane j d)"
proof (rule bit_word_eqI)
  let ?L = "LENGTH('a)"
  fix n assume n: "n < LENGTH('a)"
  have "i * ?L + ?L \<le> 64" using assms(2) by simp
  note b = bit_insert_lane [OF refl assms(1) this]
  have "i * ?L \<le> j * ?L + n \<and> j * ?L + n < i * ?L + ?L \<longleftrightarrow> j = i"
  proof
    assume a: "i * ?L \<le> j * ?L + n \<and> j * ?L + n < i * ?L + ?L"
    show "j = i"
    proof (rule ccontr)
      assume "j \<noteq> i"
      then consider "Suc j \<le> i" | "Suc i \<le> j" by linarith
      then show False
      proof cases
        case 1
        then have "Suc j * ?L \<le> i * ?L" by (rule mult_right_mono) simp
        then show False using a n by simp
      next
        case 2
        then have "Suc i * ?L \<le> j * ?L" by (rule mult_right_mono) simp
        then show False using a by simp
      qed
    qed
  qed (use n in simp)
  then show "bit (lane j ((d AND NOT (push_bit (i * ?L) m)) OR push_bit (i * ?L) (ucast v)) :: 'a word) n = bit (if j = i then v else lane j d) n"
    using n by (auto simp: bit_lane b)
qed


lemma get8_lane: "get8 lo hi i = (if i < 8 then lane i lo else lane (i - 8) hi)"
  by (simp add: get8_def lane_def)

lemma get16_lane: "get16 v i = lane i v"
  by (simp add: get16_def lane_def)

lemma get32_lane: "get32 lo hi i = (if i < 2 then lane i lo else lane (i - 2) hi)"
  by (simp add: get32_def lane_def)

lemma imm_field: "unat (imm AND 0xF :: u8) < 16" "unat (imm AND 7 :: u8) < 8" "unat (imm AND 3 :: u8) < 4"
proof -
  have "imm AND 0xF = take_bit 4 imm" "imm AND 7 = take_bit 3 imm" "imm AND 3 = take_bit 2 imm"
    by (simp_all add: take_bit_eq_mask mask_eq_exp_minus_1)
  then show "unat (imm AND 0xF) < 16" "unat (imm AND 7) < 8" "unat (imm AND 3) < 4"
    by (simp_all only: unat_take_bit_mod) simp_all
qed

text \<open>
  Extracting a lane from a register into which a value was inserted gives the value at the index
  it was inserted at and the register's own lane at every other, for the byte, word, doubleword and
  quadword forms; the index is the low bits of the immediate.
\<close>

theorem insert_extract:
  "ssePextrb (fst (ssePinsrb lo hi b i)) (snd (ssePinsrb lo hi b i)) j =
     (if j AND 0xF = i AND 0xF then b else ssePextrb lo hi j) \<and>
   ssePextrw (fst (ssePinsrw lo hi w i)) (snd (ssePinsrw lo hi w i)) j =
     (if j AND 7 = i AND 7 then w else ssePextrw lo hi j) \<and>
   ssePextrd (fst (ssePinsrd lo hi d i)) (snd (ssePinsrd lo hi d i)) j =
     (if j AND 3 = i AND 3 then d else ssePextrd lo hi j) \<and>
   ssePextrq (fst (ssePinsrq lo hi q i)) (snd (ssePinsrq lo hi q i)) j =
     (if j AND 1 = i AND 1 then q else ssePextrq lo hi j)"
proof (intro conjI)
  show "ssePextrb (fst (ssePinsrb lo hi b i)) (snd (ssePinsrb lo hi b i)) j =
     (if j AND 0xF = i AND 0xF then b else ssePextrb lo hi j)"
  proof -
    define x y where "x = unat (i AND 0xF)" and "y = unat (j AND 0xF)"
    have less: "x < 16" "y < 16" unfolding x_def y_def by (simp_all only: imm_field)
    note ins = lane_insert [where 'a = 8, of "0xFF"]
    have "(let r = ssePinsrb lo hi b i in if y < 8 then lane y (fst r) else lane (y - 8) (snd r)) =
        (if y = x then b else if y < 8 then lane y lo else lane (y - 8) hi)"
      using less ins [of x y lo b] ins [of "x - 8" "y - 8" hi b]
      unfolding ssePinsrb_def x_def [symmetric] Let_def
      by (auto simp: lane_masks diff_mult_distrib)
    then show ?thesis
      unfolding ssePextrb_def y_def [symmetric] word_unat_eq_iff [of "j AND 0xF"] x_def [symmetric] Let_def
      by (simp add: get8_lane get16_lane get32_lane cong: if_cong)
  qed
next
  show "ssePextrw (fst (ssePinsrw lo hi w i)) (snd (ssePinsrw lo hi w i)) j =
     (if j AND 7 = i AND 7 then w else ssePextrw lo hi j)"
  proof -
    define x y where "x = unat (i AND 7)" and "y = unat (j AND 7)"
    have less: "x < 8" "y < 8" unfolding x_def y_def by (simp_all only: imm_field)
    note ins = lane_insert [where 'a = 16, of "0xFFFF"]
    have "(let r = ssePinsrw lo hi w i in if y < 4 then lane y (fst r) else lane (y - 4) (snd r)) =
        (if y = x then w else if y < 4 then lane y lo else lane (y - 4) hi)"
      using less ins [of x y lo w] ins [of "x - 4" "y - 4" hi w]
      unfolding ssePinsrw_def x_def [symmetric] Let_def
      by (auto simp: lane_masks diff_mult_distrib)
    then show ?thesis
      unfolding ssePextrw_def y_def [symmetric] word_unat_eq_iff [of "j AND 7"] x_def [symmetric] Let_def
      by (simp add: get8_lane get16_lane get32_lane cong: if_cong)
  qed
next
  show "ssePextrd (fst (ssePinsrd lo hi d i)) (snd (ssePinsrd lo hi d i)) j =
     (if j AND 3 = i AND 3 then d else ssePextrd lo hi j)"
  proof -
    define x y where "x = unat (i AND 3)" and "y = unat (j AND 3)"
    have less: "x < 4" "y < 4" unfolding x_def y_def by (simp_all only: imm_field)
    note ins = lane_insert [where 'a = 32, of "0xFFFFFFFF"]
    have "(let r = ssePinsrd lo hi d i in if y < 2 then lane y (fst r) else lane (y - 2) (snd r)) =
        (if y = x then d else if y < 2 then lane y lo else lane (y - 2) hi)"
      using less ins [of x y lo d] ins [of "x - 2" "y - 2" hi d]
      unfolding ssePinsrd_def x_def [symmetric] Let_def
      by (auto simp: lane_masks diff_mult_distrib)
    then show ?thesis
      unfolding ssePextrd_def y_def [symmetric] word_unat_eq_iff [of "j AND 3"] x_def [symmetric] Let_def
      by (simp add: get8_lane get16_lane get32_lane cong: if_cong)
  qed
next
  have one: "x AND 1 = (if x AND 1 = 0 then 0 else 1)" for x :: u8
    by (simp add: and_one_eq mod_2_eq_odd)
  show "ssePextrq (fst (ssePinsrq lo hi q i)) (snd (ssePinsrq lo hi q i)) j =
     (if j AND 1 = i AND 1 then q else ssePextrq lo hi j)"
    using one [of i] one [of j] by (auto simp: ssePextrq_def ssePinsrq_def split: if_splits)
qed

end
