(* ===== verification/Sse_Run.thy ===== *)
theory Sse_Run
  imports Sse_Ext Sse_Laws
begin

unbundle bit_operations_syntax

text \<open>
  The decoder with the vector opcodes in place, end to end: an assembled packed instruction decodes
  to its operation, any decoded instruction is well formed and safe to run, a vector instruction
  that fails leaves every register alone, and a vector stored to memory is loaded back.
\<close>

section \<open>Assembling a packed instruction\<close>

text \<open>66 REX 0F op /r.\<close>

definition asm_sse :: "u8 \<Rightarrow> ea \<Rightarrow> nat \<Rightarrow> u8 list" where
  "asm_sse op2 x reg = 0x66 # rex_byte (8 \<le> reg) (ea_X x) (ea_B x) # 0x0F # op2 # asm_modrm reg x"

text \<open>The packed integer operations with two operands of 16 bytes, as the instruction set lists them.\<close>

definition packed_table :: "(u8 \<times> xmm_op) list" where
  "packed_table =
    [(0x60, ssePunpcklbw), (0x61, ssePunpcklwd), (0x62, ssePunpckldq), (0x63, ssePacksswb), (0x64, ssePcmpgtb),
     (0x65, ssePcmpgtw), (0x66, ssePcmpgtd), (0x67, ssePackuswb), (0x68, ssePunpckhbw), (0x69, ssePunpckhwd),
     (0x6A, ssePunpckhdq), (0x6B, ssePackssdw), (0x6C, ssePunpcklqdq), (0x6D, ssePunpckhqdq),
     (0x74, ssePcmpeqb), (0x75, ssePcmpeqw), (0x76, ssePcmpeqd), (0xD4, ssePaddq), (0xD5, ssePmullw),
     (0xD8, ssePsubusb), (0xD9, ssePsubusw), (0xDA, ssePminub), (0xDB, ssePand), (0xDC, ssePaddusb),
     (0xDD, ssePaddusw), (0xDE, ssePmaxub), (0xDF, ssePandn), (0xE0, ssePavgb), (0xE3, ssePavgw),
     (0xE4, ssePmulhuw), (0xE5, ssePmulhw), (0xE8, ssePsubsb), (0xE9, ssePsubsw), (0xEA, ssePminsw),
     (0xEB, ssePor), (0xEC, ssePaddsb), (0xED, ssePaddsw), (0xEE, ssePmaxsw), (0xEF, ssePxor),
     (0xF4, ssePmuludq), (0xF5, ssePmaddwd), (0xF6, ssePsadbw), (0xF8, ssePsubb), (0xF9, ssePsubw),
     (0xFA, ssePsubd), (0xFB, ssePsubq), (0xFC, ssePaddb), (0xFD, ssePaddw), (0xFE, ssePaddd)]"

definition packed_op :: "u8 \<Rightarrow> xmm_op option" where
  "packed_op op2 = map_of packed_table op2"

definition sse_pfx :: "nat \<Rightarrow> ea \<Rightarrow> pfx" where
  "sse_pfx reg x = (rex64 (8 \<le> reg) (ea_X x) (ea_B x))\<lparr>p_opSize16 := True\<rparr>"

lemmas int_tables = int_60_67_def int_68_6D_def int_74_76_def int_D4_DD_def int_DE_E5_def int_E8_EF_def int_F4_FE_def

lemma packed_op_table: "packed_op op2 = Some f \<Longrightarrow> (op2, f) \<in> set packed_table"
  unfolding packed_op_def by (rule map_of_SomeD)

lemma decodeSSE0F_packed:
  assumes "packed_op op2 = Some f" "isPD p"
  shows "decodeSSE0F op2 p = mr2 p (\<lambda>dst src. execXMM dst src False f)"
  using packed_op_table [OF assms(1)] unfolding packed_table_def list.set
  by (elim insertE emptyE Pair_inject; hypsubst)
     (simp_all add: int_tables decodeSSE0F_def sse_6E_76_def sse_D1_FE_def int_case_def sse_int_def assms(2))

lemma dispatch_0F_packed:
  assumes "packed_op op2 = Some f"
  shows "dispatch_0F X p op2 = dec_sse X p op2"
  using packed_op_table [OF assms] unfolding packed_table_def list.set
  by (elim insertE emptyE Pair_inject; hypsubst) (simp_all add: dispatch_0F_def)

lemma runs_prefix_66:
  assumes "\<not> is_prefix b" "1 < n"
  shows "runs p (prefix_loop n q) (0x66 # b # bs) 1 (q\<lparr>p_opSize16 := True\<rparr>)"
proof -
  obtain m where n: "n = Suc m" "0 < m" using assms(2) by (cases n) auto
  have pre: "prefix_byte 0x66 q = Some (q\<lparr>p_opSize16 := True\<rparr>)" by (simp add: prefix_byte_def)
  have "runs p (bindE (advance 1) (\<lambda>_. prefix_loop m (q\<lparr>p_opSize16 := True\<rparr>))) (0x66 # b # bs) 1 (q\<lparr>p_opSize16 := True\<rparr>)"
    by (rule runs_bind [OF runs_advance, where n' = 0]) (use runs_prefix_none [OF assms(1) n(2)] in simp_all)
  then show ?thesis
    unfolding n prefix_loop.simps by (intro runs_bind [OF runs_peek, where n' = 1]) (simp_all add: pre)
qed

lemma runs_decodeMR2:
  assumes "reg < 16" "ea_ok x" "p_rexR q = (8 \<le> reg)" "p_rexX q = ea_X x" "p_rexB q = ea_B x"
    and f: "runs (p + length (asm_modrm reg x)) (f (vecOperand reg) (applySeg q (ea_operand (p_rexPresent q) x))) cs n y"
    and s: "s = length (asm_modrm reg x) + n"
  shows "runs p (decodeMR2 q f) (asm_modrm reg x @ cs) s y"
  unfolding decodeMR2_def modrm_def assms(3-5)
  by (rule runs_bind [OF runs_modrm [OF assms(1,2)], where n' = n]) (simp_all add: f s)

lemma runs_sse:
  assumes "runs p (dec_ext (x_sse X op2 q)) bs n y"
  shows "runs p (dec_sse X q op2) bs n y"
  unfolding runs_def
proof (intro allI impI)
  fix k :: cursor assume "mem_wf (k_mem k)" "k_pos k = p" "code_at (k_mem k) (k_base k + of_nat p) bs"
  from assms [unfolded runs_def, rule_format, OF this]
  show "\<exists>k'. dec_sse X q op2 k = (Inr y, k') \<and> mem_wf (k_mem k') \<and> k_base k' = k_base k \<and> k_pos k' = p + n \<and>
      code_view (k_mem k') = code_view (k_mem k)"
    unfolding dec_sse_def by (auto split: prod.splits sum.splits)
qed

lemma runs_packed:
  assumes "packed_op op2 = Some f" "reg < 16" "ea_ok x"
  shows "runs 0 (decode_insn sse_ext) (asm_sse op2 x reg @ cs) (length (asm_sse op2 x reg))
    \<lparr>d_len = length (asm_sse op2 x reg), d_insnID = noInsnHook, d_endsBlock = False,
     d_exec = IExt (no_branch (execXMM (vecOperand reg) (ea_operand True x) False f))\<rparr>"
proof -
  define R where "R = rex_byte (8 \<le> reg) (ea_X x) (ea_B x)"
  define q where "q = sse_pfx reg x"
  define L where "L = length (asm_modrm reg x)"
  define F where "F = no_branch (execXMM (vecOperand reg) (ea_operand True x) False f)"
  define D where "D = \<lparr>d_len = 4 + L, d_insnID = noInsnHook, d_endsBlock = False, d_exec = IExt F\<rparr>"
  have q: "p_rexR q = (8 \<le> reg)" "p_rexX q = ea_X x" "p_rexB q = ea_B x" "p_rexPresent q" "\<not> p_segFS q" "\<not> p_segGS q" "isPD q"
    by (simp_all add: q_def sse_pfx_def rex64_def no_pfx_def isPD_def)
  have rexq: "rex_pfx R True (no_pfx\<lparr>p_opSize16 := True\<rparr>) = q"
    using rex_pfx_byte [of "8 \<le> reg" "ea_X x" "ea_B x"] by (simp add: R_def q_def sse_pfx_def rex_pfx_def rex64_def no_pfx_def)
  note R = rex_byte_range [of "8 \<le> reg" "ea_X x" "ea_B x", folded R_def]
  have "runs 4 (x_sse sse_ext op2 q) (asm_modrm reg x @ cs) L F"
    unfolding sse_ext_def ext_decoders.simps decodeSSE0F_packed [OF assms(1) q(7)] mr2_def
    by (rule runs_decodeMR2 [OF assms(2,3) q(1-3), where n = 0])
       (simp_all add: applySeg_none q F_def L_def runs_ret)
  then have "runs 4 (dec_ext (x_sse sse_ext op2 q)) (asm_modrm reg x @ cs) L D"
    unfolding dec_ext_def
    by (rule runs_bind [where n' = 0]) (use runs_finish [of "4 + L"] in \<open>simp_all add: D_def L_def\<close>)
  then have "runs 4 (dispatch_0F sse_ext q op2) (asm_modrm reg x @ cs) L D"
    unfolding dispatch_0F_packed [OF assms(1)] by (rule runs_sse)
  then have "runs 3 (decodeTwoByte sse_ext q) (op2 # asm_modrm reg x @ cs) (1 + L) D"
    unfolding decodeTwoByte_def by (intro runs_u8_bind [where n = L]) (simp_all add: numeral_3_eq_3 [symmetric] del: One_nat_def)
  moreover have "dispatch sse_ext q 0x0F = decodeTwoByte sse_ext q" by (simp add: dispatch_def)
  ultimately have rest: "runs 2 (bindE fetch_u8 (dispatch sse_ext q)) (0x0F # op2 # asm_modrm reg x @ cs) (2 + L) D"
    by (intro runs_u8_bind [where n = "1 + L"]) (simp_all add: numeral_2_eq_2 numeral_3_eq_3)
  let ?bs = "0x0F # op2 # asm_modrm reg x @ cs"
  have rexb: "runs 1 (read_rex (no_pfx\<lparr>p_opSize16 := True\<rparr>)) (R # ?bs) 1 q"
    unfolding read_rex_def
    by (rule runs_bind [OF runs_peek_opt, where n' = 1])
       (use R runs_map [OF runs_advance [of 1 1 "R # ?bs"], of "\<lambda>_. q"] in \<open>simp_all add: rexq\<close>)
  have rex: "runs 1 (decode_rex sse_ext (no_pfx\<lparr>p_opSize16 := True\<rparr>)) (R # ?bs) (3 + L) D"
    unfolding decode_rex_def by (rule runs_bind [where n' = "2 + L", OF rexb]) (use rest in \<open>simp_all add: numeral_2_eq_2\<close>)
  have "runs 0 (decode_insn sse_ext) (0x66 # R # ?bs) (4 + L) D"
    unfolding decode_insn_def
  proof (rule runs_bind [OF runs_prefix_66 [OF R(2)]])
    have ne: "\<not> (R = 0xC4 \<or> R = 0xC5)" using R(1) by auto
    show "runs (0 + 1) (bindE peek_opt (\<lambda>b. case b of None \<Rightarrow> decode_rex sse_ext (no_pfx\<lparr>p_opSize16 := True\<rparr>)
          | Some lead \<Rightarrow> if lead = 0xC4 \<or> lead = 0xC5 then decode_vex sse_ext (no_pfx\<lparr>p_opSize16 := True\<rparr>) lead
              else decode_rex sse_ext (no_pfx\<lparr>p_opSize16 := True\<rparr>)))
        (drop 1 (0x66 # R # ?bs)) (3 + L) D"
      by (simp only: add_0 drop_Suc_Cons drop_0 One_nat_def)
         (rule runs_bind [where n' = "3 + L", OF runs_peek_opt]; use ne rex in simp)
  qed (simp_all add: prefix_fuel_def)
  then show ?thesis
    unfolding asm_sse_def R_def [symmetric] F_def [symmetric] by (simp add: L_def [symmetric] D_def eval_nat_numeral)
qed

text \<open>
  C17. A packed integer instruction, 66 REX 0F op /r, placed at an executable address decodes to the
  operation of its opcode between the vector register of the reg field and the register or memory
  operand of the rm field, with its exact length, for all 49 opcodes and every addressing form.
\<close>

theorem packed_decodes:
  assumes "packed_op op2 = Some f" "reg < 16" "ea_ok x" "mem_wf m" "code_at m a (asm_sse op2 x reg)"
  shows "fst (decodeOne sse_ext a m) = Inr \<lparr>d_len = length (asm_sse op2 x reg), d_insnID = noInsnHook,
     d_endsBlock = False, d_exec = IExt (no_branch (execXMM (vecOperand reg) (ea_operand True x) False f))\<rparr>"
  using decodeOne_runs [OF runs_packed [OF assms(1-3), of "[]"]] assms(4,5) by simp

lemma demo_pxor: "mem_wf (code_mem (asm_sse 0xEF (EReg 9) 3))" "code_at (code_mem (asm_sse 0xEF (EReg 9) 3)) 0x1000 (asm_sse 0xEF (EReg 9) 3)"
  using code_mem_spec [of "asm_sse 0xEF (EReg 9) 3"] by (simp_all add: asm_sse_def asm_modrm_length)

theorem packed_decodes_witness:
  "fst (decodeOne sse_ext 0x1000 (code_mem (asm_sse 0xEF (EReg 9) 3))) = Inr \<lparr>d_len = 5, d_insnID = noInsnHook,
     d_endsBlock = False, d_exec = IExt (no_branch (execXMM (vecOperand 3) (regOperand 9 True) False ssePxor))\<rparr>"
  using packed_decodes [of "0xEF" ssePxor 3 "EReg 9", OF _ _ _ demo_pxor]
  by (simp add: packed_op_def packed_table_def ea_ok_def ea_operand_def asm_sse_def asm_modrm_length)

section \<open>The decoder as the code has it\<close>

text \<open>
  C18. With the code's own vector decoders in place, whatever the bytes: a decoded instruction is well
  formed and has a length, and running it on any registers, to its end or to a fault, leaves the page
  mappings and permissions alone, changes only bytes of writable pages, and writes RIP only when it
  ends by reporting a branch, which only an instruction does that is marked as ending its block; an
  instruction that fails, a call or return included, leaves RIP as it was.
\<close>

theorem real_decoder_safe:
  assumes "mem_wf m" "decodeOne sse_ext a m = (Inr d, m')" "mem_wf (c_mem c)" "exec_insn (d_exec d) c = (r, c')"
  shows "decoded_ok d \<and> 0 < d_len d \<and> mem_step (c_mem c) (c_mem c') \<and>
    (r_rip (c_regs c') \<noteq> r_rip (c_regs c) \<longrightarrow> r = Inr True) \<and> (r = Inr True \<longrightarrow> d_endsBlock d)"
  using sse.decoded(3) [OF assms(1,2) refl] sse.executed [OF assms] by blast

theorem real_decoder_safe_witness:
  "mem_step (c_mem demo_cpu) (c_mem (snd (exec_insn (IExt (no_branch (execXMM (vecOperand 3) (regOperand 9 True) False ssePxor))) demo_cpu)))"
proof -
  have "fst (decodeOne sse_ext 0x1000 (code_mem (asm_sse 0xEF (EReg 9) 3))) = Inr \<lparr>d_len = 5, d_insnID = noInsnHook,
     d_endsBlock = False, d_exec = IExt (no_branch (execXMM (vecOperand 3) (regOperand 9 True) False ssePxor))\<rparr>"
    using decodeOne_runs [OF runs_packed [of "0xEF" ssePxor 3 "EReg 9" "[]"]] demo_pxor
    by (simp add: packed_op_def packed_table_def ea_ok_def ea_operand_def asm_sse_def asm_modrm_length)
  then obtain m' where d: "decodeOne sse_ext 0x1000 (code_mem (asm_sse 0xEF (EReg 9) 3)) = (Inr \<lparr>d_len = 5, d_insnID = noInsnHook,
     d_endsBlock = False, d_exec = IExt (no_branch (execXMM (vecOperand 3) (regOperand 9 True) False ssePxor))\<rparr>, m')"
    by (metis prod.collapse)
  show ?thesis
    using real_decoder_safe [OF demo_pxor(1) d _ prod.collapse [symmetric], of demo_cpu] demo_mem_wf by (simp add: demo_cpu_def)
qed

section \<open>Faults and stores\<close>

text \<open>
  C19. An instruction that one of the four vector decoders produced and that fails, whatever the bytes
  and wherever it fails, has changed no register: it can be run again once the fault is repaired.
\<close>

theorem vector_fault_precise:
  assumes "mem_wf (k_mem k)" "d \<in> {decodeSSE0F op2 p, decodeThreeByte38 p, decodeThreeByte3A p, decodeVexInsn op2 p vx}"
    "d k = (Inr f, k')" "f c = (Inl x, c')"
  shows "c_regs c' = c_regs c"
proof -
  have "dgood d vec_ok" using assms(2) dgood_decodeSSE0F dgood_three_byte dgood_decodeVexInsn by auto
  then have "vec_ok f" using assms(1,3) unfolding dgood_def by blast
  then have "precise f" by (simp add: vec_ok_def)
  from preciseD [OF this, of c x c'] assms(4) show ?thesis by simp
qed

theorem vector_fault_precise_witness:
  "\<exists>e c'. no_branch (execXMM (vecOperand 3) (memOperandBaseIndex 0 True 0 False 1 0x5000) False ssePxor) demo_cpu = (Inl e, c') \<and>
     c_regs c' = newRegisters"
proof -
  let ?x = "EBase 0 (Disp32 0x5000)"
  let ?bs = "asm_modrm 3 ?x"
  let ?f = "no_branch (execXMM (vecOperand 3) (memOperandBaseIndex 0 True 0 False 1 0x5000) False ssePxor)"
  let ?k = "\<lparr>k_base = 0x1000, k_pos = 0, k_mem = code_mem ?bs\<rparr>"
  let ?q = "sse_pfx 3 ?x"
  have "length ?bs \<le> 4096" by (simp add: asm_modrm_length)
  note m = code_mem_spec [OF this]
  have q: "p_rexR ?q = (8 \<le> (3::nat))" "p_rexX ?q = ea_X ?x" "p_rexB ?q = ea_B ?x" "isPD ?q" "\<not> p_segFS ?q" "\<not> p_segGS ?q"
    by (simp_all add: sse_pfx_def rex64_def no_pfx_def isPD_def)
  have "runs 0 (decodeSSE0F 0xEF ?q) (?bs @ []) (length ?bs) ?f"
    unfolding decodeSSE0F_packed [of "0xEF" ssePxor, OF _ q(4), simplified packed_op_def packed_table_def, simplified] mr2_def
    by (rule runs_decodeMR2 [OF _ _ q(1-3), where n = 0])
       (simp_all add: ea_ok_def applySeg_none q ea_operand_def disp_val_def runs_ret)
  then obtain k' where k': "decodeSSE0F 0xEF ?q ?k = (Inr ?f, k')"
    unfolding runs_def using m(1,2) by (auto dest: spec [of _ ?k])
  have "\<not> accessible demo_mem ProtRead (0x5000 + of_nat 0)"
    using demo_mem_map by (simp add: accessible_def)
  from readChecked_fault [OF demo_mem_wf _ this, of 16] obtain e m' where
    rd: "readChecked 0x5000 16 ProtRead (c_mem demo_cpu) = (Inl e, m')" by (auto simp: demo_cpu_def)
  have "effAddr (memOperandBaseIndex 0 True 0 False 1 0x5000) demo_cpu = 0x5000"
    by (simp add: effAddr_def memOperandBaseIndex_def zero_operand_def demo_cpu_def newRegisters_def read64_def)
  then have src: "readXMMOp (memOperandBaseIndex 0 True 0 False 1 0x5000) demo_cpu = (Inl e, demo_cpu\<lparr>c_mem := m'\<rparr>)"
    by (simp add: readXMMOp_def memOperandBaseIndex_def zero_operand_def bindE_def on_mem_def rd)
  have dst: "readXMMOp (vecOperand 3) demo_cpu = (Inr (readXMM 3 (c_regs demo_cpu)), demo_cpu)"
    by (simp add: readXMMOp_def vecOperand_def zero_operand_def regs_def)
  obtain c' where e: "?f demo_cpu = (Inl e, c')"
    by (simp add: no_branch_def execXMM_def bindE_def dst src split: prod.split)
  have "c_regs c' = c_regs demo_cpu"
    by (rule vector_fault_precise [of ?k "decodeSSE0F 0xEF ?q" "0xEF" ?q vx ?f k']) (simp_all add: m k' e)
  then show ?thesis using e by (simp add: demo_cpu_def)
qed

text \<open>
  What a vector store wrote, a load of the same operand reads: 16 and 32 bytes of memory, also
  across pages, or a register. A legacy write of a register keeps the upper half of its YMM register,
  a VEX write clears it.
\<close>

theorem vector_write_read:
  assumes "mem_wf (c_mem c)" "o_kind x = opndMem \<longrightarrow> (\<forall>i<32. accessible (c_mem c) ProtRead (effAddr x c + of_nat i))"
  shows "(writeYMMOp x v c = (Inr (), c') \<longrightarrow> fst (readYMMOp x c') = Inr v) \<and>
    (writeXMMOp x lo hi z c = (Inr (), c') \<longrightarrow> fst (readXMMOp x c') = Inr (lo, hi) \<and>
      (o_kind x \<noteq> opndMem \<longrightarrow> fst (readYMMOp x c') = Inr (lo, hi, if z then (0, 0) else r_ymmHi (c_regs c) (o_reg x))))"
proof (cases "o_kind x = opndMem")
  case True
  have rd: "\<exists>m''. readChecked (effAddr x c) (length bs) ProtRead m' = (Inr bs, m'')"
    if "length bs \<le> 32" "on_mem (writeChecked (effAddr x c) bs ProtWrite) c = (Inr (), c')" "m' = c_mem c'" for bs m'
  proof -
    have "writeChecked (effAddr x c) bs ProtWrite (c_mem c) = (Inr (), m')"
      using that(2,3) by (auto simp: on_mem_def split: prod.splits)
    from mem_write_read_roundtrip [OF assms(1) _ this] show ?thesis using assms(2) True that(1) by fastforce
  qed
  have eff: "effAddr x c' = effAddr x c" if "on_mem (writeChecked a bs ProtWrite) c = (Inr (), c')" for a bs
    using that by (auto simp: on_mem_def split: prod.splits)
  have le8: "leToU64 (u64ToLE w 8) = w" for w :: u64 by (simp add: le_roundtrip)
  obtain a b e f where v: "v = (a, b, e, f)" by (cases v) auto
  show ?thesis
    using rd [of "u64ToLE a 8 @ u64ToLE b 8 @ u64ToLE e 8 @ u64ToLE f 8"] rd [of "u64ToLE lo 8 @ u64ToLE hi 8"] eff
    by (fastforce simp: True v writeYMMOp_def readYMMOp_def writeXMMOp_def readXMMOp_def on_mem_def le8 bindE_def)
next
  case False
  then show ?thesis
    by (auto simp: writeYMMOp_def readYMMOp_def writeXMMOp_def readXMMOp_def regs_def on_regs_def readYMM_def readXMM_def
      writeYMM_def writeXMM_def writeXMMVex_def split: prod.splits)
qed

text \<open>The run stores sixteen bytes across the boundary of two mapped pages.\<close>

theorem vector_write_read_witness:
  "\<exists>c'. writeXMMOp (memOperand 0x1FF8) 1 2 False demo_cpu = (Inr (), c') \<and> fst (readXMMOp (memOperand 0x1FF8) c') = Inr (1, 2)"
proof -
  let ?x = "memOperand 0x1FF8"
  have e: "effAddr ?x demo_cpu = 0x1000 + of_nat 4088" and k: "o_kind ?x = opndMem" and mem: "c_mem demo_cpu = demo_mem"
    by (simp_all add: effAddr_def memOperand_def zero_operand_def demo_cpu_def)
  have acc: "accessible demo_mem req (effAddr ?x demo_cpu + of_nat i)" if "i < 32" "req = ProtRead \<or> req = ProtWrite" for i req
    using demo_mem_accessible [of "4088 + i"] that unfolding e by (auto simp: add.assoc)
  obtain m' where "writeChecked (effAddr ?x demo_cpu) (u64ToLE 1 8 @ u64ToLE 2 8) ProtWrite demo_mem = (Inr (), m')"
    using writeChecked_ok [OF demo_mem_wf, of "u64ToLE 1 8 @ u64ToLE 2 8" ProtWrite "effAddr ?x demo_cpu"] acc by auto
  then have wr: "writeXMMOp ?x 1 2 False demo_cpu = (Inr (), demo_cpu\<lparr>c_mem := m'\<rparr>)"
    by (simp add: writeXMMOp_def k on_mem_def mem)
  from vector_write_read [OF demo_mem_wf [folded mem], of ?x] show ?thesis
    using acc wr by (auto simp: k mem)
qed

end
