(* ===== verification/Sse_Convert.thy ===== *)
theory Sse_Convert
  imports Sse_Float
begin

unbundle bit_operations_syntax

text \<open>
  Exactness of the conversions between integers, \<open>float32\<close> and \<open>float64\<close>: a value that the target
  format represents is not rounded.
\<close>

section \<open>Lengths of significands\<close>

lemma bit_len_0 [simp]: "bit_len 0 = 0"
  by (simp add: bit_len.simps)

lemma bit_len_less: "n < 2 ^ bit_len n"
proof (induction n rule: bit_len.induct)
  case (1 n)
  then show ?case by (cases "n = 0") (simp_all add: bit_len.simps [of n])
qed

lemma bit_len_le: "0 < n \<Longrightarrow> 2 ^ (bit_len n - 1) \<le> n"
proof (induction n rule: bit_len.induct)
  case (1 n)
  show ?case
  proof (cases "n div 2 = 0")
    case True
    then show ?thesis using 1 by (simp add: bit_len.simps [of n])
  next
    case False
    then have "2 ^ (bit_len (n div 2) - 1) \<le> n div 2" using 1 by auto
    moreover have "bit_len (n div 2) = Suc (bit_len (n div 2) - 1)" using False by (simp add: bit_len.simps [of "n div 2"])
    ultimately have "2 ^ bit_len (n div 2) \<le> 2 * (n div 2)" by (metis power_Suc mult_le_mono2)
    then have "2 ^ bit_len (n div 2) \<le> n" using order_trans [OF _ div_times_less_eq_dividend [of n 2]] by (simp add: mult.commute)
    moreover have "n \<noteq> 0" using False by (cases n) auto
    ultimately show ?thesis by (simp add: bit_len.simps [of n])
  qed
qed

lemma bit_len_bound: "n < 2 ^ k \<Longrightarrow> bit_len n \<le> k"
proof (cases "n = 0")
  case False
  assume "n < 2 ^ k"
  then have "2 ^ (bit_len n - 1) < (2::nat) ^ k" using le_less_trans [OF bit_len_le] False by blast
  then show ?thesis by simp
qed simp

lemma bit_len_unique: "2 ^ k \<le> n \<Longrightarrow> n < 2 ^ Suc k \<Longrightarrow> bit_len n = Suc k"
proof -
  assume n: "2 ^ k \<le> n" "n < 2 ^ Suc k"
  then have "0 < n" using less_le_trans [of 0 "2 ^ k" n] by simp
  have "k < bit_len n" using le_less_trans [OF n(1) bit_len_less] by simp
  moreover have "bit_len n - 1 < Suc k" using le_less_trans [OF bit_len_le [OF \<open>0 < n\<close>] n(2)] by (simp del: power_Suc)
  ultimately show "bit_len n = Suc k" by simp
qed

lemma bit_len_shift: "0 < n \<Longrightarrow> bit_len (n * 2 ^ k) = bit_len n + k"
proof -
  assume n: "0 < n"
  then obtain l where l: "bit_len n = Suc l" by (cases "bit_len n") (use bit_len_less [of n] in auto)
  have "2 ^ l \<le> n" "n < 2 ^ Suc l" using bit_len_le [OF n] bit_len_less [of n] l by auto
  then have "2 ^ (l + k) \<le> n * 2 ^ k" "n * 2 ^ k < 2 ^ Suc (l + k)"
    by (simp_all add: power_add)
  from bit_len_unique [OF this] show ?thesis by (simp add: l)
qed

section \<open>Rounding a representable value\<close>

lemma round_half_even_exact: "round_half_even (m * 2 ^ k) k = m"
  by (simp add: round_half_even_def)

text \<open>The significand of \<open>p\<close> bits of a value that has one does not depend on how the value is written.\<close>

lemma round_to_exact:
  assumes "0 < m" "bit_len m \<le> p" "emin \<le> e" "q = max (e + int (bit_len m) - int p) emin"
  shows "round_to p emin (m * 2 ^ k) (e - int k) = (m * 2 ^ nat (e - q), q)"
proof -
  have qe: "q \<le> e" using assms by simp
  have q: "max (e - int k + int (bit_len (m * 2 ^ k)) - int p) emin = q"
    using assms(4) by (simp add: bit_len_shift [OF assms(1)])
  show ?thesis
  proof (cases "q \<le> e - int k")
    case True
    then have "nat (e - q) = k + nat (e - int k - q)" by simp
    then show ?thesis using True by (simp add: round_to_def q power_add)
  next
    case False
    then have "k = nat (e - q) + nat (q - (e - int k))" using qe by simp
    then have "m * 2 ^ k = (m * 2 ^ nat (e - q)) * 2 ^ nat (q - (e - int k))" by (metis mult.assoc power_add)
    then have "round_half_even (m * 2 ^ k) (nat (q - (e - int k))) = m * 2 ^ nat (e - q)" by (simp only: round_half_even_exact)
    then show ?thesis using False by (simp add: round_to_def q)
  qed
qed

lemma round_to_bounds:
  assumes "0 < m" "bit_len m \<le> p" "emin \<le> e" "q = max (e + int (bit_len m) - int p) emin" "M = m * 2 ^ nat (e - q)"
  shows "q \<le> e" "emin \<le> q" "M < 2 ^ p" "M < 2 ^ (p - 1) \<Longrightarrow> q = emin"
proof -
  show q: "q \<le> e" "emin \<le> q" using assms by simp_all
  have len: "bit_len M = bit_len m + nat (e - q)" unfolding assms(5) by (rule bit_len_shift [OF assms(1)])
  have "bit_len M \<le> p" using assms(4) q by (simp add: len) linarith
  then show "M < 2 ^ p" using less_le_trans [OF bit_len_less [of M]] by (metis one_le_numeral power_increasing)
  assume small: "M < 2 ^ (p - 1)"
  have M0: "0 < M" using assms(1,5) by simp
  have "bit_len M - 1 < p - 1" using le_less_trans [OF bit_len_le [OF M0] small] by simp
  then have "bit_len M < p" by simp
  then show "q = emin" using assms(4) q len by linarith
qed

section \<open>Bit patterns\<close>

lemma unat_and_mask: "unat (w AND mask n) = unat w mod 2 ^ n" for w :: "'a::len word"
proof -
  have "unat (w AND mask n) = take_bit n (unat w)" by (simp only: take_bit_eq_mask [symmetric] unsigned_take_bit_eq)
  then show ?thesis by (simp only: take_bit_eq_mod)
qed

lemma unat_field: "unat (drop_bit k w AND mask n) = unat w div 2 ^ k mod 2 ^ n" for w :: "'a::len word"
  by (simp only: unat_and_mask unat_drop_bit_eq) (simp only: drop_bit_eq_div)

lemma top_bit: "bit w n \<longleftrightarrow> 2 ^ n \<le> unat w" if "LENGTH('a) = Suc n" for w :: "'a::len word"
proof -
  have "bit w n \<longleftrightarrow> odd (unat w div 2 ^ n)"
    unfolding bit_iff_odd [symmetric] by (simp add: bit_unsigned_iff)
  moreover have "unat w < 2 ^ LENGTH('a)" by (rule unsigned_less)
  then have "unat w div 2 ^ n < 2" using that by (simp add: less_mult_imp_div_less mult.commute)
  ultimately show ?thesis by (cases "unat w < 2 ^ n") (auto simp: less_2_cases_iff div_eq_0_iff)
qed

lemma f64_fields:
  "f64_exp v = unat v div 2 ^ 52 mod 2 ^ 11" "f64_frac v = unat v mod 2 ^ 52" "f64_sign v \<longleftrightarrow> 2 ^ 63 \<le> unat v"
  using unat_field [of 52 v 11] unat_and_mask [of v 52] top_bit [of 63 v]
  by (simp_all add: f64_exp_def f64_frac_def f64_sign_def mask_eq_exp_minus_1)

lemma f32_fields:
  "unat (drop_bit 23 v AND 0xff) = unat v div 2 ^ 23 mod 2 ^ 8" "unat (v AND 0x7FFFFF) = unat v mod 2 ^ 23"
  "bit v 31 \<longleftrightarrow> 2 ^ 31 \<le> unat v" for v :: u32
  using unat_field [of 23 v 8] unat_and_mask [of v 23] top_bit [of 31 v] by (simp_all add: mask_eq_exp_minus_1)

text \<open>A pattern assembled from sign, biased exponent and fraction has these fields.\<close>

lemma f64_val_assemble:
  assumes "E < 2047" "F < 2 ^ 52" "v = (if s then 0x8000000000000000 else 0) + of_nat (E * 2 ^ 52 + F)"
  shows "f64_val v = (if E = 0 then Fin s F (-1074) else Fin s (2 ^ 52 + F) (int E - 1075))"
proof -
  have b: "E * 2 ^ 52 + F < 2 ^ 63" using assms(1,2) by simp
  then have u: "unat (of_nat (E * 2 ^ 52 + F) :: u64) = E * 2 ^ 52 + F" by (intro unat_of_nat_small) simp
  have v: "unat v = ((if s then 2048 else 0) + E) * 2 ^ 52 + F"
    using b u unfolding assms(3) by (simp add: unat_word_ariths)
  have "f64_sign v \<longleftrightarrow> s" using b by (simp add: f64_fields v)
  moreover have "f64_frac v = F" by (simp only: f64_fields v mod_mult_self3 mod_less [OF assms(2)])
  moreover have "unat v div 2 ^ 52 = (if s then 2048 else 0) + E" using assms(2) by (simp add: v)
  then have "f64_exp v = E" using assms(1) by (simp add: f64_fields)
  ultimately show ?thesis using assms(1) by (simp add: f64_val_def)
qed

lemma f64_val_round:
  assumes "0 < m" "bit_len m \<le> 53" "-1074 \<le> e" "e + int (bit_len m) \<le> 1024"
  obtains M q where "f64_val (f64_round s (m * 2 ^ k) (e - int k)) = Fin s M q" "q \<le> e" "-1074 \<le> q" "M = m * 2 ^ nat (e - q)"
proof
  define q where "q = max (e + int (bit_len m) - int 53) (-1074)"
  define M where "M = m * 2 ^ nat (e - q)"
  note b = round_to_bounds [OF assms(1-3) q_def M_def]
  define B where "B = nat (q + 1074) * 2 ^ 52 + M"
  have q971: "q \<le> 971" using assms(4) unfolding q_def by simp
  show "f64_val (f64_round s (m * 2 ^ k) (e - int k)) = Fin s M q"
  proof (cases "M < 2 ^ 52")
    case True
    then have q: "q = -1074" using b(4) by simp
    have "f64_round s (m * 2 ^ k) (e - int k) = (if s then 0x8000000000000000 else 0) + of_nat (0 * 2 ^ 52 + M)"
      using assms(1) True by (simp add: f64_round_def round_to_exact [OF assms(1-3) q_def] flip: M_def) (simp add: q)
    from f64_val_assemble [OF _ True this] show ?thesis by (simp add: q)
  next
    case False
    define E where "E = nat (q + 1075)"
    have E: "E < 2047" "0 < E" using q971 b(2) by (simp_all add: E_def)
    have F: "M - 2 ^ 52 < 2 ^ 52" using b(3) by simp
    have B: "B = E * 2 ^ 52 + (M - 2 ^ 52)"
    proof -
      have "E = Suc (nat (q + 1074))" using b(2) by (simp add: E_def)
      then show ?thesis using False by (simp add: B_def)
    qed
    have "\<not> B \<ge> 0x7FF0000000000000" using E F by (simp add: B)
    then have "f64_round s (m * 2 ^ k) (e - int k) = (if s then 0x8000000000000000 else 0) + of_nat B"
      using assms(1) by (simp add: f64_round_def round_to_exact [OF assms(1-3) q_def] B_def flip: M_def)
    note this [unfolded B]
    from f64_val_assemble [OF E(1) F this] show ?thesis using E False by (simp add: E_def)
  qed
qed (use assms in auto)

section \<open>Integers\<close>

lemma round_int_exact: "q \<le> 0 \<Longrightarrow> round_int mode s (m * 2 ^ nat (- q)) q = signed_mag s m"
  by (auto simp: round_int_def round_half_even_exact signed_mag_def Let_def zdiv_zminus1_eq_if split: if_splits)

lemma f64_round_0: "f64_round s 0 e = (if s then 0x8000000000000000 else 0)"
  by (simp add: f64_round_def split: prod.split)

lemma f64_val_0: "f64_val 0 = Fin False 0 (- 1074)"
  by (simp add: f64_val_def f64_exp_def f64_frac_def f64_sign_def)

lemma round_int_0: "round_int mode s 0 e = 0"
  using round_half_even_exact [of 0 "nat (- e)"] by (simp add: round_int_def signed_mag_def Let_def)

lemma signed_mag_int: "signed_mag (i < 0) (nat \<bar>i\<bar>) = i"
  by (simp add: signed_mag_def)

lemma f64_val_of_int:
  assumes "i \<noteq> 0" "\<bar>i\<bar> < 2 ^ 53"
  obtains q where "f64_val (f64_of_int i) = Fin (i < 0) (nat \<bar>i\<bar> * 2 ^ nat (- q)) q" "q \<le> 0"
proof -
  define m where "m = nat \<bar>i\<bar>"
  have m: "0 < m" using assms(1) by (simp add: m_def)
  have len: "bit_len m \<le> 53" using assms(2) by (intro bit_len_bound) (simp add: m_def)
  obtain M q where "f64_val (f64_round (i < 0) (m * 2 ^ 0) (0 - int 0)) = Fin (i < 0) M q" "q \<le> 0" "M = m * 2 ^ nat (0 - q)"
    by (rule f64_val_round [OF m len, of 0 "i < 0" 0]) (use len in auto)
  then show thesis using that by (simp add: f64_of_int_def m_def)
qed

text \<open>
  C23. An integer of magnitude below 2^53 survives the conversion to a double and back: CVTSI2SD then
  CVTTSD2SI, or CVTSD2SI, gives the register back, whatever else the vector registers hold.
\<close>

theorem int_double_roundtrip:
  assumes "\<bar>sint v\<bar> < 2 ^ 53"
  shows "sseCvttsd2si (fst (sseCvtsi2sd dlo dhi v)) = v \<and> sseCvtsd2si (fst (sseCvtsi2sd dlo dhi v)) = v"
proof -
  define i where "i = sint v"
  have v: "word_of_int i = v" by (simp add: i_def)
  have rint: "int64_of_f64 (f64_rint mode (f64_of_int i)) = v" for mode
  proof (cases "i = 0")
    case True
    then show ?thesis using v
      by (simp add: f64_of_int_def f64_round_0 f64_rint_def f64_val_0 round_int_0 int64_of_f64_def)
  next
    case False
    obtain q where f: "f64_val (f64_of_int i) = Fin (i < 0) (nat \<bar>i\<bar> * 2 ^ nat (- q)) q" and q: "q \<le> 0"
      using f64_val_of_int [OF False] assms by (auto simp: i_def)
    have "f64_rint mode (f64_of_int i) = f64_of_int i"
      using False by (simp add: f64_rint_def f round_int_exact [OF q] signed_mag_int Let_def) (simp add: f64_of_int_def)
    moreover have "- (2 ^ 63) \<le> i \<and> i < 2 ^ 63" using assms by (simp add: i_def abs_less_iff)
    ultimately show ?thesis by (simp add: int64_of_f64_def f round_int_exact [OF q] signed_mag_int v)
  qed
  then show ?thesis by (simp add: sseCvttsd2si_def sseCvtsd2si_def sseCvtsi2sd_def i_def)
qed

theorem int_double_roundtrip_witness:
  "sseCvttsd2si (fst (sseCvtsi2sd 1 2 (- 7))) = - 7"
  using int_double_roundtrip [of "- 7" 1 2] by simp

section \<open>Single precision\<close>

text \<open>A \<open>float32\<close> is its sign, biased exponent and fraction.\<close>

lemma f32_assemble:
  fixes v :: u32
  defines "x \<equiv> unat v div 2 ^ 23 mod 2 ^ 8" and "f \<equiv> unat v mod 2 ^ 23"
  shows "v = (if bit v 31 then 0x80000000 else 0) + of_nat (x * 2 ^ 23 + f)" "x < 256" "f < 2 ^ 23"
proof -
  define D where "D = unat v div 2 ^ 23"
  have n: "unat v = D * 2 ^ 23 + f" by (simp add: D_def f_def)
  show f: "f < 2 ^ 23" by (simp add: f_def)
  show "x < 256" by (simp add: x_def)
  have "unat v < 2 ^ LENGTH(32)" by (rule unsigned_less)
  then have D: "D < 512" by (simp add: n)
  have s: "bit v 31 \<longleftrightarrow> 256 \<le> D" using f unfolding f32_fields(3) n by auto
  have "D = (if bit v 31 then 256 else 0) + x" using D unfolding s x_def D_def [symmetric] by (auto simp: le_mod_geq)
  then have "unat v = (if bit v 31 then 256 * 2 ^ 23 else 0) + (x * 2 ^ 23 + f)" by (simp add: n)
  then have "of_nat (unat v) = (of_nat ((if bit v 31 then 256 * 2 ^ 23 else 0) + (x * 2 ^ 23 + f)) :: u32)" by (rule arg_cong)
  then show "v = (if bit v 31 then 0x80000000 else 0) + of_nat (x * 2 ^ 23 + f)" by (cases "bit v 31") simp_all
qed

lemma f32_val_cases:
  fixes v :: u32
  defines "x \<equiv> unat v div 2 ^ 23 mod 2 ^ 8" and "f \<equiv> unat v mod 2 ^ 23"
  shows "f32_val v = Fin s m e \<Longrightarrow> s = bit v 31 \<and> x < 255 \<and> m = (if x = 0 then f else 2 ^ 23 + f) \<and> e = (if x = 0 then - 149 else int x - 150)"
    and "f32_val v = Inf s \<Longrightarrow> v = (if s then 0xFF800000 else 0x7F800000)"
proof -
  note val = f32_val_def [of v, unfolded f32_fields(1,2), folded x_def f_def]
  have x: "x < 256" using f32_assemble(2) [of v] by (simp add: x_def)
  show "s = bit v 31 \<and> x < 255 \<and> m = (if x = 0 then f else 2 ^ 23 + f) \<and> e = (if x = 0 then - 149 else int x - 150)"
    if "f32_val v = Fin s m e" using that x by (auto simp: val Let_def split: if_splits)
  show "v = (if s then 0xFF800000 else 0x7F800000)" if "f32_val v = Inf s"
  proof -
    have "x = 255" "f = 0" "s = bit v 31" using that by (auto simp: val Let_def split: if_splits)
    moreover have "v = (if bit v 31 then 0x80000000 else 0) + of_nat (x * 2 ^ 23 + f)"
      using f32_assemble(1) [of v] by (simp only: x_def f_def)
    ultimately show ?thesis by (simp only: if_distrib) (simp split: if_splits)
  qed
qed

lemma f32_round_val:
  assumes "f32_val v = Fin s m e"
  shows "f32_round s (m * 2 ^ k) (e - int k) = v"
proof -
  define x where "x = unat v div 2 ^ 23 mod 2 ^ 8"
  define f where "f = unat v mod 2 ^ 23"
  have s: "s = bit v 31" and x: "x < 255"
    and me: "m = (if x = 0 then f else 2 ^ 23 + f)" "e = (if x = 0 then - 149 else int x - 150)"
    using f32_val_cases(1) [OF assms] by (simp_all only: x_def f_def)
  have f: "f < 2 ^ 23" by (simp add: f_def)
  have v: "v = (if s then 0x80000000 else 0) + of_nat (x * 2 ^ 23 + f)"
    using f32_assemble(1) [of v] by (simp only: s x_def f_def)
  show ?thesis
  proof (cases "m = 0")
    case True
    then have "x = 0" "f = 0" by (simp_all add: me split: if_splits)
    then show ?thesis using True v by (simp add: f32_round_def split: prod.split)
  next
    case False
    then have m: "0 < m" by simp
    have len: "bit_len m \<le> 24" using f by (intro bit_len_bound) (simp add: me)
    have e: "- 149 \<le> e" by (simp add: me)
    define q where "q = max (e + int (bit_len m) - int 24) (- 149)"
    have B: "nat (q + 149) * 2 ^ 23 + m * 2 ^ nat (e - q) = x * 2 ^ 23 + f"
    proof (cases "x = 0")
      case True
      then have "q = - 149" using len by (simp add: q_def me)
      then show ?thesis using True by (simp add: me)
    next
      case False
      then have "bit_len m = 24" using bit_len_unique [of 23 m] f by (simp add: me)
      then have "q = e" using e by (simp add: q_def)
      moreover have "nat (e + 149) = x - 1" "x = Suc (x - 1)" using False by (simp_all add: me)
      ultimately show ?thesis using False by (simp add: me algebra_simps)
    qed
    then show ?thesis using False v x f by (simp add: f32_round_def round_to_exact [OF m len e q_def])
  qed
qed

lemma lo32_put32: "lo32 (put32 d r) = r"
proof -
  have m: "(0xFFFFFFFF :: u64) = mask 32" by (simp add: mask_eq_exp_minus_1)
  show ?thesis unfolding lo32_def put32_def m by (rule bit_word_eqI) (auto simp: bit_simps)
qed

text \<open>
  C22. Every \<open>float32\<close> that is not a NaN survives the conversion to \<open>float64\<close> and back, subnormals,
  zeroes of both signs and infinities included: CVTSS2SD then CVTSD2SS keeps the low lane.
\<close>

theorem single_double_roundtrip:
  assumes "f32_val (lo32 slo) \<noteq> NaN"
  shows "lo32 (fst (sseCvtsd2ss alo ahi (fst (sseCvtss2sd blo bhi slo shi)) chi)) = lo32 slo"
proof -
  let ?v = "lo32 slo"
  have "f32_of_f64 (f64_of_f32 ?v) = ?v"
  proof (cases "f32_val ?v")
    case (Inf s)
    have "f64_val (f64_inf s) = Inf s"
      by (simp add: f64_inf_def f64_val_def f64_exp_def f64_frac_def f64_sign_def)
    then have "f32_of_f64 (f64_of_f32 ?v) = (if s then 0xFF800000 else 0x7F800000)"
      by (simp add: Inf f64_of_f32_def f32_of_f64_def)
    then show ?thesis using f32_val_cases(2) [OF Inf] by (simp only:)
  next
    case (Fin s m e)
    note c = f32_val_cases(1) [OF Fin]
    show ?thesis
    proof (cases "m = 0")
      case True
      then have e: "e = - 149" using c by (auto split: if_splits)
      have "f64_val (if s then 0x8000000000000000 else 0) = Fin s 0 (- 1074)"
        by (simp add: f64_val_def f64_exp_def f64_frac_def f64_sign_def)
      then show ?thesis using f32_round_val [OF Fin, of 925] True e by (simp add: f64_of_f32_def Fin f64_round_0 f32_of_f64_def)
    next
      case False
      have "m < 2 ^ 24" using c f32_assemble(3) [of ?v] by (auto split: if_splits)
      then have len: "bit_len m \<le> 24" by (rule bit_len_bound)
      have e: "- 149 \<le> e" "e \<le> 104" using c by (auto split: if_splits)
      obtain M q where f: "f64_val (f64_round s (m * 2 ^ 0) (e - int 0)) = Fin s M q" "q \<le> e" "M = m * 2 ^ nat (e - q)"
        by (rule f64_val_round [of m e s 0]) (use False len e in auto)
      have "f32_round s M q = ?v" using f32_round_val [OF Fin, of "nat (e - q)"] f(2,3) by simp
      then show ?thesis using f(1) by (simp add: f64_of_f32_def Fin f32_of_f64_def)
    qed
  qed (use assms in simp)
  then show ?thesis by (simp add: sseCvtsd2ss_def sseCvtss2sd_def lo32_put32)
qed

theorem single_double_roundtrip_witness:
  "lo32 (fst (sseCvtsd2ss 5 6 (fst (sseCvtss2sd 7 8 0x3DCCCCCD 0)) 0)) = 0x3DCCCCCD"
  using single_double_roundtrip [of "0x3DCCCCCD" 5 6 7 8 0 0]
  by (simp add: f32_val_def lo32_def)

end
