(* ===== verification/Spec2Isabelle.thy ===== *)
theory Spec2Isabelle
  imports Memory_Laws Exec Decode_Round Insn_Laws Engine_Runs Fds_Laws Elf_Laws Vfs_Spec Run_Laws Process_Image Process_Tree Process_Run
    Sys_Files_Laws Procfs_Laws Sse_Run Sse_Convert
begin

text \<open>
  golinux runs a static or dynamically linked x86-64 Linux program on any host: an interpreter written
  in Go executes its instructions, and its system calls are answered by the emulator over a directory
  of the host. This library models the Go code of \<open>internal/\<close> and proves what makes it correct.

  \<^bold>\<open>The program and its parts.\<close> The command loads an ELF image into the address space of an engine, puts
  arguments and environment on a stack and runs the engine. The engine decodes instructions through a
  cache, compiles straight lines of them into blocks of closures and runs those over registers and
  paged memory; SYSCALL and CPUID call hooks of the process. The SYSCALL hook dispatches to a handler,
  which reads and writes guest memory and works on the process's descriptor table, on the virtual file
  system or on the host, and answers a value for RAX or a signal to the run loop (exit, execve, fork).

  \<^bold>\<open>Theories and code.\<close> \<open>Prelude\<close> has names for Go's integers and the state-and-error combinators: a Go
  function with an \<open>error\<close> result is a function from a state to an error or a value and the new state.

  \<^enum> Memory and instructions, \<open>internal/cpu\<close>. \<open>Guest_Memory\<close>: \<open>memory.go\<close>, pages in an explicit store because
    Go points at them from the page table and from the lookup cache. \<open>Registers\<close>: \<open>registers.go\<close>. \<open>Flags\<close>:
    \<open>flags.go\<close>. \<open>Operand\<close>: \<open>operand.go\<close>. \<open>Exec\<close>: \<open>exec.go\<close>. \<open>Float64\<close>, \<open>X87\<close>: \<open>x87.go\<close>. \<open>Modrm\<close>: \<open>modrm.go\<close>, \<open>vex.go\<close>.
    \<open>Insn\<close> and \<open>Decode\<close>: the closures of \<open>decode.go\<close> and of the scalar half of \<open>twobyte.go\<close> as constructors
    of \<open>insn\<close> that hold what the closure captured, and the decoder that builds them. \<open>Sse\<close>, \<open>Sse_Float\<close>: the
    packed operations of \<open>sse.go\<close>. \<open>Sse_Insn\<close>, \<open>Sse_Decode\<close>: the vector closures and decoders of \<open>twobyte.go\<close>;
    the decoder takes them as its argument \<open>ext_decoders\<close>, and \<open>sse_ext\<close> is the code's own.
  \<^enum> The engine. \<open>Run_Loop\<close>: \<open>cpu.go\<close> and \<open>block.go\<close>; decoded instructions and pages live in stores, so what Go
    shares through pointers is shared here.
  \<^enum> Loading and processes. \<open>Elfload\<close>: \<open>elfload/elf.go\<close>. \<open>Process\<close>: \<open>emulator/emulator.go\<close>; the record \<open>process\<close>
    extends \<open>engine\<close>, as the hooks close over both. \<open>Fds\<close>: \<open>fds/fds.go\<close>.
  \<^enum> Files. \<open>Paths\<close>, \<open>Hostfs\<close>, \<open>Vfs\<close>: \<open>vfs/vfs.go\<close> over a host tree with the calls of package \<open>os\<close>; \<open>Json_Text\<close>:
    what storing a Go map as JSON and reading it back makes of its strings. \<open>Procfs\<close>: \<open>procfs/procfs.go\<close>.
  \<^enum> System calls, \<open>internal/syscalls\<close>. \<open>Sys_Helpers\<close>: \<open>helpers.go\<close>. \<open>Sys_Calls\<close>: \<open>memory.go\<close>, \<open>exit.go\<close>, \<open>arch.go\<close>,
    \<open>process.go\<close>. \<open>Sys_Names\<close>: \<open>dir.go\<close>. \<open>Sys_Meta\<close>: \<open>fs_meta.go\<close>. \<open>Sys_Misc\<close>: \<open>misc.go\<close>, \<open>mount.go\<close>, \<open>time.go\<close>.
    \<open>Sys_Files\<close>, \<open>Sys_IO\<close>: \<open>file.go\<close>, \<open>ioctl.go\<close>, the kinds of open files, \<open>devices/devices.go\<close>. \<open>Sys_Exec\<close>: \<open>fork.go\<close>.
    \<open>Sys_Poll\<close>: \<open>poll.go\<close>, \<open>select.go\<close>. \<open>Sys_Socket\<close>: \<open>socket_impl.go\<close>. \<open>Sys_Dispatch\<close>: \<open>syscalls.go\<close> with the table
    of all 138 registrations. \<open>Sys_Env\<close> is what a handler takes from outside: the answers of the host
    kernel, the order in which Go visits a map, random bytes.

  \<^bold>\<open>What the lemmas show.\<close>

  \<^item> \<open>Memory_Laws\<close>: the paged memory with its cache implements one flat byte map; every access is exact, also
    when it fails in the middle, mapping is all or nothing, and executable bytes change only with the
    code-dirty flag raised. The contract \<open>byte_store\<close> is interpreted on the checked accesses and the host API.
  \<^item> \<open>Flags\<close>, \<open>Registers\<close>, \<open>Operand\<close>, \<open>Exec\<close>: arithmetic and flags at every width, conditions after a
    comparison, multiplication and division, the string instructions with their REP loops.
  \<^item> \<open>Decode_Laws\<close>, \<open>Decode_Round\<close>, \<open>Insn_Laws\<close>, \<open>Rip_Laws\<close>: a decoder step depends on the executable bytes only;
    decoding inverts an assembler of ALU instructions and of every addressing form (register, RIP-relative,
    base and SIB, each with no, an 8-bit or a 32-bit displacement); what it produces is well formed for any
    bytes; running it obeys the permissions of memory, and only an instruction that ends a block and
    says that it branched moves RIP.
  \<^item> \<open>Sse_Ext\<close>, \<open>Sse_Laws\<close>, \<open>Sse_Convert\<close>, \<open>Sse_Run\<close>: \<open>sse_ext\<close> keeps the contract the decoder and the engine rely
    on (\<open>vector_decoders\<close>), closures that fail change no register, packed operations compute what their
    names say lane by lane, conversions of representable values are exact, and assembled packed
    instructions decode to their operations.
  \<^item> \<open>Run_Laws\<close>, \<open>Engine_Laws\<close>, \<open>Engine_Runs\<close>: the invariant of both caches, and that a run of \<open>EmuStart\<close> with
    caches, blocks and hooks is a run of the interpreter that decodes every instruction afresh
    (\<open>interprets (=)\<close>). The code departs from it in one place: the closure of a memory form of BT, BTS, BTR
    or BTC overwrites what it captured, so that run again from a cache it is not the fresh one. The
    theorems therefore say: a fresh interpretation, unless it reaches such an instruction
    (\<open>bt_memory_at\<close>), and in every case one whose closures are the decoded ones after their earlier runs
    (\<open>interprets drifted\<close>).
  \<^item> \<open>Elf_Laws\<close>, \<open>Process_Image\<close>: parsing inverts encoding and panics only on wrapping offsets; segments and
    initial stack are where the System V ABI has them.
  \<^item> \<open>Process_Laws\<close>, \<open>Process_Tree\<close>, \<open>Process_Run\<close>: brk, mmap, fork, wait4 and the end of a run.
  \<^item> \<open>Fds_Laws\<close>: exact reference counts over a whole tree of processes (a step relation and its reachable
    states).
  \<^item> \<open>Vfs_Laws\<close>, \<open>Vfs_Spec\<close>: the sidecar files of all directories implement one map from paths to metadata, for
    names in valid UTF-8 (JSON changes others), and touch nothing else on the host.
  \<^item> \<open>Sys_Laws\<close>, \<open>Sys_Files_Laws\<close>, \<open>Procfs_Laws\<close>: strings and records in guest memory, scripts, polling,
    select, opening, and that /proc is consistent with itself.

  \<^bold>\<open>Bounds and fuel.\<close> Loops that end are total functions with their measure. The loop over legacy prefixes has
  \<open>prefix_fuel\<close> and is proved to end whenever some address is not an executable prefix byte. The run of
  the engine takes its number of turns as an argument, \<open>None\<close> being a run that has not ended; the theorems
  say how many turns are enough. A terminal reads the file behind it with the number of that file as
  fuel, which is enough because the file is older. Integers have their width in Go: \<open>w word\<close>, or \<open>int\<close>
  with the wrap written out.

  \<^bold>\<open>Not modelled.\<close> Floating point is that of the amd64 host (\<open>Float64\<close>, \<open>Sse_Float\<close>): payloads of NaNs, results
  of conversions out of range, no fused operations. Left out are log output, failures of host I/O,
  symbolic links of the host in the middle of a path and exhaustion of memory. JSON text that golinux
  did not write itself (\<open>v_parseMeta\<close>, \<open>v_parseMounts\<close>), \<open>stat\<close> with native permissions, and what a host file, pipe or socket
  answers are parameters. So are the recorded exits of child processes: other interleavings of their
  goroutines, and state a child and its parent share after the fork, are left out. The bytes of a
  regular file after a later write: \<open>mmap\<close> and \<open>pread64\<close> see those it had when it was opened. Hosts other
  than Linux, the Unicorn back end (\<open>internal/uc\<close>, a C library), the command line (\<open>cmd/golinux\<close>) and the
  import of tar archives.
\<close>

end
